(* ===== verification/Prelude.thy ===== *)
theory Prelude
  imports Main "HOL-Library.Sublist" "HOL-Library.Char_ord" "HOL-Library.Finite_Map"
begin

text \<open>
  What every component of the model shares.

  \<^item> Go's \<open>string\<close> and \<open>[]byte\<close> are both sequences of bytes; both are \<open>string\<close> here (a
    \<open>char\<close> is one byte), so \<open>len\<close> is \<open>length\<close>.
  \<^item> Instants (\<open>time.Time\<close>) and durations are integers. A component states its unit
    (nanoseconds, or milliseconds where the code works on \<open>UnixMilli\<close>); the zero
    \<open>time.Time\<close> lies far before every instant the clock returns and is \<open>zero_time\<close>.
  \<^item> A fallible function returns \<open>'e + 'a\<close>: \<open>Inl\<close> the error, \<open>Inr\<close> the value.
  \<^item> HTTP handlers return a \<open>reply\<close>: the status code with the error's message or the data,
    as \<open>writeError\<close> and \<open>writeOK\<close> (cmd/irix-node/instance.go) send them.
\<close>

named_theorems go_simps \<open>equations of the modelled Go library functions\<close>

type_synonym bytes = string
type_synonym instant = int

subsection \<open>The result of a handler\<close>

datatype 'a reply = Fail nat string | Reply 'a

primrec is_reply :: "'a reply \<Rightarrow> bool" where
  "is_reply (Fail c m) = False"
| "is_reply (Reply x) = True"

primrec reply_status :: "'a reply \<Rightarrow> nat" where
  "reply_status (Fail c m) = c"
| "reply_status (Reply x) = 200"

subsection \<open>Lists\<close>

lemma drop_append_right: "n = length xs \<Longrightarrow> drop n (xs @ ys) = ys"
  by simp

lemma take_append_left: "n = length xs \<Longrightarrow> take n (xs @ ys) = xs"
  by simp

definition lastn :: "nat \<Rightarrow> 'a list \<Rightarrow> 'a list" where
  "lastn n xs = drop (length xs - n) xs"

lemma length_lastn [simp]: "length (lastn n xs) = min n (length xs)"
  by (simp add: lastn_def)

lemma lastn_all [simp]: "length xs \<le> n \<Longrightarrow> lastn n xs = xs"
  by (simp add: lastn_def)

lemma lastn_0 [simp]: "lastn 0 xs = []"
  by (simp add: lastn_def)

lemma lastn_append_ge: "n \<le> length ys \<Longrightarrow> lastn n (xs @ ys) = lastn n ys"
  by (simp add: lastn_def)

lemma lastn_append: "lastn n (xs @ ys) = lastn (n - length ys) xs @ lastn n ys"
proof (cases "n \<le> length ys")
  case True
  then show ?thesis by (simp add: lastn_append_ge)
next
  case False
  then have "length (xs @ ys) - n = length xs - (n - length ys)" by simp
  with False show ?thesis by (simp add: lastn_def)
qed

lemma lastn_lastn: "m \<le> n \<Longrightarrow> lastn m (lastn n xs) = lastn m xs"
  by (cases "n \<le> length xs") (simp_all add: lastn_def)

lemma lastn_lastn_append: "lastn n (lastn n xs @ ys) = lastn n (xs @ ys)"
  by (simp add: lastn_append lastn_lastn)

lemma lastn_suffix: "suffix (lastn n xs) xs"
  by (simp add: lastn_def suffix_drop)

subsection \<open>Go maps\<close>

text \<open>
  A Go map is a finite map: \<open>m[k]\<close> with the comma-ok form is \<open>fmlookup m k\<close>, assignment
  \<open>fmupd k v m\<close>, \<open>delete(m, k)\<close> is \<open>fmdrop k m\<close>, \<open>len(m)\<close> is \<open>maplen m\<close>.
\<close>

definition maplen :: "('k, 'v) fmap \<Rightarrow> nat" where
  "maplen m = fcard (fmdom m)"

lemma maplen_empty [simp]: "maplen fmempty = 0"
  by (simp add: maplen_def)

lemma maplen_upd: "maplen (fmupd k v m) = (if k |\<in>| fmdom m then maplen m else Suc (maplen m))"
  by (simp add: maplen_def fcard_finsert_if)

lemma maplen_upd_le: "maplen (fmupd k v m) \<le> Suc (maplen m)"
  by (simp add: maplen_upd)

lemma maplen_drop: "maplen (fmdrop k m) = (if k |\<in>| fmdom m then maplen m - 1 else maplen m)"
  by (simp add: maplen_def fcard_fminus_fsingleton_if)

lemma maplen_drop_le [simp]: "maplen (fmdrop k m) \<le> maplen m"
  by (simp add: maplen_drop)

lemma maplen_filter_le [simp]: "maplen (fmfilter P m) \<le> maplen m"
  unfolding maplen_def by (rule fcard_mono) auto

lemma fmdom_None: "fmlookup m k = None \<longleftrightarrow> k |\<notin>| fmdom m"
  by auto

lemma maplen_pos: "fmlookup m k = Some v \<Longrightarrow> 0 < maplen m"
  unfolding maplen_def by (metis fcard_0_eq fempty_iff fmdomI gr0I)

lemma maplen_set: "distinct xs \<Longrightarrow> fset (fmdom m) = set xs \<Longrightarrow> maplen m = length xs"
  by (simp add: maplen_def fcard.rep_eq distinct_card)

end
