(* ===== verification/LogRing.thy ===== *)
theory LogRing
  imports Prelude
begin

text \<open>
  The bounded log buffer of a running process: \<open>LogBuffer\<close> of cmd/irix-node/process.go.
  The record holds the live slice \<open>buf\<close>, its capacity (the code's \<open>cap(b.buf)\<close>), the index
  of the oldest byte and the bound. The capacity is part of the model because the type's
  contract is also about memory: it never exceeds \<open>maxBytes\<close>.

  Contract (locale \<open>bounded_log\<close>): what a reader sees is the last \<open>maxBytes\<close> bytes of
  everything written so far, in order. The ring is one implementation of it.
\<close>

record LogBuffer =
  buf :: bytes
  bufcap :: nat
  ring_start :: nat
  maxBytes :: nat

definition NewLogBuffer :: "int \<Rightarrow> LogBuffer" where
  "NewLogBuffer n =
     \<lparr>buf = [], bufcap = 0, ring_start = 0,
      maxBytes = nat (if n \<le> 0 then 2 * 1024 * 1024 else n)\<rparr>"

text \<open>
  \<open>growTo\<close>: the doubling loop \<open>for newCap < need { newCap *= 2 }\<close> and the clamp. The loop
  starts from a positive capacity, so it ends; from 0 it would not, and the value is \<open>None\<close>.
\<close>

partial_function (option) double_until :: "nat \<Rightarrow> nat \<Rightarrow> nat option" where
  "double_until c need = (if c < need then double_until (c * 2) need else Some c)"

definition growTo :: "LogBuffer \<Rightarrow> nat \<Rightarrow> LogBuffer option" where
  "growTo b need =
     (if bufcap b \<ge> need then Some b
      else map_option (\<lambda>c. b\<lparr>bufcap := (if c > maxBytes b then maxBytes b else c)\<rparr>)
             (double_until (if bufcap b = 0 then 32 * 1024 else bufcap b) need))"

text \<open>Go's \<open>copy(dst[at:], p)\<close>: overwrites as many bytes as fit, and returns how many.\<close>

definition copy_at :: "bytes \<Rightarrow> nat \<Rightarrow> bytes \<Rightarrow> bytes" where
  "copy_at dst at p = take at dst @ take (length dst - at) p @ drop (at + length p) dst"

text \<open>
  The overwrite loop of a full ring. An empty buffer, or a start outside it, would never make
  progress: then the loop does not return (\<open>None\<close>).
\<close>

partial_function (option) ring_overwrite :: "LogBuffer \<Rightarrow> bytes \<Rightarrow> LogBuffer option" where
  "ring_overwrite b p =
     (if p = [] then Some b
      else let n = min (length (buf b) - ring_start b) (length p) in
        ring_overwrite
          (b\<lparr>buf := copy_at (buf b) (ring_start b) p,
             ring_start := (ring_start b + n) mod length (buf b)\<rparr>)
          (drop n p))"

text \<open>
  \<open>append(b.buf, p[:n]...)\<close> stays in place while the capacity is enough; otherwise the runtime
  would reallocate, to at least the new length (which the code's \<open>growTo\<close> is there to avoid).
\<close>

definition append_buf :: "LogBuffer \<Rightarrow> bytes \<Rightarrow> LogBuffer" where
  "append_buf b q =
     b\<lparr>buf := buf b @ q, bufcap := max (bufcap b) (length (buf b) + length q)\<rparr>"

definition LogBuffer_Write :: "LogBuffer \<Rightarrow> bytes \<Rightarrow> (LogBuffer \<times> nat) option" where
  "LogBuffer_Write b p =
     (let total = length p in
      if length p \<ge> maxBytes b then
        Some (b\<lparr>bufcap := (if bufcap b < maxBytes b then maxBytes b else bufcap b),
                buf := drop (length p - maxBytes b) p,
                ring_start := 0\<rparr>, total)
      else if length (buf b) < maxBytes b then
        let room = maxBytes b - length (buf b);
            n = (if length p > room then room else length p) in
        (case growTo b (length (buf b) + n) of
           None \<Rightarrow> None
         | Some g \<Rightarrow>
             let b' = append_buf g (take n p); p' = drop n p in
             if p' = [] then Some (b', total)
             else map_option (\<lambda>r. (r, total)) (ring_overwrite b' p'))
      else map_option (\<lambda>r. (r, total)) (ring_overwrite b p))"

definition LogBuffer_Tail :: "LogBuffer \<Rightarrow> int \<Rightarrow> bytes" where
  "LogBuffer_Tail b sizeKB =
     (let want = (if sizeKB > 0 \<and> nat sizeKB * 1024 < length (buf b)
                  then nat sizeKB * 1024 else length (buf b)) in
      if want = 0 then []
      else if want \<le> ring_start b then
        take want (drop (ring_start b - want) (buf b))
      else
        let fromFirst = want - ring_start b in
        drop (length (buf b) - fromFirst) (buf b) @ take (ring_start b) (buf b))"

definition LogBuffer_Len :: "LogBuffer \<Rightarrow> nat" where
  "LogBuffer_Len b = length (buf b)"

subsection \<open>Invariant and abstraction\<close>

text \<open>The logical content: oldest byte first.\<close>

definition log_view :: "LogBuffer \<Rightarrow> bytes" where
  "log_view b = drop (ring_start b) (buf b) @ take (ring_start b) (buf b)"

definition ring_ok :: "LogBuffer \<Rightarrow> bool" where
  "ring_ok b \<longleftrightarrow>
     0 < maxBytes b \<and> length (buf b) \<le> bufcap b \<and> bufcap b \<le> maxBytes b \<and>
     (ring_start b = 0 \<or> (ring_start b < length (buf b) \<and> length (buf b) = maxBytes b))"

lemma ring_okD:
  assumes "ring_ok b"
  shows "0 < maxBytes b" "length (buf b) \<le> maxBytes b" "bufcap b \<le> maxBytes b"
    "length (buf b) \<le> bufcap b" "length (buf b) < maxBytes b \<Longrightarrow> ring_start b = 0"
    "length (buf b) = maxBytes b \<Longrightarrow> ring_start b < maxBytes b"
  using assms by (auto simp: ring_ok_def)

lemma length_log_view [simp]: "ring_ok b \<Longrightarrow> length (log_view b) = length (buf b)"
  by (auto simp: log_view_def ring_ok_def)

lemma ring_ok_New: "ring_ok (NewLogBuffer n)"
  by (simp add: ring_ok_def NewLogBuffer_def)

lemma log_view_New: "log_view (NewLogBuffer n) = []"
  by (simp add: log_view_def NewLogBuffer_def)


subsection \<open>The loops end, and what they compute\<close>

lemma double_until_ends: "0 < c \<Longrightarrow> \<exists>r. double_until c need = Some r \<and> need \<le> r \<and> c \<le> r"
proof (induction "need - c" arbitrary: c rule: less_induct)
  case less
  show ?case
  proof (cases "c < need")
    case False
    then show ?thesis by (simp add: double_until.simps)
  next
    case True
    with less.prems have "need - c * 2 < need - c" "0 < c * 2" by auto
    from less.hyps [OF this] obtain r
      where "double_until (c * 2) need = Some r" "need \<le> r" "c * 2 \<le> r" by blast
    with True show ?thesis by (simp add: double_until.simps [of c])
  qed
qed

lemma growTo_Some:
  assumes "ring_ok b" "need \<le> maxBytes b"
  shows "\<exists>c. growTo b need = Some (b\<lparr>bufcap := c\<rparr>) \<and> bufcap b \<le> c \<and> need \<le> c \<and> c \<le> maxBytes b"
proof (cases "bufcap b \<ge> need")
  case True
  with assms show ?thesis
    by (intro exI [of _ "bufcap b"]) (auto simp: growTo_def ring_ok_def)
next
  case False
  define c0 where "c0 = (if bufcap b = 0 then 32 * 1024 else bufcap b)"
  have "0 < c0" "bufcap b \<le> c0" by (auto simp: c0_def)
  then obtain r where r: "double_until c0 need = Some r" "need \<le> r" "bufcap b \<le> r"
    using double_until_ends le_trans by blast
  with False assms show ?thesis
    by (intro exI [of _ "if r > maxBytes b then maxBytes b else r"])
       (auto simp: growTo_def c0_def [symmetric] ring_ok_def)
qed

text \<open>One turn of the overwrite loop drops the oldest bytes and appends the new ones.\<close>

lemma copy_at_length: "at \<le> length dst \<Longrightarrow> length (copy_at dst at p) = length dst"
  by (simp add: copy_at_def min_def)

lemma overwrite_turn:
  assumes ok: "ring_ok b" and full: "length (buf b) = maxBytes b" and n: "n = min (length (buf b) - ring_start b) (length p)"
    and b': "b' = b\<lparr>buf := copy_at (buf b) (ring_start b) p,
                    ring_start := (ring_start b + n) mod length (buf b)\<rparr>"
  shows "ring_ok b'" "log_view b' = drop n (log_view b) @ take n p"
    "length (buf b') = maxBytes b'" "maxBytes b' = maxBytes b"
proof -
  let ?s = "ring_start b" and ?L = "length (buf b)"
  from ok full have s: "?s < ?L" and L: "0 < ?L" by (auto simp: ring_ok_def)
  have len: "length (copy_at (buf b) ?s p) = ?L" using s by (simp add: copy_at_length)
  show "length (buf b') = maxBytes b'" "maxBytes b' = maxBytes b" using len full b' by simp_all
  have sn: "?s + n \<le> ?L" using n s by simp
  show "ring_ok b'"
    using ok full len L b' by (auto simp: ring_ok_def)
  show "log_view b' = drop n (log_view b) @ take n p"
  proof (cases "?s + n = ?L")
    case True
    then have "drop (?s + length p) (buf b) = []" and "?L - ?s = n" using n by auto
    with True s b' len show ?thesis
      by (simp add: log_view_def copy_at_def)
  next
    case False
    with sn n have "n = length p" "?s + n < ?L" by auto
    with s b' len show ?thesis
      by (simp add: log_view_def copy_at_def min_def add.commute)
  qed
qed

lemma ring_overwrite_spec:
  "ring_ok b \<Longrightarrow> length (buf b) = maxBytes b \<Longrightarrow>
   \<exists>r. ring_overwrite b p = Some r \<and> ring_ok r \<and> maxBytes r = maxBytes b \<and>
     log_view r = lastn (maxBytes b) (log_view b @ p)"
proof (induction "length p" arbitrary: b p rule: less_induct)
  case less
  note ok = less.prems(1) and full = less.prems(2)
  show ?case
  proof (cases "p = []")
    case True
    with ok full show ?thesis by (simp add: ring_overwrite.simps)
  next
    case False
    define n where "n = min (length (buf b) - ring_start b) (length p)"
    define b' where "b' = b\<lparr>buf := copy_at (buf b) (ring_start b) p,
                            ring_start := (ring_start b + n) mod length (buf b)\<rparr>"
    note turn = overwrite_turn [OF ok full n_def b'_def]
    from ok full have "ring_start b < length (buf b)" by (auto simp: ring_ok_def)
    with False have "length (drop n p) < length p" by (auto simp: n_def)
    from less.hyps [OF this turn(1,3)] obtain r where r:
      "ring_overwrite b' (drop n p) = Some r" "ring_ok r" "maxBytes r = maxBytes b'"
      "log_view r = lastn (maxBytes b') (log_view b' @ drop n p)" by blast
    have "log_view b' @ drop n p = drop n (log_view b @ p)"
      using turn(2) ok full by (simp add: n_def)
    moreover have "lastn (maxBytes b) (drop n (log_view b @ p)) = lastn (maxBytes b) (log_view b @ p)"
      using ok full by (simp add: lastn_def n_def)
    ultimately have "log_view r = lastn (maxBytes b) (log_view b @ p)"
      using r(4) turn(4) by simp
    with r turn(4) False show ?thesis
      by (subst ring_overwrite.simps) (simp add: Let_def n_def [symmetric] b'_def [symmetric])
  qed
qed


subsection \<open>Write and Tail against the contract\<close>

lemma LogBuffer_Write_spec:
  assumes ok: "ring_ok b"
  shows "\<exists>r. LogBuffer_Write b p = Some (r, length p) \<and> ring_ok r \<and> maxBytes r = maxBytes b \<and>
           log_view r = lastn (maxBytes b) (log_view b @ p)"
proof -
  consider (big) "length p \<ge> maxBytes b"
    | (room) "length p < maxBytes b" "length (buf b) < maxBytes b"
    | (full) "length p < maxBytes b" "length (buf b) = maxBytes b"
    using ring_okD(2) [OF ok] by linarith
  then show ?thesis
  proof cases
    case big
    with ok show ?thesis
      by (auto simp: LogBuffer_Write_def Let_def ring_ok_def log_view_def lastn_append_ge lastn_def)
  next
    case full
    with ring_overwrite_spec [OF ok full(2), of p] show ?thesis
      by (auto simp: LogBuffer_Write_def Let_def)
  next
    case room
    define n where "n = (if length p > maxBytes b - length (buf b) then maxBytes b - length (buf b) else length p)"
    have need: "length (buf b) + n \<le> maxBytes b" using room by (auto simp: n_def)
    from growTo_Some [OF ok this] obtain c where c:
      "growTo b (length (buf b) + n) = Some (b\<lparr>bufcap := c\<rparr>)"
      "bufcap b \<le> c" "length (buf b) + n \<le> c" "c \<le> maxBytes b" by blast
    define b' where "b' = append_buf (b\<lparr>bufcap := c\<rparr>) (take n p)"
    have n_le: "n \<le> length p" by (auto simp: n_def)
    have start0: "ring_start b = 0" using ring_okD(5) [OF ok room(2)] .
    have b': "buf b' = buf b @ take n p" "bufcap b' = c" "ring_start b' = 0" "maxBytes b' = maxBytes b"
      using c(2,3) n_le start0 by (simp_all add: b'_def append_buf_def)
    have ok': "ring_ok b'"
      using ok b' c(3,4) n_le by (simp add: ring_ok_def)
    have view': "log_view b' = log_view b @ take n p"
      using b' start0 by (simp add: log_view_def)
    have W: "LogBuffer_Write b p =
        (if drop n p = [] then Some (b', length p)
         else map_option (\<lambda>r. (r, length p)) (ring_overwrite b' (drop n p)))"
      using room c(1) by (simp add: LogBuffer_Write_def Let_def n_def [symmetric] b'_def [symmetric])
    show ?thesis
    proof (cases "drop n p = []")
      case True
      then have tp: "take n p = p" by simp
      with need n_le have "length (log_view b @ p) \<le> maxBytes b" using ok by simp
      with True W ok' view' b'(4) tp show ?thesis by simp
    next
      case False
      then have "n = maxBytes b - length (buf b)" by (auto simp: n_def split: if_splits)
      with room n_le b' have "length (buf b') = maxBytes b'" by simp
      from ring_overwrite_spec [OF ok' this, of "drop n p"] obtain r where r:
        "ring_overwrite b' (drop n p) = Some r" "ring_ok r" "maxBytes r = maxBytes b'"
        "log_view r = lastn (maxBytes b') (log_view b' @ drop n p)" by blast
      have "log_view b' @ drop n p = log_view b @ p" by (simp add: view')
      with r W False b'(4) show ?thesis by simp
    qed
  qed
qed

lemma LogBuffer_Tail_spec:
  assumes ok: "ring_ok b"
  shows "LogBuffer_Tail b kb =
    (if kb > 0 then lastn (nat kb * 1024) (log_view b) else log_view b)"
proof -
  define want where "want = (if kb > 0 \<and> nat kb * 1024 < length (buf b)
    then nat kb * 1024 else length (buf b))"
  have want_le: "want \<le> length (buf b)" by (simp add: want_def)
  have "LogBuffer_Tail b kb = lastn want (log_view b)"
  proof (cases "want \<le> ring_start b")
    case True
    with ok have "take want (drop (ring_start b - want) (buf b)) = lastn want (take (ring_start b) (buf b))"
      by (auto simp: lastn_def ring_ok_def min_def drop_take)
    with True ok show ?thesis
      by (auto simp: LogBuffer_Tail_def Let_def want_def [symmetric] log_view_def lastn_append_ge ring_ok_def)
  next
    case False
    then have "drop (length (buf b) - (want - ring_start b)) (buf b) =
        lastn (want - ring_start b) (drop (ring_start b) (buf b))"
      using want_le by (simp add: lastn_def)
    with False ok want_le show ?thesis
      by (auto simp: LogBuffer_Tail_def Let_def want_def [symmetric] log_view_def lastn_append ring_ok_def)
  qed
  then show ?thesis using ok by (auto simp: want_def)
qed

subsection \<open>The contract, and the ring as an implementation of it\<close>

locale bounded_log =
  fixes bl_write :: "'b \<Rightarrow> bytes \<Rightarrow> ('b \<times> nat) option"
    and bl_view :: "'b \<Rightarrow> bytes"
    and bl_limit :: "'b \<Rightarrow> nat"
    and bl_ok :: "'b \<Rightarrow> bool"
  assumes write_total: "bl_ok b \<Longrightarrow>
      \<exists>r. bl_write b p = Some (r, length p) \<and> bl_ok r \<and> bl_limit r = bl_limit b \<and>
          bl_view r = lastn (bl_limit b) (bl_view b @ p)"
    and view_bound: "bl_ok b \<Longrightarrow> length (bl_view b) \<le> bl_limit b"
begin

primrec write_all :: "'b \<Rightarrow> bytes list \<Rightarrow> 'b option" where
  "write_all b [] = Some b"
| "write_all b (p # ps) =
     (case bl_write b p of None \<Rightarrow> None | Some (r, _) \<Rightarrow> write_all r ps)"

lemma write_all_view:
  "bl_ok b \<Longrightarrow> \<exists>r. write_all b ps = Some r \<and> bl_ok r \<and> bl_limit r = bl_limit b \<and>
     bl_view r = lastn (bl_limit b) (bl_view b @ concat ps)"
proof (induction ps arbitrary: b)
  case Nil
  then show ?case using view_bound by simp
next
  case (Cons p ps)
  from write_total [OF Cons.prems, of p] obtain r where r:
    "bl_write b p = Some (r, length p)" "bl_ok r" "bl_limit r = bl_limit b"
    "bl_view r = lastn (bl_limit b) (bl_view b @ p)" by blast
  from Cons.IH [OF r(2)] r show ?case
    by (auto simp: lastn_lastn_append)
qed

end

interpretation ring: bounded_log LogBuffer_Write log_view maxBytes ring_ok
  by unfold_locales (auto simp: LogBuffer_Write_spec dest: ring_okD(2))

text \<open>A stream of writes, as the output-copying goroutines make them.\<close>

primrec LogBuffer_Writes :: "LogBuffer \<Rightarrow> bytes list \<Rightarrow> LogBuffer option" where
  "LogBuffer_Writes b [] = Some b"
| "LogBuffer_Writes b (p # ps) =
     (case LogBuffer_Write b p of None \<Rightarrow> None | Some (r, _) \<Rightarrow> LogBuffer_Writes r ps)"

lemma LogBuffer_Writes_eq: "LogBuffer_Writes b ps = ring.write_all b ps"
  by (induction ps arbitrary: b) (auto split: option.splits)

text \<open>
  C8. Whatever is written, in whatever pieces, every write returns, reports all its bytes as
  written, and a reader then sees exactly the last \<open>maxBytes\<close> bytes of the whole stream (the
  last \<open>sizeKB\<close> kilobytes of those when a size is asked for); length and capacity stay within
  the bound.
\<close>

theorem log_ring_refines_last_bytes:
  "\<exists>r. LogBuffer_Writes (NewLogBuffer n) ps = Some r \<and>
     LogBuffer_Tail r kb =
       (let seen = lastn (maxBytes (NewLogBuffer n)) (concat ps) in
        if kb > 0 then lastn (nat kb * 1024) seen else seen) \<and>
     LogBuffer_Len r = min (maxBytes (NewLogBuffer n)) (length (concat ps)) \<and>
     bufcap r \<le> maxBytes (NewLogBuffer n)"
proof -
  from ring.write_all_view [OF ring_ok_New, of n ps] obtain r where r:
    "ring.write_all (NewLogBuffer n) ps = Some r" "ring_ok r" "maxBytes r = maxBytes (NewLogBuffer n)"
    "log_view r = lastn (maxBytes (NewLogBuffer n)) (concat ps)"
    by (auto simp: log_view_New)
  moreover have "LogBuffer_Len r = length (log_view r)" using r(2) by (simp add: LogBuffer_Len_def)
  ultimately show ?thesis
    by (auto simp: LogBuffer_Writes_eq LogBuffer_Tail_spec Let_def dest: ring_okD(3))
qed

end
