(* ===== verification/LineLog.thy ===== *)
theory LineLog
  imports GoLib
begin

text \<open>
  Lines of process output: the splitter that cuts a byte stream into lines (\<open>lineSplitter\<close>),
  and the time-stamped ring of recent lines that a reconnecting console is served from
  (\<open>logLines\<close>), both of cmd/irix-node/process.go. The splitter's \<open>emit\<close> callback is the list of
  emitted lines each operation returns; the mutex makes each operation one step.
\<close>

subsection \<open>The splitter\<close>

definition maxLogLineBytes :: nat where
  "maxLogLineBytes = 8192"

record lineSplitter =
  carry :: bytes

definition clip_line :: "string \<Rightarrow> string" where
  "clip_line s = (if length s > maxLogLineBytes then drop (length s - maxLogLineBytes) s else s)"

definition emit_text :: "bytes \<Rightarrow> string" where
  "emit_text line = clip_line (if HasSuffix line [CR] then take (length line - 1) line else line)"

text \<open>The loop of \<open>Write\<close>: complete lines are emitted (empty ones are not), the rest remains.\<close>

function split_loop :: "bytes \<Rightarrow> string list \<times> bytes" where
  "split_loop data =
     (case index_byte NL data of
        None \<Rightarrow> ([], data)
      | Some i \<Rightarrow>
          let line = take i data; (ls, rest) = split_loop (drop (i + 1) data) in
          ((if length line > 0 then emit_text line # ls else ls), rest))"
  by pat_completeness auto
termination
  by (relation "measure length") (auto dest: index_byte_SomeD)

declare split_loop.simps [simp del]

definition splitter_Write :: "lineSplitter \<Rightarrow> bytes \<Rightarrow> lineSplitter \<times> string list \<times> nat" where
  "splitter_Write s p =
     (let (ls, rest) = split_loop (carry s @ p) in (s\<lparr>carry := rest\<rparr>, ls, length p))"

definition splitter_flush :: "lineSplitter \<Rightarrow> lineSplitter \<times> string list" where
  "splitter_flush s =
     (if length (carry s) > 0 then (s\<lparr>carry := []\<rparr>, [clip_line (carry s)]) else (s, []))"

text \<open>A stream of writes: the lines they emit, in order.\<close>

primrec splitter_Writes :: "lineSplitter \<Rightarrow> bytes list \<Rightarrow> lineSplitter \<times> string list" where
  "splitter_Writes s [] = (s, [])"
| "splitter_Writes s (p # ps) =
     (let (s1, l1, _) = splitter_Write s p; (s2, l2) = splitter_Writes s1 ps in (s2, l1 @ l2))"

lemma split_loop_no_newline: "NL \<notin> set d \<Longrightarrow> split_loop d = ([], d)"
  by (subst split_loop.simps) (simp add: go_simps option.case_eq_if)

lemma split_loop_newline:
  assumes "NL \<notin> set l"
  shows "split_loop (l @ NL # r) =
    ((if l \<noteq> [] then emit_text l # fst (split_loop r) else fst (split_loop r)), snd (split_loop r))"
proof -
  have "index_byte NL (l @ NL # r) = Some (length l)"
    using assms by (simp add: index_byte_append_right)
  then show ?thesis by (subst split_loop.simps) (simp add: split_beta Let_def)
qed

lemma split_loop_rest: "NL \<notin> set (snd (split_loop d))"
proof (induction d rule: length_induct)
  case (1 d)
  show ?case
  proof (cases "NL \<in> set d")
    case False
    then show ?thesis by (simp add: split_loop_no_newline)
  next
    case True
    then obtain l r where d: "d = l @ NL # r" "NL \<notin> set l" by (meson split_list_first)
    with 1 have "NL \<notin> set (snd (split_loop r))" by simp
    with d show ?thesis by (simp add: split_loop_newline)
  qed
qed

text \<open>Splitting is incremental: a prefix's remainder is all a later write needs.\<close>

lemma split_loop_append:
  "split_loop (xs @ ys) =
     (fst (split_loop xs) @ fst (split_loop (snd (split_loop xs) @ ys)),
      snd (split_loop (snd (split_loop xs) @ ys)))"
proof (induction xs rule: length_induct)
  case (1 xs)
  show ?case
  proof (cases "NL \<in> set xs")
    case False
    then show ?thesis by (simp add: split_loop_no_newline)
  next
    case True
    then obtain l r where xs: "xs = l @ NL # r" "NL \<notin> set l" by (meson split_list_first)
    with 1 have IH: "split_loop (r @ ys) =
      (fst (split_loop r) @ fst (split_loop (snd (split_loop r) @ ys)),
       snd (split_loop (snd (split_loop r) @ ys)))" by simp
    show ?thesis using xs by (simp add: split_loop_newline IH)
  qed
qed

lemma splitter_Writes_concat:
  "NL \<notin> set (carry s) \<Longrightarrow>
   splitter_Writes s ps =
     (s\<lparr>carry := snd (split_loop (carry s @ concat ps))\<rparr>, fst (split_loop (carry s @ concat ps)))"
proof (induction ps arbitrary: s)
  case Nil
  then show ?case by (simp add: split_loop_no_newline)
next
  case (Cons p ps)
  define s1 where "s1 = s\<lparr>carry := snd (split_loop (carry s @ p))\<rparr>"
  have "NL \<notin> set (carry s1)" by (simp add: s1_def split_loop_rest)
  from Cons.IH [OF this] show ?case
    using split_loop_append [of "carry s @ p" "concat ps"]
    by (simp add: splitter_Write_def split_beta Let_def s1_def)
qed

lemma clip_line_bound: "length (clip_line s) \<le> maxLogLineBytes"
  by (simp add: clip_line_def)

text \<open>What the loop computes, without the loop: the terminated, non-empty lines of the data.\<close>

lemma split_loop_split_on:
  "split_loop d = (map emit_text (filter (\<lambda>l. l \<noteq> []) (butlast (split_on NL d))), last (split_on NL d))"
proof (induction d rule: length_induct)
  case (1 d)
  have no: "NL \<notin> set d \<Longrightarrow> split_on NL d = [d]" for d
    by (induction d) auto
  have nl: "NL \<notin> set l \<Longrightarrow> split_on NL (l @ NL # r) = l # split_on NL r" for l r
    by (induction l) auto
  show ?case
  proof (cases "NL \<in> set d")
    case False
    then show ?thesis by (simp add: split_loop_no_newline no)
  next
    case True
    then obtain l r where d: "d = l @ NL # r" "NL \<notin> set l" by (meson split_list_first)
    with 1 have "split_loop r =
      (map emit_text (filter (\<lambda>l. l \<noteq> []) (butlast (split_on NL r))), last (split_on NL r))" by simp
    with d show ?thesis by (simp add: split_loop_newline nl)
  qed
qed

text \<open>
  However the output is cut into writes, the splitter emits the same lines and keeps the same
  remainder: the non-empty newline-terminated lines of the whole stream, each without its
  carriage return and clipped to 8 KiB, and the unterminated rest.
\<close>

theorem splitter_chunking_independent:
  "splitter_Writes \<lparr>carry = []\<rparr> ps =
     (\<lparr>carry = last (split_on NL (concat ps))\<rparr>,
      map emit_text (filter (\<lambda>l. l \<noteq> []) (butlast (split_on NL (concat ps)))))"
  by (subst splitter_Writes_concat) (simp_all add: split_loop_split_on)

lemma split_loop_clipped: "l \<in> set (fst (split_loop d)) \<Longrightarrow> length l \<le> maxLogLineBytes"
  by (auto simp: split_loop_split_on emit_text_def clip_line_bound)

text \<open>
  The 8 KiB bound holds of every emitted line, the flushed rest included, but not of the
  splitter's own buffer: output without a newline is carried whole, however long it grows.
\<close>

theorem splitter_line_bound_not_carry_bound:
  "list_all (\<lambda>l. length l \<le> 8192)
     (let (s, ls) = splitter_Writes \<lparr>carry = []\<rparr> ps in ls @ snd (splitter_flush s)) \<and>
   carry (fst (splitter_Writes \<lparr>carry = []\<rparr> [replicate n CHR ''x''])) = replicate n CHR ''x''"
proof
  show "list_all (\<lambda>l. length l \<le> 8192)
     (let (s, ls) = splitter_Writes \<lparr>carry = []\<rparr> ps in ls @ snd (splitter_flush s))"
    using split_loop_clipped clip_line_bound
    by (fastforce simp: splitter_Writes_concat splitter_flush_def maxLogLineBytes_def list_all_iff)
  have "NL \<notin> set (replicate n CHR ''x'')" by simp
  then show "carry (fst (splitter_Writes \<lparr>carry = []\<rparr> [replicate n CHR ''x''])) = replicate n CHR ''x''"
    by (simp add: splitter_Writes_concat split_loop_no_newline del: splitter_Writes.simps)
qed

subsection \<open>The ring of recent lines\<close>

record timedLine =
  line_ts :: int
  line_text :: string

record logLines =
  log_lines :: "timedLine list"
  lines_max :: nat

definition newLogLines :: "int \<Rightarrow> logLines" where
  "newLogLines m = \<lparr>log_lines = [], lines_max = nat (if m \<le> 0 then 1000 else m)\<rparr>"

definition logLines_add :: "logLines \<Rightarrow> instant \<Rightarrow> string \<Rightarrow> logLines" where
  "logLines_add l now text =
     (let ls = (if length (log_lines l) \<ge> lines_max l then drop 1 (log_lines l) else log_lines l) in
      l\<lparr>log_lines := ls @ [\<lparr>line_ts = now, line_text = text\<rparr>]\<rparr>)"

definition lines_out :: "timedLine list \<Rightarrow> string" where
  "lines_out ls = concat (map (\<lambda>ln. line_text ln @ [NL]) ls)"

definition logLines_since :: "logLines \<Rightarrow> int \<Rightarrow> string" where
  "logLines_since l ms = lines_out (filter (\<lambda>ln. line_ts ln > ms) (log_lines l))"

definition logLines_tail :: "logLines \<Rightarrow> int \<Rightarrow> string" where
  "logLines_tail l n =
     (let k = (if n \<le> 0 \<or> n > int (length (log_lines l)) then length (log_lines l) else nat n) in
      lines_out (drop (length (log_lines l) - k) (log_lines l)))"

definition logLines_clear :: "logLines \<Rightarrow> logLines" where
  "logLines_clear l = l\<lparr>log_lines := []\<rparr>"

definition logLines_add_all :: "logLines \<Rightarrow> timedLine list \<Rightarrow> logLines" where
  "logLines_add_all l ts = foldl (\<lambda>l t. logLines_add l (line_ts t) (line_text t)) l ts"

lemma logLines_add_view:
  "0 < lines_max l \<Longrightarrow> length (log_lines l) \<le> lines_max l \<Longrightarrow>
   logLines_add l (line_ts t) (line_text t) = l\<lparr>log_lines := lastn (lines_max l) (log_lines l @ [t])\<rparr>"
  by (cases "log_lines l") (auto simp: logLines_add_def lastn_def Let_def)

lemma logLines_add_all_view:
  "0 < lines_max l \<Longrightarrow> length (log_lines l) \<le> lines_max l \<Longrightarrow>
   logLines_add_all l ts = l\<lparr>log_lines := lastn (lines_max l) (log_lines l @ ts)\<rparr>"
proof (induction ts rule: rev_induct)
  case Nil
  then show ?case by (simp add: logLines_add_all_def)
next
  case (snoc t ts)
  then have IH: "logLines_add_all l ts = l\<lparr>log_lines := lastn (lines_max l) (log_lines l @ ts)\<rparr>" by simp
  have "logLines_add_all l (ts @ [t]) = logLines_add (logLines_add_all l ts) (line_ts t) (line_text t)"
    by (simp add: logLines_add_all_def)
  then show ?case using snoc.prems
    by (simp add: IH logLines_add_view lastn_lastn_append)
qed

text \<open>Lines stamped by a clock that does not go back: the newer ones are a suffix.\<close>

lemma filter_newer_suffix:
  "sorted (map line_ts ts) \<Longrightarrow> filter (\<lambda>ln. line_ts ln > ms) ts = dropWhile (\<lambda>ln. line_ts ln \<le> ms) ts"
proof (induction ts)
  case (Cons t ts)
  show ?case
  proof (cases "line_ts t \<le> ms")
    case False
    with Cons.prems have "\<forall>x \<in> set ts. ms < line_ts x" by fastforce
    with False show ?thesis by (simp add: filter_id_conv)
  qed (use Cons in simp)
qed simp

lemma sorted_map_lastn: "sorted (map f ts) \<Longrightarrow> sorted (map f (lastn n ts))"
  by (simp add: lastn_def drop_map [symmetric] sorted_wrt_drop)

lemma dropWhile_drop_short:
  "length (dropWhile P xs) \<le> n \<Longrightarrow> dropWhile P (lastn n xs) = dropWhile P xs"
proof (induction xs)
  case Nil
  then show ?case by (simp add: lastn_def)
next
  case (Cons x xs)
  show ?case
  proof (cases "length (x # xs) \<le> n")
    case True
    then show ?thesis by simp
  next
    case False
    then have "P x" using Cons.prems by (cases "P x") auto
    moreover have "lastn n (x # xs) = lastn n xs" using False by (simp add: lastn_def Suc_diff_le)
    ultimately show ?thesis using Cons by simp
  qed
qed

text \<open>
  A console that reconnects with the time stamp of the last line it saw gets, in order, every
  line logged after it: the whole tail of the run, provided no more than the ring's capacity
  of lines came in between (and the clock did not go back).
\<close>

theorem reconnect_gets_every_newer_line:
  assumes "sorted (map line_ts ts)"
    and "length (filter (\<lambda>ln. line_ts ln > ms) ts) \<le> lines_max (newLogLines m)"
  shows "logLines_since (logLines_add_all (newLogLines m) ts) ms =
         lines_out (dropWhile (\<lambda>ln. line_ts ln \<le> ms) ts)"
proof -
  have "log_lines (logLines_add_all (newLogLines m) ts) = lastn (lines_max (newLogLines m)) ts"
    by (subst logLines_add_all_view) (auto simp: newLogLines_def)
  then show ?thesis
    using assms filter_newer_suffix [OF assms(1), of ms]
    by (simp add: logLines_since_def filter_newer_suffix sorted_map_lastn dropWhile_drop_short)
qed

theorem reconnect_witness:
  "logLines_since (logLines_add_all (newLogLines 2)
      [\<lparr>line_ts = 1, line_text = ''a''\<rparr>, \<lparr>line_ts = 2, line_text = ''b''\<rparr>, \<lparr>line_ts = 5, line_text = ''c''\<rparr>]) 1
   = ''b'' @ [NL] @ ''c'' @ [NL]"
  by (subst reconnect_gets_every_newer_line) (simp_all add: newLogLines_def lines_out_def)

end
