(* ===== verification/Registries.thy ===== *)
theory Registries
  imports GoLib
begin

text \<open>
  The node's three id-keyed registries of bounded size: asynchronous tasks (\<open>taskStore\<close>,
  cmd/irix-node/jobs.go), container jobs (\<open>jobStore\<close>, container.go) and direct-transfer tickets
  (\<open>ticketStore\<close>, download.go). Instants are nanoseconds. \<open>newUUID()\<close> is random, so the id a
  \<open>create\<close> call draws is an argument; that it is not already in the table is a hypothesis where
  it matters. The locale \<open>bounded_registry\<close> is the contract the three share.
\<close>

locale bounded_registry =
  fixes reg_look :: "'s \<Rightarrow> string \<Rightarrow> 'v option"
    and reg_add :: "'s \<Rightarrow> 'a \<Rightarrow> string \<Rightarrow> 's option"
    and reg_new :: "'a \<Rightarrow> 'v"
    and reg_count :: "'s \<Rightarrow> nat"
    and reg_cap :: nat
    and reg_ok :: "'s \<Rightarrow> bool"
  assumes add_found: "reg_ok s \<Longrightarrow> reg_look s i = None \<Longrightarrow> reg_add s a i = Some t \<Longrightarrow>
      reg_look t i = Some (reg_new a)"
    and add_others: "reg_ok s \<Longrightarrow> reg_look s i = None \<Longrightarrow> reg_add s a i = Some t \<Longrightarrow> j \<noteq> i \<Longrightarrow>
      reg_look t j = reg_look s j \<or> reg_look t j = None"
    and add_ok: "reg_ok s \<Longrightarrow> reg_look s i = None \<Longrightarrow> reg_add s a i = Some t \<Longrightarrow> reg_ok t"
    and ok_bound: "reg_ok s \<Longrightarrow> reg_count s \<le> reg_cap"
begin

text \<open>A run of creations; a refused one (\<open>None\<close>) leaves the registry as it was.\<close>

primrec add_run :: "'s \<Rightarrow> ('a \<times> string) list \<Rightarrow> 's" where
  "add_run s [] = s"
| "add_run s (x # xs) = add_run (case reg_add s (fst x) (snd x) of None \<Rightarrow> s | Some t \<Rightarrow> t) xs"

lemma add_run_ok:
  "reg_ok s \<Longrightarrow> distinct (map snd xs) \<Longrightarrow> (\<And>x. x \<in> set xs \<Longrightarrow> reg_look s (snd x) = None) \<Longrightarrow>
   reg_ok (add_run s xs)"
proof (induction xs arbitrary: s)
  case (Cons x xs)
  define t where "t = (case reg_add s (fst x) (snd x) of None \<Rightarrow> s | Some t \<Rightarrow> t)"
  have new: "reg_look s (snd x) = None" using Cons.prems(3) by simp
  have "reg_ok t"
    using Cons.prems(1) new add_ok by (auto simp: t_def split: option.splits)
  moreover have "reg_look t (snd y) = None" if "y \<in> set xs" for y
  proof -
    have "snd x \<notin> snd ` set xs" using Cons.prems(2) by simp
    then have "snd y \<noteq> snd x" using that by (metis image_eqI)
    moreover have "reg_look s (snd y) = None" using that Cons.prems(3) by simp
    ultimately show ?thesis
      using add_others [OF Cons.prems(1) new, of "fst x" _ "snd y"]
      by (fastforce simp: t_def split: option.splits)
  qed
  ultimately have "reg_ok (add_run t xs)" using Cons.prems(2) by (intro Cons.IH) auto
  then show ?case by (simp add: t_def)
qed simp

lemma add_run_bounded:
  "reg_ok s \<Longrightarrow> distinct (map snd xs) \<Longrightarrow> (\<And>x. x \<in> set xs \<Longrightarrow> reg_look s (snd x) = None) \<Longrightarrow>
   reg_count (add_run s xs) \<le> reg_cap"
  by (rule ok_bound [OF add_run_ok])

end

subsection \<open>Asynchronous tasks\<close>

datatype task_status = TaskRunning | TaskDone | TaskFailed

record task =
  tstatus :: task_status
  percent :: rat
  tmessage :: string
  tpath :: string
  terr :: "string option"
  createdAt :: instant

record taskStore =
  tasks :: "(string, task) fmap"
  torder :: "string list"

definition maxTasks :: nat where
  "maxTasks = 1024"

definition taskTTL :: int where
  "taskTTL = 2 * 3600 * 10 ^ 9"

definition task_set :: "task \<Rightarrow> task_status \<Rightarrow> rat \<Rightarrow> string \<Rightarrow> string \<Rightarrow> task" where
  "task_set t st pc msg path = t\<lparr>tstatus := st, percent := pc, tmessage := msg, tpath := path\<rparr>"

definition task_setError :: "task \<Rightarrow> string \<Rightarrow> task" where
  "task_setError t e = t\<lparr>tstatus := TaskFailed, percent := -1, tmessage := e, terr := Some e\<rparr>"

text \<open>What the progress endpoint shows; the path only when there is one.\<close>

definition task_snapshot :: "task \<Rightarrow> task_status \<times> rat \<times> string \<times> string option" where
  "task_snapshot t =
     (tstatus t, percent t, tmessage t, if tpath t \<noteq> [] then Some (tpath t) else None)"

definition newTaskStore :: taskStore where
  "newTaskStore = \<lparr>tasks = fmempty, torder = []\<rparr>"

definition task_expired :: "instant \<Rightarrow> task \<Rightarrow> bool" where
  "task_expired now t =
     (let finished = tstatus t = TaskDone \<or> tstatus t = TaskFailed in
      finished \<and> now - createdAt t > taskTTL)"

text \<open>
  The scan of \<open>create\<close>: the first dangling or expired id in creation order is taken out
  (\<open>append(s.order[:i], s.order[i+1:]...)\<close>), then the loop breaks.
\<close>

fun evict_scan :: "instant \<Rightarrow> (string, task) fmap \<Rightarrow> string list \<Rightarrow> (string, task) fmap \<times> string list" where
  "evict_scan now m [] = (m, [])"
| "evict_scan now m (i # is) =
     (case fmlookup m i of
        None \<Rightarrow> (m, is)
      | Some t \<Rightarrow>
          if task_expired now t then (fmdrop i m, is)
          else let (m', is') = evict_scan now m is in (m', i # is'))"

definition task_create :: "taskStore \<Rightarrow> instant \<Rightarrow> string \<Rightarrow> taskStore" where
  "task_create s now uid =
     (let (m, ord) =
        (if maplen (tasks s) \<ge> maxTasks then
           let (m1, o1) = evict_scan now (tasks s) (torder s) in
           (if maplen m1 \<ge> maxTasks \<and> length o1 > 0 then (fmdrop (hd o1) m1, tl o1) else (m1, o1))
         else (tasks s, torder s)) in
      s\<lparr>tasks := fmupd uid \<lparr>tstatus = TaskRunning, percent = -1, tmessage = [], tpath = [],
                              terr = None, createdAt = now\<rparr> m,
        torder := ord @ [uid]\<rparr>)"

definition task_get :: "taskStore \<Rightarrow> string \<Rightarrow> task option" where
  "task_get s i = fmlookup (tasks s) i"

text \<open>A job reports through its task object; an evicted task is no longer in the store.\<close>

definition task_update :: "taskStore \<Rightarrow> string \<Rightarrow> (task \<Rightarrow> task) \<Rightarrow> taskStore" where
  "task_update s i f =
     (case fmlookup (tasks s) i of None \<Rightarrow> s | Some t \<Rightarrow> s\<lparr>tasks := fmupd i (f t) (tasks s)\<rparr>)"

fun cleanup_scan :: "instant \<Rightarrow> (string, task) fmap \<Rightarrow> string list \<Rightarrow> (string, task) fmap \<times> string list" where
  "cleanup_scan now m [] = (m, [])"
| "cleanup_scan now m (i # is) =
     (case fmlookup m i of
        None \<Rightarrow> cleanup_scan now m is
      | Some t \<Rightarrow>
          if task_expired now t then cleanup_scan now (fmdrop i m) is
          else let (m', keep) = cleanup_scan now m is in (m', i # keep))"

definition cleanupOnce :: "taskStore \<Rightarrow> instant \<Rightarrow> taskStore" where
  "cleanupOnce s now =
     (let (m, keep) = cleanup_scan now (tasks s) (torder s) in s\<lparr>tasks := m, torder := keep\<rparr>)"

definition writeTaskStatus :: "taskStore \<Rightarrow> string \<Rightarrow> (task_status \<times> rat \<times> string \<times> string option) reply" where
  "writeTaskStatus s jobId =
     (if jobId = [] then Fail 400 ''missing jobId''
      else case task_get s jobId of
        None \<Rightarrow> Fail 400 ''task does not exist or has expired''
      | Some t \<Rightarrow> Reply (task_snapshot t))"

subsubsection \<open>The table and the creation order agree\<close>

definition tasks_ok :: "taskStore \<Rightarrow> bool" where
  "tasks_ok s \<longleftrightarrow> distinct (torder s) \<and> fset (fmdom (tasks s)) = set (torder s) \<and>
     length (torder s) \<le> maxTasks"

lemma tasks_ok_New: "tasks_ok newTaskStore"
  by (simp add: tasks_ok_def newTaskStore_def)

lemma tasks_ok_len: "tasks_ok s \<Longrightarrow> maplen (tasks s) = length (torder s)"
  by (simp add: tasks_ok_def maplen_set)

lemma tasks_ok_get: "tasks_ok s \<Longrightarrow> task_get s i = None \<longleftrightarrow> i \<notin> set (torder s)"
  unfolding tasks_ok_def task_get_def fmdom_None by auto

lemma tasks_ok_dom: "tasks_ok s \<Longrightarrow> k |\<in>| fmdom (tasks s) \<longleftrightarrow> k \<in> set (torder s)"
  unfolding tasks_ok_def by auto

definition expired_id :: "instant \<Rightarrow> (string, task) fmap \<Rightarrow> string \<Rightarrow> bool" where
  "expired_id now m i = (case fmlookup m i of None \<Rightarrow> False | Some t \<Rightarrow> task_expired now t)"

definition first_expired :: "instant \<Rightarrow> (string, task) fmap \<Rightarrow> string list \<Rightarrow> string option" where
  "first_expired now m is = find (expired_id now m) is"

lemma first_expired_SomeD:
  "first_expired now m is = Some i \<Longrightarrow> i \<in> set is \<and> expired_id now m i"
  by (auto simp: first_expired_def find_Some_iff)

lemma evict_scan_eq:
  "set is \<subseteq> fset (fmdom m) \<Longrightarrow>
   evict_scan now m is =
     (case first_expired now m is of None \<Rightarrow> (m, is) | Some i \<Rightarrow> (fmdrop i m, remove1 i is))"
proof (induction "is")
  case Nil
  then show ?case by (simp add: first_expired_def)
next
  case (Cons i "is")
  then obtain t where t: "fmlookup m i = Some t" by (auto elim: fmdomE)
  show ?case
  proof (cases "task_expired now t")
    case True
    with t show ?thesis by (simp add: first_expired_def expired_id_def)
  next
    case False
    then have ni: "\<not> expired_id now m i" using t by (simp add: expired_id_def)
    then have eq: "first_expired now m (i # is) = first_expired now m is"
      by (simp add: first_expired_def)
    have "evict_scan now m (i # is) = (let (m', is') = evict_scan now m is in (m', i # is'))"
      using t False by simp
    then show ?thesis
      using Cons ni first_expired_SomeD [of now m "is"] by (auto simp: eq split: option.splits)
  qed
qed

text \<open>The id a full store gives up to make room: the first expired task, else the oldest one.\<close>

definition victim :: "taskStore \<Rightarrow> instant \<Rightarrow> string" where
  "victim s now = (case first_expired now (tasks s) (torder s) of None \<Rightarrow> hd (torder s) | Some i \<Rightarrow> i)"

lemma task_create_full:
  assumes ok: "tasks_ok s" and full: "length (torder s) = maxTasks"
  shows "task_create s now uid =
    s\<lparr>tasks := fmupd uid \<lparr>tstatus = TaskRunning, percent = -1, tmessage = [], tpath = [],
                          terr = None, createdAt = now\<rparr> (fmdrop (victim s now) (tasks s)),
      torder := remove1 (victim s now) (torder s) @ [uid]\<rparr>"
proof -
  have sub: "set (torder s) \<subseteq> fset (fmdom (tasks s))" using ok by (simp add: tasks_ok_def)
  have len: "maplen (tasks s) = maxTasks" using tasks_ok_len [OF ok] full by simp
  show ?thesis
  proof (cases "first_expired now (tasks s) (torder s)")
    case None
    have "torder s \<noteq> []" using full by (auto simp: maxTasks_def)
    moreover have "evict_scan now (tasks s) (torder s) = (tasks s, torder s)"
      using None by (simp add: evict_scan_eq [OF sub])
    ultimately show ?thesis using None len
      by (cases "torder s") (simp_all add: task_create_def victim_def)
  next
    case (Some i)
    have i: "i |\<in>| fmdom (tasks s)" using first_expired_SomeD [OF Some] sub by auto
    then have "maplen (fmdrop i (tasks s)) < maxTasks"
      using len maxTasks_def by (simp add: maplen_drop)
    with Some len show ?thesis
      by (simp add: task_create_def evict_scan_eq [OF sub] victim_def)
  qed
qed

lemma task_create_room:
  assumes "tasks_ok s" and "length (torder s) < maxTasks"
  shows "task_create s now uid =
    s\<lparr>tasks := fmupd uid \<lparr>tstatus = TaskRunning, percent = -1, tmessage = [], tpath = [],
                          terr = None, createdAt = now\<rparr> (tasks s),
      torder := torder s @ [uid]\<rparr>"
  using assms tasks_ok_len [OF assms(1)] by (simp add: task_create_def)

lemma victim_in: "tasks_ok s \<Longrightarrow> length (torder s) = maxTasks \<Longrightarrow> victim s now \<in> set (torder s)"
  by (cases "torder s") (auto simp: victim_def maxTasks_def dest: first_expired_SomeD split: option.splits)

lemma task_create_ok:
  assumes ok: "tasks_ok s" and new: "task_get s uid = None"
  shows "tasks_ok (task_create s now uid)"
proof -
  have uid: "uid \<notin> set (torder s)" using new tasks_ok_get [OF ok] by simp
  show ?thesis
  proof (cases "length (torder s) < maxTasks")
    case True
    with ok uid show ?thesis by (auto simp: task_create_room tasks_ok_def)
  next
    case False
    then have full: "length (torder s) = maxTasks" using ok by (simp add: tasks_ok_def)
    have "0 < maxTasks" by (simp add: maxTasks_def)
    note v = victim_in [OF ok full, of now]
    from ok have d: "distinct (torder s)" "fset (fmdom (tasks s)) = set (torder s)"
      by (simp_all add: tasks_ok_def)
    then have "fset (fmdom (fmdrop (victim s now) (tasks s))) = set (remove1 (victim s now) (torder s))"
      by (simp add: set_remove1_eq)
    with d uid v full \<open>0 < maxTasks\<close> show ?thesis
      unfolding task_create_full [OF ok full] tasks_ok_def
      by (simp add: length_remove1 distinct_remove1 set_remove1_eq)
  qed
qed

lemma task_update_frame:
  "torder (task_update s i f) = torder s" "fmdom (tasks (task_update s i f)) = fmdom (tasks s)"
  by (cases "fmlookup (tasks s) i"; simp add: task_update_def finsert_absorb fmdomI)+

lemma task_update_ok: "tasks_ok s \<Longrightarrow> tasks_ok (task_update s i f)"
  unfolding tasks_ok_def by (simp only: task_update_frame)

lemma cleanup_scan_eq:
  "distinct is \<Longrightarrow>
   cleanup_scan now m is =
     (fmfilter (\<lambda>k. \<not> (k \<in> set is \<and> expired_id now m k)) m,
      filter (\<lambda>i. fmlookup m i \<noteq> None \<and> \<not> expired_id now m i) is)"
proof (induction "is" arbitrary: m)
  case Nil
  then show ?case by (simp add: fmfilter_true)
next
  case (Cons i "is")
  show ?case
  proof (cases "fmlookup m i")
    case None
    with Cons show ?thesis by (auto simp: expired_id_def intro!: fmfilter_cong)
  next
    case (Some t)
    show ?thesis
    proof (cases "task_expired now t")
      case True
      have same: "expired_id now (fmdrop i m) j = expired_id now m j \<and> fmlookup (fmdrop i m) j = fmlookup m j"
        if "j \<in> set is" for j using that Cons.prems by (auto simp: expired_id_def)
      then have "filter (\<lambda>j. fmlookup (fmdrop i m) j \<noteq> None \<and> \<not> expired_id now (fmdrop i m) j) is =
            filter (\<lambda>j. fmlookup m j \<noteq> None \<and> \<not> expired_id now m j) is"
        by (intro filter_cong) auto
      moreover have "fmfilter (\<lambda>k. \<not> (k \<in> set is \<and> expired_id now (fmdrop i m) k)) (fmdrop i m) =
          fmfilter (\<lambda>k. \<not> (k \<in> set (i # is) \<and> expired_id now m k)) m"
        using Some True same by (intro fmap_ext) (auto simp: expired_id_def)
      ultimately show ?thesis using Some True Cons by (simp add: expired_id_def)
    next
      case False
      with Some Cons show ?thesis by (auto simp: expired_id_def intro!: fmap_ext)
    qed
  qed
qed

lemma cleanupOnce_eq:
  "tasks_ok s \<Longrightarrow> cleanupOnce s now = s\<lparr>
     tasks := fmfilter (\<lambda>k. \<not> (k \<in> set (torder s) \<and> expired_id now (tasks s) k)) (tasks s),
     torder := filter (\<lambda>i. fmlookup (tasks s) i \<noteq> None \<and> \<not> expired_id now (tasks s) i) (torder s)\<rparr>"
  by (simp add: cleanupOnce_def cleanup_scan_eq tasks_ok_def)

lemma cleanupOnce_get:
  assumes ok: "tasks_ok s"
  shows "task_get (cleanupOnce s now) i =
     (case task_get s i of None \<Rightarrow> None | Some t \<Rightarrow> if task_expired now t then None else Some t)"
proof (cases "fmlookup (tasks s) i")
  case None
  then show ?thesis by (simp add: task_get_def cleanupOnce_eq [OF ok])
next
  case (Some t)
  then have "i \<in> set (torder s)" using tasks_ok_get [OF ok, of i] by (simp add: task_get_def)
  with Some show ?thesis by (simp add: task_get_def cleanupOnce_eq [OF ok] expired_id_def)
qed

lemma cleanupOnce_order:
  assumes ok: "tasks_ok s"
  shows "torder (cleanupOnce s now) = filter (\<lambda>i. task_get (cleanupOnce s now) i \<noteq> None) (torder s)"
proof -
  have "fmlookup (tasks s) i \<noteq> None \<and> \<not> expired_id now (tasks s) i \<longleftrightarrow> task_get (cleanupOnce s now) i \<noteq> None" for i
    unfolding cleanupOnce_get [OF ok] by (auto simp: task_get_def expired_id_def split: option.splits)
  then have "filter (\<lambda>i. fmlookup (tasks s) i \<noteq> None \<and> \<not> expired_id now (tasks s) i) (torder s) =
      filter (\<lambda>i. task_get (cleanupOnce s now) i \<noteq> None) (torder s)" by presburger
  moreover have "torder (cleanupOnce s now) =
      filter (\<lambda>i. fmlookup (tasks s) i \<noteq> None \<and> \<not> expired_id now (tasks s) i) (torder s)"
    by (simp add: cleanupOnce_eq [OF ok])
  ultimately show ?thesis by simp
qed

lemma cleanupOnce_ok:
  assumes ok: "tasks_ok s"
  shows "tasks_ok (cleanupOnce s now)"
proof -
  have "k |\<in>| fmdom (tasks (cleanupOnce s now)) \<longleftrightarrow> k \<in> set (torder (cleanupOnce s now))" for k
  proof -
    have "k |\<in>| fmdom (tasks (cleanupOnce s now)) \<longleftrightarrow> task_get (cleanupOnce s now) k \<noteq> None"
      unfolding task_get_def fmdom_None by simp
    also have "\<dots> \<longleftrightarrow> k \<in> set (torder s) \<and> task_get (cleanupOnce s now) k \<noteq> None"
      using tasks_ok_get [OF ok, of k] by (auto simp: cleanupOnce_get [OF ok])
    also have "\<dots> \<longleftrightarrow> k \<in> set (torder (cleanupOnce s now))"
      by (subst cleanupOnce_order [OF ok]) simp
    finally show ?thesis .
  qed
  moreover have "distinct (torder (cleanupOnce s now))" "length (torder (cleanupOnce s now)) \<le> maxTasks"
    using ok by (subst cleanupOnce_order [OF ok]; auto simp: tasks_ok_def intro: le_trans [OF length_filter_le])+
  ultimately show ?thesis unfolding tasks_ok_def by blast
qed

subsubsection \<open>Every reachable task store\<close>

inductive tasks_reach :: "taskStore \<Rightarrow> bool" where
  start: "tasks_reach newTaskStore"
| create: "tasks_reach s \<Longrightarrow> task_get s uid = None \<Longrightarrow> tasks_reach (task_create s now uid)"
| update: "tasks_reach s \<Longrightarrow> tasks_reach (task_update s i f)"
| cleanup: "tasks_reach s \<Longrightarrow> tasks_reach (cleanupOnce s now)"

lemma tasks_reach_ok: "tasks_reach s \<Longrightarrow> tasks_ok s"
  by (induction rule: tasks_reach.induct)
     (simp_all add: tasks_ok_New task_create_ok task_update_ok cleanupOnce_ok)

lemma task_create_get:
  assumes "tasks_ok s" "task_get s uid = None"
  shows "task_get (task_create s now uid) j =
    (if j = uid then Some \<lparr>tstatus = TaskRunning, percent = -1, tmessage = [], tpath = [],
                          terr = None, createdAt = now\<rparr>
     else if length (torder s) = maxTasks \<and> j = victim s now then None else task_get s j)"
proof (cases "length (torder s) < maxTasks")
  case True
  with assms show ?thesis by (simp add: task_create_room task_get_def)
next
  case False
  with assms(1) have "length (torder s) = maxTasks" by (simp add: tasks_ok_def)
  with assms show ?thesis by (simp add: task_create_full task_get_def)
qed

interpretation task_reg: bounded_registry task_get
  "\<lambda>s now uid. Some (task_create s now uid)"
  "\<lambda>now. \<lparr>tstatus = TaskRunning, percent = -1, tmessage = [], tpath = [], terr = None, createdAt = now\<rparr>"
  "\<lambda>s. maplen (tasks s)" maxTasks tasks_ok
proof unfold_locales
  fix s :: taskStore and a i j t
  assume h: "tasks_ok s" "task_get s i = None" "Some (task_create s a i) = Some t" "j \<noteq> i"
  then show "task_get t j = task_get s j \<or> task_get t j = None"
    using task_create_get [OF h(1,2), of a j] by (simp split: if_splits)
next
  fix s :: taskStore
  assume "tasks_ok s"
  then show "maplen (tasks s) \<le> maxTasks" using tasks_ok_len by (simp add: tasks_ok_def)
qed (auto simp: task_create_get task_create_ok)

text \<open>
  In every reachable task store the table and the creation order list the same tasks, once
  each (no dangling id is ever left behind), and there are at most 1024 of them.
\<close>

theorem task_store_bounded_and_consistent:
  assumes "tasks_reach s"
  shows "maplen (tasks s) \<le> 1024 \<and> maplen (tasks s) = length (torder s) \<and> distinct (torder s) \<and>
    (task_get s i \<noteq> None \<longleftrightarrow> i \<in> set (torder s))"
  using tasks_reach_ok [OF assms] tasks_ok_get [of s i]
  by (auto simp: tasks_ok_len) (simp_all add: tasks_ok_def maxTasks_def)

theorem task_store_witness:
  "maplen (tasks (task_create newTaskStore 0 ''a'')) \<le> 1024"
proof -
  have "task_get newTaskStore ''a'' = None" by (simp add: task_get_def newTaskStore_def)
  from task_store_bounded_and_consistent [OF tasks_reach.create [OF tasks_reach.start this]]
  show ?thesis by blast
qed

text \<open>
  Creating a task always succeeds and the new task is found, running. When the store is full
  exactly one task is given up: the oldest one that ended more than the retention time ago,
  and only when there is none the oldest of all; every other task stays as it was.
\<close>

theorem task_create_evicts_one:
  fixes now :: instant
  assumes "tasks_reach s" "task_get s uid = None"
  defines "evicted \<equiv>
    (if length (torder s) < 1024 then None
     else case find (\<lambda>i. case task_get s i of None \<Rightarrow> False | Some t \<Rightarrow> task_expired now t) (torder s) of
            None \<Rightarrow> Some (hd (torder s)) | Some i \<Rightarrow> Some i)"
  shows "task_get (task_create s now uid) j =
    (if j = uid then Some \<lparr>tstatus = TaskRunning, percent = -1, tmessage = [], tpath = [],
                          terr = None, createdAt = now\<rparr>
     else if Some j = evicted then None else task_get s j)"
proof -
  note ok = tasks_reach_ok [OF assms(1)]
  have "expired_id now (tasks s) = (\<lambda>i. case task_get s i of None \<Rightarrow> False | Some t \<Rightarrow> task_expired now t)"
    by (simp add: fun_eq_iff expired_id_def task_get_def)
  then have "evicted = (if length (torder s) < 1024 then None else Some (victim s now))"
    by (auto simp: evicted_def victim_def first_expired_def split: option.splits)
  with ok show ?thesis
    unfolding task_create_get [OF ok assms(2)] by (auto simp: tasks_ok_def maxTasks_def)
qed

theorem task_create_evicts_witness:
  "map_option tstatus (task_get (task_create newTaskStore 7 ''a'') ''a'') = Some TaskRunning"
proof -
  have "task_get newTaskStore ''a'' = None" by (simp add: task_get_def newTaskStore_def)
  from task_create_evicts_one [OF tasks_reach.start this, of 7 "''a''"]
  show ?thesis by simp
qed

text \<open>
  A cleanup removes exactly the tasks that ended (done or failed) and are older than the
  retention time; a running task is never removed, however old.
\<close>

theorem cleanup_removes_exactly_expired:
  assumes "tasks_reach s"
  shows "task_get (cleanupOnce s now) i =
    (case task_get s i of
       None \<Rightarrow> None
     | Some t \<Rightarrow>
         if tstatus t \<noteq> TaskRunning \<and> now - createdAt t > 2 * 3600 * 10 ^ 9 then None else Some t)"
proof -
  have "task_expired now t \<longleftrightarrow> tstatus t \<noteq> TaskRunning \<and> now - createdAt t > 2 * 3600 * 10 ^ 9" for t
    by (cases "tstatus t") (auto simp: task_expired_def taskTTL_def)
  then show ?thesis using cleanupOnce_get [OF tasks_reach_ok [OF assms]] by (simp split: option.splits)
qed

theorem cleanup_witness:
  "map_option tstatus (task_get (cleanupOnce (task_create newTaskStore 0 ''a'') (10 ^ 15)) ''a'') = Some TaskRunning
   \<and> task_get (cleanupOnce (task_update (task_create newTaskStore 0 ''a'') ''a'' (\<lambda>t. task_setError t ''e'')) (10 ^ 15)) ''a'' = None"
proof -
  have new: "task_get newTaskStore ''a'' = None" by (simp add: task_get_def newTaskStore_def)
  note r = tasks_reach.create [OF tasks_reach.start new, of 0]
  show ?thesis
    using cleanup_removes_exactly_expired [OF r, of "10 ^ 15" "''a''"]
      cleanup_removes_exactly_expired [OF tasks_reach.update [OF r], of "''a''" "\<lambda>t. task_setError t ''e''" "10 ^ 15" "''a''"]
    by (simp add: task_create_def newTaskStore_def task_get_def task_update_def task_setError_def)
qed

subsection \<open>Container jobs\<close>

datatype job_status = JobBuilding | JobDone | JobFailed

record longJob =
  jstatus :: job_status
  jlog :: "string list"
  jimage :: string

type_synonym jobStore = "(string, longJob) fmap"

definition maxJobs :: nat where
  "maxJobs = 64"

text \<open>\<open>create\<close>: the store and the id, empty when the table is full.\<close>

definition job_create :: "jobStore \<Rightarrow> string \<Rightarrow> jobStore \<times> string" where
  "job_create s uid =
     (if maplen s \<ge> maxJobs then (s, [])
      else (fmupd uid \<lparr>jstatus = JobBuilding, jlog = [], jimage = []\<rparr> s, uid))"

definition job_get :: "jobStore \<Rightarrow> string \<Rightarrow> longJob option" where
  "job_get s i = fmlookup s i"

text \<open>
  \<open>logCollector\<close>: the job's output, line by line, at most 500 lines kept. \<open>TrimRight(s, "\r")\<close>
  drops every trailing carriage return.
\<close>

definition jobLogMaxLines :: nat where
  "jobLogMaxLines = 500"

definition trim_right_cr :: "string \<Rightarrow> string" where
  "trim_right_cr s = rev (dropWhile (\<lambda>c. c = CR) (rev s))"

definition job_log_add :: "string list \<Rightarrow> string \<Rightarrow> string list" where
  "job_log_add log line =
     (if line \<noteq> [] then
        let log' = log @ [line] in
        (if length log' > jobLogMaxLines then drop (length log' - jobLogMaxLines) log' else log')
      else log)"

function collect_loop :: "string list \<Rightarrow> string \<Rightarrow> string list \<times> string" where
  "collect_loop log s =
     (case index_byte NL s of
        None \<Rightarrow> (log, s)
      | Some i \<Rightarrow> collect_loop (job_log_add log (trim_right_cr (take i s))) (drop (i + 1) s))"
  by pat_completeness auto
termination
  by (relation "measure (length \<circ> snd)") (auto dest: index_byte_SomeD)

declare collect_loop.simps [simp del]

record logCollector =
  col_carry :: string

definition logCollector_Write :: "jobStore \<Rightarrow> string \<Rightarrow> logCollector \<Rightarrow> bytes \<Rightarrow> jobStore \<times> logCollector \<times> nat" where
  "logCollector_Write s jobId c p =
     (case job_get s jobId of
        None \<Rightarrow> (s, c, length p)
      | Some j \<Rightarrow>
          let (log, rest) = collect_loop (jlog j) (col_carry c @ p) in
          (fmupd jobId (j\<lparr>jlog := log\<rparr>) s, c\<lparr>col_carry := rest\<rparr>, length p))"

lemma job_log_add_bound: "length log \<le> jobLogMaxLines \<Longrightarrow> length (job_log_add log line) \<le> jobLogMaxLines"
  by (simp add: job_log_add_def Let_def jobLogMaxLines_def)

lemma collect_loop_bound: "length log \<le> jobLogMaxLines \<Longrightarrow> length (fst (collect_loop log s)) \<le> jobLogMaxLines"
proof (induction log s rule: collect_loop.induct)
  case (1 log s)
  then show ?case
    by (subst collect_loop.simps) (auto simp: job_log_add_bound split: option.splits)
qed

text \<open>How \<open>runLongJob\<close> ends a job: the command's error, or success.\<close>

definition job_finish :: "jobStore \<Rightarrow> string \<Rightarrow> string option \<Rightarrow> jobStore" where
  "job_finish s i err =
     (case job_get s i of
        None \<Rightarrow> s
      | Some j \<Rightarrow>
          fmupd i (case err of
                     Some e \<Rightarrow> j\<lparr>jstatus := JobFailed, jlog := jlog j @ [''run failed: '' @ e]\<rparr>
                   | None \<Rightarrow> j\<lparr>jstatus := JobDone\<rparr>) s)"

interpretation job_reg: bounded_registry job_get
  "\<lambda>s (_::unit) uid. let (t, r) = job_create s uid in if r = [] then None else Some t"
  "\<lambda>_. \<lparr>jstatus = JobBuilding, jlog = [], jimage = []\<rparr>" maplen maxJobs "\<lambda>s. maplen s \<le> maxJobs"
  by unfold_locales (auto simp: job_create_def job_get_def maplen_upd Let_def split: if_splits)

text \<open>Jobs come and end, but no operation takes one out of the table.\<close>

datatype job_op = JobCreate string | JobFinish string "string option"

fun job_step :: "jobStore \<Rightarrow> job_op \<Rightarrow> jobStore" where
  "job_step s (JobCreate uid) = fst (job_create s uid)"
| "job_step s (JobFinish i e) = job_finish s i e"

lemma maplen_mono_job_step: "maplen s \<le> maplen (job_step s op)"
  by (cases op) (auto simp: job_create_def job_finish_def maplen_upd split: option.splits)

lemma maplen_mono_jobs: "maplen s \<le> maplen (foldl job_step s ops)"
  by (induction ops arbitrary: s) (auto intro: le_trans [OF maplen_mono_job_step])

text \<open>
  C15. Once 64 jobs have been created the node refuses every further one for the rest of its life,
  whatever has ended in the meantime: finished jobs are never removed from the table.
\<close>

theorem job_store_full_forever:
  assumes "maplen s = 64"
  shows "job_create (foldl job_step s ops) uid = (foldl job_step s ops, [])"
  using maplen_mono_jobs [of s ops] assms by (simp add: job_create_def maxJobs_def)

theorem job_store_full_witness:
  defines "full \<equiv> foldl job_step fmempty (map (\<lambda>n. JobCreate (replicate n CHR ''x'')) [1..<65])"
  shows "snd (job_create (foldl job_step full (map (\<lambda>n. JobFinish (replicate n CHR ''x'') None) [1..<65])) ''new'') = []"
proof -
  have "fmdom (foldl job_step fmempty (map (\<lambda>n. JobCreate (replicate n CHR ''x'')) [1..<Suc k])) =
      fset_of_list (map (\<lambda>n. replicate n CHR ''x'') [1..<Suc k]) \<and>
      maplen (foldl job_step fmempty (map (\<lambda>n. JobCreate (replicate n CHR ''x'')) [1..<Suc k])) = k"
    if "k \<le> 64" for k
    using that
  proof (induction k)
    case (Suc k)
    have "replicate (Suc k) CHR ''x'' \<notin> (\<lambda>n. replicate n CHR ''x'') ` {1..<Suc k}"
      by (auto dest: arg_cong [of _ _ length])
    with Suc show ?case
      by (auto simp: job_create_def maxJobs_def maplen_upd fset_of_list_elem fset_eq_iff)
  qed simp
  from this [of 64] have "maplen full = 64" by (simp add: full_def)
  from job_store_full_forever [OF this] show ?thesis by simp
qed

subsection \<open>Direct-transfer tickets\<close>

datatype ticketKind = TicketDownload | TicketUpload

record transferTicket =
  tk_uuid :: string
  tk_kind :: ticketKind
  tk_cwd :: string
  tk_dir :: string
  tk_file :: string
  tk_expires :: instant

type_synonym ticketStore = "(string, transferTicket) fmap"

definition maxTickets :: nat where
  "maxTickets = 10000"

definition ticketTTL :: int where
  "ticketTTL = 10 * 60 * 10 ^ 9"

definition tickets_reclaim :: "ticketStore \<Rightarrow> instant \<Rightarrow> ticketStore" where
  "tickets_reclaim s now = fmfilter (\<lambda>k. \<not> (case fmlookup s k of None \<Rightarrow> False | Some v \<Rightarrow> now > tk_expires v)) s"

text \<open>\<open>create\<close>: the store and the password, empty when the store is full even after reclaiming.\<close>

definition ticket_create ::
  "ticketStore \<Rightarrow> instant \<Rightarrow> string \<Rightarrow> ticketKind \<Rightarrow> string \<Rightarrow> string \<Rightarrow> string \<Rightarrow> string \<Rightarrow> ticketStore \<times> string"
  where
  "ticket_create s now uid kind uuid cwd dir file =
     (let s1 = (if maplen s \<ge> maxTickets then tickets_reclaim s now else s) in
      if maplen s1 \<ge> maxTickets then (s1, [])
      else (fmupd uid \<lparr>tk_uuid = uuid, tk_kind = kind, tk_cwd = cwd, tk_dir = dir, tk_file = file,
                       tk_expires = now + ticketTTL\<rparr> s1, uid))"

definition ticket_Create :: "ticketStore \<Rightarrow> instant \<Rightarrow> string \<Rightarrow> string \<Rightarrow> string \<Rightarrow> string \<Rightarrow> ticketStore \<times> string" where
  "ticket_Create s now uid uuid cwd dir = ticket_create s now uid TicketUpload uuid cwd dir []"

definition ticket_CreateDownload :: "ticketStore \<Rightarrow> instant \<Rightarrow> string \<Rightarrow> string \<Rightarrow> string \<Rightarrow> string \<Rightarrow> ticketStore \<times> string" where
  "ticket_CreateDownload s now uid uuid cwd file = ticket_create s now uid TicketDownload uuid cwd [] file"

definition ticket_Get :: "ticketStore \<Rightarrow> instant \<Rightarrow> string \<Rightarrow> transferTicket option" where
  "ticket_Get s now password =
     (case fmlookup s password of
        None \<Rightarrow> None
      | Some t \<Rightarrow> if now > tk_expires t then None else Some t)"

lemma tickets_reclaim_lookup:
  "fmlookup (tickets_reclaim s now) k =
     (case fmlookup s k of None \<Rightarrow> None | Some v \<Rightarrow> if now > tk_expires v then None else Some v)"
  by (auto simp: tickets_reclaim_def split: option.splits)

text \<open>Reclaiming is invisible to a reader at that instant or later.\<close>

lemma ticket_Get_reclaim: "now \<le> t \<Longrightarrow> ticket_Get (tickets_reclaim s now) t k = ticket_Get s t k"
  by (auto simp: ticket_Get_def tickets_reclaim_lookup split: option.splits)

lemma tickets_reclaim_le: "maplen (tickets_reclaim s now) \<le> maplen s"
  by (simp add: tickets_reclaim_def)

lemma ticket_create_bound:
  assumes "maplen s \<le> maxTickets"
  shows "maplen (fst (ticket_create s now uid kind uuid cwd dir file)) \<le> maxTickets"
proof -
  have "maplen (tickets_reclaim s now) \<le> maxTickets"
    using assms tickets_reclaim_le [of s now] by linarith
  with assms show ?thesis by (auto simp: ticket_create_def Let_def maplen_upd)
qed

interpretation ticket_reg: bounded_registry fmlookup
  "\<lambda>s (now, kind, uuid, cwd, dir, file) uid.
     let (t, pw) = ticket_create s now uid kind uuid cwd dir file in if pw = [] then None else Some t"
  "\<lambda>(now, kind, uuid, cwd, dir, file). \<lparr>tk_uuid = uuid, tk_kind = kind, tk_cwd = cwd, tk_dir = dir, tk_file = file,
                       tk_expires = now + ticketTTL\<rparr>" maplen maxTickets "\<lambda>s. maplen s \<le> maxTickets"
proof (unfold_locales, goal_cases)
  case (1 s i a t)
  then show ?case by (cases a) (auto simp: ticket_create_def Let_def split: if_splits)
next
  case (2 s i a t j)
  then show ?case
    by (cases a) (auto simp: ticket_create_def Let_def tickets_reclaim_lookup split: if_splits option.splits)
next
  case (3 s i a t)
  then show ?case using ticket_create_bound by (cases a) (auto split: if_splits prod.splits, metis fst_conv)
qed

primrec ticket_run :: "ticketStore \<Rightarrow> (instant \<times> string \<times> ticketKind \<times> string \<times> string \<times> string \<times> string) list \<Rightarrow> ticketStore" where
  "ticket_run s [] = s"
| "ticket_run s (x # xs) =
     (case x of (now, uid, kind, uuid, cwd, dir, file) \<Rightarrow>
        ticket_run (fst (ticket_create s now uid kind uuid cwd dir file)) xs)"

lemma ticket_create_keeps:
  "uid \<noteq> k \<Longrightarrow> now \<le> t \<Longrightarrow> ticket_Get (fst (ticket_create s now uid kind uuid cwd dir file)) t k = ticket_Get s t k"
  by (auto simp: ticket_create_def Let_def ticket_Get_reclaim) (auto simp: ticket_Get_def tickets_reclaim_lookup split: option.splits)

lemma ticket_run_keeps:
  "list_all (\<lambda>(now, uid, _). uid \<noteq> k \<and> now \<le> t) xs \<Longrightarrow> ticket_Get (ticket_run s xs) t k = ticket_Get s t k"
  by (induction xs arbitrary: s) (auto simp: ticket_create_keeps)

text \<open>
  A ticket that was granted is honoured, with the kind and the paths it was granted for, for
  exactly ten minutes, however many other tickets are created in the meantime (under other
  ids); looking it up does not use it up.
\<close>

theorem ticket_honoured_ten_minutes:
  assumes "ticket_create s now uid kind uuid cwd dir file = (s', pw)" "pw \<noteq> []"
    and "list_all (\<lambda>(now', uid', _). uid' \<noteq> pw \<and> now' \<le> t) later"
  shows "ticket_Get (ticket_run s' later) t pw =
    (if t > now + 10 * 60 * 10 ^ 9 then None
     else Some \<lparr>tk_uuid = uuid, tk_kind = kind, tk_cwd = cwd, tk_dir = dir, tk_file = file,
                tk_expires = now + 10 * 60 * 10 ^ 9\<rparr>)"
  using assms(1,2)
  by (auto simp: ticket_run_keeps [OF assms(3)])
     (auto simp: ticket_create_def Let_def ticket_Get_def ticketTTL_def split: if_splits)

theorem ticket_honoured_witness:
  "map_option tk_file (ticket_Get (ticket_run (fst (ticket_CreateDownload fmempty 0 ''p'' ''u'' ''/c'' ''/c/f''))
      [(1, ''q'', TicketUpload, ''u'', ''/c'', ''/c'', [])]) 5 ''p'') = Some ''/c/f''"
proof -
  have c: "ticket_create fmempty 0 ''p'' TicketDownload ''u'' ''/c'' [] ''/c/f'' =
    (fst (ticket_CreateDownload fmempty 0 ''p'' ''u'' ''/c'' ''/c/f''), ''p'')"
    by (simp add: ticket_CreateDownload_def ticket_create_def maxTickets_def)
  show ?thesis by (subst ticket_honoured_ten_minutes [OF c]) simp_all
qed

end
