(* ===== verification/LoginGuard.thy ===== *)
theory LoginGuard
  imports GoLib "HOL-Library.List_Lexorder"
begin

text \<open>
  The login throttle of the account system (cmd/irix-node/accounts.go): failed logins are
  counted per account and address and per address; a key that reaches its limit within the
  window is locked. Instants and durations are nanoseconds. The iteration order of Go's
  \<open>range\<close> over the table is the parameter \<open>iter\<close>: any listing of the table's keys.
\<close>

definition accountLoginMaxFails :: nat where
  "accountLoginMaxFails = 5"

definition accountLoginMaxFailsIP :: nat where
  "accountLoginMaxFailsIP = 30"

definition accountLoginLockout :: int where
  "accountLoginLockout = 15 * 60 * 10 ^ 9"

definition accountLoginWindow :: int where
  "accountLoginWindow = 15 * 60 * 10 ^ 9"

definition accountLoginMaxKeys :: nat where
  "accountLoginMaxKeys = 10000"

record loginFailEntry =
  lf_count :: nat
  lf_windowSt :: instant
  lf_until :: instant

definition zeroFailEntry :: loginFailEntry where
  "zeroFailEntry = \<lparr>lf_count = 0, lf_windowSt = zero_time, lf_until = zero_time\<rparr>"

type_synonym loginTable = "(string, loginFailEntry) fmap"

definition loginFailKeys :: "string \<Rightarrow> string \<Rightarrow> string \<times> string" where
  "loginFailKeys username ip = (''a:'' @ username @ ''@'' @ ip, ''i:'' @ ip)"

definition key_blocked :: "loginTable \<Rightarrow> instant \<Rightarrow> string \<Rightarrow> bool" where
  "key_blocked m now k = (case fmlookup m k of None \<Rightarrow> False | Some e \<Rightarrow> now < lf_until e)"

definition loginBlocked :: "loginTable \<Rightarrow> instant \<Rightarrow> string \<Rightarrow> string \<Rightarrow> bool" where
  "loginBlocked m now username ip =
     (let (uk, ik) = loginFailKeys username ip in list_ex (key_blocked m now) [uk, ik])"

definition purgeLoginFailsLocked :: "loginTable \<Rightarrow> instant \<Rightarrow> loginTable" where
  "purgeLoginFailsLocked m now =
     (let stale = now - (accountLoginWindow + accountLoginLockout) in
      fmfilter (\<lambda>k. \<not> (case fmlookup m k of None \<Rightarrow> False | Some e \<Rightarrow> lf_windowSt e < stale)) m)"

text \<open>The search for the entry with the oldest window: \<open>oldestKey\<close> starts as the empty string.\<close>

fun oldest_scan :: "loginTable \<Rightarrow> string list \<Rightarrow> string \<times> instant \<Rightarrow> string \<times> instant" where
  "oldest_scan m [] acc = acc"
| "oldest_scan m (k # ks) (ok, ot) =
     (case fmlookup m k of
        None \<Rightarrow> oldest_scan m ks (ok, ot)
      | Some e \<Rightarrow> oldest_scan m ks (if ok = [] \<or> lf_windowSt e < ot then (k, lf_windowSt e) else (ok, ot)))"

partial_function (option) evict_oldest ::
  "(loginTable \<Rightarrow> string list) \<Rightarrow> loginTable \<Rightarrow> loginTable option" where
  "evict_oldest iter m =
     (if maplen m \<ge> accountLoginMaxKeys
      then evict_oldest iter (fmdrop (fst (oldest_scan m (iter m) ([], zero_time))) m)
      else Some m)"

definition count_failure :: "instant \<Rightarrow> string \<Rightarrow> nat \<Rightarrow> loginTable \<Rightarrow> loginTable" where
  "count_failure now key limit m =
     (let e = (case fmlookup m key of None \<Rightarrow> zeroFailEntry | Some e \<Rightarrow> e);
          e = (if time_Sub now (lf_windowSt e) > accountLoginWindow
               then zeroFailEntry\<lparr>lf_windowSt := now\<rparr> else e);
          e = e\<lparr>lf_count := lf_count e + 1\<rparr>;
          e = (if lf_count e \<ge> limit then e\<lparr>lf_until := now + accountLoginLockout\<rparr> else e)
      in fmupd key e m)"

definition make_room :: "(loginTable \<Rightarrow> string list) \<Rightarrow> instant \<Rightarrow> loginTable \<Rightarrow> loginTable option" where
  "make_room iter now m =
     (if maplen m \<ge> accountLoginMaxKeys
      then evict_oldest iter (purgeLoginFailsLocked m now)
      else Some m)"

definition recordLoginFailure ::
  "(loginTable \<Rightarrow> string list) \<Rightarrow> loginTable \<Rightarrow> instant \<Rightarrow> string \<Rightarrow> string \<Rightarrow> loginTable option" where
  "recordLoginFailure iter m now username ip =
     (let (uk, ik) = loginFailKeys username ip in
      map_option (\<lambda>m. count_failure now ik accountLoginMaxFailsIP
                        (count_failure now uk accountLoginMaxFails m))
        (make_room iter now m))"

definition clearLoginFailures :: "loginTable \<Rightarrow> string \<Rightarrow> string \<Rightarrow> loginTable" where
  "clearLoginFailures m username ip =
     (let (uk, ik) = loginFailKeys username ip in fmdrop ik (fmdrop uk m))"

definition purgeLoginFails :: "loginTable \<Rightarrow> instant \<Rightarrow> loginTable" where
  "purgeLoginFails m now = purgeLoginFailsLocked m now"

subsection \<open>The keys\<close>

lemma login_keys_differ [simp]: "''a:'' @ u @ ''@'' @ ip \<noteq> ''i:'' @ ip'"
  by simp

text \<open>An address has no \<open>@\<close>, so the part after the last \<open>@\<close> of the key is the address.\<close>

lemma append_sep_inject:
  assumes "c \<notin> set b" "c \<notin> set b'"
  shows "a @ c # b = a' @ c # b' \<longleftrightarrow> a = a' \<and> b = b'"
proof
  assume eq: "a @ c # b = a' @ c # b'"
  have "takeWhile (\<lambda>x. x \<noteq> c) (rev (a @ c # b)) = rev b"
       "takeWhile (\<lambda>x. x \<noteq> c) (rev (a' @ c # b')) = rev b'"
    using assms by (auto simp: takeWhile_append takeWhile_eq_all_conv)
  with eq have "b = b'" by simp
  with eq show "a = a' \<and> b = b'" by simp
qed simp

subsection \<open>The eviction loop returns\<close>

lemma oldest_scan_found:
  assumes "[] |\<notin>| fmdom m" "fst acc \<noteq> [] \<Longrightarrow> fst acc |\<in>| fmdom m"
    "fst acc \<noteq> [] \<or> (\<exists>k \<in> set ks. k |\<in>| fmdom m)"
  shows "fst (oldest_scan m ks acc) |\<in>| fmdom m"
  using assms
proof (induction ks arbitrary: acc)
  case Nil
  then show ?case by (cases acc) auto
next
  case (Cons k ks)
  obtain ok ot where acc: "acc = (ok, ot)" by (cases acc)
  show ?case
  proof (cases "fmlookup m k")
    case None
    then have "k |\<notin>| fmdom m" by auto
    with Cons.prems have "fst (oldest_scan m ks (ok, ot)) |\<in>| fmdom m"
      by (intro Cons.IH) (auto simp: acc)
    with None show ?thesis by (simp add: acc)
  next
    case (Some e)
    then have k: "k |\<in>| fmdom m" by (rule fmdomI)
    with Cons.prems(1) have "k \<noteq> []" by auto
    with k Cons.prems have "fst (oldest_scan m ks (if ok = [] \<or> lf_windowSt e < ot then (k, lf_windowSt e) else (ok, ot))) |\<in>| fmdom m"
      by (intro Cons.IH) (auto simp: acc)
    with Some show ?thesis by (simp add: acc)
  qed
qed

definition iterates :: "(loginTable \<Rightarrow> string list) \<Rightarrow> bool" where
  "iterates iter = (\<forall>m. set (iter m) = fset (fmdom m))"

text \<open>\<open>m'\<close> has some of the entries of \<open>m\<close>, unchanged.\<close>

definition fewer :: "loginTable \<Rightarrow> loginTable \<Rightarrow> bool" where
  "fewer m' m = (\<forall>k. fmlookup m' k = None \<or> fmlookup m' k = fmlookup m k)"

lemma fewer_refl [simp]: "fewer m m"
  by (simp add: fewer_def)

lemma fewer_trans: "fewer a b \<Longrightarrow> fewer b c \<Longrightarrow> fewer a c"
  unfolding fewer_def by metis

lemma fewer_drop: "fewer m' (fmdrop k m) \<Longrightarrow> fewer m' m"
  unfolding fewer_def by (metis fmlookup_drop)

lemma fewer_purge: "fewer (purgeLoginFailsLocked m now) m"
  by (simp add: fewer_def purgeLoginFailsLocked_def Let_def)

lemma fewer_dom: "fewer m' m \<Longrightarrow> k |\<in>| fmdom m' \<Longrightarrow> k |\<in>| fmdom m"
  unfolding fewer_def by (metis fmdom_None)

lemma evict_oldest_returns:
  assumes "iterates iter" "[] |\<notin>| fmdom m"
  shows "\<exists>m'. evict_oldest iter m = Some m' \<and> maplen m' < accountLoginMaxKeys \<and> fewer m' m"
  using assms(2)
proof (induction "maplen m" arbitrary: m rule: less_induct)
  case less
  show ?case
  proof (cases "maplen m \<ge> accountLoginMaxKeys")
    case False
    then show ?thesis by (subst evict_oldest.simps) auto
  next
    case True
    define k where "k = fst (oldest_scan m (iter m) ([], zero_time))"
    have pos: "0 < maplen m" using True by (simp add: accountLoginMaxKeys_def)
    then have "fmdom m \<noteq> {||}" by (auto simp: maplen_def fcard.rep_eq)
    then have k: "k |\<in>| fmdom m"
      unfolding k_def using assms(1) less.prems
      by (intro oldest_scan_found) (auto simp: iterates_def)
    then have lt: "maplen (fmdrop k m) < maplen m"
      using pos by (simp add: maplen_drop)
    have "[] |\<notin>| fmdom (fmdrop k m)" using less.prems by simp
    from less.hyps [OF lt this] show ?thesis
      using True by (subst evict_oldest.simps) (auto simp: k_def dest: fewer_drop)
  qed
qed

lemma make_room_returns:
  assumes "iterates iter" "[] |\<notin>| fmdom m"
  shows "\<exists>m'. make_room iter now m = Some m' \<and> maplen m' < accountLoginMaxKeys \<and> fewer m' m"
proof (cases "maplen m \<ge> accountLoginMaxKeys")
  case True
  have "[] |\<notin>| fmdom (purgeLoginFailsLocked m now)"
    using fewer_dom [OF fewer_purge] assms(2) by blast
  from evict_oldest_returns [OF assms(1) this] show ?thesis
    using True fewer_trans [OF _ fewer_purge] by (auto simp: make_room_def)
qed (auto simp: make_room_def)

lemma count_failure_lookup:
  "fmlookup (count_failure now key limit m) k =
     (if k = key then fmlookup (count_failure now key limit m) key else fmlookup m k)"
  by (simp add: count_failure_def Let_def)

lemma dom_count_failure [simp]: "fmdom (count_failure now key limit m) = finsert key (fmdom m)"
  by (simp add: count_failure_def Let_def)

lemma maplen_count_failure: "maplen (count_failure now key limit m) \<le> Suc (maplen m)"
  by (simp add: count_failure_def Let_def maplen_upd_le)


lemma count_failure_self:
  "fmlookup (count_failure now key limit m) key = Some e \<Longrightarrow> 0 < lf_count e"
  by (auto simp: count_failure_def Let_def split: if_splits)

lemma record_returns:
  assumes "iterates iter" "[] |\<notin>| fmdom m"
  shows "\<exists>m'. recordLoginFailure iter m now u ip = Some m' \<and> maplen m' \<le> accountLoginMaxKeys + 1 \<and>
           fset (fmdom m') \<subseteq> {''a:'' @ u @ ''@'' @ ip, ''i:'' @ ip} \<union> fset (fmdom m) \<and>
           {''a:'' @ u @ ''@'' @ ip, ''i:'' @ ip} \<subseteq> fset (fmdom m')"
proof -
  obtain m1 where m1: "make_room iter now m = Some m1" "maplen m1 < accountLoginMaxKeys" "fewer m1 m"
    using make_room_returns [OF assms] by blast
  define m2 where "m2 = count_failure now (''a:'' @ u @ ''@'' @ ip) accountLoginMaxFails m1"
  have "maplen (count_failure now (''i:'' @ ip) accountLoginMaxFailsIP m2) \<le> accountLoginMaxKeys + 1"
    using maplen_count_failure [of now "''i:'' @ ip" accountLoginMaxFailsIP m2]
      maplen_count_failure [of now "''a:'' @ u @ ''@'' @ ip" accountLoginMaxFails m1] m1(2)
    unfolding m2_def by linarith
  then show ?thesis
    using m1 fewer_dom [OF m1(3)]
    by (auto simp: recordLoginFailure_def loginFailKeys_def m2_def)
qed

text \<open>A run of failed logins: instant, account and address of each.\<close>

primrec login_failures ::
  "(loginTable \<Rightarrow> string list) \<Rightarrow> loginTable \<Rightarrow> (instant \<times> string \<times> string) list \<Rightarrow> loginTable option" where
  "login_failures iter m [] = Some m"
| "login_failures iter m (e # es) =
     (case e of (now, u, ip) \<Rightarrow>
        (case recordLoginFailure iter m now u ip of
           None \<Rightarrow> None
         | Some m' \<Rightarrow> login_failures iter m' es))"

lemma login_failures_append:
  "login_failures iter m (xs @ ys) =
     (case login_failures iter m xs of None \<Rightarrow> None | Some m' \<Rightarrow> login_failures iter m' ys)"
  by (induction xs arbitrary: m) (auto split: option.splits)

definition event_keys :: "(instant \<times> string \<times> string) list \<Rightarrow> string set" where
  "event_keys evs = (\<Union>(t, u, ip) \<in> set evs. {''a:'' @ u @ ''@'' @ ip, ''i:'' @ ip})"

lemma login_failures_dom:
  assumes "iterates iter"
  shows "[] |\<notin>| fmdom m \<Longrightarrow> maplen m \<le> accountLoginMaxKeys + 1 \<Longrightarrow>
    \<exists>m'. login_failures iter m evs = Some m' \<and> maplen m' \<le> accountLoginMaxKeys + 1 \<and>
         fset (fmdom m') \<subseteq> event_keys evs \<union> fset (fmdom m)"
proof (induction evs arbitrary: m)
  case Nil
  then show ?case by (simp add: event_keys_def)
next
  case (Cons e es)
  obtain now u ip where e: "e = (now, u, ip)" by (cases e)
  obtain m1 where m1: "recordLoginFailure iter m now u ip = Some m1" "maplen m1 \<le> accountLoginMaxKeys + 1"
    "fset (fmdom m1) \<subseteq> {''a:'' @ u @ ''@'' @ ip, ''i:'' @ ip} \<union> fset (fmdom m)"
    using record_returns [OF assms Cons.prems(1)] by blast
  have "[] |\<notin>| fmdom m1" using m1(3) Cons.prems(1) by auto
  from Cons.IH [OF this m1(2)] m1 show ?case
    by (auto simp: e event_keys_def)
qed

text \<open>
  A failed login is always counted, for the account at that address and for the address,
  even when the table is full: recording returns whatever the iteration order, both keys are
  then in the table with a positive count, and the table never holds more than
  \<open>accountLoginMaxKeys + 1\<close> entries (one more than the limit names: room is made for one key
  and two are added).
\<close>

theorem login_failure_always_counted:
  assumes "iterates iter"
  shows "\<exists>m. login_failures iter fmempty (evs @ [(now, u, ip)]) = Some m \<and> maplen m \<le> 10001 \<and>
    (\<exists>e. fmlookup m (fst (loginFailKeys u ip)) = Some e \<and> 0 < lf_count e) \<and>
    (\<exists>e. fmlookup m (snd (loginFailKeys u ip)) = Some e \<and> 0 < lf_count e)"
proof -
  obtain m0 where m0: "login_failures iter fmempty evs = Some m0" "fset (fmdom m0) \<subseteq> event_keys evs"
    using login_failures_dom [OF assms, of fmempty evs] by auto
  then have "[] |\<notin>| fmdom m0" by (auto simp: event_keys_def)
  from make_room_returns [OF assms this, of now] record_returns [OF assms this, of now u ip] m0
  show ?thesis
    by (auto simp: login_failures_append recordLoginFailure_def loginFailKeys_def accountLoginMaxKeys_def)
       (auto simp: count_failure_def Let_def)
qed

text \<open>
  The lockout is per account and address: whatever failures come from other addresses,
  against this account or any other, a login from an address that has not failed is not blocked.
\<close>

theorem lockout_spares_other_addresses:
  assumes "iterates iter" "CHR ''@'' \<notin> set ip"
    "list_all (\<lambda>(t, u, ip'). ip' \<noteq> ip \<and> CHR ''@'' \<notin> set ip') evs"
    "login_failures iter fmempty evs = Some m"
  shows "\<not> loginBlocked m t u ip"
proof -
  have sub: "fset (fmdom m) \<subseteq> event_keys evs"
    using login_failures_dom [OF assms(1), of fmempty evs] assms(4) by auto
  have "''a:'' @ u @ ''@'' @ ip \<notin> event_keys evs" "''i:'' @ ip \<notin> event_keys evs"
    using assms(2,3) by (auto simp: event_keys_def list_all_iff append_sep_inject)
  then have "fmlookup m (''a:'' @ u @ ''@'' @ ip) = None" "fmlookup m (''i:'' @ ip) = None"
    using sub by (auto simp: fmdom_None)
  then show ?thesis by (simp add: loginBlocked_def loginFailKeys_def key_blocked_def)
qed

definition sorted_iter :: "loginTable \<Rightarrow> string list" where
  "sorted_iter m = sorted_list_of_fset (fmdom m)"

lemma sorted_iter_iterates: "iterates sorted_iter"
  by (simp add: iterates_def sorted_iter_def sorted_list_of_fset.rep_eq)

theorem login_failure_counted_witness:
  "\<exists>m. login_failures sorted_iter fmempty ([(0, ''bob'', ''10.0.0.7'')] @ [(5, ''eve'', ''10.0.0.7'')]) = Some m \<and>
    maplen m \<le> 10001 \<and>
    (\<exists>e. fmlookup m (fst (loginFailKeys ''eve'' ''10.0.0.7'')) = Some e \<and> 0 < lf_count e) \<and>
    (\<exists>e. fmlookup m (snd (loginFailKeys ''eve'' ''10.0.0.7'')) = Some e \<and> 0 < lf_count e)"
  by (rule login_failure_always_counted [OF sorted_iter_iterates])

subsection \<open>The lockout takes effect\<close>

text \<open>As long as the table has room, a key's entry depends on that key's own failures alone.\<close>

definition in_window :: "instant \<Rightarrow> nat \<Rightarrow> loginTable \<Rightarrow> string \<Rightarrow> bool" where
  "in_window t0 n m k =
     (case fmlookup m k of
        None \<Rightarrow> n = 0
      | Some e \<Rightarrow> 0 < n \<and> lf_count e = n \<and> t0 \<le> lf_windowSt e)"

lemma zero_window_old: "0 \<le> now \<Longrightarrow> time_Sub now zero_time > accountLoginWindow"
  by (simp add: time_Sub_def zero_time_def accountLoginWindow_def)

lemma recent_window:
  "t0 \<le> w \<Longrightarrow> now \<le> t0 + accountLoginWindow \<Longrightarrow> \<not> accountLoginWindow < time_Sub now w"
  by (simp add: time_Sub_def accountLoginWindow_def)

lemma count_failure_in_window:
  assumes "in_window t0 n m k" "0 \<le> t0" "t0 \<le> now" "now \<le> t0 + accountLoginWindow"
  shows "\<exists>e. fmlookup (count_failure now k limit m) k = Some e \<and> lf_count e = Suc n \<and>
    t0 \<le> lf_windowSt e \<and> (limit \<le> Suc n \<longrightarrow> lf_until e = now + accountLoginLockout)"
proof (cases "fmlookup m k")
  case None
  with assms zero_window_old [of now] show ?thesis
    by (auto simp: in_window_def count_failure_def Let_def zeroFailEntry_def)
next
  case (Some e)
  with assms recent_window [of t0 "lf_windowSt e" now] show ?thesis
    by (auto simp: in_window_def count_failure_def Let_def)
qed

abbreviation (input) pair_key :: "string \<Rightarrow> string \<Rightarrow> string" where
  "pair_key u ip \<equiv> ''a:'' @ u @ ''@'' @ ip"

lemma record_with_room:
  assumes "maplen m < accountLoginMaxKeys"
  shows "recordLoginFailure iter m now u ip =
    Some (count_failure now (''i:'' @ ip) accountLoginMaxFailsIP
           (count_failure now (pair_key u ip) accountLoginMaxFails m))"
  using assms by (simp add: recordLoginFailure_def loginFailKeys_def make_room_def)

definition failures_of :: "string \<Rightarrow> string \<Rightarrow> (instant \<times> string \<times> string) list \<Rightarrow> nat" where
  "failures_of u ip evs = length (filter (\<lambda>(t, u', ip'). u' = u \<and> ip' = ip) evs)"

lemma login_failures_in_window:
  assumes "CHR ''@'' \<notin> set ip" "0 \<le> t0"
  shows "in_window t0 n m (pair_key u ip) \<Longrightarrow> maplen m + 2 * length evs \<le> accountLoginMaxKeys \<Longrightarrow>
    list_all (\<lambda>(t, u', ip'). t0 \<le> t \<and> t \<le> t0 + accountLoginWindow \<and> CHR ''@'' \<notin> set ip') evs \<Longrightarrow>
    \<exists>m'. login_failures iter m evs = Some m' \<and> in_window t0 (n + failures_of u ip evs) m' (pair_key u ip) \<and>
         maplen m' \<le> maplen m + 2 * length evs"
proof (induction evs arbitrary: m n)
  case Nil
  then show ?case by (simp add: failures_of_def)
next
  case (Cons ev evs)
  obtain t v a where ev: "ev = (t, v, a)" by (cases ev)
  define m1 where "m1 = count_failure t (pair_key v a) accountLoginMaxFails m"
  define m2 where "m2 = count_failure t (''i:'' @ a) accountLoginMaxFailsIP m1"
  have len: "maplen m2 \<le> maplen m + 2"
    using maplen_count_failure [of t "''i:'' @ a" accountLoginMaxFailsIP m1]
      maplen_count_failure [of t "pair_key v a" accountLoginMaxFails m]
    unfolding m1_def m2_def by linarith
  have room: "maplen m < accountLoginMaxKeys" using Cons.prems(2) by simp
  have same: "fmlookup m2 (pair_key u ip) = fmlookup m1 (pair_key u ip)"
    unfolding m2_def by (subst count_failure_lookup) simp
  define n' where "n' = (if v = u \<and> a = ip then Suc n else n)"
  have "in_window t0 n' m2 (pair_key u ip)"
  proof (cases "v = u \<and> a = ip")
    case True
    with Cons.prems(3) count_failure_in_window [OF Cons.prems(1) assms(2), of t accountLoginMaxFails]
    show ?thesis unfolding in_window_def same by (auto simp: ev n'_def m1_def)
  next
    case False
    with assms(1) Cons.prems(3) have "pair_key v a \<noteq> pair_key u ip"
      by (auto simp: ev append_sep_inject)
    then have "fmlookup m1 (pair_key u ip) = fmlookup m (pair_key u ip)"
      unfolding m1_def by (subst count_failure_lookup) simp
    moreover have "n' = n" using False by (simp add: n'_def)
    ultimately show ?thesis
      using Cons.prems(1) unfolding in_window_def same by (cases "fmlookup m (pair_key u ip)") auto
  qed
  moreover have "maplen m2 + 2 * length evs \<le> accountLoginMaxKeys" using len Cons.prems(2) by simp
  moreover have "list_all (\<lambda>(t, u', ip'). t0 \<le> t \<and> t \<le> t0 + accountLoginWindow \<and> CHR ''@'' \<notin> set ip') evs"
    using Cons.prems(3) by simp
  ultimately obtain m' where "login_failures iter m2 evs = Some m'"
    "in_window t0 (n' + failures_of u ip evs) m' (pair_key u ip)" "maplen m' \<le> maplen m2 + 2 * length evs"
    using Cons.IH by blast
  moreover have "n' + failures_of u ip evs = n + failures_of u ip (ev # evs)"
    by (auto simp: failures_of_def ev n'_def)
  ultimately show ?case
    using len by (auto simp: ev record_with_room [OF room] m1_def m2_def)
qed

text \<open>
  C10. The fifth failed login of an account from an address within a quarter of an hour blocks
  that account at that address for a quarter of an hour after the failure, and not longer,
  whatever other accounts and addresses fail in between (while the table has room).
\<close>

theorem fifth_failure_locks:
  assumes "CHR ''@'' \<notin> set ip" "0 \<le> t0"
    "list_all (\<lambda>(t, u', ip'). t0 \<le> t \<and> t \<le> now \<and> CHR ''@'' \<notin> set ip') pre"
    "t0 \<le> now" "now \<le> t0 + 15 * 60 * 10 ^ 9" "2 * length pre < 9999" "4 \<le> failures_of u ip pre"
  shows "\<exists>m. login_failures iter fmempty (pre @ [(now, u, ip)]) = Some m \<and>
    (t < now + 15 * 60 * 10 ^ 9 \<longrightarrow> loginBlocked m t u ip) \<and>
    (now + 15 * 60 * 10 ^ 9 \<le> t \<longrightarrow> \<not> key_blocked m t (fst (loginFailKeys u ip)))"
proof -
  have "in_window t0 0 fmempty (pair_key u ip)" by (simp add: in_window_def)
  moreover have "list_all (\<lambda>(t, u', ip'). t0 \<le> t \<and> t \<le> t0 + accountLoginWindow \<and> CHR ''@'' \<notin> set ip') pre"
    using assms(3,5) by (auto simp: list_all_iff accountLoginWindow_def)
  ultimately obtain m where m: "login_failures iter fmempty pre = Some m"
    "in_window t0 (failures_of u ip pre) m (pair_key u ip)" "maplen m \<le> 2 * length pre"
    using login_failures_in_window [OF assms(1,2), of 0 fmempty u pre iter] assms(6)
    by (auto simp: accountLoginMaxKeys_def)
  from m(3) assms(6) have room: "maplen m < accountLoginMaxKeys" by (simp add: accountLoginMaxKeys_def)
  define m1 where "m1 = count_failure now (pair_key u ip) accountLoginMaxFails m"
  define m2 where "m2 = count_failure now (''i:'' @ ip) accountLoginMaxFailsIP m1"
  have "\<exists>e. fmlookup m1 (pair_key u ip) = Some e \<and> lf_until e = now + accountLoginLockout"
    unfolding m1_def using count_failure_in_window [OF m(2) assms(2,4), of accountLoginMaxFails] assms(5,7)
    by (auto simp: accountLoginMaxFails_def accountLoginWindow_def)
  moreover have "fmlookup m2 (pair_key u ip) = fmlookup m1 (pair_key u ip)"
    unfolding m2_def by (subst count_failure_lookup) simp
  moreover have "login_failures iter fmempty (pre @ [(now, u, ip)]) = Some m2"
    by (simp add: login_failures_append m(1) record_with_room [OF room] m1_def m2_def)
  ultimately show ?thesis
    by (auto simp: loginBlocked_def loginFailKeys_def key_blocked_def accountLoginLockout_def)
qed

theorem fifth_failure_witness:
  "\<exists>m. login_failures sorted_iter fmempty
      ([(1, ''bob'', ''10.0.0.7''), (2, ''bob'', ''10.0.0.7''), (2, ''eve'', ''10.0.0.8''),
        (3, ''bob'', ''10.0.0.7''), (4, ''bob'', ''10.0.0.7'')] @ [(5, ''bob'', ''10.0.0.7'')]) = Some m \<and>
    ((6::int) < 5 + 15 * 60 * 10 ^ 9 \<longrightarrow> loginBlocked m 6 ''bob'' ''10.0.0.7'') \<and>
    (5 + 15 * 60 * 10 ^ 9 \<le> (6::int) \<longrightarrow> \<not> key_blocked m 6 (fst (loginFailKeys ''bob'' ''10.0.0.7'')))"
  by (rule fifth_failure_locks [where ?t0.0 = 0]) (simp_all add: failures_of_def)

theorem lockout_spares_witness:
  "\<exists>m. login_failures sorted_iter fmempty [(1, ''bob'', ''10.0.0.7''), (2, ''bob'', ''10.0.0.7'')] = Some m \<and>
    \<not> loginBlocked m 3 ''bob'' ''10.0.0.8''"
proof -
  obtain m where m: "login_failures sorted_iter fmempty
      ([(1, ''bob'', ''10.0.0.7'')] @ [(2, ''bob'', ''10.0.0.7'')]) = Some m"
    using login_failures_dom [OF sorted_iter_iterates, of fmempty] by fastforce
  then have "\<not> loginBlocked m 3 ''bob'' ''10.0.0.8''"
    by (intro lockout_spares_other_addresses [OF sorted_iter_iterates, where evs =
          "[(1, ''bob'', ''10.0.0.7''), (2, ''bob'', ''10.0.0.7'')]"]) simp_all
  with m show ?thesis by simp
qed

end
