(* ===== verification/LoadTuner.thy ===== *)
theory LoadTuner
  imports GoLib Complex_Main
begin

text \<open>
  The load tuner (cmd/irix-node/loadtuner.go): every sample is judged idle, normal or busy, and
  the state follows after three equal judgements in a row. The CPU share is a rational number
  (the code's float64 thresholds 0.60 and 0.05 are the fractions they denote). The two process
  settings the tuner writes, GOMAXPROCS and GOGC, are kept in \<open>procs_set\<close> and \<open>gogc_set\<close>.
\<close>

definition loadTuneStable :: nat where
  "loadTuneStable = 3"

definition busyCPU :: rat where "busyCPU = 60 / 100"
definition busyGoroutine :: int where "busyGoroutine = 2000"
definition idleCPU :: rat where "idleCPU = 5 / 100"
definition idleGoroutine :: int where "idleGoroutine = 20"

definition busyGCPercent :: int where "busyGCPercent = 400"
definition normalGCPercent :: int where "normalGCPercent = 100"
definition idleGCPercent :: int where "idleGCPercent = 50"

datatype loadState = loadIdle | loadNormal | loadBusy

fun loadState_String :: "loadState \<Rightarrow> string" where
  "loadState_String loadIdle = ''idle''"
| "loadState_String loadBusy = ''busy''"
| "loadState_String loadNormal = ''normal''"

definition evaluateLoad :: "rat \<Rightarrow> int \<Rightarrow> loadState" where
  "evaluateLoad cpu goroutines =
     (if cpu \<ge> busyCPU \<or> goroutines \<ge> busyGoroutine then loadBusy
      else if cpu \<le> idleCPU \<and> goroutines \<le> idleGoroutine then loadIdle
      else loadNormal)"

record loadTuner =
  lt_state :: loadState
  lt_stateSince :: instant
  lt_candidate :: loadState
  lt_stable :: nat
  lt_maxProcs :: int
  lt_gcPercent :: int
  lt_cpuBusy :: rat
  lt_goroutines :: int
  lt_heapAlloc :: nat
  procs_set :: int
  gogc_set :: int

text \<open>\<open>currentGCPercent\<close>, given the runtime's GOGC metric (\<open>None\<close>: not offered).\<close>

definition currentGCPercent :: "int option \<Rightarrow> int" where
  "currentGCPercent metric =
     (case metric of None \<Rightarrow> normalGCPercent
      | Some v \<Rightarrow> if v > 0 \<and> v \<le> 1000 then v else normalGCPercent)"

text \<open>The candidate of a new tuner is Go's zero value of \<open>loadState\<close>, \<open>loadIdle\<close>.\<close>

definition newLoadTuner :: "instant \<Rightarrow> int \<Rightarrow> int option \<Rightarrow> loadTuner" where
  "newLoadTuner now gomaxprocs metric =
     \<lparr>lt_state = loadNormal, lt_stateSince = now, lt_candidate = loadIdle, lt_stable = 0,
      lt_maxProcs = gomaxprocs, lt_gcPercent = currentGCPercent metric, lt_cpuBusy = 0, lt_goroutines = 0,
      lt_heapAlloc = 0, procs_set = gomaxprocs, gogc_set = currentGCPercent metric\<rparr>"

definition applyReal :: "instant \<Rightarrow> loadState \<Rightarrow> loadTuner \<Rightarrow> loadTuner" where
  "applyReal now s t =
     (if s = lt_state t then t
      else
        let t = t\<lparr>lt_state := s, lt_stateSince := now, lt_stable := 0, lt_candidate := s\<rparr>;
            t = (case s of
                   loadBusy \<Rightarrow> t\<lparr>procs_set := lt_maxProcs t, lt_gcPercent := busyGCPercent\<rparr>
                 | loadNormal \<Rightarrow> t\<lparr>procs_set := lt_maxProcs t, lt_gcPercent := normalGCPercent\<rparr>
                 | loadIdle \<Rightarrow> t\<lparr>procs_set := 1, lt_gcPercent := idleGCPercent\<rparr>)
        in t\<lparr>gogc_set := lt_gcPercent t\<rparr>)"

record sample =
  sm_cpu :: rat
  sm_gos :: int
  sm_heap :: nat
  sm_now :: instant

definition tick :: "sample \<Rightarrow> loadTuner \<Rightarrow> loadTuner" where
  "tick x t =
     (let t = t\<lparr>lt_cpuBusy := sm_cpu x, lt_goroutines := sm_gos x, lt_heapAlloc := sm_heap x\<rparr>;
          cand = evaluateLoad (sm_cpu x) (sm_gos x)
      in if cand = lt_state t then t\<lparr>lt_candidate := lt_state t, lt_stable := 0\<rparr>
         else
           let t = (if cand = lt_candidate t then t\<lparr>lt_stable := lt_stable t + 1\<rparr>
                    else t\<lparr>lt_candidate := cand, lt_stable := 1\<rparr>)
           in if lt_stable t \<ge> loadTuneStable then applyReal (sm_now x) cand t else t)"

definition ticks :: "sample list \<Rightarrow> loadTuner \<Rightarrow> loadTuner" where
  "ticks xs t = fold tick xs t"

definition judge :: "sample \<Rightarrow> loadState" where
  "judge x = evaluateLoad (sm_cpu x) (sm_gos x)"

subsection \<open>The judgement counts and the state follows them\<close>

text \<open>
  The reference: the state after a series of judgements, read off the history. The series is
  kept newest first; the state is left for a judgement once the three newest agree on it.
\<close>

fun settled :: "loadState list \<Rightarrow> loadState" where
  "settled (a # b # c # js) = (if a = b \<and> b = c then a else settled (b # c # js))"
| "settled js = loadNormal"

text \<open>The number of newest judgements equal to \<open>s\<close>.\<close>

definition run_of :: "loadState \<Rightarrow> loadState list \<Rightarrow> nat" where
  "run_of s js = length (takeWhile (\<lambda>j. j = s) js)"

lemma settled_Cons: "settled (j # js) = (if 2 \<le> run_of j js then j else settled js)"
  by (cases js rule: settled.cases) (auto simp: run_of_def)

definition tuner_inv :: "loadState list \<Rightarrow> loadTuner \<Rightarrow> bool" where
  "tuner_inv js t =
     (lt_state t = settled js \<and> lt_stable t < 3 \<and>
      (js \<noteq> [] \<longrightarrow> lt_candidate t = hd js) \<and>
      (lt_candidate t = lt_state t \<longrightarrow> lt_stable t = 0) \<and>
      (lt_candidate t \<noteq> lt_state t \<longrightarrow> lt_stable t = run_of (lt_candidate t) js))"

definition tuner_set :: "int \<Rightarrow> loadTuner \<Rightarrow> bool" where
  "tuner_set g t =
     (gogc_set t = lt_gcPercent t \<and>
      procs_set t = (if lt_state t = loadIdle then 1 else lt_maxProcs t) \<and>
      lt_gcPercent t \<in> (case lt_state t of loadBusy \<Rightarrow> {busyGCPercent} | loadIdle \<Rightarrow> {idleGCPercent}
                        | loadNormal \<Rightarrow> {normalGCPercent, g}))"

lemma applyReal_set: "s \<noteq> lt_state t \<Longrightarrow> tuner_set g (applyReal now s t)"
  by (cases s) (auto simp: applyReal_def Let_def tuner_set_def)

lemma applyReal_fields:
  "s \<noteq> lt_state t \<Longrightarrow> lt_state (applyReal now s t) = s \<and> lt_candidate (applyReal now s t) = s \<and>
     lt_stable (applyReal now s t) = 0"
  by (cases s) (auto simp: applyReal_def Let_def)

lemma tick_set: "tuner_set g t \<Longrightarrow> tuner_set g (tick x t)"
  by (auto simp: tick_def Let_def intro!: applyReal_set) (auto simp: tuner_set_def)

lemma run_of_Cons [simp]: "run_of s (j # js) = (if j = s then Suc (run_of s js) else 0)"
  by (simp add: run_of_def)

lemma run_of_Nil [simp]: "run_of s [] = 0"
  by (simp add: run_of_def)

lemma settled_stays: "settled (settled js # js) = settled js"
  by (simp add: settled_Cons)

lemma run_of_hd_other: "js \<noteq> [] \<Longrightarrow> hd js \<noteq> s \<Longrightarrow> run_of s js = 0"
  by (cases js) auto

definition next_count :: "sample \<Rightarrow> loadTuner \<Rightarrow> nat" where
  "next_count x t = (if judge x = lt_candidate t then lt_stable t + 1 else 1)"

definition sampled :: "sample \<Rightarrow> loadTuner \<Rightarrow> loadTuner" where
  "sampled x t = t\<lparr>lt_cpuBusy := sm_cpu x, lt_goroutines := sm_gos x, lt_heapAlloc := sm_heap x\<rparr>"

lemma sampled_fields [simp]:
  "lt_state (sampled x t) = lt_state t" "lt_candidate (sampled x t) = lt_candidate t"
  "lt_stable (sampled x t) = lt_stable t"
  by (simp_all add: sampled_def)

lemma same_candidate: "lt_candidate u = c \<Longrightarrow> u\<lparr>lt_candidate := c\<rparr> = u"
  by (cases u) simp

lemma tick_sampled:
  "tick x t =
     (if judge x = lt_state (sampled x t)
      then (sampled x t)\<lparr>lt_candidate := lt_state (sampled x t), lt_stable := 0\<rparr>
      else let u = (if judge x = lt_candidate (sampled x t)
                    then (sampled x t)\<lparr>lt_stable := lt_stable (sampled x t) + 1\<rparr>
                    else (sampled x t)\<lparr>lt_candidate := judge x, lt_stable := 1\<rparr>)
           in if lt_stable u \<ge> loadTuneStable then applyReal (sm_now x) (judge x) u else u)"
  unfolding tick_def sampled_def judge_def Let_def by (rule refl)

lemma tick_judged:
  "tick x t =
     (if judge x = lt_state t then (sampled x t)\<lparr>lt_candidate := lt_state t, lt_stable := 0\<rparr>
      else let u = (sampled x t)\<lparr>lt_candidate := judge x, lt_stable := next_count x t\<rparr>
           in if next_count x t \<ge> 3 then applyReal (sm_now x) (judge x) u else u)"
proof -
  have "(if judge x = lt_candidate (sampled x t)
         then (sampled x t)\<lparr>lt_stable := lt_stable (sampled x t) + 1\<rparr>
         else (sampled x t)\<lparr>lt_candidate := judge x, lt_stable := 1\<rparr>) =
        (sampled x t)\<lparr>lt_candidate := judge x, lt_stable := next_count x t\<rparr>"
    using same_candidate [of "sampled x t" "judge x"] by (simp add: next_count_def)
  then have "tick x t =
     (if judge x = lt_state (sampled x t)
      then (sampled x t)\<lparr>lt_candidate := lt_state (sampled x t), lt_stable := 0\<rparr>
      else let u = (sampled x t)\<lparr>lt_candidate := judge x, lt_stable := next_count x t\<rparr>
           in if lt_stable u \<ge> loadTuneStable then applyReal (sm_now x) (judge x) u else u)"
    unfolding tick_sampled by (rule arg_cong)
  then show ?thesis by (simp add: Let_def loadTuneStable_def)
qed

lemma tick_fields:
  "judge x = lt_state t \<Longrightarrow>
     lt_state (tick x t) = lt_state t \<and> lt_candidate (tick x t) = lt_state t \<and> lt_stable (tick x t) = 0"
  "judge x \<noteq> lt_state t \<Longrightarrow> next_count x t < 3 \<Longrightarrow>
     lt_state (tick x t) = lt_state t \<and> lt_candidate (tick x t) = judge x \<and> lt_stable (tick x t) = next_count x t"
  "judge x \<noteq> lt_state t \<Longrightarrow> \<not> next_count x t < 3 \<Longrightarrow>
     lt_state (tick x t) = judge x \<and> lt_candidate (tick x t) = judge x \<and> lt_stable (tick x t) = 0"
  by (simp_all add: tick_judged Let_def applyReal_fields)

lemma tick_inv:
  assumes "tuner_inv js t"
  shows "tuner_inv (judge x # js) (tick x t)"
proof -
  have st: "lt_state t = settled js" and small: "lt_stable t < 3" using assms by (auto simp: tuner_inv_def)
  show ?thesis
  proof (cases "judge x = lt_state t")
    case True
    with tick_fields(1) [OF True] st show ?thesis by (simp add: tuner_inv_def settled_stays)
  next
    case False
    have n: "next_count x t = run_of (judge x) (judge x # js)"
    proof (cases "judge x = lt_candidate t")
      case True
      then have "lt_stable t = run_of (judge x) js" using assms False by (simp add: tuner_inv_def)
      with True show ?thesis by (simp add: next_count_def)
    next
      case other: False
      have "run_of (judge x) js = 0"
      proof (cases "js = []")
        case False
        then have "hd js \<noteq> judge x" using assms other by (simp add: tuner_inv_def)
        with False show ?thesis by (rule run_of_hd_other)
      qed simp
      with other show ?thesis by (simp add: next_count_def)
    qed
    show ?thesis
    proof (cases "next_count x t < 3")
      case True
      with n have "settled (judge x # js) = settled js" by (simp add: settled_Cons)
      with tick_fields(2) [OF False True] n st False True show ?thesis by (simp add: tuner_inv_def)
    next
      case more: False
      with n have "settled (judge x # js) = judge x" by (simp add: settled_Cons)
      with tick_fields(3) [OF False more] show ?thesis by (simp add: tuner_inv_def)
    qed
  qed
qed

lemma ticks_inv: "tuner_inv js t \<Longrightarrow> tuner_inv (rev (map judge xs) @ js) (ticks xs t)"
proof (induction xs arbitrary: js t)
  case (Cons x xs)
  from Cons.IH [OF tick_inv [OF Cons.prems, of x]] show ?case by (simp add: ticks_def)
qed (simp add: ticks_def)

lemma new_inv: "tuner_inv [] (newLoadTuner now procs metric)"
  by (simp add: tuner_inv_def newLoadTuner_def)

lemma new_set: "tuner_set (currentGCPercent metric) (newLoadTuner now procs metric)"
  by (simp add: tuner_set_def newLoadTuner_def)

lemma ticks_set: "tuner_set g t \<Longrightarrow> tuner_set g (ticks xs t)"
  by (induction xs arbitrary: t) (auto simp: ticks_def tick_set)

text \<open>
  After any series of samples the tuner's state is the one on which three consecutive samples
  last agreed (normal if none did), and the process settings are those of that state:
  one processor and GOGC 50 when idle, all processors otherwise, GOGC 400 when busy, and
  GOGC 100 (or the value the process started with) when normal.
\<close>

theorem tuner_follows_three_equal_samples:
  "let t = ticks xs (newLoadTuner now procs metric) in
     lt_state t = settled (rev (map judge xs)) \<and>
     procs_set t = (if lt_state t = loadIdle then 1 else lt_maxProcs t) \<and>
     gogc_set t = lt_gcPercent t \<and>
     gogc_set t \<in> (case lt_state t of loadBusy \<Rightarrow> {400} | loadIdle \<Rightarrow> {50}
                     | loadNormal \<Rightarrow> {100, currentGCPercent metric})"
proof -
  define t where "t = ticks xs (newLoadTuner now procs metric)"
  have "tuner_inv (rev (map judge xs) @ []) t" unfolding t_def by (rule ticks_inv [OF new_inv])
  moreover have "tuner_set (currentGCPercent metric) t" unfolding t_def by (rule ticks_set [OF new_set])
  ultimately show ?thesis
    by (simp add: t_def [symmetric] Let_def tuner_inv_def tuner_set_def busyGCPercent_def idleGCPercent_def
        normalGCPercent_def split: loadState.splits)
qed

end
