(* ===== verification/GoPath.thy ===== *)
theory GoPath
  imports GoLib
begin

text \<open>
  The functions of Go's \<open>path/filepath\<close> that the modelled code calls, on a Unix build
  (separator \<open>/\<close>, no volume names), over the list of a path's components, and the facts about
  clean absolute paths that the components share.
\<close>

abbreviation (input) SEP :: char where "SEP \<equiv> CHR ''/''"

definition IsAbs :: "string \<Rightarrow> bool" where
  "IsAbs p = HasPrefix p ''/''"

text \<open>The components of a path: what stands between separators, without empty ones and \<open>.\<close>.\<close>

definition path_words :: "string \<Rightarrow> string list" where
  "path_words p = filter (\<lambda>w. w \<noteq> [] \<and> w \<noteq> ''.'') (split_on SEP p)"

text \<open>
  One step of \<open>filepath.Clean\<close> on the components already written (last one first): \<open>..\<close> takes
  the previous component back, is dropped at the root, and is kept where it leads above a
  relative path.
\<close>

definition clean_step :: "bool \<Rightarrow> string list \<Rightarrow> string \<Rightarrow> string list" where
  "clean_step rooted out w =
     (if w = ''..'' then
        (case out of
           [] \<Rightarrow> if rooted then [] else [''..'']
         | v # vs \<Rightarrow> if v = ''..'' then ''..'' # out else vs)
      else w # out)"

definition clean_words :: "bool \<Rightarrow> string list \<Rightarrow> string list" where
  "clean_words rooted ws = rev (foldl (clean_step rooted) [] ws)"

definition path_of :: "bool \<Rightarrow> string list \<Rightarrow> string" where
  "path_of rooted ws =
     (if rooted then SEP # join_with ''/'' ws else if ws = [] then ''.'' else join_with ''/'' ws)"

definition Clean :: "string \<Rightarrow> string" where
  "Clean p = path_of (IsAbs p) (clean_words (IsAbs p) (path_words p))"

definition Join :: "string list \<Rightarrow> string" where
  "Join ps = (let qs = filter (\<lambda>p. p \<noteq> []) ps in if qs = [] then [] else Clean (join_with ''/'' qs))"

text \<open>The components of a cleaned path as \<open>Rel\<close> walks over them.\<close>

definition rel_words :: "string \<Rightarrow> string list" where
  "rel_words p = (if p = [] \<or> p = ''/'' then [] else split_on SEP (TrimPrefix p ''/''))"

fun strip_common :: "string list \<Rightarrow> string list \<Rightarrow> string list \<times> string list" where
  "strip_common (b # bs) (t # ts) = (if b = t then strip_common bs ts else (b # bs, t # ts))"
| "strip_common bs ts = (bs, ts)"

definition Rel :: "string \<Rightarrow> string \<Rightarrow> string option" where
  "Rel basepath targpath =
     (let base = Clean basepath; targ = Clean targpath in
      if targ = base then Some ''.''
      else
        let base = (if base = ''.'' then [] else base) in
        if IsAbs base \<noteq> IsAbs targ then None
        else
          let (bs, ts) = strip_common (rel_words base) (rel_words targ) in
          if bs \<noteq> [] \<and> hd bs = ''..'' then None
          else Some (join_with ''/'' (replicate (length bs) ''..'' @ ts)))"

definition last_sep_prefix :: "string \<Rightarrow> string" where
  "last_sep_prefix p = rev (dropWhile (\<lambda>c. c \<noteq> SEP) (rev p))"

definition Dir :: "string \<Rightarrow> string" where
  "Dir p = Clean (last_sep_prefix p)"

definition Base :: "string \<Rightarrow> string" where
  "Base p =
     (if p = [] then ''.''
      else let q = rev (dropWhile (\<lambda>c. c = SEP) (rev p)) in
           if q = [] then ''/'' else rev (takeWhile (\<lambda>c. c \<noteq> SEP) (rev q)))"

text \<open>\<open>filepath.Abs\<close>; \<open>wd\<close> is the process's working directory, \<open>None\<close> when \<open>os.Getwd\<close> fails.\<close>

definition Abs :: "string option \<Rightarrow> string \<Rightarrow> string option" where
  "Abs wd p = (if IsAbs p then Some (Clean p) else map_option (\<lambda>d. Join [d, p]) wd)"

subsection \<open>Words and paths\<close>

definition plain_word :: "string \<Rightarrow> bool" where
  "plain_word w = (w \<noteq> [] \<and> w \<noteq> ''.'' \<and> SEP \<notin> set w)"

definition real_word :: "string \<Rightarrow> bool" where
  "real_word w = (plain_word w \<and> w \<noteq> ''..'')"

lemma real_plain: "real_word w \<Longrightarrow> plain_word w"
  by (simp add: real_word_def)

lemma split_on_word: "c \<notin> set w \<Longrightarrow> split_on c w = [w]"
  by (induction w) auto

lemma split_on_append: "c \<notin> set w \<Longrightarrow> split_on c (w @ c # s) = w # split_on c s"
  by (induction w) auto

lemma split_join:
  "ws \<noteq> [] \<Longrightarrow> list_all (\<lambda>w. c \<notin> set w) ws \<Longrightarrow> split_on c (join_with [c] ws) = ws"
proof (induction ws)
  case (Cons w ws)
  then show ?case by (cases ws) (auto simp: split_on_word split_on_append)
qed simp

lemma path_words_plain: "list_all plain_word (path_words p)"
  by (auto simp: path_words_def list_all_iff plain_word_def dest: split_on_parts)

lemma path_words_sep [simp]: "path_words (SEP # p) = path_words p"
  by (simp add: path_words_def)

lemma path_words_append_sep: "path_words (p @ SEP # q) = path_words p @ path_words q"
proof -
  have "split_on SEP (p @ SEP # q) = split_on SEP p @ split_on SEP q"
  proof (induction p)
    case (Cons x p)
    then show ?case by (cases "split_on SEP p") auto
  qed simp
  then show ?thesis by (simp add: path_words_def)
qed

lemma path_words_join: "list_all plain_word ws \<Longrightarrow> path_words (join_with ''/'' ws) = ws"
proof (cases "ws = []")
  case False
  assume ws: "list_all plain_word ws"
  then have "split_on SEP (join_with ''/'' ws) = ws"
    using split_join [of ws SEP] False by (auto simp: list_all_iff plain_word_def)
  with ws show ?thesis by (auto simp: path_words_def list_all_iff plain_word_def intro: filter_True)
qed (simp add: path_words_def)

lemma path_words_path_of: "list_all plain_word ws \<Longrightarrow> path_words (path_of r ws) = ws"
  by (auto simp: path_of_def path_words_join) (simp add: path_words_def)

lemma IsAbs_Cons [simp]: "IsAbs (x # p) = (x = SEP)" "\<not> IsAbs []"
  by (auto simp: IsAbs_def HasPrefix_def)

lemma IsAbs_iff: "IsAbs p \<longleftrightarrow> (\<exists>q. p = SEP # q)"
  by (cases p) auto

lemma join_plain_not_abs: "list_all plain_word ws \<Longrightarrow> \<not> IsAbs (join_with ''/'' ws)"
proof (cases ws)
  case (Cons w ws')
  assume "list_all plain_word ws"
  with Cons obtain x v where "w = x # v" "x \<noteq> SEP" by (cases w) (auto simp: plain_word_def)
  with Cons show ?thesis by (cases ws') auto
qed simp

subsection \<open>Clean absolute paths\<close>

abbreviation abs_path :: "string list \<Rightarrow> string" where
  "abs_path ws \<equiv> path_of True ws"

lemma clean_foldl_real:
  "list_all real_word ws \<Longrightarrow> foldl (clean_step r) out ws = rev ws @ out"
  by (induction ws arbitrary: out) (auto simp: clean_step_def real_word_def)

lemma clean_words_real [simp]: "list_all real_word ws \<Longrightarrow> clean_words r ws = ws"
  by (simp add: clean_words_def clean_foldl_real)

lemma clean_step_rooted:
  "list_all real_word out \<Longrightarrow> plain_word w \<Longrightarrow> list_all real_word (clean_step True out w)"
  by (cases out) (auto simp: clean_step_def real_word_def)

lemma clean_foldl_rooted:
  "list_all real_word out \<Longrightarrow> list_all plain_word ws \<Longrightarrow> list_all real_word (foldl (clean_step True) out ws)"
  by (induction ws arbitrary: out) (simp_all add: clean_step_rooted)

lemma clean_words_rooted: "list_all plain_word ws \<Longrightarrow> list_all real_word (clean_words True ws)"
  using clean_foldl_rooted [of "[]" ws] by (simp add: clean_words_def list_all_iff)

text \<open>The components of a path read from the root.\<close>

definition root_words :: "string \<Rightarrow> string list" where
  "root_words p = clean_words True (path_words p)"

lemma root_words_real [simp]: "list_all real_word (root_words p)"
  by (simp add: root_words_def clean_words_rooted path_words_plain)

lemma real_list_plain: "list_all real_word ws \<Longrightarrow> list_all plain_word ws"
  by (auto simp: list_all_iff real_word_def)

lemma Clean_abs: "IsAbs p \<Longrightarrow> Clean p = abs_path (root_words p)"
  by (simp add: Clean_def root_words_def)

lemma IsAbs_abs_path [simp]: "IsAbs (abs_path ws)"
  by (simp add: path_of_def)

lemma root_words_abs_path [simp]: "list_all real_word ws \<Longrightarrow> root_words (abs_path ws) = ws"
  by (simp add: root_words_def path_words_path_of real_list_plain)

lemma Clean_abs_path [simp]: "list_all real_word ws \<Longrightarrow> Clean (abs_path ws) = abs_path ws"
  by (simp add: Clean_abs)

lemma abs_path_inject:
  "list_all real_word us \<Longrightarrow> list_all real_word ws \<Longrightarrow> abs_path us = abs_path ws \<longleftrightarrow> us = ws"
  by (metis root_words_abs_path)

lemma clean_step_plain: "list_all plain_word out \<Longrightarrow> plain_word w \<Longrightarrow> list_all plain_word (clean_step r out w)"
  by (cases out) (simp_all add: clean_step_def plain_word_def)

lemma clean_foldl_plain:
  "list_all plain_word out \<Longrightarrow> list_all plain_word ws \<Longrightarrow> list_all plain_word (foldl (clean_step r) out ws)"
  by (induction ws arbitrary: out) (simp_all add: clean_step_plain)

lemma clean_words_plain: "list_all plain_word (clean_words r (path_words p))"
  using clean_foldl_plain [of "[]" "path_words p" r] path_words_plain [of p]
  by (simp add: clean_words_def list_all_iff)

lemma IsAbs_Clean [simp]: "IsAbs (Clean p) = IsAbs p"
  using join_plain_not_abs [OF clean_words_plain, of False p]
  by (cases "IsAbs p") (simp_all add: Clean_def path_of_def)

lemma Clean_abs_idem [simp]: "IsAbs p \<Longrightarrow> Clean (Clean p) = Clean p"
  by (simp add: Clean_abs)

lemma root_words_Clean [simp]: "IsAbs p \<Longrightarrow> root_words (Clean p) = root_words p"
  by (simp add: Clean_abs)

lemma Join_two:
  "IsAbs d \<Longrightarrow> q \<noteq> [] \<Longrightarrow> Join [d, q] = abs_path (clean_words True (path_words d @ path_words q))"
proof -
  assume d: "IsAbs d" and q: "q \<noteq> []"
  then have "Join [d, q] = Clean (d @ SEP # q)" by (auto simp: Join_def Let_def)
  moreover have "IsAbs (d @ SEP # q)" using d by (auto simp: IsAbs_iff)
  ultimately show ?thesis by (simp add: Clean_abs root_words_def path_words_append_sep)
qed

lemma Join_real:
  "list_all real_word ws \<Longrightarrow> real_word w \<Longrightarrow> Join [abs_path ws, w] = abs_path (ws @ [w])"
proof -
  assume a: "list_all real_word ws" "real_word w"
  then have "path_words w = [w]"
    by (auto simp: path_words_def real_word_def plain_word_def split_on_word)
  moreover have "w \<noteq> []" using a by (simp add: real_word_def plain_word_def)
  ultimately show ?thesis
    using a by (simp add: Join_two path_words_path_of real_list_plain)
qed

subsection \<open>Relative paths\<close>

lemma rel_words_abs: "list_all plain_word ws \<Longrightarrow> rel_words (abs_path ws) = ws"
proof (cases "ws = []")
  case False
  assume ws: "list_all plain_word ws"
  then have "join_with ''/'' ws \<noteq> []"
    using False by (cases ws; cases "tl ws") (auto simp: plain_word_def)
  moreover have "split_on SEP (join_with ''/'' ws) = ws"
    using ws False split_join [of ws SEP] by (auto simp: list_all_iff plain_word_def)
  ultimately show ?thesis by (simp add: rel_words_def path_of_def TrimPrefix_def HasPrefix_def)
qed (simp add: rel_words_def path_of_def)

lemma strip_common_prefix: "fst (strip_common bs ts) = [] \<longleftrightarrow> prefix bs ts"
  by (induction bs ts rule: strip_common.induct) auto

lemma strip_common_split: "strip_common bs ts = (us, vs) \<Longrightarrow> \<exists>cs. bs = cs @ us \<and> ts = cs @ vs"
proof (induction bs ts arbitrary: us vs rule: strip_common.induct)
  case (1 b bs t ts)
  show ?case
  proof (cases "b = t")
    case True
    with 1 obtain cs where "bs = cs @ us" "ts = cs @ vs" by auto
    with True show ?thesis by (auto intro: exI [of _ "t # cs"])
  next
    case False
    with 1(2) show ?thesis by auto
  qed
qed auto

end
