(* ===== verification/Paths.thy ===== *)
theory Paths
  imports GoPath
begin

text \<open>
  Path confinement (cmd/irix-node/main.go): paths of the file API are resolved inside an
  instance's working directory, and working directories are kept out of system directories and
  out of the node's own data directory. The build modelled is Unix (\<open>runtime.GOOS\<close> is not
  \<open>windows\<close>). \<open>filepath.EvalSymlinks\<close> depends on the file system and is a parameter: it returns
  the resolved path, or fails because the path does not exist, or for another reason.
\<close>

definition goos :: string where
  "goos = ''linux''"

definition isDriveAbs :: "string \<Rightarrow> bool" where
  "isDriveAbs p =
     (goos = ''windows'' \<and> length p \<ge> 3 \<and> p ! 1 = CHR '':'' \<and> (p ! 2 = CHR ''/'' \<or> p ! 2 = CHR 0x5C))"

definition pathWithin :: "string \<Rightarrow> string \<Rightarrow> bool" where
  "pathWithin base p =
     (case Rel base p of
        None \<Rightarrow> False
      | Some rel \<Rightarrow> if rel = ''.'' then True else rel \<noteq> ''..'' \<and> \<not> HasPrefix rel ''../'')"

definition NormalizePath :: "string \<Rightarrow> string \<Rightarrow> string + string" where
  "NormalizePath cwd target =
     (let target = TrimSpace target in
      if target = [] then Inr cwd
      else
        let cleaned = Clean target;
            full = Clean (Join [cwd, target]);
            relative = (if \<not> pathWithin cwd full then Inl (''path out of bounds: '' @ target) else Inr full)
        in if IsAbs cleaned then
             if isDriveAbs cleaned then
               (if \<not> pathWithin cwd cleaned then Inl (''path out of bounds: '' @ target) else Inr cleaned)
             else if pathWithin cwd cleaned then Inr cleaned
             else relative
           else relative)"

datatype eval_error = NotExist | OtherError string

text \<open>\<open>resolveExistingPrefix\<close>: the outer \<open>None\<close> is a recursion that does not end.\<close>

partial_function (option) resolveExistingPrefix ::
  "(string \<Rightarrow> eval_error + string) \<Rightarrow> string \<Rightarrow> (string + string) option" where
  "resolveExistingPrefix evalSymlinks path =
     (case evalSymlinks path of
        Inr resolved \<Rightarrow> Some (Inr resolved)
      | Inl (OtherError e) \<Rightarrow> Some (Inl (''path resolution failed: '' @ e))
      | Inl NotExist \<Rightarrow>
          let dir = Dir path; base = Base path in
          if dir = path then Some (Inr path)
          else
            Option.bind (resolveExistingPrefix evalSymlinks dir)
              (\<lambda>r. case r of
                     Inl perr \<Rightarrow> Some (Inl perr)
                   | Inr parent \<Rightarrow> Some (Inr (Join [parent, base]))))"

definition safeResolve ::
  "(string \<Rightarrow> eval_error + string) \<Rightarrow> string \<Rightarrow> string \<Rightarrow> (string + string) option" where
  "safeResolve evalSymlinks cwd target =
     (case NormalizePath cwd target of
        Inl e \<Rightarrow> Some (Inl e)
      | Inr full \<Rightarrow>
          (case resolveExistingPrefix evalSymlinks cwd of
             None \<Rightarrow> None
           | Some (Inl e) \<Rightarrow> Some (Inl e)
           | Some (Inr rootResolved) \<Rightarrow>
               (case resolveExistingPrefix evalSymlinks full of
                  None \<Rightarrow> None
                | Some (Inl e) \<Rightarrow> Some (Inl e)
                | Some (Inr fullResolved) \<Rightarrow>
                    if \<not> pathWithin rootResolved fullResolved
                    then Some (Inl (''path out of bounds (symbolic link): '' @ target))
                    else Some (Inr full))))"

definition forbiddenCwdDirs :: "string list" where
  "forbiddenCwdDirs =
     [''/etc'', ''/usr'', ''/bin'', ''/sbin'', ''/lib'', ''/lib64'', ''/lib32'',
      ''/boot'', ''/dev'', ''/proc'', ''/sys'', ''/var/log'', ''/var/run'', ''/root'']"

definition id_char :: "char \<Rightarrow> bool" where
  "id_char c = (CHR ''A'' \<le> c \<and> c \<le> CHR ''Z'' \<or> CHR ''a'' \<le> c \<and> c \<le> CHR ''z'' \<or> CHR ''0'' \<le> c \<and> c \<le> CHR ''9'')"

text \<open>The pattern \<open>^[A-Za-z0-9][A-Za-z0-9._-]{0,63}$\<close>.\<close>

definition safeIDPattern :: "string \<Rightarrow> bool" where
  "safeIDPattern s =
     (case s of [] \<Rightarrow> False
      | c # r \<Rightarrow> id_char c \<and> list_all (\<lambda>x. id_char x \<or> x \<in> set ''._-'') r \<and> length r \<le> 63)"

definition safePathSegment :: "string \<Rightarrow> bool" where
  "safePathSegment s = (safeIDPattern s \<and> \<not> Contains s ''..'')"

definition validateCwd :: "string option \<Rightarrow> string \<Rightarrow> string option" where
  "validateCwd wd cwd =
     (let cwd = TrimSpace cwd in
      if cwd = [] then Some ''working directory must not be empty''
      else
        let cleaned = Clean cwd in
        if cleaned = ''/'' then Some (''working directory must not be the root: '' @ cwd)
        else
          (case Abs wd cleaned of
             None \<Rightarrow> Some ''working directory cannot be resolved''
           | Some ab \<Rightarrow>
               if list_ex (\<lambda>bad. pathWithin bad ab) forbiddenCwdDirs
               then Some (''working directory must not be in a system directory: '' @ cwd)
               else None))"

definition validateInstanceCwd :: "string option \<Rightarrow> string \<Rightarrow> string \<Rightarrow> string option" where
  "validateInstanceCwd wd dataDir cwd =
     (case validateCwd wd cwd of
        Some e \<Rightarrow> Some e
      | None \<Rightarrow>
          if dataDir \<noteq> [] then
            (case Abs wd (TrimSpace cwd) of
               None \<Rightarrow> Some ''working directory cannot be resolved''
             | Some ab \<Rightarrow>
                 (case Abs wd dataDir of
                    None \<Rightarrow> Some ''data directory cannot be resolved''
                  | Some dd \<Rightarrow>
                      if pathWithin (Clean dd) (Clean ab)
                      then Some (''working directory must not be in the data directory: '' @ cwd)
                      else None))
          else None)"

definition normalizeCwd :: "string option \<Rightarrow> string \<Rightarrow> string + string" where
  "normalizeCwd wd cwd =
     (let cwd = TrimSpace cwd in
      if cwd = [] then Inl ''working directory must not be empty''
      else
        (case Abs wd cwd of
           None \<Rightarrow> Inl ''working directory cannot be resolved''
         | Some ab \<Rightarrow>
             let ab = Clean ab in
             (case validateCwd wd ab of Some e \<Rightarrow> Inl e | None \<Rightarrow> Inr ab)))"

definition normalizeInstanceCwd :: "string option \<Rightarrow> string \<Rightarrow> string \<Rightarrow> string + string" where
  "normalizeInstanceCwd wd dataDir cwd =
     (case normalizeCwd wd cwd of
        Inl e \<Rightarrow> Inl e
      | Inr ab \<Rightarrow> (case validateInstanceCwd wd dataDir ab of Some e \<Rightarrow> Inl e | None \<Rightarrow> Inr ab))"

subsection \<open>What \<open>pathWithin\<close> decides\<close>

lemma dotdot_head:
  "ws \<noteq> [] \<Longrightarrow> list_all plain_word ws \<Longrightarrow>
   hd ws = ''..'' \<longleftrightarrow> join_with ''/'' ws = ''..'' \<or> HasPrefix (join_with ''/'' ws) ''../''"
proof -
  assume ws: "ws \<noteq> []" "list_all plain_word ws"
  then have sp: "split_on SEP (join_with ''/'' ws) = ws"
    using split_join [of ws SEP] by (auto simp: list_all_iff plain_word_def)
  show ?thesis
  proof
    assume h: "hd ws = ''..''"
    then obtain vs where vs: "ws = ''..'' # vs" using ws by (cases ws) auto
    then show "join_with ''/'' ws = ''..'' \<or> HasPrefix (join_with ''/'' ws) ''../''"
      by (cases vs) (auto simp: HasPrefix_def)
  next
    assume "join_with ''/'' ws = ''..'' \<or> HasPrefix (join_with ''/'' ws) ''../''"
    then consider "join_with ''/'' ws = ''..''" | r where "join_with ''/'' ws = ''..'' @ SEP # r"
      by (auto simp: HasPrefix_iff prefix_def)
    then show "hd ws = ''..''"
    proof cases
      case 1
      with sp show ?thesis using split_on_word [of SEP "''..''"] by auto
    next
      case 2
      with sp show ?thesis using split_on_append [of SEP "''..''" r] by auto
    qed
  qed
qed

lemma join_not_dot: "ws \<noteq> [] \<Longrightarrow> list_all plain_word ws \<Longrightarrow> join_with ''/'' ws \<noteq> ''.''"
  using path_words_join [of ws] by (auto simp: path_words_def)

lemma pathWithin_words:
  assumes "list_all real_word bs" "list_all real_word ts"
  shows "pathWithin (abs_path bs) (abs_path ts) \<longleftrightarrow> prefix bs ts"
proof (cases "bs = ts")
  case True
  with assms show ?thesis by (simp add: pathWithin_def Rel_def)
next
  case False
  obtain us vs where uv: "strip_common bs ts = (us, vs)" by (cases "strip_common bs ts")
  then obtain cs where cs: "bs = cs @ us" "ts = cs @ vs" using strip_common_split by blast
  have real: "list_all real_word us" "list_all real_word vs" using assms cs by auto
  define rel where "rel = replicate (length us) ''..'' @ vs"
  have pre: "prefix bs ts \<longleftrightarrow> us = []" using strip_common_prefix [of bs ts] uv by simp
  have nonempty: "rel \<noteq> []" using False cs by (auto simp: rel_def)
  have plain: "list_all plain_word rel"
  proof -
    have "plain_word ''..''" by (simp add: plain_word_def)
    with real_list_plain [OF real(2)] show ?thesis by (auto simp: rel_def list_all_iff)
  qed
  have "us \<noteq> [] \<Longrightarrow> hd us \<noteq> ''..''" using real(1) by (cases us) (auto simp: real_word_def)
  then have "Rel (abs_path bs) (abs_path ts) = Some (join_with ''/'' rel)"
    using assms False uv
    by (auto simp: Rel_def Let_def rel_def abs_path_inject rel_words_abs real_list_plain)
       (auto simp: path_of_def)
  moreover have "hd rel = ''..'' \<longleftrightarrow> us \<noteq> []"
  proof (cases us)
    case Nil
    then have "vs \<noteq> []" using nonempty by (simp add: rel_def)
    then have "hd vs \<noteq> ''..''" using real(2) by (cases vs) (auto simp: real_word_def)
    with Nil show ?thesis by (simp add: rel_def)
  qed (simp add: rel_def)
  ultimately show ?thesis
    using dotdot_head [OF nonempty plain] join_not_dot [OF nonempty plain] pre
    by (auto simp: pathWithin_def)
qed

lemma Rel_Clean: "IsAbs b \<Longrightarrow> IsAbs p \<Longrightarrow> Rel (Clean b) (Clean p) = Rel b p"
  by (simp add: Rel_def)

lemma pathWithin_abs:
  "IsAbs b \<Longrightarrow> IsAbs p \<Longrightarrow> pathWithin b p \<longleftrightarrow> prefix (root_words b) (root_words p)"
  using pathWithin_words [of "root_words b" "root_words p"]
  by (simp add: pathWithin_def Clean_abs [symmetric] Rel_Clean)

subsection \<open>\<open>NormalizePath\<close>\<close>

lemma Join_abs: "IsAbs d \<Longrightarrow> q \<noteq> [] \<Longrightarrow> IsAbs (Join [d, q])"
  by (simp add: Join_two)

lemma normalize_path_confined_core:
  assumes "IsAbs cwd" "NormalizePath cwd target = Inr p"
  shows "prefix (root_words cwd) (root_words p) \<and>
    p = (if TrimSpace target = [] then cwd else abs_path (root_words p))"
proof (cases "TrimSpace target = []")
  case True
  with assms show ?thesis by (simp add: NormalizePath_def)
next
  case False
  then have "IsAbs p \<and> pathWithin cwd p \<and> (\<exists>q. IsAbs q \<and> p = Clean q)"
    using assms Join_abs [OF assms(1) False]
    by (auto simp: NormalizePath_def Let_def isDriveAbs_def goos_def split: if_splits)
  with assms(1) False show ?thesis by (auto simp: pathWithin_abs Clean_abs)
qed

text \<open>
  The file API cannot be led out of an instance's working directory by the spelling of a
  path: whatever is asked for, a path that is accepted has the working directory's components as
  a prefix of its own, and contains no \<open>..\<close> (an empty target is the directory itself).
\<close>

theorem normalize_path_confined:
  assumes "IsAbs cwd" "NormalizePath cwd target = Inr p"
  shows "prefix (root_words cwd) (root_words p) \<and>
    p = (if TrimSpace target = [] then cwd else abs_path (root_words p)) \<and> ''..'' \<notin> set (root_words p)"
  using normalize_path_confined_core [OF assms] root_words_real [of p]
  by (auto simp: list_all_iff real_word_def)

theorem normalize_path_confined_witness:
  "NormalizePath ''/srv/mc'' ''world/../a.txt'' = Inr ''/srv/mc/a.txt'' \<and>
   prefix (root_words ''/srv/mc'') (root_words ''/srv/mc/a.txt'') \<and>
   ''/srv/mc/a.txt'' = (if TrimSpace ''world/../a.txt'' = [] then ''/srv/mc'' else abs_path (root_words ''/srv/mc/a.txt'')) \<and>
   ''..'' \<notin> set (root_words ''/srv/mc/a.txt'')"
proof -
  have "NormalizePath ''/srv/mc'' ''world/../a.txt'' = Inr ''/srv/mc/a.txt''" by code_simp
  moreover from normalize_path_confined [OF _ this] show ?thesis using calculation by simp
qed

text \<open>
  A file below the working directory is reached by its relative name, written with or
  without a leading separator unless that absolute name already lies in the directory:
  the answer is the directory's path followed by the name.
\<close>

theorem normalize_path_reaches_below:
  assumes "IsAbs cwd" "ws \<noteq> []" "list_all real_word ws" "TrimSpace target = join_with ''/'' ws"
  shows "NormalizePath cwd target = Inr (abs_path (root_words cwd @ ws))"
proof -
  have ne: "join_with ''/'' ws \<noteq> []"
    using assms(2,3) by (cases ws; cases "tl ws") (auto simp: real_word_def plain_word_def)
  have "clean_words True (path_words cwd @ ws) = root_words cwd @ ws"
  proof -
    have "clean_words True (path_words cwd @ ws) = rev (foldl (clean_step True) (rev (root_words cwd)) ws)"
      by (simp add: clean_words_def root_words_def)
    then show ?thesis using assms(3) by (simp add: clean_foldl_real)
  qed
  then have join: "Join [cwd, join_with ''/'' ws] = abs_path (root_words cwd @ ws)"
    using Join_two [OF assms(1) ne] assms(3) by (simp add: path_words_join real_list_plain)
  have real: "list_all real_word (root_words cwd @ ws)" using assms(3) by simp
  have "\<not> IsAbs (join_with ''/'' ws)" by (rule join_plain_not_abs) (rule real_list_plain [OF assms(3)])
  then show ?thesis
    using ne real assms(1,4) by (simp add: NormalizePath_def Let_def join pathWithin_abs)
qed

theorem normalize_path_below_witness:
  "NormalizePath ''/srv/mc'' '' world/level.dat '' = Inr (abs_path (root_words ''/srv/mc'' @ [''world'', ''level.dat'']))"
  by (rule normalize_path_reaches_below) code_simp+

subsection \<open>\<open>safeResolve\<close>\<close>

text \<open>The parent directory and the last component of a clean absolute path.\<close>

lemma join_snoc: "ws \<noteq> [] \<Longrightarrow> join_with sep (ws @ [w]) = join_with sep ws @ sep @ w"
  by (induction ws rule: join_with.induct [of _ sep, case_names Nil One More]) auto

lemma abs_path_snoc: "\<exists>q. abs_path (ws @ [w]) = q @ SEP # w \<and> IsAbs (q @ [SEP]) \<and> path_words (q @ [SEP]) = path_words (abs_path ws)"
proof (cases "ws = []")
  case True
  then show ?thesis by (intro exI [of _ "[]"]) (simp add: path_of_def path_words_def)
next
  case False
  have "path_words (abs_path ws @ [SEP]) = path_words (abs_path ws)"
    using path_words_append_sep [of "abs_path ws" "[]"] by (simp add: path_words_def)
  with False show ?thesis
    by (intro exI [of _ "abs_path ws"]) (auto simp: path_of_def join_snoc)
qed

lemma Dir_Base_snoc:
  assumes "list_all real_word ws" "real_word w"
  shows "Dir (abs_path (ws @ [w])) = abs_path ws" "Base (abs_path (ws @ [w])) = w"
proof -
  obtain q where q: "abs_path (ws @ [w]) = q @ SEP # w" "IsAbs (q @ [SEP])"
    "path_words (q @ [SEP]) = path_words (abs_path ws)" using abs_path_snoc by blast
  have w: "SEP \<notin> set w" "w \<noteq> []" using assms(2) by (auto simp: real_word_def plain_word_def)
  then have dw: "dropWhile (\<lambda>c. c \<noteq> SEP) (rev w @ SEP # rev q) = SEP # rev q"
    by (subst dropWhile_append2) auto
  then have "last_sep_prefix (q @ SEP # w) = q @ [SEP]" by (simp add: last_sep_prefix_def)
  then have "Dir (abs_path (ws @ [w])) = abs_path (clean_words True (path_words (abs_path ws)))"
    using q by (simp add: Dir_def Clean_abs root_words_def)
  then show "Dir (abs_path (ws @ [w])) = abs_path ws"
    using assms(1) by (simp add: path_words_path_of real_list_plain)
  have "rev w \<noteq> []" "hd (rev w) \<noteq> SEP" using w by (auto simp: hd_rev) (metis last_in_set)
  then have "dropWhile (\<lambda>c. c = SEP) (rev w @ SEP # rev q) = rev w @ SEP # rev q"
    by (cases "rev w") auto
  moreover have "takeWhile (\<lambda>c. c \<noteq> SEP) (rev w @ SEP # rev q) = rev w"
    using w by (subst takeWhile_append2) auto
  ultimately show "Base (abs_path (ws @ [w])) = w"
    using w by (simp add: Base_def q(1) Let_def)
qed

lemma Dir_root: "Dir ''/'' = ''/''"
  by code_simp

lemma Dir_abs: "IsAbs p \<Longrightarrow> \<exists>ws. list_all real_word ws \<and> Dir p = abs_path ws"
proof -
  assume "IsAbs p"
  then obtain r where p: "p = SEP # r" by (auto simp: IsAbs_iff)
  have "IsAbs (last_sep_prefix p)"
  proof (cases "SEP \<in> set r")
    case True
    then obtain a b where "r = a @ SEP # b" "SEP \<notin> set b" by (metis split_list_last)
    then have "last_sep_prefix p = SEP # a @ [SEP]"
      by (simp add: last_sep_prefix_def p dropWhile_append2 [of "rev b", simplified])
        (subst dropWhile_append2; auto)
    then show ?thesis by simp
  next
    case False
    then have "dropWhile (\<lambda>c. c \<noteq> SEP) (rev r @ [SEP]) = [SEP]" by (subst dropWhile_append2) auto
    then show ?thesis by (simp add: last_sep_prefix_def p)
  qed
  then show ?thesis unfolding Dir_def using Clean_abs root_words_real by blast
qed

subsection \<open>\<open>safeResolve\<close>\<close>

definition eval_abs :: "(string \<Rightarrow> eval_error + string) \<Rightarrow> bool" where
  "eval_abs evalSymlinks = (\<forall>q r. IsAbs q \<longrightarrow> evalSymlinks q = Inr r \<longrightarrow> IsAbs r)"

lemma Base_nonempty: "Base p \<noteq> []"
proof (cases "dropWhile (\<lambda>c. c = SEP) (rev p)")
  case (Cons x xs)
  then have "x \<noteq> SEP" using hd_dropWhile [of "\<lambda>c. c = SEP" "rev p"] by auto
  with Cons show ?thesis by (simp add: Base_def Let_def)
qed (simp add: Base_def)

lemma resolve_step:
  assumes "eval_abs ev" "IsAbs p"
    "resolveExistingPrefix ev (Dir p) = Some r" "\<forall>q. r = Inr q \<longrightarrow> IsAbs q"
  shows "\<exists>r. resolveExistingPrefix ev p = Some r \<and> (\<forall>q. r = Inr q \<longrightarrow> IsAbs q)"
  using assms Base_nonempty [of p]
  by (subst resolveExistingPrefix.simps)
     (auto simp: eval_abs_def Let_def Join_abs split: sum.splits eval_error.splits)

lemma resolve_clean_returns:
  assumes "eval_abs ev" "list_all real_word ws"
  shows "\<exists>r. resolveExistingPrefix ev (abs_path ws) = Some r \<and> (\<forall>q. r = Inr q \<longrightarrow> IsAbs q)"
  using assms(2)
proof (induction ws rule: rev_induct)
  case Nil
  then show ?case
    using assms(1) Dir_root IsAbs_Cons(1) [of SEP "[]"] unfolding eval_abs_def
    by (subst resolveExistingPrefix.simps)
       (auto simp: path_of_def split: sum.splits eval_error.splits simp del: IsAbs_Cons)
next
  case (snoc w ws)
  then have w: "list_all real_word ws" "real_word w" by auto
  from snoc.IH [OF w(1)] show ?case
    using resolve_step [OF assms(1) IsAbs_abs_path, of "ws @ [w]"] by (auto simp: Dir_Base_snoc [OF w])
qed

lemma resolve_returns:
  assumes "eval_abs ev" "IsAbs p"
  shows "\<exists>r. resolveExistingPrefix ev p = Some r \<and> (\<forall>q. r = Inr q \<longrightarrow> IsAbs q)"
proof -
  obtain ws where ws: "list_all real_word ws" "Dir p = abs_path ws" using Dir_abs [OF assms(2)] by blast
  from resolve_clean_returns [OF assms(1) ws(1)] resolve_step [OF assms] show ?thesis
    unfolding ws(2) by blast
qed

lemma NormalizePath_abs: "IsAbs cwd \<Longrightarrow> NormalizePath cwd target = Inr p \<Longrightarrow> IsAbs p"
  by (auto simp: NormalizePath_def Let_def Join_abs split: if_splits)


definition linkless :: "string \<Rightarrow> eval_error + string" where
  "linkless p = (if prefix (root_words p) [''srv'', ''mc''] then Inr (Clean p) else Inl NotExist)"


text \<open>Where no symbolic link is met, resolving changes nothing but the spelling.\<close>

definition no_links :: "(string \<Rightarrow> eval_error + string) \<Rightarrow> bool" where
  "no_links ev = (\<forall>q. IsAbs q \<longrightarrow> ev q = Inr (Clean q) \<or> ev q = Inl NotExist)"

lemma resolve_no_links:
  assumes "no_links ev"
  shows "list_all real_word ws \<Longrightarrow> resolveExistingPrefix ev (abs_path ws) = Some (Inr (abs_path ws))"
proof (induction ws rule: rev_induct)
  case Nil
  have "ev ''/'' = Inr (Clean ''/'') \<or> ev ''/'' = Inl NotExist" using assms by (simp add: no_links_def)
  moreover have "Clean ''/'' = ''/''" by code_simp
  ultimately show ?case using Dir_root by (subst resolveExistingPrefix.simps) (auto simp: path_of_def)
next
  case (snoc w ws)
  then have w: "list_all real_word ws" "real_word w" by auto
  have "ev (abs_path (ws @ [w])) = Inr (abs_path (ws @ [w])) \<or> ev (abs_path (ws @ [w])) = Inl NotExist"
    using assms Clean_abs_path [OF snoc.prems] IsAbs_abs_path [of "ws @ [w]"] unfolding no_links_def by metis
  then show ?case
    using snoc.IH [OF w(1)] abs_path_inject [of "ws @ [w]" ws] snoc.prems w
    by (subst resolveExistingPrefix.simps) (auto simp: Dir_Base_snoc [OF w] Join_real)
qed

text \<open>
  In a directory tree without symbolic links \<open>safeResolve\<close> is \<open>NormalizePath\<close>: the check
  of the links refuses nothing that was not refused before.
\<close>

theorem safe_resolve_without_links:
  assumes "no_links evalSymlinks" "list_all real_word ws"
  shows "safeResolve evalSymlinks (abs_path ws) target = Some (NormalizePath (abs_path ws) target)"
proof (cases "NormalizePath (abs_path ws) target")
  case (Inl e)
  then show ?thesis by (simp add: safeResolve_def)
next
  case (Inr p)
  have cwd: "IsAbs (abs_path ws)" by simp
  from normalize_path_confined_core [OF cwd Inr] have p: "p = abs_path (root_words p)" "prefix ws (root_words p)"
    using assms(2) by (auto split: if_splits)
  then show ?thesis
    using Inr resolve_no_links [OF assms(1) assms(2)] resolve_no_links [OF assms(1) root_words_real [of p]]
      pathWithin_words [OF assms(2) root_words_real [of p]]
    by (simp add: safeResolve_def)
qed

theorem safe_resolve_without_links_witness:
  "safeResolve linkless (abs_path [''srv'', ''mc'']) ''../../etc/passwd'' =
     Some (NormalizePath (abs_path [''srv'', ''mc'']) ''../../etc/passwd'')"
  by (rule safe_resolve_without_links) (auto simp: no_links_def linkless_def real_word_def plain_word_def)

subsection \<open>Working directories\<close>

lemma Abs_is_clean:
  assumes "IsAbs d" "Abs (Some d) p = Some a"
  shows "\<exists>ws. list_all real_word ws \<and> a = abs_path ws"
proof (cases "IsAbs p")
  case True
  with assms have "a = abs_path (root_words p)" by (simp add: Abs_def Clean_abs)
  then show ?thesis using root_words_real by blast
next
  case False
  have "\<exists>q. IsAbs q \<and> a = Clean q"
  proof (cases "p = []")
    case True
    with False assms show ?thesis by (auto simp: Abs_def Join_def)
  next
    case ne: False
    from assms(1) have "IsAbs (d @ SEP # p)" by (auto simp: IsAbs_iff)
    moreover have "a = Clean (d @ SEP # p)" using False ne assms by (auto simp: Abs_def Join_def)
    ultimately show ?thesis by blast
  qed
  then show ?thesis using Clean_abs root_words_real by blast
qed

lemma Abs_abs_path [simp]: "list_all real_word ws \<Longrightarrow> Abs wd (abs_path ws) = Some (abs_path ws)"
  by (simp add: Abs_def)

lemma forbidden_abs: "list_all IsAbs forbiddenCwdDirs"
  by code_simp

text \<open>
  A working directory accepted for an instance is an absolute, cleaned path; it is not the
  root, lies in none of the system directories and not in the node's data directory.
\<close>

theorem instance_cwd_safe:
  assumes "IsAbs wd" "IsAbs dataDir" "normalizeInstanceCwd (Some wd) dataDir cwd = Inr p" "TrimSpace p = p"
  shows "p = abs_path (root_words p) \<and> root_words p \<noteq> [] \<and>
    list_all (\<lambda>bad. \<not> prefix (root_words bad) (root_words p)) forbiddenCwdDirs \<and>
    \<not> prefix (root_words dataDir) (root_words p)"
proof -
  obtain a where a: "Abs (Some wd) (TrimSpace cwd) = Some a" "p = Clean a"
    "validateInstanceCwd (Some wd) dataDir p = None"
    using assms(3) by (auto simp: normalizeInstanceCwd_def normalizeCwd_def Let_def split: if_splits option.splits)
  from Abs_is_clean [OF assms(1) a(1)] obtain ws where ws: "list_all real_word ws" "p = abs_path ws"
    using a(2) by auto
  have dir: "dataDir \<noteq> []" using assms(2) by auto
  have dd: "Abs (Some wd) dataDir = Some (Clean dataDir)" using assms(2) by (simp add: Abs_def)
  have p: "IsAbs p" "Clean p = p" "Abs (Some wd) p = Some p" "p \<noteq> []" "root_words p = ws"
    using ws(1) by (simp_all add: ws(2)) (simp add: path_of_def)
  have "p = ''/'' \<longleftrightarrow> ws = []"
    using abs_path_inject [OF ws(1), of "[]"] by (simp add: ws(2)) (simp add: path_of_def)
  with a(3) p dd dir assms(4)
  have "ws \<noteq> [] \<and> \<not> list_ex (\<lambda>bad. pathWithin bad p) forbiddenCwdDirs \<and> \<not> pathWithin (Clean dataDir) p"
    by (simp add: validateInstanceCwd_def validateCwd_def Let_def Clean_abs_idem [OF assms(2)]
        split: if_splits option.splits)
  with p ws(2) assms(2) forbidden_abs show ?thesis
    by (auto simp: list_all_iff list_ex_iff pathWithin_abs)
qed

theorem instance_cwd_safe_witness:
  "normalizeInstanceCwd (Some ''/'') ''/var/irix'' ''games//mc/.'' = Inr ''/games/mc'' \<and>
   ''/games/mc'' = abs_path (root_words ''/games/mc'') \<and> root_words ''/games/mc'' \<noteq> [] \<and>
   list_all (\<lambda>bad. \<not> prefix (root_words bad) (root_words ''/games/mc'')) forbiddenCwdDirs \<and>
   \<not> prefix (root_words ''/var/irix'') (root_words ''/games/mc'')"
proof -
  have r: "normalizeInstanceCwd (Some ''/'') ''/var/irix'' ''games//mc/.'' = Inr ''/games/mc''" by code_simp
  moreover have "TrimSpace ''/games/mc'' = ''/games/mc''" by code_simp
  ultimately show ?thesis using instance_cwd_safe [OF _ _ r] by simp
qed

subsection \<open>Command lines\<close>

definition flush_arg :: "string list \<Rightarrow> string \<Rightarrow> string list" where
  "flush_arg args cur = (if length cur > 0 then args @ [cur] else args)"

fun split_command_loop :: "string list \<Rightarrow> string \<Rightarrow> bool \<Rightarrow> bool \<Rightarrow> string \<Rightarrow> string list" where
  "split_command_loop args cur inSingle inDouble [] = flush_arg args cur"
| "split_command_loop args cur inSingle inDouble (r # s) =
     (if r = CHR 0x27 \<and> \<not> inDouble then split_command_loop args cur (\<not> inSingle) inDouble s
      else if r = CHR 0x22 \<and> \<not> inSingle then split_command_loop args cur inSingle (\<not> inDouble) s
      else if (r = CHR '' '' \<or> r = TAB) \<and> \<not> inSingle \<and> \<not> inDouble
           then split_command_loop (flush_arg args cur) [] inSingle inDouble s
      else split_command_loop args (cur @ [r]) inSingle inDouble s)"

definition SplitCommand :: "string \<Rightarrow> string list" where
  "SplitCommand s = split_command_loop [] [] False False s"

definition atoiDefault :: "string \<Rightarrow> int \<Rightarrow> int" where
  "atoiDefault s def = (case Atoi (TrimSpace s) of Some v \<Rightarrow> v | None \<Rightarrow> def)"

definition single_quoted :: "string \<Rightarrow> string" where
  "single_quoted w = CHR 0x27 # w @ [CHR 0x27]"

lemma split_command_quoted:
  "CHR 0x27 \<notin> set w \<Longrightarrow>
   split_command_loop args cur True False (w @ CHR 0x27 # s) = split_command_loop args (cur @ w) False False s"
  by (induction w arbitrary: cur) auto

lemma split_command_words:
  "list_all (\<lambda>w. w \<noteq> [] \<and> CHR 0x27 \<notin> set w) ws \<Longrightarrow>
   split_command_loop args [] False False (join_with '' '' (map single_quoted ws)) = args @ ws"
proof (induction ws arbitrary: args)
  case Nil
  then show ?case by (simp add: flush_arg_def)
next
  case (Cons w ws)
  have *: "split_command_loop args [] False False (single_quoted w @ s) = split_command_loop args w False False s" for s
    using Cons.prems by (simp add: single_quoted_def split_command_quoted)
  show ?case
  proof (cases ws)
    case Nil
    with * [of "[]"] Cons.prems show ?thesis by (simp add: flush_arg_def)
  next
    case (Cons v vs)
    with * [of "'' '' @ join_with '' '' (map single_quoted ws)"] Cons.prems Cons.IH [of "args @ [w]"]
    show ?thesis by (simp add: flush_arg_def)
  qed
qed

text \<open>
  Splitting undoes quoting: a command line made of single-quoted arguments is split back
  into exactly those arguments, blanks and double quotes in them included.
\<close>

theorem split_command_round_trip:
  assumes "list_all (\<lambda>w. w \<noteq> [] \<and> CHR 0x27 \<notin> set w) ws"
  shows "SplitCommand (join_with '' '' (map single_quoted ws)) = ws"
  using split_command_words [OF assms, of "[]"] by (simp add: SplitCommand_def)

theorem split_command_witness:
  "SplitCommand (join_with '' '' (map single_quoted [''java'', ''-jar'', ''my server.jar''])) =
     [''java'', ''-jar'', ''my server.jar'']"
  by (rule split_command_round_trip) simp

end
