(* ===== verification/Access.thy ===== *)
theory Access
  imports GoLib
begin

text \<open>
  Who may call what (cmd/irix-node): the identity of a request (accounts_handlers.go), the
  permission catalogue (perm_catalog.go), the routes of the node with their guard (the
  \<open>register...Routes\<close> functions of instance.go, accounts_handlers.go, container.go, cluster.go and
  vault.go), and the \<open>auth\<close> wrapper that every guarded route goes through (instance.go). The
  display texts of the catalogue are left out; its group names are given in English.
\<close>

subsection \<open>The permission catalogue\<close>

record permState =
  permGroups :: "(string \<times> string list) list"
  permIndex :: "(string, string) fmap"

fun group_append :: "string \<Rightarrow> string \<Rightarrow> (string \<times> string list) list \<Rightarrow> (string \<times> string list) list" where
  "group_append g k [] = [(g, [k])]"
| "group_append g k ((n, es) # gs) = (if n = g then (n, es @ [k]) # gs else (n, es) # group_append g k gs)"

definition perm :: "string \<Rightarrow> string \<Rightarrow> permState \<Rightarrow> permState" where
  "perm grp key s =
     (if fmlookup (permIndex s) key \<noteq> None then s
      else s\<lparr>permIndex := fmupd key grp (permIndex s), permGroups := group_append grp key (permGroups s)\<rparr>)"

definition permCatalog :: "permState \<Rightarrow> (string \<times> string list) list" where
  "permCatalog s = map (\<lambda>(n, es). (n, es)) (permGroups s)"

definition permKeyExists :: "permState \<Rightarrow> string \<Rightarrow> bool" where
  "permKeyExists s key = (fmlookup (permIndex s) key \<noteq> None)"

definition empty_perms :: permState where
  "empty_perms = \<lparr>permGroups = [], permIndex = fmempty\<rparr>"

text \<open>\<open>permAllowed\<close>; \<open>loadPermissions\<close> is \<open>None\<close> where the account system is not enabled.\<close>

definition permAllowed :: "(string \<Rightarrow> (string, bool) fmap) option \<Rightarrow> string \<Rightarrow> string \<Rightarrow> bool" where
  "permAllowed loadPermissions username pattern =
     (case loadPermissions of
        None \<Rightarrow> False
      | Some load \<Rightarrow> if pattern = [] then False
                     else (case fmlookup (load username) pattern of None \<Rightarrow> False | Some v \<Rightarrow> v))"

subsection \<open>Routes\<close>

text \<open>
  A registration is a series of catalogue entries (\<open>PERM group key\<close>) and routes
  (\<open>HANDLE pattern guarded handler\<close>: guarded where the handler is wrapped in \<open>d.auth\<close>).
\<close>

datatype route_stmt = PERM string string | HANDLE string bool string

definition registerAccountRoutes :: "route_stmt list" where
  "registerAccountRoutes =
     [HANDLE ''POST /api/auth/login'' False ''handleAccountLogin'',
      PERM ''accounts'' ''POST /api/auth/logout'',
      HANDLE ''POST /api/auth/logout'' True ''handleAccountLogout'',
      PERM ''accounts'' ''GET /api/accounts/me'',
      HANDLE ''GET /api/accounts/me'' True ''handleAccountMe'',
      PERM ''accounts'' ''GET /api/accounts/catalog'',
      HANDLE ''GET /api/accounts/catalog'' True ''handleAccountCatalog'',
      PERM ''accounts'' ''PUT /api/accounts/password'',
      HANDLE ''PUT /api/accounts/password'' True ''handleAccountPassword'',
      PERM ''accounts'' ''GET /api/accounts'',
      HANDLE ''GET /api/accounts'' True ''handleAccountsList'',
      PERM ''accounts'' ''POST /api/accounts'',
      HANDLE ''POST /api/accounts'' True ''handleAccountCreate'',
      PERM ''accounts'' ''DELETE /api/accounts'',
      HANDLE ''DELETE /api/accounts'' True ''handleAccountDelete'',
      PERM ''accounts'' ''PUT /api/accounts/permissions'',
      HANDLE ''PUT /api/accounts/permissions'' True ''handleAccountPermissions'']"

definition registerContainerRoutes :: "route_stmt list" where
  "registerContainerRoutes =
     [PERM ''container'' ''GET /api/container/info'',
      HANDLE ''GET /api/container/info'' True ''handleContainerInfo'',
      PERM ''container'' ''GET /api/container/ps'',
      HANDLE ''GET /api/container/ps'' True ''handleContainerPS'',
      PERM ''container'' ''POST /api/container/create'',
      HANDLE ''POST /api/container/create'' True ''handleContainerCreate'',
      PERM ''container'' ''POST /api/container/{id}/start'',
      HANDLE ''POST /api/container/{id}/start'' True ''handleContainerStart'',
      PERM ''container'' ''POST /api/container/{id}/stop'',
      HANDLE ''POST /api/container/{id}/stop'' True ''handleContainerStop'',
      PERM ''container'' ''POST /api/container/{id}/restart'',
      HANDLE ''POST /api/container/{id}/restart'' True ''handleContainerRestart'',
      PERM ''container'' ''POST /api/container/{id}/kill'',
      HANDLE ''POST /api/container/{id}/kill'' True ''handleContainerKill'',
      PERM ''container'' ''DELETE /api/container/{id}'',
      HANDLE ''DELETE /api/container/{id}'' True ''handleContainerRemove'',
      PERM ''container'' ''GET /api/container/{id}/logs'',
      HANDLE ''GET /api/container/{id}/logs'' True ''handleContainerLogs'',
      PERM ''container'' ''POST /api/container/{id}/exec'',
      HANDLE ''POST /api/container/{id}/exec'' True ''handleContainerExec'',
      PERM ''container'' ''GET /api/container/{id}/stats'',
      HANDLE ''GET /api/container/{id}/stats'' True ''handleContainerStats'',
      PERM ''container'' ''GET /api/image/list'',
      HANDLE ''GET /api/image/list'' True ''handleImageList'',
      PERM ''container'' ''POST /api/image/pull'',
      HANDLE ''POST /api/image/pull'' True ''handleImagePull'',
      PERM ''container'' ''POST /api/image/build'',
      HANDLE ''POST /api/image/build'' True ''handleImageBuild'',
      PERM ''container'' ''GET /api/image/build-progress'',
      HANDLE ''GET /api/image/build-progress'' True ''handleImageBuildProgress'',
      PERM ''container'' ''DELETE /api/image/{name}'',
      HANDLE ''DELETE /api/image/{name}'' True ''handleImageRemove'',
      PERM ''container'' ''GET /api/volume/list'',
      HANDLE ''GET /api/volume/list'' True ''handleVolumeList'',
      PERM ''container'' ''DELETE /api/volume/{name}'',
      HANDLE ''DELETE /api/volume/{name}'' True ''handleVolumeRemove'',
      PERM ''container'' ''GET /api/network/list'',
      HANDLE ''GET /api/network/list'' True ''handleNetworkList'',
      PERM ''container'' ''POST /api/container/{id}/clone'',
      HANDLE ''POST /api/container/{id}/clone'' True ''handleContainerClone'',
      PERM ''container'' ''POST /api/container/{id}/export'',
      HANDLE ''POST /api/container/{id}/export'' True ''handleContainerExport'',
      PERM ''container'' ''POST /api/container/{id}/limits'',
      HANDLE ''POST /api/container/{id}/limits'' True ''handleContainerLimits'',
      PERM ''container'' ''POST /api/image/import'',
      HANDLE ''POST /api/image/import'' True ''handleImageImport'',
      PERM ''Bastille'' ''GET /api/bastille/releases'',
      HANDLE ''GET /api/bastille/releases'' True ''handleBastilleReleases'',
      PERM ''Bastille'' ''POST /api/bastille/bootstrap'',
      HANDLE ''POST /api/bastille/bootstrap'' True ''handleBastilleBootstrap'',
      PERM ''Bastille'' ''POST /api/bastille/setup'',
      HANDLE ''POST /api/bastille/setup'' True ''handleBastilleSetup'',
      PERM ''Bastille'' ''GET /api/bastille/jails'',
      HANDLE ''GET /api/bastille/jails'' True ''handleBastilleJails'',
      PERM ''Bastille'' ''POST /api/bastille/jails/create'',
      HANDLE ''POST /api/bastille/jails/create'' True ''handleBastilleCreate'',
      PERM ''Bastille'' ''POST /api/bastille/jails/{name}/start'',
      HANDLE ''POST /api/bastille/jails/{name}/start'' True ''handleBastilleStart'',
      PERM ''Bastille'' ''POST /api/bastille/jails/{name}/stop'',
      HANDLE ''POST /api/bastille/jails/{name}/stop'' True ''handleBastilleStop'',
      PERM ''Bastille'' ''POST /api/bastille/jails/{name}/restart'',
      HANDLE ''POST /api/bastille/jails/{name}/restart'' True ''handleBastilleRestart'',
      PERM ''Bastille'' ''POST /api/bastille/jails/{name}/destroy'',
      HANDLE ''POST /api/bastille/jails/{name}/destroy'' True ''handleBastilleDestroy'',
      PERM ''Bastille'' ''POST /api/bastille/jails/{name}/clone'',
      HANDLE ''POST /api/bastille/jails/{name}/clone'' True ''handleBastilleClone'',
      PERM ''Bastille'' ''POST /api/bastille/jails/{name}/export'',
      HANDLE ''POST /api/bastille/jails/{name}/export'' True ''handleBastilleExport'',
      PERM ''Bastille'' ''POST /api/bastille/jails/import'',
      HANDLE ''POST /api/bastille/jails/import'' True ''handleBastilleImport'',
      PERM ''Bastille'' ''GET /api/bastille/jails/{name}/console'',
      HANDLE ''GET /api/bastille/jails/{name}/console'' True ''handleBastilleConsole'',
      PERM ''Bastille'' ''POST /api/bastille/jails/{name}/cmd'',
      HANDLE ''POST /api/bastille/jails/{name}/cmd'' True ''handleBastilleCmd'',
      PERM ''Bastille'' ''POST /api/bastille/jails/{name}/pkg'',
      HANDLE ''POST /api/bastille/jails/{name}/pkg'' True ''handleBastillePkg'',
      PERM ''Bastille'' ''GET /api/bastille/jails/{name}/config'',
      HANDLE ''GET /api/bastille/jails/{name}/config'' True ''handleBastilleConfig'',
      PERM ''Bastille'' ''POST /api/bastille/jails/{name}/config'',
      HANDLE ''POST /api/bastille/jails/{name}/config'' True ''handleBastilleConfigSet'',
      PERM ''Bastille'' ''DELETE /api/bastille/jails/{name}/config'',
      HANDLE ''DELETE /api/bastille/jails/{name}/config'' True ''handleBastilleConfigUnset'',
      PERM ''Bastille'' ''GET /api/bastille/jails/{name}/mounts'',
      HANDLE ''GET /api/bastille/jails/{name}/mounts'' True ''handleBastilleMounts'',
      PERM ''Bastille'' ''POST /api/bastille/jails/{name}/mounts'',
      HANDLE ''POST /api/bastille/jails/{name}/mounts'' True ''handleBastilleMountAdd'',
      PERM ''Bastille'' ''DELETE /api/bastille/jails/{name}/mounts'',
      HANDLE ''DELETE /api/bastille/jails/{name}/mounts'' True ''handleBastilleMountRemove'',
      PERM ''Bastille'' ''POST /api/bastille/jails/{name}/limits'',
      HANDLE ''POST /api/bastille/jails/{name}/limits'' True ''handleBastilleLimits'',
      PERM ''Bastille'' ''GET /api/bastille/templates'',
      HANDLE ''GET /api/bastille/templates'' True ''handleBastilleTemplates'',
      PERM ''Bastille'' ''POST /api/bastille/templates/apply'',
      HANDLE ''POST /api/bastille/templates/apply'' True ''handleBastilleApply'',
      PERM ''Bastille'' ''POST /api/bastille/rdr'',
      HANDLE ''POST /api/bastille/rdr'' True ''handleBastilleRdrAdd'',
      PERM ''Bastille'' ''DELETE /api/bastille/rdr'',
      HANDLE ''DELETE /api/bastille/rdr'' True ''handleBastilleRdrDelete'',
      PERM ''Bastille'' ''GET /api/bastille/rdr'',
      HANDLE ''GET /api/bastille/rdr'' True ''handleBastilleRdrList'',
      PERM ''Bastille'' ''GET /api/bastille/jobs/{jobId}'',
      HANDLE ''GET /api/bastille/jobs/{jobId}'' True ''handleBastilleJobProgress'',
      PERM ''Bastille'' ''POST /api/bastille/jails/{name}/run'',
      HANDLE ''POST /api/bastille/jails/{name}/run'' True ''handleBastilleRunStart'',
      PERM ''Bastille'' ''GET /api/bastille/jails/{name}/run/{session}'',
      HANDLE ''GET /api/bastille/jails/{name}/run/{session}'' True ''handleBastilleRunStatus'',
      PERM ''Bastille'' ''POST /api/bastille/jails/{name}/run/{session}/stdin'',
      HANDLE ''POST /api/bastille/jails/{name}/run/{session}/stdin'' True ''handleBastilleRunStdin'',
      PERM ''Bastille'' ''POST /api/bastille/jails/{name}/run/{session}/stop'',
      HANDLE ''POST /api/bastille/jails/{name}/run/{session}/stop'' True ''handleBastilleRunStop'',
      PERM ''Bastille'' ''DELETE /api/bastille/jails/{name}/run/{session}'',
      HANDLE ''DELETE /api/bastille/jails/{name}/run/{session}'' True ''handleBastilleRunDelete'',
      PERM ''Bastille files'' ''GET /api/bastille/jails/{name}/files'',
      HANDLE ''GET /api/bastille/jails/{name}/files'' True ''handleBastilleFilesList'',
      PERM ''Bastille files'' ''GET /api/bastille/jails/{name}/files/content'',
      HANDLE ''GET /api/bastille/jails/{name}/files/content'' True ''handleBastilleFilesContentRead'',
      PERM ''Bastille files'' ''PUT /api/bastille/jails/{name}/files/content'',
      HANDLE ''PUT /api/bastille/jails/{name}/files/content'' True ''handleBastilleFilesContentWrite'',
      PERM ''Bastille files'' ''DELETE /api/bastille/jails/{name}/files'',
      HANDLE ''DELETE /api/bastille/jails/{name}/files'' True ''handleBastilleFilesDelete'',
      PERM ''Bastille files'' ''POST /api/bastille/jails/{name}/files/mkdir'',
      HANDLE ''POST /api/bastille/jails/{name}/files/mkdir'' True ''handleBastilleFilesMkdir'',
      PERM ''Bastille files'' ''POST /api/bastille/jails/{name}/files/touch'',
      HANDLE ''POST /api/bastille/jails/{name}/files/touch'' True ''handleBastilleFilesTouch'',
      PERM ''Bastille files'' ''POST /api/bastille/jails/{name}/files/upload'',
      HANDLE ''POST /api/bastille/jails/{name}/files/upload'' True ''handleBastilleFilesUpload'',
      PERM ''Bastille files'' ''GET /api/bastille/jails/{name}/files/download'',
      HANDLE ''GET /api/bastille/jails/{name}/files/download'' True ''handleBastilleFilesDownload'',
      PERM ''container'' ''POST /api/container/archive'',
      HANDLE ''POST /api/container/archive'' True ''handleArchiveCreate'',
      PERM ''container'' ''GET /api/container/archive'',
      HANDLE ''GET /api/container/archive'' True ''handleArchiveDownload'',
      PERM ''container'' ''POST /api/container/archive/upload'',
      HANDLE ''POST /api/container/archive/upload'' True ''handleArchiveUpload'',
      PERM ''container'' ''POST /api/container/archive/restore'',
      HANDLE ''POST /api/container/archive/restore'' True ''handleArchiveRestore'']"

definition registerClusterRoutes :: "route_stmt list" where
  "registerClusterRoutes =
     [PERM ''cluster'' ''GET /api/cluster/files/list'',
      HANDLE ''GET /api/cluster/files/list'' True ''handleClusterFileList'',
      PERM ''cluster'' ''POST /api/cluster/files/mkdir'',
      HANDLE ''POST /api/cluster/files/mkdir'' True ''handleClusterMkdir'',
      PERM ''cluster'' ''DELETE /api/cluster/files'',
      HANDLE ''DELETE /api/cluster/files'' True ''handleClusterDelete'',
      PERM ''cluster'' ''POST /api/cluster/files/download'',
      HANDLE ''POST /api/cluster/files/download'' True ''handleClusterDownload'',
      PERM ''cluster'' ''POST /api/cluster/files/upload'',
      HANDLE ''POST /api/cluster/files/upload'' True ''handleClusterUpload'',
      PERM ''cluster'' ''GET /api/cluster/sync/list'',
      HANDLE ''GET /api/cluster/sync/list'' True ''handleClusterSyncList'',
      PERM ''instance'' ''GET /api/instance/sync/list'',
      HANDLE ''GET /api/instance/sync/list'' True ''handleInstanceSyncList'',
      PERM ''cluster'' ''GET /api/cluster/status'',
      HANDLE ''GET /api/cluster/status'' True ''handleClusterStatus'',
      PERM ''cluster'' ''POST /api/cluster/heartbeat'',
      HANDLE ''POST /api/cluster/heartbeat'' True ''handleClusterHeartbeat'',
      PERM ''cluster'' ''POST /api/cluster/events'',
      HANDLE ''POST /api/cluster/events'' True ''handleClusterEvents'',
      PERM ''cluster'' ''GET /api/cluster/peers'',
      HANDLE ''GET /api/cluster/peers'' True ''handleClusterPeers'',
      PERM ''cluster'' ''POST /api/cluster/transfer'',
      HANDLE ''POST /api/cluster/transfer'' True ''handleClusterTransfer'',
      PERM ''cluster'' ''GET /api/cluster/transfer'',
      HANDLE ''GET /api/cluster/transfer'' True ''handleTransferStatus'']"

definition registerVaultRoutes :: "route_stmt list" where
  "registerVaultRoutes =
     [PERM ''vault'' ''GET /api/vault/status'',
      HANDLE ''GET /api/vault/status'' True ''handleVaultStatus'',
      PERM ''vault'' ''POST /api/vault/init'',
      HANDLE ''POST /api/vault/init'' True ''handleVaultInit'',
      PERM ''vault'' ''POST /api/vault/totp/verify'',
      HANDLE ''POST /api/vault/totp/verify'' True ''handleVaultTOTPVerify'',
      PERM ''vault'' ''POST /api/vault/totp/reset'',
      HANDLE ''POST /api/vault/totp/reset'' True ''handleVaultTOTPReset'',
      PERM ''vault'' ''POST /api/vault/challenge'',
      HANDLE ''POST /api/vault/challenge'' True ''handleVaultChallenge'',
      PERM ''vault'' ''POST /api/vault/cert'',
      HANDLE ''POST /api/vault/cert'' True ''handleVaultCert'',
      PERM ''vault'' ''POST /api/vault/unlock'',
      HANDLE ''POST /api/vault/unlock'' True ''handleVaultUnlock'',
      PERM ''vault'' ''POST /api/vault/lock'',
      HANDLE ''POST /api/vault/lock'' True ''handleVaultLock'',
      PERM ''vault'' ''POST /api/vault/password'',
      HANDLE ''POST /api/vault/password'' True ''handleVaultPassword'',
      PERM ''vault'' ''POST /api/vault/recovery'',
      HANDLE ''POST /api/vault/recovery'' True ''handleVaultRecovery'',
      PERM ''vault'' ''POST /api/vault/user/add'',
      HANDLE ''POST /api/vault/user/add'' True ''handleVaultUserAdd'',
      PERM ''vault'' ''POST /api/vault/user/remove'',
      HANDLE ''POST /api/vault/user/remove'' True ''handleVaultUserRemove'',
      PERM ''vault'' ''GET /api/vault/users'',
      HANDLE ''GET /api/vault/users'' True ''handleVaultUsers'',
      PERM ''vault'' ''POST /api/vault/migrate'',
      HANDLE ''POST /api/vault/migrate'' True ''handleVaultMigrate'',
      PERM ''vault'' ''GET /api/vault/migrate/status'',
      HANDLE ''GET /api/vault/migrate/status'' True ''handleVaultMigrateStatus'',
      PERM ''vault'' ''POST /api/vault/backup'',
      HANDLE ''POST /api/vault/backup'' True ''handleVaultBackup'']"

definition RegisterRoutes :: "route_stmt list" where
  "RegisterRoutes =
     [PERM ''overview'' ''GET /api/overview'',
      HANDLE ''GET /api/overview'' True ''handleOverview'',
      PERM ''overview'' ''GET /api/load'',
      HANDLE ''GET /api/load'' True ''handleLoad'',
      PERM ''audit'' ''GET /api/audit/log'',
      HANDLE ''GET /api/audit/log'' True ''handleAuditLog'',
      PERM ''instance'' ''GET /api/service/remote_service_instances'',
      HANDLE ''GET /api/service/remote_service_instances'' True ''handleInstanceList'',
      PERM ''instance'' ''GET /api/instance'',
      HANDLE ''GET /api/instance'' True ''handleInstanceDetail'',
      PERM ''instance'' ''POST /api/instance'',
      HANDLE ''POST /api/instance'' True ''handleInstanceCreate'',
      PERM ''instance'' ''PUT /api/instance'',
      HANDLE ''PUT /api/instance'' True ''handleInstanceUpdate'',
      PERM ''instance'' ''DELETE /api/instance'',
      HANDLE ''DELETE /api/instance'' True ''handleInstanceDelete'',
      PERM ''instance'' ''POST /api/instance/import'',
      HANDLE ''POST /api/instance/import'' True ''handleInstanceImport'',
      PERM ''instance'' ''GET /api/protected_instance/open'',
      HANDLE ''GET /api/protected_instance/open'' True ''handleInstanceStart'',
      PERM ''instance'' ''GET /api/protected_instance/stop'',
      HANDLE ''GET /api/protected_instance/stop'' True ''handleInstanceStop'',
      PERM ''instance'' ''GET /api/protected_instance/restart'',
      HANDLE ''GET /api/protected_instance/restart'' True ''handleInstanceRestart'',
      PERM ''instance'' ''GET /api/protected_instance/kill'',
      HANDLE ''GET /api/protected_instance/kill'' True ''handleInstanceKill'',
      PERM ''instance'' ''GET /api/protected_instance/command'',
      HANDLE ''GET /api/protected_instance/command'' True ''handleInstanceCommand'',
      PERM ''instance'' ''GET /api/protected_instance/outputlog'',
      HANDLE ''GET /api/protected_instance/outputlog'' True ''handleInstanceOutputLog'',
      PERM ''instance'' ''GET /api/instance/logs'',
      HANDLE ''GET /api/instance/logs'' True ''handleInstanceLogs'',
      PERM ''instance'' ''DELETE /api/instance/logs'',
      HANDLE ''DELETE /api/instance/logs'' True ''handleInstanceLogsClear'',
      PERM ''instance'' ''GET /api/instance/stats'',
      HANDLE ''GET /api/instance/stats'' True ''handleInstanceStats'',
      PERM ''instance'' ''GET /api/instance/plugins'',
      HANDLE ''GET /api/instance/plugins'' True ''handleInstancePlugins'',
      PERM ''instance'' ''POST /api/instance/snapshot'',
      HANDLE ''POST /api/instance/snapshot'' True ''handleInstanceSnapshot'',
      PERM ''instance'' ''GET /api/instance/snapshot-progress'',
      HANDLE ''GET /api/instance/snapshot-progress'' True ''writeSnapshotStatus'',
      PERM ''instance'' ''POST /api/instance/restore'',
      HANDLE ''POST /api/instance/restore'' True ''handleInstanceRestore'',
      PERM ''instance'' ''GET /api/instance/backups'',
      HANDLE ''GET /api/instance/backups'' True ''handleBackupsList'',
      PERM ''instance'' ''DELETE /api/instance/backups'',
      HANDLE ''DELETE /api/instance/backups'' True ''handleBackupsDelete'',
      PERM ''instance'' ''POST /api/instance/backups/download'',
      HANDLE ''POST /api/instance/backups/download'' True ''handleBackupDownloadTicket'',
      PERM ''instance'' ''GET /api/instance/console/ws'',
      HANDLE ''GET /api/instance/console/ws'' True ''handleConsoleWS'',
      PERM ''instance'' ''POST /api/instance/download-core'',
      HANDLE ''POST /api/instance/download-core'' True ''handleDownloadCore'',
      PERM ''instance'' ''GET /api/instance/download-core-progress'',
      HANDLE ''GET /api/instance/download-core-progress'' True ''writeTaskStatus'',
      PERM ''runtime'' ''GET /api/runtime/java'',
      HANDLE ''GET /api/runtime/java'' True ''handleRuntimeJava'',
      PERM ''runtime'' ''POST /api/runtime/java/install'',
      HANDLE ''POST /api/runtime/java/install'' True ''handleInstallJava'',
      PERM ''runtime'' ''GET /api/runtime/java/install-progress'',
      HANDLE ''GET /api/runtime/java/install-progress'' True ''writeTaskStatus'',
      PERM ''runtime'' ''DELETE /api/runtime/java'',
      HANDLE ''DELETE /api/runtime/java'' True ''handleUninstallJava'',
      PERM ''files'' ''GET /api/files/list'',
      HANDLE ''GET /api/files/list'' True ''handleFileList'',
      PERM ''files'' ''PUT /api/files/'',
      HANDLE ''PUT /api/files/'' True ''handleFileReadWrite'',
      PERM ''files'' ''DELETE /api/files'',
      HANDLE ''DELETE /api/files'' True ''handleFileDelete'',
      PERM ''files'' ''PUT /api/files/move'',
      HANDLE ''PUT /api/files/move'' True ''handleFileMove'',
      PERM ''files'' ''POST /api/files/copy'',
      HANDLE ''POST /api/files/copy'' True ''handleFileCopy'',
      PERM ''files'' ''POST /api/files/compress'',
      HANDLE ''POST /api/files/compress'' True ''handleFileCompress'',
      PERM ''files'' ''POST /api/files/mkdir'',
      HANDLE ''POST /api/files/mkdir'' True ''handleFileMkdir'',
      PERM ''files'' ''POST /api/files/touch'',
      HANDLE ''POST /api/files/touch'' True ''handleFileTouch'',
      PERM ''files'' ''POST /api/files/download'',
      HANDLE ''POST /api/files/download'' True ''handleFileDownloadTicket'',
      PERM ''files'' ''POST /api/files/upload'',
      HANDLE ''POST /api/files/upload'' True ''handleFileUploadTicket'',
      PERM ''trash'' ''POST /api/files/trash'',
      HANDLE ''POST /api/files/trash'' True ''handleFileTrash'',
      PERM ''trash'' ''GET /api/files/trash/list'',
      HANDLE ''GET /api/files/trash/list'' True ''handleTrashList'',
      PERM ''trash'' ''POST /api/files/trash/restore'',
      HANDLE ''POST /api/files/trash/restore'' True ''handleTrashRestore'',
      PERM ''trash'' ''POST /api/files/trash/empty'',
      HANDLE ''POST /api/files/trash/empty'' True ''handleTrashEmpty'',
      PERM ''FRP'' ''GET /api/frp/status'',
      HANDLE ''GET /api/frp/status'' True ''handleFRPStatus'',
      PERM ''FRP'' ''POST /api/frp/tunnels'',
      HANDLE ''POST /api/frp/tunnels'' True ''handleFRPCreate'',
      PERM ''FRP'' ''POST /api/frp/tunnels/{id}/start'',
      HANDLE ''POST /api/frp/tunnels/{id}/start'' True ''handleFRPStart'',
      PERM ''FRP'' ''POST /api/frp/tunnels/{id}/stop'',
      HANDLE ''POST /api/frp/tunnels/{id}/stop'' True ''handleFRPStop'',
      PERM ''FRP'' ''DELETE /api/frp/tunnels/{id}'',
      HANDLE ''DELETE /api/frp/tunnels/{id}'' True ''handleFRPDelete'',
      PERM ''FRP'' ''GET /api/frp/tunnels/{id}/logs'',
      HANDLE ''GET /api/frp/tunnels/{id}/logs'' True ''handleFRPLogs'',
      PERM ''FRP'' ''POST /api/frp/binary'',
      HANDLE ''POST /api/frp/binary'' True ''handleFRPUploadBinary'',
      PERM ''AI and metrics'' ''GET /api/instance/logs/query'',
      HANDLE ''GET /api/instance/logs/query'' True ''handleLogsQuery'',
      PERM ''AI and metrics'' ''GET /api/instance/metrics'',
      HANDLE ''GET /api/instance/metrics'' True ''handleInstanceMetrics'',
      HANDLE ''GET /download/'' False ''handleDirectDownload'',
      HANDLE ''POST /upload/'' False ''handleDirectUpload''] @
     registerAccountRoutes @
     registerContainerRoutes @
     registerClusterRoutes @
     registerVaultRoutes"

record registration =
  reg_perms :: permState
  reg_mux :: "(string \<times> bool \<times> string) list"

fun run_stmt :: "route_stmt \<Rightarrow> registration \<Rightarrow> registration" where
  "run_stmt (PERM g k) r = r\<lparr>reg_perms := perm g k (reg_perms r)\<rparr>"
| "run_stmt (HANDLE p a h) r = r\<lparr>reg_mux := reg_mux r @ [(p, a, h)]\<rparr>"

definition run_stmts :: "route_stmt list \<Rightarrow> permState \<Rightarrow> registration" where
  "run_stmts ss s = fold run_stmt ss \<lparr>reg_perms = s, reg_mux = []\<rparr>"

definition mux_lookup :: "registration \<Rightarrow> string \<Rightarrow> (bool \<times> string) option" where
  "mux_lookup r pattern = map_of (reg_mux r) pattern"

subsection \<open>The identity of a request\<close>

record identity =
  id_username :: string
  id_isAdmin :: bool
  id_via :: string

record request =
  rq_pattern :: string
  rq_path :: string
  rq_x_auth_token :: string
  rq_authorization :: string
  rq_query_token :: string

record accountSession =
  as_username :: string
  as_isAdmin :: bool
  as_expiresAt :: int

definition queryTokenAllowed :: "string \<Rightarrow> bool" where
  "queryTokenAllowed path = (path = ''/api/instance/console/ws'')"

definition bearerToken :: "request \<Rightarrow> string" where
  "bearerToken r =
     (if rq_x_auth_token r \<noteq> [] then rq_x_auth_token r
      else
        let h = rq_authorization r in
        if HasPrefix h ''Bearer '' then TrimSpace (TrimPrefix h ''Bearer '')
        else if \<not> queryTokenAllowed (rq_path r) then []
        else TrimSpace (rq_query_token r))"

definition permIdentityExempt :: "string \<Rightarrow> bool" where
  "permIdentityExempt pattern =
     (pattern \<in> {''GET /api/accounts/me'', ''GET /api/accounts/catalog'',
                 ''PUT /api/accounts/password'', ''POST /api/auth/logout''})"

text \<open>The \<open>auth\<close> wrapper: the identity the handler runs with, or the refusal.\<close>

definition auth ::
  "identity option \<Rightarrow> (string \<Rightarrow> (string, bool) fmap) option \<Rightarrow> string \<Rightarrow> identity reply" where
  "auth ident loadPermissions pattern =
     (case ident of
        None \<Rightarrow> Fail 403 ''not authenticated or session expired''
      | Some i \<Rightarrow>
          if \<not> id_isAdmin i \<and> \<not> permIdentityExempt pattern \<and>
             \<not> permAllowed loadPermissions (id_username i) pattern
          then Fail 403 (''permission denied: '' @ pattern)
          else Reply i)"

definition requireAdmin :: "identity option \<Rightarrow> bool" where
  "requireAdmin ident = (case ident of None \<Rightarrow> False | Some i \<Rightarrow> id_isAdmin i)"

text \<open>What the server does with a matched request: the handler and the identity it sees.\<close>

definition serve ::
  "registration \<Rightarrow> identity option \<Rightarrow> (string \<Rightarrow> (string, bool) fmap) option \<Rightarrow> string \<Rightarrow>
   (string \<times> identity option) reply" where
  "serve reg ident loadPermissions pattern =
     (case mux_lookup reg pattern of
        None \<Rightarrow> Fail 404 ''not found''
      | Some (guarded, handler) \<Rightarrow>
          if guarded then
            (case auth ident loadPermissions pattern of
               Fail c m \<Rightarrow> Fail c m
             | Reply i \<Rightarrow> Reply (handler, Some i))
          else Reply (handler, None))"

subsection \<open>The catalogue lists every key once\<close>

definition all_keys :: "(string \<times> string list) list \<Rightarrow> string list" where
  "all_keys gs = concat (map snd gs)"

lemma set_group_append: "set (all_keys (group_append g k gs)) = insert k (set (all_keys gs))"
  by (induction g k gs rule: group_append.induct) (auto simp: all_keys_def)

lemma distinct_group_append:
  "distinct (all_keys gs) \<Longrightarrow> k \<notin> set (all_keys gs) \<Longrightarrow> distinct (all_keys (group_append g k gs))"
proof (induction g k gs rule: group_append.induct)
  case (2 g k n es gs)
  then show ?case using set_group_append [of g k gs] by (auto simp: all_keys_def)
qed (simp add: all_keys_def)

lemma names_group_append: "set (map fst (group_append g k gs)) = insert g (set (map fst gs))"
  by (induction g k gs rule: group_append.induct) auto

lemma distinct_names_group_append:
  "distinct (map fst gs) \<Longrightarrow> distinct (map fst (group_append g k gs))"
proof (induction g k gs rule: group_append.induct)
  case (2 g k n es gs)
  then show ?case using names_group_append [of g k gs] by auto
qed simp

lemma group_append_where:
  "(\<exists>es. (n, es) \<in> set (group_append g k gs) \<and> j \<in> set es) \<longleftrightarrow>
   n = g \<and> j = k \<or> (\<exists>es. (n, es) \<in> set gs \<and> j \<in> set es)"
  by (induction g k gs rule: group_append.induct) auto

definition perms_ok :: "permState \<Rightarrow> bool" where
  "perms_ok s =
     (distinct (all_keys (permGroups s)) \<and> distinct (map fst (permGroups s)) \<and>
      (\<forall>k g. fmlookup (permIndex s) k = Some g \<longleftrightarrow> (\<exists>es. (g, es) \<in> set (permGroups s) \<and> k \<in> set es)))"

lemma perms_ok_empty: "perms_ok empty_perms"
  by (simp add: perms_ok_def empty_perms_def all_keys_def)

lemma set_all_keys: "k \<in> set (all_keys gs) \<longleftrightarrow> (\<exists>g es. (g, es) \<in> set gs \<and> k \<in> set es)"
proof -
  have "k \<in> set (all_keys gs) \<longleftrightarrow> (\<exists>x \<in> set gs. k \<in> set (snd x))" by (simp add: all_keys_def)
  then show ?thesis by (metis prod.collapse snd_conv)
qed

lemma perms_ok_keys: "perms_ok s \<Longrightarrow> k \<in> set (all_keys (permGroups s)) \<longleftrightarrow> permKeyExists s k"
  by (simp add: perms_ok_def permKeyExists_def set_all_keys)

lemma perms_ok_perm: "perms_ok s \<Longrightarrow> perms_ok (perm g k s)"
proof (cases "fmlookup (permIndex s) k")
  case None
  assume ok: "perms_ok s"
  then have "k \<notin> set (all_keys (permGroups s))" using None by (simp add: perms_ok_keys permKeyExists_def)
  with ok None show ?thesis
    unfolding perms_ok_def perm_def
    by (simp add: distinct_group_append distinct_names_group_append group_append_where)
       (metis None option.distinct(1))
qed (simp add: perm_def)

lemma permKeyExists_perm: "permKeyExists (perm g k s) j \<longleftrightarrow> j = k \<or> permKeyExists s j"
  by (auto simp: permKeyExists_def perm_def)

fun perm_keys :: "route_stmt list \<Rightarrow> string list" where
  "perm_keys [] = []"
| "perm_keys (PERM g k # ss) = k # perm_keys ss"
| "perm_keys (HANDLE p a h # ss) = perm_keys ss"

fun handles :: "route_stmt list \<Rightarrow> (string \<times> bool \<times> string) list" where
  "handles [] = []"
| "handles (PERM g k # ss) = handles ss"
| "handles (HANDLE p a h # ss) = (p, a, h) # handles ss"

lemma run_stmts_mux: "reg_mux (fold run_stmt ss r) = reg_mux r @ handles ss"
  by (induction ss arbitrary: r rule: handles.induct) auto

lemma run_stmts_perms_ok: "perms_ok (reg_perms r) \<Longrightarrow> perms_ok (reg_perms (fold run_stmt ss r))"
  by (induction ss arbitrary: r rule: handles.induct) (auto simp: perms_ok_perm)

lemma run_stmts_keys:
  "permKeyExists (reg_perms (fold run_stmt ss r)) k \<longleftrightarrow> k \<in> set (perm_keys ss) \<or> permKeyExists (reg_perms r) k"
  by (induction ss arbitrary: r rule: handles.induct) (auto simp: permKeyExists_perm)

lemma run_stmts_same:
  "list_all (permKeyExists (reg_perms r)) (perm_keys ss) \<Longrightarrow> reg_perms (fold run_stmt ss r) = reg_perms r"
proof (induction ss arbitrary: r rule: handles.induct)
  case (2 g k ss)
  then have "perm g k (reg_perms r) = reg_perms r" by (auto simp: perm_def permKeyExists_def)
  with 2 show ?case by simp
qed auto

text \<open>
  However often the routes are registered, the catalogue that the account screen shows lists
  every key exactly once, in one group, every group once; a key is listed exactly where the
  index knows it, and a second registration changes nothing.
\<close>

theorem catalog_lists_every_key_once:
  "let s = reg_perms (run_stmts ss empty_perms) in
     distinct (concat (map snd (permCatalog s))) \<and> distinct (map fst (permCatalog s)) \<and>
     set (concat (map snd (permCatalog s))) = set (perm_keys ss) \<and>
     {k. permKeyExists s k} = set (perm_keys ss) \<and>
     reg_perms (run_stmts ss s) = s"
proof -
  define s where "s = reg_perms (run_stmts ss empty_perms)"
  have ok: "perms_ok s" unfolding s_def run_stmts_def by (rule run_stmts_perms_ok) (simp add: perms_ok_empty)
  have keys: "permKeyExists s k \<longleftrightarrow> k \<in> set (perm_keys ss)" for k
    by (simp add: s_def run_stmts_def run_stmts_keys) (simp add: permKeyExists_def empty_perms_def)
  have cat: "permCatalog s = permGroups s" by (simp add: permCatalog_def)
  have "set (all_keys (permGroups s)) = set (perm_keys ss)" using perms_ok_keys [OF ok] keys by auto
  moreover have "reg_perms (run_stmts ss s) = s"
    unfolding run_stmts_def using run_stmts_same [of "\<lparr>reg_perms = s, reg_mux = []\<rparr>" ss] keys
    by (simp add: list_all_iff)
  ultimately show ?thesis
    using ok keys by (auto simp: s_def [symmetric] Let_def cat perms_ok_def all_keys_def)
qed

subsection \<open>Every route but three is guarded\<close>

text \<open>Each guarded route follows the catalogue entry with its pattern.\<close>

fun paired :: "route_stmt list \<Rightarrow> bool" where
  "paired [] = True"
| "paired (PERM g k # HANDLE p a h # ss) = (a \<and> p = k \<and> paired ss)"
| "paired (HANDLE p False h # ss) = paired ss"
| "paired _ = False"

fun open_routes :: "route_stmt list \<Rightarrow> string list" where
  "open_routes [] = []"
| "open_routes (PERM g k # ss) = open_routes ss"
| "open_routes (HANDLE p a h # ss) = (if a then open_routes ss else p # open_routes ss)"

lemma paired_catalogued: "paired ss \<Longrightarrow> (p, True, h) \<in> set (handles ss) \<Longrightarrow> p \<in> set (perm_keys ss)"
  by (induction ss rule: paired.induct) auto

lemma paired_append: "paired ss \<Longrightarrow> paired ts \<Longrightarrow> paired (ss @ ts)"
  by (induction ss rule: paired.induct) auto

lemma open_routes_append: "open_routes (ss @ ts) = open_routes ss @ open_routes ts"
  by (induction ss rule: open_routes.induct) auto

lemma open_routes_handles: "(p, False, h) \<in> set (handles ss) \<Longrightarrow> p \<in> set (open_routes ss)"
  by (induction ss rule: open_routes.induct) auto

lemma handles_append: "handles (ss @ ts) = handles ss @ handles ts"
  by (induction ss rule: handles.induct) auto

lemma paired_intros:
  "paired []"
  "paired ss \<Longrightarrow> paired (PERM g k # HANDLE k True h # ss)"
  "paired ss \<Longrightarrow> paired (HANDLE p False h # ss)"
  by simp_all

lemma open_intros:
  "open_routes [] = []"
  "open_routes ss = ps \<Longrightarrow> open_routes (PERM g k # ss) = ps"
  "open_routes ss = ps \<Longrightarrow> open_routes (HANDLE p True h # ss) = ps"
  "open_routes ss = ps \<Longrightarrow> open_routes (HANDLE p False h # ss) = p # ps"
  by simp_all

lemma open_append_intro:
  "open_routes ss = ps \<Longrightarrow> open_routes ts = qs \<Longrightarrow> ps @ qs = rs \<Longrightarrow> open_routes (ss @ ts) = rs"
  by (simp add: open_routes_append)

lemmas route_tables =
  RegisterRoutes_def registerAccountRoutes_def registerContainerRoutes_def registerClusterRoutes_def
  registerVaultRoutes_def

lemma routes_paired: "paired RegisterRoutes"
  unfolding route_tables by (intro paired_append paired_intros)

lemma routes_open:
  "open_routes RegisterRoutes = [''GET /download/'', ''POST /upload/'', ''POST /api/auth/login'']"
  unfolding route_tables
  by ((rule open_append_intro open_intros)+; (simp only: append.simps)?)+

text \<open>
  C1. A request reaches a handler only in one of two ways: on one of the three open routes
  (login, direct download, direct upload), which see no identity, or with an authenticated identity that
  is an administrator's, or has the switch of exactly that route on, or asks for one of the
  four routes on its own account; and every guarded route has its switch in the catalogue.
\<close>

theorem served_only_if_authorized:
  assumes "serve (run_stmts RegisterRoutes empty_perms) ident loadPermissions pattern = Reply (handler, seen)"
  shows "(seen = None \<and> pattern \<in> {''POST /api/auth/login'', ''GET /download/'', ''POST /upload/''}) \<or>
    (\<exists>i. ident = Some i \<and> seen = Some i \<and>
       permKeyExists (reg_perms (run_stmts RegisterRoutes empty_perms)) pattern \<and>
       (id_isAdmin i \<or> permIdentityExempt pattern \<or> permAllowed loadPermissions (id_username i) pattern))"
proof -
  define reg where "reg = run_stmts RegisterRoutes empty_perms"
  have mux: "reg_mux reg = handles RegisterRoutes" by (simp add: reg_def run_stmts_def run_stmts_mux)
  obtain guarded h where look: "mux_lookup reg pattern = Some (guarded, h)"
    using assms by (cases "mux_lookup reg pattern") (auto simp: serve_def reg_def)
  then have mem: "(pattern, guarded, h) \<in> set (handles RegisterRoutes)"
    unfolding mux_lookup_def mux by (rule map_of_SomeD)
  show ?thesis
  proof (cases guarded)
    case True
    with mem have "pattern \<in> set (perm_keys RegisterRoutes)" using paired_catalogued [OF routes_paired] by simp
    then have "permKeyExists (reg_perms reg) pattern" by (simp add: reg_def run_stmts_def run_stmts_keys)
    with True look assms show ?thesis
      by (auto simp: serve_def auth_def reg_def [symmetric] split: reply.splits option.splits if_splits)
  next
    case False
    with mem have "pattern \<in> set (open_routes RegisterRoutes)" using open_routes_handles by simp
    then have "pattern \<in> {''POST /api/auth/login'', ''GET /download/'', ''POST /upload/''}"
      unfolding routes_open by auto
    moreover have "seen = None" using False look assms by (simp add: serve_def reg_def [symmetric])
    ultimately show ?thesis by simp
  qed
qed

lemma first_route:
  "RegisterRoutes = PERM g k # HANDLE p a h # ss \<Longrightarrow>
   mux_lookup (run_stmts RegisterRoutes empty_perms) p = Some (a, h)"
  unfolding mux_lookup_def run_stmts_def run_stmts_mux by (erule ssubst) simp

lemma overview_route:
  "mux_lookup (run_stmts RegisterRoutes empty_perms) ''GET /api/overview'' = Some (True, ''handleOverview'')"
  by (rule first_route) (unfold RegisterRoutes_def append_Cons, rule refl)

theorem served_witness:
  "let i = \<lparr>id_username = ''bob'', id_isAdmin = False, id_via = ''token''\<rparr>;
       on = Some (\<lambda>u. fmupd ''GET /api/overview'' True fmempty) in
   serve (run_stmts RegisterRoutes empty_perms) (Some i) on ''GET /api/overview'' = Reply (''handleOverview'', Some i) \<and>
   permKeyExists (reg_perms (run_stmts RegisterRoutes empty_perms)) ''GET /api/overview''"
proof -
  define i where "i = \<lparr>id_username = ''bob'', id_isAdmin = False, id_via = ''token''\<rparr>"
  define on where "on = Some (\<lambda>u::string. fmupd ''GET /api/overview'' True fmempty)"
  have r: "serve (run_stmts RegisterRoutes empty_perms) (Some i) on ''GET /api/overview'' = Reply (''handleOverview'', Some i)"
    by (simp add: serve_def overview_route auth_def on_def i_def permAllowed_def)
  from served_only_if_authorized [OF this] show ?thesis using r by (auto simp: i_def on_def)
qed

end
