(* ===== verification/Daemon.thy ===== *)
theory Daemon
  imports Paths Access
begin

text \<open>
  The instance registry (cmd/irix-node/daemon.go) and the handlers over it
  (cmd/irix-node/instance.go). Instances are objects in a store, addressed as the code's
  pointers address them; the registry is the list of pointers. Times are Unix milliseconds.
  The result of an operating-system call is an argument: \<open>None\<close> for success, the error
  otherwise. JSON documents are the values they encode.
\<close>

definition StatusBusy :: int where "StatusBusy = - 1"
definition StatusStopped :: int where "StatusStopped = 0"
definition StatusStopping :: int where "StatusStopping = 1"
definition StatusStarting :: int where "StatusStarting = 2"
definition StatusRunning :: int where "StatusRunning = 3"

record EventTask =
  ev_AutoStart :: bool
  ev_AutoRestart :: bool
  ev_Ignore :: bool

record PingConfig =
  pc_IP :: string
  pc_Port :: int
  pc_Type :: int

text \<open>\<open>Tag\<close> and \<open>ActionCommandList\<close> are slices, \<open>None\<close> the nil slice.\<close>

record InstanceConfig =
  cf_Nickname :: string
  cf_StartCommand :: string
  cf_StopCommand :: string
  cf_Cwd :: string
  cf_IE :: string
  cf_OE :: string
  cf_CreateDatetime :: int
  cf_LastDatetime :: int
  cf_Type :: string
  cf_Tag :: "string list option"
  cf_EndTime :: int
  cf_FileCode :: string
  cf_ProcessType :: string
  cf_UpdateCommand :: string
  cf_ActionCommandList :: "string list option"
  cf_Crlf :: int
  cf_EventTask :: EventTask
  cf_PingConfig :: PingConfig
  cf_VaultFiles :: bool

text \<open>\<open>nextYear\<close> is \<open>time.Now().AddDate(0, 0, 365).UnixMilli()\<close>.\<close>

definition FillDefaults :: "int \<Rightarrow> InstanceConfig \<Rightarrow> InstanceConfig" where
  "FillDefaults nextYear c =
     c\<lparr>cf_IE := (if cf_IE c = [] then ''utf-8'' else cf_IE c),
       cf_OE := (if cf_OE c = [] then ''utf-8'' else cf_OE c),
       cf_FileCode := (if cf_FileCode c = [] then ''utf-8'' else cf_FileCode c),
       cf_Type := (if cf_Type c = [] then ''universal'' else cf_Type c),
       cf_ProcessType := (if cf_ProcessType c = [] then ''universal'' else cf_ProcessType c),
       cf_StopCommand := (if cf_StopCommand c = [] then ''stop'' else cf_StopCommand c),
       cf_Crlf := (if cf_Crlf c = 0 then 2 else cf_Crlf c),
       cf_Tag := (case cf_Tag c of None \<Rightarrow> Some [] | Some t \<Rightarrow> Some t),
       cf_ActionCommandList := (case cf_ActionCommandList c of None \<Rightarrow> Some [] | Some a \<Rightarrow> Some a),
       cf_PingConfig := (if pc_Port (cf_PingConfig c) = 0 then (cf_PingConfig c)\<lparr>pc_Port := 25565\<rparr>
                         else cf_PingConfig c),
       cf_EndTime := (if cf_EndTime c = 0 then nextYear else cf_EndTime c)\<rparr>"

record PersistedInstance =
  ps_InstanceUuid :: string
  ps_Config :: InstanceConfig
  ps_Started :: int
  ps_Owner :: string

record Instance =
  in_Config :: InstanceConfig
  in_InstanceUuid :: string
  in_Started :: int
  in_Owner :: string
  in_Status :: int
  in_Proc :: "nat option"
  in_Busy :: bool
  in_arWindowStart :: instant
  in_arAttempts :: nat

text \<open>The content of instances.json as the loader sees it.\<close>

datatype inst_file = FileAbsent | FileUnreadable string | FileCorrupt | FileList "PersistedInstance list"

record Node =
  nd_objs :: "nat \<Rightarrow> Instance"
  nd_next :: nat
  nd_Instances :: "nat list"
  nd_dirty :: bool
  nd_alive :: "nat \<Rightarrow> bool"
  nd_file :: inst_file
  nd_DataDir :: string
  nd_wd :: "string option"
  nd_removed :: "string list"
  nd_vault_enabled :: bool
  nd_vault_initialized :: bool
  nd_vault_key :: bool
  nd_vault_migrated :: bool
  nd_vault_materialize :: bool
  nd_vault_list :: "PersistedInstance list option"
  nd_vault_removed :: "string list"

definition validUsername :: "string \<Rightarrow> bool" where
  "validUsername name =
     (if name = [] \<or> length name > 64 then False
      else list_all (\<lambda>c. id_char c \<or> c = CHR ''_'' \<or> c = CHR ''-'') name)"

subsection \<open>Objects\<close>

definition obj :: "Node \<Rightarrow> nat \<Rightarrow> Instance" where
  "obj n r = nd_objs n r"

definition set_obj :: "nat \<Rightarrow> (Instance \<Rightarrow> Instance) \<Rightarrow> Node \<Rightarrow> Node" where
  "set_obj r f n = n\<lparr>nd_objs := (nd_objs n)(r := f (nd_objs n r))\<rparr>"

definition NewInstance :: "int \<Rightarrow> string \<Rightarrow> string \<Rightarrow> InstanceConfig \<Rightarrow> Instance" where
  "NewInstance nextYear newUUID uuid cfg =
     \<lparr>in_Config = FillDefaults nextYear cfg, in_InstanceUuid = (if uuid = [] then newUUID else uuid),
      in_Started = 0, in_Owner = [], in_Status = StatusStopped, in_Proc = None, in_Busy = False,
      in_arWindowStart = zero_time, in_arAttempts = 0\<rparr>"

definition OwnerOf :: "Node \<Rightarrow> nat \<Rightarrow> string" where
  "OwnerOf n r = in_Owner (obj n r)"

definition SetOwner :: "string \<Rightarrow> nat \<Rightarrow> Node \<Rightarrow> Node" where
  "SetOwner owner r = set_obj r (\<lambda>i. i\<lparr>in_Owner := owner\<rparr>)"

definition SetStatus :: "int \<Rightarrow> int \<Rightarrow> nat \<Rightarrow> Node \<Rightarrow> Node" where
  "SetStatus now s r =
     set_obj r (\<lambda>i. i\<lparr>in_Status := s, in_Config := (in_Config i)\<lparr>cf_LastDatetime := now\<rparr>\<rparr>)"

definition alloc :: "Instance \<Rightarrow> Node \<Rightarrow> nat \<times> Node" where
  "alloc i n = (nd_next n, n\<lparr>nd_objs := (nd_objs n)(nd_next n := i), nd_next := Suc (nd_next n)\<rparr>)"

subsection \<open>The vault's state as the registry sees it\<close>

definition vaultActive :: "Node \<Rightarrow> bool" where
  "vaultActive n = (nd_vault_enabled n \<and> nd_vault_initialized n \<and> nd_vault_key n \<and> nd_vault_migrated n)"

definition vaultLocked :: "Node \<Rightarrow> bool" where
  "vaultLocked n = (nd_vault_enabled n \<and> nd_vault_initialized n \<and> nd_vault_migrated n \<and> \<not> nd_vault_key n)"

definition applyVaultDefault :: "Node \<Rightarrow> InstanceConfig \<Rightarrow> InstanceConfig" where
  "applyVaultDefault n c =
     (if \<not> nd_vault_enabled n \<or> \<not> nd_vault_materialize n then c else c\<lparr>cf_VaultFiles := True\<rparr>)"

subsection \<open>Persistence\<close>

record save_io =
  io_vault_write :: "string option"
  io_vault_flush :: "string option"
  io_open :: "string option"
  io_write :: "string option"
  io_sync :: "string option"
  io_close :: "string option"
  io_rename :: "string option"

definition persisted :: "Instance \<Rightarrow> PersistedInstance" where
  "persisted i =
     \<lparr>ps_InstanceUuid = in_InstanceUuid i, ps_Config = in_Config i, ps_Started = in_Started i, ps_Owner = in_Owner i\<rparr>"

definition errVaultLockedPlaintext :: string where
  "errVaultLockedPlaintext = ''vault locked: refusing to write instances.json in the clear''"

definition Save :: "save_io \<Rightarrow> Node \<Rightarrow> Node \<times> string option" where
  "Save io n =
     (let list = map (\<lambda>r. persisted (obj n r)) (nd_Instances n) in
      if vaultActive n then
        (case io_vault_write io of
           Some e \<Rightarrow> (n, Some e)
         | None \<Rightarrow>
             let n = n\<lparr>nd_vault_list := Some list\<rparr> in
             (case io_vault_flush io of Some e \<Rightarrow> (n, Some e) | None \<Rightarrow> (n, None)))
      else if vaultLocked n then (n, Some errVaultLockedPlaintext)
      else
        (case io_open io of Some e \<Rightarrow> (n, Some e) | None \<Rightarrow>
        (case io_write io of Some e \<Rightarrow> (n, Some e) | None \<Rightarrow>
        (case io_sync io of Some e \<Rightarrow> (n, Some e) | None \<Rightarrow>
        (case io_close io of Some e \<Rightarrow> (n, Some e) | None \<Rightarrow>
        (case io_rename io of Some e \<Rightarrow> (n, Some e) | None \<Rightarrow>
          (n\<lparr>nd_file := FileList list\<rparr>, None)))))))"

definition markDirty :: "Node \<Rightarrow> Node" where
  "markDirty n = n\<lparr>nd_dirty := True\<rparr>"

definition FlushDirty :: "save_io \<Rightarrow> Node \<Rightarrow> Node \<times> string option" where
  "FlushDirty io n =
     (if vaultLocked n then (n, None)
      else if \<not> nd_dirty n then (n, None)
      else
        (case Save io (n\<lparr>nd_dirty := False\<rparr>) of
           (n', Some e) \<Rightarrow> (n'\<lparr>nd_dirty := True\<rparr>, Some e)
         | (n', None) \<Rightarrow> (n', None)))"

text \<open>The working directory of a loaded entry: refused, made absolute (and changed), or kept.\<close>

definition load_cwd :: "Node \<Rightarrow> InstanceConfig \<Rightarrow> (InstanceConfig \<times> bool) option" where
  "load_cwd n cfg =
     (let cwd = TrimSpace (cf_Cwd cfg) in
      if cwd \<noteq> [] then
        (case Abs (nd_wd n) cwd of
           None \<Rightarrow> None
         | Some ab \<Rightarrow>
             if validateInstanceCwd (nd_wd n) (nd_DataDir n) ab \<noteq> None then None
             else if ab \<noteq> cwd then Some (cfg\<lparr>cf_Cwd := ab\<rparr>, True)
             else Some (cfg, False))
      else Some (cfg, False))"

text \<open>One entry of the file: \<open>None\<close> when it is skipped, else the instance and whether it was changed.\<close>

definition load_entry :: "int \<Rightarrow> string \<Rightarrow> Node \<Rightarrow> PersistedInstance \<Rightarrow> (Instance \<times> bool) option" where
  "load_entry nextYear newUUID n p =
     (if \<not> safePathSegment (ps_InstanceUuid p) then None
      else
        (case load_cwd n (ps_Config p) of
           None \<Rightarrow> None
         | Some (cfg, changed) \<Rightarrow>
             let i = (NewInstance nextYear newUUID (ps_InstanceUuid p) cfg)\<lparr>in_Started := ps_Started p\<rparr> in
             if ps_Owner p \<noteq> [] then
               if validUsername (ps_Owner p) then Some (i\<lparr>in_Owner := ps_Owner p\<rparr>, changed)
               else Some (i, True)
             else Some (i, changed)))"

primrec load_list :: "int \<Rightarrow> string \<Rightarrow> PersistedInstance list \<Rightarrow> Node \<Rightarrow> Node \<times> bool" where
  "load_list nextYear newUUID [] n = (n, False)"
| "load_list nextYear newUUID (p # ps) n =
     (case load_entry nextYear newUUID n p of
        None \<Rightarrow> (let (n', ch) = load_list nextYear newUUID ps n in (n', True))
      | Some (i, changed) \<Rightarrow>
          let (r, n1) = alloc i n;
              (n', ch) = load_list nextYear newUUID ps (n1\<lparr>nd_Instances := nd_Instances n1 @ [r]\<rparr>)
          in (n', changed \<or> ch))"

text \<open>\<open>backup\<close> is the result of moving a corrupt file away.\<close>

definition Load :: "int \<Rightarrow> string \<Rightarrow> string option \<Rightarrow> save_io \<Rightarrow> Node \<Rightarrow> Node \<times> string option" where
  "Load nextYear newUUID backup io n =
     (if nd_vault_enabled n \<and> nd_vault_initialized n \<and> nd_vault_migrated n then (n, None)
      else
        (case nd_file n of
           FileAbsent \<Rightarrow> (n, None)
         | FileUnreadable e \<Rightarrow> (n, Some e)
         | FileCorrupt \<Rightarrow>
             (case backup of
                Some e \<Rightarrow> (n, Some (''instances.json corrupt, backup failed: '' @ e))
              | None \<Rightarrow> (n\<lparr>nd_file := FileAbsent\<rparr>, None))
         | FileList ps \<Rightarrow>
             let (n', changed) = load_list nextYear newUUID ps n in
             if changed then (fst (Save io n'), None) else (n', None)))"

subsection \<open>The registry\<close>

definition Find :: "Node \<Rightarrow> string \<Rightarrow> nat option" where
  "Find n uuid = find (\<lambda>r. in_InstanceUuid (obj n r) = uuid) (nd_Instances n)"

definition Add :: "nat \<Rightarrow> Node \<Rightarrow> Node" where
  "Add r n = markDirty (n\<lparr>nd_Instances := nd_Instances n @ [r]\<rparr>)"

definition UpdateInstance :: "int \<Rightarrow> int \<Rightarrow> nat \<Rightarrow> InstanceConfig \<Rightarrow> Node \<Rightarrow> Node" where
  "UpdateInstance now nextYear r cfg n =
     (let cfg = FillDefaults nextYear cfg;
          cfg = cfg\<lparr>cf_CreateDatetime := cf_CreateDatetime (in_Config (obj n r)), cf_LastDatetime := now\<rparr>
      in markDirty (set_obj r (\<lambda>i. i\<lparr>in_Config := cfg\<rparr>) n))"

text \<open>
  The operating system's part in removing an instance: whether the process can be killed, its
  record forgotten. A killed process is no longer alive.
\<close>

record remove_io =
  io_kill :: "nat \<Rightarrow> string option"
  io_forget :: "nat \<Rightarrow> string option"

fun remove_first :: "(nat \<Rightarrow> bool) \<Rightarrow> nat list \<Rightarrow> nat list" where
  "remove_first P [] = []"
| "remove_first P (r # rs) = (if P r then rs else r # remove_first P rs)"

definition kill_for_removal :: "remove_io \<Rightarrow> nat \<Rightarrow> Node \<Rightarrow> Node \<times> string option" where
  "kill_for_removal io r n =
     (case in_Proc (obj n r) of
        None \<Rightarrow> (n, None)
      | Some p \<Rightarrow>
          if in_Status (obj n r) \<noteq> StatusStopped then
            (if nd_alive n p then
               (case io_kill io p of
                  Some e \<Rightarrow> (n, Some (''kill failed: '' @ e))
                | None \<Rightarrow>
                    let n = n\<lparr>nd_alive := (nd_alive n)(p := False)\<rparr> in
                    (case io_forget io p of
                       Some e \<Rightarrow> (n, Some (''forgetting the process failed: '' @ e))
                     | None \<Rightarrow> (n, None)))
             else
               (case io_forget io p of
                  Some e \<Rightarrow> (n, Some (''forgetting the process failed: '' @ e))
                | None \<Rightarrow> (n, None)))
          else (n, None))"

definition Remove :: "remove_io \<Rightarrow> string \<Rightarrow> bool \<Rightarrow> Node \<Rightarrow> Node \<times> string option" where
  "Remove io uuid deleteFiles n =
     (case Find n uuid of
        None \<Rightarrow> (n, Some (''no such instance: '' @ uuid))
      | Some r \<Rightarrow>
          let cwd = cf_Cwd (in_Config (obj n r)) in
          (case kill_for_removal io r n of
             (n, Some e) \<Rightarrow> (n, Some e)
           | (n, None) \<Rightarrow>
               let n = n\<lparr>nd_Instances := remove_first (\<lambda>x. in_InstanceUuid (obj n x) = uuid) (nd_Instances n)\<rparr>;
                   n = (if deleteFiles \<and> cwd \<noteq> [] then
                          (if validateInstanceCwd (nd_wd n) (nd_DataDir n) cwd \<noteq> None then n
                           else n\<lparr>nd_removed := nd_removed n @ [cwd]\<rparr>)
                        else n);
                   n = (if nd_vault_enabled n \<and> vaultActive n \<and> cf_VaultFiles (in_Config (obj n r))
                        then n\<lparr>nd_vault_removed := nd_vault_removed n @ [''/'' @ uuid]\<rparr> else n)
               in (markDirty n, None)))"

definition CountRunning :: "Node \<Rightarrow> nat" where
  "CountRunning n =
     length (filter (\<lambda>r. in_Status (obj n r) = StatusRunning \<or> in_Status (obj n r) = StatusStarting) (nd_Instances n))"

definition CwdOf :: "Node \<Rightarrow> string \<Rightarrow> string + string" where
  "CwdOf n uuid =
     (case Find n uuid of
        None \<Rightarrow> Inl (''no such instance: '' @ uuid)
      | Some r \<Rightarrow>
          let cwd = cf_Cwd (in_Config (obj n r)) in
          if cwd = [] then Inl ''instance working directory is empty'' else Inr cwd)"

text \<open>By creation time; \<open>sort.Slice\<close> leaves the order of equal times open, the stable order is taken.\<close>

definition by_creation :: "Node \<Rightarrow> nat list" where
  "by_creation n = sort_key (\<lambda>r. cf_CreateDatetime (in_Config (obj n r))) (nd_Instances n)"

subsection \<open>Access to an instance\<close>

definition requireInstance :: "Node \<Rightarrow> string \<Rightarrow> string + nat" where
  "requireInstance n uuid =
     (let uuid = TrimSpace uuid in
      if uuid = [] then Inl ''missing uuid parameter''
      else (case Find n uuid of None \<Rightarrow> Inl ''no such instance'' | Some r \<Rightarrow> Inr r))"

datatype access_error = BadInstance string | InstanceForbidden string

definition requireInstanceAccess :: "identity option \<Rightarrow> Node \<Rightarrow> string \<Rightarrow> access_error + nat" where
  "requireInstanceAccess ident n uuid =
     (case requireInstance n uuid of
        Inl e \<Rightarrow> Inl (BadInstance e)
      | Inr r \<Rightarrow>
          (case ident of
             None \<Rightarrow> Inr r
           | Some i \<Rightarrow>
               if id_isAdmin i then Inr r
               else
                 let owner = OwnerOf n r in
                 if owner = [] \<or> owner = id_username i then Inr r
                 else Inl (InstanceForbidden (''instance access denied, owner '' @ owner))))"

definition writeInstanceAccessError :: "access_error \<Rightarrow> 'a reply" where
  "writeInstanceAccessError e = (case e of InstanceForbidden m \<Rightarrow> Fail 403 m | BadInstance m \<Rightarrow> Fail 400 m)"

definition canAccessInstance :: "identity option \<Rightarrow> Node \<Rightarrow> nat \<Rightarrow> bool" where
  "canAccessInstance ident n r =
     (case ident of
        None \<Rightarrow> True
      | Some i \<Rightarrow> if id_isAdmin i then True
                 else let owner = OwnerOf n r in owner = [] \<or> owner = id_username i)"

subsection \<open>The instance list\<close>

text \<open>\<open>int\<close> arithmetic is 64 bits wide.\<close>

definition wrap64 :: "int \<Rightarrow> int" where
  "wrap64 x = (x + 2 ^ 63) mod 2 ^ 64 - 2 ^ 63"

definition go_div :: "int \<Rightarrow> int \<Rightarrow> int" where
  "go_div a b = sgn a * sgn b * (\<bar>a\<bar> div \<bar>b\<bar>)"

record 'a page_result =
  pr_maxPage :: int
  pr_pageSize :: int
  pr_page :: int
  pr_total :: nat
  pr_data :: "'a list"

text \<open>The slice \<open>xs[start:end]\<close>; \<open>None\<close> is the run-time panic of a slice out of range.\<close>

definition go_slice :: "'a list \<Rightarrow> int \<Rightarrow> int \<Rightarrow> 'a list option" where
  "go_slice xs start fin =
     (if 0 \<le> start \<and> start \<le> fin \<and> fin \<le> int (length xs)
      then Some (take (nat (fin - start)) (drop (nat start) xs)) else None)"

definition paginate :: "int \<Rightarrow> int \<Rightarrow> 'a list \<Rightarrow> 'a page_result option" where
  "paginate page pageSize matched =
     (let start = wrap64 (wrap64 (page - 1) * pageSize);
          start = (if start > int (length matched) then int (length matched) else start);
          fin = wrap64 (start + pageSize);
          fin = (if fin > int (length matched) then int (length matched) else fin);
          maxPage = (if length matched > 0
                     then go_div (wrap64 (wrap64 (int (length matched) + pageSize) - 1)) pageSize else 1)
      in map_option (\<lambda>items. \<lparr>pr_maxPage = maxPage, pr_pageSize = pageSize, pr_page = page,
                              pr_total = length matched, pr_data = items\<rparr>)
           (go_slice matched start fin))"

definition query_int :: "string \<Rightarrow> int" where
  "query_int s = (case Atoi (TrimSpace s) of Some v \<Rightarrow> v | None \<Rightarrow> 0)"

definition list_matched :: "identity option \<Rightarrow> Node \<Rightarrow> string \<Rightarrow> string \<Rightarrow> nat list" where
  "list_matched ident n nameFilter statusFilter =
     filter (\<lambda>r. \<not> (nameFilter \<noteq> [] \<and> \<not> Contains (cf_Nickname (in_Config (obj n r))) nameFilter) \<and>
                 \<not> (statusFilter \<noteq> [] \<and> Itoa (in_Status (obj n r)) \<noteq> statusFilter) \<and>
                 canAccessInstance ident n r)
       (by_creation n)"

definition handleInstanceList ::
  "identity option \<Rightarrow> Node \<Rightarrow> string \<Rightarrow> string \<Rightarrow> string \<Rightarrow> string \<Rightarrow> Instance page_result option" where
  "handleInstanceList ident n page page_size instance_name status =
     (let page = query_int page; page = (if page \<le> 0 then 1 else page);
          pageSize = query_int page_size; pageSize = (if pageSize \<le> 0 then 100 else pageSize)
      in map_option (\<lambda>p. \<lparr>pr_maxPage = pr_maxPage p, pr_pageSize = pr_pageSize p, pr_page = pr_page p,
                         pr_total = pr_total p, pr_data = map (obj n) (pr_data p)\<rparr>)
           (paginate page pageSize (list_matched ident n (TrimSpace instance_name) (TrimSpace status))))"

definition handleInstanceDetail :: "identity option \<Rightarrow> Node \<Rightarrow> string \<Rightarrow> Instance reply" where
  "handleInstanceDetail ident n uuid =
     (case requireInstanceAccess ident n uuid of
        Inl e \<Rightarrow> writeInstanceAccessError e
      | Inr r \<Rightarrow> Reply (obj n r))"

subsection \<open>Creating, changing and deleting instances\<close>

definition resolveInstanceOwner :: "identity option \<Rightarrow> string option \<Rightarrow> string + string" where
  "resolveInstanceOwner ident requested =
     (case ident of
        None \<Rightarrow> Inr []
      | Some i \<Rightarrow>
          (case requested of
             None \<Rightarrow> if id_isAdmin i then Inr [] else Inr (id_username i)
           | Some q \<Rightarrow>
               if \<not> id_isAdmin i then Inl ''only administrators may name an owner''
               else
                 let owner = TrimSpace q in
                 if owner = [] then Inr []
                 else if \<not> validUsername owner then Inl (''invalid owner: '' @ owner)
                 else Inr owner))"

text \<open>A request body: the configuration and the optional owner; \<open>None\<close> when it does not decode.\<close>

type_synonym inst_body = "(InstanceConfig \<times> string option) option"

definition handleInstanceCreate ::
  "identity option \<Rightarrow> int \<Rightarrow> int \<Rightarrow> string \<Rightarrow> inst_body \<Rightarrow> Node \<Rightarrow> Node \<times> Instance reply" where
  "handleInstanceCreate ident now nextYear newUUID body n =
     (case body of
        None \<Rightarrow> (n, Fail 400 ''malformed request body'')
      | Some (cfg, owner) \<Rightarrow>
          let cfg = applyVaultDefault n (FillDefaults nextYear cfg) in
          (case normalizeInstanceCwd (nd_wd n) (nd_DataDir n) (cf_Cwd cfg) of
             Inl e \<Rightarrow> (n, Fail 400 e)
           | Inr ab \<Rightarrow>
               let cfg = cfg\<lparr>cf_Cwd := ab, cf_CreateDatetime := now, cf_LastDatetime := now\<rparr>;
                   i = NewInstance nextYear newUUID [] cfg in
               (case resolveInstanceOwner ident owner of
                  Inl e \<Rightarrow> (n, Fail 403 e)
                | Inr ow \<Rightarrow>
                    let (r, n) = alloc (i\<lparr>in_Owner := ow\<rparr>) n; n = Add r n in (n, Reply (obj n r)))))"

definition handleInstanceUpdate ::
  "identity option \<Rightarrow> int \<Rightarrow> int \<Rightarrow> string \<Rightarrow> inst_body \<Rightarrow> Node \<Rightarrow> Node \<times> (string \<times> string) reply" where
  "handleInstanceUpdate ident now nextYear uuid body n =
     (case requireInstanceAccess ident n uuid of
        Inl e \<Rightarrow> (n, writeInstanceAccessError e)
      | Inr r \<Rightarrow>
          (case body of
             None \<Rightarrow> (n, Fail 400 ''malformed request body'')
           | Some (cfg, owner) \<Rightarrow>
               let cfg = FillDefaults nextYear cfg in
               (case normalizeInstanceCwd (nd_wd n) (nd_DataDir n) (cf_Cwd cfg) of
                  Inl e \<Rightarrow> (n, Fail 400 e)
                | Inr ab \<Rightarrow>
                    let cfg = cfg\<lparr>cf_Cwd := ab\<rparr>;
                        done = (\<lambda>n. (n, Reply (in_InstanceUuid (obj n r), OwnerOf n r))) in
                    (case owner of
                       None \<Rightarrow> done (UpdateInstance now nextYear r cfg n)
                     | Some q \<Rightarrow>
                         if ident \<noteq> None \<and> \<not> requireAdmin ident
                         then (n, Fail 403 ''only administrators may change the owner'')
                         else
                           let newOwner = TrimSpace q in
                           if newOwner \<noteq> [] \<and> \<not> validUsername newOwner
                           then (n, Fail 400 (''invalid owner: '' @ newOwner))
                           else
                             let ownerChanged = (newOwner \<noteq> OwnerOf n r);
                                 n = UpdateInstance now nextYear r cfg n in
                             done (if ownerChanged then markDirty (SetOwner newOwner r n) else n)))))"

primrec remove_all :: "remove_io \<Rightarrow> bool \<Rightarrow> string list \<Rightarrow> Node \<Rightarrow> Node \<times> string list" where
  "remove_all io deleteFile [] n = (n, [])"
| "remove_all io deleteFile (u # us) n =
     (case Remove io u deleteFile n of
        (n, Some e) \<Rightarrow> remove_all io deleteFile us n
      | (n, None) \<Rightarrow> (let (n, ds) = remove_all io deleteFile us n in (n, u # ds)))"

definition handleInstanceDelete ::
  "identity option \<Rightarrow> remove_io \<Rightarrow> (string list \<times> bool) option \<Rightarrow> Node \<Rightarrow> Node \<times> string list reply" where
  "handleInstanceDelete ident io body n =
     (case body of
        None \<Rightarrow> (n, Fail 400 ''malformed request body'')
      | Some (uuids, deleteFile) \<Rightarrow>
          (case find (\<lambda>u. case Find n u of None \<Rightarrow> False | Some r \<Rightarrow> \<not> canAccessInstance ident n r) uuids of
             Some u \<Rightarrow> (n, Fail 403 (''not allowed to delete instance '' @ u))
           | None \<Rightarrow> (let (n, ds) = remove_all io deleteFile uuids n in (n, Reply ds))))"

subsection \<open>Lemmas on the store\<close>

lemma obj_set_obj [simp]: "obj (set_obj r f n) x = (if x = r then f (obj n r) else obj n x)"
  by (simp add: obj_def set_obj_def)

lemma set_obj_frame [simp]:
  "nd_Instances (set_obj r f n) = nd_Instances n" "nd_file (set_obj r f n) = nd_file n"
  "nd_next (set_obj r f n) = nd_next n"
  by (simp_all add: set_obj_def)

lemma markDirty_frame [simp]:
  "obj (markDirty n) = obj n" "nd_Instances (markDirty n) = nd_Instances n" "nd_file (markDirty n) = nd_file n"
  "nd_dirty (markDirty n)"
  by (simp_all add: markDirty_def obj_def fun_eq_iff)

lemma obj_frame [simp]:
  "obj (n\<lparr>nd_Instances := is\<rparr>) = obj n" "obj (n\<lparr>nd_alive := a\<rparr>) = obj n" "obj (n\<lparr>nd_removed := rm\<rparr>) = obj n"
  "obj (n\<lparr>nd_vault_removed := vr\<rparr>) = obj n" "obj (n\<lparr>nd_dirty := d\<rparr>) = obj n" "obj (n\<lparr>nd_file := fl\<rparr>) = obj n"
  "obj (n\<lparr>nd_vault_list := vl\<rparr>) = obj n"
  by (simp_all add: obj_def fun_eq_iff)

lemma Find_Some: "Find n u = Some r \<Longrightarrow> r \<in> set (nd_Instances n) \<and> in_InstanceUuid (obj n r) = u"
  unfolding Find_def by (auto simp: find_Some_iff)

lemma FillDefaults_filled:
  "y \<noteq> 0 \<Longrightarrow> FillDefaults x (FillDefaults y c) = FillDefaults y c"
  unfolding FillDefaults_def by (cases c) (auto split: option.splits)

subsection \<open>Saving and loading\<close>

text \<open>
  C12. While the vault is locked the instance list never reaches the disk in the clear: neither
  saving nor the background flush touches instances.json, saving says so, and the flush keeps
  the change pending for after the unlock.
\<close>

theorem locked_vault_never_saved_in_clear:
  assumes "vaultLocked n"
  shows "Save io n = (n, Some errVaultLockedPlaintext) \<and> FlushDirty io n = (n, None) \<and>
    nd_file (fst (FlushDirty io (markDirty n))) = nd_file n \<and> nd_dirty (fst (FlushDirty io (markDirty n)))"
proof -
  have "\<not> vaultActive n" "vaultLocked (markDirty n)"
    using assms by (simp_all add: vaultActive_def vaultLocked_def markDirty_def)
  with assms show ?thesis by (simp add: Save_def Let_def FlushDirty_def)
qed

definition base_node :: Node where
  "base_node =
     \<lparr>nd_objs = (\<lambda>_. undefined), nd_next = 0, nd_Instances = [], nd_dirty = False, nd_alive = (\<lambda>_. False),
      nd_file = FileAbsent, nd_DataDir = ''/var/irix'', nd_wd = Some ''/'', nd_removed = [],
      nd_vault_enabled = False, nd_vault_initialized = False, nd_vault_key = False, nd_vault_migrated = False,
      nd_vault_materialize = False, nd_vault_list = None, nd_vault_removed = []\<rparr>"

definition io_ok :: save_io where
  "io_ok = \<lparr>io_vault_write = None, io_vault_flush = None, io_open = None, io_write = None, io_sync = None,
            io_close = None, io_rename = None\<rparr>"

theorem locked_vault_witness:
  "let n = base_node\<lparr>nd_vault_enabled := True, nd_vault_initialized := True, nd_vault_migrated := True\<rparr> in
   Save io_ok n = (n, Some errVaultLockedPlaintext) \<and> FlushDirty io_ok n = (n, None) \<and>
   nd_file (fst (FlushDirty io_ok (markDirty n))) = nd_file n \<and> nd_dirty (fst (FlushDirty io_ok (markDirty n)))"
  unfolding Let_def by (rule locked_vault_never_saved_in_clear) (simp add: vaultLocked_def base_node_def)

definition loaded_ok :: "string option \<Rightarrow> string \<Rightarrow> Instance \<Rightarrow> bool" where
  "loaded_ok wd dataDir i =
     (safePathSegment (in_InstanceUuid i) \<and>
      (if TrimSpace (cf_Cwd (in_Config i)) = [] then True
       else validateInstanceCwd wd dataDir (TrimSpace (cf_Cwd (in_Config i))) = None) \<and>
      (if in_Owner i = [] then True else validUsername (in_Owner i)) \<and> in_Status i = StatusStopped)"

lemma validateInstanceCwd_trim:
  "validateInstanceCwd wd dd (TrimSpace c) = None \<longleftrightarrow> validateInstanceCwd wd dd c = None"
  by (simp add: validateInstanceCwd_def validateCwd_def split: option.splits)

lemma load_cwd_ok:
  assumes "load_cwd n c = Some (c', ch)"
  shows "if TrimSpace (cf_Cwd c') = [] then True
    else validateInstanceCwd (nd_wd n) (nd_DataDir n) (TrimSpace (cf_Cwd c')) = None"
proof (cases "TrimSpace (cf_Cwd c) = []")
  case True
  with assms show ?thesis by (simp add: load_cwd_def)
next
  case False
  then obtain ab where ab: "validateInstanceCwd (nd_wd n) (nd_DataDir n) ab = None"
    "c' = c\<lparr>cf_Cwd := ab\<rparr> \<or> (c' = c \<and> ab = TrimSpace (cf_Cwd c))"
    using assms by (cases "Abs (nd_wd n) (TrimSpace (cf_Cwd c))") (auto simp: load_cwd_def Let_def split: if_splits)
  then show ?thesis by (auto simp: validateInstanceCwd_trim)
qed

lemma NewInstance_fields [simp]:
  "in_Config (NewInstance y u v c) = FillDefaults y c" "cf_Cwd (FillDefaults y c) = cf_Cwd c"
  "in_InstanceUuid (NewInstance y u v c) = (if v = [] then u else v)" "in_Owner (NewInstance y u v c) = []"
  "in_Status (NewInstance y u v c) = StatusStopped" "in_Started (NewInstance y u v c) = 0"
  by (simp_all add: NewInstance_def FillDefaults_def)

lemma safePathSegment_nonempty: "safePathSegment s \<Longrightarrow> s \<noteq> []"
  by (auto simp: safePathSegment_def safeIDPattern_def)

lemma load_entry_ok:
  assumes "load_entry y u n p = Some (i, ch)"
  shows "loaded_ok (nd_wd n) (nd_DataDir n) i"
proof -
  have safe: "safePathSegment (ps_InstanceUuid p)" using assms by (auto simp: load_entry_def split: if_splits)
  obtain cfg c where cfg: "load_cwd n (ps_Config p) = Some (cfg, c)"
    using assms by (cases "load_cwd n (ps_Config p)") (auto simp: load_entry_def split: if_splits)
  have "in_InstanceUuid i = ps_InstanceUuid p \<and> in_Config i = FillDefaults y cfg \<and> in_Status i = StatusStopped \<and>
      (in_Owner i = [] \<or> validUsername (in_Owner i))"
    using assms safe safePathSegment_nonempty [OF safe]
    by (auto simp: load_entry_def cfg Let_def split: if_splits)
  with load_cwd_ok [OF cfg] safe show ?thesis by (auto simp: loaded_ok_def)
qed

lemma load_list_spec:
  "load_list y u ps n = (n', ch) \<Longrightarrow>
   nd_wd n' = nd_wd n \<and> nd_DataDir n' = nd_DataDir n \<and> nd_next n \<le> nd_next n' \<and>
   (\<forall>r < nd_next n. obj n' r = obj n r) \<and>
   (\<exists>rs. nd_Instances n' = nd_Instances n @ rs \<and>
      map (obj n') rs = map fst (List.map_filter (load_entry y u n) ps) \<and> (\<forall>r \<in> set rs. nd_next n \<le> r \<and> r < nd_next n'))"
proof (induction ps arbitrary: n n' ch)
  case Nil
  then show ?case by (simp add: map_filter_def)
next
  case (Cons p ps)
  have same: "load_entry y u m q = load_entry y u n q" if "nd_wd m = nd_wd n" "nd_DataDir m = nd_DataDir n" for m q
    unfolding load_entry_def load_cwd_def that by (rule refl)
  show ?case
  proof (cases "load_entry y u n p")
    case None
    then show ?thesis using Cons.prems Cons.IH [of n] by (auto simp: map_filter_simps split: prod.splits)
  next
    case (Some ic)
    obtain i c where ic: "ic = (i, c)" by (cases ic)
    define n1 where "n1 = n\<lparr>nd_objs := (nd_objs n)(nd_next n := i), nd_next := Suc (nd_next n),
                            nd_Instances := nd_Instances n @ [nd_next n]\<rparr>"
    obtain ch' where rec: "load_list y u ps n1 = (n', ch')"
      using Cons.prems Some by (auto simp: ic alloc_def n1_def split: prod.splits)
    have o1: "obj n1 r = (if r = nd_next n then i else obj n r)" for r by (simp add: n1_def obj_def)
    from Cons.IH [OF rec] obtain rs where rs: "nd_Instances n' = nd_Instances n1 @ rs"
      "map (obj n') rs = map fst (List.map_filter (load_entry y u n1) ps)"
      "\<forall>r \<in> set rs. nd_next n1 \<le> r \<and> r < nd_next n'" and
      fr: "nd_wd n' = nd_wd n1" "nd_DataDir n' = nd_DataDir n1" "nd_next n1 \<le> nd_next n'"
      "\<forall>r < nd_next n1. obj n' r = obj n1 r" by blast
    have env: "load_entry y u n1 = load_entry y u n" by (rule ext) (rule same; simp add: n1_def)
    have nx: "nd_next n1 = Suc (nd_next n)" "nd_Instances n1 = nd_Instances n @ [nd_next n]"
      "nd_wd n1 = nd_wd n" "nd_DataDir n1 = nd_DataDir n" by (simp_all add: n1_def)
    have "obj n' (nd_next n) = i" using fr(4) by (simp add: o1 nx)
    moreover have "\<forall>r < nd_next n. obj n' r = obj n r" using fr(4) by (simp add: o1 nx)
    moreover have "nd_Instances n' = nd_Instances n @ nd_next n # rs" using rs(1) by (simp add: nx)
    moreover have "\<forall>r \<in> set (nd_next n # rs). nd_next n \<le> r \<and> r < nd_next n'" using rs(3) fr(3) by (auto simp: nx)
    moreover have "List.map_filter (load_entry y u n) (p # ps) = (i, c) # List.map_filter (load_entry y u n) ps"
      by (simp add: map_filter_simps Some ic)
    ultimately show ?thesis
      using rs(2) fr(1-3) by (intro conjI exI [of _ "nd_next n # rs"]) (simp_all add: env nx)
  qed
qed

lemma Save_frame [simp]:
  "nd_Instances (fst (Save io n)) = nd_Instances n" "obj (fst (Save io n)) = obj n"
  by (simp_all add: Save_def Let_def split: option.splits)

lemma map_filter_Some: "x \<in> set (List.map_filter f xs) \<Longrightarrow> \<exists>p \<in> set xs. f p = Some x"
  by (induction xs) (auto simp: map_filter_simps split: option.splits)

text \<open>
  Whatever instances.json holds, every instance that is loaded from it is stopped, has an identifier that
  is a safe path segment, a working directory that is blank or passes the checks of a new one, and
  an owner that is empty or a well-formed account name.
\<close>

theorem load_admits_only_valid:
  "\<exists>rs. nd_Instances (fst (Load y u backup io n)) = nd_Instances n @ rs \<and>
     list_all (\<lambda>r. loaded_ok (nd_wd n) (nd_DataDir n) (obj (fst (Load y u backup io n)) r)) rs"
proof (cases "(nd_vault_enabled n \<and> nd_vault_initialized n \<and> nd_vault_migrated n) \<or> (\<nexists>ps. nd_file n = FileList ps)")
  case True
  then have "nd_Instances (fst (Load y u backup io n)) = nd_Instances n"
    by (auto simp: Load_def split: inst_file.splits option.splits)
  then show ?thesis by simp
next
  case False
  then obtain ps where ps: "nd_file n = FileList ps" by auto
  obtain n' ch where l: "load_list y u ps n = (n', ch)" by fastforce
  have fst: "fst (Load y u backup io n) = (if ch then fst (Save io n') else n')"
    using False by (auto simp: Load_def ps l)
  from load_list_spec [OF l] obtain rs where rs: "nd_Instances n' = nd_Instances n @ rs"
    "map (obj n') rs = map fst (List.map_filter (load_entry y u n) ps)" by blast
  have "loaded_ok (nd_wd n) (nd_DataDir n) (obj n' r)" if "r \<in> set rs" for r
  proof -
    have "obj n' r \<in> set (map fst (List.map_filter (load_entry y u n) ps))" using rs(2) that by (metis imageI set_map)
    then show ?thesis using load_entry_ok by (fastforce dest: map_filter_Some)
  qed
  then show ?thesis using rs(1) by (auto simp: fst list_all_iff)
qed

definition storable :: "int \<Rightarrow> Node \<Rightarrow> Instance \<Rightarrow> bool" where
  "storable y n i =
     (safePathSegment (in_InstanceUuid i) \<and> FillDefaults y (in_Config i) = in_Config i \<and>
      (let cwd = TrimSpace (cf_Cwd (in_Config i)) in
       if cwd = [] then True
       else Abs (nd_wd n) cwd = Some cwd \<and> validateInstanceCwd (nd_wd n) (nd_DataDir n) cwd = None) \<and>
      (if in_Owner i = [] then True else validUsername (in_Owner i)))"

text \<open>The node after a restart: nothing in memory, no process alive, the disk as it was left.\<close>

definition restarted :: "Node \<Rightarrow> Node" where
  "restarted n = n\<lparr>nd_Instances := [], nd_alive := (\<lambda>_. False), nd_dirty := False\<rparr>"

lemma load_entry_persisted:
  assumes "storable y n i"
  shows "\<exists>j. load_entry y u n (persisted i) = Some (j, False) \<and> persisted j = persisted i"
proof -
  have "load_cwd n (in_Config i) = Some (in_Config i, False)"
    using assms by (auto simp: load_cwd_def storable_def Let_def split: if_splits)
  moreover have "in_InstanceUuid i \<noteq> []" using assms safePathSegment_nonempty by (auto simp: storable_def)
  ultimately show ?thesis
    using assms by (auto simp: load_entry_def persisted_def storable_def Let_def split: if_splits)
qed

lemma load_list_persisted:
  "list_all (storable y  n) ins \<Longrightarrow> nd_wd m = nd_wd n \<Longrightarrow> nd_DataDir m = nd_DataDir n \<Longrightarrow>
   snd (load_list y u (map persisted ins) m) = False"
proof (induction ins arbitrary: m)
  case (Cons i ins)
  have "storable y m i" using Cons.prems unfolding storable_def Let_def by simp
  from load_entry_persisted [OF this] obtain j where j: "load_entry y u m (persisted i) = Some (j, False)" by blast
  have "snd (load_list y u (map persisted ins) (m\<lparr>nd_objs := ob, nd_next := nx, nd_Instances := ri\<rparr>)) = False" for ob nx ri
    using Cons.prems by (intro Cons.IH) auto
  with j show ?case by (simp add: alloc_def split: prod.splits)
qed simp

text \<open>
  C11. A node that saves its instances and restarts has the same instances: identifier,
  configuration, start count and owner of each, in the same order, provided each is one that
  the node's own checks admit.
\<close>

theorem save_load_round_trip:
  assumes "list_all (\<lambda>r. storable y n (obj n r)) (nd_Instances n)" "\<not> nd_vault_enabled n"
  shows "snd (Save io_ok n) = None \<and>
    (let m = fst (Load y u backup io (restarted (fst (Save io_ok n)))) in
     map (\<lambda>r. persisted (obj m r)) (nd_Instances m) = map (\<lambda>r. persisted (obj n r)) (nd_Instances n))"
proof -
  define ins where "ins = map (obj n) (nd_Instances n)"
  define m0 where "m0 = restarted (fst (Save io_ok n))"
  have sv: "Save io_ok n = (n\<lparr>nd_file := FileList (map persisted ins)\<rparr>, None)"
    using assms(2) by (simp add: Save_def Let_def vaultActive_def vaultLocked_def io_ok_def ins_def comp_def)
  have st: "list_all (storable y n) ins" using assms(1) by (simp add: ins_def list_all_iff)
  have m0: "nd_wd m0 = nd_wd n" "nd_DataDir m0 = nd_DataDir n" "nd_Instances m0 = []"
    "nd_file m0 = FileList (map persisted ins)" "\<not> nd_vault_enabled m0"
    using assms(2) by (simp_all add: m0_def sv restarted_def)
  obtain m ch where l: "load_list y u (map persisted ins) m0 = (m, ch)" by fastforce
  have "ch = False" using load_list_persisted [OF st m0(1,2), of u] by (simp add: l)
  with m0(4,5) l have load: "fst (Load y u backup io m0) = m" by (simp add: Load_def)
  from load_list_spec [OF l] m0(3) have
    o: "map (obj m) (nd_Instances m) = map fst (List.map_filter (load_entry y u m0) (map persisted ins))" by auto
  have st0: "storable y m0 i" if "i \<in> set ins" for i using st that m0(1,2) unfolding list_all_iff storable_def Let_def by simp
  have "map persisted (map fst (List.map_filter (load_entry y u m0) (map persisted js))) = map persisted js"
    if "set js \<subseteq> set ins" for js
    using that
  proof (induction js)
    case (Cons j js)
    from load_entry_persisted [OF st0, of j u] Cons.prems obtain k
      where "load_entry y u m0 (persisted j) = Some (k, False)" "persisted k = persisted j" by auto
    with Cons show ?case by (simp add: map_filter_simps)
  qed (simp add: map_filter_simps)
  from this [of ins] o have "map persisted (map (obj m) (nd_Instances m)) = map persisted ins" by simp
  moreover have "snd (Save io_ok n) = None" by (simp add: sv)
  ultimately show ?thesis unfolding m0_def [symmetric] load Let_def by (simp add: ins_def comp_def)
qed

definition sample_config :: "string \<Rightarrow> InstanceConfig" where
  "sample_config cwd =
     \<lparr>cf_Nickname = ''mc'', cf_StartCommand = ''java -jar a.jar'', cf_StopCommand = ''stop'', cf_Cwd = cwd,
      cf_IE = ''utf-8'', cf_OE = ''utf-8'', cf_CreateDatetime = 1, cf_LastDatetime = 1, cf_Type = ''universal'',
      cf_Tag = Some [], cf_EndTime = 9, cf_FileCode = ''utf-8'', cf_ProcessType = ''universal'',
      cf_UpdateCommand = [], cf_ActionCommandList = Some [], cf_Crlf = 2,
      cf_EventTask = \<lparr>ev_AutoStart = False, ev_AutoRestart = False, ev_Ignore = False\<rparr>,
      cf_PingConfig = \<lparr>pc_IP = [], pc_Port = 25565, pc_Type = 0\<rparr>, cf_VaultFiles = False\<rparr>"

definition sample_instance :: "string \<Rightarrow> string \<Rightarrow> Instance" where
  "sample_instance uuid owner = (NewInstance 9 [] uuid (sample_config ''/games/mc''))\<lparr>in_Owner := owner\<rparr>"

definition sample_node :: Node where
  "sample_node = base_node\<lparr>nd_objs := (\<lambda>_. undefined)(0 := sample_instance ''a'' ''bob'', 1 := sample_instance ''b'' ''eve''),
     nd_next := 2, nd_Instances := [0, 1]\<rparr>"

lemma sample_cwd_ok: "validateInstanceCwd (Some ''/'') ''/var/irix'' ''/games/mc'' = None"
  by code_simp

lemma sample_storable: "storable 9 sample_node (sample_instance u ow) = (safePathSegment u \<and> (if ow = [] then True else validUsername ow))"
proof -
  have "TrimSpace ''/games/mc'' = ''/games/mc''" "Abs (Some ''/'') ''/games/mc'' = Some ''/games/mc''" by code_simp+
  moreover have "FillDefaults 9 (FillDefaults 9 c) = FillDefaults 9 c" for c by (rule FillDefaults_filled) simp
  ultimately show ?thesis
    using safePathSegment_nonempty [of u] sample_cwd_ok
    by (auto simp: storable_def sample_instance_def sample_config_def sample_node_def base_node_def)
qed

theorem save_load_witness:
  "snd (Save io_ok sample_node) = None \<and>
    (let m = fst (Load 9 [] None io_ok (restarted (fst (Save io_ok sample_node)))) in
     map (\<lambda>r. persisted (obj m r)) (nd_Instances m) = map (\<lambda>r. persisted (obj sample_node r)) (nd_Instances sample_node))"
proof (rule save_load_round_trip)
  have "safePathSegment ''a''" "safePathSegment ''b''" "validUsername ''bob''" "validUsername ''eve''" by code_simp+
  then show "list_all (\<lambda>r. storable 9 sample_node (obj sample_node r)) (nd_Instances sample_node)"
    using sample_storable by (simp add: sample_node_def obj_def)
  show "\<not> nd_vault_enabled sample_node" by (simp add: sample_node_def base_node_def)
qed

subsection \<open>Pages of the instance list\<close>

lemma wrap64_id: "- (2 ^ 63) \<le> x \<Longrightarrow> x < 2 ^ 63 \<Longrightarrow> wrap64 x = x"
  by (simp add: wrap64_def)

lemma paginate_slice:
  assumes "0 < ps" "int k * ps + ps < 2 ^ 63" "int (length xs) + ps < 2 ^ 63"
  shows "\<exists>r. paginate (int k + 1) ps xs = Some r \<and> pr_data r = take (nat ps) (drop (k * nat ps) xs)"
proof -
  have k: "int k \<le> int k * ps" using assms(1) by (simp add: mult_le_cancel_left1)
  have nn: "0 \<le> int k * ps" using assms(1) by simp
  have kps: "int k * ps < 2 ^ 63" "int k < 2 ^ 63" using assms(1,2) k nn by linarith+
  have start: "wrap64 (wrap64 (int k + 1 - 1) * ps) = int k * ps"
    using kps nn by (simp add: wrap64_id)
  define st where "st = min (int k * ps) (int (length xs))"
  have st: "(if int k * ps > int (length xs) then int (length xs) else int k * ps) = st" by (simp add: st_def)
  have st0: "0 \<le> st" "st \<le> int (length xs)" using nn by (auto simp: st_def)
  have fin: "wrap64 (st + ps) = st + ps" using assms(1,3) st0 by (intro wrap64_id) linarith+
  define fin' where "fin' = min (st + ps) (int (length xs))"
  have fin': "(if st + ps > int (length xs) then int (length xs) else st + ps) = fin'" by (simp add: fin'_def)
  have slice: "go_slice xs st fin' = Some (take (nat (fin' - st)) (drop (nat st) xs))"
    using st0 assms(1) by (simp add: go_slice_def fin'_def)
  have "take (nat (fin' - st)) (drop (nat st) xs) = take (nat ps) (drop (k * nat ps) xs)"
  proof (cases "int k * ps \<le> int (length xs)")
    case True
    then have "nat st = k * nat ps" using assms(1) by (simp add: st_def nat_mult_distrib)
    moreover have "take (nat (fin' - st)) ys = take (nat ps) ys" if "length ys = length xs - nat st" for ys :: "'a list"
    proof (cases "st + ps \<le> int (length xs)")
      case True
      then show ?thesis by (simp add: fin'_def)
    next
      case False
      then have "length ys \<le> nat (fin' - st)" "length ys \<le> nat ps" using that st0 by (auto simp: fin'_def)
      then show ?thesis by simp
    qed
    ultimately show ?thesis by (metis length_drop)
  next
    case False
    then have "length xs \<le> k * nat ps" using assms(1) by (metis int_nat_eq le_cases nat_int_comparison(3) of_nat_mult order_less_imp_le)
    moreover have "length xs \<le> nat st" using False by (simp add: st_def)
    ultimately show ?thesis by simp
  qed
  then show ?thesis unfolding paginate_def Let_def start st fin fin' slice by simp
qed

lemma concat_pages: "concat (map (\<lambda>k. take c (drop (k * c) xs)) [0..<m]) = take (m * c) xs"
  by (induction m) (simp_all add: take_add [symmetric] add.commute)

lemma list_matched_access: "list_all (canAccessInstance ident n) (list_matched ident n f s)"
  by (simp add: list_matched_def list_all_iff)

text \<open>
  Walking through the pages 1 to \<open>maxPage\<close> of the instance list shows every instance the caller may
  see (and the filters let through) exactly once and in order, and no other instance, for any page
  size that keeps the arithmetic within 64 bits.
\<close>

theorem instance_pages_cover:
  assumes "xs = list_matched ident n nameFilter statusFilter" and "0 < ps" and "2 * (int (length xs) + ps) < 2 ^ 63"
  shows "\<exists>r1. paginate 1 ps xs = Some r1 \<and>
    concat (map (\<lambda>k. case paginate (int k + 1) ps xs of Some r \<Rightarrow> pr_data r | None \<Rightarrow> []) [0..<nat (pr_maxPage r1)]) = xs \<and>
    list_all (canAccessInstance ident n) xs"
proof -
  define len where "len = int (length xs)"
  define m where "m = (if 0 < length xs then (len + ps - 1) div ps else 1)"
  have l0: "0 \<le> len" by (simp add: len_def)
  have big: "len + ps < 2 ^ 63" using assms(2,3) l0 by (simp add: len_def)
  obtain r1 where r1: "paginate 1 ps xs = Some r1"
    using paginate_slice [of ps 0 xs] assms(2) big l0 by (auto simp: len_def)
  have "pr_maxPage r1 = m"
  proof -
    have "wrap64 (len + ps) = len + ps" "0 < length xs \<Longrightarrow> wrap64 (len + ps - 1) = len + ps - 1"
      using big l0 assms(2) by (auto intro!: wrap64_id)
    then have "0 < length xs \<Longrightarrow> go_div (wrap64 (wrap64 (len + ps) - 1)) ps = (len + ps - 1) div ps"
      using l0 assms(2) by (simp add: go_div_def sgn_if len_def)
    then show ?thesis using r1 by (auto simp: paginate_def Let_def m_def len_def)
  qed
  have mle: "(m - 1) * ps \<le> len" and mge: "len \<le> m * ps" and m1: "1 \<le> m"
  proof -
    define q where "q = (len + ps - 1) div ps"
    define t where "t = (len + ps - 1) mod ps"
    have "q * ps + t = len + ps - 1" "0 \<le> t" "t < ps" using assms(2) by (simp_all add: q_def t_def)
    then have "(len + ps - 1) div ps * ps \<le> len + ps - 1" "len + ps - 1 < ((len + ps - 1) div ps + 1) * ps"
      unfolding q_def [symmetric] distrib_right by linarith+
    moreover have "0 < length xs \<Longrightarrow> 1 \<le> (len + ps - 1) div ps"
      using assms(2) l0 by (simp add: len_def pos_imp_zdiv_pos_iff int_one_le_iff_zero_less)
    ultimately show "(m - 1) * ps \<le> len" "len \<le> m * ps" "1 \<le> m"
      using l0 assms(2) by (auto simp: m_def left_diff_distrib distrib_right len_def)
  qed
  have page: "(case paginate (int k + 1) ps xs of Some r \<Rightarrow> pr_data r | None \<Rightarrow> []) = take (nat ps) (drop (k * nat ps) xs)"
    if "k < nat m" for k
  proof -
    have "int k \<le> m - 1" using that by linarith
    then have "int k * ps \<le> (m - 1) * ps" using assms(2) by (intro mult_right_mono) auto
    then have "int k * ps + ps < 2 ^ 63" using mle big by linarith
    from paginate_slice [OF assms(2) this, of xs] big show ?thesis by (auto simp: len_def)
  qed
  have "concat (map (\<lambda>k. case paginate (int k + 1) ps xs of Some r \<Rightarrow> pr_data r | None \<Rightarrow> []) [0..<nat m]) =
      take (nat m * nat ps) xs"
    unfolding concat_pages [symmetric] using page by (intro arg_cong [where f = concat] map_cong) auto
  moreover have "length xs \<le> nat m * nat ps"
    using mge m1 assms(2) by (simp add: len_def nat_mult_distrib [symmetric] le_nat_iff)
  ultimately show ?thesis using r1 \<open>pr_maxPage r1 = m\<close> list_matched_access assms(1) by auto
qed

theorem instance_pages_witness:
  "\<exists>r1. paginate 1 1 (list_matched None sample_node [] []) = Some r1 \<and>
    concat (map (\<lambda>k. case paginate (int k + 1) 1 (list_matched None sample_node [] []) of Some r \<Rightarrow> pr_data r | None \<Rightarrow> [])
      [0..<nat (pr_maxPage r1)]) = list_matched None sample_node [] [] \<and>
    list_all (canAccessInstance None sample_node) (list_matched None sample_node [] [])"
proof -
  have "length (list_matched None sample_node [] []) \<le> 2"
    by (simp add: list_matched_def by_creation_def sample_node_def le_trans [OF length_filter_le])
  then show ?thesis by (intro instance_pages_cover [OF refl]) simp_all
qed

text \<open>
  A page number whose offset overflows 64 bits makes the list handler panic: the product wraps
  to a negative start, which passes the check against the length, and the slice is out of range.
\<close>

theorem instance_list_page_overflow_panics:
  "handleInstanceList ident n ''4611686018427387905'' ''2'' instance_name status = None"
proof -
  have q: "query_int ''4611686018427387905'' = 4611686018427387905" "query_int ''2'' = 2" by code_simp+
  have "paginate 4611686018427387905 2 xs = None" for xs :: "nat list"
  proof -
    have w: "wrap64 (wrap64 (4611686018427387905 - 1) * 2) = - 9223372036854775808"
      by (simp add: wrap64_def)
    have neg: "\<not> int (length xs) < - 9223372036854775808" by linarith
    show ?thesis unfolding paginate_def Let_def w go_slice_def using neg by simp
  qed
  then show ?thesis unfolding handleInstanceList_def Let_def q by simp
qed

subsection \<open>Whose instance it is\<close>

definition foreign :: "identity \<Rightarrow> Node \<Rightarrow> nat \<Rightarrow> bool" where
  "foreign i n r = (\<not> id_isAdmin i \<and> OwnerOf n r \<noteq> [] \<and> OwnerOf n r \<noteq> id_username i)"

lemma foreign_no_access: "foreign i n r \<Longrightarrow> \<not> canAccessInstance (Some i) n r"
  by (simp add: foreign_def canAccessInstance_def Let_def)

lemma foreign_refused:
  "foreign i n r \<Longrightarrow> Find n u = Some r \<Longrightarrow> TrimSpace u = u \<Longrightarrow> u \<noteq> [] \<Longrightarrow>
   \<exists>m. requireInstanceAccess (Some i) n u = Inl (InstanceForbidden m)"
  by (simp add: requireInstanceAccess_def requireInstance_def foreign_def Let_def)

text \<open>
  C6. An instance that belongs to another account is closed to an account that is not an
  administrator: it is not listed, its details are refused, it can be neither changed nor deleted,
  and a deletion that names it deletes nothing at all.
\<close>

theorem foreign_instance_closed:
  assumes "\<not> id_isAdmin i" "Find n u = Some r" "OwnerOf n r \<noteq> []" "OwnerOf n r \<noteq> id_username i"
    "TrimSpace u = u" "u \<noteq> []" "u \<in> set uuids"
  shows "r \<notin> set (list_matched (Some i) n nameFilter statusFilter) \<and>
    reply_status (handleInstanceDetail (Some i) n u) = 403 \<and>
    (\<exists>m. handleInstanceUpdate (Some i) now y u body n = (n, Fail 403 m)) \<and>
    (\<exists>m. handleInstanceDelete (Some i) io (Some (uuids, del)) n = (n, Fail 403 m))"
proof -
  have f: "foreign i n r" using assms by (simp add: foreign_def)
  obtain m where m: "requireInstanceAccess (Some i) n u = Inl (InstanceForbidden m)"
    using foreign_refused [OF f assms(2,5,6)] by blast
  have "find (\<lambda>u. case Find n u of None \<Rightarrow> False | Some r \<Rightarrow> \<not> canAccessInstance (Some i) n r) uuids \<noteq> None"
    using assms(2,7) foreign_no_access [OF f] by (auto simp: find_None_iff)
  then show ?thesis
    using m list_matched_access [of "Some i" n nameFilter statusFilter] foreign_no_access [OF f]
    by (auto simp: handleInstanceDetail_def handleInstanceUpdate_def handleInstanceDelete_def
        writeInstanceAccessError_def list_all_iff)
qed

definition eve_identity :: identity where
  "eve_identity = \<lparr>id_username = ''eve'', id_isAdmin = False, id_via = ''token''\<rparr>"

theorem foreign_instance_witness:
  "0 \<notin> set (list_matched (Some eve_identity) sample_node [] []) \<and>
    reply_status (handleInstanceDetail (Some eve_identity) sample_node ''a'') = 403 \<and>
    (\<exists>m. handleInstanceUpdate (Some eve_identity) 5 9 ''a'' None sample_node = (sample_node, Fail 403 m)) \<and>
    (\<exists>m. handleInstanceDelete (Some eve_identity) \<lparr>io_kill = (\<lambda>_. None), io_forget = (\<lambda>_. None)\<rparr>
       (Some ([''b'', ''a''], True)) sample_node = (sample_node, Fail 403 m))"
proof -
  have "Find sample_node ''a'' = Some 0" "OwnerOf sample_node 0 = ''bob''"
    by (simp_all add: Find_def OwnerOf_def obj_def sample_node_def sample_instance_def)
  moreover have "TrimSpace ''a'' = ''a''" by code_simp
  ultimately show ?thesis by (intro foreign_instance_closed) (simp_all add: eve_identity_def)
qed

text \<open>
  Only an administrator decides who owns an instance: what another account creates is its
  own, and no update of its changes the owner of any instance.
\<close>

theorem owner_only_by_admin:
  assumes "\<not> id_isAdmin i"
  shows "(case snd (handleInstanceCreate (Some i) now y uid body n) of
            Fail c m \<Rightarrow> True | Reply inst \<Rightarrow> in_Owner inst = id_username i) \<and>
    OwnerOf (fst (handleInstanceUpdate (Some i) now y u body' n)) x = OwnerOf n x"
proof
  show "case snd (handleInstanceCreate (Some i) now y uid body n) of
      Fail c m \<Rightarrow> True | Reply inst \<Rightarrow> in_Owner inst = id_username i"
    using assms
    by (auto simp: handleInstanceCreate_def Let_def resolveInstanceOwner_def alloc_def Add_def obj_def markDirty_def
        split: option.splits sum.splits)
  show "OwnerOf (fst (handleInstanceUpdate (Some i) now y u body' n)) x = OwnerOf n x"
    using assms
    by (auto simp: handleInstanceUpdate_def Let_def requireAdmin_def UpdateInstance_def OwnerOf_def
        split: option.splits sum.splits)
qed

theorem owner_only_by_admin_witness:
  "(case snd (handleInstanceCreate (Some eve_identity) 5 9 ''new'' (Some (sample_config ''/games/x'', None)) sample_node) of
            Fail c m \<Rightarrow> True | Reply inst \<Rightarrow> in_Owner inst = id_username eve_identity) \<and>
    OwnerOf (fst (handleInstanceUpdate (Some eve_identity) 5 9 ''b'' (Some (sample_config ''/games/x'', Some ''bob'')) sample_node)) 1 =
      OwnerOf sample_node 1"
  by (rule owner_only_by_admin) (simp add: eve_identity_def)

subsection \<open>Deletion\<close>

text \<open>What removing instances with the given identifiers may change.\<close>

definition removed_only :: "string set \<Rightarrow> Node \<Rightarrow> Node \<Rightarrow> bool" where
  "removed_only us n m =
     (obj m = obj n \<and> nd_wd m = nd_wd n \<and> nd_DataDir m = nd_DataDir n \<and>
      filter (\<lambda>r. in_InstanceUuid (obj n r) \<notin> us) (nd_Instances m) =
      filter (\<lambda>r. in_InstanceUuid (obj n r) \<notin> us) (nd_Instances n) \<and>
      (\<exists>cs. nd_removed m = nd_removed n @ cs \<and>
        list_all (\<lambda>c. validateInstanceCwd (nd_wd n) (nd_DataDir n) c = None) cs))"

lemma removed_only_refl: "removed_only us n n"
  by (simp add: removed_only_def)

lemma removed_only_trans: "removed_only us n m \<Longrightarrow> removed_only us m k \<Longrightarrow> removed_only us n k"
  unfolding removed_only_def by fastforce

lemma removed_only_mono:
  assumes "removed_only us n m" "us \<subseteq> vs"
  shows "removed_only vs n m"
proof -
  have "filter (\<lambda>r. in_InstanceUuid (obj n r) \<notin> vs) xs =
      filter (\<lambda>r. in_InstanceUuid (obj n r) \<notin> vs) (filter (\<lambda>r. in_InstanceUuid (obj n r) \<notin> us) xs)" for xs
    using assms(2) by (auto simp: intro: filter_cong)
  with assms(1) show ?thesis unfolding removed_only_def by metis
qed

lemma filter_remove_first: "(\<And>x. P x \<Longrightarrow> \<not> Q x) \<Longrightarrow> filter Q (remove_first P xs) = filter Q xs"
  by (induction xs) auto

lemma kill_frame:
  "kill_for_removal io r n = (m, e) \<Longrightarrow> \<exists>a. m = n\<lparr>nd_alive := a\<rparr>"
proof -
  have same: "\<exists>a. n = n\<lparr>nd_alive := a\<rparr>" by (rule exI [of _ "nd_alive n"]) simp
  show "kill_for_removal io r n = (m, e) \<Longrightarrow> \<exists>a. m = n\<lparr>nd_alive := a\<rparr>"
    using same by (auto simp: kill_for_removal_def Let_def split: option.splits if_splits)
qed

lemma Remove_only: "removed_only {u} n (fst (Remove io u del n))"
proof (cases "Find n u")
  case None
  then show ?thesis by (simp add: Remove_def removed_only_refl)
next
  case (Some r)
  obtain k e where k: "kill_for_removal io r n = (k, e)" by fastforce
  then obtain a where a: "k = n\<lparr>nd_alive := a\<rparr>" using kill_frame by blast
  show ?thesis
  proof (cases e)
    case None
    then show ?thesis
      using Some k
      by (simp add: Remove_def Let_def a removed_only_def filter_remove_first markDirty_def)
  next
    case (Some x)
    then show ?thesis using \<open>Find n u = Some r\<close> k by (simp add: Remove_def Let_def a removed_only_def)
  qed
qed

lemma remove_all_only:
  "removed_only (set us) n (fst (remove_all io del us n)) \<and> set (snd (remove_all io del us n)) \<subseteq> set us"
proof (induction us arbitrary: n)
  case Nil
  then show ?case by (simp add: removed_only_refl)
next
  case (Cons u us)
  obtain m e where m: "Remove io u del n = (m, e)" by fastforce
  have "removed_only (set (u # us)) n m" using Remove_only [of u n io del] by (auto simp: m intro: removed_only_mono)
  moreover have "removed_only (set (u # us)) m (fst (remove_all io del us m))"
    using Cons.IH [of m] by (auto intro: removed_only_mono)
  ultimately have "removed_only (set (u # us)) n (fst (remove_all io del us m))" by (rule removed_only_trans)
  with Cons.IH [of m] show ?case by (cases e) (auto simp: m split: prod.splits)
qed

text \<open>
  A deletion is checked as a whole before anything happens: when it is refused the node is as before,
  and otherwise every named instance that exists was accessible to the caller, only named
  instances leave the registry, no instance changes, and every directory whose files are deleted passes
  the checks of a working directory.
\<close>

theorem delete_checked_as_a_whole:
  "case handleInstanceDelete ident io body n of
     (m, Fail c e) \<Rightarrow> m = n
   | (m, Reply deleted) \<Rightarrow>
       (\<exists>uuids del. body = Some (uuids, del) \<and> set deleted \<subseteq> set uuids \<and> removed_only (set uuids) n m \<and>
          list_all (\<lambda>u. case Find n u of None \<Rightarrow> True | Some r \<Rightarrow> canAccessInstance ident n r) uuids)"
proof (cases body)
  case None
  then show ?thesis by (simp add: handleInstanceDelete_def)
next
  case (Some b)
  obtain uuids del where b: "b = (uuids, del)" by (cases b)
  let ?bad = "\<lambda>u. case Find n u of None \<Rightarrow> False | Some r \<Rightarrow> \<not> canAccessInstance ident n r"
  show ?thesis
  proof (cases "find ?bad uuids")
    case None
    then have "list_all (\<lambda>u. case Find n u of None \<Rightarrow> True | Some r \<Rightarrow> canAccessInstance ident n r) uuids"
      by (auto simp: find_None_iff list_all_iff split: option.splits)
    then show ?thesis
      using None remove_all_only [of uuids n io del]
      by (auto simp: handleInstanceDelete_def Some b split: prod.splits)
  next
    case (Some x)
    then show ?thesis by (simp add: handleInstanceDelete_def \<open>body = Some b\<close> b)
  qed
qed

end
