(* ===== verification/Lifecycle.thy ===== *)
theory Lifecycle
  imports Daemon
begin

text \<open>
  The life of an instance's process (cmd/irix-node/instance.go: \<open>startInstance\<close>, \<open>stopInstance\<close>,
  \<open>autoRestart\<close>, \<open>handleInstanceKill\<close>; daemon.go: \<open>Remove\<close>; daemon_lifecycle.go: the start gate) as a step
  relation. Each function is cut where it gives up a lock: what runs under one lock is one
  step, a pending call remembers where it stands, and the pending calls of all requests and
  watchers interleave freely. What the operating system answers is part of the event. Instants
  are nanoseconds.
\<close>

subsection \<open>The start gate\<close>

record operationGate =
  og_closed :: bool
  og_count :: nat

definition gate_enter :: "operationGate \<Rightarrow> operationGate \<times> bool" where
  "gate_enter g = (if og_closed g then (g, False) else (g\<lparr>og_count := og_count g + 1\<rparr>, True))"

definition gate_leave :: "operationGate \<Rightarrow> operationGate" where
  "gate_leave g = g\<lparr>og_count := og_count g - 1\<rparr>"

definition gate_seal :: "operationGate \<Rightarrow> operationGate" where
  "gate_seal g = g\<lparr>og_closed := True\<rparr>"

subsection \<open>The restart guard\<close>

definition restart_window :: int where
  "restart_window = 10 * 10 ^ 9"

text \<open>The part of \<open>autoRestart\<close> under the instance's lock: the instance, and whether to start it.\<close>

definition restart_guard :: "instant \<Rightarrow> Instance \<Rightarrow> Instance \<times> bool" where
  "restart_guard now i =
     (let i = (if time_Sub now (in_arWindowStart i) > restart_window
               then i\<lparr>in_arWindowStart := now, in_arAttempts := 0\<rparr> else i);
          i = i\<lparr>in_arAttempts := in_arAttempts i + 1\<rparr>
      in if in_arAttempts i > 3 then (i\<lparr>in_arWindowStart := zero_time, in_arAttempts := 0\<rparr>, False)
         else (i, True))"

subsection \<open>Pending calls\<close>

text \<open>
  Where a call stands. \<open>StartCall r\<close>: \<open>startInstance\<close> entered. \<open>Starting r\<close>: busy, the process
  not yet started. \<open>Spawned r p\<close>: process \<open>p\<close> runs, not yet known to the instance. \<open>Published r p\<close>:
  \<open>inst.Proc = p\<close>. \<open>Announced r p\<close>: status running. \<open>Unbusied r p\<close>: busy mark given up early.
  \<open>StartExit r\<close>: the deferred release of the busy mark is due. \<open>Watching r p\<close>: the exit watcher.
  \<open>RestartCall r\<close>: the watcher calls \<open>autoRestart\<close>. \<open>StopCall\<close> to \<open>StopExit\<close>: \<open>stopInstance\<close>.
  \<open>KillCall\<close> to \<open>KillFail\<close>: \<open>handleInstanceKill\<close>. \<open>RemoveCall\<close> to \<open>RemoveUnlist\<close>: \<open>Remove\<close>.
\<close>

datatype pending =
    StartCall nat | Starting nat | Spawned nat nat | Published nat nat | Announced nat nat
  | Unbusied nat nat | StartExit nat | Watching nat nat | RestartCall nat
  | StopCall nat | StopWait nat nat | StopRestore nat nat | StopDone nat | StopExit nat
  | KillCall nat | KillTake nat | KillWait nat nat | KillRestore nat nat | KillFail nat | KillDone nat
  | RemoveCall string | RemoveKill string nat nat | RemoveUnlist string

record World =
  wd_node :: Node
  wd_gate :: operationGate
  wd_cancelled :: bool
  wd_nextpid :: nat
  wd_spawned :: "(nat \<times> nat) list"
  wd_threads :: "pending list"

text \<open>The operating system's answer: success, failure, or a second kind of failure.\<close>

datatype outcome = Ok | Err | Err2

definition wobj :: "World \<Rightarrow> nat \<Rightarrow> Instance" where
  "wobj w r = obj (wd_node w) r"

definition upd :: "nat \<Rightarrow> (Instance \<Rightarrow> Instance) \<Rightarrow> World \<Rightarrow> World" where
  "upd r f w = w\<lparr>wd_node := set_obj r f (wd_node w)\<rparr>"

definition status :: "instant \<Rightarrow> int \<Rightarrow> nat \<Rightarrow> World \<Rightarrow> World" where
  "status now s r w = w\<lparr>wd_node := SetStatus (now div 10 ^ 6) s r (wd_node w)\<rparr>"

definition palive :: "World \<Rightarrow> nat \<Rightarrow> bool" where
  "palive w p = nd_alive (wd_node w) p"

definition set_alive :: "nat \<Rightarrow> bool \<Rightarrow> World \<Rightarrow> World" where
  "set_alive p b w = w\<lparr>wd_node := (wd_node w)\<lparr>nd_alive := (nd_alive (wd_node w))(p := b)\<rparr>\<rparr>"

subsection \<open>Steps\<close>

definition start_begin :: "nat \<Rightarrow> World \<Rightarrow> World \<times> pending list" where
  "start_begin r w =
     (let (g, ok) = gate_enter (wd_gate w) in
      if \<not> ok then (w, [])
      else if in_Busy (wobj w r) then (w, [])
      else if (case in_Proc (wobj w r) of None \<Rightarrow> False | Some p \<Rightarrow> palive w p) then (w, [])
      else (upd r (\<lambda>i. i\<lparr>in_Busy := True, in_Status := StatusStarting\<rparr>) (w\<lparr>wd_gate := g\<rparr>), [Starting r]))"

definition start_spawn :: "outcome \<Rightarrow> instant \<Rightarrow> nat \<Rightarrow> World \<Rightarrow> World \<times> pending list" where
  "start_spawn oc now r w =
     (if oc = Ok then
        (set_alive (wd_nextpid w) True
           (w\<lparr>wd_nextpid := Suc (wd_nextpid w), wd_spawned := wd_spawned w @ [(r, wd_nextpid w)]\<rparr>),
         [Spawned r (wd_nextpid w)])
      else (status now StatusStopped r w, [StartExit r]))"

text \<open>\<open>recordProcess\<close> failed while the process runs: it is killed (\<open>Err2\<close>: the kill fails too, unnoticed).\<close>

definition start_publish :: "outcome \<Rightarrow> instant \<Rightarrow> nat \<Rightarrow> nat \<Rightarrow> World \<Rightarrow> World \<times> pending list" where
  "start_publish oc now r p w =
     (if oc \<noteq> Ok \<and> palive w p then
        (status now StatusStopped r (if oc = Err then set_alive p False w else w), [StartExit r])
      else (upd r (\<lambda>i. i\<lparr>in_Proc := Some p, in_Started := in_Started i + 1\<rparr>) w, [Published r p]))"

definition watch_exit :: "outcome \<Rightarrow> nat \<Rightarrow> nat \<Rightarrow> World \<Rightarrow> (World \<times> pending list) option" where
  "watch_exit oc r p w =
     (if oc = Ok \<and> \<not> palive w p then
        (let wasProc = (in_Proc (wobj w r) = Some p);
             w = (if wasProc then upd r (\<lambda>i. i\<lparr>in_Status := StatusStopped\<rparr>) w else w) in
         Some (w, if wasProc \<and> ev_AutoRestart (cf_EventTask (in_Config (wobj w r))) then [RestartCall r] else []))
      else if oc \<noteq> Ok \<and> wd_cancelled w then Some (w, [])
      else None)"

definition auto_restart :: "instant \<Rightarrow> nat \<Rightarrow> World \<Rightarrow> World \<times> pending list" where
  "auto_restart now r w =
     (if nd_vault_enabled (wd_node w) \<and> \<not> (nd_vault_initialized (wd_node w) \<and> nd_vault_key (wd_node w)) then (w, [])
      else
        let (i, go) = restart_guard now (wobj w r) in
        (upd r (\<lambda>_. i) w, if go then [StartCall r] else []))"

definition stop_begin :: "nat \<Rightarrow> World \<Rightarrow> World \<times> pending list" where
  "stop_begin r w =
     (if in_Busy (wobj w r) then (w, [])
      else
        (case in_Proc (wobj w r) of
           None \<Rightarrow> (w, [])
         | Some p \<Rightarrow>
             if \<not> palive w p then (w, [])
             else (upd r (\<lambda>i. i\<lparr>in_Busy := True, in_Status := StatusStopping, in_Proc := None\<rparr>) w, [StopWait r p])))"

text \<open>\<open>proc.Stop\<close> returned: without error the process has exited or was killed.\<close>

definition stop_wait :: "outcome \<Rightarrow> nat \<Rightarrow> nat \<Rightarrow> World \<Rightarrow> World \<times> pending list" where
  "stop_wait oc r p w =
     (if oc = Ok then (set_alive p False w, [StopDone r])
      else if palive w p then (w, [StopRestore r p])
      else (w, [StopDone r]))"

definition kill_take :: "nat \<Rightarrow> World \<Rightarrow> World \<times> pending list" where
  "kill_take r w =
     (let proc = in_Proc (wobj w r); w = upd r (\<lambda>i. i\<lparr>in_Proc := None\<rparr>) w in
      (case proc of
         None \<Rightarrow> (w, [KillDone r])
       | Some p \<Rightarrow> if palive w p then (w, [KillWait r p]) else (w, [KillDone r])))"

text \<open>\<open>Err2\<close>: the process was killed but its record could not be removed; the handler returns.\<close>

definition kill_wait :: "outcome \<Rightarrow> nat \<Rightarrow> nat \<Rightarrow> World \<Rightarrow> World \<times> pending list" where
  "kill_wait oc r p w =
     (case oc of
        Ok \<Rightarrow> (set_alive p False w, [KillDone r])
      | Err \<Rightarrow> (w, [KillRestore r p])
      | Err2 \<Rightarrow> (set_alive p False w, []))"

definition remove_begin :: "string \<Rightarrow> World \<Rightarrow> World \<times> pending list" where
  "remove_begin u w =
     (case Find (wd_node w) u of
        None \<Rightarrow> (w, [])
      | Some r \<Rightarrow>
          (case in_Proc (wobj w r) of
             None \<Rightarrow> (w, [RemoveUnlist u])
           | Some p \<Rightarrow> if in_Status (wobj w r) \<noteq> StatusStopped then (w, [RemoveKill u r p]) else (w, [RemoveUnlist u])))"

definition remove_kill :: "outcome \<Rightarrow> string \<Rightarrow> nat \<Rightarrow> World \<Rightarrow> World \<times> pending list" where
  "remove_kill oc u p w =
     (case oc of
        Ok \<Rightarrow> (set_alive p False w, [RemoveUnlist u])
      | Err \<Rightarrow> (w, [])
      | Err2 \<Rightarrow> (set_alive p False w, []))"

definition remove_unlist :: "string \<Rightarrow> World \<Rightarrow> World" where
  "remove_unlist u w =
     w\<lparr>wd_node := markDirty ((wd_node w)\<lparr>nd_Instances :=
         remove_first (\<lambda>x. in_InstanceUuid (wobj w x) = u) (nd_Instances (wd_node w))\<rparr>)\<rparr>"

text \<open>One step of a pending call: the world after it and what is then pending of the call.\<close>

fun advance :: "outcome \<Rightarrow> instant \<Rightarrow> pending \<Rightarrow> World \<Rightarrow> (World \<times> pending list) option" where
  "advance oc now (StartCall r) w = Some (start_begin r w)"
| "advance oc now (Starting r) w = Some (start_spawn oc now r w)"
| "advance oc now (Spawned r p) w = Some (start_publish oc now r p w)"
| "advance oc now (Published r p) w = Some (status now StatusRunning r w, [Announced r p])"
| "advance oc now (Announced r p) w = Some (upd r (\<lambda>i. i\<lparr>in_Busy := False\<rparr>) w, [Unbusied r p])"
| "advance oc now (Unbusied r p) w = Some (w, [Watching r p, StartExit r])"
| "advance oc now (StartExit r) w =
     Some (upd r (\<lambda>i. i\<lparr>in_Busy := False\<rparr>) (w\<lparr>wd_gate := gate_leave (wd_gate w)\<rparr>), [])"
| "advance oc now (Watching r p) w = watch_exit oc r p w"
| "advance oc now (RestartCall r) w = Some (auto_restart now r w)"
| "advance oc now (StopCall r) w = Some (stop_begin r w)"
| "advance oc now (StopWait r p) w = Some (stop_wait oc r p w)"
| "advance oc now (StopRestore r p) w =
     Some (upd r (\<lambda>i. i\<lparr>in_Proc := Some p, in_Status := StatusRunning\<rparr>) w, [StopExit r])"
| "advance oc now (StopDone r) w = Some (status now StatusStopped r w, [StopExit r])"
| "advance oc now (StopExit r) w = Some (upd r (\<lambda>i. i\<lparr>in_Busy := False\<rparr>) w, [])"
| "advance oc now (KillCall r) w = Some (status now StatusStopping r w, [KillTake r])"
| "advance oc now (KillTake r) w = Some (kill_take r w)"
| "advance oc now (KillWait r p) w = Some (kill_wait oc r p w)"
| "advance oc now (KillRestore r p) w =
     Some (upd r (\<lambda>i. if in_Proc i = None then i\<lparr>in_Proc := Some p\<rparr> else i) w, [KillFail r])"
| "advance oc now (KillFail r) w = Some (status now StatusRunning r w, [])"
| "advance oc now (KillDone r) w = Some (status now StatusStopped r w, [])"
| "advance oc now (RemoveCall u) w = Some (remove_begin u w)"
| "advance oc now (RemoveKill u r p) w = Some (remove_kill oc u p w)"
| "advance oc now (RemoveUnlist u) w = Some (remove_unlist u w, [])"

text \<open>
  Events: a request arrives, a pending call (by position) makes a step, a process exits, the
  gate is sealed, the background context is cancelled.
\<close>

datatype event =
    Start nat | Stop nat | Kill nat | Delete string
  | Step nat outcome instant
  | Exit nat
  | Seal | Cancel

definition spawn_thread :: "pending \<Rightarrow> World \<Rightarrow> World" where
  "spawn_thread t w = w\<lparr>wd_threads := wd_threads w @ [t]\<rparr>"

fun step :: "event \<Rightarrow> World \<Rightarrow> World option" where
  "step (Start r) w = Some (spawn_thread (StartCall r) w)"
| "step (Stop r) w = Some (spawn_thread (StopCall r) w)"
| "step (Kill r) w = Some (spawn_thread (KillCall r) w)"
| "step (Delete u) w = Some (spawn_thread (RemoveCall u) w)"
| "step (Step k oc now) w =
     (if k < length (wd_threads w) then
        (case advance oc now (wd_threads w ! k) w of
           None \<Rightarrow> None
         | Some (w', ts) \<Rightarrow> Some (w'\<lparr>wd_threads := take k (wd_threads w) @ ts @ drop (Suc k) (wd_threads w)\<rparr>))
      else None)"
| "step (Exit p) w = (if palive w p then Some (set_alive p False w) else None)"
| "step Seal w = Some (w\<lparr>wd_gate := gate_seal (wd_gate w)\<rparr>)"
| "step Cancel w = Some (w\<lparr>wd_cancelled := True\<rparr>)"

fun run :: "event list \<Rightarrow> World \<Rightarrow> World option" where
  "run [] w = Some w"
| "run (e # es) w = (case step e w of None \<Rightarrow> None | Some w' \<Rightarrow> run es w')"

text \<open>A node that has just come up: its instances are stopped, nothing runs.\<close>

definition fresh_world :: "Node \<Rightarrow> World" where
  "fresh_world n =
     \<lparr>wd_node = n\<lparr>nd_alive := (\<lambda>_. False), nd_objs := (\<lambda>r. (nd_objs n r)\<lparr>in_Proc := None, in_Busy := False,
         in_Status := StatusStopped\<rparr>)\<rparr>,
      wd_gate = \<lparr>og_closed = False, og_count = 0\<rparr>, wd_cancelled = False, wd_nextpid = 0, wd_spawned = [], wd_threads = []\<rparr>"

inductive reachable :: "World \<Rightarrow> bool" where
  fresh: "reachable (fresh_world n)"
| step: "reachable w \<Longrightarrow> step e w = Some w' \<Longrightarrow> reachable w'"

subsection \<open>Frames\<close>

lemma upd_frame [simp]:
  "wobj (upd r f w) x = (if x = r then f (wobj w r) else wobj w x)" "palive (upd r f w) = palive w"
  "wd_gate (upd r f w) = wd_gate w" "wd_cancelled (upd r f w) = wd_cancelled w"
  "wd_nextpid (upd r f w) = wd_nextpid w" "wd_spawned (upd r f w) = wd_spawned w"
  "wd_threads (upd r f w) = wd_threads w" "nd_Instances (wd_node (upd r f w)) = nd_Instances (wd_node w)"
  by (simp_all add: wobj_def upd_def palive_def fun_eq_iff) (simp add: set_obj_def)

lemma status_upd:
  "status now s r = upd r (\<lambda>i. i\<lparr>in_Status := s, in_Config := (in_Config i)\<lparr>cf_LastDatetime := now div 10 ^ 6\<rparr>\<rparr>)"
  by (simp add: fun_eq_iff status_def upd_def SetStatus_def)

lemma status_frame [simp]:
  "wobj (status now s r w) x =
     (if x = r then (wobj w r)\<lparr>in_Status := s, in_Config := (in_Config (wobj w r))\<lparr>cf_LastDatetime := now div 10 ^ 6\<rparr>\<rparr>
      else wobj w x)"
  "palive (status now s r w) = palive w" "wd_gate (status now s r w) = wd_gate w"
  "wd_cancelled (status now s r w) = wd_cancelled w" "wd_nextpid (status now s r w) = wd_nextpid w"
  "wd_spawned (status now s r w) = wd_spawned w" "wd_threads (status now s r w) = wd_threads w"
  "nd_Instances (wd_node (status now s r w)) = nd_Instances (wd_node w)"
  by (simp_all add: status_upd)

lemma set_alive_frame [simp]:
  "wobj (set_alive p b w) = wobj w" "palive (set_alive p b w) q = (if q = p then b else palive w q)"
  "wd_gate (set_alive p b w) = wd_gate w" "wd_cancelled (set_alive p b w) = wd_cancelled w"
  "wd_nextpid (set_alive p b w) = wd_nextpid w" "wd_spawned (set_alive p b w) = wd_spawned w"
  "wd_threads (set_alive p b w) = wd_threads w" "nd_Instances (wd_node (set_alive p b w)) = nd_Instances (wd_node w)"
  by (simp_all add: wobj_def set_alive_def palive_def fun_eq_iff)

lemma world_frame [simp]:
  "wobj (w\<lparr>wd_gate := g\<rparr>) = wobj w" "wobj (w\<lparr>wd_threads := ts\<rparr>) = wobj w" "wobj (w\<lparr>wd_cancelled := c\<rparr>) = wobj w"
  "wobj (w\<lparr>wd_nextpid := n, wd_spawned := sp\<rparr>) = wobj w"
  "palive (w\<lparr>wd_gate := g\<rparr>) = palive w" "palive (w\<lparr>wd_threads := ts\<rparr>) = palive w"
  "palive (w\<lparr>wd_cancelled := c\<rparr>) = palive w" "palive (w\<lparr>wd_nextpid := n, wd_spawned := sp\<rparr>) = palive w"
  by (simp_all add: wobj_def palive_def fun_eq_iff)

lemma unlist_frame [simp]:
  "wobj (remove_unlist u w) = wobj w" "palive (remove_unlist u w) = palive w"
  "wd_gate (remove_unlist u w) = wd_gate w" "wd_cancelled (remove_unlist u w) = wd_cancelled w"
  "wd_nextpid (remove_unlist u w) = wd_nextpid w" "wd_spawned (remove_unlist u w) = wd_spawned w"
  "wd_threads (remove_unlist u w) = wd_threads w"
  by (simp_all add: wobj_def remove_unlist_def palive_def fun_eq_iff markDirty_def obj_def)

lemma vault_frame [simp]:
  "nd_vault_enabled (wd_node (upd r f w)) = nd_vault_enabled (wd_node w)"
  "nd_vault_enabled (wd_node (status now s r w)) = nd_vault_enabled (wd_node w)"
  "nd_vault_enabled (wd_node (set_alive p b w)) = nd_vault_enabled (wd_node w)"
  "nd_vault_enabled (wd_node (remove_unlist u w)) = nd_vault_enabled (wd_node w)"
  by (simp_all add: status_upd upd_def set_obj_def set_alive_def remove_unlist_def markDirty_def)

lemma unlist_Instances [simp]:
  "nd_Instances (wd_node (remove_unlist u w)) =
   remove_first (\<lambda>x. in_InstanceUuid (wobj w x) = u) (nd_Instances (wd_node w))"
  by (simp add: remove_unlist_def)

lemmas step_defs =
  start_begin_def start_spawn_def start_publish_def watch_exit_def auto_restart_def stop_begin_def
  stop_wait_def kill_take_def kill_wait_def remove_begin_def remove_kill_def

subsection \<open>No exit goes unnoticed\<close>

text \<open>The process a pending call carries, and the calls that will watch, or hold on to, a process.\<close>

fun pid_of :: "pending \<Rightarrow> nat option" where
  "pid_of (Spawned r p) = Some p"
| "pid_of (Published r p) = Some p"
| "pid_of (Announced r p) = Some p"
| "pid_of (Unbusied r p) = Some p"
| "pid_of (Watching r p) = Some p"
| "pid_of (StopWait r p) = Some p"
| "pid_of (StopRestore r p) = Some p"
| "pid_of (KillWait r p) = Some p"
| "pid_of (KillRestore r p) = Some p"
| "pid_of (RemoveKill u r p) = Some p"
| "pid_of _ = None"

definition watched :: "pending set \<Rightarrow> nat \<Rightarrow> nat \<Rightarrow> bool" where
  "watched T r p = (Published r p \<in> T \<or> Announced r p \<in> T \<or> Unbusied r p \<in> T \<or> Watching r p \<in> T)"

definition held :: "World \<Rightarrow> pending set \<Rightarrow> nat \<Rightarrow> nat \<Rightarrow> bool" where
  "held w T r p =
     (in_Proc (wobj w r) = Some p \<or> StopWait r p \<in> T \<or> StopRestore r p \<in> T \<or> KillWait r p \<in> T \<or> KillRestore r p \<in> T)"

definition life_inv :: "World \<Rightarrow> pending set \<Rightarrow> bool" where
  "life_inv w T =
     ((\<forall>r p. held w T r p \<longrightarrow> palive w p \<longrightarrow> \<not> wd_cancelled w \<longrightarrow> watched T r p) \<and>
      (\<forall>r p. in_Proc (wobj w r) = Some p \<longrightarrow> p < wd_nextpid w) \<and>
      (\<forall>t \<in> T. \<forall>p. pid_of t = Some p \<longrightarrow> p < wd_nextpid w))"

text \<open>What a step must do to keep the invariant.\<close>

lemma life_inv_step:
  assumes "life_inv w S" "wd_cancelled w \<longrightarrow> wd_cancelled w'" "wd_nextpid w \<le> wd_nextpid w'"
    "\<forall>p. palive w' p \<longrightarrow> palive w p \<or> p = wd_nextpid w"
    "\<forall>r p. held w' S' r p \<longrightarrow> held w S r p \<or> watched S' r p"
    "\<forall>r p. watched S r p \<longrightarrow> watched S' r p \<or> \<not> palive w' p \<or> wd_cancelled w'"
    "\<forall>r p. in_Proc (wobj w' r) = Some p \<longrightarrow> in_Proc (wobj w r) = Some p \<or> (\<exists>t \<in> S. pid_of t = Some p)"
    "\<forall>t \<in> S'. \<forall>p. pid_of t = Some p \<longrightarrow>
       (\<exists>t \<in> S. pid_of t = Some p) \<or> (\<exists>r. in_Proc (wobj w r) = Some p) \<or> p < wd_nextpid w'"
  shows "life_inv w' S'"
proof -
  have old: "in_Proc (wobj w r) = Some p \<Longrightarrow> p < wd_nextpid w" "t \<in> S \<Longrightarrow> pid_of t = Some p \<Longrightarrow> p < wd_nextpid w"
    for r p t using assms(1) by (auto simp: life_inv_def)
  have "held w S r p \<Longrightarrow> p < wd_nextpid w" for r p
    using old unfolding held_def by (metis pid_of.simps)
  then have "watched S' r p" if "held w' S' r p" "palive w' p" "\<not> wd_cancelled w'" for r p
    using that assms(1,2,4,5,6) unfolding life_inv_def by (metis less_irrefl)
  moreover have "p < wd_nextpid w'" if "in_Proc (wobj w' r) = Some p" for r p
    using assms(3,7) old that by (meson less_le_trans)
  moreover have "p < wd_nextpid w'" if "t \<in> S'" "pid_of t = Some p" for t p
    using assms(3,8) old that by (meson less_le_trans)
  ultimately show ?thesis unfolding life_inv_def by blast
qed

lemma advance_life_inv:
  assumes "advance oc now t w = Some (w', ts)" "life_inv w (insert t T)"
  shows "life_inv w' (set ts \<union> T)"
proof (rule life_inv_step [OF assms(2)])
  show "wd_cancelled w \<longrightarrow> wd_cancelled w'" "wd_nextpid w \<le> wd_nextpid w'"
    "\<forall>p. palive w' p \<longrightarrow> palive w p \<or> p = wd_nextpid w"
    using assms(1) by (cases t; auto simp: step_defs Let_def split: if_splits option.splits outcome.splits prod.splits)+
  show "\<forall>r p. held w' (set ts \<union> T) r p \<longrightarrow> held w (insert t T) r p \<or> watched (set ts \<union> T) r p"
    using assms(1)
    by (cases t; auto simp: step_defs Let_def held_def watched_def restart_guard_def
        split: if_splits option.splits outcome.splits prod.splits)
  show "\<forall>r p. watched (insert t T) r p \<longrightarrow> watched (set ts \<union> T) r p \<or> \<not> palive w' p \<or> wd_cancelled w'"
    using assms(1) by (cases t; auto simp: watched_def watch_exit_def Let_def split: if_splits)
  show "\<forall>r p. in_Proc (wobj w' r) = Some p \<longrightarrow> in_Proc (wobj w r) = Some p \<or> (\<exists>t \<in> insert t T. pid_of t = Some p)"
    using assms(1)
    by (cases t; auto simp: step_defs Let_def restart_guard_def split: if_splits option.splits outcome.splits prod.splits)
  show "\<forall>t' \<in> set ts \<union> T. \<forall>p. pid_of t' = Some p \<longrightarrow>
      (\<exists>t \<in> insert t T. pid_of t = Some p) \<or> (\<exists>r. in_Proc (wobj w r) = Some p) \<or> p < wd_nextpid w'"
    using assms(1)
    by (cases t; auto simp: step_defs Let_def split: if_splits option.splits outcome.splits prod.splits)
qed

lemma advance_threads: "advance oc now t w = Some (w', ts) \<Longrightarrow> wd_threads w' = wd_threads w"
  by (cases t) (auto simp: step_defs Let_def split: if_splits option.splits outcome.splits prod.splits)

lemma life_inv_world [simp]: "life_inv (w\<lparr>wd_threads := ts\<rparr>) T = life_inv w T"
  by (simp add: life_inv_def held_def)

lemma life_inv_add:
  "life_inv w T \<Longrightarrow> pid_of t = None \<Longrightarrow> life_inv w (insert t T)"
  by (rule life_inv_step [of w T]) (auto simp: held_def watched_def)

lemma step_life_inv:
  assumes "life_inv w (set (wd_threads w))" "step e w = Some w'"
  shows "life_inv w' (set (wd_threads w'))"
proof (cases e)
  case (Step k oc now)
  then obtain w1 ts where k: "k < length (wd_threads w)" "advance oc now (wd_threads w ! k) w = Some (w1, ts)"
    "w' = w1\<lparr>wd_threads := take k (wd_threads w) @ ts @ drop (Suc k) (wd_threads w)\<rparr>"
    using assms(2) by (auto split: if_splits option.splits)
  define T where "T = set (take k (wd_threads w)) \<union> set (drop (Suc k) (wd_threads w))"
  have "set (wd_threads w) = insert (wd_threads w ! k) T"
    unfolding T_def by (subst id_take_nth_drop [OF k(1)]) auto
  then have "life_inv w1 (set ts \<union> T)" using advance_life_inv [OF k(2), of T] assms(1) by simp
  then show ?thesis using k(3) by (simp add: T_def Un_left_commute)
next
  case (Exit p)
  with assms show ?thesis
    by (intro life_inv_step [OF assms(1)]) (auto simp: held_def watched_def split: if_splits)
next
  case Seal
  with assms show ?thesis by (intro life_inv_step [OF assms(1)]) (auto simp: held_def)
next
  case Cancel
  with assms show ?thesis by (intro life_inv_step [OF assms(1)]) (auto simp: held_def)
qed (use assms life_inv_add in \<open>auto simp: spawn_thread_def\<close>)

lemma reachable_life_inv: "reachable w \<Longrightarrow> life_inv w (set (wd_threads w))"
proof (induction rule: reachable.induct)
  case (fresh n)
  show ?case by (simp add: life_inv_def held_def fresh_world_def wobj_def obj_def)
next
  case (step w e w')
  then show ?case using step_life_inv by blast
qed

lemma run_reachable: "reachable w \<Longrightarrow> run es w = Some w' \<Longrightarrow> reachable w'"
  by (induction es arbitrary: w) (auto split: option.splits intro: reachable.step)

text \<open>
  C7. No exit of an instance's process goes unnoticed: whatever starts, stops, kills and
  deletions interleave, a living process that an instance refers to has its exit watcher, or
  the call that started it is still on the way to registering one, as long as the node is not
  shutting down.
\<close>

theorem managed_process_is_watched:
  assumes "reachable w" "in_Proc (wobj w r) = Some p" "palive w p" "\<not> wd_cancelled w"
  shows "Watching r p \<in> set (wd_threads w) \<or> Published r p \<in> set (wd_threads w) \<or>
    Announced r p \<in> set (wd_threads w) \<or> Unbusied r p \<in> set (wd_threads w)"
  using reachable_life_inv [OF assms(1)] assms(2-4) by (auto simp: life_inv_def held_def watched_def)

definition start_steps :: "nat \<Rightarrow> event list" where
  "start_steps r = [Start r, Step 0 Ok 0, Step 0 Ok 0, Step 0 Ok 0, Step 0 Ok 0, Step 0 Ok 0, Step 0 Ok 0, Step 1 Ok 0]"

lemma fresh_fields [simp]:
  "in_Proc (wobj (fresh_world n) r) = None" "\<not> in_Busy (wobj (fresh_world n) r)" "\<not> palive (fresh_world n) p"
  "wd_gate (fresh_world n) = \<lparr>og_closed = False, og_count = 0\<rparr>" "wd_threads (fresh_world n) = []"
  "wd_nextpid (fresh_world n) = 0" "wd_spawned (fresh_world n) = []" "\<not> wd_cancelled (fresh_world n)"
  "nd_Instances (wd_node (fresh_world n)) = nd_Instances n"
  by (simp_all add: fresh_world_def wobj_def palive_def obj_def)

theorem managed_process_witness:
  "\<exists>w. run (start_steps 0) (fresh_world sample_node) = Some w \<and> in_Proc (wobj w 0) = Some 0 \<and> palive w 0 \<and>
    (Watching 0 0 \<in> set (wd_threads w) \<or> Published 0 0 \<in> set (wd_threads w) \<or>
     Announced 0 0 \<in> set (wd_threads w) \<or> Unbusied 0 0 \<in> set (wd_threads w))"
proof -
  have "\<exists>w. run (start_steps 0) (fresh_world sample_node) = Some w \<and> in_Proc (wobj w 0) = Some 0 \<and> palive w 0 \<and>
      \<not> wd_cancelled w"
    by (simp add: start_steps_def spawn_thread_def start_begin_def start_spawn_def start_publish_def gate_enter_def)
  then obtain w where w: "run (start_steps 0) (fresh_world sample_node) = Some w" "in_Proc (wobj w 0) = Some 0"
    "palive w 0" "\<not> wd_cancelled w" by blast
  from managed_process_is_watched [OF run_reachable [OF reachable.fresh w(1)] w(2-4)] w show ?thesis by blast
qed

subsection \<open>Two processes of one instance\<close>

definition double_start :: "nat \<Rightarrow> event list" where
  "double_start r =
     [Start r, Step 0 Ok 0, Step 0 Ok 0, Step 0 Ok 0, Step 0 Ok 0, Step 0 Ok 0,
      Stop r, Step 1 Ok 0,
      Step 0 Ok 0, Step 1 Ok 0,
      Start r, Step 2 Ok 0, Step 2 Ok 0]"

text \<open>
  The busy mark does not keep operations apart: \<open>startInstance\<close> gives it up before it
  registers its watcher and once more when it returns. A stop that comes in between loses its
  mark to that second release, so a new start finds the instance idle while its first process
  is still stopping: two processes of the instance run at once. This happens to every instance of every
  node, with no error of the operating system.
\<close>

theorem two_processes_at_once:
  "\<exists>w. run (double_start r) (fresh_world n) = Some w \<and>
     (r, 0) \<in> set (wd_spawned w) \<and> palive w 0 \<and> (r, 1) \<in> set (wd_spawned w) \<and> palive w 1 \<and>
     StopWait r 0 \<in> set (wd_threads w) \<and> Spawned r 1 \<in> set (wd_threads w)"
  by (simp add: double_start_def spawn_thread_def start_begin_def start_spawn_def start_publish_def gate_enter_def
      gate_leave_def stop_begin_def)

subsection \<open>Deleting an instance that restarts itself\<close>

definition restarting_node :: Node where
  "restarting_node =
     base_node\<lparr>nd_objs := (\<lambda>_. undefined)
       (0 := (sample_instance ''a'' ''bob'')
          \<lparr>in_Config := (sample_config ''/games/mc'')\<lparr>cf_EventTask := \<lparr>ev_AutoStart = False, ev_AutoRestart = True, ev_Ignore = False\<rparr>\<rparr>\<rparr>),
      nd_next := 1, nd_Instances := [0]\<rparr>"

definition delete_running :: "event list" where
  "delete_running =
     start_steps 0 @
     [Delete ''a'', Step 1 Ok 0, Step 1 Ok 0, Step 1 Ok 0] @
     [Step 0 Ok (10 ^ 9), Step 0 Ok (10 ^ 9), Step 0 Ok (10 ^ 9), Step 0 Ok (10 ^ 9)]"

text \<open>
  Deleting a running instance with automatic restart brings its process back: \<open>Remove\<close> kills
  the process without taking it from the instance, the watcher takes the exit for a crash and
  starts the instance again. The registry is then empty and the process runs, out of reach of
  every operation that looks instances up.
\<close>

theorem deleted_instance_restarts:
  "\<exists>w. run delete_running (fresh_world restarting_node) = Some w \<and> nd_Instances (wd_node w) = [] \<and>
     (0, 1) \<in> set (wd_spawned w) \<and> palive w 1 \<and> \<not> palive w 0 \<and> Find (wd_node w) ''a'' = None"
proof -
  define w0 where "w0 = fresh_world restarting_node"
  have o: "in_InstanceUuid (obj (wd_node w) x) = in_InstanceUuid (wobj w x)" for w x by (simp add: wobj_def)
  have w0: "nd_Instances (wd_node w0) = [0]" "in_InstanceUuid (wobj w0 0) = ''a''"
    "ev_AutoRestart (cf_EventTask (in_Config (wobj w0 0)))" "\<not> nd_vault_enabled (wd_node w0)"
    "in_arWindowStart (wobj w0 0) = zero_time"
    by (simp_all add: w0_def fresh_world_def wobj_def obj_def restarting_node_def sample_instance_def base_node_def
        NewInstance_def)
  have t: "StatusRunning \<noteq> StatusStopped" "restart_window < time_Sub 1000000000 zero_time"
    by (simp_all add: StatusRunning_def StatusStopped_def restart_window_def time_Sub_def zero_time_def)
  show ?thesis
    unfolding w0_def [symmetric]
    using w0 t
    by (simp add: delete_running_def start_steps_def spawn_thread_def step_defs gate_enter_def gate_leave_def Find_def o
        restart_guard_def Let_def w0_def)
qed

subsection \<open>The restart guard\<close>

text \<open>The decisions of a series of crashes at the given instants.\<close>

primrec restart_decisions :: "instant list \<Rightarrow> Instance \<Rightarrow> bool list" where
  "restart_decisions [] i = []"
| "restart_decisions (t # ts) i = (let (j, go) = restart_guard t i in go # restart_decisions ts j)"

text \<open>
  A crash loop is cut: of four crashes within ten seconds the first three are answered by a
  restart and the fourth is not, provided the guard's last window is over.
\<close>

theorem crash_loop_is_cut:
  assumes "in_arWindowStart i + 10 * 10 ^ 9 < t1" "t1 \<le> t2" "t2 \<le> t3" "t3 \<le> t4" "t4 \<le> t1 + 10 * 10 ^ 9"
  shows "restart_decisions [t1, t2, t3, t4] i = [True, True, True, False]"
  using assms by (simp add: restart_guard_def Let_def time_Sub_def restart_window_def)

theorem crash_loop_witness:
  "restart_decisions [20 * 10 ^ 9, 21 * 10 ^ 9, 22 * 10 ^ 9, 23 * 10 ^ 9]
     ((sample_instance ''a'' [])\<lparr>in_arWindowStart := 0\<rparr>) = [True, True, True, False]"
  by (rule crash_loop_is_cut) simp_all

subsection \<open>Shutting down\<close>

definition starting :: "World \<Rightarrow> nat" where
  "starting w = length (filter (\<lambda>t. \<exists>r. t = Starting r) (wd_threads w))"

lemma starting_parts:
  "k < length ts \<Longrightarrow> length (filter P ts) =
   length (filter P (take k ts)) + (if P (ts ! k) then 1 else 0) + length (filter P (drop (Suc k) ts))"
  by (subst id_take_nth_drop [of k ts]) simp_all

lemma step_sealed:
  assumes "og_closed (wd_gate w)" "step e w = Some w'"
  shows "og_closed (wd_gate w') \<and> length (wd_spawned w') + starting w' \<le> length (wd_spawned w) + starting w"
proof (cases e)
  case (Step k oc now)
  let ?P = "\<lambda>t. \<exists>r. t = Starting r"
  obtain w1 ts where k: "k < length (wd_threads w)" "advance oc now (wd_threads w ! k) w = Some (w1, ts)"
    "w' = w1\<lparr>wd_threads := take k (wd_threads w) @ ts @ drop (Suc k) (wd_threads w)\<rparr>"
    using assms(2) Step by (auto split: if_splits option.splits)
  have "og_closed (wd_gate w1) \<and> length (wd_spawned w1) + length (filter ?P ts) \<le>
      length (wd_spawned w) + (if ?P (wd_threads w ! k) then 1 else 0)"
    using k(2) assms(1)
    by (cases "wd_threads w ! k")
       (auto simp: step_defs Let_def gate_enter_def gate_leave_def split: if_splits option.splits outcome.splits prod.splits)
  then show ?thesis using k starting_parts [OF k(1), of ?P] by (simp add: starting_def)
qed (use assms in \<open>auto simp: spawn_thread_def starting_def gate_seal_def split: if_splits\<close>)

text \<open>
  Once the start gate is sealed for shutdown no further start begins: only the starts already
  under way may still bring up a process, each at most one, whatever requests and watchers do.
\<close>

theorem sealed_gate_bounds_new_processes:
  assumes "og_closed (wd_gate w)" "run es w = Some w'"
  shows "length (wd_spawned w') + starting w' \<le> length (wd_spawned w) + starting w"
  using assms
proof (induction es arbitrary: w)
  case (Cons e es)
  then obtain w1 where w1: "step e w = Some w1" "run es w1 = Some w'" by (auto split: option.splits)
  from step_sealed [OF Cons.prems(1) w1(1)] Cons.IH [OF _ w1(2)] show ?case by simp
qed simp

theorem sealed_gate_witness:
  "\<exists>w'. run [Start 0, Step 0 Ok 0] ((fresh_world sample_node)\<lparr>wd_gate := \<lparr>og_closed = True, og_count = 0\<rparr>\<rparr>) = Some w' \<and>
    length (wd_spawned w') + starting w' \<le> 0"
proof -
  let ?w = "(fresh_world sample_node)\<lparr>wd_gate := \<lparr>og_closed = True, og_count = 0\<rparr>\<rparr>"
  obtain w' where w': "run [Start 0, Step 0 Ok 0] ?w = Some w'"
    by (simp add: spawn_thread_def start_begin_def gate_enter_def)
  have "length (wd_spawned w') + starting w' \<le> length (wd_spawned ?w) + starting ?w"
    by (rule sealed_gate_bounds_new_processes [OF _ w']) simp
  with w' show ?thesis by (auto simp: starting_def)
qed

end
