(* ===== verification/WebSocket.thy ===== *)
theory WebSocket
  imports Prelude "HOL-Library.Word"
begin

unbundle bit_operations_syntax

text \<open>
  The WebSocket frames of the live console (cmd/irix-node/websocket.go): reading a client's
  masked frame from the connection and writing the server's. Bytes are 8-bit words, a frame's
  length is the 64-bit word the code converts to \<open>int64\<close>; the input is what is still to be
  read of the connection, and a read past its end is the error of \<open>io.ReadFull\<close>.
\<close>

type_synonym byte = "8 word"

definition wsMaxFrame :: int where
  "wsMaxFrame = 2 ^ 20"

definition wsText :: nat where "wsText = 1"
definition wsBinary :: nat where "wsBinary = 2"
definition wsClose :: nat where "wsClose = 8"
definition wsPing :: nat where "wsPing = 9"
definition wsPong :: nat where "wsPong = 10"

datatype ws_error = ShortRead | FrameTooLarge int | NotMasked | BinaryFrame | Fragmented

text \<open>The result of \<open>readFrame\<close>; \<open>WsPanic\<close> is the run-time panic of \<open>make\<close> with a negative length.\<close>

datatype ws_result = WsError ws_error | WsPanic | WsFrame nat "byte list" "byte list"

definition read_full :: "nat \<Rightarrow> byte list \<Rightarrow> (byte list \<times> byte list) option" where
  "read_full n s = (if length s < n then None else Some (take n s, drop n s))"

text \<open>Big-endian numbers (\<open>binary.BigEndian\<close>).\<close>

definition be_nat :: "byte list \<Rightarrow> nat" where
  "be_nat bs = foldl (\<lambda>a b. a * 256 + unat b) 0 bs"

primrec be_bytes :: "nat \<Rightarrow> nat \<Rightarrow> byte list" where
  "be_bytes 0 n = []"
| "be_bytes (Suc k) n = be_bytes k (n div 256) @ [of_nat n]"

definition unmask :: "byte list \<Rightarrow> byte list \<Rightarrow> byte list" where
  "unmask key payload = map (\<lambda>i. payload ! i XOR key ! (i mod 4)) [0..<length payload]"

definition frame_length :: "byte \<Rightarrow> byte list \<Rightarrow> (int \<times> byte list) option" where
  "frame_length h1 s =
     (let len = unat (h1 AND 0x7F) in
      if len = 126 then map_option (\<lambda>(b, s). (int (be_nat b), s)) (read_full 2 s)
      else if len = 127 then map_option (\<lambda>(b, s). (sint (word_of_nat (be_nat b) :: 64 word), s)) (read_full 8 s)
      else Some (int len, s))"

definition readFrame :: "byte list \<Rightarrow> ws_result" where
  "readFrame s =
     (case read_full 2 s of
        None \<Rightarrow> WsError ShortRead
      | Some (hdr, s) \<Rightarrow>
          let fin = (hdr ! 0 AND 0x80 \<noteq> 0);
              opcode = unat (hdr ! 0 AND 0x0F);
              masked = (hdr ! 1 AND 0x80 \<noteq> 0) in
          (case frame_length (hdr ! 1) s of
             None \<Rightarrow> WsError ShortRead
           | Some (len, s) \<Rightarrow>
               if len > wsMaxFrame then WsError (FrameTooLarge len)
               else if \<not> masked then WsError NotMasked
               else
                 (case read_full 4 s of
                    None \<Rightarrow> WsError ShortRead
                  | Some (key, s) \<Rightarrow>
                      if len < 0 then WsPanic
                      else
                        (case read_full (nat len) s of
                           None \<Rightarrow> WsError ShortRead
                         | Some (payload, s) \<Rightarrow>
                             let payload = unmask key payload in
                             if opcode = wsBinary then WsError BinaryFrame
                             else if \<not> fin \<and> opcode < wsClose then WsError Fragmented
                             else WsFrame opcode payload s))))"

text \<open>The header \<open>writeFrame\<close> sends; the connection's own write errors are left out.\<close>

definition frame_header :: "nat \<Rightarrow> nat \<Rightarrow> byte list" where
  "frame_header opcode n =
     (0x80 OR of_nat opcode) #
     (if n < 126 then [of_nat n]
      else if n \<le> 0xFFFF then 126 # be_bytes 2 n
      else 127 # be_bytes 8 n)"

definition writeFrame :: "nat \<Rightarrow> byte list \<Rightarrow> byte list" where
  "writeFrame opcode payload = frame_header opcode (length payload) @ payload"

definition writeText :: "byte list \<Rightarrow> byte list" where
  "writeText s = writeFrame wsText s"

definition writePong :: "byte list \<Rightarrow> byte list" where
  "writePong payload = writeFrame wsPong payload"

definition writeClose :: "nat \<Rightarrow> byte list \<Rightarrow> byte list" where
  "writeClose code reason = writeFrame wsClose (be_bytes 2 code @ reason)"

subsection \<open>Numbers\<close>

lemma length_be_bytes [simp]: "length (be_bytes k n) = k"
  by (induction k arbitrary: n) auto

lemma be_nat_snoc: "be_nat (bs @ [b]) = be_nat bs * 256 + unat b"
  by (simp add: be_nat_def)

lemma be_nat_be_bytes: "n < 256 ^ k \<Longrightarrow> be_nat (be_bytes k n) = n"
proof (induction k arbitrary: n)
  case 0
  then show ?case by (simp add: be_nat_def)
next
  case (Suc k)
  have "be_nat (be_bytes k (n div 256)) = n div 256" using Suc by (intro Suc.IH) (simp add: less_mult_imp_div_less mult.commute)
  moreover have "unat (of_nat n :: byte) = n mod 256" by (simp add: unat_of_nat)
  ultimately show ?case by (simp add: be_nat_snoc)
qed

lemma read_full_append: "length a = n \<Longrightarrow> read_full n (a @ b) = Some (a, b)"
  by (simp add: read_full_def)

text \<open>What the client sends: the same header with the mask bit set, the key, the masked payload.\<close>

definition client_frame :: "nat \<Rightarrow> byte list \<Rightarrow> byte list \<Rightarrow> byte list" where
  "client_frame opcode key payload =
     (case frame_header opcode (length payload) of
        h0 # h1 # more \<Rightarrow> h0 # (h1 OR 0x80) # more @ key @ unmask key payload)"

lemma length_unmask [simp]: "length (unmask key p) = length p"
  by (simp add: unmask_def)

lemma unmask_unmask: "unmask key (unmask key p) = p"
  by (rule nth_equalityI) (simp_all add: unmask_def word_bw_assocs)

subsection \<open>Header bits\<close>

lemma less_8_cases: "(i::nat) < 8 \<Longrightarrow> i = 0 \<or> i = 1 \<or> i = 2 \<or> i = 3 \<or> i = 4 \<or> i = 5 \<or> i = 6 \<or> i = 7"
  by linarith

lemma low_bits: "((w::byte) OR 0x80) AND 0x7F = w AND 0x7F"
proof (rule bit_word_eqI)
  fix i :: nat assume "i < LENGTH(8)"
  then show "bit ((w OR 0x80) AND 0x7F) i = bit (w AND 0x7F) i"
    using less_8_cases [of i] by (auto simp: bit_simps)
qed

lemma low_nibble: "(0x80 OR (w::byte)) AND 0x0F = w AND 0x0F"
proof (rule bit_word_eqI)
  fix i :: nat assume "i < LENGTH(8)"
  then show "bit ((0x80 OR w) AND 0x0F) i = bit (w AND 0x0F) i"
    using less_8_cases [of i] by (auto simp: bit_simps)
qed

lemma top_bit: "((w::byte) OR 0x80) AND 0x80 \<noteq> 0" "(0x80 OR (w::byte)) AND 0x80 \<noteq> 0"
proof -
  have "bit ((w OR 0x80) AND 0x80) 7" "bit ((0x80 OR w) AND 0x80) 7" by (simp_all add: bit_simps)
  then show "(w OR 0x80) AND 0x80 \<noteq> 0" "(0x80 OR w) AND 0x80 \<noteq> 0" by auto
qed

lemma unat_low7: "n < 128 \<Longrightarrow> unat ((of_nat n :: byte) AND 0x7F) = n"
proof -
  assume n: "n < 128"
  have m: "(0x7F :: byte) = mask 7" by (simp add: mask_eq_exp_minus_1)
  have "unat ((of_nat n :: byte) AND 0x7F) = take_bit 7 (unat (of_nat n :: byte))"
    unfolding m take_bit_eq_mask [symmetric] by (rule unsigned_take_bit_eq)
  with n show ?thesis by (simp add: unat_of_nat take_bit_eq_mod)
qed

lemma unat_low4: "n < 16 \<Longrightarrow> unat ((of_nat n :: byte) AND 0x0F) = n"
proof -
  assume n: "n < 16"
  have m: "(0x0F :: byte) = mask 4" by (simp add: mask_eq_exp_minus_1)
  have "unat ((of_nat n :: byte) AND 0x0F) = take_bit 4 (unat (of_nat n :: byte))"
    unfolding m take_bit_eq_mask [symmetric] by (rule unsigned_take_bit_eq)
  with n show ?thesis by (simp add: unat_of_nat take_bit_eq_mod)
qed

lemma frame_length_header:
  assumes "int (length p) \<le> wsMaxFrame"
  shows "\<exists>h1 more. frame_header opcode (length p) = (0x80 OR of_nat opcode) # h1 # more \<and>
    frame_length (h1 OR 0x80) (more @ s) = Some (int (length p), s)"
proof -
  let ?n = "length p"
  consider "?n < 126" | "126 \<le> ?n" "?n \<le> 0xFFFF" | "0xFFFF < ?n" by linarith
  then show ?thesis
  proof cases
    case 1
    then show ?thesis by (simp add: frame_header_def frame_length_def Let_def low_bits unat_low7)
  next
    case 2
    have "unat ((126::byte) AND 0x7F) = 126" using unat_low7 [of 126] by simp
    moreover have "be_nat (be_bytes 2 ?n) = ?n" using 2 by (intro be_nat_be_bytes) simp
    ultimately show ?thesis
      using 2 by (simp add: frame_header_def frame_length_def Let_def low_bits read_full_append)
  next
    case 3
    have "unat ((127::byte) AND 0x7F) = 127" using unat_low7 [of 127] by simp
    moreover have "be_nat (be_bytes 8 ?n) = ?n"
      using assms by (intro be_nat_be_bytes) (simp add: wsMaxFrame_def)
    moreover have "sint (word_of_nat ?n :: 64 word) = int ?n"
      using assms by (simp add: wsMaxFrame_def signed_of_nat signed_take_bit_int_eq_self)
    ultimately show ?thesis
      using 3 by (simp add: frame_header_def frame_length_def Let_def low_bits read_full_append)
  qed
qed

text \<open>
  A complete client frame is read back exactly: whatever the text, ping, pong or close
  payload (up to 1 MiB) and the masking key, the reader returns the opcode and the unmasked
  payload and leaves the rest of the connection untouched.
\<close>

theorem client_frame_round_trip:
  assumes "opcode < 16" "opcode \<noteq> 2" "length key = 4" "length payload \<le> 2 ^ 20"
  shows "readFrame (client_frame opcode key payload @ rest) = WsFrame opcode payload rest"
proof -
  have len: "int (length payload) \<le> wsMaxFrame" using assms(4) by (simp add: wsMaxFrame_def)
  obtain h1 more where h: "frame_header opcode (length payload) = (0x80 OR of_nat opcode) # h1 # more"
    "frame_length (h1 OR 0x80) (more @ key @ unmask key payload @ rest) =
       Some (int (length payload), key @ unmask key payload @ rest)"
    using frame_length_header [OF len, of opcode "key @ unmask key payload @ rest"] by blast
  have op: "unat ((0x80 OR (of_nat opcode :: byte)) AND 0x0F) = opcode"
    using assms(1) by (simp add: low_nibble unat_low4)
  have frame: "client_frame opcode key payload @ rest =
      [0x80 OR of_nat opcode, h1 OR 0x80] @ (more @ key @ unmask key payload @ rest)"
    by (simp add: client_frame_def h(1))
  have "read_full 2 ([0x80 OR of_nat opcode, h1 OR 0x80] @ (more @ key @ unmask key payload @ rest)) =
      Some ([0x80 OR of_nat opcode, h1 OR 0x80], more @ key @ unmask key payload @ rest)"
    by (rule read_full_append) simp
  then show ?thesis
    using len assms(2,3) h(2)
    unfolding readFrame_def frame
    by (simp add: Let_def op top_bit read_full_append unmask_unmask wsBinary_def)
qed

theorem client_frame_witness:
  "readFrame (client_frame 1 [1, 2, 3, 4] [104, 105, 33, 33, 33] @ [9]) = WsFrame 1 [104, 105, 33, 33, 33] [9]"
  by (rule client_frame_round_trip) simp_all

text \<open>
  A frame that announces a 64-bit length with the top bit set panics the reader: the length
  turns negative as \<open>int64\<close>, passes the limit, and \<open>make\<close> is called with it. Fourteen bytes suffice.
\<close>

theorem negative_length_panics:
  assumes "length l = 8" "2 ^ 63 \<le> be_nat l" "length key = 4"
  shows "readFrame ([h0, 0xFF] @ l @ key @ rest) = WsPanic"
proof -
  have bound: "be_nat l < 2 ^ 64"
  proof -
    have "be_nat bs < 256 ^ length bs" for bs
    proof (induction bs rule: rev_induct)
      case (snoc b bs)
      have "unat b < 256" using unsigned_less [of b] by simp
      moreover have "be_nat bs + 1 \<le> 256 ^ length bs" using snoc by simp
      then have "(be_nat bs + 1) * 256 \<le> 256 ^ length bs * 256" by (rule mult_le_mono1)
      ultimately show ?case by (simp add: be_nat_snoc)
    qed (simp add: be_nat_def)
    from this [of l] show ?thesis by (simp add: assms(1))
  qed
  have "sint (word_of_nat (be_nat l) :: 64 word) < 0"
  proof -
    have "be_nat l div 2 ^ 63 = 1" using assms(2) bound by (intro div_nat_eqI) simp_all
    then have "bit (be_nat l) 63" by (simp add: bit_iff_odd)
    then have "bit (int (be_nat l)) 63" by (simp add: bit_of_nat_iff)
    then show ?thesis by (simp add: signed_of_nat signed_take_bit_negative_iff)
  qed
  moreover have "unat ((0xFF::byte) AND 0x7F) = 127" by simp
  ultimately have "frame_length 0xFF (l @ key @ rest) = Some (sint (word_of_nat (be_nat l) :: 64 word), key @ rest)"
    "sint (word_of_nat (be_nat l) :: 64 word) < 0" "\<not> sint (word_of_nat (be_nat l) :: 64 word) > wsMaxFrame"
    using assms(1) by (simp_all add: frame_length_def Let_def read_full_append wsMaxFrame_def)
  moreover have "(0xFF::byte) AND 0x80 \<noteq> 0" by simp
  moreover have "read_full 2 ([h0, 0xFF] @ (l @ key @ rest)) = Some ([h0, 0xFF], l @ key @ rest)"
    by (rule read_full_append) simp
  ultimately show ?thesis
    using assms(3) unfolding readFrame_def by (simp add: Let_def read_full_append)
qed

theorem negative_length_witness:
  "readFrame ([0x81, 0xFF] @ [0x80, 0, 0, 0, 0, 0, 0, 0] @ [1, 2, 3, 4] @ []) = WsPanic"
  by (rule negative_length_panics) (simp_all add: be_nat_def)

end
