(* ===== verification/Accounts.thy ===== *)
theory Accounts
  imports LoginGuard Daemon
begin

text \<open>
  The account system (cmd/irix-node/accounts.go), its HTTP handlers (accounts_handlers.go) and
  the first administrator (auth.go).

  Accounts and sessions live in an SQL database; sessions and switches are cached in Redis
  (optional) and in the process. The database, Redis and bcrypt are not part of the
  repository: they are the fields of the parameter \<open>services\<close>, functions on an opaque state
  \<open>'w\<close>, and what the code relies on is \<open>services_ok\<close>: a statement or command that reports
  success did to the tables (or keys) what \<open>sql_run\<close> (or \<open>redis_run\<close>) writes down for the
  statements of the source, and a read that succeeds returns what is stored. Nothing is said
  of a statement or command that fails. Names are compared exactly, as SQLite and PostgreSQL
  do. A stored JSON text is the value it encodes.

  The clock is read once per operation (\<open>now\<close>, in nanoseconds); \<open>UnixMilli\<close> is \<open>ms now\<close>.
\<close>

subsection \<open>Constants\<close>

definition accountPassMinLen :: nat where "accountPassMinLen = 8"
definition accountSessionTTL :: int where "accountSessionTTL = 30 * 24 * 3600 * 10 ^ 9"
definition accountPermTTL :: int where "accountPermTTL = 60 * 10 ^ 9"
definition accountRedisCoold :: int where "accountRedisCoold = 30 * 10 ^ 9"
definition accountSessCacheTTL :: int where "accountSessCacheTTL = 10 * 10 ^ 9"
definition accountPermCacheTTL :: int where "accountPermCacheTTL = 30 * 10 ^ 9"
definition accountRedisPrefix :: string where "accountRedisPrefix = ''irix:acct:''"

definition ms :: "instant \<Rightarrow> int" where
  "ms now = now div 10 ^ 6"

type_synonym switches = "(string, bool) fmap"

subsection \<open>The database\<close>

text \<open>The permissions column: the JSON of a switch table, the empty text, or damaged text.\<close>

datatype permsColumn = PermsJson switches | PermsEmpty | PermsDamaged

record accountRow =
  ar_password_hash :: string
  ar_is_admin :: int
  ar_permissions :: permsColumn
  ar_created_at :: int
  ar_updated_at :: int

record sessionRow =
  sr_username :: string
  sr_created_at :: int
  sr_expires_at :: int
  sr_last_used :: int

record accountsSchema =
  tb_accounts :: "(string, accountRow) fmap"
  tb_sessions :: "(string, sessionRow) fmap"

text \<open>The statements of the source that change a table, with their arguments.\<close>

datatype sql_stmt =
  InsertAccount string string int permsColumn int int
| UpdatePermissions permsColumn int string
| UpdatePassword string int string
| DeleteAccount string
| UpsertSession string string int int int
| DeleteSession string
| DeleteUserSessions string
| DeleteOtherSessions string string
| DeleteExpiredSessions int

definition delete_sessions :: "(string \<Rightarrow> sessionRow \<Rightarrow> bool) \<Rightarrow> accountsSchema \<Rightarrow> nat \<times> accountsSchema" where
  "delete_sessions P t =
     (let keep = fmfilter (\<lambda>k. case fmlookup (tb_sessions t) k of None \<Rightarrow> False | Some r \<Rightarrow> \<not> P k r)
                   (tb_sessions t)
      in (maplen (tb_sessions t) - maplen keep, t\<lparr>tb_sessions := keep\<rparr>))"

definition update_account :: "string \<Rightarrow> (accountRow \<Rightarrow> accountRow) \<Rightarrow> accountsSchema \<Rightarrow> nat \<times> accountsSchema" where
  "update_account u f t =
     (case fmlookup (tb_accounts t) u of
        None \<Rightarrow> (0, t)
      | Some a \<Rightarrow> (1, t\<lparr>tb_accounts := fmupd u (f a) (tb_accounts t)\<rparr>))"

fun sql_run :: "sql_stmt \<Rightarrow> accountsSchema \<Rightarrow> (nat \<times> accountsSchema) option" where
  "sql_run (InsertAccount u h adm p c d) t =
     (if u |\<in>| fmdom (tb_accounts t) then None
      else Some (1, t\<lparr>tb_accounts := fmupd u
        \<lparr>ar_password_hash = h, ar_is_admin = adm, ar_permissions = p,
         ar_created_at = c, ar_updated_at = d\<rparr> (tb_accounts t)\<rparr>))"
| "sql_run (UpdatePermissions p d u) t =
     Some (update_account u (\<lambda>a. a\<lparr>ar_permissions := p, ar_updated_at := d\<rparr>) t)"
| "sql_run (UpdatePassword h d u) t =
     Some (update_account u (\<lambda>a. a\<lparr>ar_password_hash := h, ar_updated_at := d\<rparr>) t)"
| "sql_run (DeleteAccount u) t =
     Some (if u |\<in>| fmdom (tb_accounts t) then 1 else 0, t\<lparr>tb_accounts := fmdrop u (tb_accounts t)\<rparr>)"
| "sql_run (UpsertSession tok u c e l) t =
     Some (1, t\<lparr>tb_sessions := fmupd tok
       (case fmlookup (tb_sessions t) tok of
          None \<Rightarrow> \<lparr>sr_username = u, sr_created_at = c, sr_expires_at = e, sr_last_used = l\<rparr>
        | Some r \<Rightarrow> r\<lparr>sr_expires_at := e, sr_last_used := l\<rparr>) (tb_sessions t)\<rparr>)"
| "sql_run (DeleteSession tok) t = Some (delete_sessions (\<lambda>k r. k = tok) t)"
| "sql_run (DeleteUserSessions u) t = Some (delete_sessions (\<lambda>k r. sr_username r = u) t)"
| "sql_run (DeleteOtherSessions u keep) t =
     Some (delete_sessions (\<lambda>k r. sr_username r = u \<and> k \<noteq> keep) t)"
| "sql_run (DeleteExpiredSessions e) t = Some (delete_sessions (\<lambda>k r. sr_expires_at r < e) t)"

subsection \<open>Redis\<close>

datatype redis_val = SessionJson accountSession | SwitchJson switches | OtherText

datatype redis_get = RErr | RNil | RVal redis_val

datatype redis_cmd =
  SET string redis_val int
| DEL string
| SADD string string
| SREM string string
| EXPIRE string int

record redis_keys =
  rk_vals :: "(string, redis_val) fmap"
  rk_sets :: "(string, string list) fmap"

definition set_members :: "redis_keys \<Rightarrow> string \<Rightarrow> string list" where
  "set_members s k = (case fmlookup (rk_sets s) k of None \<Rightarrow> [] | Some xs \<Rightarrow> xs)"

text \<open>What a command does to the keys; the expiry it sets takes effect later, outside the node.\<close>

fun redis_run :: "redis_cmd \<Rightarrow> redis_keys \<Rightarrow> redis_keys" where
  "redis_run (SET k v ttl) s = s\<lparr>rk_vals := fmupd k v (rk_vals s)\<rparr>"
| "redis_run (DEL k) s = s\<lparr>rk_vals := fmdrop k (rk_vals s), rk_sets := fmdrop k (rk_sets s)\<rparr>"
| "redis_run (SADD k x) s = s\<lparr>rk_sets := fmupd k (List.insert x (set_members s k)) (rk_sets s)\<rparr>"
| "redis_run (SREM k x) s = s\<lparr>rk_sets := fmupd k (removeAll x (set_members s k)) (rk_sets s)\<rparr>"
| "redis_run (EXPIRE k ttl) s = s"

subsection \<open>The services the code calls\<close>

text \<open>
  \<open>sv_exec\<close> is \<open>db.Exec\<close> (rows affected, \<open>None\<close> an error), the other \<open>sv_\<close> fields are the four
  queries (\<open>None\<close> an error; no row is \<open>Some None\<close>); \<open>rd_exec\<close> runs a pipeline of commands and
  reports whether it succeeded; \<open>bc_generate\<close> and \<open>bc_compare\<close> are bcrypt's two functions.
\<close>

record 'w services =
  sv_exec :: "sql_stmt \<Rightarrow> 'w \<Rightarrow> nat option \<times> 'w"
  sv_admins :: "'w \<Rightarrow> nat option"
  sv_hash :: "string \<Rightarrow> 'w \<Rightarrow> string option option"
  sv_account :: "string \<Rightarrow> 'w \<Rightarrow> accountRow option option"
  sv_accounts :: "'w \<Rightarrow> (string \<times> accountRow) list option"
  sv_session :: "string \<Rightarrow> 'w \<Rightarrow> (string \<times> int) option option"
  rd_get :: "string \<Rightarrow> 'w \<Rightarrow> redis_get"
  rd_members :: "string \<Rightarrow> 'w \<Rightarrow> string list option"
  rd_exec :: "redis_cmd list \<Rightarrow> 'w \<Rightarrow> bool \<times> 'w"
  bc_generate :: "string \<Rightarrow> 'w \<Rightarrow> string option"
  bc_compare :: "string \<Rightarrow> string \<Rightarrow> bool"

record sessCacheEntry =
  sc_sess :: accountSession
  sc_expires :: instant

record permCacheEntry =
  pc_perms :: switches
  pc_expires :: instant

record 'w accountSystem =
  ac_world :: 'w
  ac_redis :: bool
  ac_rdDown :: instant
  ac_sessCache :: "(string, sessCacheEntry) fmap"
  ac_permCache :: "(string, permCacheEntry) fmap"
  ac_loginFails :: loginTable

record account =
  acc_Username :: string
  acc_IsAdmin :: bool
  acc_Permissions :: switches
  acc_CreatedAt :: int
  acc_UpdatedAt :: int

definition sql :: "'w services \<Rightarrow> sql_stmt \<Rightarrow> 'w accountSystem \<Rightarrow> nat option \<times> 'w accountSystem" where
  "sql S st s = (case sv_exec S st (ac_world s) of (r, w) \<Rightarrow> (r, s\<lparr>ac_world := w\<rparr>))"

definition redis :: "'w services \<Rightarrow> redis_cmd list \<Rightarrow> 'w accountSystem \<Rightarrow> bool \<times> 'w accountSystem" where
  "redis S cs s = (case rd_exec S cs (ac_world s) of (ok, w) \<Rightarrow> (ok, s\<lparr>ac_world := w\<rparr>))"

subsection \<open>Small functions\<close>

definition boolInt :: "bool \<Rightarrow> int" where
  "boolInt b = (if b then 1 else 0)"

definition decodePerms :: "permsColumn \<Rightarrow> switches" where
  "decodePerms c = (case c of PermsJson m \<Rightarrow> m | PermsEmpty \<Rightarrow> fmempty | PermsDamaged \<Rightarrow> fmempty)"

definition redisReady :: "instant \<Rightarrow> 'w accountSystem \<Rightarrow> bool" where
  "redisReady now s = (if \<not> ac_redis s then False else now > ac_rdDown s)"

definition redisFailed :: "instant \<Rightarrow> 'w accountSystem \<Rightarrow> 'w accountSystem" where
  "redisFailed now s =
     (if now < ac_rdDown s then s else s\<lparr>ac_rdDown := now + accountRedisCoold\<rparr>)"

text \<open>A Redis write whose failure starts the cooldown.\<close>

definition redis_try :: "'w services \<Rightarrow> instant \<Rightarrow> redis_cmd list \<Rightarrow> 'w accountSystem \<Rightarrow> 'w accountSystem" where
  "redis_try S now cs s = (case redis S cs s of (ok, s) \<Rightarrow> if ok then s else redisFailed now s)"

definition session_key :: "string \<Rightarrow> string" where
  "session_key tok = accountRedisPrefix @ ''session:'' @ tok"

definition usess_key :: "string \<Rightarrow> string" where
  "usess_key u = accountRedisPrefix @ ''usess:'' @ u"

definition perm_key :: "string \<Rightarrow> string" where
  "perm_key u = accountRedisPrefix @ ''perm:'' @ u"

subsection \<open>The process caches\<close>

definition invalidateSession :: "string \<Rightarrow> 'w accountSystem \<Rightarrow> 'w accountSystem" where
  "invalidateSession tok s = s\<lparr>ac_sessCache := fmdrop tok (ac_sessCache s)\<rparr>"

definition cachedSession :: "instant \<Rightarrow> string \<Rightarrow> 'w accountSystem \<Rightarrow> accountSession option \<times> 'w accountSystem" where
  "cachedSession now tok s =
     (case fmlookup (ac_sessCache s) tok of
        None \<Rightarrow> (None, s)
      | Some e \<Rightarrow>
          if now > sc_expires e then (None, s)
          else if as_expiresAt (sc_sess e) \<le> ms now then (None, invalidateSession tok s)
          else (Some (sc_sess e), s))"

definition cacheSession :: "instant \<Rightarrow> string \<Rightarrow> accountSession \<Rightarrow> 'w accountSystem \<Rightarrow> 'w accountSystem" where
  "cacheSession now tok sess s =
     s\<lparr>ac_sessCache := fmupd tok \<lparr>sc_sess = sess, sc_expires = now + accountSessCacheTTL\<rparr> (ac_sessCache s)\<rparr>"

definition cachedPerms :: "instant \<Rightarrow> string \<Rightarrow> 'w accountSystem \<Rightarrow> switches option" where
  "cachedPerms now u s =
     (case fmlookup (ac_permCache s) u of
        None \<Rightarrow> None
      | Some e \<Rightarrow> if now > pc_expires e then None else Some (pc_perms e))"

definition cachePerms :: "instant \<Rightarrow> string \<Rightarrow> switches \<Rightarrow> 'w accountSystem \<Rightarrow> 'w accountSystem" where
  "cachePerms now u m s =
     s\<lparr>ac_permCache := fmupd u \<lparr>pc_perms = m, pc_expires = now + accountPermCacheTTL\<rparr> (ac_permCache s)\<rparr>"

definition invalidatePerms :: "string \<Rightarrow> 'w accountSystem \<Rightarrow> 'w accountSystem" where
  "invalidatePerms u s = s\<lparr>ac_permCache := fmdrop u (ac_permCache s)\<rparr>"

subsection \<open>The Redis caches\<close>

definition redisGetSession ::
  "'w services \<Rightarrow> instant \<Rightarrow> string \<Rightarrow> 'w accountSystem \<Rightarrow> accountSession option \<times> 'w accountSystem" where
  "redisGetSession S now tok s =
     (case rd_get S (session_key tok) (ac_world s) of
        RErr \<Rightarrow> (None, redisFailed now s)
      | RNil \<Rightarrow> (None, s)
      | RVal v \<Rightarrow>
          (case v of
             SessionJson sess \<Rightarrow> if as_expiresAt sess \<le> ms now then (None, s) else (Some sess, s)
           | _ \<Rightarrow> (None, s)))"

definition redisSetSession ::
  "'w services \<Rightarrow> instant \<Rightarrow> string \<Rightarrow> accountSession \<Rightarrow> 'w accountSystem \<Rightarrow> 'w accountSystem" where
  "redisSetSession S now tok sess s =
     (if \<not> redisReady now s then s
      else
        let ttl = (as_expiresAt sess - ms now) * 10 ^ 6 in
        if ttl \<le> 0 then s
        else redis_try S now [SET (session_key tok) (SessionJson sess) ttl] s)"

definition redisGetPerms ::
  "'w services \<Rightarrow> instant \<Rightarrow> string \<Rightarrow> 'w accountSystem \<Rightarrow> switches option \<times> 'w accountSystem" where
  "redisGetPerms S now u s =
     (case rd_get S (perm_key u) (ac_world s) of
        RErr \<Rightarrow> (None, redisFailed now s)
      | RNil \<Rightarrow> (None, s)
      | RVal v \<Rightarrow> (case v of SwitchJson m \<Rightarrow> (Some m, s) | _ \<Rightarrow> (None, s)))"

definition redisSetPerms ::
  "'w services \<Rightarrow> instant \<Rightarrow> string \<Rightarrow> switches \<Rightarrow> 'w accountSystem \<Rightarrow> 'w accountSystem" where
  "redisSetPerms S now u m s =
     (if \<not> redisReady now s then s
      else redis_try S now [SET (perm_key u) (SwitchJson m) accountPermTTL] s)"

definition redisDelPerms :: "'w services \<Rightarrow> instant \<Rightarrow> string \<Rightarrow> 'w accountSystem \<Rightarrow> 'w accountSystem" where
  "redisDelPerms S now u s =
     (if \<not> redisReady now s then s else redis_try S now [DEL (perm_key u)] s)"

definition redisSessionOwner :: "'w services \<Rightarrow> string \<Rightarrow> 'w accountSystem \<Rightarrow> string option" where
  "redisSessionOwner S tok s =
     (case rd_get S (session_key tok) (ac_world s) of
        RErr \<Rightarrow> None
      | RNil \<Rightarrow> None
      | RVal v \<Rightarrow>
          (case v of
             SessionJson sess \<Rightarrow> if as_username sess = [] then None else Some (as_username sess)
           | _ \<Rightarrow> None))"

subsection \<open>Accounts\<close>

text \<open>Operations that can fail return the error's text with the new state.\<close>

definition hasAdminAccount :: "'w services \<Rightarrow> 'w accountSystem \<Rightarrow> string + bool" where
  "hasAdminAccount S s =
     (case sv_admins S (ac_world s) of None \<Rightarrow> Inl ''database error'' | Some n \<Rightarrow> Inr (n > 0))"

definition scan_account :: "string \<Rightarrow> accountRow \<Rightarrow> account" where
  "scan_account u r =
     \<lparr>acc_Username = u, acc_IsAdmin = (ar_is_admin r \<noteq> 0), acc_Permissions = decodePerms (ar_permissions r),
      acc_CreatedAt = ar_created_at r, acc_UpdatedAt = ar_updated_at r\<rparr>"

definition getAccount :: "'w services \<Rightarrow> string \<Rightarrow> 'w accountSystem \<Rightarrow> string + account option" where
  "getAccount S u s =
     (case sv_account S u (ac_world s) of
        None \<Rightarrow> Inl ''database error''
      | Some r \<Rightarrow> Inr (map_option (scan_account u) r))"

definition listAccounts :: "'w services \<Rightarrow> 'w accountSystem \<Rightarrow> string + account list" where
  "listAccounts S s =
     (case sv_accounts S (ac_world s) of
        None \<Rightarrow> Inl ''database error''
      | Some rows \<Rightarrow> Inr (map (\<lambda>(u, r). scan_account u r) rows))"

definition createAccount ::
  "'w services \<Rightarrow> instant \<Rightarrow> string \<Rightarrow> string \<Rightarrow> bool \<Rightarrow> 'w accountSystem \<Rightarrow> string option \<times> 'w accountSystem" where
  "createAccount S now u p isAdmin s =
     (case bc_generate S p (ac_world s) of
        None \<Rightarrow> (Some ''bcrypt error'', s)
      | Some h \<Rightarrow>
          (case sql S (InsertAccount u h (boolInt isAdmin) (PermsJson fmempty) (ms now) (ms now)) s of
             (r, s) \<Rightarrow>
               (if r = None then Some ''database error'' else None, invalidatePerms u s)))"

definition setPermissions ::
  "'w services \<Rightarrow> instant \<Rightarrow> string \<Rightarrow> switches \<Rightarrow> 'w accountSystem \<Rightarrow> string option \<times> 'w accountSystem" where
  "setPermissions S now u m s =
     (case sql S (UpdatePermissions (PermsJson m) (ms now) u) s of
        (None, s) \<Rightarrow> (Some ''database error'', s)
      | (Some n, s) \<Rightarrow>
          if n = 0 then (Some ''account does not exist'', s)
          else (None, invalidatePerms u (redisDelPerms S now u s)))"

definition putPassword ::
  "'w services \<Rightarrow> instant \<Rightarrow> string \<Rightarrow> string \<Rightarrow> 'w accountSystem \<Rightarrow> string option \<times> 'w accountSystem" where
  "putPassword S now u p s =
     (case bc_generate S p (ac_world s) of
        None \<Rightarrow> (Some ''bcrypt error'', s)
      | Some h \<Rightarrow>
          (case sql S (UpdatePassword h (ms now) u) s of
             (None, s) \<Rightarrow> (Some ''database error'', s)
           | (Some n, s) \<Rightarrow> if n = 0 then (Some ''account does not exist'', s) else (None, s)))"

text \<open>The comparison against the dummy hash takes time and changes no result.\<close>

definition checkPassword :: "'w services \<Rightarrow> string \<Rightarrow> string \<Rightarrow> 'w accountSystem \<Rightarrow> account option" where
  "checkPassword S u p s =
     (case sv_hash S u (ac_world s) of
        None \<Rightarrow> None
      | Some None \<Rightarrow> None
      | Some (Some h) \<Rightarrow>
          if \<not> bc_compare S h p then None
          else (case getAccount S u s of Inl e \<Rightarrow> None | Inr a \<Rightarrow> a))"

subsection \<open>Sessions\<close>

definition putSession ::
  "'w services \<Rightarrow> instant \<Rightarrow> string \<Rightarrow> accountSession \<Rightarrow> int \<Rightarrow> 'w accountSystem \<Rightarrow> 'w accountSystem" where
  "putSession S now tok sess ttl s =
     (if as_expiresAt sess \<le> ms now then s
      else
        let s = snd (sql S (UpsertSession tok (as_username sess) (ms now) (as_expiresAt sess) (ms now)) s);
            s = (if redisReady now s then
                   (case redis S [SET (session_key tok) (SessionJson sess) ttl] s of
                      (ok, s) \<Rightarrow>
                        if \<not> ok then redisFailed now s
                        else redis_try S now
                               [SADD (usess_key (as_username sess)) tok,
                                EXPIRE (usess_key (as_username sess)) ttl] s)
                 else s)
        in cacheSession now tok sess s)"

definition lookupSession ::
  "'w services \<Rightarrow> instant \<Rightarrow> string \<Rightarrow> 'w accountSystem \<Rightarrow> accountSession option \<times> 'w accountSystem" where
  "lookupSession S now tok s =
     (case cachedSession now tok s of
        (Some sess, s) \<Rightarrow> (Some sess, s)
      | (None, s) \<Rightarrow>
        (case (if redisReady now s then redisGetSession S now tok s else (None, s)) of
           (Some sess, s) \<Rightarrow> (Some sess, cacheSession now tok sess s)
         | (None, s) \<Rightarrow>
           (case sv_session S tok (ac_world s) of
              None \<Rightarrow> (None, s)
            | Some None \<Rightarrow> (None, s)
            | Some (Some (u, expiresAt)) \<Rightarrow>
                if expiresAt \<le> ms now then (None, snd (sql S (DeleteSession tok) s))
                else
                  let adm = (case getAccount S u s of
                               Inl e \<Rightarrow> False
                             | Inr None \<Rightarrow> False
                             | Inr (Some a) \<Rightarrow> acc_IsAdmin a);
                      sess = \<lparr>as_username = u, as_isAdmin = adm, as_expiresAt = expiresAt\<rparr>
                  in (Some sess, redisSetSession S now tok sess (cacheSession now tok sess s)))))"

definition delSession :: "'w services \<Rightarrow> instant \<Rightarrow> string \<Rightarrow> 'w accountSystem \<Rightarrow> 'w accountSystem" where
  "delSession S now tok s =
     (let s = snd (sql S (DeleteSession tok) s) in
      if redisReady now s then
        (case redis S [DEL (session_key tok)] s of
           (ok, s) \<Rightarrow>
             if \<not> ok then redisFailed now s
             else
               let s = (case redisSessionOwner S tok s of
                          None \<Rightarrow> s
                        | Some u \<Rightarrow> snd (redis S [SREM (usess_key u) tok] s))
               in invalidateSession tok s)
      else invalidateSession tok s)"

text \<open>The loop over the indexed tokens, left at the first command that fails.\<close>

fun revoke_members ::
  "'w services \<Rightarrow> instant \<Rightarrow> string \<Rightarrow> string list \<Rightarrow> 'w accountSystem \<Rightarrow> 'w accountSystem" where
  "revoke_members S now keep [] s = s"
| "revoke_members S now keep (tok # toks) s =
     (if tok = keep then revoke_members S now keep toks s
      else
        (case redis S [DEL (session_key tok)] s of
           (ok, s) \<Rightarrow> if \<not> ok then redisFailed now s else revoke_members S now keep toks s))"

definition drop_cached :: "string \<Rightarrow> string \<Rightarrow> 'w accountSystem \<Rightarrow> 'w accountSystem" where
  "drop_cached u keep s =
     s\<lparr>ac_sessCache := fmfilter (\<lambda>tok. case fmlookup (ac_sessCache s) tok of
          None \<Rightarrow> False
        | Some e \<Rightarrow> \<not> (as_username (sc_sess e) = u \<and> tok \<noteq> keep)) (ac_sessCache s)\<rparr>"

definition revokeUserSessions ::
  "'w services \<Rightarrow> instant \<Rightarrow> string \<Rightarrow> string \<Rightarrow> 'w accountSystem \<Rightarrow> 'w accountSystem" where
  "revokeUserSessions S now u keep s =
     (let s = snd (sql S (if keep \<noteq> [] then DeleteOtherSessions u keep else DeleteUserSessions u) s);
          s = (if redisReady now s then
                 let s = (case rd_members S (usess_key u) (ac_world s) of
                            None \<Rightarrow> s
                          | Some toks \<Rightarrow> revoke_members S now keep toks s)
                 in if keep \<noteq> []
                    then redis_try S now [DEL (usess_key u), SADD (usess_key u) keep,
                                          EXPIRE (usess_key u) accountSessionTTL] s
                    else redis_try S now [DEL (usess_key u)] s
               else s)
      in drop_cached u keep s)"

definition deleteAccount ::
  "'w services \<Rightarrow> instant \<Rightarrow> string \<Rightarrow> 'w accountSystem \<Rightarrow> string option \<times> 'w accountSystem" where
  "deleteAccount S now u s =
     (case sql S (DeleteAccount u) s of
        (None, s) \<Rightarrow> (Some ''database error'', s)
      | (Some n, s) \<Rightarrow>
          if n = 0 then (Some ''account does not exist'', s)
          else (None, invalidatePerms u (redisDelPerms S now u (revokeUserSessions S now u [] s))))"

definition purgeExpiredSessions :: "'w services \<Rightarrow> instant \<Rightarrow> 'w accountSystem \<Rightarrow> 'w accountSystem" where
  "purgeExpiredSessions S now s =
     (let s = snd (sql S (DeleteExpiredSessions (ms now)) s)
      in s\<lparr>ac_loginFails := purgeLoginFails (ac_loginFails s) now\<rparr>)"

definition loadPermissions ::
  "'w services \<Rightarrow> instant \<Rightarrow> string \<Rightarrow> 'w accountSystem \<Rightarrow> switches \<times> 'w accountSystem" where
  "loadPermissions S now u s =
     (case cachedPerms now u s of
        Some m \<Rightarrow> (m, s)
      | None \<Rightarrow>
        (case (if redisReady now s then redisGetPerms S now u s else (None, s)) of
           (Some m, s) \<Rightarrow> (m, cachePerms now u m s)
         | (None, s) \<Rightarrow>
           (case getAccount S u s of
              Inl e \<Rightarrow> (fmempty, cachePerms now u fmempty s)
            | Inr None \<Rightarrow> (fmempty, cachePerms now u fmempty s)
            | Inr (Some a) \<Rightarrow>
                (acc_Permissions a,
                 redisSetPerms S now u (acc_Permissions a) (cachePerms now u (acc_Permissions a) s)))))"

subsection \<open>The handlers\<close>

definition authenticate ::
  "'w services \<Rightarrow> instant \<Rightarrow> request \<Rightarrow> 'w accountSystem \<Rightarrow> identity option \<times> 'w accountSystem" where
  "authenticate S now r s =
     (let token = bearerToken r in
      if token = [] then (None, s)
      else
        (case lookupSession S now token s of
           (None, s) \<Rightarrow> (None, s)
         | (Some sess, s) \<Rightarrow>
             if as_expiresAt sess \<le> ms now then (None, s)
             else
               let ident = \<lparr>id_username = as_username sess, id_isAdmin = as_isAdmin sess, id_via = ''token''\<rparr>;
                   remain = as_expiresAt sess - ms now
               in if remain < accountSessionTTL div 2 div 10 ^ 6
                  then (Some ident,
                        putSession S now token (sess\<lparr>as_expiresAt := ms (now + accountSessionTTL)\<rparr>)
                          accountSessionTTL s)
                  else (Some ident, s)))"

record accountLoginResponse =
  lr_Token :: string
  lr_Username :: string
  lr_IsAdmin :: bool
  lr_ExpiresAt :: int

text \<open>
  \<open>body\<close> is \<open>None\<close> where the request's JSON does not decode, \<open>fresh\<close> the token read from the
  random source (\<open>None\<close> its error); \<open>iter\<close> is the order in which a map is walked. The result is
  \<open>None\<close> only where the throttle's eviction loop does not return.
\<close>

definition handleAccountLogin ::
  "'w services \<Rightarrow> (loginTable \<Rightarrow> string list) \<Rightarrow> instant \<Rightarrow> string option \<Rightarrow> string \<Rightarrow>
   (string \<times> string) option \<Rightarrow> 'w accountSystem \<Rightarrow> (accountLoginResponse reply \<times> 'w accountSystem) option" where
  "handleAccountLogin S iter now fresh ip body s =
     (case body of
        None \<Rightarrow> Some (Fail 400 ''malformed body'', s)
      | Some (name, password) \<Rightarrow>
        let u = TrimSpace name in
        if u = [] then Some (Fail 400 ''missing username'', s)
        else if loginBlocked (ac_loginFails s) now u ip then Some (Fail 429 ''too many login attempts'', s)
        else
          let s = purgeExpiredSessions S now s in
          (case checkPassword S u password s of
             None \<Rightarrow>
               map_option (\<lambda>m. (Fail 401 ''wrong username or password'', s\<lparr>ac_loginFails := m\<rparr>))
                 (recordLoginFailure iter (ac_loginFails s) now u ip)
           | Some a \<Rightarrow>
               let s = s\<lparr>ac_loginFails := clearLoginFailures (ac_loginFails s) u ip\<rparr>;
                   sess = \<lparr>as_username = acc_Username a, as_isAdmin = acc_IsAdmin a,
                           as_expiresAt = ms (now + accountSessionTTL)\<rparr>
               in (case fresh of
                     None \<Rightarrow> Some (Fail 500 ''cannot create session'', s)
                   | Some token \<Rightarrow>
                       Some (Reply \<lparr>lr_Token = token, lr_Username = as_username sess,
                                    lr_IsAdmin = as_isAdmin sess, lr_ExpiresAt = as_expiresAt sess\<rparr>,
                             putSession S now token sess accountSessionTTL s))))"

definition handleAccountLogout ::
  "'w services \<Rightarrow> instant \<Rightarrow> request \<Rightarrow> 'w accountSystem \<Rightarrow> bool reply \<times> 'w accountSystem" where
  "handleAccountLogout S now r s =
     (let token = bearerToken r in
      (Reply True, if token \<noteq> [] then delSession S now token s else s))"

definition handleAccountMe ::
  "'w services \<Rightarrow> identity option \<Rightarrow> 'w accountSystem \<Rightarrow> (string \<times> bool \<times> switches \<times> int) reply" where
  "handleAccountMe S ident s =
     (case ident of
        None \<Rightarrow> Fail 403 ''not authenticated''
      | Some i \<Rightarrow>
          (case getAccount S (id_username i) s of
             Inl e \<Rightarrow> Fail 401 ''account does not exist''
           | Inr None \<Rightarrow> Fail 401 ''account does not exist''
           | Inr (Some a) \<Rightarrow>
               Reply (acc_Username a, acc_IsAdmin a, acc_Permissions a, acc_CreatedAt a)))"

definition handleAccountCatalog :: "permState \<Rightarrow> (string \<times> string list) list reply" where
  "handleAccountCatalog ps = Reply (permCatalog ps)"

definition handleAccountsList ::
  "'w services \<Rightarrow> identity option \<Rightarrow> 'w accountSystem \<Rightarrow> (string \<times> bool \<times> int \<times> int) list reply" where
  "handleAccountsList S ident s =
     (if \<not> requireAdmin ident then Fail 403 ''administrator required''
      else
        (case listAccounts S s of
           Inl e \<Rightarrow> Fail 500 (''cannot read accounts: '' @ e)
         | Inr xs \<Rightarrow>
             Reply (map (\<lambda>a. (acc_Username a, acc_IsAdmin a, acc_CreatedAt a, acc_UpdatedAt a)) xs)))"

definition handleAccountCreate ::
  "'w services \<Rightarrow> instant \<Rightarrow> identity option \<Rightarrow> (string \<times> string \<times> bool) option \<Rightarrow> 'w accountSystem \<Rightarrow>
   string reply \<times> 'w accountSystem" where
  "handleAccountCreate S now ident body s =
     (if \<not> requireAdmin ident then (Fail 403 ''administrator required'', s)
      else
        (case body of
           None \<Rightarrow> (Fail 400 ''malformed body'', s)
         | Some (name, password, isAdmin) \<Rightarrow>
           let u = TrimSpace name in
           if \<not> validUsername u then (Fail 400 ''invalid username'', s)
           else if length password < accountPassMinLen then (Fail 400 ''password too short'', s)
           else
             (case getAccount S u s of
                Inl e \<Rightarrow> (Fail 500 (''cannot read account: '' @ e), s)
              | Inr (Some a) \<Rightarrow> (Fail 409 ''account exists'', s)
              | Inr None \<Rightarrow>
                  (case createAccount S now u password isAdmin s of
                     (Some e, s) \<Rightarrow> (Fail 500 (''cannot create account: '' @ e), s)
                   | (None, s) \<Rightarrow> (Reply u, s)))))"

definition handleAccountDelete ::
  "'w services \<Rightarrow> instant \<Rightarrow> identity option \<Rightarrow> string \<Rightarrow> 'w accountSystem \<Rightarrow> bool reply \<times> 'w accountSystem" where
  "handleAccountDelete S now ident name s =
     (if \<not> requireAdmin ident then (Fail 403 ''administrator required'', s)
      else
        let u = TrimSpace name in
        if u = [] then (Fail 400 ''missing username'', s)
        else if (case ident of None \<Rightarrow> False | Some i \<Rightarrow> id_username i = u)
        then (Fail 400 ''cannot delete the current account'', s)
        else
          (case deleteAccount S now u s of
             (Some e, s) \<Rightarrow> (Fail 404 ''account does not exist'', s)
           | (None, s) \<Rightarrow> (Reply True, s)))"

record passwordBody =
  pb_Username :: string
  pb_Password :: string
  pb_OldPassword :: string
  pb_NewPassword :: string

definition changeOwnPassword ::
  "'w services \<Rightarrow> instant \<Rightarrow> request \<Rightarrow> identity \<Rightarrow> passwordBody \<Rightarrow> 'w accountSystem \<Rightarrow>
   string reply \<times> 'w accountSystem" where
  "changeOwnPassword S now r i b s =
     (if pb_OldPassword b = [] \<or> pb_NewPassword b = [] then (Fail 400 ''old and new password required'', s)
      else
        (case checkPassword S (id_username i) (pb_OldPassword b) s of
           None \<Rightarrow> (Fail 401 ''wrong password'', s)
         | Some a \<Rightarrow>
             if length (pb_NewPassword b) < accountPassMinLen then (Fail 400 ''password too short'', s)
             else
               (case putPassword S now (id_username i) (pb_NewPassword b) s of
                  (Some e, s) \<Rightarrow> (Fail 500 (''cannot change password: '' @ e), s)
                | (None, s) \<Rightarrow>
                    (Reply (id_username i), revokeUserSessions S now (id_username i) (bearerToken r) s))))"

definition resetPassword ::
  "'w services \<Rightarrow> instant \<Rightarrow> request \<Rightarrow> passwordBody \<Rightarrow> 'w accountSystem \<Rightarrow> string reply \<times> 'w accountSystem" where
  "resetPassword S now r b s =
     (let target = TrimSpace (pb_Username b) in
      if target = [] \<or> pb_Password b = [] then (Fail 400 ''username and password required'', s)
      else
        (case getAccount S target s of
           Inl e \<Rightarrow> (Fail 500 (''cannot read account: '' @ e), s)
         | Inr None \<Rightarrow> (Fail 404 ''account does not exist'', s)
         | Inr (Some a) \<Rightarrow>
             if length (pb_Password b) < accountPassMinLen then (Fail 400 ''password too short'', s)
             else
               (case putPassword S now target (pb_Password b) s of
                  (Some e, s) \<Rightarrow> (Fail 500 (''cannot change password: '' @ e), s)
                | (None, s) \<Rightarrow> (Reply target, revokeUserSessions S now target (bearerToken r) s))))"

definition handleAccountPassword ::
  "'w services \<Rightarrow> instant \<Rightarrow> request \<Rightarrow> identity option \<Rightarrow> passwordBody option \<Rightarrow> 'w accountSystem \<Rightarrow>
   string reply \<times> 'w accountSystem" where
  "handleAccountPassword S now r ident body s =
     (case ident of
        None \<Rightarrow> (Fail 403 ''not authenticated'', s)
      | Some i \<Rightarrow>
        (case body of
           None \<Rightarrow> (Fail 400 ''malformed body'', s)
         | Some b \<Rightarrow>
             if pb_OldPassword b \<noteq> [] \<or> pb_NewPassword b \<noteq> [] then changeOwnPassword S now r i b s
             else if \<not> requireAdmin ident then (Fail 403 ''administrator required'', s)
             else resetPassword S now r b s))"

record permissionsBody =
  pm_Username :: string
  pm_Group :: string
  pm_Enabled :: "bool option"
  pm_Permissions :: "(string \<times> bool) list"

text \<open>
  \<open>pm_Permissions\<close> lists the map of the body in the order the loop meets it. Both loops of the
  handler work on \<open>cur\<close>, a copy of the account's switches.
\<close>

definition apply_group :: "permState \<Rightarrow> string \<Rightarrow> bool \<Rightarrow> switches \<Rightarrow> bool \<times> switches" where
  "apply_group ps grp on cur =
     fold (\<lambda>(name, es) (found, cur).
             if name \<noteq> grp then (found, cur)
             else (True, fold (\<lambda>k m. fmupd k on m) es cur))
       (permCatalog ps) (False, cur)"

fun apply_switches :: "permState \<Rightarrow> (string \<times> bool) list \<Rightarrow> switches \<Rightarrow> string + switches" where
  "apply_switches ps [] cur = Inr cur"
| "apply_switches ps ((k, v) # rest) cur =
     (if \<not> permKeyExists ps k then Inl k else apply_switches ps rest (fmupd k v cur))"

definition handleAccountPermissions ::
  "'w services \<Rightarrow> permState \<Rightarrow> instant \<Rightarrow> identity option \<Rightarrow> permissionsBody option \<Rightarrow> 'w accountSystem \<Rightarrow>
   switches reply \<times> 'w accountSystem" where
  "handleAccountPermissions S ps now ident body s =
     (if \<not> requireAdmin ident then (Fail 403 ''administrator required'', s)
      else
        (case body of
           None \<Rightarrow> (Fail 400 ''malformed body'', s)
         | Some b \<Rightarrow>
           let u = TrimSpace (pm_Username b) in
           if u = [] then (Fail 400 ''missing username'', s)
           else
             (case getAccount S u s of
                Inl e \<Rightarrow> (Fail 500 (''cannot read account: '' @ e), s)
              | Inr None \<Rightarrow> (Fail 404 ''account does not exist'', s)
              | Inr (Some a) \<Rightarrow>
                if acc_IsAdmin a then (Fail 400 ''administrators have no switches'', s)
                else if pm_Group b = [] \<and> pm_Permissions b = [] then (Fail 400 ''no change given'', s)
                else
                  (case loadPermissions S now u s of
                     (cur, s) \<Rightarrow>
                     (case (if pm_Group b = [] then Inr cur
                            else
                              (case pm_Enabled b of
                                 None \<Rightarrow> Inl ''group needs enabled''
                               | Some on \<Rightarrow>
                                   (case apply_group ps (pm_Group b) on cur of
                                      (found, cur) \<Rightarrow>
                                        if \<not> found then Inl (''unknown group: '' @ pm_Group b) else Inr cur))) of
                        Inl e \<Rightarrow> (Fail 400 e, s)
                      | Inr cur \<Rightarrow>
                        (case apply_switches ps (pm_Permissions b) cur of
                           Inl k \<Rightarrow> (Fail 400 (''unknown endpoint: '' @ k), s)
                         | Inr cur \<Rightarrow>
                             if \<not> (pm_Group b \<noteq> [] \<or> pm_Permissions b \<noteq> []) then (Fail 400 ''nothing to change'', s)
                             else
                               (case setPermissions S now u cur s of
                                  (Some e, s) \<Rightarrow> (Fail 404 e, s)
                                | (None, s) \<Rightarrow> (Reply cur, s))))))))"

subsection \<open>The first administrator\<close>

text \<open>\<open>draws\<close> are the indices read from the random source, \<open>None\<close> an error of it.\<close>

definition credCharset :: string where
  "credCharset = ''abcdefghijklmnopqrstuvwxyzABCDEFGHIJKLMNOPQRSTUVWXYZ0123456789''"

fun randomString :: "nat option list \<Rightarrow> string \<Rightarrow> string option" where
  "randomString [] charset = Some []"
| "randomString (d # ds) charset =
     (case d of
        None \<Rightarrow> None
      | Some i \<Rightarrow> map_option (\<lambda>r. charset ! i # r) (randomString ds charset))"

datatype bootstrap = BootError string | BootExists | BootCreated string string

fun bootstrap_attempts ::
  "'w services \<Rightarrow> instant \<Rightarrow> (nat option list \<times> nat option list) list \<Rightarrow> string \<Rightarrow> 'w accountSystem \<Rightarrow>
   bootstrap \<times> 'w accountSystem" where
  "bootstrap_attempts S now [] lastErr s = (BootError (''cannot create administrator: '' @ lastErr), s)"
| "bootstrap_attempts S now ((ud, pd) # rest) lastErr s =
     (case randomString ud credCharset of
        None \<Rightarrow> (BootError ''random source'', s)
      | Some u \<Rightarrow>
        (case randomString pd credCharset of
           None \<Rightarrow> (BootError ''random source'', s)
         | Some p \<Rightarrow>
           (case createAccount S now u p True s of
              (None, s) \<Rightarrow> (BootCreated u p, s)
            | (Some e, s) \<Rightarrow>
                if hasAdminAccount S s = Inr True then (BootExists, s)
                else bootstrap_attempts S now rest e s)))"

definition ensureAdminAccount ::
  "'w services \<Rightarrow> instant \<Rightarrow> (nat option list \<times> nat option list) list \<Rightarrow> 'w accountSystem \<Rightarrow>
   bootstrap \<times> 'w accountSystem" where
  "ensureAdminAccount S now draws s =
     (case hasAdminAccount S s of
        Inl e \<Rightarrow> (BootError e, s)
      | Inr has \<Rightarrow> if has then (BootExists, s) else bootstrap_attempts S now (take 5 draws) [] s)"

subsection \<open>What the code relies on\<close>

text \<open>
  \<open>tb w\<close> are the tables and \<open>rk w\<close> the keys of Redis at the state \<open>w\<close>. \<open>services_ok\<close> holds of
  services that may fail at any call; \<open>services_up\<close> says that none does.
\<close>

definition session_view :: "sessionRow \<Rightarrow> string \<times> int" where
  "session_view r = (sr_username r, sr_expires_at r)"

definition services_ok :: "'w services \<Rightarrow> ('w \<Rightarrow> accountsSchema) \<Rightarrow> ('w \<Rightarrow> redis_keys) \<Rightarrow> bool" where
  "services_ok S tb rk \<longleftrightarrow>
     (\<forall>st w. rk (snd (sv_exec S st w)) = rk w \<and>
        (case fst (sv_exec S st w) of
           None \<Rightarrow> tb (snd (sv_exec S st w)) = tb w
         | Some n \<Rightarrow> sql_run st (tb w) = Some (n, tb (snd (sv_exec S st w))))) \<and>
     (\<forall>u w. (case sv_hash S u w of None \<Rightarrow> True
             | Some x \<Rightarrow> x = map_option ar_password_hash (fmlookup (tb_accounts (tb w)) u)) \<and>
            (case sv_account S u w of None \<Rightarrow> True
             | Some x \<Rightarrow> x = fmlookup (tb_accounts (tb w)) u) \<and>
            (case sv_session S u w of None \<Rightarrow> True
             | Some x \<Rightarrow> x = map_option session_view (fmlookup (tb_sessions (tb w)) u))) \<and>
     (\<forall>k w. (case rd_get S k w of
               RErr \<Rightarrow> True
             | RNil \<Rightarrow> fmlookup (rk_vals (rk w)) k = None
             | RVal v \<Rightarrow> fmlookup (rk_vals (rk w)) k = Some v) \<and>
            (case rd_members S k w of None \<Rightarrow> True | Some xs \<Rightarrow> set xs = set (set_members (rk w) k))) \<and>
     (\<forall>cs w. tb (snd (rd_exec S cs w)) = tb w \<and>
        (if fst (rd_exec S cs w) then rk (snd (rd_exec S cs w)) = fold redis_run cs (rk w) else True))"

definition services_up :: "'w services \<Rightarrow> ('w \<Rightarrow> accountsSchema) \<Rightarrow> bool" where
  "services_up S tb \<longleftrightarrow>
     (\<forall>st w. sql_run st (tb w) \<noteq> None \<longrightarrow> fst (sv_exec S st w) \<noteq> None) \<and>
     (\<forall>u w. sv_hash S u w \<noteq> None \<and> sv_account S u w \<noteq> None \<and> sv_session S u w \<noteq> None) \<and>
     (\<forall>k w. rd_get S k w \<noteq> RErr \<and> rd_members S k w \<noteq> None) \<and>
     (\<forall>cs w. fst (rd_exec S cs w))"

lemma sql_live:
  assumes "services_ok S tb rk" "services_up S tb" "sql_run st (tb (ac_world s)) = Some (n, t)"
  obtains w where "sql S st s = (Some n, s\<lparr>ac_world := w\<rparr>)" "tb w = t" "rk w = rk (ac_world s)"
proof -
  obtain x w where e: "sv_exec S st (ac_world s) = (x, w)" by fastforce
  have k: "rk (snd (sv_exec S st (ac_world s))) = rk (ac_world s) \<and>
      (case fst (sv_exec S st (ac_world s)) of
         None \<Rightarrow> tb (snd (sv_exec S st (ac_world s))) = tb (ac_world s)
       | Some n \<Rightarrow> sql_run st (tb (ac_world s)) = Some (n, tb (snd (sv_exec S st (ac_world s)))))"
    using assms(1) unfolding services_ok_def by blast
  have "x \<noteq> None" using assms(2,3) e unfolding services_up_def by (metis fst_conv option.distinct(1))
  then show thesis using that [of w] k e assms(3) by (cases x) (auto simp: sql_def)
qed

lemma redis_live:
  assumes "services_ok S tb rk" "services_up S tb"
  obtains w where "redis S cs s = (True, s\<lparr>ac_world := w\<rparr>)" "rk w = fold redis_run cs (rk (ac_world s))"
    "tb w = tb (ac_world s)"
proof -
  obtain x w where e: "rd_exec S cs (ac_world s) = (x, w)" by fastforce
  have "x" using assms(2) e unfolding services_up_def by (metis fst_conv)
  moreover have "tb (snd (rd_exec S cs (ac_world s))) = tb (ac_world s) \<and>
      (if fst (rd_exec S cs (ac_world s))
       then rk (snd (rd_exec S cs (ac_world s))) = fold redis_run cs (rk (ac_world s)) else True)"
    using assms(1) unfolding services_ok_def by blast
  ultimately show thesis using that [of w] e by (auto simp: redis_def)
qed

lemma redis_try_live:
  assumes "services_ok S tb rk" "services_up S tb"
  obtains w where "redis_try S now cs s = s\<lparr>ac_world := w\<rparr>"
    "rk w = fold redis_run cs (rk (ac_world s))" "tb w = tb (ac_world s)"
proof (rule redis_live [OF assms, of cs s])
  fix w
  assume "redis S cs s = (True, s\<lparr>ac_world := w\<rparr>)" "rk w = fold redis_run cs (rk (ac_world s))"
    "tb w = tb (ac_world s)"
  then show thesis using that [of w] by (simp add: redis_try_def)
qed

lemma account_live:
  assumes "services_ok S tb rk" "services_up S tb"
  shows "getAccount S u s = Inr (map_option (scan_account u) (fmlookup (tb_accounts (tb (ac_world s))) u))"
proof -
  obtain x where x: "sv_account S u (ac_world s) = Some x" using assms(2) unfolding services_up_def by blast
  moreover have "case sv_account S u (ac_world s) of None \<Rightarrow> True
      | Some x \<Rightarrow> x = fmlookup (tb_accounts (tb (ac_world s))) u"
    using assms(1) unfolding services_ok_def by blast
  ultimately show ?thesis by (simp add: getAccount_def)
qed

lemma account_read:
  assumes "services_ok S tb rk" "getAccount S u s = Inr x"
  shows "x = map_option (scan_account u) (fmlookup (tb_accounts (tb (ac_world s))) u)"
proof -
  have "case sv_account S u (ac_world s) of None \<Rightarrow> True
      | Some x \<Rightarrow> x = fmlookup (tb_accounts (tb (ac_world s))) u"
    using assms(1) unfolding services_ok_def by blast
  then show ?thesis using assms(2) by (cases "sv_account S u (ac_world s)") (auto simp: getAccount_def)
qed

lemma session_live:
  assumes "services_ok S tb rk" "services_up S tb"
  shows "sv_session S tok w = Some (map_option session_view (fmlookup (tb_sessions (tb w)) tok))"
proof -
  obtain x where x: "sv_session S tok w = Some x" using assms(2) unfolding services_up_def by blast
  moreover have "case sv_session S tok w of None \<Rightarrow> True
      | Some x \<Rightarrow> x = map_option session_view (fmlookup (tb_sessions (tb w)) tok)"
    using assms(1) unfolding services_ok_def by blast
  ultimately show ?thesis by simp
qed

lemma get_live:
  assumes "services_ok S tb rk" "services_up S tb"
  shows "rd_get S k w = (case fmlookup (rk_vals (rk w)) k of None \<Rightarrow> RNil | Some v \<Rightarrow> RVal v)"
proof -
  have "rd_get S k w \<noteq> RErr" using assms(2) unfolding services_up_def by blast
  moreover have "case rd_get S k w of RErr \<Rightarrow> True | RNil \<Rightarrow> fmlookup (rk_vals (rk w)) k = None
      | RVal v \<Rightarrow> fmlookup (rk_vals (rk w)) k = Some v"
    using assms(1) unfolding services_ok_def by blast
  ultimately show ?thesis by (cases "rd_get S k w") auto
qed

lemma members_live:
  assumes "services_ok S tb rk" "services_up S tb"
  obtains xs where "rd_members S k w = Some xs" "set xs = set (set_members (rk w) k)"
proof -
  obtain xs where xs: "rd_members S k w = Some xs" using assms(2) unfolding services_up_def by blast
  moreover have "case rd_members S k w of None \<Rightarrow> True | Some xs \<Rightarrow> set xs = set (set_members (rk w) k)"
    using assms(1) unfolding services_ok_def by blast
  ultimately show thesis using that by simp
qed

lemmas live = account_live session_live get_live

lemma keys_differ [simp]:
  "session_key t = session_key t' \<longleftrightarrow> t = t'" "session_key t \<noteq> usess_key u" "session_key t \<noteq> perm_key u"
  "usess_key u \<noteq> session_key t" "perm_key u \<noteq> session_key t" "perm_key u = perm_key v \<longleftrightarrow> u = v"
  by (simp_all add: session_key_def usess_key_def perm_key_def)

subsection \<open>Revocation reaches every layer\<close>

text \<open>A token that no layer knows is refused at any later time.\<close>

definition dead :: "('w \<Rightarrow> accountsSchema) \<Rightarrow> ('w \<Rightarrow> redis_keys) \<Rightarrow> string \<Rightarrow> 'w accountSystem \<Rightarrow> bool" where
  "dead tb rk tok s \<longleftrightarrow>
     fmlookup (ac_sessCache s) tok = None \<and>
     fmlookup (tb_sessions (tb (ac_world s))) tok = None \<and>
     (ac_redis s \<longrightarrow> fmlookup (rk_vals (rk (ac_world s))) (session_key tok) = None)"

lemma dead_refused:
  assumes "services_ok S tb rk" "services_up S tb" "dead tb rk tok s"
  shows "fst (lookupSession S now tok s) = None"
  using assms(3) live [OF assms(1,2)]
  by (auto simp: dead_def lookupSession_def cachedSession_def redisGetSession_def redisReady_def)

text \<open>
  \<open>belongs u tok s\<close>: no layer knows the token as another account's. \<open>indexed u s\<close>: every
  session of the account that Redis holds is in the account's index.
\<close>

definition belongs :: "('w \<Rightarrow> accountsSchema) \<Rightarrow> ('w \<Rightarrow> redis_keys) \<Rightarrow> string \<Rightarrow> string \<Rightarrow> 'w accountSystem \<Rightarrow> bool" where
  "belongs tb rk u tok s \<longleftrightarrow>
     pred_option (\<lambda>e. as_username (sc_sess e) = u) (fmlookup (ac_sessCache s) tok) \<and>
     pred_option (\<lambda>r. sr_username r = u) (fmlookup (tb_sessions (tb (ac_world s))) tok)"

definition indexed :: "('w \<Rightarrow> redis_keys) \<Rightarrow> string \<Rightarrow> string \<Rightarrow> 'w accountSystem \<Rightarrow> bool" where
  "indexed rk u tok s \<longleftrightarrow>
     fmlookup (rk_vals (rk (ac_world s))) (session_key tok) = None \<or>
     tok \<in> set (set_members (rk (ac_world s)) (usess_key u))"

definition redis_in_use :: "instant \<Rightarrow> 'w accountSystem \<Rightarrow> bool" where
  "redis_in_use now s \<longleftrightarrow> (if ac_redis s then redisReady now s else True)"

lemma redisReady_world [simp]:
  "redisReady now (s\<lparr>ac_world := w\<rparr>) = redisReady now s"
  "redisReady now (s\<lparr>ac_permCache := c\<rparr>) = redisReady now s"
  by (simp_all add: redisReady_def)

lemma revoke_members_live:
  assumes "services_ok S tb rk" "services_up S tb"
  shows "\<exists>w. revoke_members S now keep toks s = s\<lparr>ac_world := w\<rparr> \<and> tb w = tb (ac_world s) \<and>
    rk_sets (rk w) = fold fmdrop (map session_key (filter (\<lambda>t. t \<noteq> keep) toks)) (rk_sets (rk (ac_world s))) \<and>
    (\<forall>t. fmlookup (rk_vals (rk w)) (session_key t) =
       (if t \<in> set toks \<and> t \<noteq> keep then None else fmlookup (rk_vals (rk (ac_world s))) (session_key t)))"
proof (induction toks arbitrary: s)
  case Nil
  then show ?case by (intro exI [of _ "ac_world s"]) simp
next
  case (Cons tok toks)
  show ?case
  proof (cases "tok = keep")
    case True
    then show ?thesis using Cons [of s] by auto
  next
    case False
    obtain w where w: "redis S [DEL (session_key tok)] s = (True, s\<lparr>ac_world := w\<rparr>)"
      "rk w = redis_run (DEL (session_key tok)) (rk (ac_world s))" "tb w = tb (ac_world s)"
      using redis_live [OF assms, of "[DEL (session_key tok)]" s] by auto
    obtain w' where "revoke_members S now keep toks (s\<lparr>ac_world := w\<rparr>) = s\<lparr>ac_world := w'\<rparr>" "tb w' = tb w"
      "rk_sets (rk w') = fold fmdrop (map session_key (filter (\<lambda>t. t \<noteq> keep) toks)) (rk_sets (rk w))"
      "\<forall>t. fmlookup (rk_vals (rk w')) (session_key t) =
         (if t \<in> set toks \<and> t \<noteq> keep then None else fmlookup (rk_vals (rk w)) (session_key t))"
      using Cons [of "s\<lparr>ac_world := w\<rparr>"] by auto
    with w False show ?thesis by (intro exI [of _ w']) auto
  qed
qed

lemma delete_sessions_lookup:
  "fmlookup (tb_sessions (snd (delete_sessions P t))) tok =
     (case fmlookup (tb_sessions t) tok of None \<Rightarrow> None | Some r \<Rightarrow> if P tok r then None else Some r)"
  by (auto simp: delete_sessions_def Let_def split: option.splits)

lemma drop_cached_lookup:
  "fmlookup (ac_sessCache (drop_cached u keep s)) tok =
     (case fmlookup (ac_sessCache s) tok of
        None \<Rightarrow> None
      | Some e \<Rightarrow> if as_username (sc_sess e) = u \<and> tok \<noteq> keep then None else Some e)"
  by (auto simp: drop_cached_def split: option.splits)

definition revoked_val :: "string list \<Rightarrow> string \<Rightarrow> redis_keys \<Rightarrow> string \<Rightarrow> redis_val option" where
  "revoked_val toks keep k t =
     (if t \<in> set toks \<and> t \<noteq> keep then None else fmlookup (rk_vals k) (session_key t))"

lemma revoke_redis_live:
  assumes "services_ok S tb rk" "services_up S tb"
  shows "\<exists>w. (let s' = (case rd_members S (usess_key u) (ac_world s) of
                  None \<Rightarrow> s | Some toks \<Rightarrow> revoke_members S now keep toks s)
          in if keep \<noteq> []
             then redis_try S now [DEL (usess_key u), SADD (usess_key u) keep,
                                   EXPIRE (usess_key u) accountSessionTTL] s'
             else redis_try S now [DEL (usess_key u)] s') = s\<lparr>ac_world := w\<rparr> \<and>
       tb w = tb (ac_world s) \<and>
       (\<forall>t. fmlookup (rk_vals (rk w)) (session_key t) =
          revoked_val (set_members (rk (ac_world s)) (usess_key u)) keep (rk (ac_world s)) t)"
proof -
  obtain toks where m: "rd_members S (usess_key u) (ac_world s) = Some toks"
    "set toks = set (set_members (rk (ac_world s)) (usess_key u))"
    using members_live [OF assms(1,2)] .
  obtain w where w: "revoke_members S now keep toks s = s\<lparr>ac_world := w\<rparr>" "tb w = tb (ac_world s)"
    "\<forall>t. fmlookup (rk_vals (rk w)) (session_key t) =
       (if t \<in> set toks \<and> t \<noteq> keep then None else fmlookup (rk_vals (rk (ac_world s))) (session_key t))"
    using revoke_members_live [OF assms(1,2), of now keep toks s] by blast
  have gone: "\<forall>t. fmlookup (rk_vals (rk w)) (session_key t) =
      revoked_val (set_members (rk (ac_world s)) (usess_key u)) keep (rk (ac_world s)) t"
    using w(3) m(2) by (simp add: revoked_val_def)
  obtain w1 where "redis_try S now [DEL (usess_key u), SADD (usess_key u) keep,
      EXPIRE (usess_key u) accountSessionTTL] (s\<lparr>ac_world := w\<rparr>) = s\<lparr>ac_world := w, ac_world := w1\<rparr>"
    "rk w1 = fold redis_run [DEL (usess_key u), SADD (usess_key u) keep,
      EXPIRE (usess_key u) accountSessionTTL] (rk (ac_world (s\<lparr>ac_world := w\<rparr>)))"
    "tb w1 = tb (ac_world (s\<lparr>ac_world := w\<rparr>))"
    by (rule redis_try_live [OF assms(1,2)])
  then have w1: "redis_try S now [DEL (usess_key u), SADD (usess_key u) keep,
      EXPIRE (usess_key u) accountSessionTTL] (s\<lparr>ac_world := w\<rparr>) = s\<lparr>ac_world := w1\<rparr>"
    "rk_vals (rk w1) = fmdrop (usess_key u) (rk_vals (rk w))" "tb w1 = tb w" by simp_all
  obtain w2 where "redis_try S now [DEL (usess_key u)] (s\<lparr>ac_world := w\<rparr>) = s\<lparr>ac_world := w, ac_world := w2\<rparr>"
    "rk w2 = fold redis_run [DEL (usess_key u)] (rk (ac_world (s\<lparr>ac_world := w\<rparr>)))"
    "tb w2 = tb (ac_world (s\<lparr>ac_world := w\<rparr>))"
    by (rule redis_try_live [OF assms(1,2)])
  then have w2: "redis_try S now [DEL (usess_key u)] (s\<lparr>ac_world := w\<rparr>) = s\<lparr>ac_world := w2\<rparr>"
    "rk_vals (rk w2) = fmdrop (usess_key u) (rk_vals (rk w))" "tb w2 = tb w" by simp_all
  show ?thesis
  proof (cases "keep = []")
    case True
    with m(1) w(1,2) w2 gone show ?thesis by (intro exI [of _ w2]) simp
  next
    case False
    with m(1) w(1,2) w1 gone show ?thesis by (intro exI [of _ w1]) simp
  qed
qed

lemma revoke_live:
  assumes "services_ok S tb rk" "services_up S tb" "redis_in_use now s"
  obtains w where "revokeUserSessions S now u keep s = drop_cached u keep (s\<lparr>ac_world := w\<rparr>)"
    "tb w = snd (delete_sessions (\<lambda>k r. sr_username r = u \<and> (keep = [] \<or> k \<noteq> keep)) (tb (ac_world s)))"
    "\<And>t. ac_redis s \<Longrightarrow> fmlookup (rk_vals (rk w)) (session_key t) =
       revoked_val (set_members (rk (ac_world s)) (usess_key u)) keep (rk (ac_world s)) t"
proof -
  let ?st = "if keep \<noteq> [] then DeleteOtherSessions u keep else DeleteUserSessions u"
  let ?P = "\<lambda>k r. sr_username r = u \<and> (keep = [] \<or> k \<noteq> keep)"
  have run: "sql_run ?st (tb (ac_world s)) =
      Some (fst (delete_sessions ?P (tb (ac_world s))), snd (delete_sessions ?P (tb (ac_world s))))"
    by (cases "keep = []") simp_all
  obtain w where w: "sql S ?st s = (Some (fst (delete_sessions ?P (tb (ac_world s)))), s\<lparr>ac_world := w\<rparr>)"
    "tb w = snd (delete_sessions ?P (tb (ac_world s)))" "rk w = rk (ac_world s)"
    using sql_live [OF assms(1,2) run] .
  obtain w2 where w2: "(if redisReady now (s\<lparr>ac_world := w\<rparr>) then
      (let s' = (case rd_members S (usess_key u) (ac_world (s\<lparr>ac_world := w\<rparr>)) of
                   None \<Rightarrow> s\<lparr>ac_world := w\<rparr> | Some toks \<Rightarrow> revoke_members S now keep toks (s\<lparr>ac_world := w\<rparr>))
       in if keep \<noteq> []
          then redis_try S now [DEL (usess_key u), SADD (usess_key u) keep,
                                EXPIRE (usess_key u) accountSessionTTL] s'
          else redis_try S now [DEL (usess_key u)] s')
      else s\<lparr>ac_world := w\<rparr>) = s\<lparr>ac_world := w2\<rparr>" "tb w2 = tb w"
    "\<And>t. ac_redis s \<Longrightarrow> fmlookup (rk_vals (rk w2)) (session_key t) =
       revoked_val (set_members (rk (ac_world s)) (usess_key u)) keep (rk (ac_world s)) t"
  proof (cases "ac_redis s")
    case True
    then have rdy: "redisReady now (s\<lparr>ac_world := w\<rparr>)" using assms(3) by (simp add: redis_in_use_def)
    obtain wa where wa: "(let s' = (case rd_members S (usess_key u) (ac_world (s\<lparr>ac_world := w\<rparr>)) of
                   None \<Rightarrow> s\<lparr>ac_world := w\<rparr> | Some toks \<Rightarrow> revoke_members S now keep toks (s\<lparr>ac_world := w\<rparr>))
       in if keep \<noteq> []
          then redis_try S now [DEL (usess_key u), SADD (usess_key u) keep,
                                EXPIRE (usess_key u) accountSessionTTL] s'
          else redis_try S now [DEL (usess_key u)] s') = s\<lparr>ac_world := w, ac_world := wa\<rparr>"
      "tb wa = tb (ac_world (s\<lparr>ac_world := w\<rparr>))"
      "\<forall>t. fmlookup (rk_vals (rk wa)) (session_key t) = revoked_val (set_members
        (rk (ac_world (s\<lparr>ac_world := w\<rparr>))) (usess_key u)) keep (rk (ac_world (s\<lparr>ac_world := w\<rparr>))) t"
      using revoke_redis_live [OF assms(1,2), where u = u and s = "s\<lparr>ac_world := w\<rparr>" and now = now and keep = keep]
      by blast
    show thesis by (rule that [of wa]) (simp_all only: rdy if_True wa, simp_all add: wa w(3))
  next
    case False
    then show thesis using that [of w] by (simp add: redisReady_def)
  qed
  have eq: "revokeUserSessions S now u keep s = drop_cached u keep (s\<lparr>ac_world := w2\<rparr>)"
    unfolding revokeUserSessions_def w(1) snd_conv Let_def [of "s\<lparr>ac_world := w\<rparr>"] w2(1) by simp
  show thesis using that [of w2] eq w(2) w2(2,3) by simp
qed

lemma revoke_dead:
  assumes "services_ok S tb rk" "services_up S tb" "redis_in_use now s"
    "belongs tb rk u tok s" "indexed rk u tok s" "tok \<noteq> keep"
  shows "dead tb rk tok (revokeUserSessions S now u keep s)"
proof -
  obtain w where w: "revokeUserSessions S now u keep s = drop_cached u keep (s\<lparr>ac_world := w\<rparr>)"
    "tb w = snd (delete_sessions (\<lambda>k r. sr_username r = u \<and> (keep = [] \<or> k \<noteq> keep)) (tb (ac_world s)))"
    "\<And>t. ac_redis s \<Longrightarrow> fmlookup (rk_vals (rk w)) (session_key t) =
       revoked_val (set_members (rk (ac_world s)) (usess_key u)) keep (rk (ac_world s)) t"
    using revoke_live [OF assms(1-3), where u = u and keep = keep] by blast
  have row: "fmlookup (tb_sessions (tb w)) tok = None"
    using assms(4,6) unfolding w(2) delete_sessions_lookup belongs_def by (auto split: option.splits)
  have cache: "fmlookup (ac_sessCache (drop_cached u keep (s\<lparr>ac_world := w\<rparr>))) tok = None"
    using assms(4,6) by (auto simp: drop_cached_lookup belongs_def split: option.splits)
  have key: "ac_redis s \<Longrightarrow> fmlookup (rk_vals (rk w)) (session_key tok) = None"
    using w(3) assms(5,6) by (auto simp: revoked_val_def indexed_def)
  show ?thesis unfolding dead_def w(1) using cache row key by (simp add: drop_cached_def)
qed

lemma sql_ok_frame:
  assumes "services_ok S tb rk" "sql S st s = (Some n, s1)"
  obtains w where "s1 = s\<lparr>ac_world := w\<rparr>" "rk w = rk (ac_world s)" "sql_run st (tb (ac_world s)) = Some (n, tb w)"
proof -
  obtain w where w: "sv_exec S st (ac_world s) = (Some n, w)" "s1 = s\<lparr>ac_world := w\<rparr>"
    using assms(2) by (auto simp: sql_def split: prod.splits)
  have "rk (snd (sv_exec S st (ac_world s))) = rk (ac_world s) \<and>
      (case fst (sv_exec S st (ac_world s)) of
         None \<Rightarrow> tb (snd (sv_exec S st (ac_world s))) = tb (ac_world s)
       | Some n \<Rightarrow> sql_run st (tb (ac_world s)) = Some (n, tb (snd (sv_exec S st (ac_world s)))))"
    using assms(1) unfolding services_ok_def by blast
  then show thesis using that [of w] w by simp
qed

lemma account_statements_keep_sessions:
  "sql_run (UpdatePassword h d u) t = Some (n, t') \<Longrightarrow> tb_sessions t' = tb_sessions t"
  "sql_run (DeleteAccount u) t = Some (n, t') \<Longrightarrow> tb_sessions t' = tb_sessions t"
  by (auto simp: update_account_def split: option.splits)

lemma putPassword_frame:
  assumes "services_ok S tb rk" "putPassword S now u p s = (None, s1)"
  obtains w where "s1 = s\<lparr>ac_world := w\<rparr>" "rk w = rk (ac_world s)"
    "tb_sessions (tb w) = tb_sessions (tb (ac_world s))"
proof -
  obtain h n where h: "bc_generate S p (ac_world s) = Some h"
      "sql S (UpdatePassword h (ms now) u) s = (Some n, s1)"
    using assms(2) by (auto simp: putPassword_def split: option.splits prod.splits if_splits)
  obtain w where "s1 = s\<lparr>ac_world := w\<rparr>" "rk w = rk (ac_world s)"
    "sql_run (UpdatePassword h (ms now) u) (tb (ac_world s)) = Some (n, tb w)"
    using sql_ok_frame [OF assms(1) h(2)] .
  then show thesis using that [of w] account_statements_keep_sessions(1) by blast
qed

lemma layers_frame:
  assumes "rk w = rk (ac_world s)" "tb_sessions (tb w) = tb_sessions (tb (ac_world s))"
  shows "belongs tb rk u tok (s\<lparr>ac_world := w\<rparr>) = belongs tb rk u tok s"
    "indexed rk u tok (s\<lparr>ac_world := w\<rparr>) = indexed rk u tok s"
    "redis_in_use now (s\<lparr>ac_world := w\<rparr>) = redis_in_use now s"
  using assms by (simp_all add: belongs_def indexed_def redis_in_use_def)

lemma dead_invalidatePerms [simp]: "dead tb rk tok (invalidatePerms u s) = dead tb rk tok s"
  by (simp add: dead_def invalidatePerms_def)

lemma dead_redisDelPerms:
  assumes "services_ok S tb rk" "services_up S tb" "dead tb rk tok s"
  shows "dead tb rk tok (redisDelPerms S now u s)"
proof -
  obtain w where "redis_try S now [DEL (perm_key u)] s = s\<lparr>ac_world := w\<rparr>"
    "rk w = fold redis_run [DEL (perm_key u)] (rk (ac_world s))" "tb w = tb (ac_world s)"
    by (rule redis_try_live [OF assms(1,2)])
  with assms(3) show ?thesis by (simp add: redisDelPerms_def dead_def)
qed

lemma password_change_revokes:
  assumes "handleAccountPassword S now r ident body s = (Reply u, s')"
  obtains p s1 where "putPassword S now u p s = (None, s1)" "s' = revokeUserSessions S now u (bearerToken r) s1"
  using assms
  by (auto simp: handleAccountPassword_def changeOwnPassword_def resetPassword_def Let_def
      split: option.splits if_splits sum.splits prod.splits)

lemma account_deletion_revokes:
  assumes "services_ok S tb rk" "handleAccountDelete S now ident u s = (Reply b, s')"
  obtains w where "s' = invalidatePerms (TrimSpace u) (redisDelPerms S now (TrimSpace u)
      (revokeUserSessions S now (TrimSpace u) [] (s\<lparr>ac_world := w\<rparr>)))" "rk w = rk (ac_world s)"
    "tb_sessions (tb w) = tb_sessions (tb (ac_world s))"
proof -
  obtain n s1 where d: "sql S (DeleteAccount (TrimSpace u)) s = (Some n, s1)"
    "s' = invalidatePerms (TrimSpace u) (redisDelPerms S now (TrimSpace u)
      (revokeUserSessions S now (TrimSpace u) [] s1))"
    using assms(2)
    by (auto simp: handleAccountDelete_def deleteAccount_def Let_def
        split: option.splits if_splits prod.splits)
  obtain w where "s1 = s\<lparr>ac_world := w\<rparr>" "rk w = rk (ac_world s)"
    "sql_run (DeleteAccount (TrimSpace u)) (tb (ac_world s)) = Some (n, tb w)"
    using sql_ok_frame [OF assms(1) d(1)] .
  then show thesis using that [of w] d(2) account_statements_keep_sessions(2) by blast
qed


text \<open>Services that keep everything in memory and never fail.\<close>

type_synonym memory = "accountsSchema \<times> redis_keys"

definition mem_services :: "memory services" where
  "mem_services =
     \<lparr>sv_exec = \<lambda>st w. (case sql_run st (fst w) of None \<Rightarrow> (None, w) | Some (n, t) \<Rightarrow> (Some n, t, snd w)),
      sv_admins = \<lambda>w. Some (maplen (fmfilter (\<lambda>u.
        pred_option (\<lambda>r. ar_is_admin r = 1) (fmlookup (tb_accounts (fst w)) u)) (tb_accounts (fst w)))),
      sv_hash = \<lambda>u w. Some (map_option ar_password_hash (fmlookup (tb_accounts (fst w)) u)),
      sv_account = \<lambda>u w. Some (fmlookup (tb_accounts (fst w)) u),
      sv_accounts = \<lambda>w. Some (sorted_list_of_fmap (tb_accounts (fst w))),
      sv_session = \<lambda>t w. Some (map_option session_view (fmlookup (tb_sessions (fst w)) t)),
      rd_get = \<lambda>k w. (case fmlookup (rk_vals (snd w)) k of None \<Rightarrow> RNil | Some v \<Rightarrow> RVal v),
      rd_members = \<lambda>k w. Some (set_members (snd w) k),
      rd_exec = \<lambda>cs w. (True, fst w, fold redis_run cs (snd w)),
      bc_generate = \<lambda>p w. Some (''h:'' @ p),
      bc_compare = \<lambda>h p. h = ''h:'' @ p\<rparr>"

lemma mem_services_ok: "services_ok mem_services fst snd"
  unfolding services_ok_def by (auto simp: mem_services_def split: option.splits)

lemma mem_services_up: "services_up mem_services fst"
  unfolding services_up_def by (auto simp: mem_services_def split: option.splits)

text \<open>
  A node with the administrator \<open>root\<close> and the account \<open>bob\<close>, Redis configured and out of use
  until \<open>down\<close>.
\<close>

definition sample_system :: "instant \<Rightarrow> memory accountSystem" where
  "sample_system down =
     \<lparr>ac_world =
        (\<lparr>tb_accounts = fmupd ''bob''
            \<lparr>ar_password_hash = ''h:old secret'', ar_is_admin = 0, ar_permissions = PermsEmpty,
             ar_created_at = 1, ar_updated_at = 1\<rparr> (fmupd ''root''
            \<lparr>ar_password_hash = ''h:root secret'', ar_is_admin = 1, ar_permissions = PermsEmpty,
             ar_created_at = 1, ar_updated_at = 1\<rparr> fmempty),
          tb_sessions = fmempty\<rparr>, \<lparr>rk_vals = fmempty, rk_sets = fmempty\<rparr>),
      ac_redis = True, ac_rdDown = down, ac_sessCache = fmempty, ac_permCache = fmempty,
      ac_loginFails = fmempty\<rparr>"

definition root_ident :: identity where
  "root_ident = \<lparr>id_username = ''root'', id_isAdmin = True, id_via = ''token''\<rparr>"

definition root_request :: request where
  "root_request = \<lparr>rq_pattern = ''PUT /api/accounts/password'', rq_path = ''/api/accounts/password'',
     rq_x_auth_token = ''R'', rq_authorization = [], rq_query_token = []\<rparr>"

definition bob_session :: accountSession where
  "bob_session = \<lparr>as_username = ''bob'', as_isAdmin = False, as_expiresAt = 30 * 24 * 3600 * 1000\<rparr>"

definition bob_logged_in :: "memory accountSystem" where
  "bob_logged_in = putSession mem_services (10 ^ 9) ''T'' bob_session accountSessionTTL (sample_system 0)"

lemmas account_defs = sql_def redis_def redis_try_def redisReady_def redisFailed_def cacheSession_def
  invalidateSession_def mem_services_def sample_system_def ms_def putSession_def set_members_def
  usess_key_def session_key_def perm_key_def accountRedisPrefix_def


lemma ms_mono: "a \<le> b \<Longrightarrow> ms a \<le> ms b"
  unfolding ms_def by (rule zdiv_mono1) simp_all

lemma lookup_backfills:
  assumes "services_ok S tb rk" "services_up S tb" "redisReady now s"
    "fmlookup (ac_sessCache s) tok = None"
    "fmlookup (rk_vals (rk (ac_world s))) (session_key tok) = None"
    "fmlookup (tb_sessions (tb (ac_world s))) tok = Some row" "ms now < sr_expires_at row"
  obtains sess w where "lookupSession S now tok s = (Some sess, (cacheSession now tok sess s)\<lparr>ac_world := w\<rparr>)"
    "as_username sess = sr_username row" "as_expiresAt sess = sr_expires_at row" "tb w = tb (ac_world s)"
    "rk w = redis_run (SET (session_key tok) (SessionJson sess) ((sr_expires_at row - ms now) * 10 ^ 6)) (rk (ac_world s))"
proof -
  define adm where "adm = (case getAccount S (sr_username row) s of
      Inl e \<Rightarrow> False | Inr None \<Rightarrow> False | Inr (Some a) \<Rightarrow> acc_IsAdmin a)"
  define sess where "sess = \<lparr>as_username = sr_username row, as_isAdmin = adm, as_expiresAt = sr_expires_at row\<rparr>"
  define cmd where "cmd = SET (session_key tok) (SessionJson sess) ((sr_expires_at row - ms now) * 10 ^ 6)"
  obtain w where w: "redis_try S now [cmd] (cacheSession now tok sess s) = (cacheSession now tok sess s)\<lparr>ac_world := w\<rparr>"
    "rk w = fold redis_run [cmd] (rk (ac_world (cacheSession now tok sess s)))"
    "tb w = tb (ac_world (cacheSession now tok sess s))"
    by (rule redis_try_live [OF assms(1,2)])
  have rdy: "redisReady now (cacheSession now tok sess s)"
    using assms(3) by (simp add: redisReady_def cacheSession_def split: if_splits)
  have "redisSetSession S now tok sess (cacheSession now tok sess s) = (cacheSession now tok sess s)\<lparr>ac_world := w\<rparr>"
    using assms(7) rdy w(1) by (simp add: redisSetSession_def sess_def cmd_def)
  then have "lookupSession S now tok s = (Some sess, (cacheSession now tok sess s)\<lparr>ac_world := w\<rparr>)"
    using assms(3-7) live(2,3) [OF assms(1,2)]
    by (simp add: lookupSession_def cachedSession_def redisGetSession_def session_view_def adm_def [symmetric]
        sess_def [symmetric])
  with w that show thesis by (simp add: sess_def cacheSession_def cmd_def)
qed

text \<open>
  A session that was looked up while Redis had no entry of it survives the revocation.
  A login during a Redis outage stores the session in the database only; a later request
  puts it into Redis without adding it to the account's index. Changing the password (or
  deleting the account) then deletes the database row but, going by the index, not the Redis
  entry: after the revocation, though the database no longer has the session, its token is
  accepted until the session expires.
\<close>

theorem unindexed_session_survives:
  assumes "services_ok S tb rk" "services_up S tb" "ac_redis s" "ac_rdDown s < now"
    "fmlookup (ac_sessCache s) tok = None"
    "fmlookup (rk_vals (rk (ac_world s))) (session_key tok) = None"
    "tok \<notin> set (set_members (rk (ac_world s)) (usess_key u))"
    "fmlookup (tb_sessions (tb (ac_world s))) tok = Some row" "sr_username row = u"
    "now \<le> t" "t \<le> later" "ms later < sr_expires_at row" "tok \<noteq> keep"
    "s' = revokeUserSessions S t u keep (snd (lookupSession S now tok s))"
  shows "map_option as_username (fst (lookupSession S later tok s')) = Some u \<and>
         fmlookup (tb_sessions (tb (ac_world s'))) tok = None"
proof -
  have rdy: "redisReady now s" using assms(3,4) by (simp add: redisReady_def)
  have "ms now \<le> ms later" using assms(10,11) by (intro ms_mono) simp
  then have fresh: "ms now < sr_expires_at row" using assms(12) by simp
  obtain sess w where l: "lookupSession S now tok s = (Some sess, (cacheSession now tok sess s)\<lparr>ac_world := w\<rparr>)"
    "as_username sess = sr_username row" "as_expiresAt sess = sr_expires_at row" "tb w = tb (ac_world s)"
    "rk w = redis_run (SET (session_key tok) (SessionJson sess) ((sr_expires_at row - ms now) * 10 ^ 6)) (rk (ac_world s))"
    using lookup_backfills [OF assms(1,2) rdy assms(5,6,8) fresh] .
  let ?s1 = "(cacheSession now tok sess s)\<lparr>ac_world := w\<rparr>"
  have use: "redis_in_use t ?s1"
    using assms(3,4,10) by (simp add: redis_in_use_def redisReady_def cacheSession_def)
  obtain w2 where r: "revokeUserSessions S t u keep ?s1 = drop_cached u keep (?s1\<lparr>ac_world := w2\<rparr>)"
    "tb w2 = snd (delete_sessions (\<lambda>k r. sr_username r = u \<and> (keep = [] \<or> k \<noteq> keep)) (tb (ac_world ?s1)))"
    "\<And>t. ac_redis ?s1 \<Longrightarrow> fmlookup (rk_vals (rk w2)) (session_key t) =
       revoked_val (set_members (rk (ac_world ?s1)) (usess_key u)) keep (rk (ac_world ?s1)) t"
    using revoke_live [OF assms(1,2) use, where u = u and keep = keep] by blast
  have s': "s' = drop_cached u keep (?s1\<lparr>ac_world := w2\<rparr>)" using assms(14) l(1) r(1) by simp
  have val: "fmlookup (rk_vals (rk w2)) (session_key tok) = Some (SessionJson sess)"
    using r(3) [of tok] assms(3,7) l(5) by (simp add: revoked_val_def set_members_def cacheSession_def)
  have cache: "fmlookup (ac_sessCache s') tok = None"
    using l(2) assms(9,13) by (simp add: s' drop_cached_lookup cacheSession_def)
  have rdy': "redisReady later s'" "ac_world s' = w2"
    using assms(3,4,10,11) by (simp_all add: s' redisReady_def drop_cached_def cacheSession_def)
  have "fst (lookupSession S later tok s') = Some sess"
    using cache rdy' val l(3) assms(12) live(3) [OF assms(1,2)]
    by (simp add: lookupSession_def cachedSession_def redisGetSession_def)
  moreover have "fmlookup (tb_sessions (tb w2)) tok = None"
    unfolding r(2) delete_sessions_lookup using assms(8,9,13) l(4) by simp
  ultimately show ?thesis using l(2) assms(9) rdy'(2) by simp
qed

text \<open>Bob logs in while Redis is out of use (until second 2); his token is used at second 60.\<close>

definition bob_offline :: "memory accountSystem" where
  "bob_offline = (putSession mem_services (10 ^ 9) ''T'' bob_session accountSessionTTL
     (sample_system (2 * 10 ^ 9)))\<lparr>ac_sessCache := fmempty\<rparr>"

theorem unindexed_session_witness:
  "map_option as_username (fst (lookupSession mem_services (86400 * 10 ^ 9) ''T''
     (revokeUserSessions mem_services (61 * 10 ^ 9) ''bob'' ''R''
       (snd (lookupSession mem_services (60 * 10 ^ 9) ''T'' bob_offline))))) = Some ''bob''"
proof -
  have "ac_redis bob_offline" "ac_rdDown bob_offline < 60 * 10 ^ 9"
    "fmlookup (ac_sessCache bob_offline) ''T'' = None"
    "fmlookup (rk_vals (snd (ac_world bob_offline))) (session_key ''T'') = None"
    "''T'' \<notin> set (set_members (snd (ac_world bob_offline)) (usess_key ''bob''))"
    "fmlookup (tb_sessions (fst (ac_world bob_offline))) ''T'' =
       Some \<lparr>sr_username = ''bob'', sr_created_at = 1000, sr_expires_at = 30 * 24 * 3600 * 1000, sr_last_used = 1000\<rparr>"
    by (simp_all add: bob_offline_def bob_session_def account_defs)
  from unindexed_session_survives [OF mem_services_ok mem_services_up this, where t = "61 * 10 ^ 9" and
      later = "86400 * 10 ^ 9" and keep = "''R''"]
  show ?thesis by (simp add: ms_def)
qed

subsection \<open>A login's token\<close>

text \<open>Every layer that knows the token knows it with this session, and the database does.\<close>

definition held :: "('w \<Rightarrow> accountsSchema) \<Rightarrow> ('w \<Rightarrow> redis_keys) \<Rightarrow> string \<Rightarrow> accountSession \<Rightarrow> 'w accountSystem \<Rightarrow> bool" where
  "held tb rk tok sess s \<longleftrightarrow>
     pred_option (\<lambda>e. sc_sess e = sess) (fmlookup (ac_sessCache s) tok) \<and>
     pred_option (\<lambda>v. v = SessionJson sess) (fmlookup (rk_vals (rk (ac_world s))) (session_key tok)) \<and>
     map_option session_view (fmlookup (tb_sessions (tb (ac_world s))) tok) =
       Some (as_username sess, as_expiresAt sess) \<and>
     map_option (\<lambda>r. ar_is_admin r \<noteq> 0) (fmlookup (tb_accounts (tb (ac_world s))) (as_username sess)) =
       Some (as_isAdmin sess)"

lemma cachedSession_held:
  assumes "held tb rk tok sess s"
  obtains "ms later < as_expiresAt sess" "cachedSession later tok s = (Some sess, s)"
  | s' where "cachedSession later tok s = (None, s')" "ac_world s' = ac_world s"
proof (cases "fmlookup (ac_sessCache s) tok")
  case None
  then show thesis using that(2) [of s] by (simp add: cachedSession_def)
next
  case (Some e)
  then have e: "sc_sess e = sess" using assms by (simp add: held_def)
  consider "later > sc_expires e" | "\<not> later > sc_expires e" "as_expiresAt sess \<le> ms later"
    | "\<not> later > sc_expires e" "ms later < as_expiresAt sess" by linarith
  then show thesis
  proof cases
    case 1
    then show thesis using Some that(2) [of s] by (simp add: cachedSession_def)
  next
    case 2
    then show thesis using Some e that(2) [of "invalidateSession tok s"]
      by (simp add: cachedSession_def invalidateSession_def)
  next
    case 3
    then show thesis using Some e that(1) by (simp add: cachedSession_def)
  qed
qed

lemma held_lookup:
  assumes "services_ok S tb rk" "services_up S tb" "held tb rk tok sess s"
  shows "fst (lookupSession S later tok s) = (if ms later < as_expiresAt sess then Some sess else None)"
  using cachedSession_held [OF assms(3), of later]
proof cases
  case 1
  then show ?thesis by (simp add: lookupSession_def)
next
  case (2 s')
  obtain row where row: "fmlookup (tb_sessions (tb (ac_world s))) tok = Some row"
      "session_view row = (as_username sess, as_expiresAt sess)"
    using assms(3) by (auto simp: held_def)
  obtain a where a: "fmlookup (tb_accounts (tb (ac_world s))) (as_username sess) = Some a"
      "(ar_is_admin a \<noteq> 0) = as_isAdmin sess"
    using assms(3) by (auto simp: held_def)
  have key: "pred_option (\<lambda>v. v = SessionJson sess) (fmlookup (rk_vals (rk (ac_world s))) (session_key tok))"
    using assms(3) by (simp add: held_def)
  show ?thesis
  proof (cases "redisReady later s' \<and> fmlookup (rk_vals (rk (ac_world s))) (session_key tok) \<noteq> None \<and>
      ms later < as_expiresAt sess")
    case True
    then have "redisGetSession S later tok s' = (Some sess, s')"
      using key 2(2) live(3) [OF assms(1,2)] by (auto simp: redisGetSession_def)
    with 2 True show ?thesis by (simp add: lookupSession_def)
  next
    case False
    then have "(if redisReady later s' then redisGetSession S later tok s' else (None, s')) = (None, s')"
      using key 2(2) live(3) [OF assms(1,2)] by (auto simp: redisGetSession_def split: option.split)
    with 2 row a show ?thesis
      using live(1,2) [OF assms(1,2)] by (simp add: lookupSession_def scan_account_def Let_def)
  qed
qed

lemma held_authenticate:
  assumes "services_ok S tb rk" "services_up S tb" "held tb rk tok sess s" "bearerToken r = tok" "tok \<noteq> []"
  shows "fst (authenticate S later r s) =
    (if ms later < as_expiresAt sess
     then Some \<lparr>id_username = as_username sess, id_isAdmin = as_isAdmin sess, id_via = ''token''\<rparr> else None)"
proof -
  obtain x s' where l: "lookupSession S later tok s = (x, s')" by fastforce
  then have "x = (if ms later < as_expiresAt sess then Some sess else None)"
    using held_lookup [OF assms(1-3), of later] by simp
  then show ?thesis using l assms(4,5) by (simp add: authenticate_def Let_def)
qed

lemma putSession_held:
  assumes "services_ok S tb rk" "services_up S tb" "ms now < as_expiresAt sess"
    "fmlookup (tb_sessions (tb (ac_world s))) tok = None"
    "fmlookup (rk_vals (rk (ac_world s))) (session_key tok) = None"
    "map_option (\<lambda>r. ar_is_admin r \<noteq> 0) (fmlookup (tb_accounts (tb (ac_world s))) (as_username sess)) =
       Some (as_isAdmin sess)"
  shows "held tb rk tok sess (putSession S now tok sess ttl s)"
proof -
  let ?st = "UpsertSession tok (as_username sess) (ms now) (as_expiresAt sess) (ms now)"
  let ?row = "\<lparr>sr_username = as_username sess, sr_created_at = ms now, sr_expires_at = as_expiresAt sess,
     sr_last_used = ms now\<rparr>"
  let ?t = "(tb (ac_world s))\<lparr>tb_sessions := fmupd tok ?row (tb_sessions (tb (ac_world s)))\<rparr>"
  have run: "sql_run ?st (tb (ac_world s)) = Some (1, ?t)" using assms(4) by simp
  obtain w where w: "sql S ?st s = (Some 1, s\<lparr>ac_world := w\<rparr>)" "tb w = ?t" "rk w = rk (ac_world s)"
    using sql_live [OF assms(1,2) run] .
  let ?s1 = "s\<lparr>ac_world := w\<rparr>"
  have off: "held tb rk tok sess (cacheSession now tok sess ?s1)"
    using assms(5,6) w by (simp add: held_def cacheSession_def session_view_def)
  show ?thesis
  proof (cases "redisReady now ?s1")
    case False
    then show ?thesis using assms(3) w(1) off by (simp add: putSession_def)
  next
    case True
    obtain w1 where w1: "redis S [SET (session_key tok) (SessionJson sess) ttl] ?s1 = (True, ?s1\<lparr>ac_world := w1\<rparr>)"
      "rk w1 = fold redis_run [SET (session_key tok) (SessionJson sess) ttl] (rk (ac_world ?s1))"
      "tb w1 = tb (ac_world ?s1)"
      by (rule redis_live [OF assms(1,2)])
    let ?s2 = "?s1\<lparr>ac_world := w1\<rparr>"
    let ?cs = "[SADD (usess_key (as_username sess)) tok, EXPIRE (usess_key (as_username sess)) ttl]"
    obtain w2 where w2: "redis_try S now ?cs ?s2 = ?s2\<lparr>ac_world := w2\<rparr>"
      "rk w2 = fold redis_run ?cs (rk (ac_world ?s2))" "tb w2 = tb (ac_world ?s2)"
      by (rule redis_try_live [OF assms(1,2)])
    have "putSession S now tok sess ttl s = cacheSession now tok sess (?s2\<lparr>ac_world := w2\<rparr>)"
      using assms(3) w(1) True w1(1) w2(1) by (simp add: putSession_def)
    moreover have "held tb rk tok sess (cacheSession now tok sess (?s2\<lparr>ac_world := w2\<rparr>))"
      using assms(6) w w1 w2 by (simp add: held_def cacheSession_def session_view_def)
    ultimately show ?thesis by simp
  qed
qed

lemma purge_frame:
  assumes "services_ok S tb rk" "services_up S tb"
  obtains w m where "purgeExpiredSessions S now s = s\<lparr>ac_world := w, ac_loginFails := m\<rparr>"
    "rk w = rk (ac_world s)" "tb_accounts (tb w) = tb_accounts (tb (ac_world s))"
    "\<And>tok. fmlookup (tb_sessions (tb (ac_world s))) tok = None \<Longrightarrow> fmlookup (tb_sessions (tb w)) tok = None"
proof -
  let ?d = "delete_sessions (\<lambda>k r. sr_expires_at r < ms now) (tb (ac_world s))"
  have run: "sql_run (DeleteExpiredSessions (ms now)) (tb (ac_world s)) = Some (fst ?d, snd ?d)" by simp
  obtain w where w: "sql S (DeleteExpiredSessions (ms now)) s = (Some (fst ?d), s\<lparr>ac_world := w\<rparr>)"
    "tb w = snd ?d" "rk w = rk (ac_world s)"
    using sql_live [OF assms run] .
  show thesis
  proof (rule that [of "purgeLoginFails (ac_loginFails s) now" w])
    show "purgeExpiredSessions S now s = s\<lparr>ac_world := w, ac_loginFails := purgeLoginFails (ac_loginFails s) now\<rparr>"
      by (simp add: purgeExpiredSessions_def w(1))
    show "tb_accounts (tb w) = tb_accounts (tb (ac_world s))"
      unfolding w(2) by (simp add: delete_sessions_def Let_def)
    show "fmlookup (tb_sessions (tb w)) tok = None" if "fmlookup (tb_sessions (tb (ac_world s))) tok = None" for tok
      unfolding w(2) delete_sessions_lookup that by simp
  qed (rule w(3))
qed

lemma checkPassword_live:
  assumes "services_ok S tb rk" "services_up S tb" "checkPassword S u p s = Some a"
  obtains row where "fmlookup (tb_accounts (tb (ac_world s))) u = Some row"
    "bc_compare S (ar_password_hash row) p" "a = scan_account u row"
proof -
  have "case sv_hash S u (ac_world s) of None \<Rightarrow> True
      | Some x \<Rightarrow> x = map_option ar_password_hash (fmlookup (tb_accounts (tb (ac_world s))) u)"
    using assms(1) unfolding services_ok_def by blast
  then show thesis using assms(3) live(1) [OF assms(1,2)] that
    by (auto simp: checkPassword_def split: option.splits if_splits)
qed

text \<open>
  A login answers with a token only if the name and address are not locked out and the
  password matches the stored hash of the named account; the answer carries that account's
  name and role. The token, which no layer knew before, authenticates as this account with
  this role at every instant until the stated expiry, from whatever layer the lookup is
  served, and at none afterwards.
\<close>

theorem login_token_honoured:
  assumes "services_ok S tb rk" "services_up S tb"
    "handleAccountLogin S iter now (Some token) ip (Some (name, pw)) s = Some (Reply lr, s')"
    "fmlookup (tb_sessions (tb (ac_world s))) token = None"
    "fmlookup (rk_vals (rk (ac_world s))) (session_key token) = None"
    "bearerToken r = token" "token \<noteq> []"
  shows "\<not> loginBlocked (ac_loginFails s) now (TrimSpace name) ip \<and>
         lr_Token lr = token \<and> lr_Username lr = TrimSpace name \<and>
         lr_ExpiresAt lr = ms (now + accountSessionTTL) \<and>
         (case fmlookup (tb_accounts (tb (ac_world s))) (TrimSpace name) of
            None \<Rightarrow> False
          | Some row \<Rightarrow> bc_compare S (ar_password_hash row) pw \<and> lr_IsAdmin lr = (ar_is_admin row \<noteq> 0)) \<and>
         fst (authenticate S later r s') =
           (if ms later < lr_ExpiresAt lr
            then Some \<lparr>id_username = lr_Username lr, id_isAdmin = lr_IsAdmin lr, id_via = ''token''\<rparr>
            else None)"
proof -
  let ?u = "TrimSpace name"
  obtain w m where w: "purgeExpiredSessions S now s = s\<lparr>ac_world := w, ac_loginFails := m\<rparr>"
    "rk w = rk (ac_world s)" "tb_accounts (tb w) = tb_accounts (tb (ac_world s))"
    "\<And>tok. fmlookup (tb_sessions (tb (ac_world s))) tok = None \<Longrightarrow> fmlookup (tb_sessions (tb w)) tok = None"
    using purge_frame [OF assms(1,2)] by metis
  let ?s1 = "s\<lparr>ac_world := w, ac_loginFails := m\<rparr>"
  obtain a where a: "checkPassword S ?u pw ?s1 = Some a"
    using assms(3) w(1) by (auto simp: handleAccountLogin_def Let_def split: if_splits option.splits)
  obtain row where row: "fmlookup (tb_accounts (tb w)) ?u = Some row"
    "bc_compare S (ar_password_hash row) pw" "a = scan_account ?u row"
    using checkPassword_live [OF assms(1,2) a] by auto
  define sess where "sess = \<lparr>as_username = ?u, as_isAdmin = (ar_is_admin row \<noteq> 0),
     as_expiresAt = ms (now + accountSessionTTL)\<rparr>"
  define s2 where "s2 = ?s1\<lparr>ac_loginFails := clearLoginFailures m ?u ip\<rparr>"
  have login: "\<not> loginBlocked (ac_loginFails s) now ?u ip"
    "lr = \<lparr>lr_Token = token, lr_Username = ?u, lr_IsAdmin = (ar_is_admin row \<noteq> 0),
           lr_ExpiresAt = ms (now + accountSessionTTL)\<rparr>"
    "s' = putSession S now token sess accountSessionTTL s2"
    using assms(3) a row(3) w(1)
    by (auto simp: handleAccountLogin_def Let_def scan_account_def s2_def sess_def split: if_splits)
  have "ms now < ms (now + accountSessionTTL)"
    by (simp add: ms_def accountSessionTTL_def)
  then have "held tb rk token sess s'"
    unfolding login(3) using assms(4,5) w row(1)
    by (intro putSession_held [OF assms(1,2)]) (simp_all add: sess_def s2_def)
  from held_authenticate [OF assms(1,2) this assms(6,7), of later] show ?thesis
    using login(1,2) row(1,2) w(3) by (simp add: sess_def)
qed

theorem login_token_witness:
  "is_reply (fst (the (handleAccountLogin mem_services (\<lambda>m. []) (10 ^ 9) (Some ''R'') ''10.0.0.1''
       (Some (''root'', ''root secret'')) (sample_system 0)))) \<and>
   fst (authenticate mem_services (20 * 24 * 3600 * 10 ^ 9) root_request
     (snd (the (handleAccountLogin mem_services (\<lambda>m. []) (10 ^ 9) (Some ''R'') ''10.0.0.1''
       (Some (''root'', ''root secret'')) (sample_system 0))))) = Some root_ident"
proof -
  let ?h = "handleAccountLogin mem_services (\<lambda>m. []) (10 ^ 9) (Some ''R'') ''10.0.0.1''
       (Some (''root'', ''root secret'')) (sample_system 0)"
  have h: "map_option fst ?h = Some (Reply \<lparr>lr_Token = ''R'', lr_Username = ''root'', lr_IsAdmin = True,
      lr_ExpiresAt = 1000 + 30 * 24 * 3600 * 1000\<rparr>)"
    by (simp add: handleAccountLogin_def Let_def account_defs TrimSpace_def is_space_def loginBlocked_def
        loginFailKeys_def key_blocked_def checkPassword_def getAccount_def scan_account_def
        purgeExpiredSessions_def delete_sessions_def accountSessionTTL_def)
  then obtain s' where s': "?h = Some (Reply \<lparr>lr_Token = ''R'', lr_Username = ''root'', lr_IsAdmin = True,
      lr_ExpiresAt = 1000 + 30 * 24 * 3600 * 1000\<rparr>, s')" by auto
  have "fst (authenticate mem_services (20 * 24 * 3600 * 10 ^ 9) root_request s') = Some root_ident"
    using login_token_honoured [OF mem_services_ok mem_services_up s', of root_request "20 * 24 * 3600 * 10 ^ 9"]
    by (simp add: sample_system_def bearerToken_def root_request_def root_ident_def ms_def)
  then show ?thesis using s' by simp
qed

subsection \<open>Changing the switches\<close>

definition same_services :: "('w \<Rightarrow> accountsSchema) \<Rightarrow> 'w accountSystem \<Rightarrow> 'w accountSystem \<Rightarrow> bool" where
  "same_services tb s s1 \<longleftrightarrow>
     tb (ac_world s1) = tb (ac_world s) \<and> ac_redis s1 = ac_redis s \<and> ac_rdDown s1 = ac_rdDown s"

lemma loadPermissions_frame:
  assumes "services_ok S tb rk" "services_up S tb"
  shows "same_services tb s (snd (loadPermissions S now u s))"
proof -
  have cache: "same_services tb s (cachePerms now u x s)" for x
    by (simp add: same_services_def cachePerms_def)
  have fill: "same_services tb s (redisSetPerms S now u x (cachePerms now u x s))" for x
  proof -
    let ?s = "cachePerms now u x s"
    obtain w where "redis_try S now [SET (perm_key u) (SwitchJson x) accountPermTTL] ?s = ?s\<lparr>ac_world := w\<rparr>"
      "rk w = fold redis_run [SET (perm_key u) (SwitchJson x) accountPermTTL] (rk (ac_world ?s))"
      "tb w = tb (ac_world ?s)"
      by (rule redis_try_live [OF assms(1,2)])
    then show ?thesis using cache [of x] by (auto simp: redisSetPerms_def same_services_def)
  qed
  have get: "snd (if redisReady now s then redisGetPerms S now u s else (None, s)) = s"
    using live(3) [OF assms(1,2)] by (auto simp: redisGetPerms_def split: option.split redis_val.split)
  then obtain x where x: "(if redisReady now s then redisGetPerms S now u s else (None, s)) = (x, s)"
    by (metis prod.collapse)
  have self: "same_services tb s s" by (simp add: same_services_def)
  show ?thesis
  proof (cases "cachedPerms now u s")
    case (Some m)
    then show ?thesis using self by (simp add: loadPermissions_def)
  next
    case None
    have "loadPermissions S now u s =
        (case x of Some m \<Rightarrow> (m, cachePerms now u m s)
         | None \<Rightarrow> (case getAccount S u s of
              Inl e \<Rightarrow> (fmempty, cachePerms now u fmempty s)
            | Inr None \<Rightarrow> (fmempty, cachePerms now u fmempty s)
            | Inr (Some a) \<Rightarrow> (acc_Permissions a,
                redisSetPerms S now u (acc_Permissions a) (cachePerms now u (acc_Permissions a) s))))"
      unfolding loadPermissions_def None x by (cases x) simp_all
    then show ?thesis using cache fill by (simp split: option.split sum.split)
  qed
qed

lemma setPermissions_loads:
  assumes "services_ok S tb rk" "services_up S tb" "redis_in_use now s"
    "setPermissions S now u m s = (None, s')"
  shows "fst (loadPermissions S later u s') = m"
proof -
  obtain n s1 where s1: "sql S (UpdatePermissions (PermsJson m) (ms now) u) s = (Some n, s1)" "n \<noteq> 0"
    "s' = invalidatePerms u (redisDelPerms S now u s1)"
    using assms(4) by (auto simp: setPermissions_def split: option.splits prod.splits if_splits)
  obtain w where w: "s1 = s\<lparr>ac_world := w\<rparr>" "rk w = rk (ac_world s)"
    "sql_run (UpdatePermissions (PermsJson m) (ms now) u) (tb (ac_world s)) = Some (n, tb w)"
    using sql_ok_frame [OF assms(1) s1(1)] .
  then obtain a where a: "fmlookup (tb_accounts (tb w)) u = Some (a\<lparr>ar_permissions := PermsJson m,
      ar_updated_at := ms now\<rparr>)"
    using s1(2) by (auto simp: update_account_def split: option.splits) (metis accountsSchema.select_convs(1)
      accountsSchema.surjective accountsSchema.update_convs(1) fmupd_lookup)
  obtain w1 where w1: "redis_try S now [DEL (perm_key u)] s1 = s1\<lparr>ac_world := w1\<rparr>"
    "rk w1 = fold redis_run [DEL (perm_key u)] (rk (ac_world s1))" "tb w1 = tb (ac_world s1)"
    by (rule redis_try_live [OF assms(1,2)])
  obtain w2 where w2: "redisDelPerms S now u s1 = s1\<lparr>ac_world := w2\<rparr>" "tb w2 = tb w"
    "ac_redis s \<Longrightarrow> fmlookup (rk_vals (rk w2)) (perm_key u) = None"
  proof (cases "ac_redis s")
    case True
    then have "redisReady now s1" using assms(3) w(1) by (simp add: redis_in_use_def)
    then show thesis using that [of w1] w1 w(1) by (simp add: redisDelPerms_def)
  next
    case False
    then show thesis using that [of w] w(1) by (simp add: redisDelPerms_def redisReady_def)
  qed
  have same: "ac_redis s1 = ac_redis s" using w(1) by simp
  have "cachedPerms later u s' = None" by (simp add: s1(3) invalidatePerms_def cachedPerms_def)
  moreover have "(if redisReady later s' then redisGetPerms S later u s' else (None, s')) = (None, s')"
    using w2(3) live(3) [OF assms(1,2)] same
    by (simp add: s1(3) w2(1) invalidatePerms_def redisGetPerms_def redisReady_def)
  moreover have "getAccount S u s' = Inr (Some (scan_account u (a\<lparr>ar_permissions := PermsJson m,
      ar_updated_at := ms now\<rparr>)))"
    using live(1) [OF assms(1,2)] a w2(2) by (simp add: s1(3) w2(1) invalidatePerms_def)
  ultimately show ?thesis by (simp add: loadPermissions_def scan_account_def decodePerms_def)
qed

text \<open>
  A change of an account's switches counts from the next request on. After a successful
  change the next load of the account's switches, at any later time, returns exactly the
  answered switches, although the process and Redis had the old ones cached; so the route
  check decides by the new ones.
\<close>

theorem permission_change_is_immediate:
  assumes "services_ok S tb rk" "services_up S tb" "redis_in_use now s"
    "handleAccountPermissions S ps now ident (Some b) s = (Reply cur, s')"
  shows "fst (loadPermissions S later (TrimSpace (pm_Username b)) s') = cur"
proof -
  let ?u = "TrimSpace (pm_Username b)"
  obtain old s1 where l: "loadPermissions S now ?u s = (old, s1)" by fastforce
  have "setPermissions S now ?u cur s1 = (None, s')"
    using assms(4) l
    by (auto simp: handleAccountPermissions_def Let_def split: if_splits sum.splits option.splits prod.splits)
  moreover have "redis_in_use now s1"
    using assms(3) loadPermissions_frame [OF assms(1,2), of s now ?u] l
    by (simp add: redis_in_use_def redisReady_def same_services_def split: if_splits)
  ultimately show ?thesis using setPermissions_loads [OF assms(1,2)] by blast
qed

definition small_catalog :: permState where
  "small_catalog = perm ''files'' ''GET /api/files/list'' empty_perms"

theorem permission_change_witness:
  "fst (loadPermissions mem_services (3 * 10 ^ 9) ''bob''
     (snd (handleAccountPermissions mem_services small_catalog (2 * 10 ^ 9) (Some root_ident)
       (Some \<lparr>pm_Username = ''bob'', pm_Group = ''files'', pm_Enabled = Some True, pm_Permissions = []\<rparr>)
       (snd (loadPermissions mem_services (10 ^ 9) ''bob'' (sample_system 0)))))) =
     fmupd ''GET /api/files/list'' True fmempty"
proof -
  let ?b = "\<lparr>pm_Username = ''bob'', pm_Group = ''files'', pm_Enabled = Some True, pm_Permissions = []\<rparr>"
  let ?s = "snd (loadPermissions mem_services (10 ^ 9) ''bob'' (sample_system 0))"
  let ?h = "handleAccountPermissions mem_services small_catalog (2 * 10 ^ 9) (Some root_ident) (Some ?b) ?s"
  have b: "TrimSpace ''bob'' = ''bob''" by (simp add: TrimSpace_def is_space_def)
  have "fst ?h = Reply (fmupd ''GET /api/files/list'' True fmempty)"
    by (simp add: handleAccountPermissions_def requireAdmin_def root_ident_def b Let_def getAccount_def
        loadPermissions_def cachedPerms_def cachePerms_def redisGetPerms_def redisSetPerms_def
        scan_account_def decodePerms_def account_defs accountPermCacheTTL_def small_catalog_def
        apply_group_def permCatalog_def perm_def empty_perms_def permKeyExists_def
        setPermissions_def update_account_def)
  then obtain s' where h: "?h = (Reply (fmupd ''GET /api/files/list'' True fmempty), s')" by (metis prod.collapse)
  have "redis_in_use (2 * 10 ^ 9) ?s"
    using loadPermissions_frame [OF mem_services_ok mem_services_up, of "sample_system 0" "10 ^ 9" "''bob''"]
    by (simp add: redis_in_use_def redisReady_def same_services_def sample_system_def)
  from permission_change_is_immediate [OF mem_services_ok mem_services_up this h, of "3 * 10 ^ 9"]
  show ?thesis unfolding h by (simp add: b)
qed

end
