(* ===== verification/Vault.thy ===== *)
theory Vault
  imports Daemon LoginGuard
begin

text \<open>
  The encrypted vault (cmd/irix-node/vault.go, vault_handlers.go): its users, sessions,
  challenges and key tree, the gate in front of the data routes, and the handlers that
  initialise, unlock, lock and recover it.

  Every handler holds the vault's mutex, so it is one step; \<open>handleVaultUnlock\<close> gives the mutex
  up between its two phases and is two steps. The primitives of internal/vaultcrypto that only
  call Go's crypto packages are the fields of the parameter \<open>crypto\<close>; TOTP codes
  (\<open>TotpCode\<close>, \<open>TotpVerify\<close>) are modelled down to the HMAC. A base64 field of vault.json is the
  bytes it decodes to, \<open>None\<close> where it does not decode. The successive results of the random
  source are \<open>rnd 0\<close>, \<open>rnd 1\<close>, ... (\<open>None\<close> an error). Instants are nanoseconds, read once per step.
  The encrypted file store is represented by its index key alone.
\<close>

subsection \<open>Constants and primitives\<close>

definition vaultFileVersion :: int where "vaultFileVersion = 1"
definition maxChallenges :: nat where "maxChallenges = 1024"
definition challengeTTL :: int where "challengeTTL = 5 * 60 * 10 ^ 9"
definition initTokenTTL :: int where "initTokenTTL = 10 * 60 * 10 ^ 9"
definition recoveryTTL :: int where "recoveryTTL = 5 * 60 * 10 ^ 9"
definition maxTOTPFails :: nat where "maxTOTPFails = 5"
definition vaultRenewInterval :: int where "vaultRenewInterval = 10 * 10 ^ 9"
definition TotpDigits :: nat where "TotpDigits = 6"
definition TotpPeriod :: int where "TotpPeriod = 30"
definition SignPrefixUnlock :: string where "SignPrefixUnlock = ''IRIX-VAULT-UNLOCK:1:''"
definition SignPrefixCertBind :: string where "SignPrefixCertBind = ''IRIX-VAULT-CERT-BIND:1:''"

record crypto =
  cr_hmac :: "string \<Rightarrow> nat \<Rightarrow> nat list"
  cr_kek :: "string \<Rightarrow> string \<Rightarrow> nat \<Rightarrow> string option"
  cr_wrap :: "string \<Rightarrow> string \<Rightarrow> string \<Rightarrow> string option"
  cr_unwrap :: "string \<Rightarrow> string \<Rightarrow> string option"
  cr_sha :: "string \<Rightarrow> string"
  cr_b64 :: "string \<Rightarrow> string"
  cr_unb64 :: "string \<Rightarrow> string option"
  cr_parse :: "string \<Rightarrow> string option"
  cr_fingerprint :: "string \<Rightarrow> string"
  cr_strong :: "string \<Rightarrow> bool"
  cr_verify :: "string \<Rightarrow> string \<Rightarrow> string \<Rightarrow> bool"

text \<open>
  \<open>cr_hmac secret counter\<close> is the HMAC-SHA1 of the counter's eight bytes, as byte values;
  \<open>cr_wrap key nonce plain\<close> and \<open>cr_unwrap key blob\<close> are AES-GCM with the nonce in front.
\<close>

text \<open>
  The law of an authenticated cipher that the vault relies on: what a wrap gives back under
  whatever key accepts it is what was wrapped.
\<close>

definition authentic :: "crypto \<Rightarrow> bool" where
  "authentic C \<longleftrightarrow> (\<forall>k n m b. cr_wrap C k n m = Some b \<longrightarrow> cr_unwrap C k b = Some m \<and>
     (\<forall>k' m'. cr_unwrap C k' b = Some m' \<longrightarrow> m' = m))"

definition be32 :: "nat list \<Rightarrow> nat" where
  "be32 bs = foldl (\<lambda>a b. a * 256 + b) 0 bs"

definition pad_zeros :: "nat \<Rightarrow> string \<Rightarrow> string" where
  "pad_zeros n s = replicate (n - length s) (CHR ''0'') @ s"

definition TotpCode :: "crypto \<Rightarrow> string \<Rightarrow> int \<Rightarrow> string" where
  "TotpCode C secret unix =
     (let counter = nat (unix div TotpPeriod);
          sum = cr_hmac C secret counter;
          offset = last sum mod 16;
          code = (be32 (take 4 (drop offset sum)) mod 2 ^ 31) mod 10 ^ TotpDigits
      in pad_zeros TotpDigits (nat_itoa code))"

definition TotpVerify :: "crypto \<Rightarrow> string \<Rightarrow> string \<Rightarrow> int \<Rightarrow> bool" where
  "TotpVerify C secret code unix =
     (if length code \<noteq> TotpDigits then False
      else list_ex (\<lambda>i. code = TotpCode C secret (unix + i * TotpPeriod)) [-1, 0, 1])"

definition gcm_wrap :: "crypto \<Rightarrow> string \<Rightarrow> string option \<Rightarrow> string \<Rightarrow> string option" where
  "gcm_wrap C key nonce plain = (case nonce of None \<Rightarrow> None | Some n \<Rightarrow> cr_wrap C key n plain)"

definition unix :: "instant \<Rightarrow> int" where
  "unix now = now div 10 ^ 9"

subsection \<open>The state\<close>

record vaultUser =
  vu_Name :: string
  vu_TOTPSecret :: "string option"
  vu_TOTPBound :: bool
  vu_CertFingerprint :: string
  vu_CertPublicPEM :: string
  vu_KEKSalt :: "string option"
  vu_MasterKeyWrap :: "string option"
  vu_PasswordChangedAt :: instant
  vu_CreatedAt :: instant
  vu_lastTOTPWindow :: int

record vaultRecovery =
  vr_Hash :: string
  vr_MasterKeyWrap :: "string option"

record vaultSession =
  vs_token :: string
  vs_user :: string
  vs_certFP :: string
  vs_ip :: string
  vs_recovery :: bool
  vs_masterKey :: "string option"
  vs_lastActive :: instant
  vs_expiresAt :: instant

record vaultChallenge =
  vc_purpose :: string
  vc_value :: string
  vc_expires :: instant
  vc_used :: bool

record vaultInitToken =
  vi_user :: string
  vi_expires :: instant
  vi_fails :: nat

record vaultFailEntry =
  vf_windowStart :: instant
  vf_count :: nat
  vf_until :: instant

record vaultMigrateCursor =
  mc_UUID :: string
  mc_Path :: string
  mc_Done :: int
  mc_Total :: int
  mc_Bytes :: int

record vaultMigration =
  mg_InstancesDone :: bool
  mg_FilesDone :: "(string, bool) fmap"
  mg_Cursor :: "vaultMigrateCursor option"
  mg_StartedAt :: instant
  mg_CompletedAt :: "instant option"

record vaultFile =
  ff_Version :: int
  ff_Seq :: int
  ff_Users :: "vaultUser list"
  ff_Recovery :: "vaultRecovery option"
  ff_IndexDEKWrap :: "string option"
  ff_Migration :: "vaultMigration option"
  ff_CreatedAt :: instant

datatype vault_read = NoVaultFile | VaultUnreadable string | VaultCorrupt string | VaultContent vaultFile

record vaultState =
  vt_enabled :: bool
  vt_initialized :: bool
  vt_idleTimeout :: int
  vt_maxAttempts :: nat
  vt_lockoutDuration :: int
  vt_iterations :: nat
  vt_passwordMinLen :: nat
  vt_passwordExpire :: int
  vt_forceExpire :: bool
  vt_bindSessionIP :: bool
  vt_masterKey :: "string option"
  vt_loading :: bool
  vt_indexDEK :: "string option"
  vt_migration :: "vaultMigration option"
  vt_migrating :: bool
  vt_users :: "(string, vaultUser) fmap"
  vt_recovery :: "vaultRecovery option"
  vt_seq :: int
  vt_createdAt :: instant
  vt_file :: string
  vt_sessions :: "(string, vaultSession) fmap"
  vt_challenges :: "(string, vaultChallenge) fmap"
  vt_initTokens :: "(string, vaultInitToken) fmap"
  vt_failures :: "(string, vaultFailEntry) fmap"
  vt_indexDEKWrap :: "string option"
  vt_disk :: "vaultFile option"

text \<open>\<open>vt_disk\<close> is what vault.json holds; the other fields are the record of the code.\<close>

definition newVaultState :: "nat \<Rightarrow> vaultState" where
  "newVaultState iterations =
     \<lparr>vt_enabled = False, vt_initialized = False, vt_idleTimeout = 30 * 60 * 10 ^ 9, vt_maxAttempts = 5,
      vt_lockoutDuration = 15 * 60 * 10 ^ 9, vt_iterations = iterations, vt_passwordMinLen = 12,
      vt_passwordExpire = 90 * 24 * 3600 * 10 ^ 9, vt_forceExpire = False, vt_bindSessionIP = False,
      vt_masterKey = None, vt_loading = False, vt_indexDEK = None, vt_migration = None,
      vt_migrating = False, vt_users = fmempty, vt_recovery = None, vt_seq = 0,
      vt_createdAt = zero_time, vt_file = [], vt_sessions = fmempty, vt_challenges = fmempty,
      vt_initTokens = fmempty, vt_failures = fmempty, vt_indexDEKWrap = None, vt_disk = None\<rparr>"

definition keep_values :: "('v \<Rightarrow> bool) \<Rightarrow> ('k, 'v) fmap \<Rightarrow> ('k, 'v) fmap" where
  "keep_values P m = fmfilter (\<lambda>k. case fmlookup m k of None \<Rightarrow> False | Some x \<Rightarrow> P x) m"

definition any_value :: "('v \<Rightarrow> bool) \<Rightarrow> ('k, 'v) fmap \<Rightarrow> bool" where
  "any_value P m = (keep_values P m \<noteq> fmempty)"

subsection \<open>vault.json\<close>

definition vault_load :: "string \<Rightarrow> vault_read \<Rightarrow> vaultState \<Rightarrow> string option \<times> vaultState" where
  "vault_load path raw v =
     (let v = v\<lparr>vt_file := path\<rparr> in
      case raw of
        NoVaultFile \<Rightarrow> (None, v)
      | VaultUnreadable e \<Rightarrow> (Some e, v)
      | VaultCorrupt e \<Rightarrow> (Some e, v)
      | VaultContent f \<Rightarrow>
          if ff_Version f \<noteq> vaultFileVersion then (Some ''unsupported version'', v)
          else
            let v = v\<lparr>vt_seq := ff_Seq f, vt_createdAt := ff_CreatedAt f, vt_recovery := ff_Recovery f,
                      vt_indexDEKWrap := ff_IndexDEKWrap f, vt_migration := ff_Migration f,
                      vt_users := fold (\<lambda>u m. fmupd (vu_Name u) u m) (ff_Users f) fmempty\<rparr>
            in (None, if maplen (vt_users v) > 0 \<or> vt_recovery v \<noteq> None
                      then v\<lparr>vt_initialized := True\<rparr> else v))"

text \<open>
  \<open>io\<close> is the error of writing the file, if any. The window of the last TOTP code is not part
  of the JSON document.
\<close>

definition vault_save :: "string option \<Rightarrow> vaultState \<Rightarrow> string option \<times> vaultState" where
  "vault_save io v =
     (if vt_file v = [] then (Some ''vault.json path not set'', v)
      else
        let users = map (\<lambda>n. (the (fmlookup (vt_users v) n))\<lparr>vu_lastTOTPWindow := 0\<rparr>)
                      (sorted_list_of_fset (fmdom (vt_users v)));
            v = v\<lparr>vt_seq := vt_seq v + 1\<rparr>;
            f = \<lparr>ff_Version = vaultFileVersion, ff_Seq = vt_seq v, ff_Users = users,
                 ff_Recovery = vt_recovery v, ff_IndexDEKWrap = vt_indexDEKWrap v,
                 ff_Migration = vt_migration v, ff_CreatedAt = vt_createdAt v\<rparr>
        in (case io of Some e \<Rightarrow> (Some e, v) | None \<Rightarrow> (None, v\<lparr>vt_disk := Some f\<rparr>)))"

subsection \<open>Locking, passwords, throttle, sessions\<close>

text \<open>\<open>store.zeroKeys\<close> forgets the index key.\<close>

definition store_zeroKeys :: "vaultState \<Rightarrow> vaultState" where
  "store_zeroKeys v = v\<lparr>vt_indexDEK := None\<rparr>"

definition janitor_tick :: "instant \<Rightarrow> vaultState \<Rightarrow> vaultState" where
  "janitor_tick now v =
     (let v = v\<lparr>vt_sessions := keep_values (\<lambda>s. \<not> now > vs_expiresAt s) (vt_sessions v)\<rparr>;
          v = (if \<not> any_value (\<lambda>s. \<not> vs_recovery s) (vt_sessions v) \<and> vt_masterKey v \<noteq> None
               then (store_zeroKeys v)\<lparr>vt_masterKey := None\<rparr> else v)
      in v\<lparr>vt_challenges := keep_values (\<lambda>c. \<not> now > vc_expires c) (vt_challenges v),
           vt_initTokens := keep_values (\<lambda>t. \<not> now > vi_expires t) (vt_initTokens v),
           vt_failures := keep_values (\<lambda>f. \<not> (now > vf_until f \<and>
             time_Sub now (vf_windowStart f) > vt_lockoutDuration v)) (vt_failures v)\<rparr>)"

definition validateVaultPassword :: "vaultState \<Rightarrow> string \<Rightarrow> string option" where
  "validateVaultPassword v pw =
     (if length pw < vt_passwordMinLen v then Some ''password too short''
      else
        let upper = list_ex (\<lambda>c. CHR ''A'' \<le> c \<and> c \<le> CHR ''Z'') pw;
            lower = list_ex (\<lambda>c. CHR ''a'' \<le> c \<and> c \<le> CHR ''z'') pw;
            digit = list_ex (\<lambda>c. CHR ''0'' \<le> c \<and> c \<le> CHR ''9'') pw
        in if \<not> upper \<or> \<not> lower \<or> \<not> digit then Some ''password needs upper case, lower case and digit''
           else None)"

definition vaultLimited :: "instant \<Rightarrow> string \<Rightarrow> vaultState \<Rightarrow> bool" where
  "vaultLimited now key v =
     (case fmlookup (vt_failures v) key of None \<Rightarrow> False | Some f \<Rightarrow> now < vf_until f)"

definition vaultFail :: "instant \<Rightarrow> string \<Rightarrow> vaultState \<Rightarrow> vaultState" where
  "vaultFail now key v =
     (let fresh = \<lparr>vf_windowStart = now, vf_count = 0, vf_until = zero_time\<rparr>;
          f = (case fmlookup (vt_failures v) key of
                 None \<Rightarrow> fresh
               | Some f \<Rightarrow> if time_Sub now (vf_windowStart f) > vt_lockoutDuration v then fresh else f);
          f = f\<lparr>vf_count := vf_count f + 1\<rparr>;
          f = (if vf_count f \<ge> vt_maxAttempts v then f\<lparr>vf_until := now + vt_lockoutDuration v\<rparr> else f)
      in v\<lparr>vt_failures := fmupd key f (vt_failures v)\<rparr>)"

definition vaultReset :: "string \<Rightarrow> vaultState \<Rightarrow> vaultState" where
  "vaultReset key v = v\<lparr>vt_failures := fmdrop key (vt_failures v)\<rparr>"

text \<open>A request, as far as the vault reads it: the token header and the client's address.\<close>

record vault_request =
  vq_token :: string
  vq_ip :: string

definition sessionFor :: "instant \<Rightarrow> vault_request \<Rightarrow> vaultState \<Rightarrow> vaultSession option" where
  "sessionFor now r v =
     (if vq_token r = [] then None
      else
        (case fmlookup (vt_sessions v) (vq_token r) of
           None \<Rightarrow> None
         | Some s \<Rightarrow>
             if now > vs_expiresAt s then None
             else if vt_bindSessionIP v \<and> vs_ip s \<noteq> [] \<and> vs_ip s \<noteq> vq_ip r then None
             else Some s))"

definition unlocked :: "vaultState \<Rightarrow> bool" where
  "unlocked v = (vt_masterKey v \<noteq> None)"

definition unlockedSafe :: "vaultState \<Rightarrow> bool" where
  "unlockedSafe v = (vt_initialized v \<and> unlocked v)"

datatype grant = ByInit | ByRecovery | BySession

definition vaultTarget :: "instant \<Rightarrow> vault_request \<Rightarrow> vaultState \<Rightarrow> (vaultUser \<times> grant) option" where
  "vaultTarget now r v =
     (if vq_token r = [] then None
      else
        let by_init = (case fmlookup (vt_initTokens v) (vq_token r) of
                         None \<Rightarrow> None
                       | Some it \<Rightarrow> if now < vi_expires it then fmlookup (vt_users v) (vi_user it) else None)
        in case by_init of
             Some u \<Rightarrow> Some (u, ByInit)
           | None \<Rightarrow>
             (case sessionFor now r v of
                None \<Rightarrow> None
              | Some s \<Rightarrow>
                (case fmlookup (vt_users v) (vs_user s) of
                   None \<Rightarrow> None
                 | Some u \<Rightarrow>
                     if vs_recovery s then Some (u, ByRecovery)
                     else if unlocked v then Some (u, BySession) else None)))"

definition set_user :: "vaultUser \<Rightarrow> vaultState \<Rightarrow> vaultState" where
  "set_user u v = v\<lparr>vt_users := fmupd (vu_Name u) u (vt_users v)\<rparr>"

subsection \<open>The gate of the data routes\<close>

definition gate_exempt :: "string \<Rightarrow> bool" where
  "gate_exempt p =
     (HasPrefix p ''/api/vault/'' \<or> p = ''/api/overview'' \<or> p = ''/api/load'' \<or> HasPrefix p ''/api/auth/'')"

text \<open>The result \<open>Reply ()\<close> is the call of the next handler.\<close>

definition vaultGate :: "instant \<Rightarrow> string \<Rightarrow> vault_request \<Rightarrow> vaultState \<Rightarrow> unit reply \<times> vaultState" where
  "vaultGate now p r v =
     (if gate_exempt p then (Reply (), v)
      else if \<not> vt_enabled v then (Reply (), v)
      else if \<not> vt_initialized v then (Fail 403 ''vault not initialized'', v)
      else if vt_loading v then (Fail 403 ''vault loading'', v)
      else if vt_migrating v then (Fail 403 ''vault migrating'', v)
      else if \<not> unlocked v then (Fail 403 ''vault locked'', v)
      else
        (case sessionFor now r v of
           None \<Rightarrow> (Fail 403 ''vault locked'', v)
         | Some s \<Rightarrow>
             if vs_recovery s then (Fail 403 ''vault locked'', v)
             else if time_Sub now (vs_lastActive s) \<ge> vaultRenewInterval
             then (Reply (), v\<lparr>vt_sessions := fmupd (vq_token r)
                     (s\<lparr>vs_lastActive := now, vs_expiresAt := now + vt_idleTimeout v\<rparr>) (vt_sessions v)\<rparr>)
             else (Reply (), v)))"

subsection \<open>Initialisation and users\<close>

definition authFailed :: "'a reply" where
  "authFailed = Fail 401 ''authentication failed''"

record vault_status =
  st_enabled :: bool
  st_initialized :: bool
  st_locked :: "bool option"
  st_user :: "(string \<times> int) option"
  st_passwordExpired :: bool

definition password_expired :: "instant \<Rightarrow> vaultUser \<Rightarrow> vaultState \<Rightarrow> bool" where
  "password_expired now u v =
     (vt_passwordExpire v > 0 \<and> time_Sub now (vu_PasswordChangedAt u) \<ge> vt_passwordExpire v)"

definition handleVaultStatus :: "instant \<Rightarrow> vault_request \<Rightarrow> vaultState \<Rightarrow> vault_status reply" where
  "handleVaultStatus now r v =
     (let none = \<lparr>st_enabled = True, st_initialized = vt_initialized v, st_locked = None,
                  st_user = None, st_passwordExpired = False\<rparr> in
      if \<not> vt_enabled v
      then Reply (none\<lparr>st_enabled := False, st_initialized := False, st_locked := Some True\<rparr>)
      else if \<not> vt_initialized v then Reply none
      else
        let st = none\<lparr>st_locked := Some (\<not> unlocked v)\<rparr> in
        (case sessionFor now r v of
           None \<Rightarrow> Reply st
         | Some s \<Rightarrow>
             if vs_recovery s then Reply st
             else
               Reply (st\<lparr>st_user := Some (vs_user s, (vs_expiresAt s - now) div 10 ^ 9),
                         st_passwordExpired := (case fmlookup (vt_users v) (vs_user s) of
                            None \<Rightarrow> False | Some u \<Rightarrow> password_expired now u v)\<rparr>)))"

text \<open>
  A user's key wrap: the key derived from the password under a fresh salt encloses the master
  key. The three failures answer the same status.
\<close>

definition wrap_under_password ::
  "crypto \<Rightarrow> vaultState \<Rightarrow> string \<Rightarrow> string option \<Rightarrow> string option \<Rightarrow> string \<Rightarrow> (string \<times> string) option" where
  "wrap_under_password C v password salt nonce masterKey =
     (case salt of
        None \<Rightarrow> None
      | Some s \<Rightarrow>
          (case cr_kek C password s (vt_iterations v) of
             None \<Rightarrow> None
           | Some kek \<Rightarrow> map_option (Pair s) (gcm_wrap C kek nonce masterKey)))"

record init_answer =
  ia_initToken :: string
  ia_totpSecret :: string
  ia_recoveryToken :: string

text \<open>
  Random results, in the order the handler draws them: master key, salt, nonce of the user's
  wrap, TOTP secret, recovery key, nonce of its wrap, index key, nonce of its wrap, token.
\<close>

definition handleVaultInit ::
  "crypto \<Rightarrow> instant \<Rightarrow> (nat \<Rightarrow> string option) \<Rightarrow> string option \<Rightarrow> (string \<times> string) option \<Rightarrow> vaultState \<Rightarrow>
   init_answer reply \<times> vaultState" where
  "handleVaultInit C now rnd io body v =
     (case body of
        None \<Rightarrow> (Fail 400 ''malformed body'', v)
      | Some (name, password) \<Rightarrow>
        if \<not> vt_enabled v then (Fail 403 ''vault not enabled'', v)
        else if vt_initialized v then (Fail 400 ''already initialized'', v)
        else
          let user = TrimSpace name in
          if user = [] then (Fail 400 ''user must not be empty'', v)
          else
            (case validateVaultPassword v password of
               Some e \<Rightarrow> (Fail 400 e, v)
             | None \<Rightarrow>
             (case rnd 0 of None \<Rightarrow> (Fail 500 ''key generation failed'', v) | Some masterKey \<Rightarrow>
             (case wrap_under_password C v password (rnd 1) (rnd 2) masterKey of
                None \<Rightarrow> (Fail 500 ''key wrap failed'', v) | Some (salt, wrap) \<Rightarrow>
             (case rnd 3 of None \<Rightarrow> (Fail 500 ''key generation failed'', v) | Some totpSecret \<Rightarrow>
             (case rnd 4 of None \<Rightarrow> (Fail 500 ''key generation failed'', v) | Some recoveryKey \<Rightarrow>
             (case gcm_wrap C recoveryKey (rnd 5) masterKey of
                None \<Rightarrow> (Fail 500 ''key wrap failed'', v) | Some recoveryWrap \<Rightarrow>
             (case rnd 6 of None \<Rightarrow> (Fail 500 ''key generation failed'', v) | Some indexDEK \<Rightarrow>
             (case gcm_wrap C masterKey (rnd 7) indexDEK of
                None \<Rightarrow> (Fail 500 ''key wrap failed'', v) | Some indexDEKWrap \<Rightarrow>
               let recoveryToken = cr_b64 C recoveryKey;
                   u = \<lparr>vu_Name = user, vu_TOTPSecret = Some totpSecret, vu_TOTPBound = False,
                        vu_CertFingerprint = [], vu_CertPublicPEM = [], vu_KEKSalt = Some salt,
                        vu_MasterKeyWrap = Some wrap, vu_PasswordChangedAt = now, vu_CreatedAt = now,
                        vu_lastTOTPWindow = 0\<rparr>;
                   v1 = (set_user u v)\<lparr>
                          vt_recovery := Some \<lparr>vr_Hash = cr_sha C recoveryToken,
                                               vr_MasterKeyWrap = Some recoveryWrap\<rparr>,
                          vt_indexDEKWrap := Some indexDEKWrap, vt_initialized := True, vt_createdAt := now\<rparr>
               in (case vault_save io v1 of
                     (Some e, v2) \<Rightarrow>
                       (Fail 500 e, v2\<lparr>vt_users := fmdrop user (vt_users v2), vt_recovery := None,
                                        vt_initialized := False\<rparr>)
                   | (None, v2) \<Rightarrow>
                       (case rnd 8 of
                          None \<Rightarrow> (Fail 500 ''token generation failed'', v2)
                        | Some tok \<Rightarrow>
                            let initToken = cr_b64 C tok in
                            (Reply \<lparr>ia_initToken = initToken, ia_totpSecret = totpSecret,
                                    ia_recoveryToken = recoveryToken\<rparr>,
                             v2\<lparr>vt_initTokens := fmupd initToken \<lparr>vi_user = user,
                                  vi_expires = now + initTokenTTL, vi_fails = 0\<rparr> (vt_initTokens v2)\<rparr>))))))))))))"

definition handleVaultUserAdd ::
  "crypto \<Rightarrow> instant \<Rightarrow> (nat \<Rightarrow> string option) \<Rightarrow> string option \<Rightarrow> vault_request \<Rightarrow> (string \<times> string) option \<Rightarrow>
   vaultState \<Rightarrow> init_answer reply \<times> vaultState" where
  "handleVaultUserAdd C now rnd io r body v =
     (case body of
        None \<Rightarrow> (Fail 400 ''malformed body'', v)
      | Some (name, password) \<Rightarrow>
        if \<not> vt_enabled v then (Fail 403 ''vault not enabled'', v)
        else
          (case vt_masterKey v of
             None \<Rightarrow> (Fail 401 ''not authorized'', v)
           | Some masterKey \<Rightarrow>
           (case sessionFor now r v of
              None \<Rightarrow> (Fail 401 ''not authorized'', v)
            | Some s \<Rightarrow>
              if vs_recovery s then (Fail 401 ''not authorized'', v)
              else
                let user = TrimSpace name in
                if user = [] then (Fail 400 ''user must not be empty'', v)
                else if fmlookup (vt_users v) user \<noteq> None then (Fail 400 ''user exists'', v)
                else
                  (case validateVaultPassword v password of
                     Some e \<Rightarrow> (Fail 400 e, v)
                   | None \<Rightarrow>
                   (case wrap_under_password C v password (rnd 0) (rnd 1) masterKey of
                      None \<Rightarrow> (Fail 500 ''key wrap failed'', v)
                    | Some (salt, wrap) \<Rightarrow>
                    (case rnd 2 of
                       None \<Rightarrow> (Fail 500 ''key generation failed'', v)
                     | Some totpSecret \<Rightarrow>
                       let u = \<lparr>vu_Name = user, vu_TOTPSecret = Some totpSecret, vu_TOTPBound = False,
                                vu_CertFingerprint = [], vu_CertPublicPEM = [], vu_KEKSalt = Some salt,
                                vu_MasterKeyWrap = Some wrap, vu_PasswordChangedAt = now, vu_CreatedAt = now,
                                vu_lastTOTPWindow = 0\<rparr>
                       in (case vault_save io (set_user u v) of
                             (Some e, v2) \<Rightarrow> (Fail 500 e, v2\<lparr>vt_users := fmdrop user (vt_users v2)\<rparr>)
                           | (None, v2) \<Rightarrow>
                               (case rnd 3 of
                                  None \<Rightarrow> (Fail 500 ''token generation failed'', v2)
                                | Some tok \<Rightarrow>
                                    let initToken = cr_b64 C tok in
                                    (Reply \<lparr>ia_initToken = initToken, ia_totpSecret = totpSecret,
                                            ia_recoveryToken = []\<rparr>,
                                     v2\<lparr>vt_initTokens := fmupd initToken \<lparr>vi_user = user,
                                          vi_expires = now + initTokenTTL, vi_fails = 0\<rparr>
                                          (vt_initTokens v2)\<rparr>)))))))))"

definition handleVaultUserRemove ::
  "instant \<Rightarrow> string option \<Rightarrow> vault_request \<Rightarrow> string option \<Rightarrow> vaultState \<Rightarrow> bool reply \<times> vaultState" where
  "handleVaultUserRemove now io r body v =
     (case body of
        None \<Rightarrow> (Fail 400 ''malformed body'', v)
      | Some user \<Rightarrow>
        if \<not> vt_enabled v then (Fail 403 ''vault not enabled'', v)
        else if \<not> unlocked v then (Fail 401 ''not authorized'', v)
        else
          (case sessionFor now r v of
             None \<Rightarrow> (Fail 401 ''not authorized'', v)
           | Some s \<Rightarrow>
             if vs_recovery s then (Fail 401 ''not authorized'', v)
             else if fmlookup (vt_users v) user = None then (Fail 400 ''no such user'', v)
             else if maplen (vt_users v) \<le> 1 then (Fail 400 ''the last user cannot be removed'', v)
             else
               let doomed = (\<lambda>x. vs_user x = user \<and> \<not> vs_recovery x);
                   removedCurrent = pred_option doomed (fmlookup (vt_sessions v) (vq_token r)) \<and>
                                    fmlookup (vt_sessions v) (vq_token r) \<noteq> None;
                   v = v\<lparr>vt_users := fmdrop user (vt_users v),
                         vt_sessions := keep_values (\<lambda>x. \<not> doomed x) (vt_sessions v)\<rparr>;
                   v = (if \<not> any_value (\<lambda>x. \<not> vs_recovery x) (vt_sessions v) \<and> vt_masterKey v \<noteq> None
                        then v\<lparr>vt_masterKey := None\<rparr> else v)
               in (case vault_save io v of
                     (Some e, v) \<Rightarrow> (Fail 500 e, v)
                   | (None, v) \<Rightarrow> (Reply removedCurrent, v))))"

definition handleVaultUsers ::
  "instant \<Rightarrow> vault_request \<Rightarrow> vaultState \<Rightarrow> (string \<times> bool \<times> string \<times> instant) list reply" where
  "handleVaultUsers now r v =
     (if \<not> vt_enabled v then Fail 403 ''vault not enabled''
      else if \<not> unlocked v then Fail 401 ''not authorized''
      else
        (case sessionFor now r v of
           None \<Rightarrow> Fail 401 ''not authorized''
         | Some s \<Rightarrow>
             if vs_recovery s then Fail 401 ''not authorized''
             else Reply (map (\<lambda>n. let u = the (fmlookup (vt_users v) n) in
                     (vu_Name u, vu_TOTPBound u, vu_CertFingerprint u, vu_CreatedAt u))
                   (sorted_list_of_fset (fmdom (vt_users v))))))"

subsection \<open>TOTP, challenges, certificates\<close>

definition totp_window :: "instant \<Rightarrow> int" where
  "totp_window now = unix now div TotpPeriod"

definition handleVaultTOTPVerify ::
  "crypto \<Rightarrow> instant \<Rightarrow> string option \<Rightarrow> vault_request \<Rightarrow> string option \<Rightarrow> vaultState \<Rightarrow> bool reply \<times> vaultState" where
  "handleVaultTOTPVerify C now io r body v =
     (case body of
        None \<Rightarrow> (Fail 400 ''malformed body'', v)
      | Some code \<Rightarrow>
        if \<not> vt_enabled v then (Fail 403 ''vault not enabled'', v)
        else
          let limiterKey = ''verify:'' @ vq_ip r in
          if vaultLimited now limiterKey v then (Fail 401 ''too many attempts'', v)
          else
            let it = (case fmlookup (vt_initTokens v) (vq_token r) of
                        None \<Rightarrow> None | Some t \<Rightarrow> if now < vi_expires t then Some t else None);
                u = (case it of
                       Some t \<Rightarrow> fmlookup (vt_users v) (vi_user t)
                     | None \<Rightarrow>
                         (case sessionFor now r v of
                            None \<Rightarrow> None | Some s \<Rightarrow> fmlookup (vt_users v) (vs_user s)))
            in (case u of
                  None \<Rightarrow> (Fail 401 ''not authorized'', v)
                | Some u \<Rightarrow>
                  (case vu_TOTPSecret u of
                     None \<Rightarrow> (Fail 500 ''TOTP secret damaged'', v)
                   | Some secret \<Rightarrow>
                     if \<not> TotpVerify C secret code (unix now) \<or> totp_window now \<le> vu_lastTOTPWindow u
                     then
                       let v = vaultFail now limiterKey v in
                       (case it of
                          None \<Rightarrow> (Fail 401 ''wrong code'', v)
                        | Some t \<Rightarrow>
                            if vi_fails t + 1 \<ge> maxTOTPFails
                            then (Fail 401 ''too many failures'', v\<lparr>vt_initTokens := fmdrop (vq_token r) (vt_initTokens v)\<rparr>)
                            else (Fail 401 ''wrong code'', v\<lparr>vt_initTokens := fmupd (vq_token r)
                                    (t\<lparr>vi_fails := vi_fails t + 1\<rparr>) (vt_initTokens v)\<rparr>))
                     else
                       (case vault_save io (set_user (u\<lparr>vu_TOTPBound := True\<rparr>) v) of
                          (Some e, v) \<Rightarrow> (Fail 500 e, v)
                        | (None, v) \<Rightarrow> (Reply True, vaultReset limiterKey v)))))"

definition handleVaultTOTPReset ::
  "instant \<Rightarrow> (nat \<Rightarrow> string option) \<Rightarrow> string option \<Rightarrow> vault_request \<Rightarrow> vaultState \<Rightarrow> string reply \<times> vaultState" where
  "handleVaultTOTPReset now rnd io r v =
     (if \<not> vt_enabled v then (Fail 403 ''vault not enabled'', v)
      else
        (case vaultTarget now r v of
           None \<Rightarrow> (Fail 401 ''not authorized'', v)
         | Some (u, kind) \<Rightarrow>
             if kind = ByInit then (Fail 401 ''not authorized'', v)
             else
               (case rnd 0 of
                  None \<Rightarrow> (Fail 500 ''key generation failed'', v)
                | Some secret \<Rightarrow>
                    (case vault_save io (set_user (u\<lparr>vu_TOTPSecret := Some secret, vu_TOTPBound := False\<rparr>) v) of
                       (Some e, v) \<Rightarrow> (Fail 500 e, v)
                     | (None, v) \<Rightarrow> (Reply secret, v)))))"

text \<open>The answer: the challenge's id and value.\<close>

definition handleVaultChallenge ::
  "crypto \<Rightarrow> instant \<Rightarrow> (nat \<Rightarrow> string option) \<Rightarrow> string option \<Rightarrow> vaultState \<Rightarrow> (string \<times> string) reply \<times> vaultState" where
  "handleVaultChallenge C now rnd body v =
     (case body of
        None \<Rightarrow> (Fail 400 ''malformed body'', v)
      | Some purpose \<Rightarrow>
        if purpose \<noteq> ''unlock'' \<and> purpose \<noteq> ''cert-bind'' then (Fail 400 ''bad purpose'', v)
        else if \<not> vt_enabled v then (Fail 403 ''vault not enabled'', v)
        else
          let v = (if maplen (vt_challenges v) \<ge> maxChallenges
                   then v\<lparr>vt_challenges := keep_values (\<lambda>c. \<not> now > vc_expires c) (vt_challenges v)\<rparr>
                   else v)
          in if maplen (vt_challenges v) \<ge> maxChallenges then (Fail 429 ''challenge pool full'', v)
             else
               (case (rnd 0, rnd 1) of
                  (Some x, Some y) \<Rightarrow>
                    (Reply (cr_b64 C y, cr_b64 C x),
                     v\<lparr>vt_challenges := fmupd (cr_b64 C y)
                         \<lparr>vc_purpose = purpose, vc_value = cr_b64 C x, vc_expires = now + challengeTTL,
                          vc_used = False\<rparr> (vt_challenges v)\<rparr>)
                | _ \<Rightarrow> (Fail 500 ''challenge generation failed'', v)))"

text \<open>
  The check both consumers of a challenge make first: it exists, has the right purpose, is not
  used and not expired; it is marked used at once.
\<close>

definition take_challenge :: "instant \<Rightarrow> string \<Rightarrow> string \<Rightarrow> vaultState \<Rightarrow> (string \<times> vaultState) option" where
  "take_challenge now purpose i v =
     (case fmlookup (vt_challenges v) i of
        None \<Rightarrow> None
      | Some c \<Rightarrow>
          if vc_purpose c \<noteq> purpose \<or> vc_used c \<or> now > vc_expires c then None
          else Some (vc_value c, v\<lparr>vt_challenges := fmupd i (c\<lparr>vc_used := True\<rparr>) (vt_challenges v)\<rparr>))"

record cert_body =
  cb_CertPEM :: string
  cb_ChallengeID :: string
  cb_Signature :: string

definition handleVaultCert ::
  "crypto \<Rightarrow> instant \<Rightarrow> string option \<Rightarrow> vault_request \<Rightarrow> cert_body option \<Rightarrow> vaultState \<Rightarrow> string reply \<times> vaultState" where
  "handleVaultCert C now io r body v =
     (case body of
        None \<Rightarrow> (Fail 400 ''malformed body'', v)
      | Some b \<Rightarrow>
        if \<not> vt_enabled v then (Fail 403 ''vault not enabled'', v)
        else
          (case vaultTarget now r v of
             None \<Rightarrow> (Fail 401 ''not authorized'', v)
           | Some (u, kind) \<Rightarrow>
             (case take_challenge now ''cert-bind'' (cb_ChallengeID b) v of
                None \<Rightarrow> (Fail 400 ''challenge invalid or used'', v)
              | Some (chal, v) \<Rightarrow>
                (case cr_parse C (cb_CertPEM b) of
                   None \<Rightarrow> (Fail 400 ''bad certificate'', v)
                 | Some pub \<Rightarrow>
                   if \<not> cr_strong C pub then (Fail 400 ''key too weak'', v)
                   else if \<not> cr_verify C pub (SignPrefixCertBind @ chal) (cb_Signature b)
                   then (Fail 401 ''bad signature'', v)
                   else
                     let v = set_user (u\<lparr>vu_CertFingerprint := cr_fingerprint C pub,
                                         vu_CertPublicPEM := cb_CertPEM b\<rparr>) v;
                         v = (if kind = ByInit
                              then v\<lparr>vt_initTokens := fmdrop (vq_token r) (vt_initTokens v)\<rparr> else v)
                     in (case vault_save io v of
                           (Some e, v) \<Rightarrow> (Fail 500 e, v)
                         | (None, v) \<Rightarrow> (Reply (cr_fingerprint C pub), v))))))"

subsection \<open>Loading the encrypted instance list\<close>

text \<open>
  What reading the encrypted object gives. The code asks whether a read error is the locked
  error with \<open>errors.Is(err, lockedErr())\<close>; \<open>lockedErr\<close> makes a new error value at each call, so
  the answer is always no and a locked vault counts as any other read error.
\<close>

datatype vault_list = ListMissing | ListUnreadable | ListCorrupt | ListRead "PersistedInstance list"

fun add_vault_instances :: "int \<Rightarrow> string \<Rightarrow> PersistedInstance list \<Rightarrow> Node \<Rightarrow> Node" where
  "add_vault_instances nextYear newUUID [] n = n"
| "add_vault_instances nextYear newUUID (p # ps) n =
     (let i = (NewInstance nextYear newUUID (ps_InstanceUuid p) (ps_Config p))\<lparr>in_Started := ps_Started p\<rparr>;
          i = (if ps_Owner p \<noteq> [] \<and> validUsername (ps_Owner p) then i\<lparr>in_Owner := ps_Owner p\<rparr> else i);
          (r, n) = alloc i n
      in add_vault_instances nextYear newUUID ps (n\<lparr>nd_Instances := nd_Instances n @ [r]\<rparr>))"

definition loadInstancesVault :: "int \<Rightarrow> string \<Rightarrow> vault_list \<Rightarrow> Node \<Rightarrow> Node" where
  "loadInstancesVault nextYear newUUID content n =
     (if \<not> nd_vault_enabled n then n
      else
        (case content of
           ListMissing \<Rightarrow> n\<lparr>nd_Instances := []\<rparr>
         | ListUnreadable \<Rightarrow> n\<lparr>nd_Instances := []\<rparr>
         | ListCorrupt \<Rightarrow> n\<lparr>nd_Instances := []\<rparr>
         | ListRead ps \<Rightarrow> add_vault_instances nextYear newUUID ps (n\<lparr>nd_Instances := []\<rparr>)))"

subsection \<open>Unlocking\<close>

record unlock_body =
  ub_User :: string
  ub_Password :: string
  ub_TOTP :: string
  ub_ChallengeID :: string
  ub_Signature :: string
  ub_NewPassword :: string

text \<open>
  What the first phase leaves for the second: the session's token, the key, the flag. The second
  phase reads the key from the buffer it shares with the vault; a lock in between has zeroed it,
  so \<open>us_masterKey\<close> is then a run of zero bytes.
\<close>

record unlock_started =
  us_token :: string
  us_masterKey :: string
  us_passwordExpired :: bool

text \<open>The answer to \<open>TOTP valid and not replayed\<close> in the unlock handler.\<close>

definition totp_admits :: "crypto \<Rightarrow> instant \<Rightarrow> string \<Rightarrow> string \<Rightarrow> vaultUser \<Rightarrow> bool" where
  "totp_admits C now secret code u =
     (if \<not> vu_TOTPBound u \<or> \<not> TotpVerify C secret code (unix now) \<or> totp_window now \<le> vu_lastTOTPWindow u
      then False else True)"

definition cert_matches :: "crypto \<Rightarrow> vaultUser \<Rightarrow> string option" where
  "cert_matches C u =
     (case cr_parse C (vu_CertPublicPEM u) of
        None \<Rightarrow> None
      | Some pub \<Rightarrow> if cr_fingerprint C pub \<noteq> vu_CertFingerprint u then None else Some pub)"

text \<open>
  The four factors, after the challenge was taken: \<open>Inl\<close> the refusal with the state (the
  failure counted where the code counts it), \<open>Inr\<close> the user and the master key.
\<close>

definition check_factors ::
  "crypto \<Rightarrow> instant \<Rightarrow> string \<Rightarrow> string \<Rightarrow> unlock_body \<Rightarrow> vaultState \<Rightarrow>
   (nat \<times> string) \<times> vaultState + vaultUser \<times> string" where
  "check_factors C now limiterKey chal b v =
     (let refuse = Inl ((401, ''authentication failed''), vaultFail now limiterKey v) in
      (case fmlookup (vt_users v) (ub_User b) of
         None \<Rightarrow> refuse
       | Some u \<Rightarrow>
         (case vu_TOTPSecret u of
            None \<Rightarrow> Inl ((500, ''TOTP secret damaged''), v)
          | Some secret \<Rightarrow>
            if \<not> totp_admits C now secret (ub_TOTP b) u then refuse
            else
              (case vu_KEKSalt u of
                 None \<Rightarrow> Inl ((500, ''salt damaged''), v)
               | Some salt \<Rightarrow>
                 (case cr_kek C (ub_Password b) salt (vt_iterations v) of
                    None \<Rightarrow> Inl ((500, ''key derivation failed''), v)
                  | Some kek \<Rightarrow>
                    (case vu_MasterKeyWrap u of
                       None \<Rightarrow> Inl ((500, ''key wrap damaged''), v)
                     | Some wrap \<Rightarrow>
                       (case cr_unwrap C kek wrap of
                          None \<Rightarrow> refuse
                        | Some masterKey \<Rightarrow>
                          (case cert_matches C u of
                             None \<Rightarrow> refuse
                           | Some pub \<Rightarrow>
                               if \<not> cr_verify C pub (SignPrefixUnlock @ chal) (ub_Signature b) then refuse
                               else Inr (u, masterKey)))))))))"

text \<open>
  The forced change of an expired password, with draws 0 and 1; the result is the user, whether
  the password counts as expired, and whether the wrap changed.
\<close>

definition force_expire ::
  "crypto \<Rightarrow> instant \<Rightarrow> (nat \<Rightarrow> string option) \<Rightarrow> string \<Rightarrow> string \<Rightarrow> vaultUser \<Rightarrow> vaultState \<Rightarrow>
   nat \<times> string + vaultUser \<times> bool \<times> bool" where
  "force_expire C now rnd newPassword masterKey u v =
     (let expired = password_expired now u v in
      if \<not> (expired \<and> vt_forceExpire v) then Inr (u, expired, False)
      else if newPassword = [] then Inl (401, ''password expired'')
      else
        (case validateVaultPassword v newPassword of
           Some e \<Rightarrow> Inl (400, e)
         | None \<Rightarrow>
             (case wrap_under_password C v newPassword (rnd 0) (rnd 1) masterKey of
                None \<Rightarrow> Inl (500, ''key wrap failed'')
              | Some (salt, wrap) \<Rightarrow>
                  Inr (u\<lparr>vu_KEKSalt := Some salt, vu_MasterKeyWrap := Some wrap,
                         vu_PasswordChangedAt := now\<rparr>, False, True))))"

text \<open>
  The first phase; draw 2 is the session token. Where saving fails the handler returns with the
  session and the key in place.
\<close>

definition unlock_begin ::
  "crypto \<Rightarrow> instant \<Rightarrow> (nat \<Rightarrow> string option) \<Rightarrow> string option \<Rightarrow> vault_request \<Rightarrow> unlock_body option \<Rightarrow>
   vaultState \<Rightarrow> unlock_started reply \<times> vaultState" where
  "unlock_begin C now rnd io r body v =
     (case body of
        None \<Rightarrow> (Fail 400 ''malformed body'', v)
      | Some b \<Rightarrow>
        if \<not> vt_enabled v then (Fail 403 ''vault not enabled'', v)
        else if \<not> vt_initialized v then (Fail 400 ''vault not initialized'', v)
        else
          let limiterKey = ''unlock:'' @ ub_User b @ '':'' @ vq_ip r in
          if vaultLimited now limiterKey v then (Fail 401 ''too many attempts'', v)
          else
            (case take_challenge now ''unlock'' (ub_ChallengeID b) v of
               None \<Rightarrow> (Fail 401 ''authentication failed'', v)
             | Some (chal, v) \<Rightarrow>
               (case check_factors C now limiterKey chal b v of
                  Inl ((code, msg), v) \<Rightarrow> (Fail code msg, v)
                | Inr (u, masterKey) \<Rightarrow>
                  (case force_expire C now rnd (ub_NewPassword b) masterKey u v of
                     Inl (code, msg) \<Rightarrow> (Fail code msg, v)
                   | Inr (u, expired, rewrapped) \<Rightarrow>
                     let u = u\<lparr>vu_lastTOTPWindow := totp_window now\<rparr>;
                         v = set_user u v
                     in (case rnd 2 of
                           None \<Rightarrow> (Fail 500 ''token generation failed'', v)
                         | Some t \<Rightarrow>
                           let token = cr_b64 C t;
                               s = \<lparr>vs_token = token, vs_user = vu_Name u, vs_certFP = vu_CertFingerprint u,
                                    vs_ip = vq_ip r, vs_recovery = False, vs_masterKey = None,
                                    vs_lastActive = now, vs_expiresAt = now + vt_idleTimeout v\<rparr>;
                               v = v\<lparr>vt_sessions := fmupd token s (vt_sessions v),
                                     vt_masterKey := Some masterKey, vt_loading := True\<rparr>;
                               done = Reply \<lparr>us_token = token, us_masterKey = masterKey,
                                             us_passwordExpired = expired\<rparr>
                           in if rewrapped then
                                (case vault_save io v of
                                   (Some e, v) \<Rightarrow> (Fail 500 e, v)
                                 | (None, v) \<Rightarrow> (done, vaultReset limiterKey v))
                              else (done, vaultReset limiterKey v))))))"

text \<open>
  The second phase: the store unwraps the index key, then the instance list is migrated and
  loaded and plaintext residues are taken back. What these later stages answer, and the
  migration flags they leave, are the argument \<open>out\<close>.
\<close>

record unlock_io =
  uo_index :: "string option"
  uo_rest :: "string option"
  uo_migration :: "vaultMigration option"
  uo_migrating :: bool

definition postUnlockInit ::
  "crypto \<Rightarrow> unlock_io \<Rightarrow> string \<Rightarrow> vaultState \<Rightarrow> string option \<times> vaultState" where
  "postUnlockInit C out masterKey v =
     (case vt_indexDEKWrap v of
        None \<Rightarrow> (Some ''index key wrap damaged'', v)
      | Some wrap \<Rightarrow>
        (case cr_unwrap C masterKey wrap of
           None \<Rightarrow> (Some ''index key cannot be unwrapped'', v)
         | Some dek \<Rightarrow>
           let v = v\<lparr>vt_indexDEK := Some dek\<rparr> in
           (case uo_index out of
              Some e \<Rightarrow> (Some e, v)
            | None \<Rightarrow>
              let v = v\<lparr>vt_migration := uo_migration out, vt_migrating := uo_migrating out\<rparr> in
              (case uo_rest out of
                 Some e \<Rightarrow> (Some e, v)
               | None \<Rightarrow> (None, v\<lparr>vt_loading := False\<rparr>)))))"

definition unlock_finish ::
  "crypto \<Rightarrow> unlock_io \<Rightarrow> unlock_started \<Rightarrow> vaultState \<Rightarrow> (string \<times> bool) reply \<times> vaultState" where
  "unlock_finish C out u v =
     (case postUnlockInit C out (us_masterKey u) v of
        (Some e, v) \<Rightarrow>
          (Fail 500 e,
           store_zeroKeys (v\<lparr>vt_sessions := fmdrop (us_token u) (vt_sessions v),
                             vt_masterKey := None, vt_loading := False\<rparr>))
      | (None, v) \<Rightarrow> (Reply (us_token u, us_passwordExpired u), v))"

definition handleVaultUnlock ::
  "crypto \<Rightarrow> instant \<Rightarrow> (nat \<Rightarrow> string option) \<Rightarrow> string option \<Rightarrow> unlock_io \<Rightarrow> vault_request \<Rightarrow>
   unlock_body option \<Rightarrow> vaultState \<Rightarrow> (string \<times> bool) reply \<times> vaultState" where
  "handleVaultUnlock C now rnd io out r body v =
     (case unlock_begin C now rnd io r body v of
        (Fail code msg, v) \<Rightarrow> (Fail code msg, v)
      | (Reply u, v) \<Rightarrow> unlock_finish C out u v)"

subsection \<open>Locking, changing the password, recovering\<close>

definition handleVaultLock :: "instant \<Rightarrow> vault_request \<Rightarrow> vaultState \<Rightarrow> bool reply \<times> vaultState" where
  "handleVaultLock now r v =
     (if \<not> vt_enabled v then (Fail 403 ''vault not enabled'', v)
      else
        (case sessionFor now r v of
           None \<Rightarrow> (Fail 401 ''not authorized'', v)
         | Some s \<Rightarrow>
             if vs_recovery s \<or> \<not> unlocked v then (Fail 401 ''not authorized'', v)
             else
               let v = v\<lparr>vt_sessions := keep_values vs_recovery (vt_sessions v)\<rparr>;
                   v = (if vt_masterKey v \<noteq> None then (store_zeroKeys v)\<lparr>vt_masterKey := None\<rparr> else v)
               in (Reply True, v\<lparr>vt_loading := False\<rparr>)))"

text \<open>The master key a password change wraps: the vault's, or the recovery session's copy.\<close>

definition key_for_change :: "grant \<Rightarrow> instant \<Rightarrow> vault_request \<Rightarrow> vaultState \<Rightarrow> string option" where
  "key_for_change kind now r v =
     (if kind = ByRecovery
      then (case sessionFor now r v of None \<Rightarrow> None | Some s \<Rightarrow> vs_masterKey s)
      else vt_masterKey v)"

definition old_password_opens :: "crypto \<Rightarrow> string \<Rightarrow> vaultUser \<Rightarrow> vaultState \<Rightarrow> string \<Rightarrow> (nat \<times> string) option" where
  "old_password_opens C old u v masterKey =
     (case vu_KEKSalt u of
        None \<Rightarrow> Some (500, ''salt damaged'')
      | Some salt \<Rightarrow>
        (case cr_kek C old salt (vt_iterations v) of
           None \<Rightarrow> Some (500, ''key derivation failed'')
         | Some kek \<Rightarrow>
           (case vu_MasterKeyWrap u of
              None \<Rightarrow> Some (500, ''key wrap damaged'')
            | Some wrap \<Rightarrow>
                if cr_unwrap C kek wrap \<noteq> Some masterKey then Some (401, ''wrong old password'') else None)))"

definition handleVaultPassword ::
  "crypto \<Rightarrow> instant \<Rightarrow> (nat \<Rightarrow> string option) \<Rightarrow> string option \<Rightarrow> vault_request \<Rightarrow> (string \<times> string) option \<Rightarrow>
   vaultState \<Rightarrow> bool reply \<times> vaultState" where
  "handleVaultPassword C now rnd io r body v =
     (case body of
        None \<Rightarrow> (Fail 400 ''malformed body'', v)
      | Some (old, new) \<Rightarrow>
        if \<not> vt_enabled v then (Fail 403 ''vault not enabled'', v)
        else
          (case vaultTarget now r v of
             None \<Rightarrow> (Fail 401 ''not authorized'', v)
           | Some (u, kind) \<Rightarrow>
             if kind = ByInit then (Fail 401 ''not authorized'', v)
             else
               (case validateVaultPassword v new of
                  Some e \<Rightarrow> (Fail 400 e, v)
                | None \<Rightarrow>
                (case key_for_change kind now r v of
                   None \<Rightarrow> (Fail 401 ''not authorized'', v)
                 | Some masterKey \<Rightarrow>
                 (case (if kind = BySession then old_password_opens C old u v masterKey else None) of
                    Some (code, msg) \<Rightarrow> (Fail code msg, v)
                  | None \<Rightarrow>
                  (case wrap_under_password C v new (rnd 0) (rnd 1) masterKey of
                     None \<Rightarrow> (Fail 500 ''key wrap failed'', v)
                   | Some (salt, wrap) \<Rightarrow>
                     let v = set_user (u\<lparr>vu_KEKSalt := Some salt, vu_MasterKeyWrap := Some wrap,
                                         vu_PasswordChangedAt := now\<rparr>) v;
                         v = v\<lparr>vt_sessions := keep_values (\<lambda>s. \<not> (vs_user s = vu_Name u \<and>
                               vs_token s \<noteq> vq_token r \<and> \<not> vs_recovery s)) (vt_sessions v)\<rparr>
                     in (case vault_save io v of
                           (Some e, v) \<Rightarrow> (Fail 500 e, v)
                         | (None, v) \<Rightarrow> (Reply True, v))))))))"

definition recovery_target :: "string \<Rightarrow> vaultState \<Rightarrow> vaultUser option" where
  "recovery_target user v =
     (if user \<noteq> [] then fmlookup (vt_users v) user
      else
        (case sorted_list_of_fset (fmdom (vt_users v)) of
           [n] \<Rightarrow> fmlookup (vt_users v) n
         | _ \<Rightarrow> None))"

definition handleVaultRecovery ::
  "crypto \<Rightarrow> instant \<Rightarrow> (nat \<Rightarrow> string option) \<Rightarrow> vault_request \<Rightarrow> (string \<times> string) option \<Rightarrow> vaultState \<Rightarrow>
   string reply \<times> vaultState" where
  "handleVaultRecovery C now rnd r body v =
     (case body of
        None \<Rightarrow> (Fail 400 ''malformed body'', v)
      | Some (recoveryToken, user) \<Rightarrow>
        if \<not> vt_enabled v then (Fail 403 ''vault not enabled'', v)
        else if \<not> vt_initialized v then (Fail 400 ''vault not initialized'', v)
        else
          (case vt_recovery v of
             None \<Rightarrow> (Fail 400 ''vault not initialized'', v)
           | Some rec \<Rightarrow>
             let limiterKey = ''recovery:'' @ vq_ip r in
             if vaultLimited now limiterKey v then (Fail 401 ''too many attempts'', v)
             else if cr_sha C recoveryToken \<noteq> vr_Hash rec then (authFailed, vaultFail now limiterKey v)
             else
               (case recovery_target user v of
                  None \<Rightarrow> (Fail 400 ''name the user'', v)
                | Some target \<Rightarrow>
                (case cr_unb64 C recoveryToken of
                   None \<Rightarrow> (Fail 400 ''bad recovery token'', v)
                 | Some key \<Rightarrow>
                 (case vr_MasterKeyWrap rec of
                    None \<Rightarrow> (Fail 500 ''recovery wrap damaged'', v)
                  | Some wrap \<Rightarrow>
                  (case cr_unwrap C key wrap of
                     None \<Rightarrow> (authFailed, vaultFail now limiterKey v)
                   | Some masterKey \<Rightarrow>
                   (case rnd 0 of
                      None \<Rightarrow> (Fail 500 ''token generation failed'', v)
                    | Some t \<Rightarrow>
                        let token = cr_b64 C t in
                        (Reply token,
                         vaultReset limiterKey (v\<lparr>vt_sessions := fmupd token
                           \<lparr>vs_token = token, vs_user = vu_Name target, vs_certFP = vu_CertFingerprint target,
                            vs_ip = vq_ip r, vs_recovery = True, vs_masterKey = Some masterKey,
                            vs_lastActive = now, vs_expiresAt = now + recoveryTTL\<rparr> (vt_sessions v)\<rparr>))))))))) "

end
