(* ===== verification/VaultRuns.thy ===== *)
theory VaultRuns
  imports Vault
begin

text \<open>
  Runs of the vault: any sequence of requests, janitor ticks and second phases of unlocking,
  each one step under the vault's mutex. Two interfaces state what an invariant has to be
  closed under: \<open>quiet_closed\<close> (the elementary state changes of every handler but unlocking) and
  its extension \<open>vault_closed\<close> (unlocking too). Each handler is walked through once, inside the
  locales; an invariant is one interpretation.
\<close>

subsection \<open>Events\<close>

text \<open>
  \<open>EvUnlockFinish\<close> is the second phase of some unlocking; it may come at any time and with any
  outcome, whatever happened since the first phase.
\<close>

datatype vault_event =
  EvInit instant "nat \<Rightarrow> string option" "string option" "(string \<times> string) option"
| EvUserAdd instant "nat \<Rightarrow> string option" "string option" vault_request "(string \<times> string) option"
| EvUserRemove instant "string option" vault_request "string option"
| EvTotpVerify instant "string option" vault_request "string option"
| EvTotpReset instant "nat \<Rightarrow> string option" "string option" vault_request
| EvChallenge instant "nat \<Rightarrow> string option" "string option"
| EvCert instant "string option" vault_request "cert_body option"
| EvUnlockBegin instant "nat \<Rightarrow> string option" "string option" vault_request "unlock_body option"
| EvUnlockFinish unlock_io unlock_started
| EvLock instant vault_request
| EvPassword instant "nat \<Rightarrow> string option" "string option" vault_request "(string \<times> string) option"
| EvRecovery instant "nat \<Rightarrow> string option" vault_request "(string \<times> string) option"
| EvGate instant string vault_request
| EvTick instant

fun vault_step :: "crypto \<Rightarrow> vault_event \<Rightarrow> vaultState \<Rightarrow> vaultState" where
  "vault_step C (EvInit now rnd io b) v = snd (handleVaultInit C now rnd io b v)"
| "vault_step C (EvUserAdd now rnd io r b) v = snd (handleVaultUserAdd C now rnd io r b v)"
| "vault_step C (EvUserRemove now io r b) v = snd (handleVaultUserRemove now io r b v)"
| "vault_step C (EvTotpVerify now io r b) v = snd (handleVaultTOTPVerify C now io r b v)"
| "vault_step C (EvTotpReset now rnd io r) v = snd (handleVaultTOTPReset now rnd io r v)"
| "vault_step C (EvChallenge now rnd b) v = snd (handleVaultChallenge C now rnd b v)"
| "vault_step C (EvCert now io r b) v = snd (handleVaultCert C now io r b v)"
| "vault_step C (EvUnlockBegin now rnd io r b) v = snd (unlock_begin C now rnd io r b v)"
| "vault_step C (EvUnlockFinish out u) v = snd (unlock_finish C out u v)"
| "vault_step C (EvLock now r) v = snd (handleVaultLock now r v)"
| "vault_step C (EvPassword now rnd io r b) v = snd (handleVaultPassword C now rnd io r b v)"
| "vault_step C (EvRecovery now rnd r b) v = snd (handleVaultRecovery C now rnd r b v)"
| "vault_step C (EvGate now p r) v = snd (vaultGate now p r v)"
| "vault_step C (EvTick now) v = janitor_tick now v"

definition vault_run :: "crypto \<Rightarrow> vault_event list \<Rightarrow> vaultState \<Rightarrow> vaultState" where
  "vault_run C evs v = fold (vault_step C) evs v"

lemma vault_run_simps [simp]:
  "vault_run C [] v = v" "vault_run C (evs @ [e]) v = vault_step C e (vault_run C evs v)"
  by (simp_all add: vault_run_def)

subsection \<open>Elementary changes\<close>

lemma keep_values_lookup [simp]:
  "fmlookup (keep_values P m) k = (case fmlookup m k of None \<Rightarrow> None | Some x \<Rightarrow> if P x then Some x else None)"
  by (auto simp: keep_values_def split: option.splits)

text \<open>The fields an invariant may speak of; everything else may change freely.\<close>

definition core :: "vaultState \<Rightarrow> _" where
  "core v = (vt_users v, vt_masterKey v, vt_sessions v, vt_challenges v, vt_recovery v, vt_indexDEKWrap v,
             vt_iterations v, vt_initialized v)"

lemma core_frame [simp]:
  "core (v\<lparr>vt_failures := f\<rparr>) = core v" "core (v\<lparr>vt_initTokens := t\<rparr>) = core v"
  "core (v\<lparr>vt_loading := b\<rparr>) = core v" "core (v\<lparr>vt_indexDEK := d\<rparr>) = core v"
  "core (v\<lparr>vt_migration := m\<rparr>) = core v" "core (v\<lparr>vt_migrating := b\<rparr>) = core v"
  "core (v\<lparr>vt_createdAt := t0\<rparr>) = core v"
  "core (v\<lparr>vt_seq := q\<rparr>) = core v" "core (v\<lparr>vt_disk := d0\<rparr>) = core v"
  "core (vaultFail now k v) = core v" "core (vaultReset k v) = core v" "core (store_zeroKeys v) = core v"
  by (simp_all add: core_def vaultFail_def vaultReset_def store_zeroKeys_def Let_def)

lemma core_save [simp]: "core (snd (vault_save io v)) = core v"
  by (simp add: vault_save_def core_def Let_def split: option.split)

lemma core_save_eq: "vault_save io v = (e, v') \<Longrightarrow> core v' = core v"
  using core_save [of io v] by simp

text \<open>A user record that keeps the name and the key material.\<close>

definition same_key :: "vaultUser \<Rightarrow> vaultUser \<Rightarrow> bool" where
  "same_key u u' \<longleftrightarrow> vu_Name u' = vu_Name u \<and> vu_KEKSalt u' = vu_KEKSalt u \<and> vu_MasterKeyWrap u' = vu_MasterKeyWrap u"

lemma same_key_updates [simp]:
  "same_key u (u\<lparr>vu_TOTPBound := b\<rparr>)" "same_key u (u\<lparr>vu_TOTPSecret := x, vu_TOTPBound := b\<rparr>)"
  "same_key u (u\<lparr>vu_CertFingerprint := f, vu_CertPublicPEM := p\<rparr>)"
  "same_key u (u\<lparr>vu_lastTOTPWindow := w\<rparr>)"
  by (simp_all add: same_key_def)

text \<open>A user whose wrap encloses \<open>m\<close> under the key of a password.\<close>

definition seals :: "crypto \<Rightarrow> nat \<Rightarrow> string \<Rightarrow> vaultUser \<Rightarrow> bool" where
  "seals C iters m u \<longleftrightarrow>
     (\<exists>pw salt kek nonce wrap. vu_KEKSalt u = Some salt \<and> cr_kek C pw salt iters = Some kek \<and>
        cr_wrap C kek nonce m = Some wrap \<and> vu_MasterKeyWrap u = Some wrap)"

lemma wrap_under_password_seals:
  assumes "wrap_under_password C v pw salt nonce m = Some (s, wrap)" "vt_iterations v = it"
    "vu_KEKSalt u = Some s" "vu_MasterKeyWrap u = Some wrap"
  shows "seals C it m u"
  using assms by (auto simp: wrap_under_password_def gcm_wrap_def seals_def split: option.splits)

lemma vaultTarget_user: "vaultTarget now r v = Some (u, g) \<Longrightarrow> \<exists>k. fmlookup (vt_users v) k = Some u"
  by (auto simp: vaultTarget_def Let_def split: if_splits option.splits)

lemma sessionFor_session: "sessionFor now r v = Some s \<Longrightarrow> fmlookup (vt_sessions v) (vq_token r) = Some s"
  by (auto simp: sessionFor_def split: if_splits option.splits)

lemma vaultTarget_recovery:
  "vaultTarget now r v = Some (u, ByRecovery) \<Longrightarrow> \<exists>s. sessionFor now r v = Some s \<and> vs_recovery s"
  by (auto simp: vaultTarget_def Let_def split: if_splits option.splits)

lemma take_challenge_users: "take_challenge now p i v = Some (x, v') \<Longrightarrow> vt_users v' = vt_users v"
  by (auto simp: take_challenge_def split: option.splits if_splits)

subsection \<open>What an invariant is closed under\<close>

locale quiet_closed =
  fixes C :: crypto and P :: "vaultState \<Rightarrow> bool"
  assumes frame: "P v \<Longrightarrow> core v' = core v \<Longrightarrow> P v'"
    and edit_user: "P v \<Longrightarrow> fmlookup (vt_users v) k = Some u \<Longrightarrow> same_key u u' \<Longrightarrow> P (set_user u' v)"
    and add_user: "P v \<Longrightarrow> vt_masterKey v = Some m \<Longrightarrow> seals C (vt_iterations v) m u \<Longrightarrow> P (set_user u v)"
    and recover_user: "P v \<Longrightarrow> fmlookup (vt_sessions v) t = Some s \<Longrightarrow> vs_recovery s \<Longrightarrow>
      vs_masterKey s = Some m \<Longrightarrow> seals C (vt_iterations v) m u \<Longrightarrow> P (set_user u v)"
    and drop_user: "P v \<Longrightarrow> P (v\<lparr>vt_users := fmdrop n (vt_users v)\<rparr>)"
    and drop_key: "P v \<Longrightarrow> P (v\<lparr>vt_masterKey := None\<rparr>)"
    and keep_sessions: "P v \<Longrightarrow> P (v\<lparr>vt_sessions := keep_values Q (vt_sessions v)\<rparr>)"
    and drop_session: "P v \<Longrightarrow> P (v\<lparr>vt_sessions := fmdrop t (vt_sessions v)\<rparr>)"
    and renew_session: "P v \<Longrightarrow> fmlookup (vt_sessions v) t = Some s \<Longrightarrow> vs_user s' = vs_user s \<Longrightarrow>
      vs_recovery s' = vs_recovery s \<Longrightarrow> vs_masterKey s' = vs_masterKey s \<Longrightarrow>
      P (v\<lparr>vt_sessions := fmupd t s' (vt_sessions v)\<rparr>)"
    and recovery_session: "P v \<Longrightarrow> vt_recovery v = Some rec \<Longrightarrow> vr_MasterKeyWrap rec = Some wrap \<Longrightarrow>
      cr_unwrap C key wrap = Some m \<Longrightarrow> vs_recovery s \<Longrightarrow> vs_masterKey s = Some m \<Longrightarrow>
      P (v\<lparr>vt_sessions := fmupd t s (vt_sessions v)\<rparr>)"
    and keep_challenges: "P v \<Longrightarrow> P (v\<lparr>vt_challenges := keep_values Q' (vt_challenges v)\<rparr>)"
    and use_challenge: "P v \<Longrightarrow> fmlookup (vt_challenges v) i = Some c \<Longrightarrow>
      P (v\<lparr>vt_challenges := fmupd i (c\<lparr>vc_used := True\<rparr>) (vt_challenges v)\<rparr>)"
begin

lemma save: "P v \<Longrightarrow> vault_save io v = (e, v') \<Longrightarrow> P v'"
  using frame core_save_eq by blast

lemma fail: "P v \<Longrightarrow> P (vaultFail now k v)" "P v \<Longrightarrow> P (vaultReset k v)" "P v \<Longrightarrow> P (store_zeroKeys v)"
  by (auto elim: frame)

lemma tokens: "P v \<Longrightarrow> P (v\<lparr>vt_initTokens := t\<rparr>)" "P v \<Longrightarrow> P (v\<lparr>vt_loading := b\<rparr>)"
  "P v \<Longrightarrow> P (v\<lparr>vt_indexDEK := d\<rparr>)" "P v \<Longrightarrow> P (v\<lparr>vt_failures := f\<rparr>)"
  "P v \<Longrightarrow> P (v\<lparr>vt_migration := m, vt_migrating := b\<rparr>)"
  by (auto elim: frame)

lemma take: "P v \<Longrightarrow> take_challenge now p i v = Some (x, v') \<Longrightarrow> P v'"
  using use_challenge by (auto simp: take_challenge_def split: option.splits if_splits)


lemma lock: "P v \<Longrightarrow> P (snd (handleVaultLock now r v))"
proof -
  assume p: "P v"
  let ?v = "v\<lparr>vt_sessions := keep_values vs_recovery (vt_sessions v)\<rparr>"
  let ?w = "if vt_masterKey ?v \<noteq> None then (store_zeroKeys ?v)\<lparr>vt_masterKey := None\<rparr> else ?v"
  have "P ?v" by (rule keep_sessions [OF p])
  then have "P (?w\<lparr>vt_loading := False\<rparr>)" using drop_key fail(3) tokens(2) by (cases "vt_masterKey ?v \<noteq> None") auto
  with p show ?thesis
    unfolding handleVaultLock_def Let_def by (cases "sessionFor now r v") (simp_all del: core_frame)
qed

lemma tick: "P v \<Longrightarrow> P (janitor_tick now v)"
proof -
  assume p: "P v"
  let ?v = "v\<lparr>vt_sessions := keep_values (\<lambda>s. \<not> now > vs_expiresAt s) (vt_sessions v)\<rparr>"
  have "P ?v" by (rule keep_sessions [OF p])
  then have "P (if \<not> any_value (\<lambda>s. \<not> vs_recovery s) (vt_sessions ?v) \<and> vt_masterKey ?v \<noteq> None
      then (store_zeroKeys ?v)\<lparr>vt_masterKey := None\<rparr> else ?v)" (is "P ?w")
    by (auto intro: drop_key fail)
  then show ?thesis
    unfolding janitor_tick_def Let_def
    using tokens(4) [OF tokens(1) [OF keep_challenges [of ?w]]] by (simp add: Let_def)
qed

lemma gate: "P v \<Longrightarrow> P (snd (vaultGate now p r v))"
  by (auto simp: vaultGate_def split: option.split dest!: sessionFor_session intro: renew_session)

lemma challenge:
  assumes "P v" "\<And>w y c. P w \<Longrightarrow> rnd 1 = Some y \<Longrightarrow> P (w\<lparr>vt_challenges := fmupd (cr_b64 C y) c (vt_challenges w)\<rparr>)"
  shows "P (snd (handleVaultChallenge C now rnd b v))"
proof (cases "maxChallenges \<le> maplen (vt_challenges v)")
  case True
  let ?w = "v\<lparr>vt_challenges := keep_values (\<lambda>c. \<not> now > vc_expires c) (vt_challenges v)\<rparr>"
  have w: "P ?w" by (rule keep_challenges [OF assms(1)])
  show ?thesis
    using True w assms(1) assms(2) [OF w]
    by (cases b; cases "rnd 0"; cases "rnd 1") (simp_all add: handleVaultChallenge_def Let_def)
next
  case False
  then show ?thesis
    using assms(1) assms(2) [OF assms(1)]
    by (cases b; cases "rnd 0"; cases "rnd 1") (simp_all add: handleVaultChallenge_def)
qed

lemma init: "P v \<Longrightarrow> vt_initialized v \<Longrightarrow> P (snd (handleVaultInit C now rnd io b v))"
  by (auto simp: handleVaultInit_def split: option.split)

lemma recovery: "P v \<Longrightarrow> P (snd (handleVaultRecovery C now rnd r b v))"
  by (auto simp: handleVaultRecovery_def Let_def split: option.split intro!: fail intro: recovery_session)

lemma save_branch:
  "P v \<Longrightarrow> (\<And>e v'. P v' \<Longrightarrow> P (snd (f e v'))) \<Longrightarrow> (\<And>v'. P v' \<Longrightarrow> P (snd (g v'))) \<Longrightarrow>
   P (snd (case vault_save io v of (Some e, v') \<Rightarrow> f e v' | (None, v') \<Rightarrow> g v'))"
  using save by (auto split: prod.split option.split)

lemma drop_both: "P v \<Longrightarrow> P (v\<lparr>vt_users := fmdrop n (vt_users v), vt_sessions := keep_values Q (vt_sessions v)\<rparr>)"
  using keep_sessions [of "v\<lparr>vt_users := fmdrop n (vt_users v)\<rparr>" Q] drop_user [of v n] by simp

lemma take_edit:
  "P v \<Longrightarrow> take_challenge now p i v = Some (x, v') \<Longrightarrow> fmlookup (vt_users v) k = Some u \<Longrightarrow> same_key u u' \<Longrightarrow>
   P (set_user u' v')"
  using take take_challenge_users edit_user by metis

lemma change_user:
  assumes "P v" "vaultTarget now r v = Some (u, kind)" "kind \<noteq> ByInit" "key_for_change kind now r v = Some m"
    "wrap_under_password C v pw salt nonce m = Some (x, y)"
  shows "P (set_user (u\<lparr>vu_KEKSalt := Some x, vu_MasterKeyWrap := Some y, vu_PasswordChangedAt := now\<rparr>) v)"
proof -
  let ?u = "u\<lparr>vu_KEKSalt := Some x, vu_MasterKeyWrap := Some y, vu_PasswordChangedAt := now\<rparr>"
  have seal: "seals C (vt_iterations v) m ?u" by (rule wrap_under_password_seals [OF assms(5)]) simp_all
  show ?thesis
  proof (cases "kind = ByRecovery")
    case True
    then obtain s where "sessionFor now r v = Some s" "vs_recovery s" "vs_masterKey s = Some m"
      using assms(2,4) vaultTarget_recovery [of now r v u] by (auto simp: key_for_change_def split: option.splits)
    then show ?thesis using recover_user [OF assms(1) _ _ _ seal] sessionFor_session by blast
  next
    case False
    then show ?thesis using assms(4) add_user [OF assms(1) _ seal] by (simp add: key_for_change_def)
  qed
qed

lemma user_remove: "P v \<Longrightarrow> P (snd (handleVaultUserRemove now io r b v))"
  unfolding handleVaultUserRemove_def
  by (auto simp: Let_def split: option.split intro!: save_branch drop_key intro: drop_both)

lemma user_add: "P v \<Longrightarrow> P (snd (handleVaultUserAdd C now rnd io r b v))"
  unfolding handleVaultUserAdd_def
  by (auto simp: Let_def split: option.split
      intro!: save_branch drop_user tokens(1) add_user wrap_under_password_seals)

lemma totp_reset: "P v \<Longrightarrow> P (snd (handleVaultTOTPReset now rnd io r v))"
  unfolding handleVaultTOTPReset_def
  by (auto split: option.split dest!: vaultTarget_user intro!: save_branch intro: edit_user)

lemma totp_verify: "P v \<Longrightarrow> P (snd (handleVaultTOTPVerify C now io r b v))"
  unfolding handleVaultTOTPVerify_def
  by (auto simp: Let_def split: option.split intro!: save_branch fail tokens(1) intro: edit_user)

lemma cert: "P v \<Longrightarrow> P (snd (handleVaultCert C now io r b v))"
  unfolding handleVaultCert_def
  by (auto simp: Let_def split: option.split dest!: vaultTarget_user intro!: save_branch tokens(1)
      dest: take intro: take_edit)

lemma password: "P v \<Longrightarrow> P (snd (handleVaultPassword C now rnd io r b v))"
  unfolding handleVaultPassword_def
  by (auto simp: Let_def split: option.split intro!: save_branch keep_sessions intro: change_user)

lemma post_unlock: "P v \<Longrightarrow> P (snd (postUnlockInit C out mk v))"
  unfolding postUnlockInit_def by (auto simp: Let_def split: option.split elim: frame)

lemma unlock_finish: "P v \<Longrightarrow> P (snd (unlock_finish C out u v))"
proof -
  assume p: "P v"
  obtain e v' where e: "postUnlockInit C out (us_masterKey u) v = (e, v')" by fastforce
  then have v': "P v'" using post_unlock [OF p] by (metis snd_conv)
  have "P (v'\<lparr>vt_sessions := fmdrop (us_token u) (vt_sessions v'), vt_masterKey := None\<rparr>)"
    using drop_key [OF drop_session [OF v']] by simp
  then show ?thesis unfolding unlock_finish_def e
    using fail(3) [OF tokens(2)] v' by (cases e) fastforce+
qed

end

subsection \<open>Unlocking\<close>

text \<open>
  The user \<open>u\<close> of the request is registered, his code is right and newer than the last, his
  password opens his wrap to \<open>m\<close>, and the challenge is signed by his certificate's key.
\<close>

definition opens :: "crypto \<Rightarrow> vaultState \<Rightarrow> string \<Rightarrow> string \<Rightarrow> vaultUser \<Rightarrow> string \<Rightarrow> bool" where
  "opens C v name password u m \<longleftrightarrow>
     fmlookup (vt_users v) name = Some u \<and>
     (\<exists>salt kek wrap. vu_KEKSalt u = Some salt \<and> cr_kek C password salt (vt_iterations v) = Some kek \<and>
        vu_MasterKeyWrap u = Some wrap \<and> cr_unwrap C kek wrap = Some m)"

definition factors_met :: "crypto \<Rightarrow> instant \<Rightarrow> string \<Rightarrow> unlock_body \<Rightarrow> vaultState \<Rightarrow> vaultUser \<Rightarrow> string \<Rightarrow> bool" where
  "factors_met C now chal b v u m \<longleftrightarrow>
     opens C v (ub_User b) (ub_Password b) u m \<and>
     vu_TOTPBound u \<and> vu_lastTOTPWindow u < totp_window now \<and>
     (\<exists>secret. vu_TOTPSecret u = Some secret \<and> TotpVerify C secret (ub_TOTP b) (unix now)) \<and>
     (\<exists>pub. cr_parse C (vu_CertPublicPEM u) = Some pub \<and> cr_fingerprint C pub = vu_CertFingerprint u \<and>
        cr_verify C pub (SignPrefixUnlock @ chal) (ub_Signature b))"

lemma check_factors_met:
  "check_factors C now key chal b v = Inr (u, m) \<Longrightarrow> factors_met C now chal b v u m"
  by (auto simp: check_factors_def factors_met_def opens_def totp_admits_def cert_matches_def Let_def
      split: option.splits if_splits)

lemma check_factors_refused: "check_factors C now key chal b v = Inl (e, v') \<Longrightarrow> core v' = core v"
  by (auto simp: check_factors_def Let_def split: option.splits if_splits)

lemma force_expire_user:
  assumes "force_expire C now rnd new m u v = Inr (u', e, w)"
  shows "same_key u u' \<or> seals C (vt_iterations v) m u'"
  using assms by (auto simp: force_expire_def same_key_def Let_def split: if_splits option.splits
      intro: wrap_under_password_seals)

lemma force_expire_name: "force_expire C now rnd new m u v = Inr (u', e, w) \<Longrightarrow> vu_Name u' = vu_Name u"
  by (auto simp: force_expire_def Let_def split: if_splits option.splits)

lemma seals_window [simp]: "seals C it m (u\<lparr>vu_lastTOTPWindow := x\<rparr>) = seals C it m u"
  by (simp add: seals_def)

lemma same_key_window: "same_key u u' \<Longrightarrow> same_key u (u'\<lparr>vu_lastTOTPWindow := x\<rparr>)"
  by (simp add: same_key_def)

lemma take_challenge_opens:
  "take_challenge now p i v = Some (x, v') \<Longrightarrow> opens C v' n pw u m = opens C v n pw u m"
  by (auto simp: take_challenge_def opens_def split: option.splits if_splits)

text \<open>What an accepted request changes before its session exists, and with it.\<close>

lemma unlock_begin_effect:
  obtains (refused) v1 where "core (snd (unlock_begin C now rnd io r b v)) = core v1"
      "v1 = v \<or> (\<exists>i x. take_challenge now ''unlock'' i v = Some (x, v1))"
  | (accepted) b' chal v1 u m u' where "b = Some b'"
      "take_challenge now ''unlock'' (ub_ChallengeID b') v = Some (chal, v1)"
      "factors_met C now chal b' v1 u m" "vu_Name u' = vu_Name u"
      "same_key u u' \<or> seals C (vt_iterations v) m u'"
      "core (snd (unlock_begin C now rnd io r b v)) = core (set_user u' v1) \<or>
       (\<exists>t s. \<not> vs_recovery s \<and> vs_user s = vu_Name u \<and>
          core (snd (unlock_begin C now rnd io r b v)) =
          core ((set_user u' v1)\<lparr>vt_sessions := fmupd t s (vt_sessions v1), vt_masterKey := Some m\<rparr>))"
proof (cases b)
  case None
  then show thesis using refused [of v] by (simp add: unlock_begin_def)
next
  case (Some b')
  let ?key = "''unlock:'' @ ub_User b' @ '':'' @ vq_ip r"
  let ?r = "unlock_begin C now rnd io r b v"
  show thesis
  proof (cases "\<not> vt_enabled v \<or> \<not> vt_initialized v \<or> vaultLimited now ?key v \<or>
      take_challenge now ''unlock'' (ub_ChallengeID b') v = None")
    case True
    then show thesis using refused [of v] Some by (auto simp: unlock_begin_def Let_def)
  next
    case False
    then obtain chal v1 where t: "take_challenge now ''unlock'' (ub_ChallengeID b') v = Some (chal, v1)"
      by auto
    have it: "vt_iterations v1 = vt_iterations v"
      using t by (auto simp: take_challenge_def split: option.splits if_splits)
    show thesis
    proof (cases "check_factors C now ?key chal b' v1")
      case (Inl e)
      then have "core (snd ?r) = core v1"
        using False t Some check_factors_refused [of C now ?key chal b' v1]
        by (cases e; cases "fst e") (auto simp: unlock_begin_def Let_def)
      then show thesis using refused t by blast
    next
      case (Inr um)
      then obtain u m where um: "check_factors C now ?key chal b' v1 = Inr (u, m)" by (cases um) simp
      note met = check_factors_met [OF um]
      show thesis
      proof (cases "force_expire C now rnd (ub_NewPassword b') m u v1")
        case (Inl e)
        then have "core (snd ?r) = core v1"
          using False t Some um by (cases e) (auto simp: unlock_begin_def Let_def)
        then show thesis using refused t by blast
      next
        case (Inr x)
        then obtain u1 ex rw where f: "force_expire C now rnd (ub_NewPassword b') m u v1 = Inr (u1, ex, rw)"
          by (cases x) auto
        let ?u = "u1\<lparr>vu_lastTOTPWindow := totp_window now\<rparr>"
        have k: "same_key u ?u \<or> seals C (vt_iterations v) m ?u" "vu_Name ?u = vu_Name u"
          using force_expire_user [OF f] force_expire_name [OF f] it same_key_window by auto
        have "core (snd ?r) = core (set_user ?u v1) \<or>
          (\<exists>t s. \<not> vs_recovery s \<and> vs_user s = vu_Name u \<and>
             core (snd ?r) =
             core ((set_user ?u v1)\<lparr>vt_sessions := fmupd t s (vt_sessions v1), vt_masterKey := Some m\<rparr>))"
        proof (cases "rnd 2")
          case None
          then show ?thesis using False t Some um f by (simp add: unlock_begin_def Let_def)
        next
          case (Some tok)
          define s where "s = \<lparr>vs_token = cr_b64 C tok, vs_user = vu_Name ?u, vs_certFP = vu_CertFingerprint ?u,
            vs_ip = vq_ip r, vs_recovery = False, vs_masterKey = None, vs_lastActive = now,
            vs_expiresAt = now + vt_idleTimeout (set_user ?u v1)\<rparr>"
          let ?v = "(set_user ?u v1)\<lparr>vt_sessions := fmupd (cr_b64 C tok) s (vt_sessions (set_user ?u v1)),
            vt_masterKey := Some m, vt_loading := True\<rparr>"
          have "core (snd ?r) = core ?v"
            using False t \<open>b = Some b'\<close> um f Some core_save [of io ?v]
            by (cases "vault_save io ?v"; cases rw)
              (auto simp: unlock_begin_def Let_def s_def split: option.split)
          also have "core ?v = core ((set_user ?u v1)\<lparr>vt_sessions := fmupd (cr_b64 C tok) s (vt_sessions v1),
              vt_masterKey := Some m\<rparr>)"
            by (simp add: core_def set_user_def)
          finally have e: "core (snd ?r) = core ((set_user ?u v1)\<lparr>vt_sessions := fmupd (cr_b64 C tok) s
            (vt_sessions v1), vt_masterKey := Some m\<rparr>)" .
          have "\<not> vs_recovery s" "vs_user s = vu_Name u" using k(2) by (simp_all add: s_def)
          with e show ?thesis by blast
        qed
        with Some t met k accepted show thesis by blast
      qed
    qed
  qed
qed

locale vault_closed = quiet_closed +
  assumes open_vault: "P v \<Longrightarrow> opens C v n pw u m \<Longrightarrow> \<not> vs_recovery s \<Longrightarrow>
      P (v\<lparr>vt_sessions := fmupd t s (vt_sessions v), vt_masterKey := Some m\<rparr>)"
    and rewrap_user: "P v \<Longrightarrow> opens C v n pw u m \<Longrightarrow> seals C (vt_iterations v) m u' \<Longrightarrow> P (set_user u' v)"
begin

lemma new_user_record:
  "P v \<Longrightarrow> opens C v n pw u m \<Longrightarrow> same_key u u' \<or> seals C (vt_iterations v) m u' \<Longrightarrow> P (set_user u' v)"
  using edit_user rewrap_user by (metis opens_def)

lemma unlock_begin: "P v \<Longrightarrow> P (snd (unlock_begin C now rnd io r b v))"
proof -
  assume p: "P v"
  show ?thesis
  proof (cases rule: unlock_begin_effect [of C now rnd io r b v])
    case (refused v1)
    then show ?thesis using p take frame by blast
  next
    case (accepted b' chal v1 u m u')
    have v1: "P v1" by (rule take [OF p accepted(2)])
    have it: "vt_iterations v1 = vt_iterations v"
      using accepted(2) by (auto simp: take_challenge_def split: option.splits if_splits)
    have o1: "opens C v1 (ub_User b') (ub_Password b') u m" using accepted(3) by (simp add: factors_met_def)
    have k: "same_key u u' \<or> seals C (vt_iterations v1) m u'" using accepted(5) it by simp
    have "P (set_user u' v1)" by (rule new_user_record [OF v1 o1 k])
    moreover have "P ((set_user u' v1)\<lparr>vt_sessions := fmupd t s (vt_sessions v1), vt_masterKey := Some m\<rparr>)"
      if "\<not> vs_recovery s" for t s
    proof -
      let ?v2 = "v1\<lparr>vt_sessions := fmupd t s (vt_sessions v1), vt_masterKey := Some m\<rparr>"
      have "P ?v2" by (rule open_vault [OF v1 o1 that])
      moreover have "opens C ?v2 (ub_User b') (ub_Password b') u m" using o1 by (simp add: opens_def)
      ultimately have "P (set_user u' ?v2)" using new_user_record k by simp
      then show ?thesis by (rule frame) (simp add: core_def set_user_def)
    qed
    ultimately show ?thesis using accepted(6) frame by blast
  qed
qed

text \<open>\<open>fresh\<close>: the challenge an event issues keeps the invariant.\<close>

lemma step_fresh:
  assumes "P v" "vt_initialized v"
    "\<And>now rnd b w y c. e = EvChallenge now rnd b \<Longrightarrow> P w \<Longrightarrow> rnd 1 = Some y \<Longrightarrow>
       P (w\<lparr>vt_challenges := fmupd (cr_b64 C y) c (vt_challenges w)\<rparr>)"
  shows "P (vault_step C e v)"
  using assms
  by (cases e)
    (auto intro: init user_add user_remove totp_verify totp_reset challenge cert unlock_begin
      unlock_finish lock password recovery gate tick)

end

text \<open>The usual case: a new challenge never matters.\<close>

locale vault_invariant = vault_closed +
  assumes new_challenge: "P v \<Longrightarrow> P (v\<lparr>vt_challenges := fmupd i c (vt_challenges v)\<rparr>)"
begin

lemma step: "P v \<Longrightarrow> vt_initialized v \<Longrightarrow> P (vault_step C e v)"
  by (rule step_fresh) (simp_all add: new_challenge)

end

text \<open>An initialized vault stays initialized.\<close>

interpretation initialized: vault_invariant C vt_initialized
  by unfold_locales (simp_all add: core_def set_user_def)

lemma run_initialized: "vt_initialized v \<Longrightarrow> vt_initialized (vault_run C evs v)"
  by (induction evs rule: rev_induct) (simp_all add: initialized.step)

context vault_invariant
begin

lemma run: "P v \<Longrightarrow> vt_initialized v \<Longrightarrow> P (vault_run C evs v)"
  by (induction evs rule: rev_induct) (simp_all add: step run_initialized)

end

end
