(* ===== verification/VaultSafety.thy ===== *)
theory VaultSafety
  imports VaultRuns
begin

text \<open>
  What holds of the vault (cmd/irix-node/vault.go, vault_handlers.go) in every run: there is one
  master key; a request reaches the data routes only on a session that an unlocking with all
  factors opened and no locking has ended; a challenge is good for one request; what changing
  the password does; and two things the code does not do: it accepts one TOTP code several
  times, and a second unlocking forgets running processes.
\<close>

subsection \<open>One master key\<close>

text \<open>Every place of the key tree that can yield a master key yields \<open>M\<close>.\<close>

definition keyed :: "crypto \<Rightarrow> string \<Rightarrow> vaultState \<Rightarrow> bool" where
  "keyed C M v \<longleftrightarrow> authentic C \<and> vt_masterKey v \<in> {None, Some M} \<and>
     (\<forall>t s. fmlookup (vt_sessions v) t = Some s \<longrightarrow> vs_recovery s \<longrightarrow> vs_masterKey s \<in> {None, Some M}) \<and>
     (\<forall>k u. fmlookup (vt_users v) k = Some u \<longrightarrow> seals C (vt_iterations v) M u) \<and>
     (\<forall>rec wrap key m. vt_recovery v = Some rec \<longrightarrow> vr_MasterKeyWrap rec = Some wrap \<longrightarrow>
        cr_unwrap C key wrap = Some m \<longrightarrow> m = M)"

lemma keyed_opens: "keyed C M v \<Longrightarrow> opens C v n pw u m \<Longrightarrow> m = M"
  unfolding keyed_def opens_def seals_def authentic_def by (metis option.inject)

lemma seals_same_key: "same_key u u' \<Longrightarrow> seals C it m u' = seals C it m u"
  by (simp add: same_key_def seals_def)

lemma keyed_set_user: "keyed C M v \<Longrightarrow> seals C (vt_iterations v) M u \<Longrightarrow> keyed C M (set_user u v)"
  by (simp add: keyed_def set_user_def)

interpretation keyed: vault_invariant C "keyed C M"
proof
  fix v v'
  assume "keyed C M v" "core v' = core v"
  then show "keyed C M v'" by (simp add: keyed_def core_def)
next
  fix v k u u'
  assume "keyed C M v" "fmlookup (vt_users v) k = Some u" "same_key u u'"
  then show "keyed C M (set_user u' v)" by (intro keyed_set_user) (auto simp: seals_same_key keyed_def)
next
  fix v m u
  assume "keyed C M v" "vt_masterKey v = Some m" "seals C (vt_iterations v) m u"
  then show "keyed C M (set_user u v)" by (intro keyed_set_user) (auto simp: keyed_def)
next
  fix v t s m u
  assume "keyed C M v" "fmlookup (vt_sessions v) t = Some s" "vs_recovery s" "vs_masterKey s = Some m"
    "seals C (vt_iterations v) m u"
  moreover from this have "m = M" unfolding keyed_def by fastforce
  ultimately show "keyed C M (set_user u v)" by (intro keyed_set_user) simp_all
next
  fix v n pw u m u'
  assume "keyed C M v" "opens C v n pw u m" "seals C (vt_iterations v) m u'"
  then show "keyed C M (set_user u' v)" using keyed_opens keyed_set_user by metis
next
  fix v n pw u m t and s :: vaultSession
  assume "keyed C M v" "opens C v n pw u m" "\<not> vs_recovery s"
  moreover from this have "m = M" by (blast dest: keyed_opens)
  ultimately show "keyed C M (v\<lparr>vt_sessions := fmupd t s (vt_sessions v), vt_masterKey := Some m\<rparr>)"
    by (simp add: keyed_def)
next
  fix v rec wrap key m t and s :: vaultSession
  assume k: "keyed C M v" "vt_recovery v = Some rec" "vr_MasterKeyWrap rec = Some wrap"
      "cr_unwrap C key wrap = Some m" and s: "vs_recovery s" "vs_masterKey s = Some m"
  from k have "m = M" unfolding keyed_def by blast
  with k(1) s show "keyed C M (v\<lparr>vt_sessions := fmupd t s (vt_sessions v)\<rparr>)" by (simp add: keyed_def)
qed (auto simp: keyed_def split: option.splits if_splits)


text \<open>What a successful initialisation leaves.\<close>

definition born :: "crypto \<Rightarrow> string \<Rightarrow> vaultState \<Rightarrow> vaultState \<Rightarrow> bool" where
  "born C M v v' \<longleftrightarrow> (\<exists>u h rw iw key n. core v' = core ((set_user u v)\<lparr>
       vt_recovery := Some \<lparr>vr_Hash = h, vr_MasterKeyWrap = Some rw\<rparr>, vt_indexDEKWrap := iw,
       vt_initialized := True\<rparr>) \<and> seals C (vt_iterations v) M u \<and> cr_wrap C key n M = Some rw)"

lemma bornI:
  "core v' = core ((set_user u v)\<lparr>vt_recovery := Some \<lparr>vr_Hash = h, vr_MasterKeyWrap = Some rw\<rparr>,
     vt_indexDEKWrap := iw, vt_initialized := True\<rparr>) \<Longrightarrow> seals C (vt_iterations v) M u \<Longrightarrow>
   cr_wrap C key n M = Some rw \<Longrightarrow> born C M v v'"
  unfolding born_def by blast

lemma handleVaultInit_done:
  assumes "handleVaultInit C now rnd io b v = (Reply a, v')" "rnd 0 = Some M"
  shows "born C M v v'"
  using assms unfolding handleVaultInit_def
  by (auto simp: Let_def gcm_wrap_def split: option.splits if_splits prod.splits
      dest!: core_save_eq intro!: bornI wrap_under_password_seals)

lemma init_keyed:
  assumes "authentic C" "handleVaultInit C now rnd io b v = (Reply a, v')" "rnd 0 = Some M"
    "vt_users v = fmempty" "vt_sessions v = fmempty" "vt_masterKey v = None"
  shows "keyed C M v' \<and> vt_initialized v'"
proof -
  obtain u h rw iw key n where v': "core v' = core ((set_user u v)\<lparr>vt_recovery := Some \<lparr>vr_Hash = h,
      vr_MasterKeyWrap = Some rw\<rparr>, vt_indexDEKWrap := iw, vt_initialized := True\<rparr>)" (is "_ = core ?w")
    and u: "seals C (vt_iterations v) M u" and rw: "cr_wrap C key n M = Some rw"
    using handleVaultInit_done [OF assms(2,3)] unfolding born_def by blast
  have "\<And>k m. cr_unwrap C k rw = Some m \<Longrightarrow> m = M" using assms(1) rw unfolding authentic_def by blast
  then have "keyed C M ?w" using assms u by (simp add: keyed_def set_user_def)
  with v' show ?thesis using keyed.frame by (auto simp: core_def)
qed

text \<open>
  C3. One master key for life. Let a vault that has no users, sessions or key be initialised and
  draw the master key \<open>M\<close>. Whatever requests, ticks and unlockings follow, in whatever order and
  with whatever faults of the disk and of the random source: the key in memory is \<open>M\<close> or none,
  and every password that opens some user's record opens it to \<open>M\<close>. So no user, no password
  change, no recovery and no failed save can leave data sealed under two keys.
\<close>

theorem master_key_for_life:
  assumes "authentic C" "handleVaultInit C now rnd io b v = (Reply a, v')" "rnd 0 = Some M"
    "vt_users v = fmempty" "vt_sessions v = fmempty" "vt_masterKey v = None"
  shows "vt_masterKey (vault_run C evs v') \<in> {None, Some M} \<and>
         (\<forall>n pw u m. opens C (vault_run C evs v') n pw u m \<longrightarrow> m = M)"
proof -
  have "keyed C M (vault_run C evs v')" using init_keyed [OF assms] keyed.run by blast
  then show ?thesis using keyed_opens unfolding keyed_def by blast
qed

subsection \<open>The gate\<close>

lemma any_value_iff: "any_value P m \<longleftrightarrow> (\<exists>k x. fmlookup m k = Some x \<and> P x)"
proof -
  have "any_value P m \<longleftrightarrow> (\<exists>k. fmlookup (keep_values P m) k \<noteq> None)"
    unfolding any_value_def by (metis fmap_ext fmempty_lookup)
  then show ?thesis by (auto split: option.splits if_splits)
qed

text \<open>\<open>v\<close> has no unlocked session that \<open>v0\<close> has not.\<close>

definition no_new_session :: "vaultState \<Rightarrow> vaultState \<Rightarrow> bool" where
  "no_new_session v0 v \<longleftrightarrow> (\<forall>t s. fmlookup (vt_sessions v) t = Some s \<longrightarrow> \<not> vs_recovery s \<longrightarrow>
     (\<exists>s0. fmlookup (vt_sessions v0) t = Some s0 \<and> \<not> vs_recovery s0 \<and> vs_user s0 = vs_user s))"

interpretation sessions: quiet_closed C "no_new_session v0"
  by unfold_locales (auto simp: no_new_session_def core_def set_user_def split: option.splits if_splits)

text \<open>The request \<open>e\<close> is an unlocking of \<open>U\<close> that meets every factor in the state \<open>v\<close>.\<close>

definition authenticates :: "crypto \<Rightarrow> vaultState \<Rightarrow> string \<Rightarrow> vault_event \<Rightarrow> bool" where
  "authenticates C v U e \<longleftrightarrow>
     (\<exists>now rnd io r b chal v1 u m. e = EvUnlockBegin now rnd io r (Some b) \<and>
        take_challenge now ''unlock'' (ub_ChallengeID b) v = Some (chal, v1) \<and>
        factors_met C now chal b v1 u m \<and> vu_Name u = U)"

lemma no_new_session_refl [simp]: "no_new_session v v"
  by (auto simp: no_new_session_def)

text \<open>The only step that makes an unlocked session is an unlocking of its user with every factor.\<close>

lemma step_session:
  assumes "vt_initialized v" "fmlookup (vt_sessions (vault_step C e v)) t = Some s" "\<not> vs_recovery s"
  shows "(\<exists>s0. fmlookup (vt_sessions v) t = Some s0 \<and> \<not> vs_recovery s0 \<and> vs_user s0 = vs_user s) \<or>
         authenticates C v (vs_user s) e"
proof (cases "\<exists>now rnd io r b. e = EvUnlockBegin now rnd io r b")
  case False
  have new: "no_new_session v w \<Longrightarrow> no_new_session v (w\<lparr>vt_challenges := x\<rparr>)" for w x
    by (simp add: no_new_session_def)
  have "no_new_session v (vault_step C e v)"
    using False assms(1)
    by (cases e) (auto intro: sessions.init sessions.user_add sessions.user_remove sessions.totp_verify
      sessions.totp_reset sessions.challenge sessions.cert sessions.unlock_finish sessions.lock
      sessions.password sessions.recovery sessions.gate sessions.tick new)
  with assms show ?thesis unfolding no_new_session_def by blast
next
  case True
  then obtain now rnd io r b where e: "e = EvUnlockBegin now rnd io r b" by blast
  show ?thesis
  proof (cases rule: unlock_begin_effect [of C now rnd io r b v])
    case (refused v1)
    then have "vt_sessions (vault_step C e v) = vt_sessions v"
      by (auto simp: e core_def take_challenge_def split: option.splits if_splits)
    with assms show ?thesis by auto
  next
    case (accepted b' chal v1 u m u')
    have "vt_sessions v1 = vt_sessions v"
      using accepted(2) by (auto simp: take_challenge_def split: option.splits if_splits)
    moreover have "authenticates C v (vu_Name u) e" unfolding authenticates_def using accepted e by blast
    ultimately show ?thesis
      using accepted(6) assms by (auto simp: e core_def set_user_def split: if_splits)
  qed
qed

lemma run_session:
  assumes "vt_initialized v0" "fmlookup (vt_sessions (vault_run C evs v0)) t = Some s" "\<not> vs_recovery s"
  shows "(\<exists>s0. fmlookup (vt_sessions v0) t = Some s0 \<and> \<not> vs_recovery s0) \<or>
         (\<exists>pre e post. evs = pre @ e # post \<and> authenticates C (vault_run C pre v0) (vs_user s) e)"
  using assms(2,3)
proof (induction evs arbitrary: s rule: rev_induct)
  case (snoc e evs)
  let ?v = "vault_run C evs v0"
  have "(\<exists>s0. fmlookup (vt_sessions ?v) t = Some s0 \<and> \<not> vs_recovery s0 \<and> vs_user s0 = vs_user s) \<or>
      authenticates C ?v (vs_user s) e"
    by (rule step_session [OF run_initialized [OF assms(1)]]) (use snoc.prems in simp_all)
  then show ?case
  proof
    assume "\<exists>s0. fmlookup (vt_sessions ?v) t = Some s0 \<and> \<not> vs_recovery s0 \<and> vs_user s0 = vs_user s"
    then obtain s0 where s0: "fmlookup (vt_sessions ?v) t = Some s0" "\<not> vs_recovery s0" "vs_user s0 = vs_user s"
      by blast
    then show ?thesis using snoc.IH [OF s0(1,2)] by (metis append.assoc append_Cons)
  next
    assume "authenticates C ?v (vs_user s) e"
    then show ?thesis by blast
  qed
qed simp

lemma gate_session:
  assumes "vt_enabled v" "\<not> gate_exempt p" "fst (vaultGate now p r v) = Reply ()"
  shows "\<exists>s. fmlookup (vt_sessions v) (vq_token r) = Some s \<and> \<not> vs_recovery s \<and> \<not> now > vs_expiresAt s \<and>
     vt_initialized v \<and> unlocked v \<and> \<not> vt_loading v \<and> \<not> vt_migrating v"
  using assms by (auto simp: vaultGate_def sessionFor_def split: if_splits option.splits)

text \<open>
  C2. Nothing behind the gate without all factors. Let an initialised vault start with no
  unlocked session, as after a restart, and let any events follow. A request that the enabled
  vault lets through to a data route then carries the token of a live session, the master key
  is in memory, and among the events is an unlocking request of that session's user that, in
  the state it met, took an unused challenge, gave a right and fresh TOTP code, the password
  that opens the user's record and a signature by the key of the user's certificate.
\<close>

theorem gate_needs_all_factors:
  assumes "vt_initialized v0" "\<not> any_value (\<lambda>s. \<not> vs_recovery s) (vt_sessions v0)"
    "v = vault_run C evs v0" "vt_enabled v" "\<not> gate_exempt p" "fst (vaultGate now p r v) = Reply ()"
  shows "unlocked v \<and> (\<exists>s pre e post. fmlookup (vt_sessions v) (vq_token r) = Some s \<and> now \<le> vs_expiresAt s \<and>
     evs = pre @ e # post \<and> authenticates C (vault_run C pre v0) (vs_user s) e)"
proof -
  obtain s where s: "fmlookup (vt_sessions v) (vq_token r) = Some s" "\<not> vs_recovery s" "\<not> now > vs_expiresAt s"
      "unlocked v"
    using gate_session [OF assms(4,5,6)] by blast
  have "\<not> (\<exists>s0. fmlookup (vt_sessions v0) (vq_token r) = Some s0 \<and> \<not> vs_recovery s0)"
    using assms(2) by (auto simp: any_value_iff)
  then show ?thesis using run_session [OF assms(1) s(1) [unfolded assms(3)] s(2)] s assms(3) by (metis not_le)
qed

text \<open>
  Locking ends every session. After a lock that is answered with success, no request passes
  the gate to a data route until somebody has unlocked again with all factors.
\<close>

theorem lock_closes_gate:
  assumes "handleVaultLock now0 r0 v = (Reply x, v1)" "vt_initialized v" "v2 = vault_run C evs v1" "vt_enabled v2"
    "\<forall>pre e post U. evs = pre @ e # post \<longrightarrow> \<not> authenticates C (vault_run C pre v1) U e" "\<not> gate_exempt p"
  shows "\<exists>code msg. vaultGate now p r v2 = (Fail code msg, v2)"
proof -
  have v1: "vt_initialized v1" "\<not> any_value (\<lambda>s. \<not> vs_recovery s) (vt_sessions v1)"
    using assms(1,2)
    by (auto simp: handleVaultLock_def Let_def any_value_iff store_zeroKeys_def split: if_splits option.splits)
  then have "fst (vaultGate now p r v2) \<noteq> Reply ()"
    using gate_needs_all_factors [OF v1 assms(3,4,6), of now r] assms(5) by blast
  then show ?thesis by (auto simp: vaultGate_def Let_def split: if_splits option.splits)
qed

subsection \<open>Challenges\<close>

text \<open>The challenge \<open>i\<close> is not there or used.\<close>

definition spent :: "string \<Rightarrow> vaultState \<Rightarrow> bool" where
  "spent i v \<longleftrightarrow> (\<forall>c. fmlookup (vt_challenges v) i = Some c \<longrightarrow> vc_used c)"

interpretation spent: vault_closed C "spent i"
  by unfold_locales (auto simp: spent_def core_def set_user_def split: option.splits if_splits)

lemma spent_take: "spent i v \<Longrightarrow> take_challenge now p i v = None"
  by (auto simp: spent_def take_challenge_def split: option.split)

lemma take_spent: "take_challenge now p i v = Some (x, v') \<Longrightarrow> spent i v'"
  by (auto simp: spent_def take_challenge_def split: option.splits if_splits)

text \<open>No event of the list issues a challenge under the id \<open>i\<close>.\<close>

definition not_reissued :: "crypto \<Rightarrow> string \<Rightarrow> vault_event list \<Rightarrow> bool" where
  "not_reissued C i evs \<longleftrightarrow> (\<forall>now rnd b y. EvChallenge now rnd b \<in> set evs \<longrightarrow> rnd 1 = Some y \<longrightarrow> cr_b64 C y \<noteq> i)"

lemma run_spent: "spent i v \<Longrightarrow> vt_initialized v \<Longrightarrow> not_reissued C i evs \<Longrightarrow> spent i (vault_run C evs v)"
proof (induction evs rule: rev_induct)
  case (snoc e evs)
  have "not_reissued C i evs" using snoc.prems(3) unfolding not_reissued_def by auto
  then have "spent i (vault_run C evs v)" using snoc by blast
  then have "spent i (vault_step C e (vault_run C evs v))"
  proof (rule spent.step_fresh [OF _ run_initialized [OF snoc.prems(2)]])
    fix now rnd b w y c
    assume "e = EvChallenge now rnd b" "spent i w" "rnd 1 = Some y"
    then show "spent i (w\<lparr>vt_challenges := fmupd (cr_b64 C y) c (vt_challenges w)\<rparr>)"
      using snoc.prems(3) unfolding spent_def not_reissued_def by auto
  qed
  then show ?case by simp
qed simp

lemma unlock_begin_spends:
  assumes "vt_enabled v" "vt_initialized v" "\<not> vaultLimited now (''unlock:'' @ ub_User b @ '':'' @ vq_ip r) v"
    "take_challenge now ''unlock'' (ub_ChallengeID b) v = Some (x, v1)"
  shows "spent (ub_ChallengeID b) (snd (unlock_begin C now rnd io r (Some b) v))"
proof -
  have spent: "spent i w" if "spent i u" "core w = core u" for i u w
    using that by (simp add: spent_def core_def)
  show ?thesis
  proof (cases rule: unlock_begin_effect [of C now rnd io r "Some b" v])
    case (refused v2)
    have "vt_challenges (snd (unlock_begin C now rnd io r (Some b) v)) = vt_challenges v1"
    proof (cases "check_factors C now (''unlock:'' @ ub_User b @ '':'' @ vq_ip r) x b v1")
      case (Inl e)
      then show ?thesis
        using assms check_factors_refused [of C now "''unlock:'' @ ub_User b @ '':'' @ vq_ip r" x b v1]
        by (cases e; cases "fst e") (auto simp: unlock_begin_def core_def)
    next
      case (Inr um)
      obtain u m where um: "um = (u, m)" by (cases um)
      have save: "vault_save io w = (e, w') \<Longrightarrow> vt_challenges w' = vt_challenges w" for w e w'
        using core_save_eq [of io w e w'] by (simp add: core_def)
      show ?thesis
        using assms Inr um
        by (auto simp: unlock_begin_def Let_def set_user_def vaultReset_def
            split: option.split sum.split prod.split dest!: save)
    qed
    then show ?thesis using take_spent [OF assms(4)] by (simp add: spent_def)
  next
    case (accepted b' chal v2 u m u')
    then have "spent (ub_ChallengeID b) v2" using take_spent by simp
    then show ?thesis using accepted(6) by (elim disjE exE conjE) (auto simp: spent_def core_def set_user_def)
  qed
qed

text \<open>
  A challenge is good for one request. Let an unlocking request reach a pending challenge;
  whether it succeeds or fails, no later request can use that challenge, for unlocking or for
  binding a certificate, whatever happens in between, unless the random source draws the same
  id again.
\<close>

theorem challenge_used_once:
  assumes "vt_enabled v" "vt_initialized v" "\<not> vaultLimited now (''unlock:'' @ ub_User b @ '':'' @ vq_ip r) v"
    "take_challenge now ''unlock'' (ub_ChallengeID b) v = Some (x, v1)"
    "v2 = snd (unlock_begin C now rnd io r (Some b) v)" "not_reissued C (ub_ChallengeID b) evs"
  shows "take_challenge now2 p (ub_ChallengeID b) (vault_run C evs v2) = None"
proof -
  have "vt_initialized v2" unfolding assms(5) by (rule initialized.unlock_begin [OF assms(2)])
  moreover have "spent (ub_ChallengeID b) v2" unfolding assms(5) by (rule unlock_begin_spends [OF assms(1-4)])
  ultimately show ?thesis using run_spent [OF _ _ assms(6)] spent_take by blast
qed

subsection \<open>TOTP codes\<close>

lemma nat_itoa_length: "n < 10 ^ Suc d \<Longrightarrow> length (nat_itoa n) \<le> Suc d"
proof (induction d arbitrary: n)
  case (Suc d)
  show ?case
  proof (cases "n < 10")
    case False
    have "length (nat_itoa (n div 10)) \<le> Suc d" using Suc.prems by (intro Suc.IH) (simp add: less_mult_imp_div_less)
    with False show ?thesis by (simp add: nat_itoa.simps [of n])
  qed (simp add: nat_itoa.simps)
qed (simp add: nat_itoa.simps)

lemma TotpCode_length: "length (TotpCode C secret t) = TotpDigits"
proof -
  have "length (pad_zeros 6 (nat_itoa (k mod 10 ^ 6))) = 6" for k :: nat
    using nat_itoa_length [of "k mod 10 ^ 6" 5] by (simp add: pad_zeros_def)
  then show ?thesis by (simp add: TotpCode_def TotpDigits_def Let_def)
qed

text \<open>
  One code opens three windows. The unlocking handler compares the current window with the
  one of the last success and stores the current one, although \<open>TotpVerify\<close> may have matched a
  neighbour. So the code of the next window is accepted now, again thirty seconds later and
  again a minute later, each time with the window of the previous success recorded: a code seen
  by an onlooker is not burnt by its use.
\<close>

theorem totp_code_accepted_three_times:
  assumes "vu_TOTPBound u" "vu_lastTOTPWindow u < totp_window now" "code = TotpCode C secret (unix now + TotpPeriod)"
    "now1 = now + 30 * 10 ^ 9" "now2 = now + 60 * 10 ^ 9"
  shows "totp_admits C now secret code u \<and>
         totp_admits C now1 secret code (u\<lparr>vu_lastTOTPWindow := totp_window now\<rparr>) \<and>
         totp_admits C now2 secret code (u\<lparr>vu_lastTOTPWindow := totp_window now1\<rparr>)"
proof -
  have later: "unix (now + k * 10 ^ 9) = unix now + k" for k :: int
    by (simp only: unix_def) simp
  have u: "unix now1 = unix now + TotpPeriod" "unix now2 = unix now + TotpPeriod + TotpPeriod"
    by (simp_all only: assms(4,5) later TotpPeriod_def)
  then have "totp_window now < totp_window now1" "totp_window now1 < totp_window now2"
    by (simp_all add: totp_window_def TotpPeriod_def)
  moreover have "TotpVerify C secret code (unix now + k * TotpPeriod)" if "k \<in> {0, 1, 2}" for k
    using that by (auto simp: TotpVerify_def TotpCode_length assms(3) algebra_simps)
  from this [of 0] this [of 1] this [of 2]
  have "TotpVerify C secret code (unix now)" "TotpVerify C secret code (unix now1)"
    "TotpVerify C secret code (unix now2)" by (simp_all add: u algebra_simps)
  ultimately show ?thesis using assms(1,2) by (simp add: totp_admits_def)
qed

subsection \<open>Changing the password\<close>

lemma vaultTarget_key:
  "vaultTarget now r v = Some (u, BySession) \<Longrightarrow> key_for_change BySession now r v = vt_masterKey v"
  by (simp add: key_for_change_def)

text \<open>
  A changed password takes over. After a password change that is answered with success, the
  new password opens the user's record to the same master key the change was made with; the
  change was allowed only to a session that gave the old password, or to a recovery session;
  the user has no other unlocked session left; and no other user's record was touched.
\<close>

theorem password_change_takes_over:
  assumes "authentic C" "handleVaultPassword C now rnd io r (Some (old, new)) v = (Reply x, v')"
    "vaultTarget now r v = Some (u, kind)"
  shows "(\<exists>m u'. key_for_change kind now r v = Some m \<and> opens C v' (vu_Name u) new u' m \<and> vu_PasswordChangedAt u' = now \<and>
            (kind \<noteq> ByRecovery \<longrightarrow> old_password_opens C old u v m = None)) \<and>
         (\<forall>t s. fmlookup (vt_sessions v') t = Some s \<longrightarrow> \<not> vs_recovery s \<longrightarrow> vs_user s = vu_Name u \<longrightarrow>
            vs_token s = vq_token r) \<and>
         (\<forall>n. n \<noteq> vu_Name u \<longrightarrow> fmlookup (vt_users v') n = fmlookup (vt_users v) n)"
proof -
  have k: "kind \<noteq> ByInit" and e: "vt_enabled v" "validateVaultPassword v new = None"
    using assms(2,3) by (auto simp: handleVaultPassword_def split: if_splits option.splits)
  obtain m where m: "key_for_change kind now r v = Some m"
    using assms(2,3) k e by (auto simp: handleVaultPassword_def split: option.splits)
  have old: "kind = BySession \<Longrightarrow> old_password_opens C old u v m = None"
    using assms(2,3) k e m by (cases "old_password_opens C old u v m") (auto simp: handleVaultPassword_def split: prod.splits)
  obtain salt wrap where w: "wrap_under_password C v new (rnd 0) (rnd 1) m = Some (salt, wrap)"
    using assms(2,3) k e m old
    by (cases "wrap_under_password C v new (rnd 0) (rnd 1) m") (auto simp: handleVaultPassword_def split: if_splits)
  let ?u = "u\<lparr>vu_KEKSalt := Some salt, vu_MasterKeyWrap := Some wrap, vu_PasswordChangedAt := now\<rparr>"
  let ?w = "(set_user ?u v)\<lparr>vt_sessions := keep_values (\<lambda>s. \<not> (vs_user s = vu_Name u \<and>
      vs_token s \<noteq> vq_token r \<and> \<not> vs_recovery s)) (vt_sessions v)\<rparr>"
  have "vault_save io ?w = (None, v')"
    using assms(2,3) k e m old w
    by (auto simp: handleVaultPassword_def Let_def set_user_def split: if_splits option.splits prod.splits)
  then have c: "core v' = core ?w" by (rule core_save_eq)
  obtain kek nonce where kek: "cr_kek C new salt (vt_iterations v) = Some kek" "cr_wrap C kek nonce m = Some wrap"
    using w by (auto simp: wrap_under_password_def gcm_wrap_def split: option.splits)
  then have "cr_unwrap C kek wrap = Some m" using assms(1) unfolding authentic_def by blast
  with kek c have "opens C v' (vu_Name u) new ?u m"
    by (auto simp: opens_def core_def set_user_def)
  moreover have "kind \<noteq> ByRecovery \<Longrightarrow> old_password_opens C old u v m = None" using old k by (cases kind) auto
  ultimately have "\<exists>m u'. key_for_change kind now r v = Some m \<and> opens C v' (vu_Name u) new u' m \<and>
      vu_PasswordChangedAt u' = now \<and> (kind \<noteq> ByRecovery \<longrightarrow> old_password_opens C old u v m = None)"
    using m by (intro exI [of _ m] exI [of _ ?u]) simp
  then show ?thesis
    using c by (auto simp: core_def set_user_def split: option.splits if_splits)
qed

subsection \<open>A second unlocking and the instance registry\<close>

lemma add_vault_instances_fresh:
  "nd_next n \<le> nd_next (add_vault_instances y u ps n) \<and>
   (\<forall>r < nd_next n. nd_objs (add_vault_instances y u ps n) r = nd_objs n r) \<and>
   (\<forall>r \<in> set (nd_Instances (add_vault_instances y u ps n)). r \<in> set (nd_Instances n) \<or>
      nd_next n \<le> r \<and> in_Proc (nd_objs (add_vault_instances y u ps n) r) = None)"
proof (induction y u ps n rule: add_vault_instances.induct)
  case (2 y u p ps n)
  define i where "i = (let i = (NewInstance y u (ps_InstanceUuid p) (ps_Config p))\<lparr>in_Started := ps_Started p\<rparr>
     in if ps_Owner p \<noteq> [] \<and> validUsername (ps_Owner p) then i\<lparr>in_Owner := ps_Owner p\<rparr> else i)"
  define n1 where "n1 = (snd (alloc i n))\<lparr>nd_Instances := nd_Instances n @ [nd_next n]\<rparr>"
  have step: "add_vault_instances y u (p # ps) n = add_vault_instances y u ps n1"
    by (simp add: n1_def i_def alloc_def Let_def)
  have n1: "nd_next n1 = Suc (nd_next n)" "nd_Instances n1 = nd_Instances n @ [nd_next n]"
    "nd_objs n1 = (nd_objs n)(nd_next n := i)" by (simp_all add: n1_def alloc_def)
  have i: "in_Proc i = None" by (simp add: i_def Let_def NewInstance_def)
  have IH: "nd_next n1 \<le> nd_next (add_vault_instances y u ps n1) \<and>
   (\<forall>r < nd_next n1. nd_objs (add_vault_instances y u ps n1) r = nd_objs n1 r) \<and>
   (\<forall>r \<in> set (nd_Instances (add_vault_instances y u ps n1)). r \<in> set (nd_Instances n1) \<or>
      nd_next n1 \<le> r \<and> in_Proc (nd_objs (add_vault_instances y u ps n1) r) = None)"
    using "2.IH" [OF refl refl]
    by (simp add: i_def n1_def alloc_def Let_def)
  show ?case unfolding step using IH i by (auto simp: n1)
qed simp

text \<open>
  Unlocking again forgets the running processes. Loading the encrypted instance list builds
  every instance anew. Where an instance was running, its process lives on with the old object,
  which the registry no longer reaches, and no instance of the registry has a process: the
  node shows it stopped, cannot stop it, and would start a second one beside it.
\<close>

theorem second_unlock_forgets_processes:
  assumes "nd_vault_enabled n" "r \<in> set (nd_Instances n)" "r < nd_next n" "in_Proc (obj n r) = Some pid"
    "n' = loadInstancesVault y u content n"
  shows "in_Proc (obj n' r) = Some pid \<and> r \<notin> set (nd_Instances n') \<and>
         (\<forall>r' \<in> set (nd_Instances n'). in_Proc (obj n' r') = None)"
  using add_vault_instances_fresh [of "n\<lparr>nd_Instances := []\<rparr>" y u] assms
  by (cases content) (fastforce simp: loadInstancesVault_def obj_def)+

subsection \<open>Example\<close>

text \<open>
  A small instance of the primitives: a key is the password, a wrap is the key, a zero byte and
  the content, every code is \<open>000000\<close>. It satisfies the law of an authenticated cipher for keys
  without zero bytes, and the cipher refuses other keys.
\<close>

definition toy_unwrap :: "string \<Rightarrow> string \<Rightarrow> string option" where
  "toy_unwrap k b =
     (let k' = takeWhile (\<lambda>c. c \<noteq> CHR ''!'') b
      in if k' \<noteq> k \<or> length b \<le> length k' then None else Some (drop (Suc (length k')) b))"

definition toy :: crypto where
  "toy = \<lparr>cr_hmac = (\<lambda>_ _. [0, 0, 0, 0]), cr_kek = (\<lambda>pw _ _. Some pw),
          cr_wrap = (\<lambda>k _ m. if CHR ''!'' \<in> set k then None else Some (k @ ''!'' @ m)),
          cr_unwrap = toy_unwrap, cr_sha = (\<lambda>x. x), cr_b64 = (\<lambda>x. x), cr_unb64 = Some,
          cr_parse = Some, cr_fingerprint = (\<lambda>x. x), cr_strong = (\<lambda>_. True), cr_verify = (\<lambda>_ _ _. True)\<rparr>"

lemma toy_authentic: "authentic toy"
proof -
  have tw: "takeWhile (\<lambda>c. c \<noteq> CHR ''!'') (k @ CHR ''!'' # m) = k" if "CHR ''!'' \<notin> set k" for k m
    using that by (subst takeWhile_append2) auto
  show ?thesis
    unfolding authentic_def by (auto simp: toy_def toy_unwrap_def Let_def tw split: if_splits)
qed

definition toy_user :: vaultUser where
  "toy_user = \<lparr>vu_Name = ''ann'', vu_TOTPSecret = Some ''s'', vu_TOTPBound = True, vu_CertFingerprint = ''c'',
     vu_CertPublicPEM = ''c'', vu_KEKSalt = Some ''x'', vu_MasterKeyWrap = Some ''Passw0rd!M'',
     vu_PasswordChangedAt = 0, vu_CreatedAt = 0, vu_lastTOTPWindow = 0\<rparr>"

definition toy_vault :: vaultState where
  "toy_vault = (newVaultState 1)\<lparr>vt_enabled := True, vt_initialized := True, vt_file := ''vault.json'',
     vt_users := fmupd ''ann'' toy_user fmempty, vt_indexDEKWrap := Some ''M!D''\<rparr>"

definition toy_body :: unlock_body where
  "toy_body = \<lparr>ub_User = ''ann'', ub_Password = ''Passw0rd'', ub_TOTP = ''000000'', ub_ChallengeID = ''id'',
     ub_Signature = ''sig'', ub_NewPassword = []\<rparr>"

definition toy_request :: vault_request where
  "toy_request = \<lparr>vq_token = ''tok'', vq_ip = ''10.0.0.7''\<rparr>"

definition toy_challenge :: vault_event where
  "toy_challenge = EvChallenge 60000000000 (\<lambda>n. Some (if n = 0 then ''chal'' else ''id'')) (Some ''unlock'')"

definition toy_unlock :: "vault_event list" where
  "toy_unlock = [toy_challenge, EvUnlockBegin 60000000000 (\<lambda>_. Some ''tok'') None toy_request (Some toy_body),
     EvUnlockFinish \<lparr>uo_index = None, uo_rest = None, uo_migration = None, uo_migrating = False\<rparr>
       \<lparr>us_token = ''tok'', us_masterKey = ''M'', us_passwordExpired = False\<rparr>]"

definition toy_open :: vaultState where
  "toy_open = toy_vault\<lparr>vt_masterKey := Some ''M'', vt_indexDEK := Some ''D'',
     vt_users := fmupd ''ann'' (toy_user\<lparr>vu_lastTOTPWindow := 2\<rparr>) fmempty,
     vt_sessions := fmupd ''tok'' \<lparr>vs_token = ''tok'', vs_user = ''ann'', vs_certFP = ''c'', vs_ip = ''10.0.0.7'',
       vs_recovery = False, vs_masterKey = None, vs_lastActive = 60000000000,
       vs_expiresAt = 1860000000000\<rparr> fmempty,
     vt_challenges := fmupd ''id'' \<lparr>vc_purpose = ''unlock'', vc_value = ''chal'', vc_expires = 360000000000,
       vc_used = True\<rparr> fmempty\<rparr>"

lemmas toy_defs = toy_def toy_user_def toy_vault_def toy_body_def toy_request_def toy_challenge_def
  toy_unlock_def toy_open_def newVaultState_def

lemma toy_challenged:
  "vault_step toy toy_challenge toy_vault = toy_vault\<lparr>vt_challenges := fmupd ''id''
     \<lparr>vc_purpose = ''unlock'', vc_value = ''chal'', vc_expires = 360000000000, vc_used = False\<rparr> fmempty\<rparr>"
  by (simp add: toy_defs handleVaultChallenge_def maxChallenges_def challengeTTL_def)

lemma toy_code: "TotpCode toy s t = ''000000''"
proof -
  have "nat_itoa 0 = ''0''" by code_simp
  moreover have "replicate 5 CHR ''0'' = ''00000''" by (simp add: numeral_eq_Suc)
  ultimately show ?thesis by (simp add: TotpCode_def toy_def be32_def TotpDigits_def pad_zeros_def)
qed

lemma toy_factors:
  "check_factors toy 60000000000 key ''chal'' toy_body (toy_vault\<lparr>vt_challenges := x\<rparr>) = Inr (toy_user, ''M'')"
proof -
  have "totp_admits toy 60000000000 ''s'' ''000000'' toy_user"
    by (simp add: totp_admits_def toy_user_def TotpVerify_def toy_code TotpDigits_def totp_window_def unix_def TotpPeriod_def)
  then show ?thesis
    by (simp add: check_factors_def toy_vault_def newVaultState_def toy_body_def toy_user_def toy_def
      toy_unwrap_def cert_matches_def)
qed

lemma toy_started:
  "vault_run toy (take 2 toy_unlock) toy_vault = toy_open\<lparr>vt_loading := True, vt_indexDEK := None\<rparr>"
proof -
  let ?v = "toy_vault\<lparr>vt_challenges := fmupd ''id''
     \<lparr>vc_purpose = ''unlock'', vc_value = ''chal'', vc_expires = 360000000000, vc_used = False\<rparr> fmempty\<rparr>"
  have t: "take_challenge 60000000000 ''unlock'' (ub_ChallengeID toy_body) ?v =
      Some (''chal'', toy_vault\<lparr>vt_challenges := vt_challenges toy_open\<rparr>)"
    by (simp add: take_challenge_def toy_body_def toy_open_def)
  have "vaultReset key (v\<lparr>vt_failures := fmempty\<rparr>) = v\<lparr>vt_failures := fmempty\<rparr>" for key v
    by (simp add: vaultReset_def)
  then have "snd (unlock_begin toy 60000000000 (\<lambda>_. Some ''tok'') None toy_request (Some toy_body) ?v) =
      toy_open\<lparr>vt_loading := True, vt_indexDEK := None\<rparr>"
    unfolding unlock_begin_def option.case t prod.case Let_def toy_factors sum.case
    by (simp add: toy_vault_def newVaultState_def vaultLimited_def force_expire_def set_user_def toy_open_def
        toy_body_def toy_user_def toy_request_def vaultReset_def totp_window_def unix_def TotpPeriod_def toy_def)
  then show ?thesis by (simp add: toy_unlock_def vault_run_def toy_challenged)
qed

lemma toy_opened: "vault_run toy toy_unlock toy_vault = toy_open"
proof -
  have "vault_run toy toy_unlock toy_vault =
    vault_step toy (last toy_unlock) (vault_run toy (take 2 toy_unlock) toy_vault)"
    by (simp add: toy_unlock_def vault_run_def)
  then show ?thesis unfolding toy_started
    by (simp add: toy_unlock_def unlock_finish_def postUnlockInit_def toy_open_def toy_vault_def
      newVaultState_def toy_def toy_unwrap_def)
qed

subsection \<open>Witnesses\<close>

definition toy_new :: vaultState where
  "toy_new = (newVaultState 1)\<lparr>vt_enabled := True, vt_file := ''vault.json''\<rparr>"

lemma toy_init:
  "\<exists>a. handleVaultInit toy 0 (\<lambda>_. Some ''M'') None (Some (''ann'', ''Passw0rdLong'')) toy_new =
     (Reply a, snd (handleVaultInit toy 0 (\<lambda>_. Some ''M'') None (Some (''ann'', ''Passw0rdLong'')) toy_new))"
proof -
  have t: "TrimSpace ''ann'' = ''ann''" "validateVaultPassword toy_new ''Passw0rdLong'' = None"
    by code_simp+
  have v: "vt_enabled toy_new" "\<not> vt_initialized toy_new" "vt_file toy_new = ''vault.json''"
    by (simp_all add: toy_new_def newVaultState_def)
  have c: "wrap_under_password toy toy_new ''Passw0rdLong'' (Some ''M'') (Some ''M'') ''M'' = Some (''M'', ''Passw0rdLong!M'')"
    "gcm_wrap toy ''M'' (Some ''M'') ''M'' = Some ''M!M''"
    by (simp_all add: wrap_under_password_def gcm_wrap_def toy_def)
  show ?thesis
    by (simp add: handleVaultInit_def t v c Let_def vault_save_def set_user_def)
qed

theorem master_key_witness:
  "vt_masterKey (vault_run toy toy_unlock (snd (handleVaultInit toy 0 (\<lambda>_. Some ''M'') None
     (Some (''ann'', ''Passw0rdLong'')) toy_new))) \<in> {None, Some ''M''}"
proof -
  obtain a where "handleVaultInit toy 0 (\<lambda>_. Some ''M'') None (Some (''ann'', ''Passw0rdLong'')) toy_new =
     (Reply a, snd (handleVaultInit toy 0 (\<lambda>_. Some ''M'') None (Some (''ann'', ''Passw0rdLong'')) toy_new))"
    using toy_init by blast
  from master_key_for_life [OF toy_authentic this] show ?thesis
    by (simp add: toy_new_def newVaultState_def)
qed

lemma toy_gate: "fst (vaultGate 70000000000 ''/api/files'' toy_request toy_open) = Reply ()"
proof -
  have "\<not> gate_exempt ''/api/files''" by code_simp
  then show ?thesis
    by (simp add: vaultGate_def toy_open_def toy_vault_def newVaultState_def unlocked_def sessionFor_def toy_request_def)
qed

theorem gate_witness:
  "\<exists>s pre e post. fmlookup (vt_sessions toy_open) ''tok'' = Some s \<and> toy_unlock = pre @ e # post \<and>
     authenticates toy (vault_run toy pre toy_vault) (vs_user s) e"
proof -
  have "unlocked toy_open \<and> (\<exists>s pre e post. fmlookup (vt_sessions toy_open) (vq_token toy_request) = Some s \<and>
     70000000000 \<le> vs_expiresAt s \<and> toy_unlock = pre @ e # post \<and> authenticates toy (vault_run toy pre toy_vault) (vs_user s) e)"
  proof (rule gate_needs_all_factors [OF _ _ _ _ _ toy_gate])
    show "\<not> any_value (\<lambda>s. \<not> vs_recovery s) (vt_sessions toy_vault)"
      by (simp add: any_value_iff toy_vault_def newVaultState_def)
    show "\<not> gate_exempt ''/api/files''" by code_simp
  qed (simp_all add: toy_opened, simp_all add: toy_vault_def toy_open_def)
  then show ?thesis by (auto simp: toy_request_def)
qed

theorem lock_witness:
  "\<exists>code msg. vaultGate 80000000000 ''/api/files'' toy_request (snd (handleVaultLock 70000000000 toy_request toy_open)) =
     (Fail code msg, snd (handleVaultLock 70000000000 toy_request toy_open))"
proof -
  have "handleVaultLock 70000000000 toy_request toy_open =
      (Reply True, snd (handleVaultLock 70000000000 toy_request toy_open))"
    by (simp add: handleVaultLock_def toy_open_def toy_vault_def newVaultState_def unlocked_def sessionFor_def
      toy_request_def Let_def)
  then show ?thesis
  proof (rule lock_closes_gate [where evs = "[]"])
    show "\<not> gate_exempt ''/api/files''" by code_simp
  qed (simp_all add: handleVaultLock_def toy_open_def toy_vault_def newVaultState_def unlocked_def sessionFor_def
      toy_request_def Let_def store_zeroKeys_def)
qed

theorem challenge_witness:
  "take_challenge 60000000001 ''unlock'' ''id''
     (snd (unlock_begin toy 60000000000 (\<lambda>_. Some ''tok'') None toy_request (Some toy_body)
       (vault_step toy toy_challenge toy_vault))) = None"
proof -
  let ?v = "vault_step toy toy_challenge toy_vault"
  have t: "take_challenge 60000000000 ''unlock'' (ub_ChallengeID toy_body) ?v =
      Some (''chal'', toy_vault\<lparr>vt_challenges := vt_challenges toy_open\<rparr>)"
    by (simp add: toy_challenged take_challenge_def toy_body_def toy_open_def)
  have "take_challenge 60000000001 ''unlock'' (ub_ChallengeID toy_body)
     (vault_run toy [] (snd (unlock_begin toy 60000000000 (\<lambda>_. Some ''tok'') None toy_request (Some toy_body) ?v))) = None"
    by (rule challenge_used_once [OF _ _ _ t refl])
      (simp_all add: toy_challenged vaultLimited_def not_reissued_def, simp_all add: toy_vault_def newVaultState_def)
  then show ?thesis by (simp add: toy_body_def)
qed

theorem totp_three_times_witness:
  "totp_admits toy 120000000000 ''s'' ''000000'' (toy_user\<lparr>vu_lastTOTPWindow := 3\<rparr>)"
  using totp_code_accepted_three_times [of toy_user 90000000000 "''000000''" toy "''s''" 120000000000 150000000000]
  by (simp add: toy_user_def totp_window_def unix_def TotpPeriod_def toy_code)

theorem password_witness:
  "\<exists>m u'. key_for_change BySession 70000000000 toy_request toy_open = Some m \<and>
     opens toy (snd (handleVaultPassword toy 70000000000 (\<lambda>_. Some ''x'') None toy_request
       (Some (''Passw0rd'', ''Passw0rdLong'')) toy_open)) ''ann'' ''Passw0rdLong'' u' m"
proof -
  have "vt_passwordMinLen toy_open = vt_passwordMinLen toy_new"
    by (simp add: toy_open_def toy_vault_def toy_new_def newVaultState_def)
  then have "validateVaultPassword toy_open ''Passw0rdLong'' = validateVaultPassword toy_new ''Passw0rdLong''"
    by (simp add: validateVaultPassword_def)
  moreover have "validateVaultPassword toy_new ''Passw0rdLong'' = None" by code_simp
  ultimately have t: "validateVaultPassword toy_open ''Passw0rdLong'' = None" by simp
  have v: "vt_enabled toy_open" "vt_masterKey toy_open = Some ''M''" "vt_file toy_open = ''vault.json''"
    by (simp_all add: toy_open_def toy_vault_def newVaultState_def)
  have c: "wrap_under_password toy toy_open ''Passw0rdLong'' (Some ''x'') (Some ''x'') ''M'' = Some (''x'', ''Passw0rdLong!M'')"
    "old_password_opens toy ''Passw0rd'' (toy_user\<lparr>vu_lastTOTPWindow := 2\<rparr>) toy_open ''M'' = None"
    by (simp_all add: wrap_under_password_def gcm_wrap_def toy_def old_password_opens_def toy_user_def toy_unwrap_def)
  have tgt: "vaultTarget 70000000000 toy_request toy_open = Some (toy_user\<lparr>vu_lastTOTPWindow := 2\<rparr>, BySession)"
    by (simp add: vaultTarget_def sessionFor_def toy_request_def toy_open_def toy_vault_def newVaultState_def unlocked_def)
  have "handleVaultPassword toy 70000000000 (\<lambda>_. Some ''x'') None toy_request (Some (''Passw0rd'', ''Passw0rdLong'')) toy_open =
    (Reply True, snd (handleVaultPassword toy 70000000000 (\<lambda>_. Some ''x'') None toy_request
       (Some (''Passw0rd'', ''Passw0rdLong'')) toy_open))"
    by (simp add: handleVaultPassword_def t tgt v c key_for_change_def Let_def vault_save_def set_user_def)
  from password_change_takes_over [OF toy_authentic this tgt] show ?thesis by (auto simp: toy_user_def)
qed

theorem second_unlock_witness:
  "0 \<notin> set (nd_Instances (loadInstancesVault 9 [] (ListRead []) (base_node\<lparr>nd_vault_enabled := True, nd_next := 1,
     nd_Instances := [0], nd_objs := (\<lambda>_. (sample_instance ''a'' ''bob'')\<lparr>in_Proc := Some 7\<rparr>)\<rparr>)))"
  by (rule conjunct1 [OF conjunct2 [OF second_unlock_forgets_processes [of _ 0 7]]]) (simp_all add: obj_def)

end
