(* ===== verification/VaultStore.thy ===== *)
theory VaultStore
  imports Vault GoPath
begin

text \<open>
  The encrypted store of the vault (cmd/irix-node/vault_store.go): ciphertext objects of whole
  blocks, the index from logical paths to objects, and the ways files get in and out.

  The disk is part of the state: the files of the object directory by name, and the index file.
  A file's content is a byte string, so offsets are positions in it. The results of the random
  source are \<open>rnd 0\<close>, \<open>rnd 1\<close>, ... in the order of the code; \<open>io\<close> is the outcome of writing a
  file, which goes to a temporary name first, so that a failure leaves nothing. Times are Unix
  seconds. The JSON text of the index is a parameter (\<open>index_codec\<close>); sealing a block with the
  nonce in front is the wrap of \<open>crypto\<close>. Locks are not modelled: every operation holds the
  vault's and the store's mutex, one operation is one step.
\<close>

subsection \<open>State\<close>

definition objectMagic :: string where "objectMagic = ''IRIXVT01''"
definition objectVersion :: nat where "objectVersion = 1"
definition objectHeaderSize :: nat where "objectHeaderSize = 8 + 1 + 4 + 12 + 48 + 4 + 4"
definition objectBlockOver :: nat where "objectBlockOver = 12 + 16"
definition indexFlushBatch :: nat where "indexFlushBatch = 100"
definition hashCalcMaxSize :: int where "hashCalcMaxSize = 8 * 2 ^ 20"

record vaultIndexEntry =
  ve_ID :: string
  ve_Size :: int
  ve_MTime :: int
  ve_Blocks :: int

record vaultStore =
  so_index :: "(string, vaultIndexEntry) fmap"
  so_dirty :: bool
  so_indexDEK :: "string option"
  so_pendingDel :: "string list"
  so_blockSize :: nat
  so_objects :: "(string, string) fmap"
  so_indexFile :: "string option"

record index_codec =
  ix_Marshal :: "(string, vaultIndexEntry) fmap \<Rightarrow> string"
  ix_Unmarshal :: "string \<Rightarrow> (string, vaultIndexEntry) fmap option"

definition newVaultStore :: "nat \<Rightarrow> vaultStore" where
  "newVaultStore blockSize =
     \<lparr>so_index = fmempty, so_dirty = False, so_indexDEK = None, so_pendingDel = [],
      so_blockSize = blockSize, so_objects = fmempty, so_indexFile = None\<rparr>"

subsection \<open>Bytes\<close>

text \<open>\<open>binary.BigEndian.PutUint32\<close> of a number cut to 32 bits, and \<open>Uint32\<close>.\<close>

definition PutUint32 :: "nat \<Rightarrow> string" where
  "PutUint32 n = map (\<lambda>k. char_of (n div 256 ^ k mod 256)) [3, 2, 1, 0]"

definition Uint32 :: "string \<Rightarrow> nat" where
  "Uint32 bs = foldl (\<lambda>a c. a * 256 + of_char c) 0 bs"

definition hex_digit :: "nat \<Rightarrow> char" where
  "hex_digit n = (if n < 10 then char_of (48 + n) else char_of (87 + n))"

definition hex_EncodeToString :: "string \<Rightarrow> string" where
  "hex_EncodeToString bs = concat (map (\<lambda>c. [hex_digit (of_char c div 16), hex_digit (of_char c mod 16)]) bs)"

text \<open>\<open>bytes\<close> of a file at an offset; a write at an offset, which fills a gap with zeros.\<close>

definition read_at :: "nat \<Rightarrow> nat \<Rightarrow> string \<Rightarrow> string option" where
  "read_at off n file = (if off + n \<le> length file then Some (take n (drop off file)) else None)"

definition write_at :: "nat \<Rightarrow> string \<Rightarrow> string \<Rightarrow> string" where
  "write_at off bs file =
     take off file @ replicate (off - length file) (CHR 0x00) @ bs @ drop (off + length bs) file"

subsection \<open>Objects\<close>

record objectHeader =
  oh_blockSize :: nat
  oh_dek :: string
  oh_blockCount :: nat
  oh_lastBlockSize :: nat

text \<open>
  Reading a header. The code also means to cut off bytes after the last counted block; the file
  is open for reading only, so \<open>Truncate\<close> fails and nothing is cut.
\<close>

definition readHeader :: "crypto \<Rightarrow> string \<Rightarrow> string \<Rightarrow> vaultStore \<Rightarrow> string + objectHeader" where
  "readHeader C masterKey i s =
     (case fmlookup (so_objects s) i of
        None \<Rightarrow> Inl ''no such object''
      | Some file \<Rightarrow>
        (case read_at 0 objectHeaderSize file of
           None \<Rightarrow> Inl ''header cannot be read''
         | Some buf \<Rightarrow>
           if take 8 buf \<noteq> objectMagic \<or> of_char (buf ! 8) \<noteq> objectVersion then Inl ''bad object format''
           else
             let bs = Uint32 (take 4 (drop 9 buf)) in
             if bs = 0 \<or> bs > 64 * 2 ^ 20 then Inl ''bad block size''
             else
               (case cr_unwrap C masterKey (take 60 (drop 13 buf)) of
                  None \<Rightarrow> Inl ''object key cannot be unwrapped''
                | Some dek \<Rightarrow>
                    Inr \<lparr>oh_blockSize = bs, oh_dek = dek, oh_blockCount = Uint32 (take 4 (drop 73 buf)),
                         oh_lastBlockSize = Uint32 (take 4 (drop 77 buf))\<rparr>)))"

definition block_offset :: "nat \<Rightarrow> nat \<Rightarrow> nat" where
  "block_offset blockSize k = objectHeaderSize + k * (blockSize + objectBlockOver)"

definition readBlock :: "crypto \<Rightarrow> string \<Rightarrow> objectHeader \<Rightarrow> int \<Rightarrow> vaultStore \<Rightarrow> string + string" where
  "readBlock C i h k s =
     (if nat (k mod 2 ^ 32) \<ge> oh_blockCount h then Inl ''no such block''
      else
        (case fmlookup (so_objects s) i of
           None \<Rightarrow> Inl ''no such object''
         | Some file \<Rightarrow>
           (case read_at (block_offset (oh_blockSize h) (nat k)) (objectBlockOver + oh_blockSize h) file of
              None \<Rightarrow> Inl ''unexpected end of file''
            | Some buf \<Rightarrow>
              (case cr_unwrap C (oh_dek h) buf of
                 None \<Rightarrow> Inl ''block cannot be decrypted''
               | Some plain \<Rightarrow> Inr plain))))"

fun read_blocks :: "crypto \<Rightarrow> string \<Rightarrow> objectHeader \<Rightarrow> int list \<Rightarrow> vaultStore \<Rightarrow> string + string list" where
  "read_blocks C i h [] s = Inr []"
| "read_blocks C i h (k # ks) s =
     (case readBlock C i h k s of
        Inl e \<Rightarrow> Inl e
      | Inr b \<Rightarrow> map_sum id ((#) b) (read_blocks C i h ks s))"

text \<open>The data cut into blocks, the last one padded; nonce \<open>n + i\<close> of the random source seals block \<open>i\<close>.\<close>

definition data_block :: "nat \<Rightarrow> string \<Rightarrow> nat \<Rightarrow> string" where
  "data_block bs data k =
     (let b = take bs (drop (k * bs) data) in b @ replicate (bs - length b) (CHR 0x00))"

fun seal_blocks :: "crypto \<Rightarrow> string \<Rightarrow> (nat \<Rightarrow> string option) \<Rightarrow> nat \<Rightarrow> string list \<Rightarrow> string option" where
  "seal_blocks C dek rnd n [] = Some []"
| "seal_blocks C dek rnd n (b # bs) =
     (case gcm_wrap C dek (rnd n) b of
        None \<Rightarrow> None
      | Some x \<Rightarrow> map_option ((@) x) (seal_blocks C dek rnd (Suc n) bs))"

definition object_header :: "nat \<Rightarrow> string \<Rightarrow> nat \<Rightarrow> string" where
  "object_header blockSize dekWrap blocks =
     objectMagic @ [char_of objectVersion] @ PutUint32 blockSize @ dekWrap @ PutUint32 blocks @ PutUint32 blockSize"

definition newObject ::
  "crypto \<Rightarrow> string \<Rightarrow> (nat \<Rightarrow> string option) \<Rightarrow> string option \<Rightarrow> string \<Rightarrow> vaultStore \<Rightarrow>
   string + string \<times> vaultStore" where
  "newObject C masterKey rnd io data s =
     (case rnd 0 of
        None \<Rightarrow> Inl ''no randomness''
      | Some idBytes \<Rightarrow>
        let i = hex_EncodeToString idBytes in
        (case rnd 1 of
           None \<Rightarrow> Inl ''no randomness''
         | Some dek \<Rightarrow>
           (case gcm_wrap C masterKey (rnd 2) dek of
              None \<Rightarrow> Inl ''key wrap failed''
            | Some dekWrap \<Rightarrow>
              let blocks = (length data + so_blockSize s - 1) div so_blockSize s;
                  blocks = (if blocks = 0 then 1 else blocks)
              in (case seal_blocks C dek rnd 3 (map (data_block (so_blockSize s) data) [0..<blocks]) of
                    None \<Rightarrow> Inl ''sealing failed''
                  | Some body \<Rightarrow>
                    (case io of
                       Some e \<Rightarrow> Inl e
                     | None \<Rightarrow>
                         Inr (i, s\<lparr>so_objects := fmupd i (object_header (so_blockSize s) dekWrap blocks @ body)
                                     (so_objects s)\<rparr>))))))"

definition tmp_name :: "string \<Rightarrow> string" where
  "tmp_name i = i @ ''.tmp''"

definition deleteObject :: "string \<Rightarrow> vaultStore \<Rightarrow> vaultStore" where
  "deleteObject i s =
     (if i = [] then s else s\<lparr>so_objects := fmdrop (tmp_name i) (fmdrop i (so_objects s))\<rparr>)"

subsection \<open>Files\<close>

definition logicalPath :: "string \<Rightarrow> string \<Rightarrow> string" where
  "logicalPath uuid rel =
     ''/'' @ uuid @ ''/'' @ TrimPrefix (map (\<lambda>c. if c = CHR 0x5C then CHR ''/'' else c) rel) ''/''"

definition last_slash :: "string \<Rightarrow> nat option" where
  "last_slash p = map_option (\<lambda>k. length p - 1 - k) (index_byte (CHR ''/'') (rev p))"

definition logicalParent :: "string \<Rightarrow> string" where
  "logicalParent p =
     (case last_slash p of None \<Rightarrow> ''/'' | Some k \<Rightarrow> if k = 0 then ''/'' else take k p)"

definition lockedErr :: string where "lockedErr = ''vault locked''"
definition ErrNotExist :: string where "ErrNotExist = ''file does not exist''"

definition read_entry :: "crypto \<Rightarrow> string \<Rightarrow> vaultIndexEntry \<Rightarrow> vaultStore \<Rightarrow> string + string" where
  "read_entry C masterKey e s =
     (if ve_Size e < 0 then Inl ''is a directory''
      else
        (case readHeader C masterKey (ve_ID e) s of
           Inl err \<Rightarrow> Inl err
         | Inr h \<Rightarrow>
             map_sum id (\<lambda>bs. let out = concat bs in if int (length out) > ve_Size e then take (nat (ve_Size e)) out else out)
               (read_blocks C (ve_ID e) h (map int [0..<oh_blockCount h]) s)))"

definition store_readFile :: "crypto \<Rightarrow> string option \<Rightarrow> string \<Rightarrow> vaultStore \<Rightarrow> string + string" where
  "store_readFile C masterKey path s =
     (case masterKey of
        None \<Rightarrow> Inl lockedErr
      | Some mk \<Rightarrow>
        (case fmlookup (so_index s) path of
           None \<Rightarrow> Inl ErrNotExist
         | Some e \<Rightarrow> read_entry C mk e s))"

text \<open>The part of block \<open>k\<close> that lies in \<open>[off, off + n)\<close>.\<close>

definition block_part :: "nat \<Rightarrow> int \<Rightarrow> int \<Rightarrow> int \<Rightarrow> string \<Rightarrow> string" where
  "block_part blockSize off n k block =
     (let start = k * int blockSize;
          from = max off start;
          to = min (off + n) (start + int (length block))
      in if from < to then take (nat (to - from)) (drop (nat (from - start)) block) else [])"

definition go_quot :: "int \<Rightarrow> int \<Rightarrow> int" where
  "go_quot a b = sgn a * sgn b * (\<bar>a\<bar> div \<bar>b\<bar>)"

definition store_readRange ::
  "crypto \<Rightarrow> string option \<Rightarrow> string \<Rightarrow> int \<Rightarrow> int \<Rightarrow> vaultStore \<Rightarrow> string + string" where
  "store_readRange C masterKey path off n s =
     (case masterKey of
        None \<Rightarrow> Inl lockedErr
      | Some mk \<Rightarrow>
        (case fmlookup (so_index s) path of
           None \<Rightarrow> Inl ErrNotExist
         | Some e \<Rightarrow>
           if ve_Size e < 0 then Inl ''is a directory''
           else if off \<ge> ve_Size e \<or> n \<le> 0 then Inr []
           else
             let n = (if off + n > ve_Size e then ve_Size e - off else n) in
             (case readHeader C mk (ve_ID e) s of
                Inl err \<Rightarrow> Inl err
              | Inr h \<Rightarrow>
                  let ks = [go_quot off (int (oh_blockSize h))..go_quot (off + n - 1) (int (oh_blockSize h))] in
                  map_sum id (\<lambda>bs. concat (map2 (block_part (oh_blockSize h) off n) ks bs))
                    (read_blocks C (ve_ID e) h ks s))))"

definition store_writeFile ::
  "crypto \<Rightarrow> string option \<Rightarrow> int \<Rightarrow> (nat \<Rightarrow> string option) \<Rightarrow> string option \<Rightarrow> string \<Rightarrow> string \<Rightarrow> vaultStore \<Rightarrow>
   string option \<times> vaultStore" where
  "store_writeFile C masterKey now rnd io path data s =
     (case masterKey of
        None \<Rightarrow> (Some lockedErr, s)
      | Some mk \<Rightarrow>
        (case newObject C mk rnd io data s of
           Inl e \<Rightarrow> (Some e, s)
         | Inr (i, s) \<Rightarrow>
           let old = fmlookup (so_index s) path;
               s = s\<lparr>so_index := fmupd path
                       \<lparr>ve_ID = i, ve_Size = int (length data), ve_MTime = now,
                        ve_Blocks = int ((length data + so_blockSize s - 1) div so_blockSize s)\<rparr> (so_index s)\<rparr>;
               parent = logicalParent path;
               fresh = (case old of None \<Rightarrow> True | Some e \<Rightarrow> ve_Size e < 0);
               s = (if fresh \<and> fmlookup (so_index s) parent = None \<and> parent \<noteq> ''/''
                    then s\<lparr>so_index := fmupd parent \<lparr>ve_ID = [], ve_Size = -1, ve_MTime = now, ve_Blocks = 0\<rparr>
                             (so_index s)\<rparr>
                    else s);
               s = s\<lparr>so_dirty := True\<rparr>
           in (None, case old of
                       None \<Rightarrow> s
                     | Some e \<Rightarrow> if ve_Size e \<ge> 0 then s\<lparr>so_pendingDel := so_pendingDel s @ [ve_ID e]\<rparr> else s)))"

text \<open>
  Appending. \<open>io\<close> says how far the writing of new blocks gets: all the way; not to the commit
  (the object then has some bytes \<open>tail\<close> behind its last block); past the commit, with the
  error of the last synchronisation.
\<close>

datatype append_io = AppendDone | AppendTail string string | AppendCommitted string

definition append_blocks ::
  "crypto \<Rightarrow> (nat \<Rightarrow> string option) \<Rightarrow> append_io \<Rightarrow> int \<Rightarrow> string \<Rightarrow> vaultIndexEntry \<Rightarrow> objectHeader \<Rightarrow> string \<Rightarrow>
   vaultStore \<Rightarrow> (string + int) \<times> vaultStore" where
  "append_blocks C rnd io now path e h data s =
     (let newSize = ve_Size e + int (length data);
          needBlocks = (nat newSize + so_blockSize s - 1) div so_blockSize s;
          addBlocks = needBlocks - oh_blockCount h
      in if needBlocks \<le> oh_blockCount h then (Inr (ve_Size e), s)
         else
           (case fmlookup (so_objects s) (ve_ID e) of
              None \<Rightarrow> (Inl ''no such object'', s)
            | Some file \<Rightarrow>
              (case seal_blocks C (oh_dek h) rnd 0 (map (data_block (so_blockSize s) data) [0..<addBlocks]) of
                 None \<Rightarrow> (Inl ''sealing failed'', s)
               | Some body \<Rightarrow>
                 let blockEnd = block_offset (oh_blockSize h) (oh_blockCount h);
                     put = (\<lambda>f. s\<lparr>so_objects := fmupd (ve_ID e) f (so_objects s)\<rparr>);
                     committed = write_at 73 (PutUint32 (oh_blockCount h + addBlocks)) (write_at blockEnd body file)
                 in (case io of
                       AppendTail tail err \<Rightarrow> (Inl err, put (write_at blockEnd tail file))
                     | AppendCommitted err \<Rightarrow> (Inl err, put committed)
                     | AppendDone \<Rightarrow>
                         (Inr newSize,
                          (put committed)\<lparr>so_index := fmupd path (e\<lparr>ve_Size := newSize, ve_MTime := now,
                             ve_Blocks := int needBlocks\<rparr>) (so_index s), so_dirty := True\<rparr>)))))"

definition store_appendFile ::
  "crypto \<Rightarrow> string option \<Rightarrow> int \<Rightarrow> (nat \<Rightarrow> string option) \<Rightarrow> string option \<Rightarrow> append_io \<Rightarrow> string \<Rightarrow> string \<Rightarrow>
   vaultStore \<Rightarrow> (string + int) \<times> vaultStore" where
  "store_appendFile C masterKey now rnd io aio path data s =
     (case masterKey of
        None \<Rightarrow> (Inl lockedErr, s)
      | Some mk \<Rightarrow>
        (case fmlookup (so_index s) path of
           None \<Rightarrow> (Inl ErrNotExist, s)
         | Some e \<Rightarrow>
           if ve_Size e < 0 then (Inl ErrNotExist, s)
           else if data = [] then (Inr (ve_Size e), s)
           else if ve_Size e mod int (so_blockSize s) \<noteq> 0 then
             (case store_readFile C (Some mk) path s of
                Inl err \<Rightarrow> (Inl err, s)
              | Inr old \<Rightarrow>
                (case store_writeFile C (Some mk) now rnd io path (old @ data) s of
                   (Some err, s) \<Rightarrow> (Inl err, s)
                 | (None, s) \<Rightarrow> (Inr (int (length (old @ data))), s)))
           else
             (case readHeader C mk (ve_ID e) s of
                Inl err \<Rightarrow> (Inl err, s)
              | Inr h \<Rightarrow> append_blocks C rnd aio now path e h data s)))"

text \<open>A Go map's entries in the order of the sorted keys, those with \<open>P\<close> only.\<close>

definition sorted_entries :: "(string \<Rightarrow> 'v \<Rightarrow> bool) \<Rightarrow> (string, 'v) fmap \<Rightarrow> (string \<times> 'v) list" where
  "sorted_entries P m =
     filter (\<lambda>(k, x). P k x) (map (\<lambda>k. (k, the (fmlookup m k))) (sorted_list_of_fset (fmdom m)))"

definition store_remove :: "string option \<Rightarrow> string \<Rightarrow> vaultStore \<Rightarrow> string option \<times> vaultStore" where
  "store_remove masterKey path s =
     (case masterKey of
        None \<Rightarrow> (Some lockedErr, s)
      | Some mk \<Rightarrow>
        (case fmlookup (so_index s) path of
           None \<Rightarrow> (Some ErrNotExist, s)
         | Some e \<Rightarrow>
           let below = sorted_entries (\<lambda>p _. HasPrefix p (path @ ''/'')) (so_index s);
               (delIDs, index) =
                 (if ve_Size e \<ge> 0 then ([ve_ID e], fmdrop path (so_index s))
                  else (map (\<lambda>(p, en). ve_ID en) (filter (\<lambda>(p, en). ve_Size en \<ge> 0) below),
                        fmdrop path (fmdrop_set (fst ` set below) (so_index s))))
           in (None, fold deleteObject delIDs (s\<lparr>so_index := index, so_dirty := True\<rparr>))))"

definition store_copy ::
  "crypto \<Rightarrow> string option \<Rightarrow> int \<Rightarrow> (nat \<Rightarrow> string option) \<Rightarrow> string option \<Rightarrow> string \<Rightarrow> string \<Rightarrow> vaultStore \<Rightarrow>
   string option \<times> vaultStore" where
  "store_copy C masterKey now rnd io src dst s =
     (case store_readFile C masterKey src s of
        Inl e \<Rightarrow> (Some e, s)
      | Inr data \<Rightarrow> store_writeFile C masterKey now rnd io dst data s)"

fun move_entries :: "string \<Rightarrow> string \<Rightarrow> string list \<Rightarrow> (string, 'v) fmap \<Rightarrow> (string, 'v) fmap" where
  "move_entries dst pre [] m = m"
| "move_entries dst pre (p # ps) m =
     move_entries dst pre ps
       (fmdrop p (fmupd (dst @ ''/'' @ TrimPrefix p pre) (the (fmlookup m p)) m))"

definition store_move :: "string \<Rightarrow> string \<Rightarrow> vaultStore \<Rightarrow> string option \<times> vaultStore" where
  "store_move src dst s =
     (case fmlookup (so_index s) src of
        None \<Rightarrow> (Some ErrNotExist, s)
      | Some e \<Rightarrow>
        let index =
              (if ve_Size e \<ge> 0 then so_index s
               else move_entries dst (src @ ''/'')
                      (map fst (sorted_entries (\<lambda>p _. HasPrefix p (src @ ''/'')) (so_index s))) (so_index s))
        in (None, s\<lparr>so_index := fmdrop src (fmupd dst e index), so_dirty := True\<rparr>))"

definition store_mkdir :: "int \<Rightarrow> string \<Rightarrow> vaultStore \<Rightarrow> string option \<times> vaultStore" where
  "store_mkdir now path s =
     (if fmlookup (so_index s) path \<noteq> None then (Some ''exists'', s)
      else (None, s\<lparr>so_index := fmupd path \<lparr>ve_ID = [], ve_Size = -1, ve_MTime = now, ve_Blocks = 0\<rparr> (so_index s),
                    so_dirty := True\<rparr>))"

definition store_touch ::
  "crypto \<Rightarrow> string option \<Rightarrow> int \<Rightarrow> (nat \<Rightarrow> string option) \<Rightarrow> string option \<Rightarrow> string \<Rightarrow> vaultStore \<Rightarrow>
   string option \<times> vaultStore" where
  "store_touch C masterKey now rnd io path s =
     (case fmlookup (so_index s) path of
        Some e \<Rightarrow>
          if ve_Size e < 0 then (Some ''is a directory'', s)
          else (None, s\<lparr>so_index := fmupd path (e\<lparr>ve_MTime := now\<rparr>) (so_index s), so_dirty := True\<rparr>)
      | None \<Rightarrow> store_writeFile C masterKey now rnd io path [] s)"

text \<open>A row of a listing; times are not formatted here.\<close>

record store_item =
  sl_name :: string
  sl_size :: int
  sl_mtime :: int
  sl_type :: nat
  sl_sha256 :: string

definition store_listDir ::
  "crypto \<Rightarrow> string option \<Rightarrow> string \<Rightarrow> vaultStore \<Rightarrow> string + store_item list" where
  "store_listDir C masterKey path s =
     (case masterKey of
        None \<Rightarrow> Inl lockedErr
      | Some mk \<Rightarrow>
        let pre = (if path \<noteq> ''/'' then path @ ''/'' else ''/'');
            here = sorted_entries (\<lambda>p _. HasPrefix p pre \<and> TrimPrefix p pre \<noteq> [] \<and>
                     CHR ''/'' \<notin> set (TrimPrefix p pre)) (so_index s);
            item = (\<lambda>(p, e). \<lparr>sl_name = TrimPrefix p pre, sl_size = ve_Size e, sl_mtime = ve_MTime e,
                      sl_type = (if ve_Size e < 0 then 0 else 1),
                      sl_sha256 = (if ve_Size e < 0 \<or> ve_Size e > hashCalcMaxSize then []
                                   else (case store_readFile C (Some mk) p s of
                                           Inl err \<Rightarrow> [] | Inr data \<Rightarrow> cr_sha C data))\<rparr>);
            items = map item here
        in Inr (filter (\<lambda>x. sl_type x = 0) items @ filter (\<lambda>x. sl_type x = 1) items))"

definition store_stat :: "string \<Rightarrow> vaultStore \<Rightarrow> vaultIndexEntry option" where
  "store_stat path s = fmlookup (so_index s) path"

text \<open>The files a walk visits, in its order.\<close>

definition walkPrefix :: "string \<Rightarrow> vaultStore \<Rightarrow> (string \<times> vaultIndexEntry) list" where
  "walkPrefix pre s = sorted_entries (\<lambda>p e. HasPrefix p pre \<and> ve_Size e \<ge> 0) (so_index s)"

subsection \<open>The index on disk\<close>

text \<open>Names that end in \<open>.tmp\<close> stay; \<open>fails\<close> says which removals fail.\<close>

definition sweepOrphans :: "(string \<Rightarrow> bool) \<Rightarrow> vaultStore \<Rightarrow> vaultStore" where
  "sweepOrphans fails s =
     s\<lparr>so_objects := fmfilter (\<lambda>name. HasSuffix name ''.tmp'' \<or> fails name \<or>
        (\<exists>e |\<in>| fmran (so_index s). ve_ID e = name \<and> name \<noteq> [])) (so_objects s)\<rparr>"

text \<open>\<open>unreadable\<close> is the error of reading the index file other than its absence.\<close>

definition store_load ::
  "crypto \<Rightarrow> index_codec \<Rightarrow> string option \<Rightarrow> (string \<Rightarrow> bool) \<Rightarrow> string \<Rightarrow> string option \<Rightarrow> vaultStore \<Rightarrow>
   string option \<times> vaultStore" where
  "store_load C X unreadable fails masterKey wrap s =
     (case wrap of
        None \<Rightarrow> (Some ''index key wrap damaged'', s)
      | Some w \<Rightarrow>
        (case cr_unwrap C masterKey w of
           None \<Rightarrow> (Some ''index key cannot be unwrapped'', s)
         | Some dek \<Rightarrow>
           let s = s\<lparr>so_indexDEK := Some dek, so_index := fmempty, so_dirty := False\<rparr> in
           (case unreadable of
              Some e \<Rightarrow> (Some e, s)
            | None \<Rightarrow>
              (case so_indexFile s of
                 None \<Rightarrow> (None, sweepOrphans fails s)
               | Some raw \<Rightarrow>
                 (case cr_unwrap C dek raw of
                    None \<Rightarrow> (Some ''index cannot be decrypted'', s)
                  | Some plain \<Rightarrow>
                    (case ix_Unmarshal X plain of
                       None \<Rightarrow> (Some ''index cannot be parsed'', s)
                     | Some idx \<Rightarrow> (None, sweepOrphans fails (s\<lparr>so_index := idx\<rparr>))))))))"

definition store_flush ::
  "crypto \<Rightarrow> index_codec \<Rightarrow> string option \<Rightarrow> string option \<Rightarrow> vaultStore \<Rightarrow> string option \<times> vaultStore" where
  "store_flush C X nonce io s =
     (case so_indexDEK s of
        None \<Rightarrow> (Some ''index not loaded'', s)
      | Some dek \<Rightarrow>
        if \<not> so_dirty s then (None, s)
        else
          (case gcm_wrap C dek nonce (ix_Marshal X (so_index s)) of
             None \<Rightarrow> (Some ''index cannot be wrapped'', s)
           | Some blob \<Rightarrow>
             (case io of
                Some e \<Rightarrow> (Some e, s)
              | None \<Rightarrow>
                  (None, (fold deleteObject (so_pendingDel s)
                            (s\<lparr>so_indexFile := Some blob, so_dirty := False\<rparr>))\<lparr>so_pendingDel := []\<rparr>))))"

definition flush_tick ::
  "crypto \<Rightarrow> index_codec \<Rightarrow> string option \<Rightarrow> string option \<Rightarrow> vaultStore \<Rightarrow> vaultStore" where
  "flush_tick C X nonce io s =
     (if so_dirty s \<and> so_indexDEK s \<noteq> None then snd (store_flush C X nonce io s) else s)"

definition zeroKeys :: "vaultStore \<Rightarrow> vaultStore" where
  "zeroKeys s = s\<lparr>so_indexDEK := None, so_dirty := False\<rparr>"

text \<open>
  What locking does to the store: an attempt to write the index, then the keys are cleared,
  whatever the outcome.
\<close>

definition lock_store ::
  "crypto \<Rightarrow> index_codec \<Rightarrow> string option \<Rightarrow> string option \<Rightarrow> vaultStore \<Rightarrow> vaultStore" where
  "lock_store C X nonce io s = zeroKeys (snd (store_flush C X nonce io s))"

subsection \<open>Plaintext trees\<close>

text \<open>
  The regular files below an instance's working directory, in the order of \<open>filepath.Walk\<close>:
  path, size and modification time, what reading gives, and whether the file has gone by the
  time it is looked at. A walk that fails is \<open>None\<close>.
\<close>

record plain_file =
  pf_path :: string
  pf_size :: int
  pf_mtime :: int
  pf_read :: "string option"
  pf_gone :: bool

definition plainTreeDirty :: "plain_file list \<Rightarrow> bool" where
  "plainTreeDirty tree = (tree \<noteq> [])"

definition unchanged :: "string \<Rightarrow> plain_file \<Rightarrow> vaultStore \<Rightarrow> bool" where
  "unchanged logical f s =
     (case store_stat logical s of
        None \<Rightarrow> False
      | Some e \<Rightarrow> ve_Size e = pf_size f \<and> ve_MTime e = pf_mtime f)"

fun encrypt_files ::
  "crypto \<Rightarrow> string option \<Rightarrow> int \<Rightarrow> (nat \<Rightarrow> nat \<Rightarrow> string option) \<Rightarrow> (nat \<Rightarrow> string option) \<Rightarrow> string \<Rightarrow> string \<Rightarrow>
   nat \<Rightarrow> plain_file list \<Rightarrow> vaultStore \<Rightarrow> string option \<times> vaultStore" where
  "encrypt_files C mk now rnd io uuid dir i [] s = (None, s)"
| "encrypt_files C mk now rnd io uuid dir i (f # fs) s =
     (case Rel dir (pf_path f) of
        None \<Rightarrow> (Some ''no relative path'', s)
      | Some rel \<Rightarrow>
        let logical = logicalPath uuid rel in
        if pf_gone f \<or> unchanged logical f s then encrypt_files C mk now rnd io uuid dir (Suc i) fs s
        else
          (case pf_read f of
             None \<Rightarrow> (Some ''file cannot be read'', s)
           | Some data \<Rightarrow>
             (case store_writeFile C mk now (rnd i) (io i) logical data s of
                (Some e, s) \<Rightarrow> (Some e, s)
              | (None, s) \<Rightarrow> encrypt_files C mk now rnd io uuid dir (Suc i) fs s)))"

text \<open>
  Taking an instance's tree back: the error, the store, and what is left of the tree. Removing
  the plaintext is best effort; here it succeeds.
\<close>

definition encryptBack ::
  "crypto \<Rightarrow> string option \<Rightarrow> int \<Rightarrow> (nat \<Rightarrow> nat \<Rightarrow> string option) \<Rightarrow> (nat \<Rightarrow> string option) \<Rightarrow> string \<Rightarrow> string \<Rightarrow>
   plain_file list option \<Rightarrow> vaultStore \<Rightarrow> string option \<times> vaultStore \<times> plain_file list option" where
  "encryptBack C mk now rnd io uuid dir tree s =
     (case tree of
        None \<Rightarrow> (Some ''walk failed'', s, tree)
      | Some fs \<Rightarrow>
        (case encrypt_files C mk now rnd io uuid dir 0 fs s of
           (Some e, s) \<Rightarrow> (Some e, s, tree)
         | (None, s) \<Rightarrow> (None, s, Some [])))"

text \<open>Putting a tree out: the files written, by path, up to the first error.\<close>

fun materialize_files ::
  "crypto \<Rightarrow> string option \<Rightarrow> (string \<Rightarrow> string option) \<Rightarrow> string \<Rightarrow> string \<Rightarrow> (string \<times> vaultIndexEntry) list \<Rightarrow>
   vaultStore \<Rightarrow> string option \<times> (string \<times> string) list" where
  "materialize_files C mk io uuid dir [] s = (None, [])"
| "materialize_files C mk io uuid dir ((path, e) # ps) s =
     (case store_readFile C mk path s of
        Inl err \<Rightarrow> (Some err, [])
      | Inr data \<Rightarrow>
        let full = Join [dir, TrimPrefix (TrimPrefix path (''/'' @ uuid @ ''/'')) ''/''] in
        (case io full of
           Some err \<Rightarrow> (Some err, [])
         | None \<Rightarrow>
             (case materialize_files C mk io uuid dir ps s of (r, out) \<Rightarrow> (r, (full, data) # out))))"

definition store_materialize ::
  "crypto \<Rightarrow> string option \<Rightarrow> (string \<Rightarrow> string option) \<Rightarrow> string \<Rightarrow> string \<Rightarrow> vaultStore \<Rightarrow>
   string option \<times> (string \<times> string) list" where
  "store_materialize C mk io uuid dir s =
     materialize_files C mk io uuid dir (walkPrefix (''/'' @ uuid @ ''/'') s) s"

definition free_below :: "int option \<Rightarrow> int \<Rightarrow> bool" where
  "free_below free need = (case free of None \<Rightarrow> False | Some x \<Rightarrow> x < need)"

text \<open>
  Before a start and after a stop. \<open>free\<close> is the free space, where the platform tells it.
\<close>

definition vaultMaterialize ::
  "crypto \<Rightarrow> int \<Rightarrow> (nat \<Rightarrow> nat \<Rightarrow> string option) \<Rightarrow> (nat \<Rightarrow> string option) \<Rightarrow> (string \<Rightarrow> string option) \<Rightarrow> int option \<Rightarrow>
   string \<Rightarrow> string \<Rightarrow> plain_file list \<Rightarrow> vaultState \<Rightarrow> vaultStore \<Rightarrow>
   string option \<times> vaultStore \<times> (string \<times> string) list" where
  "vaultMaterialize C now rnd io out_io free uuid cwd tree v s =
     (if \<not> vt_enabled v \<or> \<not> unlockedSafe v then (Some ''vault not unlocked'', s, [])
      else if cwd = [] then (Some ''empty working directory'', s, [])
      else
        (case (if plainTreeDirty tree
               then encryptBack C (vt_masterKey v) now rnd io uuid cwd (Some tree) s
               else (None, s, Some tree)) of
           (Some e, s, _) \<Rightarrow> (Some e, s, [])
         | (None, s, _) \<Rightarrow>
           let need = sum_list (map (\<lambda>(p, e). ve_Size e) (walkPrefix (''/'' @ uuid @ ''/'') s)) in
           if free_below free need then (Some ''disk full'', s, [])
           else (case store_materialize C (vt_masterKey v) out_io uuid cwd s of (r, out) \<Rightarrow> (r, s, out))))"

definition vaultRecycle ::
  "crypto \<Rightarrow> int \<Rightarrow> (nat \<Rightarrow> nat \<Rightarrow> string option) \<Rightarrow> (nat \<Rightarrow> string option) \<Rightarrow> string \<Rightarrow> string \<Rightarrow>
   plain_file list option \<Rightarrow> vaultState \<Rightarrow> vaultStore \<Rightarrow> string option \<times> vaultStore \<times> plain_file list option" where
  "vaultRecycle C now rnd io uuid cwd tree v s =
     (if \<not> vt_enabled v \<or> \<not> unlockedSafe v then (Some ''vault not unlocked'', s, tree)
      else if cwd = [] then (None, s, tree)
      else encryptBack C (vt_masterKey v) now rnd io uuid cwd tree s)"

end
