(* ===== verification/VaultMigrate.thy ===== *)
theory VaultMigrate
  imports VaultStore
begin

text \<open>
  The two phases of migration into the vault (cmd/irix-node/vault_migrate.go): the instance
  list, then the files of every instance with \<open>vaultFiles\<close>, with a cursor from which a broken
  migration goes on.
\<close>

definition systemInstancesPath :: string where
  "systemInstancesPath = ''/system/instances.json''"

definition migrationComplete :: "vaultMigration option \<Rightarrow> bool" where
  "migrationComplete m =
     (case m of None \<Rightarrow> False | Some m \<Rightarrow> mg_InstancesDone m \<and> mg_CompletedAt m \<noteq> None)"

definition migrationPhase :: "vaultState \<Rightarrow> nat" where
  "migrationPhase v =
     (case vt_migration v of
        None \<Rightarrow> 0
      | Some m \<Rightarrow> if mg_CompletedAt m \<noteq> None then 3 else if \<not> mg_InstancesDone m then 1 else 2)"

record migrate_progress =
  mp_phase :: nat
  mp_done :: int
  mp_total :: int
  mp_bytes :: int
  mp_running :: bool
  mp_completedAt :: "instant option"

definition migrationProgress :: "vaultState \<Rightarrow> migrate_progress" where
  "migrationProgress v =
     (let out = \<lparr>mp_phase = migrationPhase v, mp_done = 0, mp_total = 0, mp_bytes = 0,
                 mp_running = vt_migrating v, mp_completedAt = None\<rparr> in
      case vt_migration v of
        None \<Rightarrow> out\<lparr>mp_phase := 0\<rparr>
      | Some m \<Rightarrow>
        let out = (case mg_Cursor m of
                     None \<Rightarrow> out
                   | Some c \<Rightarrow> out\<lparr>mp_done := mc_Done c, mp_total := mc_Total c, mp_bytes := mc_Bytes c\<rparr>)
        in out\<lparr>mp_completedAt := mg_CompletedAt m\<rparr>)"

definition new_migration :: vaultMigration where
  "new_migration = \<lparr>mg_InstancesDone = False, mg_FilesDone = fmempty, mg_Cursor = None,
                    mg_StartedAt = zero_time, mg_CompletedAt = None\<rparr>"

definition the_migration :: "vaultState \<Rightarrow> vaultMigration" where
  "the_migration v = (case vt_migration v of None \<Rightarrow> new_migration | Some m \<Rightarrow> m)"

subsection \<open>The instance list\<close>

datatype plain_json = PlainAbsent | PlainError string | PlainText string

definition markInstancesDone :: "instant \<Rightarrow> string option \<Rightarrow> vaultState \<Rightarrow> string option \<times> vaultState" where
  "markInstancesDone now io v =
     (let m = the_migration v;
          m = (if mg_StartedAt m = zero_time then m\<lparr>mg_StartedAt := now\<rparr> else m)
      in vault_save io (v\<lparr>vt_migration := Some (m\<lparr>mg_InstancesDone := True\<rparr>)\<rparr>))"

text \<open>
  Outcomes of the operating system: writing the object, saving vault.json, removing the
  plaintext. The result ends with what is left of instances.json.
\<close>

definition migrateInstancesJSON ::
  "crypto \<Rightarrow> instant \<Rightarrow> (nat \<Rightarrow> string option) \<Rightarrow> string option \<Rightarrow> string option \<Rightarrow> string option \<Rightarrow> plain_json \<Rightarrow>
   vaultState \<Rightarrow> vaultStore \<Rightarrow> string option \<times> vaultState \<times> vaultStore \<times> plain_json" where
  "migrateInstancesJSON C now rnd wio sio rio plain v s =
     (let v = v\<lparr>vt_migration := Some (the_migration v)\<rparr> in
      if mg_InstancesDone (the_migration v) then (None, v, s, plain)
      else
        let (werr, s) =
              (if store_stat systemInstancesPath s = None
               then (case plain of
                       PlainText data \<Rightarrow>
                         store_writeFile C (vt_masterKey v) (unix now) rnd wio systemInstancesPath data s
                     | PlainAbsent \<Rightarrow> (None, s)
                     | PlainError e \<Rightarrow> (Some e, s))
               else (None, s))
        in (case werr of
              Some e \<Rightarrow> (Some e, v, s, plain)
            | None \<Rightarrow>
              (case markInstancesDone now sio v of
                 (Some e, v) \<Rightarrow> (Some e, v, s, plain)
               | (None, v) \<Rightarrow> (None, v, s, if rio = None then PlainAbsent else plain))))"

subsection \<open>The files\<close>

text \<open>
  What the operating system answers while one instance's files are migrated: whether the
  directory exists, its files, the free space; and for the file with index \<open>i\<close>: whether the vault
  is found locked before it, the random numbers and the outcomes of writing the object, the
  index and vault.json.
\<close>

record migrate_env =
  me_now :: instant
  me_exists :: bool
  me_files :: "plain_file list option"
  me_free :: "int option"
  me_locked :: "nat \<Rightarrow> bool"
  me_rnd :: "nat \<Rightarrow> nat \<Rightarrow> string option"
  me_write :: "nat \<Rightarrow> string option"
  me_nonce :: "nat \<Rightarrow> string option"
  me_flush :: "nat \<Rightarrow> string option"
  me_save :: "nat \<Rightarrow> string option"
  me_last_save :: "string option"
  me_last_nonce :: "string option"
  me_last_flush :: "string option"

definition treeBytes :: "plain_file list \<Rightarrow> int" where
  "treeBytes fs = sum_list (map pf_size fs)"

definition set_cursor :: "vaultMigrateCursor option \<Rightarrow> vaultState \<Rightarrow> vaultState" where
  "set_cursor c v = v\<lparr>vt_migration := Some ((the_migration v)\<lparr>mg_Cursor := c\<rparr>)\<rparr>"

definition files_done :: "string \<Rightarrow> vaultState \<Rightarrow> vaultState" where
  "files_done uuid v =
     (let m = the_migration v
      in v\<lparr>vt_migration := Some (m\<lparr>mg_FilesDone := fmupd uuid True (mg_FilesDone m), mg_Cursor := None\<rparr>)\<rparr>)"

text \<open>
  The loop over the sorted files. The cursor is a pointer; once it has been stored in the vault's
  record (\<open>shared\<close>), what the loop changes is seen there.
\<close>

fun migrate_files ::
  "crypto \<Rightarrow> index_codec \<Rightarrow> migrate_env \<Rightarrow> string \<Rightarrow> string \<Rightarrow> nat \<Rightarrow> string \<Rightarrow> vaultMigrateCursor \<Rightarrow> bool \<Rightarrow>
   plain_file list \<Rightarrow> vaultState \<Rightarrow> vaultStore \<Rightarrow>
   string option \<times> vaultMigrateCursor \<times> bool \<times> vaultState \<times> vaultStore" where
  "migrate_files C X E uuid cwd i startPath cursor shared [] v s = (None, cursor, shared, v, s)"
| "migrate_files C X E uuid cwd i startPath cursor shared (f # fs) v s =
     (if startPath \<noteq> [] \<and> pf_path f < startPath
      then migrate_files C X E uuid cwd (Suc i) startPath cursor shared fs v s
      else if me_locked E i \<or> vt_masterKey v = None then (Some ''locked'', cursor, shared, v, s)
      else
        (case Rel cwd (pf_path f) of
           None \<Rightarrow> (Some ''no relative path'', cursor, shared, v, s)
         | Some rel \<Rightarrow>
           let logical = logicalPath uuid rel in
           if pf_gone f then migrate_files C X E uuid cwd (Suc i) [] cursor shared fs v s
           else if unchanged logical f s
           then migrate_files C X E uuid cwd (Suc i) [] (cursor\<lparr>mc_Done := int (Suc i)\<rparr>) shared fs v s
           else
             (case pf_read f of
                None \<Rightarrow> (Some ''file cannot be read'', cursor, shared, v, s)
              | Some data \<Rightarrow>
                (case store_writeFile C (vt_masterKey v) (unix (me_now E)) (me_rnd E i) (me_write E i) logical data s of
                   (Some e, s) \<Rightarrow> (Some e, cursor, shared, v, s)
                 | (None, s) \<Rightarrow>
                   let cursor = cursor\<lparr>mc_Bytes := mc_Bytes cursor + pf_size f, mc_Done := int (Suc i),
                                       mc_Path := pf_path f\<rparr> in
                   if Suc i mod indexFlushBatch = 0 then
                     (case store_flush C X (me_nonce E i) (me_flush E i) s of
                        (Some e, s) \<Rightarrow> (Some e, cursor, shared, v, s)
                      | (None, s) \<Rightarrow>
                        (case vault_save (me_save E i) (set_cursor (Some cursor) v) of
                           (Some e, v) \<Rightarrow> (Some e, cursor, True, v, s)
                         | (None, v) \<Rightarrow> migrate_files C X E uuid cwd (Suc i) [] cursor True fs v s))
                   else migrate_files C X E uuid cwd (Suc i) [] cursor shared fs v s))))"

text \<open>The result says whether the plaintext tree was removed.\<close>

definition migrateOneInstance ::
  "crypto \<Rightarrow> index_codec \<Rightarrow> migrate_env \<Rightarrow> string \<Rightarrow> string \<Rightarrow> vaultState \<Rightarrow> vaultStore \<Rightarrow>
   string option \<times> bool \<times> vaultState \<times> vaultStore" where
  "migrateOneInstance C X E uuid cwd v s =
     (if \<not> me_exists E
      then (case vault_save (me_last_save E) (files_done uuid v) of (err, v) \<Rightarrow> (err, False, v, s))
      else
        (case me_files E of
           None \<Rightarrow> (Some ''walk failed'', False, v, s)
         | Some files \<Rightarrow>
           let total = treeBytes files in
           if free_below (me_free E) total then (Some ''disk full'', False, v, s)
           else
             let resumed = (case mg_Cursor (the_migration v) of
                              Some c \<Rightarrow> if mc_UUID c = uuid then Some c else None | None \<Rightarrow> None);
                 (cursor, startPath, shared) =
                   (case resumed of
                      Some c \<Rightarrow> (c, mc_Path c, True)
                    | None \<Rightarrow> (\<lparr>mc_UUID = uuid, mc_Path = [], mc_Done = 0, mc_Total = total, mc_Bytes = 0\<rparr>, [], False))
             in (case migrate_files C X E uuid cwd 0 startPath cursor shared (sort_key pf_path files) v s of
                   (Some e, cursor, shared, v, s) \<Rightarrow>
                     (Some e, False, if shared then set_cursor (Some cursor) v else v, s)
                 | (None, cursor, shared, v, s) \<Rightarrow>
                   (case vault_save (me_last_save E) (files_done uuid v) of
                      (Some e, v) \<Rightarrow> (Some e, True, v, s)
                    | (None, v) \<Rightarrow>
                        (None, True, v, snd (store_flush C X (me_last_nonce E) (me_last_flush E) s))))))"

text \<open>The instances with \<open>vaultFiles\<close>, as uuid and working directory, by uuid.\<close>

definition migrate_cands :: "Instance list \<Rightarrow> (string \<times> string) list" where
  "migrate_cands insts =
     sort_key fst (map (\<lambda>i. (in_InstanceUuid i, cf_Cwd (in_Config i)))
       (filter (\<lambda>i. cf_VaultFiles (in_Config i)) insts))"

fun migrate_all ::
  "crypto \<Rightarrow> index_codec \<Rightarrow> (string \<Rightarrow> migrate_env) \<Rightarrow> string \<Rightarrow> bool \<Rightarrow> (string \<times> string) list \<Rightarrow> vaultState \<Rightarrow>
   vaultStore \<Rightarrow> string option \<times> vaultState \<times> vaultStore" where
  "migrate_all C X E startUUID begun [] v s = (None, v, s)"
| "migrate_all C X E startUUID begun ((uuid, cwd) # cs) v s =
     (if \<not> begun \<and> uuid \<noteq> startUUID then migrate_all C X E startUUID False cs v s
      else if fmlookup (mg_FilesDone (the_migration v)) uuid = Some True
      then migrate_all C X E startUUID True cs v s
      else
        (case migrateOneInstance C X (E uuid) uuid cwd v s of
           (Some e, _, v, s) \<Rightarrow> (Some e, v, s)
         | (None, _, v, s) \<Rightarrow> migrate_all C X E startUUID True cs v s))"

definition migrateInstanceFiles ::
  "crypto \<Rightarrow> index_codec \<Rightarrow> (string \<Rightarrow> migrate_env) \<Rightarrow> Instance list \<Rightarrow> vaultState \<Rightarrow> vaultStore \<Rightarrow>
   string option \<times> vaultState \<times> vaultStore" where
  "migrateInstanceFiles C X E insts v s =
     (let startUUID = (case mg_Cursor (the_migration v) of None \<Rightarrow> [] | Some c \<Rightarrow> mc_UUID c)
      in migrate_all C X E startUUID (startUUID = []) (migrate_cands insts) v s)"

definition hasPendingFileTrees :: "Instance list \<Rightarrow> vaultState \<Rightarrow> bool" where
  "hasPendingFileTrees insts v =
     list_ex (\<lambda>i. cf_VaultFiles (in_Config i) \<and>
       \<not> (case vt_migration v of None \<Rightarrow> False
           | Some m \<Rightarrow> fmlookup (mg_FilesDone m) (in_InstanceUuid i) = Some True)) insts"

text \<open>
  The whole migration, from the call of \<open>startMigration\<close> to the end of the goroutine it may start
  (\<open>hasPendingFileTrees\<close> only decides whether there is one).
\<close>

record migrate_run =
  mr_now :: instant
  mr_rnd :: "nat \<Rightarrow> string option"
  mr_write :: "string option"
  mr_mark :: "string option"
  mr_remove :: "string option"
  mr_end :: "string option"

definition runMigration ::
  "crypto \<Rightarrow> index_codec \<Rightarrow> migrate_run \<Rightarrow> (string \<Rightarrow> migrate_env) \<Rightarrow> Instance list \<Rightarrow> plain_json \<Rightarrow> vaultState \<Rightarrow>
   vaultStore \<Rightarrow> vaultState \<times> vaultStore \<times> plain_json" where
  "runMigration C X R E insts plain v s =
     (case migrateInstancesJSON C (mr_now R) (mr_rnd R) (mr_write R) (mr_mark R) (mr_remove R) plain v s of
        (Some e, v, s, plain) \<Rightarrow> (v\<lparr>vt_migrating := False\<rparr>, s, plain)
      | (None, v, s, plain) \<Rightarrow>
        (case migrateInstanceFiles C X E insts v s of
           (Some e, v, s) \<Rightarrow> (v\<lparr>vt_migrating := False\<rparr>, s, plain)
         | (None, v, s) \<Rightarrow>
           let v = v\<lparr>vt_migration := Some ((the_migration v)\<lparr>mg_CompletedAt := Some (mr_now R)\<rparr>)\<rparr>
           in ((snd (vault_save (mr_end R) v))\<lparr>vt_migrating := False\<rparr>, s, plain)))"

definition startMigration ::
  "crypto \<Rightarrow> index_codec \<Rightarrow> migrate_run \<Rightarrow> (string \<Rightarrow> migrate_env) \<Rightarrow> Instance list \<Rightarrow> plain_json \<Rightarrow> vaultState \<Rightarrow>
   vaultStore \<Rightarrow> vaultState \<times> vaultStore \<times> plain_json" where
  "startMigration C X R E insts plain v s =
     (if vt_migrating v \<or> migrationPhase v = 3 then (v, s, plain)
      else runMigration C X R E insts plain (v\<lparr>vt_migrating := True\<rparr>) s)"

subsection \<open>Handlers\<close>

text \<open>The three routes of the migration and of the backup need a session that is not a recovery session.\<close>

definition session_ok :: "instant \<Rightarrow> vault_request \<Rightarrow> vaultState \<Rightarrow> bool" where
  "session_ok now r v =
     (unlocked v \<and> (case sessionFor now r v of None \<Rightarrow> False | Some s \<Rightarrow> \<not> vs_recovery s))"

text \<open>The answer says whether a migration was started and whether it was complete already.\<close>

definition handleVaultMigrate ::
  "crypto \<Rightarrow> index_codec \<Rightarrow> instant \<Rightarrow> vault_request \<Rightarrow> migrate_run \<Rightarrow> (string \<Rightarrow> migrate_env) \<Rightarrow> Instance list \<Rightarrow>
   plain_json \<Rightarrow> vaultState \<Rightarrow> vaultStore \<Rightarrow> (bool \<times> bool) reply \<times> vaultState \<times> vaultStore \<times> plain_json" where
  "handleVaultMigrate C X now r R E insts plain v s =
     (if \<not> vt_enabled v then (Fail 403 ''vault not enabled'', v, s, plain)
      else if \<not> session_ok now r v then (Fail 401 ''not authorized'', v, s, plain)
      else if migrationPhase v = 3 then (Reply (False, True), v, s, plain)
      else (Reply (True, False), startMigration C X R E insts plain v s))"

definition handleVaultMigrateStatus :: "instant \<Rightarrow> vault_request \<Rightarrow> vaultState \<Rightarrow> migrate_progress reply" where
  "handleVaultMigrateStatus now r v =
     (if \<not> vt_enabled v then Fail 403 ''vault not enabled''
      else if \<not> session_ok now r v then Fail 401 ''not authorized''
      else Reply (migrationProgress v))"

text \<open>
  The archive: vault.json, the index file where there is one, and the objects but not temporary
  files. Reading the files is taken to succeed where they exist.
\<close>

record vault_archive =
  va_vault :: vaultFile
  va_index :: "string option"
  va_objects :: "(string, string) fmap"

definition handleVaultBackup ::
  "crypto \<Rightarrow> index_codec \<Rightarrow> instant \<Rightarrow> vault_request \<Rightarrow> string option \<Rightarrow> string option \<Rightarrow> vaultState \<Rightarrow> vaultStore \<Rightarrow>
   vault_archive reply \<times> vaultStore" where
  "handleVaultBackup C X now r nonce io v s =
     (if \<not> vt_enabled v then (Fail 403 ''vault not enabled'', s)
      else if \<not> session_ok now r v then (Fail 401 ''not authorized'', s)
      else
        (case store_flush C X nonce io s of
           (Some e, s) \<Rightarrow> (Fail 500 e, s)
         | (None, s) \<Rightarrow>
           (case vt_disk v of
              None \<Rightarrow> (Fail 500 ''vault.json cannot be read'', s)
            | Some f \<Rightarrow>
                (Reply \<lparr>va_vault = f, va_index = so_indexFile s,
                        va_objects = fmfilter (\<lambda>n. \<not> HasSuffix n ''.tmp'') (so_objects s)\<rparr>, s))))"

end
