(* ===== verification/StoreObjects.thy ===== *)
theory StoreObjects
  imports VaultMigrate
begin

text \<open>
  The object format of the encrypted store (cmd/irix-node/vault_store.go): what was written is
  read back, whole or in part, and the two ways of appending.
\<close>

subsection \<open>Bytes\<close>

lemma length_PutUint32 [simp]: "length (PutUint32 n) = 4"
  by (simp add: PutUint32_def)

lemma Uint32_PutUint32 [simp]: "Uint32 (PutUint32 n) = n mod 2 ^ 32"
proof -
  have c: "of_char (char_of (k mod 256) :: char) = k mod 256" for k :: nat by simp
  have s: "n mod 2 ^ 32 = ((n div 256 ^ 3 mod 256 * 256 + n div 256 ^ 2 mod 256) * 256 +
      n div 256 ^ 1 mod 256) * 256 + n div 256 ^ 0 mod 256"
  proof -
    have m: "k mod (256 * j) = (k div 256 mod j) * 256 + k mod 256" for k j :: nat
      by (metis mod_mult2_eq mult.commute add.commute)
    have "n mod 2 ^ 32 = n mod (256 * (256 * (256 * 256)))" by simp
    also have "\<dots> = (n div 256 mod (256 * (256 * 256))) * 256 + n mod 256" by (rule m)
    also have "n div 256 mod (256 * (256 * 256)) = (n div 256 div 256 mod (256 * 256)) * 256 + n div 256 mod 256"
      by (rule m)
    also have "n div 256 div 256 mod (256 * 256) = (n div 256 div 256 div 256 mod 256) * 256 + n div 256 div 256 mod 256"
      by (rule m)
    also have "n div 256 div 256 div 256 = n div 256 ^ 3" by (simp flip: div_mult2_eq)
    also have "n div 256 div 256 = n div 256 ^ 2" by (simp flip: div_mult2_eq)
    finally show ?thesis by (simp add: algebra_simps)
  qed
  show ?thesis unfolding s by (simp add: PutUint32_def Uint32_def)
qed

text \<open>
  What the code relies on of AES-GCM: authenticity, and 28 bytes of overhead (nonce and tag).
\<close>

definition sealing :: "crypto \<Rightarrow> bool" where
  "sealing C \<longleftrightarrow> authentic C \<and> (\<forall>k n m b. cr_wrap C k n m = Some b \<longrightarrow> length b = length m + objectBlockOver)"

lemma sealing_wrap:
  assumes "sealing C" "gcm_wrap C k n m = Some b"
  shows "cr_unwrap C k b = Some m" "length b = length m + objectBlockOver"
  using assms unfolding sealing_def authentic_def gcm_wrap_def by (auto split: option.splits)

text \<open>Chunks of equal size: the \<open>k\<close>-th lies at \<open>k\<close> times the size.\<close>

definition chunk :: "nat \<Rightarrow> nat \<Rightarrow> string \<Rightarrow> string" where
  "chunk w k body = take w (drop (k * w) body)"

lemma seal_blocks_chunks:
  assumes "sealing C" "seal_blocks C dek rnd n bs = Some body" "\<forall>b \<in> set bs. length b = B"
  shows "length body = length bs * (B + objectBlockOver) \<and>
         (\<forall>k < length bs. cr_unwrap C dek (chunk (B + objectBlockOver) k body) = Some (bs ! k))"
  using assms(2,3)
proof (induction bs arbitrary: n body)
  case (Cons b bs)
  let ?w = "B + objectBlockOver"
  obtain x body' where x: "gcm_wrap C dek (rnd n) b = Some x" and r: "seal_blocks C dek rnd (Suc n) bs = Some body'"
    and body: "body = x @ body'"
    using Cons.prems(1) by (auto split: option.splits)
  have lx: "length x = ?w" "cr_unwrap C dek x = Some b"
    using sealing_wrap [OF assms(1) x] Cons.prems(2) by auto
  have IH: "length body' = length bs * ?w"
    "\<forall>k < length bs. cr_unwrap C dek (chunk ?w k body') = Some (bs ! k)"
    using Cons.IH [OF r] Cons.prems(2) by auto
  have "cr_unwrap C dek (chunk ?w k body) = Some ((b # bs) ! k)" if "k < length (b # bs)" for k
  proof (cases k)
    case (Suc j)
    have "drop (k * ?w) body = drop (j * ?w) body'" by (simp add: body lx(1) Suc)
    then have "chunk ?w k body = chunk ?w j body'" by (simp only: chunk_def)
    then show ?thesis using IH(2) that Suc by simp
  qed (simp add: chunk_def body lx)
  moreover have "length body = length (b # bs) * ?w" by (simp add: body lx(1) IH(1))
  ultimately show ?case by blast
qed simp

subsection \<open>What an object holds\<close>

text \<open>The file is an object whose blocks of \<open>B\<close> bytes are \<open>bs\<close>; anything may follow the last block.\<close>

definition holds :: "crypto \<Rightarrow> string \<Rightarrow> nat \<Rightarrow> string list \<Rightarrow> string \<Rightarrow> bool" where
  "holds C mk B bs file \<longleftrightarrow>
     0 < B \<and> B \<le> 64 * 2 ^ 20 \<and> length bs < 2 ^ 32 \<and> (\<forall>b \<in> set bs. length b = B) \<and>
     (\<exists>dekWrap dek body extra. file = object_header B dekWrap (length bs) @ body @ extra \<and> length dekWrap = 60 \<and>
        cr_unwrap C mk dekWrap = Some dek \<and> length body = length bs * (B + objectBlockOver) \<and>
        (\<forall>k < length bs. cr_unwrap C dek (chunk (B + objectBlockOver) k body) = Some (bs ! k)))"

lemma holdsI:
  assumes "0 < B" "B \<le> 64 * 2 ^ 20" "length bs < 2 ^ 32" "\<forall>b \<in> set bs. length b = B" "length dekWrap = 60"
    "cr_unwrap C mk dekWrap = Some dek" "length body = length bs * (B + objectBlockOver)"
    "\<forall>k < length bs. cr_unwrap C dek (chunk (B + objectBlockOver) k body) = Some (bs ! k)"
  shows "holds C mk B bs (object_header B dekWrap (length bs) @ body @ extra)"
  unfolding holds_def using assms by blast

lemma length_object_header: "length w = 60 \<Longrightarrow> length (object_header B w n) = objectHeaderSize"
  by (simp add: object_header_def objectHeaderSize_def objectMagic_def)

text \<open>The fields of a header, at their offsets.\<close>

lemma object_header_fields:
  assumes "length w = 60"
  shows "take 8 (object_header B w n) = objectMagic" "object_header B w n ! 8 = char_of objectVersion"
    "take 4 (drop 9 (object_header B w n)) = PutUint32 B" "take 60 (drop 13 (object_header B w n)) = w"
    "take 4 (drop 73 (object_header B w n)) = PutUint32 n" "take 4 (drop 77 (object_header B w n)) = PutUint32 B"
proof -
  let ?p = "objectMagic @ [char_of objectVersion] @ PutUint32 B @ w"
  have l: "length objectMagic = 8" by (simp add: objectMagic_def)
  show "take 8 (object_header B w n) = objectMagic" "object_header B w n ! 8 = char_of objectVersion"
    by (simp_all add: object_header_def l nth_append)
  show "take 4 (drop 9 (object_header B w n)) = PutUint32 B" "take 60 (drop 13 (object_header B w n)) = w"
    by (simp_all add: object_header_def l assms)
  show "take 4 (drop 73 (object_header B w n)) = PutUint32 n" "take 4 (drop 77 (object_header B w n)) = PutUint32 B"
    by (simp_all add: object_header_def l assms)
qed

lemma readHeader_holds:
  assumes "holds C mk B bs file" "fmlookup (so_objects s) i = Some file"
  obtains h where "readHeader C mk i s = Inr h" "oh_blockSize h = B" "oh_blockCount h = length bs"
    "\<And>k. k < length bs \<Longrightarrow> readBlock C i h (int k) s = Inr (bs ! k)"
proof -
  let ?w = "B + objectBlockOver"
  obtain w dek body extra where h: "0 < B" "B \<le> 64 * 2 ^ 20" "length bs < 2 ^ 32"
    and f: "file = object_header B w (length bs) @ body @ extra" and w: "length w = 60"
    and dek: "cr_unwrap C mk w = Some dek" and body: "length body = length bs * ?w"
    and chunks: "\<forall>k < length bs. cr_unwrap C dek (chunk ?w k body) = Some (bs ! k)"
    using assms(1) unfolding holds_def by blast
  let ?h = "\<lparr>oh_blockSize = B, oh_dek = dek, oh_blockCount = length bs, oh_lastBlockSize = B\<rparr>"
  have len: "length (object_header B w (length bs)) = objectHeaderSize" by (rule length_object_header [OF w])
  have "read_at 0 objectHeaderSize file = Some (object_header B w (length bs))"
    by (simp add: read_at_def f len)
  moreover have "B mod 2 ^ 32 = B" "length bs mod 2 ^ 32 = length bs" using h by simp_all
  ultimately have hd: "readHeader C mk i s = Inr ?h"
    using h dek by (simp add: readHeader_def assms(2) object_header_fields [OF w] objectVersion_def)
  have "readBlock C i ?h (int k) s = Inr (bs ! k)" if k: "k < length bs" for k
  proof -
    have "k * ?w + ?w \<le> length bs * ?w" using k by (metis Suc_leI add.commute mult_Suc mult_le_mono1)
    then have "read_at (block_offset B k) (objectBlockOver + B) file = Some (chunk ?w k body)"
      by (simp add: read_at_def block_offset_def f len body chunk_def add.commute)
    moreover have "nat (int k mod 2 ^ 32) = k" using k h(3) by simp
    ultimately show ?thesis using chunks k by (simp add: readBlock_def assms(2))
  qed
  with hd show thesis by (intro that [of ?h]) simp_all
qed

lemma read_blocks_all:
  "\<forall>k \<in> set ks. readBlock C i h k s = Inr (f k) \<Longrightarrow> read_blocks C i h ks s = Inr (map f ks)"
  by (induction ks) auto

lemma read_entry_holds:
  assumes "holds C mk B bs file" "fmlookup (so_objects s) (ve_ID e) = Some file"
    "0 \<le> ve_Size e" "ve_Size e \<le> int (length (concat bs))"
  shows "read_entry C mk e s = Inr (take (nat (ve_Size e)) (concat bs))"
proof -
  obtain h where h: "readHeader C mk (ve_ID e) s = Inr h" "oh_blockCount h = length bs"
    "\<And>k. k < length bs \<Longrightarrow> readBlock C (ve_ID e) h (int k) s = Inr (bs ! k)"
    using readHeader_holds [OF assms(1,2)] by metis
  have "read_blocks C (ve_ID e) h (map int [0..<length bs]) s = Inr (map (\<lambda>k. bs ! nat k) (map int [0..<length bs]))"
    by (rule read_blocks_all) (auto simp: h(3))
  moreover have "map (\<lambda>k. bs ! nat k) (map int [0..<length bs]) = bs"
    by (simp add: comp_def map_nth)
  ultimately show ?thesis using h assms(3,4) by (auto simp: read_entry_def Let_def)
qed

subsection \<open>Blocks of data\<close>

lemma length_data_block [simp]: "length (data_block B data k) = B"
  by (auto simp: data_block_def Let_def)

lemma concat_data_blocks:
  "concat (map (data_block B data) [0..<n]) = take (n * B) data @ replicate (n * B - length data) (CHR 0x00)"
proof (induction n)
  case (Suc n)
  have b: "data_block B data n = take B (drop (n * B) data) @ replicate (B - (length data - n * B)) (CHR 0x00)"
    by (auto simp: data_block_def Let_def min_def)
  have "take (Suc n * B) data = take (n * B) data @ take B (drop (n * B) data)"
    by (metis add.commute mult_Suc take_add)
  moreover have "replicate (n * B - length data) (CHR 0x00) @ take B (drop (n * B) data) @
      replicate (B - (length data - n * B)) (CHR 0x00) =
      take B (drop (n * B) data) @ replicate (Suc n * B - length data) (CHR 0x00)"
  proof (cases "length data \<le> n * B")
    case True
    then show ?thesis by (simp add: replicate_add [symmetric] algebra_simps)
  next
    case False
    then have "B - (length data - n * B) = Suc n * B - length data" by simp
    with False show ?thesis by simp
  qed
  ultimately show ?case using Suc by (simp add: b)
qed simp

definition blocks_for :: "nat \<Rightarrow> string \<Rightarrow> nat" where
  "blocks_for B data = (let n = (length data + B - 1) div B in if n = 0 then 1 else n)"

lemma blocks_for_enough: "0 < B \<Longrightarrow> length data \<le> blocks_for B data * B"
proof -
  assume B: "0 < B"
  have "length data \<le> (length data + B - 1) div B * B"
  proof -
    have "length data + B - 1 = (length data + B - 1) div B * B + (length data + B - 1) mod B" by simp
    moreover have "(length data + B - 1) mod B \<le> B - 1" using B by (simp add: less_Suc_eq_le [symmetric])
    ultimately show ?thesis using B by linarith
  qed
  then show ?thesis by (auto simp: blocks_for_def Let_def)
qed

text \<open>An admissible block size, and a size that fits the 32-bit block count.\<close>

definition fits :: "nat \<Rightarrow> string \<Rightarrow> bool" where
  "fits B data \<longleftrightarrow> 0 < B \<and> B \<le> 64 * 2 ^ 20 \<and> blocks_for B data < 2 ^ 32"

text \<open>The random source gives 32 bytes where the code asks for 32.\<close>

definition key_sized :: "(nat \<Rightarrow> string option) \<Rightarrow> bool" where
  "key_sized rnd \<longleftrightarrow> (\<forall>dek. rnd 1 = Some dek \<longrightarrow> length dek = 32)"

lemma newObject_holds:
  assumes "sealing C" "key_sized rnd" "fits (so_blockSize s) data" "newObject C mk rnd io data s = Inr (i, s')"
  shows "\<exists>b fl. rnd 0 = Some b \<and> i = hex_EncodeToString b \<and> s' = s\<lparr>so_objects := fmupd i fl (so_objects s)\<rparr> \<and>
     holds C mk (so_blockSize s) (map (data_block (so_blockSize s) data) [0..<blocks_for (so_blockSize s) data]) fl"
proof -
  let ?B = "so_blockSize s" and ?n = "blocks_for (so_blockSize s) data"
  obtain b where b: "rnd 0 = Some b" using assms(4) by (auto simp: newObject_def split: option.splits)
  obtain dek where dek: "rnd 1 = Some dek" using assms(4) b by (auto simp: newObject_def Let_def split: option.splits)
  obtain w where w: "gcm_wrap C mk (rnd 2) dek = Some w"
    using assms(4) b dek by (auto simp: newObject_def Let_def split: option.splits)
  obtain body where body: "seal_blocks C dek rnd 3 (map (data_block ?B data) [0..<?n]) = Some body"
    using assms(4) b dek w by (auto simp: newObject_def Let_def blocks_for_def split: option.splits)
  have s': "io = None" "i = hex_EncodeToString b"
    "s' = s\<lparr>so_objects := fmupd i (object_header ?B w ?n @ body) (so_objects s)\<rparr>"
    using assms(4) b dek w body by (auto simp: newObject_def Let_def blocks_for_def split: option.splits)
  have wl: "length w = 60" "cr_unwrap C mk w = Some dek"
    using sealing_wrap [OF assms(1) w] assms(2) dek by (simp_all add: key_sized_def objectBlockOver_def)
  have "\<forall>x \<in> set (map (data_block ?B data) [0..<?n]). length x = ?B" by auto
  from seal_blocks_chunks [OF assms(1) body this]
  have c: "length body = ?n * (?B + objectBlockOver)"
    "\<forall>k < ?n. cr_unwrap C dek (chunk (?B + objectBlockOver) k body) = Some (map (data_block ?B data) [0..<?n] ! k)"
    by simp_all
  have "holds C mk ?B (map (data_block ?B data) [0..<?n]) (object_header ?B w ?n @ body)"
    using holdsI [of ?B "map (data_block ?B data) [0..<?n]" w C mk dek body "[]"] assms(3) wl c
    by (simp add: fits_def)
  then show ?thesis using b s' by blast
qed

text \<open>An entry for data whose blocks an object holds reads back as the data.\<close>

lemma read_entry_data:
  assumes "holds C mk B (map (data_block B data) [0..<blocks_for B data]) fl"
    "fmlookup (so_objects s) (ve_ID e) = Some fl" "ve_Size e = int (length data)"
  shows "read_entry C mk e s = Inr data"
proof -
  have "0 < B" using assms(1) by (simp add: holds_def)
  then have "length data \<le> blocks_for B data * B" by (rule blocks_for_enough)
  moreover from this have c: "concat (map (data_block B data) [0..<blocks_for B data]) =
      data @ replicate (blocks_for B data * B - length data) (CHR 0x00)"
    by (simp add: concat_data_blocks)
  ultimately show ?thesis using read_entry_holds [OF assms(1,2)] assms(3) by (simp flip: of_nat_mult)
qed

lemma read_entry_frame:
  "fmlookup (so_objects s') (ve_ID e) = fmlookup (so_objects s) (ve_ID e) \<Longrightarrow>
   read_entry C mk e s' = read_entry C mk e s"
proof -
  assume f: "fmlookup (so_objects s') (ve_ID e) = fmlookup (so_objects s) (ve_ID e)"
  have "readHeader C mk (ve_ID e) s' = readHeader C mk (ve_ID e) s" by (simp add: readHeader_def f)
  moreover have "readBlock C (ve_ID e) h k s' = readBlock C (ve_ID e) h k s" for h k by (simp add: readBlock_def f)
  then have "read_blocks C (ve_ID e) h ks s' = read_blocks C (ve_ID e) h ks s" for h ks
    by (induction ks) (simp_all split: sum.split)
  ultimately show ?thesis by (simp add: read_entry_def split: sum.split)
qed

subsection \<open>Writing and reading\<close>

text \<open>What a successful write does to the index: the entry, and the parent directory where it is missing.\<close>

definition needs_parent :: "string \<Rightarrow> (string, vaultIndexEntry) fmap \<Rightarrow> bool" where
  "needs_parent path m \<longleftrightarrow>
     (case fmlookup m path of None \<Rightarrow> True | Some x \<Rightarrow> ve_Size x < 0) \<and>
     fmlookup m (logicalParent path) = None \<and> logicalParent path \<noteq> path \<and> logicalParent path \<noteq> ''/''"

definition index_write ::
  "string \<Rightarrow> vaultIndexEntry \<Rightarrow> vaultIndexEntry \<Rightarrow> (string, vaultIndexEntry) fmap \<Rightarrow> (string, vaultIndexEntry) fmap" where
  "index_write path e d m =
     (if needs_parent path m then fmupd (logicalParent path) d (fmupd path e m) else fmupd path e m)"

lemma index_write_self [simp]: "fmlookup (index_write path e d m) path = Some e"
  by (auto simp: index_write_def needs_parent_def)

lemma index_write_other:
  "p \<noteq> path \<Longrightarrow> fmlookup m p = Some x \<Longrightarrow> fmlookup (index_write path e d m) p = Some x"
  by (auto simp: index_write_def needs_parent_def)

lemma index_write_file:
  "ve_Size d < 0 \<Longrightarrow> 0 \<le> ve_Size x \<Longrightarrow> fmlookup (index_write path e d m) p = Some x \<Longrightarrow>
   p = path \<and> x = e \<or> p \<noteq> path \<and> fmlookup m p = Some x"
  by (auto simp: index_write_def split: if_splits)

text \<open>What a successful write changes.\<close>

lemma store_writeFile_done:
  assumes "sealing C" "key_sized rnd" "fits (so_blockSize s) data"
    "store_writeFile C mk now rnd io path data s = (None, s')"
  obtains k b i e fl d where "mk = Some k" "rnd 0 = Some b" "i = hex_EncodeToString b" "ve_ID e = i"
    "ve_Size e = int (length data)"
    "holds C k (so_blockSize s) (map (data_block (so_blockSize s) data) [0..<blocks_for (so_blockSize s) data]) fl"
    "so_objects s' = fmupd i fl (so_objects s)" "fmlookup (so_index s') path = Some e"
    "ve_Size d = -1"
    "so_index s' = index_write path e d (so_index s)"
proof -
  obtain k where k: "mk = Some k" using assms(4) by (auto simp: store_writeFile_def split: option.splits)
  obtain i s1 where n: "newObject C k rnd io data s = Inr (i, s1)"
    using assms(4) k by (auto simp: store_writeFile_def split: sum.splits prod.splits)
  obtain b fl where b: "rnd 0 = Some b" "i = hex_EncodeToString b" and s1: "s1 = s\<lparr>so_objects := fmupd i fl (so_objects s)\<rparr>"
    and h: "holds C k (so_blockSize s) (map (data_block (so_blockSize s) data) [0..<blocks_for (so_blockSize s) data]) fl"
    using newObject_holds [OF assms(1-3) n] by blast
  define e where "e = \<lparr>ve_ID = i, ve_Size = int (length data), ve_MTime = now,
                        ve_Blocks = int ((length data + so_blockSize s - 1) div so_blockSize s)\<rparr>"
  have e: "ve_ID e = i" "ve_Size e = int (length data)" by (simp_all add: e_def)
  let ?parent = "logicalParent path" and ?old = "fmlookup (so_index s) path"
  define d where "d = \<lparr>ve_ID = [], ve_Size = -1, ve_MTime = now, ve_Blocks = 0\<rparr>"
  define del where "del = (case ?old of None \<Rightarrow> [] | Some e0 \<Rightarrow> if ve_Size e0 \<ge> 0 then [ve_ID e0] else [])"
  have np: "(case ?old of None \<Rightarrow> True | Some e \<Rightarrow> ve_Size e < 0) \<and>
      fmlookup (fmupd path e (so_index s)) ?parent = None \<and> ?parent \<noteq> ''/'' \<longleftrightarrow> needs_parent path (so_index s)"
    by (auto simp: needs_parent_def)
  have "s' = s\<lparr>so_objects := fmupd i fl (so_objects s), so_index := index_write path e d (so_index s), so_dirty := True,
      so_pendingDel := so_pendingDel s @ del\<rparr>"
    using assms(4) n s1 k np
    by (cases "needs_parent path (so_index s)"; cases ?old)
      (auto simp: store_writeFile_def Let_def index_write_def d_def del_def e_def)
  then show thesis
    by (intro that [OF k b e h, where d = d]) (simp_all add: d_def)
qed

lemma newObject_frame: "newObject C mk rnd io data s = Inr (i, s') \<Longrightarrow> \<exists>f. s' = s\<lparr>so_objects := fmupd i f (so_objects s)\<rparr>"
  by (auto simp: newObject_def Let_def split: option.splits)

lemma store_writeFile_rest:
  assumes "store_writeFile C mk now rnd io path data s = (None, s')"
  shows "so_pendingDel s' = so_pendingDel s @
      (case fmlookup (so_index s) path of None \<Rightarrow> [] | Some e \<Rightarrow> if ve_Size e \<ge> 0 then [ve_ID e] else [])"
    "so_dirty s'" "so_indexFile s' = so_indexFile s" "so_indexDEK s' = so_indexDEK s" "so_blockSize s' = so_blockSize s"
  using assms
  by (auto simp: store_writeFile_def Let_def split: option.splits sum.splits prod.splits if_splits dest!: newObject_frame)

text \<open>
  C9. What is written is read. After a successful write of any data, empty or not, whether or
  not it ends at a block boundary, the path reads back exactly the data; every other fl reads
  as before. (The object's random id is not already in use.)
\<close>

theorem write_then_read:
  assumes "sealing C" "key_sized rnd" "fits (so_blockSize s) data"
    "store_writeFile C mk now rnd io path data s = (None, s')"
    "\<forall>p e b. fmlookup (so_index s) p = Some e \<longrightarrow> rnd 0 = Some b \<longrightarrow> ve_ID e \<noteq> hex_EncodeToString b"
  shows "store_readFile C mk path s' = Inr data \<and>
         (\<forall>p old. p \<noteq> path \<longrightarrow> store_readFile C mk p s = Inr old \<longrightarrow> store_readFile C mk p s' = Inr old)"
proof -
  obtain k b i e fl d where k: "mk = Some k" and i: "rnd 0 = Some b" "i = hex_EncodeToString b"
    and e: "ve_ID e = i" "ve_Size e = int (length data)"
    and h: "holds C k (so_blockSize s) (map (data_block (so_blockSize s) data) [0..<blocks_for (so_blockSize s) data]) fl"
    and ob: "so_objects s' = fmupd i fl (so_objects s)" and d: "ve_Size d = -1"
    and ix': "so_index s' = index_write path e d (so_index s)"
    by (rule store_writeFile_done [OF assms(1-4)])
  have ix: "fmlookup (so_index s') path = Some e" by (simp add: ix')
  have "read_entry C k e s' = Inr data" by (rule read_entry_data [OF h]) (simp_all add: ob e)
  then have "store_readFile C mk path s' = Inr data" by (simp add: store_readFile_def k ix)
  moreover have "store_readFile C mk p s' = Inr old" if p: "p \<noteq> path" "store_readFile C mk p s = Inr old" for p old
  proof -
    obtain e0 where e0: "fmlookup (so_index s) p = Some e0" "read_entry C k e0 s = Inr old"
      using p(2) k by (auto simp: store_readFile_def split: option.splits)
    have "ve_ID e0 \<noteq> i" using assms(5) e0(1) i by blast
    then have "fmlookup (so_objects s') (ve_ID e0) = fmlookup (so_objects s) (ve_ID e0)" by (simp add: ob)
    then have "read_entry C k e0 s' = Inr old" using read_entry_frame e0(2) by metis
    then show ?thesis using p(1) e0(1) k by (auto simp: store_readFile_def ix' index_write_other)
  qed
  ultimately show ?thesis by blast
qed

subsection \<open>Reading a part\<close>

lemma go_quot_nat: "go_quot (int a) (int b) = int (a div b)"
  by (cases "a = 0"; cases "b = 0") (simp_all add: go_quot_def zdiv_int)

lemma upto_nat: "[int a..int b] = map int [a..<Suc b]"
  by (rule nth_equalityI) (auto simp: nth_upto simp del: upt_Suc)

lemma concat_chunk:
  "\<forall>b \<in> set bs. length b = B \<Longrightarrow> k < length bs \<Longrightarrow> bs ! k = take B (drop (k * B) (concat bs))"
proof (induction bs arbitrary: k)
  case (Cons b bs)
  then show ?case by (cases k) simp_all
qed simp

lemma block_part_nat:
  "block_part B (int off) (int n) (int k) b =
     (let from = max off (k * B); to = min (off + n) (k * B + length b)
      in if from < to then take (to - from) (drop (from - k * B) b) else [])"
  by (simp add: block_part_def Let_def nat_diff_distrib' flip: of_nat_mult of_nat_add of_nat_max of_nat_min)

lemma block_parts:
  assumes B: "0 < B" "\<forall>b \<in> set bs. length b = B" and n: "0 < n"
    and m: "off div B \<le> m" "m \<le> (off + n - 1) div B" "m < length bs"
  shows "concat (map (\<lambda>k. block_part B (int off) (int n) (int k) (bs ! k)) [off div B..<Suc m]) =
     take (min (off + n) (Suc m * B) - off) (drop off (concat bs))"
  using m
proof (induction m rule: dec_induct)
  case base
  let ?k = "off div B"
  have o: "?k * B \<le> off" "off < Suc ?k * B" using B(1) by (simp_all add: dividend_less_div_times)
  have b: "bs ! ?k = take B (drop (?k * B) (concat bs))" using concat_chunk [OF B(2)] base(2) by blast
  have "length (bs ! ?k) = B" using B(2) base by simp
  with o n have "block_part B (int off) (int n) (int ?k) (bs ! ?k) =
      take (min (off + n) (Suc ?k * B) - off) (drop (off - ?k * B) (bs ! ?k))"
    by (simp add: block_part_nat Let_def max_absorb1 add.commute)
  also have "drop (off - ?k * B) (bs ! ?k) = take (Suc ?k * B - off) (drop off (concat bs))"
    using o by (simp add: b drop_take add.commute)
  finally show ?case by (simp add: min_def)
next
  case (step m)
  let ?k = "Suc m" and ?all = "concat bs"
  have IH: "concat (map (\<lambda>k. block_part B (int off) (int n) (int k) (bs ! k)) [off div B..<?k]) =
     take (min (off + n) (?k * B) - off) (drop off ?all)" using step by simp
  have k: "?k * B \<le> off + n - 1" using step.prems(1) B(1)
    by (meson div_times_less_eq_dividend dual_order.trans mult_le_mono1)
  have "off < ?k * B" using step.hyps(1) B(1)
    by (metis Suc_le_eq div_less_iff_less_mult le_imp_less_Suc)
  have b: "bs ! ?k = take B (drop (?k * B) ?all)" by (rule concat_chunk [OF B(2) step.prems(2)])
  have lb: "length (bs ! ?k) = B" using step.prems(2) B(2) by simp
  have "block_part B (int off) (int n) (int ?k) (bs ! ?k) = take (min (off + n) (?k * B + B) - ?k * B) (bs ! ?k)"
    using k n \<open>off < ?k * B\<close> lb B(1) unfolding block_part_nat
    by (simp add: Let_def max_absorb2)
  also have "\<dots> = take (min (off + n) (?k * B + B) - ?k * B) (drop (?k * B) ?all)"
    by (simp add: b min_def)
  finally have p: "block_part B (int off) (int n) (int ?k) (bs ! ?k) =
      take (min (off + n) (Suc ?k * B) - ?k * B) (drop (?k * B) ?all)" by (simp add: add.commute)
  have "take (min (off + n) (Suc ?k * B) - off) (drop off ?all) =
      take (?k * B - off) (drop off ?all) @ take (min (off + n) (Suc ?k * B) - ?k * B) (drop (?k * B) ?all)"
  proof -
    have e: "min (off + n) (Suc ?k * B) - off = (?k * B - off) + (min (off + n) (Suc ?k * B) - ?k * B)"
      using k n \<open>off < ?k * B\<close> by (auto simp: min_def)
    have d: "?k * B - off + off = ?k * B" using \<open>off < ?k * B\<close> by simp
    show ?thesis unfolding e take_add drop_drop d by simp
  qed
  moreover have "min (off + n) (?k * B) = ?k * B" using k n by simp
  ultimately show ?case
    using IH p step.hyps(1) by (simp del: mult_Suc)
qed

text \<open>
  A part of a file is the part of the whole. Reading \<open>n\<close> bytes at an offset, which decrypts
  only the blocks concerned, gives what cutting the whole content gives, for every offset, also
  at and behind the end.
\<close>

theorem range_is_slice:
  assumes "sealing C" "key_sized rnd" "fits (so_blockSize s) data"
    "store_writeFile C mk now rnd io path data s = (None, s')"
  shows "store_readRange C mk path (int off) (int n) s' = Inr (take n (drop off data))"
proof -
  let ?B = "so_blockSize s"
  let ?bs = "map (data_block ?B data) [0..<blocks_for ?B data]"
  obtain k b i e fl d where k: "mk = Some k" and i: "rnd 0 = Some b" "i = hex_EncodeToString b"
    and e: "ve_ID e = i" "ve_Size e = int (length data)" and h: "holds C k ?B ?bs fl"
    and ob: "so_objects s' = fmupd i fl (so_objects s)" and d: "ve_Size d = -1"
    and ix': "so_index s' = index_write path e d (so_index s)"
    by (rule store_writeFile_done [OF assms(1-4)])
  have ix: "fmlookup (so_index s') path = Some e" by (simp add: ix')
  have B: "0 < ?B" "\<forall>b \<in> set ?bs. length b = ?B" using h by (simp_all add: holds_def)
  have enough: "length data \<le> blocks_for ?B data * ?B" by (rule blocks_for_enough [OF B(1)])
  have all: "concat ?bs = data @ replicate (blocks_for ?B data * ?B - length data) (CHR 0x00)"
    using enough by (simp add: concat_data_blocks)
  show ?thesis
  proof (cases "off \<ge> length data \<or> n = 0")
    case True
    then show ?thesis by (auto simp: store_readRange_def k ix e)
  next
    case False
    define m where "m = min n (length data - off)"
    have m: "0 < m" "off + m \<le> length data" using False by (auto simp: m_def)
    have cut: "(if int off + int n > int (length data) then int (length data) - int off else int n) = int m"
      using False by (auto simp: m_def)
    obtain hd where hd: "readHeader C k (ve_ID e) s' = Inr hd" "oh_blockSize hd = ?B" "oh_blockCount hd = length ?bs"
      "\<And>j. j < length ?bs \<Longrightarrow> readBlock C (ve_ID e) hd (int j) s' = Inr (?bs ! j)"
      using readHeader_holds [OF h, of s' "ve_ID e"] ob e by auto
    let ?last = "(off + m - 1) div ?B"
    have last: "?last < length ?bs"
      using m enough B(1) by (auto simp: div_less_iff_less_mult)
    have first: "off div ?B \<le> ?last" using m by (intro div_le_mono) simp
    have "int off + int m - 1 = int (off + m - 1)" using m by simp
    then have ks: "[go_quot (int off) (int ?B)..go_quot (int off + int m - 1) (int ?B)] =
        map int [off div ?B..<Suc ?last]"
      by (simp only: go_quot_nat upto_nat)
    have rd: "read_blocks C (ve_ID e) hd (map int [off div ?B..<Suc ?last]) s' =
        Inr (map (\<lambda>j. ?bs ! nat j) (map int [off div ?B..<Suc ?last]))"
      by (rule read_blocks_all) (use last hd(4) in auto)
    have "concat (map2 (block_part ?B (int off) (int m)) (map int [off div ?B..<Suc ?last])
        (map (\<lambda>j. ?bs ! nat j) (map int [off div ?B..<Suc ?last]))) =
      concat (map (\<lambda>j. block_part ?B (int off) (int m) (int j) (?bs ! j)) [off div ?B..<Suc ?last])"
      by (simp add: map2_map_map comp_def del: upt_Suc)
    also have "\<dots> = take (min (off + m) (Suc ?last * ?B) - off) (drop off (concat ?bs))"
      by (rule block_parts [OF B m(1) first order_refl last])
    also have "min (off + m) (Suc ?last * ?B) = off + m"
      using m(1) B(1) dividend_less_div_times [OF B(1), of "off + m - 1"] by (simp add: min_def)
    also have "take (off + m - off) (drop off (concat ?bs)) = take n (drop off data)"
      using m by (simp add: all m_def min_def)
    finally have parts: "concat (map2 (block_part ?B (int off) (int m)) (map int [off div ?B..<Suc ?last])
        (map (\<lambda>j. ?bs ! nat j) (map int [off div ?B..<Suc ?last]))) = take n (drop off data)" .
    have "\<not> ve_Size e < 0" "\<not> (int off \<ge> int (length data) \<or> int n \<le> 0)" using False e(2) by auto
    then show ?thesis
      unfolding store_readRange_def k ix option.case e(2) cut Let_def hd(1) sum.case hd(2) ks rd
        map_sum.simps parts
      by simp
  qed
qed

end
