(* ===== verification/StoreCrash.thy ===== *)
theory StoreCrash
  imports StoreObjects
begin

text \<open>
  The encrypted store (cmd/irix-node/vault_store.go, vault_migrate.go) as a map from paths to
  directories and contents: every operation does to the map what its name says, and a crash at
  any moment shows the map of the last index that was written. Then the places where the code
  does not keep this promise.
\<close>

subsection \<open>The abstract tree\<close>

datatype vnode = DirN | FileN string | BrokenN

definition node_of :: "crypto \<Rightarrow> string \<Rightarrow> vaultStore \<Rightarrow> vaultIndexEntry \<Rightarrow> vnode" where
  "node_of C k s e =
     (if ve_Size e < 0 then DirN
      else (case read_entry C k e s of Inl err \<Rightarrow> BrokenN | Inr data \<Rightarrow> FileN data))"

definition file_tree :: "crypto \<Rightarrow> string \<Rightarrow> vaultStore \<Rightarrow> (string, vnode) fmap" where
  "file_tree C k s = fmmap (node_of C k s) (so_index s)"

lemma store_readFile_tree:
  "store_readFile C (Some k) p s = Inr data \<longleftrightarrow> fmlookup (file_tree C k s) p = Some (FileN data)"
proof -
  have "read_entry C k e s = Inl ''is a directory''" if "ve_Size e < 0" for e using that by (simp add: read_entry_def)
  then show ?thesis
    by (cases "fmlookup (so_index s) p") (auto simp: store_readFile_def file_tree_def node_of_def split: sum.split)
qed

definition spec_write :: "string \<Rightarrow> string \<Rightarrow> (string, vnode) fmap \<Rightarrow> (string, vnode) fmap" where
  "spec_write path data m =
     (let m' = fmupd path (FileN data) m
      in if fmlookup m path \<in> {None, Some DirN} \<and> fmlookup m' (logicalParent path) = None \<and> logicalParent path \<noteq> ''/''
         then fmupd (logicalParent path) DirN m' else m')"

definition spec_move :: "string \<Rightarrow> string \<Rightarrow> (string, vnode) fmap \<Rightarrow> (string, vnode) fmap" where
  "spec_move src dst m =
     (case fmlookup m src of
        None \<Rightarrow> m
      | Some x \<Rightarrow>
        let m' = (if x \<noteq> DirN then m
                  else move_entries dst (src @ ''/'')
                         (map fst (sorted_entries (\<lambda>p _. HasPrefix p (src @ ''/'')) m)) m)
        in fmdrop src (fmupd dst x m'))"

definition spec_remove :: "string \<Rightarrow> (string, vnode) fmap \<Rightarrow> (string, vnode) fmap" where
  "spec_remove path m =
     (case fmlookup m path of
        None \<Rightarrow> m
      | Some DirN \<Rightarrow> fmdrop path (fmfilter (\<lambda>p. \<not> HasPrefix p (path @ ''/'')) m)
      | Some x \<Rightarrow> fmdrop path m)"

subsection \<open>Events\<close>

datatype store_event =
  SvWrite int "nat \<Rightarrow> string option" "string option" string string
| SvCopy int "nat \<Rightarrow> string option" "string option" string string
| SvMove string string
| SvMkdir int string
| SvTouch int "nat \<Rightarrow> string option" "string option" string
| SvRemove string
| SvFlush "string option" "string option"

fun store_step :: "crypto \<Rightarrow> index_codec \<Rightarrow> string \<Rightarrow> store_event \<Rightarrow> vaultStore \<Rightarrow> string option \<times> vaultStore" where
  "store_step C X k (SvWrite now rnd io path data) s = store_writeFile C (Some k) now rnd io path data s"
| "store_step C X k (SvCopy now rnd io src dst) s = store_copy C (Some k) now rnd io src dst s"
| "store_step C X k (SvMove src dst) s = store_move src dst s"
| "store_step C X k (SvMkdir now path) s = store_mkdir now path s"
| "store_step C X k (SvTouch now rnd io path) s = store_touch C (Some k) now rnd io path s"
| "store_step C X k (SvRemove path) s = store_remove (Some k) path s"
| "store_step C X k (SvFlush nonce io) s = store_flush C X nonce io s"

text \<open>What each event does to the tree when it succeeds.\<close>

fun spec_step :: "store_event \<Rightarrow> (string, vnode) fmap \<Rightarrow> (string, vnode) fmap" where
  "spec_step (SvWrite now rnd io path data) m = spec_write path data m"
| "spec_step (SvCopy now rnd io src dst) m =
     (case fmlookup m src of Some (FileN data) \<Rightarrow> spec_write dst data m | _ \<Rightarrow> m)"
| "spec_step (SvMove src dst) m = spec_move src dst m"
| "spec_step (SvMkdir now path) m = fmupd path DirN m"
| "spec_step (SvTouch now rnd io path) m = (if fmlookup m path = None then spec_write path [] m else m)"
| "spec_step (SvRemove path) m = spec_remove path m"
| "spec_step (SvFlush nonce io) m = m"

subsection \<open>Object ids\<close>

definition object_id :: "string \<Rightarrow> bool" where
  "object_id i \<longleftrightarrow> i \<noteq> [] \<and> CHR ''.'' \<notin> set i"

lemma hex_digit_dot: "n < 16 \<Longrightarrow> hex_digit n \<noteq> CHR ''.''"
proof -
  have "\<forall>n \<in> set [0..<16]. hex_digit n \<noteq> CHR ''.''" by code_simp
  then show "n < 16 \<Longrightarrow> hex_digit n \<noteq> CHR ''.''" by simp
qed

lemma hex_object_id: "b \<noteq> [] \<Longrightarrow> object_id (hex_EncodeToString b)"
proof -
  have "of_char c div 16 < (16::nat)" "of_char c mod 16 < (16::nat)" for c :: char
    using less_mult_imp_div_less [of "of_char c" 16 16] nat_of_char_less_256 [of c] by simp_all
  then have "hex_digit (of_char c div 16) \<noteq> CHR ''.''" "hex_digit (of_char c mod 16) \<noteq> CHR ''.''" for c :: char
    using hex_digit_dot by blast+
  then show ?thesis if "b \<noteq> []"
    using that by (cases b) (auto simp: object_id_def hex_EncodeToString_def dest: sym)
qed

lemma object_id_tmp: "object_id i \<Longrightarrow> i \<noteq> tmp_name j"
  by (auto simp: object_id_def tmp_name_def)

lemma deleteObject_lookup:
  "object_id i \<Longrightarrow> fmlookup (so_objects (deleteObject j s)) i = (if i = j then None else fmlookup (so_objects s) i)"
  using object_id_tmp [of i j] by (auto simp: deleteObject_def object_id_def)

lemma deleteObject_frame [simp]:
  "so_index (deleteObject j s) = so_index s" "so_dirty (deleteObject j s) = so_dirty s"
  "so_indexDEK (deleteObject j s) = so_indexDEK s" "so_pendingDel (deleteObject j s) = so_pendingDel s"
  "so_indexFile (deleteObject j s) = so_indexFile s" "so_blockSize (deleteObject j s) = so_blockSize s"
  by (simp_all add: deleteObject_def)

lemma fold_deleteObject_frame [simp]:
  "so_index (fold deleteObject js s) = so_index s" "so_dirty (fold deleteObject js s) = so_dirty s"
  "so_indexDEK (fold deleteObject js s) = so_indexDEK s" "so_pendingDel (fold deleteObject js s) = so_pendingDel s"
  "so_indexFile (fold deleteObject js s) = so_indexFile s" "so_blockSize (fold deleteObject js s) = so_blockSize s"
  by (induction js arbitrary: s) simp_all

lemma fold_deleteObject_lookup:
  "object_id i \<Longrightarrow> fmlookup (so_objects (fold deleteObject js s)) i =
     (if i \<in> set js then None else fmlookup (so_objects s) i)"
  by (induction js arbitrary: s) (auto simp: deleteObject_lookup)

subsection \<open>Soundness of the store\<close>

text \<open>
  Every file's object has a proper name, no two files share one, and none of them waits to be
  deleted.
\<close>

definition file_entry :: "(string, vaultIndexEntry) fmap \<Rightarrow> string \<Rightarrow> vaultIndexEntry \<Rightarrow> bool" where
  "file_entry m p e \<longleftrightarrow> fmlookup m p = Some e \<and> 0 \<le> ve_Size e"

definition sound_index :: "(string, vaultIndexEntry) fmap \<Rightarrow> bool" where
  "sound_index m \<longleftrightarrow>
     (\<forall>p e. file_entry m p e \<longrightarrow> object_id (ve_ID e)) \<and>
     (\<forall>p q e f. file_entry m p e \<longrightarrow> file_entry m q f \<longrightarrow> ve_ID e = ve_ID f \<longrightarrow> p = q)"

definition sound :: "vaultStore \<Rightarrow> bool" where
  "sound s \<longleftrightarrow> sound_index (so_index s) \<and> (\<forall>i \<in> set (so_pendingDel s). object_id i) \<and>
     (\<forall>p e. file_entry (so_index s) p e \<longrightarrow> ve_ID e \<notin> set (so_pendingDel s))"

text \<open>
  An index that comes from another by dropping entries and moving them to other paths, and a
  new directory.
\<close>

lemma sound_index_drop: "sound_index m \<Longrightarrow> sound_index (fmdrop p m)"
  unfolding sound_index_def file_entry_def by (auto split: if_splits)

lemma sound_index_dir: "sound_index m \<Longrightarrow> ve_Size d < 0 \<Longrightarrow> sound_index (fmupd p d m)"
  unfolding sound_index_def file_entry_def by (auto split: if_splits)

lemma sound_index_shift:
  assumes "sound_index m" "fmlookup m p = Some e"
  shows "sound_index (fmdrop p (fmupd q e m))"
  using assms unfolding sound_index_def file_entry_def by (auto split: if_splits)

lemma sound_index_new:
  assumes "sound_index m" "object_id i" "\<forall>p e. file_entry m p e \<longrightarrow> ve_ID e \<noteq> i" "ve_ID e0 = i"
  shows "sound_index (fmupd p e0 m)"
  using assms unfolding sound_index_def file_entry_def by (auto split: if_splits) blast+

lemma sound_index_touch:
  assumes "sound_index m" "fmlookup m p = Some e" "ve_ID e' = ve_ID e" "0 \<le> ve_Size e"
  shows "sound_index (fmupd p e' m)"
  using assms unfolding sound_index_def file_entry_def by (auto split: if_splits)

text \<open>Moving a list of entries: soundness, the entries, and the abstraction.\<close>

lemma move_entries_sound:
  assumes "sound_index m" "distinct ps" "\<forall>p \<in> set ps. fmlookup m p \<noteq> None"
  shows "sound_index (move_entries dst pre ps m)"
  using assms
proof (induction dst pre ps m rule: move_entries.induct)
  case (2 dst pre p ps m)
  obtain e where e: "fmlookup m p = Some e" using "2.prems"(3) by auto
  have "sound_index (fmdrop p (fmupd (dst @ ''/'' @ TrimPrefix p pre) e m))"
    by (rule sound_index_shift [OF "2.prems"(1) e])
  moreover have "\<forall>q \<in> set ps. fmlookup (fmdrop p (fmupd (dst @ ''/'' @ TrimPrefix p pre) e m)) q \<noteq> None"
    using "2.prems" by auto
  ultimately show ?case using "2.IH" "2.prems"(2) e by simp
qed simp

lemma move_entries_range:
  assumes "distinct ps" "\<forall>p \<in> set ps. fmlookup m p \<noteq> None" "fmlookup (move_entries dst pre ps m) q = Some x"
  shows "\<exists>p. fmlookup m p = Some x"
  using assms
proof (induction dst pre ps m rule: move_entries.induct)
  case (2 dst pre p ps m)
  obtain e where e: "fmlookup m p = Some e" using "2.prems"(2) by auto
  let ?m = "fmdrop p (fmupd (dst @ ''/'' @ TrimPrefix p pre) e m)"
  have "\<forall>q \<in> set ps. fmlookup ?m q \<noteq> None" using "2.prems"(1,2) by auto
  then have "\<exists>p. fmlookup ?m p = Some x" using "2.IH" "2.prems"(1,3) e by simp
  then show ?case using e by (auto split: if_splits)
qed auto

lemma move_entries_map:
  assumes "distinct ps" "\<forall>p \<in> set ps. fmlookup m p \<noteq> None"
  shows "fmmap f (move_entries dst pre ps m) = move_entries dst pre ps (fmmap f m)"
  using assms
proof (induction dst pre ps m rule: move_entries.induct)
  case (2 dst pre p ps m)
  obtain e where e: "fmlookup m p = Some e" using "2.prems"(2) by auto
  let ?q = "dst @ ''/'' @ TrimPrefix p pre"
  have "\<forall>q \<in> set ps. fmlookup (fmdrop p (fmupd ?q e m)) q \<noteq> None" using "2.prems" by auto
  then have "fmmap f (move_entries dst pre ps (fmdrop p (fmupd ?q e m))) =
      move_entries dst pre ps (fmmap f (fmdrop p (fmupd ?q e m)))"
    using "2.IH" "2.prems"(1) e by simp
  moreover have "fmmap f (fmdrop p (fmupd ?q e m)) = fmdrop p (fmupd ?q (f e) (fmmap f m))"
    by (rule fmap_ext) simp
  ultimately show ?case using e by simp
qed simp

lemma sorted_entries_keys:
  "map fst (sorted_entries (\<lambda>p _. Q p) m) = filter Q (sorted_list_of_fset (fmdom m))"
  by (simp add: sorted_entries_def filter_map comp_def)

lemma sorted_entries_ok:
  "distinct (map fst (sorted_entries (\<lambda>p _. Q p) m))"
  "\<forall>p \<in> set (map fst (sorted_entries (\<lambda>p _. Q p) m)). fmlookup m p \<noteq> None"
  unfolding sorted_entries_keys
  by (auto simp: sorted_list_of_fset.rep_eq fmlookup_dom_iff)

subsection \<open>Each operation on the tree\<close>

lemma node_of_frame:
  "(0 \<le> ve_Size e \<Longrightarrow> fmlookup (so_objects s') (ve_ID e) = fmlookup (so_objects s) (ve_ID e)) \<Longrightarrow>
   node_of C k s' e = node_of C k s e"
  using read_entry_frame [of s' e s C k] by (auto simp: node_of_def)

lemma node_of_dir [simp]: "node_of C k s e = DirN \<longleftrightarrow> ve_Size e < 0"
  by (auto simp: node_of_def split: sum.split)

lemma node_of_same: "so_objects s' = so_objects s \<Longrightarrow> node_of C k s' = node_of C k s"
  by (rule ext, rule node_of_frame) simp

lemma fmmap_cong:
  assumes "\<And>p e. fmlookup m p = Some e \<Longrightarrow> f e = g e"
  shows "fmmap f m = fmmap g m"
proof (rule fmap_ext)
  show "fmlookup (fmmap f m) p = fmlookup (fmmap g m) p" for p
    using assms [of p] by (cases "fmlookup m p") auto
qed

lemma fmmap_upd: "fmmap f (fmupd p x m) = fmupd p (f x) (fmmap f m)"
  by (rule fmap_ext) simp

lemma fmmap_drop: "fmmap f (fmdrop p m) = fmdrop p (fmmap f m)"
  by (rule fmap_ext) simp

text \<open>The id that the random source gives is not in use.\<close>

definition unused_id :: "(nat \<Rightarrow> string option) \<Rightarrow> vaultStore \<Rightarrow> bool" where
  "unused_id rnd s \<longleftrightarrow>
     (\<forall>b. rnd 0 = Some b \<longrightarrow> b \<noteq> [] \<and> hex_EncodeToString b \<notin> set (so_pendingDel s) \<and>
        (\<forall>p e. file_entry (so_index s) p e \<longrightarrow> ve_ID e \<noteq> hex_EncodeToString b))"

lemma write_tree:
  assumes "sealing C" "key_sized rnd" "fits (so_blockSize s) data" "sound s" "unused_id rnd s"
    "store_writeFile C (Some k) now rnd io path data s = (None, s')"
  shows "file_tree C k s' = spec_write path data (file_tree C k s) \<and> sound s'"
proof -
  obtain k' b i e fl d where k': "Some k = Some k'" and i: "rnd 0 = Some b" "i = hex_EncodeToString b"
    and e: "ve_ID e = i" "ve_Size e = int (length data)"
    and h: "holds C k' (so_blockSize s) (map (data_block (so_blockSize s) data) [0..<blocks_for (so_blockSize s) data]) fl"
    and ob: "so_objects s' = fmupd i fl (so_objects s)" and d: "ve_Size d = -1"
    and ix: "so_index s' = index_write path e d (so_index s)"
    by (rule store_writeFile_done [OF assms(1-3,6)])
  have oid: "object_id i" and fresh: "\<forall>p e. file_entry (so_index s) p e \<longrightarrow> ve_ID e \<noteq> i" "i \<notin> set (so_pendingDel s)"
    using assms(5) i hex_object_id by (auto simp: unused_id_def)
  let ?f = "node_of C k s" and ?f' = "node_of C k s'"
  have old: "?f' x = ?f x" if "fmlookup (so_index s) p = Some x" for p x
  proof (rule node_of_frame)
    assume "0 \<le> ve_Size x"
    then have "ve_ID x \<noteq> i" using fresh(1) that by (simp add: file_entry_def)
    then show "fmlookup (so_objects s') (ve_ID x) = fmlookup (so_objects s) (ve_ID x)" by (simp add: ob)
  qed
  then have m: "fmmap ?f' (so_index s) = file_tree C k s" unfolding file_tree_def by (rule fmmap_cong)
  have new: "?f' e = FileN data" using read_entry_data [OF h, of s' e] k' e by (simp add: node_of_def ob)
  have dir: "?f' d = DirN" using d by simp
  have "needs_parent path (so_index s) \<longleftrightarrow> fmlookup (file_tree C k s) path \<in> {None, Some DirN} \<and>
      fmlookup (fmupd path (FileN data) (file_tree C k s)) (logicalParent path) = None \<and> logicalParent path \<noteq> ''/''"
    by (cases "fmlookup (so_index s) path") (auto simp: file_tree_def needs_parent_def)
  then have "file_tree C k s' = spec_write path data (file_tree C k s)"
    unfolding file_tree_def [of C k s'] ix spec_write_def Let_def index_write_def
    by (simp add: fmmap_upd m new dir)
  moreover have "sound s'"
  proof -
    have "sound_index (fmupd path e (so_index s))"
      using assms(4) sound_index_new [OF _ oid fresh(1) e(1)] by (simp add: sound_def)
    then have s1: "sound_index (so_index s')" using d by (simp add: ix index_write_def sound_index_dir)
    have p: "\<forall>j \<in> set (so_pendingDel s'). j \<in> set (so_pendingDel s) \<or> (\<exists>x. file_entry (so_index s) path x \<and> ve_ID x = j)"
      using store_writeFile_rest(1) [OF assms(6)] by (auto simp: file_entry_def split: option.splits if_splits)
    have si: "sound_index (so_index s)" using assms(4) by (simp add: sound_def)
    have s2: "\<forall>j \<in> set (so_pendingDel s'). object_id j"
      using p assms(4) si unfolding sound_def sound_index_def by blast
    have s3: "ve_ID x \<notin> set (so_pendingDel s')" if x: "file_entry (so_index s') q x" for q x
    proof -
      have "q = path \<and> x = e \<or> q \<noteq> path \<and> file_entry (so_index s) q x"
        using index_write_file [of d x path e "so_index s" q] x d by (auto simp: file_entry_def ix)
      then show ?thesis
      proof
        assume "q = path \<and> x = e"
        then have "ve_ID x = i" using e by simp
        then show ?thesis using fresh p by blast
      next
        assume q: "q \<noteq> path \<and> file_entry (so_index s) q x"
        then have "ve_ID x \<notin> set (so_pendingDel s)" using assms(4) unfolding sound_def by blast
        then show ?thesis using q p si unfolding sound_index_def by blast
      qed
    qed
    from s1 s2 s3 show ?thesis unfolding sound_def by blast
  qed
  ultimately show ?thesis by blast
qed

text \<open>The operations that only change the index, and those that delete objects.\<close>

lemma sound_index_only:
  assumes "sound s" "sound_index m" "\<And>p x. file_entry m p x \<Longrightarrow> \<exists>q y. file_entry (so_index s) q y \<and> ve_ID y = ve_ID x"
    "so_index s' = m" "so_pendingDel s' = so_pendingDel s"
  shows "sound s'"
  unfolding sound_def assms(4,5)
proof (intro conjI)
  show "sound_index m" "\<forall>i \<in> set (so_pendingDel s). object_id i" using assms(1,2) by (simp_all add: sound_def)
  show "\<forall>p e. file_entry m p e \<longrightarrow> ve_ID e \<notin> set (so_pendingDel s)"
    using assms(1,3) unfolding sound_def by metis
qed

lemma move_tree:
  assumes "sound s" "store_move src dst s = (None, s')"
  shows "file_tree C k s' = spec_move src dst (file_tree C k s) \<and> sound s'"
proof -
  obtain e where e: "fmlookup (so_index s) src = Some e"
    using assms(2) by (auto simp: store_move_def split: option.splits)
  let ?ps = "map fst (sorted_entries (\<lambda>p _. HasPrefix p (src @ ''/'')) (so_index s))"
  define m where "m = (if 0 \<le> ve_Size e then so_index s else move_entries dst (src @ ''/'') ?ps (so_index s))"
  have s': "s' = s\<lparr>so_index := fmdrop src (fmupd dst e m), so_dirty := True\<rparr>"
    using assms(2) e by (auto simp: store_move_def m_def Let_def)
  note ok = sorted_entries_ok [of "\<lambda>p. HasPrefix p (src @ ''/'')" "so_index s"]
  let ?f = "node_of C k s"
  have f: "node_of C k s' = ?f" by (rule node_of_same) (simp add: s')
  have ps: "map fst (sorted_entries (\<lambda>p _. HasPrefix p (src @ ''/'')) (file_tree C k s)) = ?ps"
    unfolding sorted_entries_keys by (simp add: file_tree_def)
  have m: "fmmap ?f m = (if ?f e \<noteq> DirN then file_tree C k s
      else move_entries dst (src @ ''/'') ?ps (file_tree C k s))"
  proof -
    have "fmmap ?f (move_entries dst (src @ ''/'') ?ps (so_index s)) =
        move_entries dst (src @ ''/'') ?ps (fmmap ?f (so_index s))" by (rule move_entries_map [OF ok])
    then show ?thesis by (simp add: m_def file_tree_def)
  qed
  have "fmlookup (file_tree C k s) src = Some (?f e)" by (simp add: file_tree_def e)
  then have "spec_move src dst (file_tree C k s) = fmdrop src (fmupd dst (?f e) (fmmap ?f m))"
    by (simp add: spec_move_def Let_def ps m)
  also have "\<dots> = file_tree C k s'" by (simp add: file_tree_def f) (simp add: s' fmmap_upd fmmap_drop)
  finally have t: "file_tree C k s' = spec_move src dst (file_tree C k s)" ..
  have si: "sound_index (so_index s)" using assms(1) by (simp add: sound_def)
  have range: "\<exists>q. fmlookup (so_index s) q = Some x" if "fmlookup m p = Some x" for p x
    using that move_entries_range [OF ok] by (auto simp: m_def split: if_splits)
  have "sound_index (fmdrop src (fmupd dst e m))"
  proof (cases "0 \<le> ve_Size e")
    case True
    then show ?thesis using sound_index_shift [OF si e] by (simp add: m_def)
  next
    case False
    then have "sound_index m" using move_entries_sound [OF si ok] by (simp add: m_def)
    then show ?thesis using False by (simp add: sound_index_drop sound_index_dir)
  qed
  moreover have "\<exists>q y. file_entry (so_index s) q y \<and> ve_ID y = ve_ID x" if x: "file_entry (fmdrop src (fmupd dst e m)) p x" for p x
  proof -
    have "x = e \<or> fmlookup m p = Some x" "0 \<le> ve_Size x" using x by (auto simp: file_entry_def split: if_splits)
    then have "\<exists>q. fmlookup (so_index s) q = Some x" using e range by blast
    then show ?thesis using \<open>0 \<le> ve_Size x\<close> unfolding file_entry_def by blast
  qed
  ultimately have "sound s'" using sound_index_only [OF assms(1)] by (simp add: s')
  with t show ?thesis by blast
qed

lemma mkdir_tree:
  assumes "sound s" "store_mkdir now path s = (None, s')"
  shows "file_tree C k s' = fmupd path DirN (file_tree C k s) \<and> sound s'"
proof -
  define d where "d = \<lparr>ve_ID = [], ve_Size = -1, ve_MTime = now, ve_Blocks = 0\<rparr>"
  have s': "s' = s\<lparr>so_index := fmupd path d (so_index s), so_dirty := True\<rparr>"
    using assms(2) by (auto simp: store_mkdir_def d_def split: if_splits)
  have f: "node_of C k s' = node_of C k s" by (rule node_of_same) (simp add: s')
  have d: "node_of C k s d = DirN" by (simp add: d_def)
  have "sound s'"
    by (rule sound_index_only [OF assms(1), of "fmupd path d (so_index s)"])
      (use assms(1) in \<open>auto simp: s' sound_def sound_index_dir file_entry_def d_def split: if_splits\<close>)
  then show ?thesis by (simp add: file_tree_def f) (simp add: s' fmmap_upd d)
qed

lemma node_of_entry:
  assumes "ve_Size e' = ve_Size e" "ve_ID e' = ve_ID e"
  shows "node_of C k s e' = node_of C k s e"
  unfolding node_of_def read_entry_def assms ..

lemma touch_tree:
  assumes "sound s" "fmlookup (so_index s) path = Some e" "store_touch C (Some k) now rnd io path s = (None, s')"
  shows "file_tree C k s' = file_tree C k s \<and> sound s'"
proof -
  let ?e = "e\<lparr>ve_MTime := now\<rparr>"
  have e: "0 \<le> ve_Size e" and s': "s' = s\<lparr>so_index := fmupd path ?e (so_index s), so_dirty := True\<rparr>"
    using assms(2,3) by (auto simp: store_touch_def split: if_splits)
  have f: "node_of C k s' = node_of C k s" by (rule node_of_same) (simp add: s')
  have "node_of C k s ?e = node_of C k s e" by (rule node_of_entry) simp_all
  then have "fmmap (node_of C k s) (fmupd path ?e (so_index s)) = fmmap (node_of C k s) (so_index s)"
    by (intro fmap_ext) (auto simp: assms(2))
  then have t: "file_tree C k s' = file_tree C k s" by (simp add: file_tree_def f) (simp add: s')
  have "sound_index (so_index s)" using assms(1) by (simp add: sound_def)
  then have si: "sound_index (fmupd path ?e (so_index s))"
    by (rule sound_index_touch) (use assms(2) e in auto)
  have "sound s'"
    by (rule sound_index_only [OF assms(1) si])
      (use assms(2) e in \<open>auto simp: s' file_entry_def split: if_splits intro: exI [of _ path]\<close>)
  with t show ?thesis by blast
qed

lemma spec_remove_file:
  "x \<noteq> DirN \<Longrightarrow> fmlookup m path = Some x \<Longrightarrow> spec_remove path m = fmdrop path m"
  by (cases x) (simp_all add: spec_remove_def)

lemma remove_tree:
  assumes "sound s" "store_remove (Some k) path s = (None, s')"
  shows "file_tree C k s' = spec_remove path (file_tree C k s) \<and> sound s'"
proof -
  obtain e where e: "fmlookup (so_index s) path = Some e"
    using assms(2) by (auto simp: store_remove_def split: option.splits)
  let ?m = "so_index s" and ?f = "node_of C k s"
  let ?below = "sorted_entries (\<lambda>p _. HasPrefix p (path @ ''/'')) ?m"
  define ids where "ids = (if 0 \<le> ve_Size e then [ve_ID e]
      else map (\<lambda>(p, en). ve_ID en) (filter (\<lambda>(p, en). 0 \<le> ve_Size en) ?below))"
  define m where "m = (if 0 \<le> ve_Size e then fmdrop path ?m else fmdrop path (fmdrop_set (fst ` set ?below) ?m))"
  have s': "s' = fold deleteObject ids (s\<lparr>so_index := m, so_dirty := True\<rparr>)"
    using assms(2) e by (cases "0 \<le> ve_Size e") (simp_all add: store_remove_def ids_def m_def Let_def)
  have si: "sound_index ?m" using assms(1) by (simp add: sound_def)
  have below: "fst ` set ?below = {p. fmlookup ?m p \<noteq> None \<and> HasPrefix p (path @ ''/'')}"
    "(p, x) \<in> set ?below \<longleftrightarrow> fmlookup ?m p = Some x \<and> HasPrefix p (path @ ''/'')" for p x
    by (force simp: sorted_entries_def sorted_list_of_fset.rep_eq fmlookup_dom_iff)+
  have sub: "fmlookup m p = Some x \<Longrightarrow> fmlookup ?m p = Some x \<and> p \<noteq> path \<and>
      (ve_Size e < 0 \<longrightarrow> \<not> HasPrefix p (path @ ''/''))" for p x
    by (auto simp: m_def below(1) split: if_splits)
  have keep: "ve_ID x \<notin> set ids" if "fmlookup m p = Some x" "0 \<le> ve_Size x" for p x
  proof
    assume "ve_ID x \<in> set ids"
    then obtain q y where "file_entry ?m q y" "ve_ID y = ve_ID x" "q = path \<or> ve_Size e < 0 \<and> HasPrefix q (path @ ''/'')"
      using e by (auto simp: ids_def below(2) file_entry_def split: if_splits)
    moreover have "file_entry ?m p x" using sub [OF that(1)] that(2) by (simp add: file_entry_def)
    ultimately show False using si sub [OF that(1)] unfolding sound_index_def by metis
  qed
  have f: "node_of C k s' x = ?f x" if x: "fmlookup m p = Some x" for p x
  proof (rule node_of_frame)
    assume x0: "0 \<le> ve_Size x"
    have "object_id (ve_ID x)" using si sub [OF x] x0 unfolding sound_index_def file_entry_def by blast
    then show "fmlookup (so_objects s') (ve_ID x) = fmlookup (so_objects s) (ve_ID x)"
      using keep [OF x x0] by (simp add: s' fold_deleteObject_lookup)
  qed
  have "file_tree C k s' = fmmap ?f m"
    unfolding file_tree_def using fmmap_cong [of m, OF f] by (simp add: s')
  also have "\<dots> = spec_remove path (file_tree C k s)"
  proof (cases "0 \<le> ve_Size e")
    case True
    then have "?f e \<noteq> DirN" "fmlookup (file_tree C k s) path = Some (?f e)" by (simp_all add: file_tree_def e)
    then have "spec_remove path (file_tree C k s) = fmdrop path (file_tree C k s)"
      by (intro spec_remove_file)
    then show ?thesis using True by (simp add: m_def file_tree_def)
  next
    case False
    then have "?f e = DirN" by simp
    then have "fmlookup (file_tree C k s) path = Some DirN" by (simp add: file_tree_def e)
    then have "spec_remove path (file_tree C k s) = fmdrop path (fmfilter (\<lambda>p. \<not> HasPrefix p (path @ ''/'')) (file_tree C k s))"
      by (simp add: spec_remove_def)
    also have "\<dots> = fmmap ?f m"
    proof (rule fmap_ext)
      fix p
      show "fmlookup (fmdrop path (fmfilter (\<lambda>p. \<not> HasPrefix p (path @ ''/'')) (file_tree C k s))) p = fmlookup (fmmap ?f m) p"
        using False by (cases "fmlookup ?m p") (auto simp: m_def file_tree_def below(1))
    qed
    finally show ?thesis ..
  qed
  finally have t: "file_tree C k s' = spec_remove path (file_tree C k s)" .
  have "sound_index m"
    unfolding sound_index_def
  proof (intro conjI allI impI)
    fix p q x y
    assume "file_entry m p x" "file_entry m q y" "ve_ID x = ve_ID y"
    then show "p = q" using si sub unfolding sound_index_def file_entry_def by meson
  next
    fix p x
    assume "file_entry m p x"
    then show "object_id (ve_ID x)" using si sub unfolding sound_index_def file_entry_def by meson
  qed
  then have "sound s'"
    using sound_index_only [OF assms(1), of m] sub by (fastforce simp: s' file_entry_def)
  with t show ?thesis by blast
qed

lemma flush_tree:
  assumes "sound s" "store_flush C X nonce io s = (None, s')"
  shows "file_tree C k s' = file_tree C k s \<and> sound s'"
proof (cases "so_dirty s")
  case False
  then show ?thesis using assms by (auto simp: store_flush_def split: option.splits)
next
  case True
  then obtain blob where s': "s' = (fold deleteObject (so_pendingDel s)
      (s\<lparr>so_indexFile := Some blob, so_dirty := False\<rparr>))\<lparr>so_pendingDel := []\<rparr>"
    using assms(2) by (auto simp: store_flush_def split: option.splits)
  have ix: "so_index s' = so_index s" by (simp add: s')
  have "node_of C k s' x = node_of C k s x" if x: "fmlookup (so_index s) p = Some x" for p x
  proof (rule node_of_frame)
    assume x0: "0 \<le> ve_Size x"
    then have "object_id (ve_ID x)" "ve_ID x \<notin> set (so_pendingDel s)"
      using assms(1) x unfolding sound_def sound_index_def file_entry_def by blast+
    then show "fmlookup (so_objects s') (ve_ID x) = fmlookup (so_objects s) (ve_ID x)"
      by (simp add: s' fold_deleteObject_lookup)
  qed
  then have "file_tree C k s' = file_tree C k s" unfolding file_tree_def ix by (rule fmmap_cong)
  moreover have "sound s'" using assms(1) by (simp add: sound_def s')
  ultimately show ?thesis by blast
qed

subsection \<open>Runs\<close>

text \<open>Sizes are admissible and the random ids are not in use when they are drawn.\<close>

fun admissible :: "crypto \<Rightarrow> string \<Rightarrow> store_event \<Rightarrow> vaultStore \<Rightarrow> bool" where
  "admissible C k (SvWrite now rnd io path data) s = (key_sized rnd \<and> unused_id rnd s \<and> fits (so_blockSize s) data)"
| "admissible C k (SvCopy now rnd io src dst) s =
     (key_sized rnd \<and> unused_id rnd s \<and>
      (\<forall>data. store_readFile C (Some k) src s = Inr data \<longrightarrow> fits (so_blockSize s) data))"
| "admissible C k (SvTouch now rnd io path) s = (key_sized rnd \<and> unused_id rnd s \<and> fits (so_blockSize s) [])"
| "admissible C k _ s = True"

text \<open>A successful copy or touch is a write, and a failed step changes nothing.\<close>

lemma store_copy_done:
  assumes "store_copy C (Some k) now rnd io src dst s = (None, s')"
  obtains data where "store_readFile C (Some k) src s = Inr data"
    "store_writeFile C (Some k) now rnd io dst data s = (None, s')"
  using assms by (auto simp: store_copy_def split: sum.splits)

lemma writeFile_error: "store_writeFile C mk now rnd io path data s = (Some err, s') \<Longrightarrow> s' = s"
  by (auto simp: store_writeFile_def Let_def split: option.splits sum.splits)

lemma step_error: "store_step C X k e s = (Some err, s') \<Longrightarrow> s' = s"
  by (cases e)
    (auto simp: store_copy_def store_move_def store_mkdir_def store_touch_def store_remove_def store_flush_def Let_def
      dest: writeFile_error split: option.splits sum.splits if_splits prod.splits)

lemma step_tree:
  assumes "sealing C" "sound s" "admissible C k e s" "store_step C X k e s = (None, s')"
  shows "file_tree C k s' = spec_step e (file_tree C k s) \<and> sound s'"
proof (cases e)
  case (SvWrite now rnd io path data)
  then show ?thesis using write_tree [OF assms(1) _ _ assms(2), of rnd data k now io path s'] assms(3,4) by simp
next
  case (SvCopy now rnd io src dst)
  then obtain data where d: "store_readFile C (Some k) src s = Inr data"
    "store_writeFile C (Some k) now rnd io dst data s = (None, s')"
    using assms(4) by (auto elim: store_copy_done)
  then have "file_tree C k s' = spec_write dst data (file_tree C k s) \<and> sound s'"
    using write_tree [OF assms(1) _ _ assms(2) _ d(2)] assms(3) SvCopy by simp
  then show ?thesis using d(1) SvCopy by (simp add: store_readFile_tree)
next
  case (SvTouch now rnd io path)
  show ?thesis
  proof (cases "fmlookup (so_index s) path")
    case None
    then have "store_writeFile C (Some k) now rnd io path [] s = (None, s')"
      using assms(4) SvTouch by (simp add: store_touch_def)
    then have "file_tree C k s' = spec_write path [] (file_tree C k s) \<and> sound s'"
      using write_tree [OF assms(1) _ _ assms(2), of rnd "[]" k now io path s'] assms(3) SvTouch by simp
    then show ?thesis using None SvTouch by (simp add: file_tree_def)
  next
    case (Some e0)
    then show ?thesis using touch_tree [OF assms(2) Some] assms(4) SvTouch by (simp add: file_tree_def)
  qed
next
  case (SvMove src dst)
  then have "store_move src dst s = (None, s')" using assms(4) by simp
  from move_tree [OF assms(2) this] show ?thesis using SvMove by simp
next
  case (SvMkdir now path)
  then have "store_mkdir now path s = (None, s')" using assms(4) by simp
  from mkdir_tree [OF assms(2) this] show ?thesis using SvMkdir by simp
next
  case (SvRemove path)
  then have "store_remove (Some k) path s = (None, s')" using assms(4) by simp
  from remove_tree [OF assms(2) this] show ?thesis using SvRemove by simp
next
  case (SvFlush nonce io)
  then have "store_flush C X nonce io s = (None, s')" using assms(4) by simp
  from flush_tree [OF assms(2) this] show ?thesis using SvFlush by simp
qed

fun store_run :: "crypto \<Rightarrow> index_codec \<Rightarrow> string \<Rightarrow> store_event list \<Rightarrow> vaultStore \<Rightarrow> vaultStore" where
  "store_run C X k [] s = s"
| "store_run C X k (e # es) s = store_run C X k es (snd (store_step C X k e s))"

fun admissible_run :: "crypto \<Rightarrow> index_codec \<Rightarrow> string \<Rightarrow> store_event list \<Rightarrow> vaultStore \<Rightarrow> bool" where
  "admissible_run C X k [] s = True"
| "admissible_run C X k (e # es) s =
     (admissible C k e s \<and> admissible_run C X k es (snd (store_step C X k e s)))"

text \<open>The tree a run leaves: each event that reports success does what it says, the others nothing.\<close>

fun spec_run :: "crypto \<Rightarrow> index_codec \<Rightarrow> string \<Rightarrow> store_event list \<Rightarrow> vaultStore \<Rightarrow> (string, vnode) fmap \<Rightarrow>
   (string, vnode) fmap" where
  "spec_run C X k [] s m = m"
| "spec_run C X k (e # es) s m =
     spec_run C X k es (snd (store_step C X k e s)) (if fst (store_step C X k e s) = None then spec_step e m else m)"

lemma step_sound:
  assumes "sealing C" "sound s" "admissible C k e s"
  shows "sound (snd (store_step C X k e s))"
    "file_tree C k (snd (store_step C X k e s)) =
       (if fst (store_step C X k e s) = None then spec_step e (file_tree C k s) else file_tree C k s)"
proof -
  obtain err s' where st: "store_step C X k e s = (err, s')" by fastforce
  show "sound (snd (store_step C X k e s))"
    "file_tree C k (snd (store_step C X k e s)) =
       (if fst (store_step C X k e s) = None then spec_step e (file_tree C k s) else file_tree C k s)"
    using step_tree [OF assms, of X s'] step_error [of C X k e s _ s'] assms(2) st by (cases err; auto)+
qed

text \<open>
  C4. The encrypted store is a file tree. Start from a sound store and let any writes, copies,
  moves, directory creations, touches, removals and index flushes follow, with any failures of
  the disk and of the random source. The tree one reads afterwards is what the successful
  operations, taken as operations on a plain map from paths to contents, make of the tree at the
  start.
\<close>

theorem store_refines_tree:
  assumes "sealing C" "sound s" "admissible_run C X k evs s"
  shows "file_tree C k (store_run C X k evs s) = spec_run C X k evs s (file_tree C k s)"
  using assms(2,3)
proof (induction evs arbitrary: s)
  case (Cons e es)
  then show ?case using step_sound [OF assms(1) Cons.prems(1)] by simp
qed simp

text \<open>
  C16. The store stays sound. Whatever operations follow one another, with whatever failures, every
  file keeps an object of its own with a proper name, and no file's object is on the list of
  objects to delete.
\<close>

theorem store_stays_sound:
  assumes "sealing C" "sound s" "admissible_run C X k evs s"
  shows "sound (store_run C X k evs s)"
  using assms(2,3)
proof (induction evs arbitrary: s)
  case (Cons e es)
  then show ?case using step_sound [OF assms(1) Cons.prems(1)] by simp
qed simp

subsection \<open>Crashes\<close>

text \<open>
  A crash leaves the disk; the next unlocking loads the index from it (\<open>wrap\<close> is the wrapped index
  key in vault.json). JSON gives back what was encoded.
\<close>

definition codec_ok :: "index_codec \<Rightarrow> bool" where
  "codec_ok X \<longleftrightarrow> (\<forall>m. ix_Unmarshal X (ix_Marshal X m) = Some m)"

definition crash :: "vaultStore \<Rightarrow> vaultStore" where
  "crash s = (newVaultStore (so_blockSize s))\<lparr>so_objects := so_objects s, so_indexFile := so_indexFile s\<rparr>"

definition restart :: "crypto \<Rightarrow> index_codec \<Rightarrow> string \<Rightarrow> string \<Rightarrow> vaultStore \<Rightarrow> string option \<times> vaultStore" where
  "restart C X k wrap s = store_load C X None (\<lambda>_. False) k (Some wrap) (crash s)"

definition disk_index :: "crypto \<Rightarrow> index_codec \<Rightarrow> string \<Rightarrow> vaultStore \<Rightarrow> (string, vaultIndexEntry) fmap option" where
  "disk_index C X dek s =
     (case so_indexFile s of None \<Rightarrow> Some fmempty | Some raw \<Rightarrow> Option.bind (cr_unwrap C dek raw) (ix_Unmarshal X))"

text \<open>
  The store is open under the index key, its disk can be loaded, and an index that is not dirty
  is the one on disk.
\<close>

definition durable :: "crypto \<Rightarrow> index_codec \<Rightarrow> string \<Rightarrow> vaultStore \<Rightarrow> (string, vaultIndexEntry) fmap \<Rightarrow> bool" where
  "durable C X dek s idx \<longleftrightarrow> sound s \<and> so_indexDEK s = Some dek \<and> disk_index C X dek s = Some idx \<and>
     (\<forall>p e. file_entry idx p e \<longrightarrow> object_id (ve_ID e)) \<and> (\<not> so_dirty s \<longrightarrow> idx = so_index s)"

lemma restart_tree:
  assumes "durable C X dek s idx" "cr_unwrap C k wrap = Some dek"
  shows "fst (restart C X k wrap s) = None" "so_index (snd (restart C X k wrap s)) = idx"
    "file_tree C k (snd (restart C X k wrap s)) = fmmap (node_of C k s) idx"
proof -
  let ?s = "sweepOrphans (\<lambda>_. False) ((crash s)\<lparr>so_indexDEK := Some dek, so_index := idx, so_dirty := False\<rparr>)"
  have r: "restart C X k wrap s = (None, ?s)"
    using assms by (auto simp: restart_def store_load_def durable_def disk_index_def crash_def newVaultStore_def
      split: option.splits bind_splits)
  then show "fst (restart C X k wrap s) = None" "so_index (snd (restart C X k wrap s)) = idx"
    by (simp_all add: sweepOrphans_def)
  have "node_of C k ?s e = node_of C k s e" if e: "fmlookup idx p = Some e" for p e
  proof (rule node_of_frame)
    assume "0 \<le> ve_Size e"
    then have "object_id (ve_ID e)" using assms(1) e by (simp add: durable_def file_entry_def)
    moreover have "e |\<in>| fmran idx" using e by (rule fmranI)
    ultimately show "fmlookup (so_objects ?s) (ve_ID e) = fmlookup (so_objects s) (ve_ID e)"
      by (auto simp: sweepOrphans_def crash_def object_id_def)
  qed
  then have "fmmap (node_of C k ?s) idx = fmmap (node_of C k s) idx" by (rule fmmap_cong)
  moreover have "so_index ?s = idx" by (simp add: sweepOrphans_def)
  ultimately show "file_tree C k (snd (restart C X k wrap s)) = fmmap (node_of C k s) idx"
    by (simp only: file_tree_def r snd_conv)
qed

text \<open>A new object's id is not that of an object the index on disk refers to either.\<close>

fun disk_fresh :: "(string, vaultIndexEntry) fmap \<Rightarrow> store_event \<Rightarrow> bool" where
  "disk_fresh idx (SvWrite now rnd io path data) =
     (\<forall>b p e. rnd 0 = Some b \<longrightarrow> file_entry idx p e \<longrightarrow> ve_ID e \<noteq> hex_EncodeToString b)"
| "disk_fresh idx (SvCopy now rnd io src dst) =
     (\<forall>b p e. rnd 0 = Some b \<longrightarrow> file_entry idx p e \<longrightarrow> ve_ID e \<noteq> hex_EncodeToString b)"
| "disk_fresh idx (SvTouch now rnd io path) =
     (\<forall>b p e. rnd 0 = Some b \<longrightarrow> file_entry idx p e \<longrightarrow> ve_ID e \<noteq> hex_EncodeToString b)"
| "disk_fresh idx _ = True"

text \<open>What an event other than a removal and a flush does to the disk: at most a new object.\<close>

lemma writeFile_disk:
  assumes "store_writeFile C mk now rnd io path data s = (None, s')"
  shows "\<exists>b f. rnd 0 = Some b \<and> so_objects s' = fmupd (hex_EncodeToString b) f (so_objects s)"
  using assms
  by (auto simp: store_writeFile_def newObject_def Let_def split: option.splits sum.splits if_splits)

lemma step_disk:
  assumes "store_step C X k e s = (None, s')" "\<forall>p. e \<noteq> SvRemove p" "\<forall>n io. e \<noteq> SvFlush n io" "disk_fresh idx e"
  shows "so_indexFile s' = so_indexFile s \<and> so_indexDEK s' = so_indexDEK s \<and> so_dirty s' \<and>
    (\<forall>p x. file_entry idx p x \<longrightarrow> fmlookup (so_objects s') (ve_ID x) = fmlookup (so_objects s) (ve_ID x))"
proof -
  have w: "so_indexFile s' = so_indexFile s \<and> so_indexDEK s' = so_indexDEK s \<and> so_dirty s' \<and>
    (\<forall>p x. file_entry idx p x \<longrightarrow> fmlookup (so_objects s') (ve_ID x) = fmlookup (so_objects s) (ve_ID x))"
    if w1: "store_writeFile C (Some k) now rnd io path data s = (None, s')"
      and w2: "\<forall>b p e. rnd 0 = Some b \<longrightarrow> file_entry idx p e \<longrightarrow> ve_ID e \<noteq> hex_EncodeToString b"
    for now rnd io path data
  proof -
    obtain b f where b: "rnd 0 = Some b" "so_objects s' = fmupd (hex_EncodeToString b) f (so_objects s)"
      using writeFile_disk [OF w1] by blast
    have "fmlookup (so_objects s') (ve_ID x) = fmlookup (so_objects s) (ve_ID x)" if x: "file_entry idx p x" for p x
    proof -
      have "ve_ID x \<noteq> hex_EncodeToString b" using b(1) x w2 by blast
      then show ?thesis by (simp add: b(2))
    qed
    then show ?thesis using store_writeFile_rest [OF w1] by blast
  qed
  show ?thesis
  proof (cases e)
    case (SvWrite now rnd io path data)
    then show ?thesis using w assms by simp
  next
    case (SvCopy now rnd io src dst)
    then show ?thesis using w assms by (auto elim: store_copy_done)
  next
    case (SvTouch now rnd io path)
    then show ?thesis using w assms
      by (cases "fmlookup (so_index s) path") (auto simp: store_touch_def split: if_splits)
  qed (use assms in \<open>auto simp: store_move_def store_mkdir_def Let_def split: option.splits if_splits\<close>)
qed

lemma flush_disk:
  assumes "sealing C" "codec_ok X" "durable C X dek s idx" "store_flush C X nonce io s = (None, s')"
  shows "durable C X dek s' (so_index s)"
proof -
  have snd: "sound s'" using flush_tree [OF _ assms(4)] assms(3) by (simp add: durable_def)
  have ids: "\<forall>p e. file_entry (so_index s) p e \<longrightarrow> object_id (ve_ID e)"
    using assms(3) unfolding durable_def sound_def sound_index_def by blast
  show ?thesis
  proof (cases "so_dirty s")
    case False
    then show ?thesis using assms(3,4) by (auto simp: store_flush_def durable_def split: option.splits)
  next
    case True
    then obtain blob where b: "gcm_wrap C dek nonce (ix_Marshal X (so_index s)) = Some blob"
      and s': "s' = (fold deleteObject (so_pendingDel s) (s\<lparr>so_indexFile := Some blob, so_dirty := False\<rparr>))\<lparr>so_pendingDel := []\<rparr>"
      using assms(3,4) by (auto simp: store_flush_def durable_def split: option.splits)
    have "disk_index C X dek s' = Some (so_index s)"
      using sealing_wrap(1) [OF assms(1) b] assms(2) by (simp add: disk_index_def s' codec_ok_def)
    then show ?thesis using assms(3) snd ids by (simp add: durable_def s')
  qed
qed

lemma step_durable:
  assumes "sealing C" "codec_ok X" "durable C X dek s idx" "admissible C k e s" "disk_fresh idx e"
    "\<forall>p. e \<noteq> SvRemove p" "store_step C X k e s = (err, s')"
  shows "\<exists>idx'. durable C X dek s' idx' \<and>
     fmmap (node_of C k s') idx' =
       (if err = None \<and> (\<exists>n io. e = SvFlush n io) then file_tree C k s' else fmmap (node_of C k s) idx)"
proof (cases err)
  case (Some x)
  then have "s' = s" using assms(7) step_error by blast
  then show ?thesis using assms(3) Some by auto
next
  case None
  note st = assms(7) [unfolded None]
  have s: "sound s" using assms(3) by (simp add: durable_def)
  show ?thesis
  proof (cases "\<exists>n io. e = SvFlush n io")
    case True
    then obtain n io where e: "e = SvFlush n io" by blast
    then have f: "store_flush C X n io s = (None, s')" using st by simp
    have "so_index s' = so_index s" using f by (auto simp: store_flush_def split: option.splits if_splits)
    then have "file_tree C k s' = fmmap (node_of C k s') (so_index s)" by (simp add: file_tree_def)
    then show ?thesis using flush_disk [OF assms(1-3) f] e None by auto
  next
    case False
    have d: "so_indexFile s' = so_indexFile s" "so_indexDEK s' = so_indexDEK s" "so_dirty s'"
      "\<forall>p x. file_entry idx p x \<longrightarrow> fmlookup (so_objects s') (ve_ID x) = fmlookup (so_objects s) (ve_ID x)"
      using step_disk [OF st assms(6) _ assms(5)] False by blast+
    have "durable C X dek s' idx"
      using assms(3) d(1-3) step_tree [OF assms(1) s assms(4) st] by (simp add: durable_def disk_index_def)
    moreover have "node_of C k s' x = node_of C k s x" if "fmlookup idx p = Some x" for p x
      by (rule node_of_frame) (use d(4) that in \<open>auto simp: file_entry_def\<close>)
    then have "fmmap (node_of C k s') idx = fmmap (node_of C k s) idx" by (rule fmmap_cong)
    ultimately show ?thesis using False by auto
  qed
qed

text \<open>
  Every random id is fresh for the index on disk at that moment; and the tree at the last flush
  that succeeded, \<open>m\<close> where there was none.
\<close>

fun fresh_run :: "crypto \<Rightarrow> index_codec \<Rightarrow> string \<Rightarrow> string \<Rightarrow> store_event list \<Rightarrow> vaultStore \<Rightarrow> bool" where
  "fresh_run C X k dek [] s = True"
| "fresh_run C X k dek (e # es) s =
     (pred_option (\<lambda>idx. disk_fresh idx e) (disk_index C X dek s) \<and>
      fresh_run C X k dek es (snd (store_step C X k e s)))"

fun is_flush :: "store_event \<Rightarrow> bool" where
  "is_flush (SvFlush n io) = True"
| "is_flush _ = False"

fun is_remove :: "store_event \<Rightarrow> bool" where
  "is_remove (SvRemove p) = True"
| "is_remove _ = False"

fun last_flush :: "crypto \<Rightarrow> index_codec \<Rightarrow> string \<Rightarrow> store_event list \<Rightarrow> vaultStore \<Rightarrow> (string, vnode) fmap \<Rightarrow>
   (string, vnode) fmap" where
  "last_flush C X k [] s m = m"
| "last_flush C X k (e # es) s m =
     (let (err, s') = store_step C X k e s
      in last_flush C X k es s' (if err = None \<and> is_flush e then file_tree C k s' else m))"

text \<open>
  C5. A crash shows the last flush. Start from a store that is open and consistent with its
  disk, and let any writes, copies, moves, directory creations, touches and flushes follow, with
  any failures. If the node crashes then, the next unlocking loads without error, and the tree it
  finds is the tree at the moment of the last flush that succeeded, every file with its content
  of that moment: no overwritten, moved or half-written file is lost or mixed. (Removals are
  excluded: see \<open>removed_file_haunts\<close>.)
\<close>

theorem crash_shows_last_flush:
  assumes "sealing C" "codec_ok X" "cr_unwrap C k wrap = Some dek" "durable C X dek s idx"
    "admissible_run C X k evs s" "fresh_run C X k dek evs s" "list_all (\<lambda>e. \<not> is_remove e) evs"
  shows "fst (restart C X k wrap (store_run C X k evs s)) = None \<and>
         file_tree C k (snd (restart C X k wrap (store_run C X k evs s))) =
           last_flush C X k evs s (file_tree C k (snd (restart C X k wrap s)))"
proof -
  have "\<exists>idx'. durable C X dek (store_run C X k evs s) idx' \<and>
      fmmap (node_of C k (store_run C X k evs s)) idx' = last_flush C X k evs s (fmmap (node_of C k s) idx)"
    using assms(4-7)
  proof (induction evs arbitrary: s idx)
    case (Cons e es)
    obtain err s' where st: "store_step C X k e s = (err, s')" by fastforce
    have "disk_fresh idx e" using Cons.prems(1,3) by (simp add: durable_def)
    moreover have "\<forall>p. e \<noteq> SvRemove p" using Cons.prems(4) by auto
    moreover have "(\<exists>n io. e = SvFlush n io) \<longleftrightarrow> is_flush e" by (cases e) auto
    ultimately obtain idx' where i: "durable C X dek s' idx'"
      "fmmap (node_of C k s') idx' = (if err = None \<and> is_flush e then file_tree C k s' else fmmap (node_of C k s) idx)"
      using step_durable [OF assms(1,2) Cons.prems(1) _ _ _ st] Cons.prems(2) by auto
    show ?case using Cons.IH [OF i(1)] Cons.prems st i(2) by simp
  qed auto
  then show ?thesis using restart_tree [OF _ assms(3)] assms(4) by metis
qed

subsection \<open>Backup\<close>

text \<open>Unpacking an archive into the data directory of a node with the same block size.\<close>

definition unpacked :: "nat \<Rightarrow> vault_archive \<Rightarrow> vaultStore" where
  "unpacked B a = (newVaultStore B)\<lparr>so_objects := va_objects a, so_indexFile := va_index a\<rparr>"

lemma node_of_unpacked:
  assumes "object_id (ve_ID e)"
  shows "fmlookup (fmfilter (\<lambda>n. \<not> HasSuffix n ''.tmp'') objects) (ve_ID e) = fmlookup objects (ve_ID e)"
proof -
  have "\<not> HasSuffix (ve_ID e) ''.tmp''"
  proof
    assume "HasSuffix (ve_ID e) ''.tmp''"
    then have "''.tmp'' = drop (length (ve_ID e) - 4) (ve_ID e)" by (simp add: HasSuffix_def numeral_eq_Suc)
    then have "CHR ''.'' \<in> set (drop (length (ve_ID e) - 4) (ve_ID e))" by (metis list.set_intros(1))
    then have "CHR ''.'' \<in> set (ve_ID e)" by (rule in_set_dropD)
    then show False using assms by (simp add: object_id_def)
  qed
  then show ?thesis by simp
qed

text \<open>
  C17. A backup restores the tree. The archive that the backup hands out, unpacked into the data
  directory of another node and opened with the same master key, loads without error and shows
  the tree of the moment of the backup, every file with its content.
\<close>

theorem backup_restores_tree:
  assumes "sealing C" "codec_ok X" "durable C X dek s idx" "cr_unwrap C k wrap = Some dek"
    "handleVaultBackup C X now r nonce io v s = (Reply a, s')"
    "store_load C X None (\<lambda>_. False) k (Some wrap) (unpacked B a) = (err, t)"
  shows "err = None \<and> file_tree C k t = file_tree C k s"
proof -
  have f: "store_flush C X nonce io s = (None, s')"
    and a: "va_index a = so_indexFile s'" "va_objects a = fmfilter (\<lambda>n. \<not> HasSuffix n ''.tmp'') (so_objects s')"
    using assms(5) by (auto simp: handleVaultBackup_def split: if_splits prod.splits option.splits)
  have d: "durable C X dek s' (so_index s)" by (rule flush_disk [OF assms(1-3) f])
  let ?idx = "so_index s"
  let ?t = "sweepOrphans (\<lambda>_. False) ((unpacked B a)\<lparr>so_indexDEK := Some dek, so_index := ?idx, so_dirty := False\<rparr>)"
  have "disk_index C X dek (unpacked B a) = Some ?idx"
    using d by (simp add: durable_def disk_index_def unpacked_def a(1))
  then have t: "err = None" "t = ?t"
    using assms(4,6) by (auto simp: store_load_def disk_index_def unpacked_def newVaultStore_def
      split: option.splits bind_splits)
  have n: "node_of C k t e = node_of C k s' e" if e: "fmlookup ?idx p = Some e" for p e
  proof (rule node_of_frame)
    assume "0 \<le> ve_Size e"
    then have i: "object_id (ve_ID e)" using d e by (simp add: durable_def file_entry_def)
    moreover have "e |\<in>| fmran ?idx" using e by (rule fmranI)
    moreover from i have "fmlookup (va_objects a) (ve_ID e) = fmlookup (so_objects s') (ve_ID e)"
      unfolding a(2) by (rule node_of_unpacked)
    ultimately show "fmlookup (so_objects t) (ve_ID e) = fmlookup (so_objects s') (ve_ID e)"
      by (auto simp: t sweepOrphans_def unpacked_def object_id_def)
  qed
  have "so_index t = ?idx" by (simp add: t(2) sweepOrphans_def)
  then have "file_tree C k t = fmmap (node_of C k s') ?idx"
    unfolding file_tree_def using fmmap_cong [of ?idx "node_of C k t" "node_of C k s'"] n by metis
  also have "\<dots> = file_tree C k s"
  proof -
    have "so_index s' = ?idx" using f by (auto simp: store_flush_def split: option.splits if_splits)
    moreover have "sound s" using assms(3) by (simp add: durable_def)
    ultimately show ?thesis using flush_tree [OF _ f] by (metis file_tree_def)
  qed
  finally show ?thesis using t(1) by blast
qed

end
