(* ===== verification/StoreFaults.thy ===== *)
theory StoreFaults
  imports StoreCrash
begin

text \<open>
  Where the encrypted store and the migration (cmd/irix-node/vault_store.go, vault_migrate.go)
  lose data: each theorem is about the code as it is.
\<close>

subsection \<open>Appending to an empty file\<close>

text \<open>
  Data appended to an empty file is dropped. An empty file has length 0, a multiple of the
  block size, but its object has one block already; the append computes that no block is
  needed, reports success with the old length and writes nothing, for any data that fits a block.
\<close>

theorem append_to_empty_is_lost:
  assumes "sealing C" "key_sized rnd" "fits (so_blockSize s) []" "length data \<le> so_blockSize s"
    "store_writeFile C (Some k) now rnd io path [] s = (None, s')"
  shows "store_appendFile C (Some k) now2 rnd2 io2 aio path data s' = (Inr 0, s') \<and>
         store_readFile C (Some k) path s' = Inr []"
proof -
  obtain k' b i e fl d where k': "Some k = Some k'" and i: "rnd 0 = Some b" "i = hex_EncodeToString b"
    and e: "ve_ID e = i" "ve_Size e = int (length ([] :: string))"
    and h: "holds C k' (so_blockSize s) (map (data_block (so_blockSize s) []) [0..<blocks_for (so_blockSize s) []]) fl"
    and ob: "so_objects s' = fmupd i fl (so_objects s)" and "fmlookup (so_index s') path = Some e"
    and d: "ve_Size d = -1" and ix: "so_index s' = index_write path e d (so_index s)"
    by (rule store_writeFile_done [OF assms(1-3,5)])
  have B: "0 < so_blockSize s" using assms(3) by (simp add: fits_def)
  then have n: "blocks_for (so_blockSize s) [] = 1" by (simp add: blocks_for_def)
  have f: "fmlookup (so_objects s') (ve_ID e) = Some fl" by (simp add: ob e)
  obtain hd where hd: "readHeader C k (ve_ID e) s' = Inr hd" "oh_blockCount hd = 1"
    using readHeader_holds [OF h, of s' "ve_ID e"] f k' n by auto
  have "(nat (int (length data)) + so_blockSize s - 1) div so_blockSize s \<le> 1"
  proof -
    have "length data + so_blockSize s - 1 < 2 * so_blockSize s" using assms(4) B by linarith
    then show ?thesis using B by (simp add: div_less_iff_less_mult less_Suc_eq_le [symmetric])
  qed
  then have "append_blocks C rnd2 aio now2 path e hd data s' = (Inr 0, s')"
    using store_writeFile_rest(5) [OF assms(5)] e hd(2) by (simp add: append_blocks_def Let_def)
  then have "store_appendFile C (Some k) now2 rnd2 io2 aio path data s' = (Inr 0, s')"
    using e hd(1) by (simp add: store_appendFile_def ix)
  moreover have "read_entry C k e s' = Inr []" using read_entry_data [OF h f] e k' by simp
  ultimately show ?thesis by (simp add: store_readFile_def ix)
qed

subsection \<open>Removal and crash\<close>

lemma disk_index_same: "so_indexFile s' = so_indexFile s \<Longrightarrow> disk_index C X dek s' = disk_index C X dek s"
  by (simp add: disk_index_def)

text \<open>
  A removed file haunts the tree. Removal deletes the object at once, before the index is
  written; after a crash within the next second the file is listed again and cannot be read.
  (Overwriting avoids this by deferring the deletion.)
\<close>

theorem removed_file_haunts:
  assumes "durable C X dek s idx" "cr_unwrap C k wrap = Some dek"
    "file_entry idx path e" "file_entry (so_index s) path e" "store_remove (Some k) path s = (None, s')"
  shows "fst (restart C X k wrap s') = None \<and>
         fmlookup (file_tree C k (snd (restart C X k wrap s'))) path = Some BrokenN"
proof -
  have s': "s' = deleteObject (ve_ID e) (s\<lparr>so_index := fmdrop path (so_index s), so_dirty := True\<rparr>)"
    using assms(4,5) by (simp add: store_remove_def file_entry_def)
  have "sound s'" using remove_tree [OF _ assms(5)] assms(1) by (simp add: durable_def)
  then have d: "durable C X dek s' idx"
    using assms(1) by (simp add: durable_def s' disk_index_def)
  have id: "object_id (ve_ID e)" using assms(1,3) unfolding durable_def by blast
  then have "fmlookup (so_objects s') (ve_ID e) = None" by (simp add: s' deleteObject_lookup)
  then have "node_of C k s' e = BrokenN"
    using assms(3) by (simp add: node_of_def read_entry_def readHeader_def file_entry_def)
  then show ?thesis
    using restart_tree [OF d assms(2)] assms(3) by (simp add: file_entry_def)
qed

subsection \<open>A failed flush at locking\<close>

lemma store_load_done:
  assumes "store_load C X None isTmp k (Some wrap) s = (None, s')" "cr_unwrap C k wrap = Some dek"
    "disk_index C X dek s = Some idx"
  shows "s' = sweepOrphans isTmp (s\<lparr>so_indexDEK := Some dek, so_index := idx, so_dirty := False\<rparr>)"
proof -
  have c: "t\<lparr>so_dirty := b, so_index := m\<rparr> = t\<lparr>so_index := m, so_dirty := b\<rparr>" for t :: vaultStore and b m
    by (cases t) simp
  show ?thesis
    using assms by (cases "so_indexFile s") (auto simp: store_load_def disk_index_def c Let_def split: option.splits bind_splits)
qed

text \<open>
  A failed flush at locking destroys a file later. A file is overwritten; locking tries to
  write the index, fails, and clears the keys all the same, but the list of objects to delete
  stays. The next unlocking reads the old index, and the file has its old content back. The
  first flush after any change then deletes that content: the index refers to an object that is
  gone.
\<close>

theorem failed_flush_destroys_file:
  assumes "durable C X dek s idx" "cr_unwrap C k wrap = Some dek"
    "file_entry idx path e" "file_entry (so_index s) path e"
    "store_writeFile C (Some k) now rnd None path data s = (None, s1)"
    "\<forall>b p x. rnd 0 = Some b \<longrightarrow> file_entry idx p x \<longrightarrow> ve_ID x \<noteq> hex_EncodeToString b"
    "s2 = lock_store C X nonce (Some err) s1"
    "store_load C X None (\<lambda>_. False) k (Some wrap) s2 = (None, s3)"
    "store_mkdir now2 q s3 = (None, s4)" "store_flush C X nonce2 None s4 = (None, s5)"
  shows "store_readFile C (Some k) path s3 = store_readFile C (Some k) path s \<and>
         (\<exists>msg. store_readFile C (Some k) path s5 = Inl msg)"
proof -
  have e: "fmlookup idx path = Some e" "0 \<le> ve_Size e" "fmlookup (so_index s) path = Some e" "object_id (ve_ID e)"
    using assms(1,3,4) unfolding durable_def file_entry_def by blast+
  note r = store_writeFile_rest [OF assms(5)]
  obtain b f where b: "rnd 0 = Some b" "so_objects s1 = fmupd (hex_EncodeToString b) f (so_objects s)"
    using writeFile_disk [OF assms(5)] by blast
  have same: "fmlookup (so_objects s1) (ve_ID e) = fmlookup (so_objects s) (ve_ID e)"
  proof -
    have "ve_ID e \<noteq> hex_EncodeToString b" using assms(3,6) b(1) by blast
    then show ?thesis by (simp add: b(2))
  qed
  have "fst (store_flush C X nonce (Some err) s1) \<noteq> None" "snd (store_flush C X nonce (Some err) s1) = s1"
    using r(2) by (auto simp: store_flush_def split: option.split)
  then have s2: "s2 = zeroKeys s1" by (simp add: assms(7) lock_store_def)
  have di: "disk_index C X dek s2 = Some idx" using assms(1) r(3) by (simp add: disk_index_def s2 zeroKeys_def durable_def)
  have s3: "s3 = sweepOrphans (\<lambda>_. False) (s2\<lparr>so_indexDEK := Some dek, so_index := idx, so_dirty := False\<rparr>)"
    by (rule store_load_done [OF assms(8,2) di])
  have "e |\<in>| fmran idx" using e(1) by (rule fmranI)
  then have o3: "fmlookup (so_objects s3) (ve_ID e) = fmlookup (so_objects s) (ve_ID e)"
    using same e(4) by (auto simp: s3 s2 sweepOrphans_def zeroKeys_def object_id_def)
  have i3: "fmlookup (so_index s3) path = Some e" by (simp add: s3 sweepOrphans_def e(1))
  have p3: "ve_ID e \<in> set (so_pendingDel s3)" using r(1) e by (simp add: s3 s2 sweepOrphans_def zeroKeys_def)
  have s4: "so_dirty s4" "so_pendingDel s4 = so_pendingDel s3" "fmlookup (so_index s4) path = Some e"
    using assms(9) i3 by (auto simp: store_mkdir_def split: if_splits)
  obtain blob where s5: "s5 = (fold deleteObject (so_pendingDel s4) (s4\<lparr>so_indexFile := Some blob, so_dirty := False\<rparr>))\<lparr>so_pendingDel := []\<rparr>"
    using assms(10) s4(1) by (auto simp: store_flush_def split: option.splits)
  have "fmlookup (so_objects s5) (ve_ID e) = None"
    using p3 s4(2) e(4) by (simp add: s5 fold_deleteObject_lookup)
  moreover have "fmlookup (so_index s5) path = Some e" by (simp add: s5 s4(3))
  ultimately have "store_readFile C (Some k) path s5 = Inl ''no such object''"
    using e(2) by (simp add: store_readFile_def read_entry_def readHeader_def)
  moreover have "store_readFile C (Some k) path s3 = store_readFile C (Some k) path s"
    using read_entry_frame [OF o3] by (simp add: store_readFile_def i3 e(3))
  ultimately show ?thesis by blast
qed

subsection \<open>Migrating the instance list\<close>

lemma the_migration_set [simp]: "the_migration (v\<lparr>vt_migration := Some m\<rparr>) = m"
  by (simp add: the_migration_def)

text \<open>
  Migration can lose the instance list. Phase one writes the encrypted object, saves the
  mark in vault.json and deletes instances.json, but the index that leads to the object is
  written up to a second later. After a crash in between the mark is on disk, the plaintext is
  gone and the index does not know the list; loading sweeps the object away, and the mark keeps
  the migration from running again.
\<close>

theorem migration_loses_instance_list:
  assumes "sealing C" "durable C X dek s idx" "cr_unwrap C k wrap = Some dek" "vt_masterKey v = Some k"
    "fmlookup idx systemInstancesPath = None" "store_stat systemInstancesPath s = None"
    "\<not> mg_InstancesDone (the_migration v)" "key_sized rnd" "unused_id rnd s" "fits (so_blockSize s) data"
    "migrateInstancesJSON C now rnd None None None (PlainText data) v s = (None, v', s', plain)"
  shows "plain = PlainAbsent \<and> store_readFile C (Some k) systemInstancesPath s' = Inr data \<and>
         (\<exists>f m. vt_disk v' = Some f \<and> ff_Migration f = Some m \<and> mg_InstancesDone m) \<and>
         fst (restart C X k wrap s') = None \<and> store_stat systemInstancesPath (snd (restart C X k wrap s')) = None"
proof -
  obtain s1 where w: "store_writeFile C (Some k) (unix now) rnd None systemInstancesPath data s = (None, s1)"
    using assms(4,6,7,11)
    by (cases "store_writeFile C (Some k) (unix now) rnd None systemInstancesPath data s"; cases "fst (store_writeFile C (Some k) (unix now) rnd None systemInstancesPath data s)")
      (auto simp: migrateInstancesJSON_def Let_def)
  have r: "s' = s1" "plain = PlainAbsent"
    "markInstancesDone now None (v\<lparr>vt_migration := Some (the_migration v)\<rparr>) = (None, v')"
    using assms(4,6,7,11) w by (auto simp: migrateInstancesJSON_def Let_def split: prod.splits option.splits)
  have "sound s" using assms(2) by (simp add: durable_def)
  from write_tree [OF assms(1,8,10) this assms(9) w]
  have t: "file_tree C k s1 = spec_write systemInstancesPath data (file_tree C k s)" "sound s1" by blast+
  have "logicalParent systemInstancesPath = ''/system''" by code_simp
  then have rd: "store_readFile C (Some k) systemInstancesPath s' = Inr data"
    unfolding r(1) store_readFile_tree t(1) spec_write_def by (simp add: Let_def systemInstancesPath_def)
  have "durable C X dek s1 idx"
    using assms(2) t(2) store_writeFile_rest [OF w] by (simp add: durable_def disk_index_def)
  from restart_tree [OF this assms(3)]
  have rs: "fst (restart C X k wrap s') = None" "store_stat systemInstancesPath (snd (restart C X k wrap s')) = None"
    using assms(5) by (simp_all add: r(1) store_stat_def)
  have "\<exists>f m. vt_disk v' = Some f \<and> ff_Migration f = Some m \<and> mg_InstancesDone m"
    using r(3) by (auto simp: markInstancesDone_def vault_save_def Let_def split: if_splits)
  with rd rs r(2) show ?thesis by blast
qed

text \<open>
  A cursor of a vanished instance ends the migration. Where the saved cursor names an
  instance that is not among those to migrate any more, the loop skips every instance while it
  looks for it; the migration is recorded as complete and no file was encrypted.
\<close>

theorem stale_cursor_skips_everything:
  assumes "vt_migration v = Some m" "mg_InstancesDone m" "mg_Cursor m = Some c" "mc_UUID c \<noteq> []"
    "mc_UUID c \<notin> fst ` set (migrate_cands insts)" "vt_masterKey v = Some k" "\<not> vt_migrating v" "mg_CompletedAt m = None"
    "startMigration C X R E insts plain v s = (v', s', plain')"
  shows "s' = s \<and> migrationPhase v' = 3"
proof -
  have skip: "migrate_all C X E u False cs v s = (None, v, s)" if "u \<notin> fst ` set cs" for u cs v s
    using that by (induction cs) auto
  have f: "migrateInstanceFiles C X E insts w s = (None, w, s)" if "vt_migration w = Some m" for w
    using skip [OF assms(5)] assms(3,4) that by (simp add: migrateInstanceFiles_def the_migration_def)
  have "migrateInstancesJSON C (mr_now R) (mr_rnd R) (mr_write R) (mr_mark R) (mr_remove R) plain
      (v\<lparr>vt_migrating := True\<rparr>) s = (None, v\<lparr>vt_migrating := True\<rparr>, s, plain)"
    using assms(1,2) by (simp add: migrateInstancesJSON_def the_migration_def)
  then have "(v', s', plain') = ((snd (vault_save (mr_end R) (v\<lparr>vt_migrating := True,
      vt_migration := Some (m\<lparr>mg_CompletedAt := Some (mr_now R)\<rparr>)\<rparr>)))\<lparr>vt_migrating := False\<rparr>, s, plain)"
    using assms(1,2,7,8,9) f [of "v\<lparr>vt_migrating := True\<rparr>"]
    by (simp add: startMigration_def runMigration_def migrationPhase_def the_migration_def)
  then show ?thesis
    by (auto simp: migrationPhase_def vault_save_def Let_def split: option.split)
qed

subsection \<open>Files deleted while an instance runs\<close>

lemma encrypt_files_keeps:
  assumes "encrypt_files C mk now rnd io uuid dir i fs s = (None, s')" "fmlookup (so_index s) p = Some e"
    "\<forall>f \<in> set fs. \<forall>rel. Rel dir (pf_path f) = Some rel \<longrightarrow> logicalPath uuid rel \<noteq> p"
  shows "fmlookup (so_index s') p = Some e"
  using assms
proof (induction fs arbitrary: i s)
  case (Cons f fs)
  obtain rel where rel: "Rel dir (pf_path f) = Some rel" using Cons.prems(1) by (auto split: option.splits)
  show ?case
  proof (cases "pf_gone f \<or> unchanged (logicalPath uuid rel) f s")
    case True
    then show ?thesis using Cons rel by (simp add: Let_def)
  next
    case False
    then obtain data s1 where w: "store_writeFile C mk now (rnd i) (io i) (logicalPath uuid rel) data s = (None, s1)"
      and r: "encrypt_files C mk now rnd io uuid dir (Suc i) fs s1 = (None, s')"
      using Cons.prems(1) rel by (auto simp: Let_def split: option.splits prod.splits)
    have "logicalPath uuid rel \<noteq> p" using Cons.prems(3) rel by simp
    then have "fmlookup (so_index s1) p = Some e"
      using w Cons.prems(2)
      by (auto simp: store_writeFile_def Let_def split: option.splits sum.splits prod.splits if_splits dest!: newObject_frame)
    then show ?thesis using Cons.IH [OF r] Cons.prems(3) by simp
  qed
qed simp

lemma materialize_files_all:
  assumes "materialize_files C mk io uuid dir ps s = (None, out)" "(p, e) \<in> set ps"
  shows "\<exists>data. store_readFile C mk p s = Inr data \<and>
    (Join [dir, TrimPrefix (TrimPrefix p (''/'' @ uuid @ ''/'')) ''/''], data) \<in> set out"
  using assms
proof (induction ps arbitrary: out)
  case (Cons q ps)
  obtain p1 e1 where q: "q = (p1, e1)" by (cases q)
  obtain data out' where d: "store_readFile C mk p1 s = Inr data"
    "materialize_files C mk io uuid dir ps s = (None, out')"
    "out = (Join [dir, TrimPrefix (TrimPrefix p1 (''/'' @ uuid @ ''/'')) ''/''], data) # out'"
    using Cons.prems(1) by (auto simp: q Let_def split: sum.splits option.splits prod.splits)
  show ?case using Cons.IH [OF d(2)] Cons.prems(2) d by (auto simp: q)
qed simp

text \<open>
  A file deleted while the instance runs comes back. Taking the tree back after a stop
  encrypts the files it finds and never drops index entries; a file that the instance deleted
  keeps its entry, and the next start writes it out again with its old content.
\<close>

theorem deleted_file_comes_back:
  assumes "encryptBack C mk now rnd io uuid dir (Some tree) s = (None, s', rest)"
    "file_entry (so_index s) p e" "HasPrefix p (''/'' @ uuid @ ''/'')"
    "\<forall>f \<in> set tree. \<forall>rel. Rel dir (pf_path f) = Some rel \<longrightarrow> logicalPath uuid rel \<noteq> p"
    "store_materialize C mk io2 uuid dir s' = (None, out)"
  shows "\<exists>data. store_readFile C mk p s' = Inr data \<and>
    (Join [dir, TrimPrefix (TrimPrefix p (''/'' @ uuid @ ''/'')) ''/''], data) \<in> set out"
proof -
  have "encrypt_files C mk now rnd io uuid dir 0 tree s = (None, s')"
    using assms(1) by (auto simp: encryptBack_def split: prod.splits option.splits)
  then have "fmlookup (so_index s') p = Some e"
    using encrypt_files_keeps assms(2,4) by (simp add: file_entry_def)
  then have "(p, e) \<in> set (walkPrefix (''/'' @ uuid @ ''/'') s')"
    using assms(2,3) by (force simp: walkPrefix_def sorted_entries_def sorted_list_of_fset.rep_eq fmlookup_dom_iff file_entry_def)
  then show ?thesis using materialize_files_all assms(5) by (simp add: store_materialize_def)
qed

end
