(* ===== verification/StoreExamples.thy ===== *)
theory StoreExamples
  imports StoreFaults
begin

text \<open>
  A concrete cipher and a concrete index format that satisfy what the theorems on the encrypted
  store (cmd/irix-node/vault_store.go) assume of AES-GCM and of JSON, and each theorem applied to
  a small store with blocks of four bytes.
\<close>

subsection \<open>A cipher and an index format\<close>

definition box_tag :: "string \<Rightarrow> string" where
  "box_tag k = take 28 (k @ replicate 28 (CHR ''.''))"

definition box :: crypto where
  "box = \<lparr>cr_hmac = (\<lambda>_ _. [0, 0, 0, 0]), cr_kek = (\<lambda>pw _ _. Some pw),
     cr_wrap = (\<lambda>k n m. Some (box_tag k @ m)),
     cr_unwrap = (\<lambda>k b. if take 28 b = box_tag k then Some (drop 28 b) else None),
     cr_sha = (\<lambda>x. x), cr_b64 = (\<lambda>x. x), cr_unb64 = Some, cr_parse = Some, cr_fingerprint = (\<lambda>x. x),
     cr_strong = (\<lambda>_. True), cr_verify = (\<lambda>_ _ _. True)\<rparr>"

lemma length_box_tag [simp]: "length (box_tag k) = 28"
  by (simp add: box_tag_def)

lemma box_wrap [simp]: "cr_wrap box k n m = Some (box_tag k @ m)"
  by (simp add: box_def)

lemma box_unwrap [simp]: "cr_unwrap box k (box_tag k @ m) = Some m"
  by (simp add: box_def)

lemma box_sealing [simp]: "sealing box"
  by (auto simp: sealing_def authentic_def objectBlockOver_def) (auto simp: box_def split: if_splits)

definition put_string :: "string \<Rightarrow> string" where
  "put_string s = concat (map (\<lambda>c. [CHR ''x'', c]) s) @ ''.''"

fun get_string :: "string \<Rightarrow> (string \<times> string) option" where
  "get_string (c # d # rest) =
     (if c = CHR ''x'' then map_option (\<lambda>(s, r). (d # s, r)) (get_string rest) else Some ([], d # rest))"
| "get_string [c] = Some ([], [])"
| "get_string [] = None"

lemma get_put_string [simp]: "get_string (put_string s @ rest) = Some (s, rest)"
  by (induction s) (cases rest; simp add: put_string_def)+

definition put_int :: "int \<Rightarrow> string" where
  "put_int i = put_string (if i < 0 then CHR ''-'' # replicate (nat (- i)) (CHR ''1'') else replicate (nat i) (CHR ''1''))"

definition get_int :: "string \<Rightarrow> (int \<times> string) option" where
  "get_int t = map_option (\<lambda>(s, r). (case s of c # u \<Rightarrow> if c = CHR ''-'' then - int (length u) else int (length s) | [] \<Rightarrow> 0, r))
     (get_string t)"

lemma get_put_int [simp]: "get_int (put_int i @ rest) = Some (i, rest)"
proof (cases "i \<le> 0")
  case False
  then obtain n where "nat i = Suc n" using gr0_implies_Suc [of "nat i"] by auto
  then show ?thesis using False by (simp add: put_int_def get_int_def)
qed (auto simp: put_int_def get_int_def)

definition put_entry :: "string \<times> vaultIndexEntry \<Rightarrow> string" where
  "put_entry = (\<lambda>(p, e). put_string p @ put_string (ve_ID e) @ put_int (ve_Size e) @ put_int (ve_MTime e) @ put_int (ve_Blocks e))"

definition get_entry :: "string \<Rightarrow> ((string \<times> vaultIndexEntry) \<times> string) option" where
  "get_entry t =
     (case get_string t of None \<Rightarrow> None | Some (p, t) \<Rightarrow>
     (case get_string t of None \<Rightarrow> None | Some (i, t) \<Rightarrow>
     (case get_int t of None \<Rightarrow> None | Some (sz, t) \<Rightarrow>
     (case get_int t of None \<Rightarrow> None | Some (mtime, t) \<Rightarrow>
     (case get_int t of None \<Rightarrow> None | Some (blocks, t) \<Rightarrow>
        Some ((p, \<lparr>ve_ID = i, ve_Size = sz, ve_MTime = mtime, ve_Blocks = blocks\<rparr>), t))))))"

lemma get_put_entry [simp]: "get_entry (put_entry pe @ rest) = Some (pe, rest)"
  by (cases pe) (simp add: put_entry_def get_entry_def)

fun get_entries :: "nat \<Rightarrow> string \<Rightarrow> (string \<times> vaultIndexEntry) list option" where
  "get_entries n [] = Some []"
| "get_entries 0 t = None"
| "get_entries (Suc n) t =
     (case get_entry t of None \<Rightarrow> None | Some (pe, t) \<Rightarrow> map_option ((#) pe) (get_entries n t))"

lemma put_entry_nonempty: "put_entry pe \<noteq> []"
  by (cases pe) (simp add: put_entry_def put_string_def)

lemma get_put_entries: "length pes \<le> n \<Longrightarrow> get_entries n (concat (map put_entry pes)) = Some pes"
proof (induction pes arbitrary: n)
  case (Cons pe pes)
  then obtain m where m: "n = Suc m" "length pes \<le> m" by (cases n) auto
  obtain c t where c: "concat (map put_entry (pe # pes)) = c # t"
    using put_entry_nonempty [of pe] by (cases "put_entry pe") auto
  have "get_entry (c # t) = Some (pe, concat (map put_entry pes))"
    using get_put_entry [of pe "concat (map put_entry pes)"] unfolding c [symmetric] by simp
  then show ?case using Cons.IH [OF m(2)] by (simp only: c m(1) get_entries.simps) simp
qed simp

definition plain_codec :: index_codec where
  "plain_codec = \<lparr>ix_Marshal = (\<lambda>m. concat (map put_entry (sorted_entries (\<lambda>p e. True) m))),
     ix_Unmarshal = (\<lambda>t. map_option fmap_of_list (get_entries (length t) t))\<rparr>"

lemma fmap_of_sorted_entries: "fmap_of_list (sorted_entries (\<lambda>p e. True) m) = m"
proof (rule fmap_ext)
  fix p
  have s: "sorted_entries (\<lambda>p e. True) m = map (\<lambda>p. (p, the (fmlookup m p))) (sorted_list_of_fset (fmdom m))"
    by (simp add: sorted_entries_def)
  show "fmlookup (fmap_of_list (sorted_entries (\<lambda>p e. True) m)) p = fmlookup m p"
    by (cases "fmlookup m p")
      (auto simp: fmlookup_of_list s map_of_map_keys sorted_list_of_fset.rep_eq fmlookup_dom_iff comp_def
        map_of_eq_None_iff intro!: map_of_eq_Some_iff [THEN iffD2])
qed

lemma plain_codec_ok [simp]: "codec_ok plain_codec"
proof -
  have "length pes \<le> length (concat (map put_entry pes))" for pes
  proof (induction pes)
    case (Cons pe pes)
    then show ?case using put_entry_nonempty [of pe] by (cases "put_entry pe") auto
  qed simp
  then show ?thesis by (simp add: codec_ok_def plain_codec_def get_put_entries fmap_of_sorted_entries)
qed

subsection \<open>Operations that succeed\<close>

lemma seal_blocks_box: "(\<And>n. rnd n \<noteq> None) \<Longrightarrow> seal_blocks box dek rnd n bs \<noteq> None"
  by (induction bs arbitrary: n) (auto simp: gcm_wrap_def split: option.split)

lemma write_box:
  assumes "\<And>n. rnd n \<noteq> None"
  shows "fst (store_writeFile box (Some k) now rnd None path data s) = None"
proof -
  have "\<forall>n. \<exists>x. rnd n = Some x" using assms by auto
  moreover from this have "\<exists>x. seal_blocks box dek rnd n bs = Some x" for dek n bs
    using seal_blocks_box [of rnd dek n bs] by auto
  ultimately have "\<exists>x. newObject box k rnd None data s = Inr x"
    by (auto simp: newObject_def gcm_wrap_def Let_def split: option.split) (metis option.distinct(1))+
  then show ?thesis by (auto simp: store_writeFile_def Let_def)
qed

lemma flush_box: "so_indexDEK s = Some dek \<Longrightarrow> fst (store_flush box X (Some n) None s) = None"
  by (auto simp: store_flush_def gcm_wrap_def)

lemma load_box:
  assumes "cr_unwrap C k wrap = Some dek" "disk_index C X dek s = Some idx"
  shows "fst (store_load C X None isTmp k (Some wrap) s) = None"
  using assms by (cases "so_indexFile s") (auto simp: store_load_def disk_index_def Let_def split: option.splits bind_splits)

subsection \<open>A small store\<close>

definition rnd_of :: "char \<Rightarrow> nat \<Rightarrow> string option" where
  "rnd_of c n = Some (replicate 32 c)"

lemma rnd_of [simp]: "rnd_of c n = Some (replicate 32 c)"
  by (simp add: rnd_of_def)

lemma rnd_of_sized [simp]: "key_sized (rnd_of c)"
  by (simp add: key_sized_def)

lemma hex_rnd: "hex_EncodeToString (replicate n c) = concat (replicate n [hex_digit (of_char c div 16), hex_digit (of_char c mod 16)])"
  by (simp add: hex_EncodeToString_def)

definition ex0 :: vaultStore where
  "ex0 = (newVaultStore 4)\<lparr>so_indexDEK := Some ''index key''\<rparr>"

definition ex_wrap :: string where
  "ex_wrap = box_tag ''master key'' @ ''index key''"

lemma ex0_facts [simp]:
  "so_blockSize ex0 = 4" "so_index ex0 = fmempty" "so_pendingDel ex0 = []" "so_indexFile ex0 = None" "sound ex0"
  "durable box plain_codec ''index key'' ex0 fmempty" "disk_index C X dek ex0 = Some fmempty" "unused_id (rnd_of c) ex0"
  by (simp_all add: ex0_def newVaultStore_def sound_def sound_index_def file_entry_def durable_def disk_index_def
      unused_id_def)

lemma ex_unwrap [simp]: "cr_unwrap box ''master key'' ex_wrap = Some ''index key''"
  by (simp add: ex_wrap_def)

definition ex1 :: vaultStore where
  "ex1 = snd (store_writeFile box (Some ''master key'') 7 (rnd_of CHR ''a'') None ''/u/a.txt'' ''hello'' ex0)"

lemma ex1: "store_writeFile box (Some ''master key'') 7 (rnd_of CHR ''a'') None ''/u/a.txt'' ''hello'' ex0 = (None, ex1)"
  using write_box [of "rnd_of CHR ''a''"] by (simp add: ex1_def prod_eq_iff)

lemma fits_hello [simp]: "fits 4 ''hello''" "fits 4 ''bye''" "fits 4 []"
  by (simp_all add: fits_def blocks_for_def)

theorem write_then_read_witness:
  "store_readFile box (Some ''master key'') ''/u/a.txt'' ex1 = Inr ''hello''"
  using write_then_read [OF box_sealing rnd_of_sized _ ex1] by simp

theorem range_is_slice_witness:
  "store_readRange box (Some ''master key'') ''/u/a.txt'' (int 3) (int 9) ex1 = Inr ''lo''"
  using range_is_slice [OF box_sealing rnd_of_sized _ ex1, of 3 9] by simp

definition ex_events :: "store_event list" where
  "ex_events =
     [SvWrite 7 (rnd_of CHR ''a'') None ''/u/a.txt'' ''hello'', SvFlush (Some ''n'') None, SvMove ''/u/a.txt'' ''/u/b.txt'']"

theorem store_refines_tree_witness:
  "file_tree box ''master key'' (store_run box plain_codec ''master key'' ex_events ex0) =
   spec_run box plain_codec ''master key'' ex_events ex0 (file_tree box ''master key'' ex0)"
  by (rule store_refines_tree) (simp_all add: ex_events_def)

theorem store_stays_sound_witness:
  "sound (store_run box plain_codec ''master key'' ex_events ex0)"
  by (rule store_stays_sound [where C = box]) (simp_all add: ex_events_def)

theorem crash_shows_last_flush_witness:
  "file_tree box ''master key''
     (snd (restart box plain_codec ''master key'' ex_wrap (store_run box plain_codec ''master key'' ex_events ex0))) =
   last_flush box plain_codec ''master key'' ex_events ex0
     (file_tree box ''master key'' (snd (restart box plain_codec ''master key'' ex_wrap ex0)))"
proof -
  have "fresh_run box plain_codec ''master key'' ''index key'' ex_events ex0"
    by (auto simp: ex_events_def file_entry_def pred_option_def)
  then show ?thesis
    using crash_shows_last_flush [OF box_sealing plain_codec_ok ex_unwrap, of ex0 fmempty ex_events]
    by (simp add: ex_events_def)
qed

subsection \<open>The faults\<close>

definition ex_empty :: vaultStore where
  "ex_empty = snd (store_writeFile box (Some ''master key'') 7 (rnd_of CHR ''a'') None ''/u/a.txt'' [] ex0)"

lemma ex_empty: "store_writeFile box (Some ''master key'') 7 (rnd_of CHR ''a'') None ''/u/a.txt'' [] ex0 = (None, ex_empty)"
  using write_box [of "rnd_of CHR ''a''"] by (simp add: ex_empty_def prod_eq_iff)

theorem append_to_empty_is_lost_witness:
  "store_appendFile box (Some ''master key'') 8 (rnd_of CHR ''b'') None AppendDone ''/u/a.txt'' ''abc'' ex_empty = (Inr 0, ex_empty) \<and>
   store_readFile box (Some ''master key'') ''/u/a.txt'' ex_empty = Inr []"
  by (rule append_to_empty_is_lost [OF box_sealing rnd_of_sized _ _ ex_empty]) simp_all

text \<open>A file written and flushed.\<close>

definition ex2 :: vaultStore where
  "ex2 = snd (store_flush box plain_codec (Some ''n'') None ex1)"

lemma ex1_dek: "so_indexDEK ex1 = Some ''index key''"
  using store_writeFile_rest(4) [OF ex1] by (simp add: ex0_def)

lemma ex2: "store_flush box plain_codec (Some ''n'') None ex1 = (None, ex2)"
  using flush_box [OF ex1_dek] by (simp add: ex2_def prod_eq_iff)

lemma id_a: "hex_EncodeToString (replicate 32 (CHR ''a'')) \<noteq> []" "hex_EncodeToString (replicate 32 (CHR ''b'')) \<noteq>
    hex_EncodeToString (replicate 32 (CHR ''a''))"
proof -
  have r: "replicate 32 c = c # replicate 31 c" for c :: char by (simp add: numeral_eq_Suc)
  have "hex_digit 1 \<noteq> hex_digit 2" by code_simp
  then show "hex_EncodeToString (replicate 32 (CHR ''b'')) \<noteq> hex_EncodeToString (replicate 32 (CHR ''a''))"
    by (simp add: hex_EncodeToString_def r)
  show "hex_EncodeToString (replicate 32 (CHR ''a'')) \<noteq> []" by (simp add: hex_EncodeToString_def r)
qed

lemma ex1_index:
  obtains e d where "ve_ID e = hex_EncodeToString (replicate 32 (CHR ''a''))" "ve_Size e = 5" "ve_Size d = -1"
    "so_index ex1 = fmupd ''/u'' d (fmupd ''/u/a.txt'' e fmempty)"
proof -
  obtain k b i e fl d where "Some ''master key'' = Some k" and i: "rnd_of CHR ''a'' 0 = Some b" "i = hex_EncodeToString b"
    and e: "ve_ID e = i" "ve_Size e = int (length ''hello'')"
    and "holds box k (so_blockSize ex0) (map (data_block (so_blockSize ex0) ''hello'') [0..<blocks_for (so_blockSize ex0) ''hello'']) fl"
    and "so_objects ex1 = fmupd i fl (so_objects ex0)" and d: "ve_Size d = -1"
    and ix: "so_index ex1 = index_write ''/u/a.txt'' e d (so_index ex0)"
    by (rule store_writeFile_done [OF box_sealing rnd_of_sized _ ex1]) auto
  have "logicalParent ''/u/a.txt'' = ''/u''" by code_simp
  then show thesis using that i e d ix by (simp add: index_write_def needs_parent_def)
qed

lemma ex1_durable: "durable box plain_codec ''index key'' ex1 fmempty"
  using write_tree [OF box_sealing rnd_of_sized _ _ _ ex1] store_writeFile_rest [OF ex1] ex1_dek
  by (simp add: durable_def disk_index_def file_entry_def)

lemma ex2_durable: "durable box plain_codec ''index key'' ex2 (so_index ex1)"
  by (rule flush_disk [OF box_sealing plain_codec_ok ex1_durable ex2])

lemma flush_index: "store_flush C X nonce io s = (err, s') \<Longrightarrow> so_index s' = so_index s"
  by (auto simp: store_flush_def split: option.splits if_splits)

lemma ex2_index: "so_index ex2 = so_index ex1"
  by (rule flush_index [OF ex2])

lemma ex1_file: "\<exists>e. file_entry (so_index ex1) ''/u/a.txt'' e \<and> ve_ID e = hex_EncodeToString (replicate 32 (CHR ''a''))"
proof -
  obtain e d where "ve_ID e = hex_EncodeToString (replicate 32 (CHR ''a''))" "ve_Size e = 5"
    "so_index ex1 = fmupd ''/u'' d (fmupd ''/u/a.txt'' e fmempty)"
    by (rule ex1_index)
  then show ?thesis by (auto simp: file_entry_def)
qed

lemma ex1_ids: "file_entry (so_index ex1) p x \<Longrightarrow> ve_ID x = hex_EncodeToString (replicate 32 (CHR ''a''))"
proof -
  assume x: "file_entry (so_index ex1) p x"
  obtain e d where "ve_ID e = hex_EncodeToString (replicate 32 (CHR ''a''))" "ve_Size e = 5" "ve_Size d = -1"
    "so_index ex1 = fmupd ''/u'' d (fmupd ''/u/a.txt'' e fmempty)"
    by (rule ex1_index)
  then show ?thesis using x by (auto simp: file_entry_def split: if_splits)
qed

definition ex_removed :: vaultStore where
  "ex_removed = snd (store_remove (Some ''master key'') ''/u/a.txt'' ex2)"

theorem removed_file_haunts_witness:
  "fmlookup (file_tree box ''master key'' (snd (restart box plain_codec ''master key'' ex_wrap ex_removed))) ''/u/a.txt'' = Some BrokenN"
proof -
  obtain e where e: "file_entry (so_index ex1) ''/u/a.txt'' e" using ex1_file by blast
  then have "store_remove (Some ''master key'') ''/u/a.txt'' ex2 = (None, ex_removed)"
    by (simp add: ex_removed_def prod_eq_iff) (simp add: store_remove_def ex2_index file_entry_def)
  then show ?thesis
    using removed_file_haunts [OF ex2_durable ex_unwrap e _] e by (simp add: ex2_index)
qed

text \<open>It is overwritten; the flush at locking fails; after unlocking a directory is made and flushed.\<close>

definition ex3 :: vaultStore where
  "ex3 = snd (store_writeFile box (Some ''master key'') 8 (rnd_of CHR ''b'') None ''/u/a.txt'' ''bye'' ex2)"

definition ex4 :: vaultStore where
  "ex4 = lock_store box plain_codec (Some ''n'') (Some ''disk full'') ex3"

definition ex5 :: vaultStore where
  "ex5 = snd (store_load box plain_codec None (\<lambda>_. False) ''master key'' (Some ex_wrap) ex4)"

definition ex6 :: vaultStore where
  "ex6 = snd (store_mkdir 9 ''/u/d'' ex5)"

definition ex7 :: vaultStore where
  "ex7 = snd (store_flush box plain_codec (Some ''n'') None ex6)"

theorem failed_flush_destroys_file_witness:
  "store_readFile box (Some ''master key'') ''/u/a.txt'' ex5 = store_readFile box (Some ''master key'') ''/u/a.txt'' ex2 \<and>
   (\<exists>msg. store_readFile box (Some ''master key'') ''/u/a.txt'' ex7 = Inl msg)"
proof -
  obtain e where e: "file_entry (so_index ex1) ''/u/a.txt'' e" using ex1_file by blast
  have w: "store_writeFile box (Some ''master key'') 8 (rnd_of CHR ''b'') None ''/u/a.txt'' ''bye'' ex2 = (None, ex3)"
    using write_box [of "rnd_of CHR ''b''"] by (simp add: ex3_def prod_eq_iff)
  note r = store_writeFile_rest [OF w]
  have "snd (store_flush box plain_codec (Some ''n'') (Some ''disk full'') ex3) = ex3"
    using r(2) by (auto simp: store_flush_def split: option.split)
  then have "ex4 = zeroKeys ex3" by (simp add: ex4_def lock_store_def)
  moreover have "so_indexFile (zeroKeys ex3) = so_indexFile ex3" by (simp add: zeroKeys_def)
  ultimately have "so_indexFile ex4 = so_indexFile ex2" using r(3) by metis
  moreover have "disk_index box plain_codec ''index key'' ex2 = Some (so_index ex1)"
    using ex2_durable by (simp add: durable_def)
  ultimately have di: "disk_index box plain_codec ''index key'' ex4 = Some (so_index ex1)"
    using disk_index_same [of ex4 ex2] by simp
  have l: "store_load box plain_codec None (\<lambda>_. False) ''master key'' (Some ex_wrap) ex4 = (None, ex5)"
    using load_box [OF ex_unwrap di] by (simp add: ex5_def prod_eq_iff)
  then have s5: "ex5 = sweepOrphans (\<lambda>_. False) (ex4\<lparr>so_indexDEK := Some ''index key'', so_index := so_index ex1, so_dirty := False\<rparr>)"
    using store_load_done [OF _ ex_unwrap di] by blast
  have "fmlookup (so_index ex1) ''/u/d'' = None"
  proof -
    obtain e d where "so_index ex1 = fmupd ''/u'' d (fmupd ''/u/a.txt'' e fmempty)" by (rule ex1_index)
    then show ?thesis by simp
  qed
  then have m: "store_mkdir 9 ''/u/d'' ex5 = (None, ex6)" "so_indexDEK ex6 = Some ''index key''"
    by (simp_all add: ex6_def store_mkdir_def s5 sweepOrphans_def)
  have f: "store_flush box plain_codec (Some ''n'') None ex6 = (None, ex7)"
    using flush_box [OF m(2)] by (simp add: ex7_def prod_eq_iff)
  have "\<forall>b p x. rnd_of CHR ''b'' 0 = Some b \<longrightarrow> file_entry (so_index ex1) p x \<longrightarrow> ve_ID x \<noteq> hex_EncodeToString b"
    using ex1_ids id_a(2) by auto
  then show ?thesis
    using failed_flush_destroys_file [OF ex2_durable ex_unwrap e _ w _ ex4_def l m(1) f] e by (simp add: ex2_index)
qed

text \<open>The instance deletes the file while it runs: the walk after the stop finds nothing.\<close>

lemma materialize_box:
  assumes "\<forall>(p, e) \<in> set ps. \<exists>data. store_readFile C mk p s = Inr data"
  shows "fst (materialize_files C mk (\<lambda>_. None) uuid dir ps s) = None"
  using assms by (induction ps) (auto simp: Let_def split: prod.splits)

lemma ex2_read: "store_readFile box (Some ''master key'') ''/u/a.txt'' ex2 = Inr ''hello''"
proof -
  have "sound ex1" using ex1_durable by (simp add: durable_def)
  then have "file_tree box ''master key'' ex2 = file_tree box ''master key'' ex1" using flush_tree [OF _ ex2] by blast
  also have "\<dots> = spec_write ''/u/a.txt'' ''hello'' (file_tree box ''master key'' ex0)"
    using write_tree [OF box_sealing rnd_of_sized _ _ _ ex1] by simp
  moreover have "logicalParent ''/u/a.txt'' = ''/u''" by code_simp
  ultimately show ?thesis by (simp add: store_readFile_tree spec_write_def Let_def)
qed

theorem deleted_file_comes_back_witness:
  "\<exists>data. store_readFile box (Some ''master key'') ''/u/a.txt'' ex2 = Inr data \<and>
     (Join [''/srv'', TrimPrefix (TrimPrefix ''/u/a.txt'' (''/'' @ ''u'' @ ''/'')) ''/''], data) \<in>
       set (snd (store_materialize box (Some ''master key'') (\<lambda>_. None) ''u'' ''/srv'' ex2))"
proof -
  obtain e where e: "file_entry (so_index ex2) ''/u/a.txt'' e" using ex1_file by (auto simp: ex2_index)
  have taken: "encryptBack box (Some ''master key'') 9 (\<lambda>_. rnd_of CHR ''c'') (\<lambda>_. None) ''u'' ''/srv'' (Some []) ex2 =
      (None, ex2, Some [])"
    by (simp add: encryptBack_def)
  have "\<forall>(p, e) \<in> set (walkPrefix (''/'' @ ''u'' @ ''/'') ex2). p = ''/u/a.txt''"
  proof -
    obtain e d where "so_index ex1 = fmupd ''/u'' d (fmupd ''/u/a.txt'' e fmempty)" by (rule ex1_index)
    then show ?thesis
      by (auto simp: walkPrefix_def sorted_entries_def sorted_list_of_fset.rep_eq ex2_index HasPrefix_def)
  qed
  then have "fst (store_materialize box (Some ''master key'') (\<lambda>_. None) ''u'' ''/srv'' ex2) = None"
    unfolding store_materialize_def using ex2_read by (intro materialize_box) auto
  then have out: "store_materialize box (Some ''master key'') (\<lambda>_. None) ''u'' ''/srv'' ex2 =
      (None, snd (store_materialize box (Some ''master key'') (\<lambda>_. None) ''u'' ''/srv'' ex2))"
    by (simp add: prod_eq_iff)
  then show ?thesis
    using deleted_file_comes_back [OF taken e _ _ out] by (simp add: HasPrefix_def)
qed

text \<open>The migration of an instance list, with a vault that is open.\<close>

definition ex_vault :: vaultState where
  "ex_vault = (newVaultState 1)\<lparr>vt_enabled := True, vt_initialized := True, vt_file := ''vault.json'',
     vt_masterKey := Some ''master key''\<rparr>"

definition ex_listed :: vaultStore where
  "ex_listed = snd (store_writeFile box (Some ''master key'') 0 (rnd_of CHR ''a'') None systemInstancesPath ''hello'' ex0)"

definition ex_marked :: vaultState where
  "ex_marked = snd (markInstancesDone 7 None (ex_vault\<lparr>vt_migration := Some new_migration\<rparr>))"

theorem migration_loses_instance_list_witness:
  "store_readFile box (Some ''master key'') systemInstancesPath ex_listed = Inr ''hello'' \<and>
   store_stat systemInstancesPath (snd (restart box plain_codec ''master key'' ex_wrap ex_listed)) = None"
proof -
  have v: "vt_masterKey ex_vault = Some ''master key''" "the_migration ex_vault = new_migration" "vt_file ex_vault \<noteq> []"
    by (simp_all add: ex_vault_def the_migration_def newVaultState_def)
  have "store_writeFile box (Some ''master key'') 0 (rnd_of CHR ''a'') None systemInstancesPath ''hello'' ex0 = (None, ex_listed)"
    using write_box [of "rnd_of CHR ''a''"] by (simp add: ex_listed_def prod_eq_iff)
  moreover have "markInstancesDone 7 None (ex_vault\<lparr>vt_migration := Some new_migration\<rparr>) = (None, ex_marked)"
    using v(3) by (simp add: ex_marked_def prod_eq_iff) (simp add: markInstancesDone_def vault_save_def Let_def)
  ultimately have m: "migrateInstancesJSON box 7 (rnd_of CHR ''a'') None None None (PlainText ''hello'') ex_vault ex0 =
      (None, ex_marked, ex_listed, PlainAbsent)"
    using v by (simp add: migrateInstancesJSON_def store_stat_def unix_def new_migration_def)
  have "store_stat systemInstancesPath ex0 = None" by (simp add: store_stat_def)
  then show ?thesis
    using migration_loses_instance_list [OF box_sealing _ ex_unwrap v(1) _ _ _ _ _ _ m, of plain_codec fmempty] v(2)
    by (simp add: new_migration_def)
qed

text \<open>The saved cursor names an instance that was deleted; another one waits.\<close>

definition ex_config :: InstanceConfig where
  "ex_config = \<lparr>cf_Nickname = ''a'', cf_StartCommand = [], cf_StopCommand = [], cf_Cwd = ''/srv'', cf_IE = [], cf_OE = [],
     cf_CreateDatetime = 0, cf_LastDatetime = 0, cf_Type = [], cf_Tag = None, cf_EndTime = 0, cf_FileCode = [],
     cf_ProcessType = [], cf_UpdateCommand = [], cf_ActionCommandList = None, cf_Crlf = 0,
     cf_EventTask = \<lparr>ev_AutoStart = False, ev_AutoRestart = False, ev_Ignore = False\<rparr>,
     cf_PingConfig = \<lparr>pc_IP = [], pc_Port = 0, pc_Type = 0\<rparr>, cf_VaultFiles = True\<rparr>"

definition ex_instance :: Instance where
  "ex_instance = \<lparr>in_Config = ex_config, in_InstanceUuid = ''b'', in_Started = 0, in_Owner = [], in_Status = 0,
     in_Proc = None, in_Busy = False, in_arWindowStart = 0, in_arAttempts = 0\<rparr>"

definition ex_cursor_vault :: vaultState where
  "ex_cursor_vault = ex_vault\<lparr>vt_migration := Some \<lparr>mg_InstancesDone = True, mg_FilesDone = fmempty,
     mg_Cursor = Some \<lparr>mc_UUID = ''a'', mc_Path = [], mc_Done = 1, mc_Total = 2, mc_Bytes = 5\<rparr>,
     mg_StartedAt = 1, mg_CompletedAt = None\<rparr>\<rparr>"

definition ex_run :: migrate_run where
  "ex_run = \<lparr>mr_now = 9, mr_rnd = rnd_of CHR ''a'', mr_write = None, mr_mark = None, mr_remove = None, mr_end = None\<rparr>"

theorem stale_cursor_skips_everything_witness:
  "fst (snd (startMigration box plain_codec ex_run E [ex_instance] PlainAbsent ex_cursor_vault ex0)) = ex0 \<and>
   migrationPhase (fst (startMigration box plain_codec ex_run E [ex_instance] PlainAbsent ex_cursor_vault ex0)) = 3"
proof -
  let ?r = "startMigration box plain_codec ex_run E [ex_instance] PlainAbsent ex_cursor_vault ex0"
  have "?r = (fst ?r, fst (snd ?r), snd (snd ?r))" by simp
  from stale_cursor_skips_everything [OF _ _ _ _ _ _ _ _ this] show ?thesis
    by (simp add: ex_cursor_vault_def ex_vault_def newVaultState_def migrate_cands_def ex_instance_def ex_config_def)
qed

subsection \<open>A backup\<close>

definition ex_open :: vaultState where
  "ex_open = ex_vault\<lparr>vt_sessions := fmupd ''t'' \<lparr>vs_token = ''t'', vs_user = ''u'', vs_certFP = [], vs_ip = [],
     vs_recovery = False, vs_masterKey = None, vs_lastActive = 0, vs_expiresAt = 100\<rparr> fmempty,
     vt_disk := Some \<lparr>ff_Version = 1, ff_Seq = 1, ff_Users = [], ff_Recovery = None, ff_IndexDEKWrap = Some ex_wrap,
       ff_Migration = None, ff_CreatedAt = 0\<rparr>\<rparr>"

definition ex_archive :: vault_archive where
  "ex_archive = \<lparr>va_vault = the (vt_disk ex_open), va_index = so_indexFile ex2,
     va_objects = fmfilter (\<lambda>n. \<not> HasSuffix n ''.tmp'') (so_objects ex2)\<rparr>"

definition ex_restored :: vaultStore where
  "ex_restored = snd (store_load box plain_codec None (\<lambda>_. False) ''master key'' (Some ex_wrap) (unpacked 4 ex_archive))"

theorem backup_restores_tree_witness:
  "file_tree box ''master key'' ex_restored = file_tree box ''master key'' ex1"
proof -
  let ?r = "\<lparr>vq_token = ''t'', vq_ip = []\<rparr>"
  have "session_ok 9 ?r ex_open" "vt_enabled ex_open" "vt_disk ex_open = Some (the (vt_disk ex_open))"
    by (simp_all add: session_ok_def unlocked_def sessionFor_def ex_open_def ex_vault_def newVaultState_def)
  then have b: "handleVaultBackup box plain_codec 9 ?r (Some ''n'') None ex_open ex1 = (Reply ex_archive, ex2)"
    by (cases "vt_disk ex_open") (simp_all add: handleVaultBackup_def ex2 ex_archive_def)
  have l: "store_load box plain_codec None (\<lambda>_. False) ''master key'' (Some ex_wrap) (unpacked 4 ex_archive) =
      (fst (store_load box plain_codec None (\<lambda>_. False) ''master key'' (Some ex_wrap) (unpacked 4 ex_archive)), ex_restored)"
    by (simp add: ex_restored_def)
  show ?thesis using backup_restores_tree [OF box_sealing plain_codec_ok ex1_durable ex_unwrap b l] by blast
qed

end
