(* ===== verification/Regexp.thy ===== *)
theory Regexp
  imports GoLib
begin

text \<open>
  Go's package regexp, as far as the code uses it (cmd/irix-node/container_validate.go, audit.go): character
  sets, sequence, choice, greedy option and repetition, word boundary and one group. A match is the first
  in the order of Perl: leftmost, and of the matches at one position the one that prefers more
  repetitions in front. Text is ASCII.
\<close>

subsection \<open>Expressions and the order of matches\<close>

datatype regex =
  Eps
| Chars "char list"
| NotChars "char list"
| Seq regex regex
| Alt regex regex
| Opt regex
| Star regex
| WordBoundary
| Capture regex

text \<open>A position is the last character before it and the text behind it.\<close>

type_synonym re_pos = "char option \<times> string"

definition word_char :: "char \<Rightarrow> bool" where
  "word_char c \<longleftrightarrow> c = CHR ''_'' \<or> is_digit c \<or> (let u = to_upper_char c in CHR ''A'' \<le> u \<and> u \<le> CHR ''Z'')"

definition at_boundary :: "re_pos \<Rightarrow> bool" where
  "at_boundary p \<longleftrightarrow>
     (case fst p of None \<Rightarrow> False | Some c \<Rightarrow> word_char c) \<noteq>
     (case snd p of [] \<Rightarrow> False | c # _ \<Rightarrow> word_char c)"

fun one_char :: "(char \<Rightarrow> bool) \<Rightarrow> re_pos \<Rightarrow> re_pos list" where
  "one_char P (b, []) = []"
| "one_char P (b, c # s) = (if P c then [(Some c, s)] else [])"

text \<open>All ways to match, the preferred one first; each with the text of the group, if it took part.\<close>

type_synonym re_end = "re_pos \<times> string option"

fun star_ends :: "nat \<Rightarrow> (re_end \<Rightarrow> re_end list) \<Rightarrow> re_end \<Rightarrow> re_end list" where
  "star_ends 0 f e = [e]"
| "star_ends (Suc n) f e =
     concat (map (\<lambda>e'. if length (snd (fst e')) < length (snd (fst e)) then star_ends n f e' else []) (f e)) @ [e]"

primrec match_ends :: "regex \<Rightarrow> re_end \<Rightarrow> re_end list" where
  "match_ends Eps e = [e]"
| "match_ends (Chars cs) e = map (\<lambda>p. (p, snd e)) (one_char (\<lambda>c. c \<in> set cs) (fst e))"
| "match_ends (NotChars cs) e = map (\<lambda>p. (p, snd e)) (one_char (\<lambda>c. c \<notin> set cs) (fst e))"
| "match_ends (Seq r1 r2) e = concat (map (match_ends r2) (match_ends r1 e))"
| "match_ends (Alt r1 r2) e = match_ends r1 e @ match_ends r2 e"
| "match_ends (Opt r) e = match_ends r e @ [e]"
| "match_ends (Star r) e = star_ends (length (snd (fst e))) (match_ends r) e"
| "match_ends WordBoundary e = (if at_boundary (fst e) then [e] else [])"
| "match_ends (Capture r) e =
     map (\<lambda>(p, g). (p, Some (take (length (snd (fst e)) - length (snd p)) (snd (fst e))))) (match_ends r e)"

definition first_match :: "regex \<Rightarrow> re_pos \<Rightarrow> re_end option" where
  "first_match r p = (case match_ends r (p, None) of [] \<Rightarrow> None | e # _ \<Rightarrow> Some e)"

subsection \<open>Searching\<close>

text \<open>The leftmost match; its start, and its end with the group.\<close>

fun find_first :: "regex \<Rightarrow> char option \<Rightarrow> string \<Rightarrow> (string \<times> re_end) option" where
  "find_first r b [] = map_option (Pair []) (first_match r (b, []))"
| "find_first r b (c # s) =
     (case first_match r (b, c # s) of
        Some e \<Rightarrow> Some (c # s, e)
      | None \<Rightarrow> find_first r (Some c) s)"

text \<open>\<open>FindString\<close>: the text of the leftmost match, empty where there is none.\<close>

definition FindString :: "regex \<Rightarrow> string \<Rightarrow> string" where
  "FindString r s =
     (case find_first r None s of
        None \<Rightarrow> []
      | Some (start, (p, g)) \<Rightarrow> take (length start - length (snd p)) start)"

definition MatchString :: "regex \<Rightarrow> string \<Rightarrow> bool" where
  "MatchString r s = (find_first r None s \<noteq> None)"

text \<open>A pattern between \<open>^\<close> and \<open>$\<close> has to match the whole text.\<close>

definition match_whole :: "regex \<Rightarrow> string \<Rightarrow> bool" where
  "match_whole r s = list_ex (\<lambda>(p, g). snd p = []) (match_ends r ((None, s), None))"

text \<open>
  \<open>FindAllStringSubmatch(s, -1)\<close>: successive leftmost matches that do not overlap, here only the
  text of the group, for expressions that match no empty text.
\<close>

function find_groups :: "regex \<Rightarrow> char option \<Rightarrow> string \<Rightarrow> string option list" where
  "find_groups r b s =
     (case find_first r b s of
        None \<Rightarrow> []
      | Some (start, ((b', s'), g)) \<Rightarrow> if length s' < length s then g # find_groups r b' s' else [g])"
  by pat_completeness auto
termination
  by (relation "measure (\<lambda>(r, b, s). length s)") auto

declare find_groups.simps [simp del]

subsection \<open>The reference semantics\<close>

text \<open>What an expression matches, without order and fuel.\<close>

inductive matches :: "regex \<Rightarrow> re_pos \<Rightarrow> re_pos \<Rightarrow> bool" where
  m_Eps: "matches Eps p p"
| m_Chars: "c \<in> set cs \<Longrightarrow> matches (Chars cs) (b, c # s) (Some c, s)"
| m_NotChars: "c \<notin> set cs \<Longrightarrow> matches (NotChars cs) (b, c # s) (Some c, s)"
| m_Seq: "matches r1 p q \<Longrightarrow> matches r2 q r \<Longrightarrow> matches (Seq r1 r2) p r"
| m_Alt1: "matches r1 p q \<Longrightarrow> matches (Alt r1 r2) p q"
| m_Alt2: "matches r2 p q \<Longrightarrow> matches (Alt r1 r2) p q"
| m_Opt: "matches r p q \<Longrightarrow> matches (Opt r) p q"
| m_Opt_none: "matches (Opt r) p p"
| m_Star_end: "matches (Star r) p p"
| m_Star_more: "matches r p q \<Longrightarrow> matches (Star r) q q' \<Longrightarrow> matches (Star r) p q'"
| m_WordBoundary: "at_boundary p \<Longrightarrow> matches WordBoundary p p"
| m_Capture: "matches r p q \<Longrightarrow> matches (Capture r) p q"

inductive_simps matches_Eps [simp]: "matches Eps p q"
inductive_simps matches_Chars: "matches (Chars cs) p q"
inductive_simps matches_NotChars: "matches (NotChars cs) p q"
inductive_simps matches_Seq: "matches (Seq r1 r2) p q"
inductive_simps matches_Alt: "matches (Alt r1 r2) p q"
inductive_simps matches_Opt: "matches (Opt r) p q"
inductive_simps matches_WordBoundary: "matches WordBoundary p q"
inductive_simps matches_Capture: "matches (Capture r) p q"

lemma one_char_iff: "q \<in> set (one_char P p) \<longleftrightarrow> (\<exists>b c s. p = (b, c # s) \<and> P c \<and> q = (Some c, s))"
  by (cases "(P, p)" rule: one_char.cases) auto

text \<open>A match ends in the rest of the text: it consumes a part of it.\<close>

lemma matches_suffix: "matches r p q \<Longrightarrow> suffix (snd q) (snd p) \<and> (length (snd q) = length (snd p) \<longrightarrow> q = p)"
proof (induction rule: matches.induct)
  case (m_Seq r1 p q r2 r)
  then have "length (snd r) \<le> length (snd q)" "length (snd q) \<le> length (snd p)"
    by (auto dest: suffix_length_le)
  with m_Seq show ?case by (auto intro: suffix_order.trans)
next
  case (m_Star_more r p q q')
  then have "length (snd q') \<le> length (snd q)" "length (snd q) \<le> length (snd p)"
    by (auto dest: suffix_length_le)
  with m_Star_more show ?case by (auto intro: suffix_order.trans)
qed (auto simp: suffix_Cons)

text \<open>A repetition can be taken apart into rounds that consume something.\<close>

lemma matches_Star_progress:
  "matches (Star r) p q \<Longrightarrow> q = p \<or> (\<exists>p'. matches r p p' \<and> length (snd p') < length (snd p) \<and> matches (Star r) p' q)"
proof (induction "Star r" p q rule: matches.induct)
  case (m_Star_more p q q')
  have "length (snd q) \<le> length (snd p)" "length (snd q) = length (snd p) \<longrightarrow> q = p"
    using matches_suffix [OF m_Star_more(1)] by (auto dest: suffix_length_le)
  then consider "q = p" | "length (snd q) < length (snd p)" by linarith
  then show ?case
  proof cases
    case 1
    then show ?thesis using m_Star_more(4) by simp
  next
    case 2
    then show ?thesis using m_Star_more(1,3) by blast
  qed
qed simp

lemma star_ends_sound:
  assumes "\<And>e e'. e' \<in> set (f e) \<Longrightarrow> matches r (fst e) (fst e')"
  shows "e' \<in> set (star_ends n f e) \<Longrightarrow> matches (Star r) (fst e) (fst e')"
proof (induction n arbitrary: e)
  case (Suc n)
  show ?case
  proof (cases "e' = e")
    case False
    then obtain e1 where e1: "e1 \<in> set (f e)" "e' \<in> set (star_ends n f e1)"
      using Suc.prems by (auto split: if_splits)
    show ?thesis by (rule m_Star_more [OF assms [OF e1(1)] Suc.IH [OF e1(2)]])
  qed (simp add: m_Star_end)
qed (simp add: m_Star_end)

lemma star_ends_complete:
  assumes "\<And>e q. matches r (fst e) q \<Longrightarrow> \<exists>g. (q, g) \<in> set (f e)"
    "matches (Star r) (fst e) q" "length (snd (fst e)) \<le> n"
  shows "\<exists>g. (q, g) \<in> set (star_ends n f e)"
  using assms(2,3)
proof (induction n arbitrary: e)
  case 0
  then have "q = fst e" using matches_Star_progress [of r "fst e" q] by auto
  then show ?case by (cases e) auto
next
  case (Suc n)
  show ?case
  proof (cases "q = fst e")
    case False
    then obtain p' where p': "matches r (fst e) p'" "length (snd p') < length (snd (fst e))" "matches (Star r) p' q"
      using matches_Star_progress [OF Suc.prems(1)] by auto
    obtain g where g: "(p', g) \<in> set (f e)" using assms(1) [OF p'(1)] by blast
    have "\<exists>h. (q, h) \<in> set (star_ends n f (p', g))"
      by (rule Suc.IH) (use p' Suc.prems(2) in auto)
    then show ?thesis using g p'(2) by force
  qed (cases e; auto)
qed

text \<open>The ordered search finds exactly the matches.\<close>

lemma match_ends_sound: "e' \<in> set (match_ends r e) \<Longrightarrow> matches r (fst e) (fst e')"
proof (induction r arbitrary: e e')
  case (Seq r1 r2)
  then obtain e1 where "e1 \<in> set (match_ends r1 e)" "e' \<in> set (match_ends r2 e1)" by auto
  then show ?case using Seq.IH m_Seq by blast
next
  case (Star r)
  then show ?case using star_ends_sound [of "match_ends r" r] by simp
next
  case (Capture r)
  then obtain q g where q: "(q, g) \<in> set (match_ends r e)" "fst e' = q" by auto
  then show ?case using Capture.IH [OF q(1)] m_Capture by simp
qed (auto simp: one_char_iff matches_Chars matches_NotChars intro: m_Alt1 m_Alt2 m_Opt m_Opt_none m_WordBoundary split: if_splits)

lemma match_ends_complete: "matches r (fst e) q \<Longrightarrow> \<exists>g. (q, g) \<in> set (match_ends r e)"
proof (induction r arbitrary: e q)
  case Eps
  then show ?case by (cases e) simp
next
  case (Chars cs)
  then show ?case by (auto simp: matches_Chars)
next
  case (NotChars cs)
  then show ?case by (auto simp: matches_NotChars)
next
  case (Seq r1 r2)
  then obtain p where p: "matches r1 (fst e) p" "matches r2 p q" by (auto simp: matches_Seq)
  obtain g where g: "(p, g) \<in> set (match_ends r1 e)" using Seq.IH(1) [OF p(1)] by blast
  have "matches r2 (fst (p, g)) q" using p(2) by simp
  then obtain h where "(q, h) \<in> set (match_ends r2 (p, g))" using Seq.IH(2) by blast
  then show ?case using g by auto
next
  case (Alt r1 r2)
  then consider "matches r1 (fst e) q" | "matches r2 (fst e) q" unfolding matches_Alt by blast
  then show ?case using Alt.IH(1) [of e q] Alt.IH(2) [of e q] by cases auto
next
  case (Opt r)
  then consider "matches r (fst e) q" | "q = fst e" unfolding matches_Opt by blast
  then show ?case
  proof cases
    case 1
    then obtain g where "(q, g) \<in> set (match_ends r e)" using Opt.IH by blast
    then show ?thesis by auto
  next
    case 2
    then show ?thesis by (cases e) auto
  qed
next
  case (Star r)
  then show ?case using star_ends_complete [of r "match_ends r" e q] by simp
next
  case WordBoundary
  then show ?case by (cases e) (auto simp: matches_WordBoundary)
next
  case (Capture r)
  then have "matches r (fst e) q" by (simp add: matches_Capture)
  then obtain g where "(q, g) \<in> set (match_ends r e)" using Capture.IH by blast
  then show ?case by force
qed

lemma first_match_None: "first_match r p = None \<longleftrightarrow> (\<nexists>q. matches r p q)"
  unfolding first_match_def
  using match_ends_sound [of _ r "(p, None)"] match_ends_complete [of r "(p, None)"]
  by (cases "match_ends r (p, None)") force+

text \<open>The position behind a prefix of the text.\<close>

definition pos_after :: "char option \<Rightarrow> string \<Rightarrow> char option" where
  "pos_after b pre = (if pre = [] then b else Some (last pre))"

lemma find_first_None:
  "find_first r b s = None \<longleftrightarrow> (\<forall>pre post. s = pre @ post \<longrightarrow> (\<nexists>q. matches r (pos_after b pre, post) q))"
proof (induction r b s rule: find_first.induct)
  case (1 r b)
  then show ?case by (simp add: first_match_None pos_after_def)
next
  case (2 r b c s)
  have split: "(\<forall>pre post. c # s = pre @ post \<longrightarrow> P pre post) \<longleftrightarrow>
      P [] (c # s) \<and> (\<forall>pre post. s = pre @ post \<longrightarrow> P (c # pre) post)" for P
    by (metis Cons_eq_append_conv append_Cons append_Nil)
  have shift: "pos_after (Some c) pre = pos_after b (c # pre)" for pre by (simp add: pos_after_def)
  show ?case
  proof (cases "first_match r (b, c # s)")
    case None
    then have "\<nexists>q. matches r (b, c # s) q" by (simp add: first_match_None)
    then show ?thesis using None 2 by (subst split) (simp add: shift pos_after_def)
  next
    case (Some e)
    then have "\<exists>q. matches r (b, c # s) q" using first_match_None [of r "(b, c # s)"] by auto
    then show ?thesis using Some by (subst split) (auto simp: pos_after_def)
  qed
qed

text \<open>
  The regular-expression engine is correct. The ordered, greedy, fuelled search that stands
  for Go's \<open>MatchString\<close> finds a match exactly if some part of the text matches the expression in
  the reference semantics.
\<close>

theorem search_is_complete:
  "MatchString r s \<longleftrightarrow> (\<exists>pre post q. s = pre @ post \<and> matches r (pos_after None pre, post) q)"
  by (auto simp: MatchString_def find_first_None)

subsection \<open>Building matches\<close>

lemma pos_after_Nil [simp]: "pos_after b [] = b"
  by (simp add: pos_after_def)

lemma pos_after_append [simp]: "pos_after (pos_after b u) v = pos_after b (u @ v)"
  by (simp add: pos_after_def)

lemma pos_after_Cons: "pos_after (Some c) u = pos_after b (c # u)"
  by (simp add: pos_after_def)

lemma find_first_SomeD:
  "find_first r b s = Some (start, e) \<Longrightarrow> \<exists>pre. s = pre @ start \<and> matches r (pos_after b pre, start) (fst e)"
proof (induction r b s rule: find_first.induct)
  case (1 r b)
  then show ?case using match_ends_sound [of e r "((b, []), None)"]
    by (auto simp: first_match_def pos_after_def split: list.splits)
next
  case (2 r b c s)
  show ?case
  proof (cases "first_match r (b, c # s)")
    case None
    then obtain pre where "s = pre @ start" "matches r (pos_after (Some c) pre, start) (fst e)" using 2 by auto
    then show ?thesis unfolding pos_after_Cons [of c pre b] by (intro exI [of _ "c # pre"]) simp
  next
    case (Some e')
    then show ?thesis using 2(2) match_ends_sound [of e' r "((b, c # s), None)"]
      by (auto simp: first_match_def pos_after_def split: list.splits)
  qed
qed

text \<open>An expression that never matches the empty text finds a text where it finds a match.\<close>

lemma FindString_nonempty:
  assumes "\<And>p q. matches r p q \<Longrightarrow> length (snd q) < length (snd p)"
    "s = pre @ post" "matches r (pos_after None pre, post) q"
  shows "FindString r s \<noteq> []"
proof -
  obtain start e where f: "find_first r None s = Some (start, e)"
    using assms(2,3) find_first_None [of r None s] by (metis not_None_eq prod.exhaust)
  then have "length (snd (fst e)) < length start" using find_first_SomeD [OF f] assms(1) by fastforce
  then show ?thesis using f by (cases e) (auto simp: FindString_def)
qed

lemma matches_Seq_append:
  "matches r1 (b, u @ v @ s) (pos_after b u, v @ s) \<Longrightarrow> matches r2 (pos_after b u, v @ s) q \<Longrightarrow>
   matches (Seq r1 r2) (b, u @ v @ s) q"
  by (rule m_Seq)

lemma matches_Star_Chars: "set u \<subseteq> set cs \<Longrightarrow> matches (Star (Chars cs)) (b, u @ s) (pos_after b u, s)"
proof (induction u arbitrary: b)
  case (Cons c u)
  have "matches (Chars cs) (b, c # u @ s) (Some c, u @ s)" using Cons.prems by (intro m_Chars) simp
  moreover have "matches (Star (Chars cs)) (Some c, u @ s) (pos_after b (c # u), s)"
    using Cons.IH [of "Some c"] Cons.prems by (simp flip: pos_after_Cons)
  ultimately show ?case by (auto intro: m_Star_more)
qed (simp add: m_Star_end)

text \<open>What a match has consumed.\<close>

lemma matches_split: "matches r p q \<Longrightarrow> \<exists>u. snd p = u @ snd q"
  using matches_suffix [of r p q] by (auto simp: suffix_def)

text \<open>An expression over a set of characters matches only texts over that set.\<close>

primrec over :: "char set \<Rightarrow> regex \<Rightarrow> bool" where
  "over X Eps = True"
| "over X (Chars cs) = (set cs \<subseteq> X)"
| "over X (NotChars cs) = False"
| "over X (Seq r1 r2) = (over X r1 \<and> over X r2)"
| "over X (Alt r1 r2) = (over X r1 \<and> over X r2)"
| "over X (Opt r) = over X r"
| "over X (Star r) = over X r"
| "over X WordBoundary = True"
| "over X (Capture r) = over X r"

lemma matches_over: "matches r p q \<Longrightarrow> over X r \<Longrightarrow> \<exists>u. snd p = u @ snd q \<and> set u \<subseteq> X"
proof (induction rule: matches.induct)
  case (m_Seq r1 p q r2 r)
  then obtain u v where "snd p = u @ snd q" "snd q = v @ snd r" "set u \<subseteq> X" "set v \<subseteq> X" by auto
  then show ?case by (intro exI [of _ "u @ v"]) simp
next
  case (m_Star_more r p q q')
  then obtain u v where "snd p = u @ snd q" "snd q = v @ snd q'" "set u \<subseteq> X" "set v \<subseteq> X" by auto
  then show ?case by (intro exI [of _ "u @ v"]) simp
qed auto

lemma match_whole_over:
  assumes "match_whole r s" "over X r"
  shows "set s \<subseteq> X"
proof -
  obtain p g where p: "(p, g) \<in> set (match_ends r ((None, s), None))" "snd p = []"
    using assms(1) by (auto simp: match_whole_def list_ex_iff)
  have "matches r (None, s) p" using match_ends_sound [OF p(1)] by simp
  then show ?thesis using matches_over [OF _ assms(2)] p(2) by fastforce
qed

end
