(* ===== verification/ContainerGuard.thy ===== *)
theory ContainerGuard
  imports Regexp Paths
begin

text \<open>
  Validation of container requests (cmd/irix-node/container_validate.go): what reaches the command
  line of docker or bastille. A validator answers \<open>None\<close> to accept and \<open>Some\<close> message to refuse.
  The build modelled is Unix. Resolution of symbolic links is a parameter as in \<open>Paths\<close>.
\<close>

subsection \<open>Patterns\<close>

definition lower_chars :: string where "lower_chars = ''abcdefghijklmnopqrstuvwxyz''"
definition upper_chars :: string where "upper_chars = ''ABCDEFGHIJKLMNOPQRSTUVWXYZ''"
definition digit_chars :: string where "digit_chars = ''0123456789''"

definition re_hex2 :: regex where
  "re_hex2 = Seq (Chars (digit_chars @ ''abcdefABCDEF'')) (Chars (digit_chars @ ''abcdefABCDEF''))"

fun re_times :: "nat \<Rightarrow> regex \<Rightarrow> regex" where
  "re_times 0 r = Eps"
| "re_times (Suc n) r = Seq r (re_times n r)"

definition macAddressPattern :: regex where
  "macAddressPattern = Seq (re_times 5 (Seq re_hex2 (Chars '':''))) re_hex2"

definition volumeNamePattern :: regex where
  "volumeNamePattern =
     Seq (Chars (upper_chars @ lower_chars @ digit_chars))
         (Star (Chars (upper_chars @ lower_chars @ digit_chars @ ''_.-'')))"

text \<open>A word under \<open>(?i)\<close>, white space, and an optional equals sign.\<close>

fun re_word :: "string \<Rightarrow> regex" where
  "re_word [] = Eps"
| "re_word (c # w) = Seq (Chars [to_lower_char c, to_upper_char c]) (re_word w)"

definition re_spaces :: regex where
  "re_spaces = Star (Chars [CHR 0x09, CHR 0x0A, CHR 0x0C, CHR 0x0D, CHR '' ''])"

definition re_equals :: regex where
  "re_equals = Seq re_spaces (Seq (Opt (Chars ''='')) re_spaces)"

definition dockerfileMountRE :: regex where
  "dockerfileMountRE =
     Seq (re_word ''--mount'')
    (Seq re_equals
    (Seq (Star (NotChars [CHR 0x0A, CHR '';'', CHR ''&'', CHR ''|'']))
    (Seq WordBoundary
    (Seq (re_word ''type'')
    (Seq re_spaces
    (Seq (Chars ''='')
    (Seq re_spaces
         (Capture (Seq (Chars (lower_chars @ upper_chars)) (Star (Chars (lower_chars @ upper_chars)))))))))))) "

definition dockerfileBlockedMountTypes :: "string list" where
  "dockerfileBlockedMountTypes = [''bind'', ''cache'', ''secret'', ''ssh'']"

definition dockerfileInsecureRE :: regex where
  "dockerfileInsecureRE = Seq (re_word ''--security'') (Seq re_equals (re_word ''insecure''))"

definition dockerfileHostNetRE :: regex where
  "dockerfileHostNetRE = Seq (re_word ''--network'') (Seq re_equals (re_word ''host''))"

subsection \<open>Names and paths inside the container\<close>

definition isPosixAbs :: "string \<Rightarrow> bool" where
  "isPosixAbs p = HasPrefix p ''/''"

text \<open>The names in the order in which Go walks the map.\<close>

fun validateContainerEnv :: "string list \<Rightarrow> string option" where
  "validateContainerEnv [] = None"
| "validateContainerEnv (k # ks) =
     (if TrimSpace k = [] then Some ''empty variable name''
      else if ContainsAny k [CHR '' '', CHR 0x09, CHR 0x0D, CHR 0x0A, CHR 0x00, CHR ''=''] then Some (''bad variable name: '' @ k)
      else if HasPrefix (ToUpper k) ''LD_'' then Some (''dynamic linker variable: '' @ k)
      else validateContainerEnv ks)"

definition validateMACAddress :: "string \<Rightarrow> string option" where
  "validateMACAddress mac =
     (if \<not> match_whole macAddressPattern (TrimSpace mac) then Some (''not a MAC address: '' @ mac) else None)"

definition validateContainerWorkdir :: "string \<Rightarrow> string option" where
  "validateContainerWorkdir workdir =
     (if workdir = [] then None
      else if ContainsAny workdir [CHR 0x00, CHR 0x0D, CHR 0x0A, CHR 0x27] then Some ''workdir with line break or quote''
      else if \<not> isPosixAbs workdir then Some (''workdir must be absolute: '' @ workdir)
      else if list_ex (\<lambda>seg. seg = ''..'') (split_on (CHR ''/'') workdir) then Some (''workdir with ..: '' @ workdir)
      else None)"

definition validateContainerPath :: "string \<Rightarrow> string \<Rightarrow> string option" where
  "validateContainerPath label p =
     (if p = [] then Some (label @ '' missing'')
      else if ContainsAny p [CHR 0x00, CHR 0x0D, CHR 0x0A] then Some (label @ '' with control character'')
      else if \<not> isPosixAbs p then Some (label @ '' must be absolute: '' @ p)
      else if list_ex (\<lambda>seg. seg = ''..'') (split_on (CHR ''/'') p) then Some (label @ '' with ..: '' @ p)
      else None)"

definition validateCLIPositional :: "string \<Rightarrow> string \<Rightarrow> string option" where
  "validateCLIPositional label v =
     (if TrimSpace v = [] then None
      else if HasPrefix (TrimSpace v) ''-'' then Some (label @ '' looks like an option: '' @ v)
      else if ContainsAny v [CHR 0x00, CHR 0x0D, CHR 0x0A] then Some (label @ '' with control character'')
      else None)"

subsection \<open>Host paths\<close>

definition checkHostPathAllowed :: "string option \<Rightarrow> string \<Rightarrow> string \<Rightarrow> string option" where
  "checkHostPathAllowed wd dataDir p =
     (let cleaned = Clean p in
      if cleaned = ''/'' \<or> cleaned = [CHR 0x5C] then Some (''root cannot be mounted: '' @ p)
      else
        let ab = (if \<not> IsAbs cleaned then (case Abs wd cleaned of None \<Rightarrow> cleaned | Some a \<Rightarrow> a) else cleaned) in
        if list_ex (\<lambda>bad. pathWithin bad ab) forbiddenCwdDirs then Some (''system directory: '' @ p)
        else if dataDir \<noteq> [] then
          (case Abs wd dataDir of
             None \<Rightarrow> None
           | Some dd \<Rightarrow> if pathWithin (Clean dd) ab then Some (''data directory: '' @ p) else None)
        else None)"

text \<open>The outer \<open>None\<close> is a resolution of links that does not return.\<close>

definition validateHostMountSource ::
  "(string \<Rightarrow> eval_error + string) \<Rightarrow> string option \<Rightarrow> string \<Rightarrow> string \<Rightarrow> string option option" where
  "validateHostMountSource ev wd dataDir src =
     (let src = TrimSpace src in
      if src = [] then Some (Some ''mount without source'')
      else if ContainsAny src [CHR 0x00, CHR 0x0D, CHR 0x0A] then Some (Some ''source with control character'')
      else if \<not> isPosixAbs src then Some (Some (''source must be absolute: '' @ src))
      else
        (case checkHostPathAllowed wd dataDir src of
           Some e \<Rightarrow> Some (Some e)
         | None \<Rightarrow>
           (case resolveExistingPrefix ev src of
              None \<Rightarrow> None
            | Some (Inl e) \<Rightarrow> Some (Some e)
            | Some (Inr resolved) \<Rightarrow>
                if resolved \<noteq> src then
                  (case checkHostPathAllowed wd dataDir resolved of
                     Some e \<Rightarrow> Some (Some (''out of bounds behind a link: '' @ src))
                   | None \<Rightarrow> Some None)
                else Some None)))"

definition volume_rest :: "string list \<Rightarrow> string option" where
  "volume_rest parts =
     (case validateContainerPath ''target'' (TrimSpace (parts ! 1)) of
        Some e \<Rightarrow> Some e
      | None \<Rightarrow>
          if length parts = 3 \<and> TrimSpace (parts ! 2) \<notin> {[], ''ro'', ''rw''} then Some ''bad volume mode'' else None)"

definition validateContainerVolume ::
  "(string \<Rightarrow> eval_error + string) \<Rightarrow> string option \<Rightarrow> string \<Rightarrow> string \<Rightarrow> string option option" where
  "validateContainerVolume ev wd dataDir spec =
     (let spec = TrimSpace spec in
      if spec = [] then Some None
      else
        let parts = split_on (CHR '':'') spec in
        if length parts < 2 \<or> length parts > 3 then Some (Some (''bad volume: '' @ spec))
        else
          let src = TrimSpace (parts ! 0) in
          if src = [] then Some (Some (''volume without source: '' @ spec))
          else if isPosixAbs src then
            (case validateHostMountSource ev wd dataDir src of
               None \<Rightarrow> None
             | Some (Some e) \<Rightarrow> Some (Some e)
             | Some None \<Rightarrow> Some (volume_rest parts))
          else if \<not> match_whole volumeNamePattern src then Some (Some (''neither path nor volume name: '' @ src))
          else Some (volume_rest parts))"

fun validateContainerVolumes ::
  "(string \<Rightarrow> eval_error + string) \<Rightarrow> string option \<Rightarrow> string \<Rightarrow> string list \<Rightarrow> string option option" where
  "validateContainerVolumes ev wd dataDir [] = Some None"
| "validateContainerVolumes ev wd dataDir (s # ss) =
     (case validateContainerVolume ev wd dataDir s of
        None \<Rightarrow> None
      | Some (Some e) \<Rightarrow> Some (Some e)
      | Some None \<Rightarrow> validateContainerVolumes ev wd dataDir ss)"

definition validateBastilleVolume ::
  "(string \<Rightarrow> eval_error + string) \<Rightarrow> string option \<Rightarrow> string \<Rightarrow> string \<Rightarrow> string \<Rightarrow> string option option" where
  "validateBastilleVolume ev wd dataDir src dest =
     (case validateHostMountSource ev wd dataDir src of
        None \<Rightarrow> None
      | Some (Some e) \<Rightarrow> Some (Some e)
      | Some None \<Rightarrow> Some (validateContainerPath ''target in the jail'' dest))"

subsection \<open>Building images\<close>

definition validateDockerfileSafety :: "string \<Rightarrow> string option" where
  "validateDockerfileSafety dockerfile =
     (case find (\<lambda>typ. typ \<in> set dockerfileBlockedMountTypes)
             (map (\<lambda>g. ToLower (case g of None \<Rightarrow> [] | Some t \<Rightarrow> t)) (find_groups dockerfileMountRE None dockerfile)) of
        Some typ \<Rightarrow> Some (''mount type not allowed: '' @ typ)
      | None \<Rightarrow>
          if FindString dockerfileInsecureRE dockerfile \<noteq> [] then Some ''--security=insecure not allowed''
          else if FindString dockerfileHostNetRE dockerfile \<noteq> [] then Some ''--network=host not allowed''
          else None)"

subsection \<open>Dockerfiles\<close>

lemma fold_case_char: "to_lower_char c = d \<Longrightarrow> c \<in> set [to_lower_char d, to_upper_char d]"
proof (cases "CHR ''A'' \<le> c \<and> c \<le> CHR ''Z''")
  case True
  assume d: "to_lower_char c = d"
  have n: "65 \<le> (of_char c :: nat)" "(of_char c :: nat) \<le> 90" using True by (simp_all add: less_eq_char_def)
  then have "d = char_of (of_char c + 32 :: nat)" using True d by (simp add: to_lower_char_def)
  then have "to_upper_char d = c" using n by (simp add: to_upper_char_def less_eq_char_def)
  then show ?thesis by simp
qed (auto simp: to_lower_char_def)

lemma matches_re_word: "ToLower u = w \<Longrightarrow> matches (re_word w) (b, u @ s) (pos_after b u, s)"
proof (induction u arbitrary: w b)
  case (Cons c u)
  then obtain d w' where w: "w = d # w'" "to_lower_char c = d" "ToLower u = w'" by (auto simp: ToLower_def)
  have "matches (Chars [to_lower_char d, to_upper_char d]) (b, c # u @ s) (Some c, u @ s)"
    by (rule m_Chars [OF fold_case_char [OF w(2)]])
  moreover have "matches (re_word w') (Some c, u @ s) (pos_after b (c # u), s)"
    using Cons.IH [OF w(3), of "Some c"] by (simp flip: pos_after_Cons)
  ultimately show ?case by (auto simp: w(1) intro: m_Seq)
qed (auto simp: ToLower_def)

definition re_space_chars :: string where
  "re_space_chars = [CHR 0x09, CHR 0x0A, CHR 0x0C, CHR 0x0D, CHR '' '']"

lemma matches_re_equals:
  assumes "set u \<subseteq> set re_space_chars" "eq \<in> {[], ''=''}" "set v \<subseteq> set re_space_chars"
  shows "matches re_equals (b, u @ eq @ v @ s) (pos_after b (u @ eq @ v), s)"
proof -
  have "matches re_spaces (b, u @ eq @ v @ s) (pos_after b u, eq @ v @ s)"
    unfolding re_spaces_def using assms(1) by (intro matches_Star_Chars) (simp add: re_space_chars_def)
  moreover have "matches (Opt (Chars ''='')) (pos_after b u, eq @ v @ s) (pos_after b (u @ eq), v @ s)"
  proof (cases "eq = []")
    case True
    then show ?thesis by (simp add: m_Opt_none)
  next
    case False
    then have "eq = ''=''" using assms(2) by simp
    then show ?thesis using m_Chars [of "CHR ''=''" "''=''"] by (auto intro!: m_Opt simp: pos_after_def)
  qed
  moreover have "matches re_spaces (pos_after b (u @ eq), v @ s) (pos_after b (u @ eq @ v), s)"
    unfolding re_spaces_def using matches_Star_Chars [of v _ "pos_after b (u @ eq)" s] assms(3)
    by (simp add: re_space_chars_def)
  ultimately show ?thesis unfolding re_equals_def by (blast intro: m_Seq)
qed

lemma re_word_consumes:
  assumes "matches (Seq (re_word (c # w)) r) p q"
  shows "length (snd q) < length (snd p)"
proof -
  obtain p1 p2 where p: "matches (Chars [to_lower_char c, to_upper_char c]) p p1" "matches (re_word w) p1 p2" "matches r p2 q"
    using assms by (auto simp: matches_Seq)
  have "length (snd p1) < length (snd p)" using p(1) by (auto simp: matches_Chars)
  moreover have "length (snd p2) \<le> length (snd p1)" "length (snd q) \<le> length (snd p2)"
    using matches_suffix p(2,3) suffix_length_le by blast+
  ultimately show ?thesis by linarith
qed

text \<open>An option with its value, in any case, with or without an equals sign and with white space around it.\<close>

definition has_option :: "string \<Rightarrow> string \<Rightarrow> string \<Rightarrow> bool" where
  "has_option opt val df \<longleftrightarrow>
     (\<exists>pre n u eq v h post. df = pre @ n @ u @ eq @ v @ h @ post \<and> ToLower n = opt \<and> ToLower h = val \<and>
        set u \<subseteq> set re_space_chars \<and> eq \<in> {[], ''=''} \<and> set v \<subseteq> set re_space_chars)"

lemma FindString_option:
  assumes "has_option (c # opt) val df"
  shows "FindString (Seq (re_word (c # opt)) (Seq re_equals (re_word val))) df \<noteq> []"
proof -
  obtain pre n u eq v h post where t: "df = pre @ n @ u @ eq @ v @ h @ post" "ToLower n = c # opt" "ToLower h = val"
    "set u \<subseteq> set re_space_chars" "eq \<in> {[], ''=''}" "set v \<subseteq> set re_space_chars"
    using assms unfolding has_option_def by blast
  let ?b = "pos_after None pre" and ?r = "u @ eq @ v @ h @ post"
  have "matches (re_word (c # opt)) (?b, n @ ?r) (pos_after ?b n, ?r)" by (rule matches_re_word [OF t(2)])
  moreover have "matches re_equals (pos_after ?b n, ?r) (pos_after (pos_after ?b n) (u @ eq @ v), h @ post)"
    by (rule matches_re_equals [OF t(4-6)])
  moreover have "matches (re_word val) (pos_after (pos_after ?b n) (u @ eq @ v), h @ post)
      (pos_after (pos_after (pos_after ?b n) (u @ eq @ v)) h, post)" by (rule matches_re_word [OF t(3)])
  ultimately have "\<exists>q. matches (Seq (re_word (c # opt)) (Seq re_equals (re_word val))) (?b, n @ ?r) q"
    by (blast intro: m_Seq)
  then show ?thesis
    using FindString_nonempty [OF _ t(1), of "Seq (re_word (c # opt)) (Seq re_equals (re_word val))"] re_word_consumes
    by blast
qed

text \<open>
  Dockerfiles with host network or insecure mode are refused. Wherever an accepted Dockerfile
  is searched, it contains neither \<open>--network\<close> with value \<open>host\<close> nor \<open>--security\<close> with value
  \<open>insecure\<close>: in any mixture of cases, with an equals sign or not, and with any white space, line
  breaks included, between the option and its value.
\<close>

theorem dockerfile_options_refused:
  assumes "has_option ''--network'' ''host'' df \<or> has_option ''--security'' ''insecure'' df"
  shows "validateDockerfileSafety df \<noteq> None"
  using assms FindString_option [of "CHR ''-''" "''-network''" "''host''" df]
    FindString_option [of "CHR ''-''" "''-security''" "''insecure''" df]
  by (auto simp: validateDockerfileSafety_def dockerfileInsecureRE_def dockerfileHostNetRE_def simp del: re_word.simps
      split: option.split)

theorem dockerfile_options_refused_witness:
  "validateDockerfileSafety ''RUN --Network = HOST id'' \<noteq> None"
proof -
  have "has_option ''--network'' ''host'' ''RUN --Network = HOST id''"
    unfolding has_option_def
    by (rule exI [of _ "''RUN ''"], rule exI [of _ "''--Network''"], rule exI [of _ "'' ''"], rule exI [of _ "''=''"],
        rule exI [of _ "'' ''"], rule exI [of _ "''HOST''"], rule exI [of _ "'' id''"]) code_simp
  then show ?thesis by (rule dockerfile_options_refused [OF disjI1])
qed

text \<open>
  The check of mount types can be evaded. The repetition in front of \<open>type=\<close> is greedy and
  stops only at a line break and at \<open>;\<close>, \<open>&\<close>, \<open>|\<close>: of several mounts in one instruction only the
  last one's type is looked at, and a mount whose \<open>type=\<close> is on a continuation line is not seen at
  all. Both Dockerfiles are accepted, and both bind the build context's root.
\<close>

theorem mount_check_evaded:
  "validateDockerfileSafety ''RUN --mount=type=bind,target=/h id'' = Some ''mount type not allowed: bind'' \<and>
   validateDockerfileSafety ''RUN --mount=type=bind,target=/h --mount=type=tmpfs,target=/t id'' = None \<and>
   validateDockerfileSafety (''RUN --mount='' @ [CHR 0x5C, CHR 0x0A] @ ''type=bind,target=/h id'') = None"
  by (intro conjI; code_simp)

subsection \<open>Names\<close>

text \<open>
  No accepted environment reaches the dynamic linker. Every accepted variable name is not
  empty, has no equals sign or line break in it, and does not begin with \<open>LD_\<close> in any case.
\<close>

theorem env_names_inert:
  assumes "validateContainerEnv ks = None" "k \<in> set ks"
  shows "k \<noteq> [] \<and> CHR ''='' \<notin> set k \<and> CHR 0x0A \<notin> set k \<and> \<not> HasPrefix (ToUpper k) ''LD_''"
  using assms
proof (induction ks)
  case (Cons x ks)
  then show ?case
    by (cases "k = x") (auto simp: ContainsAny_iff TrimSpace_def split: if_splits)
qed simp

theorem env_names_inert_witness:
  "CHR ''='' \<notin> set ''TZ'' \<and> \<not> HasPrefix (ToUpper ''TZ'') ''LD_''"
proof -
  have "validateContainerEnv [''PATH'', ''TZ''] = None" by code_simp
  from env_names_inert [OF this, of "''TZ''"] show ?thesis by simp
qed

subsection \<open>Mounts\<close>

text \<open>A host path the check lets through: not the root, in no system directory, not in the data directory.\<close>

definition host_path_ok :: "string \<Rightarrow> string \<Rightarrow> bool" where
  "host_path_ok dataDir p \<longleftrightarrow>
     root_words p \<noteq> [] \<and> list_all (\<lambda>bad. \<not> prefix (root_words bad) (root_words p)) forbiddenCwdDirs \<and>
     \<not> prefix (root_words dataDir) (root_words p)"

lemma checkHostPathAllowed_abs:
  assumes "IsAbs p" "IsAbs dataDir"
  shows "checkHostPathAllowed wd dataDir p = None \<longleftrightarrow> host_path_ok dataDir p"
proof -
  have c: "Clean p = abs_path (root_words p)" using assms(1) by (rule Clean_abs)
  have root: "Clean p = ''/'' \<longleftrightarrow> root_words p = []"
    using abs_path_inject [OF root_words_real, of "[]" p] by (simp add: c) (simp add: path_of_def)
  have bs: "Clean p \<noteq> [CHR 0x5C]" using assms(1) IsAbs_Clean [of p] by (auto simp: IsAbs_iff)
  have dd: "dataDir \<noteq> []" "Abs wd dataDir = Some (Clean dataDir)" using assms(2) by (auto simp: Abs_def)
  have "list_ex (\<lambda>bad. pathWithin bad (Clean p)) forbiddenCwdDirs \<longleftrightarrow>
      \<not> list_all (\<lambda>bad. \<not> prefix (root_words bad) (root_words p)) forbiddenCwdDirs"
    using forbidden_abs assms(1) by (auto simp: list_ex_iff list_all_iff pathWithin_abs)
  moreover have "pathWithin (Clean (Clean dataDir)) (Clean p) \<longleftrightarrow> prefix (root_words dataDir) (root_words p)"
    using assms by (simp add: pathWithin_abs)
  ultimately show ?thesis
    using root bs dd assms(1) by (simp add: checkHostPathAllowed_def host_path_ok_def Let_def)
qed

lemma isPosixAbs_IsAbs: "isPosixAbs p = IsAbs p"
  by (simp add: isPosixAbs_def IsAbs_def)

text \<open>
  C20. The check of a mount's source returns. However the links of the file system resolve, as long as
  absolute paths resolve to absolute ones, the check of any source comes to a decision.
\<close>

theorem mount_check_returns:
  assumes "eval_abs ev"
  shows "\<exists>d. validateHostMountSource ev wd dataDir src = Some d"
proof -
  have "isPosixAbs (TrimSpace src) \<Longrightarrow> \<exists>r. resolveExistingPrefix ev (TrimSpace src) = Some r"
    using resolve_returns [OF assms] by (auto simp: isPosixAbs_IsAbs)
  then show ?thesis
    by (auto simp: validateHostMountSource_def Let_def split: option.split sum.split)
qed

theorem mount_check_returns_witness: "\<exists>d. validateHostMountSource linkless None ''/opt/irix/data'' '' /srv/mc '' = Some d"
  by (rule mount_check_returns) (simp add: eval_abs_def linkless_def)


definition one_link :: "string \<Rightarrow> eval_error + string" where
  "one_link p = (if p = ''/srv/link'' then Inr ''/etc'' else linkless p)"


text \<open>
  The directory above the data directory may be mounted. The check asks whether the source lies
  in the data directory, not whether the data directory lies in the source: with the data in
  \<open>/opt/irix/data\<close> the mounts of \<open>/opt/irix\<close> and \<open>/opt\<close> are accepted, and the account database with
  them.
\<close>

theorem data_directory_exposed_from_above:
  "checkHostPathAllowed None ''/opt/irix/data'' ''/opt/irix/data'' \<noteq> None \<and>
   checkHostPathAllowed None ''/opt/irix/data'' ''/opt/irix'' = None \<and>
   checkHostPathAllowed None ''/opt/irix/data'' ''/opt'' = None \<and> pathWithin ''/opt'' ''/opt/irix/data''"
  by (intro conjI; code_simp)

end
