(* ===== verification/GoText.thy ===== *)
theory GoText
  imports GoLib
begin

text \<open>
  More of Go's \<open>strings\<close> package: searching for a substring, trimming by character sets and
  splitting at white space (ASCII white space, as in \<open>GoLib\<close>).
\<close>

subsection \<open>Searching\<close>

text \<open>\<open>strings.Index(s, p)\<close>; \<open>None\<close> stands for -1.\<close>

fun str_index :: "string \<Rightarrow> string \<Rightarrow> nat option" where
  "str_index [] p = (if p = [] then Some 0 else None)"
| "str_index (x # xs) p = (if HasPrefix (x # xs) p then Some 0 else map_option Suc (str_index xs p))"

lemma str_index_prefix: "str_index s p = Some i \<Longrightarrow> HasPrefix (drop i s) p \<and> i \<le> length s"
  by (induction s arbitrary: i) (auto simp: HasPrefix_def split: if_splits)

lemma str_index_split:
  assumes "str_index s p = Some i"
  shows "s = take i s @ p @ drop (i + length p) s"
proof -
  have "take (length p) (drop i s) = p" using str_index_prefix [OF assms] by (simp add: HasPrefix_def)
  then have "drop i s = p @ drop (i + length p) s"
    by (metis append_take_drop_id drop_drop add.commute)
  then show ?thesis by (metis append_take_drop_id)
qed

definition cut_at :: "char \<Rightarrow> string \<Rightarrow> (string \<times> string) option" where
  "cut_at c s = map_option (\<lambda>i. (take i s, drop (Suc i) s)) (index_byte c s)"

lemma cut_at_Some: "cut_at c s = Some (a, b) \<longleftrightarrow> s = a @ c # b \<and> c \<notin> set a"
proof
  assume "cut_at c s = Some (a, b)"
  then obtain i where "index_byte c s = Some i" "a = take i s" "b = drop (Suc i) s" by (auto simp: cut_at_def)
  then show "s = a @ c # b \<and> c \<notin> set a" using index_byte_split index_byte_SomeD by blast
next
  assume "s = a @ c # b \<and> c \<notin> set a"
  then show "cut_at c s = Some (a, b)"
    using index_byte_append_right [of c a "c # b"] by (auto simp: cut_at_def)
qed

lemma cut_at_None: "cut_at c s = None \<longleftrightarrow> c \<notin> set s"
  by (simp add: cut_at_def index_byte_None)

subsection \<open>Trimming\<close>

definition TrimRight :: "string \<Rightarrow> string \<Rightarrow> string" where
  "TrimRight s cs = rev (dropWhile (\<lambda>c. c \<in> set cs) (rev s))"

definition trim_chars :: "string \<Rightarrow> string \<Rightarrow> string" where
  "trim_chars s cs = TrimRight (dropWhile (\<lambda>c. c \<in> set cs) s) cs"

lemma TrimSpace_Nil [simp]: "TrimSpace [] = []"
  by (simp add: TrimSpace_def)

lemma TrimSpace_spaces: "list_all is_space s \<Longrightarrow> TrimSpace s = []"
  by (simp add: TrimSpace_def dropWhile_eq_Nil_conv list_all_iff) (meson set_dropWhileD)

lemma dropWhile_append_hd:
  "list_all P a \<Longrightarrow> dropWhile P (a @ b) = dropWhile P b"
  by (induction a) auto

lemma TrimSpace_pad:
  assumes "list_all is_space a" "list_all is_space b"
  shows "TrimSpace (a @ s @ b) = TrimSpace s"
proof (cases "list_all is_space s")
  case True
  then show ?thesis using assms by (simp add: TrimSpace_spaces)
next
  case False
  then have "dropWhile is_space s \<noteq> []" by (auto simp: dropWhile_eq_Nil_conv list_all_iff)
  then have "dropWhile is_space (a @ s @ b) = dropWhile is_space s @ b"
    using dropWhile_append_hd [OF assms(1)] by (auto simp: dropWhile_append dropWhile_eq_Nil_conv)
  moreover have "list_all is_space (rev b)" using assms(2) by (simp add: list_all_iff)
  ultimately show ?thesis by (simp add: TrimSpace_def dropWhile_append_hd)
qed

lemma TrimSpace_decomp: "\<exists>a b. s = a @ TrimSpace s @ b \<and> list_all is_space a \<and> list_all is_space b"
proof -
  let ?d = "dropWhile is_space s"
  have "s = takeWhile is_space s @ ?d" by simp
  moreover have "rev ?d = takeWhile is_space (rev ?d) @ dropWhile is_space (rev ?d)" by simp
  then have "?d = rev (dropWhile is_space (rev ?d)) @ rev (takeWhile is_space (rev ?d))" by (metis rev_append rev_rev_ident)
  ultimately have "s = takeWhile is_space s @ TrimSpace s @ rev (takeWhile is_space (rev ?d))"
    by (simp add: TrimSpace_def)
  moreover have "list_all is_space (takeWhile is_space s)" "list_all is_space (rev (takeWhile is_space (rev ?d)))"
    by (auto simp: list_all_iff dest: set_takeWhileD)
  ultimately show ?thesis by blast
qed

lemma TrimSpace_id_hd: "TrimSpace s = s \<Longrightarrow> s \<noteq> [] \<Longrightarrow> \<not> is_space (hd s)"
proof (cases s)
  case (Cons x xs)
  assume t: "TrimSpace s = s"
  show "\<not> is_space (hd s)"
  proof
    assume "is_space (hd s)"
    then have "TrimSpace s = TrimSpace xs" using Cons by (simp add: TrimSpace_def)
    moreover have "length (TrimSpace xs) \<le> length xs"
      unfolding TrimSpace_def by (metis length_dropWhile_le length_rev le_trans)
    ultimately show False using t Cons by simp
  qed
qed simp

subsection \<open>Fields\<close>

fun split_spaces :: "string \<Rightarrow> string list" where
  "split_spaces [] = [[]]"
| "split_spaces (x # xs) =
     (if is_space x then [] # split_spaces xs
      else (case split_spaces xs of [] \<Rightarrow> [[x]] | w # ws \<Rightarrow> (x # w) # ws))"

definition Fields :: "string \<Rightarrow> string list" where
  "Fields s = filter (\<lambda>w. w \<noteq> []) (split_spaces s)"

lemma split_spaces_nonempty [simp]: "split_spaces s \<noteq> []"
  by (induction s) (auto split: list.splits)

lemma split_spaces_word:
  "list_all (\<lambda>c. \<not> is_space c) w \<Longrightarrow> split_spaces (w @ s) = (w @ hd (split_spaces s)) # tl (split_spaces s)"
  by (induction w) (auto split: list.splits)

lemma Fields_word_space:
  assumes "list_all (\<lambda>c. \<not> is_space c) w" "w \<noteq> []" "is_space c"
  shows "Fields (w @ c # s) = w # Fields s"
  using assms by (simp add: Fields_def split_spaces_word)

lemma Fields_word:
  assumes "list_all (\<lambda>c. \<not> is_space c) w" "w \<noteq> []"
  shows "Fields w = [w]"
  using assms split_spaces_word [OF assms(1), of "[]"] by (simp add: Fields_def)

lemma Fields_space: "is_space c \<Longrightarrow> Fields (c # s) = Fields s"
  by (simp add: Fields_def)

lemma Fields_words: "w \<in> set (Fields s) \<Longrightarrow> w \<noteq> [] \<and> list_all (\<lambda>c. \<not> is_space c) w"
proof -
  have "\<forall>w \<in> set (split_spaces s). list_all (\<lambda>c. \<not> is_space c) w"
    by (induction s) (auto split: list.splits)
  then show "w \<in> set (Fields s) \<Longrightarrow> w \<noteq> [] \<and> list_all (\<lambda>c. \<not> is_space c) w" by (auto simp: Fields_def)
qed

lemma Fields_pad: "list_all is_space a \<Longrightarrow> Fields (a @ s) = Fields s"
  by (induction a) (auto simp: Fields_space)

lemma Fields_pad_right: "list_all is_space b \<Longrightarrow> Fields (s @ b) = Fields s"
proof (induction s)
  case Nil
  then show ?case using Fields_pad [of b "[]"] by simp
next
  case (Cons x s)
  have "\<exists>ws. split_spaces (s @ b) = split_spaces s @ ws \<and> set ws \<subseteq> {[]}" using Cons.prems
  proof (induction s)
    case Nil
    then show ?case by (induction b) (auto simp: Cons_eq_append_conv)
  next
    case (Cons y s)
    then obtain ws where "split_spaces (s @ b) = split_spaces s @ ws" "set ws \<subseteq> {[]}" by blast
    moreover obtain v vs where "split_spaces s = v # vs" by (cases "split_spaces s") auto
    ultimately show ?case by simp
  qed
  then obtain ws where "split_spaces (s @ b) = split_spaces s @ ws" "set ws \<subseteq> {[]}" by blast
  moreover obtain v vs where "split_spaces s = v # vs" by (cases "split_spaces s") auto
  moreover have "filter (\<lambda>w. w \<noteq> []) ws = []" using calculation(2) by (auto simp: filter_empty_conv)
  ultimately show ?case by (simp add: Fields_def)
qed

lemma Fields_TrimSpace [simp]: "Fields (TrimSpace s) = Fields s"
proof -
  obtain a b where "s = a @ TrimSpace s @ b" "list_all is_space a" "list_all is_space b" using TrimSpace_decomp by blast
  then show ?thesis by (metis Fields_pad Fields_pad_right)
qed

end
