(* ===== verification/Containers.thy ===== *)
theory Containers
  imports ContainerGuard GoText Access Registries
begin

text \<open>
  Containers (cmd/irix-node/container.go, container_docker.go): the handlers, the command lines they
  build for docker, and the archives of host directories. A run of the docker command is a
  parameter, from the argument list to an error or the output (\<open>cliRun\<close>); the handlers of jails
  call the bastille engine, a parameter here because its build is another one (FreeBSD): on Linux
  it answers \<open>Unsupported\<close> to everything.
\<close>

subsection \<open>Replies\<close>

datatype engine_error = Unsupported | EngineError string

type_synonym docker = "string list \<Rightarrow> string + string"

definition containerUnavailable :: "'a reply" where
  "containerUnavailable = Fail 501 ''container support not available on this platform''"

fun containerErr :: "engine_error \<Rightarrow> 'a reply" where
  "containerErr Unsupported = containerUnavailable"
| "containerErr (EngineError e) = Fail 500 e"

fun engine_reply :: "engine_error + 'a \<Rightarrow> 'a reply" where
  "engine_reply (Inl e) = containerErr e"
| "engine_reply (Inr x) = Reply x"

definition cli :: "docker \<Rightarrow> string list \<Rightarrow> engine_error + string" where
  "cli run args = map_sum EngineError id (run args)"

definition no_output :: "engine_error + 'a \<Rightarrow> engine_error + unit" where
  "no_output r = map_sum id (\<lambda>_. ()) r"

subsection \<open>Reading docker's output\<close>

text \<open>\<open>js\<close> parses one line of JSON to its js, printed by \<open>fmt.Sprint\<close>; \<open>null\<close> js are left out.\<close>

definition dockerJSONLines :: "(string \<Rightarrow> (string, string) fmap option) \<Rightarrow> string \<Rightarrow> (string, string) fmap list" where
  "dockerJSONLines js out =
     List.map_filter (\<lambda>line. let line = TrimSpace line in if line = [] then None else js line)
       (split_on (CHR 0x0A) out)"

definition jstr :: "(string, string) fmap \<Rightarrow> string \<Rightarrow> string" where
  "jstr m key = (case fmlookup m key of None \<Rightarrow> [] | Some v \<Rightarrow> v)"

definition dockerAvailable :: "docker \<Rightarrow> string \<times> bool" where
  "dockerAvailable run =
     (case run [''version'', ''--format'', ''{{.Server.Version}}''] of
        Inl e \<Rightarrow> ([], False)
      | Inr out \<Rightarrow> let v = TrimSpace out in if v = [] then ([], False) else (v, True))"

definition containerRuntimeInfo :: "docker \<Rightarrow> string \<times> string \<times> string \<times> bool" where
  "containerRuntimeInfo run = (let (v, ok) = dockerAvailable run in (''docker'', ''linux'', v, ok))"

definition splitPorts :: "string \<Rightarrow> string list" where
  "splitPorts s =
     (let s = TrimSpace s in
      if s = [] then [] else filter (\<lambda>p. p \<noteq> []) (map TrimSpace (split_on (CHR '','') s)))"

text \<open>
  The list of containers. The restart policies come from one further command over all ids, whose
  lines are matched with the ids by position. \<open>dt\<close> is \<open>dockerTime\<close>, Go's reading and printing of
  dates.
\<close>

record ps_item =
  psi_id :: string
  psi_name :: string
  psi_image :: string
  psi_status :: string
  psi_state :: string
  psi_ports :: "string list"
  psi_createdAt :: string
  psi_restartPolicy :: string

definition restart_by_name :: "docker \<Rightarrow> string list \<Rightarrow> (string, string) fmap" where
  "restart_by_name run ids =
     (if ids = [] then fmempty
      else
        (case run ([''inspect'', ''--format'', ''{{.HostConfig.RestartPolicy.Name}}''] @ ids) of
           Inl e \<Rightarrow> fmempty
         | Inr out \<Rightarrow>
             fold (\<lambda>(i, line) m. fmupd i (TrimSpace line) m) (zip ids (split_on (CHR 0x0A) (TrimRight out [CHR 0x0A]))) fmempty))"

definition dockerPS ::
  "docker \<Rightarrow> (string \<Rightarrow> (string, string) fmap option) \<Rightarrow> (string \<Rightarrow> string) \<Rightarrow> bool \<Rightarrow> engine_error + ps_item list" where
  "dockerPS run js dt everything =
     map_sum id (\<lambda>out.
       let lines = dockerJSONLines js out;
           policy = restart_by_name run (filter (\<lambda>i. i \<noteq> []) (map (\<lambda>m. jstr m ''ID'') lines))
       in map (\<lambda>m. \<lparr>psi_id = jstr m ''ID'', psi_name = jstr m ''Names'', psi_image = jstr m ''Image'',
            psi_status = jstr m ''Status'', psi_state = jstr m ''State'', psi_ports = splitPorts (jstr m ''Ports''),
            psi_createdAt = dt (jstr m ''CreatedAt''), psi_restartPolicy = jstr policy (jstr m ''ID'')\<rparr>) lines)
       (cli run ([''ps''] @ (if everything then [''-a''] else []) @ [''--format'', ''{{json .}}'']))"

record image_info =
  im_id :: string
  im_tags :: "string list"
  im_size :: string
  im_createdAt :: string

text \<open>Images by id, in the order in which an id first appears.\<close>

fun add_tag :: "(string, string) fmap \<Rightarrow> string \<Rightarrow> image_info list \<Rightarrow> image_info list" where
  "add_tag m tag [] = [\<lparr>im_id = jstr m ''ID'', im_tags = [tag], im_size = jstr m ''Size'', im_createdAt = jstr m ''CreatedAt''\<rparr>]"
| "add_tag m tag (i # is) =
     (if im_id i = jstr m ''ID'' then i\<lparr>im_tags := im_tags i @ [tag]\<rparr> # is else i # add_tag m tag is)"

definition image_step :: "image_info list \<Rightarrow> (string, string) fmap \<Rightarrow> image_info list" where
  "image_step is m =
     (let repo = jstr m ''Repository''; tag = jstr m ''Tag'' in
      if jstr m ''ID'' = [] \<or> repo = [] \<or> tag = [] \<or> repo = ''<none>'' \<or> tag = ''<none>'' then is
      else add_tag m (repo @ '':'' @ tag) is)"

definition dockerImages ::
  "docker \<Rightarrow> (string \<Rightarrow> (string, string) fmap option) \<Rightarrow> engine_error + image_info list" where
  "dockerImages run js =
     map_sum id (\<lambda>out. foldl image_step [] (dockerJSONLines js out))
       (cli run [''images'', ''--format'', ''{{json .}}''])"

definition dockerVolumeList ::
  "docker \<Rightarrow> (string \<Rightarrow> (string, string) fmap option) \<Rightarrow> engine_error + (string \<times> string \<times> string) list" where
  "dockerVolumeList run js =
     map_sum id (\<lambda>out. map (\<lambda>m. (jstr m ''Name'', jstr m ''Driver'', jstr m ''Mountpoint'')) (dockerJSONLines js out))
       (cli run [''volume'', ''ls'', ''--format'', ''{{json .}}''])"

definition network_subnet :: "docker \<Rightarrow> string \<Rightarrow> string" where
  "network_subnet run name =
     (if name = [] then []
      else
        (case run [''network'', ''inspect'', ''--format'', ''{{range .IPAM.Config}}{{.Subnet}}{{end}}'', name] of
           Inl e \<Rightarrow> []
         | Inr out \<Rightarrow> TrimSpace out))"

definition dockerNetworkList ::
  "docker \<Rightarrow> (string \<Rightarrow> (string, string) fmap option) \<Rightarrow> engine_error + (string \<times> string \<times> string) list" where
  "dockerNetworkList run js =
     map_sum id (\<lambda>out. map (\<lambda>m. (jstr m ''Name'', jstr m ''Driver'', network_subnet run (jstr m ''Name'')))
         (dockerJSONLines js out))
       (cli run [''network'', ''ls'', ''--format'', ''{{json .}}''])"

subsection \<open>Commands\<close>

text \<open>
  The request to create a container. The variables stand in the order in which Go walks the map;
  \<open>cr_Cpus\<close> is the text of the number where it is positive.
\<close>

record create_body =
  cb_Name :: string
  cb_Image :: string
  cb_Command :: string
  cb_Workdir :: string
  cb_Ports :: "string list"
  cb_Volumes :: "string list"
  cb_Env :: "(string \<times> string) list"
  cb_RestartPolicy :: string
  cb_MemoryLimitMb :: int
  cb_Cpus :: "string option"
  cb_DiskLimitMb :: int

definition opt :: "string \<Rightarrow> string \<Rightarrow> string list" where
  "opt flag v = [flag, v]"

definition create_options :: "create_body \<Rightarrow> (string \<times> string) list" where
  "create_options b =
     (if cb_Name b \<noteq> [] then [(''--name'', cb_Name b)] else []) @
     map (Pair ''-p'') (filter (\<lambda>p. TrimSpace p \<noteq> []) (cb_Ports b)) @
     map (Pair ''-v'') (filter (\<lambda>v. TrimSpace v \<noteq> []) (cb_Volumes b)) @
     map (\<lambda>(k, v). (''-e'', k @ ''='' @ v)) (cb_Env b) @
     (if cb_RestartPolicy b \<noteq> [] then [(''--restart'', cb_RestartPolicy b)] else []) @
     (if cb_MemoryLimitMb b > 0 then [(''-m'', Itoa (cb_MemoryLimitMb b) @ ''m'')] else []) @
     (case cb_Cpus b of None \<Rightarrow> [] | Some c \<Rightarrow> [(''--cpus'', c)]) @
     (if cb_DiskLimitMb b > 0 then [(''--storage-opt'', ''size='' @ Itoa (cb_DiskLimitMb b) @ ''M'')] else []) @
     (if cb_Workdir b \<noteq> [] then [(''-w'', cb_Workdir b)] else [])"

definition create_args :: "create_body \<Rightarrow> string list" where
  "create_args b =
     ''create'' # concat (map (\<lambda>(f, v). opt f v) (create_options b)) @ [cb_Image b] @
     (if cb_Command b \<noteq> [] then SplitCommand (cb_Command b) else [])"

definition dockerCreate :: "docker \<Rightarrow> create_body \<Rightarrow> engine_error + string \<times> string" where
  "dockerCreate run b = map_sum id (\<lambda>out. (TrimSpace out, cb_Name b)) (cli run (create_args b))"

definition dockerAction :: "docker \<Rightarrow> string \<Rightarrow> string \<Rightarrow> engine_error + unit" where
  "dockerAction run i action = no_output (cli run [action, i])"

definition dockerRemove :: "docker \<Rightarrow> string \<Rightarrow> bool \<Rightarrow> engine_error + unit" where
  "dockerRemove run i force = no_output (cli run ([''rm''] @ (if force then [''-f''] else []) @ [i]))"

definition dockerLogs :: "docker \<Rightarrow> string \<Rightarrow> int \<Rightarrow> engine_error + string" where
  "dockerLogs run i tail = cli run [''logs'', ''--tail'', Itoa tail, i]"

definition dockerExec :: "docker \<Rightarrow> string \<Rightarrow> string \<Rightarrow> engine_error + string" where
  "dockerExec run i command = cli run [''exec'', i, ''sh'', ''-c'', command]"

definition dockerPull :: "docker \<Rightarrow> string \<Rightarrow> engine_error + unit" where
  "dockerPull run name = no_output (cli run [''pull'', name])"

definition dockerImageRemove :: "docker \<Rightarrow> string \<Rightarrow> engine_error + unit" where
  "dockerImageRemove run name = no_output (cli run [''rmi'', name])"

definition dockerVolumeRemove :: "docker \<Rightarrow> string \<Rightarrow> engine_error + unit" where
  "dockerVolumeRemove run name = no_output (cli run [''volume'', ''rm'', name])"

definition dockerLimits :: "docker \<Rightarrow> string \<Rightarrow> int \<Rightarrow> string option \<Rightarrow> engine_error + unit" where
  "dockerLimits run i memoryMb cpus =
     no_output (cli run ([''update''] @ (if memoryMb > 0 then [''-m'', Itoa memoryMb @ ''m''] else []) @
       (case cpus of None \<Rightarrow> [] | Some c \<Rightarrow> [''--cpus'', c]) @ [i]))"

text \<open>\<open>now\<close> in milliseconds names the intermediate image.\<close>

definition dockerClone :: "docker \<Rightarrow> int \<Rightarrow> string \<Rightarrow> string \<Rightarrow> engine_error + string \<times> string \<times> string" where
  "dockerClone run now i name =
     (let img = ''irix-clone-'' @ Itoa now in
      case cli run [''commit'', i, img] of
        Inl e \<Rightarrow> Inl e
      | Inr _ \<Rightarrow>
          map_sum id (\<lambda>out. (TrimSpace out, name, img))
            (cli run ([''create''] @ (if name \<noteq> [] then [''--name'', name] else []) @ [img])))"

subsection \<open>Handlers\<close>

record container_info =
  ci_runtime :: string
  ci_platform :: string
  ci_version :: string
  ci_available :: bool

definition handleContainerInfo :: "docker \<Rightarrow> container_info reply" where
  "handleContainerInfo run =
     (let (rt, platform, version, ok) = containerRuntimeInfo run
      in Reply \<lparr>ci_runtime = rt, ci_platform = platform, ci_version = version, ci_available = ok\<rparr>)"

text \<open>\<open>ev\<close>, \<open>wd\<close> and the data directory are those of the mount check; \<open>None\<close> is a check that does not return.\<close>

definition handleContainerCreate ::
  "docker \<Rightarrow> (string \<Rightarrow> eval_error + string) \<Rightarrow> string option \<Rightarrow> string \<Rightarrow> create_body option \<Rightarrow>
   (string \<times> string) reply option" where
  "handleContainerCreate run ev wd dataDir body =
     (case body of
        None \<Rightarrow> Some (Fail 400 ''malformed body'')
      | Some b \<Rightarrow>
        if cb_Image b = [] then Some (Fail 400 ''image missing'')
        else if cb_Name b \<noteq> [] \<and> \<not> safePathSegment (cb_Name b) then Some (Fail 400 (''bad name: '' @ cb_Name b))
        else
          (case validateCLIPositional ''image'' (cb_Image b) of Some e \<Rightarrow> Some (Fail 400 e) | None \<Rightarrow>
          (case validateContainerEnv (map fst (cb_Env b)) of Some e \<Rightarrow> Some (Fail 400 e) | None \<Rightarrow>
          (case validateContainerWorkdir (cb_Workdir b) of Some e \<Rightarrow> Some (Fail 400 e) | None \<Rightarrow>
          (case validateContainerVolumes ev wd dataDir (cb_Volumes b) of
             None \<Rightarrow> None
           | Some (Some e) \<Rightarrow> Some (Fail 400 e)
           | Some None \<Rightarrow> Some (engine_reply (dockerCreate run b)))))))"

definition handleContainerAction :: "docker \<Rightarrow> string \<Rightarrow> string \<Rightarrow> unit reply" where
  "handleContainerAction run action i = engine_reply (dockerAction run i action)"

definition handleContainerRemove :: "docker \<Rightarrow> string \<Rightarrow> string \<Rightarrow> unit reply" where
  "handleContainerRemove run i force = engine_reply (dockerRemove run i (force = ''1''))"

definition tail_of :: "int \<Rightarrow> string \<Rightarrow> int" where
  "tail_of dflt q = (case Atoi q of Some v \<Rightarrow> if v > 0 then v else dflt | None \<Rightarrow> dflt)"

definition handleContainerLogs :: "docker \<Rightarrow> string \<Rightarrow> string \<Rightarrow> string reply" where
  "handleContainerLogs run i tail = engine_reply (dockerLogs run i (tail_of 100 tail))"

definition handleContainerExec :: "docker \<Rightarrow> string \<Rightarrow> string option \<Rightarrow> string reply" where
  "handleContainerExec run i command =
     (case command of
        None \<Rightarrow> Fail 400 ''malformed body''
      | Some c \<Rightarrow> if c = [] then Fail 400 ''command missing'' else engine_reply (dockerExec run i c))"

definition handleImageList :: "docker \<Rightarrow> (string \<Rightarrow> (string, string) fmap option) \<Rightarrow> image_info list reply" where
  "handleImageList run js = engine_reply (dockerImages run js)"

definition handleImagePull :: "docker \<Rightarrow> string option \<Rightarrow> unit reply" where
  "handleImagePull run name =
     (case name of
        None \<Rightarrow> Fail 400 ''malformed body''
      | Some n \<Rightarrow> if n = [] then Fail 400 ''name missing'' else engine_reply (dockerPull run n))"

definition handleImageRemove :: "docker \<Rightarrow> string \<Rightarrow> unit reply" where
  "handleImageRemove run name = engine_reply (dockerImageRemove run name)"

definition handleVolumeList ::
  "docker \<Rightarrow> (string \<Rightarrow> (string, string) fmap option) \<Rightarrow> (string \<times> string \<times> string) list reply" where
  "handleVolumeList run js = engine_reply (dockerVolumeList run js)"

definition handleVolumeRemove :: "docker \<Rightarrow> string \<Rightarrow> unit reply" where
  "handleVolumeRemove run name = engine_reply (dockerVolumeRemove run name)"

definition handleNetworkList ::
  "docker \<Rightarrow> (string \<Rightarrow> (string, string) fmap option) \<Rightarrow> (string \<times> string \<times> string) list reply" where
  "handleNetworkList run js = engine_reply (dockerNetworkList run js)"

definition handleContainerClone :: "docker \<Rightarrow> int \<Rightarrow> string \<Rightarrow> string option \<Rightarrow> (string \<times> string \<times> string) reply" where
  "handleContainerClone run now i name =
     (case name of None \<Rightarrow> Fail 400 ''malformed body'' | Some n \<Rightarrow> engine_reply (dockerClone run now i n))"

definition handleContainerLimits :: "docker \<Rightarrow> string \<Rightarrow> (int \<times> string option) option \<Rightarrow> unit reply" where
  "handleContainerLimits run i body =
     (case body of
        None \<Rightarrow> Fail 400 ''malformed body''
      | Some (memoryMb, cpus) \<Rightarrow> engine_reply (dockerLimits run i memoryMb cpus))"

definition handleContainerPS ::
  "docker \<Rightarrow> (string \<Rightarrow> (string, string) fmap option) \<Rightarrow> (string \<Rightarrow> string) \<Rightarrow> string \<Rightarrow> ps_item list reply" where
  "handleContainerPS run js dt everything = engine_reply (dockerPS run js dt (everything = ''1''))"

text \<open>
  Exporting and importing go through the shared area of the node (cluster.go). \<open>io\<close> is the outcome
  of making the directory, creating and closing the file; \<open>now\<close> is in nanoseconds.
\<close>

definition clusterRoot :: "string option \<Rightarrow> string \<Rightarrow> string" where
  "clusterRoot wd dataDir = (let root = Join [dataDir, ''mirrors''] in case Abs wd root of Some a \<Rightarrow> a | None \<Rightarrow> root)"

definition cluster_relative :: "string \<Rightarrow> string option" where
  "cluster_relative p =
     (let p = TrimSpace p in
      if p \<in> {[], ''/'', ''/mirrors'', ''mirrors''} then None
      else if HasPrefix p ''/mirrors/'' then Some (TrimPrefix p ''/mirrors/'')
      else if HasPrefix p ''mirrors/'' then Some (TrimPrefix p ''mirrors/'')
      else Some p)"

definition clusterPath ::
  "(string \<Rightarrow> eval_error + string) \<Rightarrow> string option \<Rightarrow> string \<Rightarrow> string \<Rightarrow> (string + string) option" where
  "clusterPath ev wd dataDir p =
     (case cluster_relative p of
        None \<Rightarrow> Some (Inr (clusterRoot wd dataDir))
      | Some q \<Rightarrow> safeResolve ev (clusterRoot wd dataDir) q)"

definition dockerExport ::
  "docker \<Rightarrow> string option \<Rightarrow> string \<Rightarrow> string \<Rightarrow> instant \<Rightarrow> string \<Rightarrow> string \<Rightarrow> ticketStore \<Rightarrow>
   (engine_error + string \<times> string \<times> string) \<times> ticketStore" where
  "dockerExport run io root addr now uid i tickets =
     (if \<not> safePathSegment i then (Inl (EngineError (''bad container id: '' @ i)), tickets)
      else
        (case io of
           Some e \<Rightarrow> (Inl (EngineError e), tickets)
         | None \<Rightarrow>
           let fileName = i @ ''-'' @ Itoa (now div 10 ^ 6) @ ''.tar'' in
           (case run [''export'', i] of
              Inl e \<Rightarrow> (Inl (EngineError (''docker export failed: '' @ e)), tickets)
            | Inr out \<Rightarrow>
              (case ticket_CreateDownload tickets now uid ''cluster'' root [] of
                 (tickets, password) \<Rightarrow>
                   if password = [] then (Inl (EngineError ''too many tickets''), tickets)
                   else (Inr (password, addr, ''.exports/'' @ fileName), tickets)))))"

definition handleContainerExport ::
  "docker \<Rightarrow> string option \<Rightarrow> string \<Rightarrow> string \<Rightarrow> instant \<Rightarrow> string \<Rightarrow> string \<Rightarrow> ticketStore \<Rightarrow>
   (string \<times> string \<times> string) reply \<times> ticketStore" where
  "handleContainerExport run io root addr now uid i tickets =
     (case dockerExport run io root addr now uid i tickets of (r, tickets) \<Rightarrow> (engine_reply r, tickets))"

text \<open>\<open>rd\<close> reads the archive that is passed to the command's standard input.\<close>

definition dockerImageImport ::
  "docker \<Rightarrow> (string \<Rightarrow> string + string) \<Rightarrow> (string \<Rightarrow> eval_error + string) \<Rightarrow> string option \<Rightarrow> string \<Rightarrow> string \<Rightarrow> string \<Rightarrow>
   (engine_error + unit) option" where
  "dockerImageImport run rd ev wd dataDir fileName name =
     map_option (\<lambda>r. case r of
          Inl e \<Rightarrow> Inl (EngineError e)
        | Inr path \<Rightarrow>
          (case rd path of
             Inl e \<Rightarrow> Inl (EngineError e)
           | Inr content \<Rightarrow> no_output (cli run [''import'', ''-'', name])))
       (clusterPath ev wd dataDir fileName)"

definition handleImageImport ::
  "docker \<Rightarrow> (string \<Rightarrow> string + string) \<Rightarrow> (string \<Rightarrow> eval_error + string) \<Rightarrow> string option \<Rightarrow> string \<Rightarrow>
   (string \<times> string) option \<Rightarrow> unit reply option" where
  "handleImageImport run rd ev wd dataDir body =
     (case body of
        None \<Rightarrow> Some (Fail 400 ''malformed body'')
      | Some (fileName, name) \<Rightarrow>
          if fileName = [] \<or> name = [] then Some (Fail 400 ''fileName or name missing'')
          else map_option engine_reply (dockerImageImport run rd ev wd dataDir fileName name))"

text \<open>
  Building an image: the Dockerfile is written into a directory of its own below the data directory
  and the build runs as a long job. The result has the job, the file written and the command; \<open>io\<close>
  is the outcome of making the directory and writing the file.
\<close>

record build_start =
  bs_job :: string
  bs_file :: "string \<times> string"
  bs_args :: "string list"

definition dockerBuildStart ::
  "string \<Rightarrow> string option \<Rightarrow> string \<Rightarrow> string \<Rightarrow> string \<Rightarrow> string \<Rightarrow> jobStore \<Rightarrow> (engine_error + build_start) \<times> jobStore" where
  "dockerBuildStart uid io dataDir dockerfile name tag jobs =
     (let (jobs, jobID) = job_create jobs uid in
      if jobID = [] then (Inl (EngineError ''too many build jobs''), jobs)
      else
        let dir = Join [dataDir, ''container-build'', jobID] in
        (case io of
           Some e \<Rightarrow> (Inl (EngineError e), jobs)
         | None \<Rightarrow>
             let tagArg = name @ '':'' @ tag;
                 jobs = (case job_get jobs jobID of None \<Rightarrow> jobs | Some j \<Rightarrow> fmupd jobID (j\<lparr>jimage := tagArg\<rparr>) jobs)
             in (Inr \<lparr>bs_job = jobID, bs_file = (Join [dir, ''Dockerfile''], dockerfile),
                      bs_args = [''build'', ''-t'', tagArg, ''-f'', ''Dockerfile'', dir]\<rparr>, jobs)))"

definition handleImageBuild ::
  "string \<Rightarrow> string option \<Rightarrow> string \<Rightarrow> identity option \<Rightarrow> (string \<times> string \<times> string) option \<Rightarrow> jobStore \<Rightarrow>
   build_start reply \<times> jobStore" where
  "handleImageBuild uid io dataDir ident body jobs =
     (if \<not> requireAdmin ident then (Fail 403 ''administrator required'', jobs)
      else
        (case body of
           None \<Rightarrow> (Fail 400 ''malformed body'', jobs)
         | Some (dockerfile, name, tag) \<Rightarrow>
           if name = [] \<or> tag = [] then (Fail 400 ''name or tag missing'', jobs)
           else
             (case validateCLIPositional ''name'' name of Some e \<Rightarrow> (Fail 400 e, jobs) | None \<Rightarrow>
             (case validateCLIPositional ''tag'' tag of Some e \<Rightarrow> (Fail 400 e, jobs) | None \<Rightarrow>
             (case validateDockerfileSafety dockerfile of Some e \<Rightarrow> (Fail 400 e, jobs) | None \<Rightarrow>
                (case dockerBuildStart uid io dataDir dockerfile name tag jobs of
                   (r, jobs) \<Rightarrow> (engine_reply r, jobs)))))))"

definition handleImageBuildProgress :: "string \<Rightarrow> jobStore \<Rightarrow> (job_status \<times> string list \<times> string) reply" where
  "handleImageBuildProgress jobID jobs =
     (case job_get jobs jobID of
        None \<Rightarrow> Fail 400 ''no such build job''
      | Some j \<Rightarrow> Reply (jstatus j, jlog j, jimage j))"

definition handleBastilleJobProgress :: "string \<Rightarrow> jobStore \<Rightarrow> (job_status \<times> string list) reply" where
  "handleBastilleJobProgress jobID jobs =
     (case job_get jobs jobID of None \<Rightarrow> Fail 400 ''no such job'' | Some j \<Rightarrow> Reply (jstatus j, jlog j))"

subsection \<open>Jails\<close>

text \<open>
  What the handlers ask of the bastille engine. The body of the creation has \<open>vnet\<close> and \<open>mac\<close> as a
  boolean, a string or nothing.
\<close>

datatype flag_or_name = NoValue | Flag bool | Name string

record jail_body =
  jb_Name :: string
  jb_Release :: string
  jb_IP :: string
  jb_Type :: string
  jb_Vnet :: flag_or_name
  jb_Interface :: string
  jb_Bridge :: string
  jb_Mac :: flag_or_name
  jb_Volumes :: "string list"
  jb_Workdir :: string
  jb_MemoryLimitMb :: int
  jb_Cpus :: int
  jb_DiskLimitMb :: int

record jail_create =
  jc_name :: string
  jc_release :: string
  jc_ip :: string
  jc_type :: string
  jc_vnet :: string
  jc_iface :: string
  jc_macFlag :: bool
  jc_macAddr :: string
  jc_volumes :: "(string \<times> string) list"
  jc_workdir :: string
  jc_memoryLimitMb :: int
  jc_cpus :: int
  jc_diskLimitMb :: int

definition isAllDigits :: "string \<Rightarrow> bool" where
  "isAllDigits s = (s \<noteq> [] \<and> list_all is_digit s)"

text \<open>The mode and the interface; the static address.\<close>

definition jail_net :: "jail_body \<Rightarrow> string \<times> string" where
  "jail_net b =
     (let mode = (case jb_Vnet b of NoValue \<Rightarrow> ''none'' | Flag f \<Rightarrow> if f then ''vnet'' else ''none'' | Name n \<Rightarrow> TrimSpace n)
      in if jb_Bridge b \<noteq> []
         then (if mode = [] \<or> mode = ''none'' then ''bridge'' else mode, jb_Bridge b)
         else (mode, jb_Interface b))"

definition jail_mac :: "jail_body \<Rightarrow> bool \<times> string" where
  "jail_mac b =
     (case jb_Mac b of
        NoValue \<Rightarrow> (False, [])
      | Flag f \<Rightarrow> (f, [])
      | Name m \<Rightarrow> if TrimSpace m \<noteq> [] then (True, TrimSpace m) else (False, []))"

text \<open>\<open>strings.SplitN(v, ":", 2)\<close> into two non-empty parts.\<close>

definition split_volume :: "string \<Rightarrow> (string \<times> string) option" where
  "split_volume v =
     (case index_byte (CHR '':'') v of
        None \<Rightarrow> None
      | Some k \<Rightarrow> if take k v = [] \<or> drop (Suc k) v = [] then None else Some (take k v, drop (Suc k) v))"

fun jail_volumes ::
  "(string \<Rightarrow> eval_error + string) \<Rightarrow> string option \<Rightarrow> string \<Rightarrow> string list \<Rightarrow> (string + (string \<times> string) list) option" where
  "jail_volumes ev wd dataDir [] = Some (Inr [])"
| "jail_volumes ev wd dataDir (v # vs) =
     (let v = TrimSpace v in
      if v = [] then jail_volumes ev wd dataDir vs
      else
        (case split_volume v of
           None \<Rightarrow> Some (Inl (''bad volume: '' @ v))
         | Some (src, dst) \<Rightarrow>
           (case validateBastilleVolume ev wd dataDir (TrimSpace src) (TrimSpace dst) of
              None \<Rightarrow> None
            | Some (Some e) \<Rightarrow> Some (Inl e)
            | Some None \<Rightarrow> map_option (map_sum id ((#) (TrimSpace src, TrimSpace dst))) (jail_volumes ev wd dataDir vs))))"

definition handleBastilleCreate ::
  "(jail_create \<Rightarrow> engine_error + 'a) \<Rightarrow> (string \<Rightarrow> eval_error + string) \<Rightarrow> string option \<Rightarrow> string \<Rightarrow>
   identity option \<Rightarrow> jail_body option \<Rightarrow> 'a reply option" where
  "handleBastilleCreate bastilleCreate ev wd dataDir ident body =
     (if \<not> requireAdmin ident then Some (Fail 403 ''administrator required'')
      else
        (case body of
           None \<Rightarrow> Some (Fail 400 ''malformed body'')
         | Some b \<Rightarrow>
           if jb_Name b = [] then Some (Fail 400 ''name missing'')
           else if isAllDigits (jb_Name b) then Some (Fail 400 ''name of digits only'')
           else if \<not> safePathSegment (jb_Name b) then Some (Fail 400 (''bad name: '' @ jb_Name b))
           else if jb_Release b \<noteq> [] \<and> \<not> safePathSegment (jb_Release b) then Some (Fail 400 (''bad release: '' @ jb_Release b))
           else
             (case validateCLIPositional ''ip'' (jb_IP b) of Some e \<Rightarrow> Some (Fail 400 e) | None \<Rightarrow>
             (case validateCLIPositional ''interface'' (jb_Interface b) of Some e \<Rightarrow> Some (Fail 400 e) | None \<Rightarrow>
             (case validateCLIPositional ''bridge'' (jb_Bridge b) of Some e \<Rightarrow> Some (Fail 400 e) | None \<Rightarrow>
             (case validateContainerWorkdir (jb_Workdir b) of Some e \<Rightarrow> Some (Fail 400 e) | None \<Rightarrow>
               let typ = (if jb_Type b = [] then ''thin'' else jb_Type b);
                   (vnetMode, iface) = jail_net b;
                   (macFlag, macAddr) = jail_mac b
               in (case (if macAddr \<noteq> [] then validateMACAddress macAddr else None) of Some e \<Rightarrow> Some (Fail 400 e) | None \<Rightarrow>
                  (case jail_volumes ev wd dataDir (jb_Volumes b) of
                     None \<Rightarrow> None
                   | Some (Inl e) \<Rightarrow> Some (Fail 400 e)
                   | Some (Inr volumes) \<Rightarrow>
                       Some (engine_reply (bastilleCreate
                         \<lparr>jc_name = jb_Name b, jc_release = jb_Release b, jc_ip = jb_IP b, jc_type = typ, jc_vnet = vnetMode,
                          jc_iface = iface, jc_macFlag = macFlag, jc_macAddr = macAddr, jc_volumes = volumes,
                          jc_workdir = jb_Workdir b, jc_memoryLimitMb = jb_MemoryLimitMb b, jc_cpus = jb_Cpus b,
                          jc_diskLimitMb = jb_DiskLimitMb b\<rparr>))))))))))"

subsection \<open>What reaches docker\<close>

text \<open>
  How docker reads the arguments of \<open>create\<close>: options that each take the next argument as value, up
  to the first argument that does not begin with a dash, which is the image; the rest is the
  command inside the container.
\<close>

fun docker_parse :: "string list \<Rightarrow> ((string \<times> string) list \<times> string \<times> string list) option" where
  "docker_parse [] = None"
| "docker_parse (a # as) =
     (if HasPrefix a ''-''
      then (case as of
              [] \<Rightarrow> None
            | v # rest \<Rightarrow> map_option (\<lambda>(os, img, cmd). ((a, v) # os, img, cmd)) (docker_parse rest))
      else Some ([], a, as))"

lemma docker_parse_options:
  assumes "\<forall>(f, v) \<in> set os. HasPrefix f ''-''" "\<not> HasPrefix img ''-''"
  shows "docker_parse (concat (map (\<lambda>(f, v). opt f v) os) @ img # cmd) = Some (os, img, cmd)"
  using assms(1)
proof (induction os)
  case Nil
  then show ?case using assms(2) by simp
next
  case (Cons o1 os)
  then show ?case by (cases o1) (simp add: opt_def)
qed

lemma create_options_dash: "\<forall>(f, v) \<in> set (create_options b). HasPrefix f ''-''"
  by (auto simp: create_options_def HasPrefix_def split: option.splits if_splits)

lemma image_not_option:
  assumes "validateCLIPositional l v = None"
  shows "\<not> HasPrefix v ''-''"
proof
  assume "HasPrefix v ''-''"
  then obtain w where v: "v = CHR ''-'' # w" by (cases v) (auto simp: HasPrefix_def)
  have "\<not> is_space (CHR ''-'')" by code_simp
  then have "dropWhile is_space (rev (dropWhile is_space v)) \<noteq> []" "last (dropWhile is_space (rev (dropWhile is_space v))) = CHR ''-''"
    by (auto simp: v dropWhile_eq_Nil_conv dropWhile_append)
  then have "TrimSpace v \<noteq> []" "hd (TrimSpace v) = CHR ''-''" by (simp_all add: TrimSpace_def hd_rev)
  then have "TrimSpace v \<noteq> []" "HasPrefix (TrimSpace v) ''-''" by (cases "TrimSpace v"; simp add: HasPrefix_def)+
  then show False using assms by (simp add: validateCLIPositional_def)
qed


definition ex_create :: create_body where
  "ex_create = \<lparr>cb_Name = ''mc'', cb_Image = ''itzg/mc'', cb_Command = ''sh -c id'', cb_Workdir = ''/data'',
     cb_Ports = [''25565:25565''], cb_Volumes = [''world:/data''], cb_Env = [(''TZ'', ''--privileged'')],
     cb_RestartPolicy = [], cb_MemoryLimitMb = 512, cb_Cpus = None, cb_DiskLimitMb = 0\<rparr>"


subsection \<open>What reaches bastille\<close>

lemma mac_inert:
  assumes "validateMACAddress m = None"
  shows "set (TrimSpace m) \<subseteq> set (digit_chars @ ''abcdefABCDEF:'')"
proof -
  have "over (set (digit_chars @ ''abcdefABCDEF:'')) macAddressPattern"
    by (auto simp: macAddressPattern_def re_hex2_def numeral_eq_Suc)
  then show ?thesis using assms match_whole_over by (auto simp: validateMACAddress_def split: if_splits)
qed

lemma jail_volumes_accepted:
  "jail_volumes ev wd dataDir vs = Some (Inr out) \<Longrightarrow>
   \<forall>(src, dst) \<in> set out. validateBastilleVolume ev wd dataDir src dst = Some None"
proof (induction vs arbitrary: out)
  case (Cons v vs)
  show ?case
  proof (cases "TrimSpace v = []")
    case True
    then show ?thesis using Cons by simp
  next
    case False
    then obtain src dst z where z: "validateBastilleVolume ev wd dataDir (TrimSpace src) (TrimSpace dst) = Some None"
      "jail_volumes ev wd dataDir vs = Some z" "map_sum id ((#) (TrimSpace src, TrimSpace dst)) z = Inr out"
      using Cons.prems by (auto simp: Let_def split: option.splits)
    then obtain out' where "z = Inr out'" "out = (TrimSpace src, TrimSpace dst) # out'" by (cases z) auto
    then show ?thesis using z Cons.IH by simp
  qed
qed simp

text \<open>
  Only an administrator creates jails, and nothing a request holds can break out of what is
  written for it: the name and the release are single path segments, the address written into
  jail.conf consists of hexadecimal digits and colons, the working directory that goes into a
  quoted line has no quote and no line break, and every mount was accepted by the mount check.
\<close>

theorem jail_request_inert:
  assumes "handleBastilleCreate Inr ev wd dataDir ident (Some b) = Some (Reply c)"
  shows "requireAdmin ident \<and> safePathSegment (jc_name c) \<and> (jc_release c = [] \<or> safePathSegment (jc_release c)) \<and>
    set (jc_macAddr c) \<subseteq> set (digit_chars @ ''abcdefABCDEF:'') \<and>
    CHR 0x27 \<notin> set (jc_workdir c) \<and> CHR 0x0A \<notin> set (jc_workdir c) \<and>
    (\<forall>(src, dst) \<in> set (jc_volumes c). validateHostMountSource ev wd dataDir src = Some None)"
proof -
  obtain mode iface where net: "jail_net b = (mode, iface)" by fastforce
  obtain flag addr where mac: "jail_mac b = (flag, addr)" by fastforce
  have g: "requireAdmin ident" "safePathSegment (jb_Name b)" "jb_Release b = [] \<or> safePathSegment (jb_Release b)"
    "validateContainerWorkdir (jb_Workdir b) = None" "addr \<noteq> [] \<longrightarrow> validateMACAddress addr = None"
    using assms by (auto simp: handleBastilleCreate_def net mac Let_def split: if_splits option.splits)
  obtain vols where v: "jail_volumes ev wd dataDir (jb_Volumes b) = Some (Inr vols)"
    using assms by (auto simp: handleBastilleCreate_def net mac Let_def split: if_splits option.splits sum.splits)
  have c: "jc_name c = jb_Name b" "jc_release c = jb_Release b" "jc_macAddr c = addr" "jc_workdir c = jb_Workdir b"
    "jc_volumes c = vols"
    using assms v by (auto simp: handleBastilleCreate_def net mac Let_def split: if_splits option.splits)
  have "TrimSpace addr = addr" using mac by (auto simp: jail_mac_def TrimSpace_def [of "[]"] split: flag_or_name.splits if_splits)
  then have "set addr \<subseteq> set (digit_chars @ ''abcdefABCDEF:'')" using mac_inert [of addr] g(5) by (cases "addr = []") auto
  moreover have "CHR 0x27 \<notin> set (jb_Workdir b)" "CHR 0x0A \<notin> set (jb_Workdir b)"
    using g(4) by (auto simp: validateContainerWorkdir_def ContainsAny_iff split: if_splits)
  moreover have "\<forall>(src, dst) \<in> set vols. validateHostMountSource ev wd dataDir src = Some None"
    using jail_volumes_accepted [OF v] by (auto simp: validateBastilleVolume_def split: option.splits)
  ultimately show ?thesis using g c by simp
qed

definition ex_jail :: jail_body where
  "ex_jail = \<lparr>jb_Name = ''mc1'', jb_Release = ''14.1-RELEASE'', jb_IP = ''10.0.0.2'', jb_Type = [], jb_Vnet = Flag True,
     jb_Interface = ''em0'', jb_Bridge = [], jb_Mac = Name '' 02:00:00:aa:00:01'', jb_Volumes = [''/srv/mc:/data''],
     jb_Workdir = ''/data'', jb_MemoryLimitMb = 0, jb_Cpus = 0, jb_DiskLimitMb = 0\<rparr>"

theorem jail_request_inert_witness:
  "safePathSegment ''mc1'' \<and> set ''02:00:00:aa:00:01'' \<subseteq> set (digit_chars @ ''abcdefABCDEF:'') \<and>
   validateHostMountSource linkless None ''/opt/irix/data'' ''/srv/mc'' = Some None"
proof -
  have t: "TrimSpace ''/srv/mc'' = ''/srv/mc''" "TrimSpace ''/data'' = ''/data''"
    "TrimSpace '' 02:00:00:aa:00:01'' = ''02:00:00:aa:00:01''" "TrimSpace ''/srv/mc:/data'' = ''/srv/mc:/data''" by code_simp+
  have "prefix (root_words ''/srv/mc'') [''srv'', ''mc'']" "Clean ''/srv/mc'' = ''/srv/mc''" by code_simp+
  then have r: "resolveExistingPrefix linkless ''/srv/mc'' = Some (Inr ''/srv/mc'')"
    by (subst resolveExistingPrefix.simps) (simp add: linkless_def)
  have "checkHostPathAllowed None ''/opt/irix/data'' ''/srv/mc'' = None" "isPosixAbs ''/srv/mc''" by code_simp+
  then have m: "validateHostMountSource linkless None ''/opt/irix/data'' ''/srv/mc'' = Some None"
    using t r by (simp add: validateHostMountSource_def Let_def ContainsAny_def)
  have "validateContainerPath ''target in the jail'' ''/data'' = None" "split_volume ''/srv/mc:/data'' = Some (''/srv/mc'', ''/data'')"
    by code_simp+
  with m t have vols: "jail_volumes linkless None ''/opt/irix/data'' [''/srv/mc:/data''] = Some (Inr [(''/srv/mc'', ''/data'')])"
    by (simp add: validateBastilleVolume_def Let_def)
  have n: "jail_net ex_jail = (''vnet'', ''em0'')" "jail_mac ex_jail = (True, ''02:00:00:aa:00:01'')" by code_simp+
  have v: "isAllDigits ''mc1'' = False" "safePathSegment ''mc1''" "safePathSegment ''14.1-RELEASE''"
    "validateCLIPositional ''ip'' ''10.0.0.2'' = None" "validateCLIPositional ''interface'' ''em0'' = None"
    "validateCLIPositional ''bridge'' [] = None" "validateContainerWorkdir ''/data'' = None"
    "validateMACAddress ''02:00:00:aa:00:01'' = None" by code_simp+
  have f: "jb_Name ex_jail = ''mc1''" "jb_Release ex_jail = ''14.1-RELEASE''" "jb_IP ex_jail = ''10.0.0.2''"
    "jb_Interface ex_jail = ''em0''" "jb_Bridge ex_jail = []" "jb_Workdir ex_jail = ''/data''"
    "jb_Volumes ex_jail = [''/srv/mc:/data'']" by (simp_all add: ex_jail_def)
  have a: "requireAdmin (Some \<lparr>id_username = ''root'', id_isAdmin = True, id_via = []\<rparr>)" by (simp add: requireAdmin_def)
  have "\<exists>c. handleBastilleCreate Inr linkless None ''/opt/irix/data'' (Some \<lparr>id_username = ''root'', id_isAdmin = True, id_via = []\<rparr>) (Some ex_jail) =
      Some (Reply c) \<and> jc_name c = ''mc1'' \<and> jc_macAddr c = ''02:00:00:aa:00:01'' \<and> jc_volumes c = [(''/srv/mc'', ''/data'')]"
    by (simp add: handleBastilleCreate_def a v n vols f del: jail_volumes.simps)
  then obtain c where h: "handleBastilleCreate Inr linkless None ''/opt/irix/data''
      (Some \<lparr>id_username = ''root'', id_isAdmin = True, id_via = []\<rparr>) (Some ex_jail) = Some (Reply c)"
    and c: "jc_name c = ''mc1''" "jc_macAddr c = ''02:00:00:aa:00:01''" "jc_volumes c = [(''/srv/mc'', ''/data'')]" by blast
  from jail_request_inert [OF h] show ?thesis unfolding c by simp
qed

end
