(* ===== verification/FileSys.thy ===== *)
theory FileSys
  imports GoText Paths "HOL-Library.List_Lexorder" "HOL-Library.Char_ord"
begin

text \<open>
  The file system below the handlers that manage files, and the functions of Go's \<open>os\<close> package on
  it. A tree is a finite map from paths, as the lists of their words from the root, to directories
  and files. It has no symbolic links: the checks of the code resolve links through a parameter
  (\<open>Paths\<close>), the operations act on the paths they are given. An operation answers \<open>None\<close> where
  the system call fails for the shape of the tree; lack of room or of rights is not modelled.
\<close>

subsection \<open>Trees\<close>

datatype fnode = FDir | FFile string

type_synonym fs = "(string list, fnode) fmap"

definition node_at :: "fs \<Rightarrow> string \<Rightarrow> fnode option" where
  "node_at fs p = fmlookup fs (root_words p)"

definition fs_keys :: "fs \<Rightarrow> string list list" where
  "fs_keys fs = sorted_list_of_fset (fmdom fs)"

definition mkdir1 :: "string list \<Rightarrow> fs \<Rightarrow> fs option" where
  "mkdir1 ws fs =
     (case fmlookup fs ws of None \<Rightarrow> Some (fmupd ws FDir fs) | Some FDir \<Rightarrow> Some fs | Some (FFile _) \<Rightarrow> None)"

fun mkdir_words :: "string list \<Rightarrow> string list \<Rightarrow> fs \<Rightarrow> fs option" where
  "mkdir_words pre [] fs = mkdir1 pre fs"
| "mkdir_words pre (w # ws) fs =
     (case mkdir1 pre fs of None \<Rightarrow> None | Some fs \<Rightarrow> mkdir_words (pre @ [w]) ws fs)"

definition MkdirAll :: "string \<Rightarrow> fs \<Rightarrow> fs option" where
  "MkdirAll p fs = mkdir_words [] (root_words p) fs"

definition put_file :: "string list \<Rightarrow> string \<Rightarrow> fs \<Rightarrow> fs option" where
  "put_file ws data fs =
     (if ws = [] \<or> fmlookup fs ws = Some FDir \<or> fmlookup fs (butlast ws) \<noteq> Some FDir then None
      else Some (fmupd ws (FFile data) fs))"

definition WriteFile :: "string \<Rightarrow> string \<Rightarrow> fs \<Rightarrow> fs option" where
  "WriteFile p data fs = put_file (root_words p) data fs"

definition ReadFile :: "string \<Rightarrow> fs \<Rightarrow> string option" where
  "ReadFile p fs = (case node_at fs p of Some (FFile data) \<Rightarrow> Some data | _ \<Rightarrow> None)"

text \<open>\<open>os.OpenFile\<close> with \<open>O_CREATE\<close>: an existing file is left as it is.\<close>

definition OpenCreate :: "string \<Rightarrow> fs \<Rightarrow> fs option" where
  "OpenCreate p fs = (case node_at fs p of Some (FFile _) \<Rightarrow> Some fs | _ \<Rightarrow> WriteFile p [] fs)"

text \<open>A write to the end of an open file.\<close>

definition append_file :: "string \<Rightarrow> string \<Rightarrow> fs \<Rightarrow> fs" where
  "append_file p data fs =
     (case node_at fs p of Some (FFile old) \<Rightarrow> fmupd (root_words p) (FFile (old @ data)) fs | _ \<Rightarrow> fs)"

text \<open>\<open>os.Remove\<close> of a file; \<open>None\<close> where there is none.\<close>

definition remove_file :: "string \<Rightarrow> fs \<Rightarrow> fs option" where
  "remove_file p fs = (case node_at fs p of Some (FFile _) \<Rightarrow> Some (fmdrop (root_words p) fs) | _ \<Rightarrow> None)"

definition drop_file :: "string \<Rightarrow> fs \<Rightarrow> fs" where
  "drop_file p fs = (case remove_file p fs of None \<Rightarrow> fs | Some fs \<Rightarrow> fs)"

definition RemoveAll :: "string \<Rightarrow> fs \<Rightarrow> fs" where
  "RemoveAll p fs = fmfilter (\<lambda>ws. ws = [] \<or> \<not> prefix (root_words p) ws) fs"

definition move_tree :: "string list \<Rightarrow> string list \<Rightarrow> fs \<Rightarrow> fs" where
  "move_tree s d fs =
     fmadd (fmfilter (\<lambda>k. \<not> prefix s k \<and> k \<noteq> d) fs)
       (fmap_of_list (map (\<lambda>k. (d @ drop (length s) k, the (fmlookup fs k))) (filter (prefix s) (fs_keys fs))))"

text \<open>\<open>os.Rename\<close> on Unix refuses an existing directory as target.\<close>

definition rename_words :: "string list \<Rightarrow> string list \<Rightarrow> fs \<Rightarrow> fs option" where
  "rename_words s d fs =
     (case fmlookup fs s of
        None \<Rightarrow> None
      | Some n \<Rightarrow>
          if fmlookup fs d = Some FDir then None
          else if d = s then Some fs
          else if prefix s d \<or> d = [] \<or> fmlookup fs (butlast d) \<noteq> Some FDir then None
          else if fmlookup fs d \<noteq> None \<and> n = FDir then None
          else Some (move_tree s d fs))"

definition Rename :: "string \<Rightarrow> string \<Rightarrow> fs \<Rightarrow> fs option" where
  "Rename src dst fs = rename_words (root_words src) (root_words dst) fs"

definition children :: "string list \<Rightarrow> fs \<Rightarrow> string list" where
  "children ws fs = map last (filter (\<lambda>k. k \<noteq> [] \<and> butlast k = ws) (fs_keys fs))"

definition ReadDir :: "string \<Rightarrow> fs \<Rightarrow> string list option" where
  "ReadDir p fs = (if node_at fs p = Some FDir then Some (children (root_words p) fs) else None)"

definition node_size :: "fnode \<Rightarrow> int" where
  "node_size n = (case n of FDir \<Rightarrow> 0 | FFile data \<Rightarrow> int (length data))"

subsection \<open>Lookups\<close>

lemma set_fs_keys [simp]: "k \<in> set (fs_keys fs) \<longleftrightarrow> fmlookup fs k \<noteq> None"
  by (simp add: fs_keys_def fmlookup_dom_iff)

lemma mkdir1_lookup:
  "mkdir1 ws fs = Some fs' \<Longrightarrow> fmlookup fs' x = (if x = ws then Some FDir else fmlookup fs x)"
  by (auto simp: mkdir1_def split: option.splits fnode.splits)

lemma mkdir_words_lookup:
  "mkdir_words pre ws fs = Some fs' \<Longrightarrow>
   fmlookup fs' x = (if prefix pre x \<and> prefix x (pre @ ws) then Some FDir else fmlookup fs x)"
proof (induction ws arbitrary: pre fs)
  case Nil
  then show ?case using mkdir1_lookup [of pre fs fs' x] by (auto dest: prefix_order.antisym)
next
  case (Cons w ws)
  then obtain fs1 where m: "mkdir1 pre fs = Some fs1" "mkdir_words (pre @ [w]) ws fs1 = Some fs'"
    by (auto split: option.splits)
  have "fmlookup fs' x = (if prefix (pre @ [w]) x \<and> prefix x (pre @ w # ws) then Some FDir else fmlookup fs1 x)"
    using Cons.IH [OF m(2)] by simp
  moreover have "prefix pre x \<and> prefix x (pre @ w # ws) \<longleftrightarrow> x = pre \<or> prefix (pre @ [w]) x \<and> prefix x (pre @ w # ws)"
    by (auto simp: prefix_def append_eq_append_conv2 Cons_eq_append_conv)
  ultimately show ?case using mkdir1_lookup [OF m(1)] by auto
qed

lemma MkdirAll_lookup:
  "MkdirAll p fs = Some fs' \<Longrightarrow> fmlookup fs' x = (if prefix x (root_words p) then Some FDir else fmlookup fs x)"
  using mkdir_words_lookup [of "[]"] by (simp add: MkdirAll_def)

lemma mkdir_words_ok:
  "(\<And>x. prefix pre x \<Longrightarrow> prefix x (pre @ ws) \<Longrightarrow> fmlookup fs x \<in> {None, Some FDir}) \<Longrightarrow> \<exists>fs'. mkdir_words pre ws fs = Some fs'"
proof (induction ws arbitrary: pre fs)
  case Nil
  then have "fmlookup fs pre \<in> {None, Some FDir}" by simp
  then show ?case by (auto simp: mkdir1_def)
next
  case (Cons w ws)
  have "fmlookup fs pre \<in> {None, Some FDir}" using Cons.prems [of pre] by simp
  then obtain fs1 where m: "mkdir1 pre fs = Some fs1" by (auto simp: mkdir1_def)
  have "\<exists>fs'. mkdir_words (pre @ [w]) ws fs1 = Some fs'"
    using Cons.prems mkdir1_lookup [OF m] by (intro Cons.IH) (auto dest: append_prefixD)
  then show ?case using m by simp
qed

lemma mkdir_words_exists:
  "(\<And>x. prefix pre x \<Longrightarrow> prefix x (pre @ ws) \<Longrightarrow> fmlookup fs x = Some FDir) \<Longrightarrow> mkdir_words pre ws fs = Some fs"
proof (induction ws arbitrary: pre)
  case Nil
  then have "fmlookup fs pre = Some FDir" by simp
  then show ?case by (simp add: mkdir1_def)
next
  case (Cons w ws)
  have "fmlookup fs pre = Some FDir" using Cons.prems [of pre] by simp
  moreover have "mkdir_words (pre @ [w]) ws fs = Some fs" using Cons.prems by (intro Cons.IH) (auto dest: append_prefixD)
  ultimately show ?case by (simp add: mkdir1_def)
qed

lemma put_file_lookup:
  "put_file ws data fs = Some fs' \<Longrightarrow>
   fmlookup fs' x = (if x = ws then Some (FFile data) else fmlookup fs x) \<and> ws \<noteq> [] \<and> fmlookup fs ws \<noteq> Some FDir \<and>
   fmlookup fs (butlast ws) = Some FDir"
  by (auto simp: put_file_def split: if_splits)

lemma RemoveAll_lookup:
  "fmlookup (RemoveAll p fs) x = (if x \<noteq> [] \<and> prefix (root_words p) x then None else fmlookup fs x)"
  by (auto simp: RemoveAll_def)

lemma move_tree_lookup:
  assumes "\<not> prefix s d"
  shows "fmlookup (move_tree s d fs) x =
    (if prefix d x \<and> fmlookup fs (s @ drop (length d) x) \<noteq> None then fmlookup fs (s @ drop (length d) x)
     else if prefix s x \<or> x = d then None else fmlookup fs x)"
proof -
  let ?new = "map (\<lambda>k. (d @ drop (length s) k, the (fmlookup fs k))) (filter (prefix s) (fs_keys fs))"
  have new: "map_of ?new x = (if prefix d x \<and> fmlookup fs (s @ drop (length d) x) \<noteq> None
      then fmlookup fs (s @ drop (length d) x) else None)"
  proof (cases "prefix d x \<and> fmlookup fs (s @ drop (length d) x) \<noteq> None")
    case True
    then obtain r n where r: "x = d @ r" "fmlookup fs (s @ r) = Some n" by (auto simp: prefix_def)
    have "map_of ?new x \<noteq> None"
    proof -
      have "s @ r \<in> set (filter (prefix s) (fs_keys fs))" using r(2) by simp
      then have "(d @ drop (length s) (s @ r), the (fmlookup fs (s @ r))) \<in> set ?new" unfolding set_map
        by (rule image_eqI [rotated]) simp
      then have "x \<in> fst ` set ?new" using r(1) by (force simp del: set_map)
      then show ?thesis by (simp only: map_of_eq_None_iff not_not)
    qed
    then obtain v where v: "map_of ?new x = Some v" by blast
    then have "(x, v) \<in> set ?new" by (rule map_of_SomeD)
    then obtain k where "prefix s k" "x = d @ drop (length s) k" "v = the (fmlookup fs k)" by auto
    then have "v = n" using r by (auto simp: prefix_def)
    then show ?thesis using r v by auto
  next
    case False
    have "map_of ?new x = None"
    proof (rule ccontr)
      assume "map_of ?new x \<noteq> None"
      then obtain v where "map_of ?new x = Some v" by blast
      then have "(x, v) \<in> set ?new" by (rule map_of_SomeD)
      then obtain k where "prefix s k" "x = d @ drop (length s) k" "fmlookup fs k \<noteq> None" by auto
      then show False using False by (auto simp: prefix_def)
    qed
    with False show ?thesis by auto
  qed
  define n where "n = fmap_of_list ?new"
  have n: "fmlookup n x = map_of ?new x" by (simp only: n_def fmlookup_of_list)
  have "fmlookup (move_tree s d fs) x =
      (if fmlookup n x \<noteq> None then fmlookup n x else if prefix s x \<or> x = d then None else fmlookup fs x)"
    unfolding move_tree_def n_def [symmetric] by (auto simp: fmlookup_dom_iff)
  then show ?thesis unfolding n new by auto
qed

lemma rename_words_Some:
  "rename_words s d fs = Some fs' \<Longrightarrow>
   fmlookup fs s \<noteq> None \<and> fmlookup fs d \<noteq> Some FDir \<and>
   (d = s \<and> fs' = fs \<or> \<not> prefix s d \<and> d \<noteq> [] \<and> fmlookup fs (butlast d) = Some FDir \<and> fs' = move_tree s d fs \<and>
      (fmlookup fs d \<noteq> None \<longrightarrow> fmlookup fs s \<noteq> Some FDir))"
  by (auto simp: rename_words_def split: option.splits if_splits)

lemma children_iff: "w \<in> set (children ws fs) \<longleftrightarrow> fmlookup fs (ws @ [w]) \<noteq> None"
proof
  assume "w \<in> set (children ws fs)"
  then obtain k where "k \<noteq> []" "butlast k = ws" "w = last k" "fmlookup fs k \<noteq> None" by (auto simp: children_def)
  then show "fmlookup fs (ws @ [w]) \<noteq> None" by (metis append_butlast_last_id)
next
  assume "fmlookup fs (ws @ [w]) \<noteq> None"
  then show "w \<in> set (children ws fs)" by (force simp: children_def intro!: image_eqI [of _ _ "ws @ [w]"])
qed

subsection \<open>Well-formed trees\<close>

text \<open>The root is a directory and so is whatever something lies in; names are names.\<close>

definition fs_ok :: "fs \<Rightarrow> bool" where
  "fs_ok fs \<longleftrightarrow> fmlookup fs [] = Some FDir \<and>
     (\<forall>ws w. fmlookup fs (ws @ [w]) \<noteq> None \<longrightarrow> fmlookup fs ws = Some FDir) \<and>
     (\<forall>ws. fmlookup fs ws \<noteq> None \<longrightarrow> list_all real_word ws)"

lemma fs_ok_real: "fs_ok fs \<Longrightarrow> fmlookup fs ws \<noteq> None \<Longrightarrow> list_all real_word ws"
  unfolding fs_ok_def by blast

lemma fs_ok_parent: "fs_ok fs \<Longrightarrow> fmlookup fs (ws @ [w]) = Some n \<Longrightarrow> fmlookup fs ws = Some FDir"
  unfolding fs_ok_def by blast

lemma fs_ok_above:
  assumes "fs_ok fs" "strict_prefix u x" "fmlookup fs x \<noteq> None"
  shows "fmlookup fs u = Some FDir"
  using assms(2,3)
proof (induction x rule: rev_induct)
  case (snoc w x)
  then have "fmlookup fs x = Some FDir" using fs_ok_parent [OF assms(1)] by blast
  moreover have "u = x \<or> strict_prefix u x" using snoc.prems(1) by (auto simp: strict_prefix_def)
  ultimately show ?case using snoc.IH by auto
qed simp

lemma fs_ok_butlast: "fs_ok fs \<Longrightarrow> ws \<noteq> [] \<Longrightarrow> fmlookup fs ws \<noteq> None \<Longrightarrow> fmlookup fs (butlast ws) = Some FDir"
  using fs_ok_parent [of fs "butlast ws" "last ws"] by auto

lemma MkdirAll_exists: "fs_ok fs \<Longrightarrow> node_at fs p = Some FDir \<Longrightarrow> MkdirAll p fs = Some fs"
  unfolding MkdirAll_def node_at_def
  by (rule mkdir_words_exists) (metis append_Nil fs_ok_above option.distinct(1) prefix_order.le_less)

lemma MkdirAll_ok:
  assumes "fs_ok fs" "MkdirAll p fs = Some fs'"
  shows "fs_ok fs'"
proof -
  have "list_all real_word x" if "prefix x (root_words p)" for x
    using that root_words_real [of p] by (metis prefix_def list_all_append)
  then show ?thesis
    using assms(1) unfolding fs_ok_def by (auto simp: MkdirAll_lookup [OF assms(2)] dest: append_prefixD)
qed

lemma put_file_ok:
  assumes "fs_ok fs" "list_all real_word ws" "put_file ws data fs = Some fs'"
  shows "fs_ok fs'"
proof -
  note l = put_file_lookup [OF assms(3)]
  have "fmlookup fs' x = Some FDir" if "fmlookup fs' (x @ [w]) \<noteq> None" for x w
  proof -
    have "fmlookup fs x = Some FDir"
    proof (cases "x @ [w] = ws")
      case True
      then show ?thesis using l by (metis butlast_snoc)
    next
      case False
      then show ?thesis using that l fs_ok_parent [OF assms(1)] by auto
    qed
    then show ?thesis using l by auto
  qed
  then show ?thesis using assms(1,2) l unfolding fs_ok_def by auto
qed

lemma RemoveAll_ok: "fs_ok fs \<Longrightarrow> fs_ok (RemoveAll p fs)"
  unfolding fs_ok_def by (auto simp: RemoveAll_lookup)

lemma rename_words_ok:
  assumes "fs_ok fs" "list_all real_word d" "rename_words s d fs = Some fs'"
  shows "fs_ok fs'"
proof (cases "d = s")
  case True
  then have "fs' = fs" using rename_words_Some [OF assms(3)] by auto
  then show ?thesis using assms(1) by simp
next
  case False
  then have r: "\<not> prefix s d" "d \<noteq> []" "fmlookup fs (butlast d) = Some FDir" "fs' = move_tree s d fs"
    "fmlookup fs d \<noteq> Some FDir" "fmlookup fs s \<noteq> None"
    using rename_words_Some [OF assms(3)] by auto
  have s: "s \<noteq> []" using r(1) by auto
  note l = move_tree_lookup [OF r(1), of fs]
  have empty_below: "fmlookup fs x = None" if "strict_prefix d x" for x
    using fs_ok_above [OF assms(1) that] r(5) by blast
  have keep: "fmlookup fs' x = Some FDir" if "fmlookup fs x = Some FDir" "\<not> prefix s x" for x
  proof -
    have "\<not> strict_prefix d x"
    proof
      assume "strict_prefix d x"
      from empty_below [OF this] that(1) show False by simp
    qed
    moreover have "d \<noteq> x" using that(1) r(5) by blast
    ultimately have "\<not> prefix d x" by (simp add: prefix_order.le_less)
    moreover from this have "x \<noteq> d" by auto
    ultimately show ?thesis using that by (simp add: r(4) l)
  qed
  have "fmlookup fs' x = Some FDir" if n: "fmlookup fs' (x @ [w]) \<noteq> None" for x w
  proof (cases "prefix d (x @ [w]) \<and> fmlookup fs (s @ drop (length d) (x @ [w])) \<noteq> None")
    case True
    show ?thesis
    proof (cases "d = x @ [w]")
      case True
      moreover have "\<not> prefix s x" using r(1) True by auto
      ultimately show ?thesis using keep r(3) by (metis butlast_snoc)
    next
      case False
      then have "prefix d x" using True by auto
      moreover have "fmlookup fs (s @ drop (length d) x) = Some FDir"
      proof -
        have "s @ drop (length d) (x @ [w]) = (s @ drop (length d) x) @ [w]"
          using \<open>prefix d x\<close> by (auto simp: prefix_def)
        then show ?thesis using True fs_ok_parent [OF assms(1)] by (metis option.exhaust)
      qed
      ultimately show ?thesis by (simp add: r(4) l)
    qed
  next
    case False
    then have f: "fmlookup fs (x @ [w]) \<noteq> None" "\<not> prefix s (x @ [w])"
      using n by (auto simp: r(4) l split: if_splits)
    then have "fmlookup fs x = Some FDir" "\<not> prefix s x" using fs_ok_parent [OF assms(1)] by auto
    then show ?thesis by (rule keep)
  qed
  moreover have "fmlookup fs' [] = Some FDir" using assms(1) s by (intro keep) (auto simp: fs_ok_def)
  moreover have "list_all real_word x" if n: "fmlookup fs' x \<noteq> None" for x
  proof (cases "prefix d x \<and> fmlookup fs (s @ drop (length d) x) \<noteq> None")
    case True
    then have "list_all real_word (s @ drop (length d) x)" "x = d @ drop (length d) x"
      using True fs_ok_real [OF assms(1), of "s @ drop (length d) x"] by (blast, auto simp: prefix_def)
    then show ?thesis using assms(2) by (metis list_all_append)
  next
    case False
    then have "fmlookup fs x \<noteq> None" using n by (auto simp: r(4) l split: if_splits)
    then show ?thesis by (rule fs_ok_real [OF assms(1)])
  qed
  ultimately show ?thesis by (simp add: fs_ok_def)
qed

subsection \<open>Changes below a directory\<close>

definition same_outside :: "string list \<Rightarrow> fs \<Rightarrow> fs \<Rightarrow> bool" where
  "same_outside base fs fs' \<longleftrightarrow> (\<forall>x. \<not> prefix base x \<longrightarrow> fmlookup fs' x = fmlookup fs x)"

text \<open>Every directory above \<open>base\<close> exists.\<close>

definition anchored :: "string list \<Rightarrow> fs \<Rightarrow> bool" where
  "anchored base fs \<longleftrightarrow> (\<forall>u. strict_prefix u base \<longrightarrow> fmlookup fs u = Some FDir)"

named_theorems confined

lemma same_outside_refl [simp]: "same_outside base fs fs"
  by (simp add: same_outside_def)

lemma same_outside_trans [trans]: "same_outside base fs fs1 \<Longrightarrow> same_outside base fs1 fs2 \<Longrightarrow> same_outside base fs fs2"
  by (simp add: same_outside_def)

lemma anchored_outside: "same_outside base fs fs' \<Longrightarrow> anchored base fs \<Longrightarrow> anchored base fs'"
  unfolding same_outside_def anchored_def by (metis prefix_order.leD)

lemma fs_ok_anchored: "fs_ok fs \<Longrightarrow> fmlookup fs base \<noteq> None \<Longrightarrow> anchored base fs"
  using fs_ok_above unfolding anchored_def by blast

lemma MkdirAll_confined [confined]:
  assumes "anchored base fs" "prefix base (root_words p) \<or> prefix (root_words p) base" "MkdirAll p fs = Some fs'"
  shows "same_outside base fs fs'"
proof -
  have "fmlookup fs x = Some FDir" if "prefix x (root_words p)" "\<not> prefix base x" for x
  proof -
    have "strict_prefix x base" using that assms(2)
      by (metis prefix_same_cases prefix_order.le_less prefix_order.trans prefix_order.antisym)
    then show ?thesis using assms(1) by (simp add: anchored_def)
  qed
  then show ?thesis by (auto simp: same_outside_def MkdirAll_lookup [OF assms(3)])
qed

lemma put_file_confined [confined]:
  "prefix base ws \<Longrightarrow> put_file ws data fs = Some fs' \<Longrightarrow> same_outside base fs fs'"
  by (auto simp: same_outside_def put_file_lookup)

lemma RemoveAll_confined [confined]: "prefix base (root_words p) \<Longrightarrow> same_outside base fs (RemoveAll p fs)"
  by (auto simp: same_outside_def RemoveAll_lookup)

lemma rename_words_confined [confined]:
  assumes "prefix base s" "prefix base d" "rename_words s d fs = Some fs'"
  shows "same_outside base fs fs'"
  using rename_words_Some [OF assms(3)] move_tree_lookup [of s d fs] assms(1,2)
  by (auto simp: same_outside_def)

end
