(* ===== verification/Files.thy ===== *)
theory Files
  imports FileSys VaultStore
begin

text \<open>
  The file manager of an instance (cmd/irix-node/files.go): list, read, write, delete, move, copy,
  archive, make directories and files below the instance's working directory. A stopped instance
  with encrypted files goes to the vault's store instead of the file system.

  A handler gets the instance's id and the decoded body and answers with the reply and the new
  world; an outer \<open>None\<close> is a request that panics or does not return. Modification times and modes
  are not modelled. The archive format is a parameter.
\<close>

subsection \<open>The world of the handlers\<close>

record file_world =
  fw_node :: Node
  fw_vault :: vaultState
  fw_store :: vaultStore
  fw_fs :: fs

text \<open>
  \<open>fe_rnd k\<close> and \<open>fe_io k\<close> are the random numbers and the outcome of the write that the vault's store
  uses for the \<open>k\<close>-th target of a request.
\<close>

record file_env =
  fe_C :: crypto
  fe_ev :: "string \<Rightarrow> eval_error + string"
  fe_now :: int
  fe_rnd :: "nat \<Rightarrow> nat \<Rightarrow> string option"
  fe_io :: "nat \<Rightarrow> string option"

type_synonym 'a handled = "('a reply \<times> file_world) option"

definition maxTextReadBytes :: int where "maxTextReadBytes = 8 * 2 ^ 20"
definition maxUnzipEntries :: nat where "maxUnzipEntries = 50000"
definition maxUnzipTotalBytes :: nat where "maxUnzipTotalBytes = 8 * 2 ^ 30"
definition maxZipDepth :: nat where "maxZipDepth = 64"

text \<open>Whether the files of an instance are behind the vault's store.\<close>

definition vaultFilesMode :: "file_world \<Rightarrow> nat option \<Rightarrow> string + bool" where
  "vaultFilesMode w inst =
     (case inst of
        None \<Rightarrow> Inr False
      | Some r \<Rightarrow>
        let i = obj (fw_node w) r; v = fw_vault w in
        if \<not> cf_VaultFiles (in_Config i) then Inr False
        else if \<not> vt_enabled v then Inr False
        else if in_Status i = StatusRunning \<or> in_Status i = StatusStarting then Inr False
        else if in_Status i = StatusStopping then Inl ''instance is stopping''
        else if \<not> unlockedSafe v then Inl lockedErr
        else if vt_migrating v then Inl ''vault migrating''
        else Inr True)"

definition file_mode :: "file_world \<Rightarrow> string \<Rightarrow> string + bool" where
  "file_mode w uuid = vaultFilesMode w (Find (fw_node w) uuid)"

definition vaultLogical :: "string \<Rightarrow> string \<Rightarrow> string \<Rightarrow> string + string" where
  "vaultLogical uuid cwd ab =
     (case Rel cwd ab of
        None \<Rightarrow> Inl (''cannot make relative: '' @ ab)
      | Some rel \<Rightarrow> if rel = ''.'' then Inr (''/'' @ uuid) else Inr (logicalPath uuid rel))"

text \<open>
  What every handler does with a target: resolve it, then go by the mode. \<open>enc\<close> continues on the
  store with the logical path, \<open>plain\<close> on the file system with the absolute one.
\<close>

definition on_target ::
  "file_env \<Rightarrow> string \<Rightarrow> string \<Rightarrow> string \<Rightarrow> (string \<Rightarrow> 'a handled) \<Rightarrow> (string \<Rightarrow> 'a handled) \<Rightarrow> file_world \<Rightarrow> 'a handled" where
  "on_target E uuid cwd target enc plain w =
     (case safeResolve (fe_ev E) cwd target of
        None \<Rightarrow> None
      | Some (Inl e) \<Rightarrow> Some (Fail 400 e, w)
      | Some (Inr p) \<Rightarrow>
        (case file_mode w uuid of
           Inl e \<Rightarrow> Some (Fail 400 e, w)
         | Inr True \<Rightarrow> (case vaultLogical uuid cwd p of Inl e \<Rightarrow> Some (Fail 400 e, w) | Inr l \<Rightarrow> enc l)
         | Inr False \<Rightarrow> plain p))"

text \<open>A change of the store and one of the file system, as a whole answer and as a step of a loop.\<close>

definition store_step :: "(string option \<times> vaultStore) \<Rightarrow> file_world \<Rightarrow> (file_world \<Rightarrow> unit handled) \<Rightarrow> unit handled" where
  "store_step r w next =
     (case r of (Some e, s) \<Rightarrow> Some (Fail 500 e, w\<lparr>fw_store := s\<rparr>) | (None, s) \<Rightarrow> next (w\<lparr>fw_store := s\<rparr>))"

definition fs_step :: "fs option \<Rightarrow> string \<Rightarrow> file_world \<Rightarrow> (file_world \<Rightarrow> unit handled) \<Rightarrow> unit handled" where
  "fs_step r e w next = (case r of None \<Rightarrow> Some (Fail 500 e, w) | Some fs \<Rightarrow> next (w\<lparr>fw_fs := fs\<rparr>))"

definition finish :: "file_world \<Rightarrow> unit handled" where
  "finish w = Some (Reply (), w)"

definition fileScope :: "string \<Rightarrow> (string \<Rightarrow> 'a handled) \<Rightarrow> file_world \<Rightarrow> 'a handled" where
  "fileScope uuid k w = (case CwdOf (fw_node w) uuid of Inl e \<Rightarrow> Some (Fail 400 e, w) | Inr cwd \<Rightarrow> k cwd)"

subsection \<open>Lists\<close>

record list_row =
  lr_name :: string
  lr_size :: int
  lr_type :: nat
  lr_sha256 :: string

record listing =
  li_items :: "list_row list"
  li_page :: int
  li_pageSize :: int
  li_total :: nat
  li_absolutePath :: string

definition entryType :: "fnode \<Rightarrow> nat" where
  "entryType n = (case n of FDir \<Rightarrow> 0 | FFile _ \<Rightarrow> 1)"

definition dir_row :: "crypto \<Rightarrow> bool \<Rightarrow> string \<Rightarrow> fnode \<Rightarrow> list_row" where
  "dir_row C wantHash name n =
     \<lparr>lr_name = name, lr_size = node_size n, lr_type = entryType n,
      lr_sha256 = (case n of FDir \<Rightarrow> [] | FFile data \<Rightarrow> if wantHash then cr_sha C data else [])\<rparr>"

definition shown_path :: "string \<Rightarrow> string \<Rightarrow> string" where
  "shown_path cwd dir =
     (let p = map (\<lambda>c. if c = CHR 0x5C then CHR ''/'' else c) (TrimPrefix dir cwd) in if p = [] then ''/'' else p)"

definition clip_slice :: "'a list \<Rightarrow> int \<Rightarrow> int \<Rightarrow> 'a list option" where
  "clip_slice items start pageSize =
     (let start = min start (int (length items));
          fin = min (wrap64 (start + pageSize)) (int (length items))
      in go_slice items start fin)"

definition listDir ::
  "file_env \<Rightarrow> string \<Rightarrow> string \<Rightarrow> int \<Rightarrow> int \<Rightarrow> bool \<Rightarrow> fs \<Rightarrow> (string + list_row list \<times> nat \<times> string) option" where
  "listDir E cwd target page pageSize wantHash fs =
     (case safeResolve (fe_ev E) cwd target of
        None \<Rightarrow> None
      | Some (Inl e) \<Rightarrow> Some (Inl e)
      | Some (Inr dir) \<Rightarrow>
        (case ReadDir dir fs of
           None \<Rightarrow> Some (Inl ''cannot read directory'')
         | Some names \<Rightarrow>
           let rows = map (\<lambda>w. dir_row (fe_C E) wantHash w (the (fmlookup fs (root_words dir @ [w])))) names;
               items = filter (\<lambda>x. lr_type x = 0) rows @ filter (\<lambda>x. lr_type x = 1) rows;
               page = (if page \<le> 0 then 1 else page);
               pageSize = (if pageSize \<le> 0 then 100 else pageSize)
           in map_option (\<lambda>shown. Inr (shown, length items, shown_path cwd dir))
                (clip_slice items (wrap64 ((page - 1) * pageSize)) pageSize)))"

definition store_row :: "store_item \<Rightarrow> list_row" where
  "store_row x = \<lparr>lr_name = sl_name x, lr_size = sl_size x, lr_type = sl_type x, lr_sha256 = sl_sha256 x\<rparr>"

definition handleFileList ::
  "file_env \<Rightarrow> string \<Rightarrow> string \<Rightarrow> string \<Rightarrow> string \<Rightarrow> string \<Rightarrow> file_world \<Rightarrow> listing handled" where
  "handleFileList E uuid pageQ sizeQ target hash w =
     fileScope uuid (\<lambda>cwd.
       let page = atoiDefault pageQ 1; pageSize = atoiDefault sizeQ 100 in
       case file_mode w uuid of
         Inl e \<Rightarrow> Some (Fail 400 e, w)
       | Inr True \<Rightarrow>
         (case NormalizePath cwd target of
            Inl e \<Rightarrow> Some (Fail 400 e, w)
          | Inr ab \<Rightarrow>
            (case vaultLogical uuid cwd ab of
               Inl e \<Rightarrow> Some (Fail 400 e, w)
             | Inr l \<Rightarrow>
               (case store_listDir (fe_C E) (vt_masterKey (fw_vault w)) l (fw_store w) of
                  Inl e \<Rightarrow> Some (Fail 400 e, w)
                | Inr items \<Rightarrow>
                  let start = wrap64 (wrap64 (page - 1) * pageSize); start = (if start < 0 then 0 else start);
                      fin = min (wrap64 (start + pageSize)) (int (length items));
                      start = min start (int (length items))
                  in map_option (\<lambda>shown. (Reply \<lparr>li_items = map store_row shown, li_page = page - 1, li_pageSize = pageSize,
                          li_total = length items, li_absolutePath = shown_path cwd ab\<rparr>, w))
                       (go_slice items start fin))))
       | Inr False \<Rightarrow>
         (case listDir E cwd target page pageSize (hash = ''1'') (fw_fs w) of
            None \<Rightarrow> None
          | Some (Inl e) \<Rightarrow> Some (Fail 400 e, w)
          | Some (Inr (shown, n, ab)) \<Rightarrow>
              Some (Reply \<lparr>li_items = shown, li_page = page - 1, li_pageSize = pageSize, li_total = n,
                      li_absolutePath = ab\<rparr>, w))) w"

subsection \<open>Reading and writing\<close>

datatype text_result = Written | ReadText string

definition read_plain :: "string \<Rightarrow> file_world \<Rightarrow> text_result handled" where
  "read_plain p w =
     Some (case node_at (fw_fs w) p of
        None \<Rightarrow> Fail 400 ''cannot read file''
      | Some FDir \<Rightarrow> Fail 400 ''target is a directory''
      | Some (FFile data) \<Rightarrow> if int (length data) > maxTextReadBytes then Fail 400 ''file too large'' else Reply (ReadText data), w)"

definition write_plain :: "string \<Rightarrow> string \<Rightarrow> file_world \<Rightarrow> text_result handled" where
  "write_plain p text w =
     (case MkdirAll (Dir p) (fw_fs w) of
        None \<Rightarrow> Some (Fail 500 ''cannot make directory'', w)
      | Some fs \<Rightarrow>
        (case WriteFile p text fs of
           None \<Rightarrow> Some (Fail 500 ''cannot write'', w\<lparr>fw_fs := fs\<rparr>)
         | Some fs \<Rightarrow> Some (Reply Written, w\<lparr>fw_fs := fs\<rparr>)))"

definition read_encrypted :: "file_env \<Rightarrow> string \<Rightarrow> file_world \<Rightarrow> text_result handled" where
  "read_encrypted E l w =
     Some (case store_stat l (fw_store w) of
        None \<Rightarrow> Fail 400 ''cannot read file: no such file''
      | Some e \<Rightarrow>
          if ve_Size e < 0 then Fail 400 ''target is a directory''
          else if ve_Size e > maxTextReadBytes then Fail 400 ''file too large''
          else (case store_readFile (fe_C E) (vt_masterKey (fw_vault w)) l (fw_store w) of
                  Inl err \<Rightarrow> Fail 400 err | Inr data \<Rightarrow> Reply (ReadText data)), w)"

definition write_encrypted :: "file_env \<Rightarrow> string \<Rightarrow> string \<Rightarrow> file_world \<Rightarrow> text_result handled" where
  "write_encrypted E l text w =
     (case store_writeFile (fe_C E) (vt_masterKey (fw_vault w)) (fe_now E) (fe_rnd E 0) (fe_io E 0) l text (fw_store w) of
        (Some e, s) \<Rightarrow> Some (Fail 500 e, w\<lparr>fw_store := s\<rparr>)
      | (None, s) \<Rightarrow> Some (Reply Written, w\<lparr>fw_store := s\<rparr>))"

definition handleFileReadWrite ::
  "file_env \<Rightarrow> string \<Rightarrow> (string \<times> string option) option \<Rightarrow> file_world \<Rightarrow> text_result handled" where
  "handleFileReadWrite E uuid body w =
     fileScope uuid (\<lambda>cwd. case body of
         None \<Rightarrow> Some (Fail 400 ''malformed body'', w)
       | Some (target, text) \<Rightarrow>
           on_target E uuid cwd target
             (\<lambda>l. case text of Some t \<Rightarrow> write_encrypted E l t w | None \<Rightarrow> read_encrypted E l w)
             (\<lambda>p. case text of Some t \<Rightarrow> write_plain p t w | None \<Rightarrow> read_plain p w) w) w"

definition handleFileMkdir :: "file_env \<Rightarrow> string \<Rightarrow> string option \<Rightarrow> file_world \<Rightarrow> unit handled" where
  "handleFileMkdir E uuid body w =
     fileScope uuid (\<lambda>cwd. case body of
         None \<Rightarrow> Some (Fail 400 ''malformed body'', w)
       | Some target \<Rightarrow>
           on_target E uuid cwd target
             (\<lambda>l. store_step (store_mkdir (fe_now E) l (fw_store w)) w finish)
             (\<lambda>p. fs_step (MkdirAll p (fw_fs w)) ''cannot create'' w finish) w) w"

definition handleFileTouch :: "file_env \<Rightarrow> string \<Rightarrow> string option \<Rightarrow> file_world \<Rightarrow> unit handled" where
  "handleFileTouch E uuid body w =
     fileScope uuid (\<lambda>cwd. case body of
         None \<Rightarrow> Some (Fail 400 ''malformed body'', w)
       | Some target \<Rightarrow>
           on_target E uuid cwd target
             (\<lambda>l. store_step (store_touch (fe_C E) (vt_masterKey (fw_vault w)) (fe_now E) (fe_rnd E 0) (fe_io E 0) l (fw_store w)) w finish)
             (\<lambda>p. fs_step (MkdirAll (Dir p) (fw_fs w)) ''cannot create directory'' w
                (\<lambda>w. fs_step (OpenCreate p (fw_fs w)) ''cannot create'' w finish)) w) w"

subsection \<open>Deleting, moving, copying\<close>

fun delete_targets :: "file_env \<Rightarrow> string \<Rightarrow> string \<Rightarrow> string list \<Rightarrow> file_world \<Rightarrow> unit handled" where
  "delete_targets E uuid cwd [] w = finish w"
| "delete_targets E uuid cwd (t # ts) w =
     on_target E uuid cwd t
       (\<lambda>l. store_step (store_remove (vt_masterKey (fw_vault w)) l (fw_store w)) w (delete_targets E uuid cwd ts))
       (\<lambda>p. delete_targets E uuid cwd ts (w\<lparr>fw_fs := RemoveAll p (fw_fs w)\<rparr>)) w"

definition handleFileDelete :: "file_env \<Rightarrow> string \<Rightarrow> string list option \<Rightarrow> file_world \<Rightarrow> unit handled" where
  "handleFileDelete E uuid body w =
     fileScope uuid (\<lambda>cwd. case body of
         None \<Rightarrow> Some (Fail 400 ''malformed body'', w)
       | Some targets \<Rightarrow> delete_targets E uuid cwd targets w) w"

text \<open>A pair of paths; entries of another length are skipped.\<close>

definition on_pair ::
  "file_env \<Rightarrow> string \<Rightarrow> string \<Rightarrow> string \<Rightarrow> string \<Rightarrow> (string \<Rightarrow> string \<Rightarrow> 'a handled) \<Rightarrow> (string \<Rightarrow> string \<Rightarrow> 'a handled) \<Rightarrow>
   file_world \<Rightarrow> 'a handled" where
  "on_pair E uuid cwd a b enc plain w =
     (case safeResolve (fe_ev E) cwd a of
        None \<Rightarrow> None
      | Some (Inl e) \<Rightarrow> Some (Fail 400 e, w)
      | Some (Inr src) \<Rightarrow>
        (case safeResolve (fe_ev E) cwd b of
           None \<Rightarrow> None
         | Some (Inl e) \<Rightarrow> Some (Fail 400 e, w)
         | Some (Inr dst) \<Rightarrow>
           (case file_mode w uuid of
              Inl e \<Rightarrow> Some (Fail 400 e, w)
            | Inr True \<Rightarrow>
              (case vaultLogical uuid cwd src of
                 Inl e \<Rightarrow> Some (Fail 400 e, w)
               | Inr lsrc \<Rightarrow> (case vaultLogical uuid cwd dst of Inl e \<Rightarrow> Some (Fail 400 e, w) | Inr ldst \<Rightarrow> enc lsrc ldst))
            | Inr False \<Rightarrow> plain src dst)))"

fun move_targets :: "file_env \<Rightarrow> string \<Rightarrow> string \<Rightarrow> string list list \<Rightarrow> file_world \<Rightarrow> unit handled" where
  "move_targets E uuid cwd [] w = finish w"
| "move_targets E uuid cwd ([a, b] # ts) w =
     on_pair E uuid cwd a b
       (\<lambda>lsrc ldst. store_step (store_move lsrc ldst (fw_store w)) w (move_targets E uuid cwd ts))
       (\<lambda>src dst. fs_step (Rename src dst (fw_fs w)) ''move failed'' w (move_targets E uuid cwd ts)) w"
| "move_targets E uuid cwd (_ # ts) w = move_targets E uuid cwd ts w"

definition handleFileMove :: "file_env \<Rightarrow> string \<Rightarrow> string list list option \<Rightarrow> file_world \<Rightarrow> unit handled" where
  "handleFileMove E uuid body w =
     fileScope uuid (\<lambda>cwd. case body of
         None \<Rightarrow> Some (Fail 400 ''malformed body'', w)
       | Some targets \<Rightarrow> move_targets E uuid cwd targets w) w"

text \<open>
  Copying. The target is truncated before the source is read. A directory is copied along
  \<open>filepath.Walk\<close>, which reads the names in a directory before the copy is made there and the nodes
  as they are when it gets to them; its stack of paths to visit is an argument.
\<close>

definition copyFile :: "string \<Rightarrow> string \<Rightarrow> fs \<Rightarrow> string option \<times> fs" where
  "copyFile src dst fs =
     (case MkdirAll (Dir dst) fs of
        None \<Rightarrow> (Some ''cannot make directory'', fs)
      | Some fs \<Rightarrow>
        (case ReadFile src fs of
           None \<Rightarrow> (Some ''cannot open'', fs)
         | Some _ \<Rightarrow>
           (case WriteFile dst [] fs of
              None \<Rightarrow> (Some ''cannot create'', fs)
            | Some fs \<Rightarrow>
              (case WriteFile dst (case ReadFile src fs of None \<Rightarrow> [] | Some data \<Rightarrow> data) fs of
                 None \<Rightarrow> (Some ''cannot write'', fs)
               | Some fs \<Rightarrow> (None, fs)))))"

partial_function (option) copy_walk ::
  "string \<Rightarrow> string \<Rightarrow> string list \<Rightarrow> fs \<Rightarrow> (string option \<times> fs) option" where
  "copy_walk src dst paths fs =
     (case paths of
        [] \<Rightarrow> Some (None, fs)
      | path # rest \<Rightarrow>
        let target = Join [dst, the (Rel src path)] in
        (case node_at fs path of
           None \<Rightarrow> Some (Some ''no such file'', fs)
         | Some (FFile _) \<Rightarrow>
           (case copyFile path target fs of
              (Some e, fs) \<Rightarrow> Some (Some e, fs)
            | (None, fs) \<Rightarrow> copy_walk src dst rest fs)
         | Some FDir \<Rightarrow>
           let names = children (root_words path) fs in
           (case MkdirAll target fs of
              None \<Rightarrow> Some (Some ''cannot make directory'', fs)
            | Some fs \<Rightarrow> copy_walk src dst (map (\<lambda>w. Join [path, w]) names @ rest) fs)))"

definition copyPath :: "string \<Rightarrow> string \<Rightarrow> fs \<Rightarrow> (string option \<times> fs) option" where
  "copyPath src dst fs =
     (case node_at fs src of
        None \<Rightarrow> Some (Some ''no such file'', fs)
      | Some FDir \<Rightarrow> copy_walk src dst [src] fs
      | Some (FFile _) \<Rightarrow> Some (copyFile src dst fs))"

fun copy_targets :: "file_env \<Rightarrow> string \<Rightarrow> string \<Rightarrow> nat \<Rightarrow> string list list \<Rightarrow> file_world \<Rightarrow> unit handled" where
  "copy_targets E uuid cwd k [] w = finish w"
| "copy_targets E uuid cwd k ([a, b] # ts) w =
     on_pair E uuid cwd a b
       (\<lambda>lsrc ldst. store_step (store_copy (fe_C E) (vt_masterKey (fw_vault w)) (fe_now E) (fe_rnd E k) (fe_io E k) lsrc ldst (fw_store w)) w
          (copy_targets E uuid cwd (Suc k) ts))
       (\<lambda>src dst. case resolveExistingPrefix (fe_ev E) cwd of
            None \<Rightarrow> None
          | Some (Inl e) \<Rightarrow> Some (Fail 400 e, w)
          | Some (Inr root) \<Rightarrow>
            (case copyPath src dst (fw_fs w) of
               None \<Rightarrow> None
             | Some (Some e, fs) \<Rightarrow> Some (Fail 500 e, w\<lparr>fw_fs := fs\<rparr>)
             | Some (None, fs) \<Rightarrow> copy_targets E uuid cwd (Suc k) ts (w\<lparr>fw_fs := fs\<rparr>))) w"
| "copy_targets E uuid cwd k (_ # ts) w = copy_targets E uuid cwd (Suc k) ts w"

definition handleFileCopy :: "file_env \<Rightarrow> string \<Rightarrow> string list list option \<Rightarrow> file_world \<Rightarrow> unit handled" where
  "handleFileCopy E uuid body w =
     fileScope uuid (\<lambda>cwd. case body of
         None \<Rightarrow> Some (Fail 400 ''malformed body'', w)
       | Some targets \<Rightarrow> copy_targets E uuid cwd 0 targets w) w"

subsection \<open>Archives\<close>

text \<open>
  The zip format is a parameter: the bytes of an archive of files, and the entries a reader finds in
  a file. An entry's content comes in the pieces in which it is decompressed, \<open>ze_Err\<close> is an error
  at its end, and its header may say anything. \<open>zf_partial\<close> is what the archive under construction
  holds on disk when it is itself read or when making it fails.
\<close>

record zip_entry =
  ze_Name :: string
  ze_IsDir :: bool
  ze_UncompressedSize64 :: nat
  ze_Open :: "string list option"
  ze_Err :: bool

record zip_format =
  zf_write :: "(string \<times> string) list \<Rightarrow> string"
  zf_read :: "string \<Rightarrow> zip_entry list option"
  zf_partial :: string

primrec addToZip :: "nat \<Rightarrow> string \<Rightarrow> string \<Rightarrow> fs \<Rightarrow> (string \<times> string) list \<Rightarrow> string + (string \<times> string) list" where
  "addToZip 0 path rel fs out = Inr out"
| "addToZip (Suc depth) path rel fs out =
     (case node_at fs path of
        None \<Rightarrow> Inl ''no such file''
      | Some (FFile data) \<Rightarrow> Inr (out @ [(rel, data)])
      | Some FDir \<Rightarrow>
          foldl (\<lambda>r w. case r of Inl e \<Rightarrow> Inl e | Inr out \<Rightarrow> addToZip depth (Join [path, w]) (Join [rel, w]) fs out)
            (Inr out) (children (root_words path) fs))"

definition zip_rel :: "string \<Rightarrow> string \<Rightarrow> string" where
  "zip_rel cwd path =
     (let rel = TrimPrefix (TrimPrefix path (TrimSuffix cwd ''/'')) ''/'' in if rel = [] then Base path else rel)"

fun zip_targets ::
  "(string \<Rightarrow> eval_error + string) \<Rightarrow> string \<Rightarrow> string list \<Rightarrow> fs \<Rightarrow> (string \<times> string) list \<Rightarrow>
   (string + (string \<times> string) list) option" where
  "zip_targets ev cwd [] fs out = Some (Inr out)"
| "zip_targets ev cwd (t # ts) fs out =
     (case safeResolve ev cwd t of
        None \<Rightarrow> None
      | Some (Inl e) \<Rightarrow> Some (Inl e)
      | Some (Inr path) \<Rightarrow>
        (case addToZip (Suc maxZipDepth) path (zip_rel cwd path) fs out of
           Inl e \<Rightarrow> Some (Inl e)
         | Inr out \<Rightarrow> zip_targets ev cwd ts fs out))"

definition createZip ::
  "zip_format \<Rightarrow> (string \<Rightarrow> eval_error + string) \<Rightarrow> string \<Rightarrow> string \<Rightarrow> string list \<Rightarrow> fs \<Rightarrow> (string option \<times> fs) option" where
  "createZip Z ev zipPath cwd targets fs =
     (case MkdirAll (Dir zipPath) fs of
        None \<Rightarrow> Some (Some ''cannot make directory'', fs)
      | Some fs \<Rightarrow>
        (case WriteFile zipPath (zf_partial Z) fs of
           None \<Rightarrow> Some (Some ''cannot create'', fs)
         | Some fs \<Rightarrow>
           (case resolveExistingPrefix ev cwd of
              None \<Rightarrow> None
            | Some (Inl e) \<Rightarrow> Some (Some e, fs)
            | Some (Inr root) \<Rightarrow>
              map_option (\<lambda>r. case r of
                  Inl e \<Rightarrow> (Some e, fs)
                | Inr out \<Rightarrow> (None, case WriteFile zipPath (zf_write Z out) fs of None \<Rightarrow> fs | Some fs \<Rightarrow> fs))
                (zip_targets ev cwd targets fs []))))"

text \<open>\<open>io.Copy\<close> through \<open>cappedWriter\<close>: what reaches the file, and whether the budget ran out.\<close>

fun capped_copy :: "nat \<Rightarrow> string list \<Rightarrow> string \<times> bool" where
  "capped_copy budget [] = ([], False)"
| "capped_copy budget (p # ps) =
     (if length p > budget then ([], True)
      else (case capped_copy (budget - length p) ps of (out, over) \<Rightarrow> (p @ out, over)))"

fun unzip_entries :: "string \<Rightarrow> zip_entry list \<Rightarrow> nat \<Rightarrow> fs \<Rightarrow> string option \<times> fs" where
  "unzip_entries dest [] written fs = (None, fs)"
| "unzip_entries dest (f # fz) written fs =
     (let name = Clean (ze_Name f); target = Join [dest, name] in
      if name = ''.'' \<or> name = [] then unzip_entries dest fz written fs
      else if \<not> pathWithin dest target then (Some (''path out of bounds: '' @ ze_Name f), fs)
      else if ze_IsDir f then
        (case MkdirAll target fs of
           None \<Rightarrow> (Some ''cannot make directory'', fs) | Some fs \<Rightarrow> unzip_entries dest fz written fs)
      else
        (case MkdirAll (Dir target) fs of
           None \<Rightarrow> (Some ''cannot make directory'', fs)
         | Some fs \<Rightarrow>
           (case ze_Open f of
              None \<Rightarrow> (Some ''cannot open entry'', fs)
            | Some pieces \<Rightarrow>
              (case WriteFile target [] fs of
                 None \<Rightarrow> (Some ''cannot create'', fs)
               | Some fs \<Rightarrow>
                 (case capped_copy (maxUnzipTotalBytes - written) pieces of
                    (content, over) \<Rightarrow>
                      let fs = the (WriteFile target content fs) in
                      if over then (Some ''archive too large'', fs)
                      else if ze_Err f then (Some ''broken entry'', fs)
                      else unzip_entries dest fz (written + length content) fs)))))"

text \<open>The sum of the declared sizes is 64 bits wide.\<close>

definition declared_total :: "zip_entry list \<Rightarrow> nat" where
  "declared_total es = foldl (\<lambda>t f. (t + ze_UncompressedSize64 f) mod 2 ^ 64) 0 es"

definition unzip :: "zip_format \<Rightarrow> string \<Rightarrow> string \<Rightarrow> fs \<Rightarrow> string option \<times> fs" where
  "unzip Z zipPath dest fs =
     (case Option.bind (ReadFile zipPath fs) (zf_read Z) of
        None \<Rightarrow> (Some ''cannot open archive'', fs)
      | Some es \<Rightarrow>
          if length es > maxUnzipEntries then (Some ''too many entries'', fs)
          else if declared_total es > maxUnzipTotalBytes then (Some ''declared size too large'', fs)
          else (case MkdirAll dest fs of
                  None \<Rightarrow> (Some ''cannot make directory'', fs) | Some fs \<Rightarrow> unzip_entries dest es 0 fs))"

definition answer_500 :: "file_world \<Rightarrow> string option \<times> fs \<Rightarrow> unit reply \<times> file_world" where
  "answer_500 w r = (case r of (None, fs) \<Rightarrow> (Reply (), w\<lparr>fw_fs := fs\<rparr>) | (Some e, fs) \<Rightarrow> (Fail 500 e, w\<lparr>fw_fs := fs\<rparr>))"

definition handleFileCompress ::
  "zip_format \<Rightarrow> file_env \<Rightarrow> string \<Rightarrow> (int \<times> string \<times> string list) option \<Rightarrow> file_world \<Rightarrow> unit handled" where
  "handleFileCompress Z E uuid body w =
     fileScope uuid (\<lambda>cwd.
       case file_mode w uuid of
         Inl e \<Rightarrow> Some (Fail 400 e, w)
       | Inr True \<Rightarrow> Some (Fail 400 ''the files of the instance are encrypted and it is not running'', w)
       | Inr False \<Rightarrow>
         (case body of
            None \<Rightarrow> Some (Fail 400 ''malformed body'', w)
          | Some (typ, source, targets) \<Rightarrow>
            if typ \<noteq> 1 \<and> typ \<noteq> 2 then Some (Fail 400 ''unknown type'', w)
            else
              (case safeResolve (fe_ev E) cwd source of
                 None \<Rightarrow> None
               | Some (Inl e) \<Rightarrow> Some (Fail 400 e, w)
               | Some (Inr zipPath) \<Rightarrow>
                 if typ = 1 then map_option (answer_500 w) (createZip Z (fe_ev E) zipPath cwd targets (fw_fs w))
                 else
                   (case (if targets \<noteq> [] then safeResolve (fe_ev E) cwd (hd targets) else Some (Inr (Dir zipPath))) of
                      None \<Rightarrow> None
                    | Some (Inl e) \<Rightarrow> Some (Fail 400 e, w)
                    | Some (Inr dest) \<Rightarrow> Some (answer_500 w (unzip Z zipPath dest (fw_fs w))))))) w"

end
