(* ===== verification/FileSafety.thy ===== *)
theory FileSafety
  imports Files
begin

text \<open>
  The file manager stays in the working directory and keeps the tree well-formed; what it does to
  encrypted files; what unpacking may write; and the two ways in which it destroys what it should
  copy or clean (cmd/irix-node/files.go).
\<close>

subsection \<open>Paths of targets\<close>

lemma resolve_within:
  assumes "list_all real_word base" "safeResolve ev (abs_path base) t = Some (Inr p)"
  shows "\<exists>ws. p = abs_path ws \<and> prefix base ws \<and> list_all real_word ws"
proof -
  have n: "NormalizePath (abs_path base) t = Inr p"
    using assms(2) by (auto simp: safeResolve_def split: sum.splits option.splits if_splits)
  have "prefix base (root_words p) \<and> p = (if TrimSpace t = [] then abs_path base else abs_path (root_words p))"
    using normalize_path_confined_core [OF _ n] assms(1) by simp
  then have "p = abs_path (root_words p)" using assms(1) by (auto split: if_splits)
  then show ?thesis using \<open>prefix base (root_words p) \<and> _\<close> root_words_real by blast
qed

lemma root_words_Dir:
  assumes "list_all real_word ws"
  shows "root_words (Dir (abs_path ws)) = butlast ws"
proof (cases ws rule: rev_cases)
  case Nil
  have "root_words (Dir ''/'') = []" by code_simp
  then show ?thesis using Nil by (simp add: path_of_def)
next
  case (snoc us w)
  then have "list_all real_word us" "real_word w" using assms by simp_all
  then show ?thesis using snoc by (simp add: Dir_Base_snoc)
qed

lemma prefix_butlast: "prefix base ws \<Longrightarrow> prefix base (butlast ws) \<or> prefix (butlast ws) base"
  by (cases ws rule: rev_cases) auto

lemma root_words_Join:
  assumes "list_all real_word ds" "q \<noteq> []"
  shows "root_words (Join [abs_path ds, q]) = clean_words True (ds @ path_words q)"
proof -
  have "list_all plain_word (ds @ path_words q)"
    using assms(1) path_words_plain real_list_plain by simp
  then show ?thesis
    using assms by (simp add: Join_two path_words_path_of real_list_plain clean_words_rooted)
qed

lemma Join_words:
  assumes "list_all real_word ds" "list_all real_word rs" "rs \<noteq> []"
  shows "Join [abs_path ds, join_with ''/'' rs] = abs_path (ds @ rs)"
proof -
  have "path_words (join_with ''/'' rs) = rs" using assms(2) path_words_join real_list_plain by blast
  moreover have "join_with ''/'' rs \<noteq> []" using calculation assms(3) by (auto simp: path_words_def)
  ultimately show ?thesis
    using assms by (simp add: Join_two path_words_path_of real_list_plain)
qed

lemma Rel_words:
  assumes "list_all real_word ss" "list_all real_word rs"
  shows "Rel (abs_path ss) (abs_path (ss @ rs)) = Some (if rs = [] then ''.'' else join_with ''/'' rs)"
proof (cases "rs = []")
  case True
  then show ?thesis using assms by (simp add: Rel_def)
next
  case False
  have "abs_path (ss @ rs) \<noteq> abs_path ss" using assms False by (simp add: abs_path_inject)
  moreover have "strip_common ss (ss @ rs) = ([], rs)" by (induction ss) (cases rs; simp)+
  moreover have "abs_path ss \<noteq> ''.''" by (simp add: path_of_def)
  ultimately show ?thesis
    using assms False by (simp add: Rel_def rel_words_abs real_list_plain)
qed

lemma Join_dot: "list_all real_word ds \<Longrightarrow> Join [abs_path ds, ''.''] = abs_path ds"
proof -
  assume "list_all real_word ds"
  moreover have "path_words ''.'' = []" by code_simp
  ultimately show ?thesis by (simp add: Join_two path_words_path_of real_list_plain)
qed

lemma copy_target:
  assumes "list_all real_word ss" "list_all real_word rs" "list_all real_word ds"
  shows "Join [abs_path ds, the (Rel (abs_path ss) (abs_path (ss @ rs)))] = abs_path (ds @ rs)"
  using assms by (simp add: Rel_words Join_dot Join_words)

subsection \<open>Changes below the working directory\<close>

definition within :: "string list \<Rightarrow> fs \<Rightarrow> fs \<Rightarrow> bool" where
  "within base fs fs' \<longleftrightarrow> (fs_ok fs \<and> anchored base fs \<longrightarrow> fs_ok fs' \<and> anchored base fs' \<and> same_outside base fs fs')"

lemma within_refl [simp]: "within base fs fs"
  by (simp add: within_def)

lemma within_trans: "within base fs fs1 \<Longrightarrow> within base fs1 fs2 \<Longrightarrow> within base fs fs2"
  unfolding within_def by (meson same_outside_trans)

lemma withinI:
  "(fs_ok fs \<Longrightarrow> anchored base fs \<Longrightarrow> fs_ok fs' \<and> same_outside base fs fs') \<Longrightarrow> within base fs fs'"
  unfolding within_def using anchored_outside by blast

lemma within_MkdirAll:
  assumes "MkdirAll p fs = Some fs'" "prefix base (root_words p) \<or> prefix (root_words p) base"
  shows "within base fs fs'"
  by (rule withinI) (blast intro: MkdirAll_ok [OF _ assms(1)] MkdirAll_confined [OF _ assms(2,1)])

lemma within_put:
  assumes "put_file ws data fs = Some fs'" "prefix base ws" "list_all real_word ws"
  shows "within base fs fs'"
  by (rule withinI) (blast intro: put_file_ok [OF _ assms(3,1)] put_file_confined [OF assms(2,1)])

lemma within_WriteFile: "WriteFile p data fs = Some fs' \<Longrightarrow> prefix base (root_words p) \<Longrightarrow> within base fs fs'"
  unfolding WriteFile_def by (rule within_put [OF _ _ root_words_real])

lemma within_OpenCreate: "OpenCreate p fs = Some fs' \<Longrightarrow> prefix base (root_words p) \<Longrightarrow> within base fs fs'"
  using within_WriteFile by (auto simp: OpenCreate_def split: option.splits fnode.splits)

lemma within_RemoveAll: "prefix base (root_words p) \<Longrightarrow> within base fs (RemoveAll p fs)"
  by (rule withinI) (blast intro: RemoveAll_ok RemoveAll_confined)

lemma within_Rename:
  "Rename a b fs = Some fs' \<Longrightarrow> prefix base (root_words a) \<Longrightarrow> prefix base (root_words b) \<Longrightarrow> within base fs fs'"
  unfolding Rename_def by (rule withinI) (blast intro: rename_words_ok rename_words_confined root_words_real)

lemmas within_steps = within_MkdirAll within_WriteFile within_OpenCreate within_RemoveAll within_Rename

lemma copyFile_cases:
  assumes "copyFile src dst fs = (r, fs')"
  shows "fs' = fs \<or> (\<exists>fs1. MkdirAll (Dir dst) fs = Some fs1 \<and>
    (fs' = fs1 \<or> (\<exists>fs2. WriteFile dst [] fs1 = Some fs2 \<and> (fs' = fs2 \<or> (\<exists>data. WriteFile dst data fs2 = Some fs')))))"
  using assms by (auto simp: copyFile_def split: option.splits)

lemma within_copyFile:
  assumes "copyFile src (abs_path ds) fs = (r, fs')" "list_all real_word ds" "prefix base ds"
  shows "within base fs fs'"
proof -
  have d: "prefix base (root_words (Dir (abs_path ds))) \<or> prefix (root_words (Dir (abs_path ds))) base"
    using prefix_butlast [OF assms(3)] by (simp add: root_words_Dir assms(2))
  have w: "prefix base (root_words (abs_path ds))" using assms(2,3) by simp
  from copyFile_cases [OF assms(1)] show ?thesis
    by (elim disjE exE conjE) (use within_MkdirAll [OF _ d] within_WriteFile [OF _ w] in \<open>(blast intro: within_refl within_trans)+\<close>)
qed

lemma children_real: "fs_ok fs \<Longrightarrow> w \<in> set (children ws fs) \<Longrightarrow> real_word w"
  using fs_ok_real [of fs "ws @ [w]"] by (simp add: children_iff)

definition walk_ok :: "string list \<Rightarrow> string list \<Rightarrow> string list \<Rightarrow> string \<Rightarrow> string \<Rightarrow> string list \<Rightarrow> fs \<Rightarrow> bool" where
  "walk_ok base ss ds src dst paths fs \<longleftrightarrow>
     src = abs_path ss \<and> dst = abs_path ds \<and> list_all real_word ss \<and> list_all real_word ds \<and> prefix base ds \<and>
     fs_ok fs \<and> anchored base fs \<and> (\<forall>p \<in> set paths. \<exists>rs. list_all real_word rs \<and> p = abs_path (ss @ rs))"

lemma walk_ok_step:
  assumes "walk_ok base ss ds src dst (path # rest) fs" "within base fs fs'"
  shows "walk_ok base ss ds src dst rest fs'"
    "walk_ok base ss ds src dst (map (\<lambda>w. Join [path, w]) (children (root_words path) fs) @ rest) fs'"
proof -
  show "walk_ok base ss ds src dst rest fs'" using assms by (simp add: walk_ok_def within_def)
  obtain rs where rs: "list_all real_word rs" "path = abs_path (ss @ rs)" using assms(1) by (auto simp: walk_ok_def)
  have "\<exists>us. list_all real_word us \<and> Join [path, w] = abs_path (ss @ us)"
    if "w \<in> set (children (root_words path) fs)" for w
  proof -
    have "real_word w" using that assms(1) children_real unfolding walk_ok_def by blast
    then have "Join [path, w] = abs_path (ss @ (rs @ [w]))" "list_all real_word (rs @ [w])"
      using rs Join_real [of "ss @ rs" w] assms(1) by (simp_all add: walk_ok_def)
    then show ?thesis by blast
  qed
  then show "walk_ok base ss ds src dst (map (\<lambda>w. Join [path, w]) (children (root_words path) fs) @ rest) fs'"
    using assms by (auto simp: walk_ok_def within_def)
qed

lemma walk_ok_target:
  assumes "walk_ok base ss ds src dst (path # rest) fs"
  obtains us where "Join [dst, the (Rel src path)] = abs_path us" "list_all real_word us" "prefix base us"
proof -
  obtain rs where rs: "list_all real_word rs" "path = abs_path (ss @ rs)" using assms by (auto simp: walk_ok_def)
  then have "Join [dst, the (Rel src path)] = abs_path (ds @ rs)"
    using assms copy_target [of ss rs ds] by (simp add: walk_ok_def)
  then show ?thesis using that [of "ds @ rs"] assms rs(1) by (simp add: walk_ok_def)
qed

lemma within_copy_walk:
  assumes "copy_walk src dst paths fs = Some out"
  shows "walk_ok base ss ds src dst paths fs \<longrightarrow> within base fs (snd out)"
  using assms
proof (rule copy_walk.raw_induct [rotated], intro impI)
  fix walk src dst paths fs out
  assume IH: "\<And>src dst paths fs out. walk src dst paths fs = Some out \<Longrightarrow>
      walk_ok base ss ds src dst paths fs \<longrightarrow> within base fs (snd out)"
    and w: "walk_ok base ss ds src dst paths fs"
    and c: "(case paths of [] \<Rightarrow> Some (None, fs)
        | path # rest \<Rightarrow>
            let target = Join [dst, the (Rel src path)]
            in case node_at fs path of
               None \<Rightarrow> Some (Some ''no such file'', fs)
               | Some FDir \<Rightarrow>
                   let names = children (root_words path) fs
                   in case MkdirAll target fs of
                      None \<Rightarrow> Some (Some ''cannot make directory'', fs)
                      | Some fs \<Rightarrow> walk src dst (map (\<lambda>w. Join [path, w]) names @ rest) fs
               | Some (FFile x) \<Rightarrow>
                   case copyFile path target fs of
                   (None, fs) \<Rightarrow> walk src dst rest fs
                   | (Some e, fs) \<Rightarrow> Some (Some e, fs)) = Some out"
  show "within base fs (snd out)"
  proof (cases paths)
    case Nil
    then show ?thesis using c by auto
  next
    case (Cons path rest)
    obtain us where us: "Join [dst, the (Rel src path)] = abs_path us" "list_all real_word us" "prefix base us"
      using walk_ok_target w unfolding Cons by blast
    have m: "within base fs fs1" if "MkdirAll (abs_path us) fs = Some fs1" for fs1
      using within_MkdirAll [OF that] us(2,3) by simp
    show ?thesis
    proof (cases "node_at fs path")
      case None
      then show ?thesis using c Cons by (auto simp: Let_def)
    next
      case (Some n)
      show ?thesis
      proof (cases n)
        case FDir
        show ?thesis
        proof (cases "MkdirAll (abs_path us) fs")
          case None
          then show ?thesis using c Cons Some FDir us(1) by (auto simp: Let_def)
        next
          case (Some fs1)
          then have "walk src dst (map (\<lambda>w. Join [path, w]) (children (root_words path) fs) @ rest) fs1 = Some out"
            using c Cons \<open>node_at fs path = Some n\<close> FDir us(1) by (simp add: Let_def)
          then have "within base fs1 (snd out)"
            using IH walk_ok_step(2) [OF w [unfolded Cons] m [OF Some]] by blast
          then show ?thesis using within_trans m [OF Some] by blast
        qed
      next
        case (FFile x)
        obtain r fs1 where f: "copyFile path (abs_path us) fs = (r, fs1)" by fastforce
        note wf = within_copyFile [OF f us(2,3)]
        show ?thesis
        proof (cases r)
          case None
          then have "walk src dst rest fs1 = Some out" using c Cons Some FFile us(1) f by (simp add: Let_def)
          then have "within base fs1 (snd out)" using IH walk_ok_step(1) [OF w [unfolded Cons] wf] by blast
          then show ?thesis using within_trans wf by blast
        next
          case (Some e)
          then have "snd out = fs1" using c Cons \<open>node_at fs path = Some n\<close> FFile us(1) f by (auto simp: Let_def)
          then show ?thesis using wf by simp
        qed
      qed
    qed
  qed
qed

lemma within_copyPath:
  assumes "copyPath (abs_path ss) (abs_path ds) fs = Some out" "list_all real_word ss" "list_all real_word ds" "prefix base ds"
  shows "within base fs (snd out)"
proof (rule withinI)
  assume f: "fs_ok fs" "anchored base fs"
  have "walk_ok base ss ds (abs_path ss) (abs_path ds) [abs_path ss] fs"
    using f assms(2-4) by (auto simp: walk_ok_def intro!: exI [of _ "[]"])
  moreover have "within base fs (snd out)"
    if "node_at fs (abs_path ss) = Some (FFile x)" for x
  proof -
    obtain r fs1 where c: "copyFile (abs_path ss) (abs_path ds) fs = (r, fs1)" by fastforce
    then have "snd out = fs1" using assms(1) that by (simp add: copyPath_def) (metis snd_conv)
    then show ?thesis using within_copyFile [OF c assms(3,4)] by simp
  qed
  ultimately have "within base fs (snd out)"
    using assms(1) within_copy_walk by (auto simp: copyPath_def split: option.splits fnode.splits)
  then show "fs_ok (snd out) \<and> same_outside base fs (snd out)" using f by (simp add: within_def)
qed

subsection \<open>Archives\<close>

lemma within_createZip:
  assumes "createZip Z ev (abs_path ws) cwd targets fs = Some (r, fs')" "list_all real_word ws" "prefix base ws"
  shows "within base fs fs'"
proof -
  have d: "prefix base (root_words (Dir (abs_path ws))) \<or> prefix (root_words (Dir (abs_path ws))) base"
    using prefix_butlast [OF assms(3)] by (simp add: root_words_Dir assms(2))
  have w: "prefix base (root_words (abs_path ws))" using assms(2,3) by simp
  show ?thesis
  proof (cases "MkdirAll (Dir (abs_path ws)) fs")
    case None
    then show ?thesis using assms(1) by (simp add: createZip_def)
  next
    case (Some fs1)
    note m = within_MkdirAll [OF Some d]
    show ?thesis
    proof (cases "WriteFile (abs_path ws) (zf_partial Z) fs1")
      case None
      then show ?thesis using assms(1) Some m by (auto simp: createZip_def)
    next
      case (Some fs2)
      then have 2: "within base fs fs2" using m within_WriteFile [OF _ w] within_trans by blast
      have "fs' = fs2 \<or> (\<exists>data. WriteFile (abs_path ws) data fs2 = Some fs')"
      proof -
        obtain z where "createZip Z ev (abs_path ws) cwd targets fs = Some z" "z = (r, fs')" using assms(1) by simp
        then show ?thesis
          using \<open>MkdirAll _ fs = Some fs1\<close> Some
          by (cases "resolveExistingPrefix ev cwd"; cases "the (resolveExistingPrefix ev cwd)";
              cases "zip_targets ev cwd targets fs2 []"; cases "the (zip_targets ev cwd targets fs2 [])")
            (auto simp: createZip_def split: option.split_asm)
      qed
      then show ?thesis using 2 within_WriteFile [OF _ w] within_trans by blast
    qed
  qed
qed

lemma WriteFile_again:
  assumes "WriteFile p a fs = Some fs1"
  shows "\<exists>fs2. WriteFile p b fs1 = Some fs2"
proof -
  let ?ws = "root_words p"
  have l: "fmlookup fs1 x = (if x = ?ws then Some (FFile a) else fmlookup fs x)" "?ws \<noteq> []"
    "fmlookup fs (butlast ?ws) = Some FDir" for x
    using put_file_lookup [of ?ws a fs fs1] assms by (auto simp: WriteFile_def)
  have "length (butlast ?ws) < length ?ws" using l(2) by (cases ?ws rule: rev_cases) auto
  then have "butlast ?ws \<noteq> ?ws" by (metis less_not_refl)
  then show ?thesis using l by (simp add: WriteFile_def put_file_def)
qed

lemma within_unzip_entries:
  assumes "list_all real_word ds" "prefix base ds"
  shows "within base fs (snd (unzip_entries (abs_path ds) es written fs))"
proof (induction es arbitrary: written fs)
  case (Cons f es)
  define name where "name = Clean (ze_Name f)"
  define target where "target = Join [abs_path ds, name]"
  show ?case
  proof (cases "name = ''.'' \<or> name = [] \<or> \<not> pathWithin (abs_path ds) target")
    case True
    then show ?thesis using Cons by (auto simp: Let_def name_def target_def)
  next
    case False
    then have us: "target = abs_path (root_words target)"
      by (simp add: target_def Join_two clean_words_rooted path_words_plain path_words_path_of real_list_plain assms(1))
    have "prefix ds (root_words target)" using False pathWithin_abs [of "abs_path ds" target] us assms(1)
      by (metis IsAbs_abs_path root_words_abs_path)
    then have t: "prefix base (root_words target)" using assms(2) prefix_order.trans by blast
    have d: "prefix base (root_words (Dir target)) \<or> prefix (root_words (Dir target)) base"
      by (subst (1 2) us) (use prefix_butlast [OF t] in \<open>simp add: root_words_Dir\<close>)
    show ?thesis
    proof (cases "ze_IsDir f")
      case True
      have "within base fs (snd (unzip_entries (abs_path ds) es written fs1))" if "MkdirAll target fs = Some fs1" for fs1
        using within_trans [OF within_MkdirAll [OF that disjI1 [OF t]] Cons.IH] .
      then show ?thesis
        using False True by (auto simp: Let_def name_def [symmetric] target_def [symmetric] split: option.splits)
    next
      case nodir: False
      show ?thesis
      proof (cases "MkdirAll (Dir target) fs")
        case None
        then show ?thesis using False nodir by (simp add: Let_def name_def [symmetric] target_def [symmetric])
      next
        case (Some fs1)
        note m = within_MkdirAll [OF Some d]
        show ?thesis
        proof (cases "ze_Open f = None \<or> WriteFile target [] fs1 = None")
          case True
          then have "snd (unzip_entries (abs_path ds) (f # es) written fs) = fs1" using Some False nodir
            by (cases "ze_Open f") (auto simp: Let_def name_def [symmetric] target_def [symmetric])
          then show ?thesis using m by simp
        next
          case f2: False
          then obtain pieces fs2 where p: "ze_Open f = Some pieces" "WriteFile target [] fs1 = Some fs2" by auto
          obtain content over where c: "capped_copy (maxUnzipTotalBytes - written) pieces = (content, over)" by fastforce
          obtain fs3 where "WriteFile target content fs2 = Some fs3" using WriteFile_again [OF p(2)] by blast
          moreover have "within base fs fs3"
            using m within_WriteFile [OF p(2) t] within_WriteFile [OF calculation t] within_trans by blast
          ultimately show ?thesis using Some False nodir p c Cons.IH [of fs3] within_trans [of base fs fs3]
            by (auto simp: Let_def name_def [symmetric] target_def [symmetric])
        qed
      qed
    qed
  qed
qed simp

lemma within_unzip:
  assumes "list_all real_word ds" "prefix base ds"
  shows "within base fs (snd (unzip Z zipPath (abs_path ds) fs))"
proof (cases "MkdirAll (abs_path ds) fs")
  case None
  then show ?thesis by (simp add: unzip_def split: option.split)
next
  case (Some fs1)
  have "within base fs fs1" using within_MkdirAll [OF Some] assms by simp
  then show ?thesis using Some within_trans [OF _ within_unzip_entries [OF assms]]
    by (auto simp: unzip_def split: option.split)
qed

lemma unzip_missing: "ReadFile zipPath fs = None \<Longrightarrow> unzip Z zipPath dest fs = (Some ''cannot open archive'', fs)"
  by (simp add: unzip_def)

subsection \<open>Handlers\<close>

text \<open>What an answer may have changed.\<close>

definition passes :: "string list \<Rightarrow> string \<Rightarrow> file_world \<Rightarrow> file_world \<Rightarrow> bool" where
  "passes base uuid w w' \<longleftrightarrow> fw_node w' = fw_node w \<and> fw_vault w' = fw_vault w \<and> within base (fw_fs w) (fw_fs w') \<and>
     (file_mode w uuid \<noteq> Inr False \<longrightarrow> fw_fs w' = fw_fs w) \<and> (file_mode w uuid \<noteq> Inr True \<longrightarrow> fw_store w' = fw_store w)"

definition keeps :: "string list \<Rightarrow> string \<Rightarrow> file_world \<Rightarrow> 'a handled \<Rightarrow> bool" where
  "keeps base uuid w r \<longleftrightarrow> (\<forall>rep w'. r = Some (rep, w') \<longrightarrow> passes base uuid w w')"

lemma file_mode_cong: "fw_node w' = fw_node w \<Longrightarrow> fw_vault w' = fw_vault w \<Longrightarrow> file_mode w' uuid = file_mode w uuid"
  unfolding file_mode_def vaultFilesMode_def by (simp only:)

lemma file_mode_update [simp]:
  "file_mode (w\<lparr>fw_fs := fs\<rparr>) uuid = file_mode w uuid" "file_mode (w\<lparr>fw_store := s\<rparr>) uuid = file_mode w uuid"
  by (rule file_mode_cong; simp)+

lemma passes_trans: "passes base uuid w w1 \<Longrightarrow> passes base uuid w1 w2 \<Longrightarrow> passes base uuid w w2"
  unfolding passes_def using file_mode_cong [of w1 w uuid] within_trans by metis

lemma passes_refl [simp]: "passes base uuid w w"
  by (simp add: passes_def)

lemma passes_fs: "file_mode w uuid = Inr False \<Longrightarrow> within base (fw_fs w) fs \<Longrightarrow> passes base uuid w (w\<lparr>fw_fs := fs\<rparr>)"
  by (simp add: passes_def)

lemma passes_store: "file_mode w uuid = Inr True \<Longrightarrow> passes base uuid w (w\<lparr>fw_store := s\<rparr>)"
  by (simp add: passes_def)

lemma keeps_same [simp]: "keeps base uuid w (Some (r, w))"
  by (simp add: keeps_def)

lemma keeps_none [simp]: "keeps base uuid w None"
  by (simp add: keeps_def)

lemma keeps_finish [simp]: "keeps base uuid w (finish w)"
  by (simp add: finish_def)

lemma keeps_next: "passes base uuid w w1 \<Longrightarrow> keeps base uuid w1 r \<Longrightarrow> keeps base uuid w r"
  unfolding keeps_def using passes_trans by blast

lemma keeps_answer: "passes base uuid w w1 \<Longrightarrow> keeps base uuid w (Some (r, w1))"
  by (simp add: keeps_def)

lemma keeps_store_step:
  assumes "file_mode w uuid = Inr True" "\<And>s. keeps base uuid (w\<lparr>fw_store := s\<rparr>) (k (w\<lparr>fw_store := s\<rparr>))"
  shows "keeps base uuid w (store_step r w k)"
  using passes_store [OF assms(1)] assms(2)
  by (auto simp: store_step_def keeps_answer intro: keeps_next split: prod.split option.split)

lemma keeps_fs_step:
  assumes "file_mode w uuid = Inr False" "\<And>fs. r = Some fs \<Longrightarrow> within base (fw_fs w) fs"
    "\<And>fs. keeps base uuid (w\<lparr>fw_fs := fs\<rparr>) (k (w\<lparr>fw_fs := fs\<rparr>))"
  shows "keeps base uuid w (fs_step r e w k)"
proof (cases r)
  case (Some fs)
  then show ?thesis using keeps_next [OF passes_fs [OF assms(1) assms(2) [OF Some]] assms(3)] by (simp add: fs_step_def)
qed (simp add: fs_step_def)

lemma keeps_on_target:
  assumes "list_all real_word base" "\<And>l. file_mode w uuid = Inr True \<Longrightarrow> keeps base uuid w (enc l)"
    "\<And>ws. file_mode w uuid = Inr False \<Longrightarrow> prefix base ws \<Longrightarrow> list_all real_word ws \<Longrightarrow> keeps base uuid w (plain (abs_path ws))"
  shows "keeps base uuid w (on_target E uuid (abs_path base) t enc plain w)"
proof -
  have "keeps base uuid w (plain p)"
    if "safeResolve (fe_ev E) (abs_path base) t = Some (Inr p)" "file_mode w uuid = Inr False" for p
    using resolve_within [OF assms(1) that(1)] assms(3) [OF that(2)] by auto
  then show ?thesis using assms(2) by (auto simp: on_target_def split: option.split sum.split bool.split)
qed

lemma keeps_on_pair:
  assumes "list_all real_word base" "\<And>a b. file_mode w uuid = Inr True \<Longrightarrow> keeps base uuid w (enc a b)"
    "\<And>us ws. file_mode w uuid = Inr False \<Longrightarrow> prefix base us \<Longrightarrow> list_all real_word us \<Longrightarrow> prefix base ws \<Longrightarrow> list_all real_word ws \<Longrightarrow>
       keeps base uuid w (plain (abs_path us) (abs_path ws))"
  shows "keeps base uuid w (on_pair E uuid (abs_path base) a b enc plain w)"
proof -
  have "keeps base uuid w (plain p q)"
    if "safeResolve (fe_ev E) (abs_path base) a = Some (Inr p)" "safeResolve (fe_ev E) (abs_path base) b = Some (Inr q)"
      "file_mode w uuid = Inr False" for p q
    using resolve_within [OF assms(1) that(1)] resolve_within [OF assms(1) that(2)] assms(3) [OF that(3)] by auto
  then show ?thesis using assms(2) by (auto simp: on_pair_def split: option.split sum.split bool.split)
qed

lemma keeps_fileScope:
  assumes "CwdOf (fw_node w) uuid = Inr (abs_path base)" "keeps base uuid w (k (abs_path base))"
  shows "keeps base uuid w (fileScope uuid k w)"
  using assms by (simp add: fileScope_def)

lemma keeps_delete: "list_all real_word base \<Longrightarrow> keeps base uuid w (delete_targets E uuid (abs_path base) ts w)"
proof (induction ts arbitrary: w)
  case (Cons t ts)
  have "keeps base uuid w (delete_targets E uuid (abs_path base) ts (w\<lparr>fw_fs := RemoveAll (abs_path ws) (fw_fs w)\<rparr>))"
    if "file_mode w uuid = Inr False" "prefix base ws" "list_all real_word ws" for ws
    using keeps_next [OF passes_fs [OF that(1) within_RemoveAll] Cons.IH [OF Cons.prems]] that by simp
  then show ?case using Cons by (auto intro!: keeps_on_target keeps_store_step)
qed simp

lemma keeps_move: "list_all real_word base \<Longrightarrow> keeps base uuid w (move_targets E uuid (abs_path base) ts w)"
  by (induction E uuid "abs_path base" ts w rule: move_targets.induct)
    (auto intro!: keeps_on_pair keeps_store_step keeps_fs_step within_Rename)

lemma keeps_resolved:
  "keeps base uuid w x \<Longrightarrow>
   keeps base uuid w (case r of None \<Rightarrow> None | Some (Inl e) \<Rightarrow> Some (Fail 400 e, w) | Some (Inr root) \<Rightarrow> x)"
  by (auto split: option.split sum.split)

lemma keeps_copy: "list_all real_word base \<Longrightarrow> keeps base uuid w (copy_targets E uuid (abs_path base) k ts w)"
proof (induction ts arbitrary: k w)
  case (Cons t ts)
  note IH = Cons.IH [OF Cons.prems]
  have step: "keeps base uuid w (case copyPath (abs_path us) (abs_path ws) (fw_fs w) of
               None \<Rightarrow> None
             | Some (Some e, fs) \<Rightarrow> Some (Fail 500 e, w\<lparr>fw_fs := fs\<rparr>)
             | Some (None, fs) \<Rightarrow> copy_targets E uuid (abs_path base) (Suc k) ts (w\<lparr>fw_fs := fs\<rparr>))"
    if m: "file_mode w uuid = Inr False" and p: "list_all real_word us" "prefix base ws" "list_all real_word ws" for us ws
  proof (cases "copyPath (abs_path us) (abs_path ws) (fw_fs w)")
    case (Some out)
    obtain r fs where out: "out = (r, fs)" by fastforce
    have "within base (fw_fs w) fs" using within_copyPath [OF Some p(1,3,2)] out by simp
    note n = passes_fs [OF m this]
    show ?thesis
    proof (cases r)
      case None
      then show ?thesis using Some out keeps_next [OF n IH] by simp
    next
      case (Some e)
      then show ?thesis using \<open>copyPath _ _ _ = Some out\<close> out keeps_answer [OF n] by simp
    qed
  qed simp
  consider a b where "t = [a, b]" | "copy_targets E uuid (abs_path base) k (t # ts) w = copy_targets E uuid (abs_path base) (Suc k) ts w"
    by (cases t; cases "tl t"; cases "tl (tl t)") auto
  then show ?case
  proof cases
    case 1
    then show ?thesis
      using step IH Cons.prems by (auto intro!: keeps_on_pair keeps_store_step keeps_resolved)
  next
    case 2
    then show ?thesis using IH by simp
  qed
qed simp

lemma keeps_read_write:
  assumes "list_all real_word base"
  shows "keeps base uuid w (on_target E uuid (abs_path base) target
             (\<lambda>l. case text of Some t \<Rightarrow> write_encrypted E l t w | None \<Rightarrow> read_encrypted E l w)
             (\<lambda>p. case text of Some t \<Rightarrow> write_plain p t w | None \<Rightarrow> read_plain p w) w)"
proof (rule keeps_on_target [OF assms])
  show "keeps base uuid w (case text of Some t \<Rightarrow> write_encrypted E l t w | None \<Rightarrow> read_encrypted E l w)"
    if "file_mode w uuid = Inr True" for l
    using passes_store [OF that] by (auto simp: write_encrypted_def read_encrypted_def keeps_def split: option.splits prod.splits)
next
  fix ws assume m: "file_mode w uuid = Inr False" and ws: "prefix base ws" "list_all real_word ws"
  have d: "prefix base (root_words (Dir (abs_path ws))) \<or> prefix (root_words (Dir (abs_path ws))) base"
    using prefix_butlast [OF ws(1)] by (simp add: root_words_Dir ws(2))
  have "keeps base uuid w (write_plain (abs_path ws) t w)" for t
  proof (cases "MkdirAll (Dir (abs_path ws)) (fw_fs w)")
    case (Some fs)
    note p = within_MkdirAll [OF Some d]
    show ?thesis
    proof (cases "WriteFile (abs_path ws) t fs")
      case None
      then show ?thesis using Some keeps_answer [OF passes_fs [OF m p]] by (simp add: write_plain_def)
    next
      case (Some fs1)
      have "within base (fw_fs w) fs1" using within_trans [OF p within_WriteFile [OF Some]] ws by simp
      then show ?thesis
        using \<open>MkdirAll _ _ = Some fs\<close> Some keeps_answer [OF passes_fs [OF m]] by (simp add: write_plain_def)
    qed
  qed (simp add: write_plain_def)
  then show "keeps base uuid w (case text of Some t \<Rightarrow> write_plain (abs_path ws) t w | None \<Rightarrow> read_plain (abs_path ws) w)"
    by (auto simp: read_plain_def split: option.split)
qed

lemma keeps_mkdir:
  assumes "list_all real_word base"
  shows "keeps base uuid w (on_target E uuid (abs_path base) target
             (\<lambda>l. store_step (store_mkdir (fe_now E) l (fw_store w)) w finish)
             (\<lambda>p. fs_step (MkdirAll p (fw_fs w)) e w finish) w)"
  by (intro keeps_on_target [OF assms] keeps_store_step keeps_fs_step within_MkdirAll) auto

lemma keeps_touch:
  assumes "list_all real_word base"
  shows "keeps base uuid w (on_target E uuid (abs_path base) target
             (\<lambda>l. store_step (f l (fw_store w)) w finish)
             (\<lambda>p. fs_step (MkdirAll (Dir p) (fw_fs w)) e1 w
                (\<lambda>w. fs_step (OpenCreate p (fw_fs w)) e2 w finish)) w)"
proof (intro keeps_on_target [OF assms] keeps_store_step)
  fix ws assume m: "file_mode w uuid = Inr False" and ws: "prefix base ws" "list_all real_word ws"
  have d: "prefix base (root_words (Dir (abs_path ws))) \<or> prefix (root_words (Dir (abs_path ws))) base"
    using prefix_butlast [OF ws(1)] by (simp add: root_words_Dir ws(2))
  show "keeps base uuid w (fs_step (MkdirAll (Dir (abs_path ws)) (fw_fs w)) e1 w
                (\<lambda>w. fs_step (OpenCreate (abs_path ws) (fw_fs w)) e2 w finish))"
    using m ws within_MkdirAll [OF _ d] within_OpenCreate [of "abs_path ws"] by (intro keeps_fs_step) auto
qed auto

lemma keeps_compress:
  assumes "list_all real_word base" "CwdOf (fw_node w) uuid = Inr (abs_path base)"
    "\<And>x. fmlookup (fw_fs w) base \<noteq> Some (FFile x)"
  shows "keeps base uuid w (handleFileCompress Z E uuid body w)"
proof (cases "file_mode w uuid = Inr False")
  case False
  then show ?thesis using assms(2)
    by (auto simp: handleFileCompress_def fileScope_def split: sum.split bool.split)
next
  case m: True
  have answer: "keeps base uuid w (Some (answer_500 w r))" if "within base (fw_fs w) (snd r)" for r
    using passes_fs [OF m that] by (cases r; cases "fst r") (auto simp: answer_500_def keeps_def)
  have one: "keeps base uuid w (map_option (answer_500 w) (createZip Z (fe_ev E) p (abs_path base) targets (fw_fs w)))"
    if r: "safeResolve (fe_ev E) (abs_path base) source = Some (Inr p)" for p source targets
  proof (cases "createZip Z (fe_ev E) p (abs_path base) targets (fw_fs w)")
    case (Some r)
    obtain ws where "p = abs_path ws" "prefix base ws" "list_all real_word ws" using resolve_within [OF assms(1) r] by blast
    then have "within base (fw_fs w) (snd r)" using within_createZip Some by (metis prod.collapse)
    then show ?thesis using Some answer by simp
  qed simp
  have two: "keeps base uuid w (Some (answer_500 w (unzip Z p dest (fw_fs w))))"
    if r: "safeResolve (fe_ev E) (abs_path base) source = Some (Inr p)"
      and ds: "(if targets \<noteq> [] then safeResolve (fe_ev E) (abs_path base) (hd targets) else Some (Inr (Dir p))) = Some (Inr dest)"
    for p dest source targets
  proof -
    obtain ws where ws: "p = abs_path ws" "prefix base ws" "list_all real_word ws" using resolve_within [OF assms(1) r] by blast
    have "within base (fw_fs w) (snd (unzip Z p dest (fw_fs w)))"
    proof (cases "targets = []")
      case False
      then obtain ds where "dest = abs_path ds" "prefix base ds" "list_all real_word ds"
        using ds resolve_within [OF assms(1)] by fastforce
      then show ?thesis using within_unzip by blast
    next
      case True
      show ?thesis
      proof (cases "ws = base")
        case True
        then have "ReadFile p (fw_fs w) = None"
          using assms(3) ws by (auto simp: ReadFile_def node_at_def split: option.split fnode.split)
        then show ?thesis by (simp add: unzip_missing)
      next
        case False
        then obtain us x where us: "ws = us @ [x]" "prefix base us" using ws(2) by (cases ws rule: rev_cases) auto
        then have "dest = abs_path us" "list_all real_word us"
          using ds \<open>targets = []\<close> ws Dir_Base_snoc(1) [of us x] by simp_all
        then show ?thesis using within_unzip us(2) by blast
      qed
    qed
    then show ?thesis by (rule answer)
  qed
  note two_nil = two [where targets = "[]", simplified] and two_cons = two [where targets = "_ # _", simplified]
  show ?thesis
    using m one two_nil two_cons assms(2)
    by (auto simp: handleFileCompress_def fileScope_def neq_Nil_conv split: option.split sum.split prod.split)
qed

text \<open>The requests to the file manager that change something, and the world after one of them.\<close>

datatype file_request =
    ReadWrite "(string \<times> string option) option"
  | Delete "string list option"
  | Move "string list list option"
  | Copy "string list list option"
  | Compress "(int \<times> string \<times> string list) option"
  | Mkdir "string option"
  | Touch "string option"

fun file_served :: "zip_format \<Rightarrow> file_env \<Rightarrow> string \<Rightarrow> file_request \<Rightarrow> file_world \<Rightarrow> file_world option" where
  "file_served Z E uuid (ReadWrite b) w = map_option snd (handleFileReadWrite E uuid b w)"
| "file_served Z E uuid (Delete b) w = map_option snd (handleFileDelete E uuid b w)"
| "file_served Z E uuid (Move b) w = map_option snd (handleFileMove E uuid b w)"
| "file_served Z E uuid (Copy b) w = map_option snd (handleFileCopy E uuid b w)"
| "file_served Z E uuid (Compress b) w = map_option snd (handleFileCompress Z E uuid b w)"
| "file_served Z E uuid (Mkdir b) w = map_option snd (handleFileMkdir E uuid b w)"
| "file_served Z E uuid (Touch b) w = map_option snd (handleFileTouch E uuid b w)"

lemma file_served_passes:
  assumes "CwdOf (fw_node w) uuid = Inr (abs_path base)" "list_all real_word base"
    "\<And>x. fmlookup (fw_fs w) base \<noteq> Some (FFile x)" "file_served Z E uuid q w = Some w'"
  shows "passes base uuid w w'"
proof (cases q)
  case (ReadWrite b)
  have "keeps base uuid w (handleFileReadWrite E uuid b w)"
    unfolding handleFileReadWrite_def using assms(2)
    by (intro keeps_fileScope [OF assms(1)]) (auto intro: keeps_read_write split: option.split)
  then show ?thesis using ReadWrite assms(4) by (auto simp: keeps_def)
next
  case (Delete b)
  have "keeps base uuid w (handleFileDelete E uuid b w)"
    unfolding handleFileDelete_def using assms(2)
    by (intro keeps_fileScope [OF assms(1)]) (auto intro: keeps_delete split: option.split)
  then show ?thesis using Delete assms(4) by (auto simp: keeps_def)
next
  case (Move b)
  have "keeps base uuid w (handleFileMove E uuid b w)"
    unfolding handleFileMove_def using assms(2)
    by (intro keeps_fileScope [OF assms(1)]) (auto intro: keeps_move split: option.split)
  then show ?thesis using Move assms(4) by (auto simp: keeps_def)
next
  case (Copy b)
  have "keeps base uuid w (handleFileCopy E uuid b w)"
    unfolding handleFileCopy_def using assms(2)
    by (intro keeps_fileScope [OF assms(1)]) (auto intro: keeps_copy split: option.split)
  then show ?thesis using Copy assms(4) by (auto simp: keeps_def)
next
  case (Compress b)
  then show ?thesis using keeps_compress [OF assms(2,1,3)] assms(4) by (auto simp: keeps_def)
next
  case (Mkdir b)
  have "keeps base uuid w (handleFileMkdir E uuid b w)"
    unfolding handleFileMkdir_def using assms(2)
    by (intro keeps_fileScope [OF assms(1)]) (auto intro: keeps_mkdir split: option.split)
  then show ?thesis using Mkdir assms(4) by (auto simp: keeps_def)
next
  case (Touch b)
  have "keeps base uuid w (handleFileTouch E uuid b w)"
    unfolding handleFileTouch_def using assms(2)
    by (intro keeps_fileScope [OF assms(1)]) (auto intro: keeps_touch split: option.split)
  then show ?thesis using Touch assms(4) by (auto simp: keeps_def)
qed

subsection \<open>An example\<close>

definition ex_fs :: fs where
  "ex_fs = fmap_of_list [([], FDir), ([''games''], FDir), ([''games'', ''mc''], FDir),
     ([''games'', ''mc'', ''a.txt''], FFile ''hello''), ([''games'', ''other''], FDir),
     ([''games'', ''other'', ''run.sh''], FFile ''java'')]"

definition ex_env :: file_env where
  "ex_env = \<lparr>fe_C = undefined, fe_ev = linkless, fe_now = 0, fe_rnd = (\<lambda>_ _. None), fe_io = (\<lambda>_. None)\<rparr>"

definition ex_world :: file_world where
  "ex_world = \<lparr>fw_node = sample_node, fw_vault = newVaultState 1, fw_store = newVaultStore 4, fw_fs = ex_fs\<rparr>"

lemma ex_lookup:
  "fmlookup ex_fs x =
     map_of [([], FDir), ([''games''], FDir), ([''games'', ''mc''], FDir),
       ([''games'', ''mc'', ''a.txt''], FFile ''hello''), ([''games'', ''other''], FDir),
       ([''games'', ''other'', ''run.sh''], FFile ''java'')] x"
  by (simp only: ex_fs_def fmlookup_of_list)

lemma ex_fs_ok: "fs_ok ex_fs"
  unfolding fs_ok_def ex_lookup by (auto simp: real_word_def plain_word_def split: if_splits)

lemma ex_world_simps [simp]:
  "CwdOf (fw_node ex_world) ''a'' = Inr ''/games/mc''" "file_mode ex_world ''a'' = Inr False" "fw_fs ex_world = ex_fs"
  by (simp_all add: ex_world_def CwdOf_def Find_def file_mode_def vaultFilesMode_def sample_node_def obj_def
      sample_instance_def sample_config_def NewInstance_def FillDefaults_def Let_def)

lemma ex_base: "''/games/mc'' = abs_path [''games'', ''mc'']" "list_all real_word [''games'', ''mc'']"
  by code_simp+

lemma resolve_empty:
  assumes "no_links ev" "list_all real_word base"
  shows "safeResolve ev (abs_path base) [] = Some (Inr (abs_path base))"
  using safe_resolve_without_links [OF assms, of "[]"] by (simp add: NormalizePath_def)

lemma no_links_linkless: "no_links linkless"
  by (simp add: no_links_def linkless_def)

lemma ex_resolve:
  "safeResolve linkless ''/games/mc'' [] = Some (Inr ''/games/mc'')"
  "safeResolve linkless ''/games/mc'' ''a.txt'' = Some (Inr ''/games/mc/a.txt'')"
proof -
  have "safeResolve linkless ''/games/mc'' ''a.txt'' = Some (NormalizePath ''/games/mc'' ''a.txt'')"
    using safe_resolve_without_links [OF no_links_linkless ex_base(2)] ex_base(1) by simp
  moreover have "NormalizePath ''/games/mc'' ''a.txt'' = Inr ''/games/mc/a.txt''" by code_simp
  ultimately show "safeResolve linkless ''/games/mc'' ''a.txt'' = Some (Inr ''/games/mc/a.txt'')" by simp
qed (use resolve_empty [OF no_links_linkless ex_base(2)] ex_base(1) in simp)

lemma ex_file: "''/games/mc/a.txt'' = abs_path [''games'', ''mc'', ''a.txt'']" "list_all real_word [''games'', ''mc'', ''a.txt'']"
  "root_words ''/games/mc/a.txt'' = [''games'', ''mc'', ''a.txt'']" "Dir ''/games/mc/a.txt'' = ''/games/mc''"
  "root_words ''/games/mc'' = [''games'', ''mc'']"
  by code_simp+

subsection \<open>Properties of the handlers\<close>



text \<open>
  A text written is the text read back, up to 8 MiB; a longer one is written too and refused when
  it is read.
\<close>

theorem text_written_is_read:
  assumes "file_mode w uuid = Inr False" "handleFileReadWrite E uuid (Some (target, Some text)) w = Some (Reply Written, w1)"
  shows "handleFileReadWrite E uuid (Some (target, None)) w1 =
    Some (if int (length text) > maxTextReadBytes then Fail 400 ''file too large'' else Reply (ReadText text), w1)"
proof -
  obtain cwd where cwd: "CwdOf (fw_node w) uuid = Inr cwd"
    using assms(2) by (auto simp: handleFileReadWrite_def fileScope_def split: sum.splits)
  obtain p where p: "safeResolve (fe_ev E) cwd target = Some (Inr p)"
    using assms(2) cwd by (auto simp: handleFileReadWrite_def fileScope_def on_target_def split: option.splits sum.splits)
  have "write_plain p text w = Some (Reply Written, w1)"
    using assms cwd p by (simp add: handleFileReadWrite_def fileScope_def on_target_def)
  then obtain fs fs1 where f: "WriteFile p text fs = Some fs1" "w1 = w\<lparr>fw_fs := fs1\<rparr>"
    by (auto simp: write_plain_def split: option.splits)
  then have "node_at fs1 p = Some (FFile text)"
    unfolding WriteFile_def node_at_def using put_file_lookup by metis
  then show ?thesis
    using assms(1) cwd p f(2) by (simp add: handleFileReadWrite_def fileScope_def on_target_def read_plain_def)
qed

theorem text_written_is_read_witness:
  "\<exists>w1. handleFileReadWrite ex_env ''a'' (Some (''a.txt'', Some ''bye'')) ex_world = Some (Reply Written, w1) \<and>
     handleFileReadWrite ex_env ''a'' (Some (''a.txt'', None)) w1 = Some (Reply (ReadText ''bye''), w1)"
proof -
  have m: "MkdirAll ''/games/mc'' ex_fs = Some ex_fs"
    using MkdirAll_exists [OF ex_fs_ok] by (simp add: node_at_def ex_file ex_lookup)
  define w1 where "w1 = ex_world\<lparr>fw_fs := fmupd [''games'', ''mc'', ''a.txt''] (FFile ''bye'') ex_fs\<rparr>"
  have w: "handleFileReadWrite ex_env ''a'' (Some (''a.txt'', Some ''bye'')) ex_world = Some (Reply Written, w1)"
    by (simp add: handleFileReadWrite_def fileScope_def on_target_def ex_env_def ex_resolve write_plain_def ex_file(3-5) m
        WriteFile_def put_file_def ex_lookup w1_def)
  from text_written_is_read [OF _ w] show ?thesis using w by (auto simp: maxTextReadBytes_def)
qed

text \<open>
  Copying a file onto itself empties it. The target is created, and so truncated, before the source
  is read, and nothing compares the two; the answer is success and the content is gone.
\<close>

theorem copy_onto_itself_empties:
  assumes "file_mode w uuid = Inr False" "fs_ok (fw_fs w)" "CwdOf (fw_node w) uuid = Inr cwd" "list_all real_word ws"
    "safeResolve (fe_ev E) cwd t = Some (Inr (abs_path ws))" "fmlookup (fw_fs w) ws = Some (FFile data)"
    "resolveExistingPrefix (fe_ev E) cwd = Some (Inr root)"
  shows "\<exists>w'. handleFileCopy E uuid (Some [[t, t]]) w = Some (Reply (), w') \<and> fmlookup (fw_fs w') ws = Some (FFile [])"
proof -
  let ?fs = "fw_fs w" and ?p = "abs_path ws"
  have ws: "ws \<noteq> []" using assms(2,6) by (auto simp: fs_ok_def)
  then have parent: "fmlookup ?fs (butlast ws) = Some FDir" using fs_ok_butlast assms(2,6) by blast
  have "fmlookup ?fs x \<in> {None, Some FDir}" if "prefix x (butlast ws)" for x
  proof (cases "x = butlast ws")
    case False
    then have "strict_prefix x (butlast ws)" using that by (simp add: prefix_order.le_less)
    then show ?thesis using fs_ok_above [OF assms(2)] parent by auto
  qed (simp add: parent)
  then obtain fs1 where m: "MkdirAll (Dir ?p) ?fs = Some fs1"
    using mkdir_words_ok [of "[]" "butlast ws" ?fs] by (auto simp: MkdirAll_def root_words_Dir assms(4))
  have len: "\<not> prefix ws (butlast ws)" using ws by (metis append_butlast_last_id prefix_order.leD prefix_snocD strict_prefixI' append1_eq_conv)
  have l1: "fmlookup fs1 ws = Some (FFile data)" "fmlookup fs1 (butlast ws) = Some FDir"
    using MkdirAll_lookup [OF m] assms(4,6) len parent by (auto simp: root_words_Dir)
  have ne: "butlast ws \<noteq> ws" using len by auto
  define fs2 where "fs2 = fmupd ws (FFile []) fs1"
  have 2: "WriteFile ?p [] fs1 = Some fs2" using l1 ws assms(4) by (simp add: WriteFile_def put_file_def fs2_def)
  have l2: "fmlookup fs2 ws = Some (FFile [])" "fmlookup fs2 (butlast ws) = Some FDir" using l1 ne by (simp_all add: fs2_def)
  then have 3: "WriteFile ?p [] fs2 = Some (fmupd ws (FFile []) fs2)" using ws assms(4) by (simp add: WriteFile_def put_file_def)
  have "copyPath ?p ?p ?fs = Some (None, fmupd ws (FFile []) fs2)"
    using m l1 l2 2 3 assms(4,6) by (simp add: copyPath_def copyFile_def ReadFile_def node_at_def)
  then show ?thesis
    using assms(1,3,5,7) by (simp add: handleFileCopy_def fileScope_def on_pair_def finish_def)
qed

theorem copy_onto_itself_empties_witness:
  "\<exists>w'. handleFileCopy ex_env ''a'' (Some [[''a.txt'', ''a.txt'']]) ex_world = Some (Reply (), w') \<and>
     fmlookup (fw_fs ex_world) [''games'', ''mc'', ''a.txt''] = Some (FFile ''hello'') \<and>
     fmlookup (fw_fs w') [''games'', ''mc'', ''a.txt''] = Some (FFile [])"
proof -
  have "resolveExistingPrefix linkless ''/games/mc'' = Some (Inr ''/games/mc'')"
    using resolve_no_links [OF no_links_linkless ex_base(2)] ex_base(1) by simp
  then show ?thesis
    using copy_onto_itself_empties [of ex_world "''a''" "''/games/mc''" "[''games'', ''mc'', ''a.txt'']" ex_env "''a.txt''" "''hello''" "''/games/mc''"]
      ex_file(1,2) ex_resolve(2) ex_fs_ok by (simp add: ex_env_def ex_lookup)
qed

text \<open>
  An empty target deletes the working directory. An empty name, and so a name of white space, is
  resolved to the directory itself, and the handler removes it with everything in it; the handler
  for jails refuses this.
\<close>

theorem empty_target_removes_everything:
  assumes "file_mode w uuid = Inr False" "CwdOf (fw_node w) uuid = Inr (abs_path base)" "list_all real_word base" "base \<noteq> []"
    "TrimSpace t = []" "no_links (fe_ev E)"
  shows "\<exists>w'. handleFileDelete E uuid (Some [t]) w = Some (Reply (), w') \<and> (\<forall>x. prefix base x \<longrightarrow> fmlookup (fw_fs w') x = None)"
proof -
  have "NormalizePath (abs_path base) t = Inr (abs_path base)" using assms(5) by (simp add: NormalizePath_def)
  then have "safeResolve (fe_ev E) (abs_path base) t = Some (Inr (abs_path base))"
    using safe_resolve_without_links [OF assms(6,3), of t] by simp
  then have "handleFileDelete E uuid (Some [t]) w = Some (Reply (), w\<lparr>fw_fs := RemoveAll (abs_path base) (fw_fs w)\<rparr>)"
    using assms(1,2) by (simp add: handleFileDelete_def fileScope_def on_target_def finish_def)
  moreover have "fmlookup (RemoveAll (abs_path base) (fw_fs w)) x = None" if "prefix base x" for x
    using that assms(3,4) by (auto simp: RemoveAll_lookup)
  ultimately show ?thesis by auto
qed

theorem empty_target_removes_everything_witness:
  "\<exists>w'. handleFileDelete ex_env ''a'' (Some ['' '']) ex_world = Some (Reply (), w') \<and>
     fmlookup (fw_fs ex_world) [''games'', ''mc'', ''a.txt''] = Some (FFile ''hello'') \<and>
     fmlookup (fw_fs w') [''games'', ''mc'', ''a.txt''] = None"
proof -
  have "TrimSpace '' '' = []" by code_simp
  then show ?thesis
    using empty_target_removes_everything [of ex_world "''a''" "[''games'', ''mc'']" "'' ''" ex_env]
      ex_base no_links_linkless by (fastforce simp: ex_env_def ex_lookup)
qed

text \<open>The archive of the last example.\<close>

definition ex_zip :: zip_format where
  "ex_zip = \<lparr>zf_write = (\<lambda>_. []),
     zf_read = (\<lambda>t. if t = ''PK'' then Some [\<lparr>ze_Name = ''other/run.sh'', ze_IsDir = False, ze_UncompressedSize64 = 4,
                  ze_Open = Some [''evil''], ze_Err = False\<rparr>] else None),
     zf_partial = []\<rparr>"

text \<open>
  Three requests write outside the working directory. With the directory removed (an empty
  target), an archive can be written as a file in its place; unpacked without a target it goes to
  the directory it lies in, which is the one above: here the files of another instance.
\<close>

theorem unpacking_escapes_working_directory:
  "\<exists>w1 w2 w3. file_served ex_zip ex_env ''a'' (Delete (Some [[]])) ex_world = Some w1 \<and>
     file_served ex_zip ex_env ''a'' (ReadWrite (Some ([], Some ''PK''))) w1 = Some w2 \<and>
     file_served ex_zip ex_env ''a'' (Compress (Some (2, [], []))) w2 = Some w3 \<and>
     fmlookup (fw_fs w3) [''games'', ''other'', ''run.sh''] = Some (FFile ''evil'')"
proof -
  have r: "safeResolve linkless ''/games/mc'' [] = Some (Inr ''/games/mc'')"
    using resolve_empty [OF no_links_linkless ex_base(2)] ex_base(1) by simp
  have words: "root_words ''/games/mc'' = [''games'', ''mc'']" "root_words ''/games'' = [''games'']"
    "root_words ''/games/other'' = [''games'', ''other'']" "root_words ''/games/other/run.sh'' = [''games'', ''other'', ''run.sh'']"
    "Dir ''/games/mc'' = ''/games''" "Dir ''/games/other/run.sh'' = ''/games/other''"
    "Clean ''other/run.sh'' = ''other/run.sh''" "Join [''/games'', ''other/run.sh''] = ''/games/other/run.sh''"
    "pathWithin ''/games'' ''/games/other/run.sh''" by code_simp+
  define fs1 where "fs1 = RemoveAll ''/games/mc'' ex_fs"
  define fs2 where "fs2 = fmupd [''games'', ''mc''] (FFile ''PK'') fs1"
  define fs3 where "fs3 = fmupd [''games'', ''other'', ''run.sh''] (FFile []) fs2"
  define fs4 where "fs4 = fmupd [''games'', ''other'', ''run.sh''] (FFile ''evil'') fs3"
  define w1 where "w1 = ex_world\<lparr>fw_fs := fs1\<rparr>"
  define w2 where "w2 = ex_world\<lparr>fw_fs := fs2\<rparr>"
  have 1: "file_served ex_zip ex_env ''a'' (Delete (Some [[]])) ex_world = Some w1"
    by (simp add: handleFileDelete_def fileScope_def on_target_def ex_env_def r finish_def w1_def fs1_def)
  have ok1: "fs_ok fs1" unfolding fs1_def by (rule RemoveAll_ok [OF ex_fs_ok])
  have l1: "fmlookup fs1 [''games''] = Some FDir" "fmlookup fs1 [''games'', ''mc''] = None"
    by (simp_all add: fs1_def RemoveAll_lookup words ex_lookup)
  have mk1: "MkdirAll ''/games'' fs1 = Some fs1" using MkdirAll_exists [OF ok1] l1 by (simp add: node_at_def words)
  have wr1: "WriteFile ''/games/mc'' ''PK'' fs1 = Some fs2" using l1 by (simp add: WriteFile_def put_file_def words fs2_def)
  have 2: "file_served ex_zip ex_env ''a'' (ReadWrite (Some ([], Some ''PK''))) w1 = Some w2"
    using mk1 wr1
    by (simp add: handleFileReadWrite_def fileScope_def on_target_def ex_env_def r w1_def w2_def write_plain_def words)
  have ok2: "fs_ok fs2" using put_file_ok [OF ok1 _ wr1 [unfolded WriteFile_def]] by simp
  have l2: "fmlookup fs2 [''games''] = Some FDir" "fmlookup fs2 [''games'', ''mc''] = Some (FFile ''PK'')"
    "fmlookup fs2 [''games'', ''other''] = Some FDir" "fmlookup fs2 [''games'', ''other'', ''run.sh''] = Some (FFile ''java'')"
    by (simp_all add: fs2_def fs1_def RemoveAll_lookup words ex_lookup)
  have mk2: "MkdirAll ''/games'' fs2 = Some fs2" "MkdirAll ''/games/other'' fs2 = Some fs2"
    using MkdirAll_exists [OF ok2] l2 by (simp_all add: node_at_def words)
  have wr2: "WriteFile ''/games/other/run.sh'' [] fs2 = Some fs3" "WriteFile ''/games/other/run.sh'' ''evil'' fs3 = Some fs4"
    using l2 by (simp_all add: WriteFile_def put_file_def words fs3_def fs4_def)
  have "unzip ex_zip ''/games/mc'' ''/games'' fs2 = (None, fs4)"
    using l2 mk2 wr2
    by (simp add: unzip_def ReadFile_def node_at_def words ex_zip_def declared_total_def maxUnzipEntries_def
        maxUnzipTotalBytes_def)
  then have 3: "file_served ex_zip ex_env ''a'' (Compress (Some (2, [], []))) w2 = Some (w2\<lparr>fw_fs := fs4\<rparr>)"
    by (simp add: handleFileCompress_def fileScope_def ex_env_def r w2_def words answer_500_def)
  have "fmlookup fs4 [''games'', ''other'', ''run.sh''] = Some (FFile ''evil'')" by (simp add: fs4_def)
  then show ?thesis using 1 2 3 by force
qed

subsection \<open>Whose files\<close>

text \<open>
  The file manager does not ask whose instance it is. An account that may not see an instance of
  another account reads its files, if its switch for the route is on; the switch is not per instance.
\<close>

theorem foreign_files_open:
  "let on = Some (\<lambda>u. fmupd ''PUT /api/files/'' True fmempty) in
   (\<exists>m. requireInstanceAccess (Some eve_identity) sample_node ''a'' = Inl (InstanceForbidden m)) \<and>
   serve (run_stmts RegisterRoutes empty_perms) (Some eve_identity) on ''PUT /api/files/'' =
     Reply (''handleFileReadWrite'', Some eve_identity) \<and>
   handleFileReadWrite ex_env ''a'' (Some (''a.txt'', None)) ex_world = Some (Reply (ReadText ''hello''), ex_world)"
proof -
  have "mux_lookup (run_stmts RegisterRoutes empty_perms) ''PUT /api/files/'' = Some (True, ''handleFileReadWrite'')"
    by (simp add: mux_lookup_def run_stmts_def run_stmts_mux RegisterRoutes_def)
  moreover have "handleFileReadWrite ex_env ''a'' (Some (''a.txt'', None)) ex_world = Some (Reply (ReadText ''hello''), ex_world)"
    by (simp add: handleFileReadWrite_def fileScope_def on_target_def ex_env_def ex_resolve read_plain_def
        node_at_def ex_file(3) ex_lookup maxTextReadBytes_def)
  moreover have "Find sample_node ''a'' = Some 0" "OwnerOf sample_node 0 = ''bob''"
    by (simp_all add: Find_def OwnerOf_def obj_def sample_node_def sample_instance_def)
  moreover have "TrimSpace ''a'' = ''a''" by code_simp
  ultimately show ?thesis
    by (simp add: serve_def auth_def eve_identity_def permAllowed_def requireInstanceAccess_def requireInstance_def
        canAccessInstance_def Let_def)
qed

subsection \<open>Unpacking is bounded\<close>

definition fs_bytes :: "fs \<Rightarrow> int" where
  "fs_bytes fs = (\<Sum>k \<in> fset (fmdom fs). node_size (the (fmlookup fs k)))"

lemma node_size_nonneg [simp]: "0 \<le> node_size n"
  by (cases n) (simp_all add: node_size_def)

lemma fs_bytes_upd:
  "fs_bytes (fmupd k n fs) = fs_bytes fs - (case fmlookup fs k of None \<Rightarrow> 0 | Some m \<Rightarrow> node_size m) + node_size n"
proof -
  let ?D = "fset (fmdom fs)"
  have f: "finite ?D" by simp
  have rest: "(\<Sum>x \<in> ?D - {k}. node_size (the (fmlookup (fmupd k n fs) x))) = (\<Sum>x \<in> ?D - {k}. node_size (the (fmlookup fs x)))"
    by (rule sum.cong) auto
  have "fset (fmdom (fmupd k n fs)) = insert k (?D - {k})" by auto
  then have "fs_bytes (fmupd k n fs) = node_size n + (\<Sum>x \<in> ?D - {k}. node_size (the (fmlookup (fmupd k n fs) x)))"
    unfolding fs_bytes_def by (simp only:) (subst sum.insert; simp)
  moreover have "fs_bytes fs = (case fmlookup fs k of None \<Rightarrow> 0 | Some m \<Rightarrow> node_size m) + (\<Sum>x \<in> ?D - {k}. node_size (the (fmlookup fs x)))"
  proof (cases "fmlookup fs k")
    case None
    then have "k \<notin> ?D" by (simp add: fmlookup_dom_iff)
    then show ?thesis using None by (simp add: fs_bytes_def)
  next
    case (Some m)
    then have "k \<in> ?D" by (simp add: fmlookup_dom_iff)
    then show ?thesis using Some sum.remove [OF f, of k "\<lambda>x. node_size (the (fmlookup fs x))"] by (simp add: fs_bytes_def)
  qed
  ultimately show ?thesis using rest by simp
qed

lemma fs_bytes_mkdir: "mkdir_words pre ws fs = Some fs' \<Longrightarrow> fs_bytes fs' = fs_bytes fs"
proof (induction ws arbitrary: pre fs)
  case Nil
  then show ?case by (auto simp: mkdir1_def fs_bytes_upd node_size_def split: option.splits fnode.splits)
next
  case (Cons w ws)
  then obtain fs1 where "mkdir1 pre fs = Some fs1" "mkdir_words (pre @ [w]) ws fs1 = Some fs'"
    by (auto split: option.splits)
  then show ?case using Cons.IH
    by (auto simp: mkdir1_def fs_bytes_upd node_size_def split: option.splits fnode.splits)
qed

lemma fs_bytes_put:
  "put_file ws data fs = Some fs' \<Longrightarrow>
   fs_bytes fs' = fs_bytes fs - (case fmlookup fs ws of None \<Rightarrow> 0 | Some m \<Rightarrow> node_size m) + int (length data)"
  by (auto simp: put_file_def fs_bytes_upd node_size_def split: if_splits)

lemma fs_bytes_rewrite:
  assumes "WriteFile p [] fs = Some fs1" "WriteFile p data fs1 = Some fs2"
  shows "fs_bytes fs2 \<le> fs_bytes fs + int (length data)"
proof -
  have "fmlookup fs1 (root_words p) = Some (FFile [])" using assms(1) put_file_lookup unfolding WriteFile_def by metis
  then have "fs_bytes fs2 = fs_bytes fs1 + int (length data)"
    using fs_bytes_put [OF assms(2) [unfolded WriteFile_def]] by (simp add: node_size_def)
  moreover have "fs_bytes fs1 \<le> fs_bytes fs"
    using fs_bytes_put [OF assms(1) [unfolded WriteFile_def]] by (auto split: option.splits)
  ultimately show ?thesis by simp
qed

lemma capped_copy_bound: "capped_copy budget ps = (out, over) \<Longrightarrow> length out \<le> budget"
proof (induction ps arbitrary: budget out)
  case (Cons p ps)
  obtain out' over' where "capped_copy (budget - length p) ps = (out', over')" by fastforce
  then show ?case using Cons.prems Cons.IH [of "budget - length p" out'] by (auto split: if_splits)
qed simp

lemma unzip_entries_bytes:
  "written \<le> maxUnzipTotalBytes \<Longrightarrow>
   fs_bytes (snd (unzip_entries dest es written fs)) \<le> fs_bytes fs + int (maxUnzipTotalBytes - written)"
proof (induction es arbitrary: written fs)
  case (Cons f es)
  define name where "name = Clean (ze_Name f)"
  define target where "target = Join [dest, name]"
  note fold = name_def [symmetric] target_def [symmetric]
  show ?case
  proof (cases "name = ''.'' \<or> name = [] \<or> \<not> pathWithin dest target")
    case True
    then show ?thesis using Cons by (auto simp: Let_def fold)
  next
    case False
    show ?thesis
    proof (cases "ze_IsDir f")
      case True
      have "fs_bytes (snd (unzip_entries dest es written fs1)) \<le> fs_bytes fs + int (maxUnzipTotalBytes - written)"
        if "MkdirAll target fs = Some fs1" for fs1
        using Cons.IH [OF Cons.prems, of fs1] fs_bytes_mkdir that by (simp add: MkdirAll_def)
      then show ?thesis using False True by (auto simp: Let_def fold split: option.split)
    next
      case nodir: False
      show ?thesis
      proof (cases "MkdirAll (Dir target) fs")
        case None
        then show ?thesis using False nodir by (simp add: Let_def fold)
      next
        case (Some fs1)
        then have b1: "fs_bytes fs1 = fs_bytes fs" using fs_bytes_mkdir by (simp add: MkdirAll_def)
        show ?thesis
        proof (cases "ze_Open f = None \<or> WriteFile target [] fs1 = None")
          case True
          then have "snd (unzip_entries dest (f # es) written fs) = fs1" using Some False nodir
            by (cases "ze_Open f") (auto simp: Let_def fold)
          then show ?thesis using b1 by simp
        next
          case f2: False
          then obtain pieces fs2 where p: "ze_Open f = Some pieces" "WriteFile target [] fs1 = Some fs2" by auto
          obtain content over where c: "capped_copy (maxUnzipTotalBytes - written) pieces = (content, over)" by fastforce
          note len = capped_copy_bound [OF c]
          obtain fs3 where fs3: "WriteFile target content fs2 = Some fs3" using WriteFile_again [OF p(2)] by blast
          have b3: "fs_bytes fs3 \<le> fs_bytes fs + int (length content)" using fs_bytes_rewrite [OF p(2) fs3] b1 by simp
          show ?thesis
          proof (cases "over \<or> ze_Err f")
            case True
            then have "snd (unzip_entries dest (f # es) written fs) = fs3" using Some False nodir p c fs3
              by (auto simp: Let_def fold)
            moreover have "int (length content) \<le> int (maxUnzipTotalBytes - written)" using len by (simp only: of_nat_le_iff)
            ultimately show ?thesis using b3 by (simp only:)
          next
            case last: False
            have eq: "snd (unzip_entries dest (f # es) written fs) = snd (unzip_entries dest es (written + length content) fs3)"
              using Some False nodir p c fs3 last by (auto simp: Let_def fold)
            have le: "written + length content \<le> maxUnzipTotalBytes" using len Cons.prems by linarith
            then have "int (maxUnzipTotalBytes - (written + length content)) + int (length content) = int (maxUnzipTotalBytes - written)"
              by (simp flip: of_nat_add)
            then show ?thesis unfolding eq using Cons.IH [OF le, of fs3] b3 by linarith
          qed
        qed
      qed
    qed
  qed
qed simp

text \<open>
  C19. Unpacking an archive adds at most 8 GiB to the file system, whatever the headers of its entries
  declare, also where their sum overflows 64 bits.
\<close>

theorem unpacking_bounded: "fs_bytes (snd (unzip Z zipPath dest fs)) \<le> fs_bytes fs + 2 ^ 33"
proof -
  have "fs_bytes (snd (unzip_entries dest es 0 fs1)) \<le> fs_bytes fs + 2 ^ 33" if "MkdirAll dest fs = Some fs1" for es fs1
    using unzip_entries_bytes [of 0 dest es fs1] fs_bytes_mkdir that
    by (simp add: MkdirAll_def maxUnzipTotalBytes_def)
  then show ?thesis by (auto simp: unzip_def split: option.split)
qed

end
