(* ===== verification/Trash.thy ===== *)
theory Trash
  imports FileSafety
begin

text \<open>
  The trash of an instance (cmd/irix-node/trash.go): targets are moved into a directory below the
  working directory, what is known about them is kept in a JSON file of the node's data directory,
  \<open>{data}/trash/{uuid}.json\<close>. Restoring gives a new name where the old one is taken.

  The text of the list is a parameter, \<open>trash_codec\<close>. The identifiers of a request's targets, eight
  digits of a random UUID each, are the function \<open>ids\<close>.
\<close>

subsection \<open>The list\<close>

definition trashDirName :: string where "trashDirName = ''.irix-trash''"

record trashItem =
  ti_ID :: string
  ti_Name :: string
  ti_OriginalPath :: string
  ti_TrashPath :: string
  ti_Size :: int
  ti_DeletedAt :: int

record trash_codec =
  tc_print :: "trashItem list \<Rightarrow> string"
  tc_parse :: "string \<Rightarrow> trashItem list option"

definition trashFile :: "string \<Rightarrow> string \<Rightarrow> string" where
  "trashFile dataDir uuid = Join [dataDir, ''trash'', uuid @ ''.json'']"

definition loadTrash :: "trash_codec \<Rightarrow> string \<Rightarrow> string \<Rightarrow> fs \<Rightarrow> trashItem list" where
  "loadTrash T dataDir uuid fs =
     (case ReadFile (trashFile dataDir uuid) fs of
        None \<Rightarrow> []
      | Some data \<Rightarrow> (case tc_parse T data of None \<Rightarrow> [] | Some items \<Rightarrow> items))"

definition saveTrash :: "trash_codec \<Rightarrow> string \<Rightarrow> string \<Rightarrow> trashItem list \<Rightarrow> fs \<Rightarrow> bool \<times> fs" where
  "saveTrash T dataDir uuid items fs =
     (let p = trashFile dataDir uuid; tmp = p @ ''.tmp'' in
      case MkdirAll (Dir p) fs of
        None \<Rightarrow> (False, fs)
      | Some fs \<Rightarrow>
        (case WriteFile tmp (tc_print T items) fs of
           None \<Rightarrow> (False, fs)
         | Some fs \<Rightarrow> (case Rename tmp p fs of None \<Rightarrow> (False, fs) | Some fs \<Rightarrow> (True, fs))))"

definition slashRel :: "string \<Rightarrow> string \<Rightarrow> string" where
  "slashRel cwd p = (case Rel cwd p of None \<Rightarrow> [] | Some rel \<Rightarrow> ''/'' @ rel)"

definition DirSize :: "string \<Rightarrow> fs \<Rightarrow> int" where
  "DirSize p fs = sum_list (map (\<lambda>k. node_size (the (fmlookup fs k))) (filter (prefix (root_words p)) (fs_keys fs)))"

text \<open>A handler ends by saving the list it has computed.\<close>

definition save_and_reply ::
  "trash_codec \<Rightarrow> string \<Rightarrow> trashItem list \<Rightarrow> 'a \<Rightarrow> file_world \<Rightarrow> 'a reply \<times> file_world" where
  "save_and_reply T uuid items r w =
     (case saveTrash T (nd_DataDir (fw_node w)) uuid items (fw_fs w) of
        (False, fs) \<Rightarrow> (Fail 500 ''cannot save trash list'', w\<lparr>fw_fs := fs\<rparr>)
      | (True, fs) \<Rightarrow> (Reply r, w\<lparr>fw_fs := fs\<rparr>))"

subsection \<open>Moving into the trash\<close>

definition trash_name :: "string \<Rightarrow> string \<Rightarrow> string" where
  "trash_name uid name = uid @ ''-'' @ name"

text \<open>A loop over the targets: an error with its status, or the items with those of the targets added.\<close>

type_synonym 'a looped = "((nat \<times> string + 'a) \<times> fs) option"

fun trash_targets ::
  "(string \<Rightarrow> eval_error + string) \<Rightarrow> int \<Rightarrow> (nat \<Rightarrow> string) \<Rightarrow> string \<Rightarrow> nat \<Rightarrow> string list \<Rightarrow> trashItem list \<Rightarrow> fs \<Rightarrow>
   trashItem list looped" where
  "trash_targets ev now ids cwd k [] items fs = Some (Inr items, fs)"
| "trash_targets ev now ids cwd k (t # ts) items fs =
     (case safeResolve ev cwd t of
        None \<Rightarrow> None
      | Some (Inl e) \<Rightarrow> Some (Inl (400, e), fs)
      | Some (Inr src) \<Rightarrow>
        let trashDir = Join [cwd, trashDirName] in
        if pathWithin trashDir src then Some (Inl (400, ''already in the trash''), fs)
        else
          (case node_at fs src of
             None \<Rightarrow> Some (Inl (400, ''no such target: '' @ t), fs)
           | Some n \<Rightarrow>
             let size = (if n = FDir then DirSize src fs else node_size n);
                 dst = Join [trashDir, trash_name (ids k) (Base src)] in
             (case Rename src dst fs of
                None \<Rightarrow> Some (Inl (500, ''cannot move to trash''), fs)
              | Some fs \<Rightarrow>
                  trash_targets ev now ids cwd (Suc k) ts
                    (items @ [\<lparr>ti_ID = ids k, ti_Name = Base src, ti_OriginalPath = slashRel cwd src,
                       ti_TrashPath = slashRel cwd dst, ti_Size = size, ti_DeletedAt = now\<rparr>]) fs)))"

definition handleFileTrash ::
  "trash_codec \<Rightarrow> file_env \<Rightarrow> (nat \<Rightarrow> string) \<Rightarrow> (string \<times> string list) option \<Rightarrow> file_world \<Rightarrow> unit handled" where
  "handleFileTrash T E ids body w =
     (case body of
        None \<Rightarrow> Some (Fail 400 ''malformed body'', w)
      | Some (uuid, targets) \<Rightarrow>
        if targets = [] then Some (Fail 400 ''no targets'', w)
        else fileScope uuid (\<lambda>cwd.
          let items = loadTrash T (nd_DataDir (fw_node w)) uuid (fw_fs w) in
          case MkdirAll (Join [cwd, trashDirName]) (fw_fs w) of
            None \<Rightarrow> Some (Fail 500 ''cannot make trash directory'', w)
          | Some fs \<Rightarrow>
            (case trash_targets (fe_ev E) (fe_now E) ids cwd 0 targets items fs of
               None \<Rightarrow> None
             | Some (Inl (c, e), fs) \<Rightarrow> Some (Fail c e, w\<lparr>fw_fs := fs\<rparr>)
             | Some (Inr items, fs) \<Rightarrow> Some (save_and_reply T uuid items () (w\<lparr>fw_fs := fs\<rparr>)))) w)"

text \<open>The list, newest first; the order of items of the same millisecond is not fixed by the code.\<close>

definition handleTrashList :: "trash_codec \<Rightarrow> string \<Rightarrow> file_world \<Rightarrow> trashItem list handled" where
  "handleTrashList T uuid w =
     Some (if uuid = [] then Fail 400 ''no uuid''
           else Reply (sort_key (\<lambda>i. - ti_DeletedAt i) (loadTrash T (nd_DataDir (fw_node w)) uuid (fw_fs w))), w)"

subsection \<open>Restoring\<close>

fun findTrashItem :: "trashItem list \<Rightarrow> string \<Rightarrow> nat option" where
  "findTrashItem [] uid = None"
| "findTrashItem (i # items) uid =
     (if ti_ID i = uid then Some 0 else map_option Suc (findTrashItem items uid))"

text \<open>\<open>filepath.Ext\<close>: what follows the last dot of the last element, with the dot.\<close>

definition Ext :: "string \<Rightarrow> string" where
  "Ext p =
     (let r = takeWhile (\<lambda>c. c \<noteq> CHR ''.'' \<and> c \<noteq> CHR ''/'') (rev p); rest = drop (length r) (rev p) in
      if rest \<noteq> [] \<and> hd rest = CHR ''.'' then CHR ''.'' # rev r else [])"

definition restore_cand :: "string \<Rightarrow> nat \<Rightarrow> string" where
  "restore_cand dest i =
     (let ext = Ext (Base dest); stem = TrimSuffix (Base dest) ext
      in Join [Dir dest, stem @ '' ('' @ Itoa (int i) @ '')'' @ ext])"

partial_function (option) restore_search :: "string \<Rightarrow> fs \<Rightarrow> nat \<Rightarrow> string option" where
  "restore_search dest fs i =
     (if node_at fs (restore_cand dest i) = None then Some (restore_cand dest i) else restore_search dest fs (Suc i))"

definition uniqueRestorePath :: "string \<Rightarrow> fs \<Rightarrow> string option" where
  "uniqueRestorePath dest fs = restore_search dest fs 1"

fun restore_ids ::
  "(string \<Rightarrow> eval_error + string) \<Rightarrow> string \<Rightarrow> string list \<Rightarrow> trashItem list \<Rightarrow> (string, string) fmap \<Rightarrow> fs \<Rightarrow>
   (trashItem list \<times> (string, string) fmap) looped" where
  "restore_ids ev cwd [] items restored fs = Some (Inr (items, restored), fs)"
| "restore_ids ev cwd (uid # us) items restored fs =
     (case findTrashItem items uid of
        None \<Rightarrow> Some (Inl (400, ''no such trash item: '' @ uid), fs)
      | Some idx \<Rightarrow>
        let it = items ! idx in
        case safeResolve ev cwd (ti_TrashPath it) of
          None \<Rightarrow> None
        | Some (Inl e) \<Rightarrow> Some (Inl (400, e), fs)
        | Some (Inr src) \<Rightarrow>
          (case safeResolve ev cwd (ti_OriginalPath it) of
             None \<Rightarrow> None
           | Some (Inl e) \<Rightarrow> Some (Inl (400, e), fs)
           | Some (Inr dest) \<Rightarrow>
             if node_at fs src = None then Some (Inl (400, ''trash content is gone: '' @ ti_Name it), fs)
             else
               (case (if node_at fs dest = None then Some dest else uniqueRestorePath dest fs) of
                  None \<Rightarrow> None
                | Some dest \<Rightarrow>
                  (case Rename src dest fs of
                     None \<Rightarrow> Some (Inl (500, ''cannot restore''), fs)
                   | Some fs \<Rightarrow>
                       restore_ids ev cwd us (take idx items @ drop (Suc idx) items)
                         (fmupd uid (slashRel cwd dest) restored) fs))))"

definition handleTrashRestore ::
  "trash_codec \<Rightarrow> file_env \<Rightarrow> (string \<times> string list) option \<Rightarrow> file_world \<Rightarrow> (string, string) fmap handled" where
  "handleTrashRestore T E body w =
     (case body of
        None \<Rightarrow> Some (Fail 400 ''malformed body'', w)
      | Some (uuid, us) \<Rightarrow>
        if us = [] then Some (Fail 400 ''no ids'', w)
        else fileScope uuid (\<lambda>cwd.
          let items = loadTrash T (nd_DataDir (fw_node w)) uuid (fw_fs w) in
          case restore_ids (fe_ev E) cwd us items fmempty (fw_fs w) of
            None \<Rightarrow> None
          | Some (Inl (c, e), fs) \<Rightarrow> Some (Fail c e, w\<lparr>fw_fs := fs\<rparr>)
          | Some (Inr (items, restored), fs) \<Rightarrow> Some (save_and_reply T uuid items restored (w\<lparr>fw_fs := fs\<rparr>))) w)"

subsection \<open>Emptying\<close>

fun empty_items ::
  "(string \<Rightarrow> eval_error + string) \<Rightarrow> string \<Rightarrow> string list \<Rightarrow> trashItem list \<Rightarrow> fs \<Rightarrow> (trashItem list \<times> fs) option" where
  "empty_items ev cwd us [] fs = Some ([], fs)"
| "empty_items ev cwd us (it # items) fs =
     (if us \<noteq> [] \<and> ti_ID it \<notin> set us then map_option (\<lambda>(keep, fs). (it # keep, fs)) (empty_items ev cwd us items fs)
      else
        (case safeResolve ev cwd (ti_TrashPath it) of
           None \<Rightarrow> None
         | Some (Inl e) \<Rightarrow> empty_items ev cwd us items fs
         | Some (Inr src) \<Rightarrow> empty_items ev cwd us items (RemoveAll src fs)))"

definition handleTrashEmpty ::
  "trash_codec \<Rightarrow> file_env \<Rightarrow> (string \<times> string list) option \<Rightarrow> file_world \<Rightarrow> unit handled" where
  "handleTrashEmpty T E body w =
     (case body of
        None \<Rightarrow> Some (Fail 400 ''malformed body'', w)
      | Some (uuid, us) \<Rightarrow>
        fileScope uuid (\<lambda>cwd.
          case empty_items (fe_ev E) cwd us (loadTrash T (nd_DataDir (fw_node w)) uuid (fw_fs w)) (fw_fs w) of
            None \<Rightarrow> None
          | Some (keep, fs) \<Rightarrow> Some (save_and_reply T uuid keep () (w\<lparr>fw_fs := fs\<rparr>))) w)"

subsection \<open>Names for restored files\<close>

definition digits_value :: "string \<Rightarrow> nat" where
  "digits_value s = foldl (\<lambda>a c. a * 10 + digit_val c) 0 s"

lemma digits_value_itoa [simp]: "digits_value (nat_itoa n) = n"
proof (induction n rule: nat_itoa.induct)
  case (1 n)
  have digit: "digit_val (char_of (48 + k)) = k" if "k < 10" for k :: nat
    using that by (simp add: digit_val_def)
  show ?case
  proof (cases "n < 10")
    case True
    then show ?thesis by (simp add: nat_itoa.simps [of n] digits_value_def digit)
  next
    case False
    then have "digits_value (nat_itoa n) = digits_value (nat_itoa (n div 10)) * 10 + n mod 10"
      by (simp add: nat_itoa.simps [of n] digits_value_def digit)
    then show ?thesis using 1 False by simp
  qed
qed

lemma digits_itoa: "c \<in> set (nat_itoa n) \<Longrightarrow> is_digit c"
proof (induction n rule: nat_itoa.induct)
  case (1 n)
  have digit: "is_digit (char_of (48 + k))" if "k < 10" for k :: nat
    using that by (simp add: is_digit_def less_eq_char_def)
  show ?case
  proof (cases "n < 10")
    case True
    then have "c = char_of (48 + n)" using 1(2) by (simp add: nat_itoa.simps [of n])
    then show ?thesis using digit True by blast
  next
    case False
    then have "c \<in> set (nat_itoa (n div 10)) \<or> c = char_of (48 + n mod 10)"
      using 1(2) by (simp add: nat_itoa.simps [of n]) blast
    then show ?thesis using 1(1) False digit [of "n mod 10"] by auto
  qed
qed

lemma Ext_suffix: "\<exists>s. p = s @ Ext p"
proof -
  define r where "r = takeWhile (\<lambda>c. c \<noteq> CHR ''.'' \<and> c \<noteq> CHR ''/'') (rev p)"
  define rest where "rest = drop (length r) (rev p)"
  have "r = take (length r) (rev p)" unfolding r_def by (rule takeWhile_eq_take)
  then have "rev p = r @ rest" using append_take_drop_id [of "length r" "rev p"] by (simp only: rest_def)
  then have "rev (rev p) = rev rest @ rev r" by simp
  then have p: "p = rev rest @ rev r" by simp
  show ?thesis
  proof (cases "rest \<noteq> [] \<and> hd rest = CHR ''.''")
    case True
    then have "rest = CHR ''.'' # tl rest" by (metis list.collapse)
    then have "p = rev (tl rest) @ CHR ''.'' # rev r" using p by (metis append.assoc append_Cons append_Nil rev.simps(2))
    then show ?thesis using True unfolding Ext_def Let_def r_def [symmetric] rest_def [symmetric] by auto
  next
    case False
    then have "Ext p = []" unfolding Ext_def Let_def r_def [symmetric] rest_def [symmetric] by auto
    then show ?thesis by simp
  qed
qed

definition restore_word :: "string \<Rightarrow> nat \<Rightarrow> string" where
  "restore_word w i = TrimSuffix w (Ext w) @ '' ('' @ Itoa (int i) @ '')'' @ Ext w"

lemma restore_word_inject: "restore_word w i = restore_word w j \<longleftrightarrow> i = j"
proof -
  have "nat_itoa i = nat_itoa j \<Longrightarrow> i = j" using digits_value_itoa by metis
  then show ?thesis by (auto simp: restore_word_def Itoa_def)
qed

lemma restore_word_real: "real_word w \<Longrightarrow> real_word (restore_word w i)"
proof -
  assume w: "real_word w"
  obtain s where s: "w = s @ Ext w" using Ext_suffix by blast
  then have "TrimSuffix w (Ext w) = s" by (simp add: TrimSuffix_def HasSuffix_iff) (metis append_eq_conv_conj append_take_drop_id length_append add_diff_cancel_right' suffixI)
  then have r: "restore_word w i = s @ '' ('' @ nat_itoa i @ '')'' @ Ext w" by (simp add: restore_word_def Itoa_def)
  have slash: "CHR ''/'' \<notin> set w" using w by (simp add: real_word_def plain_word_def)
  have "\<not> is_digit (CHR ''/'')" by code_simp
  then have "CHR ''/'' \<notin> set (nat_itoa i)" using digits_itoa by blast
  moreover have "CHR ''/'' \<notin> set s" "CHR ''/'' \<notin> set (Ext w)" using slash s by (metis Un_iff set_append)+
  ultimately have "CHR ''/'' \<notin> set (restore_word w i)" unfolding r by simp
  moreover have "restore_word w i \<noteq> ''.''" "restore_word w i \<noteq> ''..''" "restore_word w i \<noteq> []"
    unfolding r by (cases s; simp)+
  ultimately show ?thesis by (simp add: real_word_def plain_word_def)
qed

lemma restore_cand_path:
  assumes "list_all real_word us" "real_word w"
  shows "restore_cand (abs_path (us @ [w])) i = abs_path (us @ [restore_word w i])"
  using assms Join_real [OF assms(1) restore_word_real [OF assms(2)]]
  by (simp add: restore_cand_def Let_def Dir_Base_snoc) (simp add: restore_word_def)

lemma restore_search_returns:
  assumes "node_at fs (restore_cand dest n) = None" "k \<le> n"
  shows "\<exists>i \<ge> k. restore_search dest fs k = Some (restore_cand dest i) \<and> node_at fs (restore_cand dest i) = None"
  using assms(2)
proof (induction "n - k" arbitrary: k)
  case 0
  then show ?case using assms(1) by (subst restore_search.simps) auto
next
  case (Suc d)
  show ?case
  proof (cases "node_at fs (restore_cand dest k) = None")
    case True
    then show ?thesis by (subst restore_search.simps) auto
  next
    case False
    then have "Suc k \<le> n" using assms(1) Suc.prems by (metis le_antisym not_less_eq_eq)
    then obtain i where "i \<ge> Suc k" "restore_search dest fs (Suc k) = Some (restore_cand dest i)"
      "node_at fs (restore_cand dest i) = None" using Suc by (metis Suc_diff_Suc Suc_inject Suc_le_lessD)
    then show ?thesis using False by (subst restore_search.simps) (auto intro!: exI [of _ i])
  qed
qed

text \<open>
  Looking for a free name ends. Only finitely many names are taken and the candidates are all
  different.
\<close>

lemma restore_path_found:
  assumes "list_all real_word us" "real_word w"
  shows "\<exists>i \<ge> 1. uniqueRestorePath (abs_path (us @ [w])) fs = Some (abs_path (us @ [restore_word w i])) \<and>
    fmlookup fs (us @ [restore_word w i]) = None"
proof -
  let ?p = "\<lambda>i. us @ [restore_word w i]"
  have "inj_on ?p {1..}" by (auto simp: inj_on_def restore_word_inject)
  then have "infinite (?p ` {1..})" by (simp add: finite_image_iff infinite_Ici)
  then have "\<not> ?p ` {1..} \<subseteq> fset (fmdom fs)" using finite_subset finite_fset by blast
  then obtain n where n: "n \<ge> 1" "fmlookup fs (?p n) = None" by (auto simp: fmlookup_dom_iff)
  have at: "node_at fs (restore_cand (abs_path (us @ [w])) i) = fmlookup fs (?p i)" for i
    using assms restore_word_real [OF assms(2)] by (simp add: restore_cand_path node_at_def)
  from restore_search_returns [of fs "abs_path (us @ [w])" n 1] n at
  show ?thesis by (auto simp: uniqueRestorePath_def restore_cand_path assms)
qed

subsection \<open>Nothing is overwritten\<close>

lemma safe_resolve_returns:
  assumes "IsAbs cwd" "eval_abs ev"
  shows "\<exists>r. safeResolve ev cwd t = Some r"
proof (cases "NormalizePath cwd t")
  case (Inr full)
  then have "IsAbs full" using NormalizePath_abs [OF assms(1)] by blast
  then show ?thesis using Inr resolve_returns [OF assms(2)] assms(1)
    by (fastforce simp: safeResolve_def split: sum.split option.split)
qed (simp add: safeResolve_def)

text \<open>What exists in a tree, outside a set of paths, is still there, as it was.\<close>

definition kept :: "string list set \<Rightarrow> fs \<Rightarrow> fs \<Rightarrow> bool" where
  "kept S fs fs' \<longleftrightarrow> (\<forall>x. x \<notin> S \<longrightarrow> fmlookup fs x \<noteq> None \<longrightarrow> fmlookup fs' x = fmlookup fs x)"

lemma kept_refl [simp]: "kept S fs fs"
  by (simp add: kept_def)

lemma kept_trans: "kept S fs fs1 \<Longrightarrow> kept S fs1 fs2 \<Longrightarrow> kept S fs fs2"
  by (simp add: kept_def)

lemma kept_mono: "kept S fs fs' \<Longrightarrow> S \<subseteq> S' \<Longrightarrow> kept S' fs fs'"
  unfolding kept_def by blast

lemma kept_mkdir: "mkdir_words pre ws fs = Some fs' \<Longrightarrow> kept {} fs fs'"
proof (induction ws arbitrary: pre fs)
  case Nil
  then show ?case by (auto simp: mkdir1_def kept_def split: option.splits fnode.splits)
next
  case (Cons w ws)
  then obtain fs1 where m: "mkdir1 pre fs = Some fs1" "mkdir_words (pre @ [w]) ws fs1 = Some fs'"
    by (auto split: option.splits)
  then have "kept {} fs fs1" by (auto simp: mkdir1_def kept_def split: option.splits fnode.splits)
  then show ?case using kept_trans Cons.IH [OF m(2)] by blast
qed

lemma kept_put: "put_file ws data fs = Some fs' \<Longrightarrow> kept {ws} fs fs'"
  by (simp add: kept_def put_file_lookup)

lemma kept_rename:
  assumes "fs_ok fs" "rename_words s d fs = Some fs'" "fmlookup fs d \<noteq> Some FDir"
  shows "kept ({d} \<union> {x. prefix s x}) fs fs'"
proof -
  have "fs' = fs \<or> \<not> prefix s d \<and> fs' = move_tree s d fs" using rename_words_Some [OF assms(2)] by auto
  moreover have "fmlookup (move_tree s d fs) x = fmlookup fs x"
    if "\<not> prefix s d" "x \<noteq> d" "\<not> prefix s x" "fmlookup fs x \<noteq> None" for x
  proof -
    have "\<not> strict_prefix d x" using fs_ok_above [OF assms(1)] that(4) assms(3) by blast
    then have "\<not> prefix d x" using that(2) by (auto simp: strict_prefix_def)
    then show ?thesis using that by (simp add: move_tree_lookup)
  qed
  ultimately show ?thesis by (auto simp: kept_def)
qed

lemma kept_saveTrash:
  assumes "fs_ok fs" "saveTrash T dataDir uuid items fs = (ok, fs')"
  shows "kept {root_words (trashFile dataDir uuid), root_words (trashFile dataDir uuid @ ''.tmp'')} fs fs'"
proof -
  define p where "p = trashFile dataDir uuid"
  define S where "S = {root_words p, root_words (p @ ''.tmp'')}"
  have "kept S fs fs'"
  proof (cases "MkdirAll (Dir p) fs")
    case None
    then show ?thesis using assms(2) by (simp add: saveTrash_def p_def [symmetric] Let_def)
  next
    case (Some fs1)
    have "kept {} fs fs1" using kept_mkdir Some by (simp add: MkdirAll_def)
    then have 1: "kept S fs fs1" "fs_ok fs1" using kept_mono MkdirAll_ok [OF assms(1) Some] by blast+
    show ?thesis
    proof (cases "WriteFile (p @ ''.tmp'') (tc_print T items) fs1")
      case None
      then show ?thesis using assms(2) Some 1 by (simp add: saveTrash_def p_def [symmetric] Let_def)
    next
      case (Some fs2)
      note put = Some [unfolded WriteFile_def]
      have 2: "kept S fs1 fs2" "fs_ok fs2"
        using kept_mono [OF kept_put [OF put]] put_file_ok [OF 1(2) _ put] by (auto simp: S_def)
      show ?thesis
      proof (cases "Rename (p @ ''.tmp'') p fs2")
        case None
        then have "fs' = fs2" using assms(2) \<open>MkdirAll _ fs = _\<close> Some
          by (simp add: saveTrash_def p_def [symmetric] Let_def)
        then show ?thesis using 1 2 kept_trans by blast
      next
        case (Some fs3)
        then have "fs' = fs3" using assms(2) \<open>MkdirAll _ fs = _\<close> \<open>WriteFile _ _ _ = _\<close>
          by (simp add: saveTrash_def p_def [symmetric] Let_def)
        have t: "fmlookup fs2 (root_words (p @ ''.tmp'')) = Some (FFile (tc_print T items))"
          using put_file_lookup [OF put] by auto
        have "fmlookup fs2 (root_words p) \<noteq> Some FDir" using rename_words_Some Some unfolding Rename_def by blast
        then have k: "kept ({root_words p} \<union> {x. prefix (root_words (p @ ''.tmp'')) x}) fs2 fs'"
          using kept_rename [OF 2(2)] Some \<open>fs' = fs3\<close> by (simp add: Rename_def)
        have "kept S fs2 fs'"
          unfolding kept_def
        proof (intro allI impI)
          fix x assume x: "x \<notin> S" "fmlookup fs2 x \<noteq> None"
          then have "\<not> strict_prefix (root_words (p @ ''.tmp'')) x" using fs_ok_above [OF 2(2)] t by fastforce
          then have "\<not> prefix (root_words (p @ ''.tmp'')) x" using x(1) by (auto simp: strict_prefix_def S_def)
          then show "fmlookup fs' x = fmlookup fs2 x" using k x by (auto simp: kept_def S_def)
        qed
        then show ?thesis using 1 2 kept_trans by blast
      qed
    qed
  qed
  then show ?thesis by (simp add: S_def p_def)
qed

text \<open>The content of an item of the list is where the trash of the instance is.\<close>

definition in_trash :: "(string \<Rightarrow> eval_error + string) \<Rightarrow> string list \<Rightarrow> trashItem \<Rightarrow> bool" where
  "in_trash ev base it \<longleftrightarrow>
     (\<exists>ws. safeResolve ev (abs_path base) (ti_TrashPath it) = Some (Inr (abs_path ws)) \<and> list_all real_word ws \<and>
        prefix (base @ [trashDirName]) ws)"

lemma findTrashItem_Some: "findTrashItem items uid = Some idx \<Longrightarrow> idx < length items \<and> ti_ID (items ! idx) = uid"
  by (induction items uid arbitrary: idx rule: findTrashItem.induct) (auto split: if_splits)

lemma restore_target:
  assumes "list_all real_word ws" "ws \<noteq> []"
  shows "\<exists>us. (if node_at fs (abs_path ws) = None then Some (abs_path ws) else uniqueRestorePath (abs_path ws) fs) =
    Some (abs_path us) \<and> list_all real_word us \<and> butlast us = butlast ws \<and> fmlookup fs us = None"
proof (cases "node_at fs (abs_path ws) = None")
  case True
  then show ?thesis using assms by (auto simp: node_at_def)
next
  case False
  have w: "ws = butlast ws @ [last ws]" "list_all real_word (butlast ws)" "real_word (last ws)"
    using assms by (simp_all add: list_all_iff in_set_butlastD)
  then show ?thesis
    using restore_path_found [of "butlast ws" "last ws" fs] restore_word_real [OF w(3)] False w(1)
    by (auto simp: list_all_append)
qed

lemma restore_ids_kept:
  assumes "eval_abs ev" "list_all real_word base" "base \<noteq> []" "fs_ok fs" "\<forall>it \<in> set items. in_trash ev base it"
  shows "\<exists>r fs'. restore_ids ev (abs_path base) us items restored fs = Some (r, fs') \<and> fs_ok fs' \<and>
    kept {x. prefix (base @ [trashDirName]) x} fs fs'"
  using assms(4,5)
proof (induction us arbitrary: items restored fs)
  case (Cons uid us)
  show ?case
  proof (cases "findTrashItem items uid")
    case None
    then show ?thesis using Cons.prems by simp
  next
    case (Some idx)
    define it where "it = items ! idx"
    have "it \<in> set items" using findTrashItem_Some [OF Some] by (simp add: it_def)
    then obtain ss where ss: "safeResolve ev (abs_path base) (ti_TrashPath it) = Some (Inr (abs_path ss))"
      "list_all real_word ss" "prefix (base @ [trashDirName]) ss" using Cons.prems(2) unfolding in_trash_def by blast
    obtain d where d: "safeResolve ev (abs_path base) (ti_OriginalPath it) = Some d"
      using safe_resolve_returns [OF IsAbs_abs_path assms(1)] by blast
    show ?thesis
    proof (cases d)
      case (Inl e)
      then show ?thesis using Cons.prems Some ss d by (simp add: it_def [symmetric] Let_def)
    next
      case (Inr p)
      then obtain ws where ws: "p = abs_path ws" "prefix base ws" "list_all real_word ws"
        using resolve_within [OF assms(2)] d by blast
      then have "ws \<noteq> []" using assms(3) by auto
      from restore_target [OF ws(3) this, of fs] obtain us' where u:
        "(if node_at fs (abs_path ws) = None then Some (abs_path ws) else uniqueRestorePath (abs_path ws) fs) = Some (abs_path us')"
        "list_all real_word us'" "fmlookup fs us' = None" by blast
      show ?thesis
      proof (cases "node_at fs (abs_path ss) = None \<or> Rename (abs_path ss) (abs_path us') fs = None")
        case True
        then show ?thesis using Cons.prems Some ss d Inr ws u by (auto simp: it_def [symmetric] Let_def)
      next
        case False
        then obtain fs1 where ren: "Rename (abs_path ss) (abs_path us') fs = Some fs1" by blast
        then have r: "rename_words ss us' fs = Some fs1" using ss u by (simp add: Rename_def)
        have ok: "fs_ok fs1" using rename_words_ok [OF Cons.prems(1) u(2) r] .
        have "kept ({us'} \<union> {x. prefix ss x}) fs fs1" using kept_rename [OF Cons.prems(1) r] u(3) by simp
        then have k: "kept {x. prefix (base @ [trashDirName]) x} fs fs1"
          unfolding kept_def
        proof (intro allI impI)
          fix x assume x: "x \<notin> {x. prefix (base @ [trashDirName]) x}" "fmlookup fs x \<noteq> None"
          then have "\<not> prefix ss x" using ss(3) prefix_order.trans by blast
          moreover have "x \<noteq> us'" using x(2) u(3) by auto
          ultimately show "fmlookup fs1 x = fmlookup fs x"
            using \<open>kept ({us'} \<union> {x. prefix ss x}) fs fs1\<close> x(2) by (simp add: kept_def)
        qed
        have "\<forall>it \<in> set (take idx items @ drop (Suc idx) items). in_trash ev base it"
          using Cons.prems(2) by (auto dest: in_set_takeD in_set_dropD)
        from Cons.IH [OF ok this, of "fmupd uid (slashRel (abs_path base) (abs_path us')) restored"]
        obtain r' fs' where "restore_ids ev (abs_path base) us (take idx items @ drop (Suc idx) items)
            (fmupd uid (slashRel (abs_path base) (abs_path us')) restored) fs1 = Some (r', fs')"
          "fs_ok fs'" "kept {x. prefix (base @ [trashDirName]) x} fs1 fs'" by blast
        moreover have "restore_ids ev (abs_path base) (uid # us) items restored fs =
            restore_ids ev (abs_path base) us (take idx items @ drop (Suc idx) items)
            (fmupd uid (slashRel (abs_path base) (abs_path us')) restored) fs1"
          using False ren Some ss(1) d Inr ws(1) u(1) by (auto simp: it_def [symmetric] Let_def)
        ultimately show ?thesis using kept_trans [OF k] by metis
      qed
    qed
  qed
qed simp

text \<open>
  Restoring returns, and it overwrites nothing. However many names are taken already, a free one
  is found; and whether the request succeeds or fails, every file and directory outside the trash
  is what it was before, the list of the trash apart.
\<close>

theorem restoring_overwrites_nothing:
  assumes "eval_abs (fe_ev E)" "fs_ok (fw_fs w)" "CwdOf (fw_node w) uuid = Inr (abs_path base)" "list_all real_word base"
    "base \<noteq> []" "\<forall>it \<in> set (loadTrash T (nd_DataDir (fw_node w)) uuid (fw_fs w)). in_trash (fe_ev E) base it"
  shows "\<exists>r w'. handleTrashRestore T E (Some (uuid, us)) w = Some (r, w') \<and>
    (\<forall>x n. fmlookup (fw_fs w) x = Some n \<and> \<not> prefix (base @ [trashDirName]) x \<and>
       x \<notin> {root_words (trashFile (nd_DataDir (fw_node w)) uuid), root_words (trashFile (nd_DataDir (fw_node w)) uuid @ ''.tmp'')} \<longrightarrow>
       fmlookup (fw_fs w') x = Some n)"
proof (cases "us = []")
  case True
  then show ?thesis by (simp add: handleTrashRestore_def)
next
  case False
  let ?items = "loadTrash T (nd_DataDir (fw_node w)) uuid (fw_fs w)"
  obtain r fs' where r: "restore_ids (fe_ev E) (abs_path base) us ?items fmempty (fw_fs w) = Some (r, fs')" "fs_ok fs'"
    "kept {x. prefix (base @ [trashDirName]) x} (fw_fs w) fs'"
    using restore_ids_kept [OF assms(1,4,5,2,6)] by blast
  show ?thesis
  proof (cases r)
    case (Inl ce)
    then show ?thesis using False r assms(3)
      by (cases ce) (auto simp: handleTrashRestore_def fileScope_def kept_def)
  next
    case (Inr p)
    obtain items restored where p: "p = (items, restored)" by fastforce
    obtain ok fs2 where s: "saveTrash T (nd_DataDir (fw_node w)) uuid items fs' = (ok, fs2)" by fastforce
    have h: "handleTrashRestore T E (Some (uuid, us)) w =
        Some (if ok then Reply restored else Fail 500 ''cannot save trash list'', w\<lparr>fw_fs := fs2\<rparr>)"
      using False r(1) Inr p assms(3) s
      by (simp add: handleTrashRestore_def fileScope_def save_and_reply_def split: bool.split)
    have "fmlookup fs2 x = Some n"
      if "fmlookup (fw_fs w) x = Some n" "\<not> prefix (base @ [trashDirName]) x"
        "x \<notin> {root_words (trashFile (nd_DataDir (fw_node w)) uuid), root_words (trashFile (nd_DataDir (fw_node w)) uuid @ ''.tmp'')}" for x n
    proof -
      have "fmlookup fs' x = Some n" using r(3) that(1,2) by (simp add: kept_def)
      then show ?thesis using kept_saveTrash [OF r(2) s] that(3) unfolding kept_def by force
    qed
    then show ?thesis unfolding h by auto
  qed
qed

end
