(* ===== verification/TrashSafety.thy ===== *)
theory TrashSafety
  imports Trash StoreExamples
begin

text \<open>
  What is moved to the trash and restored is back as it was, and what a request that fails half-way
  leaves behind (cmd/irix-node/trash.go).
\<close>

subsection \<open>Paths of the trash\<close>

lemma abs_path_eq: "abs_path ws = SEP # join_with ''/'' ws"
  by (simp add: path_of_def)

lemma abs_path_nonempty: "abs_path ws \<noteq> []"
  by (simp add: path_of_def)

lemma abs_path_last_append: "abs_path (us @ [w]) @ s = abs_path (us @ [w @ s])"
  by (cases "us = []") (simp_all add: path_of_def join_snoc)

lemma Join_three:
  assumes "list_all real_word dd" "real_word v" "real_word w"
  shows "Join [abs_path dd, v, w] = abs_path (dd @ [v, w])"
proof -
  have ne: "abs_path dd \<noteq> []" "v \<noteq> []" "w \<noteq> []" using assms by (auto simp: real_word_def plain_word_def abs_path_eq)
  then have "Join [abs_path dd, v, w] = Clean (abs_path dd @ SEP # (v @ SEP # w))" by (simp add: Join_def Let_def)
  moreover have "IsAbs (abs_path dd @ SEP # (v @ SEP # w))" using ne IsAbs_abs_path [of dd] by (auto simp: IsAbs_iff)
  moreover have "path_words v = [v]" "path_words w = [w]"
    using assms by (auto simp: path_words_def real_word_def plain_word_def split_on_word)
  ultimately show ?thesis
    using assms by (simp add: Clean_abs root_words_def path_words_append_sep path_words_path_of real_list_plain)
qed

definition list_words :: "string list \<Rightarrow> string \<Rightarrow> string list" where
  "list_words dd uuid = dd @ [''trash'', uuid @ ''.json'']"

definition tmp_words :: "string list \<Rightarrow> string \<Rightarrow> string list" where
  "tmp_words dd uuid = dd @ [''trash'', uuid @ ''.json.tmp'']"

lemma list_paths:
  assumes "list_all real_word dd" "SEP \<notin> set uuid"
  shows "trashFile (abs_path dd) uuid = abs_path (list_words dd uuid)"
    "abs_path (list_words dd uuid) @ ''.tmp'' = abs_path (tmp_words dd uuid)"
    "list_all real_word (list_words dd uuid)" "list_all real_word (tmp_words dd uuid)"
    "Dir (abs_path (list_words dd uuid)) = abs_path (dd @ [''trash''])" "list_all real_word (dd @ [''trash''])"
proof -
  have w: "real_word (uuid @ ''.json'')" "real_word (uuid @ ''.json.tmp'')" "real_word ''trash''"
    using assms(2) by (auto simp: real_word_def plain_word_def append_eq_Cons_conv)
  then show r: "list_all real_word (list_words dd uuid)" "list_all real_word (tmp_words dd uuid)"
    "list_all real_word (dd @ [''trash''])"
    using assms(1) by (simp_all add: list_words_def tmp_words_def)
  show p: "trashFile (abs_path dd) uuid = abs_path (list_words dd uuid)"
    using Join_three [OF assms(1) w(3,1)] by (simp add: trashFile_def list_words_def)
  show "abs_path (list_words dd uuid) @ ''.tmp'' = abs_path (tmp_words dd uuid)"
    using abs_path_last_append [of "dd @ [''trash'']" "uuid @ ''.json''" "''.tmp''"]
    by (simp add: list_words_def tmp_words_def)
  show "Dir (abs_path (list_words dd uuid)) = abs_path (dd @ [''trash''])"
    using Dir_Base_snoc(1) [OF r(3) w(1)] by (simp add: list_words_def)
qed

subsection \<open>Saving the list\<close>

definition trash_codec_ok :: "trash_codec \<Rightarrow> bool" where
  "trash_codec_ok T \<longleftrightarrow> (\<forall>items. tc_parse T (tc_print T items) = Some items)"

lemma saveTrash_done:
  assumes "fs_ok fs" "list_all real_word dd" "SEP \<notin> set uuid" "saveTrash T (abs_path dd) uuid items fs = (True, fs')"
  shows "fs_ok fs' \<and> fmlookup fs' (list_words dd uuid) = Some (FFile (tc_print T items)) \<and>
    fmlookup fs' (tmp_words dd uuid) = None \<and>
    (\<forall>x. x \<noteq> list_words dd uuid \<longrightarrow> x \<noteq> tmp_words dd uuid \<longrightarrow>
       fmlookup fs' x = (if prefix x (dd @ [''trash'']) then Some FDir else fmlookup fs x))"
proof -
  let ?m = "dd @ [''trash'']" and ?f = "list_words dd uuid" and ?t = "tmp_words dd uuid"
  note paths = list_paths [OF assms(2,3)]
  obtain fs1 where 1: "MkdirAll (abs_path ?m) fs = Some fs1"
    using assms(4) by (auto simp: saveTrash_def paths Let_def split: option.splits)
  obtain fs2 where 2: "WriteFile (abs_path ?t) (tc_print T items) fs1 = Some fs2"
    using assms(4) 1 by (auto simp: saveTrash_def paths Let_def split: option.splits)
  have 3: "Rename (abs_path ?t) (abs_path ?f) fs2 = Some fs'"
    using assms(4) 1 2 by (auto simp: saveTrash_def paths Let_def split: option.splits)
  have put: "put_file ?t (tc_print T items) fs1 = Some fs2" using 2 paths by (simp add: WriteFile_def)
  have ren: "rename_words ?t ?f fs2 = Some fs'" using 3 paths by (simp add: Rename_def)
  have ok2: "fs_ok fs2" using put_file_ok [OF MkdirAll_ok [OF assms(1) 1] paths(4) put] .
  have l1: "fmlookup fs1 x = (if prefix x ?m then Some FDir else fmlookup fs x)" for x
    using MkdirAll_lookup [OF 1] paths(6) by simp
  have l2: "fmlookup fs2 x = (if x = ?t then Some (FFile (tc_print T items)) else fmlookup fs1 x)" for x
    using put_file_lookup [OF put] by simp
  have ne: "?f \<noteq> ?t" "\<not> prefix ?t ?f" "\<not> prefix ?f ?t" by (auto simp: list_words_def tmp_words_def)
  then have mv: "fs' = move_tree ?t ?f fs2" "fmlookup fs2 ?f \<noteq> Some FDir" using rename_words_Some [OF ren] by auto
  have leaf: "fmlookup fs2 (?t @ r) = None" if "r \<noteq> []" for r
    using fs_ok_above [OF ok2, of ?t "?t @ r"] that l2 [of ?t] by (fastforce simp: strict_prefix_def)
  have lf: "fmlookup fs2 (?f @ r) = None" if "r \<noteq> []" for r
    using fs_ok_above [OF ok2, of ?f "?f @ r"] that mv(2) by (fastforce simp: strict_prefix_def)
  have ll: "fmlookup fs' x = (if prefix ?f x \<and> fmlookup fs2 (?t @ drop (length ?f) x) \<noteq> None
      then fmlookup fs2 (?t @ drop (length ?f) x) else if prefix ?t x \<or> x = ?f then None else fmlookup fs2 x)" for x
    unfolding mv(1) by (rule move_tree_lookup [OF ne(2)])
  have "fmlookup fs' x = (if prefix x ?m then Some FDir else fmlookup fs x)" if "x \<noteq> ?f" "x \<noteq> ?t" for x
  proof -
    have f: "fmlookup fs2 (?t @ drop (length ?f) x) = None" if "prefix ?f x"
      using leaf [of "drop (length ?f) x"] that \<open>x \<noteq> ?f\<close> unfolding prefix_def by fastforce
    have "fmlookup fs2 x = None" if "prefix ?t x"
      using leaf that \<open>x \<noteq> ?t\<close> unfolding prefix_def by fastforce
    then have "fmlookup fs' x = fmlookup fs2 x" using f \<open>x \<noteq> ?f\<close> by (auto simp: ll)
    then show ?thesis using that by (simp add: l2 l1)
  qed
  moreover have "fmlookup fs' ?f = Some (FFile (tc_print T items))" by (simp add: ll l2)
  moreover have "fmlookup fs' ?t = None" using ne by (simp add: ll)
  ultimately show ?thesis using rename_words_ok [OF ok2 paths(3) ren] by blast
qed

lemma saveTrash_succeeds:
  assumes "fs_ok fs" "list_all real_word dd" "SEP \<notin> set uuid" "fmlookup fs (dd @ [''trash'']) = Some FDir"
    "fmlookup fs (list_words dd uuid) \<noteq> Some FDir" "fmlookup fs (tmp_words dd uuid) \<noteq> Some FDir"
  shows "\<exists>fs'. saveTrash T (abs_path dd) uuid items fs = (True, fs')"
proof -
  let ?m = "dd @ [''trash'']" and ?f = "list_words dd uuid" and ?t = "tmp_words dd uuid"
  note paths = list_paths [OF assms(2,3)]
  have 1: "MkdirAll (abs_path ?m) fs = Some fs" using MkdirAll_exists [OF assms(1)] assms(4) paths(6) by (simp add: node_at_def)
  have b: "butlast ?t = ?m" "butlast ?f = ?m" "?t \<noteq> []" "?f \<noteq> []" "?f \<noteq> ?t" "\<not> prefix ?t ?f" "?m \<noteq> ?t"
    by (simp_all add: list_words_def tmp_words_def butlast_append)
  define fs2 where "fs2 = fmupd ?t (FFile (tc_print T items)) fs"
  have 2: "WriteFile (abs_path ?t) (tc_print T items) fs = Some fs2"
    using assms(4,6) b paths by (simp add: WriteFile_def put_file_def fs2_def)
  have "Rename (abs_path ?t) (abs_path ?f) fs2 = Some (move_tree ?t ?f fs2)"
    using assms(4,5) b paths by (simp add: Rename_def rename_words_def fs2_def)
  then show ?thesis using 1 2 by (simp add: saveTrash_def paths Let_def)
qed

lemma loadTrash_list:
  assumes "list_all real_word dd" "SEP \<notin> set uuid"
  shows "loadTrash T (abs_path dd) uuid fs =
    (case fmlookup fs (list_words dd uuid) of Some (FFile data) \<Rightarrow> (case tc_parse T data of None \<Rightarrow> [] | Some items \<Rightarrow> items) | _ \<Rightarrow> [])"
  by (simp add: loadTrash_def list_paths [OF assms] ReadFile_def node_at_def split: option.split fnode.split)

subsection \<open>There and back\<close>

lemma rename_leaves:
  assumes "fs_ok fs" "rename_words s d fs = Some fs'" "\<not> prefix d s" "fmlookup fs d = None"
  shows "fmlookup fs' x = (if prefix d x then fmlookup fs (s @ drop (length d) x) else if prefix s x then None else fmlookup fs x)"
proof -
  have "s \<noteq> d" using assms(3) by auto
  then have mv: "\<not> prefix s d" "fs' = move_tree s d fs" using rename_words_Some [OF assms(2)] by auto
  have "fmlookup fs x = None" if "prefix d x"
    using fs_ok_above [OF assms(1), of d x] that assms(4) by (cases "d = x"; cases "fmlookup fs x") (auto simp: strict_prefix_def)
  then show ?thesis unfolding mv(2) by (auto simp: move_tree_lookup [OF mv(1)])
qed

lemma move_back:
  assumes "fs_ok fs" "rename_words s d fs = Some fs2" "\<not> prefix d s" "fmlookup fs d = None"
    "\<And>x. prefix s x \<or> prefix d x \<or> x = butlast s \<Longrightarrow> fmlookup fs3 x = fmlookup fs2 x" "fs_ok fs3" "s \<noteq> []"
  shows "\<exists>fs4. rename_words d s fs3 = Some fs4 \<and>
    (\<forall>x. fmlookup fs4 x = (if prefix s x then fmlookup fs x else if prefix d x then None else fmlookup fs3 x))"
proof -
  note l2 = rename_leaves [OF assms(1-4)]
  have s: "fmlookup fs s \<noteq> None" "\<not> prefix s d"
    using rename_words_Some [OF assms(2)] assms(3) by auto
  have up: "fmlookup fs3 (butlast s) = Some FDir"
  proof -
    have "\<not> prefix s (butlast s)" using assms(7) by (metis append_butlast_last_id prefix_order.leD prefix_snocD strict_prefixI' append1_eq_conv)
    moreover have "\<not> prefix d (butlast s)" using assms(3) by (metis append_butlast_last_id assms(7) prefix_append)
    ultimately have "fmlookup fs2 (butlast s) = fmlookup fs (butlast s)" by (simp add: l2)
    then show ?thesis using assms(5) fs_ok_butlast [OF assms(1,7)] s(1) by simp
  qed
  have "fmlookup fs3 s = None" using assms(3,5) by (simp add: l2)
  moreover have "fmlookup fs3 d = fmlookup fs s" using assms(5) by (simp add: l2)
  ultimately have r: "rename_words d s fs3 = Some (move_tree d s fs3)"
    using s(1) assms(3,7) up by (auto simp: rename_words_def)
  have below: "fmlookup fs3 (d @ drop (length s) x) = fmlookup fs x" if "prefix s x" for x
    using assms(5) [of "d @ drop (length s) x"] that by (auto simp: l2 prefix_def)
  have "fmlookup (move_tree d s fs3) x = (if prefix s x then fmlookup fs x else if prefix d x then None else fmlookup fs3 x)" for x
    using rename_leaves [OF assms(6) r s(2) \<open>fmlookup fs3 s = None\<close>] below by simp
  then show ?thesis using r by blast
qed

lemma TrimSpace_stable:
  assumes "s = CHR ''/'' # t" "\<not> is_space (last s)"
  shows "TrimSpace s = s"
proof -
  have "\<not> is_space (CHR ''/'')" by code_simp
  then have d: "dropWhile is_space s = s" using assms(1) by simp
  have "rev s \<noteq> []" using assms(1) by simp
  moreover have "\<not> is_space (hd (rev s))" using assms(2) by (simp add: hd_rev)
  ultimately have "rev s \<noteq> []" "\<not> is_space (hd (rev s))" by blast+
  then have "dropWhile is_space (rev s) = rev s" by (cases "rev s") auto
  then show ?thesis using d by (simp add: TrimSpace_def)
qed

lemma resolve_stored:
  assumes "no_links ev" "list_all real_word base" "list_all real_word rs" "rs \<noteq> []" "\<not> prefix base rs" "\<not> is_space (last (last rs))"
  shows "safeResolve ev (abs_path base) (abs_path rs) = Some (Inr (abs_path (base @ rs)))"
proof -
  obtain us w where us: "rs = us @ [w]" using assms(4) by (cases rs rule: rev_cases) auto
  have w: "w \<noteq> []" using assms(3) us by (simp add: real_word_def plain_word_def)
  obtain q where q: "abs_path rs = q @ SEP # w" using abs_path_snoc [of us w] us by blast
  have "last (abs_path rs) = last w" using w by (simp add: q)
  then have "TrimSpace (abs_path rs) = abs_path rs"
    using TrimSpace_stable [OF abs_path_eq] assms(6) us by simp
  moreover have "path_words (abs_path rs) = rs" using assms(3) by (simp add: path_words_path_of real_list_plain)
  then have "Join [abs_path base, abs_path rs] = abs_path (base @ rs)"
    using assms(2,3) by (subst Join_two) (simp_all add: path_words_path_of real_list_plain, simp add: path_of_def)
  ultimately have "NormalizePath (abs_path base) (abs_path rs) = Inr (abs_path (base @ rs))"
    using assms(2-5) abs_path_nonempty [of rs] by (simp add: NormalizePath_def Let_def pathWithin_words isDriveAbs_def goos_def)
  then show ?thesis using safe_resolve_without_links [OF assms(1,2)] by simp
qed

lemma slashRel_below:
  assumes "list_all real_word base" "list_all real_word rs" "rs \<noteq> []"
  shows "slashRel (abs_path base) (abs_path (base @ rs)) = abs_path rs"
  using Rel_words [OF assms(1,2)] assms(3) by (simp add: slashRel_def path_of_def)

text \<open>
  The requests whose round trip is claimed: the file system has no links, the data directory and the
  working directory lie apart, and the target is an existing file or directory \<open>rs\<close> below the
  working directory, whose name does not end in white space and does not itself begin with the
  components of the working directory; the identifier drawn is a fresh one.
\<close>

record round_trip =
  rt_base :: "string list"
  rt_dd :: "string list"
  rt_rs :: "string list"
  rt_uuid :: string
  rt_id :: string

definition trash_words :: "round_trip \<Rightarrow> string list" where
  "trash_words p = [trashDirName, trash_name (rt_id p) (last (rt_rs p))]"

definition round_trip_ok :: "trash_codec \<Rightarrow> file_env \<Rightarrow> round_trip \<Rightarrow> file_world \<Rightarrow> bool" where
  "round_trip_ok T E p w \<longleftrightarrow>
     trash_codec_ok T \<and> no_links (fe_ev E) \<and> fs_ok (fw_fs w) \<and>
     CwdOf (fw_node w) (rt_uuid p) = Inr (abs_path (rt_base p)) \<and> nd_DataDir (fw_node w) = abs_path (rt_dd p) \<and>
     list_all real_word (rt_base p) \<and> list_all real_word (rt_dd p) \<and> list_all real_word (rt_rs p) \<and>
     SEP \<notin> set (rt_uuid p) \<and> SEP \<notin> set (rt_id p) \<and>
     \<not> prefix (rt_base p) (rt_dd p) \<and> \<not> prefix (rt_dd p) (rt_base p) \<and> fmlookup (fw_fs w) (rt_dd p) = Some FDir \<and>
     rt_rs p \<noteq> [] \<and> \<not> prefix (rt_base p) (rt_rs p) \<and> \<not> prefix (rt_base p) (trash_words p) \<and>
     \<not> is_space (last (last (rt_rs p))) \<and> fmlookup (fw_fs w) (rt_base p @ rt_rs p) \<noteq> None \<and>
     fmlookup (fw_fs w) (rt_base p @ trash_words p) = None \<and>
     rt_id p \<notin> set (map ti_ID (loadTrash T (nd_DataDir (fw_node w)) (rt_uuid p) (fw_fs w)))"

lemma find_appended: "uid \<notin> set (map ti_ID items) \<Longrightarrow> ti_ID i = uid \<Longrightarrow> findTrashItem (items @ [i]) uid = Some (length items)"
  by (induction items) auto

lemma trash_words_real: "round_trip_ok T E p w \<Longrightarrow> list_all real_word (trash_words p)"
proof -
  assume "round_trip_ok T E p w"
  then have "real_word (last (rt_rs p))" "SEP \<notin> set (rt_id p)" by (auto simp: round_trip_ok_def list_all_iff)
  moreover have "real_word trashDirName" by code_simp
  ultimately show ?thesis
    by (auto simp: trash_words_def trash_name_def real_word_def plain_word_def append_eq_Cons_conv)
qed

lemma trash_forward:
  assumes ok: "round_trip_ok T E p w" and "ids 0 = rt_id p"
    and target: "safeResolve (fe_ev E) (abs_path (rt_base p)) t = Some (Inr (abs_path (rt_base p @ rt_rs p)))"
    and h: "handleFileTrash T E ids (Some (rt_uuid p, [t])) w = Some (Reply (), w1)"
  shows "\<exists>fs1 fs2 it. fs_ok fs1 \<and>
    (\<forall>x. fmlookup fs1 x = (if prefix x (rt_base p @ [trashDirName]) then Some FDir else fmlookup (fw_fs w) x)) \<and>
    rename_words (rt_base p @ rt_rs p) (rt_base p @ trash_words p) fs1 = Some fs2 \<and>
    saveTrash T (abs_path (rt_dd p)) (rt_uuid p) (loadTrash T (abs_path (rt_dd p)) (rt_uuid p) (fw_fs w) @ [it]) fs2 = (True, fw_fs w1) \<and>
    ti_ID it = rt_id p \<and> ti_OriginalPath it = abs_path (rt_rs p) \<and> ti_TrashPath it = abs_path (trash_words p) \<and>
    fw_node w1 = fw_node w \<and>
    MkdirAll (Join [abs_path (rt_base p), trashDirName]) (fw_fs w) = Some fs1 \<and>
    trash_targets (fe_ev E) (fe_now E) ids (abs_path (rt_base p)) 0 [t] (loadTrash T (abs_path (rt_dd p)) (rt_uuid p) (fw_fs w)) fs1 =
      Some (Inr (loadTrash T (abs_path (rt_dd p)) (rt_uuid p) (fw_fs w) @ [it]), fs2)"
proof -
  let ?base = "rt_base p" and ?rs = "rt_rs p" and ?dd = "rt_dd p"
  have g: "list_all real_word ?base" "list_all real_word ?rs" "?rs \<noteq> []" "fs_ok (fw_fs w)"
    "CwdOf (fw_node w) (rt_uuid p) = Inr (abs_path ?base)" "nd_DataDir (fw_node w) = abs_path ?dd"
    using ok by (simp_all add: round_trip_ok_def)
  have T: "real_word trashDirName" by code_simp
  have td: "Join [abs_path ?base, trashDirName] = abs_path (?base @ [trashDirName])" using Join_real [OF g(1) T] .
  have tw: "real_word (trash_name (rt_id p) (last ?rs))" using trash_words_real [OF ok] by (simp add: trash_words_def)
  have bs: "Base (abs_path (?base @ ?rs)) = last ?rs"
  proof -
    have "list_all real_word (?base @ butlast ?rs)" "real_word (last ?rs)" using g(1-3) by (auto simp: list_all_iff dest: in_set_butlastD)
    then show ?thesis using Dir_Base_snoc(2) g(3) by fastforce
  qed
  have dst: "Join [abs_path (?base @ [trashDirName]), trash_name (rt_id p) (last ?rs)] = abs_path (?base @ trash_words p)"
    using Join_real [of "?base @ [trashDirName]"] g(1) T tw by (simp add: trash_words_def)
  have rel: "slashRel (abs_path ?base) (abs_path (?base @ ?rs)) = abs_path ?rs"
    "slashRel (abs_path ?base) (abs_path (?base @ trash_words p)) = abs_path (trash_words p)"
    using slashRel_below g(1-3) trash_words_real [OF ok] by (auto simp: trash_words_def)
  obtain fs1 where 1: "MkdirAll (abs_path (?base @ [trashDirName])) (fw_fs w) = Some fs1"
    using h g(5) td by (auto simp: handleFileTrash_def fileScope_def split: option.splits)
  define n where "n = node_at fs1 (abs_path (?base @ ?rs))"
  have nw: "\<not> pathWithin (abs_path (?base @ [trashDirName])) (abs_path (?base @ ?rs))" "n \<noteq> None"
    using h g(5) td 1 target by (auto simp: handleFileTrash_def fileScope_def n_def Let_def split: if_splits option.splits)
  then obtain nd where nd: "n = Some nd" by blast
  obtain fs2 where 2: "Rename (abs_path (?base @ ?rs)) (abs_path (?base @ trash_words p)) fs1 = Some fs2"
    using h g(5) td 1 target nw nd assms(2) bs dst
    by (auto simp: handleFileTrash_def fileScope_def n_def Let_def split: option.splits)
  define size where "size = (if nd = FDir then DirSize (abs_path (?base @ ?rs)) fs1 else node_size nd)"
  define it where "it = \<lparr>ti_ID = rt_id p, ti_Name = last ?rs, ti_OriginalPath = abs_path ?rs,
    ti_TrashPath = abs_path (trash_words p), ti_Size = size, ti_DeletedAt = fe_now E\<rparr>"
  define items where "items = loadTrash T (abs_path ?dd) (rt_uuid p) (fw_fs w)"
  have loop: "trash_targets (fe_ev E) (fe_now E) ids (abs_path ?base) 0 [t] items fs1 = Some (Inr (items @ [it]), fs2)"
    using td target nw nd assms(2) bs dst 2 rel by (simp add: n_def Let_def it_def size_def)
  then have save: "save_and_reply T (rt_uuid p) (items @ [it]) () (w\<lparr>fw_fs := fs2\<rparr>) = (Reply (), w1)"
    using h g(5,6) td 1 by (simp add: handleFileTrash_def fileScope_def Let_def items_def)
  then have "saveTrash T (abs_path ?dd) (rt_uuid p) (items @ [it]) fs2 = (True, fw_fs w1) \<and> fw_node w1 = fw_node w"
    using g(6) by (auto simp: save_and_reply_def split: prod.splits bool.splits)
  moreover have "fmlookup fs1 x = (if prefix x (?base @ [trashDirName]) then Some FDir else fmlookup (fw_fs w) x)" for x
    using MkdirAll_lookup [OF 1] g(1) T by simp
  moreover have "rename_words (?base @ ?rs) (?base @ trash_words p) fs1 = Some fs2"
    using 2 g(1,2) trash_words_real [OF ok] by (simp add: Rename_def)
  ultimately show ?thesis using MkdirAll_ok [OF g(4) 1] loop 1 td by (intro exI [of _ fs1] exI [of _ fs2] exI [of _ it]) (simp add: items_def, simp add: it_def)
qed

text \<open>
  C23. What goes to the trash comes back. If a request to trash one target succeeds, then restoring
  the item answers with the target's old path, the list of the trash is what it was, and so is every
  file and directory outside the trash and the directory of the lists.
\<close>

theorem trashed_is_restored:
  assumes ok: "round_trip_ok T E p w" and "ids 0 = rt_id p"
    and target: "safeResolve (fe_ev E) (abs_path (rt_base p)) t = Some (Inr (abs_path (rt_base p @ rt_rs p)))"
    and h: "handleFileTrash T E ids (Some (rt_uuid p, [t])) w = Some (Reply (), w1)"
  shows "\<exists>w2. handleTrashRestore T E (Some (rt_uuid p, [rt_id p])) w1 =
      Some (Reply (fmupd (rt_id p) (abs_path (rt_rs p)) fmempty), w2) \<and>
    loadTrash T (nd_DataDir (fw_node w)) (rt_uuid p) (fw_fs w2) = loadTrash T (nd_DataDir (fw_node w)) (rt_uuid p) (fw_fs w) \<and>
    (\<forall>x. \<not> prefix (rt_base p @ [trashDirName]) x \<and> \<not> prefix (rt_dd p @ [''trash'']) x \<longrightarrow>
       fmlookup (fw_fs w2) x = fmlookup (fw_fs w) x)"
proof -
  define base rs dd uuid uid where "base = rt_base p" and "rs = rt_rs p" and "dd = rt_dd p" and "uuid = rt_uuid p" and "uid = rt_id p"
  note names = base_def [symmetric] rs_def [symmetric] dd_def [symmetric] uuid_def [symmetric] uid_def [symmetric]
  let ?d = "base @ trash_words p" and ?s = "base @ rs" and ?T = "base @ [trashDirName]"
  note tr = trash_words_real [OF ok]
  have g: "trash_codec_ok T" "no_links (fe_ev E)" "fs_ok (fw_fs w)" "CwdOf (fw_node w) uuid = Inr (abs_path base)"
    "nd_DataDir (fw_node w) = abs_path dd" "list_all real_word base" "list_all real_word dd" "list_all real_word rs"
    "SEP \<notin> set uuid" "\<not> prefix base dd" "\<not> prefix dd base" "fmlookup (fw_fs w) dd = Some FDir" "rs \<noteq> []"
    "\<not> prefix base rs" "\<not> prefix base (trash_words p)" "\<not> is_space (last (last rs))" "fmlookup (fw_fs w) ?s \<noteq> None"
    "fmlookup (fw_fs w) ?d = None" "uid \<notin> set (map ti_ID (loadTrash T (abs_path dd) uuid (fw_fs w)))"
    using ok unfolding round_trip_ok_def names by auto
  from trash_forward [OF ok assms(2) target h, unfolded names] obtain fs1 fs2 it where
    1: "fs_ok fs1" "\<And>x. fmlookup fs1 x = (if prefix x ?T then Some FDir else fmlookup (fw_fs w) x)"
    and ren: "rename_words ?s ?d fs1 = Some fs2"
    and save: "saveTrash T (abs_path dd) uuid (loadTrash T (abs_path dd) uuid (fw_fs w) @ [it]) fs2 = (True, fw_fs w1)"
    and it: "ti_ID it = uid" "ti_OriginalPath it = abs_path rs" "ti_TrashPath it = abs_path (trash_words p)"
    and nd: "fw_node w1 = fw_node w"
    by blast
  define items where "items = loadTrash T (abs_path dd) uuid (fw_fs w)"
  have tw: "\<exists>q. trash_words p = [trashDirName, q]" by (simp add: trash_words_def)
  have fresh: "fmlookup fs1 ?d = None" using g(18) tw by (auto simp: 1(2))
  have nds: "\<not> prefix ?d ?s"
  proof
    assume "prefix ?d ?s"
    then have "fmlookup fs1 ?s = None"
      using fresh fs_ok_above [OF 1(1), of ?d ?s] by (cases "?d = ?s"; cases "fmlookup fs1 ?s") (auto simp: strict_prefix_def)
    then show False using rename_words_Some [OF ren] by blast
  qed
  have ok2: "fs_ok fs2" using rename_words_ok [OF 1(1) _ ren] g(6) tr by simp
  note s = saveTrash_done [OF ok2 g(7,9) save]
  define fs3 where "fs3 = fw_fs w1"
  have apart: "x \<noteq> list_words dd uuid" "x \<noteq> tmp_words dd uuid" "\<not> prefix x (dd @ [''trash''])" if "prefix base x" for x
  proof -
    have "\<not> prefix base (dd @ ys)" for ys using g(10,11) prefix_same_cases [of base "dd @ ys" dd] by auto
    then show "x \<noteq> list_words dd uuid" "x \<noteq> tmp_words dd uuid" "\<not> prefix x (dd @ [''trash''])"
      using that prefix_order.trans unfolding list_words_def tmp_words_def by blast+
  qed
  have l3: "fmlookup fs3 x = fmlookup fs2 x" if "prefix base x" for x
    using s apart [OF that] by (simp add: fs3_def)
  have bs: "butlast ?s = base @ butlast rs" "?s \<noteq> []" using g(13) by (simp_all add: butlast_append)
  have "\<And>x. prefix ?s x \<or> prefix ?d x \<or> x = butlast ?s \<Longrightarrow> fmlookup fs3 x = fmlookup fs2 x"
    using l3 bs(1) by (auto dest: append_prefixD)
  then obtain fs4 where
    rb: "rename_words ?d ?s fs3 = Some fs4"
    and l4: "\<And>x. fmlookup fs4 x = (if prefix ?s x then fmlookup fs1 x else if prefix ?d x then None else fmlookup fs3 x)"
    using move_back [OF 1(1) ren nds fresh _ _ bs(2), of fs3] s by (auto simp: fs3_def)
  note l2 = rename_leaves [OF 1(1) ren nds fresh]
  have at: "node_at fs3 (abs_path ?d) \<noteq> None" "node_at fs3 (abs_path ?s) = None"
    using rename_words_Some [OF ren] nds g(6,8) tr by (auto simp: node_at_def l3 l2)
  have loaded: "loadTrash T (abs_path dd) uuid fs3 = items @ [it]"
    using s g(1) by (simp add: loadTrash_list [OF g(7,9)] fs3_def trash_codec_ok_def items_def)
  have tl: "trash_words p \<noteq> []" "\<not> is_space (last (last (trash_words p)))"
    using g(8,13,16) by (auto simp: trash_words_def trash_name_def names list_all_iff real_word_def plain_word_def)
  have res: "safeResolve (fe_ev E) (abs_path base) (ti_TrashPath it) = Some (Inr (abs_path ?d))"
    "safeResolve (fe_ev E) (abs_path base) (ti_OriginalPath it) = Some (Inr (abs_path ?s))"
    using resolve_stored [OF g(2,6) tr tl(1) g(15) tl(2)] resolve_stored [OF g(2,6,8,13,14,16)] it by simp_all
  have rn: "Rename (abs_path ?d) (abs_path ?s) fs3 = Some fs4" using rb g(6,8) tr by (simp add: Rename_def)
  have rel: "slashRel (abs_path base) (abs_path ?s) = abs_path rs" using slashRel_below [OF g(6,8,13)] .
  have "findTrashItem (items @ [it]) uid = Some (length items)" using find_appended g(19) it(1) by (simp add: items_def)
  then have r: "restore_ids (fe_ev E) (abs_path base) [uid] (items @ [it]) fmempty fs3 =
      Some (Inr (items, fmupd uid (abs_path rs) fmempty), fs4)"
    using res at rn rel by (auto simp: Let_def)
  have far: "\<not> prefix ?s (dd @ ys)" "\<not> prefix ?d (dd @ ys)" for ys
    using g(10,11) prefix_same_cases [of base "dd @ ys" dd] by (auto dest: append_prefixD)
  have ok4: "fs_ok fs4" using rename_words_ok [OF _ _ rb] s g(6,8) by (simp add: fs3_def)
  have m: "fmlookup fs3 (dd @ [''trash'']) = Some FDir" using s by (simp add: fs3_def list_words_def tmp_words_def)
  have l4': "fmlookup fs4 (dd @ ys) = fmlookup fs3 (dd @ ys)" for ys using far by (simp add: l4)
  have "\<exists>fs5. saveTrash T (abs_path dd) uuid items fs4 = (True, fs5)"
  proof (rule saveTrash_succeeds [OF ok4 g(7,9)])
    show "fmlookup fs4 (dd @ [''trash'']) = Some FDir" using l4' m by simp
    show "fmlookup fs4 (list_words dd uuid) \<noteq> Some FDir" "fmlookup fs4 (tmp_words dd uuid) \<noteq> Some FDir"
      using s unfolding list_words_def tmp_words_def l4' fs3_def by simp_all
  qed
  then obtain fs5 where save5: "saveTrash T (abs_path dd) uuid items fs4 = (True, fs5)" by blast
  note s5 = saveTrash_done [OF ok4 g(7,9) save5]
  define w2 where "w2 = w1\<lparr>fw_fs := fs5\<rparr>"
  have "handleTrashRestore T E (Some (uuid, [uid])) w1 = Some (Reply (fmupd uid (abs_path rs) fmempty), w2)"
    using r loaded save5 g(4,5) nd
    by (simp add: handleTrashRestore_def fileScope_def save_and_reply_def fs3_def w2_def)
  moreover have "loadTrash T (abs_path dd) uuid fs5 = items"
    using s5 g(1) by (simp add: loadTrash_list [OF g(7,9)] trash_codec_ok_def)
  moreover have "fmlookup fs5 x = fmlookup (fw_fs w) x" if "\<not> prefix ?T x" "\<not> prefix (dd @ [''trash'']) x" for x
  proof -
    have up: "fmlookup (fw_fs w) x = Some FDir" if "prefix x (dd @ [''trash''])"
    proof -
      have "x \<noteq> dd @ [''trash'']" using \<open>\<not> prefix (dd @ [''trash'']) x\<close> by auto
      then have "prefix x dd" using that by simp
      then show ?thesis using g(12) fs_ok_above [OF g(3), of x dd] by (cases "x = dd") (auto simp: strict_prefix_def)
    qed
    have nf: "x \<noteq> list_words dd uuid" "x \<noteq> tmp_words dd uuid"
      using that(2) by (auto simp: list_words_def tmp_words_def)
    have upT: "fmlookup (fw_fs w) x = Some FDir" if "prefix x ?T"
    proof -
      have "x \<noteq> ?T" using \<open>\<not> prefix ?T x\<close> by auto
      then have "prefix x base" using that by simp
      then have "strict_prefix x ?s" using g(13) by (auto simp: strict_prefix_def prefix_def)
      then show ?thesis using fs_ok_above [OF g(3)] g(17) by blast
    qed
    then have l1: "fmlookup fs1 x = fmlookup (fw_fs w) x" using 1(2) by simp
    have nd: "\<not> prefix ?d x" using that(1) by (auto simp: trash_words_def prefix_def)
    have "fmlookup fs4 x = fmlookup (fw_fs w) x"
    proof (cases "prefix x (dd @ [''trash''])")
      case True
      then have "\<not> prefix ?s x" using far(1) [of "[''trash'']"] prefix_order.trans by blast
      then show ?thesis using s nf True nd up by (simp add: l4 fs3_def)
    next
      case False
      then show ?thesis using s nf nd l1 by (simp add: l4 l2 fs3_def)
    qed
    then show ?thesis using s5 nf up by auto
  qed
  ultimately show ?thesis unfolding names by (auto simp: w2_def items_def g(5))
qed

lemma trash_targets_append:
  "trash_targets ev now ids cwd k (ts @ us) items fs =
     (case trash_targets ev now ids cwd k ts items fs of
        None \<Rightarrow> None
      | Some (Inl ce, fs) \<Rightarrow> Some (Inl ce, fs)
      | Some (Inr items, fs) \<Rightarrow> trash_targets ev now ids cwd (k + length ts) us items fs)"
  by (induction ts arbitrary: k items fs) (auto simp: Let_def split: option.split sum.split)

text \<open>
  A request that fails at a later target orphans the earlier ones. The targets before it have been
  moved into the trash directory, but the list is written only at the end: they are gone from
  their place, are in no list, and cannot be restored by their identifier.
\<close>

theorem failed_trash_orphans:
  assumes ok: "round_trip_ok T E p w" and "ids 0 = rt_id p"
    and target: "safeResolve (fe_ev E) (abs_path (rt_base p)) t = Some (Inr (abs_path (rt_base p @ rt_rs p)))"
    and h: "handleFileTrash T E ids (Some (rt_uuid p, [t])) w = Some (Reply (), w1)"
    and bad: "safeResolve (fe_ev E) (abs_path (rt_base p)) t2 = Some (Inl e)"
  shows "\<exists>w2. handleFileTrash T E ids (Some (rt_uuid p, [t, t2])) w = Some (Fail 400 e, w2) \<and>
    fmlookup (fw_fs w2) (rt_base p @ rt_rs p) = None \<and>
    loadTrash T (nd_DataDir (fw_node w)) (rt_uuid p) (fw_fs w2) = loadTrash T (nd_DataDir (fw_node w)) (rt_uuid p) (fw_fs w) \<and>
    (\<exists>m. handleTrashRestore T E (Some (rt_uuid p, [rt_id p])) w2 = Some (Fail 400 m, w2))"
proof -
  let ?base = "rt_base p" and ?rs = "rt_rs p" and ?dd = "rt_dd p" and ?d = "rt_base p @ trash_words p"
  define items where "items = loadTrash T (abs_path ?dd) (rt_uuid p) (fw_fs w)"
  from trash_forward [OF ok assms(2) target h] obtain fs1 fs2 it where
    1: "fs_ok fs1" "\<And>x. fmlookup fs1 x = (if prefix x (?base @ [trashDirName]) then Some FDir else fmlookup (fw_fs w) x)"
    and ren: "rename_words (?base @ ?rs) ?d fs1 = Some fs2"
    and mk: "MkdirAll (Join [abs_path ?base, trashDirName]) (fw_fs w) = Some fs1"
    and loop: "trash_targets (fe_ev E) (fe_now E) ids (abs_path ?base) 0 [t] items fs1 = Some (Inr (items @ [it]), fs2)"
    unfolding items_def by blast
  have g: "CwdOf (fw_node w) (rt_uuid p) = Inr (abs_path ?base)" "nd_DataDir (fw_node w) = abs_path ?dd"
    "list_all real_word ?dd" "SEP \<notin> set (rt_uuid p)" "\<not> prefix ?base ?dd" "\<not> prefix ?dd ?base"
    "fmlookup (fw_fs w) ?d = None" "rt_id p \<notin> set (map ti_ID items)"
    using ok unfolding round_trip_ok_def items_def by auto
  have fresh: "fmlookup fs1 ?d = None" using g(7) by (auto simp: 1(2) trash_words_def)
  have nds: "\<not> prefix ?d (?base @ ?rs)"
    using fs_ok_above [OF 1(1), of ?d "?base @ ?rs"] fresh rename_words_Some [OF ren] prefix_order.le_less by (metis option.distinct(1))
  note l2 = rename_leaves [OF 1(1) ren nds fresh]
  define w2 where "w2 = w\<lparr>fw_fs := fs2\<rparr>"
  have "trash_targets (fe_ev E) (fe_now E) ids (abs_path ?base) 0 ([t] @ [t2]) items fs1 = Some (Inl (400, e), fs2)"
    using loop bad by (simp only: trash_targets_append) simp
  then have "handleFileTrash T E ids (Some (rt_uuid p, [t, t2])) w = Some (Fail 400 e, w2)"
    using g(1,2) mk by (simp add: handleFileTrash_def fileScope_def Let_def items_def [symmetric] w2_def del: trash_targets.simps)
  moreover have "fmlookup fs2 (?base @ ?rs) = None" using nds by (simp add: l2)
  moreover have same: "loadTrash T (abs_path ?dd) (rt_uuid p) fs2 = items"
  proof -
    have far: "\<not> prefix (?base @ ys) (?dd @ zs)" for ys zs
      using g(5,6) prefix_same_cases [of ?base "?dd @ zs" ?dd] by (auto dest: append_prefixD)
    have "\<not> prefix (list_words ?dd (rt_uuid p)) (?base @ [trashDirName])"
      using g(5,6) prefix_same_cases [of ?dd "?base @ [trashDirName]" ?base] append_prefixD prefixI [OF refl]
      unfolding list_words_def by metis
    then have "fmlookup fs2 (list_words ?dd (rt_uuid p)) = fmlookup (fw_fs w) (list_words ?dd (rt_uuid p))"
      using far by (auto simp: l2 1(2) list_words_def)
    then show ?thesis by (simp add: items_def loadTrash_list [OF g(3,4)])
  qed
  moreover have "findTrashItem items (rt_id p) = None" using g(8) by (induction items) auto
  then have "\<exists>m. handleTrashRestore T E (Some (rt_uuid p, [rt_id p])) w2 = Some (Fail 400 m, w2)"
    using g(1,2) same by (simp add: handleTrashRestore_def fileScope_def w2_def)
  ultimately show ?thesis using g(2) items_def by (auto simp: w2_def)
qed

subsection \<open>An example\<close>

definition put_item :: "trashItem \<Rightarrow> string" where
  "put_item i = put_string (ti_ID i) @ put_string (ti_Name i) @ put_string (ti_OriginalPath i) @ put_string (ti_TrashPath i) @
     put_int (ti_Size i) @ put_int (ti_DeletedAt i)"

definition get_item :: "string \<Rightarrow> (trashItem \<times> string) option" where
  "get_item t =
     (case get_string t of None \<Rightarrow> None | Some (i, t) \<Rightarrow>
     (case get_string t of None \<Rightarrow> None | Some (n, t) \<Rightarrow>
     (case get_string t of None \<Rightarrow> None | Some (p, t) \<Rightarrow>
     (case get_string t of None \<Rightarrow> None | Some (q, t) \<Rightarrow>
     (case get_int t of None \<Rightarrow> None | Some (sz, t) \<Rightarrow>
     (case get_int t of None \<Rightarrow> None | Some (at, t) \<Rightarrow>
        Some (\<lparr>ti_ID = i, ti_Name = n, ti_OriginalPath = p, ti_TrashPath = q, ti_Size = sz, ti_DeletedAt = at\<rparr>, t)))))))"

lemma get_put_item [simp]: "get_item (put_item i @ rest) = Some (i, rest)"
  by (simp add: put_item_def get_item_def)

fun get_items :: "nat \<Rightarrow> string \<Rightarrow> trashItem list option" where
  "get_items n [] = Some []"
| "get_items 0 t = None"
| "get_items (Suc n) t = (case get_item t of None \<Rightarrow> None | Some (i, t) \<Rightarrow> map_option ((#) i) (get_items n t))"

definition plain_trash :: trash_codec where
  "plain_trash = \<lparr>tc_print = (\<lambda>items. concat (map put_item items)), tc_parse = (\<lambda>t. get_items (length t) t)\<rparr>"

lemma put_item_nonempty: "put_item i \<noteq> []"
  by (simp add: put_item_def put_string_def)

lemma get_put_items: "length items \<le> n \<Longrightarrow> get_items n (concat (map put_item items)) = Some items"
proof (induction items arbitrary: n)
  case (Cons i items)
  then obtain m where m: "n = Suc m" "length items \<le> m" by (cases n) auto
  obtain c t where c: "concat (map put_item (i # items)) = c # t"
    using put_item_nonempty [of i] by (cases "put_item i") auto
  have "get_item (c # t) = Some (i, concat (map put_item items))"
    using get_put_item [of i "concat (map put_item items)"] unfolding c [symmetric] by simp
  then show ?case using Cons.IH [OF m(2)] by (simp only: c m(1) get_items.simps) simp
qed simp

lemma plain_trash_ok: "trash_codec_ok plain_trash"
proof -
  have "length items \<le> length (concat (map put_item items))" for items :: "trashItem list"
  proof (induction items)
    case (Cons i items)
    have "0 < length (put_item i)" using put_item_nonempty by simp
    then have "Suc (length items) \<le> length (put_item i) + length (concat (map put_item items))" using Cons.IH by linarith
    then show ?case by simp
  qed simp
  then show ?thesis by (simp add: trash_codec_ok_def plain_trash_def get_put_items)
qed

definition t_fs :: fs where
  "t_fs = fmupd [''var'', ''irix'', ''trash''] FDir (fmupd [''var'', ''irix''] FDir (fmupd [''var''] FDir ex_fs))"

definition t_world :: file_world where
  "t_world = ex_world\<lparr>fw_fs := t_fs\<rparr>"

definition t_trip :: round_trip where
  "t_trip = \<lparr>rt_base = [''games'', ''mc''], rt_dd = [''var'', ''irix''], rt_rs = [''a.txt''], rt_uuid = ''a'', rt_id = ''00c0ffee''\<rparr>"

lemma t_fs_ok: "fs_ok t_fs"
proof -
  have "root_words ''/var/irix/trash'' = [''var'', ''irix'', ''trash'']" by code_simp
  then have "MkdirAll ''/var/irix/trash'' ex_fs = Some t_fs" by (simp add: MkdirAll_def mkdir1_def ex_lookup t_fs_def)
  then show ?thesis by (rule MkdirAll_ok [OF ex_fs_ok])
qed

lemma t_world_cwd: "CwdOf (fw_node t_world) ''a'' = Inr ''/games/mc''" "nd_DataDir (fw_node t_world) = ''/var/irix''"
  using ex_world_simps(1) by (simp_all add: t_world_def ex_world_def sample_node_def base_node_def)

lemma t_trip_ok: "round_trip_ok plain_trash ex_env t_trip t_world"
proof -
  have "''/games/mc'' = abs_path [''games'', ''mc'']" "''/var/irix'' = abs_path [''var'', ''irix'']" "list_all real_word [''var'', ''irix'']"
    "list_all real_word [''a.txt'']" "\<not> is_space (CHR ''t'')" "trash_words t_trip = [''.irix-trash'', ''00c0ffee-a.txt'']" by code_simp+
  moreover have "list_words [''var'', ''irix''] ''a'' = [''var'', ''irix'', ''trash'', ''a.json'']" by (simp add: list_words_def)
  then have "loadTrash plain_trash (abs_path [''var'', ''irix'']) ''a'' t_fs = []"
    using calculation(3) by (subst loadTrash_list) (simp_all add: t_fs_def ex_lookup)
  ultimately show ?thesis
    using plain_trash_ok t_fs_ok no_links_linkless t_world_cwd ex_base
    unfolding round_trip_ok_def t_trip_def
    by (simp add: ex_env_def t_world_def t_fs_def ex_lookup)
qed

lemma t_target:
  "safeResolve (fe_ev ex_env) (abs_path (rt_base t_trip)) ''a.txt'' = Some (Inr (abs_path (rt_base t_trip @ rt_rs t_trip)))"
  using ex_resolve(2) ex_base(1) ex_file(1) by (simp add: ex_env_def t_trip_def)

text \<open>The example's request to trash its file is answered with success.\<close>

lemma t_trash:
  "\<exists>w1. handleFileTrash plain_trash ex_env (\<lambda>_. ''00c0ffee'') (Some (''a'', [''a.txt''])) t_world = Some (Reply (), w1)"
proof -
  have words: "Join [''/games/mc'', trashDirName] = ''/games/mc/.irix-trash''" "root_words ''/games/mc/.irix-trash'' = [''games'', ''mc'', ''.irix-trash'']"
    "\<not> pathWithin ''/games/mc/.irix-trash'' ''/games/mc/a.txt''" "Base ''/games/mc/a.txt'' = ''a.txt''"
    "Join [''/games/mc/.irix-trash'', trash_name ''00c0ffee'' ''a.txt''] = ''/games/mc/.irix-trash/00c0ffee-a.txt''"
    "root_words ''/games/mc/.irix-trash/00c0ffee-a.txt'' = [''games'', ''mc'', ''.irix-trash'', ''00c0ffee-a.txt'']"
    "list_all real_word [''var'', ''irix'']" "''/var/irix'' = abs_path [''var'', ''irix'']" by code_simp+
  let ?s = "[''games'', ''mc'', ''a.txt'']" and ?d = "[''games'', ''mc'', ''.irix-trash'', ''00c0ffee-a.txt'']"
  define fs1 where "fs1 = fmupd [''games'', ''mc'', ''.irix-trash''] FDir t_fs"
  have 1: "MkdirAll ''/games/mc/.irix-trash'' t_fs = Some fs1"
    by (simp add: MkdirAll_def mkdir1_def ex_lookup t_fs_def words fs1_def)
  have ok1: "fs_ok fs1" by (rule MkdirAll_ok [OF t_fs_ok 1])
  have l1: "fmlookup fs1 ?s = Some (FFile ''hello'')" "fmlookup fs1 ?d = None" "fmlookup fs1 (butlast ?d) = Some FDir"
    by (simp_all add: fs1_def t_fs_def ex_lookup)
  then obtain fs2 where ren: "rename_words ?s ?d fs1 = Some fs2" by (simp add: rename_words_def)
  then have 2: "Rename ''/games/mc/a.txt'' ''/games/mc/.irix-trash/00c0ffee-a.txt'' fs1 = Some fs2"
    by (simp add: Rename_def words ex_file(3))
  have "list_all real_word ?d" using root_words_real [of "''/games/mc/.irix-trash/00c0ffee-a.txt''"] by (simp only: words)
  then have ok2: "fs_ok fs2" by (rule rename_words_ok [OF ok1 _ ren])
  have l2: "fmlookup fs2 [''var'', ''irix'', ''trash''] = Some FDir" "fmlookup fs2 [''var'', ''irix'', ''trash'', q] = None" for q
    using rename_leaves [OF ok1 ren _ l1(2)] by (simp_all add: fs1_def t_fs_def ex_lookup)
  have "\<exists>fs3. saveTrash plain_trash (abs_path [''var'', ''irix'']) ''a'' items fs2 = (True, fs3)" for items
    by (rule saveTrash_succeeds [OF ok2 words(7)]) (simp_all add: l2 list_words_def tmp_words_def)
  then have save: "\<exists>fs3. saveTrash plain_trash ''/var/irix'' ''a'' items fs2 = (True, fs3)" for items by (simp only: words(8))
  have at: "node_at fs1 ''/games/mc/a.txt'' = Some (FFile ''hello'')" using l1 by (simp add: node_at_def ex_file(3))
  define items where "items = loadTrash plain_trash ''/var/irix'' ''a'' t_fs"
  obtain its where loop: "trash_targets linkless 0 (\<lambda>_. ''00c0ffee'') ''/games/mc'' 0 [''a.txt''] items fs1 = Some (Inr its, fs2)"
    using at 2 by (simp add: words(1,3-5) ex_resolve Let_def)
  obtain fs3 where fs3: "saveTrash plain_trash ''/var/irix'' ''a'' its fs2 = (True, fs3)" using save by blast
  have "fw_fs t_world = t_fs" by (simp add: t_world_def)
  moreover have "nd_DataDir (fw_node (t_world\<lparr>fw_fs := fs2\<rparr>)) = ''/var/irix''" using t_world_cwd(2) by simp
  ultimately show ?thesis
    using t_world_cwd 1 loop fs3
    by (simp add: handleFileTrash_def fileScope_def words(1) ex_env_def save_and_reply_def items_def del: trash_targets.simps)
qed

theorem trashed_is_restored_witness:
  "\<exists>w1 w2. handleFileTrash plain_trash ex_env (\<lambda>_. ''00c0ffee'') (Some (''a'', [''a.txt''])) t_world = Some (Reply (), w1) \<and>
     handleTrashRestore plain_trash ex_env (Some (''a'', [''00c0ffee''])) w1 = Some (Reply (fmupd ''00c0ffee'' ''/a.txt'' fmempty), w2) \<and>
     fmlookup (fw_fs w2) [''games'', ''mc'', ''a.txt''] = Some (FFile ''hello'')"
proof -
  obtain w1 where w1: "handleFileTrash plain_trash ex_env (\<lambda>_. ''00c0ffee'') (Some (''a'', [''a.txt''])) t_world = Some (Reply (), w1)"
    using t_trash by blast
  have "abs_path [''a.txt''] = ''/a.txt''" by code_simp
  then show ?thesis
    using trashed_is_restored [OF t_trip_ok, of "\<lambda>_. ''00c0ffee''" "''a.txt''" w1] w1 t_target
    by (fastforce simp: t_trip_def trashDirName_def t_world_def t_fs_def ex_lookup)
qed

theorem failed_trash_orphans_witness:
  "\<exists>w2 m. handleFileTrash plain_trash ex_env (\<lambda>_. ''00c0ffee'') (Some (''a'', [''a.txt'', ''../b''])) t_world = Some (Fail 400 m, w2) \<and>
     fmlookup (fw_fs t_world) [''games'', ''mc'', ''a.txt''] = Some (FFile ''hello'') \<and>
     fmlookup (fw_fs w2) [''games'', ''mc'', ''a.txt''] = None"
proof -
  obtain w1 where w1: "handleFileTrash plain_trash ex_env (\<lambda>_. ''00c0ffee'') (Some (''a'', [''a.txt''])) t_world = Some (Reply (), w1)"
    using t_trash by blast
  have "NormalizePath ''/games/mc'' ''../b'' = Inl ''path out of bounds: ../b''" by code_simp
  then have "safeResolve linkless (abs_path [''games'', ''mc'']) ''../b'' = Some (Inl ''path out of bounds: ../b'')"
    using safe_resolve_without_links [OF no_links_linkless ex_base(2), of "''../b''"] ex_base(1) by simp
  then show ?thesis
    using failed_trash_orphans [OF t_trip_ok, of "\<lambda>_. ''00c0ffee''" "''a.txt''" w1 "''../b''"] w1 t_target
    by (fastforce simp: t_trip_def ex_env_def t_world_def t_fs_def ex_lookup)
qed

theorem restoring_overwrites_nothing_witness:
  "\<exists>w1 r w2. handleFileTrash plain_trash ex_env (\<lambda>_. ''00c0ffee'') (Some (''a'', [''a.txt''])) t_world = Some (Reply (), w1) \<and>
     handleTrashRestore plain_trash ex_env (Some (''a'', [''00c0ffee''])) w1 = Some (r, w2) \<and>
     fmlookup (fw_fs w2) [''games'', ''other'', ''run.sh''] = Some (FFile ''java'')"
proof -
  obtain w1 where w1: "handleFileTrash plain_trash ex_env (\<lambda>_. ''00c0ffee'') (Some (''a'', [''a.txt''])) t_world = Some (Reply (), w1)"
    using t_trash by blast
  have t: "rt_uuid t_trip = ''a''" "rt_id t_trip = ''00c0ffee''" "rt_dd t_trip = [''var'', ''irix'']" "rt_base t_trip = [''games'', ''mc'']"
    "rt_rs t_trip = [''a.txt'']" by (simp_all add: t_trip_def)
  have words: "list_all real_word [''var'', ''irix'']" "SEP \<notin> set ''a''" "''/var/irix'' = abs_path [''var'', ''irix'']"
    "trash_words t_trip = [trashDirName, ''00c0ffee-a.txt'']" "list_all real_word [trashDirName, ''00c0ffee-a.txt'']"
    "\<not> prefix [''games'', ''mc''] [trashDirName, ''00c0ffee-a.txt'']" "\<not> is_space (CHR ''t'')" by code_simp+
  from trash_forward [OF t_trip_ok, of "\<lambda>_. ''00c0ffee''" "''a.txt''" w1] w1 t_target
  obtain fs1 fs2 it where f: "fs_ok fs1" "\<And>x. fmlookup fs1 x = (if prefix x [''games'', ''mc'', trashDirName] then Some FDir else fmlookup (fw_fs t_world) x)"
    and ren: "rename_words [''games'', ''mc'', ''a.txt''] [''games'', ''mc'', trashDirName, ''00c0ffee-a.txt''] fs1 = Some fs2"
    and save: "saveTrash plain_trash (abs_path [''var'', ''irix'']) ''a'' (loadTrash plain_trash (abs_path [''var'', ''irix'']) ''a'' (fw_fs t_world) @ [it]) fs2 = (True, fw_fs w1)"
    and it: "ti_TrashPath it = abs_path [trashDirName, ''00c0ffee-a.txt'']" and nd: "fw_node w1 = fw_node t_world"
    by (auto simp: t words(4))
  have ok2: "fs_ok fs2" using rename_words_ok [OF f(1) _ ren] words(5) ex_base(2) by simp
  note s = saveTrash_done [OF ok2 words(1,2) save]
  have none: "loadTrash plain_trash (abs_path [''var'', ''irix'']) ''a'' (fw_fs t_world) = []"
    by (simp add: loadTrash_list [OF words(1,2)] list_words_def t_world_def t_fs_def ex_lookup)
  have "loadTrash plain_trash (abs_path [''var'', ''irix'']) ''a'' (fw_fs w1) = [it]"
    using s plain_trash_ok none by (simp add: loadTrash_list [OF words(1,2)] trash_codec_ok_def)
  moreover have "in_trash (fe_ev ex_env) [''games'', ''mc''] it"
    using resolve_stored [OF no_links_linkless ex_base(2) words(5) _ words(6)] words(5,7) ex_base(2)
    by (auto simp: in_trash_def it ex_env_def)
  moreover have "eval_abs (fe_ev ex_env)" by (simp add: ex_env_def eval_abs_def linkless_def)
  moreover have run: "fmlookup (fw_fs w1) [''games'', ''other'', ''run.sh''] = Some (FFile ''java'')"
  proof -
    have "fmlookup fs1 [''games'', ''mc'', trashDirName, ''00c0ffee-a.txt''] = None"
      by (simp add: f(2) t_world_def t_fs_def ex_lookup)
    then show ?thesis
      using rename_leaves [OF f(1) ren] s by (simp add: f(2) trashDirName_def t_world_def t_fs_def ex_lookup list_words_def tmp_words_def)
  qed
  moreover have "root_words (trashFile ''/var/irix'' ''a'') = [''var'', ''irix'', ''trash'', ''a.json'']"
    "root_words (trashFile ''/var/irix'' ''a'' @ ''.tmp'') = [''var'', ''irix'', ''trash'', ''a.json.tmp'']" by code_simp+
  moreover have "fs_ok (fw_fs w1)" using s by simp
  moreover have "CwdOf (fw_node w1) ''a'' = Inr (abs_path [''games'', ''mc''])" "nd_DataDir (fw_node w1) = ''/var/irix''"
    using nd t_world_cwd ex_base(1) by simp_all
  ultimately obtain r w2 where r: "handleTrashRestore plain_trash ex_env (Some (''a'', [''00c0ffee''])) w1 = Some (r, w2)"
    "\<forall>x n. fmlookup (fw_fs w1) x = Some n \<and> \<not> prefix ([''games'', ''mc''] @ [trashDirName]) x \<and>
       x \<notin> {[''var'', ''irix'', ''trash'', ''a.json''], [''var'', ''irix'', ''trash'', ''a.json.tmp'']} \<longrightarrow>
       fmlookup (fw_fs w2) x = Some n"
    using restoring_overwrites_nothing [of ex_env w1 "''a''" "[''games'', ''mc'']" plain_trash "[''00c0ffee'']"]
      ex_base(2) words(3) by auto
  then have "fmlookup (fw_fs w2) [''games'', ''other'', ''run.sh''] = Some (FFile ''java'')"
    using run by (simp add: trashDirName_def)
  then show ?thesis using w1 r(1) by blast
qed

end
