(* ===== verification/Jails.thy ===== *)
theory Jails
  imports Containers FileSys
begin

text \<open>
  Jails (cmd/irix-node/container_bastille.go, container_bastille_mount.go and the handlers of
  container.go): what a FreeBSD node does with the bastille command and with bastille's own files.
  A run of a command is a parameter, from the program and its arguments to an error or the output;
  it may change the file system. The operations read and write the directory trees of \<open>FileSys\<close>:
  the root of a thin jail, which is a symbolic link, is treated like a directory.
\<close>

type_synonym engine = "string list \<Rightarrow> fs \<Rightarrow> (string + string) \<times> fs"

type_synonym 'a on_fs = "(string + 'a) \<times> fs"

definition bastilleRoot :: string where "bastilleRoot = ''/usr/local/bastille''"
definition bastilleBin :: string where "bastilleBin = ''/usr/local/bin/bastille''"
definition jlsBin :: string where "jlsBin = ''/usr/sbin/jls''"
definition zfsBin :: string where "zfsBin = ''/sbin/zfs''"
definition mountBin :: string where "mountBin = ''/sbin/mount''"

definition jail_reply :: "string + 'a \<Rightarrow> 'a reply" where
  "jail_reply r = engine_reply (map_sum EngineError id r)"

definition reply_of :: "'a on_fs \<Rightarrow> 'a reply \<times> fs" where
  "reply_of r = (jail_reply (fst r), snd r)"

text \<open>The command's output is not used.\<close>

definition run_quietly :: "engine \<Rightarrow> string list \<Rightarrow> fs \<Rightarrow> unit on_fs" where
  "run_quietly run args fs = (case run args fs of (r, fs) \<Rightarrow> (map_sum id (\<lambda>_. ()) r, fs))"

definition jail_file :: "string \<Rightarrow> string \<Rightarrow> string" where
  "jail_file name f = Join [bastilleRoot, ''jails'', name, f]"

definition is_dir_at :: "string \<Rightarrow> fs \<Rightarrow> bool" where
  "is_dir_at p fs = (node_at fs p = Some FDir)"

text \<open>The directories among the entries of a directory; \<open>None\<close> where it cannot be read.\<close>

definition subdirs :: "string \<Rightarrow> fs \<Rightarrow> string list option" where
  "subdirs p fs = map_option (filter (\<lambda>n. fmlookup fs (root_words p @ [n]) = Some FDir)) (ReadDir p fs)"

subsection \<open>Releases and the list of jails\<close>

definition bastilleAvailable :: "engine \<Rightarrow> fs \<Rightarrow> string \<times> bool" where
  "bastilleAvailable run fs =
     (if node_at fs ''/usr/local/bin/bastille'' = None then ([], False)
      else (case fst (run [bastilleBin, ''version''] fs) of Inr out \<Rightarrow> (TrimSpace out, True) | Inl _ \<Rightarrow> ([], True)))"

text \<open>
  The size of a release is kept as long as the modification time of its directory is the same;
  \<open>mt\<close> gives the modification times.
\<close>

type_synonym size_cache = "(string, instant \<times> int) fmap"

definition regular_size :: "string \<Rightarrow> fs \<Rightarrow> int" where
  "regular_size p fs =
     sum_list (map (\<lambda>k. node_size (the (fmlookup fs k))) (filter (prefix (root_words p)) (fs_keys fs)))"

definition bastilleReleaseSize :: "(string \<Rightarrow> instant) \<Rightarrow> string \<Rightarrow> fs \<Rightarrow> size_cache \<Rightarrow> int \<times> size_cache" where
  "bastilleReleaseSize mt name fs cache =
     (let dir = Join [bastilleRoot, ''releases'', name] in
      if node_at fs dir = None then (0, cache)
      else
        (case fmlookup cache name of
           Some (t, n) \<Rightarrow>
             if t = mt dir then (n, cache)
             else (regular_size dir fs, fmupd name (mt dir, regular_size dir fs) cache)
         | None \<Rightarrow> (regular_size dir fs, fmupd name (mt dir, regular_size dir fs) cache)))"

record release_item =
  rl_name :: string
  rl_sizeBytes :: int
  rl_createdAt :: instant

fun release_items :: "(string \<Rightarrow> instant) \<Rightarrow> fs \<Rightarrow> string list \<Rightarrow> size_cache \<Rightarrow> release_item list \<times> size_cache" where
  "release_items mt fs [] cache = ([], cache)"
| "release_items mt fs (n # ns) cache =
     (let (sz, cache) = bastilleReleaseSize mt n fs cache;
          (items, cache) = release_items mt fs ns cache
      in (\<lparr>rl_name = n, rl_sizeBytes = sz, rl_createdAt = mt (Join [bastilleRoot, ''releases'', n])\<rparr> # items, cache))"

definition bastilleReleases ::
  "(string \<Rightarrow> instant) \<Rightarrow> fs \<Rightarrow> size_cache \<Rightarrow> (string + release_item list) \<times> size_cache" where
  "bastilleReleases mt fs cache =
     (case subdirs (Join [bastilleRoot, ''releases'']) fs of
        None \<Rightarrow> (Inl ''cannot read the list of releases'', cache)
      | Some ns \<Rightarrow> (case release_items mt fs ns cache of (items, cache) \<Rightarrow> (Inr items, cache)))"

definition normalizeRelease :: "string \<Rightarrow> string" where
  "normalizeRelease r = (case str_index r '':'' of Some i \<Rightarrow> if i > 0 then take i r else r | None \<Rightarrow> r)"

text \<open>The part of a text between the first two double quotes, if it is not empty.\<close>

definition first_quoted :: "string \<Rightarrow> string option" where
  "first_quoted line =
     (case cut_at (CHR 0x22) line of
        None \<Rightarrow> None
      | Some (_, rest) \<Rightarrow>
        (case cut_at (CHR 0x22) rest of None \<Rightarrow> None | Some (v, _) \<Rightarrow> if v = [] then None else Some v))"

definition osrelease_line :: "string \<Rightarrow> string option" where
  "osrelease_line line =
     (let line = TrimSpace line in if HasPrefix line ''osrelease'' then first_quoted line else None)"

fun first_some :: "('a \<Rightarrow> 'b option) \<Rightarrow> 'a list \<Rightarrow> 'b option" where
  "first_some f [] = None"
| "first_some f (x # xs) = (case f x of None \<Rightarrow> first_some f xs | Some y \<Rightarrow> Some y)"

definition release_of_link :: "string \<Rightarrow> string" where
  "release_of_link link =
     (case str_index link ''releases/'' of
        None \<Rightarrow> []
      | Some i \<Rightarrow>
        let rest = drop (i + length ''releases/'') link in
        (case index_byte SEP rest of Some k \<Rightarrow> if k > 0 then take k rest else rest | None \<Rightarrow> rest))"

text \<open>\<open>rl\<close> is \<open>os.Readlink\<close>.\<close>

definition bastilleJailRelease :: "(string \<Rightarrow> string option) \<Rightarrow> string \<Rightarrow> fs \<Rightarrow> string" where
  "bastilleJailRelease rl name fs =
     (case (case ReadFile (jail_file name ''jail.conf'') fs of
              None \<Rightarrow> None
            | Some data \<Rightarrow> first_some osrelease_line (split_on (CHR 0x0A) data)) of
        Some v \<Rightarrow> v
      | None \<Rightarrow> (case rl (jail_file name ''root'') of None \<Rightarrow> [] | Some link \<Rightarrow> release_of_link link))"

definition jls_row :: "string \<Rightarrow> (int \<times> string) option" where
  "jls_row line =
     (let fields = Fields line in
      if length fields < 3 \<or> fields ! 0 = ''JID'' then None
      else map_option (\<lambda>jid. (jid, fields ! 2)) (Atoi (fields ! 0)))"

definition bastilleRunningSet :: "engine \<Rightarrow> fs \<Rightarrow> string list \<times> fs" where
  "bastilleRunningSet run fs =
     (case run [jlsBin] fs of
        (Inl e, fs) \<Rightarrow> ([], fs)
      | (Inr out, fs) \<Rightarrow> (map snd (List.map_filter jls_row (split_on (CHR 0x0A) out)), fs))"

text \<open>The kernel's number of a running jail; \<open>Inl None\<close> is \<open>errBastilleJailNotRunning\<close>.\<close>

definition bastilleJID :: "engine \<Rightarrow> string \<Rightarrow> fs \<Rightarrow> (string option + int) \<times> fs" where
  "bastilleJID run name fs =
     (case run [jlsBin] fs of
        (Inl e, fs) \<Rightarrow> (Inl (Some e), fs)
      | (Inr out, fs) \<Rightarrow>
          (case first_some (\<lambda>line. let fields = Fields line in
                    if length fields \<ge> 3 \<and> fields ! 2 = name
                    then (case Atoi (fields ! 0) of Some jid \<Rightarrow> if jid > 0 then Some jid else None | None \<Rightarrow> None)
                    else None) (split_on (CHR 0x0A) out) of
             Some jid \<Rightarrow> (Inr jid, fs)
           | None \<Rightarrow> (Inl None, fs)))"

subsection \<open>Port forwarding\<close>

record rdrRule =
  rr_Jail :: string
  rr_Proto :: string
  rr_HostPort :: int
  rr_JailPort :: int

text \<open>\<open>lastPortIn\<close> over the remaining fields; a number after \<open>port\<close> or \<open>port =\<close>.\<close>

fun last_port :: "string list \<Rightarrow> int \<Rightarrow> int" where
  "last_port [] n = n"
| "last_port (f # fs) n =
     (if f = ''port'' then
        (case fs of
           [] \<Rightarrow> n
         | g # gs \<Rightarrow>
             if g = ''='' \<and> gs \<noteq> [] then last_port (tl gs) (case Atoi (hd gs) of Some v \<Rightarrow> v | None \<Rightarrow> n)
             else last_port fs (case Atoi g of Some v \<Rightarrow> v | None \<Rightarrow> n))
      else last_port fs n)"

definition lastPortIn :: "string \<Rightarrow> int" where
  "lastPortIn s = last_port (Fields s) 0"

definition parseRdrLine :: "string \<Rightarrow> int \<times> int" where
  "parseRdrLine line =
     (case str_index line ''->'' of
        None \<Rightarrow> (lastPortIn line, lastPortIn [])
      | Some i \<Rightarrow> (lastPortIn (take i line), lastPortIn (drop (i + 2) line)))"

fun proto_in :: "string list \<Rightarrow> string" where
  "proto_in (f # g # fs) = (if f = ''proto'' then g else proto_in (g # fs))"
| "proto_in _ = []"

definition rdr_of_line :: "string \<Rightarrow> string \<Rightarrow> rdrRule option" where
  "rdr_of_line jail line =
     (let line = TrimSpace line; (hostPort, jailPort) = parseRdrLine line in
      if line = [] \<or> hostPort \<le> 0 \<or> jailPort \<le> 0 then None
      else Some \<lparr>rr_Jail = jail, rr_Proto = proto_in (Fields line), rr_HostPort = hostPort, rr_JailPort = jailPort\<rparr>)"

definition parseRdrOutput :: "string \<Rightarrow> string \<Rightarrow> rdrRule list" where
  "parseRdrOutput jail out = List.map_filter (rdr_of_line jail) (split_on (CHR 0x0A) out)"

definition bastilleRdrListOne :: "engine \<Rightarrow> string \<Rightarrow> fs \<Rightarrow> rdrRule list on_fs" where
  "bastilleRdrListOne run jail fs =
     (case run [bastilleBin, ''rdr'', jail, ''list''] fs of
        (Inl e, fs) \<Rightarrow> (Inl e, fs)
      | (Inr out, fs) \<Rightarrow> (Inr (parseRdrOutput jail out), fs))"

fun rdr_of_jails :: "engine \<Rightarrow> string list \<Rightarrow> fs \<Rightarrow> rdrRule list \<times> fs" where
  "rdr_of_jails run [] fs = ([], fs)"
| "rdr_of_jails run (j # js) fs =
     (case bastilleRdrListOne run j fs of
        (Inl e, fs) \<Rightarrow> rdr_of_jails run js fs
      | (Inr rs, fs) \<Rightarrow> (case rdr_of_jails run js fs of (more_rs, fs) \<Rightarrow> (rs @ more_rs, fs)))"

definition bastilleRdrRulesByJail :: "engine \<Rightarrow> fs \<Rightarrow> rdrRule list on_fs" where
  "bastilleRdrRulesByJail run fs =
     (case subdirs (Join [bastilleRoot, ''jails'']) fs of
        None \<Rightarrow> (Inl ''cannot read the list of jails'', fs)
      | Some js \<Rightarrow> (case rdr_of_jails run js fs of (rs, fs) \<Rightarrow> (Inr rs, fs)))"

definition bastilleRdrList :: "engine \<Rightarrow> string \<Rightarrow> fs \<Rightarrow> rdrRule list on_fs" where
  "bastilleRdrList run jail fs =
     (if jail \<noteq> [] then bastilleRdrListOne run jail fs else bastilleRdrRulesByJail run fs)"

definition bastilleRdrAdd :: "engine \<Rightarrow> string \<Rightarrow> string \<Rightarrow> int \<Rightarrow> int \<Rightarrow> fs \<Rightarrow> unit on_fs" where
  "bastilleRdrAdd run jail proto hostPort jailPort fs =
     (case run [bastilleBin, ''rdr'', jail, proto, Itoa hostPort, Itoa jailPort] fs of
        (Inl e, fs) \<Rightarrow> (Inl (e @ '' (is the firewall set up?)''), fs)
      | (Inr _, fs) \<Rightarrow> (Inr (), fs))"

fun rdr_replay :: "engine \<Rightarrow> string \<Rightarrow> rdrRule list \<Rightarrow> fs \<Rightarrow> unit on_fs" where
  "rdr_replay run jail [] fs = (Inr (), fs)"
| "rdr_replay run jail (r # rs) fs =
     (case bastilleRdrAdd run jail (rr_Proto r) (rr_HostPort r) (rr_JailPort r) fs of
        (Inl e, fs) \<Rightarrow> (Inl e, fs)
      | (Inr _, fs) \<Rightarrow> rdr_replay run jail rs fs)"

definition bastilleRdrDelete :: "engine \<Rightarrow> string \<Rightarrow> string \<Rightarrow> int \<Rightarrow> int \<Rightarrow> fs \<Rightarrow> unit on_fs" where
  "bastilleRdrDelete run jail proto hostPort jailPort fs =
     (case bastilleRdrList run jail fs of
        (Inl e, fs) \<Rightarrow> (Inl e, fs)
      | (Inr rules, fs) \<Rightarrow>
        (case run [bastilleBin, ''rdr'', jail, ''clear''] fs of
           (Inl e, fs) \<Rightarrow> (Inl e, fs)
         | (Inr _, fs) \<Rightarrow>
             rdr_replay run jail
               (filter (\<lambda>r. \<not> (rr_Proto r = proto \<and> rr_HostPort r = hostPort \<and> rr_JailPort r = jailPort)) rules) fs))"

record jail_item =
  ji_name :: string
  ji_release :: string
  ji_running :: bool
  ji_ports :: "string list"

definition port_summary :: "rdrRule \<Rightarrow> string" where
  "port_summary r = rr_Proto r @ '' '' @ Itoa (rr_HostPort r) @ '' -> '' @ Itoa (rr_JailPort r)"

definition bastilleJails :: "engine \<Rightarrow> (string \<Rightarrow> string option) \<Rightarrow> fs \<Rightarrow> jail_item list on_fs" where
  "bastilleJails run rl fs =
     (case ReadDir (Join [bastilleRoot, ''jails'']) fs of
        None \<Rightarrow> (Inl ''cannot read the list of jails'', fs)
      | Some names \<Rightarrow>
        let names = filter (\<lambda>n. fmlookup fs (root_words (Join [bastilleRoot, ''jails'']) @ [n]) = Some FDir) names in
        (case bastilleRunningSet run fs of (running, fs) \<Rightarrow>
        (case bastilleRdrRulesByJail run fs of (rules, fs) \<Rightarrow>
          let rs = (case rules of Inl _ \<Rightarrow> [] | Inr rs \<Rightarrow> rs) in
          (Inr (map (\<lambda>n. \<lparr>ji_name = n, ji_release = bastilleJailRelease rl n fs, ji_running = n \<in> set running,
               ji_ports = map port_summary (filter (\<lambda>r. rr_Jail r = n) rs)\<rparr>) names), fs))))"
subsection \<open>Creating a jail\<close>

text \<open>\<open>vnet.interface\<close> in \<open>jail.conf\<close>, up to the first semicolon after it, gets the form with an address.\<close>

definition mac_edit :: "string \<Rightarrow> string \<Rightarrow> string + string" where
  "mac_edit mac content =
     (case str_index content ''vnet.interface'' of
        None \<Rightarrow> Inl ''no vnet.interface in jail.conf''
      | Some i \<Rightarrow>
        let rest = drop i content in
        (case cut_at (CHR 0x22) rest of
           None \<Rightarrow> Inl ''no quoted interface''
         | Some (_, q) \<Rightarrow>
           (case cut_at (CHR 0x22) q of
              None \<Rightarrow> Inl ''quote not closed''
            | Some (iface, _) \<Rightarrow>
              (case index_byte (CHR '';'') rest of
                 None \<Rightarrow> Inl ''no semicolon''
               | Some semi \<Rightarrow>
                   Inr (take i content @ ''vnet.interface = { name '' @ [CHR 0x22] @ iface @ [CHR 0x22] @ ''; mac '' @ [CHR 0x22] @
                        mac @ [CHR 0x22] @ ''; };'' @ drop (i + semi + 1) content)))))"

definition write_conf :: "string \<Rightarrow> string \<Rightarrow> fs \<Rightarrow> unit on_fs" where
  "write_conf name content fs =
     (case WriteFile (jail_file name ''jail.conf'') content fs of None \<Rightarrow> (Inl ''cannot write jail.conf'', fs) | Some fs \<Rightarrow> (Inr (), fs))"

definition bastilleSetMac :: "string \<Rightarrow> string \<Rightarrow> fs \<Rightarrow> unit on_fs" where
  "bastilleSetMac name mac fs =
     (case ReadFile (jail_file name ''jail.conf'') fs of
        None \<Rightarrow> (Inl ''cannot read jail.conf'', fs)
      | Some content \<Rightarrow>
        (case mac_edit mac content of Inl e \<Rightarrow> (Inl e, fs) | Inr content \<Rightarrow> write_conf name content fs))"

definition bastilleMount :: "engine \<Rightarrow> string \<Rightarrow> string \<Rightarrow> string \<Rightarrow> fs \<Rightarrow> unit on_fs" where
  "bastilleMount run name src dst fs =
     run_quietly run [bastilleBin, ''mount'', name, src, dst, ''nullfs'', ''rw'', ''0'', ''0''] fs"

definition bastilleUmount :: "engine \<Rightarrow> string \<Rightarrow> string \<Rightarrow> fs \<Rightarrow> unit on_fs" where
  "bastilleUmount run name dst fs = run_quietly run [bastilleBin, ''umount'', name, dst] fs"

text \<open>Single quotes of the directory are written as \<open>'\''\<close>.\<close>

definition escape_quotes :: "string \<Rightarrow> string" where
  "escape_quotes s = concat (map (\<lambda>c. if c = CHR 0x27 then [CHR 0x27, CHR 0x5C, CHR 0x27, CHR 0x27] else [c]) s)"

definition last_index :: "char \<Rightarrow> string \<Rightarrow> nat option" where
  "last_index c s = map_option (\<lambda>k. length s - Suc k) (index_byte c (rev s))"

definition start_command :: "string \<Rightarrow> string" where
  "start_command dir = ''exec.start = '' @ [CHR 0x27] @ ''cd '' @ dir @ '' && /bin/sh /etc/rc'' @ [CHR 0x27] @ '';''"

definition workdir_edit :: "string \<Rightarrow> string \<Rightarrow> string" where
  "workdir_edit workdir content =
     (let esc = escape_quotes workdir in
      case str_index content ''exec.start'' of
        Some i \<Rightarrow>
          (case index_byte (CHR '';'') (drop i content) of
             None \<Rightarrow> content
           | Some semi \<Rightarrow> take i content @ start_command esc @ drop (i + semi + 1) content)
      | None \<Rightarrow>
          let ins = ''  '' @ start_command esc @ [CHR 0x0A] in
          (case last_index (CHR ''}'') content of
             Some e \<Rightarrow> take e content @ ins @ drop e content
           | None \<Rightarrow> content @ ins))"

definition bastilleSetWorkdir :: "string \<Rightarrow> string \<Rightarrow> fs \<Rightarrow> unit on_fs" where
  "bastilleSetWorkdir name workdir fs =
     (case ReadFile (jail_file name ''jail.conf'') fs of
        None \<Rightarrow> (Inl ''cannot read jail.conf'', fs)
      | Some content \<Rightarrow> write_conf name (workdir_edit workdir content) fs)"

fun run_each :: "engine \<Rightarrow> string list list \<Rightarrow> fs \<Rightarrow> unit on_fs" where
  "run_each run [] fs = (Inr (), fs)"
| "run_each run (args # rest) fs =
     (case run args fs of (Inl e, fs) \<Rightarrow> (Inl e, fs) | (Inr _, fs) \<Rightarrow> run_each run rest fs)"

definition limit_commands :: "string \<Rightarrow> int \<Rightarrow> int \<Rightarrow> int \<Rightarrow> string list list" where
  "limit_commands name memoryMb cpus diskMb =
     (if memoryMb > 0 then [[bastilleBin, ''limits'', name, ''add'', ''memoryuse'', Itoa memoryMb @ ''M'']] else []) @
     (if cpus > 0 then [[bastilleBin, ''limits'', name, ''cpu'', join_with '','' (map (\<lambda>i. Itoa (int i)) [0..<nat cpus])]] else []) @
     (if diskMb > 0 then [[zfsBin, ''set'', ''quota='' @ Itoa diskMb @ ''M'', Join [bastilleRoot, ''jails'', name]]] else [])"

definition bastilleApplyLimits :: "engine \<Rightarrow> string \<Rightarrow> int \<Rightarrow> int \<Rightarrow> int \<Rightarrow> fs \<Rightarrow> unit on_fs" where
  "bastilleApplyLimits run name memoryMb cpus diskMb fs = run_each run (limit_commands name memoryMb cpus diskMb) fs"

text \<open>
  The request as \<open>bastilleCreate\<close> completes it, the refusals in their order (\<open>root\<close>: the process
  runs as root) and the command line.
\<close>

definition create_defaults :: "jail_create \<Rightarrow> jail_create" where
  "create_defaults c =
     c\<lparr>jc_type := (if jc_type c = [] then ''thin'' else jc_type c),
       jc_release := normalizeRelease (jc_release c),
       jc_vnet := (if jc_vnet c = [] then ''none'' else jc_vnet c)\<rparr>"

definition create_refusal :: "bool \<Rightarrow> jail_create \<Rightarrow> fs \<Rightarrow> string option" where
  "create_refusal root c fs =
     (let vnet = jc_vnet c \<noteq> ''none''; empty = (jc_type c = ''empty'') in
      if isAllDigits (jc_name c) then Some ''name of digits only''
      else if jc_type c \<notin> {''thin'', ''thick'', ''clone'', ''empty'', ''linux''} then Some ''bad type''
      else if jc_vnet c \<notin> {''none'', ''vnet'', ''bridge''} then Some ''bad vnet''
      else if jc_type c = ''linux'' \<and> vnet then Some ''linux excludes vnet''
      else if vnet \<and> jc_iface c = [] then Some ''vnet needs an interface''
      else if vnet \<and> \<not> Contains (jc_ip c) ''/'' then Some ''vnet needs a netmask''
      else if jc_macFlag c \<and> \<not> vnet then Some ''mac needs vnet''
      else if \<not> root then Some ''root required''
      else if \<not> empty \<and> \<not> is_dir_at (Join [bastilleRoot, ''releases'', jc_release c]) fs then Some ''release not bootstrapped''
      else if \<not> empty \<and> is_dir_at (Join [bastilleRoot, ''jails'', jc_name c]) fs then Some ''jail exists''
      else if \<not> empty \<and> jc_release c = [] then Some ''release missing''
      else if \<not> empty \<and> jc_ip c = [] then Some ''ip missing''
      else None)"

definition create_flags :: "jail_create \<Rightarrow> string list" where
  "create_flags c =
     (if jc_type c = ''thick'' then [''-T''] else if jc_type c = ''clone'' then [''-C'']
      else if jc_type c = ''empty'' then [''-E''] else if jc_type c = ''linux'' then [''-L''] else []) @
     (if jc_macFlag c then [''-M''] else []) @
     (if jc_vnet c = ''vnet'' then [''-V''] else if jc_vnet c = ''bridge'' then [''-B''] else [])"

definition create_operands :: "jail_create \<Rightarrow> string list" where
  "create_operands c =
     jc_name c # (if jc_type c = ''empty'' then []
                  else [jc_release c, jc_ip c] @ (if jc_vnet c \<noteq> ''none'' then [jc_iface c] else []))"

text \<open>A step after the creation: its failure becomes a warning.\<close>

definition warn :: "string \<Rightarrow> unit on_fs \<Rightarrow> string list \<times> fs" where
  "warn label r = (case r of (Inl e, fs) \<Rightarrow> ([label @ '': '' @ e], fs) | (Inr _, fs) \<Rightarrow> ([], fs))"

fun mount_volumes :: "engine \<Rightarrow> string \<Rightarrow> (string \<times> string) list \<Rightarrow> fs \<Rightarrow> string list \<times> fs" where
  "mount_volumes run name [] fs = ([], fs)"
| "mount_volumes run name ((src, dst) # vs) fs =
     (if src = [] \<or> dst = [] then mount_volumes run name vs fs
      else
        (case warn ''mount'' (bastilleMount run name src dst fs) of (ws, fs) \<Rightarrow>
        (case mount_volumes run name vs fs of (ws', fs) \<Rightarrow> (ws @ ws', fs))))"

definition configure_jail :: "engine \<Rightarrow> jail_create \<Rightarrow> fs \<Rightarrow> string list \<times> fs" where
  "configure_jail run c fs =
     (case (if jc_macAddr c \<noteq> [] then warn ''mac'' (bastilleSetMac (jc_name c) (jc_macAddr c) fs) else ([], fs)) of (w1, fs) \<Rightarrow>
     (case mount_volumes run (jc_name c) (jc_volumes c) fs of (w2, fs) \<Rightarrow>
     (case (if jc_workdir c \<noteq> [] then warn ''workdir'' (bastilleSetWorkdir (jc_name c) (jc_workdir c) fs) else ([], fs)) of (w3, fs) \<Rightarrow>
     (case (if jc_memoryLimitMb c > 0 \<or> jc_cpus c > 0 \<or> jc_diskLimitMb c > 0
            then warn ''limits'' (bastilleApplyLimits run (jc_name c) (jc_memoryLimitMb c) (jc_cpus c) (jc_diskLimitMb c) fs)
            else ([], fs)) of (w4, fs) \<Rightarrow> (w1 @ w2 @ w3 @ w4, fs)))))"

definition bastilleCreate :: "engine \<Rightarrow> bool \<Rightarrow> jail_create \<Rightarrow> fs \<Rightarrow> (string \<times> string list) on_fs" where
  "bastilleCreate run root c fs =
     (let c = create_defaults c in
      case create_refusal root c fs of
        Some e \<Rightarrow> (Inl e, fs)
      | None \<Rightarrow>
        (case run (bastilleBin # ''create'' # create_flags c @ create_operands c) fs of
           (Inl e, fs) \<Rightarrow> (Inl e, fs)
         | (Inr _, fs) \<Rightarrow> (case configure_jail run c fs of (ws, fs) \<Rightarrow> (Inr (jc_name c, ws), fs))))"

subsection \<open>Commands on a jail\<close>

definition bastilleAction :: "engine \<Rightarrow> string \<Rightarrow> string \<Rightarrow> bool \<Rightarrow> fs \<Rightarrow> unit on_fs" where
  "bastilleAction run name action force fs =
     run_quietly run ([bastilleBin, action] @
       (if action = ''destroy'' then [''-y''] @ (if force then [''-a''] else []) else []) @ [name]) fs"

definition bastilleLogs :: "engine \<Rightarrow> string \<Rightarrow> int \<Rightarrow> fs \<Rightarrow> string on_fs" where
  "bastilleLogs run name tail fs =
     (case run [bastilleBin, ''logs'', name] fs of
        (Inl e, fs) \<Rightarrow> (Inl e, fs)
      | (Inr out, fs) \<Rightarrow>
          (Inr (join_with [CHR 0x0A] (lastn (nat tail) (split_on (CHR 0x0A) (TrimRight out [CHR 0x0A])))), fs))"

definition bastilleCmd :: "engine \<Rightarrow> string \<Rightarrow> string \<Rightarrow> fs \<Rightarrow> string on_fs" where
  "bastilleCmd run name command fs = run [bastilleBin, ''cmd'', name, ''sh'', ''-c'', command] fs"

definition bastillePkg :: "engine \<Rightarrow> string \<Rightarrow> string \<Rightarrow> string list \<Rightarrow> fs \<Rightarrow> string on_fs" where
  "bastillePkg run name action packages fs = run ([bastilleBin, ''pkg'', name, action, ''-y''] @ packages) fs"

definition bastilleClone :: "engine \<Rightarrow> string \<Rightarrow> string \<Rightarrow> string \<Rightarrow> fs \<Rightarrow> unit on_fs" where
  "bastilleClone run name newName newIP fs =
     run_quietly run ([bastilleBin, ''clone'', ''-a'', name, newName] @ (if newIP \<noteq> [] then [newIP] else [])) fs"

text \<open>The archive is the newest one in the directory; \<open>mt\<close> gives modification times.\<close>

definition newest :: "(string \<Rightarrow> instant) \<Rightarrow> string \<Rightarrow> string list \<Rightarrow> string \<times> instant" where
  "newest mt dir names =
     foldl (\<lambda>(best, t) n. if HasSuffix n ''.txz'' \<and> mt (Join [dir, n]) > t then (n, mt (Join [dir, n])) else (best, t))
       ([], zero_time) names"

definition bastilleExport :: "engine \<Rightarrow> (string \<Rightarrow> instant) \<Rightarrow> string \<Rightarrow> fs \<Rightarrow> string on_fs" where
  "bastilleExport run mt name fs =
     (let backupDir = Join [bastilleRoot, ''backups''] in
      case MkdirAll backupDir fs of
        None \<Rightarrow> (Inl ''cannot make the backup directory'', fs)
      | Some fs \<Rightarrow>
        (case run [bastilleBin, ''export'', ''-a'', ''--txz'', name, backupDir] fs of
           (Inl e, fs) \<Rightarrow> (Inl e, fs)
         | (Inr _, fs) \<Rightarrow>
           (case ReadDir backupDir fs of
              None \<Rightarrow> (Inl ''cannot read the backup directory'', fs)
            | Some names \<Rightarrow>
                let latest = fst (newest mt backupDir names) in
                if latest = [] then (Inl ''no archive found'', fs) else (Inr (Join [backupDir, latest]), fs))))"

definition resolveImportFile ::
  "(string \<Rightarrow> eval_error + string) \<Rightarrow> string option \<Rightarrow> string \<Rightarrow> string \<Rightarrow> (string + string) option" where
  "resolveImportFile ev wd dataDir f =
     (if IsAbs f then
        (if pathWithin (Join [bastilleRoot, ''backups'']) f \<or> pathWithin (clusterRoot wd dataDir) f then Some (Inr f)
         else Some (Inl (''path out of bounds: '' @ f)))
      else clusterPath ev wd dataDir f)"

definition bastilleJailNames :: "fs \<Rightarrow> string list" where
  "bastilleJailNames fs = (case subdirs (Join [bastilleRoot, ''jails'']) fs of None \<Rightarrow> [] | Some ns \<Rightarrow> ns)"

fun jail_word :: "string list \<Rightarrow> string option" where
  "jail_word (f # g # fs) =
     (if EqualFold f ''jail'' \<and> trim_chars g ''.: '' \<noteq> [] then Some (trim_chars g ''.: '') else jail_word (g # fs))"
| "jail_word _ = None"

definition importJailName :: "string \<Rightarrow> string" where
  "importJailName out =
     (case first_some (\<lambda>line. jail_word (Fields (TrimSpace line))) (split_on (CHR 0x0A) out) of None \<Rightarrow> [] | Some n \<Rightarrow> n)"

text \<open>Go walks the set of the new names in any order; here the first one counts.\<close>

definition bastilleImport ::
  "engine \<Rightarrow> (string \<Rightarrow> eval_error + string) \<Rightarrow> string option \<Rightarrow> string \<Rightarrow> string \<Rightarrow> string \<Rightarrow> bool \<Rightarrow> fs \<Rightarrow>
   string on_fs option" where
  "bastilleImport run ev wd dataDir f release force fs =
     (case resolveImportFile ev wd dataDir f of
        None \<Rightarrow> None
      | Some (Inl e) \<Rightarrow> Some (Inl e, fs)
      | Some (Inr path) \<Rightarrow>
          Some (case run ([bastilleBin, ''import''] @ (if force then [''-f''] else []) @ [path] @
                  (if release \<noteq> [] then [release] else [])) fs of
             (Inl e, fs') \<Rightarrow> (Inl e, fs')
           | (Inr out, fs') \<Rightarrow>
               (case filter (\<lambda>n. n \<notin> set (bastilleJailNames fs)) (bastilleJailNames fs') of
                  n # ns \<Rightarrow> (Inr n, fs')
                | [] \<Rightarrow> (Inr (importJailName out), fs'))))"

definition bastilleSetupMode :: "engine \<Rightarrow> string \<Rightarrow> string \<Rightarrow> string \<Rightarrow> string \<Rightarrow> fs \<Rightarrow> string on_fs" where
  "bastilleSetupMode run mode extIf tunIf addr fs =
     (if mode \<notin> {''default'', ''firewall'', ''vnet'', ''bridge'', ''shared'', ''linux''} then (Inl ''bad mode'', fs)
      else
        (case run ([bastilleBin, ''setup'', ''-y''] @
             (if mode = ''default'' then [] else [mode]) @
             (if extIf = [] then []
              else if mode = ''vnet'' then [extIf, tunIf, addr]
              else if mode \<in> {''firewall'', ''shared''} then [extIf] else [])) fs of
           (Inl e, fs) \<Rightarrow> (Inl e, fs)
         | (Inr out, fs) \<Rightarrow> (Inr (TrimSpace out), fs)))"

definition bastilleTemplates :: "fs \<Rightarrow> string + (string \<times> string) list" where
  "bastilleTemplates fs =
     (let root = Join [bastilleRoot, ''templates''] in
      case subdirs root fs of
        None \<Rightarrow> Inl ''cannot read the templates''
      | Some projects \<Rightarrow>
          Inr (concat (map (\<lambda>p. case subdirs (Join [root, p]) fs of None \<Rightarrow> [] | Some ts \<Rightarrow> map (Pair p) ts) projects)))"

text \<open>
  Long jobs: the answer is the job and the command that a goroutine runs. The environment given to
  the command is what \<open>exec.Cmd\<close> runs it with: the process's own (\<open>penv\<close>) only where none is given.
\<close>

record long_command =
  lc_job :: string
  lc_args :: "string list"
  lc_env :: "string list"

definition cmd_env :: "string list \<Rightarrow> string list \<Rightarrow> string list" where
  "cmd_env penv given = (if given = [] then penv else given)"

definition commandWithEnv :: "string list \<Rightarrow> (string \<times> string) list \<Rightarrow> string list" where
  "commandWithEnv penv env = cmd_env penv (map (\<lambda>(k, v). k @ ''='' @ v) env)"

definition start_job ::
  "string \<Rightarrow> string list \<Rightarrow> string list \<Rightarrow> jobStore \<Rightarrow> (string + long_command) \<times> jobStore" where
  "start_job uid args env jobs =
     (let (jobs, jobID) = job_create jobs uid in
      if jobID = [] then (Inl ''too many jobs'', jobs)
      else (Inr \<lparr>lc_job = jobID, lc_args = args, lc_env = env\<rparr>, jobs))"

definition bastilleBootstrap :: "string \<Rightarrow> string list \<Rightarrow> string \<Rightarrow> jobStore \<Rightarrow> (string + long_command) \<times> jobStore" where
  "bastilleBootstrap uid penv release jobs = start_job uid [bastilleBin, ''bootstrap'', release] penv jobs"

definition bastilleApply ::
  "string \<Rightarrow> string list \<Rightarrow> string \<Rightarrow> string \<Rightarrow> (string \<times> string) list \<Rightarrow> jobStore \<Rightarrow>
   (string + long_command) \<times> jobStore" where
  "bastilleApply uid penv jail template args jobs =
     start_job uid [bastilleBin, ''template'', jail, template] (commandWithEnv penv args) jobs"
subsection \<open>Configuration\<close>

definition configKeyPattern :: regex where
  "configKeyPattern =
     Seq (Chars (upper_chars @ lower_chars @ digit_chars @ ''._-''))
         (Star (Chars (upper_chars @ lower_chars @ digit_chars @ ''._-'')))"

definition strip_quotes :: "string \<Rightarrow> string" where
  "strip_quotes v =
     (if length v \<ge> 2 \<and> hd v \<in> {CHR 0x22, CHR 0x27} \<and> last v = hd v then butlast (tl v) else v)"

text \<open>A line \<open>key = value;\<close> of \<open>jail.conf\<close>; comments, braces and other lines count as nothing.\<close>

definition conf_entry :: "string \<Rightarrow> (string \<times> string) option" where
  "conf_entry line =
     (let t = TrimSpace line in
      if t = [] \<or> HasPrefix t ''#'' \<or> HasPrefix t ''{'' \<or> HasPrefix t ''}'' then None
      else
        (case cut_at (CHR ''='') t of
           None \<Rightarrow> None
         | Some (k, v) \<Rightarrow>
             if TrimSpace k = [] then None
             else Some (TrimSpace k, strip_quotes (TrimSpace (TrimSuffix (TrimSpace v) '';'')))))"

definition conf_map :: "string list \<Rightarrow> (string, string) fmap" where
  "conf_map lines = fold (\<lambda>(k, v) m. fmupd k v m) (List.map_filter conf_entry lines) fmempty"

definition bastilleConfigGet :: "string \<Rightarrow> fs \<Rightarrow> string + (string, string) fmap" where
  "bastilleConfigGet name fs =
     (if \<not> safePathSegment name then Inl (''bad jail name: '' @ name)
      else
        (case ReadFile (jail_file name ''jail.conf'') fs of
           None \<Rightarrow> Inl ''cannot read jail.conf''
         | Some data \<Rightarrow> Inr (conf_map (split_on (CHR 0x0A) data))))"

definition bastilleConfigSet :: "engine \<Rightarrow> string \<Rightarrow> string \<Rightarrow> string \<Rightarrow> fs \<Rightarrow> unit on_fs" where
  "bastilleConfigSet run name key value fs =
     (if \<not> safePathSegment name then (Inl (''bad jail name: '' @ name), fs)
      else if \<not> match_whole configKeyPattern key then (Inl (''bad key: '' @ key), fs)
      else run_quietly run [bastilleBin, ''config'', name, key, value] fs)"

definition unset_hit :: "string \<Rightarrow> string \<Rightarrow> bool" where
  "unset_hit key line =
     (let t = TrimSpace line in HasPrefix t key \<and> HasPrefix (TrimSpace (TrimPrefix t key)) ''='')"

definition bastilleConfigUnset :: "string \<Rightarrow> string \<Rightarrow> fs \<Rightarrow> unit on_fs" where
  "bastilleConfigUnset name key fs =
     (if \<not> safePathSegment name then (Inl (''bad jail name: '' @ name), fs)
      else
        (case ReadFile (jail_file name ''jail.conf'') fs of
           None \<Rightarrow> (Inl ''cannot read jail.conf'', fs)
         | Some data \<Rightarrow>
             write_conf name (join_with [CHR 0x0A] (filter (\<lambda>l. \<not> unset_hit key l) (split_on (CHR 0x0A) data))) fs))"

subsection \<open>Mounts\<close>

record fstabEntry =
  fe_Device :: string
  fe_Mount :: string
  fe_Fstype :: string
  fe_Options :: string

definition bastilleFstabPath :: "string \<Rightarrow> string" where
  "bastilleFstabPath name = jail_file name ''fstab''"

definition bastilleJailRoot :: "string \<Rightarrow> string" where
  "bastilleJailRoot name = jail_file name ''root''"

definition fstab_entry :: "string \<Rightarrow> fstabEntry option" where
  "fstab_entry line =
     (let line = TrimSpace line; fields = Fields line in
      if line = [] \<or> HasPrefix line ''#'' \<or> length fields < 3 then None
      else Some \<lparr>fe_Device = fields ! 0, fe_Mount = fields ! 1, fe_Fstype = fields ! 2,
             fe_Options = (if length fields \<ge> 4 then trim_chars (fields ! 3) [CHR 0x22, CHR 0x27] else [])\<rparr>)"

definition readFstab :: "string \<Rightarrow> fs \<Rightarrow> string + fstabEntry list" where
  "readFstab name fs =
     (if \<not> safePathSegment name then Inl (''bad jail name: '' @ name)
      else
        (case ReadFile (bastilleFstabPath name) fs of
           None \<Rightarrow> Inl ''cannot read fstab''
         | Some data \<Rightarrow> Inr (List.map_filter fstab_entry (split_on (CHR 0x0A) data))))"

definition writeFstab :: "string \<Rightarrow> string list \<Rightarrow> fs \<Rightarrow> unit on_fs" where
  "writeFstab name lines fs =
     (if \<not> safePathSegment name then (Inl (''bad jail name: '' @ name), fs)
      else
        (case WriteFile (bastilleFstabPath name) (join_with [CHR 0x0A] lines) fs of
           None \<Rightarrow> (Inl ''cannot write fstab'', fs)
         | Some fs \<Rightarrow> (Inr (), fs)))"

definition mustReadFstab :: "string \<Rightarrow> fs \<Rightarrow> string" where
  "mustReadFstab name fs = (case ReadFile (bastilleFstabPath name) fs of None \<Rightarrow> [] | Some data \<Rightarrow> data)"

definition fstab_hit :: "string \<Rightarrow> string \<Rightarrow> string \<Rightarrow> string \<Rightarrow> bool" where
  "fstab_hit name mount fstype line =
     (let fields = Fields (TrimSpace line) in
      length fields \<ge> 3 \<and>
      (fields ! 1 = mount \<or> fields ! 1 = Join [bastilleJailRoot name, TrimPrefix mount ''/'']) \<and>
      (fstype = [] \<or> fields ! 2 = fstype))"

definition bastilleFstabRemove :: "string \<Rightarrow> string \<Rightarrow> string \<Rightarrow> fs \<Rightarrow> bool \<times> fs" where
  "bastilleFstabRemove name mount fstype fs =
     (let lines = split_on (CHR 0x0A) (mustReadFstab name fs) in
      if list_ex (fstab_hit name mount fstype) lines
      then (True, snd (writeFstab name (filter (\<lambda>l. \<not> fstab_hit name mount fstype l) lines) fs))
      else (False, fs))"

record mount_item =
  mi_src :: "string option"
  mi_dst :: string
  mi_fstype :: string
  mi_options :: string
  mi_permanent :: bool

definition mount_src :: "string \<Rightarrow> string option" where
  "mount_src dev = (if dev \<noteq> ''proc'' \<and> dev \<noteq> ''devfs'' then Some dev else None)"

definition mount_of_entry :: "string \<Rightarrow> fstabEntry \<Rightarrow> mount_item" where
  "mount_of_entry jailRoot e =
     \<lparr>mi_src = mount_src (fe_Device e),
      mi_dst = (if HasPrefix (fe_Mount e) jailRoot \<and> TrimPrefix (fe_Mount e) jailRoot \<noteq> []
                then TrimPrefix (fe_Mount e) jailRoot else fe_Mount e),
      mi_fstype = fe_Fstype e, mi_options = fe_Options e, mi_permanent = True\<rparr>"

definition bastilleMountListFstab :: "string \<Rightarrow> fs \<Rightarrow> string + mount_item list" where
  "bastilleMountListFstab name fs = map_sum id (map (mount_of_entry (bastilleJailRoot name))) (readFstab name fs)"

definition parseMountLine :: "string \<Rightarrow> (string \<times> string \<times> string \<times> string) option" where
  "parseMountLine line =
     (case str_index line '' on '' of
        None \<Rightarrow> None
      | Some i \<Rightarrow>
        let rest = drop (i + 4) line in
        (case str_index rest '' ('' of
           None \<Rightarrow> None
         | Some k \<Rightarrow>
             let inner = TrimSuffix (drop (k + 2) rest) '')'';
                 (ty, opts) = (case cut_at (CHR '','') inner of None \<Rightarrow> (inner, []) | Some p \<Rightarrow> p)
             in Some (TrimSpace (take i line), TrimSpace (take k rest), TrimSpace ty, TrimSpace opts)))"

fun merge_mounts :: "string \<Rightarrow> string list \<Rightarrow> (string \<times> string) list \<Rightarrow> mount_item list" where
  "merge_mounts jailRoot [] seen = []"
| "merge_mounts jailRoot (line # lines) seen =
     (case parseMountLine line of
        None \<Rightarrow> merge_mounts jailRoot lines seen
      | Some (dev, mnt, fstype, opts) \<Rightarrow>
        let dst = TrimPrefix mnt jailRoot in
        if \<not> HasPrefix mnt jailRoot \<or> dst = [] \<or> \<not> HasPrefix dst ''/'' \<or> (fstype, dst) \<in> set seen
        then merge_mounts jailRoot lines seen
        else \<lparr>mi_src = mount_src dev, mi_dst = dst, mi_fstype = fstype, mi_options = opts, mi_permanent = False\<rparr> #
             merge_mounts jailRoot lines ((fstype, dst) # seen))"

definition bastilleMountList :: "engine \<Rightarrow> string \<Rightarrow> fs \<Rightarrow> mount_item list on_fs" where
  "bastilleMountList run name fs =
     (if \<not> safePathSegment name then (Inl (''bad jail name: '' @ name), fs)
      else
        (case bastilleMountListFstab name fs of
           Inl e \<Rightarrow> (Inl e, fs)
         | Inr items \<Rightarrow>
           (case run [mountBin] fs of
              (Inl e, fs) \<Rightarrow> (Inr items, fs)
            | (Inr out, fs) \<Rightarrow>
                (Inr (items @ merge_mounts (bastilleJailRoot name) (split_on (CHR 0x0A) out)
                   (map (\<lambda>i. (mi_fstype i, mi_dst i)) items)), fs))))"

definition already_mounted :: "string \<Rightarrow> string \<Rightarrow> string \<Rightarrow> bool" where
  "already_mounted dst fstype data =
     list_ex (\<lambda>line. let fields = Fields (TrimSpace line) in length fields \<ge> 3 \<and> fields ! 2 = fstype \<and> fields ! 1 = dst)
       (split_on (CHR 0x0A) data)"

text \<open>\<open>os.Remove\<close> of a directory that has been found empty.\<close>

definition remove_if_empty :: "string \<Rightarrow> fs \<Rightarrow> fs" where
  "remove_if_empty p fs = (if ReadDir p fs = Some [] \<and> root_words p \<noteq> [] then fmdrop (root_words p) fs else fs)"

definition mount_null :: "engine \<Rightarrow> string \<Rightarrow> string \<Rightarrow> string \<Rightarrow> string \<Rightarrow> fs \<Rightarrow> unit on_fs" where
  "mount_null run name src dst options fs =
     (if src = [] then (Inl ''src missing'', fs)
      else if (case node_at fs (bastilleFstabPath name) of Some FDir \<Rightarrow> True | _ \<Rightarrow> False) then (Inl ''cannot read fstab'', fs)
      else if already_mounted dst ''nullfs'' (mustReadFstab name fs) then (Inl (''mount exists: '' @ dst), fs)
      else if \<not> is_dir_at src fs then (Inl (''no such directory: '' @ src), fs)
      else
        let hostPath = Join [bastilleJailRoot name, TrimPrefix dst ''/''] in
        (case MkdirAll hostPath fs of
           None \<Rightarrow> (Inl ''cannot make the mount point'', fs)
         | Some fs \<Rightarrow>
           (case run [bastilleBin, ''mount'', name, src, dst, ''nullfs'', options, ''0'', ''0''] fs of
              (Inl e, fs) \<Rightarrow> (Inl e, remove_if_empty hostPath fs)
            | (Inr _, fs) \<Rightarrow> (Inr (), fs))))"

definition special_line :: "string \<Rightarrow> string \<Rightarrow> string \<Rightarrow> string" where
  "special_line dst fstype options = fstype @ '' '' @ dst @ '' '' @ fstype @ '' '' @ options @ '' 0 0''"

definition mount_special :: "engine \<Rightarrow> string \<Rightarrow> string \<Rightarrow> string \<Rightarrow> string \<Rightarrow> fs \<Rightarrow> unit on_fs" where
  "mount_special run name dst fstype options fs =
     (case ReadFile (bastilleFstabPath name) fs of
        None \<Rightarrow> (Inl ''cannot read fstab'', fs)
      | Some data \<Rightarrow>
        if already_mounted dst fstype data then (Inl (''mount exists: '' @ dst), fs)
        else
          (case writeFstab name (split_on (CHR 0x0A) data @ [special_line dst fstype options]) fs of
             (Inl e, fs) \<Rightarrow> (Inl e, fs)
           | (Inr _, fs) \<Rightarrow>
             let hostPath = Join [bastilleJailRoot name, TrimPrefix dst ''/''] in
             (case MkdirAll hostPath fs of
                None \<Rightarrow> (Inl ''cannot make the mount point'', snd (bastilleFstabRemove name dst fstype fs))
              | Some fs \<Rightarrow>
                (case run [mountBin, ''-t'', fstype, fstype, hostPath] fs of
                   (Inl e, fs) \<Rightarrow> (Inl e, snd (bastilleFstabRemove name dst fstype fs))
                 | (Inr _, fs) \<Rightarrow> (Inr (), fs)))))"

definition bastilleMountAdd :: "engine \<Rightarrow> string \<Rightarrow> string \<Rightarrow> string \<Rightarrow> string \<Rightarrow> string \<Rightarrow> fs \<Rightarrow> unit on_fs" where
  "bastilleMountAdd run name src dst fstype options fs =
     (let fstype = (if fstype = [] then ''nullfs'' else fstype);
          options = (if options = [] then ''rw'' else options) in
      if \<not> safePathSegment name then (Inl (''bad jail name: '' @ name), fs)
      else if \<not> HasPrefix dst ''/'' then (Inl (''dst must be absolute: '' @ dst), fs)
      else if list_ex (\<lambda>seg. seg = ''..'') (split_on (CHR ''/'') dst) then (Inl (''dst with ..: '' @ dst), fs)
      else if fstype = ''nullfs'' then mount_null run name src dst options fs
      else if fstype \<in> {''procfs'', ''devfs''} then mount_special run name dst fstype options fs
      else (Inl (''bad fstype: '' @ fstype), fs))"

definition bastilleMountRemove :: "engine \<Rightarrow> string \<Rightarrow> string \<Rightarrow> fs \<Rightarrow> unit on_fs" where
  "bastilleMountRemove run name dst fs =
     (if \<not> safePathSegment name then (Inl (''bad jail name: '' @ name), fs)
      else
        (case bastilleUmount run name dst fs of (u, fs) \<Rightarrow>
        (case bastilleFstabRemove name dst [] fs of (removed, fs) \<Rightarrow>
           (case u of Inr _ \<Rightarrow> (Inr (), fs)
            | Inl e \<Rightarrow> if removed then (Inl (''umount failed, entry removed: '' @ e), fs) else (Inr (), fs)))))"

subsection \<open>Handlers\<close>

definition handleBastilleReleases ::
  "(string \<Rightarrow> instant) \<Rightarrow> fs \<Rightarrow> size_cache \<Rightarrow> release_item list reply \<times> size_cache" where
  "handleBastilleReleases mt fs cache = (case bastilleReleases mt fs cache of (r, cache) \<Rightarrow> (jail_reply r, cache))"

definition handleBastilleBootstrap ::
  "string \<Rightarrow> string list \<Rightarrow> string option \<Rightarrow> jobStore \<Rightarrow> long_command reply \<times> jobStore" where
  "handleBastilleBootstrap uid penv body jobs =
     (case body of
        None \<Rightarrow> (Fail 400 ''malformed body'', jobs)
      | Some release \<Rightarrow>
          if release = [] then (Fail 400 ''release missing'', jobs)
          else (case bastilleBootstrap uid penv release jobs of (r, jobs) \<Rightarrow> (jail_reply r, jobs)))"

definition handleBastilleJails :: "engine \<Rightarrow> (string \<Rightarrow> string option) \<Rightarrow> fs \<Rightarrow> jail_item list reply \<times> fs" where
  "handleBastilleJails run rl fs = reply_of (bastilleJails run rl fs)"

text \<open>Start, stop and restart; destroying with the query's \<open>force\<close>.\<close>

definition handleBastilleStart :: "engine \<Rightarrow> string \<Rightarrow> fs \<Rightarrow> unit reply \<times> fs" where
  "handleBastilleStart run name fs = reply_of (bastilleAction run name ''start'' False fs)"

definition handleBastilleStop :: "engine \<Rightarrow> string \<Rightarrow> fs \<Rightarrow> unit reply \<times> fs" where
  "handleBastilleStop run name fs = reply_of (bastilleAction run name ''stop'' False fs)"

definition handleBastilleRestart :: "engine \<Rightarrow> string \<Rightarrow> fs \<Rightarrow> unit reply \<times> fs" where
  "handleBastilleRestart run name fs = reply_of (bastilleAction run name ''restart'' False fs)"

definition handleBastilleDestroy :: "engine \<Rightarrow> string \<Rightarrow> string \<Rightarrow> fs \<Rightarrow> unit reply \<times> fs" where
  "handleBastilleDestroy run name force fs = reply_of (bastilleAction run name ''destroy'' (force = ''1'') fs)"

definition handleBastilleConsole :: "engine \<Rightarrow> string \<Rightarrow> string \<Rightarrow> fs \<Rightarrow> string reply \<times> fs" where
  "handleBastilleConsole run name tail fs = reply_of (bastilleLogs run name (tail_of 100 tail) fs)"

definition handleBastilleCmd :: "engine \<Rightarrow> string \<Rightarrow> string option \<Rightarrow> fs \<Rightarrow> string reply \<times> fs" where
  "handleBastilleCmd run name body fs =
     (case body of
        None \<Rightarrow> (Fail 400 ''malformed body'', fs)
      | Some command \<Rightarrow>
          if command = [] then (Fail 400 ''command missing'', fs) else reply_of (bastilleCmd run name command fs))"

definition handleBastillePkg :: "engine \<Rightarrow> string \<Rightarrow> (string \<times> string list) option \<Rightarrow> fs \<Rightarrow> string reply \<times> fs" where
  "handleBastillePkg run name body fs =
     (case body of
        None \<Rightarrow> (Fail 400 ''malformed body'', fs)
      | Some (action, packages) \<Rightarrow>
          if action = [] then (Fail 400 ''action missing'', fs)
          else if action \<in> {''install'', ''delete''} \<and> packages = [] then (Fail 400 ''packages missing'', fs)
          else reply_of (bastillePkg run name action packages fs))"

definition handleBastilleConfig :: "string \<Rightarrow> fs \<Rightarrow> (string, string) fmap reply" where
  "handleBastilleConfig name fs = jail_reply (bastilleConfigGet name fs)"

definition handleBastilleConfigSet :: "engine \<Rightarrow> string \<Rightarrow> (string \<times> string) option \<Rightarrow> fs \<Rightarrow> unit reply \<times> fs" where
  "handleBastilleConfigSet run name body fs =
     (case body of
        None \<Rightarrow> (Fail 400 ''malformed body'', fs)
      | Some (key, value) \<Rightarrow>
          if key = [] then (Fail 400 ''key missing'', fs) else reply_of (bastilleConfigSet run name key value fs))"

definition handleBastilleConfigUnset :: "string \<Rightarrow> string \<Rightarrow> fs \<Rightarrow> unit reply \<times> fs" where
  "handleBastilleConfigUnset name key fs =
     (if key = [] then (Fail 400 ''key missing'', fs) else reply_of (bastilleConfigUnset name key fs))"

definition handleBastilleMounts :: "engine \<Rightarrow> string \<Rightarrow> fs \<Rightarrow> mount_item list reply \<times> fs" where
  "handleBastilleMounts run name fs = reply_of (bastilleMountList run name fs)"

definition handleBastilleTemplates :: "fs \<Rightarrow> (string \<times> string) list reply" where
  "handleBastilleTemplates fs = jail_reply (bastilleTemplates fs)"

definition handleBastilleApply ::
  "string \<Rightarrow> string list \<Rightarrow> (string \<times> string \<times> (string \<times> string) list) option \<Rightarrow> jobStore \<Rightarrow>
   long_command reply \<times> jobStore" where
  "handleBastilleApply uid penv body jobs =
     (case body of
        None \<Rightarrow> (Fail 400 ''malformed body'', jobs)
      | Some (jail, template, args) \<Rightarrow>
          if jail = [] \<or> template = [] then (Fail 400 ''jail or template missing'', jobs)
          else (case bastilleApply uid penv jail template args jobs of (r, jobs) \<Rightarrow> (jail_reply r, jobs)))"

definition parseRdrBody :: "rdrRule option \<Rightarrow> string + rdrRule" where
  "parseRdrBody body =
     (case body of
        None \<Rightarrow> Inl ''malformed body''
      | Some r \<Rightarrow>
          if rr_Jail r = [] \<or> rr_Proto r = [] \<or> rr_HostPort r \<le> 0 \<or> rr_JailPort r \<le> 0
          then Inl ''jail, proto, hostPort or jailPort missing'' else Inr r)"

definition handleBastilleRdrAdd :: "engine \<Rightarrow> rdrRule option \<Rightarrow> fs \<Rightarrow> unit reply \<times> fs" where
  "handleBastilleRdrAdd run body fs =
     (case parseRdrBody body of
        Inl e \<Rightarrow> (Fail 400 e, fs)
      | Inr r \<Rightarrow> reply_of (bastilleRdrAdd run (rr_Jail r) (rr_Proto r) (rr_HostPort r) (rr_JailPort r) fs))"

definition handleBastilleRdrDelete :: "engine \<Rightarrow> rdrRule option \<Rightarrow> fs \<Rightarrow> unit reply \<times> fs" where
  "handleBastilleRdrDelete run body fs =
     (case parseRdrBody body of
        Inl e \<Rightarrow> (Fail 400 e, fs)
      | Inr r \<Rightarrow> reply_of (bastilleRdrDelete run (rr_Jail r) (rr_Proto r) (rr_HostPort r) (rr_JailPort r) fs))"

definition handleBastilleRdrList :: "engine \<Rightarrow> string \<Rightarrow> fs \<Rightarrow> rdrRule list reply \<times> fs" where
  "handleBastilleRdrList run jail fs = reply_of (bastilleRdrList run jail fs)"

definition handleBastilleSetup ::
  "engine \<Rightarrow> (string \<times> string \<times> string \<times> string) option \<Rightarrow> fs \<Rightarrow> string reply \<times> fs" where
  "handleBastilleSetup run body fs =
     (case body of
        None \<Rightarrow> (Fail 400 ''malformed body'', fs)
      | Some (mode, extIf, tunIf, addr) \<Rightarrow>
          if mode = [] then (Fail 400 ''mode missing'', fs)
          else reply_of (bastilleSetupMode run mode extIf tunIf addr fs))"

definition handleBastilleClone :: "engine \<Rightarrow> string \<Rightarrow> (string \<times> string) option \<Rightarrow> fs \<Rightarrow> unit reply \<times> fs" where
  "handleBastilleClone run name body fs =
     (case body of
        None \<Rightarrow> (Fail 400 ''malformed body'', fs)
      | Some (newName, ip) \<Rightarrow>
          if newName = [] then (Fail 400 ''newName missing'', fs)
          else reply_of (bastilleClone run name newName ip fs))"

definition handleBastilleExport :: "engine \<Rightarrow> (string \<Rightarrow> instant) \<Rightarrow> string \<Rightarrow> fs \<Rightarrow> string reply \<times> fs" where
  "handleBastilleExport run mt name fs = reply_of (bastilleExport run mt name fs)"

definition handleBastilleImport ::
  "engine \<Rightarrow> (string \<Rightarrow> eval_error + string) \<Rightarrow> string option \<Rightarrow> string \<Rightarrow> (string \<times> string \<times> bool) option \<Rightarrow> fs \<Rightarrow>
   (string reply \<times> fs) option" where
  "handleBastilleImport run ev wd dataDir body fs =
     (case body of
        None \<Rightarrow> Some (Fail 400 ''malformed body'', fs)
      | Some (f, release, force) \<Rightarrow>
          if f = [] then Some (Fail 400 ''file missing'', fs)
          else map_option reply_of (bastilleImport run ev wd dataDir f release force fs))"

text \<open>The bodies of the mount handlers: the older field name \<open>dest\<close> counts where \<open>dst\<close> is empty.\<close>

record mount_body =
  mb_Src :: string
  mb_Dest :: string
  mb_Dst :: string
  mb_Fstype :: string
  mb_Options :: string

definition handleBastilleMountAdd ::
  "engine \<Rightarrow> (string \<Rightarrow> eval_error + string) \<Rightarrow> string option \<Rightarrow> string \<Rightarrow> string \<Rightarrow> mount_body option \<Rightarrow> fs \<Rightarrow>
   (unit reply \<times> fs) option" where
  "handleBastilleMountAdd run ev wd dataDir name body fs =
     (case body of
        None \<Rightarrow> Some (Fail 400 ''malformed body'', fs)
      | Some b \<Rightarrow>
        let dst = (if mb_Dst b = [] then mb_Dest b else mb_Dst b) in
        if dst = [] then Some (Fail 400 ''dst missing'', fs)
        else
          (case (if mb_Src b = [] then Some None else validateHostMountSource ev wd dataDir (mb_Src b)) of
             None \<Rightarrow> None
           | Some (Some e) \<Rightarrow> Some (Fail 400 e, fs)
           | Some None \<Rightarrow>
             (case validateContainerPath ''target in the jail'' dst of
                Some e \<Rightarrow> Some (Fail 400 e, fs)
              | None \<Rightarrow> Some (reply_of (bastilleMountAdd run name (mb_Src b) dst (mb_Fstype b) (mb_Options b) fs)))))"

definition handleBastilleMountRemove ::
  "engine \<Rightarrow> string \<Rightarrow> string \<Rightarrow> (string \<times> string) option \<Rightarrow> fs \<Rightarrow> unit reply \<times> fs" where
  "handleBastilleMountRemove run name query body fs =
     (case (if query \<noteq> [] then Some query
            else map_option (\<lambda>(dest, dst). if dst = [] then dest else dst) body) of
        None \<Rightarrow> (Fail 400 ''malformed body'', fs)
      | Some dst \<Rightarrow>
          if dst = [] then (Fail 400 ''dst missing'', fs) else reply_of (bastilleMountRemove run name dst fs))"

definition handleBastilleLimits :: "engine \<Rightarrow> string \<Rightarrow> (int \<times> int \<times> int) option \<Rightarrow> fs \<Rightarrow> unit reply \<times> fs" where
  "handleBastilleLimits run name body fs =
     (case body of
        None \<Rightarrow> (Fail 400 ''malformed body'', fs)
      | Some (memoryMb, cpus, diskMb) \<Rightarrow> reply_of (bastilleApplyLimits run name memoryMb cpus diskMb fs))"

end
