(* ===== verification/JailSafety.thy ===== *)
theory JailSafety
  imports Jails Trash
begin

text \<open>
  What the operations of \<open>Jails\<close> on bastille's files do: taking an entry out of \<open>jail.conf\<close> or out
  of \<open>fstab\<close> removes exactly that entry; what a mount request can write into \<open>fstab\<close>; and the
  deletion of a forwarding rule.
\<close>

subsection \<open>Files of lines\<close>

text \<open>
  A file is a table with one entry per line, lines that are none included. Two operations of the
  code remove entries by dropping the lines that a textual test hits.
\<close>

locale keyed_lines =
  fixes entry :: "string \<Rightarrow> 'e option"
    and hit :: "'p \<Rightarrow> string \<Rightarrow> bool"
    and meant :: "'p \<Rightarrow> 'e \<Rightarrow> bool"
    and proper :: "'p \<Rightarrow> bool"
  assumes no_entry: "entry [] = None"
    and hit_meant: "proper p \<Longrightarrow> entry line = Some e \<Longrightarrow> hit p line \<longleftrightarrow> meant p e"
begin

lemma entries_kept:
  "proper p \<Longrightarrow> List.map_filter entry (filter (\<lambda>l. \<not> hit p l) ls) = filter (\<lambda>e. \<not> meant p e) (List.map_filter entry ls)"
  by (induction ls) (auto simp: List.map_filter_simps hit_meant split: option.splits)

lemma entries_of_joined:
  assumes "list_all (\<lambda>l. c \<notin> set l) ls"
  shows "List.map_filter entry (split_on c (join_with [c] ls)) = List.map_filter entry ls"
proof (cases "ls = []")
  case True
  then show ?thesis by (simp add: List.map_filter_simps no_entry)
next
  case False
  then show ?thesis using assms by (simp add: split_join)
qed

lemma removal_exact:
  assumes "proper p"
  shows "List.map_filter entry (split_on c (join_with [c] (filter (\<lambda>l. \<not> hit p l) (split_on c data)))) =
    filter (\<lambda>e. \<not> meant p e) (List.map_filter entry (split_on c data))"
proof -
  have "list_all (\<lambda>l. c \<notin> set l) (filter (\<lambda>l. \<not> hit p l) (split_on c data))"
    by (auto simp: list_all_iff dest: split_on_parts)
  then show ?thesis using entries_kept [OF assms] by (simp add: entries_of_joined)
qed

lemma addition_exact:
  assumes "list_all (\<lambda>l. c \<notin> set l) new"
  shows "List.map_filter entry (split_on c (join_with [c] (split_on c data @ new))) =
    List.map_filter entry (split_on c data) @ List.map_filter entry new"
proof -
  have "list_all (\<lambda>l. c \<notin> set l) (split_on c data @ new)"
    using assms by (auto simp: list_all_iff dest: split_on_parts)
  then show ?thesis using entries_of_joined by (simp only:) (simp add: List.map_filter_def)
qed

end

subsection \<open>The configuration\<close>

definition conf_key :: "string \<Rightarrow> bool" where
  "conf_key k = (k \<noteq> [] \<and> set k \<subseteq> set (upper_chars @ lower_chars @ digit_chars @ ''._-''))"

lemma conf_key_chars:
  assumes "conf_key k"
  shows "list_all (\<lambda>c. \<not> is_space c) k" "CHR ''='' \<notin> set k"
proof -
  have "list_all (\<lambda>c. \<not> is_space c \<and> c \<noteq> CHR ''='') (upper_chars @ lower_chars @ digit_chars @ ''._-'')" by code_simp
  then have "list_all (\<lambda>c. \<not> is_space c \<and> c \<noteq> CHR ''='') k"
    using assms unfolding conf_key_def list_all_iff by blast
  then show "list_all (\<lambda>c. \<not> is_space c) k" "CHR ''='' \<notin> set k" by (auto simp: list_all_iff)
qed

lemma TrimSpace_word: "list_all (\<lambda>c. \<not> is_space c) w \<Longrightarrow> TrimSpace w = w"
proof -
  assume w: "list_all (\<lambda>c. \<not> is_space c) w"
  then have "dropWhile is_space w = w" "dropWhile is_space (rev w) = rev w"
    by (auto simp: dropWhile_eq_self_iff list_all_iff hd_rev)
  then show ?thesis by (simp add: TrimSpace_def)
qed

lemma TrimSpace_starts:
  assumes "list_all is_space y" "\<not> is_space c"
  shows "HasPrefix (TrimSpace (y @ c # b)) [c]"
proof -
  obtain x z where d: "y @ c # b = x @ TrimSpace (y @ c # b) @ z" "list_all is_space x" "list_all is_space z"
    using TrimSpace_decomp by blast
  let ?t = "TrimSpace (y @ c # b)"
  have "?t \<noteq> []"
  proof
    assume "?t = []"
    then have "c \<in> set x \<union> set z" using d(1) by (metis append_Nil in_set_conv_decomp set_append)
    then show False using d(2,3) assms(2) by (auto simp: list_all_iff)
  qed
  moreover have "\<not> is_space (hd ?t)" using TrimSpace_id_hd [of ?t] calculation by simp
  then have "hd ?t = c"
  proof -
    have "takeWhile is_space (y @ c # b) = y" using assms by (simp add: takeWhile_tail list_all_iff takeWhile_append)
    moreover have "takeWhile is_space (x @ ?t @ z) = x"
      using d(2) \<open>?t \<noteq> []\<close> \<open>\<not> is_space (hd ?t)\<close> by (cases ?t) (auto simp: list_all_iff takeWhile_append)
    ultimately have "x = y" using d(1) by metis
    then show ?thesis using d(1) \<open>?t \<noteq> []\<close> by (cases ?t) auto
  qed
  ultimately show ?thesis by (cases ?t) (auto simp: HasPrefix_def)
qed

lemma unset_hits_the_key:
  assumes "conf_key key" "conf_entry line = Some (k, v)"
  shows "unset_hit key line \<longleftrightarrow> k = key"
proof -
  let ?t = "TrimSpace line"
  obtain a b where ab: "?t = a @ CHR ''='' # b" "CHR ''='' \<notin> set a" "k = TrimSpace a" "?t \<noteq> []"
    using assms(2) by (auto simp: conf_entry_def Let_def cut_at_Some split: if_splits option.splits)
  note key = conf_key_chars [OF assms(1)]
  show ?thesis
  proof
    assume hit: "unset_hit key line"
    then obtain r where r: "?t = key @ r" "HasPrefix (TrimSpace r) ''=''"
      by (auto simp: unset_hit_def Let_def HasPrefix_iff prefix_def TrimPrefix_def)
    obtain x y where x: "r = x @ TrimSpace r @ y" "list_all is_space x" using TrimSpace_decomp by blast
    obtain s where "TrimSpace r = CHR ''='' # s" using r(2) by (auto simp: HasPrefix_iff prefix_def)
    then have t: "?t = (key @ x) @ CHR ''='' # s @ y" using r(1) x(1) by simp
    have "\<not> is_space (CHR ''='')" by code_simp
    then have "CHR ''='' \<notin> set x" using x(2) by (auto simp: list_all_iff)
    then have "CHR ''='' \<notin> set (key @ x)" using key(2) by simp
    then have "cut_at (CHR ''='') ?t = Some (key @ x, s @ y)" using t by (simp only: cut_at_Some simp_thms)
    moreover have "cut_at (CHR ''='') ?t = Some (a, b)" using ab by (simp only: cut_at_Some simp_thms)
    ultimately have "a = key @ x" by simp
    then show "k = key" using TrimSpace_pad [of "[]" x key] x(2) ab(3) TrimSpace_word [OF key(1)] by simp
  next
    assume "k = key"
    then obtain x y where xy: "a = x @ key @ y" "list_all is_space x" "list_all is_space y"
      using TrimSpace_decomp [of a] ab(3) by auto
    have "\<not> is_space (hd ?t)" using TrimSpace_id_hd [of ?t] ab(4) by simp
    then have "x = []" using ab(1) xy by (cases x) auto
    then have t: "?t = key @ y @ CHR ''='' # b" using ab(1) xy(1) by simp
    then have "TrimPrefix ?t key = y @ CHR ''='' # b" by (simp add: TrimPrefix_def HasPrefix_iff)
    moreover have "\<not> is_space (CHR ''='')" by code_simp
    ultimately show "unset_hit key line"
      using TrimSpace_starts [OF xy(3)] t by (simp add: unset_hit_def Let_def HasPrefix_iff)
  qed
qed

interpretation conf: keyed_lines conf_entry unset_hit "\<lambda>key e. fst e = key" conf_key
proof unfold_locales
  show "conf_entry [] = None" by (simp add: conf_entry_def)
next
  fix key line and e :: "string \<times> string"
  assume "conf_key key" "conf_entry line = Some e"
  then show "unset_hit key line \<longleftrightarrow> fst e = key" using unset_hits_the_key by (cases e) simp
qed

lemma conf_fold_drop:
  "fold (\<lambda>(k, v) m. fmupd k v m) (filter (\<lambda>e. fst e \<noteq> key) es) (fmdrop key m) =
   fmdrop key (fold (\<lambda>(k, v) m. fmupd k v m) es m)"
proof (induction es arbitrary: m)
  case (Cons e es)
  obtain k v where e: "e = (k, v)" by fastforce
  show ?case
  proof (cases "k = key")
    case True
    then have "fmdrop key (fmupd k v m) = fmdrop key m" by (auto intro: fmap_ext)
    then show ?thesis using True e Cons.IH [of m] Cons.IH [of "fmupd k v m"] by simp
  next
    case False
    then have "fmupd k v (fmdrop key m) = fmdrop key (fmupd k v m)" by (auto intro: fmap_ext)
    then show ?thesis using False e Cons.IH [of "fmupd k v m"] by simp
  qed
qed simp

lemma WriteFile_ReadFile: "WriteFile p data fs = Some fs' \<Longrightarrow> ReadFile p fs' = Some data"
  by (simp add: WriteFile_def put_file_lookup ReadFile_def node_at_def)

text \<open>
  Removing a configuration key removes exactly that key. For a key of the form that setting
  demands, the configuration read afterwards is the one before without the key, however often the
  file defines it and whatever other text it holds; no other file is touched.
\<close>

theorem config_unset_exact:
  assumes "handleBastilleConfig name fs = Reply m" "handleBastilleConfigUnset name key fs = (r, fs')" "r = Reply ()"
    "conf_key key"
  shows "handleBastilleConfig name fs' = Reply (fmdrop key m) \<and>
    (\<forall>x. x \<noteq> root_words (jail_file name ''jail.conf'') \<longrightarrow> fmlookup fs' x = fmlookup fs x)"
proof -
  have safe: "safePathSegment name" and "key \<noteq> []"
    using assms(1,4) by (auto simp: handleBastilleConfig_def bastilleConfigGet_def jail_reply_def conf_key_def split: if_splits)
  obtain data where data: "ReadFile (jail_file name ''jail.conf'') fs = Some data"
    and m: "m = conf_map (split_on (CHR 0x0A) data)"
    using assms(1) safe by (auto simp: handleBastilleConfig_def bastilleConfigGet_def jail_reply_def split: option.splits)
  let ?kept = "join_with [CHR 0x0A] (filter (\<lambda>l. \<not> unset_hit key l) (split_on (CHR 0x0A) data))"
  have w: "WriteFile (jail_file name ''jail.conf'') ?kept fs = Some fs'"
    using assms(2,3) safe data \<open>key \<noteq> []\<close>
    by (auto simp: handleBastilleConfigUnset_def bastilleConfigUnset_def reply_of_def jail_reply_def write_conf_def split: option.splits)
  have "conf_map (split_on (CHR 0x0A) ?kept) = fmdrop key m"
    using conf_fold_drop [of key _ fmempty] conf.removal_exact [OF assms(4), of "CHR 0x0A" data]
    by (simp add: conf_map_def m)
  then have "handleBastilleConfig name fs' = Reply (fmdrop key m)"
    using safe WriteFile_ReadFile [OF w] by (simp add: handleBastilleConfig_def bastilleConfigGet_def jail_reply_def)
  moreover have "\<forall>x. x \<noteq> root_words (jail_file name ''jail.conf'') \<longrightarrow> fmlookup fs' x = fmlookup fs x"
    using w put_file_lookup by (auto simp: WriteFile_def)
  ultimately show ?thesis by blast
qed
subsection \<open>The mounts\<close>

definition fstab_meant :: "string \<times> string \<times> string \<Rightarrow> fstabEntry \<Rightarrow> bool" where
  "fstab_meant = (\<lambda>(name, mount, fstype) e.
     (fe_Mount e = mount \<or> fe_Mount e = Join [bastilleJailRoot name, TrimPrefix mount ''/'']) \<and>
     (fstype = [] \<or> fe_Fstype e = fstype))"

interpretation fstab: keyed_lines fstab_entry "\<lambda>(name, mount, fstype). fstab_hit name mount fstype" fstab_meant "\<lambda>_. True"
proof unfold_locales
  show "fstab_entry [] = None" by (simp add: fstab_entry_def)
next
  fix p line and e :: fstabEntry
  assume "fstab_entry line = Some e"
  then show "(case p of (name, mount, fstype) \<Rightarrow> fstab_hit name mount fstype) line \<longleftrightarrow> fstab_meant p e"
    by (cases p) (auto simp: fstab_entry_def fstab_hit_def fstab_meant_def Let_def split: if_splits)
qed

lemma readFstab_file:
  "readFstab name fs = Inr es \<longleftrightarrow>
   safePathSegment name \<and> (\<exists>data. fmlookup fs (root_words (bastilleFstabPath name)) = Some (FFile data) \<and>
     es = List.map_filter fstab_entry (split_on (CHR 0x0A) data))"
  by (auto simp: readFstab_def ReadFile_def node_at_def split: option.splits fnode.splits)

lemma writeFstab_done:
  assumes "fs_ok fs" "safePathSegment name" "fmlookup fs (root_words (bastilleFstabPath name)) = Some (FFile data)"
  obtains fs1 where "writeFstab name ls fs = (Inr (), fs1)" "fs_ok fs1"
    "fs1 = fmupd (root_words (bastilleFstabPath name)) (FFile (join_with [CHR 0x0A] ls)) fs"
proof -
  let ?p = "root_words (bastilleFstabPath name)"
  have ne: "?p \<noteq> []" using assms(1,3) by (auto simp: fs_ok_def)
  then have "fmlookup fs (butlast ?p) = Some FDir" using fs_ok_butlast [OF assms(1)] assms(3) by simp
  then have put: "put_file ?p (join_with [CHR 0x0A] ls) fs = Some (fmupd ?p (FFile (join_with [CHR 0x0A] ls)) fs)"
    using ne assms(3) by (simp add: put_file_def)
  then have "fs_ok (fmupd ?p (FFile (join_with [CHR 0x0A] ls)) fs)" using put_file_ok [OF assms(1) _ put] by simp
  then show ?thesis using that put assms(2) by (simp add: writeFstab_def WriteFile_def)
qed

lemma fstab_remove_exact:
  assumes "fs_ok fs" "readFstab name fs = Inr es" "bastilleFstabRemove name mount fstype fs = (b, fs')"
  shows "readFstab name fs' = Inr (filter (\<lambda>e. \<not> fstab_meant (name, mount, fstype) e) es)"
proof -
  let ?hit = "fstab_hit name mount fstype"
  obtain data where data: "safePathSegment name" "fmlookup fs (root_words (bastilleFstabPath name)) = Some (FFile data)"
    "es = List.map_filter fstab_entry (split_on (CHR 0x0A) data)" using assms(2) readFstab_file by blast
  have must: "mustReadFstab name fs = data" by (simp add: mustReadFstab_def ReadFile_def node_at_def data)
  note removed = fstab.removal_exact [where p = "(name, mount, fstype)" and c = "CHR 0x0A" and data = data, simplified]
  show ?thesis
  proof (cases "list_ex ?hit (split_on (CHR 0x0A) data)")
    case True
    obtain fs1 where "writeFstab name (filter (\<lambda>l. \<not> ?hit l) (split_on (CHR 0x0A) data)) fs = (Inr (), fs1)"
      "fs1 = fmupd (root_words (bastilleFstabPath name)) (FFile (join_with [CHR 0x0A] (filter (\<lambda>l. \<not> ?hit l) (split_on (CHR 0x0A) data)))) fs"
      using writeFstab_done [OF assms(1) data(1,2)] by metis
    then show ?thesis using assms(3) True removed data by (auto simp: bastilleFstabRemove_def must readFstab_file)
  next
    case False
    then have "filter (\<lambda>l. \<not> ?hit l) (split_on (CHR 0x0A) data) = split_on (CHR 0x0A) data"
      by (auto simp: list_ex_iff intro: filter_True)
    then show ?thesis using assms False removed data by (simp add: bastilleFstabRemove_def must join_split_on)
  qed
qed

lemma join_inner: "xs \<noteq> [] \<Longrightarrow> join_with [c] (xs @ [a @ c # b]) = join_with [c] (xs @ [a, b])"
  by (induction "[c]" xs rule: join_with.induct) auto

lemma MkdirAll_keeps: "MkdirAll p fs = Some fs' \<Longrightarrow> fmlookup fs x = Some n \<Longrightarrow> fmlookup fs' x = Some n"
  using kept_mkdir [of "[]" "root_words p" fs fs'] by (auto simp: MkdirAll_def kept_def)

text \<open>
  What a mount request for a special file system leaves in the table: the entries of the new text
  where it succeeds, and those that the removal of the target does not mean where it fails. The
  system's mount command is taken to change no file.
\<close>

lemma mount_special_entries:
  assumes "fs_ok fs" "readFstab name fs = Inr es" "\<not> already_mounted dst fstype (mustReadFstab name fs)"
    "\<And>args g. snd (run args g) = g" "mount_special run name dst fstype options fs = (r, fs')"
    "List.map_filter fstab_entry (split_on (CHR 0x0A) (special_line dst fstype options)) = new"
  shows "readFstab name fs' =
    Inr (case r of Inr _ \<Rightarrow> es @ new | Inl _ \<Rightarrow> filter (\<lambda>e. \<not> fstab_meant (name, dst, fstype) e) (es @ new))"
proof -
  let ?p = "root_words (bastilleFstabPath name)"
  let ?l = "special_line dst fstype options"
  obtain data where data: "safePathSegment name" "fmlookup fs ?p = Some (FFile data)"
    "es = List.map_filter fstab_entry (split_on (CHR 0x0A) data)" using assms(2) readFstab_file by blast
  have read: "ReadFile (bastilleFstabPath name) fs = Some data" by (simp add: ReadFile_def node_at_def data)
  then have must: "mustReadFstab name fs = data" by (simp add: mustReadFstab_def)
  obtain fs1 where w: "writeFstab name (split_on (CHR 0x0A) data @ [?l]) fs = (Inr (), fs1)" "fs_ok fs1"
    "fmlookup fs1 ?p = Some (FFile (join_with [CHR 0x0A] (split_on (CHR 0x0A) data @ [?l])))"
    using writeFstab_done [OF assms(1) data(1,2)] by (metis fmupd_lookup)
  have "split_on (CHR 0x0A) (join_with [CHR 0x0A] (split_on (CHR 0x0A) data @ [?l])) =
      split_on (CHR 0x0A) data @ split_on (CHR 0x0A) ?l" for data
  proof -
    have "join_with [c] (xs @ [y]) = join_with [c] xs @ c # y" if "xs \<noteq> []" for c xs and y :: string
      using that join_snoc [of xs "[c]" y] by simp
    moreover have "split_on c (xs @ c # y) = split_on c xs @ split_on c y" for c xs and y :: string
      by (induction xs) (auto split: list.splits)
    ultimately show ?thesis by (simp add: join_split_on)
  qed
  then have es1: "readFstab name fs1 = Inr (es @ new)"
    using data assms(6) by (simp add: w(3) readFstab_file List.map_filter_def)
  have quiet: "run args g = (fst (run args g), g)" for args g using assms(4) by (metis prod.collapse)
  let ?host = "Join [bastilleJailRoot name, TrimPrefix dst ''/'']"
  show ?thesis
  proof (cases "MkdirAll ?host fs1")
    case None
    then have "bastilleFstabRemove name dst fstype fs1 = (fst (bastilleFstabRemove name dst fstype fs1), fs')" "\<exists>e. r = Inl e"
      using assms(3,5) by (auto simp: mount_special_def read w must)
    then show ?thesis using fstab_remove_exact [OF w(2) es1] by fastforce
  next
    case (Some fs2)
    have es2: "readFstab name fs2 = Inr (es @ new)"
      using es1 MkdirAll_keeps [OF Some] by (auto simp: readFstab_file)
    note ok2 = MkdirAll_ok [OF w(2) Some]
    show ?thesis
    proof (cases "fst (run [mountBin, ''-t'', fstype, fstype, ?host] fs2)")
      case (Inl e)
      then have "run [mountBin, ''-t'', fstype, fstype, ?host] fs2 = (Inl e, fs2)" using quiet by metis
      then have "bastilleFstabRemove name dst fstype fs2 = (fst (bastilleFstabRemove name dst fstype fs2), fs')" "r = Inl e"
        using assms(3,5) Some by (auto simp: mount_special_def read w must)
      then show ?thesis using fstab_remove_exact [OF ok2 es2] by fastforce
    next
      case (Inr out)
      then have "run [mountBin, ''-t'', fstype, fstype, ?host] fs2 = (Inr out, fs2)" using quiet by metis
      then have "r = Inr ()" "fs' = fs2" using assms(3,5) Some by (auto simp: mount_special_def read w must)
      then show ?thesis using es2 by simp
    qed
  qed
qed
lemma split_inner: "split_on c (xs @ c # y) = split_on c xs @ split_on c y"
  by (induction xs) (auto split: list.splits)

lemma accepted_target:
  assumes "validateContainerPath label dst = None"
  shows "HasPrefix dst ''/''" "\<not> list_ex (\<lambda>seg. seg = ''..'') (split_on (CHR ''/'') dst)" "CHR 0x0A \<notin> set dst" "dst \<noteq> []"
proof -
  have "dst \<noteq> []" "\<not> ContainsAny dst [CHR 0x00, CHR 0x0D, CHR 0x0A]" "isPosixAbs dst"
    "\<not> list_ex (\<lambda>seg. seg = ''..'') (split_on (CHR ''/'') dst)"
    using assms by (auto simp: validateContainerPath_def split: if_splits)
  then show "HasPrefix dst ''/''" "\<not> list_ex (\<lambda>seg. seg = ''..'') (split_on (CHR ''/'') dst)" "CHR 0x0A \<notin> set dst" "dst \<noteq> []"
    by (auto simp: isPosixAbs_def ContainsAny_iff)
qed

text \<open>A request for a special file system, once it has passed the checks of the handler.\<close>

lemma special_request:
  assumes "readFstab name fs = Inr es" "validateContainerPath ''target in the jail'' dst = None" "fstype \<in> {''procfs'', ''devfs''}"
    "mb_Src b = []" "mb_Dst b = dst" "mb_Fstype b = fstype" "mb_Options b \<noteq> []"
  shows "handleBastilleMountAdd run ev wd dataDir name (Some b) fs =
    Some (reply_of (mount_special run name dst fstype (mb_Options b) fs))"
  using assms(1,3-7) accepted_target [OF assms(2)] assms(2)
  by (auto simp: handleBastilleMountAdd_def bastilleMountAdd_def readFstab_def Let_def split: if_splits)

text \<open>
  The options of a mount request write whatever mount one likes. A request for a \<open>procfs\<close> or
  \<open>devfs\<close> mount has no source to be checked, and its options go into the table as they are: with a
  line break in them, any entry can be appended, for instance a \<open>nullfs\<close> mount of a host directory
  that the source check refuses. The entry stays even if the mount itself fails.
\<close>

theorem mount_options_inject:
  assumes "fs_ok fs" "readFstab name fs = Inr es" "validateContainerPath ''target in the jail'' dst = None"
    "fstype \<in> {''procfs'', ''devfs''}" "\<not> already_mounted dst fstype (mustReadFstab name fs)"
    "\<And>args g. snd (run args g) = g"
    "CHR 0x0A \<notin> set opts \<union> set line" "fstab_entry (line @ '' 0 0'') = Some e" "fe_Fstype e \<noteq> fstype"
  shows "\<exists>r fs' es'. handleBastilleMountAdd run ev wd dataDir name
      (Some \<lparr>mb_Src = [], mb_Dest = [], mb_Dst = dst, mb_Fstype = fstype, mb_Options = opts @ CHR 0x0A # line\<rparr>) fs = Some (r, fs') \<and>
    readFstab name fs' = Inr es' \<and> e \<in> set es'"
proof -
  let ?o = "opts @ CHR 0x0A # line"
  obtain r fs' where m: "mount_special run name dst fstype ?o fs = (r, fs')" by fastforce
  have "split_on (CHR 0x0A) (special_line dst fstype ?o) =
      split_on (CHR 0x0A) (fstype @ '' '' @ dst @ '' '' @ fstype @ '' '' @ opts) @ split_on (CHR 0x0A) (line @ '' 0 0'')"
    using split_inner [of "CHR 0x0A" "fstype @ '' '' @ dst @ '' '' @ fstype @ '' '' @ opts" "line @ '' 0 0''"]
    by (simp add: special_line_def)
  moreover have "split_on (CHR 0x0A) (line @ '' 0 0'') = [line @ '' 0 0'']" using assms(7) by (intro split_on_word) auto
  ultimately have new: "e \<in> set (List.map_filter fstab_entry (split_on (CHR 0x0A) (special_line dst fstype ?o)))"
    using assms(8) by (force simp: List.map_filter_def)
  have "\<not> fstab_meant (name, dst, fstype) e" using assms(4,9) by (auto simp: fstab_meant_def)
  then have "\<exists>es'. readFstab name fs' = Inr es' \<and> e \<in> set es'"
    using mount_special_entries [OF assms(1,2,5,6) m refl] new by (cases r) auto
  then show ?thesis
    using special_request [OF assms(2-4), of "\<lparr>mb_Src = [], mb_Dest = [], mb_Dst = dst, mb_Fstype = fstype, mb_Options = ?o\<rparr>"] m
    by (simp add: reply_of_def)
qed

text \<open>
  A mount that fails is not always taken back. The entries afterwards are those before, less
  every entry of the same file system whose mount point is the target as the host sees it: the
  check against doubled entries knows only the form inside the jail, the removal knows both.
\<close>

theorem failed_mount_rollback:
  assumes "fs_ok fs" "readFstab name fs = Inr es" "validateContainerPath ''target in the jail'' dst = None"
    "fstype \<in> {''procfs'', ''devfs''}" "\<not> already_mounted dst fstype (mustReadFstab name fs)"
    "\<And>args g. snd (run args g) = g" "list_all (\<lambda>c. \<not> is_space c) dst"
    "CHR 0x0A \<notin> set opts" "opts \<noteq> []"
    "handleBastilleMountAdd run ev wd dataDir name
      (Some \<lparr>mb_Src = [], mb_Dest = [], mb_Dst = dst, mb_Fstype = fstype, mb_Options = opts\<rparr>) fs = Some (Fail code m, fs')"
  shows "readFstab name fs' =
    Inr (filter (\<lambda>e. \<not> (fe_Fstype e = fstype \<and> fe_Mount e = Join [bastilleJailRoot name, TrimPrefix dst ''/''])) es)"
proof -
  obtain r fs1 where mr: "mount_special run name dst fstype opts fs = (r, fs1)" by fastforce
  have h: "Fail code m = jail_reply r" "fs' = fs1"
    using special_request [OF assms(2-4), of "\<lparr>mb_Src = [], mb_Dest = [], mb_Dst = dst, mb_Fstype = fstype, mb_Options = opts\<rparr>"]
      mr assms(9,10) by (simp_all add: reply_of_def)
  then obtain err where r: "r = Inl err" by (cases r) (auto simp: jail_reply_def)
  let ?l = "special_line dst fstype opts"
  have ty: "list_all (\<lambda>c. \<not> is_space c) fstype" "fstype \<noteq> []" "CHR 0x0A \<notin> set fstype" "\<not> HasPrefix fstype ''#''"
    using assms(4) by (auto simp: HasPrefix_def is_space_def)
  have d: "dst \<noteq> []" "CHR 0x0A \<notin> set dst" using accepted_target [OF assms(3)] by auto
  have sp: "is_space (CHR '' '')" by code_simp
  have fields: "Fields ?l = fstype # dst # fstype # Fields (opts @ '' 0 0'')"
    using Fields_word_space [OF ty(1,2) sp] Fields_word_space [OF assms(7) d(1) sp] by (simp add: special_line_def)
  have "CHR 0x0A \<notin> set ?l" using ty d assms(8) by (auto simp: special_line_def)
  then have one: "split_on (CHR 0x0A) ?l = [?l]" by (rule split_on_word)
  have new: "\<forall>e \<in> set (List.map_filter fstab_entry [?l]). fstab_meant (name, dst, fstype) e"
    using fields by (auto simp: List.map_filter_simps fstab_entry_def fstab_meant_def Let_def split: if_splits)
  have old: "\<not> (fe_Fstype e = fstype \<and> fe_Mount e = dst)" if in_es: "e \<in> set es" for e
  proof
    assume e: "fe_Fstype e = fstype \<and> fe_Mount e = dst"
    obtain data where data: "fmlookup fs (root_words (bastilleFstabPath name)) = Some (FFile data)"
      "es = List.map_filter fstab_entry (split_on (CHR 0x0A) data)" using assms(2) readFstab_file by blast
    then obtain line where "line \<in> set (split_on (CHR 0x0A) data)" "fstab_entry line = Some e"
      using in_es by (auto simp: List.map_filter_def)
    then have "already_mounted dst fstype data"
      using e by (auto simp: already_mounted_def list_ex_iff fstab_entry_def Let_def split: if_splits intro!: bexI)
    then show False using assms(5) data(1) by (simp add: mustReadFstab_def ReadFile_def node_at_def)
  qed
  have "filter (\<lambda>e. \<not> fstab_meant (name, dst, fstype) e) (List.map_filter fstab_entry [?l]) = []"
    using new by (auto simp: filter_empty_conv)
  then have "readFstab name fs' = Inr (filter (\<lambda>e. \<not> fstab_meant (name, dst, fstype) e) es)"
    using mount_special_entries [OF assms(1,2,5,6) mr, of "List.map_filter fstab_entry [?l]"] one r h(2) by simp
  moreover have "filter (\<lambda>e. \<not> fstab_meant (name, dst, fstype) e) es =
      filter (\<lambda>e. \<not> (fe_Fstype e = fstype \<and> fe_Mount e = Join [bastilleJailRoot name, TrimPrefix dst ''/''])) es"
    using old ty(2) by (intro filter_cong) (auto simp: fstab_meant_def)
  ultimately show ?thesis by simp
qed
subsection \<open>An example\<close>

lemma fs_ok_list:
  assumes "map_of l [] = Some FDir"
    "list_all (\<lambda>(ws, n). list_all real_word ws \<and> (ws \<noteq> [] \<longrightarrow> map_of l (butlast ws) = Some FDir)) l"
  shows "fs_ok (fmap_of_list l)"
proof -
  have "list_all real_word ws \<and> (ws \<noteq> [] \<longrightarrow> map_of l (butlast ws) = Some FDir)" if "map_of l ws \<noteq> None" for ws
    using that assms(2) by (auto simp: list_all_iff dest: map_of_SomeD)
  then show ?thesis using assms(1) unfolding fs_ok_def by (auto simp: fmlookup_of_list) (metis butlast_snoc option.discI snoc_eq_iff_butlast)
qed

definition j_base :: "string list" where
  "j_base = [''usr'', ''local'', ''bastille'', ''jails'', ''box'']"

definition j_conf :: string where
  "j_conf = ''box {'' @ [CHR 0x0A] @ ''  allow.mount = 1;'' @ [CHR 0x0A] @ ''  allow.mount.procfs = 1;'' @ [CHR 0x0A] @ ''}''"

definition j_host_proc :: string where
  "j_host_proc = ''proc /usr/local/bastille/jails/box/root/proc procfs rw 0 0''"

definition j_tree :: "(string list \<times> fnode) list" where
  "j_tree =
     map (\<lambda>n. (take n j_base, FDir)) [0..<6] @
     [(j_base @ [''root''], FDir), (j_base @ [''jail.conf''], FFile j_conf), (j_base @ [''fstab''], FFile j_host_proc)]"

definition j_fs :: fs where
  "j_fs = fmap_of_list j_tree"

lemma j_fs_ok: "fs_ok j_fs"
  unfolding j_fs_def by (rule fs_ok_list; code_simp)

lemma j_paths:
  "root_words (jail_file ''box'' ''jail.conf'') = j_base @ [''jail.conf'']"
  "root_words (bastilleFstabPath ''box'') = j_base @ [''fstab'']"
  by code_simp+

lemma j_files:
  "fmlookup j_fs (j_base @ [''jail.conf'']) = Some (FFile j_conf)"
  "fmlookup j_fs (j_base @ [''fstab'']) = Some (FFile j_host_proc)"
  unfolding j_fs_def fmlookup_of_list by code_simp+

lemma j_safe: "safePathSegment ''box''"
  by code_simp

theorem config_unset_exact_witness:
  "\<exists>m fs'. handleBastilleConfig ''box'' j_fs = Reply m \<and> fmlookup m ''allow.mount'' = Some ''1'' \<and>
     handleBastilleConfigUnset ''box'' ''allow.mount'' j_fs = (Reply (), fs') \<and>
     handleBastilleConfig ''box'' fs' = Reply (fmdrop ''allow.mount'' m) \<and>
     fmlookup (fmdrop ''allow.mount'' m) ''allow.mount.procfs'' = Some ''1''"
proof -
  define m where "m = conf_map (split_on (CHR 0x0A) j_conf)"
  have read: "ReadFile (jail_file ''box'' ''jail.conf'') j_fs = Some j_conf"
    by (simp add: ReadFile_def node_at_def j_paths j_files)
  then have m: "handleBastilleConfig ''box'' j_fs = Reply m"
    by (simp add: handleBastilleConfig_def bastilleConfigGet_def jail_reply_def j_safe m_def)
  have "List.map_filter conf_entry (split_on (CHR 0x0A) j_conf) = [(''allow.mount'', ''1''), (''allow.mount.procfs'', ''1'')]"
    by code_simp
  then have l: "fmlookup m ''allow.mount'' = Some ''1''" "fmlookup m ''allow.mount.procfs'' = Some ''1''"
    by (simp_all add: m_def conf_map_def)
  have "fmlookup j_fs j_base = Some FDir" unfolding j_fs_def fmlookup_of_list by code_simp
  then have "\<exists>fs'. WriteFile (jail_file ''box'' ''jail.conf'') data j_fs = Some fs'" for data
    by (simp add: WriteFile_def put_file_def j_paths j_files)
  then obtain fs' where "WriteFile (jail_file ''box'' ''jail.conf'')
      (join_with [CHR 0x0A] (filter (\<lambda>l. \<not> unset_hit ''allow.mount'' l) (split_on (CHR 0x0A) j_conf))) j_fs = Some fs'" by blast
  then have u: "handleBastilleConfigUnset ''box'' ''allow.mount'' j_fs = (Reply (), fs')"
    using read by (simp add: handleBastilleConfigUnset_def bastilleConfigUnset_def reply_of_def jail_reply_def write_conf_def j_safe)
  have "conf_key ''allow.mount''" by code_simp
  then show ?thesis using config_unset_exact [OF m u refl] m l u by auto
qed

definition ex_mount :: "string \<Rightarrow> string \<Rightarrow> string \<Rightarrow> mount_body" where
  "ex_mount src fstype options = \<lparr>mb_Src = src, mb_Dest = [], mb_Dst = ''/proc'', mb_Fstype = fstype, mb_Options = options\<rparr>"

lemma j_mounts:
  "readFstab ''box'' j_fs = Inr [\<lparr>fe_Device = ''proc'', fe_Mount = ''/usr/local/bastille/jails/box/root/proc'', fe_Fstype = ''procfs'', fe_Options = ''rw''\<rparr>]"
  "validateContainerPath ''target in the jail'' ''/proc'' = None"
  "\<not> already_mounted ''/proc'' ''procfs'' (mustReadFstab ''box'' j_fs)"
proof -
  have "List.map_filter fstab_entry (split_on (CHR 0x0A) j_host_proc) =
      [\<lparr>fe_Device = ''proc'', fe_Mount = ''/usr/local/bastille/jails/box/root/proc'', fe_Fstype = ''procfs'', fe_Options = ''rw''\<rparr>]"
    by code_simp
  then show "readFstab ''box'' j_fs = Inr [\<lparr>fe_Device = ''proc'', fe_Mount = ''/usr/local/bastille/jails/box/root/proc'', fe_Fstype = ''procfs'', fe_Options = ''rw''\<rparr>]"
    by (simp add: readFstab_file j_safe j_paths j_files)
  have "mustReadFstab ''box'' j_fs = j_host_proc" by (simp add: mustReadFstab_def ReadFile_def node_at_def j_paths j_files)
  moreover have "\<not> already_mounted ''/proc'' ''procfs'' j_host_proc" by code_simp
  ultimately show "\<not> already_mounted ''/proc'' ''procfs'' (mustReadFstab ''box'' j_fs)" by simp
  show "validateContainerPath ''target in the jail'' ''/proc'' = None" by code_simp
qed

theorem mount_options_inject_witness:
  "(\<exists>e. handleBastilleMountAdd (\<lambda>args g. (Inl ''busy'', g)) linkless None ''/opt/irix/data'' ''box'' (Some (ex_mount ''/etc'' ''nullfs'' ''rw'')) j_fs = Some (Fail 400 e, j_fs)) \<and>
   (\<exists>r fs' es. handleBastilleMountAdd (\<lambda>args g. (Inl ''busy'', g)) linkless None ''/opt/irix/data'' ''box''
       (Some (ex_mount [] ''procfs'' (''rw'' @ CHR 0x0A # ''/etc /mnt nullfs rw''))) j_fs = Some (r, fs') \<and>
     readFstab ''box'' fs' = Inr es \<and>
     \<lparr>fe_Device = ''/etc'', fe_Mount = ''/mnt'', fe_Fstype = ''nullfs'', fe_Options = ''rw''\<rparr> \<in> set es)"
proof -
  have "TrimSpace ''/etc'' = ''/etc''" "isPosixAbs ''/etc''" "checkHostPathAllowed None ''/opt/irix/data'' ''/etc'' \<noteq> None"
    "\<not> ContainsAny ''/etc'' [CHR 0x00, CHR 0x0D, CHR 0x0A]" by code_simp+
  then have "\<exists>e. validateHostMountSource linkless None ''/opt/irix/data'' ''/etc'' = Some (Some e)"
    by (auto simp: validateHostMountSource_def)
  then have "\<exists>e. handleBastilleMountAdd (\<lambda>args g. (Inl ''busy'', g)) linkless None ''/opt/irix/data'' ''box'' (Some (ex_mount ''/etc'' ''nullfs'' ''rw'')) j_fs = Some (Fail 400 e, j_fs)"
    by (auto simp: handleBastilleMountAdd_def ex_mount_def)
  moreover have "fstab_entry (''/etc /mnt nullfs rw'' @ '' 0 0'') =
      Some \<lparr>fe_Device = ''/etc'', fe_Mount = ''/mnt'', fe_Fstype = ''nullfs'', fe_Options = ''rw''\<rparr>" by code_simp
  ultimately show ?thesis
    using mount_options_inject [OF j_fs_ok j_mounts(1,2) _ j_mounts(3), of "\<lambda>args g. (Inl ''busy'', g)" "''rw''" "''/etc /mnt nullfs rw''"]
    by (auto simp: ex_mount_def)
qed

theorem failed_mount_rollback_witness:
  "\<exists>code m fs'. handleBastilleMountAdd (\<lambda>args g. (Inl ''busy'', g)) linkless None ''/opt/irix/data'' ''box''
      (Some (ex_mount [] ''procfs'' ''rw'')) j_fs = Some (Fail code m, fs') \<and> readFstab ''box'' fs' = Inr []"
proof -
  let ?b = "ex_mount [] ''procfs'' ''rw''" and ?run = "\<lambda>args g. (Inl ''busy'', g)"
  obtain r fs' where r: "mount_special ?run ''box'' ''/proc'' ''procfs'' ''rw'' j_fs = (r, fs')" by fastforce
  have "\<exists>e. r = Inl e"
    using r by (auto simp: mount_special_def split: option.splits if_splits prod.splits sum.splits)
  then obtain code m where h: "handleBastilleMountAdd ?run linkless None ''/opt/irix/data'' ''box'' (Some ?b) j_fs = Some (Fail code m, fs')"
    using special_request [OF j_mounts(1,2), of "''procfs''" ?b ?run linkless None "''/opt/irix/data''"] r
    by (auto simp: ex_mount_def reply_of_def jail_reply_def)
  moreover have "Join [bastilleJailRoot ''box'', TrimPrefix ''/proc'' ''/''] = ''/usr/local/bastille/jails/box/root/proc''" by code_simp
  moreover have "list_all (\<lambda>c. \<not> is_space c) ''/proc''" by code_simp
  ultimately show ?thesis
    using failed_mount_rollback [OF j_fs_ok j_mounts(1,2) _ j_mounts(3), of ?run "''rw''" linkless None "''/opt/irix/data''" code m fs']
    by (fastforce simp: ex_mount_def)
qed

end
