(* ===== verification/JailFiles.thy ===== *)
theory JailFiles
  imports JailSafety
begin

text \<open>
  The files inside a jail (cmd/irix-node/container_bastille_files.go): the resolution of paths that
  requests name inside the jail to paths of the host, and the handlers. \<open>ev\<close> is
  \<open>filepath.EvalSymlinks\<close>, as in \<open>Paths\<close>; a handler's \<open>None\<close> is a resolution that does not return or
  a panic. Modification times and modes of files are left out.
\<close>

subsection \<open>Resolving paths\<close>

text \<open>\<open>checkSymlinkEscape\<close>: up to the deepest ancestor that can be resolved.\<close>

partial_function (option) checkSymlinkEscape ::
  "(string \<Rightarrow> eval_error + string) \<Rightarrow> string \<Rightarrow> string \<Rightarrow> string option option" where
  "checkSymlinkEscape ev root cur =
     (case ev cur of
        Inr evaled \<Rightarrow> if \<not> pathWithin root evaled then Some (Some ''link points outside of the jail'') else Some None
      | Inl _ \<Rightarrow>
          let parent = Dir cur in
          if parent = cur then Some (Some (''cannot resolve'')) else checkSymlinkEscape ev root parent)"

definition resolveJailHostPath ::
  "(string \<Rightarrow> eval_error + string) \<Rightarrow> string \<Rightarrow> string \<Rightarrow> (string + string) option" where
  "resolveJailHostPath ev root jailPath =
     (if root = [] then Some (Inl ''empty root'')
      else
        (case ev root of
           Inl _ \<Rightarrow> Some (Inl ''cannot resolve the root of the jail'')
         | Inr evalRoot \<Rightarrow>
           let rel = Clean (TrimPrefix (TrimSpace jailPath) ''/'');
               host = (if rel \<noteq> [] \<and> rel \<noteq> ''.'' then Join [evalRoot, rel] else evalRoot) in
           if \<not> pathWithin evalRoot host then Some (Inl (''path out of bounds: '' @ jailPath))
           else
             (case checkSymlinkEscape ev evalRoot host of
                None \<Rightarrow> None
              | Some (Some e) \<Rightarrow> Some (Inl e)
              | Some None \<Rightarrow> Some (Inr host))))"

definition bastilleJailHostPath ::
  "(string \<Rightarrow> eval_error + string) \<Rightarrow> string \<Rightarrow> string \<Rightarrow> fs \<Rightarrow> (string + string) option" where
  "bastilleJailHostPath ev name jailPath fs =
     (if \<not> safePathSegment name then Some (Inl (''bad jail name: '' @ name))
      else if \<not> is_dir_at (Join [bastilleRoot, ''jails'', name]) fs then Some (Inl (''no such jail: '' @ name))
      else resolveJailHostPath ev (Join [Join [bastilleRoot, ''jails'', name], ''root'']) jailPath)"

type_synonym 'a jail_handled = "('a reply \<times> fs) option"

text \<open>What every handler does first; a path it cannot resolve is a bad request.\<close>

definition bastilleFilePath ::
  "(string \<Rightarrow> eval_error + string) \<Rightarrow> string \<Rightarrow> string \<Rightarrow> (string \<Rightarrow> 'a jail_handled) \<Rightarrow> fs \<Rightarrow> 'a jail_handled" where
  "bastilleFilePath ev name jailPath k fs =
     (if \<not> safePathSegment name then Some (Fail 400 (''bad jail name: '' @ name), fs)
      else
        (case bastilleJailHostPath ev name jailPath fs of
           None \<Rightarrow> None
         | Some (Inl e) \<Rightarrow> Some (Fail 400 e, fs)
         | Some (Inr host) \<Rightarrow> k host))"

definition jailVirtualDir :: "string \<Rightarrow> string" where
  "jailVirtualDir jailPath =
     (let p = Clean (TrimSpace (TrimPrefix jailPath ''/'')) in if p = [] \<or> p = ''.'' then ''/'' else ''/'' @ p)"

definition jailVirtualJoin :: "string \<Rightarrow> string \<Rightarrow> string" where
  "jailVirtualJoin dir name = (if dir = ''/'' then ''/'' @ name else dir @ ''/'' @ name)"

subsection \<open>Handlers\<close>

record jail_row =
  jr_name :: string
  jr_path :: string
  jr_isDir :: bool
  jr_size :: int

record jail_listing =
  jl_items :: "jail_row list"
  jl_page :: int
  jl_pageSize :: int
  jl_total :: nat
  jl_absolutePath :: string

definition jail_row_of :: "string \<Rightarrow> string \<Rightarrow> fnode \<Rightarrow> jail_row" where
  "jail_row_of vdir name n =
     \<lparr>jr_name = name, jr_path = jailVirtualJoin vdir name, jr_isDir = (n = FDir), jr_size = node_size n\<rparr>"

definition handleBastilleFilesList ::
  "(string \<Rightarrow> eval_error + string) \<Rightarrow> string \<Rightarrow> string \<Rightarrow> string \<Rightarrow> string \<Rightarrow> fs \<Rightarrow> jail_listing jail_handled" where
  "handleBastilleFilesList ev name dir pageQ sizeQ fs =
     (let page = atoiDefault pageQ 1; pageSize = atoiDefault sizeQ 100 in
      bastilleFilePath ev name dir (\<lambda>host.
        case ReadDir host fs of
          None \<Rightarrow> Some (Fail 400 ''cannot read directory'', fs)
        | Some names \<Rightarrow>
          let vdir = jailVirtualDir dir;
              rows = map (\<lambda>n. jail_row_of vdir n (the (fmlookup fs (root_words host @ [n])))) names;
              items = filter jr_isDir rows @ filter (\<lambda>r. \<not> jr_isDir r) rows;
              page = (if page \<le> 0 then 1 else page);
              pageSize = (if pageSize \<le> 0 then 100 else pageSize)
          in map_option (\<lambda>shown. (Reply \<lparr>jl_items = shown, jl_page = page - 1, jl_pageSize = pageSize,
                 jl_total = length items, jl_absolutePath = vdir\<rparr>, fs))
               (clip_slice items (wrap64 ((page - 1) * pageSize)) pageSize)) fs)"

definition handleBastilleFilesContentRead ::
  "(string \<Rightarrow> eval_error + string) \<Rightarrow> string \<Rightarrow> string \<Rightarrow> fs \<Rightarrow> string jail_handled" where
  "handleBastilleFilesContentRead ev name p fs =
     (if p = [] then Some (Fail 400 ''path missing'', fs)
      else
        bastilleFilePath ev name p (\<lambda>host. Some
          (case node_at fs host of
             None \<Rightarrow> Fail 400 ''cannot read file''
           | Some FDir \<Rightarrow> Fail 400 ''target is a directory''
           | Some (FFile data) \<Rightarrow> if int (length data) > maxTextReadBytes then Fail 400 ''file too large'' else Reply data, fs)) fs)"

definition handleBastilleFilesContentWrite ::
  "(string \<Rightarrow> eval_error + string) \<Rightarrow> string \<Rightarrow> (string \<times> string) option \<Rightarrow> fs \<Rightarrow> unit jail_handled" where
  "handleBastilleFilesContentWrite ev name body fs =
     (case body of
        None \<Rightarrow> Some (Fail 400 ''malformed body'', fs)
      | Some (p, content) \<Rightarrow>
        if p = [] then Some (Fail 400 ''path missing'', fs)
        else
          bastilleFilePath ev name p (\<lambda>host. Some
            (case MkdirAll (Dir host) fs of
               None \<Rightarrow> (Fail 500 ''cannot make the parent directory'', fs)
             | Some fs \<Rightarrow>
               (case WriteFile host content fs of
                  None \<Rightarrow> (Fail 500 ''cannot write'', fs)
                | Some fs \<Rightarrow> (Reply (), fs)))) fs)"

definition handleBastilleFilesDelete ::
  "(string \<Rightarrow> eval_error + string) \<Rightarrow> string \<Rightarrow> string \<Rightarrow> fs \<Rightarrow> unit jail_handled" where
  "handleBastilleFilesDelete ev name p fs =
     (if jailVirtualDir p = ''/'' then Some (Fail 400 ''the root of a jail cannot be deleted'', fs)
      else bastilleFilePath ev name p (\<lambda>host. Some (Reply (), RemoveAll host fs)) fs)"

definition handleBastilleFilesMkdir ::
  "(string \<Rightarrow> eval_error + string) \<Rightarrow> string \<Rightarrow> string option \<Rightarrow> fs \<Rightarrow> unit jail_handled" where
  "handleBastilleFilesMkdir ev name body fs =
     (case body of
        None \<Rightarrow> Some (Fail 400 ''malformed body'', fs)
      | Some p \<Rightarrow>
        if p = [] then Some (Fail 400 ''path missing'', fs)
        else
          bastilleFilePath ev name p (\<lambda>host. Some
            (case MkdirAll host fs of None \<Rightarrow> (Fail 500 ''cannot make directory'', fs) | Some fs \<Rightarrow> (Reply (), fs))) fs)"

definition handleBastilleFilesTouch ::
  "(string \<Rightarrow> eval_error + string) \<Rightarrow> string \<Rightarrow> string option \<Rightarrow> fs \<Rightarrow> unit jail_handled" where
  "handleBastilleFilesTouch ev name body fs =
     (case body of
        None \<Rightarrow> Some (Fail 400 ''malformed body'', fs)
      | Some p \<Rightarrow>
        if p = [] then Some (Fail 400 ''path missing'', fs)
        else
          bastilleFilePath ev name p (\<lambda>host. Some
            (case MkdirAll (Dir host) fs of
               None \<Rightarrow> (Fail 500 ''cannot make the parent directory'', fs)
             | Some fs \<Rightarrow>
               (case OpenCreate host fs of None \<Rightarrow> (Fail 500 ''cannot create'', fs) | Some fs \<Rightarrow> (Reply (), fs)))) fs)"

text \<open>The form's file: its name as the client gives it, and the content.\<close>

definition handleBastilleFilesUpload ::
  "(string \<Rightarrow> eval_error + string) \<Rightarrow> string \<Rightarrow> string \<Rightarrow> (string \<times> string) option \<Rightarrow> fs \<Rightarrow> string jail_handled" where
  "handleBastilleFilesUpload ev name dir form fs =
     (let dir = (if dir = [] then ''/'' else dir) in
      bastilleFilePath ev name dir (\<lambda>hostDir. Some
        (case form of
           None \<Rightarrow> (Fail 400 ''file missing'', fs)
         | Some (filename, content) \<Rightarrow>
           let fname = Base filename; dest = Join [hostDir, fname] in
           if fname = ''.'' \<or> fname = ''/'' \<or> fname = [] then (Fail 400 ''bad file name'', fs)
           else if \<not> pathWithin hostDir dest then (Fail 400 ''file name out of bounds'', fs)
           else
             (case MkdirAll hostDir fs of
                None \<Rightarrow> (Fail 500 ''cannot make directory'', fs)
              | Some fs \<Rightarrow>
                (case WriteFile dest content fs of
                   None \<Rightarrow> (Fail 500 ''cannot create file'', fs)
                 | Some fs \<Rightarrow> (Reply (jailVirtualJoin (jailVirtualDir dir) fname), fs))))) fs)"

text \<open>The answer has the name under which the browser saves the file, and the content.\<close>

definition handleBastilleFilesDownload ::
  "(string \<Rightarrow> eval_error + string) \<Rightarrow> string \<Rightarrow> string \<Rightarrow> fs \<Rightarrow> (string \<times> string) jail_handled" where
  "handleBastilleFilesDownload ev name p fs =
     (if p = [] then Some (Fail 400 ''path missing'', fs)
      else
        bastilleFilePath ev name p (\<lambda>host. Some
          (case ReadFile host fs of
             None \<Rightarrow> Fail 400 (''no such file: '' @ p)
           | Some data \<Rightarrow> Reply (Base host, data), fs)) fs)"

subsection \<open>What the resolution guarantees\<close>

lemma symlink_walk_clean:
  assumes "list_all real_word ws"
  shows "\<exists>r. checkSymlinkEscape ev root (abs_path ws) = Some r \<and>
    (r = None \<longrightarrow> (\<exists>us evaled. prefix us ws \<and> ev (abs_path us) = Inr evaled \<and> pathWithin root evaled \<and>
       (\<forall>vs. strict_prefix us vs \<and> prefix vs ws \<longrightarrow> (\<exists>e. ev (abs_path vs) = Inl e))))"
  using assms
proof (induction ws rule: rev_induct)
  case Nil
  show ?case
  proof (cases "ev (abs_path [])")
    case (Inl e)
    then show ?thesis using Dir_root by (subst checkSymlinkEscape.simps) (simp add: path_of_def)
  next
    case (Inr r)
    then show ?thesis by (subst checkSymlinkEscape.simps) (auto intro!: exI [of _ "[]"])
  qed
next
  case (snoc w ws)
  then have w: "list_all real_word ws" "real_word w" by auto
  show ?case
  proof (cases "ev (abs_path (ws @ [w]))")
    case (Inr r)
    moreover have "\<not> (strict_prefix (ws @ [w]) vs \<and> prefix vs (ws @ [w]))" for vs
      by (auto simp: strict_prefix_def dest: prefix_order.antisym)
    ultimately show ?thesis by (subst checkSymlinkEscape.simps) (auto simp del: prefix_snoc intro!: exI [of _ "ws @ [w]"])
  next
    case (Inl e)
    have "Dir (abs_path (ws @ [w])) = abs_path ws" using Dir_Base_snoc [OF w] by simp
    moreover have "abs_path ws \<noteq> abs_path (ws @ [w])" using w by (simp add: abs_path_inject)
    ultimately have "checkSymlinkEscape ev root (abs_path (ws @ [w])) = checkSymlinkEscape ev root (abs_path ws)"
      using Inl by (subst checkSymlinkEscape.simps) (simp add: Let_def)
    moreover obtain r where r: "checkSymlinkEscape ev root (abs_path ws) = Some r"
      "r = None \<longrightarrow> (\<exists>us evaled. prefix us ws \<and> ev (abs_path us) = Inr evaled \<and> pathWithin root evaled \<and>
         (\<forall>vs. strict_prefix us vs \<and> prefix vs ws \<longrightarrow> (\<exists>e. ev (abs_path vs) = Inl e)))"
      using snoc.IH [OF w(1)] by blast
    moreover have "prefix vs (ws @ [w]) \<Longrightarrow> vs = ws @ [w] \<or> prefix vs ws" for vs by (simp add: prefix_snoc)
    moreover have "prefix us ws \<Longrightarrow> prefix us (ws @ [w])" for us by (simp add: prefix_snoc)
    ultimately show ?thesis using Inl by metis
  qed
qed

text \<open>\<open>EvalSymlinks\<close> answers absolute paths by absolute, clean ones.\<close>

definition eval_clean :: "(string \<Rightarrow> eval_error + string) \<Rightarrow> bool" where
  "eval_clean ev = (\<forall>q r. IsAbs q \<longrightarrow> ev q = Inr r \<longrightarrow> (\<exists>ws. list_all real_word ws \<and> r = abs_path ws))"

text \<open>
  The resolution returns, and a path it accepts lies below the resolved root, both as written and
  where the deepest part of it that exists leads.
\<close>

lemma resolve_jail_path:
  assumes "eval_clean ev" "IsAbs root"
  shows "\<exists>r. resolveJailHostPath ev root jailPath = Some r \<and>
    (\<forall>host. r = Inr host \<longrightarrow> (\<exists>base hw us end_words. ev root = Inr (abs_path base) \<and> list_all real_word base \<and>
       host = abs_path hw \<and> list_all real_word hw \<and> prefix base hw \<and>
       prefix us hw \<and> ev (abs_path us) = Inr (abs_path end_words) \<and> list_all real_word end_words \<and> prefix base end_words \<and>
       (\<forall>vs. strict_prefix us vs \<and> prefix vs hw \<longrightarrow> (\<exists>e. ev (abs_path vs) = Inl e))))"
proof (cases "ev root")
  case (Inl e)
  then show ?thesis by (simp add: resolveJailHostPath_def)
next
  case (Inr evalRoot)
  then obtain base where base: "list_all real_word base" "evalRoot = abs_path base"
    using assms unfolding eval_clean_def by blast
  define rel where "rel = Clean (TrimPrefix (TrimSpace jailPath) ''/'')"
  define host where "host = (if rel \<noteq> [] \<and> rel \<noteq> ''.'' then Join [evalRoot, rel] else evalRoot)"
  have "\<exists>hw. list_all real_word hw \<and> host = abs_path hw"
  proof (cases "rel \<noteq> [] \<and> rel \<noteq> ''.''")
    case True
    then have "host = abs_path (clean_words True (path_words evalRoot @ path_words rel))"
      using base by (simp add: host_def Join_two)
    moreover have "list_all real_word (clean_words True (path_words evalRoot @ path_words rel))"
      by (intro clean_words_rooted) (simp add: path_words_plain)
    ultimately show ?thesis by blast
  next
    case False
    then show ?thesis using base by (auto simp: host_def)
  qed
  then obtain hw where hw: "list_all real_word hw" "host = abs_path hw" by blast
  have root: "root \<noteq> []" using assms(2) by (cases root) auto
  obtain r where r: "checkSymlinkEscape ev evalRoot host = Some r"
    "r = None \<longrightarrow> (\<exists>us evaled. prefix us hw \<and> ev (abs_path us) = Inr evaled \<and> pathWithin evalRoot evaled \<and>
       (\<forall>vs. strict_prefix us vs \<and> prefix vs hw \<longrightarrow> (\<exists>e. ev (abs_path vs) = Inl e)))"
    using symlink_walk_clean [OF hw(1), of ev evalRoot] hw(2) by blast
  have res: "resolveJailHostPath ev root jailPath =
      (if \<not> pathWithin evalRoot host then Some (Inl (''path out of bounds: '' @ jailPath))
       else case r of Some e \<Rightarrow> Some (Inl e) | None \<Rightarrow> Some (Inr host))"
    using r(1) root Inr by (simp add: resolveJailHostPath_def rel_def [symmetric] host_def Let_def split: option.split)
  show ?thesis
  proof (cases "pathWithin evalRoot host \<and> r = None")
    case False
    then show ?thesis using res by (cases r) auto
  next
    case True
    then obtain us evaled where us: "prefix us hw" "ev (abs_path us) = Inr evaled" "pathWithin evalRoot evaled"
      "\<forall>vs. strict_prefix us vs \<and> prefix vs hw \<longrightarrow> (\<exists>e. ev (abs_path vs) = Inl e)" using r(2) by blast
    obtain ew where ew: "list_all real_word ew" "evaled = abs_path ew"
      using assms(1) us(2) IsAbs_abs_path [of us] unfolding eval_clean_def by blast
    have "prefix base hw" "prefix base ew"
      using True us(3) pathWithin_words [OF base(1)] hw ew base(2) by simp_all
    then show ?thesis using res True Inr base hw us ew by fastforce
  qed
qed

lemma Join_IsAbs: "IsAbs d \<Longrightarrow> IsAbs (Join (d # ds))"
proof -
  assume d: "IsAbs d"
  then obtain q where q: "d = SEP # q" by (auto simp: IsAbs_iff)
  let ?ws = "filter (\<lambda>e. e \<noteq> []) ds"
  have "IsAbs (join_with [SEP] (d # ?ws))" by (cases ?ws) (simp_all add: q)
  then show ?thesis using q by (simp add: Join_def Let_def)
qed

lemma jail_root_abs: "IsAbs (Join [Join [bastilleRoot, ''jails'', name], ''root''])"
  by (intro Join_IsAbs) (simp add: bastilleRoot_def)

text \<open>A handler returns, keeps the tree well formed and changes nothing outside of a directory.\<close>

definition stays :: "string list \<Rightarrow> fs \<Rightarrow> 'a jail_handled \<Rightarrow> bool" where
  "stays base fs h = (\<exists>r fs'. h = Some (r, fs') \<and> fs_ok fs' \<and> same_outside base fs fs')"

lemma stays_reply: "fs_ok fs \<Longrightarrow> stays base fs (Some (r, fs))"
  by (simp add: stays_def)

lemma stays_on_path:
  assumes "eval_clean ev" "fs_ok fs" "ev (Join [Join [bastilleRoot, ''jails'', name], ''root'']) = Inr (abs_path base)"
    "list_all real_word base"
    "\<And>hw. list_all real_word hw \<Longrightarrow> prefix base hw \<Longrightarrow> stays base fs (k (abs_path hw))"
  shows "stays base fs (bastilleFilePath ev name p k fs)"
proof -
  let ?root = "Join [Join [bastilleRoot, ''jails'', name], ''root'']"
  obtain r where r: "resolveJailHostPath ev ?root p = Some r"
    "\<forall>host. r = Inr host \<longrightarrow> (\<exists>base' hw. ev ?root = Inr (abs_path base') \<and> list_all real_word base' \<and> host = abs_path hw \<and>
       list_all real_word hw \<and> prefix base' hw)"
    using resolve_jail_path [OF assms(1) jail_root_abs, of name p] by blast
  show ?thesis
  proof (cases r)
    case (Inl e)
    then show ?thesis using r(1) assms(2) by (simp add: bastilleFilePath_def bastilleJailHostPath_def stays_reply)
  next
    case (Inr host)
    then obtain hw where "host = abs_path hw" "list_all real_word hw" "prefix base hw"
      using r(2) assms(3,4) by (auto simp: abs_path_inject)
    then show ?thesis
      using r(1) Inr assms(2,5) by (simp add: bastilleFilePath_def bastilleJailHostPath_def stays_reply)
  qed
qed

lemma MkdirAll_stays:
  assumes "fs_ok fs" "anchored base fs" "prefix base (root_words p) \<or> prefix (root_words p) base" "MkdirAll p fs = Some fs1"
  shows "fs_ok fs1 \<and> anchored base fs1 \<and> same_outside base fs fs1"
  using assms MkdirAll_ok MkdirAll_confined anchored_outside by metis

lemma WriteFile_stays:
  assumes "fs_ok fs" "prefix base (root_words p)" "WriteFile p data fs = Some fs1"
  shows "fs_ok fs1 \<and> same_outside base fs fs1"
  using assms put_file_ok [of fs "root_words p"] put_file_confined [of base "root_words p"] by (simp add: WriteFile_def)

lemma parent_words:
  assumes "list_all real_word hw" "prefix base hw"
  shows "prefix base (root_words (Dir (abs_path hw))) \<or> prefix (root_words (Dir (abs_path hw))) base"
proof (cases hw rule: rev_cases)
  case Nil
  then show ?thesis using assms Dir_root by (simp add: path_of_def root_words_def path_words_def clean_words_def)
next
  case (snoc ws w)
  then have "root_words (Dir (abs_path hw)) = ws" using assms(1) Dir_Base_snoc [of ws w] by simp
  then show ?thesis using assms(2) snoc by (auto simp: prefix_snoc)
qed

datatype jail_file_request =
    JailWrite "(string \<times> string) option"
  | JailDelete string
  | JailMkdir "string option"
  | JailTouch "string option"
  | JailUpload string "(string \<times> string) option"

fun jail_file_served :: "(string \<Rightarrow> eval_error + string) \<Rightarrow> string \<Rightarrow> jail_file_request \<Rightarrow> fs \<Rightarrow> fs option" where
  "jail_file_served ev name (JailWrite b) fs = map_option snd (handleBastilleFilesContentWrite ev name b fs)"
| "jail_file_served ev name (JailDelete p) fs = map_option snd (handleBastilleFilesDelete ev name p fs)"
| "jail_file_served ev name (JailMkdir b) fs = map_option snd (handleBastilleFilesMkdir ev name b fs)"
| "jail_file_served ev name (JailTouch b) fs = map_option snd (handleBastilleFilesTouch ev name b fs)"
| "jail_file_served ev name (JailUpload dir f) fs = map_option snd (handleBastilleFilesUpload ev name dir f fs)"

lemma OpenCreate_stays:
  assumes "fs_ok fs" "prefix base (root_words p)" "OpenCreate p fs = Some fs1"
  shows "fs_ok fs1 \<and> same_outside base fs fs1"
  using assms WriteFile_stays by (auto simp: OpenCreate_def split: option.splits fnode.splits)

lemma stays_mkdir:
  assumes "fs_ok fs" "anchored base fs" "prefix base (root_words p) \<or> prefix (root_words p) base"
    "\<And>fs1. MkdirAll p fs = Some fs1 \<Longrightarrow> fs_ok fs1 \<Longrightarrow> anchored base fs1 \<Longrightarrow> stays base fs1 (Some (k fs1))"
  shows "stays base fs (Some (case MkdirAll p fs of None \<Rightarrow> (e, fs) | Some fs1 \<Rightarrow> k fs1))"
proof (cases "MkdirAll p fs")
  case None
  then show ?thesis using stays_reply [OF assms(1)] by simp
next
  case (Some fs1)
  note m = MkdirAll_stays [OF assms(1-3) Some]
  then obtain r fs2 where "k fs1 = (r, fs2)" "fs_ok fs2" "same_outside base fs1 fs2"
    using assms(4) [OF Some] by (auto simp: stays_def)
  then show ?thesis using Some m same_outside_trans by (auto simp: stays_def)
qed

lemma stays_final:
  assumes "fs_ok fs" "\<And>fs1. r = Some fs1 \<Longrightarrow> fs_ok fs1 \<and> same_outside base fs fs1"
  shows "stays base fs (Some (case r of None \<Rightarrow> (e, fs) | Some fs1 \<Rightarrow> (Reply x, fs1)))"
  using assms by (cases r) (auto simp: stays_def)

lemma stays_write:
  "fs_ok fs \<Longrightarrow> prefix base (root_words p) \<Longrightarrow>
   stays base fs (Some (case WriteFile p data fs of None \<Rightarrow> (e, fs) | Some fs1 \<Rightarrow> (Reply x, fs1)))"
  by (intro stays_final) (auto dest: WriteFile_stays)

lemma stays_open:
  "fs_ok fs \<Longrightarrow> prefix base (root_words p) \<Longrightarrow>
   stays base fs (Some (case OpenCreate p fs of None \<Rightarrow> (e, fs) | Some fs1 \<Rightarrow> (Reply x, fs1)))"
  by (intro stays_final) (auto dest: OpenCreate_stays)

lemma stays_remove:
  "fs_ok fs \<Longrightarrow> prefix base (root_words p) \<Longrightarrow> stays base fs (Some (Reply x, RemoveAll p fs))"
  by (simp add: stays_def RemoveAll_ok RemoveAll_confined)

lemmas stays_rules = stays_reply stays_write stays_open stays_remove

subsection \<open>Two holes\<close>

text \<open>A jail that exists, the root of which resolves to a directory.\<close>

definition jail_at :: "(string \<Rightarrow> eval_error + string) \<Rightarrow> string \<Rightarrow> string list \<Rightarrow> fs \<Rightarrow> bool" where
  "jail_at ev name base fs \<longleftrightarrow>
     safePathSegment name \<and> is_dir_at (Join [bastilleRoot, ''jails'', name]) fs \<and>
     ev (Join [Join [bastilleRoot, ''jails'', name], ''root'']) = Inr (abs_path base) \<and> list_all real_word base \<and>
     ev (abs_path base) = Inr (abs_path base)"

lemma jail_path_resolved:
  assumes "jail_at ev name base fs"
    "Clean (TrimPrefix (TrimSpace p) ''/'') = rel"
    "abs_path hw = (if rel \<noteq> [] \<and> rel \<noteq> ''.'' then Join [abs_path base, rel] else abs_path base)"
    "list_all real_word hw" "prefix base hw" "ev (abs_path hw) = Inr evaled"
  shows "bastilleFilePath ev name p k fs =
    (if pathWithin (abs_path base) evaled then k (abs_path hw) else Some (Fail 400 ''link points outside of the jail'', fs))"
proof -
  have j: "safePathSegment name" "is_dir_at (Join [bastilleRoot, ''jails'', name]) fs"
    "ev (Join [Join [bastilleRoot, ''jails'', name], ''root'']) = Inr (abs_path base)" "list_all real_word base"
    using assms(1) by (simp_all add: jail_at_def)
  have "Join [Join [bastilleRoot, ''jails'', name], ''root''] \<noteq> []" using jail_root_abs [of name] by (metis IsAbs_Cons(2))
  moreover have "pathWithin (abs_path base) (abs_path hw)" using j(4) assms(4,5) by (simp add: pathWithin_words)
  moreover have "checkSymlinkEscape ev (abs_path base) (abs_path hw) =
      (if pathWithin (abs_path base) evaled then Some None else Some (Some ''link points outside of the jail''))"
    using assms(6) by (subst checkSymlinkEscape.simps) simp
  ultimately have "resolveJailHostPath ev (Join [Join [bastilleRoot, ''jails'', name], ''root'']) p =
      (if pathWithin (abs_path base) evaled then Some (Inr (abs_path hw)) else Some (Inl ''link points outside of the jail''))"
    using j(3) assms(2,3) by (simp add: resolveJailHostPath_def Let_def)
  then show ?thesis using j(1,2) by (simp add: bastilleFilePath_def bastilleJailHostPath_def)
qed

text \<open>
  The root of a jail can be deleted after all. The handler refuses the path \<open>/\<close>, but its check
  and the resolution normalise the path differently: \<open>//\<close> passes the check, is resolved to the root
  of the jail, and everything in it is removed.
\<close>

theorem jail_root_deleted:
  assumes "jail_at ev name base fs"
  shows "(\<exists>e. handleBastilleFilesDelete ev name ''/'' fs = Some (Fail 400 e, fs)) \<and>
    (\<exists>fs'. handleBastilleFilesDelete ev name ''//'' fs = Some (Reply (), fs') \<and>
       (\<forall>x. x \<noteq> [] \<and> prefix base x \<longrightarrow> fmlookup fs' x = None))"
proof -
  have base: "list_all real_word base" "ev (abs_path base) = Inr (abs_path base)" using assms by (simp_all add: jail_at_def)
  have v: "jailVirtualDir ''/'' = ''/''" "jailVirtualDir ''//'' \<noteq> ''/''" "Clean (TrimPrefix (TrimSpace ''//'') ''/'') = ''/''"
    "path_words ''/'' = []" by code_simp+
  have "Join [abs_path base, ''/''] = abs_path base"
    using base(1) v(4) by (simp add: Join_two path_words_path_of real_list_plain)
  then have "bastilleFilePath ev name ''//'' k fs = k (abs_path base)" for k :: "string \<Rightarrow> unit jail_handled"
    using jail_path_resolved [OF assms v(3), of base "abs_path base"] base by (simp add: pathWithin_words)
  then have "handleBastilleFilesDelete ev name ''//'' fs = Some (Reply (), RemoveAll (abs_path base) fs)"
    using v(2) by (simp add: handleBastilleFilesDelete_def)
  then show ?thesis using v(1) base(1) by (auto simp: handleBastilleFilesDelete_def RemoveAll_lookup)
qed

text \<open>
  An upload follows a link out of the jail. Writing a text to a name that is a link leading
  outside is refused; uploading a file of that name into the directory is accepted, because only
  the directory's links are checked, and the file is opened by that name.
\<close>

theorem upload_skips_link_check:
  assumes "jail_at ev name base fs" "fs_ok fs" "fmlookup fs base = Some FDir"
    "real_word f" "TrimSpace f = f" "Base filename = f" "fmlookup fs (base @ [f]) = None"
    "ev (abs_path (base @ [f])) = Inr outside" "\<not> pathWithin (abs_path base) outside"
  shows "(\<exists>e. handleBastilleFilesContentWrite ev name (Some (f, content)) fs = Some (Fail 400 e, fs)) \<and>
    (\<exists>fs'. handleBastilleFilesUpload ev name [] (Some (filename, content)) fs = Some (Reply (''/'' @ f), fs') \<and>
       fmlookup fs' (base @ [f]) = Some (FFile content))"
proof -
  have base: "list_all real_word base" "ev (abs_path base) = Inr (abs_path base)" using assms(1) by (simp_all add: jail_at_def)
  have f: "f \<noteq> []" "f \<noteq> ''.''" "SEP \<notin> set f" "list_all real_word [f]"
    using assms(4) by (auto simp: real_word_def plain_word_def)
  have join: "Join [abs_path base, f] = abs_path (base @ [f])" using Join_real [OF base(1) assms(4)] .
  have "\<not> HasPrefix f ''/''" using f(1,3) by (cases f) (auto simp: HasPrefix_def)
  moreover have "Clean f = f"
  proof -
    have "path_words f = [f]" using f by (simp add: path_words_def split_on_word)
    moreover have "\<not> IsAbs f" using f(1,3) by (cases f) auto
    ultimately show ?thesis using f by (simp add: Clean_def path_of_def)
  qed
  ultimately have "Clean (TrimPrefix (TrimSpace f) ''/'') = f" using assms(5) by (simp add: TrimPrefix_def)
  then have "bastilleFilePath ev name f k fs = Some (Fail 400 ''link points outside of the jail'', fs)" for k :: "string \<Rightarrow> unit jail_handled"
    using jail_path_resolved [OF assms(1), of f f "base @ [f]" outside] join f base(1) assms(4,8,9) by simp
  then have refused: "\<exists>e. handleBastilleFilesContentWrite ev name (Some (f, content)) fs = Some (Fail 400 e, fs)"
    using f by (simp add: handleBastilleFilesContentWrite_def)
  have v: "Clean (TrimPrefix (TrimSpace ''/'') ''/'') = ''.''" "jailVirtualDir ''/'' = ''/''" by code_simp+
  have root: "bastilleFilePath ev name ''/'' k fs = k (abs_path base)" for k :: "string \<Rightarrow> string jail_handled"
    using jail_path_resolved [OF assms(1) v(1), of base "abs_path base"] base by (simp add: pathWithin_words)
  have "pathWithin (abs_path base) (abs_path (base @ [f]))" using base(1) assms(4) by (simp add: pathWithin_words)
  moreover have "MkdirAll (abs_path base) fs = Some fs"
    using MkdirAll_exists [OF assms(2)] base(1) assms(3) by (simp add: node_at_def)
  moreover have "WriteFile (abs_path (base @ [f])) content fs = Some (fmupd (base @ [f]) (FFile content) fs)"
    using base(1) assms(3,4,7) by (simp add: WriteFile_def put_file_def)
  moreover have "f \<noteq> ''/''" using f(3) by auto
  ultimately have "\<exists>fs'. handleBastilleFilesUpload ev name [] (Some (filename, content)) fs = Some (Reply (''/'' @ f), fs') \<and>
       fmlookup fs' (base @ [f]) = Some (FFile content)"
    using f join v(2) by (simp add: handleBastilleFilesUpload_def root assms(6) Let_def jailVirtualJoin_def)
  then show ?thesis using refused by blast
qed

subsection \<open>An example\<close>

definition j_root :: "string list" where
  "j_root = j_base @ [''root'']"

definition j_ev :: "string \<Rightarrow> eval_error + string" where
  "j_ev p =
     (if root_words p = j_root @ [''evil''] then Inr ''/etc/passwd''
      else if prefix (root_words p) j_root then Inr (Clean p) else Inl NotExist)"

lemma j_ev_clean: "eval_clean j_ev"
proof -
  have "''/etc/passwd'' = abs_path [''etc'', ''passwd'']" "list_all real_word [''etc'', ''passwd'']" by code_simp+
  then show ?thesis unfolding eval_clean_def j_ev_def
    by (metis Clean_abs Inr_inject Inl_Inr_False root_words_real)
qed

lemma j_root_paths:
  "Join [Join [bastilleRoot, ''jails'', ''box''], ''root''] = abs_path j_root" "list_all real_word j_root"
  "root_words (Join [bastilleRoot, ''jails'', ''box'']) = j_base"
  by code_simp+

lemma j_ev_root: "j_ev (abs_path j_root) = Inr (abs_path j_root)"
  using j_root_paths(2) by (simp add: j_ev_def)

lemma j_dirs:
  "fmlookup j_fs j_root = Some FDir" "fmlookup j_fs j_base = Some FDir" "fmlookup j_fs (j_root @ [w]) = None"
proof -
  show "fmlookup j_fs j_root = Some FDir" "fmlookup j_fs j_base = Some FDir"
    unfolding j_fs_def fmlookup_of_list by code_simp+
  have "list_all (\<lambda>(ws, n). length ws \<le> 6) j_tree" "length j_root = 6" by code_simp+
  then have "map_of j_tree (j_root @ [w]) = None"
    by (auto simp: map_of_eq_None_iff list_all_iff dest!: bspec)
  then show "fmlookup j_fs (j_root @ [w]) = None" by (simp add: j_fs_def fmlookup_of_list)
qed

lemma j_jail: "jail_at j_ev ''box'' j_root j_fs"
  using j_ev_root by (simp add: jail_at_def j_safe is_dir_at_def node_at_def j_root_paths j_dirs)


theorem jail_root_deleted_witness:
  "\<exists>fs'. handleBastilleFilesDelete j_ev ''box'' ''//'' j_fs = Some (Reply (), fs') \<and> fmlookup fs' j_root = None"
  using jail_root_deleted [OF j_jail] by (fastforce simp: j_root_def)

theorem upload_skips_link_check_witness:
  "(\<exists>e. handleBastilleFilesContentWrite j_ev ''box'' (Some (''evil'', ''root::0:0'')) j_fs = Some (Fail 400 e, j_fs)) \<and>
   (\<exists>fs'. handleBastilleFilesUpload j_ev ''box'' [] (Some (''evil'', ''root::0:0'')) j_fs = Some (Reply ''/evil'', fs') \<and>
      fmlookup fs' (j_root @ [''evil'']) = Some (FFile ''root::0:0''))"
proof -
  have f: "real_word ''evil''" "TrimSpace ''evil'' = ''evil''" "Base ''evil'' = ''evil''"
    "root_words ''/etc/passwd'' = [''etc'', ''passwd'']" "\<not> prefix j_root [''etc'', ''passwd'']" by code_simp+
  have "j_ev (abs_path (j_root @ [''evil''])) = Inr ''/etc/passwd''" using j_root_paths(2) f(1) by (simp add: j_ev_def)
  moreover have "\<not> pathWithin (abs_path j_root) ''/etc/passwd''" using f(4,5) j_root_paths(2) by (simp add: pathWithin_abs)
  ultimately show ?thesis
    using upload_skips_link_check [OF j_jail j_fs_ok j_dirs(1) f(1-3) j_dirs(3)] by simp
qed

end
