(* ===== verification/ProcRecords.thy ===== *)
theory ProcRecords
  imports Jails
begin

text \<open>
  Records of started processes (cmd/irix-node/process_records.go, recoverBastilleRecord of
  container_bastille.go): every process the node starts leaves a small file with its number and
  the identity the system gives it, so that the next start of the node can end what a crash left
  running. The JSON text of a record and the hash that names its file are parameters; what the
  system says of processes is the record \<open>os_env\<close>, the same during one run of the recovery.
\<close>

record processRecord =
  px_Key :: string
  px_PID :: int
  px_Identity :: string
  px_Jail :: string
  px_JID :: int
  px_Watch :: bool

definition no_record :: processRecord where
  "no_record = \<lparr>px_Key = [], px_PID = 0, px_Identity = [], px_Jail = [], px_JID = 0, px_Watch = False\<rparr>"

record record_codec =
  rc_key :: "string \<Rightarrow> string"
  rc_print :: "processRecord \<Rightarrow> string"
  rc_parse :: "string \<Rightarrow> processRecord option"

datatype identity_result = NoProcess | Unsupported_identity | IdentityFails string | Identity string

text \<open>\<open>oe_kill\<close> is the killing of a process group, where a missing group counts as success.\<close>

record os_env =
  oe_identity :: "int \<Rightarrow> identity_result"
  oe_terminate :: "int \<Rightarrow> string \<Rightarrow> string option"
  oe_kill :: "int \<Rightarrow> string option"
  oe_run :: engine

subsection \<open>Writing and removing records\<close>

definition processes_dir :: "string \<Rightarrow> string" where
  "processes_dir dataDir = Join [dataDir, ''processes'']"

definition processRecordPath :: "record_codec \<Rightarrow> string \<Rightarrow> string \<Rightarrow> string" where
  "processRecordPath C dataDir uuid = Join [dataDir, ''processes'', rc_key C uuid @ ''.json'']"

definition processRecordFile :: "string \<Rightarrow> processRecord \<Rightarrow> string" where
  "processRecordFile dataDir r = Join [dataDir, ''processes'', px_Key r @ ''.json'']"

definition recordCommandProcess ::
  "record_codec \<Rightarrow> os_env \<Rightarrow> string \<Rightarrow> string \<Rightarrow> int \<Rightarrow> string \<Rightarrow> int \<Rightarrow> bool \<Rightarrow> fs \<Rightarrow> processRecord on_fs" where
  "recordCommandProcess C E dataDir uuid pid jail jid watch fs =
     (case oe_identity E pid of
        Unsupported_identity \<Rightarrow> (Inr no_record, fs)
      | NoProcess \<Rightarrow> (Inl ''cannot read the identity'', fs)
      | IdentityFails e \<Rightarrow> (Inl e, fs)
      | Identity i \<Rightarrow>
        let r = \<lparr>px_Key = rc_key C uuid, px_PID = pid, px_Identity = i, px_Jail = jail, px_JID = jid, px_Watch = watch\<rparr>;
            path = processRecordPath C dataDir uuid in
        (case MkdirAll (Dir path) fs of
           None \<Rightarrow> (Inl ''cannot make the directory'', fs)
         | Some fs \<Rightarrow>
           (case WriteFile (path @ ''.tmp'') (rc_print C r) fs of
              None \<Rightarrow> (Inl ''cannot write the record'', drop_file (path @ ''.tmp'') fs)
            | Some fs \<Rightarrow>
              (case Rename (path @ ''.tmp'') path fs of
                 None \<Rightarrow> (Inl ''cannot rename the record'', drop_file (path @ ''.tmp'') fs)
               | Some fs \<Rightarrow> (Inr r, fs)))))"

definition forgetProcess :: "record_codec \<Rightarrow> string \<Rightarrow> processRecord \<Rightarrow> fs \<Rightarrow> string option \<times> fs" where
  "forgetProcess C dataDir r fs =
     (if px_Identity r = [] then (None, fs)
      else
        let path = processRecordFile dataDir r in
        (case node_at fs path of
           None \<Rightarrow> (None, fs)
         | Some FDir \<Rightarrow> (Some ''cannot read the record'', fs)
         | Some (FFile data) \<Rightarrow>
           (case rc_parse C data of
              None \<Rightarrow> (Some ''bad record'', fs)
            | Some current \<Rightarrow> if current \<noteq> r then (None, fs) else (None, drop_file path fs))))"

text \<open>\<open>held\<close> is the record of the instance's process, if it has one.\<close>

definition forgetProcessFor ::
  "record_codec \<Rightarrow> string \<Rightarrow> string \<Rightarrow> processRecord option \<Rightarrow> fs \<Rightarrow> string option \<times> fs" where
  "forgetProcessFor C dataDir uuid held fs =
     (case held of
        None \<Rightarrow> (None, fs)
      | Some r \<Rightarrow> if px_Key r \<noteq> rc_key C uuid then (None, fs) else forgetProcess C dataDir r fs)"

subsection \<open>Recovery\<close>

text \<open>The file system and the process groups that have been killed, the last one first.\<close>

type_synonym recovery = "fs \<times> int list"

definition recoverBastilleRecord :: "os_env \<Rightarrow> processRecord \<Rightarrow> recovery \<Rightarrow> string option \<times> recovery" where
  "recoverBastilleRecord E r w =
     (if px_Jail r = [] \<or> px_JID r \<le> 0 then (Some ''record without jail'', w)
      else
        (case bastilleJID (oe_run E) (px_Jail r) (fst w) of
           (Inl None, fs) \<Rightarrow> (None, fs, snd w)
         | (Inl (Some e), fs) \<Rightarrow> (Some e, fs, snd w)
         | (Inr jid, fs) \<Rightarrow>
           if jid \<noteq> px_JID r then (None, fs, snd w)
           else
             (case oe_run E [''/bin/ps'', ''-J'', Itoa jid, ''-o'', ''pgid=''] fs of
                (Inl e, fs) \<Rightarrow> (Some e, fs, snd w)
              | (Inr out, fs) \<Rightarrow>
                let found = list_ex (\<lambda>f. Atoi f = Some (px_PID r)) (Fields out) in
                (case (if found then oe_kill E (px_PID r) else None) of
                   Some e \<Rightarrow> (Some e, fs, snd w)
                 | None \<Rightarrow>
                   let killed = (if found then px_PID r # snd w else snd w) in
                   if px_Watch r then
                     (case bastilleAction (oe_run E) (px_Jail r) ''stop'' False fs of
                        (Inl e, fs) \<Rightarrow> (Some e, fs, killed)
                      | (Inr _, fs) \<Rightarrow> (None, fs, killed))
                   else (None, fs, killed)))))"

definition is_hex :: "char \<Rightarrow> bool" where
  "is_hex c = (is_digit c \<or> CHR ''a'' \<le> c \<and> c \<le> CHR ''f'' \<or> CHR ''A'' \<le> c \<and> c \<le> CHR ''F'')"

text \<open>The checks of an entry of the directory against the record in it.\<close>

definition record_sound :: "string \<Rightarrow> processRecord \<Rightarrow> bool" where
  "record_sound name r =
     (px_PID r > 0 \<and> px_Identity r \<noteq> [] \<and> length (px_Key r) = 64 \<and> list_all is_hex (px_Key r) \<and>
      (name = px_Key r @ ''.json'' \<or> name = px_Key r @ ''.json.tmp''))"

definition clear_record ::
  "record_codec \<Rightarrow> string \<Rightarrow> string \<Rightarrow> processRecord \<Rightarrow> recovery \<Rightarrow> string option \<times> recovery" where
  "clear_record C dataDir name r w =
     (if name = px_Key r @ ''.json.tmp'' then
        (case remove_file (Join [processes_dir dataDir, name]) (fst w) of
           None \<Rightarrow> (Some ''cannot remove the record'', w)
         | Some fs \<Rightarrow> (None, fs, snd w))
      else (case forgetProcess C dataDir r (fst w) of (e, fs) \<Rightarrow> (e, fs, snd w)))"

definition recover_jail_part :: "os_env \<Rightarrow> processRecord \<Rightarrow> recovery \<Rightarrow> string option \<times> recovery" where
  "recover_jail_part E r w = (if px_Jail r \<noteq> [] then recoverBastilleRecord E r w else (None, w))"

definition recover_record ::
  "record_codec \<Rightarrow> os_env \<Rightarrow> string \<Rightarrow> string \<Rightarrow> processRecord \<Rightarrow> recovery \<Rightarrow> string option \<times> recovery" where
  "recover_record C E dataDir name r w =
     (let finish = (\<lambda>w. case recover_jail_part E r w of
            (Some e, w) \<Rightarrow> (Some e, w)
          | (None, w) \<Rightarrow> clear_record C dataDir name r w) in
      case oe_identity E (px_PID r) of
        NoProcess \<Rightarrow> finish w
      | Identity i \<Rightarrow>
          if i \<noteq> px_Identity r then clear_record C dataDir name r w
          else
            (case oe_terminate E (px_PID r) (px_Identity r) of
               Some e \<Rightarrow> (Some e, w)
             | None \<Rightarrow> finish (fst w, px_PID r # snd w))
      | Unsupported_identity \<Rightarrow> (Some ''identity unsupported'', w)
      | IdentityFails e \<Rightarrow> (Some e, w))"

definition recover_entry ::
  "record_codec \<Rightarrow> os_env \<Rightarrow> string \<Rightarrow> string \<Rightarrow> recovery \<Rightarrow> string option \<times> recovery" where
  "recover_entry C E dataDir name w =
     (case node_at (fst w) (Join [processes_dir dataDir, name]) of
        Some (FFile data) \<Rightarrow>
          (case rc_parse C data of
             None \<Rightarrow> (Some (''bad record: '' @ name), w)
           | Some r \<Rightarrow>
               if \<not> record_sound name r then (Some (''bad identity: '' @ name), w)
               else recover_record C E dataDir name r w)
      | _ \<Rightarrow> (Some (''cannot read '' @ name), w))"

fun recover_entries ::
  "record_codec \<Rightarrow> os_env \<Rightarrow> string \<Rightarrow> string list \<Rightarrow> recovery \<Rightarrow> string option \<times> recovery" where
  "recover_entries C E dataDir [] w = (None, w)"
| "recover_entries C E dataDir (n # ns) w =
     (case recover_entry C E dataDir n w of
        (Some e, w) \<Rightarrow> (Some e, w)
      | (None, w) \<Rightarrow> recover_entries C E dataDir ns w)"

text \<open>Directories and files with other names are passed over; the list is read once.\<close>

definition record_names :: "string \<Rightarrow> fs \<Rightarrow> string list" where
  "record_names dataDir fs =
     (case ReadDir (processes_dir dataDir) fs of
        None \<Rightarrow> []
      | Some ns \<Rightarrow>
          filter (\<lambda>n. fmlookup fs (root_words (processes_dir dataDir) @ [n]) \<noteq> Some FDir \<and>
            (HasSuffix n ''.json'' \<or> HasSuffix n ''.json.tmp'')) ns)"

definition recoverOrphanProcesses :: "record_codec \<Rightarrow> os_env \<Rightarrow> string \<Rightarrow> fs \<Rightarrow> string option \<times> recovery" where
  "recoverOrphanProcesses C E dataDir fs =
     (case node_at fs (processes_dir dataDir) of
        Some (FFile _) \<Rightarrow> (Some ''cannot read the directory'', fs, [])
      | _ \<Rightarrow> recover_entries C E dataDir (record_names dataDir fs) (fs, []))"

end
