(* ===== verification/JailSessions.thy ===== *)
theory JailSessions
  imports ProcRecords
begin

text \<open>
  Run sessions in jails (cmd/irix-node/container_bastille.go, handlers in container.go): a command
  that runs in a jail in the background, with its output in memory and on disk. The reading of the
  output, the end of the process and every request are steps on the table of sessions and the file
  system; the outcomes of system calls are arguments. Bytes are characters.
\<close>

definition sessionLogMaxBytes :: nat where "sessionLogMaxBytes = 2 ^ 20"
definition sessionDiskMaxBytes :: nat where "sessionDiskMaxBytes = 20 * 2 ^ 20"
definition sessionDiskTrimBytes :: nat where "sessionDiskTrimBytes = 5 * 2 ^ 20"
definition sessionRetain :: int where "sessionRetain = 30 * 60 * 10 ^ 9"
definition maxBastilleSessions :: nat where "maxBastilleSessions = 32"

subsection \<open>The log in memory\<close>

record sessionLog =
  slog_buf :: string
  slog_max :: nat
  slog_dropped :: nat

definition newSessionLog :: sessionLog where
  "newSessionLog = \<lparr>slog_buf = [], slog_max = sessionLogMaxBytes, slog_dropped = 0\<rparr>"

definition sessionLog_write :: "sessionLog \<Rightarrow> string \<Rightarrow> sessionLog" where
  "sessionLog_write l p =
     (if length p \<ge> slog_max l then
        l\<lparr>slog_buf := drop (length p - slog_max l) p, slog_dropped := slog_dropped l + (length p - slog_max l)\<rparr>
      else if length (slog_buf l) + length p > slog_max l then
        let n = length (slog_buf l) + length p - slog_max l in
        l\<lparr>slog_buf := drop n (slog_buf l) @ p, slog_dropped := slog_dropped l + n\<rparr>
      else l\<lparr>slog_buf := slog_buf l @ p\<rparr>)"

definition lastNLines :: "string \<Rightarrow> int \<Rightarrow> string" where
  "lastNLines s n = join_with [CHR 0x0A] (lastn (nat n) (split_on (CHR 0x0A) s))"

text \<open>The text and the offset after it; positions count from the first byte ever written.\<close>

definition sessionLog_snapshot :: "sessionLog \<Rightarrow> int \<Rightarrow> int \<Rightarrow> string \<times> nat" where
  "sessionLog_snapshot l since tail =
     (let end_offset = slog_dropped l + length (slog_buf l) in
      if since \<le> 0 then (if tail > 0 then lastNLines (slog_buf l) tail else slog_buf l, end_offset)
      else if since < int (slog_dropped l) then (slog_buf l, end_offset)
      else (drop (nat since - slog_dropped l) (slog_buf l), end_offset))"

subsection \<open>The log on disk\<close>

text \<open>
  A file that is open for appending. Reading from a handle that was opened for writing only is an
  error of the system call.
\<close>

datatype open_mode = WriteOnly | ReadWrite

record sessionSink =
  sk_ring :: sessionLog
  sk_file :: "(string \<times> open_mode) option"
  sk_size :: nat

definition trimLocked :: "string \<Rightarrow> open_mode \<Rightarrow> nat \<Rightarrow> fs \<Rightarrow> nat \<times> fs" where
  "trimLocked p mode sz fs =
     (case node_at fs p of
        Some (FFile data) \<Rightarrow>
          if length data \<le> sessionDiskTrimBytes \<or> mode = WriteOnly then (sz, fs)
          else (sessionDiskTrimBytes, fmupd (root_words p) (FFile (lastn sessionDiskTrimBytes data)) fs)
      | _ \<Rightarrow> (sz, fs))"

definition sessionSink_Write :: "sessionSink \<Rightarrow> string \<Rightarrow> fs \<Rightarrow> sessionSink \<times> fs" where
  "sessionSink_Write sk p fs =
     (let sk = sk\<lparr>sk_ring := sessionLog_write (sk_ring sk) p\<rparr> in
      case sk_file sk of
        None \<Rightarrow> (sk, fs)
      | Some (path, mode) \<Rightarrow>
          let (sz, fs) = (if sk_size sk + length p > sessionDiskMaxBytes then trimLocked path mode (sk_size sk) fs
                          else (sk_size sk, fs))
          in (sk\<lparr>sk_size := sz + length p\<rparr>, append_file path p fs))"

definition sessionSink_Close :: "sessionSink \<Rightarrow> sessionSink" where
  "sessionSink_Close sk = sk\<lparr>sk_file := None\<rparr>"

subsection \<open>The table of sessions\<close>

record bastilleSession =
  ss_id :: string
  ss_jail :: string
  ss_cmd :: "string list"
  ss_pid :: int
  ss_sink :: sessionSink
  ss_watch :: bool
  ss_running :: bool
  ss_exitCode :: int
  ss_endedAt :: "instant option"
  ss_record :: processRecord

type_synonym sessionStore = "(string, bastilleSession) fmap"

definition session_expired :: "instant \<Rightarrow> bastilleSession \<Rightarrow> bool" where
  "session_expired now s \<longleftrightarrow>
     \<not> ss_running s \<and> (case ss_endedAt s of None \<Rightarrow> False | Some t \<Rightarrow> t < now - sessionRetain)"

definition sessions_where :: "(bastilleSession \<Rightarrow> bool) \<Rightarrow> sessionStore \<Rightarrow> sessionStore" where
  "sessions_where P m = fmfilter (\<lambda>i. case fmlookup m i of None \<Rightarrow> False | Some s \<Rightarrow> P s) m"

definition sweepLocked :: "instant \<Rightarrow> sessionStore \<Rightarrow> sessionStore" where
  "sweepLocked now m = sessions_where (\<lambda>s. \<not> session_expired now s) m"

definition session_create :: "instant \<Rightarrow> string \<Rightarrow> sessionStore \<Rightarrow> string \<times> sessionStore" where
  "session_create now uid m =
     (let m = sweepLocked now m in
      if maplen (sessions_where ss_running m) \<ge> maxBastilleSessions then ([], m) else (''s-'' @ uid, m))"

definition session_register :: "bastilleSession \<Rightarrow> sessionStore \<Rightarrow> sessionStore" where
  "session_register s m = fmupd (ss_id s) s m"

definition session_get :: "string \<Rightarrow> sessionStore \<Rightarrow> bastilleSession option" where
  "session_get i m = fmlookup m i"

definition session_remove :: "string \<Rightarrow> sessionStore \<Rightarrow> sessionStore" where
  "session_remove i m = fmdrop i m"

subsection \<open>Starting\<close>

definition session_dir :: "string \<Rightarrow> string" where
  "session_dir name = Join [bastilleRoot, ''run'', name]"

definition session_file :: "string \<Rightarrow> string \<Rightarrow> string" where
  "session_file name session = Join [bastilleRoot, ''run'', name, session @ ''.log'']"

definition session_command :: "string \<Rightarrow> string \<Rightarrow> string \<Rightarrow> string list" where
  "session_command name command cwd =
     [bastilleBin, ''cmd'', name, ''sh'', ''-c'',
      if cwd \<noteq> [] then ''cd '' @ cwd @ '' && '' @ command else command]"

text \<open>What the checks before a session need, and what is known of the process once it runs.\<close>

definition session_checks :: "engine \<Rightarrow> string \<Rightarrow> string \<Rightarrow> fs \<Rightarrow> int on_fs" where
  "session_checks run name command fs =
     (if command = [] then (Inl ''command missing'', fs)
      else if name \<notin> set (bastilleJailNames fs) then (Inl (''no such jail: '' @ name), fs)
      else
        (case bastilleRunningSet run fs of (running, fs) \<Rightarrow>
           if name \<notin> set running then (Inl (''jail not running: '' @ name), fs)
           else
             (case bastilleJID run name fs of
                (Inl e, fs) \<Rightarrow> (Inl ''cannot read the number of the jail'', fs)
              | (Inr jid, fs) \<Rightarrow> (Inr jid, fs))))"

text \<open>
  The whole of \<open>bastilleRunStart\<close>: \<open>pipes\<close> and \<open>started\<close> are the outcomes of making the pipes and
  of starting the process.
\<close>

definition bastilleRunStart ::
  "record_codec \<Rightarrow> os_env \<Rightarrow> string \<Rightarrow> instant \<Rightarrow> string \<Rightarrow> string option \<Rightarrow> string + int \<Rightarrow>
   string \<Rightarrow> string \<Rightarrow> string \<Rightarrow> bool \<Rightarrow> sessionStore \<Rightarrow> fs \<Rightarrow> (string + string) \<times> sessionStore \<times> fs" where
  "bastilleRunStart C E dataDir now uid pipes started name command cwd watch m fs =
     (case session_checks (oe_run E) name command fs of
        (Inl e, fs) \<Rightarrow> (Inl e, m, fs)
      | (Inr jid, fs) \<Rightarrow>
        (case session_create now uid m of (i, m) \<Rightarrow>
         if i = [] then (Inl ''too many sessions'', m, fs)
         else
           (case pipes of
              Some e \<Rightarrow> (Inl e, m, fs)
            | None \<Rightarrow>
              (case MkdirAll (session_dir name) fs of
                 None \<Rightarrow> (Inl ''cannot make the log directory'', m, fs)
               | Some fs \<Rightarrow>
                 (case OpenCreate (session_file name i) fs of
                    None \<Rightarrow> (Inl ''cannot create the log'', m, fs)
                  | Some fs \<Rightarrow>
                    (case started of
                       Inl e \<Rightarrow> (Inl e, m, drop_file (session_file name i) fs)
                     | Inr pid \<Rightarrow>
                       (case recordCommandProcess C E dataDir (''bastille:'' @ name @ '':'' @ i) pid name jid watch fs of
                          (Inl e, fs) \<Rightarrow> (Inl e, m, drop_file (session_file name i) fs)
                        | (Inr r, fs) \<Rightarrow>
                            (Inr i,
                             session_register
                               \<lparr>ss_id = i, ss_jail = name, ss_cmd = session_command name command cwd, ss_pid = pid,
                                ss_sink = \<lparr>sk_ring = newSessionLog, sk_file = Some (session_file name i, WriteOnly), sk_size = 0\<rparr>,
                                ss_watch = watch, ss_running = True, ss_exitCode = - 1, ss_endedAt = None, ss_record = r\<rparr> m,
                             fs))))))))"

subsection \<open>Output and end\<close>

definition session_output :: "string \<Rightarrow> string \<Rightarrow> sessionStore \<Rightarrow> fs \<Rightarrow> sessionStore \<times> fs" where
  "session_output i p m fs =
     (case fmlookup m i of
        None \<Rightarrow> (m, fs)
      | Some s \<Rightarrow> (case sessionSink_Write (ss_sink s) p fs of (sk, fs) \<Rightarrow> (fmupd i (s\<lparr>ss_sink := sk\<rparr>) m, fs)))"

definition note_line :: "string \<Rightarrow> string" where
  "note_line s = [CHR 0x0A] @ ''[irix-node] '' @ s @ [CHR 0x0A]"

text \<open>
  The end of the process: \<open>code\<close> is the exit code where waiting reports one, \<open>group\<close> the outcome of
  killing what is left of the process group.
\<close>

definition session_end ::
  "record_codec \<Rightarrow> os_env \<Rightarrow> string \<Rightarrow> instant \<Rightarrow> int option \<Rightarrow> string option \<Rightarrow> string \<Rightarrow> sessionStore \<Rightarrow> fs \<Rightarrow>
   sessionStore \<times> fs" where
  "session_end C E dataDir now code grp i m fs =
     (case fmlookup m i of
        None \<Rightarrow> (m, fs)
      | Some s \<Rightarrow>
        (case (case grp of None \<Rightarrow> (m, fs) | Some e \<Rightarrow> session_output i (note_line (''process group: '' @ e)) m fs) of (m, fs) \<Rightarrow>
        (let m = (case fmlookup m i of
               None \<Rightarrow> m
             | Some s \<Rightarrow> fmupd i (s\<lparr>ss_running := False, ss_exitCode := (case code of None \<Rightarrow> 0 | Some c \<Rightarrow> c),
                                  ss_endedAt := Some now\<rparr>) m) in
         case (if ss_watch s then
                 (case bastilleAction (oe_run E) (ss_jail s) ''stop'' False fs of
                    (Inl e, fs) \<Rightarrow> (True, session_output i (note_line (''watchdog: '' @ e)) m fs)
                  | (Inr _, fs) \<Rightarrow> (False, session_output i (note_line ''watchdog: jail stopped'') m fs))
               else (False, m, fs)) of (watch_failed, m, fs) \<Rightarrow>
         if grp = None \<and> \<not> watch_failed then
           (case forgetProcess C dataDir (ss_record s) fs of
              (None, fs) \<Rightarrow> (m, fs)
            | (Some e, fs) \<Rightarrow> session_output i (note_line (''record: '' @ e)) m fs)
         else (m, fs))))"

subsection \<open>Requests on a session\<close>

record session_status =
  st_running :: bool
  st_exitCode :: "int option"
  st_offset :: nat
  st_log :: string

definition bastilleRunStatus :: "string \<Rightarrow> string \<Rightarrow> int \<Rightarrow> int \<Rightarrow> sessionStore \<Rightarrow> fs \<Rightarrow> string + session_status" where
  "bastilleRunStatus name session tail since m fs =
     (if \<not> safePathSegment name then Inl (''bad jail name: '' @ name)
      else if \<not> safePathSegment session then Inl (''bad session: '' @ session)
      else
        (case session_get session m of
           None \<Rightarrow>
             (case ReadFile (session_file name session) fs of
                None \<Rightarrow> Inl (''no such session: '' @ session)
              | Some data \<Rightarrow>
                  Inr \<lparr>st_running = False, st_exitCode = None, st_offset = length data,
                       st_log = (if tail > 0 then lastNLines data tail else data)\<rparr>)
         | Some s \<Rightarrow>
             if ss_jail s \<noteq> name then Inl (''session of another jail: '' @ session)
             else
               (case sessionLog_snapshot (sk_ring (ss_sink s)) since tail of (log, off) \<Rightarrow>
                  Inr \<lparr>st_running = ss_running s, st_exitCode = (if ss_running s then None else Some (ss_exitCode s)),
                       st_offset = off, st_log = log\<rparr>)))"

definition session_of :: "string \<Rightarrow> string \<Rightarrow> sessionStore \<Rightarrow> string + bastilleSession" where
  "session_of name session m =
     (case session_get session m of
        None \<Rightarrow> Inl (''no such session: '' @ session)
      | Some s \<Rightarrow> if ss_jail s \<noteq> name then Inl (''session of another jail: '' @ session) else Inr s)"

text \<open>\<open>io\<close> is the outcome of the write; the answer has what was written.\<close>

definition bastilleRunStdin :: "string option \<Rightarrow> string \<Rightarrow> string \<Rightarrow> string \<Rightarrow> sessionStore \<Rightarrow> string + string" where
  "bastilleRunStdin io name session input m =
     (case session_of name session m of
        Inl e \<Rightarrow> Inl e
      | Inr s \<Rightarrow>
          if \<not> ss_running s then Inl (''session has ended: '' @ session)
          else (case io of Some e \<Rightarrow> Inl e | None \<Rightarrow> Inr input))"

datatype signal = SIGTERM | SIGKILL

text \<open>
  Outcomes of the calls of a stop: the errors of the signals (a missing group is none), and whether
  the session ends in time after each.
\<close>

record stop_io =
  sp_term :: "string option"
  sp_ends :: bool
  sp_kill :: "string option"
  sp_killed :: bool

definition kill_and_wait :: "stop_io \<Rightarrow> string option" where
  "kill_and_wait io =
     (case sp_kill io of Some e \<Rightarrow> Some e | None \<Rightarrow> if sp_killed io then None else Some ''session did not end in time'')"

definition bastilleRunStop :: "stop_io \<Rightarrow> string \<Rightarrow> string \<Rightarrow> sessionStore \<Rightarrow> string option \<times> (int \<times> signal) list" where
  "bastilleRunStop io name session m =
     (case session_of name session m of
        Inl e \<Rightarrow> (Some e, [])
      | Inr s \<Rightarrow>
          if \<not> ss_running s then (None, [])
          else
            (case sp_term io of
               Some e \<Rightarrow> (Some e, [(ss_pid s, SIGTERM)])
             | None \<Rightarrow>
                 if sp_ends io then (None, [(ss_pid s, SIGTERM)])
                 else (kill_and_wait io, [(ss_pid s, SIGTERM), (ss_pid s, SIGKILL)])))"

definition bastilleRunDelete ::
  "stop_io \<Rightarrow> string \<Rightarrow> string \<Rightarrow> sessionStore \<Rightarrow> fs \<Rightarrow> string option \<times> (int \<times> signal) list \<times> sessionStore \<times> fs" where
  "bastilleRunDelete io name session m fs =
     (if \<not> safePathSegment name then (Some (''bad jail name: '' @ name), [], m, fs)
      else if \<not> safePathSegment session then (Some (''bad session: '' @ session), [], m, fs)
      else
        let fs' = drop_file (session_file name session) fs in
        (case session_get session m of
           None \<Rightarrow> (None, [], m, fs')
         | Some s \<Rightarrow>
             if ss_jail s \<noteq> name then (Some (''session of another jail: '' @ session), [], m, fs)
             else if ss_running s then
               (case kill_and_wait io of
                  Some e \<Rightarrow> (Some e, [(ss_pid s, SIGKILL)], m, fs)
                | None \<Rightarrow> (None, [(ss_pid s, SIGKILL)], session_remove session m, fs'))
             else (None, [], session_remove session m, fs')))"

text \<open>At shutdown every running session is stopped; the errors, in the order of the sessions.\<close>

definition bastilleStopAll :: "(string \<Rightarrow> stop_io) \<Rightarrow> string list \<Rightarrow> sessionStore \<Rightarrow> string list" where
  "bastilleStopAll io order m =
     List.map_filter (\<lambda>i. case fmlookup m i of
         None \<Rightarrow> None
       | Some s \<Rightarrow> if ss_running s then fst (bastilleRunStop (io i) (ss_jail s) (ss_id s) m) else None) order"

subsection \<open>Handlers\<close>

definition handleBastilleRunStart ::
  "record_codec \<Rightarrow> os_env \<Rightarrow> string \<Rightarrow> instant \<Rightarrow> string \<Rightarrow> string option \<Rightarrow> string + int \<Rightarrow> string \<Rightarrow>
   (string \<times> string \<times> bool) option \<Rightarrow> sessionStore \<Rightarrow> fs \<Rightarrow> string reply \<times> sessionStore \<times> fs" where
  "handleBastilleRunStart C E dataDir now uid pipes started name body m fs =
     (case body of
        None \<Rightarrow> (Fail 400 ''malformed body'', m, fs)
      | Some (command, cwd, watch) \<Rightarrow>
          if command = [] then (Fail 400 ''command missing'', m, fs)
          else (case bastilleRunStart C E dataDir now uid pipes started name command cwd watch m fs of
                  (r, m, fs) \<Rightarrow> (jail_reply r, m, fs)))"

definition handleBastilleRunStatus :: "string \<Rightarrow> string \<Rightarrow> string \<Rightarrow> string \<Rightarrow> sessionStore \<Rightarrow> fs \<Rightarrow> session_status reply" where
  "handleBastilleRunStatus name session tailQ sinceQ m fs =
     jail_reply (bastilleRunStatus name session (tail_of 200 tailQ) (tail_of 0 sinceQ) m fs)"

definition handleBastilleRunStdin ::
  "string option \<Rightarrow> string \<Rightarrow> string \<Rightarrow> string option \<Rightarrow> sessionStore \<Rightarrow> string reply" where
  "handleBastilleRunStdin io name session body m =
     (case body of
        None \<Rightarrow> Fail 400 ''malformed body''
      | Some input \<Rightarrow> jail_reply (bastilleRunStdin io name session input m))"

definition error_reply :: "string option \<Rightarrow> unit reply" where
  "error_reply e = (case e of None \<Rightarrow> Reply () | Some e \<Rightarrow> jail_reply (Inl e))"

definition handleBastilleRunStop ::
  "stop_io \<Rightarrow> string \<Rightarrow> string \<Rightarrow> sessionStore \<Rightarrow> unit reply \<times> (int \<times> signal) list" where
  "handleBastilleRunStop io name session m =
     (case bastilleRunStop io name session m of (e, signals) \<Rightarrow> (error_reply e, signals))"

definition handleBastilleRunDelete ::
  "stop_io \<Rightarrow> string \<Rightarrow> string \<Rightarrow> sessionStore \<Rightarrow> fs \<Rightarrow> unit reply \<times> (int \<times> signal) list \<times> sessionStore \<times> fs" where
  "handleBastilleRunDelete io name session m fs =
     (case bastilleRunDelete io name session m fs of (e, signals, m, fs) \<Rightarrow> (error_reply e, signals, m, fs))"

end
