(* ===== verification/ProcSafety.thy ===== *)
theory ProcSafety
  imports ProcRecords JailSafety TrashSafety
begin

text \<open>
  What the recovery of \<open>ProcRecords\<close> does: it kills only what a record names and the system still
  identifies, it clears every record it has dealt with, and one unreadable record stops it for good.
\<close>

subsection \<open>Names and places of records\<close>

text \<open>The node's data directory is absolute; \<open>record_at\<close> is the place of an entry.\<close>

definition record_at :: "string list \<Rightarrow> string \<Rightarrow> string list" where
  "record_at dw n = dw @ [''processes'', n]"

lemma record_at_inject [simp]: "record_at dw n = record_at dw m \<longleftrightarrow> n = m"
  by (simp add: record_at_def)

lemma processes_word [simp]: "real_word ''processes''"
  by code_simp

lemma record_paths:
  assumes "list_all real_word dw" "real_word n"
  shows "processes_dir (abs_path dw) = abs_path (dw @ [''processes''])"
    "root_words (Join [processes_dir (abs_path dw), n]) = record_at dw n"
    "root_words (Join [abs_path dw, ''processes'', n]) = record_at dw n"
proof -
  show p: "processes_dir (abs_path dw) = abs_path (dw @ [''processes''])"
    using Join_real [OF assms(1) processes_word] by (simp add: processes_dir_def)
  have "list_all real_word (dw @ [''processes''])" using assms(1) by simp
  then show "root_words (Join [processes_dir (abs_path dw), n]) = record_at dw n"
    using Join_real [of "dw @ [''processes'']" n] assms by (simp add: p record_at_def)
  show "root_words (Join [abs_path dw, ''processes'', n]) = record_at dw n"
    using Join_three [OF assms(1) processes_word assms(2)] assms by (simp add: record_at_def)
qed

lemma distinct_children: "distinct (children ws fs)"
proof -
  have "inj_on last {k. k \<noteq> [] \<and> butlast k = ws}"
    by (auto simp: inj_on_def) (metis append_butlast_last_id)
  then have "inj_on last (set (filter (\<lambda>k. k \<noteq> [] \<and> butlast k = ws) (fs_keys fs)))"
    by (rule inj_on_subset) auto
  moreover have "distinct (fs_keys fs)" by (simp add: fs_keys_def sorted_list_of_fset.rep_eq)
  ultimately show ?thesis by (simp add: children_def distinct_map)
qed

lemma hex_name_real:
  assumes "record_sound n r"
  shows "real_word n"
proof -
  have "\<not> is_hex SEP" by code_simp
  then have "SEP \<notin> set (px_Key r)" using assms by (auto simp: record_sound_def list_all_iff)
  moreover have "length n > 2" using assms by (auto simp: record_sound_def)
  then have "n \<noteq> []" "n \<noteq> ''.''" "n \<noteq> ''..''" by auto
  ultimately show ?thesis using assms by (auto simp: record_sound_def real_word_def plain_word_def)
qed

subsection \<open>One record\<close>

definition quiet :: "os_env \<Rightarrow> bool" where
  "quiet E = (\<forall>args g. snd (oe_run E args g) = g)"

lemma quiet_run: "quiet E \<Longrightarrow> oe_run E args g = (fst (oe_run E args g), g)"
  by (simp add: quiet_def prod_eq_iff)

lemma jail_part_outcome:
  assumes "quiet E"
  shows "\<exists>e ks'. recover_jail_part E r (fs, ks) = (e, fs, ks' @ ks) \<and> set ks' \<subseteq> {px_PID r} \<and> (px_Jail r = [] \<longrightarrow> ks' = [])"
proof -
  have q: "oe_run E a g = (x, h) \<Longrightarrow> h = g" for a g x h using assms by (metis quiet_def snd_conv)
  have j: "bastilleJID (oe_run E) nm fs = (x, h) \<Longrightarrow> h = fs" for nm x h
    by (auto simp: bastilleJID_def split: prod.splits sum.splits option.splits dest: q)
  have a: "bastilleAction (oe_run E) nm act b g = (x, h) \<Longrightarrow> h = g" for nm act b x g h
    by (auto simp: bastilleAction_def run_quietly_def split: prod.splits dest: q)
  show ?thesis
    unfolding recover_jail_part_def recoverBastilleRecord_def
    by (auto simp: Let_def split: prod.split sum.split option.split dest: q j a
        intro: exI [of _ "[]"] exI [of _ "[px_PID r]"])
qed

lemma clear_record_done:
  assumes "list_all real_word dw" "record_sound n r" "fmlookup fs (record_at dw n) = Some (FFile data)" "rc_parse C data = Some r"
  shows "clear_record C (abs_path dw) n r (fs, ks) = (None, fmdrop (record_at dw n) fs, ks)"
proof -
  have n: "real_word n" using hex_name_real [OF assms(2)] .
  note p = record_paths [OF assms(1) n]
  have rm: "remove_file q fs = Some (fmdrop (record_at dw n) fs)" if "root_words q = record_at dw n" for q
    using that assms(3) by (simp add: remove_file_def node_at_def)
  show ?thesis
  proof (cases "n = px_Key r @ ''.json.tmp''")
    case True
    then show ?thesis using rm [OF p(2)] by (simp add: clear_record_def)
  next
    case False
    then have "n = px_Key r @ ''.json''" "px_Identity r \<noteq> []" using assms(2) by (auto simp: record_sound_def)
    then have "forgetProcess C (abs_path dw) r fs = (None, fmdrop (record_at dw n) fs)"
      using rm [OF p(3)] p(3) assms(3,4) by (simp add: forgetProcess_def processRecordFile_def Let_def node_at_def drop_file_def)
    then show ?thesis using False by (simp add: clear_record_def)
  qed
qed

text \<open>
  A process group that may be killed: a record names it, and the system identifies the process as
  the recorded one, or the process is gone and the record is that of a session in a jail.
\<close>

definition orphan :: "record_codec \<Rightarrow> os_env \<Rightarrow> string list \<Rightarrow> fs \<Rightarrow> string \<Rightarrow> int \<Rightarrow> bool" where
  "orphan C E dw fs n p \<longleftrightarrow>
     (\<exists>data r. fmlookup fs (record_at dw n) = Some (FFile data) \<and> rc_parse C data = Some r \<and> record_sound n r \<and> px_PID r = p \<and>
        (oe_identity E p = Identity (px_Identity r) \<or> oe_identity E p = NoProcess \<and> px_Jail r \<noteq> []))"

definition settled :: "record_codec \<Rightarrow> os_env \<Rightarrow> string list \<Rightarrow> fs \<Rightarrow> string \<Rightarrow> int list \<Rightarrow> bool" where
  "settled C E dw fs n ks \<longleftrightarrow>
     (\<exists>data r. fmlookup fs (record_at dw n) = Some (FFile data) \<and> rc_parse C data = Some r \<and> record_sound n r \<and>
        (oe_identity E (px_PID r) = Identity (px_Identity r) \<longrightarrow> px_PID r \<in> set ks))"

lemma recover_entry_outcome:
  assumes "quiet E" "list_all real_word dw" "real_word n"
  shows "\<exists>e ks'. recover_entry C E (abs_path dw) n (fs, ks) = (e, (if e = None then fmdrop (record_at dw n) fs else fs), ks' @ ks) \<and>
    (\<forall>p \<in> set ks'. orphan C E dw fs n p) \<and> (e = None \<longrightarrow> settled C E dw fs n ks')"
proof -
  note p = record_paths(2) [OF assms(2,3)]
  have failed: ?thesis if "recover_entry C E (abs_path dw) n (fs, ks) = (Some e, fs, ks)" for e
    using that by (intro exI [of _ "Some e"] exI [of _ "[]"]) simp
  show ?thesis
  proof (cases "\<exists>data r. fmlookup fs (record_at dw n) = Some (FFile data) \<and> rc_parse C data = Some r \<and> record_sound n r")
    case False
    then have "\<exists>e. recover_entry C E (abs_path dw) n (fs, ks) = (Some e, fs, ks)"
      by (auto simp: recover_entry_def node_at_def p split: option.split fnode.split)
    then show ?thesis using failed by blast
  next
    case True
    then obtain data r where r: "fmlookup fs (record_at dw n) = Some (FFile data)" "rc_parse C data = Some r" "record_sound n r"
      by blast
    note clear = clear_record_done [OF assms(2) r(3,1,2)]
    have e: "recover_entry C E (abs_path dw) n (fs, ks) = recover_record C E (abs_path dw) n r (fs, ks)"
      using r by (simp add: recover_entry_def node_at_def p)
    have finish: "\<exists>e ks'. (case recover_jail_part E r (fs, ks0) of (Some e, w) \<Rightarrow> (Some e, w)
          | (None, w) \<Rightarrow> clear_record C (abs_path dw) n r w) = (e, (if e = None then fmdrop (record_at dw n) fs else fs), ks' @ ks0) \<and>
        set ks' \<subseteq> {px_PID r} \<and> (px_Jail r = [] \<longrightarrow> ks' = [])" for ks0
    proof -
      obtain e ks' where j: "recover_jail_part E r (fs, ks0) = (e, fs, ks' @ ks0)" "set ks' \<subseteq> {px_PID r}" "px_Jail r = [] \<longrightarrow> ks' = []"
        using jail_part_outcome [OF assms(1)] by blast
      then show ?thesis using clear by (cases e) auto
    qed
    show ?thesis
    proof (cases "oe_identity E (px_PID r)")
      case NoProcess
      obtain e' ks' where f: "recover_record C E (abs_path dw) n r (fs, ks) = (e', (if e' = None then fmdrop (record_at dw n) fs else fs), ks' @ ks)"
        "set ks' \<subseteq> {px_PID r}" "px_Jail r = [] \<longrightarrow> ks' = []"
        using finish [of ks] NoProcess by (auto simp: recover_record_def Let_def)
      moreover have "\<forall>p \<in> set ks'. orphan C E dw fs n p"
        using f(2,3) r NoProcess by (auto simp: orphan_def)
      moreover have "settled C E dw fs n ks'" using r NoProcess by (auto simp: settled_def)
      ultimately show ?thesis using e by metis
    next
      case (Identity i)
      show ?thesis
      proof (cases "i = px_Identity r \<and> oe_terminate E (px_PID r) (px_Identity r) = None")
        case True
        obtain e' ks' where f: "recover_record C E (abs_path dw) n r (fs, ks) =
            (e', (if e' = None then fmdrop (record_at dw n) fs else fs), (ks' @ [px_PID r]) @ ks)" "set ks' \<subseteq> {px_PID r}"
          using finish [of "px_PID r # ks"] Identity True by (auto simp: recover_record_def Let_def)
        moreover have "\<forall>p \<in> set (ks' @ [px_PID r]). orphan C E dw fs n p"
          using f(2) r Identity True by (auto simp: orphan_def)
        moreover have "settled C E dw fs n (ks' @ [px_PID r])" using r by (auto simp: settled_def)
        ultimately show ?thesis using e by metis
      next
        case False
        show ?thesis
        proof (cases "i = px_Identity r")
          case True
          then show ?thesis using False Identity e failed by (auto simp: recover_record_def Let_def)
        next
          case ne: False
          then have "recover_record C E (abs_path dw) n r (fs, ks) = (None, fmdrop (record_at dw n) fs, [] @ ks)"
            using Identity clear by (simp add: recover_record_def Let_def)
          moreover have "settled C E dw fs n []" using r ne Identity by (auto simp: settled_def)
          ultimately show ?thesis using e by (intro exI [of _ None] exI [of _ "[]"]) simp
        qed
      qed
    qed (use e failed in \<open>auto simp: recover_record_def Let_def\<close>)
  qed
qed
subsection \<open>The whole recovery\<close>

lemma recover_entries_outcome:
  assumes "quiet E" "list_all real_word dw"
  shows "distinct ns \<Longrightarrow> list_all real_word ns \<Longrightarrow>
    \<exists>e cleared fs' ks'. recover_entries C E (abs_path dw) ns (fs, ks) = (e, fs', ks' @ ks) \<and>
      (\<forall>x. fmlookup fs' x = (if x \<in> record_at dw ` cleared then None else fmlookup fs x)) \<and>
      cleared \<subseteq> set ns \<and> (e = None \<longrightarrow> cleared = set ns) \<and>
      (\<forall>p \<in> set ks'. \<exists>n \<in> set ns. orphan C E dw fs n p) \<and> (\<forall>n \<in> cleared. settled C E dw fs n ks')"
proof (induction ns arbitrary: fs ks)
  case Nil
  then show ?case by (intro exI [of _ None] exI [of _ "{}"] exI [of _ fs] exI [of _ "[]"]) simp
next
  case (Cons n ns)
  then have n: "real_word n" "distinct ns" "list_all real_word ns" "n \<notin> set ns" by auto
  obtain e1 ks1 where 1: "recover_entry C E (abs_path dw) n (fs, ks) = (e1, (if e1 = None then fmdrop (record_at dw n) fs else fs), ks1 @ ks)"
    "\<forall>p \<in> set ks1. orphan C E dw fs n p" "e1 = None \<longrightarrow> settled C E dw fs n ks1"
    using recover_entry_outcome [OF assms n(1)] by blast
  show ?case
  proof (cases e1)
    case (Some e)
    then show ?thesis
      using 1 by (intro exI [of _ "Some e"] exI [of _ "{}"] exI [of _ fs] exI [of _ ks1]) auto
  next
    case None
    let ?fs = "fmdrop (record_at dw n) fs"
    obtain e2 cl fs2 ks2 where 2: "recover_entries C E (abs_path dw) ns (?fs, ks1 @ ks) = (e2, fs2, ks2 @ ks1 @ ks)"
      "\<forall>x. fmlookup fs2 x = (if x \<in> record_at dw ` cl then None else fmlookup ?fs x)"
      "cl \<subseteq> set ns" "e2 = None \<longrightarrow> cl = set ns" "\<forall>p \<in> set ks2. \<exists>m \<in> set ns. orphan C E dw ?fs m p"
      "\<forall>m \<in> cl. settled C E dw ?fs m ks2"
      using Cons.IH [OF n(2,3), of ?fs "ks1 @ ks"] by blast
    have sub: "orphan C E dw ?fs m p \<Longrightarrow> orphan C E dw fs m p" "settled C E dw ?fs m ks2 \<Longrightarrow> settled C E dw fs m (ks2 @ ks1)" for m p
      unfolding orphan_def settled_def by (auto split: if_splits)
    have "settled C E dw fs n (ks2 @ ks1)" using 1(3) None unfolding settled_def by auto
    then have "\<forall>m \<in> insert n cl. settled C E dw fs m (ks2 @ ks1)" using 2(6) sub(2) by blast
    moreover have "\<forall>p \<in> set (ks2 @ ks1). \<exists>m \<in> set (n # ns). orphan C E dw fs m p" using 2(5) 1(2) sub(1) by (fastforce simp del: fmlookup_drop)
    moreover have "\<forall>x. fmlookup fs2 x = (if x \<in> record_at dw ` insert n cl then None else fmlookup fs x)" using 2(2) by auto
    moreover have "recover_entries C E (abs_path dw) (n # ns) (fs, ks) = (e2, fs2, (ks2 @ ks1) @ ks)" using 1(1) 2(1) None by simp
    ultimately show ?thesis using 2(3,4)
      by (intro exI [of _ e2] exI [of _ "insert n cl"] exI [of _ fs2] exI [of _ "ks2 @ ks1"]) auto
  qed
qed

definition recorded :: "string list \<Rightarrow> fs \<Rightarrow> string list" where
  "recorded dw fs = record_names (abs_path dw) fs"

lemma recorded_names:
  assumes "fs_ok fs"
  shows "distinct (recorded dw fs)" "list_all real_word (recorded dw fs)"
proof -
  show "distinct (recorded dw fs)"
    by (auto simp: recorded_def record_names_def ReadDir_def distinct_children split: option.split)
  have "real_word n" if "n \<in> set (children ws fs)" for n ws
    using fs_ok_real [OF assms, of "ws @ [n]"] that by (simp add: children_iff)
  then show "list_all real_word (recorded dw fs)"
    by (auto simp: recorded_def record_names_def ReadDir_def list_all_iff split: option.splits if_splits)
qed

lemma recovery_outcome:
  assumes "quiet E" "list_all real_word dw" "fs_ok fs" "\<And>x. fmlookup fs (dw @ [''processes'']) \<noteq> Some (FFile x)"
  shows "\<exists>e cleared fs' ks. recoverOrphanProcesses C E (abs_path dw) fs = (e, fs', ks) \<and>
      (\<forall>x. fmlookup fs' x = (if x \<in> record_at dw ` cleared then None else fmlookup fs x)) \<and>
      cleared \<subseteq> set (recorded dw fs) \<and> (e = None \<longrightarrow> cleared = set (recorded dw fs)) \<and>
      (\<forall>p \<in> set ks. \<exists>n \<in> set (recorded dw fs). orphan C E dw fs n p) \<and> (\<forall>n \<in> cleared. settled C E dw fs n ks)"
proof -
  have "real_word ''x''" by code_simp
  then have "node_at fs (processes_dir (abs_path dw)) = fmlookup fs (dw @ [''processes''])"
    using record_paths(1) [OF assms(2)] assms(2) by (simp add: node_at_def)
  then have "recoverOrphanProcesses C E (abs_path dw) fs = recover_entries C E (abs_path dw) (recorded dw fs) (fs, [])"
    using assms(4) by (auto simp: recoverOrphanProcesses_def recorded_def split: option.split fnode.split)
  then show ?thesis
    using recover_entries_outcome [OF assms(1,2) recorded_names [OF assms(3)], where C = C and fs = fs and ks = "[]"] by simp
qed


text \<open>
  A recovery that succeeds leaves nothing behind: every recorded process that still runs has
  been killed, every record file is gone, and no other file is touched.
\<close>

theorem recovery_leaves_nothing:
  assumes "quiet E" "list_all real_word dw" "fs_ok fs" "\<And>x. fmlookup fs (dw @ [''processes'']) \<noteq> Some (FFile x)"
    "recoverOrphanProcesses C E (abs_path dw) fs = (None, fs', ks)"
  shows "(\<forall>n \<in> set (recorded dw fs). \<exists>data r. fmlookup fs (record_at dw n) = Some (FFile data) \<and> rc_parse C data = Some r \<and>
      (oe_identity E (px_PID r) = Identity (px_Identity r) \<longrightarrow> px_PID r \<in> set ks)) \<and>
    (\<forall>x. fmlookup fs' x = (if x \<in> record_at dw ` set (recorded dw fs) then None else fmlookup fs x))"
  using recovery_outcome [OF assms(1-4), of C] assms(5) unfolding settled_def by fastforce

text \<open>
  One torn record keeps the node from starting. If a crash left a record file that cannot be
  parsed, such as the empty temporary file of a write that was cut short, the recovery fails, the
  file stays, and so it fails at every later start.
\<close>

theorem torn_record_blocks_start:
  assumes "quiet E" "list_all real_word dw" "fs_ok fs" "\<And>x. fmlookup fs (dw @ [''processes'']) \<noteq> Some (FFile x)"
    "n \<in> set (recorded dw fs)" "fmlookup fs (dw @ [''processes'', n]) = Some (FFile data)" "rc_parse C data = None"
  shows "\<exists>e fs' ks. recoverOrphanProcesses C E (abs_path dw) fs = (Some e, fs', ks) \<and>
    fmlookup fs' (dw @ [''processes'', n]) = Some (FFile data)"
proof -
  obtain e cleared fs' ks where o: "recoverOrphanProcesses C E (abs_path dw) fs = (e, fs', ks)"
    "\<forall>x. fmlookup fs' x = (if x \<in> record_at dw ` cleared then None else fmlookup fs x)"
    "e = None \<longrightarrow> cleared = set (recorded dw fs)" "\<forall>m \<in> cleared. settled C E dw fs m ks"
    using recovery_outcome [OF assms(1-4), of C] by blast
  have "\<not> settled C E dw fs n ks" using assms(6,7) by (auto simp: settled_def record_at_def)
  then have "n \<notin> cleared" using o(4) by blast
  moreover have "e \<noteq> None" using calculation o(3) assms(5) by blast
  ultimately show ?thesis using o(1,2) assms(6) by (auto simp: record_at_def)
qed

subsection \<open>An example\<close>

text \<open>A data directory with the record of a running process and the rest of a write cut short.\<close>

definition p_key :: string where
  "p_key = replicate 64 (CHR ''a'')"

definition p_record :: processRecord where
  "p_record = \<lparr>px_Key = p_key, px_PID = 4711, px_Identity = ''1234'', px_Jail = [], px_JID = 0, px_Watch = False\<rparr>"

definition p_codec :: record_codec where
  "p_codec = \<lparr>rc_key = (\<lambda>_. p_key), rc_print = (\<lambda>r. ''record''), rc_parse = (\<lambda>s. if s = ''record'' then Some p_record else None)\<rparr>"

definition p_env :: os_env where
  "p_env = \<lparr>oe_identity = (\<lambda>p. if p = 4711 then Identity ''1234'' else NoProcess), oe_terminate = (\<lambda>_ _. None),
     oe_kill = (\<lambda>_. None), oe_run = (\<lambda>args g. (Inl ''no such program'', g))\<rparr>"

definition p_tree :: "(string \<times> string) list \<Rightarrow> (string list \<times> fnode) list" where
  "p_tree files = ([], FDir) # ([''data''], FDir) # ([''data'', ''processes''], FDir) #
     map (\<lambda>(n, d). ([''data'', ''processes'', n], FFile d)) files"

definition p_fs :: fs where
  "p_fs = fmap_of_list (p_tree [(p_key @ ''.json'', ''record'')])"

definition p_torn :: fs where
  "p_torn = fmap_of_list (p_tree [(p_key @ ''.json.tmp'', [])])"

lemma p_facts:
  "quiet p_env" "list_all real_word [''data'']"
  "fmlookup p_fs [''data'', ''processes''] = Some FDir" "fmlookup p_torn [''data'', ''processes''] = Some FDir"
  "fmlookup p_fs [''data'', ''processes'', p_key @ ''.json''] = Some (FFile ''record'')"
  "fmlookup p_torn [''data'', ''processes'', p_key @ ''.json.tmp''] = Some (FFile [])"
proof -
  show "quiet p_env" by (simp add: quiet_def p_env_def)
  show "list_all real_word [''data'']" by code_simp
  show "fmlookup p_fs [''data'', ''processes''] = Some FDir" "fmlookup p_torn [''data'', ''processes''] = Some FDir"
    "fmlookup p_fs [''data'', ''processes'', p_key @ ''.json''] = Some (FFile ''record'')"
    "fmlookup p_torn [''data'', ''processes'', p_key @ ''.json.tmp''] = Some (FFile [])"
    by (simp_all add: p_fs_def p_torn_def p_tree_def fmlookup_of_list)
qed

lemma p_ok: "fs_ok p_fs" "fs_ok p_torn"
  unfolding p_fs_def p_torn_def by (rule fs_ok_list; code_simp)+

lemma p_recorded: "set (recorded [''data''] p_fs) = {p_key @ ''.json''}" "p_key @ ''.json.tmp'' \<in> set (recorded [''data''] p_torn)"
proof -
  have "root_words (processes_dir (abs_path [''data''])) = [''data'', ''processes'']" by code_simp
  moreover have "HasSuffix (p_key @ ''.json'') ''.json''" "HasSuffix (p_key @ ''.json.tmp'') ''.json.tmp''"
    by (simp_all add: HasSuffix_iff suffixI)
  ultimately show "set (recorded [''data''] p_fs) = {p_key @ ''.json''}" "p_key @ ''.json.tmp'' \<in> set (recorded [''data''] p_torn)"
    using p_facts
    by (auto simp: recorded_def record_names_def ReadDir_def node_at_def children_iff p_fs_def p_torn_def p_tree_def
        fmlookup_of_list split: if_splits)
qed

lemma distinct_singleton: "distinct xs \<Longrightarrow> set xs = {x} \<Longrightarrow> xs = [x]"
  by (cases xs) (auto simp: subset_singleton_iff)

lemma p_run:
  "\<exists>fs'. recoverOrphanProcesses p_codec p_env (abs_path [''data'']) p_fs = (None, fs', [4711])"
proof -
  have k: "record_sound (p_key @ ''.json'') p_record" by code_simp
  have "recorded [''data''] p_fs = [p_key @ ''.json'']"
    by (rule distinct_singleton [OF recorded_names(1) [OF p_ok(1)] p_recorded(1)])
  then have names: "record_names (abs_path [''data'']) p_fs = [p_key @ ''.json'']" by (simp add: recorded_def)
  have "real_word (p_key @ ''.json'')" using hex_name_real [OF k] .
  note w = record_paths(2) [OF p_facts(2) this]
  have dir: "node_at p_fs (processes_dir (abs_path [''data''])) = Some FDir"
    using record_paths(1) [OF p_facts(2)] p_facts(2,3) by (simp add: node_at_def)
  have r: "px_PID p_record = 4711" "px_Identity p_record = ''1234''" "px_Jail p_record = []" by (simp_all add: p_record_def)
  have parse: "rc_parse p_codec ''record'' = Some p_record" by (simp add: p_codec_def)
  have file_there: "fmlookup p_fs (record_at [''data''] (p_key @ ''.json'')) = Some (FFile ''record'')"
    using p_facts(5) by (simp add: record_at_def)
  define fs' where "fs' = fmdrop (record_at [''data''] (p_key @ ''.json'')) p_fs"
  have clear: "clear_record p_codec (abs_path [''data'']) (p_key @ ''.json'') p_record (p_fs, [4711]) = (None, fs', [4711])"
    unfolding fs'_def by (rule clear_record_done [OF p_facts(2) k file_there parse])
  have env: "oe_identity p_env 4711 = Identity ''1234''" "oe_terminate p_env 4711 i = None" for i by (simp_all add: p_env_def)
  have "recover_record p_codec p_env (abs_path [''data'']) (p_key @ ''.json'') p_record (p_fs, []) = (None, fs', [4711])"
    unfolding recover_record_def Let_def r env recover_jail_part_def by (simp add: clear)
  moreover have "node_at p_fs (Join [processes_dir (abs_path [''data'']), p_key @ ''.json'']) = Some (FFile ''record'')"
    unfolding node_at_def w by (rule file_there)
  ultimately have "recover_entry p_codec p_env (abs_path [''data'']) (p_key @ ''.json'') (p_fs, []) = (None, fs', [4711])"
    using k parse by (simp add: recover_entry_def)
  then show ?thesis unfolding recoverOrphanProcesses_def dir names by simp
qed


theorem recovery_leaves_nothing_witness:
  "\<exists>fs'. recoverOrphanProcesses p_codec p_env (abs_path [''data'']) p_fs = (None, fs', [4711]) \<and>
     fmlookup fs' [''data'', ''processes'', p_key @ ''.json''] = None \<and> fmlookup fs' [''data''] = Some FDir"
proof -
  obtain fs' where r: "recoverOrphanProcesses p_codec p_env (abs_path [''data'']) p_fs = (None, fs', [4711])" using p_run by blast
  have "fmlookup p_fs [''data''] = Some FDir" by (simp add: p_fs_def p_tree_def fmlookup_of_list)
  then show ?thesis
    using recovery_leaves_nothing [OF p_facts(1,2) p_ok(1) _ r] p_facts(3) p_recorded(1) r
    by (auto simp: record_at_def)
qed

theorem torn_record_blocks_start_witness:
  "\<exists>e fs' ks. recoverOrphanProcesses p_codec p_env (abs_path [''data'']) p_torn = (Some e, fs', ks) \<and>
     fmlookup fs' [''data'', ''processes'', p_key @ ''.json.tmp''] = Some (FFile [])"
  using torn_record_blocks_start [OF p_facts(1,2) p_ok(2) _ p_recorded(2), of "[]" p_codec] p_facts(4,6)
  by (simp add: p_codec_def)

end
