(* ===== verification/SessionSafety.thy ===== *)
theory SessionSafety
  imports JailSessions ProcSafety
begin

text \<open>
  What the sessions of \<open>JailSessions\<close> keep: the log in memory shows every reader the bytes from its
  position on, the log on disk is never cut, and the limit on running sessions holds for requests
  one after the other but not for concurrent ones.
\<close>

subsection \<open>The log in memory\<close>

definition session_log_of :: "nat \<Rightarrow> string list \<Rightarrow> sessionLog" where
  "session_log_of n ps = foldl sessionLog_write \<lparr>slog_buf = [], slog_max = n, slog_dropped = 0\<rparr> ps"

lemma session_log_snoc: "session_log_of n (ps @ [p]) = sessionLog_write (session_log_of n ps) p"
  by (simp add: session_log_of_def)

lemma session_log_is_last:
  "list_all (\<lambda>p. length p < n) ps \<Longrightarrow>
   session_log_of n ps = \<lparr>slog_buf = lastn n (concat ps), slog_max = n, slog_dropped = length (concat ps) - n\<rparr>"
proof (induction ps rule: rev_induct)
  case Nil
  then show ?case by (simp add: session_log_of_def)
next
  case (snoc p ps)
  let ?h = "concat ps"
  have p: "length p < n" using snoc.prems by simp
  have b: "lastn n (?h @ p) = lastn (n - length p) ?h @ p" using p by (simp add: lastn_append)
  show ?case
  proof (cases "length ?h \<le> n")
    case True
    then show ?thesis
      using snoc p by (auto simp: session_log_snoc sessionLog_write_def Let_def b lastn_def)
  next
    case False
    have "drop (length p) (lastn n ?h) = lastn (n - length p) ?h"
      using p False by (simp add: lastn_def algebra_simps)
    then show ?thesis
      using snoc p False by (auto simp: session_log_snoc sessionLog_write_def Let_def b)
  qed
qed



text \<open>
  A write that is as long as the buffer forgets to count what the buffer held: the positions after
  it are too small by that much.
\<close>

lemma long_write_loses_positions:
  assumes "length p \<ge> n" "list_all (\<lambda>q. length q < n) ps"
  shows "snd (sessionLog_snapshot (session_log_of n (ps @ [p])) 0 0) + min n (length (concat ps)) = length (concat (ps @ [p]))"
  using assms by (simp add: session_log_snoc session_log_is_last sessionLog_write_def sessionLog_snapshot_def Let_def)

subsection \<open>The log on disk\<close>

definition sink_writes :: "sessionSink \<Rightarrow> fs \<Rightarrow> string list \<Rightarrow> sessionSink \<times> fs" where
  "sink_writes sk fs ps = foldl (\<lambda>(sk, fs) p. sessionSink_Write sk p fs) (sk, fs) ps"

text \<open>
  The log of a session on disk has no bound. The file is opened for writing only, so that the
  reading of its tail before it is cut always fails: after any writes it holds everything that has
  been written since the start, however much that is beyond the limit of 20 MiB.
\<close>

theorem disk_log_never_cut:
  assumes "sk_file sk = Some (path, WriteOnly)" "node_at fs path = Some (FFile old)"
  shows "node_at (snd (sink_writes sk fs ps)) path = Some (FFile (old @ concat ps))"
proof -
  have "sk_file (fst (sink_writes sk fs ps)) = Some (path, WriteOnly) \<and>
    node_at (snd (sink_writes sk fs ps)) path = Some (FFile (old @ concat ps))"
  proof (induction ps rule: rev_induct)
    case Nil
    then show ?case using assms by (simp add: sink_writes_def)
  next
    case (snoc p ps)
    obtain sk1 fs1 where s: "sink_writes sk fs ps = (sk1, fs1)" by fastforce
    have trim: "trimLocked path WriteOnly sz fs1 = (sz, fs1)" for sz
      by (auto simp: trimLocked_def split: option.split fnode.split)
    have "sink_writes sk fs (ps @ [p]) = sessionSink_Write sk1 p fs1" using s by (simp add: sink_writes_def)
    then show ?case
      using snoc.IH s trim by (simp add: sessionSink_Write_def append_file_def node_at_def Let_def)
  qed
  then show ?thesis by simp
qed

theorem disk_log_never_cut_witness:
  "node_at (snd (sink_writes \<lparr>sk_ring = newSessionLog, sk_file = Some (''/data/x'', WriteOnly), sk_size = sessionDiskMaxBytes\<rparr>
       (fmupd [''data'', ''x''] (FFile ''old'') p_fs) [''a'', ''b''])) ''/data/x'' = Some (FFile ''oldab'')"
proof -
  have "root_words ''/data/x'' = [''data'', ''x'']" by code_simp
  then have "node_at (fmupd [''data'', ''x''] (FFile ''old'') p_fs) ''/data/x'' = Some (FFile ''old'')" by (simp add: node_at_def)
  then show ?thesis
    using disk_log_never_cut [of "\<lparr>sk_ring = newSessionLog, sk_file = Some (''/data/x'', WriteOnly), sk_size = sessionDiskMaxBytes\<rparr>"
        "''/data/x''" _ "''old''" "[''a'', ''b'']"] by simp
qed

subsection \<open>The limit on running sessions\<close>

definition running_sessions :: "sessionStore \<Rightarrow> nat" where
  "running_sessions m = maplen (sessions_where ss_running m)"

text \<open>The two halves of a start, between which other requests can come: making an id, and registering.\<close>

datatype session_step = AskId instant string | Register bastilleSession

fun session_step_state :: "session_step \<Rightarrow> sessionStore \<Rightarrow> sessionStore" where
  "session_step_state (AskId now uid) m = snd (session_create now uid m)"
| "session_step_state (Register s) m = session_register s m"

lemma sessions_where_upd:
  "sessions_where P (fmupd i s m) = (if P s then fmupd i s (sessions_where P m) else fmdrop i (sessions_where P m))"
  by (rule fmap_ext) (auto simp: sessions_where_def)

lemma running_register: "running_sessions (session_register s m) \<le> Suc (running_sessions m)"
  by (simp add: running_sessions_def session_register_def sessions_where_upd maplen_upd_le le_SucI)

lemma running_sweep: "running_sessions (sweepLocked now m) = running_sessions m"
proof -
  have "sessions_where ss_running (sweepLocked now m) = sessions_where ss_running m"
    by (rule fmap_ext) (auto simp: sessions_where_def sweepLocked_def session_expired_def split: option.splits)
  then show ?thesis by (simp add: running_sessions_def)
qed

lemma create_bound:
  "session_create now uid m = (i, m') \<Longrightarrow> i \<noteq> [] \<Longrightarrow> running_sessions m' < maxBastilleSessions"
  by (auto simp: session_create_def running_sessions_def Let_def split: if_splits)

text \<open>One start at a time keeps the limit.\<close>

lemma sequential_limit:
  assumes "session_create now uid m = (i, m')" "i \<noteq> []"
  shows "running_sessions (session_register s m') \<le> maxBastilleSessions"
  using create_bound [OF assms] running_register [of s m'] by linarith

text \<open>
  Concurrent starts exceed the limit of sessions. The limit is checked when the id is made, the
  session counts only when it is registered: with one place left, two starts that ask before either
  registers both get an id, and 33 sessions run.
\<close>

theorem concurrent_starts_exceed_limit:
  assumes "running_sessions m = maxBastilleSessions - 1" "sweepLocked now m = m" "fmlookup m (''s-'' @ u) = None"
    "fmlookup m (''s-'' @ v) = None" "u \<noteq> v" "ss_id a = ''s-'' @ u" "ss_id b = ''s-'' @ v" "ss_running a" "ss_running b"
  shows "fst (session_create now u m) = ss_id a \<and> fst (session_create now v (session_step_state (AskId now u) m)) = ss_id b \<and>
    running_sessions (fold session_step_state [AskId now u, AskId now v, Register a, Register b] m) = Suc maxBastilleSessions"
proof -
  have ask: "session_create now w m = (''s-'' @ w, m)" for w
    using assms(1,2) by (simp add: session_create_def running_sessions_def maxBastilleSessions_def)
  have "ss_id a |\<notin>| fmdom (sessions_where ss_running m)" "ss_id b |\<notin>| fmdom (sessions_where ss_running m)" "ss_id a \<noteq> ss_id b"
    using assms(3-7) by (auto simp: sessions_where_def fmlookup_dom_iff)
  then have "running_sessions (session_register b (session_register a m)) = Suc (Suc (running_sessions m))"
    using assms(8,9) by (simp add: running_sessions_def session_register_def sessions_where_upd maplen_upd)
  then show ?thesis using ask assms(1,6,7) by (simp add: maxBastilleSessions_def)
qed

definition s_session :: "string \<Rightarrow> bastilleSession" where
  "s_session i = \<lparr>ss_id = i, ss_jail = ''box'', ss_cmd = [], ss_pid = 1,
     ss_sink = \<lparr>sk_ring = newSessionLog, sk_file = None, sk_size = 0\<rparr>, ss_watch = False, ss_running = True,
     ss_exitCode = - 1, ss_endedAt = None, ss_record = no_record\<rparr>"

definition s_store :: sessionStore where
  "s_store = fmap_of_list (map (\<lambda>n. (replicate n (CHR ''x''), s_session (replicate n (CHR ''x'')))) [0..<31])"

lemma s_store_running:
  "sessions_where ss_running s_store = s_store" "sweepLocked now s_store = s_store"
proof -
  have "ss_running s" if l: "fmlookup s_store i = Some s" for i s
  proof -
    have "(i, s) \<in> set (map (\<lambda>n. (replicate n (CHR ''x''), s_session (replicate n (CHR ''x'')))) [0..<31])"
      using l unfolding s_store_def fmlookup_of_list by (rule map_of_SomeD)
    then show ?thesis by (auto simp: s_session_def)
  qed
  then show "sessions_where ss_running s_store = s_store" "sweepLocked now s_store = s_store"
    by (auto intro!: fmap_ext simp: sessions_where_def sweepLocked_def session_expired_def split: option.split)
qed

lemma s_store_size: "maplen s_store = 31"
proof -
  let ?ks = "map (\<lambda>n. replicate n (CHR ''x'')) [0..<31]"
  have "distinct ?ks" by (auto simp: distinct_map inj_on_def)
  moreover have "fset (fmdom s_store) = set ?ks" by (auto simp: s_store_def fmdom_fmap_of_list fset_of_list.rep_eq)
  ultimately have "maplen s_store = length ?ks" by (rule maplen_set)
  then show ?thesis by simp
qed

theorem concurrent_starts_exceed_limit_witness:
  "running_sessions s_store = 31 \<and>
   running_sessions (fold session_step_state
     [AskId 0 ''a'', AskId 0 ''b'', Register (s_session ''s-a''), Register (s_session ''s-b'')] s_store) = 33"
proof -
  have r: "running_sessions s_store = 31" by (simp add: running_sessions_def s_store_running s_store_size)
  have "fmlookup s_store (''s-'' @ w) = None" for w
  proof -
    have ne: "CHR ''s'' # CHR ''-'' # w \<noteq> replicate n (CHR ''x'')" for n by (cases n) simp_all
    show ?thesis by (auto simp: s_store_def fmlookup_of_list map_of_eq_None_iff ne)
  qed
  then show ?thesis
    using concurrent_starts_exceed_limit [of s_store 0 "''a''" "''b''" "s_session ''s-a''" "s_session ''s-b''"] r s_store_running(2)
    by (simp add: maxBastilleSessions_def s_session_def)
qed

end
