(* ===== verification/AuditTrail.thy ===== *)
theory AuditTrail
  imports Regexp GoText
begin

text \<open>
  The audit log (cmd/irix-node/audit.go): what a request leaves behind in it. Here are the capture
  of the body's beginning, the recorded status, the masking of credentials in the path, the query
  and the body, and the line that is written. Text is ASCII.
\<close>

definition auditBodyMax :: nat where "auditBodyMax = 2048"

subsection \<open>Capture of the body and of the status\<close>

record auditBody =
  ab_kept :: string
  ab_truncated :: bool

text \<open>\<open>p\<close> is what one read of the underlying body has delivered.\<close>

definition auditBody_Read :: "auditBody \<Rightarrow> string \<Rightarrow> auditBody" where
  "auditBody_Read b p =
     (if p = [] then b
      else
        let rest = auditBodyMax - length (ab_kept b) in
        if rest > 0 then
          if length p \<le> rest then b\<lparr>ab_kept := ab_kept b @ p\<rparr>
          else b\<lparr>ab_kept := ab_kept b @ take rest p, ab_truncated := True\<rparr>
        else b\<lparr>ab_truncated := True\<rparr>)"

record auditResponseWriter =
  rw_code :: nat
  rw_sent :: "nat list"

text \<open>\<open>rw_sent\<close> are the status codes that reach the underlying writer.\<close>

definition rw_WriteHeader :: "auditResponseWriter \<Rightarrow> nat \<Rightarrow> auditResponseWriter" where
  "rw_WriteHeader w code = w\<lparr>rw_code := (if rw_code w = 0 then code else rw_code w), rw_sent := rw_sent w @ [code]\<rparr>"

definition rw_Write :: "auditResponseWriter \<Rightarrow> auditResponseWriter" where
  "rw_Write w = (if rw_code w = 0 then w\<lparr>rw_code := 200\<rparr> else w)"

subsection \<open>The address of the client\<close>

text \<open>\<open>net.SplitHostPort\<close>.\<close>

definition last_index :: "char \<Rightarrow> string \<Rightarrow> nat option" where
  "last_index c s = map_option (\<lambda>i. length s - 1 - i) (index_byte c (rev s))"

definition SplitHostPort :: "string \<Rightarrow> (string \<times> string) option" where
  "SplitHostPort hp =
     (case last_index (CHR '':'') hp of
        None \<Rightarrow> None
      | Some i \<Rightarrow>
          if HasPrefix hp ''['' then
            (case index_byte (CHR '']'') hp of
               None \<Rightarrow> None
             | Some e \<Rightarrow>
                 if Suc e = i \<and> CHR ''['' \<notin> set (drop 1 hp) \<and> CHR '']'' \<notin> set (drop (Suc e) hp)
                 then Some (take (e - 1) (drop 1 hp), drop (Suc i) hp) else None)
          else if CHR '':'' \<in> set (take i hp) \<or> CHR ''['' \<in> set hp \<or> CHR '']'' \<in> set hp then None
          else Some (take i hp, drop (Suc i) hp))"

definition clientIP :: "string \<Rightarrow> string" where
  "clientIP remoteAddr = (case SplitHostPort remoteAddr of None \<Rightarrow> remoteAddr | Some (host, _) \<Rightarrow> host)"

subsection \<open>Masking in the query and in the path\<close>

definition sensitiveQueryKeys :: "string list" where
  "sensitiveQueryKeys = [''token'', ''apikey'', ''api_key'', ''password'', ''secret'', ''key'', ''authorization'']"

fun split_by :: "(char \<Rightarrow> bool) \<Rightarrow> string \<Rightarrow> string list" where
  "split_by P [] = [[]]"
| "split_by P (c # s) =
     (if P c then [] # split_by P s
      else (case split_by P s of [] \<Rightarrow> [[c]] | w # ws \<Rightarrow> (c # w) # ws))"

definition FieldsFunc :: "(char \<Rightarrow> bool) \<Rightarrow> string \<Rightarrow> string list" where
  "FieldsFunc P s = filter (\<lambda>w. w \<noteq> []) (split_by P s)"

definition hex_val :: "char \<Rightarrow> nat option" where
  "hex_val c =
     (if is_digit c then Some (digit_val c)
      else if CHR ''a'' \<le> c \<and> c \<le> CHR ''f'' then Some (of_char c - 87)
      else if CHR ''A'' \<le> c \<and> c \<le> CHR ''F'' then Some (of_char c - 55)
      else None)"

text \<open>\<open>url.QueryUnescape\<close>; \<open>None\<close> for a percent sign without two hexadecimal digits.\<close>

fun QueryUnescape :: "string \<Rightarrow> string option" where
  "QueryUnescape [] = Some []"
| "QueryUnescape (c # s) =
     (if c = CHR ''%'' then
        (case s of
           a # b # t \<Rightarrow>
             (case (hex_val a, hex_val b) of
                (Some x, Some y) \<Rightarrow> map_option (Cons (char_of (16 * x + y))) (QueryUnescape t)
              | _ \<Rightarrow> None)
         | _ \<Rightarrow> None)
      else map_option (Cons (if c = CHR ''+'' then CHR '' '' else c)) (QueryUnescape s))"

definition query_sep :: "char \<Rightarrow> bool" where
  "query_sep c = (c = CHR ''&'' \<or> c = CHR '';'')"

definition redact_part :: "string \<Rightarrow> string" where
  "redact_part p =
     (case index_byte (CHR ''='') p of
        None \<Rightarrow> p
      | Some 0 \<Rightarrow> p
      | Some eq \<Rightarrow>
          let key = (case QueryUnescape (take eq p) of None \<Rightarrow> take eq p | Some k \<Rightarrow> k) in
          if ToLower key \<in> set sensitiveQueryKeys then take eq p @ ''=***'' else p)"

definition redactQuery :: "string \<Rightarrow> string" where
  "redactQuery raw = (if raw = [] then [] else ''?'' @ join_with ''&'' (map redact_part (FieldsFunc query_sep raw)))"

fun redact_after :: "string list \<Rightarrow> string \<Rightarrow> string" where
  "redact_after [] p = p"
| "redact_after (pre # pres) p =
     (if \<not> HasPrefix p pre then redact_after pres p
      else
        let rest = drop (length pre) p in
        if rest = [] then p
        else (case index_byte (CHR ''/'') rest of
                Some i \<Rightarrow> pre @ ''***/'' @ drop (Suc i) rest
              | None \<Rightarrow> pre @ ''***''))"

definition redactPath :: "string \<Rightarrow> string" where
  "redactPath = redact_after [''/download/'', ''/upload/'']"

subsection \<open>Masking in the body\<close>

definition vaultMaskFields :: "string list" where
  "vaultMaskFields =
     [''password'', ''newPassword'', ''oldPassword'', ''totp'', ''signature'', ''recoveryToken'', ''sessionToken'',
      ''token'', ''secret'', ''apikey'', ''apiKey'', ''key'', ''authorization'']"

text \<open>A word of any case, and \<open>\s*\<close>.\<close>

definition re_fold :: "string \<Rightarrow> regex" where
  "re_fold w = foldr (\<lambda>c r. Seq (Chars [to_lower_char c, to_upper_char c]) r) w Eps"

definition re_ws :: regex where
  "re_ws = Star (Chars [CHR '' '', CHR 0x09, CHR 0x0A, CHR 0x0C, CHR 0x0D])"

definition re_name :: "string \<Rightarrow> regex" where
  "re_name f = Seq (Chars [CHR 0x22]) (Seq (re_fold f) (Seq (Chars [CHR 0x22]) (Seq re_ws (Seq (Chars '':'') re_ws))))"

definition re_quoted :: regex where
  "re_quoted = Seq (Chars [CHR 0x22])
     (Seq (Star (Alt (NotChars [CHR 0x22, CHR 0x5C]) (Seq (Chars [CHR 0x5C]) (NotChars [CHR 0x0A])))) (Chars [CHR 0x22]))"

definition re_bare :: regex where
  "re_bare = (let r = NotChars ([CHR '','', CHR ''}''] @ [CHR '' '', CHR 0x09, CHR 0x0A, CHR 0x0C, CHR 0x0D]) in Seq r (Star r))"

definition re_field :: "string \<Rightarrow> regex" where
  "re_field f = Seq (re_name f) (Alt re_quoted re_bare)"

definition vaultMaskRedactors :: "regex list" where
  "vaultMaskRedactors = map re_field vaultMaskFields"

definition vaultMaskCodeRE :: regex where
  "vaultMaskCodeRE = Seq (re_name ''code'') (Seq (Chars [CHR 0x22]) (Seq (Star (NotChars [CHR 0x22])) (Chars [CHR 0x22])))"

definition maskFieldValue :: "string \<Rightarrow> string" where
  "maskFieldValue m =
     (case str_index m '':'' of
        Some i \<Rightarrow> take (Suc i) m @ [CHR 0x22] @ ''***'' @ [CHR 0x22]
      | None \<Rightarrow> [CHR 0x22] @ ''***'' @ [CHR 0x22])"

text \<open>\<open>ReplaceAllStringFunc\<close>, for expressions that match no empty text.\<close>

function replace_all :: "regex \<Rightarrow> (string \<Rightarrow> string) \<Rightarrow> char option \<Rightarrow> string \<Rightarrow> string" where
  "replace_all r f b s =
     (case find_first r b s of
        None \<Rightarrow> s
      | Some (start, ((b', s'), g)) \<Rightarrow>
          take (length s - length start) s @ f (take (length start - length s') start) @
          (if length s' < length s then replace_all r f b' s' else s'))"
  by pat_completeness auto
termination
  by (relation "measure (\<lambda>(r, f, b, s). length s)") auto

declare replace_all.simps [simp del]

definition redactBody :: "string \<Rightarrow> bool \<Rightarrow> string" where
  "redactBody s vaultPath =
     (let s = foldl (\<lambda>s re. replace_all re maskFieldValue None s) s vaultMaskRedactors in
      if vaultPath then replace_all vaultMaskCodeRE maskFieldValue None s else s)"

subsection \<open>The line\<close>

definition sanitize_char :: "char \<Rightarrow> string" where
  "sanitize_char c =
     (if c = CR then [CHR 0x5C, CHR ''r''] else if c = NL then [CHR 0x5C, CHR ''n'']
      else if c = TAB then [CHR 0x5C, CHR ''t''] else [c])"

definition sanitizeLog :: "string \<Rightarrow> string" where
  "sanitizeLog s = (if \<not> ContainsAny s [CR, NL, TAB] then s else concat (map sanitize_char s))"

text \<open>What \<open>auditLogf\<close> writes to the audit file for a formatted text.\<close>

definition auditLogf :: "string \<Rightarrow> string" where
  "auditLogf s = sanitizeLog s @ [NL]"

record audited =
  au_remote :: string
  au_method :: string
  au_path :: string
  au_query :: string
  au_body :: bool

text \<open>
  What the handler does with the request and the answer, in order: it reads from the body, sets a
  status or writes.
\<close>

datatype served_event = BodyRead string | HeaderSet nat | BodyWritten

fun serve_event :: "bool \<Rightarrow> served_event \<Rightarrow> auditBody \<times> auditResponseWriter \<Rightarrow> auditBody \<times> auditResponseWriter" where
  "serve_event wrapped (BodyRead p) (b, w) = (if wrapped then auditBody_Read b p else b, w)"
| "serve_event wrapped (HeaderSet c) (b, w) = (b, rw_WriteHeader w c)"
| "serve_event wrapped BodyWritten (b, w) = (b, rw_Write w)"

definition audit_text :: "string \<Rightarrow> string \<Rightarrow> audited \<Rightarrow> nat \<Rightarrow> string \<Rightarrow> string" where
  "audit_text now took q status body =
     now @ '' | '' @ clientIP (au_remote q) @ '' | '' @ au_method q @ '' '' @ redactPath (au_path q) @ redactQuery (au_query q) @
     '' | '' @ Itoa (int status) @ '' | '' @ took @ '' | '' @ body"

definition auditMiddleware :: "string \<Rightarrow> string \<Rightarrow> audited \<Rightarrow> served_event list \<Rightarrow> string" where
  "auditMiddleware now took q evs =
     (let (b, w) = fold (serve_event (au_body q)) evs (\<lparr>ab_kept = [], ab_truncated = False\<rparr>, \<lparr>rw_code = 0, rw_sent = []\<rparr>);
          body = (if au_body q then
                    redactBody (ab_kept b) (HasPrefix (au_path q) ''/api/vault/'') @ (if ab_truncated b then ''...(cut)'' else [])
                  else []);
          status = (if rw_code w = 0 then 200 else rw_code w)
      in auditLogf (audit_text now took q status body))"

end
