(* ===== verification/AuditSafety.thy ===== *)
theory AuditSafety
  imports AuditTrail
begin

text \<open>
  What the audit log shows and hides: one line for each request, with the beginning of what was
  read of its body; credentials in the query and in a flat JSON body are masked exactly.
\<close>

subsection \<open>One line for each request\<close>

fun reads_of :: "served_event list \<Rightarrow> string" where
  "reads_of [] = []"
| "reads_of (BodyRead p # evs) = p @ reads_of evs"
| "reads_of (_ # evs) = reads_of evs"

fun status_of :: "served_event list \<Rightarrow> nat" where
  "status_of [] = 200"
| "status_of (HeaderSet c # evs) = (if c = 0 then status_of evs else c)"
| "status_of (BodyWritten # evs) = 200"
| "status_of (BodyRead p # evs) = status_of evs"

lemma body_read_take:
  assumes "ab_kept b = take auditBodyMax s" "ab_truncated b \<longleftrightarrow> length s > auditBodyMax"
  shows "ab_kept (auditBody_Read b p) = take auditBodyMax (s @ p)"
    "ab_truncated (auditBody_Read b p) \<longleftrightarrow> length (s @ p) > auditBodyMax"
  using assms by (auto simp: auditBody_Read_def Let_def min_def)

lemma serve_capture:
  assumes "ab_kept b = take auditBodyMax s" "ab_truncated b \<longleftrightarrow> length s > auditBodyMax" "fold (serve_event True) evs (b, w) = (b', w')"
  shows "ab_kept b' = take auditBodyMax (s @ reads_of evs) \<and> (ab_truncated b' \<longleftrightarrow> length (s @ reads_of evs) > auditBodyMax)"
  using assms
proof (induction evs arbitrary: b s w)
  case (Cons e evs)
  show ?case
  proof (cases e)
    case (BodyRead p)
    have "fold (serve_event True) evs (auditBody_Read b p, w) = (b', w')" using Cons.prems(3) BodyRead by simp
    then show ?thesis using Cons.IH [OF body_read_take [OF Cons.prems(1,2)]] BodyRead by simp
  qed (use Cons in auto)
qed simp

lemma serve_status:
  assumes "fold (serve_event wr) evs (b, w) = (b', w')"
  shows "(if rw_code w' = 0 then 200 else rw_code w') = (if rw_code w = 0 then status_of evs else rw_code w)"
  using assms
proof (induction evs arbitrary: b w)
  case (Cons e evs)
  then show ?case by (cases e) (auto simp: rw_WriteHeader_def rw_Write_def split: if_splits)
qed simp

lemma sanitize_clean: "set (sanitizeLog s) \<inter> {CR, NL, TAB} = {}"
proof -
  have "set (sanitize_char c) \<inter> {CR, NL, TAB} = {}" for c by (auto simp: sanitize_char_def)
  then show ?thesis by (auto simp: sanitizeLog_def ContainsAny_iff)
qed



subsection \<open>The query\<close>

definition query_text :: "(string \<times> string) list \<Rightarrow> string" where
  "query_text kvs = join_with ''&'' (map (\<lambda>(k, v). k @ ''='' @ v) kvs)"

text \<open>The name that a key stands for, as the server reads it.\<close>

definition read_key :: "string \<Rightarrow> string" where
  "read_key k = (case QueryUnescape k of None \<Rightarrow> k | Some k' \<Rightarrow> k')"

definition query_pair :: "string \<times> string \<Rightarrow> bool" where
  "query_pair kv \<longleftrightarrow> fst kv \<noteq> [] \<and> CHR ''='' \<notin> set (fst kv) \<and> (\<forall>c \<in> set (fst kv) \<union> set (snd kv). \<not> query_sep c)"

lemma split_by_word: "\<forall>c \<in> set w. \<not> P c \<Longrightarrow> split_by P w = [w]"
  by (induction w) auto

lemma split_by_append: "\<forall>c \<in> set w. \<not> P c \<Longrightarrow> P c \<Longrightarrow> split_by P (w @ c # s) = w # split_by P s"
  by (induction w) auto

lemma fields_join:
  "\<forall>w \<in> set ws. w \<noteq> [] \<and> (\<forall>c \<in> set w. \<not> P c) \<Longrightarrow> P c \<Longrightarrow> FieldsFunc P (join_with [c] ws) = ws"
proof (induction "[c]" ws rule: join_with.induct)
  case 1
  then show ?case by (simp add: FieldsFunc_def)
next
  case (2 w)
  then show ?case by (simp add: FieldsFunc_def split_by_word)
next
  case (3 w v ws)
  then show ?case by (simp add: FieldsFunc_def split_by_append)
qed

lemma redact_pair:
  assumes "query_pair (k, v)"
  shows "redact_part (k @ ''='' @ v) = k @ ''='' @ (if ToLower (read_key k) \<in> set sensitiveQueryKeys then ''***'' else v)"
proof -
  have i: "index_byte (CHR ''='') (k @ CHR ''='' # v) = Some (length k)" "length k \<noteq> 0"
    using assms index_byte_append_right [of "CHR ''=''" k "CHR ''='' # v"] by (auto simp: query_pair_def)
  then show ?thesis
    by (cases "length k") (auto simp: redact_part_def read_key_def Let_def simp del: length_0_conv split: option.split)
qed

text \<open>
  C31. A credential in the query is never logged. For every query of keys and values the log shows
  all keys and all values but those of the sensitive keys, in whatever case and with whatever
  percent signs the key is written: these are three stars. So two queries that differ only in
  credentials leave the same trace.
\<close>

theorem query_credentials_hidden:
  assumes "kvs \<noteq> []" "\<forall>kv \<in> set kvs. query_pair kv"
  shows "redactQuery (query_text kvs) =
    ''?'' @ query_text (map (\<lambda>(k, v). (k, if ToLower (read_key k) \<in> set sensitiveQueryKeys then ''***'' else v)) kvs)"
proof -
  let ?ws = "map (\<lambda>(k, v). k @ ''='' @ v) kvs"
  have s: "query_sep (CHR ''&'')" "\<not> query_sep (CHR ''='')" by (simp_all add: query_sep_def)
  then have f: "FieldsFunc query_sep (query_text kvs) = ?ws"
    using assms(2) unfolding query_text_def by (intro fields_join) (auto simp: query_pair_def)
  have m: "map redact_part ?ws =
      map (\<lambda>(k, v). k @ ''='' @ v) (map (\<lambda>(k, v). (k, if ToLower (read_key k) \<in> set sensitiveQueryKeys then ''***'' else v)) kvs)"
    using assms(2) redact_pair by (auto simp del: append_Cons)
  have "query_text kvs \<noteq> []" using assms by (cases kvs; cases "tl kvs") (auto simp: query_text_def query_pair_def)
  then have r: "redactQuery (query_text kvs) = ''?'' @ join_with ''&'' (map redact_part (FieldsFunc query_sep (query_text kvs)))"
    by (simp add: redactQuery_def)
  show ?thesis unfolding r f m by (simp only: query_text_def)
qed

theorem query_credentials_hidden_witness:
  "redactQuery ''uuid=a&tok%65n=secret&Key=x'' = ''?uuid=a&tok%65n=***&Key=***''"
proof -
  have "\<forall>kv \<in> set [(''uuid'', ''a''), (''tok%65n'', ''secret''), (''Key'', ''x'')]. query_pair kv"
    by (simp add: query_pair_def query_sep_def)
  moreover have "ToLower (read_key ''uuid'') \<notin> set sensitiveQueryKeys" "ToLower (read_key ''tok%65n'') \<in> set sensitiveQueryKeys"
    "ToLower (read_key ''Key'') \<in> set sensitiveQueryKeys" by code_simp+
  ultimately show ?thesis
    using query_credentials_hidden [of "[(''uuid'', ''a''), (''tok%65n'', ''secret''), (''Key'', ''x'')]"]
    by (simp add: query_text_def)
qed

subsection \<open>The body\<close>

abbreviation (input) QT :: char where "QT \<equiv> CHR 0x22"

definition quoted :: "string \<Rightarrow> string" where
  "quoted s = [QT] @ s @ [QT]"

definition obj_text :: "(string \<times> string) list \<Rightarrow> string" where
  "obj_text kvs = ''{'' @ join_with '','' (map (\<lambda>(k, v). quoted k @ '':'' @ quoted v) kvs) @ ''}''"

definition flat_pair :: "string \<times> string \<Rightarrow> bool" where
  "flat_pair kv \<longleftrightarrow> QT \<notin> set (fst kv) \<and> QT \<notin> set (snd kv) \<and> CHR 0x5C \<notin> set (snd kv)"

text \<open>A word of letters and what it matches in any case.\<close>

definition fold_char :: "char \<Rightarrow> char \<Rightarrow> bool" where
  "fold_char x c \<longleftrightarrow> c = to_lower_char x \<or> c = to_upper_char x"

definition fold_word :: "string \<Rightarrow> string \<Rightarrow> bool" where
  "fold_word f k \<longleftrightarrow> list_all2 fold_char f k"

definition letters :: "string \<Rightarrow> bool" where
  "letters f \<longleftrightarrow> f \<noteq> [] \<and> list_all (\<lambda>x. \<not> fold_char x (CHR '','') \<and> \<not> fold_char x (CHR ''}'') \<and> \<not> fold_char x (CHR '':'') \<and> \<not> fold_char x QT) f"

subsubsection \<open>One step of the replacement\<close>

definition consuming :: "regex \<Rightarrow> bool" where
  "consuming r \<longleftrightarrow> (\<forall>p q. matches r p q \<longrightarrow> length (snd q) < length (snd p))"

lemma find_first_consumes:
  assumes "consuming r" "find_first r b s = Some (start, e)"
  shows "length start \<le> length s" "length (snd (fst e)) < length start"
  using find_first_SomeD [OF assms(2)] assms(1) unfolding consuming_def by fastforce+

lemma replace_skip:
  assumes r: "consuming r" and n: "first_match r (b, c # s) = None"
  shows "replace_all r f b (c # s) = c # replace_all r f (Some c) s"
proof -
  have e: "find_first r b (c # s) = find_first r (Some c) s" using n by simp
  show ?thesis
  proof (cases "find_first r (Some c) s")
    case None
    then show ?thesis using e by (simp add: replace_all.simps)
  next
    case (Some x)
    obtain start b' s' g where x: "x = (start, ((b', s'), g))" by (metis prod.exhaust)
    have l: "length start \<le> length s" "length s' < length start"
      using find_first_consumes [OF r Some [unfolded x]] by simp_all
    then show ?thesis using e Some x by (simp add: replace_all.simps [of r f] Suc_diff_le)
  qed
qed

lemma replace_hit:
  assumes r: "consuming r" and m: "first_match r (b, u @ s') = Some ((b', s'), g)" "u \<noteq> []"
  shows "replace_all r f b (u @ s') = f u @ replace_all r f b' s'"
proof -
  have "find_first r b (u @ s') = Some (u @ s', ((b', s'), g))" using m by (cases u) auto
  then show ?thesis using m(2) by (simp add: replace_all.simps [of r f b "u @ s'"])
qed

lemma replace_skips:
  assumes "consuming r" "\<And>b c w. c \<in> set u \<Longrightarrow> first_match r (b, c # w) = None"
  shows "replace_all r f b (u @ s) = u @ replace_all r f (pos_after b u) s"
  using assms(2)
proof (induction u arbitrary: b)
  case (Cons c u)
  then show ?case using replace_skip [OF assms(1), of b c "u @ s" f] pos_after_Cons [of c u b] by simp
qed simp

subsubsection \<open>Matching the name of a field\<close>

lemma fold_ends:
  "match_ends (re_fold f) ((b, s), g) =
   (if fold_word f (take (length f) s) then [((pos_after b (take (length f) s), drop (length f) s), g)] else [])"
proof (induction f arbitrary: b s)
  case Nil
  then show ?case by (simp add: re_fold_def fold_word_def)
next
  case (Cons x f)
  then show ?case
    by (cases s) (auto simp: re_fold_def fold_word_def fold_char_def simp flip: pos_after_Cons)
qed

lemma ws_ends:
  assumes "s = [] \<or> hd s \<notin> set [CHR '' '', CHR 0x09, CHR 0x0A, CHR 0x0C, CHR 0x0D]"
  shows "match_ends re_ws ((b, s), g) = [((b, s), g)]"
  using assms by (cases s) (auto simp: re_ws_def)

lemma name_ends:
  assumes "drop (length f) t = QT # CHR '':'' # QT # u" "fold_word f (take (length f) t)"
  shows "match_ends (re_name f) ((b, QT # t), g) = [((Some (CHR '':''), QT # u), g)]"
  using assms by (simp add: re_name_def fold_ends ws_ends)

lemma name_fails:
  assumes "\<not> (fold_word f (take (length f) t) \<and> (\<exists>u. drop (length f) t = QT # CHR '':'' # u))"
    "\<And>u. fold_word f (take (length f) t) \<Longrightarrow> drop (length f) t = QT # u \<Longrightarrow> u = [] \<or> hd u \<notin> set [CHR '' '', CHR 0x09, CHR 0x0A, CHR 0x0C, CHR 0x0D]"
  shows "match_ends (re_name f) ((b, QT # t), g) = []"
proof (cases "fold_word f (take (length f) t)")
  case True
  show ?thesis
  proof (cases "drop (length f) t")
    case (Cons c u)
    show ?thesis
    proof (cases "c = QT")
      case c: True
      then have "u = [] \<or> hd u \<notin> set [CHR '' '', CHR 0x09, CHR 0x0A, CHR 0x0C, CHR 0x0D]" using assms(2) Cons c True by simp
      moreover have "u = [] \<or> hd u \<noteq> CHR '':''" using assms(1) True Cons c by (cases u) auto
      ultimately show ?thesis using True Cons c by (cases u) (simp_all add: re_name_def fold_ends ws_ends)
    qed (use True Cons in \<open>simp add: re_name_def fold_ends\<close>)
  qed (use True in \<open>simp add: re_name_def fold_ends\<close>)
qed (simp add: re_name_def fold_ends)

lemma name_needs_quote: "c \<noteq> QT \<Longrightarrow> match_ends (re_name f) ((b, c # t), g) = []"
  by (simp add: re_name_def)

lemma fold_word_quote:
  assumes "letters f" "QT \<notin> set w" "fold_word f (take (length f) (w @ QT # z))" "drop (length f) (w @ QT # z) = QT # u"
  shows "fold_word f w \<and> u = z"
proof -
  have "length f \<le> length w"
  proof (rule ccontr)
    assume "\<not> length f \<le> length w"
    then have l: "length w < length f" by simp
    then have "fold_char (f ! length w) (take (length f) (w @ QT # z) ! length w)"
      using assms(3) by (auto simp: fold_word_def dest: list_all2_nthD)
    then have "fold_char (f ! length w) QT" using l by (simp add: nth_append)
    then show False using assms(1) l by (auto simp: letters_def list_all_length)
  qed
  moreover have "\<not> length f < length w"
  proof
    assume l: "length f < length w"
    then have "hd (drop (length f) (w @ QT # z)) = w ! length f" by (simp add: hd_append hd_drop_conv_nth)
    then show False using assms(2,4) l by (metis list.sel(1) nth_mem)
  qed
  ultimately have "length f = length w" by simp
  then show ?thesis using assms(3,4) by simp
qed

lemma no_name_char:
  assumes "letters f" "c \<in> {CHR '','', CHR ''}'', CHR '':''}"
  shows "match_ends (re_name f) ((b, QT # c # t), g) = []"
proof (rule name_fails)
  obtain x f' where "f = x # f'" using assms(1) by (cases f) (auto simp: letters_def)
  then have "\<not> fold_word f (take (length f) (c # t))" using assms by (auto simp: fold_word_def letters_def)
  then show "\<not> (fold_word f (take (length f) (c # t)) \<and> (\<exists>u. drop (length f) (c # t) = QT # CHR '':'' # u))"
    "\<And>u. fold_word f (take (length f) (c # t)) \<Longrightarrow> drop (length f) (c # t) = QT # u \<Longrightarrow>
      u = [] \<or> hd u \<notin> set [CHR '' '', CHR 0x09, CHR 0x0A, CHR 0x0C, CHR 0x0D]" by blast+
qed

lemma no_name_value:
  assumes "letters f" "QT \<notin> set w" "c \<in> {CHR '','', CHR ''}''} \<or> c = CHR '':'' \<and> \<not> fold_word f w"
  shows "match_ends (re_name f) ((b, QT # w @ QT # c # t), g) = []"
proof (rule name_fails)
  note q = fold_word_quote [OF assms(1,2), of "c # t"]
  show "\<not> (fold_word f (take (length f) (w @ QT # c # t)) \<and> (\<exists>u. drop (length f) (w @ QT # c # t) = QT # CHR '':'' # u))"
  proof
    assume "fold_word f (take (length f) (w @ QT # c # t)) \<and> (\<exists>u. drop (length f) (w @ QT # c # t) = QT # CHR '':'' # u)"
    then obtain u where "fold_word f w" "CHR '':'' # u = c # t" using q by blast
    then show False using assms(3) by auto
  qed
  fix u
  assume "fold_word f (take (length f) (w @ QT # c # t))" "drop (length f) (w @ QT # c # t) = QT # u"
  then have "u = c # t" using q by blast
  then show "u = [] \<or> hd u \<notin> set [CHR '' '', CHR 0x09, CHR 0x0A, CHR 0x0C, CHR 0x0D]" using assms(3) by auto
qed

subsubsection \<open>Matching the value\<close>

definition value_hits :: "regex \<Rightarrow> bool" where
  "value_hits V \<longleftrightarrow> (\<forall>b v r g. QT \<notin> set v \<longrightarrow> CHR 0x5C \<notin> set v \<longrightarrow>
     (\<exists>es. match_ends V ((b, QT # v @ QT # r), g) = ((Some QT, r), g) # es))"

lemma star_head:
  assumes "\<And>b c s g. c \<in> set v \<Longrightarrow> f ((b, c # s), g) = [((Some c, s), g)]" "\<And>b s g. f ((b, QT # s), g) = []"
  shows "length v \<le> n \<Longrightarrow> \<exists>es. star_ends n f ((b, v @ QT # r), g) = ((pos_after b v, QT # r), g) # es"
  using assms(1)
proof (induction v arbitrary: n b)
  case Nil
  then show ?case using assms(2) by (cases n) auto
next
  case (Cons c v)
  then obtain n' where n: "n = Suc n'" by (cases n) auto
  have "\<exists>es. star_ends n' f ((Some c, v @ QT # r), g) = ((pos_after (Some c) v, QT # r), g) # es"
    using Cons n by auto
  then show ?case using Cons.prems(2) [of c b "v @ QT # r" g] n pos_after_Cons [of c v b] by auto
qed

lemma seq_quote_hit:
  "match_ends S ((Some QT, v @ QT # r), g) = ((x, QT # r), g) # es \<Longrightarrow>
   \<exists>es'. match_ends (Seq (Chars [QT]) (Seq S (Chars [QT]))) ((b, QT # v @ QT # r), g) = ((Some QT, r), g) # es'"
  by simp

lemma quoted_hits: "value_hits (Alt re_quoted re_bare)" "value_hits (Seq (Chars [QT]) (Seq (Star (NotChars [QT])) (Chars [QT])))"
proof -
  let ?q = "Alt (NotChars [QT, CHR 0x5C]) (Seq (Chars [CHR 0x5C]) (NotChars [CHR 0x0A]))"
  have "\<exists>es. match_ends re_quoted ((b, QT # v @ QT # r), g) = ((Some QT, r), g) # es"
    if "QT \<notin> set v" "CHR 0x5C \<notin> set v" for b v r g
  proof -
    have "\<exists>es. star_ends (length (v @ QT # r)) (match_ends ?q) ((Some QT, v @ QT # r), g) = ((pos_after (Some QT) v, QT # r), g) # es"
      by (rule star_head) (use that in auto)
    then obtain es where "match_ends (Star ?q) ((Some QT, v @ QT # r), g) = ((pos_after (Some QT) v, QT # r), g) # es" by auto
    then show ?thesis unfolding re_quoted_def by (rule seq_quote_hit)
  qed
  then have "\<exists>es. match_ends (Alt re_quoted re_bare) ((b, QT # v @ QT # r), g) = ((Some QT, r), g) # es"
    if "QT \<notin> set v" "CHR 0x5C \<notin> set v" for b v r g using that by (simp only: match_ends.simps) (metis append_Cons)
  then show "value_hits (Alt re_quoted re_bare)" unfolding value_hits_def by blast
  have "\<exists>es. match_ends (Seq (Chars [QT]) (Seq (Star (NotChars [QT])) (Chars [QT]))) ((b, QT # v @ QT # r), g) = ((Some QT, r), g) # es"
    if "QT \<notin> set v" for b v r g
  proof -
    have "\<exists>es. star_ends (length (v @ QT # r)) (match_ends (NotChars [QT])) ((Some QT, v @ QT # r), g) = ((pos_after (Some QT) v, QT # r), g) # es"
      by (rule star_head) (use that in auto)
    then obtain es where "match_ends (Star (NotChars [QT])) ((Some QT, v @ QT # r), g) = ((pos_after (Some QT) v, QT # r), g) # es" by auto
    then show ?thesis by (rule seq_quote_hit)
  qed
  then show "value_hits (Seq (Chars [QT]) (Seq (Star (NotChars [QT])) (Chars [QT])))" unfolding value_hits_def by blast
qed

lemma name_consuming: "consuming (Seq (re_name f) V)"
proof -
  have "length (snd q) < length (snd p)" if m: "matches (Seq (re_name f) V) p q" for p q
  proof -
    let ?B = "Seq (re_fold f) (Seq (Chars [QT]) (Seq re_ws (Seq (Chars '':'') re_ws)))"
    obtain p2 where 2: "matches (re_name f) p p2" "matches V p2 q" using m matches_Seq [of "re_name f" V p q] by auto
    then obtain p1 where 1: "matches (Chars [QT]) p p1" "matches ?B p1 p2"
      using matches_Seq [of "Chars [QT]" ?B p p2] unfolding re_name_def by auto
    have "length (snd q) \<le> length (snd p2)" "length (snd p2) \<le> length (snd p1)"
      using matches_suffix [OF 2(2)] matches_suffix [OF 1(2)] by (auto dest: suffix_length_le)
    then show ?thesis using 1(1) by (auto simp: matches_Chars)
  qed
  then show ?thesis by (simp add: consuming_def)
qed

subsubsection \<open>The whole body\<close>

definition field_text :: "string \<times> string \<Rightarrow> string" where
  "field_text kv = quoted (fst kv) @ '':'' @ quoted (snd kv)"

definition mask_pair :: "string \<Rightarrow> string \<times> string \<Rightarrow> string \<times> string" where
  "mask_pair f kv = (fst kv, if fold_word f (fst kv) then ''***'' else snd kv)"

lemma str_index_colon: "CHR '':'' \<notin> set a \<Longrightarrow> str_index (a @ CHR '':'' # b) '':'' = Some (length a)"
  by (induction a) (auto simp: HasPrefix_def)

lemma fold_word_no_colon:
  assumes "letters f" "fold_word f k"
  shows "CHR '':'' \<notin> set k"
proof
  assume "CHR '':'' \<in> set k"
  then obtain i where "i < length k" "k ! i = CHR '':''" by (auto simp: in_set_conv_nth)
  then show False using assms by (auto simp: letters_def fold_word_def list_all2_conv_all_nth list_all_length)
qed

lemma mask_value:
  "letters f \<Longrightarrow> fold_word f k \<Longrightarrow> maskFieldValue (field_text (k, v)) = field_text (k, ''***'')"
  using str_index_colon [of "quoted k" "quoted v"] fold_word_no_colon [of f k]
  by (simp add: maskFieldValue_def field_text_def quoted_def)

lemma first_match_none: "match_ends (re_name f) ((b, s), None) = [] \<Longrightarrow> first_match (Seq (re_name f) V) (b, s) = None"
  by (simp add: first_match_def)

lemma replace_field:
  assumes f: "letters f" and V: "value_hits V" and kv: "flat_pair kv" and c: "c \<in> {CHR '','', CHR ''}''}"
  shows "replace_all (Seq (re_name f) V) maskFieldValue b (field_text kv @ c # t) =
    field_text (mask_pair f kv) @ c # replace_all (Seq (re_name f) V) maskFieldValue (Some c) t"
proof -
  obtain k v where k: "kv = (k, v)" "QT \<notin> set k" "QT \<notin> set v" "CHR 0x5C \<notin> set v" using kv by (cases kv) (auto simp: flat_pair_def)
  let ?R = "Seq (re_name f) V"
  note cons = name_consuming [of f V]
  have other: "first_match ?R (b, x # w) = None" if "x \<noteq> QT" for b x w
    by (rule first_match_none) (rule name_needs_quote [OF that])
  have word: "replace_all ?R maskFieldValue b (u @ s) = u @ replace_all ?R maskFieldValue (pos_after b u) s" if "QT \<notin> set u" for b u s
    by (rule replace_skips [OF cons]) (use that other in metis)
  have cs: "c \<noteq> QT" using c by auto
  show ?thesis
  proof (cases "fold_word f k")
    case True
    have "match_ends (re_name f) ((b, QT # k @ QT # CHR '':'' # QT # v @ QT # c # t), None) = [((Some (CHR '':''), QT # v @ QT # c # t), None)]"
      using True by (intro name_ends) (auto simp: fold_word_def list_all2_lengthD)
    moreover obtain es where "match_ends V ((Some (CHR '':''), QT # v @ QT # c # t), None) = ((Some QT, c # t), None) # es"
      using V k unfolding value_hits_def by blast
    ultimately have "first_match ?R (b, field_text kv @ c # t) = Some ((Some QT, c # t), None)"
      by (simp add: first_match_def field_text_def quoted_def k(1))
    then have "replace_all ?R maskFieldValue b (field_text kv @ c # t) =
        maskFieldValue (field_text kv) @ replace_all ?R maskFieldValue (Some QT) (c # t)"
      by (rule replace_hit [OF cons]) (simp add: field_text_def quoted_def)
    then show ?thesis
      using True f replace_skip [OF cons other [OF cs]]
      by (simp add: k(1) mask_value mask_pair_def)
  next
    case False
    have 1: "first_match ?R (b, QT # k @ QT # CHR '':'' # s) = None" for b s
      using False by (intro first_match_none no_name_value [OF f k(2)]) simp
    have 2: "first_match ?R (b, QT # CHR '':'' # s) = None" for b s
      by (intro first_match_none no_name_char [OF f]) simp
    have 3: "first_match ?R (b, QT # v @ QT # c # s) = None" for b s
      using c by (intro first_match_none no_name_value [OF f k(3)]) simp
    have 4: "first_match ?R (b, QT # c # s) = None" for b s
      using c by (intro first_match_none no_name_char [OF f]) auto
    show ?thesis
      using False
      by (simp add: k(1) field_text_def quoted_def mask_pair_def replace_skip [OF cons 1] word [OF k(2)]
        replace_skip [OF cons 2] replace_skip [OF cons other, of "CHR '':''"] replace_skip [OF cons 3] word [OF k(3)]
        replace_skip [OF cons 4] replace_skip [OF cons other [OF cs]])
  qed
qed

lemma replace_end: "replace_all (Seq (re_name f) V) m b [] = []"
proof -
  have "match_ends (re_name f) ((b, []), None) = []" by (simp add: re_name_def)
  then have "first_match (Seq (re_name f) V) (b, []) = None" by (rule first_match_none)
  then show ?thesis by (simp add: replace_all.simps)
qed

lemma replace_fields:
  assumes "letters f" "value_hits V" "\<forall>kv \<in> set kvs. flat_pair kv" "kvs \<noteq> []"
  shows "replace_all (Seq (re_name f) V) maskFieldValue b (join_with '','' (map field_text kvs) @ ''}'') =
    join_with '','' (map (field_text \<circ> mask_pair f) kvs) @ ''}''"
  using assms(3,4)
proof (induction kvs arbitrary: b)
  case (Cons kv kvs)
  note step = replace_field [OF assms(1,2), of kv _ b]
  show ?case
  proof (cases kvs)
    case Nil
    then show ?thesis using Cons.prems step [of "CHR ''}''" "[]"] by (simp add: replace_end)
  next
    case (Cons kv' kvs')
    then show ?thesis
      using Cons.prems Cons.IH step [of "CHR '',''" "join_with '','' (map field_text kvs) @ ''}''"] by simp
  qed
qed simp

lemma obj_text_fields: "obj_text kvs = ''{'' @ join_with '','' (map field_text kvs) @ ''}''"
proof -
  have "(\<lambda>(k, v). quoted k @ '':'' @ quoted v) = field_text" by (auto simp: field_text_def fun_eq_iff)
  then show ?thesis by (simp add: obj_text_def)
qed

lemma replace_obj:
  assumes "letters f" "value_hits V" "\<forall>kv \<in> set kvs. flat_pair kv"
  shows "replace_all (Seq (re_name f) V) maskFieldValue None (obj_text kvs) = obj_text (map (mask_pair f) kvs)"
proof -
  let ?R = "Seq (re_name f) V"
  have skip: "replace_all ?R maskFieldValue b (c # s) = c # replace_all ?R maskFieldValue (Some c) s" if "c \<noteq> QT" for b c s
    by (intro replace_skip name_consuming first_match_none name_needs_quote that)
  show ?thesis
  proof (cases "kvs = []")
    case True
    then show ?thesis by (simp add: obj_text_fields skip replace_end)
  next
    case False
    then show ?thesis using replace_fields [OF assms False, of "Some (CHR ''{'')"] by (simp add: obj_text_fields skip)
  qed
qed

lemma flat_mask: "flat_pair kv \<Longrightarrow> flat_pair (mask_pair f kv)"
  by (simp add: flat_pair_def mask_pair_def)

lemma replace_all_fields:
  "\<forall>f \<in> set fs. letters f \<Longrightarrow> \<forall>kv \<in> set kvs. flat_pair kv \<Longrightarrow>
   foldl (\<lambda>s re. replace_all re maskFieldValue None s) (obj_text kvs) (map re_field fs) =
   obj_text (map (\<lambda>(k, v). (k, if \<exists>f \<in> set fs. fold_word f k then ''***'' else v)) kvs)"
proof (induction fs arbitrary: kvs)
  case Nil
  have "map (\<lambda>(k, v). (k, v)) kvs = kvs" by (induction kvs) auto
  then show ?case by simp
next
  case (Cons f fs)
  have "replace_all (re_field f) maskFieldValue None (obj_text kvs) = obj_text (map (mask_pair f) kvs)"
    unfolding re_field_def using Cons.prems by (intro replace_obj quoted_hits) auto
  then have "foldl (\<lambda>s re. replace_all re maskFieldValue None s) (obj_text kvs) (map re_field (f # fs)) =
      foldl (\<lambda>s re. replace_all re maskFieldValue None s) (obj_text (map (mask_pair f) kvs)) (map re_field fs)"
    by simp
  also have "\<dots> = obj_text (map (\<lambda>(k, v). (k, if \<exists>f \<in> set fs. fold_word f k then ''***'' else v)) (map (mask_pair f) kvs))"
    using Cons.prems flat_mask by (intro Cons.IH) auto
  also have "map (\<lambda>(k, v). (k, if \<exists>f \<in> set fs. fold_word f k then ''***'' else v)) (map (mask_pair f) kvs) =
      map (\<lambda>(k, v). (k, if \<exists>f \<in> set (f # fs). fold_word f k then ''***'' else v)) kvs"
    by (auto simp: mask_pair_def)
  finally show ?case .
qed

lemma letters_ok:
  "list_all (\<lambda>x. \<not> fold_char x (CHR '','') \<and> \<not> fold_char x (CHR ''}'') \<and> \<not> fold_char x (CHR '':'') \<and> \<not> fold_char x QT)
     ''acdeghiklnoprstuvwyzPTK''"
  by code_simp

lemma field_letters: "\<forall>f \<in> set vaultMaskFields. letters f" "letters ''code''"
proof -
  have l: "letters f" if "f \<noteq> []" "set f \<subseteq> set ''acdeghiklnoprstuvwyzPTK''" for f
    unfolding letters_def list_all_iff using letters_ok [unfolded list_all_iff] that by blast
  show "\<forall>f \<in> set vaultMaskFields. letters f" "letters ''code''" by (simp_all add: vaultMaskFields_def l)
qed

definition masked_key :: "bool \<Rightarrow> string \<Rightarrow> bool" where
  "masked_key vaultPath k \<longleftrightarrow> (\<exists>f \<in> set vaultMaskFields. fold_word f k) \<or> vaultPath \<and> fold_word ''code'' k"

text \<open>
  The masking of a body is exact on flat JSON objects. In an object of texts without quotes and
  backslashes the values of the sensitive fields, in any case of their names, become three stars,
  and nothing else changes. A key is compared as it is written: one that spells a sensitive name
  with a JSON escape is not recognised, though the handler reads it as that name.
\<close>

theorem body_credentials_masked:
  assumes "\<forall>kv \<in> set kvs. flat_pair kv"
  shows "redactBody (obj_text kvs) vaultPath = obj_text (map (\<lambda>(k, v). (k, if masked_key vaultPath k then ''***'' else v)) kvs)"
proof -
  note l = field_letters
  let ?kvs = "map (\<lambda>(k, v). (k, if \<exists>f \<in> set vaultMaskFields. fold_word f k then ''***'' else v)) kvs"
  have m: "foldl (\<lambda>s re. replace_all re maskFieldValue None s) (obj_text kvs) vaultMaskRedactors = obj_text ?kvs"
    unfolding vaultMaskRedactors_def by (rule replace_all_fields [OF l(1) assms])
  have "\<forall>kv \<in> set ?kvs. flat_pair kv" using assms by (auto simp: flat_pair_def split: if_splits)
  then have code: "replace_all vaultMaskCodeRE maskFieldValue None (obj_text ?kvs) = obj_text (map (mask_pair ''code'') ?kvs)"
    unfolding vaultMaskCodeRE_def by (intro replace_obj quoted_hits l)
  have 1: "map (mask_pair ''code'') ?kvs = map (\<lambda>(k, v). (k, if masked_key True k then ''***'' else v)) kvs"
    unfolding map_map by (rule map_cong [OF refl]) (simp add: mask_pair_def masked_key_def split_beta)
  have 2: "?kvs = map (\<lambda>(k, v). (k, if masked_key False k then ''***'' else v)) kvs" by (simp add: masked_key_def)
  show ?thesis
  proof (cases vaultPath)
    case True
    then show ?thesis unfolding redactBody_def Let_def m if_P [OF True] code 1 by simp
  next
    case False
    then show ?thesis unfolding redactBody_def Let_def m if_not_P [OF False] using arg_cong [OF 2, of obj_text] by simp
  qed
qed

theorem body_credentials_masked_witness:
  "redactBody (obj_text [(''user'', ''ann''), (''PassWord'', ''a, b}'')]) False = obj_text [(''user'', ''ann''), (''PassWord'', ''***'')] \<and>
   redactBody (obj_text [(''p'' @ [CHR 0x5C] @ ''u0061ssword'', ''secret'')]) False = obj_text [(''p'' @ [CHR 0x5C] @ ''u0061ssword'', ''secret'')]"
proof -
  have k: "\<not> masked_key False ''user''" "masked_key False ''PassWord''" "\<not> masked_key False (''p'' @ [CHR 0x5C] @ ''u0061ssword'')"
    by code_simp+
  show ?thesis
    using body_credentials_masked [of "[(''user'', ''ann''), (''PassWord'', ''a, b}'')]" False]
      body_credentials_masked [of "[(''p'' @ [CHR 0x5C] @ ''u0061ssword'', ''secret'')]" False] k
    by (simp add: flat_pair_def)
qed

end
