(* ===== verification/Cors.thy ===== *)
theory Cors
  imports AuditTrail
begin

text \<open>
  Cross-origin requests (cmd/irix-node/cors.go): the list of allowed origins, the decision on the
  origin of a request, and the middleware that sets the headers and answers preflights. The parsing
  of an origin and of an address is the library's and comes as two functions: \<open>parse\<close> gives scheme,
  host and host name of a URL, \<open>loopback_ip\<close> tells whether a text is an address of the loopback.
\<close>

record parsed_url =
  pu_Scheme :: string
  pu_Host :: string
  pu_Hostname :: string

record cors_env =
  ce_parse :: "string \<Rightarrow> parsed_url option"
  ce_loopback_ip :: "string \<Rightarrow> bool"

definition corsAllowedHeaders :: string where
  "corsAllowedHeaders = ''Authorization, Content-Type, X-Auth-Token, X-Vault-Token''"

definition setCorsOrigins :: "string \<Rightarrow> string list" where
  "setCorsOrigins raw =
     List.map_filter (\<lambda>o'. let t = TrimSpace o' in if t = [] then None else Some (ToLower (TrimRight t ''/'')))
       (split_on (CHR '','') raw)"

definition isLoopbackHostname :: "cors_env \<Rightarrow> string \<Rightarrow> bool" where
  "isLoopbackHostname E host = (EqualFold host ''localhost'' \<or> ce_loopback_ip E host)"

definition corsOriginAllowed :: "cors_env \<Rightarrow> string list \<Rightarrow> string \<Rightarrow> string \<Rightarrow> bool" where
  "corsOriginAllowed E origins reqHost origin =
     (if origin = [] \<or> origin = ''null'' then False
      else
        (case ce_parse E origin of
           None \<Rightarrow> False
         | Some u \<Rightarrow>
             if pu_Scheme u = [] \<or> pu_Host u = [] then False
             else if ToLower (pu_Scheme u @ ''://'' @ pu_Host u) \<in> set origins then True
             else if isLoopbackHostname E (pu_Hostname u) then True
             else
               let h = (case SplitHostPort reqHost of None \<Rightarrow> reqHost | Some (h, _) \<Rightarrow> h) in
               h \<noteq> [] \<and> EqualFold (pu_Hostname u) h))"

record cors_request =
  cr_method :: string
  cr_host :: string
  cr_origin :: string
  cr_preflight :: string

text \<open>The headers that are set, and the status of the answer if the request is not handed on.\<close>

definition corsMiddleware :: "cors_env \<Rightarrow> string list \<Rightarrow> cors_request \<Rightarrow> (string \<times> string) list \<times> nat option" where
  "corsMiddleware E origins r =
     (let allowed = corsOriginAllowed E origins (cr_host r) (cr_origin r);
          hs = (if cr_origin r \<noteq> [] then [(''Vary'', ''Origin'')] else []) @
               (if allowed then [(''Access-Control-Allow-Origin'', cr_origin r), (''Access-Control-Allow-Credentials'', ''true'')] else []) @
               [(''Access-Control-Expose-Headers'', ''Content-Disposition'')] in
      if cr_method r = ''OPTIONS'' \<and> cr_preflight r \<noteq> [] then
        (hs @ (if allowed then
                 [(''Access-Control-Allow-Methods'', ''GET, POST, PUT, DELETE, PATCH, HEAD, OPTIONS''),
                  (''Access-Control-Allow-Headers'', corsAllowedHeaders), (''Access-Control-Max-Age'', ''86400'')]
               else []), Some 204)
      else (hs, None))"

text \<open>
  A foreign page gets nothing. A request from an origin that is neither configured nor of the
  loopback nor of the host the request itself names, or whose origin is absent, \<open>null\<close> or no URL, is
  answered without any header that allows it something; and no preflight reaches a handler.
\<close>

theorem foreign_origin_gets_nothing:
  assumes "\<not> corsOriginAllowed E origins (cr_host r) (cr_origin r)"
  shows "(\<forall>h \<in> set (fst (corsMiddleware E origins r)). \<not> HasPrefix (fst h) ''Access-Control-Allow'') \<and>
    (cr_method r = ''OPTIONS'' \<and> cr_preflight r \<noteq> [] \<longrightarrow> snd (corsMiddleware E origins r) = Some 204)"
  using assms by (auto simp: corsMiddleware_def Let_def HasPrefix_def)

theorem foreign_origin_gets_nothing_witness:
  "\<not> corsOriginAllowed \<lparr>ce_parse = (\<lambda>_. Some \<lparr>pu_Scheme = ''https'', pu_Host = ''evil.org'', pu_Hostname = ''evil.org''\<rparr>), ce_loopback_ip = (\<lambda>_. False)\<rparr>
      (setCorsOrigins ''https://panel.org/, '') ''10.0.0.2:8080'' ''https://evil.org'' \<and>
   (\<forall>h \<in> set (fst (corsMiddleware \<lparr>ce_parse = (\<lambda>_. Some \<lparr>pu_Scheme = ''https'', pu_Host = ''evil.org'', pu_Hostname = ''evil.org''\<rparr>), ce_loopback_ip = (\<lambda>_. False)\<rparr>
      (setCorsOrigins ''https://panel.org/, '')
      \<lparr>cr_method = ''GET'', cr_host = ''10.0.0.2:8080'', cr_origin = ''https://evil.org'', cr_preflight = []\<rparr>)).
      \<not> HasPrefix (fst h) ''Access-Control-Allow'')"
proof -
  let ?E = "\<lparr>ce_parse = (\<lambda>_. Some \<lparr>pu_Scheme = ''https'', pu_Host = ''evil.org'', pu_Hostname = ''evil.org''\<rparr>), ce_loopback_ip = (\<lambda>_. False)\<rparr>"
  have "\<not> corsOriginAllowed ?E (setCorsOrigins ''https://panel.org/, '') ''10.0.0.2:8080'' ''https://evil.org''" by code_simp
  then show ?thesis
    using foreign_origin_gets_nothing [of ?E "setCorsOrigins ''https://panel.org/, ''"
        "\<lparr>cr_method = ''GET'', cr_host = ''10.0.0.2:8080'', cr_origin = ''https://evil.org'', cr_preflight = []\<rparr>"] by simp
qed

end
