(* ===== verification/Backups.thy ===== *)
theory Backups
  imports Trash Registries
begin

text \<open>
  Backups of instances (cmd/irix-node/backup.go): the selection of files, the archive, the tasks that
  make and restore a snapshot, and the requests that list, delete and hand out backups. The archive
  format and \<open>filepath.EvalSymlinks\<close> are parameters as in \<open>Files\<close>; \<open>gone\<close> tells which files cannot be
  opened when their turn comes, \<open>stamp\<close> is the formatted time.
\<close>

subsection \<open>Places\<close>

definition backupsDirOf :: "string \<Rightarrow> string \<Rightarrow> string" where
  "backupsDirOf dataDir uuid = Join [dataDir, ''backups'', uuid]"

definition checkBackupUUID :: "Node \<Rightarrow> string \<Rightarrow> string option" where
  "checkBackupUUID n uuid =
     (if \<not> safePathSegment uuid then Some (''bad uuid: '' @ uuid)
      else if Find n uuid = None then Some (''no such instance: '' @ uuid)
      else None)"

definition backupPathWithin :: "(string \<Rightarrow> eval_error + string) \<Rightarrow> string \<Rightarrow> string \<Rightarrow> bool" where
  "backupPathWithin ev dir ab =
     (if \<not> pathWithin dir ab then False
      else
        (case ev ab of
           Inr resolved \<Rightarrow> pathWithin dir resolved
         | Inl _ \<Rightarrow>
             (case ev (Dir ab) of
                Inl _ \<Rightarrow> True
              | Inr resolved \<Rightarrow> pathWithin dir (Join [resolved, Base ab]))))"

subsection \<open>The snapshot\<close>

definition isExcludedFromSnapshot :: "string \<Rightarrow> bool \<Rightarrow> bool" where
  "isExcludedFromSnapshot base isDir =
     (if isDir then base = ''.irix-trash'' \<or> base = ''.git''
      else
        let lower = ToLower base in
        HasSuffix lower ''.log'' \<or> HasSuffix lower ''.tmp'' \<or> Contains lower ''.part-'')"

text \<open>
  \<open>filepath.WalkDir\<close> visits a directory before what is in it and the names of a directory in order:
  that is the order of the keys. It leaves out what is below an excluded directory. A snapshot entry
  is the path relative to the directory and the place of the file.
\<close>

definition in_snapshot :: "string list \<Rightarrow> fs \<Rightarrow> string list \<Rightarrow> bool" where
  "in_snapshot ws fs k \<longleftrightarrow>
     prefix ws k \<and> (case fmlookup fs k of Some (FFile _) \<Rightarrow> True | _ \<Rightarrow> False) \<and>
     list_all (\<lambda>w. \<not> isExcludedFromSnapshot w True) (drop (length ws) (butlast k)) \<and>
     \<not> isExcludedFromSnapshot (if k = [] then ''/'' else last k) False"

definition snapshot_rel :: "string list \<Rightarrow> string list \<Rightarrow> string" where
  "snapshot_rel ws k = (if k = ws then ''.'' else join_with ''/'' (drop (length ws) k))"

definition snapshotFiles :: "string \<Rightarrow> fs \<Rightarrow> (string list \<times> string) list" where
  "snapshotFiles cwd fs =
     (let ws = root_words cwd in map (\<lambda>k. (k, snapshot_rel ws k)) (filter (in_snapshot ws fs) (fs_keys fs)))"

text \<open>
  The entry of a file is made before the file is opened, so that a file that cannot be opened leaves
  an empty entry.
\<close>

fun snapshot_entries ::
  "(string list \<Rightarrow> bool) \<Rightarrow> fs \<Rightarrow> (string list \<times> string) list \<Rightarrow> (string \<times> string) list \<Rightarrow> string option \<times> (string \<times> string) list" where
  "snapshot_entries gone fs [] out = (None, out)"
| "snapshot_entries gone fs ((k, rel) # es) out =
     (case (if gone k then None else fmlookup fs k) of
        Some (FFile data) \<Rightarrow> snapshot_entries gone fs es (out @ [(rel, data)])
      | _ \<Rightarrow> (Some (''cannot open '' @ rel), out @ [(rel, [])]))"

text \<open>The archive is closed, and so complete as an archive, on every way out.\<close>

definition createSnapshotZip ::
  "zip_format \<Rightarrow> (string list \<Rightarrow> bool) \<Rightarrow> string \<Rightarrow> (string list \<times> string) list \<Rightarrow> fs \<Rightarrow> string option \<times> fs" where
  "createSnapshotZip Z gone dest es fs =
     (case MkdirAll (Dir dest) fs of
        None \<Rightarrow> (Some ''cannot make directory'', fs)
      | Some fs \<Rightarrow>
        (case WriteFile dest [] fs of
           None \<Rightarrow> (Some ''cannot create'', fs)
         | Some fs \<Rightarrow>
           (case snapshot_entries gone fs es [] of
              (e, out) \<Rightarrow> (e, the (WriteFile dest (zf_write Z out) fs)))))"

definition handleInstanceSnapshot :: "instant \<Rightarrow> string \<Rightarrow> string option \<Rightarrow> Node \<Rightarrow> taskStore \<Rightarrow> string reply \<times> taskStore" where
  "handleInstanceSnapshot now uid body n ts =
     (case body of
        None \<Rightarrow> (Fail 400 ''malformed body'', ts)
      | Some uuid \<Rightarrow>
        (case Find n uuid of
           None \<Rightarrow> (Fail 400 ''no such instance'', ts)
         | Some r \<Rightarrow>
             if cf_Cwd (in_Config (obj n r)) = [] then (Fail 400 ''empty working directory'', ts)
             else (Reply uid, task_create ts now uid)))"

definition runSnapshot ::
  "zip_format \<Rightarrow> (string list \<Rightarrow> bool) \<Rightarrow> string \<Rightarrow> string \<Rightarrow> string \<Rightarrow> string \<Rightarrow> string \<Rightarrow> taskStore \<Rightarrow> fs \<Rightarrow> taskStore \<times> fs" where
  "runSnapshot Z gone stamp dataDir taskID uuid cwd ts fs =
     (let es = snapshotFiles cwd fs in
      if es = [] then (task_update ts taskID (\<lambda>t. task_setError t ''nothing to back up''), fs)
      else
        let dest = Join [backupsDirOf dataDir uuid, stamp @ ''.zip''] in
        (case createSnapshotZip Z gone dest es fs of
           (Some e, fs) \<Rightarrow> (task_update ts taskID (\<lambda>t. task_setError t e), fs)
         | (None, fs) \<Rightarrow> (task_update ts taskID (\<lambda>t. task_set t TaskDone 1 ''backup done'' dest), fs)))"

subsection \<open>Restoring\<close>

definition handleInstanceRestore ::
  "(string \<Rightarrow> eval_error + string) \<Rightarrow> string option \<Rightarrow> instant \<Rightarrow> string \<Rightarrow> string \<Rightarrow> (string \<times> string) option \<Rightarrow>
   Node \<Rightarrow> taskStore \<Rightarrow> fs \<Rightarrow> (string \<times> string) reply \<times> taskStore" where
  "handleInstanceRestore ev wd now uid dataDir body n ts fs =
     (case body of
        None \<Rightarrow> (Fail 400 ''malformed body'', ts)
      | Some (uuid, archivePath) \<Rightarrow>
        (case Find n uuid of
           None \<Rightarrow> (Fail 400 ''no such instance'', ts)
         | Some r \<Rightarrow>
           (case Abs wd archivePath of
              None \<Rightarrow> (Fail 400 ''bad backup path'', ts)
            | Some archive \<Rightarrow>
                if \<not> backupPathWithin ev (backupsDirOf dataDir uuid) archive then (Fail 400 ''not a backup of the instance'', ts)
                else
                  (case node_at fs archive of
                     Some (FFile _) \<Rightarrow>
                       if cf_Cwd (in_Config (obj n r)) = [] then (Fail 400 ''empty working directory'', ts)
                       else (Reply (uid, archive), task_create ts now uid)
                   | _ \<Rightarrow> (Fail 400 (''no such backup: '' @ archivePath), ts)))))"

definition errNotRunning :: string where "errNotRunning = ''instance is not running''"

text \<open>
  The task: \<open>stopped\<close> is how \<open>stopInstance\<close> ended, with the node after it. The instance is busy while the
  archive is unpacked.
\<close>

definition set_busy :: "bool \<Rightarrow> nat \<Rightarrow> Node \<Rightarrow> Node" where
  "set_busy b r n = set_obj r (\<lambda>i. i\<lparr>in_Busy := b\<rparr>) n"

definition runRestore ::
  "zip_format \<Rightarrow> int \<Rightarrow> string option \<times> Node \<Rightarrow> nat \<Rightarrow> string \<Rightarrow> string \<Rightarrow> string \<Rightarrow> taskStore \<Rightarrow> fs \<Rightarrow> taskStore \<times> Node \<times> fs" where
  "runRestore Z now stopped r taskID archive cwd ts fs =
     (case stopped of (e, n) \<Rightarrow>
      if e \<noteq> None \<and> e \<noteq> Some errNotRunning then (task_update ts taskID (\<lambda>t. task_setError t (the e)), n, fs)
      else
        let n = set_busy True r n in
        (case unzip Z archive cwd fs of
           (Some e, fs) \<Rightarrow> (task_update ts taskID (\<lambda>t. task_setError t e), set_busy False r n, fs)
         | (None, fs) \<Rightarrow>
             (task_update ts taskID (\<lambda>t. task_set t TaskDone 1 ''restored'' []),
              set_busy False r (SetStatus now StatusStopped r n), fs)))"

definition writeSnapshotStatus :: "taskStore \<Rightarrow> string \<Rightarrow> (task_status \<times> rat \<times> string \<times> string option) reply" where
  "writeSnapshotStatus ts jobId = writeTaskStatus ts jobId"

subsection \<open>Listing, deleting and handing out\<close>

record backup_row =
  br_fileName :: string
  br_size :: int
  br_mtime :: int
  br_path :: string

definition backup_rows :: "(string \<Rightarrow> int) \<Rightarrow> string \<Rightarrow> string list \<Rightarrow> fs \<Rightarrow> backup_row list" where
  "backup_rows mtime dir names fs =
     List.map_filter (\<lambda>w. case node_at fs (Join [dir, w]) of
         Some (FFile data) \<Rightarrow>
           if HasSuffix (ToLower w) ''.zip''
           then Some \<lparr>br_fileName = w, br_size = int (length data), br_mtime = mtime (Join [dir, w]), br_path = Join [dir, w]\<rparr>
           else None
       | _ \<Rightarrow> None) names"

text \<open>Newest first, and names in reverse where the times are equal.\<close>

definition newest_first :: "backup_row list \<Rightarrow> backup_row list" where
  "newest_first rows = rev (sort_key br_mtime (sort_key br_fileName rows))"

definition handleBackupsList :: "(string \<Rightarrow> int) \<Rightarrow> string \<Rightarrow> string \<Rightarrow> Node \<Rightarrow> fs \<Rightarrow> backup_row list reply" where
  "handleBackupsList mtime dataDir uuid n fs =
     (if uuid = [] then Fail 400 ''missing uuid''
      else
        (case checkBackupUUID n uuid of
           Some e \<Rightarrow> Fail 400 e
         | None \<Rightarrow>
             let dir = backupsDirOf dataDir uuid in
             (case node_at fs dir of
                None \<Rightarrow> Reply []
              | Some (FFile _) \<Rightarrow> Fail 500 ''cannot read the directory''
              | Some FDir \<Rightarrow>
                  Reply (newest_first (backup_rows mtime dir (children (root_words dir) fs) fs)))))"

fun delete_backups ::
  "(string \<Rightarrow> eval_error + string) \<Rightarrow> string option \<Rightarrow> string \<Rightarrow> string list \<Rightarrow> fs \<Rightarrow> unit reply \<times> fs" where
  "delete_backups ev wd dir [] fs = (Reply (), fs)"
| "delete_backups ev wd dir (p # ps) fs =
     (case Abs wd p of
        None \<Rightarrow> (Fail 400 (''path out of bounds: '' @ p), fs)
      | Some ab \<Rightarrow>
          if \<not> backupPathWithin ev dir ab then (Fail 400 (''path out of bounds: '' @ p), fs)
          else
            (case node_at fs ab of
               None \<Rightarrow> delete_backups ev wd dir ps fs
             | Some (FFile _) \<Rightarrow> delete_backups ev wd dir ps (drop_file ab fs)
             | Some FDir \<Rightarrow>
                 if children (root_words ab) fs = [] then delete_backups ev wd dir ps (RemoveAll ab fs)
                 else (Fail 500 ''cannot delete the backup'', fs)))"

definition handleBackupsDelete ::
  "(string \<Rightarrow> eval_error + string) \<Rightarrow> string option \<Rightarrow> string \<Rightarrow> string \<Rightarrow> string list option \<Rightarrow> Node \<Rightarrow> fs \<Rightarrow> unit reply \<times> fs" where
  "handleBackupsDelete ev wd dataDir uuid body n fs =
     (if uuid = [] then (Fail 400 ''missing uuid'', fs)
      else
        (case checkBackupUUID n uuid of
           Some e \<Rightarrow> (Fail 400 e, fs)
         | None \<Rightarrow>
           (case body of
              None \<Rightarrow> (Fail 400 ''malformed body'', fs)
            | Some ps \<Rightarrow> delete_backups ev wd (backupsDirOf dataDir uuid) ps fs)))"

definition handleBackupDownloadTicket ::
  "(string \<Rightarrow> eval_error + string) \<Rightarrow> string option \<Rightarrow> instant \<Rightarrow> string \<Rightarrow> string \<Rightarrow> string \<Rightarrow> (string \<times> string) option \<Rightarrow>
   Node \<Rightarrow> fs \<Rightarrow> ticketStore \<Rightarrow> string reply \<times> ticketStore" where
  "handleBackupDownloadTicket ev wd now uid dataDir uuidQ body n fs tk =
     (case body of
        None \<Rightarrow> (Fail 400 ''malformed body'', tk)
      | Some (uuidB, p) \<Rightarrow>
          let uuid = (if uuidQ = [] then uuidB else uuidQ) in
          if uuid = [] then (Fail 400 ''missing uuid'', tk)
          else
            (case checkBackupUUID n uuid of
               Some e \<Rightarrow> (Fail 400 e, tk)
             | None \<Rightarrow>
               (case Abs wd p of
                  None \<Rightarrow> (Fail 400 ''bad backup path'', tk)
                | Some ab \<Rightarrow>
                    let dir = backupsDirOf dataDir uuid in
                    if \<not> backupPathWithin ev dir ab then (Fail 400 ''not a backup of the instance'', tk)
                    else
                      (case node_at fs ab of
                         Some (FFile _) \<Rightarrow>
                           (case ticket_CreateDownload tk now uid uuid dir ab of
                              (tk, password) \<Rightarrow>
                                if password = [] then (Fail 503 ''too many download tickets'', tk) else (Reply password, tk))
                       | _ \<Rightarrow> (Fail 400 ''no such backup'', tk)))))"

end
