(* ===== verification/FileLog.thy ===== *)
theory FileLog
  imports Trash LineLog
begin

text \<open>
  Log files (cmd/irix-node/logger.go, instance_logs.go, the reading of the audit log in audit.go):
  the writer behind a bounded queue, its buffer, rotation and archive, and the reading of the last
  lines over all files of a log. The operations of the writer's goroutine are steps on its state
  and the file system; the argument \<open>disk\<close> tells whether the disk accepts what a step writes, beyond
  what the tree of files already decides, and \<open>stamp\<close> is the time format of the archive's names.
\<close>

subsection \<open>The writer\<close>

record fileLogger =
  fl_path :: string
  fl_maxSize :: int
  fl_keep :: nat
  fl_interval :: int
  fl_archiveDir :: string
  fl_archiveSeq :: nat
  fl_buf :: "string option"
  fl_size :: int
  fl_opened :: instant
  fl_lastOp :: "instant option"
  fl_drop :: nat
  fl_ch :: "string list"

text \<open>\<open>fl_buf\<close> is the content of the buffered writer; \<open>None\<close> while the file is closed.\<close>

definition newFileLoggerN :: "string \<Rightarrow> string \<Rightarrow> int \<Rightarrow> int \<Rightarrow> int \<Rightarrow> fileLogger" where
  "newFileLoggerN dir name maxSize keep interval =
     \<lparr>fl_path = Join [dir, name], fl_maxSize = (if maxSize \<le> 0 then 64 * 2 ^ 20 else maxSize),
      fl_keep = (if keep \<le> 0 then 1 else nat keep), fl_interval = interval, fl_archiveDir = [], fl_archiveSeq = 0,
      fl_buf = None, fl_size = 0, fl_opened = zero_time, fl_lastOp = None, fl_drop = 0, fl_ch = []\<rparr>"

definition newFileLogger :: "string \<Rightarrow> string \<Rightarrow> int \<Rightarrow> fileLogger" where
  "newFileLogger dir name maxSize = newFileLoggerN dir name maxSize 1 0"

definition queue_max :: nat where "queue_max = 512"

definition fileLogger_Write :: "fileLogger \<Rightarrow> string \<Rightarrow> fileLogger" where
  "fileLogger_Write f p =
     (if length (fl_ch f) < queue_max then f\<lparr>fl_ch := fl_ch f @ [p]\<rparr> else f\<lparr>fl_drop := fl_drop f + length p\<rparr>)"

text \<open>A buffered writer of 16 KiB: what goes to the file, and what stays in the buffer.\<close>

definition buf_max :: nat where "buf_max = 16 * 2 ^ 10"

definition bufio_write :: "string \<Rightarrow> string \<Rightarrow> string \<times> string" where
  "bufio_write b p =
     (if length p \<le> buf_max - length b then ([], b @ p)
      else if b = [] then (p, [])
      else
        let n = buf_max - length b; rest = drop n p in
        if length rest \<le> buf_max then (b @ take n p, rest) else (b @ p, []))"

definition numbered :: "string \<Rightarrow> nat \<Rightarrow> string" where
  "numbered path i = path @ ''.'' @ Itoa (int i)"

definition logger_open :: "instant \<Rightarrow> bool \<Rightarrow> fileLogger \<Rightarrow> fs \<Rightarrow> bool \<times> fileLogger \<times> fs" where
  "logger_open now disk f fs =
     (case MkdirAll (Dir (fl_path f)) fs of
        None \<Rightarrow> (False, f, fs)
      | Some fs \<Rightarrow>
        (case (if disk then OpenCreate (fl_path f) fs else None) of
           None \<Rightarrow> (False, f, fs)
         | Some fs \<Rightarrow> (True, f\<lparr>fl_buf := Some [], fl_size := 0, fl_opened := now, fl_lastOp := None\<rparr>, fs)))"

definition flush_buf :: "bool \<Rightarrow> fileLogger \<Rightarrow> fs \<Rightarrow> fs" where
  "flush_buf disk f fs =
     (case fl_buf f of None \<Rightarrow> fs | Some b \<Rightarrow> if disk then append_file (fl_path f) b fs else fs)"

definition pad3 :: "nat \<Rightarrow> string" where
  "pad3 n = replicate (3 - length (Itoa (int n))) (CHR ''0'') @ Itoa (int n)"

definition archive_word :: "(instant \<Rightarrow> string) \<Rightarrow> string \<Rightarrow> instant \<Rightarrow> nat \<Rightarrow> string" where
  "archive_word stamp path now k = TrimSuffix (Base path) (Ext path) @ ''-'' @ stamp now @ ''-'' @ pad3 k @ ''.log''"

definition archive_name :: "(instant \<Rightarrow> string) \<Rightarrow> instant \<Rightarrow> fileLogger \<Rightarrow> string" where
  "archive_name stamp now f = Join [fl_archiveDir f, archive_word stamp (fl_path f) now (fl_archiveSeq f)]"

definition archiveRotated :: "(instant \<Rightarrow> string) \<Rightarrow> instant \<Rightarrow> fileLogger \<Rightarrow> fs \<Rightarrow> fileLogger \<times> fs" where
  "archiveRotated stamp now f fs =
     (if node_at fs (numbered (fl_path f) 1) = None then (f, fs)
      else
        (case MkdirAll (fl_archiveDir f) fs of
           None \<Rightarrow> (f, fs)
         | Some fs \<Rightarrow>
             let f = f\<lparr>fl_archiveSeq := Suc (fl_archiveSeq f)\<rparr> in
             (f, snd (copyFile (numbered (fl_path f) 1) (archive_name stamp now f) fs))))"

text \<open>The files \<open>.1\<close> to \<open>.i\<close> move up by one, the last first.\<close>

fun shift_files :: "string \<Rightarrow> nat \<Rightarrow> fs \<Rightarrow> fs" where
  "shift_files path 0 fs = fs"
| "shift_files path (Suc i) fs =
     (let old = numbered path (Suc i) in
      shift_files path i
        (if node_at fs old = None then fs
         else (case Rename old (numbered path (Suc (Suc i))) fs of None \<Rightarrow> drop_file old fs | Some fs \<Rightarrow> fs)))"

definition rotate_files :: "string \<Rightarrow> nat \<Rightarrow> fs \<Rightarrow> fs" where
  "rotate_files path keep fs =
     (let fs = (if keep > 1 then shift_files path (keep - 1) (drop_file (numbered path keep) fs) else fs);
          fs = drop_file (numbered path 1) fs in
      case Rename path (numbered path 1) fs of None \<Rightarrow> drop_file path fs | Some fs \<Rightarrow> fs)"

definition logger_rotate :: "(instant \<Rightarrow> string) \<Rightarrow> instant \<Rightarrow> bool \<Rightarrow> fileLogger \<Rightarrow> fs \<Rightarrow> bool \<times> fileLogger \<times> fs" where
  "logger_rotate stamp now disk f fs =
     (let fs = flush_buf disk f fs; f = f\<lparr>fl_buf := None\<rparr>;
          (f, fs) = (if fl_archiveDir f \<noteq> [] then archiveRotated stamp now f fs else (f, fs)) in
      logger_open now disk f (rotate_files (fl_path f) (fl_keep f) fs))"

definition give_up :: "instant \<Rightarrow> string \<Rightarrow> fileLogger \<Rightarrow> fileLogger" where
  "give_up now p f = f\<lparr>fl_lastOp := Some now, fl_drop := fl_drop f + length p\<rparr>"

definition cooldown :: int where "cooldown = 5 * 10 ^ 9"

text \<open>The two rotations before a write, and the write; \<open>turn\<close> decides whether to rotate.\<close>

definition rotate_if ::
  "(instant \<Rightarrow> string) \<Rightarrow> instant \<Rightarrow> bool \<Rightarrow> bool \<Rightarrow> fileLogger \<Rightarrow> fs \<Rightarrow> bool \<times> fileLogger \<times> fs" where
  "rotate_if stamp now disk turn f fs = (if turn then logger_rotate stamp now disk f fs else (True, f, fs))"

definition put_text :: "instant \<Rightarrow> bool \<Rightarrow> string \<Rightarrow> fileLogger \<Rightarrow> fs \<Rightarrow> fileLogger \<times> fs" where
  "put_text now disk p f fs =
     (case fl_buf f of
        None \<Rightarrow> (f, fs)
      | Some b \<Rightarrow>
          (case bufio_write b p of (out, b') \<Rightarrow>
             if out \<noteq> [] \<and> \<not> disk then (give_up now p (f\<lparr>fl_buf := None\<rparr>), fs)
             else (f\<lparr>fl_buf := Some b', fl_size := fl_size f + int (length p)\<rparr>,
                   if out = [] then fs else append_file (fl_path f) out fs)))"

definition writeAll :: "(instant \<Rightarrow> string) \<Rightarrow> instant \<Rightarrow> bool \<Rightarrow> string \<Rightarrow> fileLogger \<Rightarrow> fs \<Rightarrow> fileLogger \<times> fs" where
  "writeAll stamp now disk p f fs =
     (if fl_buf f = None \<and> (case fl_lastOp f of None \<Rightarrow> False | Some t \<Rightarrow> time_Sub now t < cooldown)
      then (f\<lparr>fl_drop := fl_drop f + length p\<rparr>, fs)
      else
        (case (if fl_buf f = None then logger_open now disk f fs else (True, f, fs)) of
           (False, f, fs) \<Rightarrow> (give_up now p f, fs)
         | (True, f, fs) \<Rightarrow>
           (case rotate_if stamp now disk (fl_size f + int (length p) > fl_maxSize f \<and> fl_size f > 0) f fs of
              (False, f, fs) \<Rightarrow> (give_up now p f, fs)
            | (True, f, fs) \<Rightarrow>
              (case rotate_if stamp now disk
                      (fl_interval f > 0 \<and> fl_size f > 0 \<and> time_Sub now (fl_opened f) > fl_interval f) f fs of
                 (False, f, fs) \<Rightarrow> (give_up now p f, fs)
               | (True, f, fs) \<Rightarrow> put_text now disk p f fs))))"

text \<open>Clearing; the result is whether the current file could be removed or was not there.\<close>

fun drop_numbered :: "string \<Rightarrow> nat \<Rightarrow> fs \<Rightarrow> fs" where
  "drop_numbered path 0 fs = fs"
| "drop_numbered path (Suc i) fs = drop_file (numbered path (Suc i)) (drop_numbered path i fs)"

definition doClear :: "bool \<Rightarrow> fileLogger \<Rightarrow> fs \<Rightarrow> bool \<times> fileLogger \<times> fs" where
  "doClear disk f fs =
     (let fs = flush_buf disk f fs; f = f\<lparr>fl_buf := None, fl_size := 0\<rparr> in
      (node_at fs (fl_path f) \<noteq> Some FDir, f, drop_numbered (fl_path f) (fl_keep f) (drop_file (fl_path f) fs)))"

definition flushClose :: "bool \<Rightarrow> fileLogger \<Rightarrow> fs \<Rightarrow> fs" where
  "flushClose disk f fs = flush_buf disk f fs"

text \<open>The queue is written out: before a clear, and after a stop.\<close>

fun write_queue :: "(instant \<Rightarrow> string) \<Rightarrow> instant \<Rightarrow> bool \<Rightarrow> string list \<Rightarrow> fileLogger \<Rightarrow> fs \<Rightarrow> fileLogger \<times> fs" where
  "write_queue stamp now disk [] f fs = (f, fs)"
| "write_queue stamp now disk (p # ps) f fs = (case writeAll stamp now disk p f fs of (f, fs) \<Rightarrow> write_queue stamp now disk ps f fs)"

definition drain :: "(instant \<Rightarrow> string) \<Rightarrow> instant \<Rightarrow> bool \<Rightarrow> fileLogger \<Rightarrow> fs \<Rightarrow> fileLogger \<times> fs" where
  "drain stamp now disk f fs = write_queue stamp now disk (fl_ch f) (f\<lparr>fl_ch := []\<rparr>) fs"

definition clearWithDrain :: "(instant \<Rightarrow> string) \<Rightarrow> instant \<Rightarrow> bool \<Rightarrow> fileLogger \<Rightarrow> fs \<Rightarrow> bool \<times> fileLogger \<times> fs" where
  "clearWithDrain stamp now disk f fs = (case drain stamp now disk f fs of (f, fs) \<Rightarrow> doClear disk f fs)"

definition logger_Close :: "(instant \<Rightarrow> string) \<Rightarrow> instant \<Rightarrow> bool \<Rightarrow> fileLogger \<Rightarrow> fs \<Rightarrow> fs" where
  "logger_Close stamp now disk f fs = (case drain stamp now disk f fs of (f, fs) \<Rightarrow> flushClose disk f fs)"

subsection \<open>Reading\<close>

definition logTailDefault :: int where "logTailDefault = 1000"

definition logFilePaths :: "string \<Rightarrow> string \<Rightarrow> string list" where
  "logFilePaths logDir uuid =
     (if logDir = [] then []
      else let base = Join [logDir, uuid @ ''.log''] in map (numbered base) [5, 4, 3, 2, 1] @ [base])"

definition trim_empty :: "string list \<Rightarrow> string list" where
  "trim_empty ls = rev (dropWhile (\<lambda>l. l = []) (rev ls))"

definition splitLogLines :: "string \<Rightarrow> string list" where
  "splitLogLines s = trim_empty (split_on NL s)"

text \<open>The chunks are collected from the newest file on, so the paths come in reverse.\<close>

fun tail_chunks :: "fs \<Rightarrow> string list \<Rightarrow> int \<Rightarrow> int \<Rightarrow> string list list" where
  "tail_chunks fs [] n need = []"
| "tail_chunks fs (p # ps) n need =
     (if n > 0 \<and> need \<le> 0 then []
      else
        (case ReadFile p fs of
           None \<Rightarrow> tail_chunks fs ps n need
         | Some s \<Rightarrow>
             let ls = splitLogLines s in
             if ls = [] then tail_chunks fs ps n need
             else
               let k = (if n \<le> 0 \<or> int (length ls) < need then int (length ls) else need) in
               lastn (nat k) ls # tail_chunks fs ps n (if n > 0 then need - k else need)))"

definition log_text :: "string list \<Rightarrow> string" where
  "log_text ls = (if ls = [] then [] else join_with [NL] ls @ [NL])"

definition readLogTail :: "fs \<Rightarrow> string list \<Rightarrow> int \<Rightarrow> string" where
  "readLogTail fs paths n = log_text (concat (rev (tail_chunks fs (rev paths) n n)))"

text \<open>\<open>mtime\<close> gives the modification time of a file in milliseconds.\<close>

definition readLogSince :: "(string \<Rightarrow> int) \<Rightarrow> fs \<Rightarrow> string list \<Rightarrow> int \<Rightarrow> string" where
  "readLogSince mtime fs paths since =
     concat (map (\<lambda>p. case ReadFile p fs of
         None \<Rightarrow> []
       | Some s \<Rightarrow> if mtime p < since then [] else if s \<noteq> [] \<and> last s \<noteq> NL then s @ [NL] else s) paths)"

subsection \<open>Handlers\<close>

text \<open>\<open>au\<close> is the audit log, if there is one; the time of \<open>since\<close> is in milliseconds.\<close>

definition handleAuditLog ::
  "(string \<Rightarrow> int) \<Rightarrow> fileLogger option \<Rightarrow> string \<Rightarrow> string \<Rightarrow> fs \<Rightarrow> string reply" where
  "handleAuditLog mtime au tailQ sinceQ fs =
     (case au of
        None \<Rightarrow> Reply []
      | Some f \<Rightarrow>
          let paths = [numbered (fl_path f) 1, fl_path f] in
          if sinceQ \<noteq> [] then Reply (readLogSince mtime fs paths (atoiDefault sinceQ 0))
          else Reply (readLogTail fs paths (min 20000 (max 0 (atoiDefault tailQ 500)))))"

text \<open>What the handlers see of an instance's process: it runs or not, its lines, its log file.\<close>

record log_process =
  lp_running :: bool
  lp_lines :: "logLines option"
  lp_log :: "fileLogger option"

definition handleInstanceLogs ::
  "(string \<Rightarrow> int) \<Rightarrow> identity option \<Rightarrow> Node \<Rightarrow> string \<Rightarrow> string \<Rightarrow> log_process option \<Rightarrow> string \<Rightarrow> string \<Rightarrow> fs \<Rightarrow>
   access_error + string" where
  "handleInstanceLogs mtime ident n logDir uuid pr sinceQ tailQ fs =
     (case requireInstanceAccess ident n uuid of
        Inl e \<Rightarrow> Inl e
      | Inr _ \<Rightarrow>
          let paths = logFilePaths logDir uuid in
          if sinceQ \<noteq> [] then
            (case (case pr of Some p \<Rightarrow> if lp_running p then lp_lines p else None | None \<Rightarrow> None) of
               Some l \<Rightarrow> Inr (logLines_since l (atoiDefault sinceQ 0))
             | None \<Rightarrow> Inr (readLogSince mtime fs paths (atoiDefault sinceQ 0)))
          else
            let tail = atoiDefault tailQ logTailDefault;
                out = (if paths \<noteq> [] then readLogTail fs paths tail else []) in
            (case (case pr of Some p \<Rightarrow> lp_lines p | None \<Rightarrow> None) of
               Some l \<Rightarrow> Inr (if out = [] then logLines_tail l tail else out)
             | None \<Rightarrow> Inr out))"

text \<open>
  \<open>Clear\<close> is an error when the writer has been closed, as it is when its process has ended.
\<close>

definition handleInstanceLogsClear ::
  "(instant \<Rightarrow> string) \<Rightarrow> instant \<Rightarrow> bool \<Rightarrow> identity option \<Rightarrow> Node \<Rightarrow> string \<Rightarrow> string \<Rightarrow> log_process option \<Rightarrow> fs \<Rightarrow>
   (access_error + unit reply) \<times> log_process option \<times> fs" where
  "handleInstanceLogsClear stamp now disk ident n logDir uuid pr fs =
     (case requireInstanceAccess ident n uuid of
        Inl e \<Rightarrow> (Inl e, pr, fs)
      | Inr _ \<Rightarrow>
        (case pr of
           None \<Rightarrow> (Inr (Reply ()), pr, fold drop_file (logFilePaths logDir uuid) fs)
         | Some p \<Rightarrow>
             let p = p\<lparr>lp_lines := map_option logLines_clear (lp_lines p)\<rparr> in
             (case lp_log p of
                None \<Rightarrow> (Inr (Reply ()), Some p, fs)
              | Some f \<Rightarrow>
                  if \<not> lp_running p then (Inr (Fail 500 ''logger closed''), Some p, fs)
                  else
                    (case clearWithDrain stamp now disk f fs of (ok, f, fs) \<Rightarrow>
                       (Inr (if ok then Reply () else Fail 500 ''cannot clear the log''),
                        Some (p\<lparr>lp_log := Some f\<rparr>), fs)))))"

end
