(* ===== verification/LogSafety.thy ===== *)
theory LogSafety
  imports FileLog
begin

text \<open>
  What the log files of \<open>FileLog\<close> keep. The audit log is complete: archive, rotated file, current
  file and buffer hold everything that was written, in order. What is in the buffer cannot be read.
\<close>

declare One_nat_def [simp del]

subsection \<open>Files of a tree\<close>

definition text_at :: "fs \<Rightarrow> string list \<Rightarrow> string" where
  "text_at fs k = (case fmlookup fs k of Some (FFile x) \<Rightarrow> x | _ \<Rightarrow> [])"

lemma text_at_file [simp]: "fmlookup fs k = Some (FFile x) \<Longrightarrow> text_at fs k = x"
  by (simp add: text_at_def)

lemma text_at_none [simp]: "fmlookup fs k = None \<Longrightarrow> text_at fs k = []"
  by (simp add: text_at_def)

lemma text_at_upd [simp]: "text_at (fmupd k (FFile y) fs) k' = (if k' = k then y else text_at fs k')"
  by (simp add: text_at_def)

lemma text_at_drop [simp]: "text_at (fmdrop k fs) k' = (if k' = k then [] else text_at fs k')"
  by (simp add: text_at_def)

lemma file_leaf: "fs_ok fs \<Longrightarrow> fmlookup fs k = Some (FFile x) \<Longrightarrow> strict_prefix k y \<Longrightarrow> fmlookup fs y = None"
  using fs_ok_above [of fs k y] by (cases "fmlookup fs y") auto

lemma file_no_child: "fs_ok fs \<Longrightarrow> fmlookup fs k = Some (FFile x) \<Longrightarrow> fmlookup fs (k @ [w]) = None"
  using file_leaf [of fs k x "k @ [w]"] by (simp add: strict_prefix_def)

lemma fs_ok_rewrite: "fs_ok fs \<Longrightarrow> fmlookup fs k = Some (FFile x) \<Longrightarrow> fs_ok (fmupd k (FFile y) fs)"
  using file_no_child [of fs k x] unfolding fs_ok_def by (auto split: if_splits)

lemma fs_ok_new_file:
  "fs_ok fs \<Longrightarrow> real_word w \<Longrightarrow> fmlookup fs ws = Some FDir \<Longrightarrow> fmlookup fs (ws @ [w]) \<noteq> Some FDir \<Longrightarrow>
   fs_ok (fmupd (ws @ [w]) (FFile y) fs)"
  by (rule put_file_ok [of fs "ws @ [w]" y]) (auto simp: put_file_def dest: fs_ok_real)

lemma fs_ok_drop_file: "fs_ok fs \<Longrightarrow> fmlookup fs k = Some (FFile x) \<Longrightarrow> fs_ok (fmdrop k fs)"
  using file_no_child [of fs k x] unfolding fs_ok_def by (auto split: if_splits)

lemma rename_file:
  assumes ok: "fs_ok fs" and s: "fmlookup fs s = Some (FFile x)" and d: "fmlookup fs (ws @ [w]) \<noteq> Some FDir"
    "fmlookup fs ws = Some FDir" "s \<noteq> ws @ [w]"
  shows "rename_words s (ws @ [w]) fs = Some (fmupd (ws @ [w]) (FFile x) (fmdrop s fs))"
proof -
  have np: "\<not> prefix s (ws @ [w])"
  proof
    assume "prefix s (ws @ [w])"
    then have "prefix s ws" using d(3) by (auto simp: prefix_snoc)
    then show False using s d(2) file_leaf [OF ok s, of ws] by (cases "s = ws") (auto simp: strict_prefix_def)
  qed
  have leaf: "fmlookup fs (s @ u) = None" if "u \<noteq> []" for u
    using file_leaf [OF ok s, of "s @ u"] that by (simp add: strict_prefix_def)
  have "fmlookup (move_tree s (ws @ [w]) fs) y = fmlookup (fmupd (ws @ [w]) (FFile x) (fmdrop s fs)) y" for y
  proof (cases "y = ws @ [w]")
    case True
    then show ?thesis using s by (simp add: move_tree_lookup [OF np])
  next
    case False
    have "\<not> (prefix (ws @ [w]) y \<and> fmlookup fs (s @ drop (length (ws @ [w])) y) \<noteq> None)"
      using leaf False by (metis append.right_neutral append_eq_conv_conj prefix_def)
    then have "fmlookup (move_tree s (ws @ [w]) fs) y = (if prefix s y then None else fmlookup fs y)"
      using False by (simp only: move_tree_lookup [OF np] if_False) simp
    moreover have "prefix s y \<Longrightarrow> y \<noteq> s \<Longrightarrow> fmlookup fs y = None"
      using file_leaf [OF ok s] by (auto simp: strict_prefix_def)
    ultimately show ?thesis using False by auto
  qed
  then have "move_tree s (ws @ [w]) fs = fmupd (ws @ [w]) (FFile x) (fmdrop s fs)" by (rule fmap_ext)
  then show ?thesis using s d np by (simp add: rename_words_def)
qed

subsection \<open>Names\<close>

lemma path_suffix: "abs_path (d @ [n]) @ x = abs_path (d @ [n @ x])"
proof -
  have "join_with sep (d @ [n]) @ x = join_with sep (d @ [n @ x])" for sep
    by (induction sep d rule: join_with.induct) auto
  then show ?thesis by (simp add: path_of_def)
qed

lemma itoa_digits: "c \<in> set (Itoa (int n)) \<Longrightarrow> is_digit c"
  by (simp add: Itoa_def digits_itoa)

lemma numbered_path:
  assumes "real_word n"
  shows "numbered (abs_path (d @ [n])) i = abs_path (d @ [n @ ''.'' @ Itoa (int i)])" "real_word (n @ ''.'' @ Itoa (int i))"
proof -
  show "numbered (abs_path (d @ [n])) i = abs_path (d @ [n @ ''.'' @ Itoa (int i)])"
    by (simp add: numbered_def path_suffix)
  have "\<not> is_digit SEP" by code_simp
  then have "SEP \<notin> set (Itoa (int i))" using itoa_digits by blast
  moreover have "n \<noteq> []" "SEP \<notin> set n" using assms by (auto simp: real_word_def plain_word_def)
  moreover have "n @ ''.'' @ Itoa (int i) \<noteq> ''..''"
    using assms by (cases n) (auto simp: Itoa_def real_word_def plain_word_def append_eq_Cons_conv)
  moreover have "n @ ''.'' @ Itoa (int i) \<noteq> ''.''"
    using assms by (cases n) (auto simp: real_word_def plain_word_def)
  ultimately show "real_word (n @ ''.'' @ Itoa (int i))" by (auto simp: real_word_def plain_word_def)
qed

lemma pad3_digits: "c \<in> set (pad3 k) \<Longrightarrow> is_digit c"
proof -
  have "is_digit (CHR ''0'')" by code_simp
  then show "c \<in> set (pad3 k) \<Longrightarrow> is_digit c" by (auto simp: pad3_def dest: itoa_digits split: if_splits)
qed

lemma pad3_inject: "pad3 k = pad3 j \<Longrightarrow> k = j"
proof -
  have z: "digits_value (replicate m (CHR ''0'') @ s) = digits_value s" for m s
  proof (induction m)
    case (Suc m)
    have "digit_val (CHR ''0'') = 0" by code_simp
    then show ?case using Suc by (simp add: digits_value_def)
  qed simp
  have "digits_value (pad3 i) = i" for i by (simp add: pad3_def z) (simp add: Itoa_def)
  then show "pad3 k = pad3 j \<Longrightarrow> k = j" by metis
qed

lemma last_piece:
  assumes "a @ c # u = b @ c # v" "c \<notin> set u" "c \<notin> set v"
  shows "u = v"
proof -
  have "takeWhile (\<lambda>x. x \<noteq> c) (rev (a @ c # u)) = rev u" "takeWhile (\<lambda>x. x \<noteq> c) (rev (b @ c # v)) = rev v"
    using assms(2,3) by (auto simp: takeWhile_append1 takeWhile_append2 intro!: takeWhile_append2 [THEN trans])
  then show ?thesis using assms(1) by simp
qed

lemma archive_word_inject: "archive_word stamp p t k = archive_word stamp p t' j \<Longrightarrow> k = j"
proof -
  assume "archive_word stamp p t k = archive_word stamp p t' j"
  then have e: "stamp t @ CHR ''-'' # pad3 k = stamp t' @ CHR ''-'' # pad3 j" by (simp add: archive_word_def)
  have "\<not> is_digit (CHR ''-'')" by code_simp
  then have "CHR ''-'' \<notin> set (pad3 i)" for i using pad3_digits by blast
  then show "k = j" using last_piece [OF e] pad3_inject by blast
qed

lemma archive_word_real:
  assumes "\<And>t. SEP \<notin> set (stamp t)" "real_word n" "list_all real_word d"
  shows "real_word (archive_word stamp (abs_path (d @ [n])) t k)"
proof -
  have "SEP \<notin> set (TrimSuffix n e)" for e
    using assms(2) by (auto simp: TrimSuffix_def real_word_def plain_word_def dest: in_set_takeD)
  moreover have "\<not> is_digit SEP" by code_simp
  then have "SEP \<notin> set (pad3 k)" using pad3_digits by blast
  ultimately show ?thesis
    using assms Dir_Base_snoc(2) [of d n] by (auto simp: archive_word_def real_word_def plain_word_def append_eq_Cons_conv)
qed

subsection \<open>The steps of the writer\<close>

definition log_place :: "(instant \<Rightarrow> string) \<Rightarrow> string list \<Rightarrow> string \<Rightarrow> string list \<Rightarrow> bool" where
  "log_place stamp d n a \<longleftrightarrow>
     (\<forall>t. SEP \<notin> set (stamp t)) \<and> list_all real_word d \<and> real_word n \<and> list_all real_word a \<and> a \<noteq> d \<and> (\<forall>w. d \<noteq> a @ [w])"

definition rotated :: "string list \<Rightarrow> string \<Rightarrow> string list" where
  "rotated d n = d @ [n @ ''.'' @ Itoa (int 1)]"

lemma rotated_neq [simp]: "rotated d n \<noteq> d @ [n]" "d @ [n] \<noteq> rotated d n"
  by (auto simp: rotated_def)

lemma log_words:
  assumes "log_place stamp d n a"
  shows "root_words (abs_path (d @ [n])) = d @ [n]" "Dir (abs_path (d @ [n])) = abs_path d"
    "root_words (numbered (abs_path (d @ [n])) 1) = rotated d n" "root_words (abs_path d) = d"
    "root_words (abs_path a) = a" "real_word n" "real_word (n @ ''.'' @ Itoa (int 1))"
  using assms numbered_path(1) [of n d 1] numbered_path(2) [of n 1] Dir_Base_snoc [of d n] by (auto simp: log_place_def rotated_def)

lemma fmupd_twice [simp]: "fmupd k x (fmupd k y m) = fmupd k x m"
  by (rule fmap_ext) simp

lemma MkdirAll_there: "fs_ok fs \<Longrightarrow> list_all real_word k \<Longrightarrow> fmlookup fs k = Some FDir \<Longrightarrow> MkdirAll (abs_path k) fs = Some fs"
  by (rule MkdirAll_exists) (simp_all add: node_at_def)

lemma logger_open_new:
  assumes "log_place stamp d n a" "fs_ok fs" "fl_path f = abs_path (d @ [n])" "fmlookup fs d = Some FDir" "fmlookup fs (d @ [n]) = None"
  shows "logger_open now True f fs =
    (True, f\<lparr>fl_buf := Some [], fl_size := 0, fl_opened := now, fl_lastOp := None\<rparr>, fmupd (d @ [n]) (FFile []) fs)"
  using assms MkdirAll_there [of fs d] log_words [OF assms(1)]
  by (simp add: logger_open_def OpenCreate_def node_at_def WriteFile_def put_file_def log_place_def)

lemma rotate_files_one:
  assumes "log_place stamp d n a" "fs_ok fs" "fmlookup fs d = Some FDir" "fmlookup fs (d @ [n]) = Some (FFile x)"
    "fmlookup fs (rotated d n) \<noteq> Some FDir"
  shows "rotate_files (abs_path (d @ [n])) 1 fs = fmupd (rotated d n) (FFile x) (fmdrop (d @ [n]) fs)"
proof -
  let ?Q = "rotated d n"
  note w = log_words [OF assms(1)]
  define fs1 where "fs1 = drop_file (numbered (abs_path (d @ [n])) 1) fs"
  have l: "fmlookup fs1 k = (if k = ?Q then None else fmlookup fs k)" for k
    using assms(5) by (auto simp: fs1_def drop_file_def remove_file_def node_at_def w split: option.splits fnode.splits)
  have "fs_ok fs1"
    using assms(2,5) fs_ok_drop_file [OF assms(2)]
    by (auto simp: fs1_def drop_file_def remove_file_def node_at_def w split: option.splits fnode.splits)
  moreover have "d \<noteq> ?Q" by (simp add: rotated_def)
  ultimately have "rename_words (d @ [n]) ?Q fs1 = Some (fmupd ?Q (FFile x) (fmdrop (d @ [n]) fs1))"
    using assms(3,4) unfolding rotated_def by (intro rename_file) (auto simp: l rotated_def)
  then have "Rename (abs_path (d @ [n])) (numbered (abs_path (d @ [n])) 1) fs1 = Some (fmupd ?Q (FFile x) (fmdrop (d @ [n]) fs1))"
    by (simp add: Rename_def w(1,3))
  moreover have "fmupd ?Q (FFile x) (fmdrop (d @ [n]) fs1) = fmupd ?Q (FFile x) (fmdrop (d @ [n]) fs)"
    by (rule fmap_ext) (simp add: l)
  ultimately show ?thesis by (simp add: rotate_files_def flip: fs1_def)
qed

lemma copyFile_new:
  assumes "fs_ok fs" "list_all real_word a" "real_word w" "fmlookup fs a = Some FDir" "fmlookup fs (a @ [w]) = None"
    "fmlookup fs (root_words src) = Some (FFile x)"
  shows "copyFile src (abs_path (a @ [w])) fs = (None, fmupd (a @ [w]) (FFile x) fs)"
proof -
  have "root_words src \<noteq> a @ [w]" using assms(5,6) by auto
  then show ?thesis
    using assms MkdirAll_there [of fs a] Dir_Base_snoc [of a w]
    by (simp add: copyFile_def ReadFile_def WriteFile_def put_file_def node_at_def)
qed

lemma bufio_write_all: "fst (bufio_write b p) @ snd (bufio_write b p) = b @ p"
  by (simp add: bufio_write_def Let_def)

subsection \<open>Nothing of the audit log is lost\<close>

definition archive_text :: "string list \<Rightarrow> string list \<Rightarrow> fs \<Rightarrow> string" where
  "archive_text a ar fs = concat (map (\<lambda>w. text_at fs (a @ [w])) ar)"

lemma archive_text_upd: "k \<notin> (\<lambda>w. a @ [w]) ` set ar \<Longrightarrow> archive_text a ar (fmupd k (FFile y) fs) = archive_text a ar fs"
  unfolding archive_text_def by (intro arg_cong [where f = concat] map_cong) auto

lemma archive_text_drop: "k \<notin> (\<lambda>w. a @ [w]) ` set ar \<Longrightarrow> archive_text a ar (fmdrop k fs) = archive_text a ar fs"
  unfolding archive_text_def by (intro arg_cong [where f = concat] map_cong) auto

lemma archive_text_snoc: "archive_text a (ar @ [w]) fs = archive_text a ar fs @ text_at fs (a @ [w])"
  by (simp add: archive_text_def)

lemma archive_text_Nil [simp]: "archive_text a [] fs = []"
  by (simp add: archive_text_def)

text \<open>\<open>h\<close> is everything that was written, \<open>ar\<close> the names in the archive.\<close>

definition log_inv ::
  "(instant \<Rightarrow> string) \<Rightarrow> string list \<Rightarrow> string \<Rightarrow> string list \<Rightarrow> string \<Rightarrow> string list \<Rightarrow> fileLogger \<Rightarrow> fs \<Rightarrow> bool" where
  "log_inv stamp d n a h ar f fs \<longleftrightarrow>
     fs_ok fs \<and> fl_path f = abs_path (d @ [n]) \<and> fl_keep f = 1 \<and> fl_archiveDir f = abs_path a \<and> fl_ch f = [] \<and>
     fmlookup fs d = Some FDir \<and> fmlookup fs a = Some FDir \<and> fmlookup fs (rotated d n) \<noteq> Some FDir \<and>
     (\<forall>w. fmlookup fs (a @ [w]) \<noteq> None \<longrightarrow> w \<in> set ar) \<and>
     length ar = fl_archiveSeq f \<and>
     (\<forall>i<length ar. \<exists>t. ar ! i = archive_word stamp (abs_path (d @ [n])) t (Suc i)) \<and>
     (fmlookup fs (rotated d n) = None \<longrightarrow> ar = []) \<and>
     (case fl_buf f of
        None \<Rightarrow> fmlookup fs (d @ [n]) = None \<and> fmlookup fs (rotated d n) = None \<and> fl_lastOp f = None \<and> h = []
      | Some b \<Rightarrow>
          (\<exists>x. fmlookup fs (d @ [n]) = Some (FFile x)) \<and>
          archive_text a ar fs @ text_at fs (rotated d n) @ text_at fs (d @ [n]) @ b = h)"

lemma inv_open:
  assumes p: "log_place stamp d n a" and i: "log_inv stamp d n a h ar f fs" "fl_buf f = None"
  shows "\<exists>f' fs'. logger_open now True f fs = (True, f', fs') \<and> log_inv stamp d n a h ar f' fs' \<and> fl_buf f' = Some []"
proof -
  have n: "d @ [n] \<noteq> d" "d @ [n] \<noteq> a @ [w]" "fmlookup fs a = Some FDir" for w
    using p i(1) by (auto simp: log_place_def log_inv_def)
  moreover have "d @ [n] \<noteq> a" using i by (auto simp: log_inv_def)
  ultimately show ?thesis
    using i p log_words(6) [OF p] logger_open_new [OF p, of fs f now] fs_ok_new_file [of fs n d "[]"]
    by (auto simp: log_inv_def)
qed

lemma inv_flush:
  assumes p: "log_place stamp d n a" and i: "log_inv stamp d n a h ar f fs" "fl_buf f = Some b"
  shows "log_inv stamp d n a h ar (f\<lparr>fl_buf := Some []\<rparr>) (flush_buf True f fs)"
proof -
  obtain x where x: "fmlookup fs (d @ [n]) = Some (FFile x)" using i by (auto simp: log_inv_def)
  have k: "d @ [n] \<noteq> d" "d @ [n] \<noteq> a @ [w]" "d @ [n] \<noteq> a" for w
    using p i x by (auto simp: log_place_def log_inv_def)
  have "flush_buf True f fs = fmupd (d @ [n]) (FFile (x @ b)) fs"
    using i x log_words [OF p] by (simp add: flush_buf_def append_file_def node_at_def log_inv_def)
  then show ?thesis
    using i x k fs_ok_rewrite [of fs "d @ [n]" x "x @ b"] archive_text_upd [of "d @ [n]" a ar] by (auto simp: log_inv_def)
qed

lemma archive_step:
  assumes p: "log_place stamp d n a" and i: "log_inv stamp d n a h ar f fs" and q: "fmlookup fs (rotated d n) = Some (FFile q)"
  shows "\<exists>w. w \<notin> set ar \<and> (\<exists>t. w = archive_word stamp (abs_path (d @ [n])) t (Suc (length ar))) \<and> real_word w \<and>
    archiveRotated stamp now (f\<lparr>fl_buf := b\<rparr>) fs = (f\<lparr>fl_buf := b, fl_archiveSeq := Suc (length ar)\<rparr>, fmupd (a @ [w]) (FFile q) fs)"
proof -
  define w where "w = archive_word stamp (abs_path (d @ [n])) now (Suc (length ar))"
  have "w \<notin> set ar"
  proof
    assume "w \<in> set ar"
    then obtain j where j: "j < length ar" "ar ! j = w" by (auto simp: in_set_conv_nth)
    then have "j = length ar" using i archive_word_inject unfolding w_def log_inv_def by fastforce
    then show False using j by simp
  qed
  moreover have w: "real_word w"
    using p archive_word_real [of stamp n d now "Suc (length ar)"] by (simp add: w_def log_place_def)
  moreover have free: "fmlookup fs (a @ [w]) = None" using i calculation(1) by (auto simp: log_inv_def)
  have "archiveRotated stamp now (f\<lparr>fl_buf := b\<rparr>) fs = (f\<lparr>fl_buf := b, fl_archiveSeq := Suc (length ar)\<rparr>, fmupd (a @ [w]) (FFile q) fs)"
    using i p q w free log_words [OF p] copyFile_new [of fs a w "numbered (abs_path (d @ [n])) 1" q] MkdirAll_there [of fs a] Join_real [of a w]
    by (simp add: archiveRotated_def archive_name_def node_at_def log_inv_def log_place_def w_def)
  ultimately show ?thesis by (auto simp: w_def)
qed

lemma inv_rotate:
  assumes p: "log_place stamp d n a" and i: "log_inv stamp d n a h ar f fs" "fl_buf f = Some b"
  shows "\<exists>f' fs' ar'. logger_rotate stamp now True f fs = (True, f', fs') \<and> log_inv stamp d n a h ar' f' fs' \<and> fl_buf f' = Some []"
proof -
  define fs1 where "fs1 = flush_buf True f fs"
  have i1: "log_inv stamp d n a h ar (f\<lparr>fl_buf := Some []\<rparr>) fs1"
    unfolding fs1_def by (rule inv_flush [OF p i])
  then obtain x where x: "fmlookup fs1 (d @ [n]) = Some (FFile x)" by (auto simp: log_inv_def)
  have ks: "d @ [n] \<noteq> d" "d @ [n] \<noteq> a @ [w]" "d @ [n] \<noteq> a" "rotated d n \<noteq> a @ [w]" "rotated d n \<noteq> a" "rotated d n \<noteq> d" for w
    using p i1 x by (auto simp: log_place_def log_inv_def rotated_def)
  have arch: "fl_archiveDir f = abs_path a" "abs_path a \<noteq> []" "fl_path f = abs_path (d @ [n])" "fl_keep f = 1" "fl_ch f = []"
    using i1 by (auto simp: log_inv_def path_of_def)
  obtain f2 fs2 ar2 where r: "archiveRotated stamp now (f\<lparr>fl_buf := None\<rparr>) fs1 = (f2, fs2)"
    "f2 = f\<lparr>fl_buf := None, fl_archiveSeq := length ar2\<rparr>" "fs_ok fs2"
    "\<forall>i<length ar2. \<exists>t. ar2 ! i = archive_word stamp (abs_path (d @ [n])) t (Suc i)"
    "\<forall>w. fmlookup fs2 (a @ [w]) \<noteq> None \<longrightarrow> w \<in> set ar2" "\<And>k. k \<notin> {a @ [w] |w. True} \<Longrightarrow> fmlookup fs2 k = fmlookup fs1 k"
    "archive_text a ar2 fs2 @ x = h"
  proof (cases "fmlookup fs1 (rotated d n)")
    case None
    then have "archiveRotated stamp now (f\<lparr>fl_buf := None\<rparr>) fs1 = (f\<lparr>fl_buf := None\<rparr>, fs1)"
      using log_words [OF p] arch by (simp add: archiveRotated_def node_at_def)
    moreover have "f\<lparr>fl_buf := None\<rparr> = f\<lparr>fl_buf := None, fl_archiveSeq := length ar\<rparr>" using i1 by (auto simp: log_inv_def)
    ultimately show ?thesis
      using i1 None x by (intro that [of "f\<lparr>fl_buf := None\<rparr>" fs1 ar]) (auto simp: log_inv_def)
  next
    case (Some nd)
    then obtain q where q: "fmlookup fs1 (rotated d n) = Some (FFile q)" using i1 by (cases nd) (auto simp: log_inv_def)
    obtain w where w: "w \<notin> set ar" "\<exists>t. w = archive_word stamp (abs_path (d @ [n])) t (Suc (length ar))" "real_word w"
      "archiveRotated stamp now (f\<lparr>fl_buf := None\<rparr>) fs1 = (f\<lparr>fl_buf := None, fl_archiveSeq := length (ar @ [w])\<rparr>, fmupd (a @ [w]) (FFile q) fs1)"
      using archive_step [OF p i1 q, of now None] by auto
    have "fs_ok (fmupd (a @ [w]) (FFile q) fs1)"
      using i1 w(1,3) by (intro fs_ok_new_file) (auto simp: log_inv_def)
    moreover have "archive_text a (ar @ [w]) (fmupd (a @ [w]) (FFile q) fs1) = archive_text a ar fs1 @ q"
      using w(1) by (simp add: archive_text_snoc archive_text_upd image_iff)
    ultimately show ?thesis
      using i1 w x q by (intro that [of "f\<lparr>fl_buf := None, fl_archiveSeq := length (ar @ [w])\<rparr>" "fmupd (a @ [w]) (FFile q) fs1" "ar @ [w]"])
        (auto simp: log_inv_def nth_append less_Suc_eq)
  qed
  have l2: "fmlookup fs2 d = Some FDir" "fmlookup fs2 (d @ [n]) = Some (FFile x)" "fmlookup fs2 (rotated d n) \<noteq> Some FDir" "fmlookup fs2 a = Some FDir"
    using r(6) [of d] r(6) [of "d @ [n]"] r(6) [of "rotated d n"] r(6) [of a] p i1 x ks by (auto simp: log_inv_def log_place_def)
  define fs3 where "fs3 = fmupd (rotated d n) (FFile x) (fmdrop (d @ [n]) fs2)"
  have ok3: "fs_ok fs3"
    using fs_ok_drop_file [OF r(3) l2(2)] l2 ks log_words(7) [OF p] unfolding fs3_def rotated_def
    by (intro fs_ok_new_file) (auto simp: rotated_def)
  have "logger_rotate stamp now True f fs = logger_open now True f2 fs3"
    using r(1,2) arch rotate_files_one [OF p r(3) l2(1-3)]
    by (simp add: logger_rotate_def Let_def fs3_def flip: fs1_def)
  also have "\<dots> = (True, f2\<lparr>fl_buf := Some [], fl_size := 0, fl_opened := now, fl_lastOp := None\<rparr>, fmupd (d @ [n]) (FFile []) fs3)"
    using p ok3 r(2) arch l2 ks by (intro logger_open_new) (auto simp: fs3_def)
  finally have e: "logger_rotate stamp now True f fs = \<dots>" .
  have "fs_ok (fmupd (d @ [n]) (FFile []) fs3)"
    using ok3 l2 ks log_words(6) [OF p] by (intro fs_ok_new_file) (auto simp: fs3_def)
  moreover have "d @ [n] \<notin> (\<lambda>w. a @ [w]) ` set ar2" "rotated d n \<notin> (\<lambda>w. a @ [w]) ` set ar2" using ks by auto
  then have "archive_text a ar2 (fmupd (d @ [n]) (FFile []) fs3) = archive_text a ar2 fs2"
    by (simp add: fs3_def archive_text_upd archive_text_drop)
  ultimately have "log_inv stamp d n a h ar2 (f2\<lparr>fl_buf := Some [], fl_size := 0, fl_opened := now, fl_lastOp := None\<rparr>) (fmupd (d @ [n]) (FFile []) fs3)"
    using r l2 ks arch by (auto simp: log_inv_def fs3_def)
  then show ?thesis unfolding e by auto
qed

lemma inv_put:
  assumes p: "log_place stamp d n a" and i: "log_inv stamp d n a h ar f fs" "fl_buf f = Some b"
  shows "\<exists>f' fs'. put_text now True p f fs = (f', fs') \<and> log_inv stamp d n a (h @ p) ar f' fs' \<and> fl_buf f' \<noteq> None"
proof -
  obtain out b' where o: "bufio_write b p = (out, b')" by fastforce
  have ob: "out @ b' = b @ p" using bufio_write_all [of b p] o by simp
  obtain x where x: "fmlookup fs (d @ [n]) = Some (FFile x)" using i by (auto simp: log_inv_def)
  have k: "d @ [n] \<noteq> d" "d @ [n] \<notin> (\<lambda>w. a @ [w]) ` set ar" "d @ [n] \<noteq> a" "d = a \<longrightarrow> n \<noteq> w" for w
    using p i x by (auto simp: log_place_def log_inv_def)
  let ?fs = "fmupd (d @ [n]) (FFile (x @ out)) fs"
  have same: "fmupd (d @ [n]) (FFile x) fs = fs" using x by (intro fmap_ext) auto
  have "(if out = [] then fs else append_file (fl_path f) out fs) = ?fs"
    using i x log_words(1) [OF p] same by (simp add: append_file_def node_at_def log_inv_def)
  then have "put_text now True p f fs = (f\<lparr>fl_buf := Some b', fl_size := fl_size f + int (length p)\<rparr>, ?fs)"
    using i(2) o by (simp add: put_text_def)
  moreover have "log_inv stamp d n a (h @ p) ar (f\<lparr>fl_buf := Some b', fl_size := fl_size f + int (length p)\<rparr>) ?fs"
    using i x k fs_ok_rewrite [of fs "d @ [n]" x "x @ out"] archive_text_upd [OF k(2)] ob
    by (auto simp: log_inv_def)
  ultimately show ?thesis by auto
qed

lemma inv_rotate_if:
  assumes p: "log_place stamp d n a" and i: "log_inv stamp d n a h ar f fs" "fl_buf f \<noteq> None"
  shows "\<exists>f' fs' ar'. rotate_if stamp now True turn f fs = (True, f', fs') \<and> log_inv stamp d n a h ar' f' fs' \<and> fl_buf f' \<noteq> None"
proof (cases turn)
  case True
  obtain b where "fl_buf f = Some b" using i(2) by blast
  from inv_rotate [OF p i(1) this, of now] show ?thesis using True by (auto simp: rotate_if_def)
qed (use i in \<open>auto simp: rotate_if_def\<close>)

lemma inv_write:
  assumes p: "log_place stamp d n a" and i: "log_inv stamp d n a h ar f fs"
  shows "\<exists>f' fs' ar'. writeAll stamp now True p f fs = (f', fs') \<and> log_inv stamp d n a (h @ p) ar' f' fs'"
proof -
  obtain f1 fs1 where 1: "(if fl_buf f = None then logger_open now True f fs else (True, f, fs)) = (True, f1, fs1)"
    "log_inv stamp d n a h ar f1 fs1" "fl_buf f1 \<noteq> None"
    using inv_open [OF p i, of now] i by (cases "fl_buf f = None") auto
  obtain f2 fs2 ar2 where 2: "rotate_if stamp now True (fl_size f1 + int (length p) > fl_maxSize f1 \<and> fl_size f1 > 0) f1 fs1 = (True, f2, fs2)"
    "log_inv stamp d n a h ar2 f2 fs2" "fl_buf f2 \<noteq> None"
    using inv_rotate_if [OF p 1(2,3)] by blast
  obtain f3 fs3 ar3 where 3: "rotate_if stamp now True
      (fl_interval f2 > 0 \<and> fl_size f2 > 0 \<and> time_Sub now (fl_opened f2) > fl_interval f2) f2 fs2 = (True, f3, fs3)"
    "log_inv stamp d n a h ar3 f3 fs3" "fl_buf f3 \<noteq> None"
    using inv_rotate_if [OF p 2(2,3)] by blast
  obtain b where "fl_buf f3 = Some b" using 3(3) by blast
  moreover have "fl_buf f = None \<longrightarrow> fl_lastOp f = None" using i by (auto simp: log_inv_def)
  ultimately show ?thesis
    using inv_put [OF p 3(2), of b now p] 1(1) 2(1) 3(1) by (auto simp: writeAll_def)
qed

text \<open>The writes of a writer's life, each at its time, and its end.\<close>

fun written :: "(instant \<Rightarrow> string) \<Rightarrow> (instant \<times> string) list \<Rightarrow> fileLogger \<times> fs \<Rightarrow> fileLogger \<times> fs" where
  "written stamp [] s = s"
| "written stamp ((now, p) # ps) (f, fs) = written stamp ps (writeAll stamp now True p f fs)"

lemma inv_written:
  assumes p: "log_place stamp d n a"
  shows "log_inv stamp d n a h ar f fs \<Longrightarrow>
    \<exists>f' fs' ar'. written stamp ps (f, fs) = (f', fs') \<and> log_inv stamp d n a (h @ concat (map snd ps)) ar' f' fs'"
proof (induction ps arbitrary: h ar f fs)
  case (Cons q ps)
  obtain now p where q: "q = (now, p)" by fastforce
  obtain f1 fs1 ar1 where "writeAll stamp now True p f fs = (f1, fs1)" "log_inv stamp d n a (h @ p) ar1 f1 fs1"
    using inv_write [OF assms Cons.prems] by blast
  then show ?case using Cons.IH [of "h @ p" ar1 f1 fs1] by (auto simp: q)
qed auto

lemma flush_queue [simp]: "flush_buf disk (f\<lparr>fl_ch := c\<rparr>) fs = flush_buf disk f fs"
  by (simp add: flush_buf_def split: option.split)

text \<open>The files after a writer with an archive has written \<open>ps\<close> and was closed.\<close>

definition log_disk ::
  "(instant \<Rightarrow> string) \<Rightarrow> string \<Rightarrow> string \<Rightarrow> string \<Rightarrow> int \<Rightarrow> (instant \<times> string) list \<Rightarrow> instant \<Rightarrow> fs \<Rightarrow> fs" where
  "log_disk stamp dir n archive m ps now fs =
     (case written stamp ps ((newFileLogger dir n m)\<lparr>fl_archiveDir := archive\<rparr>, fs) of
        (f, fs) \<Rightarrow> logger_Close stamp now True f fs)"


subsection \<open>What cannot be read, and what grows\<close>

text \<open>
  A writer that never rotates: \<open>x\<close> was in the file before, \<open>h\<close> has been written, and nothing but
  the file itself has changed since \<open>fs0\<close>.
\<close>

definition plain_inv ::
  "string list \<Rightarrow> string \<Rightarrow> int \<Rightarrow> fs \<Rightarrow> string \<Rightarrow> string \<Rightarrow> fileLogger \<Rightarrow> fs \<Rightarrow> bool" where
  "plain_inv d n m fs0 x h f fs \<longleftrightarrow>
     list_all real_word d \<and> real_word n \<and> fs_ok fs \<and> fl_path f = abs_path (d @ [n]) \<and> fl_maxSize f = m \<and>
     fl_interval f = 0 \<and> fl_ch f = [] \<and> fmlookup fs d = Some FDir \<and>
     (\<forall>k. k \<noteq> d @ [n] \<longrightarrow> fmlookup fs k = fmlookup fs0 k) \<and>
     (case fl_buf f of
        None \<Rightarrow> h = [] \<and> fl_lastOp f = None \<and> fmlookup fs (d @ [n]) \<noteq> Some FDir \<and> text_at fs (d @ [n]) = x
      | Some b \<Rightarrow> fl_size f = int (length h) \<and>
          (\<exists>c. fmlookup fs (d @ [n]) = Some (FFile c) \<and> c @ b = x @ h \<and> (length h \<le> buf_max \<longrightarrow> c = x \<and> b = h)))"

lemma plain_words:
  "list_all real_word d \<Longrightarrow> real_word n \<Longrightarrow> root_words (abs_path (d @ [n])) = d @ [n] \<and> Dir (abs_path (d @ [n])) = abs_path d"
  using Dir_Base_snoc [of d n] by simp

lemma plain_open:
  assumes i: "plain_inv d n m fs0 x h f fs" "fl_buf f = None"
  shows "\<exists>f' fs'. logger_open now True f fs = (True, f', fs') \<and> plain_inv d n m fs0 x h f' fs' \<and> fl_buf f' \<noteq> None"
proof -
  have w: "root_words (abs_path (d @ [n])) = d @ [n]" "Dir (abs_path (d @ [n])) = abs_path d"
    using i plain_words by (auto simp: plain_inv_def)
  have dir: "MkdirAll (abs_path d) fs = Some fs" using i by (intro MkdirAll_there) (auto simp: plain_inv_def)
  show ?thesis
  proof (cases "fmlookup fs (d @ [n])")
    case None
    then show ?thesis
      using i dir w fs_ok_new_file [of fs n d "[]"]
      by (auto simp: logger_open_def OpenCreate_def node_at_def WriteFile_def put_file_def plain_inv_def)
  next
    case (Some nd)
    then show ?thesis
      using i dir w by (cases nd) (auto simp: logger_open_def OpenCreate_def node_at_def plain_inv_def)
  qed
qed

lemma plain_put:
  assumes i: "plain_inv d n m fs0 x h f fs" "fl_buf f = Some b"
  shows "\<exists>f' fs'. put_text now True p f fs = (f', fs') \<and> plain_inv d n m fs0 x (h @ p) f' fs'"
proof -
  obtain out b' where o: "bufio_write b p = (out, b')" by fastforce
  have ob: "out @ b' = b @ p" using bufio_write_all [of b p] o by simp
  obtain c where c: "fmlookup fs (d @ [n]) = Some (FFile c)" "c @ b = x @ h" "length h \<le> buf_max \<longrightarrow> c = x \<and> b = h"
    using i by (auto simp: plain_inv_def)
  let ?fs = "fmupd (d @ [n]) (FFile (c @ out)) fs"
  have same: "fmupd (d @ [n]) (FFile c) fs = fs" using c(1) by (intro fmap_ext) auto
  have w: "root_words (abs_path (d @ [n])) = d @ [n]" using i plain_words by (auto simp: plain_inv_def)
  have "(if out = [] then fs else append_file (fl_path f) out fs) = ?fs"
    using i c w same by (simp add: append_file_def node_at_def plain_inv_def)
  then have "put_text now True p f fs = (f\<lparr>fl_buf := Some b', fl_size := fl_size f + int (length p)\<rparr>, ?fs)"
    using i(2) o by (simp add: put_text_def)
  moreover have "length (h @ p) \<le> buf_max \<longrightarrow> c @ out = x \<and> b' = h @ p"
  proof
    assume "length (h @ p) \<le> buf_max"
    then have "c = x" "b = h" "length p \<le> buf_max - length h" using c(3) by auto
    then show "c @ out = x \<and> b' = h @ p" using o by (simp add: bufio_write_def)
  qed
  moreover have "(c @ out) @ b' = x @ h @ p" using c(2) ob by (metis append.assoc)
  ultimately show ?thesis
    using i c(1) fs_ok_rewrite [of fs "d @ [n]" c "c @ out"] by (auto simp: plain_inv_def)
qed

lemma plain_write:
  assumes i: "plain_inv d n m fs0 x h f fs" and l: "int (length (h @ p)) \<le> m"
  shows "\<exists>f' fs'. writeAll stamp now True p f fs = (f', fs') \<and> plain_inv d n m fs0 x (h @ p) f' fs'"
proof -
  obtain f1 fs1 where 1: "(if fl_buf f = None then logger_open now True f fs else (True, f, fs)) = (True, f1, fs1)"
    "plain_inv d n m fs0 x h f1 fs1" "fl_buf f1 \<noteq> None"
    using plain_open [OF i, of now] i by (cases "fl_buf f = None") auto
  obtain b where b: "fl_buf f1 = Some b" using 1(3) by blast
  have "fl_size f1 + int (length p) \<le> fl_maxSize f1" "fl_interval f1 = 0" using 1(2) b l by (auto simp: plain_inv_def)
  moreover have "fl_buf f = None \<longrightarrow> fl_lastOp f = None" using i by (auto simp: plain_inv_def)
  ultimately show ?thesis
    using plain_put [OF 1(2) b, of now p] 1(1) by (auto simp: writeAll_def rotate_if_def)
qed

lemma plain_written:
  "plain_inv d n m fs0 x h f fs \<Longrightarrow> int (length (h @ concat (map snd ps))) \<le> m \<Longrightarrow>
   \<exists>f' fs'. written stamp ps (f, fs) = (f', fs') \<and> plain_inv d n m fs0 x (h @ concat (map snd ps)) f' fs'"
proof (induction ps arbitrary: h f fs)
  case (Cons q ps)
  obtain now p where q: "q = (now, p)" by fastforce
  obtain f1 fs1 where "writeAll stamp now True p f fs = (f1, fs1)" "plain_inv d n m fs0 x (h @ p) f1 fs1"
    using plain_write [OF Cons.prems(1), of p stamp now] Cons.prems(2) q by auto
  then show ?case using Cons.IH [of "h @ p" f1 fs1] Cons.prems(2) by (auto simp: q)
qed auto

lemma plain_start:
  assumes "list_all real_word d" "real_word n" "fs_ok fs" "fmlookup fs d = Some FDir" "fmlookup fs (d @ [n]) \<noteq> Some FDir" "m > 0"
  shows "plain_inv d n m fs (text_at fs (d @ [n])) [] ((newFileLogger (abs_path d) n m)\<lparr>fl_archiveDir := a\<rparr>) fs"
  using assms Join_real [of d n] by (simp add: plain_inv_def newFileLogger_def newFileLoggerN_def)

lemma plain_end:
  assumes i: "plain_inv d n m fs0 x h f fs"
  shows "fs_ok (flush_buf True f fs) \<and> text_at (flush_buf True f fs) (d @ [n]) = x @ h \<and>
    fmlookup (flush_buf True f fs) (d @ [n]) \<noteq> Some FDir \<and> (\<forall>k. k \<noteq> d @ [n] \<longrightarrow> fmlookup (flush_buf True f fs) k = fmlookup fs0 k)"
proof (cases "fl_buf f")
  case None
  then show ?thesis using i by (simp add: plain_inv_def flush_buf_def)
next
  case (Some b)
  obtain c where c: "fmlookup fs (d @ [n]) = Some (FFile c)" "c @ b = x @ h" using i Some by (auto simp: plain_inv_def)
  have "root_words (abs_path (d @ [n])) = d @ [n]" using i plain_words by (auto simp: plain_inv_def)
  then have "flush_buf True f fs = fmupd (d @ [n]) (FFile (c @ b)) fs"
    using i Some c by (simp add: flush_buf_def append_file_def node_at_def plain_inv_def)
  then show ?thesis
    using i c fs_ok_rewrite [of fs "d @ [n]" c "c @ b"] by (auto simp: plain_inv_def)
qed

text \<open>
  The audit log cannot be read until 16 KiB of it have been written. The writer's buffer is
  flushed when it is full, when the file is rotated and at the end, but never after a line: whatever
  number of lines a fresh log has, as long as they fit the buffer, the request for the log answers
  with nothing, and a crash loses them.
\<close>

theorem audit_lines_lag:
  assumes "list_all real_word d" "real_word n" "fs_ok fs" "fmlookup fs d = Some FDir" "fmlookup fs (d @ [n]) = None"
    "fmlookup fs (rotated d n) = None" "length (concat (map snd ps)) \<le> buf_max" "int (length (concat (map snd ps))) \<le> m" "m > 0"
    and w: "written stamp ps ((newFileLogger (abs_path d) n m)\<lparr>fl_archiveDir := a\<rparr>, fs) = (f', fs')"
  shows "handleAuditLog mtime (Some f') tailQ [] fs' = Reply [] \<and> text_at fs' (d @ [n]) = []"
proof -
  have s: "plain_inv d n m fs [] [] ((newFileLogger (abs_path d) n m)\<lparr>fl_archiveDir := a\<rparr>) fs"
    using plain_start [of d n fs m a] assms by simp
  then have i: "plain_inv d n m fs [] (concat (map snd ps)) f' fs'"
    using plain_written [OF s, of ps stamp] assms(8) w by auto
  have t: "text_at fs' (d @ [n]) = []"
    using i assms(7) by (auto simp: plain_inv_def split: option.splits)
  have "root_words (numbered (abs_path (d @ [n])) 1) = rotated d n" "root_words (abs_path (d @ [n])) = d @ [n]"
    using assms(1,2) numbered_path(1) [of n d 1] numbered_path(2) [of n 1] by (simp_all add: rotated_def)
  moreover have "fmlookup fs' (rotated d n) = None" using i assms(6) by (auto simp: plain_inv_def)
  ultimately have "ReadFile (numbered (abs_path (d @ [n])) 1) fs' = None" "ReadFile (abs_path (d @ [n])) fs' \<in> {None, Some []}"
    using t by (auto simp: ReadFile_def node_at_def text_at_def split: option.splits fnode.splits)
  then have "tail_chunks fs' [abs_path (d @ [n]), numbered (abs_path (d @ [n])) 1] k k = []" for k
    by (auto simp: splitLogLines_def trim_empty_def split: option.split)
  then have "readLogTail fs' [numbered (abs_path (d @ [n])) 1, abs_path (d @ [n])] k = []" for k
    by (simp add: readLogTail_def log_text_def)
  moreover have "fl_path f' = abs_path (d @ [n])" using i by (simp add: plain_inv_def)
  ultimately show ?thesis using t by (simp add: handleAuditLog_def Let_def)
qed

text \<open>
  The limit on the size of a log file does not hold over restarts. Opening a file sets the
  counted size to zero, also where the file has content: if every run of the writer stays below the
  limit, the file is never rotated and holds the output of all runs.
\<close>

theorem restarts_grow_log:
  assumes "list_all real_word d" "real_word n" "fs_ok fs" "fmlookup fs d = Some FDir" "fmlookup fs (d @ [n]) = None" "m > 0"
    "\<forall>ps \<in> set runs. int (length (concat (map snd ps))) \<le> m"
  shows "let fs' = fold (\<lambda>ps. log_disk stamp (abs_path d) n a m ps now) runs fs in
    text_at fs' (d @ [n]) = concat (map snd (concat runs)) \<and> (\<forall>k. k \<noteq> d @ [n] \<longrightarrow> fmlookup fs' k = fmlookup fs k)"
proof -
  have "text_at (fold (\<lambda>ps. log_disk stamp (abs_path d) n a m ps now) runs g) (d @ [n]) = text_at g (d @ [n]) @ concat (map snd (concat runs)) \<and>
      (\<forall>k. k \<noteq> d @ [n] \<longrightarrow> fmlookup (fold (\<lambda>ps. log_disk stamp (abs_path d) n a m ps now) runs g) k = fmlookup g k)"
    if "fs_ok g" "fmlookup g d = Some FDir" "fmlookup g (d @ [n]) \<noteq> Some FDir" for g
    using that assms(7)
  proof (induction runs arbitrary: g)
    case (Cons ps runs)
    obtain f1 g1 where w: "written stamp ps ((newFileLogger (abs_path d) n m)\<lparr>fl_archiveDir := a\<rparr>, g) = (f1, g1)"
      "plain_inv d n m g (text_at g (d @ [n])) (concat (map snd ps)) f1 g1"
      using plain_written [OF plain_start [OF assms(1,2) Cons.prems(1-3) assms(6)], of ps stamp a] Cons.prems(4) by auto
    have "fl_ch f1 = []" using w(2) by (simp add: plain_inv_def)
    then have "log_disk stamp (abs_path d) n a m ps now g = flush_buf True f1 g1"
      using w(1) by (simp add: log_disk_def logger_Close_def drain_def flushClose_def)
    then show ?case
      using plain_end [OF w(2)] Cons.IH [of "flush_buf True f1 g1"] Cons.prems by (simp del: fold.simps add: fold_simps(2))
  qed simp
  from this [OF assms(3,4)] show ?thesis using assms(5) by simp
qed

subsection \<open>Reading the last lines\<close>

definition lines_of :: "fs \<Rightarrow> string \<Rightarrow> string list" where
  "lines_of fs p = (case ReadFile p fs of None \<Rightarrow> [] | Some s \<Rightarrow> splitLogLines s)"

lemma tail_chunks_all: "n \<le> 0 \<Longrightarrow> concat (rev (tail_chunks fs ps n need)) = concat (map (lines_of fs) (rev ps))"
  by (induction ps) (auto simp: lines_of_def Let_def split: option.split)

lemma tail_chunks_last:
  "n > 0 \<Longrightarrow> need \<ge> 0 \<Longrightarrow> concat (rev (tail_chunks fs ps n need)) = lastn (nat need) (concat (map (lines_of fs) (rev ps)))"
proof (induction ps arbitrary: need)
  case (Cons p ps)
  let ?ls = "lines_of fs p"
  define k where "k = (if int (length ?ls) < need then int (length ?ls) else need)"
  have k: "k \<ge> 0" "k \<le> need" "need - k \<ge> 0" "nat k = min (nat need) (length ?ls)" using Cons.prems by (auto simp: k_def)
  have step: "tail_chunks fs (p # ps) n need =
      (if need \<le> 0 then [] else if ?ls = [] then tail_chunks fs ps n need
       else lastn (nat k) ?ls # tail_chunks fs ps n (need - k))"
    using Cons.prems(1) by (simp add: lines_of_def k_def Let_def split: option.split)
  have "concat (rev (tail_chunks fs (p # ps) n need)) =
      lastn (nat (need - k)) (concat (map (lines_of fs) (rev ps))) @ lastn (nat k) ?ls"
    unfolding step using Cons.IH [OF Cons.prems(1) k(3)] Cons.prems(2) by (auto simp: k_def)
  also have "\<dots> = lastn (nat need) (concat (map (lines_of fs) (rev ps)) @ ?ls)"
    using k by (simp add: lastn_def nat_diff_distrib' min_def)
  finally show ?case by simp
qed (simp add: lastn_def)

text \<open>
  C29. Reading a log backwards, file by file, gives the last lines of the whole log: the answer for
  \<open>n\<close> lines consists of the last \<open>n\<close> of all lines of all files in order, of all of them where \<open>n\<close> is
  not positive.
\<close>

theorem tail_is_last_lines:
  "readLogTail fs paths n =
   (let ls = concat (map (lines_of fs) paths) in log_text (if n > 0 then lastn (nat n) ls else ls))"
  using tail_chunks_all [of n fs "rev paths" n] tail_chunks_last [of n n fs "rev paths"]
  by (simp add: readLogTail_def Let_def)

subsection \<open>Witnesses\<close>

definition l_fs :: fs where
  "l_fs = fmap_of_list [([], FDir), ([''arc''], FDir), ([''log''], FDir)]"

lemma l_place: "log_place (\<lambda>t. ''now'') [''log''] ''audit.log'' [''arc'']"
proof -
  have "real_word ''log''" "real_word ''audit.log''" "real_word ''arc''" by code_simp+
  then show ?thesis by (simp add: log_place_def)
qed

lemma l_fs_facts:
  "fs_ok l_fs" "fmlookup l_fs [''log''] = Some FDir" "fmlookup l_fs [''arc''] = Some FDir"
  "fmlookup l_fs ([''log''] @ [n]) = None" "fmlookup l_fs (rotated [''log''] n) = None" "fmlookup l_fs ([''arc''] @ [w]) = None"
proof -
  have "real_word ''log''" "real_word ''arc''" by code_simp+
  then show "fs_ok l_fs" unfolding fs_ok_def by (auto simp: l_fs_def fmlookup_of_list split: if_splits)
qed (simp_all add: l_fs_def fmlookup_of_list rotated_def)


theorem audit_lines_lag_witness:
  "\<exists>f' fs'. written (\<lambda>t. ''now'') [(0, ''line'')] ((newFileLogger (abs_path [''log'']) ''audit.log'' 1024)\<lparr>fl_archiveDir := abs_path [''arc'']\<rparr>, l_fs) = (f', fs') \<and>
    handleAuditLog (\<lambda>_. 0) (Some f') ''500'' [] fs' = Reply [] \<and> text_at fs' [''log'', ''audit.log''] = []"
proof -
  have r: "list_all real_word [''log'']" "real_word ''audit.log''" by code_simp+
  obtain f' fs' where w: "written (\<lambda>t. ''now'') [(0, ''line'')] ((newFileLogger (abs_path [''log'']) ''audit.log'' 1024)\<lparr>fl_archiveDir := abs_path [''arc'']\<rparr>, l_fs) = (f', fs')"
    by fastforce
  show ?thesis
    using audit_lines_lag [OF r l_fs_facts(1,2,4,5) _ _ _ w, of "\<lambda>_. 0" "''500''"] w by (simp add: buf_max_def)
qed

theorem restarts_grow_log_witness:
  "text_at (fold (\<lambda>ps. log_disk (\<lambda>t. ''now'') (abs_path [''log'']) ''a.log'' [] 4 ps 0) [[(0, ''abc'')], [(0, ''def'')], [(0, ''gh'')]] l_fs)
     [''log'', ''a.log''] = ''abcdefgh''"
proof -
  have r: "list_all real_word [''log'']" "real_word ''a.log''" by code_simp+
  show ?thesis
    using restarts_grow_log [OF r l_fs_facts(1,2,4), of 4 "[[(0, ''abc'')], [(0, ''def'')], [(0, ''gh'')]]" "\<lambda>t. ''now''" "[]" 0]
    by (simp add: Let_def)
qed

end
