(* ===== verification/BackupSafety.thy ===== *)
theory BackupSafety
  imports Backups LogSafety JailFiles TrashSafety
begin

text \<open>
  What backups promise: a snapshot that is done brings every file it holds back, whatever happened to
  the working directory in between; one that is too large never can; and the requests on backups
  touch nothing outside the instance's backup directory.
\<close>

subsection \<open>Archives\<close>

text \<open>The archive with these entries is read as these entries.\<close>

definition entry_of :: "string \<times> string \<Rightarrow> zip_entry \<Rightarrow> bool" where
  "entry_of e f \<longleftrightarrow> ze_Name f = fst e \<and> \<not> ze_IsDir f \<and> ze_UncompressedSize64 f = length (snd e) \<and>
     (case ze_Open f of None \<Rightarrow> False | Some ps \<Rightarrow> concat ps = snd e) \<and> \<not> ze_Err f"

definition zip_reads :: "zip_format \<Rightarrow> (string \<times> string) list \<Rightarrow> bool" where
  "zip_reads Z out \<longleftrightarrow> (case zf_read Z (zf_write Z out) of None \<Rightarrow> False | Some es \<Rightarrow> list_all2 entry_of out es)"

definition sizes :: "(string \<times> string) list \<Rightarrow> nat" where
  "sizes out = sum_list (map (\<lambda>e. length (snd e)) out)"

lemma sizes_simps [simp]: "sizes [] = 0" "sizes (e # out) = length (snd e) + sizes out"
  by (simp_all add: sizes_def)

lemma declared_total_mod: "list_all2 entry_of out es \<Longrightarrow> declared_total es = sizes out mod 2 ^ 64"
proof -
  assume a: "list_all2 entry_of out es"
  have "foldl (\<lambda>t f. (t + ze_UncompressedSize64 f) mod 2 ^ 64) (n mod 2 ^ 64) es = (n + sizes out) mod (2 ^ 64 :: nat)" for n
    using a
  proof (induction arbitrary: n rule: list_all2_induct)
    case (Cons e out f es)
    have "(n mod 2 ^ 64 + ze_UncompressedSize64 f) mod 2 ^ 64 = (n + length (snd e)) mod (2 ^ 64 :: nat)"
      using Cons.hyps(1) by (simp add: entry_of_def mod_add_left_eq)
    then show ?case using Cons.IH [of "n + length (snd e)"] by (simp add: ac_simps)
  qed simp
  from this [of 0] show ?thesis by (simp add: declared_total_def)
qed

lemma capped_copy_all: "length (concat ps) \<le> b \<Longrightarrow> capped_copy b ps = (concat ps, False)"
  by (induction ps arbitrary: b) auto

subsection \<open>Unpacking files\<close>

text \<open>Room for a file: no file lies above its place and no directory in it.\<close>

definition room_for :: "fs \<Rightarrow> string list \<Rightarrow> bool" where
  "room_for fs k \<longleftrightarrow> fmlookup fs k \<noteq> Some FDir \<and> (\<forall>u. strict_prefix u k \<longrightarrow> fmlookup fs u \<in> {None, Some FDir})"

lemma make_room:
  assumes "fs_ok fs" "list_all real_word (us @ [w])" "room_for fs (us @ [w])"
  shows "\<exists>fs1. MkdirAll (abs_path us) fs = Some fs1 \<and> fs_ok fs1 \<and>
    (\<forall>x. fmlookup fs1 x = (if prefix x us then Some FDir else fmlookup fs x))"
proof -
  have "\<exists>fs1. mkdir_words [] us fs = Some fs1"
  proof (rule mkdir_words_ok)
    fix x assume "prefix x ([] @ us)"
    then have "strict_prefix x (us @ [w])" by (auto simp: strict_prefix_def)
    then show "fmlookup fs x \<in> {None, Some FDir}" using assms(3) by (auto simp: room_for_def)
  qed
  then obtain fs1 where m: "MkdirAll (abs_path us) fs = Some fs1" using assms(2) by (auto simp: MkdirAll_def)
  then show ?thesis using MkdirAll_ok [OF assms(1) m] MkdirAll_lookup [OF m] assms(2) by auto
qed

lemma unpack_file:
  assumes ok: "fs_ok fs" and k: "list_all real_word (ds @ us @ [w])" "room_for fs (ds @ us @ [w])"
    and e: "entry_of (join_with ''/'' (us @ [w]), d) f" "wr + length d \<le> maxUnzipTotalBytes"
  shows "\<exists>fs1. unzip_entries (abs_path ds) (f # es) wr fs = unzip_entries (abs_path ds) es (wr + length d) fs1 \<and>
    fs_ok fs1 \<and> (\<forall>x. fmlookup fs1 x = (if x = ds @ us @ [w] then Some (FFile d) else if prefix x (ds @ us) then Some FDir else fmlookup fs x))"
proof -
  define k rel where "k = ds @ us @ [w]" and "rel = join_with ''/'' (us @ [w])"
  have r: "list_all real_word (us @ [w])" "list_all real_word ds" using assms(2) by auto
  have words: "path_words rel = us @ [w]" using r(1) unfolding rel_def by (intro path_words_join real_list_plain)
  have abs: "\<not> IsAbs rel" using r(1) unfolding rel_def by (intro join_plain_not_abs real_list_plain)
  have ne: "rel \<noteq> []" using words by (auto simp: path_words_def)
  have clean: "Clean (ze_Name f) = rel"
    using r(1) abs words e(1) by (simp add: entry_of_def rel_def Clean_def path_of_def)
  have dot: "rel \<noteq> ''.''" using join_not_dot [of "us @ [w]"] r(1) real_list_plain unfolding rel_def by blast
  have target: "Join [abs_path ds, rel] = abs_path k" using Join_words [OF r(2,1)] by (simp add: k_def rel_def)
  have within: "pathWithin (abs_path ds) (abs_path k)" using pathWithin_words [OF r(2), of k] r by (simp add: k_def)
  have dir: "Dir (abs_path k) = abs_path (ds @ us)" using r Dir_Base_snoc [of "ds @ us" w] by (simp add: k_def)
  have kw: "root_words (abs_path k) = k" "butlast k = ds @ us" "k \<noteq> []" "list_all real_word k"
    using r by (simp_all add: k_def butlast_append)
  obtain fs1 where m: "MkdirAll (abs_path (ds @ us)) fs = Some fs1" "fs_ok fs1"
    "\<And>x. fmlookup fs1 x = (if prefix x (ds @ us) then Some FDir else fmlookup fs x)"
    using make_room [OF ok, of "ds @ us" w] k by auto
  have up: "\<not> prefix k (ds @ us)" by (auto simp: k_def dest: prefix_length_le)
  then have free: "fmlookup fs1 k \<noteq> Some FDir" using k(2) m(3) [of k] by (simp add: room_for_def k_def)
  have put: "WriteFile (abs_path k) t fs1 = Some (fmupd k (FFile t) fs1)" for t
    using free m(3) [of "ds @ us"] by (simp add: WriteFile_def put_file_def kw)
  have neq: "ds @ us \<noteq> k" by (simp add: k_def)
  define fs2 where "fs2 = fmupd k (FFile d) (fmupd k (FFile []) fs1)"
  have put2: "WriteFile (abs_path k) d (fmupd k (FFile []) fs1) = Some fs2"
    using m(3) [of "ds @ us"] neq by (simp add: WriteFile_def put_file_def kw fs2_def)
  obtain ps where ps: "ze_Open f = Some ps" "concat ps = d" "\<not> ze_IsDir f" "\<not> ze_Err f"
    using e(1) by (auto simp: entry_of_def split: option.splits)
  have copy: "capped_copy (maxUnzipTotalBytes - wr) ps = (d, False)"
    using capped_copy_all [of ps "maxUnzipTotalBytes - wr"] e(2) ps(2) by simp
  have "unzip_entries (abs_path ds) (f # es) wr fs = unzip_entries (abs_path ds) es (wr + length d) fs2"
    using dot ne within by (simp only: unzip_entries.simps Let_def clean target dir m(1) ps copy put put2 option.case option.sel prod.case if_False if_True simp_thms)
  moreover have "fs_ok fs2" using put_file_ok [of fs1 k d fs2] m(2) free m(3) [of "ds @ us"]
    by (simp add: fs2_def put_file_def kw)
  moreover have "fmlookup fs2 x = (if x = ds @ us @ [w] then Some (FFile d) else if prefix x (ds @ us) then Some FDir else fmlookup fs x)" for x
    by (simp add: fs2_def m(3) k_def)
  ultimately show ?thesis by blast
qed

lemma strict_prefix_snoc: "strict_prefix x (us @ [w]) \<longleftrightarrow> prefix x us"
  by (auto simp: strict_prefix_def)

definition file_entry :: "string list \<Rightarrow> (string list \<Rightarrow> string) \<Rightarrow> string list \<Rightarrow> string \<times> string" where
  "file_entry ds c k = (join_with ''/'' (drop (length ds) k), c k)"

text \<open>Places for files in a directory: none lies in another.\<close>

definition file_places :: "string list \<Rightarrow> string list list \<Rightarrow> bool" where
  "file_places ds L \<longleftrightarrow> (\<forall>k\<in>set L. strict_prefix ds k \<and> list_all real_word k \<and> (\<forall>k'\<in>set L. \<not> strict_prefix k k'))"

lemma unpack_files:
  assumes "list_all2 entry_of (map (file_entry ds c) L) es" "file_places ds L" "fs_ok fs" "\<forall>k\<in>set L. room_for fs k"
    "wr + sizes (map (file_entry ds c) L) \<le> maxUnzipTotalBytes"
  shows "\<exists>fs1. unzip_entries (abs_path ds) es wr fs = (None, fs1) \<and> fs_ok fs1 \<and>
    (\<forall>x. fmlookup fs1 x = (if x \<in> set L then Some (FFile (c x)) else if \<exists>k\<in>set L. strict_prefix x k then Some FDir else fmlookup fs x))"
  using assms
proof (induction L arbitrary: es wr fs)
  case (Cons k L)
  obtain f es' where es: "es = f # es'" "entry_of (file_entry ds c k) f" "list_all2 entry_of (map (file_entry ds c) L) es'"
    using Cons.prems(1) by (auto simp: list_all2_Cons1)
  have kk: "strict_prefix ds k" "list_all real_word k" "\<And>k'. k' \<in> set L \<Longrightarrow> \<not> strict_prefix k k'" "\<And>k'. k' \<in> set L \<Longrightarrow> \<not> strict_prefix k' k"
    using Cons.prems(2) by (auto simp: file_places_def)
  then obtain r where "k = ds @ r" "r \<noteq> []" by (auto simp: strict_prefix_def prefix_def)
  then obtain us w where k: "k = ds @ us @ [w]" by (cases r rule: rev_cases) auto
  have above: "strict_prefix x k \<longleftrightarrow> prefix x (ds @ us)" for x
    using strict_prefix_snoc [of x "ds @ us" w] by (simp add: k)
  have "entry_of (join_with ''/'' (us @ [w]), c k) f" "wr + length (c k) \<le> maxUnzipTotalBytes"
    using es(2) Cons.prems(5) by (simp_all add: file_entry_def k)
  then obtain fs1 where fs1: "unzip_entries (abs_path ds) es wr fs = unzip_entries (abs_path ds) es' (wr + length (c k)) fs1" "fs_ok fs1"
    "\<And>x. fmlookup fs1 x = (if x = k then Some (FFile (c k)) else if strict_prefix x k then Some FDir else fmlookup fs x)"
    using unpack_file [OF Cons.prems(3), of ds us w "c k" f wr es'] kk(2) Cons.prems(4) unfolding es(1) above
    by (auto simp: k)
  have "\<forall>k'\<in>set L. room_for fs1 k'" unfolding room_for_def
  proof (intro ballI conjI allI impI)
    fix k' assume k': "k' \<in> set L"
    have old: "room_for fs k'" using Cons.prems(4) k' by simp
    show "fmlookup fs1 k' \<noteq> Some FDir" using fs1(3) [of k'] kk(4) [OF k'] old by (simp add: room_for_def)
    show "fmlookup fs1 u \<in> {None, Some FDir}" if "strict_prefix u k'" for u
      using that fs1(3) [of u] kk(3) [OF k'] old by (auto simp: room_for_def)
  qed
  moreover have "file_places ds L" using Cons.prems(2) by (simp add: file_places_def)
  moreover have "wr + length (c k) + sizes (map (file_entry ds c) L) \<le> maxUnzipTotalBytes"
    using Cons.prems(5) by (simp add: file_entry_def [of _ _ k])
  ultimately obtain fs2 where fs2: "unzip_entries (abs_path ds) es' (wr + length (c k)) fs1 = (None, fs2)" "fs_ok fs2"
    "\<And>x. fmlookup fs2 x = (if x \<in> set L then Some (FFile (c x)) else if \<exists>k\<in>set L. strict_prefix x k then Some FDir else fmlookup fs1 x)"
    using Cons.IH [OF es(3) _ fs1(2)] by blast
  have "fmlookup fs2 x = (if x \<in> set (k # L) then Some (FFile (c x)) else if \<exists>k\<in>set (k # L). strict_prefix x k then Some FDir else fmlookup fs x)" for x
    using fs1(3) [of x] fs2(3) [of x] kk(3,4) by auto
  then show ?case using fs1(1) fs2(1,2) by simp
qed simp

subsection \<open>Snapshots\<close>

definition snapshot_keys :: "string list \<Rightarrow> fs \<Rightarrow> string list list" where
  "snapshot_keys ws fs = filter (in_snapshot ws fs) (fs_keys fs)"

definition snapshot_archive :: "string list \<Rightarrow> fs \<Rightarrow> (string \<times> string) list" where
  "snapshot_archive ws fs = map (file_entry ws (text_at fs)) (snapshot_keys ws fs)"

lemma in_snapshot_file: "in_snapshot ws fs k \<Longrightarrow> prefix ws k \<and> (\<exists>x. fmlookup fs k = Some (FFile x))"
  by (auto simp: in_snapshot_def split: option.splits fnode.splits)

lemma set_snapshot_keys: "k \<in> set (snapshot_keys ws fs) \<longleftrightarrow> in_snapshot ws fs k"
  using in_snapshot_file [of ws fs k] by (auto simp: snapshot_keys_def)

lemma Join_path: "IsAbs d \<Longrightarrow> Join (d # ps) = abs_path (root_words (Join (d # ps)))"
proof -
  assume "IsAbs d"
  then have "IsAbs (Join (d # ps))" by (rule Join_IsAbs)
  moreover have "d \<noteq> []" using \<open>IsAbs d\<close> by (auto simp: IsAbs_iff)
  then have "Join (d # ps) = Clean (join_with ''/'' (d # filter (\<lambda>p. p \<noteq> []) ps))" by (simp add: Join_def)
  ultimately show ?thesis by (metis Clean_abs IsAbs_Clean root_words_Clean)
qed

lemma snapshot_places:
  assumes "fs_ok fs" "fmlookup fs ws = Some FDir"
  shows "file_places ws (snapshot_keys ws fs)"
  unfolding file_places_def set_snapshot_keys
proof (intro ballI conjI)
  fix k assume "k \<in> set (snapshot_keys ws fs)"
  then obtain x where k: "prefix ws k" "fmlookup fs k = Some (FFile x)" using in_snapshot_file [of ws fs k] set_snapshot_keys by blast
  then show "strict_prefix ws k" using assms(2) by (auto simp: strict_prefix_def)
  show "list_all real_word k" using fs_ok_real [OF assms(1)] k(2) by simp
  show "\<not> strict_prefix k k'" if "k' \<in> set (snapshot_keys ws fs)" for k'
  proof -
    have "in_snapshot ws fs k'" using that set_snapshot_keys by blast
    then have "fmlookup fs k' \<noteq> None" using in_snapshot_file [of ws fs k'] by auto
    then show "\<not> strict_prefix k k'" using file_leaf [OF assms(1) k(2), of k'] by auto
  qed
qed

lemma snapshot_entries_all:
  assumes "\<forall>k\<in>set L. fmlookup fs k = Some (FFile (c k))"
  shows "snapshot_entries (\<lambda>_. False) fs (map (\<lambda>k. (k, g k)) L) out = (None, out @ map (\<lambda>k. (g k, c k)) L)"
  using assms by (induction L arbitrary: out) auto

text \<open>What a snapshot that is done leaves: the archive of its files, and nothing else but the way to it.\<close>

lemma snapshot_done:
  assumes "fs_ok fs" "list_all real_word ws" "fmlookup fs ws = Some FDir" "fmlookup (tasks ts) t \<noteq> None" and abs: "IsAbs dataDir"
    and out: "\<not> prefix ws (root_words (Join [backupsDirOf dataDir uuid, stamp @ ''.zip'']))"
    and run: "runSnapshot Z (\<lambda>_. False) stamp dataDir t uuid (abs_path ws) ts fs = (ts1, fs1)"
    and ok: "map_option tstatus (task_get ts1 t) = Some TaskDone" "map_option tstatus (task_get ts t) \<noteq> Some TaskDone"
  shows "snapshot_keys ws fs \<noteq> [] \<and>
    ReadFile (Join [backupsDirOf dataDir uuid, stamp @ ''.zip'']) fs1 = Some (zf_write Z (snapshot_archive ws fs))"
proof -
  let ?dest = "Join [backupsDirOf dataDir uuid, stamp @ ''.zip'']"
  have ws: "root_words (abs_path ws) = ws" using assms(2) by simp
  have files: "snapshotFiles (abs_path ws) fs = map (\<lambda>k. (k, snapshot_rel ws k)) (snapshot_keys ws fs)"
    by (simp add: snapshotFiles_def ws snapshot_keys_def)
  have content: "\<forall>k\<in>set (snapshot_keys ws fs). fmlookup fs k = Some (FFile (text_at fs k))"
  proof
    fix k assume "k \<in> set (snapshot_keys ws fs)"
    then obtain x where "fmlookup fs k = Some (FFile x)" using in_snapshot_file [of ws fs k] set_snapshot_keys by blast
    then show "fmlookup fs k = Some (FFile (text_at fs k))" using text_at_file [of fs k x] by metis
  qed
  have rel: "map (\<lambda>k. (snapshot_rel ws k, text_at fs k)) (snapshot_keys ws fs) = snapshot_archive ws fs"
    unfolding snapshot_archive_def file_entry_def
    using snapshot_places [OF assms(1,3)] by (auto simp: snapshot_rel_def file_places_def)
  have failed: "map_option tstatus (task_get (task_update ts t (\<lambda>t. task_setError t e)) t) \<noteq> Some TaskDone" for e
    using assms(4) by (auto simp: task_get_def task_update_def task_setError_def split: option.splits)
  obtain f1 f2 where w: "MkdirAll (Dir ?dest) fs = Some f1" "WriteFile ?dest [] f1 = Some f2"
  proof (cases "MkdirAll (Dir ?dest) fs")
    case None
    then show ?thesis using run ok failed
      by (auto simp: runSnapshot_def Let_def createSnapshotZip_def split: if_splits)
  next
    case (Some f1)
    then show ?thesis using run ok failed that [OF Some]
      by (cases "WriteFile ?dest [] f1") (auto simp: runSnapshot_def Let_def createSnapshotZip_def split: if_splits)
  qed
  have dest: "?dest = abs_path (root_words ?dest)"
    unfolding backupsDirOf_def by (rule Join_path) (rule Join_IsAbs [OF abs])
  have up: "prefix (root_words (Dir ?dest)) (root_words ?dest)"
    by (subst (1) dest) (simp add: root_words_Dir prefixeq_butlast)
  have same: "fmlookup f2 k = fmlookup fs k" if "prefix ws k" for k
  proof -
    have "\<not> prefix k (root_words (Dir ?dest))" "k \<noteq> root_words ?dest"
      using that out up by (auto intro: prefix_order.trans)
    then show ?thesis using MkdirAll_lookup [OF w(1)] put_file_lookup w(2) by (auto simp: WriteFile_def)
  qed
  have "\<forall>k\<in>set (snapshot_keys ws fs). fmlookup f2 k = Some (FFile (text_at fs k))"
    using content same in_snapshot_file set_snapshot_keys by (metis (no_types, lifting))
  from snapshot_entries_all [OF this, of "snapshot_rel ws" "[]"]
  have ents: "snapshot_entries (\<lambda>_. False) f2 (snapshotFiles (abs_path ws) fs) [] = (None, snapshot_archive ws fs)"
    by (simp add: files rel)
  obtain f3 where f3: "WriteFile ?dest (zf_write Z (snapshot_archive ws fs)) f2 = Some f3" using WriteFile_again [OF w(2)] by blast
  have "snapshotFiles (abs_path ws) fs \<noteq> []" using run ok failed by (auto simp: runSnapshot_def Let_def split: if_splits)
  moreover have "fs1 = f3" using run calculation by (simp add: runSnapshot_def Let_def createSnapshotZip_def w ents f3)
  ultimately show ?thesis using WriteFile_ReadFile [OF f3] by (simp add: files)
qed

text \<open>The run of a snapshot that ends well, outside of the directory it saves, of files that fit an archive name.\<close>

definition backup_place :: "string \<Rightarrow> string \<Rightarrow> string \<Rightarrow> string" where
  "backup_place dataDir uuid stamp = Join [backupsDirOf dataDir uuid, stamp @ ''.zip'']"

definition snapshot_made ::
  "zip_format \<Rightarrow> string \<Rightarrow> string \<Rightarrow> string \<Rightarrow> string list \<Rightarrow> string \<Rightarrow> taskStore \<Rightarrow> fs \<Rightarrow> taskStore \<Rightarrow> fs \<Rightarrow> bool" where
  "snapshot_made Z stamp dataDir uuid ws t ts fs ts1 fs1 \<longleftrightarrow>
     fs_ok fs \<and> list_all real_word ws \<and> fmlookup fs ws = Some FDir \<and> IsAbs dataDir \<and>
     \<not> prefix ws (root_words (backup_place dataDir uuid stamp)) \<and>
     (case task_get ts t of None \<Rightarrow> False | Some k \<Rightarrow> tstatus k = TaskRunning) \<and>
     runSnapshot Z (\<lambda>_. False) stamp dataDir t uuid (abs_path ws) ts fs = (ts1, fs1) \<and>
     map_option tstatus (task_get ts1 t) = Some TaskDone \<and> zip_reads Z (snapshot_archive ws fs)"

lemma snapshot_made_archive:
  assumes "snapshot_made Z stamp dataDir uuid ws t ts fs ts1 fs1"
  shows "snapshot_keys ws fs \<noteq> [] \<and> ReadFile (backup_place dataDir uuid stamp) fs1 = Some (zf_write Z (snapshot_archive ws fs))"
  using assms snapshot_done [of fs ws ts t dataDir uuid stamp Z ts1 fs1]
  by (auto simp: snapshot_made_def backup_place_def task_get_def split: option.splits)

lemma unzip_snapshot:
  assumes "snapshot_made Z stamp dataDir uuid ws t ts fs ts1 fs1"
    and fs': "fs_ok fs'" "ReadFile p fs' = Some (zf_write Z (snapshot_archive ws fs))" "\<forall>k. in_snapshot ws fs k \<longrightarrow> room_for fs' k"
    and small: "length (snapshot_archive ws fs) \<le> maxUnzipEntries" "sizes (snapshot_archive ws fs) \<le> maxUnzipTotalBytes"
  shows "\<exists>fs2. unzip Z p (abs_path ws) fs' = (None, fs2) \<and>
    (\<forall>x. fmlookup fs2 x = (if in_snapshot ws fs x then fmlookup fs x
       else if \<exists>k. in_snapshot ws fs k \<and> strict_prefix x k then Some FDir else fmlookup fs' x))"
proof -
  note m = assms(1) [unfolded snapshot_made_def]
  have pl: "file_places ws (snapshot_keys ws fs)" using snapshot_places m by blast
  obtain es where es: "zf_read Z (zf_write Z (snapshot_archive ws fs)) = Some es" "list_all2 entry_of (snapshot_archive ws fs) es"
    using m by (auto simp: zip_reads_def split: option.splits)
  have len: "length es \<le> maxUnzipEntries" using small(1) es(2) by (simp add: list_all2_lengthD)
  have tot: "declared_total es \<le> maxUnzipTotalBytes"
    using declared_total_mod [OF es(2)] small(2) by (simp add: order_trans [OF mod_less_eq_dividend])
  obtain k0 where k0: "in_snapshot ws fs k0" using snapshot_made_archive [OF assms(1)] set_snapshot_keys
    by (metis list.set_intros(1) neq_Nil_conv)
  then have "strict_prefix ws k0" using pl set_snapshot_keys by (simp add: file_places_def)
  then have above: "fmlookup fs' x \<in> {None, Some FDir}" if "prefix x ws" for x
    using fs'(3) k0 that prefix_order.le_less_trans by (fastforce simp: room_for_def)
  have "\<exists>f. mkdir_words [] ws fs' = Some f" by (rule mkdir_words_ok) (use above in simp)
  then obtain f where f: "MkdirAll (abs_path ws) fs' = Some f" using m by (auto simp: MkdirAll_def)
  have fl: "fmlookup f x = (if prefix x ws then Some FDir else fmlookup fs' x)" for x
    using MkdirAll_lookup [OF f] m by simp
  have room: "\<forall>k\<in>set (snapshot_keys ws fs). room_for f k"
  proof
    fix k assume k: "k \<in> set (snapshot_keys ws fs)"
    then have "room_for fs' k" "strict_prefix ws k" using fs'(3) set_snapshot_keys pl by (auto simp: file_places_def)
    then show "room_for f k" using fl prefix_order.less_le_trans [of ws k] unfolding room_for_def by auto
  qed
  obtain fs2 where fs2: "unzip_entries (abs_path ws) es 0 f = (None, fs2)"
    "\<And>x. fmlookup fs2 x = (if x \<in> set (snapshot_keys ws fs) then Some (FFile (text_at fs x))
       else if \<exists>k\<in>set (snapshot_keys ws fs). strict_prefix x k then Some FDir else fmlookup f x)"
    using unpack_files [of ws "text_at fs" "snapshot_keys ws fs" es f 0] es(2) pl MkdirAll_ok [OF fs'(1) f] room small(2)
    unfolding snapshot_archive_def by auto
  have "fmlookup fs2 x = (if in_snapshot ws fs x then fmlookup fs x
       else if \<exists>k. in_snapshot ws fs k \<and> strict_prefix x k then Some FDir else fmlookup fs' x)" for x
  proof (cases "in_snapshot ws fs x")
    case True
    then obtain d where "fmlookup fs x = Some (FFile d)" using in_snapshot_file by blast
    then show ?thesis using True fs2(2) [of x] by (simp add: set_snapshot_keys)
  next
    case False
    have "\<exists>k. in_snapshot ws fs k \<and> strict_prefix x k" if "prefix x ws"
      using k0 \<open>strict_prefix ws k0\<close> that prefix_order.le_less_trans by blast
    then show ?thesis using False fs2(2) [of x] fl [of x] by (auto simp: set_snapshot_keys)
  qed
  then show ?thesis using len tot by (simp add: unzip_def fs'(2) es(1) f fs2(1))
qed


text \<open>
  A snapshot of more than 8 GiB ends well and can never be restored. The limit on unpacking is
  not asked when the archive is made: every attempt to restore it fails and changes no file, however
  often it is repeated.
\<close>

theorem large_snapshot_never_restored:
  assumes made: "snapshot_made Z stamp dataDir uuid ws t ts fs ts1 fs1"
    and later: "ReadFile (backup_place dataDir uuid stamp) fs' = ReadFile (backup_place dataDir uuid stamp) fs1"
    and large: "maxUnzipTotalBytes < sizes (snapshot_archive ws fs)" "sizes (snapshot_archive ws fs) < 2 ^ 64"
    and task: "task_get ts' t' \<noteq> None"
    and run: "runRestore Z now (e, n) r t' (backup_place dataDir uuid stamp) (abs_path ws) ts' fs' = (ts2, n2, fs2)"
  shows "map_option tstatus (task_get ts1 t) = Some TaskDone \<and> map_option tstatus (task_get ts2 t') = Some TaskFailed \<and> fs2 = fs'"
proof -
  obtain es where es: "zf_read Z (zf_write Z (snapshot_archive ws fs)) = Some es" "list_all2 entry_of (snapshot_archive ws fs) es"
    using made by (auto simp: snapshot_made_def zip_reads_def split: option.splits)
  have "maxUnzipTotalBytes < declared_total es" using declared_total_mod [OF es(2)] large by simp
  moreover have "ReadFile (backup_place dataDir uuid stamp) fs' = Some (zf_write Z (snapshot_archive ws fs))"
    using later snapshot_made_archive [OF made] by simp
  ultimately have "\<exists>err. unzip Z (backup_place dataDir uuid stamp) (abs_path ws) fs' = (Some err, fs')"
    by (auto simp: unzip_def es(1))
  then obtain err where "unzip Z (backup_place dataDir uuid stamp) (abs_path ws) fs' = (Some err, fs')" by blast
  then show ?thesis using run task made
    by (auto simp: runRestore_def Let_def task_get_def task_update_def task_setError_def snapshot_made_def split: if_splits option.splits)
qed

subsection \<open>Requests on backups\<close>

lemma safe_segment_real: "safePathSegment s \<Longrightarrow> real_word s"
  by (cases s) (auto simp: safePathSegment_def safeIDPattern_def real_word_def plain_word_def id_char_def list_all_iff)

lemma backups_dir:
  assumes "list_all real_word dd" "real_word uuid"
  shows "backupsDirOf (abs_path dd) uuid = abs_path (dd @ [''backups'', uuid])"
  using Join_three [OF assms(1) _ assms(2)] by (simp add: backupsDirOf_def real_word_def plain_word_def)

lemma within_drop_file: "fs_ok fs \<Longrightarrow> prefix base (root_words p) \<Longrightarrow> fs_ok (drop_file p fs) \<and> same_outside base fs (drop_file p fs)"
  using fs_ok_drop_file [of fs "root_words p"]
  by (auto simp: drop_file_def remove_file_def node_at_def same_outside_def split: option.splits fnode.splits)

lemma delete_backups_confined:
  "list_all real_word base \<Longrightarrow> fs_ok fs \<Longrightarrow> IsAbs d \<Longrightarrow> delete_backups ev (Some d) (abs_path base) ps fs = (r, fs') \<Longrightarrow> fs_ok fs' \<and> same_outside base fs fs'"
proof (induction ps arbitrary: fs)
  case (Cons p ps)
  show ?case
  proof (cases "Abs (Some d) p")
    case None
    then show ?thesis using Cons.prems by simp
  next
    case (Some ab)
    show ?thesis
    proof (cases "backupPathWithin ev (abs_path base) ab")
      case False
      then show ?thesis using Cons.prems Some by simp
    next
      case True
      then have "pathWithin (abs_path base) ab" by (simp add: backupPathWithin_def split: if_splits)
      then have w: "prefix base (root_words ab)"
        using Abs_is_clean [OF Cons.prems(3) Some] pathWithin_words [OF Cons.prems(1)] by auto
      note steps = within_drop_file [OF Cons.prems(2) w] RemoveAll_ok [OF Cons.prems(2), of ab] RemoveAll_confined [OF w, of fs]
      show ?thesis using Cons.prems Some True steps Cons.IH [OF Cons.prems(1) _ Cons.prems(3)] same_outside_trans [of base fs]
        by (fastforce split: option.splits fnode.splits if_splits)
    qed
  qed
qed simp

text \<open>
  Deleting backups stays in the backup directory of the instance. Whatever identifier and paths
  the request names, relative or with dots in them, the tree changes below that directory only and
  stays well formed, and the directory is that of an instance.
\<close>

theorem backups_confined:
  assumes "list_all real_word dd" "IsAbs d" "fs_ok fs"
    and run: "handleBackupsDelete ev (Some d) (abs_path dd) uuid body n fs = (r, fs')"
  shows "fs_ok fs' \<and> same_outside (dd @ [''backups'', uuid]) fs fs' \<and> (fs' \<noteq> fs \<longrightarrow> Find n uuid \<noteq> None \<and> real_word uuid)"
proof (cases "uuid \<noteq> [] \<and> checkBackupUUID n uuid = None \<and> body \<noteq> None")
  case True
  then have u: "Find n uuid \<noteq> None" "real_word uuid" using safe_segment_real by (auto simp: checkBackupUUID_def split: if_splits)
  have "list_all real_word (dd @ [''backups'', uuid])" using assms(1) u(2) by (simp add: real_word_def plain_word_def)
  then show ?thesis using delete_backups_confined [of "dd @ [''backups'', uuid]" fs d] assms True u backups_dir
    by (auto simp: handleBackupsDelete_def split: option.splits)
next
  case False
  then have "fs' = fs" using run by (auto simp: handleBackupsDelete_def split: option.splits if_splits)
  then show ?thesis using assms(3) by (simp add: same_outside_def)
qed

definition bd_fs :: fs where
  "bd_fs = fmap_of_list [([], FDir), ([''var''], FDir), ([''var'', ''backups''], FDir), ([''var'', ''backups'', ''a''], FDir),
     ([''var'', ''backups'', ''a'', ''now.zip''], FFile ''PK''), ([''var'', ''backups'', ''b''], FDir), ([''var'', ''backups'', ''b'', ''old.zip''], FFile ''PK'')]"

definition bd_paths :: "string list" where
  "bd_paths = [''/var/backups/a/now.zip'', ''/var/backups/a/../b/old.zip'']"

theorem backups_confined_witness:
  "\<exists>r fs'. handleBackupsDelete linkless (Some ''/'') (abs_path [''var'']) ''a'' (Some bd_paths) sample_node bd_fs = (r, fs') \<and>
     fmlookup fs' [''var'', ''backups'', ''a'', ''now.zip''] = None \<and>
     fmlookup fs' [''var'', ''backups'', ''b'', ''old.zip''] = Some (FFile ''PK'')"
proof -
  obtain r fs' where run: "handleBackupsDelete linkless (Some ''/'') (abs_path [''var'']) ''a'' (Some bd_paths) sample_node bd_fs = (r, fs')"
    by (cases "handleBackupsDelete linkless (Some ''/'') (abs_path [''var'']) ''a'' (Some bd_paths) sample_node bd_fs")
  have ok: "fs_ok bd_fs" unfolding bd_fs_def by (rule fs_ok_list; code_simp)
  have "list_all real_word [''var'']" "IsAbs ''/''" by code_simp+
  from backups_confined [OF this ok run]
  have "same_outside [''var'', ''backups'', ''a''] bd_fs fs'" by simp
  then have "fmlookup fs' [''var'', ''backups'', ''b'', ''old.zip''] = fmlookup bd_fs [''var'', ''backups'', ''b'', ''old.zip'']"
    by (simp add: same_outside_def)
  moreover have "fmlookup (snd (handleBackupsDelete linkless (Some ''/'') (abs_path [''var'']) ''a'' (Some bd_paths) sample_node bd_fs))
      [''var'', ''backups'', ''a'', ''now.zip''] = None" by code_simp
  ultimately show ?thesis using run by (simp add: bd_fs_def fmlookup_of_list)
qed

subsection \<open>An example\<close>

definition b_tree :: "string \<Rightarrow> (string list \<times> fnode) list" where
  "b_tree c = [([], FDir), ([''var''], FDir), ([''games''], FDir), ([''games'', ''mc''], FDir),
     ([''games'', ''mc'', ''world''], FDir), ([''games'', ''mc'', ''world'', ''level.dat''], FFile c),
     ([''games'', ''mc'', ''latest.log''], FFile ''started'')]"

definition b_fs :: "string \<Rightarrow> fs" where
  "b_fs c = fmap_of_list (b_tree c)"

definition b_words :: "string list" where
  "b_words = [''games'', ''mc'']"

definition b_zip :: "string \<Rightarrow> zip_format" where
  "b_zip c = \<lparr>zf_write = (\<lambda>_. ''PK''),
     zf_read = (\<lambda>_. Some [\<lparr>ze_Name = ''world/level.dat'', ze_IsDir = False, ze_UncompressedSize64 = length c, ze_Open = Some [c], ze_Err = False\<rparr>]),
     zf_partial = []\<rparr>"

definition b_task :: task where
  "b_task = \<lparr>tstatus = TaskRunning, percent = -1, tmessage = [], tpath = [], terr = None, createdAt = 0\<rparr>"

definition b_tasks :: taskStore where
  "b_tasks = \<lparr>tasks = fmap_of_list [(''t'', b_task)], torder = [''t'']\<rparr>"

definition b_place :: "string list" where
  "b_place = [''var'', ''backups'', ''a'', ''now.zip'']"

lemma b_place: "backup_place ''/var'' ''a'' ''now'' = abs_path b_place" "root_words (abs_path b_place) = b_place"
  by code_simp+

lemma b_keys: "snapshot_keys b_words (b_fs c) = [[''games'', ''mc'', ''world'', ''level.dat'']]"
  by code_simp

lemma b_archive: "snapshot_archive b_words (b_fs c) = [(''world/level.dat'', c)]"
  unfolding snapshot_archive_def b_keys by (simp add: file_entry_def b_words_def text_at_def b_fs_def b_tree_def)

lemma b_ok: "fs_ok (b_fs c)"
  unfolding b_fs_def by (rule fs_ok_list; code_simp)

lemma b_run:
  "\<exists>ts1 fs1. runSnapshot (b_zip c) (\<lambda>_. False) ''now'' ''/var'' ''t'' ''a'' (abs_path b_words) b_tasks (b_fs c) = (ts1, fs1) \<and>
     map_option tstatus (task_get ts1 ''t'') = Some TaskDone \<and> fs_ok fs1 \<and>
     (\<forall>x. fmlookup fs1 x = (if x = b_place then Some (FFile ''PK'') else if prefix x (butlast b_place) then Some FDir else fmlookup (b_fs c) x))"
proof -
  let ?k = "[''games'', ''mc'', ''world'', ''level.dat'']"
  have bw: "b_place = butlast b_place @ [''now.zip'']" "list_all real_word b_place" "root_words (abs_path b_words) = b_words" by code_simp+
  have dest: "Join [backupsDirOf ''/var'' ''a'', ''now'' @ ''.zip''] = abs_path b_place" using b_place(1) by (simp add: backup_place_def)
  have dir: "Dir (abs_path b_place) = abs_path (butlast b_place)" by code_simp
  have files: "snapshotFiles (abs_path b_words) (b_fs c) = [(?k, ''world/level.dat'')]"
    using b_keys [of c] by (simp add: snapshotFiles_def bw(3) snapshot_keys_def) (code_simp)
  have lk: "fmlookup (b_fs c) x = map_of (b_tree c) x" for x by (simp add: b_fs_def fmlookup_of_list)
  have room: "room_for (b_fs c) b_place" unfolding room_for_def lk
    by (auto simp: b_place_def b_tree_def strict_prefix_def prefix_Cons)
  obtain f1 where f1: "MkdirAll (abs_path (butlast b_place)) (b_fs c) = Some f1" "fs_ok f1"
    "\<And>x. fmlookup f1 x = (if prefix x (butlast b_place) then Some FDir else fmlookup (b_fs c) x)"
    using make_room [OF b_ok, of "butlast b_place" "''now.zip''"] bw room by metis
  have away: "\<not> prefix b_place (butlast b_place)" "\<not> prefix ?k (butlast b_place)" "?k \<noteq> b_place" "b_place \<noteq> []" "butlast b_place \<noteq> b_place"
    by code_simp+
  have vals: "fmlookup (b_fs c) b_place = None" "fmlookup (b_fs c) ?k = Some (FFile c)"
    unfolding lk by (simp_all add: b_place_def b_tree_def)
  have put: "WriteFile (abs_path b_place) d f1 = Some (fmupd b_place (FFile d) f1)"
    "WriteFile (abs_path b_place) d (fmupd b_place (FFile []) f1) = Some (fmupd b_place (FFile d) (fmupd b_place (FFile []) f1))" for d
    using away by (simp_all add: WriteFile_def put_file_def b_place(2) f1(3) vals)
  define fs1 where "fs1 = fmupd b_place (FFile ''PK'') (fmupd b_place (FFile []) f1)"
  have "createSnapshotZip (b_zip c) (\<lambda>_. False) (abs_path b_place) [(?k, ''world/level.dat'')] (b_fs c) = (None, fs1)"
    using away by (simp add: createSnapshotZip_def dir f1 put vals fs1_def b_zip_def)
  then have "runSnapshot (b_zip c) (\<lambda>_. False) ''now'' ''/var'' ''t'' ''a'' (abs_path b_words) b_tasks (b_fs c) =
      (task_update b_tasks ''t'' (\<lambda>t. task_set t TaskDone 1 ''backup done'' (abs_path b_place)), fs1)"
    by (simp add: runSnapshot_def Let_def files dest [unfolded append.simps])
  moreover have "fs_ok fs1" using put_file_ok [of f1 b_place "''PK''" fs1] f1(2,3) bw(2) away vals
    by (simp add: put_file_def fs1_def)
  moreover have "\<forall>x. fmlookup fs1 x = (if x = b_place then Some (FFile ''PK'') else if prefix x (butlast b_place) then Some FDir else fmlookup (b_fs c) x)"
    by (simp add: fs1_def f1(3))
  moreover have "map_option tstatus (task_get (task_update b_tasks ''t'' (\<lambda>t. task_set t TaskDone 1 ''backup done'' (abs_path b_place))) ''t'') = Some TaskDone"
    by (simp add: task_get_def task_update_def b_tasks_def task_set_def)
  ultimately show ?thesis by blast
qed

lemma b_made:
  assumes "runSnapshot (b_zip c) (\<lambda>_. False) ''now'' ''/var'' ''t'' ''a'' (abs_path b_words) b_tasks (b_fs c) = (ts1, fs1)"
    "map_option tstatus (task_get ts1 ''t'') = Some TaskDone"
  shows "snapshot_made (b_zip c) ''now'' ''/var'' ''a'' b_words ''t'' b_tasks (b_fs c) ts1 fs1"
proof -
  have "list_all real_word b_words" "\<not> prefix b_words b_place" "IsAbs ''/var''" by code_simp+
  moreover have "fmlookup (b_fs c) b_words = Some FDir" by (simp add: b_fs_def fmlookup_of_list b_words_def b_tree_def)
  moreover have "zip_reads (b_zip c) (snapshot_archive b_words (b_fs c))"
    by (simp add: b_archive zip_reads_def b_zip_def entry_of_def)
  moreover have "task_get b_tasks ''t'' = Some b_task" "tstatus b_task = TaskRunning"
    by (simp_all add: task_get_def b_tasks_def b_task_def)
  ultimately show ?thesis using assms b_ok b_place by (simp add: snapshot_made_def)
qed


theorem large_snapshot_never_restored_witness:
  "\<exists>c ts1 fs1 ts2 n2 fs2.
     runSnapshot (b_zip c) (\<lambda>_. False) ''now'' ''/var'' ''t'' ''a'' (abs_path b_words) b_tasks (b_fs c) = (ts1, fs1) \<and>
     map_option tstatus (task_get ts1 ''t'') = Some TaskDone \<and>
     runRestore (b_zip c) 0 (None, sample_node) 0 ''t'' (abs_path b_place) (abs_path b_words) b_tasks fs1 = (ts2, n2, fs2) \<and>
     map_option tstatus (task_get ts2 ''t'') = Some TaskFailed"
proof -
  define c where "c = replicate (Suc maxUnzipTotalBytes) CHR ''x''"
  obtain ts1 fs1 where r: "runSnapshot (b_zip c) (\<lambda>_. False) ''now'' ''/var'' ''t'' ''a'' (abs_path b_words) b_tasks (b_fs c) = (ts1, fs1)"
    "map_option tstatus (task_get ts1 ''t'') = Some TaskDone"
    using b_run [of c] by blast
  obtain ts2 n2 fs2 where run: "runRestore (b_zip c) 0 (None, sample_node) 0 ''t'' (abs_path b_place) (abs_path b_words) b_tasks fs1 = (ts2, n2, fs2)"
    by (cases "runRestore (b_zip c) 0 (None, sample_node) 0 ''t'' (abs_path b_place) (abs_path b_words) b_tasks fs1")
  have "maxUnzipTotalBytes < sizes (snapshot_archive b_words (b_fs c))" "sizes (snapshot_archive b_words (b_fs c)) < 2 ^ 64"
    by (simp_all add: b_archive c_def maxUnzipTotalBytes_def)
  moreover have "task_get b_tasks ''t'' \<noteq> None" by (simp add: task_get_def b_tasks_def)
  ultimately have "map_option tstatus (task_get ts2 ''t'') = Some TaskFailed"
    using large_snapshot_never_restored [OF b_made [OF r], of fs1 b_tasks "''t''" 0 None sample_node 0 ts2 n2 fs2] run
    by (simp add: b_place(1))
  then show ?thesis using r run by blast
qed

end
