(* ===== verification/Transfers.thy ===== *)
theory Transfers
  imports Trash Registries
begin

text \<open>
  Direct downloads and uploads (cmd/irix-node/download.go): the requests that hand out tickets and
  the two public routes that honour them. \<open>http.ServeFile\<close> is written out as far as it decides what is
  sent; the headers, ranges and the streaming are not modelled.
\<close>

subsection \<open>Tickets for files\<close>

text \<open>A request that ends without an answer is an outer \<open>None\<close>, as in \<open>Files\<close>.\<close>

definition handleFileDownloadTicket ::
  "file_env \<Rightarrow> instant \<Rightarrow> string \<Rightarrow> string \<Rightarrow> string \<Rightarrow> file_world \<Rightarrow> ticketStore \<Rightarrow> (string reply \<times> ticketStore) option" where
  "handleFileDownloadTicket E now uid uuid fileName w tk =
     (case CwdOf (fw_node w) uuid of
        Inl e \<Rightarrow> Some (Fail 400 e, tk)
      | Inr cwd \<Rightarrow>
          if fileName = [] then Some (Fail 400 ''missing file_name'', tk)
          else
            (case safeResolve (fe_ev E) cwd fileName of
               None \<Rightarrow> None
             | Some (Inl e) \<Rightarrow> Some (Fail 400 e, tk)
             | Some (Inr p) \<Rightarrow>
               (case file_mode w uuid of
                  Inl e \<Rightarrow> Some (Fail 400 e, tk)
                | Inr True \<Rightarrow> Some (Fail 400 ''the files of the instance are encrypted'', tk)
                | Inr False \<Rightarrow>
                  (case node_at (fw_fs w) p of
                     Some (FFile _) \<Rightarrow>
                       (case ticket_CreateDownload tk now uid uuid cwd p of
                          (tk, password) \<Rightarrow>
                            Some (if password = [] then Fail 503 ''too many download tickets'' else Reply password, tk))
                   | _ \<Rightarrow> Some (Fail 400 (''no such file: '' @ fileName), tk)))))"

definition handleFileUploadTicket ::
  "file_env \<Rightarrow> instant \<Rightarrow> string \<Rightarrow> string \<Rightarrow> string \<Rightarrow> file_world \<Rightarrow> ticketStore \<Rightarrow>
   ((string \<times> string) reply \<times> file_world \<times> ticketStore) option" where
  "handleFileUploadTicket E now uid uuid uploadDir w tk =
     (case CwdOf (fw_node w) uuid of
        Inl e \<Rightarrow> Some (Fail 400 e, w, tk)
      | Inr cwd \<Rightarrow>
          let uploadDir = (if uploadDir = [] then ''/'' else uploadDir) in
          (case safeResolve (fe_ev E) cwd uploadDir of
             None \<Rightarrow> None
           | Some (Inl e) \<Rightarrow> Some (Fail 400 e, w, tk)
           | Some (Inr dir) \<Rightarrow>
             (case file_mode w uuid of
                Inl e \<Rightarrow> Some (Fail 400 e, w, tk)
              | Inr True \<Rightarrow> Some (Fail 400 ''the files of the instance are encrypted'', w, tk)
              | Inr False \<Rightarrow>
                (case MkdirAll dir (fw_fs w) of
                   None \<Rightarrow> Some (Fail 500 ''cannot make directory'', w, tk)
                 | Some fs \<Rightarrow>
                   (case ticket_Create tk now uid uuid cwd dir of
                      (tk, password) \<Rightarrow>
                        Some (if password = [] then Fail 503 ''too many upload tickets'' else Reply (password, uploadDir),
                              w\<lparr>fw_fs := fs\<rparr>, tk))))))"

subsection \<open>Serving a file\<close>

datatype served =
    Refused nat
  | Redirected
  | Content string
  | Listing "string list"

definition words_by :: "(char \<Rightarrow> bool) \<Rightarrow> string \<Rightarrow> string list" where
  "words_by P s = filter (\<lambda>w. w \<noteq> []) (split_on SEP (map (\<lambda>c. if P c then SEP else c) s))"

definition containsDotDot :: "string \<Rightarrow> bool" where
  "containsDotDot v = (''..'' \<in> set (words_by (\<lambda>c. c = SEP \<or> c = CHR 0x5C) v))"

definition ends_slash :: "string \<Rightarrow> bool" where
  "ends_slash u = (u \<noteq> [] \<and> last u = SEP)"

text \<open>\<open>http.ServeFile\<close> for a request of \<open>url\<close>: the answer for a name ending in \<open>index.html\<close> is a redirect.\<close>

definition ServeFile :: "string \<Rightarrow> string \<Rightarrow> fs \<Rightarrow> served" where
  "ServeFile url p fs =
     (if containsDotDot url then Refused 400
      else if HasSuffix url ''/index.html'' then Redirected
      else
        (case node_at fs p of
           None \<Rightarrow> Refused 404
         | Some (FFile data) \<Rightarrow> if ends_slash url then Redirected else Content data
         | Some FDir \<Rightarrow>
             if \<not> ends_slash url then Redirected
             else
               (case node_at fs (Join [p, ''index.html'']) of
                  Some (FFile data) \<Rightarrow> Content data
                | _ \<Rightarrow> Listing (children (root_words p) fs))))"

definition sameFilePath :: "string option \<Rightarrow> string \<Rightarrow> string \<Rightarrow> bool" where
  "sameFilePath wd a b =
     (case (Abs wd a, Abs wd b) of (Some x, Some y) \<Rightarrow> x = y | _ \<Rightarrow> Clean a = Clean b)"

definition handleDirectDownload ::
  "(string \<Rightarrow> eval_error + string) \<Rightarrow> string option \<Rightarrow> instant \<Rightarrow> string \<Rightarrow> ticketStore \<Rightarrow> fs \<Rightarrow> served option" where
  "handleDirectDownload ev wd now url tk fs =
     (let rest = TrimPrefix url ''/download/'' in
      case cut_at SEP rest of
        None \<Rightarrow> Some (Refused 400)
      | Some (password, file) \<Rightarrow>
          if password = [] \<or> file = [] then Some (Refused 400)
          else
            (case ticket_Get tk now password of
               None \<Rightarrow> Some (Refused 403)
             | Some t \<Rightarrow>
                 if tk_kind t \<noteq> TicketDownload then Some (Refused 403)
                 else
                   let file = (if tk_uuid t = ''cluster'' \<and> HasPrefix file ''mirrors/'' then TrimPrefix file ''mirrors/'' else file) in
                   (case safeResolve ev (tk_cwd t) file of
                      None \<Rightarrow> None
                    | Some (Inl _) \<Rightarrow> Some (Refused 403)
                    | Some (Inr p) \<Rightarrow>
                        if tk_file t \<noteq> [] \<and> \<not> sameFilePath wd p (tk_file t) then Some (Refused 403)
                        else Some (ServeFile url p fs))))"

text \<open>
  The form of an upload: \<open>None\<close> if it cannot be read or has no file; the name the client gives, the
  bytes that arrive, and whether the transfer breaks off.
\<close>

definition handleDirectUpload ::
  "(string \<Rightarrow> eval_error + string) \<Rightarrow> instant \<Rightarrow> string \<Rightarrow> (string \<times> string \<times> bool) option \<Rightarrow> ticketStore \<Rightarrow> fs \<Rightarrow>
   (unit reply \<times> fs) option" where
  "handleDirectUpload ev now url form tk fs =
     (case ticket_Get tk now (TrimPrefix url ''/upload/'') of
        None \<Rightarrow> Some (Fail 403 ''bad ticket'', fs)
      | Some t \<Rightarrow>
          if tk_kind t \<noteq> TicketUpload \<or> tk_dir t = [] then Some (Fail 403 ''bad ticket'', fs)
          else
            (case form of
               None \<Rightarrow> Some (Fail 400 ''bad form'', fs)
             | Some (filename, data, broken) \<Rightarrow>
                 let name = Base filename in
                 if name = ''.'' \<or> name = ''/'' \<or> name = [] then Some (Fail 400 ''bad file name'', fs)
                 else
                   (case safeResolve ev (tk_dir t) name of
                      None \<Rightarrow> None
                    | Some (Inl _) \<Rightarrow> Some (Fail 403 ''path out of bounds'', fs)
                    | Some (Inr dest) \<Rightarrow>
                      (case WriteFile dest data fs of
                         None \<Rightarrow> Some (Fail 500 ''cannot create'', fs)
                       | Some fs \<Rightarrow> Some (if broken then Fail 500 ''write failed'' else Reply (), fs)))))"

subsection \<open>The address of the node\<close>

definition JoinHostPort :: "string \<Rightarrow> string \<Rightarrow> string" where
  "JoinHostPort host port =
     (if CHR '':'' \<in> set host then ''['' @ host @ '']:'' @ port else host @ '':'' @ port)"

text \<open>\<open>outbound\<close> and \<open>hostname\<close> are what the system answers, empty where it does not.\<close>

definition publicAddr :: "string \<Rightarrow> int \<Rightarrow> string \<Rightarrow> string \<Rightarrow> string" where
  "publicAddr host port outbound hostname =
     (if host = [] \<or> host = ''127.0.0.1'' \<or> host = ''localhost'' then ''127.0.0.1:'' @ Itoa port
      else if host = ''0.0.0.0'' \<or> host = ''::'' \<or> host = ''[::]'' then
        (if outbound \<noteq> [] then JoinHostPort outbound (Itoa port)
         else if hostname \<noteq> [] then JoinHostPort hostname (Itoa port)
         else ''127.0.0.1:'' @ Itoa port)
      else JoinHostPort host (Itoa port))"

subsection \<open>What tickets open\<close>

lemma cut_at_front: "c \<notin> set a \<Longrightarrow> cut_at c (a @ c # b) = Some (a, b)"
  by (simp add: cut_at_Some)

lemma ticket_create_get:
  assumes "ticket_create s now uid kind uuid cwd dir file = (s', pw)" "pw \<noteq> []"
  shows "pw = uid \<and> ticket_Get s' now' uid =
    (if now' > now + ticketTTL then None
     else Some \<lparr>tk_uuid = uuid, tk_kind = kind, tk_cwd = cwd, tk_dir = dir, tk_file = file, tk_expires = now + ticketTTL\<rparr>)"
  using assms by (auto simp: ticket_create_def ticket_Get_def Let_def split: if_splits)

lemma served_file: "ServeFile url p fs \<in> {Refused 400, Refused 404, Redirected} \<or>
    (\<exists>d. ReadFile p fs = Some d \<and> ServeFile url p fs = Content d) \<or> node_at fs p = Some FDir"
  by (auto simp: ServeFile_def ReadFile_def split: option.splits fnode.splits)


lemma Base_no_sep: "Base p = ''/'' \<or> SEP \<notin> set (Base p)"
proof -
  have "SEP \<notin> set (takeWhile (\<lambda>c. c \<noteq> SEP) xs)" for xs by (auto dest: set_takeWhileD)
  then show ?thesis by (simp add: Base_def Let_def)
qed

lemma normalize_word:
  assumes "list_all real_word ds" "SEP \<notin> set name" "NormalizePath (abs_path ds) name = Inr p"
  shows "p = abs_path ds \<or> (\<exists>v. real_word v \<and> p = abs_path (ds @ [v]))"
proof -
  let ?t = "TrimSpace name"
  have sep: "SEP \<notin> set ?t" using assms(2) set_TrimSpace by blast
  note core = normalize_path_confined_core [OF IsAbs_abs_path assms(3)]
  show ?thesis
  proof (cases "real_word ?t")
    case True
    then have "p = abs_path (ds @ [?t])" using normalize_path_reaches_below [OF IsAbs_abs_path, of "[?t]" name ds] assms by simp
    then show ?thesis using True by blast
  next
    case False
    show ?thesis
    proof (cases "?t = []")
      case True
      then show ?thesis using core by simp
    next
      case ne: False
      then have t: "?t = ''.'' \<or> ?t = ''..''" using False sep by (auto simp: real_word_def plain_word_def)
      have "Clean ?t = ?t" using t by (auto simp: Clean_def) (code_simp+)
      then have "\<not> IsAbs (Clean ?t)" using sep ne by (cases ?t) auto
      then have p: "p = Clean (Join [abs_path ds, ?t])" using assms(3) ne by (auto simp: NormalizePath_def Let_def split: if_splits)
      have "path_words ''.'' = []" "path_words ''..'' = [''..'']" by code_simp+
      moreover have "root_words p = clean_words True (ds @ path_words ?t)"
        using p root_words_Join [OF assms(1) ne] Join_abs [OF IsAbs_abs_path ne] by simp
      moreover have "clean_words True (ds @ [''..'']) = butlast ds"
        using assms(1) clean_foldl_real [of ds True "[]"] by (cases ds rule: rev_cases) (auto simp: clean_words_def clean_step_def real_word_def)
      ultimately have "root_words p = ds" using t core assms(1) by (cases ds) (auto dest!: prefix_length_le)
      then show ?thesis using core ne by simp
    qed
  qed
qed

lemma upload_core:
  assumes dir: "list_all real_word ds" "eval_abs ev" and fs: "fs_ok fs" "fmlookup fs ds = Some FDir"
    and url: "TrimPrefix url ''/upload/'' = password"
    and issue: "ticket_Create tk now uid uuid cwd (abs_path ds) = (tk1, password)" "password \<noteq> []"
  shows "\<exists>r fs'. handleDirectUpload ev now' url form tk1 fs = Some (r, fs') \<and> fs_ok fs' \<and>
    (fs' \<noteq> fs \<longrightarrow> now' \<le> now + ticketTTL \<and>
       (\<exists>v name data broken. real_word v \<and> form = Some (name, data, broken) \<and> fs' = fmupd (ds @ [v]) (FFile data) fs))"
proof -
  have get: "ticket_Get tk1 now' password = (if now' > now + ticketTTL then None
     else Some \<lparr>tk_uuid = uuid, tk_kind = TicketUpload, tk_cwd = cwd, tk_dir = abs_path ds, tk_file = [], tk_expires = now + ticketTTL\<rparr>)"
    using ticket_create_get [OF issue(1) [unfolded ticket_Create_def] issue(2), of now'] by auto
  have ne: "abs_path ds \<noteq> []" by (simp add: path_of_def)
  show ?thesis
  proof (cases "now' > now + ticketTTL \<or> form = None")
    case True
    then show ?thesis using fs get by (auto simp: handleDirectUpload_def url ne)
  next
    case False
    then obtain filename data broken where f: "form = Some (filename, data, broken)" "now' \<le> now + ticketTTL" by auto
    define name where "name = Base filename"
    obtain r where r: "safeResolve ev (abs_path ds) name = Some r" using safe_resolve_returns [OF IsAbs_abs_path dir(2)] by blast
    have eq: "handleDirectUpload ev now' url form tk1 fs =
      (if name = ''.'' \<or> name = ''/'' then Some (Fail 400 ''bad file name'', fs)
       else case r of Inl _ \<Rightarrow> Some (Fail 403 ''path out of bounds'', fs)
       | Inr dest \<Rightarrow> (case WriteFile dest data fs of
           None \<Rightarrow> Some (Fail 500 ''cannot create'', fs)
         | Some fs \<Rightarrow> Some (if broken then Fail 500 ''write failed'' else Reply (), fs)))"
      using get f(2) r Base_nonempty [of filename]
      by (cases r) (simp_all add: handleDirectUpload_def Let_def url ne f(1) name_def [symmetric])
    show ?thesis
    proof (cases "(name = ''.'' \<or> name = ''/'') \<or> (\<exists>e. r = Inl e)")
      case True
      then show ?thesis using fs by (auto simp: eq)
    next
      case ok: False
      then obtain dest where dest: "r = Inr dest" "SEP \<notin> set name" using Base_no_sep [of filename] by (cases r) (auto simp: name_def)
      have "NormalizePath (abs_path ds) name = Inr dest"
        using r dest(1) by (auto simp: safeResolve_def split: sum.splits option.splits if_splits)
      from normalize_word [OF dir(1) dest(2) this]
      obtain v where v: "dest = abs_path ds \<or> real_word v \<and> dest = abs_path (ds @ [v])" by blast
      show ?thesis
      proof (cases "WriteFile dest data fs")
        case None
        then show ?thesis using ok fs by (simp add: eq dest(1))
      next
        case (Some fs')
        have "root_words dest \<noteq> ds" using Some fs(2) by (auto simp: WriteFile_def put_file_def)
        then have w: "real_word v" "root_words dest = ds @ [v]" using v dir(1) by auto
        have "fs' = fmupd (ds @ [v]) (FFile data) fs" using Some by (simp add: WriteFile_def put_file_def w(2) split: if_splits)
        moreover have "fs_ok fs'" using put_file_ok [OF fs(1) _ Some [unfolded WriteFile_def]] by simp
        moreover have "handleDirectUpload ev now' url form tk1 fs = Some (if broken then Fail 500 ''write failed'' else Reply (), fs')"
          using ok Some by (simp add: eq dest(1))
        ultimately show ?thesis using f w(1) by blast
      qed
    qed
  qed
qed

text \<open>
  An upload writes one file of the ticket's directory. Whatever name the client gives, with
  whatever separators, dots and spaces in it: either nothing changes, or one file directly in that
  directory has the bytes that arrived, and every other path is as it was.
\<close>

theorem upload_writes_one_file:
  assumes dir: "list_all real_word ds" "eval_abs ev" and fs: "fs_ok fs" "fmlookup fs ds = Some FDir"
    and issue: "ticket_Create tk now uid uuid cwd (abs_path ds) = (tk1, password)" "password \<noteq> []"
  shows "\<exists>r fs'. handleDirectUpload ev now' (''/upload/'' @ password) form tk1 fs = Some (r, fs') \<and> fs_ok fs' \<and>
    (fs' \<noteq> fs \<longrightarrow> now' \<le> now + ticketTTL \<and>
       (\<exists>v name data broken. real_word v \<and> form = Some (name, data, broken) \<and> fs' = fmupd (ds @ [v]) (FFile data) fs))"
  using assms by (intro upload_core) (simp_all add: TrimPrefix_def HasPrefix_def)

lemma ticket_fresh:
  "ticket_create fmempty now uid kind uuid cwd dir file =
    (fmupd uid \<lparr>tk_uuid = uuid, tk_kind = kind, tk_cwd = cwd, tk_dir = dir, tk_file = file, tk_expires = now + ticketTTL\<rparr> fmempty, uid)"
  by (simp add: ticket_create_def Let_def maplen_def maxTickets_def fcard.rep_eq)

theorem upload_writes_one_file_witness:
  "\<exists>tk1 r fs'. ticket_Create fmempty 0 ''pw'' ''a'' ''/games/mc'' (abs_path [''games'', ''mc'']) = (tk1, ''pw'') \<and>
     handleDirectUpload linkless 1 (''/upload/'' @ ''pw'') (Some (''../other/run.sh'', ''evil'', False)) tk1 ex_fs = Some (r, fs') \<and>
     fmlookup fs' [''games'', ''other'', ''run.sh''] = Some (FFile ''java'')"
proof -
  obtain tk1 where tk: "ticket_Create fmempty 0 ''pw'' ''a'' ''/games/mc'' (abs_path [''games'', ''mc'']) = (tk1, ''pw'')"
    by (simp add: ticket_Create_def ticket_fresh)
  have "list_all real_word [''games'', ''mc'']" "eval_abs linkless" "fmlookup ex_fs [''games'', ''mc''] = Some FDir"
    by (code_simp, simp add: eval_abs_def linkless_def, simp add: ex_lookup)
  from upload_writes_one_file [OF this(1,2) ex_fs_ok this(3) tk, of 1 "Some (''../other/run.sh'', ''evil'', False)"]
  obtain r fs' where r: "handleDirectUpload linkless 1 (''/upload/'' @ ''pw'') (Some (''../other/run.sh'', ''evil'', False)) tk1 ex_fs = Some (r, fs')"
    "fs' \<noteq> ex_fs \<longrightarrow> (\<exists>v data. fs' = fmupd ([''games'', ''mc''] @ [v]) (FFile data) ex_fs)" by auto
  have "fmlookup fs' [''games'', ''other'', ''run.sh''] = fmlookup ex_fs [''games'', ''other'', ''run.sh'']"
    using r(2) by (cases "fs' = ex_fs") auto
  then show ?thesis using tk r(1) by (auto simp: ex_lookup)
qed


end
