(* ===== verification/Cluster.thy ===== *)
theory Cluster
  imports Transfers Cors Backups Containers "HOL-Library.Word"
begin

text \<open>
  The cluster API of a node (cmd/irix-node/cluster.go): the sync area, the lists of whole trees, the
  coordinator's state, and the transfer of an instance from another node with its checks of
  addresses. Name resolution, the parsing of URLs and network prefixes, what a dialled peer answers
  and the JSON text are parameters; a request follows redirects as the transfer's HTTP client does.
\<close>

unbundle bit_operations_syntax

subsection \<open>The sync area\<close>

definition maxClusterEvents :: nat where "maxClusterEvents = 100"
definition maxClusterArchiveBytes :: nat where "maxClusterArchiveBytes = 64 * 2 ^ 30"

text \<open>\<open>clusterPath\<close> of \<open>Containers\<close>, with the root of the area given.\<close>

definition area_path :: "(string \<Rightarrow> eval_error + string) \<Rightarrow> string \<Rightarrow> string \<Rightarrow> (string + string) option" where
  "area_path ev root p =
     (case cluster_relative p of None \<Rightarrow> Some (Inr root) | Some q \<Rightarrow> safeResolve ev root q)"

lemma clusterPath_area: "clusterPath ev wd dataDir p = area_path ev (clusterRoot wd dataDir) p"
  by (simp add: clusterPath_def area_path_def)

definition fileSHA256 :: "crypto \<Rightarrow> fs \<Rightarrow> string \<Rightarrow> string" where
  "fileSHA256 C fs p = (case ReadFile p fs of None \<Rightarrow> [] | Some data \<Rightarrow> cr_sha C data)"

record syncEntry =
  se_Path :: string
  se_Size :: int
  se_Mtime :: string
  se_SHA256 :: string
  se_Type :: nat

text \<open>\<open>mtime\<close> is the formatted time of a path. \<open>None\<close>: the root cannot be read.\<close>

definition sync_entry :: "crypto \<Rightarrow> (string list \<Rightarrow> string) \<Rightarrow> string list \<Rightarrow> fs \<Rightarrow> string list \<Rightarrow> syncEntry" where
  "sync_entry C mtime ws fs k =
     (let n = the (fmlookup fs k) in
      \<lparr>se_Path = SEP # join_with ''/'' (drop (length ws) k), se_Size = node_size n, se_Mtime = mtime k,
       se_SHA256 = (if n = FDir then [] else fileSHA256 C fs (abs_path k)), se_Type = entryType n\<rparr>)"

definition walkEntries :: "crypto \<Rightarrow> (string list \<Rightarrow> string) \<Rightarrow> string \<Rightarrow> fs \<Rightarrow> syncEntry list option" where
  "walkEntries C mtime root fs =
     (let ws = root_words root in
      if fmlookup fs ws = None then None
      else Some (map (sync_entry C mtime ws fs) (filter (\<lambda>k. strict_prefix ws k) (fs_keys fs))))"

definition writeSyncList :: "crypto \<Rightarrow> (string list \<Rightarrow> string) \<Rightarrow> string \<Rightarrow> fs \<Rightarrow> (syncEntry list \<times> nat \<times> string) reply" where
  "writeSyncList C mtime root fs =
     (case walkEntries C mtime root fs of
        None \<Rightarrow> Fail 500 ''cannot walk'' | Some es \<Rightarrow> Reply (es, length es, ''/''))"

definition handleClusterSyncList ::
  "(string \<Rightarrow> eval_error + string) \<Rightarrow> crypto \<Rightarrow> (string list \<Rightarrow> string) \<Rightarrow> string \<Rightarrow> string \<Rightarrow> fs \<Rightarrow>
   (syncEntry list \<times> nat \<times> string) reply option" where
  "handleClusterSyncList ev C mtime root p fs =
     map_option (\<lambda>r. case r of Inl e \<Rightarrow> Fail 400 e | Inr dir \<Rightarrow> writeSyncList C mtime dir fs) (area_path ev root p)"

definition handleInstanceSyncList ::
  "crypto \<Rightarrow> (string list \<Rightarrow> string) \<Rightarrow> Node \<Rightarrow> string \<Rightarrow> fs \<Rightarrow> (syncEntry list \<times> nat \<times> string) reply" where
  "handleInstanceSyncList C mtime n uuid fs =
     (case CwdOf n uuid of Inl e \<Rightarrow> Fail 400 e | Inr cwd \<Rightarrow> writeSyncList C mtime cwd fs)"

definition zipDir ::
  "zip_format \<Rightarrow> (string \<Rightarrow> eval_error + string) \<Rightarrow> string \<Rightarrow> string \<Rightarrow> fs \<Rightarrow> (string option \<times> fs) option" where
  "zipDir Z ev src zipPath fs =
     (case MkdirAll (Dir zipPath) fs of
        None \<Rightarrow> Some (Some ''cannot make directory'', fs)
      | Some fs \<Rightarrow>
        (case WriteFile zipPath (zf_partial Z) fs of
           None \<Rightarrow> Some (Some ''cannot create'', fs)
         | Some fs \<Rightarrow>
           (case ReadDir src fs of
              None \<Rightarrow> Some (Some ''cannot read directory'', fs)
            | Some names \<Rightarrow>
              (case resolveExistingPrefix ev src of
                 None \<Rightarrow> None
               | Some (Inl e) \<Rightarrow> Some (Some e, fs)
               | Some (Inr _) \<Rightarrow>
                 (case foldl (\<lambda>r w. case r of Inl e \<Rightarrow> Inl e | Inr out \<Rightarrow> addToZip (Suc maxZipDepth) (Join [src, w]) w fs out) (Inr []) names of
                    Inl e \<Rightarrow> Some (Some e, fs)
                  | Inr out \<Rightarrow> Some (None, case WriteFile zipPath (zf_write Z out) fs of None \<Rightarrow> fs | Some fs \<Rightarrow> fs))))))"

subsection \<open>Handlers of the sync area\<close>

text \<open>What every handler does with the path of a request.\<close>

definition on_cluster ::
  "(string \<Rightarrow> eval_error + string) \<Rightarrow> string \<Rightarrow> string \<Rightarrow> (string \<Rightarrow> 'a reply \<times> 'w) \<Rightarrow> 'w \<Rightarrow> ('a reply \<times> 'w) option" where
  "on_cluster ev root p k w =
     (case area_path ev root p of None \<Rightarrow> None | Some (Inl e) \<Rightarrow> Some (Fail 400 e, w) | Some (Inr q) \<Rightarrow> Some (k q))"

definition handleClusterFileList ::
  "file_env \<Rightarrow> string \<Rightarrow> string \<Rightarrow> string \<Rightarrow> string \<Rightarrow> string \<Rightarrow> fs \<Rightarrow> (list_row list \<times> nat \<times> string) reply option" where
  "handleClusterFileList E root p pageQ sizeQ hash fs =
     (case area_path (fe_ev E) root p of
        None \<Rightarrow> None
      | Some (Inl e) \<Rightarrow> Some (Fail 400 e)
      | Some (Inr dir) \<Rightarrow>
          map_option (\<lambda>r. case r of Inl e \<Rightarrow> Fail 400 e | Inr (items, count, ab) \<Rightarrow> Reply (items, count, ''/mirrors'' @ ab))
            (listDir E root dir (atoiDefault pageQ 1) (atoiDefault sizeQ 100) (hash = ''1'') fs))"

definition handleClusterMkdir ::
  "(string \<Rightarrow> eval_error + string) \<Rightarrow> string \<Rightarrow> string option \<Rightarrow> fs \<Rightarrow> (unit reply \<times> fs) option" where
  "handleClusterMkdir ev root body fs =
     (case body of
        None \<Rightarrow> Some (Fail 400 ''malformed body'', fs)
      | Some p \<Rightarrow>
          on_cluster ev root p
            (\<lambda>dir. case MkdirAll dir fs of None \<Rightarrow> (Fail 500 ''cannot create'', fs) | Some fs \<Rightarrow> (Reply (), fs)) fs)"

fun cluster_delete :: "(string \<Rightarrow> eval_error + string) \<Rightarrow> string \<Rightarrow> string list \<Rightarrow> fs \<Rightarrow> (unit reply \<times> fs) option" where
  "cluster_delete ev root [] fs = Some (Reply (), fs)"
| "cluster_delete ev root (t # ts) fs =
     (case area_path ev root t of
        None \<Rightarrow> None
      | Some (Inl e) \<Rightarrow> Some (Fail 400 e, fs)
      | Some (Inr p) \<Rightarrow> cluster_delete ev root ts (RemoveAll p fs))"

definition handleClusterDelete ::
  "(string \<Rightarrow> eval_error + string) \<Rightarrow> string \<Rightarrow> string list option \<Rightarrow> fs \<Rightarrow> (unit reply \<times> fs) option" where
  "handleClusterDelete ev root body fs =
     (case body of None \<Rightarrow> Some (Fail 400 ''malformed body'', fs) | Some ts \<Rightarrow> cluster_delete ev root ts fs)"

definition handleClusterDownload ::
  "(string \<Rightarrow> eval_error + string) \<Rightarrow> instant \<Rightarrow> string \<Rightarrow> string \<Rightarrow> string option \<Rightarrow> fs \<Rightarrow> ticketStore \<Rightarrow>
   (string reply \<times> ticketStore) option" where
  "handleClusterDownload ev now uid root body fs tk =
     (case body of
        None \<Rightarrow> Some (Fail 400 ''malformed body'', tk)
      | Some p \<Rightarrow>
          on_cluster ev root p
            (\<lambda>q. case node_at fs q of
                Some (FFile _) \<Rightarrow>
                  (case ticket_CreateDownload tk now uid ''cluster'' root [] of
                     (tk, password) \<Rightarrow> (if password = [] then Fail 503 ''too many download tickets'' else Reply password, tk))
              | _ \<Rightarrow> (Fail 400 (''no such file: '' @ p), tk)) tk)"

definition handleClusterUpload ::
  "(string \<Rightarrow> eval_error + string) \<Rightarrow> instant \<Rightarrow> string \<Rightarrow> string \<Rightarrow> string option \<Rightarrow> fs \<Rightarrow> ticketStore \<Rightarrow>
   ((string \<times> string) reply \<times> fs \<times> ticketStore) option" where
  "handleClusterUpload ev now uid root body fs tk =
     (case body of
        None \<Rightarrow> Some (Fail 400 ''malformed body'', fs, tk)
      | Some d \<Rightarrow>
          let uploadDir = (if d = [] then ''/'' else d) in
          on_cluster ev root uploadDir
            (\<lambda>dir. case MkdirAll dir fs of
                None \<Rightarrow> (Fail 500 ''cannot make directory'', fs, tk)
              | Some fs \<Rightarrow>
                (case ticket_Create tk now uid ''cluster'' root dir of
                   (tk, password) \<Rightarrow>
                     (if password = [] then Fail 503 ''too many upload tickets'' else Reply (password, uploadDir), fs, tk))) (fs, tk))"

subsection \<open>The coordinator's state\<close>

datatype json = JStr string | JInt int | JOther string

type_synonym json_object = "(string, json) fmap"

text \<open>A body that is no JSON, that is \<open>null\<close>, or an object.\<close>

datatype object_body = BadBody | NullBody | ObjectBody json_object

definition text_field :: "json_object \<Rightarrow> string \<Rightarrow> string" where
  "text_field m k = (case fmlookup m k of Some (JStr s) \<Rightarrow> s | _ \<Rightarrow> [])"

record peer =
  pr_id :: string
  pr_address :: string
  pr_available :: bool

record transferJob =
  tj_status :: string
  tj_bytes :: int
  tj_err :: "string option"

record clusterState =
  cl_monitor :: string
  cl_role :: string
  cl_peers :: "peer list"
  cl_heartbeat :: "json_object option"
  cl_events :: "json_object list"
  cl_transfers :: "(string, transferJob) fmap"

definition newClusterState :: clusterState where
  "newClusterState = \<lparr>cl_monitor = [], cl_role = ''worker'', cl_peers = [], cl_heartbeat = None, cl_events = [], cl_transfers = fmempty\<rparr>"

definition handleClusterStatus :: "string \<Rightarrow> string \<Rightarrow> clusterState \<Rightarrow> string \<times> string \<times> peer list \<times> string \<times> string" where
  "handleClusterStatus uuid addr c = (cl_monitor c, cl_role c, cl_peers c, uuid, ''http://'' @ addr)"

fun update_peer :: "string \<Rightarrow> string \<Rightarrow> peer list \<Rightarrow> peer list" where
  "update_peer i addr [] = [\<lparr>pr_id = i, pr_address = addr, pr_available = True\<rparr>]"
| "update_peer i addr (p # ps) =
     (if pr_id p = i then p\<lparr>pr_address := addr, pr_available := True\<rparr> # ps else p # update_peer i addr ps)"

text \<open>A body of \<open>null\<close> leaves a nil map, and setting the time in it panics: the outer \<open>None\<close>.\<close>

definition handleClusterHeartbeat :: "int \<Rightarrow> object_body \<Rightarrow> clusterState \<Rightarrow> (unit reply \<times> clusterState) option" where
  "handleClusterHeartbeat now body c =
     (case body of
        BadBody \<Rightarrow> Some (Fail 400 ''malformed body'', c)
      | NullBody \<Rightarrow> None
      | ObjectBody m \<Rightarrow>
          let m = fmupd ''time'' (JInt now) m;
              c = c\<lparr>cl_heartbeat := Some m\<rparr>;
              i = text_field m ''id'' in
          Some (Reply (), if i \<noteq> [] then c\<lparr>cl_peers := update_peer i (text_field m ''address'') (cl_peers c)\<rparr> else c))"

definition handleClusterEvents :: "int \<Rightarrow> object_body \<Rightarrow> clusterState \<Rightarrow> (unit reply \<times> clusterState) option" where
  "handleClusterEvents now body c =
     (case body of
        BadBody \<Rightarrow> Some (Fail 400 ''malformed body'', c)
      | NullBody \<Rightarrow> None
      | ObjectBody m \<Rightarrow>
          let es = cl_events c @ [fmupd ''time'' (JInt now) m] in
          Some (Reply (), c\<lparr>cl_events := (if length es > maxClusterEvents then drop (length es - maxClusterEvents) es else es)\<rparr>))"

definition handleClusterPeers :: "clusterState \<Rightarrow> peer list reply" where
  "handleClusterPeers c = Reply (cl_peers c)"

subsection \<open>Addresses\<close>

text \<open>\<open>net.IP\<close>: four or sixteen bytes, and its methods.\<close>

type_synonym ip = "8 word list"

definition mapped_head :: ip where
  "mapped_head = replicate 10 0 @ [0xff, 0xff]"

definition To4 :: "ip \<Rightarrow> ip option" where
  "To4 a =
     (if length a = 4 then Some a
      else if length a = 16 \<and> take 12 a = mapped_head then Some (drop 12 a) else None)"

definition IPv4 :: "8 word \<Rightarrow> 8 word \<Rightarrow> 8 word \<Rightarrow> 8 word \<Rightarrow> ip" where
  "IPv4 a b c d = mapped_head @ [a, b, c, d]"

definition ip_Equal :: "ip \<Rightarrow> ip \<Rightarrow> bool" where
  "ip_Equal a b =
     (if length a = length b then a = b
      else if length a = 4 \<and> length b = 16 then take 12 b = mapped_head \<and> a = drop 12 b
      else if length a = 16 \<and> length b = 4 then take 12 a = mapped_head \<and> b = drop 12 a
      else False)"

definition IsLoopback :: "ip \<Rightarrow> bool" where
  "IsLoopback a = (case To4 a of Some a4 \<Rightarrow> a4 ! 0 = 127 | None \<Rightarrow> ip_Equal a (replicate 15 0 @ [1]))"

definition IsUnspecified :: "ip \<Rightarrow> bool" where
  "IsUnspecified a = (ip_Equal a (IPv4 0 0 0 0) \<or> ip_Equal a (replicate 16 0))"

definition IsLinkLocalUnicast :: "ip \<Rightarrow> bool" where
  "IsLinkLocalUnicast a =
     (case To4 a of
        Some a4 \<Rightarrow> a4 ! 0 = 169 \<and> a4 ! 1 = 254
      | None \<Rightarrow> length a = 16 \<and> a ! 0 = 0xfe \<and> a ! 1 AND 0xc0 = 0x80)"

definition IsMulticast :: "ip \<Rightarrow> bool" where
  "IsMulticast a = (case To4 a of Some a4 \<Rightarrow> a4 ! 0 AND 0xf0 = 0xe0 | None \<Rightarrow> length a = 16 \<and> a ! 0 = 0xff)"

definition IsLinkLocalMulticast :: "ip \<Rightarrow> bool" where
  "IsLinkLocalMulticast a =
     (case To4 a of
        Some a4 \<Rightarrow> a4 ! 0 = 224 \<and> a4 ! 1 = 0 \<and> a4 ! 2 = 0
      | None \<Rightarrow> length a = 16 \<and> a ! 0 = 0xff \<and> a ! 1 AND 0x0f = 0x02)"

record ipnet =
  in_IP :: ip
  in_Mask :: "8 word list"

text \<open>\<open>IPNet.Contains\<close> with \<open>networkNumberAndMask\<close>.\<close>

definition networkNumberAndMask :: "ipnet \<Rightarrow> (ip \<times> 8 word list) option" where
  "networkNumberAndMask n =
     (case (case To4 (in_IP n) of Some a \<Rightarrow> Some a | None \<Rightarrow> if length (in_IP n) = 16 then Some (in_IP n) else None) of
        None \<Rightarrow> None
      | Some a \<Rightarrow>
          if length (in_Mask n) = 4 then (if length a = 4 then Some (a, in_Mask n) else None)
          else if length (in_Mask n) = 16 then Some (a, if length a = 4 then drop 12 (in_Mask n) else in_Mask n)
          else None)"

definition net_Contains :: "ipnet \<Rightarrow> ip \<Rightarrow> bool" where
  "net_Contains n a =
     (let a = (case To4 a of Some a4 \<Rightarrow> a4 | None \<Rightarrow> a) in
      case networkNumberAndMask n of
        None \<Rightarrow> a = []
      | Some (nn, m) \<Rightarrow> length a = length nn \<and> list_all (\<lambda>(x, y, k). x AND k = y AND k) (zip a (zip nn m)))"

definition isRFC1918 :: "ip \<Rightarrow> bool" where
  "isRFC1918 a =
     (case To4 a of
        Some a4 \<Rightarrow> a4 ! 0 = 10 \<or> a4 ! 0 = 172 \<and> a4 ! 1 \<ge> 16 \<and> a4 ! 1 \<le> 31 \<or> a4 ! 0 = 192 \<and> a4 ! 1 = 168
      | None \<Rightarrow> length a = 16 \<and> a ! 0 AND 0xfe = 0xfc)"

subsection \<open>The checks of a target\<close>

text \<open>
  What the daemon is given: whether the loopback is allowed (tests only), the allowed networks, the
  parsing of URLs and prefixes, the port a URL names or implies, the addresses of the own interfaces,
  and the \<open>k\<close>-th resolution of a name.
\<close>

record transfer_env =
  te_loopback :: bool
  te_nets :: "ipnet list"
  te_parse :: "string \<Rightarrow> parsed_url option"
  te_port :: "string \<Rightarrow> string"
  te_local :: "ip list option"
  te_lookup :: "nat \<Rightarrow> string \<Rightarrow> ip list option"
  te_dial :: "nat \<Rightarrow> ip \<Rightarrow> string \<Rightarrow> bool"

fun parse_cidrs :: "(string \<Rightarrow> ipnet option) \<Rightarrow> string list \<Rightarrow> ipnet list \<Rightarrow> string + ipnet list" where
  "parse_cidrs parse [] nets = Inr nets"
| "parse_cidrs parse (c # cs) nets =
     (let c = TrimSpace c in
      if c = [] then parse_cidrs parse cs nets
      else (case parse c of None \<Rightarrow> Inl (''bad CIDR '' @ c) | Some n \<Rightarrow> parse_cidrs parse cs (nets @ [n])))"

definition parseTransferAllowCIDR :: "(string \<Rightarrow> ipnet option) \<Rightarrow> string \<Rightarrow> string + ipnet list" where
  "parseTransferAllowCIDR parse raw = parse_cidrs parse (split_on (CHR '','') raw) []"

definition ipInAllowCIDR :: "transfer_env \<Rightarrow> ip \<Rightarrow> bool" where
  "ipInAllowCIDR E a = list_ex (\<lambda>n. net_Contains n a) (te_nets E)"

definition isLocalIP :: "transfer_env \<Rightarrow> ip \<Rightarrow> bool" where
  "isLocalIP E a = (case te_local E of None \<Rightarrow> False | Some as \<Rightarrow> list_ex (\<lambda>x. ip_Equal x a) as)"

datatype ip_refusal = RefusedSpecial | RefusedSelf | RefusedPrivate

definition checkTransferIP :: "transfer_env \<Rightarrow> ip \<Rightarrow> ip_refusal option" where
  "checkTransferIP E a =
     (if IsLoopback a \<or> IsUnspecified a \<or> IsLinkLocalUnicast a \<or> IsLinkLocalMulticast a \<or> IsMulticast a \<or>
         ip_Equal a (IPv4 255 255 255 255) then Some RefusedSpecial
      else if isLocalIP E a then Some RefusedSelf
      else if isRFC1918 a \<and> \<not> ipInAllowCIDR E a then Some RefusedPrivate
      else None)"

definition http_url :: "string \<Rightarrow> bool" where
  "http_url raw = (HasPrefix raw ''http://'' \<or> HasPrefix raw ''https://'')"

definition validateTransferTarget :: "transfer_env \<Rightarrow> nat \<Rightarrow> string \<Rightarrow> string option" where
  "validateTransferTarget E k raw =
     (if \<not> http_url raw then Some ''unsupported scheme''
      else
        (case te_parse E raw of
           None \<Rightarrow> Some ''bad address''
         | Some u \<Rightarrow>
             if pu_Hostname u = [] then Some ''no host name''
             else if te_loopback E then None
             else
               (case te_lookup E k (pu_Hostname u) of
                  None \<Rightarrow> Some ''cannot resolve''
                | Some ips \<Rightarrow> if list_all (\<lambda>a. checkTransferIP E a = None) ips then None else Some ''address refused'')))"

text \<open>The address that a connection is made to, and all that were tried.\<close>

fun dial_each :: "transfer_env \<Rightarrow> nat \<Rightarrow> string \<Rightarrow> ip list \<Rightarrow> ip option \<times> ip list" where
  "dial_each E k port [] = (None, [])"
| "dial_each E k port (a # as) =
     (if \<not> te_loopback E \<and> checkTransferIP E a \<noteq> None then dial_each E k port as
      else if te_dial E k a port then (Some a, [a])
      else (case dial_each E k port as of (r, tried) \<Rightarrow> (r, a # tried)))"

definition transferDialContext :: "transfer_env \<Rightarrow> nat \<Rightarrow> string \<Rightarrow> string \<Rightarrow> ip option \<times> ip list" where
  "transferDialContext E k host port =
     (case te_lookup E k host of None \<Rightarrow> (None, []) | Some ips \<Rightarrow> dial_each E k port ips)"

subsection \<open>Requests to another node\<close>

text \<open>\<open>url.PathEscape\<close> and \<open>url.QueryEscape\<close>.\<close>

definition hex_upper :: "nat \<Rightarrow> char" where
  "hex_upper n = ''0123456789ABCDEF'' ! n"

definition unreserved :: "char \<Rightarrow> bool" where
  "unreserved c = (id_char c \<or> c \<in> set ''-_.~'')"

definition percent :: "char \<Rightarrow> string" where
  "percent c = [CHR ''%'', hex_upper (of_char c div 16), hex_upper (of_char c mod 16)]"

definition PathEscape :: "string \<Rightarrow> string" where
  "PathEscape s = concat (map (\<lambda>c. if unreserved c \<or> c \<in> set ''$&+:=@'' then [c] else percent c) s)"

definition QueryEscape :: "string \<Rightarrow> string" where
  "QueryEscape s = concat (map (\<lambda>c. if unreserved c then [c] else if c = CHR '' '' then ''+'' else percent c) s)"

record response =
  rs_code :: nat
  rs_body :: string
  rs_broken :: bool

datatype answer = Answer response | RedirectTo string | NoAnswer

text \<open>
  What the other side does: its answer to the \<open>k\<close>-th request, the reading of its JSON as a status and
  the object in \<open>data\<close>, and whether the deadline has passed with so many polls left.
\<close>

record transfer_peer =
  tp_answer :: "nat \<Rightarrow> ip \<Rightarrow> string \<Rightarrow> answer"
  tp_decode :: "string \<Rightarrow> (int \<times> json_object option) option"
  tp_late :: "nat \<Rightarrow> bool"

text \<open>A connection that was made or tried: the address, the URL asked for, the token that was sent.\<close>

record contact =
  co_ip :: ip
  co_url :: string
  co_token :: string

definition contacts :: "ip option \<times> ip list \<Rightarrow> string \<Rightarrow> string \<Rightarrow> contact list" where
  "contacts d url tok = map (\<lambda>a. \<lparr>co_ip = a, co_url = url, co_token = (if fst d = Some a then tok else [])\<rparr>) (snd d)"

text \<open>
  One request of the client, with at most \<open>hops\<close> redirects: the client's own limit is replaced by the
  check of the target, and only its timeout ends a chain. The header with the token is sent again.
\<close>

fun follow :: "transfer_env \<Rightarrow> transfer_peer \<Rightarrow> nat \<Rightarrow> nat \<Rightarrow> string \<Rightarrow> string \<Rightarrow> response option \<times> nat \<times> contact list" where
  "follow E P 0 k tok url = (None, k, [])"
| "follow E P (Suc hops) k tok url =
     (case te_parse E url of
        None \<Rightarrow> (None, k, [])
      | Some u \<Rightarrow>
        (case transferDialContext E k (pu_Hostname u) (te_port E url) of
           (None, tried) \<Rightarrow> (None, Suc k, contacts (None, tried) url tok)
         | (Some a, tried) \<Rightarrow>
           (case tp_answer P k a url of
              NoAnswer \<Rightarrow> (None, Suc k, contacts (Some a, tried) url tok)
            | Answer r \<Rightarrow> (Some r, Suc k, contacts (Some a, tried) url tok)
            | RedirectTo v \<Rightarrow>
              (case validateTransferTarget E (Suc k) v of
                 Some _ \<Rightarrow> (None, Suc (Suc k), contacts (Some a, tried) url tok)
               | None \<Rightarrow>
                 (case follow E P hops (Suc (Suc k)) tok v of
                    (r, k', l) \<Rightarrow> (r, k', contacts (Some a, tried) url tok @ l))))))"

definition decodeJSONResponse :: "transfer_peer \<Rightarrow> response \<Rightarrow> json_object option" where
  "decodeJSONResponse P r =
     (case tp_decode P (rs_body r) of None \<Rightarrow> None | Some (st, data) \<Rightarrow> if st \<noteq> 200 then None else data)"

definition callJSON :: "transfer_env \<Rightarrow> transfer_peer \<Rightarrow> nat \<Rightarrow> nat \<Rightarrow> string \<Rightarrow> string \<Rightarrow> json_object option \<times> nat \<times> contact list" where
  "callJSON E P hops k tok url =
     (case follow E P hops k tok url of
        (r, k, l) \<Rightarrow> (Option.bind r (decodeJSONResponse P), k, l))"

subsection \<open>The transfer\<close>

text \<open>A poll sleeps for a second, so 902 of them outlast the fifteen minutes.\<close>

fun poll_snapshot ::
  "transfer_env \<Rightarrow> transfer_peer \<Rightarrow> nat \<Rightarrow> nat \<Rightarrow> nat \<Rightarrow> string \<Rightarrow> string \<Rightarrow> (string + string) \<times> nat \<times> contact list" where
  "poll_snapshot E P hops 0 k tok url = (Inl ''snapshot timed out'', k, [])"
| "poll_snapshot E P hops (Suc n) k tok url =
     (case callJSON E P hops k tok url of
        (None, k, l) \<Rightarrow> (Inl ''cannot query the snapshot'', k, l)
      | (Some prog, k, l) \<Rightarrow>
          if text_field prog ''status'' = ''done'' then
            let p = text_field prog ''archivePath''; p = (if p = [] then text_field prog ''path'' else p) in
            (if p = [] then Inl ''snapshot without a path'' else Inr p, k, l)
          else if text_field prog ''status'' = ''failed'' then (Inl ''snapshot failed'', k, l)
          else if tp_late P n then (Inl ''snapshot timed out'', k, l)
          else (case poll_snapshot E P hops n k tok url of (r, k, l') \<Rightarrow> (r, k, l @ l')))"

definition with_scheme :: "string \<Rightarrow> string" where
  "with_scheme addr = (if http_url addr then addr else ''http://'' @ addr)"

text \<open>The steps up to the download: where to fetch the archive, as address, password and name.\<close>

definition ask_archive ::
  "transfer_env \<Rightarrow> transfer_peer \<Rightarrow> nat \<Rightarrow> nat \<Rightarrow> string \<Rightarrow> string \<Rightarrow> (string + string \<times> string \<times> string) \<times> nat \<times> contact list" where
  "ask_archive E P hops polls base token =
     (case validateTransferTarget E 0 base of
        Some e \<Rightarrow> (Inl e, 1, [])
      | None \<Rightarrow>
        (case callJSON E P hops 1 token (base @ ''/api/instance/snapshot'') of
           (None, k, l) \<Rightarrow> (Inl ''snapshot refused'', k, l)
         | (Some snap, k, l) \<Rightarrow>
             let snapJobID = text_field snap ''jobId'' in
             if snapJobID = [] then (Inl ''no jobId'', k, l)
             else
               (case poll_snapshot E P hops polls k token (base @ ''/api/instance/snapshot-progress?jobId='' @ QueryEscape snapJobID) of
                  (Inl e, k, l1) \<Rightarrow> (Inl e, k, l @ l1)
                | (Inr archivePath, k, l1) \<Rightarrow>
                  (case callJSON E P hops k token (base @ ''/api/instance/backups/download'') of
                     (None, k, l2) \<Rightarrow> (Inl ''no download ticket'', k, l @ l1 @ l2)
                   | (Some tick, k, l2) \<Rightarrow>
                       let password = text_field tick ''password''; snapAddr = text_field tick ''addr'' in
                       if password = [] then (Inl ''no password'', k, l @ l1 @ l2)
                       else
                         let snapAddr = (if snapAddr = [] then base else with_scheme snapAddr) in
                         (case validateTransferTarget E k snapAddr of
                            Some e \<Rightarrow> (Inl e, Suc k, l @ l1 @ l2)
                          | None \<Rightarrow> (Inr (snapAddr, password, archivePath), Suc k, l @ l1 @ l2))))))"

definition job_failed :: "string \<Rightarrow> transferJob" where
  "job_failed e = \<lparr>tj_status = ''failed'', tj_bytes = 0, tj_err = Some e\<rparr>"

definition job_running :: transferJob where
  "job_running = \<lparr>tj_status = ''running'', tj_bytes = 0, tj_err = None\<rparr>"

text \<open>From the response of the download on: \<open>io.CopyN\<close> with one byte more than allowed, then unpacking.\<close>

definition store_archive :: "zip_format \<Rightarrow> string \<Rightarrow> string \<Rightarrow> response \<Rightarrow> fs \<Rightarrow> transferJob \<times> fs" where
  "store_archive Z tmpZip dest r fs =
     (if rs_code r \<noteq> 200 then (job_failed ''download refused'', fs)
      else
        (case WriteFile tmpZip (take (maxClusterArchiveBytes + 1) (rs_body r)) fs of
           None \<Rightarrow> (job_failed ''cannot create'', fs)
         | Some fs \<Rightarrow>
             let n = min (length (rs_body r)) (maxClusterArchiveBytes + 1) in
             if n > maxClusterArchiveBytes then (job_failed ''archive too large'', drop_file tmpZip fs)
             else if rs_broken r then (job_failed ''cannot write the archive'', fs)
             else
               (case MkdirAll dest fs of
                  None \<Rightarrow> (job_failed ''cannot make directory'', fs)
                | Some fs \<Rightarrow>
                  (case unzip Z tmpZip dest fs of
                     (Some e, fs) \<Rightarrow> (job_failed e, fs)
                   | (None, fs) \<Rightarrow> (\<lparr>tj_status = ''done'', tj_bytes = int n, tj_err = None\<rparr>, drop_file tmpZip fs)))))"

definition runTransfer ::
  "transfer_env \<Rightarrow> transfer_peer \<Rightarrow> zip_format \<Rightarrow> nat \<Rightarrow> nat \<Rightarrow> string \<Rightarrow> string \<Rightarrow> string \<Rightarrow> string \<Rightarrow> string \<Rightarrow> fs \<Rightarrow>
   transferJob \<times> fs \<times> contact list" where
  "runTransfer E P Z hops polls root jobID addr token dest fs =
     (case ask_archive E P hops polls (with_scheme addr) token of
        (Inl e, k, l) \<Rightarrow> (job_failed e, fs, l)
      | (Inr (snapAddr, password, archivePath), k, l) \<Rightarrow>
          let tmpZip = Join [root, ''.transfer'', jobID @ ''.zip''] in
          (case MkdirAll (Dir tmpZip) fs of
             None \<Rightarrow> (job_failed ''cannot make directory'', fs, l)
           | Some fs \<Rightarrow>
             (case follow E P hops k [] (snapAddr @ ''/download/'' @ PathEscape password @ ''/'' @ PathEscape (Base archivePath)) of
                (None, k, l') \<Rightarrow> (job_failed ''cannot download'', fs, l @ l')
              | (Some r, k, l') \<Rightarrow> (case store_archive Z tmpZip dest r fs of (job, fs) \<Rightarrow> (job, fs, l @ l')))))"

record transfer_body =
  tb_instanceId :: string
  tb_address :: string
  tb_token :: string
  tb_uuid :: string
  tb_dest :: string

definition handleClusterTransfer ::
  "(string \<Rightarrow> eval_error + string) \<Rightarrow> transfer_env \<Rightarrow> string \<Rightarrow> string \<Rightarrow> transfer_body option \<Rightarrow> clusterState \<Rightarrow>
   ((string \<times> string) reply \<times> clusterState) option" where
  "handleClusterTransfer ev E root uid body c =
     (case body of
        None \<Rightarrow> Some (Fail 400 ''malformed body'', c)
      | Some b \<Rightarrow>
          if tb_instanceId b = [] \<or> tb_address b = [] \<or> tb_uuid b = [] then Some (Fail 400 ''missing parameter'', c)
          else
            (case validateTransferTarget E 0 (with_scheme (tb_address b)) of
               Some e \<Rightarrow> Some (Fail 400 e, c)
             | None \<Rightarrow>
                 on_cluster ev root (tb_dest b)
                   (\<lambda>dest. (Reply (uid, dest), c\<lparr>cl_transfers := fmupd uid job_running (cl_transfers c)\<rparr>)) c))"

text \<open>The job of a transfer when it has ended.\<close>

definition end_transfer :: "string \<Rightarrow> transferJob \<Rightarrow> clusterState \<Rightarrow> clusterState" where
  "end_transfer uid job c = c\<lparr>cl_transfers := fmupd uid job (cl_transfers c)\<rparr>"

definition handleTransferStatus :: "string \<Rightarrow> clusterState \<Rightarrow> (string \<times> int) reply" where
  "handleTransferStatus jobId c =
     (case fmlookup (cl_transfers c) jobId of
        None \<Rightarrow> Fail 400 ''no such job'' | Some j \<Rightarrow> Reply (tj_status j, tj_bytes j))"

end
