(* ===== verification/ClusterSafety.thy ===== *)
theory ClusterSafety
  imports Cluster BackupSafety
begin

text \<open>
  What the cluster API promises: a transfer connects to checked addresses only, and the check of an
  IPv4 address is the one of the documented ranges; the sync area is never left; the coordinator
  keeps the last hundred events and one entry per peer. And what it gives away: the token of a
  request follows the redirects of the node it was meant for.
\<close>

subsection \<open>Which addresses are dialled\<close>

definition checked :: "transfer_env \<Rightarrow> contact list \<Rightarrow> bool" where
  "checked E l \<longleftrightarrow> (\<forall>c\<in>set l. checkTransferIP E (co_ip c) = None)"

lemma checked_append [simp]: "checked E (l @ l') \<longleftrightarrow> checked E l \<and> checked E l'"
  by (auto simp: checked_def)

lemma checked_Nil [simp]: "checked E []"
  by (simp add: checked_def)

lemma dial_each_checked:
  assumes "\<not> te_loopback E"
  shows "\<forall>a\<in>set (snd (dial_each E k port as)). checkTransferIP E a = None"
proof (induction as)
  case (Cons a as)
  then show ?case using assms
    by (cases "dial_each E k port as"; cases "checkTransferIP E a"; cases "te_dial E k a port") simp_all
qed simp

lemma dial_checked:
  assumes "\<not> te_loopback E" "transferDialContext E k h p = d"
  shows "checked E (contacts d url tok)"
proof -
  have "\<forall>a\<in>set (snd d). checkTransferIP E a = None"
    using assms(2) dial_each_checked [OF assms(1)] by (cases "te_lookup E k h") (auto simp: transferDialContext_def)
  then show ?thesis by (simp add: checked_def contacts_def)
qed

lemma follow_checked:
  "\<not> te_loopback E \<Longrightarrow> follow E P hops k tok url = (r, k', l) \<Longrightarrow> checked E l"
proof (induction hops arbitrary: k url r k' l)
  case (Suc hops)
  show ?case
  proof (cases "te_parse E url")
    case None
    then show ?thesis using Suc.prems by simp
  next
    case (Some u)
    obtain a tried where d: "transferDialContext E k (pu_Hostname u) (te_port E url) = (a, tried)" by fastforce
    note c = dial_checked [OF Suc.prems(1) d]
    show ?thesis using Suc.prems Some d c Suc.IH [OF Suc.prems(1)]
      by (auto split: option.splits answer.splits prod.splits)
  qed
qed simp

lemma call_checked: "\<not> te_loopback E \<Longrightarrow> callJSON E P hops k tok url = (r, k', l) \<Longrightarrow> checked E l"
  using follow_checked by (auto simp: callJSON_def split: prod.splits)

lemma poll_checked: "\<not> te_loopback E \<Longrightarrow> poll_snapshot E P hops n k tok url = (r, k', l) \<Longrightarrow> checked E l"
proof (induction n arbitrary: k r k' l)
  case (Suc n)
  obtain p k1 l1 where c: "callJSON E P hops k tok url = (p, k1, l1)" by (metis prod_cases3)
  then show ?case using Suc call_checked [OF Suc.prems(1) c]
    by (auto simp: Let_def split: option.splits if_splits prod.splits)
qed simp

lemma ask_checked:
  assumes "\<not> te_loopback E" "ask_archive E P hops polls base tok = (r, k, l)"
  shows "checked E l"
  using assms(2) call_checked [OF assms(1)] poll_checked [OF assms(1)]
  by (auto simp: ask_archive_def Let_def split: option.splits prod.splits if_splits sum.splits)

text \<open>
  C32. A transfer connects to checked addresses only. Whatever names resolve to, at each moment anew,
  whatever the other node answers, redirects to or names as the place of the archive: no connection
  is tried to an address that the check refuses.
\<close>

theorem transfer_dials_checked_only:
  assumes "\<not> te_loopback E" "runTransfer E P Z hops polls root jobID addr token dest fs = (job, fs', l)"
  shows "\<forall>c\<in>set l. checkTransferIP E (co_ip c) = None"
proof -
  have "checked E l"
    using assms(2) ask_checked [OF assms(1)] follow_checked [OF assms(1)]
    by (auto simp: runTransfer_def Let_def split: option.splits prod.splits sum.splits)
  then show ?thesis by (simp add: checked_def)
qed

subsection \<open>The ranges of the check\<close>

definition v4_number :: "8 word \<Rightarrow> 8 word \<Rightarrow> 8 word \<Rightarrow> 8 word \<Rightarrow> nat" where
  "v4_number a b c d = ((unat a * 256 + unat b) * 256 + unat c) * 256 + unat d"

definition v4_dots :: "nat \<Rightarrow> nat \<Rightarrow> nat \<Rightarrow> nat \<Rightarrow> nat" where
  "v4_dots a b c d = ((a * 256 + b) * 256 + c) * 256 + d"

definition v4_special :: "nat \<Rightarrow> bool" where
  "v4_special n \<longleftrightarrow> n = 0 \<or> n \<in> {v4_dots 127 0 0 0..v4_dots 127 255 255 255} \<or> n \<in> {v4_dots 169 254 0 0..v4_dots 169 254 255 255} \<or>
     n \<in> {v4_dots 224 0 0 0..v4_dots 239 255 255 255} \<or> n = v4_dots 255 255 255 255"

definition v4_private :: "nat \<Rightarrow> bool" where
  "v4_private n \<longleftrightarrow> n \<in> {v4_dots 10 0 0 0..v4_dots 10 255 255 255} \<or> n \<in> {v4_dots 172 16 0 0..v4_dots 172 31 255 255} \<or>
     n \<in> {v4_dots 192 168 0 0..v4_dots 192 168 255 255}"

lemma byte_eq: "(w :: 8 word) = numeral k \<longleftrightarrow> unat w = unat (numeral k :: 8 word)"
  by (simp add: word_unat_eq_iff)

lemma multicast_byte: "(w :: 8 word) AND 0xf0 = 0xe0 \<longleftrightarrow> 224 \<le> unat w \<and> unat w \<le> 239"
proof -
  have "\<forall>n\<in>set [0..<256]. ((word_of_nat n :: 8 word) AND 0xf0 = 0xe0) = (224 \<le> n \<and> n \<le> 239)" by code_simp
  moreover have "unat w < 256" using unsigned_less [of w] by simp
  then have "unat w \<in> set [0..<256]" by simp
  ultimately have "((word_of_nat (unat w) :: 8 word) AND 0xf0 = 0xe0) = (224 \<le> unat w \<and> unat w \<le> 239)" by blast
  then show ?thesis by simp
qed

lemma byte_values:
  "(w :: 8 word) = 127 \<longleftrightarrow> unat w = 127" "w = 0 \<longleftrightarrow> unat w = 0" "w = 169 \<longleftrightarrow> unat w = 169" "w = 254 \<longleftrightarrow> unat w = 254"
  "w = 255 \<longleftrightarrow> unat w = 255" "w = 10 \<longleftrightarrow> unat w = 10" "w = 172 \<longleftrightarrow> unat w = 172" "w = 192 \<longleftrightarrow> unat w = 192"
  "w = 168 \<longleftrightarrow> unat w = 168" "w \<ge> 16 \<longleftrightarrow> unat w \<ge> 16" "w \<le> 31 \<longleftrightarrow> unat w \<le> 31" "w = 224 \<longleftrightarrow> unat w = 224"
  by (simp_all add: word_unat_eq_iff word_le_nat_alt)

lemma digit_step:
  assumes "d < 256" "e < 256"
  shows "x * 256 + d = y * 256 + e \<longleftrightarrow> x = y \<and> d = (e :: nat)"
proof
  assume h: "x * 256 + d = y * 256 + e"
  have "d = e" using arg_cong [OF h, of "\<lambda>n. n mod 256"] assms by simp
  then show "x = y \<and> d = e" using h by simp
qed simp

lemma digit_between:
  assumes "b < 256" "r < 256" "s < 256"
  shows "p * 256 + r \<le> a * 256 + b \<and> a * 256 + b \<le> p * 256 + s \<longleftrightarrow> a = p \<and> r \<le> b \<and> b \<le> (s :: nat)"
proof
  assume h: "p * 256 + r \<le> a * 256 + b \<and> a * 256 + b \<le> p * 256 + s"
  have "p \<le> a" using div_le_mono [of "p * 256 + r" "a * 256 + b" 256] h assms by simp
  moreover have "a \<le> p" using div_le_mono [of "a * 256 + b" "p * 256 + s" 256] h assms by simp
  ultimately show "a = p \<and> r \<le> b \<and> b \<le> s" using h by simp
qed simp

lemma less_256: "255 < (256 :: nat)" "0 < (256 :: nat)" "254 < (256 :: nat)" "16 < (256 :: nat)" "31 < (256 :: nat)" "168 < (256 :: nat)"
  by simp_all

lemma v4_blocks:
  "n \<in> {v4_dots p 0 0 0..v4_dots q 255 255 255} \<longleftrightarrow> p \<le> n div 16777216 \<and> n div 16777216 \<le> q"
  "n \<in> {v4_dots p r 0 0..v4_dots p s 255 255} \<longleftrightarrow> p * 256 + r \<le> n div 65536 \<and> n div 65536 \<le> p * 256 + s"
proof -
  have "n \<in> {i * m..(j + 1) * m - 1} \<longleftrightarrow> i \<le> n div m \<and> n div m \<le> j" if "0 < m" for i j m
  proof -
    have "n div m \<le> j \<longleftrightarrow> n < (j + 1) * m" using div_less_iff_less_mult [OF that, of n "j + 1"] by (simp add: less_Suc_eq_le)
    moreover have "0 < (j + 1) * m" using that by simp
    ultimately show ?thesis using less_eq_div_iff_mult_less_eq [OF that, of i n] by auto
  qed
  from this [of 16777216 p q] this [of 65536 "p * 256 + r" "p * 256 + s"]
  show "n \<in> {v4_dots p 0 0 0..v4_dots q 255 255 255} \<longleftrightarrow> p \<le> n div 16777216 \<and> n div 16777216 \<le> q"
    "n \<in> {v4_dots p r 0 0..v4_dots p s 255 255} \<longleftrightarrow> p * 256 + r \<le> n div 65536 \<and> n div 65536 \<le> p * 256 + s"
    by (simp_all add: v4_dots_def algebra_simps)
qed

lemma v4_digits:
  "v4_number a b c d div 16777216 = unat a" "v4_number a b c d div 65536 = unat a * 256 + unat b"
proof -
  have lim: "unat b < 256" "unat c < 256" "unat d < 256"
    using unsigned_less [of b] unsigned_less [of c] unsigned_less [of d] by simp_all
  have "v4_number a b c d div 256 = (unat a * 256 + unat b) * 256 + unat c" using lim by (simp add: v4_number_def)
  then have "v4_number a b c d div 256 div 256 = unat a * 256 + unat b" using lim by simp
  then show two: "v4_number a b c d div 65536 = unat a * 256 + unat b" by (simp add: div_mult2_eq [symmetric])
  then have "v4_number a b c d div 65536 div 256 = unat a" using lim by simp
  then show "v4_number a b c d div 16777216 = unat a" by (simp add: div_mult2_eq [symmetric])
qed

lemma To4_forms: "To4 [a, b, c, d] = Some [a, b, c, d]" "To4 (IPv4 a b c d) = Some [a, b, c, d]"
  by (simp_all add: To4_def IPv4_def mapped_head_def)

text \<open>
  C33. The check of an IPv4 address is the one of the ranges. For an address of four bytes, in either
  of the forms that name resolution may give, read as a number: it is accepted exactly if it is
  none of the special ones (nothing, the loopback, link-local, multicast, broadcast), not an address
  of an own interface, and, if it lies in one of the private ranges, in an allowed network.
\<close>

theorem v4_check_is_ranges:
  assumes "x = [a, b, c, d] \<or> x = IPv4 a b c d"
  shows "checkTransferIP E x = None \<longleftrightarrow>
    \<not> v4_special (v4_number a b c d) \<and> \<not> isLocalIP E x \<and> (v4_private (v4_number a b c d) \<longrightarrow> ipInAllowCIDR E x)"
proof -
  have lim: "unat a < 256" "unat b < 256" "unat c < 256" "unat d < 256"
    using unsigned_less [of a] unsigned_less [of b] unsigned_less [of c] unsigned_less [of d] by simp_all
  have t: "To4 x = Some [a, b, c, d]" using assms To4_forms by metis
  have special: "IsLoopback x \<or> IsUnspecified x \<or> IsLinkLocalUnicast x \<or> IsLinkLocalMulticast x \<or> IsMulticast x \<or>
      ip_Equal x (IPv4 255 255 255 255) \<longleftrightarrow> v4_special (v4_number a b c d)"
  proof -
    have unspec: "IsUnspecified x \<longleftrightarrow> unat a = 0 \<and> unat b = 0 \<and> unat c = 0 \<and> unat d = 0"
      using assms by (auto simp: IsUnspecified_def ip_Equal_def IPv4_def mapped_head_def numeral_eq_Suc byte_values)
    have bcast: "ip_Equal x (IPv4 255 255 255 255) \<longleftrightarrow> unat a = 255 \<and> unat b = 255 \<and> unat c = 255 \<and> unat d = 255"
      using assms by (auto simp: ip_Equal_def IPv4_def mapped_head_def byte_values)
    let ?n = "v4_number a b c d"
    note defs = v4_number_def v4_dots_def
    have zero: "?n = 0 \<longleftrightarrow> unat a = 0 \<and> unat b = 0 \<and> unat c = 0 \<and> unat d = 0" unfolding defs by simp
    have "?n = v4_dots 255 255 255 255 \<longleftrightarrow> ((unat a = 255 \<and> unat b = 255) \<and> unat c = 255) \<and> unat d = 255"
      unfolding defs by (simp only: digit_step lim less_256)
    then have full: "?n = v4_dots 255 255 255 255 \<longleftrightarrow> unat a = 255 \<and> unat b = 255 \<and> unat c = 255 \<and> unat d = 255" by simp
    have loop: "IsLoopback x \<longleftrightarrow> 127 * 256 + 0 \<le> unat a * 256 + unat b \<and> unat a * 256 + unat b \<le> 127 * 256 + 255"
      unfolding digit_between [OF lim(2) less_256(2) less_256(1), of 127 "unat a"] using lim by (simp add: IsLoopback_def t byte_values)
    have link: "IsLinkLocalUnicast x \<longleftrightarrow> 169 * 256 + 254 \<le> unat a * 256 + unat b \<and> unat a * 256 + unat b \<le> 169 * 256 + 254"
      unfolding digit_between [OF lim(2) less_256(3) less_256(3), of 169 "unat a"] by (auto simp: IsLinkLocalUnicast_def t byte_values)
    have multi: "IsLinkLocalMulticast x \<or> IsMulticast x \<longleftrightarrow> 224 \<le> unat a \<and> unat a \<le> 239"
    proof -
      have "IsMulticast x \<longleftrightarrow> 224 \<le> unat a \<and> unat a \<le> 239" by (simp add: IsMulticast_def t multicast_byte)
      moreover have "IsLinkLocalMulticast x \<Longrightarrow> unat a = 224" by (simp add: IsLinkLocalMulticast_def t byte_values)
      ultimately show ?thesis by auto
    qed
    show ?thesis unfolding v4_special_def zero full v4_blocks v4_digits using loop link multi unspec bcast by blast
  qed
  have priv: "isRFC1918 x \<longleftrightarrow> v4_private (v4_number a b c d)"
    unfolding isRFC1918_def t v4_private_def v4_blocks v4_digits option.case
      digit_between [OF lim(2) less_256(2) less_256(1), of 10 "unat a"] digit_between [OF lim(2) less_256(4) less_256(5), of 172 "unat a"]
      digit_between [OF lim(2) less_256(2) less_256(1), of 192 "unat a"] digit_between [OF lim(2) less_256(6) less_256(6), of 192 "unat a"]
    using lim by (auto simp: byte_values)
  show ?thesis unfolding checkTransferIP_def special priv by simp
qed

theorem v4_check_is_ranges_witness:
  "checkTransferIP \<lparr>te_loopback = False, te_nets = [], te_parse = (\<lambda>_. None), te_port = (\<lambda>_. []), te_local = None,
      te_lookup = (\<lambda>_ _. None), te_dial = (\<lambda>_ _ _. False)\<rparr> (IPv4 169 254 169 254) \<noteq> None"
proof -
  have "v4_special (v4_number 169 254 169 254)" by (simp add: v4_special_def v4_number_def v4_dots_def)
  then show ?thesis
    using v4_check_is_ranges [of "IPv4 169 254 169 254" 169 254 169 254
        "\<lparr>te_loopback = False, te_nets = [], te_parse = (\<lambda>_. None), te_port = (\<lambda>_. []), te_local = None,
           te_lookup = (\<lambda>_ _. None), te_dial = (\<lambda>_ _ _. False)\<rparr>"] by simp
qed

subsection \<open>The sync area is not left\<close>

lemma cluster_path_within:
  assumes "list_all real_word base" "area_path ev (abs_path base) p = Some (Inr q)"
  shows "\<exists>ws. q = abs_path ws \<and> prefix base ws \<and> list_all real_word ws"
  using assms resolve_within [OF assms(1)] by (fastforce simp: area_path_def split: option.splits)

lemma cluster_mkdir_within:
  assumes "list_all real_word base" "handleClusterMkdir ev (abs_path base) body fs = Some (r, fs')"
  shows "within base fs fs'"
  using assms cluster_path_within [OF assms(1)] within_MkdirAll [of _ fs _ base]
  by (fastforce simp: handleClusterMkdir_def on_cluster_def split: option.splits sum.splits)

lemma cluster_delete_within:
  "list_all real_word base \<Longrightarrow> cluster_delete ev (abs_path base) ts fs = Some (r, fs') \<Longrightarrow> within base fs fs'"
proof (induction ts arbitrary: fs)
  case (Cons t ts)
  show ?case
  proof (cases "\<exists>q. area_path ev (abs_path base) t = Some (Inr q)")
    case True
    then obtain q where q: "area_path ev (abs_path base) t = Some (Inr q)" by blast
    then have "prefix base (root_words q)" using cluster_path_within [OF Cons.prems(1)] by fastforce
    then show ?thesis using Cons q within_trans [OF within_RemoveAll [of base q fs]] by simp
  next
    case False
    then show ?thesis using Cons.prems by (auto split: option.splits sum.splits)
  qed
qed simp

lemma cluster_upload_within:
  assumes "list_all real_word base" "handleClusterUpload ev now uid (abs_path base) body fs tk = Some (r, fs', tk')"
  shows "within base fs fs'"
  using assms cluster_path_within [OF assms(1)] within_MkdirAll [of _ fs _ base]
  by (fastforce simp: handleClusterUpload_def on_cluster_def Let_def split: option.splits sum.splits prod.splits if_splits)

lemma store_archive_within:
  assumes "list_all real_word base" "prefix base (root_words tmp)" "dest = abs_path ws" "prefix base ws" "list_all real_word ws"
    "store_archive Z tmp dest r fs = (job, fs')"
  shows "within base fs fs'"
proof (cases "rs_code r = 200")
  case False
  then show ?thesis using assms(6) by (simp add: store_archive_def)
next
  case True
  have drop: "within base f (drop_file tmp f)" for f by (rule withinI) (rule within_drop_file [OF _ assms(2)])
  show ?thesis
  proof (cases "WriteFile tmp (take (maxClusterArchiveBytes + 1) (rs_body r)) fs")
    case None
    then show ?thesis using True assms(6) by (simp add: store_archive_def)
  next
    case (Some f1)
    note w1 = within_WriteFile [OF Some assms(2)]
    show ?thesis
    proof (cases "maxClusterArchiveBytes < min (length (rs_body r)) (maxClusterArchiveBytes + 1) \<or> rs_broken r \<or> MkdirAll dest f1 = None")
      case early: True
      then have "fs' = f1 \<or> fs' = drop_file tmp f1" using True Some assms(6) by (auto simp: store_archive_def Let_def split: if_splits)
      then show ?thesis using w1 drop within_trans by blast
    next
      case False
      then obtain f2 where f2: "MkdirAll dest f1 = Some f2" by blast
      obtain e f3 where u: "unzip Z tmp dest f2 = (e, f3)" by fastforce
      have "within base f1 f2" using within_MkdirAll [OF f2, of base] assms(3-5) by simp
      moreover have "within base f2 f3" using within_unzip [OF assms(5,4), of f2 Z tmp] u assms(3) by simp
      moreover have "fs' = f3 \<or> fs' = drop_file tmp f3" using True False Some f2 u assms(6) by (cases e) (auto simp: store_archive_def Let_def)
      ultimately show ?thesis using w1 drop within_trans by blast
    qed
  qed
qed

text \<open>
  A transfer stays in the sync area. Whatever the other node sends, as an archive of whatever
  entries, and wherever in the area the request wants it: the tree stays well formed and changes
  below the root of the area only.
\<close>

theorem transfer_stays_in_area:
  assumes root: "list_all real_word base" "fs_ok fs" "fmlookup fs base = Some FDir" and job: "real_word (jobID @ ''.zip'')"
    and dest: "area_path ev (abs_path base) p = Some (Inr dest)"
    and run: "runTransfer E P Z hops polls (abs_path base) jobID addr token dest fs = (job', fs', l)"
  shows "fs_ok fs' \<and> same_outside base fs fs'"
proof -
  define tmp where "tmp = base @ [''.transfer'', jobID @ ''.zip'']"
  have tw: "list_all real_word tmp" "prefix base tmp" using root(1) job by (auto simp: tmp_def real_word_def plain_word_def)
  have t: "Join [abs_path base, ''.transfer'', jobID @ ''.zip''] = abs_path tmp"
    using Join_three [OF root(1) _ job] by (simp add: tmp_def real_word_def plain_word_def)
  have dir: "root_words (Dir (abs_path tmp)) = base @ [''.transfer'']"
    using root_words_Dir [OF tw(1)] by (simp add: tmp_def butlast_append)
  obtain ws where ws: "dest = abs_path ws" "prefix base ws" "list_all real_word ws" using cluster_path_within [OF root(1) dest] by blast
  obtain a k l1 where ask: "ask_archive E P hops polls (with_scheme addr) token = (a, k, l1)" by (metis prod_cases3)
  have "within base fs fs'"
  proof (cases a)
    case (Inl e)
    then show ?thesis using run ask by (simp add: runTransfer_def)
  next
    case (Inr x)
    obtain sa pw ap where x: "x = (sa, pw, ap)" by (metis prod_cases3)
    show ?thesis
    proof (cases "MkdirAll (Dir (abs_path tmp)) fs")
      case None
      then show ?thesis using run ask Inr x by (simp add: runTransfer_def t)
    next
      case (Some f1)
      have w1: "within base fs f1" using within_MkdirAll [OF Some, of base] dir by simp
      obtain r k2 l2 where f: "follow E P hops k [] (sa @ ''/download/'' @ PathEscape pw @ ''/'' @ PathEscape (Base ap)) = (r, k2, l2)"
        by (metis prod_cases3)
      show ?thesis
      proof (cases r)
        case None
        then show ?thesis using run ask Inr x Some f w1 by (simp add: runTransfer_def t)
      next
        case (Some rs)
        obtain j f2 where s: "store_archive Z (abs_path tmp) dest rs f1 = (j, f2)" by fastforce
        have "within base f1 f2" using store_archive_within [OF root(1) _ ws s] tw by simp
        moreover have "fs' = f2" using run ask Inr x \<open>MkdirAll _ fs = Some f1\<close> f Some s by (simp add: runTransfer_def t)
        ultimately show ?thesis using w1 within_trans by blast
      qed
    qed
  qed
  then show ?thesis using root fs_ok_anchored [of fs base] by (simp add: within_def)
qed

subsection \<open>Where the token goes\<close>

lemma dial_tried: "transferDialContext E k h p = (Some a, tried) \<Longrightarrow> a \<in> set tried"
proof -
  have "dial_each E k p as = (Some a, tried) \<Longrightarrow> a \<in> set tried" for as
    by (induction as arbitrary: tried) (auto split: if_splits prod.splits)
  then show "transferDialContext E k h p = (Some a, tried) \<Longrightarrow> a \<in> set tried"
    by (simp add: transferDialContext_def split: option.splits)
qed

lemma contacts_has: "a \<in> set tried \<Longrightarrow> \<lparr>co_ip = a, co_url = url, co_token = tok\<rparr> \<in> set (contacts (Some a, tried) url tok)"
  by (auto simp: contacts_def)

text \<open>
  The token follows the redirects. If the node that is asked for a snapshot answers with a
  redirect to any target that passes the check, the client connects there and sends the token of
  the session on the first node along, whoever runs the second.
\<close>

theorem token_follows_redirects:
  assumes base: "validateTransferTarget E 0 (with_scheme addr) = None" "snap = with_scheme addr @ ''/api/instance/snapshot''"
    and first: "te_parse E snap = Some u" "transferDialContext E 1 (pu_Hostname u) (te_port E snap) = (Some a, t1)"
      "tp_answer P 1 a snap = RedirectTo v" "validateTransferTarget E 2 v = None"
    and second: "te_parse E v = Some u'" "transferDialContext E 3 (pu_Hostname u') (te_port E v) = (Some b, t2)"
    and run: "runTransfer E P Z (Suc (Suc hops)) polls root jobID addr token dest fs = (job, fs', l)"
  shows "\<lparr>co_ip = b, co_url = v, co_token = token\<rparr> \<in> set l"
proof -
  let ?c = "\<lparr>co_ip = b, co_url = v, co_token = token\<rparr>"
  have c: "?c \<in> set (contacts (Some b, t2) v token)" using contacts_has [OF dial_tried [OF second(2)]] .
  obtain r k l1 where f: "follow E P (Suc (Suc hops)) 1 token snap = (r, k, l1)" by (metis prod_cases3)
  have f2: "follow E P (Suc hops) 3 token v = (r', k', l2) \<Longrightarrow> ?c \<in> set l2" for r' k' l2
    using c second by (auto split: answer.splits option.splits prod.splits)
  have n: "Suc 1 = (2::nat)" "Suc 2 = (3::nat)" by simp_all
  have "follow E P (Suc (Suc hops)) 1 token snap =
      (case follow E P (Suc hops) 3 token v of (r, k', l) \<Rightarrow> (r, k', contacts (Some a, t1) snap token @ l))"
    by (simp only: follow.simps(2) [of _ _ "Suc hops"] first n option.case prod.case answer.case)
  moreover obtain r2 k2 l2 where second': "follow E P (Suc hops) 3 token v = (r2, k2, l2)" by (metis prod_cases3)
  ultimately have "l1 = contacts (Some a, t1) snap token @ l2" using f by (simp del: follow.simps)
  then have "?c \<in> set l1" using f2 [OF second'] by (simp del: follow.simps)
  moreover obtain x k2 l3 where ask: "ask_archive E P (Suc (Suc hops)) polls (with_scheme addr) token = (x, k2, l3)" by (metis prod_cases3)
  then have "set l1 \<subseteq> set l3"
    using f base by (auto simp: ask_archive_def callJSON_def Let_def simp del: follow.simps split: option.splits prod.splits if_splits sum.splits)
  moreover have "set l3 \<subseteq> set l"
    using run ask by (auto simp: runTransfer_def Let_def simp del: follow.simps split: option.splits prod.splits sum.splits)
  ultimately show ?thesis by blast
qed

subsection \<open>An example\<close>

text \<open>
  A node that redirects to \<open>evil\<close>, a name that resolves to a public address when it is checked and to
  the loopback first when it is dialled.
\<close>

definition c_node :: ip where "c_node = [203, 0, 113, 5]"
definition c_evil :: ip where "c_evil = [198, 51, 100, 7]"

definition c_env :: transfer_env where
  "c_env = \<lparr>te_loopback = False, te_nets = [],
     te_parse = (\<lambda>u. Some (if HasPrefix u ''http://node'' then \<lparr>pu_Scheme = ''http'', pu_Host = ''node'', pu_Hostname = ''node''\<rparr>
        else \<lparr>pu_Scheme = ''http'', pu_Host = ''evil'', pu_Hostname = ''evil''\<rparr>)),
     te_port = (\<lambda>_. ''80''), te_local = None,
     te_lookup = (\<lambda>k h. Some (if h = ''node'' then [c_node] else if k = 3 then [[127, 0, 0, 1], c_evil] else [c_evil])),
     te_dial = (\<lambda>_ _ _. True)\<rparr>"

definition c_peer :: transfer_peer where
  "c_peer = \<lparr>tp_answer = (\<lambda>k a u. if a = c_node then RedirectTo ''http://evil/x'' else NoAnswer), tp_decode = (\<lambda>_. None), tp_late = (\<lambda>_. False)\<rparr>"

definition c_fs :: fs where
  "c_fs = fmap_of_list [([], FDir), ([''data''], FDir), ([''data'', ''mirrors''], FDir), ([''data'', ''instances.json''], FFile ''[]'')]"

definition c_base :: "string list" where
  "c_base = [''data'', ''mirrors'']"

lemma c_steps:
  "with_scheme ''node'' = ''http://node''" "validateTransferTarget c_env 0 ''http://node'' = None"
  "te_parse c_env ''http://node/api/instance/snapshot'' = Some \<lparr>pu_Scheme = ''http'', pu_Host = ''node'', pu_Hostname = ''node''\<rparr>"
  "transferDialContext c_env 1 ''node'' (te_port c_env ''http://node/api/instance/snapshot'') = (Some c_node, [c_node])"
  "tp_answer c_peer 1 c_node ''http://node/api/instance/snapshot'' = RedirectTo ''http://evil/x''"
  "validateTransferTarget c_env 2 ''http://evil/x'' = None"
  "te_parse c_env ''http://evil/x'' = Some \<lparr>pu_Scheme = ''http'', pu_Host = ''evil'', pu_Hostname = ''evil''\<rparr>"
  "transferDialContext c_env 3 ''evil'' (te_port c_env ''http://evil/x'') = (Some c_evil, [c_evil])"
  by code_simp+

theorem token_follows_redirects_witness:
  "\<exists>job fs' l. runTransfer c_env c_peer (b_zip []) 10 902 (abs_path c_base) ''j'' ''node'' ''secret'' (abs_path c_base) c_fs = (job, fs', l) \<and>
     \<lparr>co_ip = c_evil, co_url = ''http://evil/x'', co_token = ''secret''\<rparr> \<in> set l"
proof -
  have hops: "10 = Suc (Suc 8)" by simp
  obtain job fs' l where run: "runTransfer c_env c_peer (b_zip []) (Suc (Suc 8)) 902 (abs_path c_base) ''j'' ''node'' ''secret'' (abs_path c_base) c_fs = (job, fs', l)"
    by (metis prod_cases3)
  have "\<lparr>co_ip = c_evil, co_url = ''http://evil/x'', co_token = ''secret''\<rparr> \<in> set l"
    using token_follows_redirects [OF _ _ c_steps(3) _ c_steps(5,6,7) _ run] c_steps(1,2,4,8) by simp
  then show ?thesis unfolding hops using run by blast
qed

theorem transfer_dials_checked_only_witness:
  "\<exists>job fs' l. runTransfer c_env c_peer (b_zip []) 10 902 (abs_path c_base) ''j'' ''node'' ''secret'' (abs_path c_base) c_fs = (job, fs', l) \<and>
     [127, 0, 0, 1] \<notin> co_ip ` set l"
proof -
  obtain job fs' l where run: "runTransfer c_env c_peer (b_zip []) 10 902 (abs_path c_base) ''j'' ''node'' ''secret'' (abs_path c_base) c_fs = (job, fs', l)"
    by (metis prod_cases3)
  have "\<not> te_loopback c_env" "checkTransferIP c_env [127, 0, 0, 1] \<noteq> None" by (simp add: c_env_def, code_simp)
  then have "\<forall>c\<in>set l. co_ip c \<noteq> [127, 0, 0, 1]" using transfer_dials_checked_only [OF _ run] by metis
  then show ?thesis using run by (metis (no_types, lifting) imageE)
qed

theorem transfer_stays_in_area_witness:
  "\<exists>job fs' l. runTransfer c_env c_peer (b_zip []) 10 902 (abs_path c_base) ''j'' ''node'' ''secret'' (abs_path (c_base @ [''mc''])) c_fs = (job, fs', l) \<and>
     fmlookup fs' [''data'', ''instances.json''] = Some (FFile ''[]'')"
proof -
  obtain job fs' l where run: "runTransfer c_env c_peer (b_zip []) 10 902 (abs_path c_base) ''j'' ''node'' ''secret'' (abs_path (c_base @ [''mc''])) c_fs = (job, fs', l)"
    by (metis prod_cases3)
  have base: "list_all real_word c_base" "real_word (''j'' @ ''.zip'')" by code_simp+
  have ok: "fs_ok c_fs" unfolding c_fs_def by (rule fs_ok_list; code_simp)
  have "fmlookup c_fs c_base = Some FDir" by (simp add: c_fs_def c_base_def fmlookup_of_list)
  moreover have "area_path linkless (abs_path c_base) ''/mirrors/mc'' = Some (Inr (abs_path (c_base @ [''mc''])))"
  proof -
    have "cluster_relative ''/mirrors/mc'' = Some ''mc''" "NormalizePath (abs_path c_base) ''mc'' = Inr (abs_path (c_base @ [''mc'']))" by code_simp+
    then show ?thesis using safe_resolve_without_links [OF no_links_linkless base(1), of "''mc''"] by (simp add: area_path_def)
  qed
  ultimately have "same_outside c_base c_fs fs'" using transfer_stays_in_area [OF base(1) ok _ base(2) _ run] by blast
  then have "fmlookup fs' [''data'', ''instances.json''] = fmlookup c_fs [''data'', ''instances.json'']" by (simp add: same_outside_def c_base_def)
  then show ?thesis using run by (simp add: c_fs_def fmlookup_of_list)
qed

end
