(* ===== verification/Archives.thy ===== *)
theory Archives
  imports Transfers
begin

text \<open>
  Archives of any path of the host (the last part of cmd/irix-node/container.go): making one,
  handing it out, receiving one and unpacking it. The archive format is a parameter as in \<open>Files\<close>,
  \<open>cwd\<close> is the working directory of the process, \<open>stamp\<close> the formatted time.
\<close>

subsection \<open>Names\<close>

definition archiveDir :: "string \<Rightarrow> string" where
  "archiveDir dataDir = Join [dataDir, ''archives'']"

definition safeArchiveName :: "string \<Rightarrow> string + string" where
  "safeArchiveName name =
     (let name = map (\<lambda>c. if c = CHR 0x5C then SEP else c) name in
      if SEP \<in> set name then Inl ''the name of an archive has no separators''
      else
        let name = TrimSpace name in
        if name = [] \<or> name = ''.'' \<or> name = ''..'' then Inl ''bad archive name'' else Inr name)"

definition default_archive_name :: "string \<Rightarrow> string \<Rightarrow> string" where
  "default_archive_name stamp path =
     (let base = Base path in
      (if base = ''.'' \<or> base = ''/'' \<or> base = [] then ''archive'' else base) @ ''_'' @ stamp @ ''.zip'')"

text \<open>Where a path of the request leads.\<close>

definition place :: "string \<Rightarrow> string \<Rightarrow> string" where
  "place cwd p = (if IsAbs p then p else Join [cwd, p])"

subsection \<open>Packing\<close>

text \<open>
  The keys below a directory in their order are the visits of \<open>filepath.WalkDir\<close>. A directory is an
  entry with a slash at its end. The walk begins at the path as it is written: if that is not
  clean, the directory itself becomes an entry \<open>./\<close>.
\<close>

definition addZipDir :: "string \<Rightarrow> string \<times> string" where
  "addZipDir name = (name @ ''/'', [])"

definition addZipFile :: "string \<Rightarrow> string \<Rightarrow> string \<times> string" where
  "addZipFile name data = (name, data)"

definition archive_keys :: "string list \<Rightarrow> fs \<Rightarrow> string list list" where
  "archive_keys ws fs = filter (strict_prefix ws) (fs_keys fs)"

definition archive_entry :: "string list \<Rightarrow> fs \<Rightarrow> string list \<Rightarrow> string \<times> string" where
  "archive_entry ws fs k =
     (let rel = join_with ''/'' (drop (length ws) k) in
      case fmlookup fs k of Some (FFile data) \<Rightarrow> addZipFile rel data | _ \<Rightarrow> addZipDir rel)"

definition archive_entries :: "string \<Rightarrow> string list \<Rightarrow> fs \<Rightarrow> (string \<times> string) list" where
  "archive_entries src ws fs =
     (if src = Clean src then [] else [addZipDir ''.'']) @ map (archive_entry ws fs) (archive_keys ws fs)"

text \<open>
  An archive in the directory that is packed is itself packed while it grows: \<open>self\<close> is what is read
  from it then, \<open>None\<close> if that never ends.
\<close>

definition zipPathTo :: "zip_format \<Rightarrow> string option \<Rightarrow> string \<Rightarrow> string \<Rightarrow> string \<Rightarrow> fs \<Rightarrow> (string option \<times> fs) option" where
  "zipPathTo Z self cwd src dst fs =
     (let tmp = dst @ ''.tmp''; ws = root_words (place cwd src) in
      case WriteFile tmp [] fs of
        None \<Rightarrow> Some (Some ''cannot create'', fs)
      | Some fs1 \<Rightarrow>
        if fmlookup fs1 ws = None then Some (Some ''no such file'', drop_file tmp fs1)
        else if prefix ws (root_words tmp) \<and> self = None then None
        else
          let seen = (if prefix ws (root_words tmp) then the (WriteFile tmp (the self) fs1) else fs1);
              out = (case fmlookup seen ws of Some (FFile data) \<Rightarrow> [addZipFile (Base src) data] | _ \<Rightarrow> archive_entries src ws seen);
              fs2 = the (WriteFile tmp (zf_write Z out) fs1) in
          (case Rename tmp dst fs2 of
             None \<Rightarrow> Some (Some ''cannot rename'', drop_file tmp fs2) | Some fs3 \<Rightarrow> Some (None, fs3)))"

subsection \<open>Unpacking\<close>

datatype archive_error = Traversal string | Broken string

fun unzip_all :: "string \<Rightarrow> zip_entry list \<Rightarrow> fs \<Rightarrow> archive_error option \<times> fs" where
  "unzip_all dest [] fs = (None, fs)"
| "unzip_all dest (f # fz) fs =
     (let name = Clean (ze_Name f); out = Join [dest, name] in
      if HasPrefix (ze_Name f) ''/'' \<or> HasPrefix (ze_Name f) [CHR 0x5C] then (Some (Traversal (ze_Name f)), fs)
      else if name = ''.'' \<or> name = [] then unzip_all dest fz fs
      else if IsAbs name \<or> name = ''..'' \<or> HasPrefix name ''../'' then (Some (Traversal (ze_Name f)), fs)
      else if \<not> pathWithin dest out then (Some (Traversal (ze_Name f)), fs)
      else if ze_IsDir f then
        (case MkdirAll out fs of None \<Rightarrow> (Some (Broken ''cannot make directory''), fs) | Some fs \<Rightarrow> unzip_all dest fz fs)
      else
        (case MkdirAll (Dir out) fs of
           None \<Rightarrow> (Some (Broken ''cannot make directory''), fs)
         | Some fs \<Rightarrow>
           (case ze_Open f of
              None \<Rightarrow> (Some (Broken ''cannot open entry''), fs)
            | Some pieces \<Rightarrow>
              (case WriteFile out [] fs of
                 None \<Rightarrow> (Some (Broken ''cannot create''), fs)
               | Some fs \<Rightarrow>
                   let fs = the (WriteFile out (concat pieces) fs) in
                   if ze_Err f then (Some (Broken ''broken entry''), fs) else unzip_all dest fz fs))))"

definition unzipTo :: "zip_format \<Rightarrow> string \<Rightarrow> string \<Rightarrow> fs \<Rightarrow> archive_error option \<times> fs" where
  "unzipTo Z archivePath destPath fs =
     (case Option.bind (ReadFile archivePath fs) (zf_read Z) of
        None \<Rightarrow> (Some (Broken ''cannot open archive''), fs)
      | Some es \<Rightarrow>
          let dest = Clean destPath in
          (case MkdirAll dest fs of
             None \<Rightarrow> (Some (Broken ''cannot make directory''), fs) | Some fs \<Rightarrow> unzip_all dest es fs))"

subsection \<open>Requests\<close>

definition handleArchiveCreate ::
  "zip_format \<Rightarrow> string option \<Rightarrow> string \<Rightarrow> string \<Rightarrow> string \<Rightarrow> identity option \<Rightarrow> (string \<times> string) option \<Rightarrow> fs \<Rightarrow>
   (string reply \<times> fs) option" where
  "handleArchiveCreate Z self cwd stamp dataDir ident body fs =
     (if \<not> requireAdmin ident then Some (Fail 403 ''administrator required'', fs)
      else
        (case body of
           None \<Rightarrow> Some (Fail 400 ''malformed body'', fs)
         | Some (path, archive) \<Rightarrow>
             if path = [] then Some (Fail 400 ''missing path'', fs)
             else if node_at fs (place cwd path) = None then Some (Fail 400 ''no such path'', fs)
             else
               (case safeArchiveName (if archive = [] then default_archive_name stamp path else archive) of
                  Inl e \<Rightarrow> Some (Fail 400 e, fs)
                | Inr name \<Rightarrow>
                  (case MkdirAll (archiveDir dataDir) fs of
                     None \<Rightarrow> Some (Fail 500 ''cannot make directory'', fs)
                   | Some fs \<Rightarrow>
                       let dst = Join [archiveDir dataDir, name] in
                       map_option (\<lambda>(e, fs). (case e of None \<Rightarrow> Reply dst | Some e \<Rightarrow> Fail 500 e, fs))
                         (zipPathTo Z self cwd path dst fs)))))"

definition handleArchiveDownload :: "string \<Rightarrow> string \<Rightarrow> fs \<Rightarrow> served" where
  "handleArchiveDownload dataDir fileQ fs =
     (case safeArchiveName fileQ of
        Inl e \<Rightarrow> Refused 400
      | Inr name \<Rightarrow>
          let p = Join [archiveDir dataDir, name] in
          if \<not> pathWithin (archiveDir dataDir) p then Refused 400
          else if node_at fs p = None then Refused 404
          else ServeFile ''/api/container/archive'' p fs)"

text \<open>The form: the file name, what arrives of the file, and whether it breaks off.\<close>

definition handleArchiveUpload :: "string \<Rightarrow> (string \<times> string \<times> bool) option \<Rightarrow> fs \<Rightarrow> string reply \<times> fs" where
  "handleArchiveUpload dataDir form fs =
     (case form of
        None \<Rightarrow> (Fail 400 ''bad form'', fs)
      | Some (filename, data, broken) \<Rightarrow>
        (case safeArchiveName filename of
           Inl e \<Rightarrow> (Fail 400 e, fs)
         | Inr name \<Rightarrow>
           (case MkdirAll (archiveDir dataDir) fs of
              None \<Rightarrow> (Fail 500 ''cannot make directory'', fs)
            | Some fs \<Rightarrow>
                let dst = Join [archiveDir dataDir, name] in
                (case WriteFile dst data fs of
                   None \<Rightarrow> (Fail 500 ''cannot create'', fs)
                 | Some fs \<Rightarrow> if broken then (Fail 500 ''write failed'', drop_file dst fs) else (Reply dst, fs)))))"

definition handleArchiveRestore ::
  "zip_format \<Rightarrow> string \<Rightarrow> identity option \<Rightarrow> (string \<times> string) option \<Rightarrow> fs \<Rightarrow> unit reply \<times> fs" where
  "handleArchiveRestore Z dataDir ident body fs =
     (if \<not> requireAdmin ident then (Fail 403 ''administrator required'', fs)
      else
        (case body of
           None \<Rightarrow> (Fail 400 ''malformed body'', fs)
         | Some (file_name, destPath) \<Rightarrow>
             if file_name = [] \<or> destPath = [] then (Fail 400 ''missing parameter'', fs)
             else
               (case safeArchiveName file_name of
                  Inl e \<Rightarrow> (Fail 400 e, fs)
                | Inr name \<Rightarrow>
                    let archivePath = Join [archiveDir dataDir, name] in
                    if \<not> pathWithin (archiveDir dataDir) archivePath then (Fail 400 ''path out of bounds'', fs)
                    else if \<not> IsAbs destPath then (Fail 400 ''not an absolute path'', fs)
                    else
                      (case unzipTo Z archivePath destPath fs of
                         (None, fs) \<Rightarrow> (Reply (), fs)
                       | (Some (Traversal e), fs) \<Rightarrow> (Fail 400 e, fs)
                       | (Some (Broken e), fs) \<Rightarrow> (Fail 500 e, fs)))))"

end
