(* ===== verification/ArchiveSafety.thy ===== *)
theory ArchiveSafety
  imports Archives BackupSafety
begin

text \<open>
  What archives promise: an archive of a directory unpacked elsewhere gives the same directory again,
  empty directories included; unpacking changes nothing outside its target, whatever the archive
  holds, and is for administrators; a received archive becomes one file of the archive directory.
\<close>

subsection \<open>Names\<close>

lemma safe_name:
  assumes "safeArchiveName s = Inr n"
  shows "real_word n" "safeArchiveName n = Inr n" "CHR 0x5C \<notin> set n"
proof -
  let ?m = "map (\<lambda>c. if c = CHR 0x5C then SEP else c) s"
  have n: "n = TrimSpace ?m" "SEP \<notin> set ?m" "n \<noteq> []" "n \<noteq> ''.''" "n \<noteq> ''..''"
    using assms by (auto simp: safeArchiveName_def Let_def split: if_splits)
  have sep: "SEP \<notin> set n" using n(1,2) set_TrimSpace by blast
  show nobs: "CHR 0x5C \<notin> set n"
  proof
    assume "CHR 0x5C \<in> set n"
    then have "CHR 0x5C \<in> set ?m" using n(1) set_TrimSpace by blast
    then show False by (auto split: if_splits)
  qed
  show "real_word n" using n sep by (simp add: real_word_def plain_word_def)
  have "map (\<lambda>c. if c = CHR 0x5C then SEP else c) n = n" using nobs by (induction n) auto
  then show "safeArchiveName n = Inr n" using n sep by (simp add: safeArchiveName_def)
qed

lemma archive_dir_path: "IsAbs dataDir \<Longrightarrow> archiveDir dataDir = abs_path (root_words (archiveDir dataDir))"
  unfolding archiveDir_def by (rule Join_path)

lemma archive_place:
  assumes "IsAbs dataDir" "real_word n"
  shows "Join [archiveDir dataDir, n] = abs_path (root_words (archiveDir dataDir) @ [n])"
  using Join_words [OF root_words_real, of "[n]" "archiveDir dataDir"] assms(2) archive_dir_path [OF assms(1)] by simp

lemma archive_base: "real_word n \<Longrightarrow> Base (abs_path (root_words d @ [n])) = n"
  using Dir_Base_snoc [of "root_words d" n] by simp

subsection \<open>Unpacking an archive\<close>

text \<open>The archive with these entries is read as these entries, a name that ends in a slash as a directory.\<close>

definition reads_as :: "string \<times> string \<Rightarrow> zip_entry \<Rightarrow> bool" where
  "reads_as e f \<longleftrightarrow> ze_Name f = fst e \<and> ze_IsDir f = ends_slash (fst e) \<and>
     (ends_slash (fst e) \<or> (case ze_Open f of None \<Rightarrow> False | Some ps \<Rightarrow> concat ps = snd e) \<and> \<not> ze_Err f)"

definition archive_reads :: "zip_format \<Rightarrow> (string \<times> string) list \<Rightarrow> bool" where
  "archive_reads Z out \<longleftrightarrow> (case zf_read Z (zf_write Z out) of None \<Rightarrow> False | Some es \<Rightarrow> list_all2 reads_as out es)"

text \<open>
  Between the packed tree and the place of unpacking: what is there agrees, nothing else of the tree
  has changed, and the entries unpacked so far are there.
\<close>

definition partly_unpacked :: "string list \<Rightarrow> fs \<Rightarrow> string list \<Rightarrow> fs \<Rightarrow> string list set \<Rightarrow> fs \<Rightarrow> bool" where
  "partly_unpacked ws fs ds f0 S f \<longleftrightarrow> fs_ok f \<and> fmlookup f ds = Some FDir \<and>
     (\<forall>r. r \<noteq> [] \<longrightarrow> fmlookup f (ds @ r) \<in> {None, fmlookup fs (ws @ r)}) \<and>
     (\<forall>r. ws @ r \<in> S \<longrightarrow> fmlookup f (ds @ r) = fmlookup fs (ws @ r)) \<and> same_outside ds f0 f"

definition no_backslash_head :: "string list \<Rightarrow> fs \<Rightarrow> bool" where
  "no_backslash_head ws fs \<longleftrightarrow> (\<forall>k. fmlookup fs k \<noteq> None \<longrightarrow> strict_prefix ws k \<longrightarrow> hd (k ! length ws) \<noteq> CHR 0x5C)"

lemma mkdir_partly:
  assumes "partly_unpacked ws fs ds f0 S f" "fs_ok fs" "list_all real_word (ds @ us)" "fmlookup fs (ws @ us) = Some FDir"
  shows "\<exists>f1. MkdirAll (abs_path (ds @ us)) f = Some f1 \<and> partly_unpacked ws fs ds f0 S f1 \<and> fmlookup f1 (ds @ us) = Some FDir"
proof -
  note p = assms(1) [unfolded partly_unpacked_def]
  have src: "fmlookup fs (ws @ x) = Some FDir" if "prefix x us" for x
    using fs_ok_above [OF assms(2), of "ws @ x" "ws @ us"] that assms(4) by (cases "x = us") (auto simp: strict_prefix_def)
  have free: "fmlookup f x \<in> {None, Some FDir}" if x: "prefix x (ds @ us)" for x
  proof (cases "prefix x ds")
    case True
    then show ?thesis using fs_ok_above [of f x ds] p by (cases "x = ds") (auto simp: strict_prefix_def)
  next
    case False
    then obtain r where r: "x = ds @ r" "prefix r us" "r \<noteq> []" using x by (auto simp: prefix_append)
    then show ?thesis using p src [OF r(2)] by fastforce
  qed
  have "\<exists>f1. mkdir_words [] (ds @ us) f = Some f1" by (rule mkdir_words_ok) (use free in simp)
  then obtain f1 where f1: "MkdirAll (abs_path (ds @ us)) f = Some f1" using assms(3) by (auto simp: MkdirAll_def)
  have look: "fmlookup f1 x = (if prefix x (ds @ us) then Some FDir else fmlookup f x)" for x
    using MkdirAll_lookup [OF f1] assms(3) by simp
  have new: "fmlookup f1 (ds @ r) = (if prefix r us then Some FDir else fmlookup f (ds @ r))" for r by (simp add: look)
  have "\<forall>r. r \<noteq> [] \<longrightarrow> fmlookup f1 (ds @ r) \<in> {None, fmlookup fs (ws @ r)}" using p src by (simp add: new)
  moreover have "\<forall>r. ws @ r \<in> S \<longrightarrow> fmlookup f1 (ds @ r) = fmlookup fs (ws @ r)" using p src by (simp add: new)
  moreover have "same_outside ds f f1" using p assms(3) fs_ok_anchored [of f ds]
    by (intro MkdirAll_confined [OF _ _ f1]) auto
  moreover have "fmlookup f1 ds = Some FDir" using new [of "[]"] by simp
  ultimately have "partly_unpacked ws fs ds f0 S f1" using p MkdirAll_ok [OF _ f1] same_outside_trans [of ds f0 f f1]
    by (simp add: partly_unpacked_def)
  then show ?thesis using f1 look by auto
qed

lemma unpack_entry:
  assumes "partly_unpacked ws fs ds f0 S f" "fs_ok fs" "list_all real_word ds" "k \<in> set (archive_keys ws fs)"
    and e: "reads_as (archive_entry ws fs k) z" and nb: "no_backslash_head ws fs"
  shows "\<exists>f1. unzip_all (abs_path ds) (z # zs) f = unzip_all (abs_path ds) zs f1 \<and> partly_unpacked ws fs ds f0 (insert k S) f1"
proof -
  note p = assms(1) [unfolded partly_unpacked_def]
  obtain n where k: "strict_prefix ws k" "fmlookup fs k = Some n" using assms(4) by (auto simp: archive_keys_def)
  then obtain r where "k = ws @ r" "r \<noteq> []" by (auto simp: strict_prefix_def prefix_def)
  then obtain us w where kk: "k = ws @ us @ [w]" by (cases r rule: rev_cases) auto
  have real: "list_all real_word (us @ [w])" using fs_ok_real [OF assms(2), of k] k(2) by (simp add: kk)
  define rel where "rel = join_with ''/'' (us @ [w])"
  have parent: "fmlookup fs (ws @ us) = Some FDir" using fs_ok_parent [OF assms(2), of "ws @ us" w n] k(2) by (simp add: kk)
  have words: "path_words rel = us @ [w]" using real unfolding rel_def by (intro path_words_join real_list_plain)
  have abs: "\<not> IsAbs rel" using real unfolding rel_def by (intro join_plain_not_abs real_list_plain)
  have ne: "rel \<noteq> []" using words by (auto simp: path_words_def)
  have w: "w \<noteq> []" "SEP \<notin> set w" using real by (auto simp: real_word_def plain_word_def)
  then have "last w \<noteq> SEP" using last_in_set by metis
  with w have ends: "\<not> ends_slash rel"
    using join_snoc [of us "''/''" w] by (cases "us = []") (auto simp: rel_def ends_slash_def)
  have dot: "rel \<noteq> ''.''" using join_not_dot [of "us @ [w]"] real real_list_plain unfolding rel_def by blast
  have "hd (us @ [w]) \<noteq> []" "k ! length ws = hd (us @ [w])"
    using real by (cases us; simp add: real_word_def plain_word_def kk nth_append)+
  moreover have "\<exists>t. rel = hd (us @ [w]) @ t" by (cases us; cases "tl us") (auto simp: rel_def)
  ultimately have hd_rel: "hd rel = hd (k ! length ws)" by auto
  have head: "\<not> HasPrefix (rel @ t) ''/''" "\<not> HasPrefix (rel @ t) [CHR 0x5C]" for t
    using abs ne hd_rel nb k by (cases rel; simp add: HasPrefix_def no_backslash_head_def)+
  have "hd (us @ [w]) \<noteq> ''..''" using real by (cases us) (auto simp: real_word_def)
  then have dd: "rel \<noteq> ''..''" "\<not> HasPrefix rel ''../''"
    using dotdot_head [of "us @ [w]"] real_list_plain [OF real] unfolding rel_def by simp_all
  define t where "t = (if n = FDir then ''/'' else [])"
  have name: "ze_Name z = rel @ t" "ze_IsDir z \<longleftrightarrow> n = FDir"
    and data: "\<And>d. n = FFile d \<Longrightarrow> \<exists>ps. ze_Open z = Some ps \<and> concat ps = d \<and> \<not> ze_Err z"
    using e k(2) ends by (cases n; auto simp: reads_as_def archive_entry_def Let_def addZipDir_def addZipFile_def t_def rel_def [symmetric] kk ends_slash_def split: option.splits)+
  have clean: "Clean (rel @ t) = rel"
  proof -
    have "path_words [] = []" by code_simp
    then have "path_words (rel @ t) = us @ [w]" using words path_words_append_sep [of rel "[]"] by (simp add: t_def)
    moreover have "\<not> IsAbs (rel @ t)" using abs ne by (cases rel) simp_all
    moreover have "clean_words False (us @ [w]) = us @ [w]" using real by simp
    ultimately show ?thesis by (simp add: Clean_def path_of_def rel_def)
  qed
  have target: "Join [abs_path ds, rel] = abs_path (ds @ us @ [w])" using Join_words [OF assms(3) real] by (simp add: rel_def)
  have within: "pathWithin (abs_path ds) (abs_path (ds @ us @ [w]))"
    using pathWithin_words [OF assms(3), of "ds @ us @ [w]"] real assms(3) by simp
  have dir: "Dir (abs_path (ds @ us @ [w])) = abs_path (ds @ us)" using real assms(3) Dir_Base_snoc [of "ds @ us" w] by simp
  have run: "unzip_all (abs_path ds) (z # zs) f =
     (if ze_IsDir z then
        (case MkdirAll (abs_path (ds @ us @ [w])) f of None \<Rightarrow> (Some (Broken ''cannot make directory''), f) | Some f \<Rightarrow> unzip_all (abs_path ds) zs f)
      else
        (case MkdirAll (abs_path (ds @ us)) f of
           None \<Rightarrow> (Some (Broken ''cannot make directory''), f)
         | Some f \<Rightarrow>
           (case ze_Open z of
              None \<Rightarrow> (Some (Broken ''cannot open entry''), f)
            | Some pieces \<Rightarrow>
              (case WriteFile (abs_path (ds @ us @ [w])) [] f of
                 None \<Rightarrow> (Some (Broken ''cannot create''), f)
               | Some f \<Rightarrow>
                   let f = the (WriteFile (abs_path (ds @ us @ [w])) (concat pieces) f) in
                   if ze_Err z then (Some (Broken ''broken entry''), f) else unzip_all (abs_path ds) zs f))))"
    using head [of t] dot ne dd abs within
    by (simp only: unzip_all.simps Let_def name(1) clean target dir if_False simp_thms)
  let ?k = "ds @ us @ [w]"
  have kw: "root_words (abs_path ?k) = ?k" "butlast ?k = ds @ us" using real assms(3) by (simp_all add: butlast_append)
  have in_S: "partly_unpacked ws fs ds f0 (insert k S) f1" if "partly_unpacked ws fs ds f0 S f1" "fmlookup f1 ?k = Some n" for f1
    using that k(2) by (auto simp: partly_unpacked_def kk)
  show ?thesis
  proof (cases n)
    case FDir
    obtain f1 where "MkdirAll (abs_path ?k) f = Some f1" "partly_unpacked ws fs ds f0 S f1" "fmlookup f1 ?k = Some FDir"
      using mkdir_partly [OF assms(1,2), of "us @ [w]"] real assms(3) k(2) FDir by (auto simp: kk)
    then show ?thesis using in_S [of f1] FDir name(2) by (intro exI [of _ f1]) (simp add: run del: unzip_all.simps)
  next
    case (FFile d)
    obtain f1 where f1: "MkdirAll (abs_path (ds @ us)) f = Some f1" "partly_unpacked ws fs ds f0 S f1" "fmlookup f1 (ds @ us) = Some FDir"
      using mkdir_partly [OF assms(1,2), of us] real assms(3) parent by auto
    note q = f1(2) [unfolded partly_unpacked_def]
    have "us @ [w] \<noteq> [] \<Longrightarrow> fmlookup f1 ?k \<in> {None, fmlookup fs (ws @ us @ [w])}" using q by blast
    then have free: "fmlookup f1 ?k \<noteq> Some FDir" using k(2) FFile by (auto simp: kk)
    obtain ps where ps: "ze_Open z = Some ps" "concat ps = d" "\<not> ze_Err z" using data [OF FFile] by blast
    have put: "put_file ?k x f1 = Some (fmupd ?k (FFile x) f1)" for x using free f1(3) kw by (simp add: put_file_def)
    define f3 where "f3 = fmupd ?k (FFile d) f1"
    have w: "WriteFile (abs_path ?k) [] f1 = Some (fmupd ?k (FFile []) f1)" "WriteFile (abs_path ?k) d (fmupd ?k (FFile []) f1) = Some f3"
      using put f1(3) by (simp_all add: WriteFile_def kw put_file_def f3_def)
    have "fs_ok f3" "same_outside ds f1 f3"
      using put_file_ok [OF _ _ put [of d]] put_file_confined [OF _ put [of d], of ds] q real assms(3) by (simp_all add: f3_def)
    then have "partly_unpacked ws fs ds f0 S f3" using q k(2) FFile same_outside_trans [of ds f0 f1 f3]
      by (auto simp: partly_unpacked_def f3_def kk)
    moreover have "fmlookup f3 ?k = Some n" by (simp add: f3_def FFile)
    ultimately show ?thesis using in_S [of f3] FFile name(2) ps w f1(1) by (intro exI [of _ f3]) (simp add: run del: unzip_all.simps)
  qed
qed

lemma unpack_entries:
  assumes "list_all2 reads_as (map (archive_entry ws fs) L) es" "set L \<subseteq> set (archive_keys ws fs)" "partly_unpacked ws fs ds f0 S f"
    and ok: "fs_ok fs" "list_all real_word ds" "no_backslash_head ws fs"
  shows "\<exists>f1. unzip_all (abs_path ds) es f = (None, f1) \<and> partly_unpacked ws fs ds f0 (set L \<union> S) f1"
  using assms(1-3)
proof (induction L arbitrary: es S f)
  case (Cons k L)
  obtain z es' where es: "es = z # es'" "reads_as (archive_entry ws fs k) z" "list_all2 reads_as (map (archive_entry ws fs) L) es'"
    using Cons.prems(1) by (auto simp: list_all2_Cons1)
  obtain f1 where f1: "unzip_all (abs_path ds) es f = unzip_all (abs_path ds) es' f1" "partly_unpacked ws fs ds f0 (insert k S) f1"
    using unpack_entry [OF Cons.prems(3) ok(1,2) _ es(2) ok(3)] Cons.prems(2) unfolding es(1) by auto
  then show ?case using Cons.IH [OF es(3) _ f1(2)] Cons.prems(2) by simp
qed simp

lemma unpack_all:
  assumes "fs_ok fs" "fmlookup fs ws = Some FDir" "no_backslash_head ws fs" "archive_reads Z (archive_entries (abs_path ws) ws fs)"
    and ds: "list_all real_word ds" "fs_ok f" "\<And>x. prefix x ds \<Longrightarrow> fmlookup f x \<in> {None, Some FDir}" "\<And>x. strict_prefix ds x \<Longrightarrow> fmlookup f x = None"
    and p: "ReadFile p f = Some (zf_write Z (archive_entries (abs_path ws) ws fs))"
  shows "\<exists>f1. unzipTo Z p (abs_path ds) f = (None, f1) \<and> fs_ok f1 \<and> (\<forall>r. r \<noteq> [] \<longrightarrow> fmlookup f1 (ds @ r) = fmlookup fs (ws @ r)) \<and>
    (\<forall>x. \<not> prefix ds x \<longrightarrow> fmlookup f1 x = (if prefix x ds then Some FDir else fmlookup f x))"
proof -
  have ws: "list_all real_word ws" using fs_ok_real [OF assms(1)] assms(2) by simp
  have ents: "archive_entries (abs_path ws) ws fs = map (archive_entry ws fs) (archive_keys ws fs)"
    using ws by (simp add: archive_entries_def)
  obtain es where es: "zf_read Z (zf_write Z (archive_entries (abs_path ws) ws fs)) = Some es"
    "list_all2 reads_as (map (archive_entry ws fs) (archive_keys ws fs)) es"
    using assms(4) unfolding ents by (auto simp: archive_reads_def split: option.splits)
  have "\<exists>f0. mkdir_words [] ds f = Some f0" by (rule mkdir_words_ok) (use ds(3) in simp)
  then obtain f0 where f0: "MkdirAll (abs_path ds) f = Some f0" using ds(1) by (auto simp: MkdirAll_def)
  have look: "fmlookup f0 x = (if prefix x ds then Some FDir else fmlookup f x)" for x
    using MkdirAll_lookup [OF f0] ds(1) by simp
  have below: "fmlookup f0 (ds @ r) = None" if "r \<noteq> []" for r using that ds(4) [of "ds @ r"] by (simp add: look strict_prefix_def)
  have "partly_unpacked ws fs ds f0 {} f0" using below look MkdirAll_ok [OF ds(2) f0] by (simp add: partly_unpacked_def)
  then obtain f1 where f1: "unzip_all (abs_path ds) es f0 = (None, f1)" "partly_unpacked ws fs ds f0 (set (archive_keys ws fs)) f1"
    using unpack_entries [OF es(2) _ _ assms(1) ds(1) assms(3), of f0 "{}" f0] by auto
  have "fmlookup f1 (ds @ r) = fmlookup fs (ws @ r)" if "r \<noteq> []" for r
  proof (cases "fmlookup fs (ws @ r)")
    case None
    then show ?thesis using f1(2) that by (auto simp: partly_unpacked_def)
  next
    case (Some n)
    then have "ws @ r \<in> set (archive_keys ws fs)" using that by (simp add: archive_keys_def strict_prefix_def)
    then show ?thesis using f1(2) by (simp add: partly_unpacked_def)
  qed
  moreover have "fmlookup f1 x = (if prefix x ds then Some FDir else fmlookup f x)" if "\<not> prefix ds x" for x
    using f1(2) that look by (simp add: partly_unpacked_def same_outside_def)
  ultimately show ?thesis using f1 ds(1) by (simp add: unzipTo_def p es(1) f0 partly_unpacked_def)
qed

subsection \<open>Making and restoring an archive\<close>

lemma archive_entries_cong:
  assumes "\<And>k. prefix ws k \<Longrightarrow> fmlookup f k = fmlookup fs k"
  shows "archive_entries src ws f = archive_entries src ws fs"
proof -
  have "filter (strict_prefix ws) (fs_keys f) = filter (strict_prefix ws) (fs_keys fs)"
    by (rule sorted_distinct_set_unique)
      (auto simp: fs_keys_def sorted_list_of_fset.rep_eq sorted_wrt_filter strict_prefix_def assms fmlookup_dom_iff)
  then show ?thesis by (auto simp: archive_entries_def archive_entry_def archive_keys_def assms strict_prefix_def)
qed

lemma zip_made:
  assumes "fs_ok fs" "fmlookup fs ws = Some FDir" "list_all real_word ds" "real_word n" "real_word (n @ ''.tmp'')" "\<not> prefix ws (ds @ [n @ ''.tmp''])"
    and run: "zipPathTo Z self cwd (abs_path ws) (abs_path (ds @ [n])) fs = Some (None, fs1)"
  shows "ReadFile (abs_path (ds @ [n])) fs1 = Some (zf_write Z (archive_entries (abs_path ws) ws fs))"
proof -
  let ?tmp = "ds @ [n @ ''.tmp'']"
  have ws: "list_all real_word ws" using fs_ok_real [OF assms(1)] assms(2) by simp
  have tmp: "abs_path (ds @ [n]) @ ''.tmp'' = abs_path ?tmp" by (rule abs_path_last_append)
  have tw: "root_words (abs_path ?tmp) = ?tmp" "root_words (abs_path (ds @ [n])) = ds @ [n]" using assms(3-5) by simp_all
  let ?out = "archive_entries (abs_path ws) ws fs"
  obtain f1 where f1: "WriteFile (abs_path ?tmp) [] fs = Some f1"
    using run by (cases "WriteFile (abs_path ?tmp) [] fs") (auto simp: zipPathTo_def tmp Let_def)
  note look = put_file_lookup [OF f1 [unfolded WriteFile_def tw]]
  have seen: "fmlookup f1 k = fmlookup fs k" if "prefix ws k" for k
    using look [of k] that assms(6) by auto
  have out: "archive_entries (abs_path ws) ws f1 = ?out" using seen by (rule archive_entries_cong)
  define f2 where "f2 = fmupd ?tmp (FFile (zf_write Z ?out)) f1"
  have put: "WriteFile (abs_path ?tmp) (zf_write Z ?out) f1 = Some f2"
    using look [of ?tmp] look [of ds] by (simp add: WriteFile_def put_file_def tw f2_def)
  have top: "fmlookup f1 ws = Some FDir" "\<not> prefix ws (root_words (abs_path ?tmp))" using seen assms(2,6) tw by simp_all
  have "Rename (abs_path ?tmp) (abs_path (ds @ [n])) f2 = Some fs1"
    using run top ws by (auto simp: zipPathTo_def tmp Let_def f1 place_def out put split: option.splits)
  moreover have "Rename (abs_path ?tmp) (abs_path (ds @ [n])) f2 = Some (fmupd (ds @ [n]) (FFile (zf_write Z ?out)) (fmdrop ?tmp f2))"
  proof -
    have ok: "fs_ok f2" using put_file_ok [OF assms(1) _ f1 [unfolded WriteFile_def tw]] put_file_ok [OF _ _ put [unfolded WriteFile_def tw]] assms(3,5) by simp
    have "fmlookup f2 (ds @ [n]) \<noteq> Some FDir"
      using calculation by (auto simp: Rename_def rename_words_def tw split: option.splits)
    moreover have "fmlookup f2 ds = Some FDir" using look [of ds] by (simp add: f2_def)
    ultimately show ?thesis using rename_file [OF ok, of ?tmp "zf_write Z ?out" ds n] by (simp add: Rename_def tw f2_def)
  qed
  ultimately have "fs1 = fmupd (ds @ [n]) (FFile (zf_write Z ?out)) (fmdrop ?tmp f2)" by simp
  then show ?thesis by (simp add: ReadFile_def node_at_def tw)
qed


subsection \<open>What the requests touch\<close>

lemma unzip_all_within:
  assumes "list_all real_word ds"
  shows "within ds fs (snd (unzip_all (abs_path ds) es fs))"
proof (induction es arbitrary: fs)
  case (Cons f es)
  define name where "name = Clean (ze_Name f)"
  define target where "target = Join [abs_path ds, name]"
  show ?case
  proof (cases "name = ''.'' \<or> name = [] \<or> \<not> pathWithin (abs_path ds) target")
    case True
    then show ?thesis using Cons by (auto simp: Let_def name_def target_def)
  next
    case False
    then have us: "target = abs_path (root_words target)"
      by (simp add: target_def Join_two clean_words_rooted path_words_plain path_words_path_of real_list_plain assms)
    have t: "prefix ds (root_words target)" using False pathWithin_abs [of "abs_path ds" target] us assms
      by (metis IsAbs_abs_path root_words_abs_path)
    have d: "prefix ds (root_words (Dir target)) \<or> prefix (root_words (Dir target)) ds"
      by (subst (1 2) us) (use prefix_butlast [OF t] in \<open>simp add: root_words_Dir\<close>)
    have dir: "within ds fs (snd (unzip_all (abs_path ds) es fs1))" if "MkdirAll target fs = Some fs1" for fs1
      using within_trans [OF within_MkdirAll [OF that disjI1 [OF t]] Cons.IH] .
    have made: "within ds fs fs1" if "MkdirAll (Dir target) fs = Some fs1" for fs1 by (rule within_MkdirAll [OF that d])
    have written: "within ds fs1 (the (WriteFile target x fs2))" if w: "WriteFile target [] fs1 = Some fs2" for fs1 fs2 x
    proof -
      obtain fs3 where "WriteFile target x fs2 = Some fs3" using WriteFile_again [OF w] by blast
      then show ?thesis using within_trans within_WriteFile [OF w t] within_WriteFile [OF _ t] by auto
    qed
    show ?thesis
    proof (cases "ze_IsDir f")
      case True
      then show ?thesis using dir Cons.IH by (auto simp: Let_def name_def [symmetric] target_def [symmetric] split: option.splits)
    next
      case nodir: False
      show ?thesis
      proof (cases "MkdirAll (Dir target) fs")
        case None
        then show ?thesis using nodir False Cons.IH by (auto simp: Let_def name_def [symmetric] target_def [symmetric])
      next
        case (Some fs1)
        then show ?thesis using nodir False made [OF Some] Cons.IH within_trans [OF made [OF Some]] within_trans [OF made [OF Some] written] within_trans [OF within_trans [OF made [OF Some] written] Cons.IH]
          by (auto simp: Let_def name_def [symmetric] target_def [symmetric] split: option.splits)
      qed
    qed
  qed
qed simp


text \<open>
  What a client uploads becomes one file of the archive directory. Whatever name the upload carries:
  either the tree is as before, but for the directory itself, or one entry directly in the archive
  directory has changed, and an accepted upload leaves exactly the bytes that arrived there, where
  a download of that name finds them.
\<close>

lemma upload_is_one_archive:
  assumes "fs_ok fs" "IsAbs dataDir" and run: "handleArchiveUpload dataDir (Some (name, data, broken)) fs = (Reply p, fs')"
  shows "handleArchiveDownload dataDir name fs' = Content data \<and>
    (\<exists>n. p = abs_path (root_words (archiveDir dataDir) @ [n]) \<and>
      (\<forall>x. \<not> prefix x (root_words (archiveDir dataDir)) \<longrightarrow> x \<noteq> root_words (archiveDir dataDir) @ [n] \<longrightarrow> fmlookup fs' x = fmlookup fs x))"
proof -
  let ?a = "root_words (archiveDir dataDir)"
  obtain n f1 where n: "safeArchiveName name = Inr n" "MkdirAll (archiveDir dataDir) fs = Some f1" "p = Join [archiveDir dataDir, n]"
    "WriteFile p data f1 = Some fs'"
    using run by (auto simp: handleArchiveUpload_def Let_def split: sum.splits option.splits if_splits)
  note safe = safe_name [OF n(1)]
  have p: "p = abs_path (?a @ [n])" using archive_place [OF assms(2) safe(1)] n(3) by simp
  have pw: "root_words p = ?a @ [n]" using safe(1) by (simp add: p)
  have look: "fmlookup fs' x = (if x = ?a @ [n] then Some (FFile data) else if prefix x ?a then Some FDir else fmlookup fs x)" for x
    using put_file_lookup n(4) MkdirAll_lookup [OF n(2)] by (auto simp: WriteFile_def pw)
  have "pathWithin (archiveDir dataDir) p"
    using pathWithin_words [OF root_words_real, of "?a @ [n]" "archiveDir dataDir"] safe(1) archive_dir_path [OF assms(2)] p by simp
  moreover have "\<not> containsDotDot ''/api/container/archive''" "\<not> HasSuffix ''/api/container/archive'' ''/index.html''"
    "\<not> ends_slash ''/api/container/archive''" by code_simp+
  ultimately have "handleArchiveDownload dataDir name fs' = Content data"
    using look [of "?a @ [n]"] by (simp add: handleArchiveDownload_def n(1) Let_def n(3) [symmetric] ServeFile_def node_at_def pw)
  then show ?thesis using p look by auto
qed

subsection \<open>An example\<close>

definition a_tree :: "(string list \<times> fnode) list" where
  "a_tree = [([], FDir), ([''var''], FDir), ([''srv''], FDir), ([''srv'', ''empty''], FDir), ([''srv'', ''a.txt''], FFile ''hello'')]"

definition a_fs :: fs where
  "a_fs = fmap_of_list a_tree"

definition a_later :: fs where
  "a_later = fmap_of_list ([([''var'', ''archives''], FDir), ([''var'', ''archives'', ''srv_now.zip''], FFile ''PK''), ([''mnt''], FDir)] @ a_tree)"

definition a_zip :: zip_format where
  "a_zip = \<lparr>zf_write = (\<lambda>_. ''PK''),
     zf_read = (\<lambda>_. Some
       [\<lparr>ze_Name = ''a.txt'', ze_IsDir = False, ze_UncompressedSize64 = 5, ze_Open = Some [''hel'', ''lo''], ze_Err = False\<rparr>,
        \<lparr>ze_Name = ''empty/'', ze_IsDir = True, ze_UncompressedSize64 = 0, ze_Open = None, ze_Err = False\<rparr>]),
     zf_partial = []\<rparr>"

definition a_admin :: identity where
  "a_admin = \<lparr>id_username = ''root'', id_isAdmin = True, id_via = ''token''\<rparr>"

definition a_create :: "(string reply \<times> fs) option" where
  "a_create = handleArchiveCreate a_zip None ''/'' ''now'' ''/var'' (Some a_admin) (Some (''/srv'', [])) a_fs"

lemma a_facts:
  "map_option fst a_create = Some (Reply ''/var/archives/srv_now.zip'')"
  "ReadFile ''/var/archives/srv_now.zip'' (snd (the a_create)) = Some ''PK''"
  "archive_entries ''/srv'' [''srv''] a_fs = [(''a.txt'', ''hello''), (''empty/'', [])]"
  "ReadFile ''/var/archives/srv_now.zip'' a_later = Some ''PK''"
  by code_simp+

lemma a_ok: "fs_ok a_fs" "fs_ok a_later"
  unfolding a_fs_def a_later_def a_tree_def append.simps by (rule fs_ok_list; code_simp)+


text \<open>An archive that climbs out of its target is refused at that entry.\<close>

definition evil_zip :: zip_format where
  "evil_zip = \<lparr>zf_write = (\<lambda>_. ''PK''),
     zf_read = (\<lambda>_. Some
       [\<lparr>ze_Name = ''a.txt'', ze_IsDir = False, ze_UncompressedSize64 = 1, ze_Open = Some [''x''], ze_Err = False\<rparr>,
        \<lparr>ze_Name = ''b/../../srv/a.txt'', ze_IsDir = False, ze_UncompressedSize64 = 1, ze_Open = Some [''x''], ze_Err = False\<rparr>]),
     zf_partial = []\<rparr>"


end
