(* ===== verification/Config.thy ===== *)
theory Config
  imports FileSys StoreObjects Daemon
begin

text \<open>
  The options of the node (cmd/irix-node/config.go, embedded.go and the checks at the start of
  \<open>runNode\<close> in main.go): the configuration file, its merging with the command line, the checks of the
  result and what of it reaches the vault. A pointer of the code is an option; \<open>explicit\<close> tells which
  flags were given on the command line. The JSON text of the file is a parameter.
\<close>

subsection \<open>The configuration file\<close>

record TLSConfig =
  tc_Mode :: string
  tc_Cert :: string
  tc_Key :: string

record VaultConfig =
  vg_Enabled :: "bool option"
  vg_IdleTimeoutMinutes :: "int option"
  vg_MaxAttempts :: "int option"
  vg_LockoutMinutes :: "int option"
  vg_PBKDF2Iterations :: "int option"
  vg_PasswordMinLength :: "int option"
  vg_PasswordExpireDays :: "int option"
  vg_ForceExpire :: "bool option"
  vg_BindSessionIP :: "bool option"
  vg_BlockSizeKB :: "int option"
  vg_ScrubOnDelete :: "bool option"
  vg_DefaultFilesMode :: string

record AccountsConfig =
  ag_Driver :: string
  ag_DSN :: string
  ag_MaxOpen :: "int option"
  ag_MaxIdle :: "int option"
  ag_ConnMaxLifetimeMin :: "int option"
  ag_RedisAddr :: string
  ag_RedisPassword :: string
  ag_RedisDB :: int
  ag_RedisPoolSize :: "int option"

record Config =
  cg_Bind :: string
  cg_Port :: int
  cg_Data :: string
  cg_InstanceLog :: "bool option"
  cg_InstanceLogMax :: "int option"
  cg_AuditLog :: "bool option"
  cg_AuditLogMax :: "int option"
  cg_LoadTune :: "bool option"
  cg_LowResource :: "bool option"
  cg_LogBufferKB :: "int option"
  cg_LogLines :: "int option"
  cg_TransferAllowCIDR :: string
  cg_CorsOrigins :: string
  cg_TLS :: "TLSConfig option"
  cg_Vault :: "VaultConfig option"
  cg_Accounts :: "AccountsConfig option"

definition empty_config :: Config where
  "empty_config =
     \<lparr>cg_Bind = [], cg_Port = 0, cg_Data = [], cg_InstanceLog = None, cg_InstanceLogMax = None, cg_AuditLog = None,
      cg_AuditLogMax = None, cg_LoadTune = None, cg_LowResource = None, cg_LogBufferKB = None, cg_LogLines = None,
      cg_TransferAllowCIDR = [], cg_CorsOrigins = [], cg_TLS = None, cg_Vault = None, cg_Accounts = None\<rparr>"

text \<open>The result: whether a file was made, and whether that failed.\<close>

definition ensureConfigFile :: "string \<Rightarrow> string \<Rightarrow> fs \<Rightarrow> (bool \<times> bool) \<times> fs" where
  "ensureConfigFile example path fs =
     (if TrimSpace path = [] then ((False, False), fs)
      else if node_at fs path \<noteq> None then ((False, False), fs)
      else
        (case MkdirAll (Dir path) fs of
           None \<Rightarrow> ((False, True), fs)
         | Some fs \<Rightarrow>
           (case WriteFile path example fs of None \<Rightarrow> ((False, True), fs) | Some fs \<Rightarrow> ((True, False), fs))))"

text \<open>A path that leads through a file fails in another way than one that is not there.\<close>

definition under_file :: "fs \<Rightarrow> string \<Rightarrow> bool" where
  "under_file fs p = list_ex (\<lambda>q. case fmlookup fs q of Some (FFile _) \<Rightarrow> True | _ \<Rightarrow> False) (prefixes (root_words p))"

text \<open>\<open>decode\<close> reads the JSON text into the empty configuration. The result has whether a file was read.\<close>

definition loadConfigFile :: "(string \<Rightarrow> Config option) \<Rightarrow> string \<Rightarrow> fs \<Rightarrow> string + Config \<times> bool" where
  "loadConfigFile decode path fs =
     (if TrimSpace path = [] then Inr (empty_config, False)
      else
        (case node_at fs path of
           None \<Rightarrow> if under_file fs path then Inl ''cannot read the configuration file'' else Inr (empty_config, False)
         | Some FDir \<Rightarrow> Inl ''cannot read the configuration file''
         | Some (FFile data) \<Rightarrow>
             (case decode data of None \<Rightarrow> Inl ''cannot parse the configuration file'' | Some c \<Rightarrow> Inr (c, True))))"

subsection \<open>The options\<close>

record nodeOptions =
  no_Port :: int
  no_BindHost :: string
  no_DataDir :: string
  no_InstanceLog :: bool
  no_InstanceLogMax :: int
  no_AuditLog :: bool
  no_AuditLogMax :: int
  no_LoadTune :: bool
  no_LogBufferKB :: int
  no_LogLines :: int
  no_TransferAllowCIDR :: string
  no_CorsOrigins :: string
  no_TLSMode :: string
  no_TLSCert :: string
  no_TLSKey :: string
  no_VaultEnabled :: bool
  no_VaultIdleTimeout :: int
  no_VaultMaxAttempts :: int
  no_VaultLockoutMinutes :: int
  no_VaultPBKDF2Iterations :: int
  no_VaultPasswordMinLen :: int
  no_VaultPasswordExpire :: int
  no_VaultForceExpire :: bool
  no_VaultBindSessionIP :: bool
  no_VaultBlockSizeKB :: int
  no_VaultScrubOnDelete :: bool
  no_VaultDefaultFilesMode :: string
  no_AccountsDriver :: string
  no_AccountsDSN :: string
  no_AccountsMaxOpen :: int
  no_AccountsMaxIdle :: int
  no_AccountsConnMaxLifetimeMin :: int
  no_RedisAddr :: string
  no_RedisPassword :: string
  no_RedisDB :: int
  no_RedisPoolSize :: int

text \<open>The defaults of the flags; the fields without a flag are zero.\<close>

definition flag_defaults :: nodeOptions where
  "flag_defaults =
     \<lparr>no_Port = 12346, no_BindHost = [], no_DataDir = [], no_InstanceLog = True, no_InstanceLogMax = 64, no_AuditLog = True,
      no_AuditLogMax = 64, no_LoadTune = True, no_LogBufferKB = 0, no_LogLines = 0, no_TransferAllowCIDR = [],
      no_CorsOrigins = [], no_TLSMode = ''off'', no_TLSCert = [], no_TLSKey = [], no_VaultEnabled = False,
      no_VaultIdleTimeout = 30, no_VaultMaxAttempts = 5, no_VaultLockoutMinutes = 15, no_VaultPBKDF2Iterations = 0,
      no_VaultPasswordMinLen = 12, no_VaultPasswordExpire = 90, no_VaultForceExpire = False, no_VaultBindSessionIP = False,
      no_VaultBlockSizeKB = 1024, no_VaultScrubOnDelete = False, no_VaultDefaultFilesMode = ''plaintext'',
      no_AccountsDriver = ''sqlite'', no_AccountsDSN = [], no_AccountsMaxOpen = 0, no_AccountsMaxIdle = 0,
      no_AccountsConnMaxLifetimeMin = 0, no_RedisAddr = [], no_RedisPassword = [], no_RedisDB = 0, no_RedisPoolSize = 0\<rparr>"

text \<open>An assignment under a condition, and assignments one after the other.\<close>

definition put :: "bool \<Rightarrow> (('v \<Rightarrow> 'v) \<Rightarrow> nodeOptions \<Rightarrow> nodeOptions) \<Rightarrow> 'v \<Rightarrow> nodeOptions \<Rightarrow> nodeOptions" where
  "put c upd v n = (if c then upd (\<lambda>_. v) n else n)"

definition in_order :: "(nodeOptions \<Rightarrow> nodeOptions) list \<Rightarrow> nodeOptions \<Rightarrow> nodeOptions" where
  "in_order = fold (\<lambda>f. f)"

definition apply_top :: "Config \<Rightarrow> (string \<Rightarrow> bool) \<Rightarrow> nodeOptions \<Rightarrow> nodeOptions" where
  "apply_top c explicit = in_order
     [put (\<not> explicit ''port'' \<and> cg_Port c \<noteq> 0) no_Port_update (cg_Port c),
      put (\<not> explicit ''bind'' \<and> cg_Bind c \<noteq> []) no_BindHost_update (cg_Bind c),
      put (\<not> explicit ''data'' \<and> cg_Data c \<noteq> []) no_DataDir_update (cg_Data c),
      put (\<not> explicit ''instance-log'' \<and> cg_InstanceLog c \<noteq> None) no_InstanceLog_update (the (cg_InstanceLog c)),
      put (\<not> explicit ''instance-log-max'' \<and> cg_InstanceLogMax c \<noteq> None) no_InstanceLogMax_update (the (cg_InstanceLogMax c)),
      put (\<not> explicit ''audit-log'' \<and> cg_AuditLog c \<noteq> None) no_AuditLog_update (the (cg_AuditLog c)),
      put (\<not> explicit ''audit-log-max'' \<and> cg_AuditLogMax c \<noteq> None) no_AuditLogMax_update (the (cg_AuditLogMax c)),
      put (\<not> explicit ''load-tune'' \<and> cg_LoadTune c \<noteq> None) no_LoadTune_update (the (cg_LoadTune c)),
      put (\<not> explicit ''log-buffer-kb'' \<and> cg_LogBufferKB c \<noteq> None) no_LogBufferKB_update (the (cg_LogBufferKB c)),
      put (\<not> explicit ''log-lines'' \<and> cg_LogLines c \<noteq> None) no_LogLines_update (the (cg_LogLines c)),
      put (\<not> explicit ''transfer-allow-cidr'' \<and> cg_TransferAllowCIDR c \<noteq> []) no_TransferAllowCIDR_update (cg_TransferAllowCIDR c),
      put (\<not> explicit ''cors-origins'' \<and> cg_CorsOrigins c \<noteq> []) no_CorsOrigins_update (cg_CorsOrigins c)]"

definition apply_tls :: "TLSConfig \<Rightarrow> (string \<Rightarrow> bool) \<Rightarrow> nodeOptions \<Rightarrow> nodeOptions" where
  "apply_tls t explicit = in_order
     [put (\<not> explicit ''tls-mode'' \<and> tc_Mode t \<noteq> []) no_TLSMode_update (tc_Mode t),
      put (\<not> explicit ''tls-cert'' \<and> tc_Cert t \<noteq> []) no_TLSCert_update (tc_Cert t),
      put (\<not> explicit ''tls-key'' \<and> tc_Key t \<noteq> []) no_TLSKey_update (tc_Key t)]"

definition apply_vault :: "VaultConfig \<Rightarrow> (string \<Rightarrow> bool) \<Rightarrow> nodeOptions \<Rightarrow> nodeOptions" where
  "apply_vault v explicit = in_order
     [put (\<not> explicit ''vault'' \<and> vg_Enabled v \<noteq> None) no_VaultEnabled_update (the (vg_Enabled v)),
      put (\<not> explicit ''vault-idle-timeout'' \<and> vg_IdleTimeoutMinutes v \<noteq> None) no_VaultIdleTimeout_update (the (vg_IdleTimeoutMinutes v)),
      put (\<not> explicit ''vault-max-attempts'' \<and> vg_MaxAttempts v \<noteq> None) no_VaultMaxAttempts_update (the (vg_MaxAttempts v)),
      put (\<not> explicit ''vault-lockout-minutes'' \<and> vg_LockoutMinutes v \<noteq> None) no_VaultLockoutMinutes_update (the (vg_LockoutMinutes v)),
      put (\<not> explicit ''vault-pbkdf2-iterations'' \<and> vg_PBKDF2Iterations v \<noteq> None) no_VaultPBKDF2Iterations_update (the (vg_PBKDF2Iterations v)),
      put (\<not> explicit ''vault-password-min-length'' \<and> vg_PasswordMinLength v \<noteq> None) no_VaultPasswordMinLen_update (the (vg_PasswordMinLength v)),
      put (\<not> explicit ''vault-password-expire-days'' \<and> vg_PasswordExpireDays v \<noteq> None) no_VaultPasswordExpire_update (the (vg_PasswordExpireDays v)),
      put (\<not> explicit ''vault-force-expire'' \<and> vg_ForceExpire v \<noteq> None) no_VaultForceExpire_update (the (vg_ForceExpire v)),
      put (\<not> explicit ''vault-bind-session-ip'' \<and> vg_BindSessionIP v \<noteq> None) no_VaultBindSessionIP_update (the (vg_BindSessionIP v)),
      put (\<not> explicit ''vault-block-size-kb'' \<and> vg_BlockSizeKB v \<noteq> None) no_VaultBlockSizeKB_update (the (vg_BlockSizeKB v)),
      put (\<not> explicit ''vault-scrub-on-delete'' \<and> vg_ScrubOnDelete v \<noteq> None) no_VaultScrubOnDelete_update (the (vg_ScrubOnDelete v)),
      put (\<not> explicit ''vault-default-files-mode'' \<and> vg_DefaultFilesMode v \<noteq> []) no_VaultDefaultFilesMode_update (vg_DefaultFilesMode v)]"

definition apply_accounts :: "AccountsConfig \<Rightarrow> (string \<Rightarrow> bool) \<Rightarrow> nodeOptions \<Rightarrow> nodeOptions" where
  "apply_accounts a explicit = in_order
     [put (\<not> explicit ''accounts-driver'' \<and> ag_Driver a \<noteq> []) no_AccountsDriver_update (ag_Driver a),
      put (\<not> explicit ''accounts-dsn'' \<and> ag_DSN a \<noteq> []) no_AccountsDSN_update (ag_DSN a),
      put (ag_MaxOpen a \<noteq> None) no_AccountsMaxOpen_update (the (ag_MaxOpen a)),
      put (ag_MaxIdle a \<noteq> None) no_AccountsMaxIdle_update (the (ag_MaxIdle a)),
      put (ag_ConnMaxLifetimeMin a \<noteq> None) no_AccountsConnMaxLifetimeMin_update (the (ag_ConnMaxLifetimeMin a)),
      put (\<not> explicit ''redis-addr'' \<and> ag_RedisAddr a \<noteq> []) no_RedisAddr_update (ag_RedisAddr a),
      put (\<not> explicit ''redis-password'' \<and> ag_RedisPassword a \<noteq> []) no_RedisPassword_update (ag_RedisPassword a),
      put (\<not> explicit ''redis-db'' \<and> ag_RedisDB a \<noteq> 0) no_RedisDB_update (ag_RedisDB a),
      put (ag_RedisPoolSize a \<noteq> None) no_RedisPoolSize_update (the (ag_RedisPoolSize a))]"

definition applyConfig :: "Config option \<Rightarrow> (string \<Rightarrow> bool) \<Rightarrow> nodeOptions \<Rightarrow> nodeOptions" where
  "applyConfig cfg explicit n =
     (case cfg of
        None \<Rightarrow> n
      | Some c \<Rightarrow>
          let n = apply_top c explicit n;
              n = (case cg_TLS c of None \<Rightarrow> n | Some t \<Rightarrow> apply_tls t explicit n);
              n = (case cg_Vault c of None \<Rightarrow> n | Some v \<Rightarrow> apply_vault v explicit n) in
          (case cg_Accounts c of None \<Rightarrow> n | Some a \<Rightarrow> apply_accounts a explicit n))"

subsection \<open>Small machines\<close>

definition embeddedMaxCPU :: int where "embeddedMaxCPU = 2"
definition embeddedMaxMemBytes :: int where "embeddedMaxMemBytes = 512 * 1024 * 1024"

record embeddedProfile =
  ep_enabled :: bool
  ep_cpu :: int
  ep_mem :: int
  ep_reason :: string

definition detectEmbedded :: "int \<Rightarrow> int \<Rightarrow> embeddedProfile" where
  "detectEmbedded cpu mem =
     (let reason = (if cpu \<le> embeddedMaxCPU then ''few cores''
                    else if mem > 0 \<and> mem \<le> embeddedMaxMemBytes then ''little memory'' else []) in
      \<lparr>ep_enabled = (reason \<noteq> []), ep_cpu = cpu, ep_mem = mem, ep_reason = reason\<rparr>)"

definition applyLowResourceOverride :: "bool option \<Rightarrow> embeddedProfile \<Rightarrow> embeddedProfile" where
  "applyLowResourceOverride forced p =
     (case forced of
        None \<Rightarrow> p
      | Some True \<Rightarrow> p\<lparr>ep_enabled := True, ep_reason := (if ep_reason p = [] then ''explicit -low-resource'' else ep_reason p)\<rparr>
      | Some False \<Rightarrow> p\<lparr>ep_enabled := False, ep_reason := ''explicitly off''\<rparr>)"

definition low_resource_forced :: "(string \<Rightarrow> bool) \<Rightarrow> bool \<Rightarrow> Config \<Rightarrow> bool option" where
  "low_resource_forced explicit flag c = (if explicit ''low-resource'' then Some flag else cg_LowResource c)"

definition hasHardwareSHA :: "string \<Rightarrow> bool" where
  "hasHardwareSHA arch = (arch \<in> {''arm64'', ''amd64'', ''s390x'', ''ppc64le''})"

definition defaultPBKDF2ForPlatform :: "string \<Rightarrow> int" where
  "defaultPBKDF2ForPlatform arch = (if hasHardwareSHA arch then 600000 else 100000)"

subsection \<open>The checks at the start\<close>

text \<open>The checks of \<open>runNode\<close> in their order, up to the data directory: the first complaint.\<close>

definition checkOptions :: "nodeOptions \<Rightarrow> string option" where
  "checkOptions n =
     (if no_Port n \<le> 0 \<or> no_Port n > 65535 then Some ''bad port''
      else if no_InstanceLogMax n < 1 \<or> no_AuditLogMax n < 1 then Some ''bad rotation limit''
      else if no_TLSMode n \<notin> {''off'', ''auto'', ''manual''} then Some ''bad tls-mode''
      else if no_TLSMode n = ''manual'' \<and> (no_TLSCert n = [] \<or> no_TLSKey n = []) then Some ''manual needs tls-cert and tls-key''
      else if no_VaultEnabled n \<and> no_TLSMode n = ''off'' then Some ''the vault needs TLS''
      else if \<not> no_VaultEnabled n then None
      else if no_VaultIdleTimeout n < 1 then Some ''bad vault-idle-timeout''
      else if no_VaultMaxAttempts n < 1 then Some ''bad vault-max-attempts''
      else if no_VaultLockoutMinutes n < 1 then Some ''bad vault-lockout-minutes''
      else if no_VaultPBKDF2Iterations n < 10000 then Some ''bad vault-pbkdf2-iterations''
      else if no_VaultPasswordMinLen n < 1 then Some ''bad vault-password-min-length''
      else if no_VaultPasswordExpire n < 0 then Some ''bad vault-password-expire-days''
      else if no_VaultBlockSizeKB n < 1 \<or> no_VaultBlockSizeKB n > 65536 then Some ''bad vault-block-size-kb''
      else if no_VaultDefaultFilesMode n \<notin> {''plaintext'', ''materialize''} then Some ''bad vault-default-files-mode''
      else None)"

definition resolveBind :: "string \<Rightarrow> string \<Rightarrow> string" where
  "resolveBind flagValue envValue =
     (if TrimSpace flagValue \<noteq> [] then TrimSpace flagValue
      else if EqualFold (TrimSpace envValue) ''1'' then ''0.0.0.0''
      else ''127.0.0.1'')"

subsection \<open>What reaches the vault\<close>

text \<open>The settings of \<open>vaultState\<close>, with times in nanoseconds, and the block size of its store.\<close>

record vaultSettings =
  st_enabled :: bool
  st_idleTimeout :: int
  st_maxAttempts :: int
  st_lockoutDuration :: int
  st_pbkdf2Iterations :: int
  st_passwordMinLen :: int
  st_passwordExpire :: int
  st_forceExpire :: bool
  st_bindSessionIP :: bool
  st_scrubOnDelete :: bool
  st_blockSizeKB :: int
  st_defaultFilesMode :: string
  st_storeBlock :: int

definition newVaultSettings :: "string \<Rightarrow> vaultSettings" where
  "newVaultSettings arch =
     \<lparr>st_enabled = False, st_idleTimeout = 30 * 60 * 10 ^ 9, st_maxAttempts = 5, st_lockoutDuration = 15 * 60 * 10 ^ 9,
      st_pbkdf2Iterations = defaultPBKDF2ForPlatform arch, st_passwordMinLen = 12, st_passwordExpire = 90 * 24 * 3600 * 10 ^ 9,
      st_forceExpire = False, st_bindSessionIP = False, st_scrubOnDelete = False, st_blockSizeKB = 1024,
      st_defaultFilesMode = ''plaintext'', st_storeBlock = 1024 * 1024\<rparr>"

definition configure_vault :: "(string \<Rightarrow> bool) \<Rightarrow> nodeOptions \<Rightarrow> vaultSettings \<Rightarrow> vaultSettings" where
  "configure_vault explicit n s =
     (if \<not> no_VaultEnabled n then s
      else
        let s = s\<lparr>st_enabled := True, st_idleTimeout := wrap64 (no_VaultIdleTimeout n * (60 * 10 ^ 9)),
              st_maxAttempts := no_VaultMaxAttempts n, st_lockoutDuration := wrap64 (no_VaultLockoutMinutes n * (60 * 10 ^ 9))\<rparr>;
            s = (if explicit ''vault-pbkdf2-iterations'' then s\<lparr>st_pbkdf2Iterations := no_VaultPBKDF2Iterations n\<rparr> else s);
            s = s\<lparr>st_passwordMinLen := no_VaultPasswordMinLen n, st_passwordExpire := wrap64 (wrap64 (no_VaultPasswordExpire n * 24) * (3600 * 10 ^ 9)),
              st_forceExpire := no_VaultForceExpire n, st_bindSessionIP := no_VaultBindSessionIP n,
              st_scrubOnDelete := no_VaultScrubOnDelete n, st_defaultFilesMode := no_VaultDefaultFilesMode n\<rparr> in
        if no_VaultBlockSizeKB n \<noteq> 0
        then s\<lparr>st_blockSizeKB := no_VaultBlockSizeKB n, st_storeBlock := no_VaultBlockSizeKB n * 1024\<rparr> else s)"

text \<open>The start up to the vault: a complaint, or the options and the settings of the vault.\<close>

definition startup ::
  "(string \<Rightarrow> Config option) \<Rightarrow> string \<Rightarrow> string \<Rightarrow> string \<Rightarrow> (string \<Rightarrow> bool) \<Rightarrow> nodeOptions \<Rightarrow> fs \<Rightarrow>
   (string + nodeOptions \<times> vaultSettings) \<times> fs" where
  "startup decode example arch path explicit flags fs =
     (case ensureConfigFile example path fs of
        (_, fs) \<Rightarrow>
          (case loadConfigFile decode path fs of
             Inl e \<Rightarrow> (Inl e, fs)
           | Inr (cfg, _) \<Rightarrow>
               let n = applyConfig (Some cfg) explicit flags in
               (case checkOptions n of
                  Some e \<Rightarrow> (Inl e, fs)
                | None \<Rightarrow> (Inr (n, configure_vault explicit n (newVaultSettings arch)), fs))))"

subsection \<open>Merging\<close>

text \<open>The merge field by field: what the command line says, else what the file says, else the default.\<close>

definition preferred :: "bool \<Rightarrow> 'v option \<Rightarrow> 'v \<Rightarrow> 'v" where
  "preferred e c d = (if e then d else case c of None \<Rightarrow> d | Some v \<Rightarrow> v)"

definition given_text :: "string \<Rightarrow> string option" where
  "given_text s = (if s = [] then None else Some s)"

definition given_int :: "int \<Rightarrow> int option" where
  "given_int k = (if k = 0 then None else Some k)"

definition merged :: "Config \<Rightarrow> (string \<Rightarrow> bool) \<Rightarrow> nodeOptions \<Rightarrow> nodeOptions" where
  "merged c explicit n =
     \<lparr>no_Port = preferred (explicit ''port'') (given_int (cg_Port c)) (no_Port n),
      no_BindHost = preferred (explicit ''bind'') (given_text (cg_Bind c)) (no_BindHost n),
      no_DataDir = preferred (explicit ''data'') (given_text (cg_Data c)) (no_DataDir n),
      no_InstanceLog = preferred (explicit ''instance-log'') (cg_InstanceLog c) (no_InstanceLog n),
      no_InstanceLogMax = preferred (explicit ''instance-log-max'') (cg_InstanceLogMax c) (no_InstanceLogMax n),
      no_AuditLog = preferred (explicit ''audit-log'') (cg_AuditLog c) (no_AuditLog n),
      no_AuditLogMax = preferred (explicit ''audit-log-max'') (cg_AuditLogMax c) (no_AuditLogMax n),
      no_LoadTune = preferred (explicit ''load-tune'') (cg_LoadTune c) (no_LoadTune n),
      no_LogBufferKB = preferred (explicit ''log-buffer-kb'') (cg_LogBufferKB c) (no_LogBufferKB n),
      no_LogLines = preferred (explicit ''log-lines'') (cg_LogLines c) (no_LogLines n),
      no_TransferAllowCIDR = preferred (explicit ''transfer-allow-cidr'') (given_text (cg_TransferAllowCIDR c)) (no_TransferAllowCIDR n),
      no_CorsOrigins = preferred (explicit ''cors-origins'') (given_text (cg_CorsOrigins c)) (no_CorsOrigins n),
      no_TLSMode = preferred (explicit ''tls-mode'') (Option.bind (cg_TLS c) (\<lambda>x. given_text (tc_Mode x))) (no_TLSMode n),
      no_TLSCert = preferred (explicit ''tls-cert'') (Option.bind (cg_TLS c) (\<lambda>x. given_text (tc_Cert x))) (no_TLSCert n),
      no_TLSKey = preferred (explicit ''tls-key'') (Option.bind (cg_TLS c) (\<lambda>x. given_text (tc_Key x))) (no_TLSKey n),
      no_VaultEnabled = preferred (explicit ''vault'') (Option.bind (cg_Vault c) vg_Enabled) (no_VaultEnabled n),
      no_VaultIdleTimeout = preferred (explicit ''vault-idle-timeout'') (Option.bind (cg_Vault c) vg_IdleTimeoutMinutes) (no_VaultIdleTimeout n),
      no_VaultMaxAttempts = preferred (explicit ''vault-max-attempts'') (Option.bind (cg_Vault c) vg_MaxAttempts) (no_VaultMaxAttempts n),
      no_VaultLockoutMinutes = preferred (explicit ''vault-lockout-minutes'') (Option.bind (cg_Vault c) vg_LockoutMinutes) (no_VaultLockoutMinutes n),
      no_VaultPBKDF2Iterations = preferred (explicit ''vault-pbkdf2-iterations'') (Option.bind (cg_Vault c) vg_PBKDF2Iterations) (no_VaultPBKDF2Iterations n),
      no_VaultPasswordMinLen = preferred (explicit ''vault-password-min-length'') (Option.bind (cg_Vault c) vg_PasswordMinLength) (no_VaultPasswordMinLen n),
      no_VaultPasswordExpire = preferred (explicit ''vault-password-expire-days'') (Option.bind (cg_Vault c) vg_PasswordExpireDays) (no_VaultPasswordExpire n),
      no_VaultForceExpire = preferred (explicit ''vault-force-expire'') (Option.bind (cg_Vault c) vg_ForceExpire) (no_VaultForceExpire n),
      no_VaultBindSessionIP = preferred (explicit ''vault-bind-session-ip'') (Option.bind (cg_Vault c) vg_BindSessionIP) (no_VaultBindSessionIP n),
      no_VaultBlockSizeKB = preferred (explicit ''vault-block-size-kb'') (Option.bind (cg_Vault c) vg_BlockSizeKB) (no_VaultBlockSizeKB n),
      no_VaultScrubOnDelete = preferred (explicit ''vault-scrub-on-delete'') (Option.bind (cg_Vault c) vg_ScrubOnDelete) (no_VaultScrubOnDelete n),
      no_VaultDefaultFilesMode = preferred (explicit ''vault-default-files-mode'') (Option.bind (cg_Vault c) (\<lambda>x. given_text (vg_DefaultFilesMode x))) (no_VaultDefaultFilesMode n),
      no_AccountsDriver = preferred (explicit ''accounts-driver'') (Option.bind (cg_Accounts c) (\<lambda>x. given_text (ag_Driver x))) (no_AccountsDriver n),
      no_AccountsDSN = preferred (explicit ''accounts-dsn'') (Option.bind (cg_Accounts c) (\<lambda>x. given_text (ag_DSN x))) (no_AccountsDSN n),
      no_AccountsMaxOpen = preferred (False) (Option.bind (cg_Accounts c) ag_MaxOpen) (no_AccountsMaxOpen n),
      no_AccountsMaxIdle = preferred (False) (Option.bind (cg_Accounts c) ag_MaxIdle) (no_AccountsMaxIdle n),
      no_AccountsConnMaxLifetimeMin = preferred (False) (Option.bind (cg_Accounts c) ag_ConnMaxLifetimeMin) (no_AccountsConnMaxLifetimeMin n),
      no_RedisAddr = preferred (explicit ''redis-addr'') (Option.bind (cg_Accounts c) (\<lambda>x. given_text (ag_RedisAddr x))) (no_RedisAddr n),
      no_RedisPassword = preferred (explicit ''redis-password'') (Option.bind (cg_Accounts c) (\<lambda>x. given_text (ag_RedisPassword x))) (no_RedisPassword n),
      no_RedisDB = preferred (explicit ''redis-db'') (Option.bind (cg_Accounts c) (\<lambda>x. given_int (ag_RedisDB x))) (no_RedisDB n),
      no_RedisPoolSize = preferred (False) (Option.bind (cg_Accounts c) ag_RedisPoolSize) (no_RedisPoolSize n)\<rparr>"

lemma put_hit: "(\<And>f n. sel (upd f n) = f (sel n)) \<Longrightarrow> sel (put c upd v n) = (if c then v else sel n)"
  by (simp add: put_def)

lemma put_miss: "(\<And>n. sel (upd (\<lambda>_. v) n) = sel n) \<Longrightarrow> sel (put c upd v n) = sel n"
  by (simp add: put_def)

lemmas put_hits = put_hit [of no_Port no_Port_update] put_hit [of no_BindHost no_BindHost_update]
    put_hit [of no_DataDir no_DataDir_update] put_hit [of no_InstanceLog no_InstanceLog_update]
    put_hit [of no_InstanceLogMax no_InstanceLogMax_update] put_hit [of no_AuditLog no_AuditLog_update]
    put_hit [of no_AuditLogMax no_AuditLogMax_update] put_hit [of no_LoadTune no_LoadTune_update]
    put_hit [of no_LogBufferKB no_LogBufferKB_update] put_hit [of no_LogLines no_LogLines_update]
    put_hit [of no_TransferAllowCIDR no_TransferAllowCIDR_update]
    put_hit [of no_CorsOrigins no_CorsOrigins_update] put_hit [of no_TLSMode no_TLSMode_update]
    put_hit [of no_TLSCert no_TLSCert_update] put_hit [of no_TLSKey no_TLSKey_update]
    put_hit [of no_VaultEnabled no_VaultEnabled_update]
    put_hit [of no_VaultIdleTimeout no_VaultIdleTimeout_update]
    put_hit [of no_VaultMaxAttempts no_VaultMaxAttempts_update]
    put_hit [of no_VaultLockoutMinutes no_VaultLockoutMinutes_update]
    put_hit [of no_VaultPBKDF2Iterations no_VaultPBKDF2Iterations_update]
    put_hit [of no_VaultPasswordMinLen no_VaultPasswordMinLen_update]
    put_hit [of no_VaultPasswordExpire no_VaultPasswordExpire_update]
    put_hit [of no_VaultForceExpire no_VaultForceExpire_update]
    put_hit [of no_VaultBindSessionIP no_VaultBindSessionIP_update]
    put_hit [of no_VaultBlockSizeKB no_VaultBlockSizeKB_update]
    put_hit [of no_VaultScrubOnDelete no_VaultScrubOnDelete_update]
    put_hit [of no_VaultDefaultFilesMode no_VaultDefaultFilesMode_update]
    put_hit [of no_AccountsDriver no_AccountsDriver_update]
    put_hit [of no_AccountsDSN no_AccountsDSN_update]
    put_hit [of no_AccountsMaxOpen no_AccountsMaxOpen_update]
    put_hit [of no_AccountsMaxIdle no_AccountsMaxIdle_update]
    put_hit [of no_AccountsConnMaxLifetimeMin no_AccountsConnMaxLifetimeMin_update]
    put_hit [of no_RedisAddr no_RedisAddr_update] put_hit [of no_RedisPassword no_RedisPassword_update]
    put_hit [of no_RedisDB no_RedisDB_update] put_hit [of no_RedisPoolSize no_RedisPoolSize_update]

lemmas put_misses = put_miss [where sel = no_Port] put_miss [where sel = no_BindHost] put_miss [where sel = no_DataDir]
    put_miss [where sel = no_InstanceLog] put_miss [where sel = no_InstanceLogMax]
    put_miss [where sel = no_AuditLog] put_miss [where sel = no_AuditLogMax]
    put_miss [where sel = no_LoadTune] put_miss [where sel = no_LogBufferKB]
    put_miss [where sel = no_LogLines] put_miss [where sel = no_TransferAllowCIDR]
    put_miss [where sel = no_CorsOrigins] put_miss [where sel = no_TLSMode]
    put_miss [where sel = no_TLSCert] put_miss [where sel = no_TLSKey]
    put_miss [where sel = no_VaultEnabled] put_miss [where sel = no_VaultIdleTimeout]
    put_miss [where sel = no_VaultMaxAttempts] put_miss [where sel = no_VaultLockoutMinutes]
    put_miss [where sel = no_VaultPBKDF2Iterations] put_miss [where sel = no_VaultPasswordMinLen]
    put_miss [where sel = no_VaultPasswordExpire] put_miss [where sel = no_VaultForceExpire]
    put_miss [where sel = no_VaultBindSessionIP] put_miss [where sel = no_VaultBlockSizeKB]
    put_miss [where sel = no_VaultScrubOnDelete] put_miss [where sel = no_VaultDefaultFilesMode]
    put_miss [where sel = no_AccountsDriver] put_miss [where sel = no_AccountsDSN]
    put_miss [where sel = no_AccountsMaxOpen] put_miss [where sel = no_AccountsMaxIdle]
    put_miss [where sel = no_AccountsConnMaxLifetimeMin] put_miss [where sel = no_RedisAddr]
    put_miss [where sel = no_RedisPassword] put_miss [where sel = no_RedisDB]
    put_miss [where sel = no_RedisPoolSize]

lemma apply_is_merged: "applyConfig (Some c) explicit n = merged c explicit n"
proof -
  note defs = applyConfig_def apply_top_def apply_tls_def apply_vault_def apply_accounts_def in_order_def Let_def
  note prefs = preferred_def given_text_def given_int_def
  show ?thesis
    by (cases "cg_TLS c"; cases "cg_Vault c"; cases "cg_Accounts c"; rule nodeOptions.equality)
      (simp_all add: defs merged_def put_hits put_misses prefs option.case_eq_if)
qed

subsection \<open>What an accepted start guarantees\<close>

lemma startup_accepted:
  assumes "startup decode example arch path explicit flags fs = (Inr (n, s), fs')"
  shows "\<exists>c loaded. loadConfigFile decode path fs' = Inr (c, loaded) \<and> fs' = snd (ensureConfigFile example path fs) \<and>
    n = merged c explicit flags \<and> checkOptions n = None \<and> s = configure_vault explicit n (newVaultSettings arch)"
  using assms by (auto simp: startup_def Let_def apply_is_merged split: prod.splits sum.splits option.splits)

lemma blocks_small: "1024 \<le> B \<Longrightarrow> length data < 2 ^ 41 \<Longrightarrow> blocks_for B data < 2 ^ 32"
proof -
  assume a: "1024 \<le> B" "length data < 2 ^ 41"
  have "(length data + B - 1) div B \<le> (length data + B) div B" by (rule div_le_mono) simp
  also have "\<dots> = length data div B + 1" using a(1) by simp
  also have "length data div B \<le> length data div 1024" using a(1) by (intro div_le_mono2) simp_all
  finally have "(length data + B - 1) div B \<le> length data div 1024 + 1" by simp
  moreover have "length data div 1024 < 2 ^ 31" using a(2) by (intro less_mult_imp_div_less) simp
  ultimately show ?thesis by (auto simp: blocks_for_def Let_def)
qed

text \<open>
  C37. An accepted start is a safe one. If the checks at the start let the options through, whatever the
  command line and the file say: a file that was there is as it was, the port is a port, and with the
  vault on the connections are encrypted, the passwords are stretched by at least 10000 iterations,
  failures are counted to a limit, and the store gets a block size that every file below 2 TiB fits.
\<close>

theorem accepted_start_is_safe:
  assumes run: "startup decode example arch path explicit flags fs = (Inr (n, s), fs')"
  shows "(node_at fs path \<noteq> None \<longrightarrow> fs' = fs) \<and> 1 \<le> no_Port n \<and> no_Port n \<le> 65535 \<and> st_enabled s = no_VaultEnabled n \<and>
    (st_enabled s \<longrightarrow> no_TLSMode n \<in> {''auto'', ''manual''} \<and> 10000 \<le> st_pbkdf2Iterations s \<and> 1 \<le> st_maxAttempts s \<and>
       1 \<le> st_passwordMinLen s \<and> (\<forall>data. length data < 2 ^ 41 \<longrightarrow> fits (nat (st_storeBlock s)) data))"
proof -
  obtain c loaded where a: "fs' = snd (ensureConfigFile example path fs)" "checkOptions n = None"
    "s = configure_vault explicit n (newVaultSettings arch)" using startup_accepted [OF run] by (elim exE conjE)
  note check = a(2) [unfolded checkOptions_def]
  have "node_at fs path \<noteq> None \<longrightarrow> fs' = fs" by (simp add: a(1) ensureConfigFile_def)
  moreover have "1 \<le> no_Port n" "no_Port n \<le> 65535" using check by (simp_all split: if_splits)
  moreover have "st_enabled s = no_VaultEnabled n" by (simp add: a(3) configure_vault_def newVaultSettings_def Let_def)
  moreover have "no_TLSMode n \<in> {''auto'', ''manual''} \<and> 10000 \<le> st_pbkdf2Iterations s \<and> 1 \<le> st_maxAttempts s \<and>
       1 \<le> st_passwordMinLen s \<and> (\<forall>data. length data < 2 ^ 41 \<longrightarrow> fits (nat (st_storeBlock s)) data)" if v: "no_VaultEnabled n"
  proof -
    have ok: "no_TLSMode n \<in> {''off'', ''auto'', ''manual''}" "no_TLSMode n \<noteq> ''off''" "1 \<le> no_VaultMaxAttempts n"
      "10000 \<le> no_VaultPBKDF2Iterations n" "1 \<le> no_VaultPasswordMinLen n" "1 \<le> no_VaultBlockSizeKB n" "no_VaultBlockSizeKB n \<le> 65536"
      using check v by (auto split: if_splits)
    have s: "st_pbkdf2Iterations s \<in> {no_VaultPBKDF2Iterations n, defaultPBKDF2ForPlatform arch}" "st_maxAttempts s = no_VaultMaxAttempts n"
      "st_passwordMinLen s = no_VaultPasswordMinLen n" "st_storeBlock s = no_VaultBlockSizeKB n * 1024"
      using v ok(6) by (simp_all add: a(3) configure_vault_def newVaultSettings_def Let_def)
    have "fits (nat (st_storeBlock s)) data" if "length data < 2 ^ 41" for data
      using ok(6,7) s(4) blocks_small [OF _ that, of "nat (st_storeBlock s)"] by (auto simp: fits_def)
    then show ?thesis using ok s by (auto simp: defaultPBKDF2ForPlatform_def)
  qed
  ultimately show ?thesis by simp
qed

text \<open>
  C38. The iterations of the vault come from the command line only. Where the flag is not given, the node
  starts with the vault on only if the configuration file sets the iterations, as otherwise the default
  of 0 is refused, and then their number is not used: the vault works with the default of the platform.
\<close>

theorem vault_iterations_by_flag_only:
  assumes run: "startup decode example arch path explicit flags fs = (Inr (n, s), fs')"
    and on: "no_VaultEnabled n" "\<not> explicit ''vault-pbkdf2-iterations''" "no_VaultPBKDF2Iterations flags = 0"
  shows "st_pbkdf2Iterations s = defaultPBKDF2ForPlatform arch \<and>
    (\<exists>c v k. loadConfigFile decode path fs' = Inr (c, True) \<and> cg_Vault c = Some v \<and> vg_PBKDF2Iterations v = Some k \<and> 10000 \<le> k)"
proof -
  obtain c loaded where a: "loadConfigFile decode path fs' = Inr (c, loaded)" "n = merged c explicit flags" "checkOptions n = None"
    "s = configure_vault explicit n (newVaultSettings arch)" using startup_accepted [OF run] by (elim exE conjE)
  have "10000 \<le> no_VaultPBKDF2Iterations n" using a(3) on(1) by (auto simp: checkOptions_def split: if_splits)
  then obtain v k where k: "cg_Vault c = Some v" "vg_PBKDF2Iterations v = Some k" "10000 \<le> k"
    using on(2,3) by (auto simp: a(2) merged_def preferred_def split: option.splits Option.bind_splits)
  moreover have "loaded"
    using a(1) k(1) by (auto simp: loadConfigFile_def empty_config_def split: if_splits option.splits fnode.splits)
  moreover have "st_pbkdf2Iterations s = defaultPBKDF2ForPlatform arch"
    using on(1,2) by (simp add: a(4) configure_vault_def newVaultSettings_def Let_def)
  ultimately show ?thesis using a(1) by (intro conjI exI [of _ c] exI [of _ v] exI [of _ k]) simp_all
qed

subsection \<open>An example\<close>

text \<open>A start whose file switches the vault on, with a number of iterations.\<close>

definition c_vault :: VaultConfig where
  "c_vault =
     \<lparr>vg_Enabled = Some True, vg_IdleTimeoutMinutes = None, vg_MaxAttempts = None, vg_LockoutMinutes = None,
      vg_PBKDF2Iterations = Some 2000000, vg_PasswordMinLength = None, vg_PasswordExpireDays = None, vg_ForceExpire = None,
      vg_BindSessionIP = None, vg_BlockSizeKB = None, vg_ScrubOnDelete = None, vg_DefaultFilesMode = []\<rparr>"

definition c_decode :: "string \<Rightarrow> Config option" where
  "c_decode text_read = (if text_read = ''{}'' then Some empty_config
     else if text_read = ''vault''
     then Some (empty_config\<lparr>cg_TLS := Some \<lparr>tc_Mode = ''auto'', tc_Cert = [], tc_Key = []\<rparr>, cg_Vault := Some c_vault\<rparr>) else None)"

definition c_files :: fs where
  "c_files = fmap_of_list [([], FDir), ([''config.json''], FFile ''vault'')]"

definition c_start :: "(string + nodeOptions \<times> vaultSettings) \<times> fs" where
  "c_start = startup c_decode ''{}'' ''amd64'' ''/config.json'' (\<lambda>_. False) flag_defaults c_files"

lemma c_start_runs:
  "case c_start of (Inr (n, s), fs') \<Rightarrow> no_VaultEnabled n \<and> no_Port n = 12346 \<and> st_pbkdf2Iterations s = 600000 \<and> st_storeBlock s = 1048576 | _ \<Rightarrow> False"
  by code_simp

lemma c_start_accepted:
  obtains n s fs' where "startup c_decode ''{}'' ''amd64'' ''/config.json'' (\<lambda>_. False) flag_defaults c_files = (Inr (n, s), fs')" "no_VaultEnabled n"
proof -
  obtain r fs' where c: "c_start = (r, fs')" by (cases c_start)
  note runs = c_start_runs [unfolded c prod.case]
  obtain x where x: "r = Inr x" using runs by (cases r) auto
  obtain n s where n: "x = (n, s)" by (cases x)
  have "no_VaultEnabled n" using runs by (simp add: x n)
  then show thesis using that c unfolding c_start_def x n by blast
qed

theorem accepted_start_is_safe_witness:
  "\<exists>n s fs'. startup c_decode ''{}'' ''amd64'' ''/config.json'' (\<lambda>_. False) flag_defaults c_files = (Inr (n, s), fs') \<and>
     fs' = c_files \<and> no_TLSMode n \<in> {''auto'', ''manual''} \<and> fits (nat (st_storeBlock s)) ''data''"
proof -
  obtain n s fs' where run: "startup c_decode ''{}'' ''amd64'' ''/config.json'' (\<lambda>_. False) flag_defaults c_files = (Inr (n, s), fs')" "no_VaultEnabled n"
    by (rule c_start_accepted)
  note a = accepted_start_is_safe [OF run(1)]
  have same: "fs' = c_files" by (rule mp [OF conjunct1 [OF a]]) code_simp
  have "st_enabled s" using conjunct1 [OF conjunct2 [OF conjunct2 [OF conjunct2 [OF a]]]] run(2) by simp
  note b = mp [OF conjunct2 [OF conjunct2 [OF conjunct2 [OF conjunct2 [OF a]]]] this]
  have "fits (nat (st_storeBlock s)) ''data''"
    by (rule mp [OF spec [OF conjunct2 [OF conjunct2 [OF conjunct2 [OF conjunct2 [OF b]]]]]]) simp
  with same conjunct1 [OF b] show ?thesis by (intro exI [of _ n] exI [of _ s] exI [of _ fs'] conjI run(1))
qed

theorem vault_iterations_by_flag_only_witness:
  "\<exists>n s fs'. startup c_decode ''{}'' ''amd64'' ''/config.json'' (\<lambda>_. False) flag_defaults c_files = (Inr (n, s), fs') \<and>
     st_pbkdf2Iterations s = 600000"
proof -
  obtain n s fs' where run: "startup c_decode ''{}'' ''amd64'' ''/config.json'' (\<lambda>_. False) flag_defaults c_files = (Inr (n, s), fs')" "no_VaultEnabled n"
    by (rule c_start_accepted)
  have d: "no_VaultPBKDF2Iterations flag_defaults = 0" "defaultPBKDF2ForPlatform ''amd64'' = 600000" by code_simp+
  have "st_pbkdf2Iterations s = 600000" using conjunct1 [OF vault_iterations_by_flag_only [OF run _ d(1)]] d(2) by simp
  then show ?thesis by (intro exI [of _ n] exI [of _ s] exI [of _ fs'] conjI run(1))
qed

text \<open>With the flags that the help of the command names, and an empty file, the start is refused.\<close>

lemma vault_by_flag_refused:
  "fst (startup c_decode ''{}'' ''amd64'' ''/config.json'' (\<lambda>f. f \<in> {''vault'', ''tls-mode''})
     (flag_defaults\<lparr>no_VaultEnabled := True, no_TLSMode := ''auto''\<rparr>) (fmap_of_list [([], FDir)])) = Inl ''bad vault-pbkdf2-iterations''"
  by code_simp

end
