(* ===== verification/Tunnels.thy ===== *)
theory Tunnels
  imports Transfers LogRing Lifecycle
begin

text \<open>
  Reverse proxy tunnels (cmd/irix-node/frp.go): the list of tunnels and its file, the configuration
  text, starting and stopping of the client, and the requests. The client is an external program:
  whether it starts, whether it can be killed and when it ends are arguments. Processes are numbered
  in the order of their starts. Every request runs as a whole. The JSON text of the list is the codec
  \<open>frp_codec\<close>; the names of files are those on Unix.
\<close>

subsection \<open>Tunnels\<close>

datatype conf_value = CText string | CNumber rat | COther string

type_synonym conf = "(string, conf_value) fmap"

record frpTunnel =
  ft_ID :: string
  ft_Name :: string
  ft_Provider :: string
  ft_Config :: conf
  ft_Status :: string
  ft_proc :: "nat option"
  ft_log :: "nat option"

record frp_codec =
  fc_write :: "frpTunnel list \<Rightarrow> string"
  fc_read :: "string \<Rightarrow> frpTunnel option list option"

text \<open>What the node has: its data directory, \<open>exec.LookPath\<close>, and whether a command starts.\<close>

record frp_env =
  fe_dataDir :: string
  fe_LookPath :: "string option"
  fe_spawn :: "string list \<Rightarrow> fs \<Rightarrow> bool"
  fe_quote :: "string \<Rightarrow> nat \<times> string"
  fe_int :: "rat \<Rightarrow> int"
  fe_codec :: frp_codec

text \<open>
  Tunnels have references, as the list holds pointers. \<open>fr_live\<close> are the processes that run, \<open>fr_watch\<close>
  the watchers that wait for one to end.
\<close>

record frpState =
  fr_objs :: "(nat, frpTunnel) fmap"
  fr_list :: "nat list"
  fr_next :: nat
  fr_gate :: operationGate
  fr_live :: "nat list"
  fr_started :: nat
  fr_watch :: "(nat \<times> nat) list"
  fr_logs :: "(nat, LogBuffer) fmap"

definition tunnel :: "frpState \<Rightarrow> nat \<Rightarrow> frpTunnel" where
  "tunnel S r = the (fmlookup (fr_objs S) r)"

definition set_tunnel :: "nat \<Rightarrow> (frpTunnel \<Rightarrow> frpTunnel) \<Rightarrow> frpState \<Rightarrow> frpState" where
  "set_tunnel r f S = S\<lparr>fr_objs := fmupd r (f (tunnel S r)) (fr_objs S)\<rparr>"

subsection \<open>Places\<close>

definition frpDir :: "frp_env \<Rightarrow> string" where
  "frpDir E = Join [fe_dataDir E, ''frp'']"

definition frpTunnelsFile :: "frp_env \<Rightarrow> string" where
  "frpTunnelsFile E = Join [frpDir E, ''tunnels.json'']"

definition frpcBinaryPath :: "frp_env \<Rightarrow> fs \<Rightarrow> string" where
  "frpcBinaryPath E fs =
     (let p = Join [frpDir E, ''frpc''] in
      case node_at fs p of Some (FFile _) \<Rightarrow> p | _ \<Rightarrow> (case fe_LookPath E of Some p \<Rightarrow> p | None \<Rightarrow> []))"

subsection \<open>The list and its file\<close>

text \<open>What of a tunnel is written; processes are not.\<close>

definition frp_row :: "frpTunnel \<Rightarrow> frpTunnel" where
  "frp_row t = t\<lparr>ft_proc := None, ft_log := None\<rparr>"

text \<open>A list with \<open>null\<close> in it panics: the outer \<open>None\<close>.\<close>

definition frpLoad :: "frp_env \<Rightarrow> fs \<Rightarrow> frpState \<Rightarrow> frpState option" where
  "frpLoad E fs S =
     (case ReadFile (frpTunnelsFile E) fs of
        None \<Rightarrow> Some S
      | Some data \<Rightarrow>
        (case fc_read (fe_codec E) data of
           None \<Rightarrow> Some S
         | Some ts \<Rightarrow>
             if None \<in> set ts then None
             else
               let rs = [fr_next S ..< fr_next S + length ts];
                   ts = map (\<lambda>t. (the t)\<lparr>ft_Status := ''stopped'', ft_proc := None, ft_log := None\<rparr>) ts in
               Some (S\<lparr>fr_objs := fr_objs S ++\<^sub>f fmap_of_list (zip rs ts), fr_list := rs, fr_next := fr_next S + length ts\<rparr>)))"

definition frpSave :: "frp_env \<Rightarrow> frpState \<Rightarrow> fs \<Rightarrow> string option \<times> fs" where
  "frpSave E S fs =
     (case MkdirAll (frpDir E) fs of
        None \<Rightarrow> (Some ''cannot make directory'', fs)
      | Some fs \<Rightarrow>
          let tmp = frpTunnelsFile E @ ''.tmp'' in
          (case WriteFile tmp (fc_write (fe_codec E) (map (\<lambda>r. frp_row (tunnel S r)) (fr_list S))) fs of
             None \<Rightarrow> (Some ''cannot write'', fs)
           | Some fs \<Rightarrow>
             (case Rename tmp (frpTunnelsFile E) fs of None \<Rightarrow> (Some ''cannot rename'', fs) | Some fs \<Rightarrow> (None, fs))))"

subsection \<open>The configuration text\<close>

text \<open>
  \<open>%q\<close>, that is \<open>strconv.Quote\<close>. What it does with bytes from 0x80 on depends on tables of Unicode: a
  parameter that tells how many of the following bytes belong to the character and what is written.
\<close>

definition quote_hex :: "nat \<Rightarrow> char" where
  "quote_hex n = ''0123456789abcdef'' ! n"

definition quote_char :: "char \<Rightarrow> string" where
  "quote_char c =
     (let n = of_char c :: nat in
      if c = CHR 0x22 \<or> c = CHR 0x5C then [CHR 0x5C, c]
      else if 0x20 \<le> n \<and> n < 0x7F then [c]
      else if n = 7 then [CHR 0x5C, CHR ''a'']
      else if n = 8 then [CHR 0x5C, CHR ''b'']
      else if n = 12 then [CHR 0x5C, CHR ''f'']
      else if n = 10 then [CHR 0x5C, CHR ''n'']
      else if n = 13 then [CHR 0x5C, CHR ''r'']
      else if n = 9 then [CHR 0x5C, CHR ''t'']
      else if n = 11 then [CHR 0x5C, CHR ''v'']
      else [CHR 0x5C, CHR ''x'', quote_hex (n div 16), quote_hex (n mod 16)])"

function quote_body :: "(string \<Rightarrow> nat \<times> string) \<Rightarrow> string \<Rightarrow> string" where
  "quote_body H [] = []"
| "quote_body H (c # s) =
     (if (of_char c :: nat) < 0x80 then quote_char c @ quote_body H s
      else (case H (c # s) of (n, t) \<Rightarrow> t @ quote_body H (drop n s)))"
  by pat_completeness auto
termination by (relation "measure (\<lambda>(H, s). length s)") auto

definition go_quote :: "(string \<Rightarrow> nat \<times> string) \<Rightarrow> string \<Rightarrow> string" where
  "go_quote H s = CHR 0x22 # quote_body H s @ [CHR 0x22]"

definition firstNonEmpty :: "string list \<Rightarrow> string" where
  "firstNonEmpty vs = (case filter (\<lambda>v. TrimSpace v \<noteq> []) vs of [] \<Rightarrow> [] | v # _ \<Rightarrow> TrimSpace v)"

definition conf_text :: "frpTunnel \<Rightarrow> string \<Rightarrow> string" where
  "conf_text t k = (case fmlookup (ft_Config t) k of Some (CText s) \<Rightarrow> TrimSpace s | _ \<Rightarrow> [])"

text \<open>A number becomes an integer towards zero; beyond 64 bits the result is the machine's (\<open>fe_int\<close>).\<close>

definition conf_int :: "(rat \<Rightarrow> int) \<Rightarrow> frpTunnel \<Rightarrow> string \<Rightarrow> int" where
  "conf_int big t k =
     (case fmlookup (ft_Config t) k of
        Some (CNumber v) \<Rightarrow>
          (let i = (if v < 0 then \<lceil>v\<rceil> else \<lfloor>v\<rfloor>) in if - (2 ^ 63) \<le> i \<and> i < 2 ^ 63 then i else big v)
      | _ \<Rightarrow> 0)"

definition tunnel_name :: "frpTunnel \<Rightarrow> string" where
  "tunnel_name t = firstNonEmpty [conf_text t ''name'', ft_Name t, ''tunnel'']"

text \<open>The lines of the text, each with the line feed that ends it.\<close>

definition frp_lines :: "(string \<Rightarrow> nat \<times> string) \<Rightarrow> (rat \<Rightarrow> int) \<Rightarrow> frpTunnel \<Rightarrow> string list" where
  "frp_lines H big t =
     (let str = (\<lambda>k v. k @ '' = '' @ go_quote H v); num = (\<lambda>k i. k @ '' = '' @ Itoa i); get = conf_text t; port = conf_int big t in
      [str ''serverAddr'' (get ''node'')] @
      (if port ''serverPort'' > 0 then [num ''serverPort'' (port ''serverPort'')] else []) @
      (if get ''token'' \<noteq> [] then [str ''auth.token'' (get ''token'')] else []) @
      (if get ''user'' \<noteq> [] then [str ''auth.user'' (get ''user'')] else []) @
      [[], ''[[proxies]]'',
       str ''name'' (tunnel_name t),
       str ''type'' (firstNonEmpty [get ''type'', ''tcp'']),
       str ''localIP'' (firstNonEmpty [get ''localIP'', ''127.0.0.1'']),
       num ''localPort'' (port ''localPort'')] @
      (if port ''remotePort'' > 0 then [num ''remotePort'' (port ''remotePort'')] else []) @
      (if get ''customDomains'' \<noteq> [] then [''customDomains = ['' @ go_quote H (get ''customDomains'') @ '']''] else []))"

definition buildFRPConfig :: "(string \<Rightarrow> nat \<times> string) \<Rightarrow> (rat \<Rightarrow> int) \<Rightarrow> frpTunnel \<Rightarrow> string + string" where
  "buildFRPConfig H big t =
     (if ft_Provider t = ''self'' then
        (let raw = (case fmlookup (ft_Config t) ''toml'' of Some (CText s) \<Rightarrow> s | _ \<Rightarrow> []) in
         if TrimSpace raw = [] then Inl ''self needs config.toml'' else Inr raw)
      else if ft_Provider t \<noteq> ''openfrp'' \<and> ft_Provider t \<noteq> ''sakura'' then Inl (''unknown provider: '' @ ft_Provider t)
      else if conf_text t ''node'' = [] then Inl ''missing node''
      else if conf_int big t ''localPort'' \<le> 0 then Inl ''missing localPort''
      else Inr (concat (map (\<lambda>l. l @ [NL]) (frp_lines H big t))))"

subsection \<open>Starting and stopping\<close>

definition quotePath :: "string \<Rightarrow> string" where
  "quotePath p =
     (if ContainsAny p [CHR '' '', TAB]
      then CHR 0x22 # concat (map (\<lambda>c. if c = CHR 0x22 then [CHR 0x5C, c] else [c]) p) @ [CHR 0x22]
      else p)"

text \<open>The part of \<open>startProcess\<close> that decides whether the command starts.\<close>

definition frp_spawns :: "frp_env \<Rightarrow> string \<Rightarrow> string \<Rightarrow> fs \<Rightarrow> bool" where
  "frp_spawns E cmd dir fs \<longleftrightarrow>
     SplitCommand cmd \<noteq> [] \<and> dir \<noteq> [] \<and> node_at fs dir = Some FDir \<and> fe_spawn E (SplitCommand cmd) fs"

definition frp_command :: "frp_env \<Rightarrow> string \<Rightarrow> string \<Rightarrow> string" where
  "frp_command E binary cfgPath = binary @ '' -c '' @ quotePath cfgPath"

definition frpStart :: "frp_env \<Rightarrow> nat \<Rightarrow> frpState \<Rightarrow> fs \<Rightarrow> string option \<times> frpState \<times> fs" where
  "frpStart E r S fs =
     (case gate_enter (fr_gate S) of
        (_, False) \<Rightarrow> (Some ''the node is shutting down'', S, fs)
      | (g, True) \<Rightarrow>
          let left = S\<lparr>fr_gate := gate_leave g\<rparr>; binary = frpcBinaryPath E fs in
          if binary = [] then (Some ''no frpc'', left, fs)
          else
            (case buildFRPConfig (fe_quote E) (fe_int E) (tunnel S r) of
               Inl e \<Rightarrow> (Some e, left, fs)
             | Inr cfg \<Rightarrow>
               (case MkdirAll (frpDir E) fs of
                  None \<Rightarrow> (Some ''cannot make directory'', left, fs)
                | Some fs \<Rightarrow>
                    let cfgPath = Join [frpDir E, ''tunnels'', ft_ID (tunnel S r) @ ''.toml''] in
                    (case MkdirAll (Dir cfgPath) fs of
                       None \<Rightarrow> (Some ''cannot make directory'', left, fs)
                     | Some fs \<Rightarrow>
                       (case WriteFile cfgPath cfg fs of
                          None \<Rightarrow> (Some ''cannot write'', left, fs)
                        | Some fs \<Rightarrow>
                            if \<not> frp_spawns E (frp_command E binary cfgPath) (frpDir E) fs
                            then (Some ''frpc does not start'', left, fs)
                            else
                              let p = fr_started left;
                                  S = left\<lparr>fr_started := Suc p, fr_live := p # fr_live left,
                                        fr_logs := fmupd p (NewLogBuffer 0) (fr_logs left)\<rparr>;
                                  S = set_tunnel r (\<lambda>t. t\<lparr>ft_proc := Some p, ft_log := Some p, ft_Status := ''running''\<rparr>) S in
                              (None, S\<lparr>fr_watch := (r, p) # fr_watch S\<rparr>, fs))))))"

text \<open>A process ends: its watcher marks the tunnel, if it is still the tunnel's process.\<close>

definition frp_exit :: "nat \<Rightarrow> frpState \<Rightarrow> frpState" where
  "frp_exit p S =
     (let S = S\<lparr>fr_live := removeAll p (fr_live S)\<rparr> in
      foldl (\<lambda>S (r, q). if q = p \<and> ft_proc (tunnel S r) = Some p then set_tunnel r (\<lambda>t. t\<lparr>ft_Status := ''failed''\<rparr>) S else S)
        (S\<lparr>fr_watch := filter (\<lambda>(r, q). q \<noteq> p) (fr_watch S)\<rparr>) (fr_watch S))"

text \<open>\<open>killed\<close>: whether \<open>Kill\<close> succeeds, which it does only if the process has ended.\<close>

definition frpStop :: "bool \<Rightarrow> nat \<Rightarrow> frpState \<Rightarrow> string option \<times> frpState" where
  "frpStop killed r S =
     (let p = ft_proc (tunnel S r);
          S = set_tunnel r (\<lambda>t. t\<lparr>ft_proc := None\<rparr>) S in
      if p \<noteq> None \<and> the p \<in> set (fr_live S) then
        (if killed then (None, set_tunnel r (\<lambda>t. t\<lparr>ft_Status := ''stopped''\<rparr>) (frp_exit (the p) S))
         else (Some ''cannot kill'', set_tunnel r (\<lambda>t. t\<lparr>ft_proc := p\<rparr>) S))
      else (None, set_tunnel r (\<lambda>t. t\<lparr>ft_Status := ''stopped''\<rparr>) S))"

fun frpStopAll :: "(nat \<Rightarrow> bool) \<Rightarrow> nat list \<Rightarrow> frpState \<Rightarrow> string list \<times> frpState" where
  "frpStopAll killed [] S = ([], S)"
| "frpStopAll killed (r # rs) S =
     (case frpStop (killed r) r S of
        (e, S) \<Rightarrow> (case frpStopAll killed rs S of (es, S) \<Rightarrow> (case e of None \<Rightarrow> (es, S) | Some e \<Rightarrow> (e # es, S))))"

subsection \<open>Requests\<close>

definition frpcVersion :: "string option \<Rightarrow> string" where
  "frpcVersion out = (case out of None \<Rightarrow> [] | Some s \<Rightarrow> TrimSpace (hd (split_on NL s)))"

definition handleFRPStatus :: "frp_env \<Rightarrow> (string \<Rightarrow> string option) \<Rightarrow> frpState \<Rightarrow> fs \<Rightarrow> (string \<times> string) option \<times> frpTunnel list" where
  "handleFRPStatus E version S fs =
     (let binary = frpcBinaryPath E fs in
      (if binary = [] then None else Some (binary, frpcVersion (version binary)),
       map (\<lambda>r. frp_row (tunnel S r)) (fr_list S)))"

definition handleFRPCreate ::
  "frp_env \<Rightarrow> string \<Rightarrow> (string \<times> string \<times> conf) option \<Rightarrow> frpState \<Rightarrow> fs \<Rightarrow> string reply \<times> frpState \<times> fs" where
  "handleFRPCreate E uid body S fs =
     (case body of
        None \<Rightarrow> (Fail 400 ''malformed body'', S, fs)
      | Some (name, provider, config) \<Rightarrow>
          let name = TrimSpace name in
          if name = [] then (Fail 400 ''missing name'', S, fs)
          else
            let t = \<lparr>ft_ID = uid, ft_Name = name, ft_Provider = provider, ft_Config = config, ft_Status = ''stopped'',
                     ft_proc = None, ft_log = None\<rparr> in
            (case buildFRPConfig (fe_quote E) (fe_int E) t of
               Inl e \<Rightarrow> (Fail 400 e, S, fs)
             | Inr _ \<Rightarrow>
                 let r = fr_next S;
                     S = S\<lparr>fr_objs := fmupd r t (fr_objs S), fr_list := fr_list S @ [r], fr_next := Suc r\<rparr> in
                 (case frpSave E S fs of
                    (Some e, fs) \<Rightarrow> (Fail 500 e, S, fs)
                  | (None, fs) \<Rightarrow>
                    (case frpStart E r S fs of
                       (Some e, S, fs) \<Rightarrow> (Fail 500 e, S, fs)
                     | (None, S, fs) \<Rightarrow> (Reply uid, S, fs)))))"

definition findFRPTunnel :: "frpState \<Rightarrow> string \<Rightarrow> nat option" where
  "findFRPTunnel S i = find (\<lambda>r. ft_ID (tunnel S r) = i) (fr_list S)"

definition handleFRPStart :: "frp_env \<Rightarrow> string \<Rightarrow> frpState \<Rightarrow> fs \<Rightarrow> string reply \<times> frpState \<times> fs" where
  "handleFRPStart E i S fs =
     (case findFRPTunnel S i of
        None \<Rightarrow> (Fail 400 ''no such tunnel'', S, fs)
      | Some r \<Rightarrow>
          let p = ft_proc (tunnel S r) in
          if p \<noteq> None \<and> the p \<in> set (fr_live S) then (Fail 400 ''already running'', S, fs)
          else
            (case frpStart E r S fs of
               (Some e, S, fs) \<Rightarrow> (Fail 500 e, S, fs) | (None, S, fs) \<Rightarrow> (Reply (ft_ID (tunnel S r)), S, fs)))"

definition handleFRPStop :: "bool \<Rightarrow> string \<Rightarrow> frpState \<Rightarrow> string reply \<times> frpState" where
  "handleFRPStop killed i S =
     (case findFRPTunnel S i of
        None \<Rightarrow> (Fail 400 ''no such tunnel'', S)
      | Some r \<Rightarrow>
        (case frpStop killed r S of (Some e, S) \<Rightarrow> (Fail 500 e, S) | (None, S) \<Rightarrow> (Reply (ft_ID (tunnel S r)), S)))"

text \<open>The last tunnel with the identifier is the target; errors of stopping and saving are ignored.\<close>

definition handleFRPDelete :: "frp_env \<Rightarrow> bool \<Rightarrow> string \<Rightarrow> frpState \<Rightarrow> fs \<Rightarrow> unit reply \<times> frpState \<times> fs" where
  "handleFRPDelete E killed i S fs =
     (case filter (\<lambda>r. ft_ID (tunnel S r) = i) (fr_list S) of
        [] \<Rightarrow> (Fail 400 ''no such tunnel'', S, fs)
      | hit \<Rightarrow>
          let S = snd (frpStop killed (last hit) (S\<lparr>fr_list := filter (\<lambda>r. ft_ID (tunnel S r) \<noteq> i) (fr_list S)\<rparr>));
              fs = drop_file (Join [frpDir E, ''tunnels'', i @ ''.toml'']) fs in
          (Reply (), S, snd (frpSave E S fs)))"

definition handleFRPLogs :: "string \<Rightarrow> string \<Rightarrow> frpState \<Rightarrow> string reply" where
  "handleFRPLogs i tailQ S =
     (case findFRPTunnel S i of
        None \<Rightarrow> Fail 400 ''no such tunnel''
      | Some r \<Rightarrow>
          let kb = min 2048 (max 0 (atoiDefault tailQ 100)) in
          (case Option.bind (ft_log (tunnel S r)) (fmlookup (fr_logs S)) of
             None \<Rightarrow> Reply []
           | Some l \<Rightarrow> Reply (LogBuffer_Tail l kb)))"

text \<open>The upload: what arrives of the file, and whether it breaks off.\<close>

definition handleFRPUploadBinary :: "frp_env \<Rightarrow> identity option \<Rightarrow> (string \<times> bool) option \<Rightarrow> fs \<Rightarrow> string reply \<times> fs" where
  "handleFRPUploadBinary E ident form fs =
     (if \<not> requireAdmin ident then (Fail 403 ''administrator required'', fs)
      else
        (case form of
           None \<Rightarrow> (Fail 400 ''bad form'', fs)
         | Some (data, broken) \<Rightarrow>
           (case MkdirAll (frpDir E) fs of
              None \<Rightarrow> (Fail 500 ''cannot make directory'', fs)
            | Some fs \<Rightarrow>
                let dest = Join [frpDir E, ''frpc'']; tmp = dest @ ''.upload'' in
                (case WriteFile tmp data fs of
                   None \<Rightarrow> (Fail 500 ''cannot create'', fs)
                 | Some fs \<Rightarrow>
                     if broken then (Fail 500 ''write failed'', drop_file tmp fs)
                     else
                       (case Rename tmp dest fs of
                          None \<Rightarrow> (Fail 500 ''cannot rename'', drop_file tmp fs) | Some fs \<Rightarrow> (Reply dest, fs))))))"

end
