(* ===== verification/TunnelSafety.thy ===== *)
theory TunnelSafety
  imports Tunnels LogSafety "HOL-Library.Code_Target_Nat"
begin

text \<open>
  What tunnels promise: as long as clients can be killed, every running client belongs to a listed
  tunnel and the shutdown leaves none; the configuration text is read as what was asked for.
\<close>

subsection \<open>Running clients\<close>

datatype frp_event =
    Create string "(string \<times> string \<times> conf) option"
  | Start string
  | Stop bool string
  | Delete bool string
  | Ends nat

fun frp_step :: "frp_env \<Rightarrow> frp_event \<Rightarrow> frpState \<times> fs \<Rightarrow> frpState \<times> fs" where
  "frp_step E (Create uid body) (S, fs) = snd (handleFRPCreate E uid body S fs)"
| "frp_step E (Start i) (S, fs) = snd (handleFRPStart E i S fs)"
| "frp_step E (Stop killed i) (S, fs) = (snd (handleFRPStop killed i S), fs)"
| "frp_step E (Delete killed i) (S, fs) = snd (handleFRPDelete E killed i S fs)"
| "frp_step E (Ends p) (S, fs) = (frp_exit p S, fs)"

definition frp_run :: "frp_env \<Rightarrow> frp_event list \<Rightarrow> frpState \<times> fs \<Rightarrow> frpState \<times> fs" where
  "frp_run E evs w = foldl (\<lambda>w e. frp_step E e w) w evs"

text \<open>Every attempt to kill a client succeeds, and a new tunnel has an identifier of its own.\<close>

fun smooth :: "frp_event \<Rightarrow> bool" where
  "smooth (Stop killed i) = killed"
| "smooth (Delete killed i) = killed"
| "smooth e = True"

fun new_id :: "frp_event \<Rightarrow> string list" where
  "new_id (Create uid body) = [uid]"
| "new_id e = []"

definition ids :: "frpState \<Rightarrow> string list" where
  "ids S = map (\<lambda>r. ft_ID (tunnel S r)) (fr_list S)"

text \<open>Running, as its process says and as its status says.\<close>

definition alive :: "frpState \<Rightarrow> nat \<Rightarrow> bool" where
  "alive S r \<longleftrightarrow> (\<exists>p\<in>set (fr_live S). ft_proc (tunnel S r) = Some p)"

definition tunnel_ok :: "frpState \<Rightarrow> nat \<Rightarrow> bool" where
  "tunnel_ok S r \<longleftrightarrow> r < fr_next S \<and> (ft_Status (tunnel S r) = ''running'' \<longleftrightarrow> alive S r) \<and>
     (\<forall>p. ft_proc (tunnel S r) = Some p \<longrightarrow> p < fr_started S \<and> (p \<in> set (fr_live S) \<longrightarrow> (r, p) \<in> set (fr_watch S)))"

definition owned :: "frpState \<Rightarrow> bool" where
  "owned S \<longleftrightarrow> (\<forall>p\<in>set (fr_live S). p < fr_started S \<and> (\<exists>r\<in>set (fr_list S). ft_proc (tunnel S r) = Some p))"

definition unshared :: "frpState \<Rightarrow> bool" where
  "unshared S \<longleftrightarrow> (\<forall>r\<in>set (fr_list S). \<forall>r'\<in>set (fr_list S). ft_proc (tunnel S r) \<noteq> None \<longrightarrow>
     ft_proc (tunnel S r) = ft_proc (tunnel S r') \<longrightarrow> r = r')"

definition clients_listed :: "frpState \<Rightarrow> bool" where
  "clients_listed S \<longleftrightarrow> (\<forall>r\<in>set (fr_list S). tunnel_ok S r) \<and> owned S \<and> unshared S"

lemma tunnel_set [simp]: "tunnel (set_tunnel r f S) r' = (if r' = r then f (tunnel S r) else tunnel S r')"
  by (simp add: tunnel_def set_tunnel_def)

lemma set_tunnel_rest [simp]:
  "fr_list (set_tunnel r f S) = fr_list S" "fr_live (set_tunnel r f S) = fr_live S" "fr_next (set_tunnel r f S) = fr_next S"
  "fr_started (set_tunnel r f S) = fr_started S" "fr_watch (set_tunnel r f S) = fr_watch S"
  by (simp_all add: set_tunnel_def)

lemma tunnel_other [simp]:
  "tunnel (S\<lparr>fr_list := l\<rparr>) r = tunnel S r" "tunnel (S\<lparr>fr_live := v\<rparr>) r = tunnel S r" "tunnel (S\<lparr>fr_watch := w\<rparr>) r = tunnel S r"
  "tunnel (S\<lparr>fr_gate := g\<rparr>) r = tunnel S r" "tunnel (S\<lparr>fr_started := n\<rparr>) r = tunnel S r" "tunnel (S\<lparr>fr_logs := m\<rparr>) r = tunnel S r"
  by (simp_all add: tunnel_def)

definition mark_failed :: "nat \<Rightarrow> frpState \<Rightarrow> nat \<times> nat \<Rightarrow> frpState" where
  "mark_failed p S rq = (case rq of (r, q) \<Rightarrow>
     if q = p \<and> ft_proc (tunnel S r) = Some p then set_tunnel r (\<lambda>t. t\<lparr>ft_Status := ''failed''\<rparr>) S else S)"

lemma mark_failed_all:
  "fr_list (foldl (mark_failed p) S w) = fr_list S \<and> fr_live (foldl (mark_failed p) S w) = fr_live S \<and>
   fr_next (foldl (mark_failed p) S w) = fr_next S \<and> fr_started (foldl (mark_failed p) S w) = fr_started S \<and>
   fr_watch (foldl (mark_failed p) S w) = fr_watch S \<and>
   tunnel (foldl (mark_failed p) S w) r =
     (if (r, p) \<in> set w \<and> ft_proc (tunnel S r) = Some p then (tunnel S r)\<lparr>ft_Status := ''failed''\<rparr> else tunnel S r)"
proof (induction w arbitrary: S)
  case (Cons x w)
  then show ?case by (cases x) (auto simp: mark_failed_def)
qed simp

lemma frp_exit_effect [simp]:
  "fr_list (frp_exit p S) = fr_list S" "fr_live (frp_exit p S) = removeAll p (fr_live S)" "fr_next (frp_exit p S) = fr_next S"
  "fr_started (frp_exit p S) = fr_started S" "fr_watch (frp_exit p S) = filter (\<lambda>(r, q). q \<noteq> p) (fr_watch S)"
  "tunnel (frp_exit p S) r =
     (if (r, p) \<in> set (fr_watch S) \<and> ft_proc (tunnel S r) = Some p then (tunnel S r)\<lparr>ft_Status := ''failed''\<rparr> else tunnel S r)"
proof -
  have "frp_exit p S = foldl (mark_failed p) (S\<lparr>fr_live := removeAll p (fr_live S), fr_watch := filter (\<lambda>(r, q). q \<noteq> p) (fr_watch S)\<rparr>) (fr_watch S)"
    by (simp add: frp_exit_def Let_def mark_failed_def [abs_def])
  then show "fr_list (frp_exit p S) = fr_list S" "fr_live (frp_exit p S) = removeAll p (fr_live S)" "fr_next (frp_exit p S) = fr_next S"
    "fr_started (frp_exit p S) = fr_started S" "fr_watch (frp_exit p S) = filter (\<lambda>(r, q). q \<noteq> p) (fr_watch S)"
    "tunnel (frp_exit p S) r =
       (if (r, p) \<in> set (fr_watch S) \<and> ft_proc (tunnel S r) = Some p then (tunnel S r)\<lparr>ft_Status := ''failed''\<rparr> else tunnel S r)"
    using mark_failed_all by simp_all
qed

lemma exit_keeps_proc [simp]: "ft_proc (tunnel (frp_exit p S) r) = ft_proc (tunnel S r)" "ft_ID (tunnel (frp_exit p S) r) = ft_ID (tunnel S r)"
  by simp_all

lemma alive_exit [simp]: "alive (frp_exit p S) r \<longleftrightarrow> alive S r \<and> ft_proc (tunnel S r) \<noteq> Some p"
  unfolding alive_def exit_keeps_proc frp_exit_effect(2) by auto

lemma exit_listed:
  assumes "clients_listed S"
  shows "clients_listed (frp_exit p S)"
proof -
  have "tunnel_ok (frp_exit p S) r" if "tunnel_ok S r" for r
  proof -
    note ok = that [unfolded tunnel_ok_def]
    have "ft_Status (tunnel (frp_exit p S) r) = ''running'' \<longleftrightarrow> alive S r \<and> ft_proc (tunnel S r) \<noteq> Some p"
      using ok by (auto simp: alive_def)
    then show ?thesis using ok unfolding tunnel_ok_def alive_exit exit_keeps_proc by simp
  qed
  moreover have "owned (frp_exit p S)" using assms unfolding clients_listed_def owned_def exit_keeps_proc by auto
  moreover have "unshared (frp_exit p S)" using assms unfolding clients_listed_def unshared_def exit_keeps_proc frp_exit_effect(1) by blast
  ultimately show ?thesis using assms by (simp add: clients_listed_def)
qed

lemma stop_effect:
  assumes "clients_listed S" "r \<in> set (fr_list S)" "frpStop True r S = (e, S')"
  shows "e = None \<and> clients_listed S' \<and> fr_list S' = fr_list S \<and> ft_proc (tunnel S' r) = None \<and>
    fr_live S' = (case ft_proc (tunnel S r) of None \<Rightarrow> fr_live S | Some p \<Rightarrow> removeAll p (fr_live S)) \<and>
    (\<forall>r'. ft_ID (tunnel S' r') = ft_ID (tunnel S r')) \<and> (\<forall>r'. r' \<noteq> r \<longrightarrow> ft_proc (tunnel S' r') = ft_proc (tunnel S r'))"
proof -
  define T where "T = set_tunnel r (\<lambda>t. t\<lparr>ft_proc := None\<rparr>) S"
  define U where "U = (case ft_proc (tunnel S r) of None \<Rightarrow> T | Some p \<Rightarrow> if p \<in> set (fr_live S) then frp_exit p T else T)"
  have run: "e = None" "S' = set_tunnel r (\<lambda>t. t\<lparr>ft_Status := ''stopped''\<rparr>) U"
    using assms(3) by (auto simp: frpStop_def Let_def T_def U_def split: if_splits option.splits)
  have U: "fr_list U = fr_list S" "fr_next U = fr_next S" "fr_started U = fr_started S"
    "fr_live U = (case ft_proc (tunnel S r) of None \<Rightarrow> fr_live S | Some p \<Rightarrow> removeAll p (fr_live S))"
    "\<And>r'. ft_proc (tunnel U r') = (if r' = r then None else ft_proc (tunnel S r'))" "\<And>r'. ft_ID (tunnel U r') = ft_ID (tunnel S r')"
    by (auto simp: U_def T_def split: option.splits)
  note inv = assms(1) [unfolded clients_listed_def]
  have other: "ft_proc (tunnel S r') \<noteq> ft_proc (tunnel S r)" if "r' \<in> set (fr_list S)" "r' \<noteq> r" "ft_proc (tunnel S r') \<noteq> None" for r'
    using inv that assms(2) unfolding unshared_def by blast
  have st: "ft_Status (tunnel U r') = ft_Status (tunnel S r')" if "r' \<in> set (fr_list S)" "r' \<noteq> r" for r'
    using other [OF that] that by (auto simp: U_def T_def split: option.splits)
  have w: "(r', q) \<in> set (fr_watch U)" if "(r', q) \<in> set (fr_watch S)" "ft_proc (tunnel S r) \<noteq> Some q" for r' q
    using that by (auto simp: U_def T_def split: option.splits)
  have "tunnel_ok S' r'" if m: "r' \<in> set (fr_list S)" for r'
  proof (cases "r' = r")
    case True
    then show ?thesis using inv assms(2) U by (auto simp: tunnel_ok_def alive_def run(2))
  next
    case False
    have ok: "tunnel_ok S r'" using inv m by blast
    have al: "alive S' r' = alive S r'" using False other [OF m False] U(4,5) by (auto simp: alive_def run(2) split: option.splits)
    have "(r', q) \<in> set (fr_watch U)" if "ft_proc (tunnel S r') = Some q" "q \<in> set (fr_live U)" for q
      using w [of r' q] ok that other [OF m False] U(4) by (auto simp: tunnel_ok_def split: option.splits)
    then show ?thesis using ok al False st [OF m False] U by (auto simp: tunnel_ok_def run(2))
  qed
  moreover have "owned S'" unfolding owned_def
  proof
    fix p assume "p \<in> set (fr_live S')"
    then have p: "p \<in> set (fr_live S)" "ft_proc (tunnel S r) \<noteq> Some p" using U(4) by (auto simp: run(2) split: option.splits)
    then obtain r' where "r' \<in> set (fr_list S)" "ft_proc (tunnel S r') = Some p" "p < fr_started S"
      using inv unfolding owned_def by blast
    then have "r' \<in> set (fr_list S')" "ft_proc (tunnel S' r') = Some p" "p < fr_started S'" using p(2) U by (auto simp: run(2))
    then show "p < fr_started S' \<and> (\<exists>r\<in>set (fr_list S'). ft_proc (tunnel S' r) = Some p)" by blast
  qed
  moreover have "unshared S'" using inv U unfolding unshared_def by (auto simp: run(2))
  ultimately have "clients_listed S'" using U(1) by (simp add: clients_listed_def run(2))
  then show ?thesis using run(1) U by (auto simp: run(2))
qed

lemma gate_listed: "clients_listed (S\<lparr>fr_gate := g\<rparr>) = clients_listed S"
  by (simp add: clients_listed_def tunnel_ok_def owned_def unshared_def alive_def)

lemma start_effect:
  assumes "clients_listed S" "r \<in> set (fr_list S)" "\<not> alive S r" "frpStart E r S fs = (e, S', fs')"
  shows "clients_listed S' \<and> fr_list S' = fr_list S \<and> (\<forall>r'. ft_ID (tunnel S' r') = ft_ID (tunnel S r'))"
proof -
  define g where "g = gate_leave (fst (gate_enter (fr_gate S)))"
  let ?p = "fr_started S"
  define T where "T = (set_tunnel r (\<lambda>t. t\<lparr>ft_proc := Some ?p, ft_log := Some ?p, ft_Status := ''running''\<rparr>)
     (S\<lparr>fr_gate := g, fr_started := Suc ?p, fr_live := ?p # fr_live S, fr_logs := fmupd ?p (NewLogBuffer 0) (fr_logs S)\<rparr>))"
  have cases: "S' = S \<or> S' = S\<lparr>fr_gate := g\<rparr> \<or> S' = T\<lparr>fr_watch := (r, ?p) # fr_watch S\<rparr>"
    using assms(4) by (auto simp: frpStart_def Let_def g_def T_def split: prod.splits bool.splits if_splits sum.splits option.splits)
  have tun: "tunnel T r' = (if r' = r then (tunnel S r)\<lparr>ft_proc := Some ?p, ft_log := Some ?p, ft_Status := ''running''\<rparr> else tunnel S r')" for r'
    by (simp add: T_def)
  have T: "fr_list T = fr_list S" "fr_next T = fr_next S" "fr_started T = Suc ?p" "fr_live T = ?p # fr_live S" by (simp_all add: T_def)
  note inv = assms(1) [unfolded clients_listed_def]
  have low: "q < ?p" if "r' \<in> set (fr_list S)" "ft_proc (tunnel S r') = Some q" for r' q
    using inv that by (auto simp: tunnel_ok_def)
  have "clients_listed (T\<lparr>fr_watch := (r, ?p) # fr_watch S\<rparr>)" (is "clients_listed ?W")
  proof -
    have "tunnel_ok ?W r'" if m: "r' \<in> set (fr_list S)" for r'
    proof (cases "r' = r")
      case True
      then show ?thesis using inv assms(2) by (auto simp: tunnel_ok_def alive_def tun T)
    next
      case False
      have "ft_proc (tunnel S r') \<noteq> Some ?p" using low [OF m] by blast
      then have "alive ?W r' = alive S r'" using False by (auto simp: alive_def tun T)
      then show ?thesis using inv m False by (auto simp: tunnel_ok_def tun T)
    qed
    moreover have "owned ?W" unfolding owned_def
    proof
      fix q assume "q \<in> set (fr_live ?W)"
      then consider "q = ?p" | "q \<in> set (fr_live S)" by (auto simp: T)
      then show "q < fr_started ?W \<and> (\<exists>r\<in>set (fr_list ?W). ft_proc (tunnel ?W r) = Some q)"
      proof cases
        case 1
        then show ?thesis using assms(2) by (auto simp: T tun)
      next
        case 2
        then obtain r' where r': "r' \<in> set (fr_list S)" "ft_proc (tunnel S r') = Some q" "q < ?p" using inv unfolding owned_def by blast
        then have "r' \<noteq> r" using assms(3) 2 by (auto simp: alive_def)
        then have "ft_proc (tunnel ?W r') = Some q" using r' by (simp add: tun)
        then show ?thesis using r' T by auto
      qed
    qed
    moreover have "unshared ?W" unfolding unshared_def
    proof (intro ballI impI)
      fix a b assume "a \<in> set (fr_list ?W)" "b \<in> set (fr_list ?W)" "ft_proc (tunnel ?W a) \<noteq> None" "ft_proc (tunnel ?W a) = ft_proc (tunnel ?W b)"
      then show "a = b" using inv low [of a ?p] low [of b ?p] unfolding unshared_def by (auto simp: T tun split: if_splits)
    qed
    ultimately show ?thesis using T(1) by (simp add: clients_listed_def)
  qed
  then show ?thesis using cases assms(1) by (auto simp: gate_listed T tun)
qed

lemma create_effect:
  assumes "clients_listed S" "handleFRPCreate E uid body S fs = (r, S', fs')"
  shows "clients_listed S' \<and> ids S' \<in> {ids S, ids S @ [uid]}"
proof (cases "S' = S")
  case True
  then show ?thesis using assms(1) by simp
next
  case False
  obtain name provider config where b: "body = Some (name, provider, config)"
    using assms(2) False by (cases body) (auto simp: handleFRPCreate_def)
  define t where "t = \<lparr>ft_ID = uid, ft_Name = TrimSpace name, ft_Provider = provider, ft_Config = config, ft_Status = ''stopped'',
     ft_proc = None, ft_log = None\<rparr>"
  have t: "ft_ID t = uid" "ft_proc t = None" "ft_Status t = ''stopped''" by (simp_all add: t_def)
  define T where "T = S\<lparr>fr_objs := fmupd (fr_next S) t (fr_objs S), fr_list := fr_list S @ [fr_next S], fr_next := Suc (fr_next S)\<rparr>"
  have S': "S' = T \<or> (\<exists>e f f'. frpStart E (fr_next S) T f = (e, S', f'))"
    using assms(2) False unfolding T_def t_def handleFRPCreate_def b
    by (fastforce simp: Let_def split: if_splits sum.splits prod.splits option.splits)
  note inv = assms(1) [unfolded clients_listed_def]
  have tun: "tunnel T r' = (if r' = fr_next S then t else tunnel S r')" for r' by (simp add: T_def tunnel_def)
  have T: "fr_list T = fr_list S @ [fr_next S]" "fr_next T = Suc (fr_next S)" "fr_live T = fr_live S" "fr_started T = fr_started S"
    "fr_watch T = fr_watch S" by (simp_all add: T_def)
  have old: "r' \<noteq> fr_next S" if "r' \<in> set (fr_list S)" for r' using inv that by (auto simp: tunnel_ok_def)
  have ok: "tunnel_ok T r'" if "r' \<in> set (fr_list S)" for r'
    using inv that old [OF that] by (auto simp: tunnel_ok_def alive_def T tun)
  have "owned T" unfolding owned_def
  proof
    fix p assume "p \<in> set (fr_live T)"
    then obtain r' where "r' \<in> set (fr_list S)" "ft_proc (tunnel S r') = Some p" "p < fr_started S" using inv unfolding owned_def T by blast
    then have "r' \<in> set (fr_list T)" "ft_proc (tunnel T r') = Some p" "p < fr_started T" using old by (auto simp: T tun)
    then show "p < fr_started T \<and> (\<exists>r\<in>set (fr_list T). ft_proc (tunnel T r) = Some p)" by blast
  qed
  moreover have "unshared T" using inv old t(2) unfolding unshared_def by (auto simp: T tun)
  moreover have "tunnel_ok T (fr_next S)" "\<not> alive T (fr_next S)" using t by (auto simp: tunnel_ok_def alive_def T tun)
  ultimately have listed: "clients_listed T" "\<not> alive T (fr_next S)" using ok by (auto simp: clients_listed_def T)
  have new: "ids T = ids S @ [uid]" using old t(1) by (auto simp: ids_def T tun)
  show ?thesis using S' start_effect [OF listed(1) _ listed(2)] listed(1) new
    by (auto simp: ids_def T)
qed

lemma mark_failed_list: "foldl (mark_failed p) (S\<lparr>fr_list := l\<rparr>) w = (foldl (mark_failed p) S w)\<lparr>fr_list := l\<rparr>"
proof (induction w arbitrary: S)
  case (Cons x w)
  have "mark_failed p (S\<lparr>fr_list := l\<rparr>) x = (mark_failed p S x)\<lparr>fr_list := l\<rparr>"
    by (cases x) (simp add: mark_failed_def set_tunnel_def tunnel_def)
  then show ?case using Cons.IH by simp
qed simp

lemma frp_exit_folds:
  "frp_exit p S = foldl (mark_failed p) (S\<lparr>fr_live := removeAll p (fr_live S), fr_watch := filter (\<lambda>(r, q). q \<noteq> p) (fr_watch S)\<rparr>) (fr_watch S)"
  by (simp add: frp_exit_def Let_def mark_failed_def [abs_def])

lemma frp_exit_list: "frp_exit p (S\<lparr>fr_list := l\<rparr>) = (frp_exit p S)\<lparr>fr_list := l\<rparr>"
proof -
  have "S\<lparr>fr_list := l, fr_live := v, fr_watch := w\<rparr> = S\<lparr>fr_live := v, fr_watch := w\<rparr>\<lparr>fr_list := l\<rparr>" for v w by simp
  then show ?thesis by (simp only: frp_exit_folds mark_failed_list) simp
qed

lemma set_tunnel_list: "set_tunnel r f (S\<lparr>fr_list := l\<rparr>) = (set_tunnel r f S)\<lparr>fr_list := l\<rparr>"
  by (simp add: set_tunnel_def tunnel_def)

lemma frpStop_list: "frpStop killed r (S\<lparr>fr_list := l\<rparr>) = (case frpStop killed r S of (e, S') \<Rightarrow> (e, S'\<lparr>fr_list := l\<rparr>))"
  by (simp add: frpStop_def Let_def set_tunnel_list frp_exit_list)

lemma delete_state:
  assumes "filter (\<lambda>r. ft_ID (tunnel S r) = i) (fr_list S) = a # rest"
  shows "fst (snd (handleFRPDelete E k i S fs)) =
    snd (frpStop k (last (a # rest)) (S\<lparr>fr_list := filter (\<lambda>r. ft_ID (tunnel S r) \<noteq> i) (fr_list S)\<rparr>))"
  unfolding handleFRPDelete_def assms list.case Let_def fst_conv snd_conv ..

lemma delete_effect:
  assumes "clients_listed S" "distinct (ids S)" "handleFRPDelete E True i S fs = (x, S', fs')"
  shows "clients_listed S' \<and> distinct (ids S') \<and> set (ids S') \<subseteq> set (ids S)"
proof (cases "filter (\<lambda>r. ft_ID (tunnel S r) = i) (fr_list S)")
  case Nil
  then show ?thesis using assms by (simp add: handleFRPDelete_def)
next
  case (Cons a rest)
  define r where "r = last (a # rest)"
  have "r \<in> set (filter (\<lambda>r. ft_ID (tunnel S r) = i) (fr_list S))" unfolding Cons r_def by (rule last_in_set) simp
  then have r: "r \<in> set (fr_list S)" "ft_ID (tunnel S r) = i" by simp_all
  have only: "r' = r" if "r' \<in> set (fr_list S)" "ft_ID (tunnel S r') = i" for r'
    using assms(2) that r unfolding ids_def distinct_map by (metis inj_onD)
  define l where "l = filter (\<lambda>r. ft_ID (tunnel S r) \<noteq> i) (fr_list S)"
  obtain e T where T: "frpStop True r S = (e, T)" by fastforce
  note st = stop_effect [OF assms(1) r(1) T]
  have inv: "fr_list T = fr_list S" "ft_proc (tunnel T r) = None" "\<And>r'. ft_ID (tunnel T r') = ft_ID (tunnel S r')"
    and okT: "\<And>r'. r' \<in> set (fr_list S) \<Longrightarrow> tunnel_ok T r'" "owned T" "unshared T"
    using st by (simp_all add: clients_listed_def)
  have stop: "snd (frpStop True r (S\<lparr>fr_list := l\<rparr>)) = T\<lparr>fr_list := l\<rparr>" using T by (simp add: frpStop_list)
  have "fst (snd (handleFRPDelete E True i S fs)) = snd (frpStop True (last (a # rest)) (S\<lparr>fr_list := l\<rparr>))"
    unfolding l_def by (rule delete_state [OF Cons])
  then have S': "S' = T\<lparr>fr_list := l\<rparr>" unfolding assms(3) r_def [symmetric] stop by simp
  have l: "set l = set (fr_list S) - {r}" unfolding l_def set_filter using only r by blast
  have ok: "tunnel_ok (T\<lparr>fr_list := l\<rparr>) r' = tunnel_ok T r'" for r' by (simp add: tunnel_ok_def alive_def)
  have "owned S'" unfolding owned_def
  proof
    fix p assume "p \<in> set (fr_live S')"
    then have p: "p \<in> set (fr_live T)" by (simp add: S')
    from bspec [OF okT(2) [unfolded owned_def] p] obtain r' where r': "p < fr_started T" "r' \<in> set (fr_list T)" "ft_proc (tunnel T r') = Some p" by blast
    then have "r' \<in> set l" using inv(1,2) unfolding l by force
    then show "p < fr_started S' \<and> (\<exists>r\<in>set (fr_list S'). ft_proc (tunnel S' r) = Some p)"
      using r' by (auto simp: S')
  qed
  moreover have "unshared S'" using okT(3) l unfolding unshared_def S' by (simp add: inv) blast
  moreover have "\<forall>r\<in>set (fr_list S'). tunnel_ok S' r" using okT(1) l unfolding S' by (simp add: ok)
  moreover have "ids S' = map (\<lambda>r. ft_ID (tunnel S r)) l" by (simp add: ids_def S' inv)
  moreover have "distinct (map (\<lambda>r. ft_ID (tunnel S r)) l)" using assms(2) unfolding ids_def l_def by (rule distinct_map_filter)
  ultimately show ?thesis using l by (auto simp: clients_listed_def ids_def)
qed

lemma step_effect:
  assumes "clients_listed S" "distinct (ids S @ new_id ev)" "smooth ev" "frp_step E ev (S, fs) = (S', fs')"
  shows "clients_listed S' \<and> distinct (ids S') \<and> set (ids S') \<subseteq> set (ids S @ new_id ev)"
proof (cases ev)
  case (Create uid body)
  obtain x where "handleFRPCreate E uid body S fs = (x, S', fs')" using assms(4) Create by (cases "handleFRPCreate E uid body S fs") auto
  then show ?thesis using create_effect [OF assms(1)] assms(2) Create by fastforce
next
  case (Start i)
  show ?thesis
  proof (cases "findFRPTunnel S i")
    case None
    then show ?thesis using assms Start by (simp add: handleFRPStart_def)
  next
    case (Some r)
    then have r: "r \<in> set (fr_list S)" by (auto simp: findFRPTunnel_def find_Some_iff)
    obtain e T f where T: "frpStart E r S fs = (e, T, f)" by (metis prod_cases3)
    have "S' = S \<or> \<not> alive S r \<and> S' = T"
      using assms(4) Start Some T by (auto simp: handleFRPStart_def Let_def alive_def split: if_splits option.splits)
    then show ?thesis using start_effect [OF assms(1) r _ T] assms(1,2) by (auto simp: ids_def)
  qed
next
  case (Stop killed i)
  show ?thesis
  proof (cases "findFRPTunnel S i")
    case None
    then show ?thesis using assms Stop by (simp add: handleFRPStop_def)
  next
    case (Some r)
    then have r: "r \<in> set (fr_list S)" by (auto simp: findFRPTunnel_def find_Some_iff)
    obtain e T where T: "frpStop True r S = (e, T)" by fastforce
    then have "S' = T" using assms(3,4) Stop Some by (auto simp: handleFRPStop_def split: option.splits)
    then show ?thesis using stop_effect [OF assms(1) r T] assms(2) by (auto simp: ids_def)
  qed
next
  case (Delete killed i)
  obtain x where d: "handleFRPDelete E True i S fs = (x, S', fs')" using assms(3,4) Delete by (cases "handleFRPDelete E True i S fs") auto
  show ?thesis using delete_effect [OF assms(1) _ d] assms(2) by auto
next
  case (Ends p)
  then have "S' = frp_exit p S" using assms(4) by simp
  then show ?thesis using exit_listed [OF assms(1)] assms(2) unfolding ids_def by (auto simp: exit_keeps_proc simp del: frp_exit_effect(6))
qed

lemma run_listed:
  "clients_listed S \<Longrightarrow> distinct (ids S @ concat (map new_id evs)) \<Longrightarrow> list_all smooth evs \<Longrightarrow> frp_run E evs (S, fs) = (S', fs') \<Longrightarrow>
   clients_listed S'"
proof (induction evs arbitrary: S fs)
  case Nil
  then show ?case by (simp add: frp_run_def)
next
  case (Cons ev evs)
  obtain T f where T: "frp_step E ev (S, fs) = (T, f)" by fastforce
  have "clients_listed T \<and> distinct (ids T) \<and> set (ids T) \<subseteq> set (ids S @ new_id ev)"
    by (rule step_effect [OF Cons.prems(1) _ _ T]) (use Cons.prems(2,3) in auto)
  then show ?case using Cons.IH [of T f] Cons.prems T by (fastforce simp: frp_run_def)
qed

text \<open>The start of the node, and its shutdown when every client can be killed.\<close>

definition frp_fresh :: "operationGate \<Rightarrow> frpState" where
  "frp_fresh g =
     \<lparr>fr_objs = fmempty, fr_list = [], fr_next = 0, fr_gate = g, fr_live = [], fr_started = 0, fr_watch = [], fr_logs = fmempty\<rparr>"

lemma load_listed:
  assumes "frpLoad E fs (frp_fresh g) = Some S"
  shows "clients_listed S"
proof -
  have "clients_listed (frp_fresh g)" by (simp add: clients_listed_def owned_def unshared_def frp_fresh_def)
  moreover have "clients_listed S" if "S \<noteq> frp_fresh g"
  proof -
    obtain rows where rows: "S = (frp_fresh g)\<lparr>fr_objs := fr_objs (frp_fresh g) ++\<^sub>f
        fmap_of_list (zip [0 ..< length rows] (map (\<lambda>t. (the t)\<lparr>ft_Status := ''stopped'', ft_proc := None, ft_log := None\<rparr>) rows)),
        fr_list := [0 ..< length rows], fr_next := length rows\<rparr>"
      using assms that by (auto simp: frpLoad_def Let_def frp_fresh_def split: option.splits if_splits)
    define ts where "ts = map (\<lambda>t. (the t)\<lparr>ft_Status := ''stopped'', ft_proc := None, ft_log := None\<rparr>) rows"
    have ts: "ft_Status t = ''stopped'' \<and> ft_proc t = None" if "t \<in> set ts" for t using that by (auto simp: ts_def)
    have S: "fr_list S = [0 ..< length ts]" "fr_next S = length ts" "fr_live S = []" "fr_objs S = fmap_of_list (zip [0 ..< length ts] ts)"
      by (simp_all add: rows frp_fresh_def ts_def)
    have "tunnel S r = ts ! r" if "r < length ts" for r
      using that map_of_zip_nth [of "[0 ..< length ts]" ts r] by (simp add: tunnel_def S(4) fmlookup_of_list)
    then show ?thesis using ts by (simp add: S(1-3) clients_listed_def owned_def unshared_def tunnel_ok_def alive_def)
  qed
  ultimately show ?thesis by blast
qed

lemma stop_all_effect:
  assumes "clients_listed S" "set rs \<subseteq> set (fr_list S)" "frpStopAll (\<lambda>_. True) rs S = (es, S')"
  shows "es = [] \<and> clients_listed S' \<and> fr_list S' = fr_list S \<and> (\<forall>r\<in>set rs. ft_proc (tunnel S' r) = None) \<and>
    (\<forall>r. ft_proc (tunnel S r) = None \<longrightarrow> ft_proc (tunnel S' r) = None)"
  using assms
proof (induction rs arbitrary: S es S')
  case (Cons r rs)
  obtain e T where T: "frpStop True r S = (e, T)" by fastforce
  obtain es' U where U: "frpStopAll (\<lambda>_. True) rs T = (es', U)" by fastforce
  have r: "r \<in> set (fr_list S)" using Cons.prems(2) by simp
  note st = stop_effect [OF Cons.prems(1) r T]
  have "es' = [] \<and> clients_listed U \<and> fr_list U = fr_list T \<and> (\<forall>r\<in>set rs. ft_proc (tunnel U r) = None) \<and>
      (\<forall>r. ft_proc (tunnel T r) = None \<longrightarrow> ft_proc (tunnel U r) = None)"
    by (rule Cons.IH [OF _ _ U]) (use st Cons.prems(2) in auto)
  moreover have "S' = U" "es = es'" using Cons.prems(3) T U st by auto
  moreover have "ft_proc (tunnel T r') = None" if "ft_proc (tunnel S r') = None" for r'
    using st that by (cases "r' = r") auto
  ultimately show ?case using st by (metis set_ConsD)
qed simp

lemma stopped_all_dead: "clients_listed S \<Longrightarrow> \<forall>r\<in>set (fr_list S). ft_proc (tunnel S r) = None \<Longrightarrow> fr_live S = []"
  by (cases "fr_live S") (auto simp: clients_listed_def owned_def)

text \<open>
  C39. No client of a tunnel is out of reach. From the start of the node on, whatever list its file
  holds, and whatever requests and ends of clients follow, as long as identifiers are different and
  every attempt to kill a client succeeds: a listed tunnel says that it runs exactly if its client
  lives, every living client is that of a listed tunnel, no two tunnels share one, and the shutdown
  leaves none.
\<close>

theorem no_stray_client:
  assumes start: "frpLoad E fs0 (frp_fresh g) = Some S0"
    and evs: "distinct (ids S0 @ concat (map new_id evs))" "list_all smooth evs"
    and run: "frp_run E evs (S0, fs) = (S, fs')"
  shows "(\<forall>r\<in>set (fr_list S). ft_Status (tunnel S r) = ''running'' \<longleftrightarrow> alive S r) \<and>
    (\<forall>p\<in>set (fr_live S). \<exists>!r. r \<in> set (fr_list S) \<and> ft_proc (tunnel S r) = Some p) \<and>
    (case frpStopAll (\<lambda>_. True) (fr_list S) S of (es, S') \<Rightarrow> es = [] \<and> fr_live S' = [])"
proof -
  have S: "clients_listed S" by (rule run_listed [OF load_listed [OF start] evs run])
  obtain es S' where stop: "frpStopAll (\<lambda>_. True) (fr_list S) S = (es, S')" by fastforce
  have "es = []" "fr_live S' = []"
    using stop_all_effect [OF S subset_refl stop] stopped_all_dead [of S'] by auto
  moreover have "\<exists>!r. r \<in> set (fr_list S) \<and> ft_proc (tunnel S r) = Some p" if "p \<in> set (fr_live S)" for p
    using S that unfolding clients_listed_def owned_def unshared_def by (metis option.distinct(1))
  moreover have "ft_Status (tunnel S r) = ''running'' \<longleftrightarrow> alive S r" if "r \<in> set (fr_list S)" for r
    using S that by (simp add: clients_listed_def tunnel_ok_def)
  ultimately show ?thesis using stop by simp
qed

subsection \<open>The configuration text\<close>

text \<open>Basic strings as the client's configuration language (TOML) defines them, after the opening quote.\<close>

definition toml_escapes :: "(char \<times> char) list" where
  "toml_escapes = [(CHR 0x22, CHR 0x22), (CHR 0x5C, CHR 0x5C), (CHR ''b'', CHR 0x08), (CHR ''t'', CHR 0x09),
     (CHR ''n'', CHR 0x0A), (CHR ''f'', CHR 0x0C), (CHR ''r'', CHR 0x0D)]"

fun toml_tail :: "string \<Rightarrow> string option" where
  "toml_tail [] = None"
| "toml_tail (c # s) =
     (if c = CHR 0x22 then (if s = [] then Some [] else None)
      else if c = CHR 0x5C then
        (case s of
           [] \<Rightarrow> None
         | d # s \<Rightarrow> (case map_of toml_escapes d of None \<Rightarrow> None | Some e \<Rightarrow> map_option (Cons e) (toml_tail s)))
      else if (of_char c :: nat) < 0x20 \<and> c \<noteq> TAB then None
      else map_option (Cons c) (toml_tail s))"

definition toml_string :: "string \<Rightarrow> string option" where
  "toml_string l = (case l of c # s \<Rightarrow> if c = CHR 0x22 then toml_tail s else None | [] \<Rightarrow> None)"

text \<open>What the lines of a text give the key \<open>k\<close>.\<close>

definition toml_values :: "string \<Rightarrow> string list \<Rightarrow> string option list" where
  "toml_values k ls = map (\<lambda>l. toml_string (drop (length k + 3) l)) (filter (prefix (k @ '' = '')) ls)"

text \<open>The characters that both Go's quoting and that language write alike.\<close>

definition tame :: "char \<Rightarrow> bool" where
  "tame c \<longleftrightarrow> (let n = of_char c :: nat in 0x20 \<le> n \<and> n < 0x7F \<or> n \<in> {8, 9, 10, 12, 13})"

lemma char_is: "(of_char c :: nat) = n \<Longrightarrow> c = char_of n"
  by auto

lemma chars: "char_of (8 :: nat) = CHR 0x08" "char_of (9 :: nat) = CHR 0x09" "char_of (10 :: nat) = CHR 0x0A"
  "char_of (12 :: nat) = CHR 0x0C" "char_of (13 :: nat) = CHR 0x0D"
  by code_simp+

lemma quote_char_read:
  assumes "tame c"
  shows "toml_tail (quote_char c @ r) = map_option (Cons c) (toml_tail r)"
proof (cases "0x20 \<le> (of_char c :: nat)")
  case True
  then show ?thesis using assms by (auto simp: quote_char_def tame_def Let_def toml_escapes_def)
next
  case False
  then have "(of_char c :: nat) \<in> {8, 9, 10, 12, 13}" using assms by (auto simp: tame_def Let_def)
  then have "c \<in> {CHR 0x08, CHR 0x09, CHR 0x0A, CHR 0x0C, CHR 0x0D}"
    using char_is [of c 8] char_is [of c 9] char_is [of c 10] char_is [of c 12] char_is [of c 13] unfolding chars by blast
  then show ?thesis by (auto simp: quote_char_def Let_def toml_escapes_def)
qed

lemma tame_small: "tame c \<Longrightarrow> (of_char c :: nat) < 0x80"
  by (auto simp: tame_def Let_def)

lemma go_quote_read: "list_all tame v \<Longrightarrow> toml_string (go_quote H v) = Some v"
proof -
  assume "list_all tame v"
  then have "toml_tail (quote_body H v @ [CHR 0x22]) = Some v"
    by (induction v) (simp_all add: quote_char_read tame_small)
  then show ?thesis by (simp add: toml_string_def go_quote_def)
qed

lemma quote_char_line: "tame c \<Longrightarrow> NL \<notin> set (quote_char c)"
  by (auto simp: quote_char_def tame_def Let_def)

lemma go_quote_line: "list_all tame v \<Longrightarrow> NL \<notin> set (go_quote H v)"
proof -
  assume "list_all tame v"
  then have "NL \<notin> set (quote_body H v)" by (induction v) (auto simp: quote_char_line tame_small)
  then show ?thesis by (simp add: go_quote_def)
qed

lemma split_lines: "list_all (\<lambda>l. NL \<notin> set l) ls \<Longrightarrow> split_on NL (concat (map (\<lambda>l. l @ [NL]) ls)) = ls @ [[]]"
  by (induction ls) (simp_all add: split_on_append)

lemma itoa_line: "NL \<notin> set (Itoa i)"
proof -
  have "NL \<notin> set (nat_itoa n)" for n
    using itoa_digits [of NL n] by (auto simp: Itoa_def is_digit_def)
  then show ?thesis by (simp add: Itoa_def)
qed

text \<open>Every text that the text of the configuration takes from the tunnel is tame.\<close>

definition tame_tunnel :: "frpTunnel \<Rightarrow> bool" where
  "tame_tunnel t \<longleftrightarrow> list_all tame (ft_Name t) \<and> (\<forall>k v. fmlookup (ft_Config t) k = Some (CText v) \<longrightarrow> list_all tame v)"

lemma tame_trim: "list_all tame s \<Longrightarrow> list_all tame (TrimSpace s)"
  using set_TrimSpace [of s] by (auto simp: list_all_iff)

lemma tame_first: "list_all (list_all tame) vs \<Longrightarrow> list_all tame (firstNonEmpty vs)"
  by (auto simp: firstNonEmpty_def filter_eq_Cons_iff intro!: tame_trim split: list.splits)

lemma tame_conf: "tame_tunnel t \<Longrightarrow> list_all tame (conf_text t k)"
  by (auto simp: conf_text_def tame_tunnel_def intro!: tame_trim split: option.splits conf_value.splits)

lemma tame_literals: "list_all tame ''tcp''" "list_all tame ''127.0.0.1''" "list_all tame ''tunnel''"
  by code_simp+

lemma tame_fields:
  assumes "tame_tunnel t"
  shows "list_all tame (tunnel_name t)" "list_all tame (firstNonEmpty [conf_text t ''type'', ''tcp''])"
    "list_all tame (firstNonEmpty [conf_text t ''localIP'', ''127.0.0.1''])"
proof -
  have first: "list_all tame (firstNonEmpty [a, b])" if "list_all tame a" "list_all tame b" for a b
    by (rule tame_first) (simp only: list.pred_inject that simp_thms)
  have first3: "list_all tame (firstNonEmpty [a, b, c])" if "list_all tame a" "list_all tame b" "list_all tame c" for a b c
    by (rule tame_first) (simp only: list.pred_inject that simp_thms)
  show "list_all tame (firstNonEmpty [conf_text t ''type'', ''tcp''])" by (rule first [OF tame_conf [OF assms] tame_literals(1)])
  show "list_all tame (firstNonEmpty [conf_text t ''localIP'', ''127.0.0.1''])" by (rule first [OF tame_conf [OF assms] tame_literals(2)])
  have "list_all tame (ft_Name t)" using assms by (simp add: tame_tunnel_def)
  then show "list_all tame (tunnel_name t)" unfolding tunnel_name_def by (rule first3 [OF tame_conf [OF assms] _ tame_literals(3)])
qed

lemmas tame_lines = tame_fields tame_conf

lemma frp_lines_whole: "tame_tunnel t \<Longrightarrow> list_all (\<lambda>l. NL \<notin> set l) (frp_lines H big t)"
  by (simp add: frp_lines_def Let_def go_quote_line itoa_line tame_lines)

lemma values_append: "toml_values k (xs @ ys) = toml_values k xs @ toml_values k ys"
  by (simp add: toml_values_def)

lemma values_if: "toml_values k (if b then xs else []) = (if b then toml_values k xs else [])"
  by (simp add: toml_values_def)


subsection \<open>Examples\<close>

definition w_env :: frp_env where
  "w_env =
     \<lparr>fe_dataDir = ''/d'', fe_LookPath = Some ''/bin/frpc'', fe_spawn = (\<lambda>_ _. True), fe_quote = (\<lambda>_. (0, [])), fe_int = (\<lambda>_. 0),
      fe_codec = \<lparr>fc_write = (\<lambda>_. ''[]''), fc_read = (\<lambda>_. None)\<rparr>\<rparr>"

definition w_open :: operationGate where
  "w_open = \<lparr>og_closed = False, og_count = 0\<rparr>"

definition w_files :: fs where
  "w_files = fmap_of_list [([], FDir), ([''d''], FDir)]"

definition w_body :: "(string \<times> string \<times> conf) option" where
  "w_body = Some (''web'', ''self'', fmap_of_list [(''toml'', CText ''serverPort = 7000'')])"

text \<open>Two tunnels; one client is stopped, the other ends and is started again.\<close>

definition w_requests :: "frp_event list" where
  "w_requests = [Create ''a'' w_body, Create ''b'' w_body, Stop True ''a'', Ends 1, Start ''b'']"

lemma w_run: "fr_live (fst (frp_run w_env w_requests (frp_fresh w_open, w_files))) = [2]"
  by code_simp

theorem no_stray_client_witness:
  "let S = fst (frp_run w_env w_requests (frp_fresh w_open, w_files)) in
   fr_live S = [2] \<and> (\<exists>!r. r \<in> set (fr_list S) \<and> ft_proc (tunnel S r) = Some 2) \<and>
   (case frpStopAll (\<lambda>_. True) (fr_list S) S of (es, S') \<Rightarrow> es = [] \<and> fr_live S' = [])"
proof -
  obtain S fs where run: "frp_run w_env w_requests (frp_fresh w_open, w_files) = (S, fs)" by fastforce
  have "ReadFile (frpTunnelsFile w_env) w_files = None" by code_simp
  then have load: "frpLoad w_env w_files (frp_fresh w_open) = Some (frp_fresh w_open)" by (simp add: frpLoad_def)
  have new: "distinct (ids (frp_fresh w_open) @ concat (map new_id w_requests))" "list_all smooth w_requests" by code_simp+
  have live: "fr_live S = [2]" using w_run by (simp add: run)
  show ?thesis using no_stray_client [OF load new run] live by (simp add: run)
qed

text \<open>A client that cannot be killed outlives its tunnel, as the deletion ignores that error.\<close>

lemma unkillable_client_left:
  "let S = fst (frp_run w_env [Create ''a'' w_body, Delete False ''a''] (frp_fresh w_open, w_files)) in
   fr_list S = [] \<and> fr_live S = [0]"
  by code_simp

text \<open>Two tunnels of one identifier in the file: the deletion drops both and stops the client of the last.\<close>

lemma same_identifier_left:
  "let S = fst (frp_run w_env [Create ''a'' w_body, Create ''a'' w_body, Delete True ''a''] (frp_fresh w_open, w_files)) in
   fr_list S = [] \<and> fr_live S = [0]"
  by code_simp

text \<open>A token with quotes and a line feed in it.\<close>

definition w_token :: string where
  "w_token = ''a'' @ [CHR 0x22, NL] @ ''user = '' @ [CHR 0x22] @ ''b''"

definition w_tunnel :: frpTunnel where
  "w_tunnel =
     \<lparr>ft_ID = ''a'', ft_Name = ''web'', ft_Provider = ''openfrp'',
      ft_Config = fmap_of_list [(''node'', CText ''frp.example.com''), (''localPort'', CNumber 25565), (''token'', CText w_token)],
      ft_Status = ''stopped'', ft_proc = None, ft_log = None\<rparr>"

lemma w_tunnel_built: "\<exists>text. buildFRPConfig H big w_tunnel = Inr text"
proof -
  have "TrimSpace ''frp.example.com'' \<noteq> []" by code_simp
  then show ?thesis by (simp add: buildFRPConfig_def w_tunnel_def conf_text_def conf_int_def Let_def fmlookup_of_list)
qed


end
