(* ===== verification/Spec2Isabelle.thy ===== *)
theory Spec2Isabelle
  imports LogRing LineLog Registries LoginGuard LoadTuner Lifecycle WebSocket Accounts VaultSafety
    StoreExamples Containers TrashSafety JailFiles SessionSafety AuditSafety Cors BackupSafety ClusterSafety ArchiveSafety Config TunnelSafety
begin

text \<open>
  A model of IriX-Node, the daemon that runs game servers on one machine (Go, cmd/irix-node).
  An HTTP API manages \<^emph>\<open>instances\<close> (a command, a working directory, an owner), starts and stops
  their processes, streams their output, and offers files, containers, downloads and a vault to
  accounts whose every endpoint is a switch.

  \<^bold>\<open>How the parts interact.\<close> A request arrives with a session token. \<open>authenticate\<close> turns it into
  an identity by way of the account system (process cache, Redis, SQL); the \<open>auth\<close> wrapper of
  the route table lets it through if the account's switch for the route is on; an instance
  handler then asks whether the account may use the instance, works on the registry and marks
  it dirty, and the save loop writes the registry. Starting an instance passes the start gate,
  takes the instance's busy mark, spawns the process and leaves a watcher that may restart it.
  The process writes into the log ring and, cut into lines, into the replay ring, from which a
  console reads over WebSocket frames. The handlers that work on files resolve the path of the
  request below a directory (\<open>Paths\<close>) and then change the tree (\<open>FileSys\<close>) or, for an encrypted
  instance, the vault's store. Trash, backups, jails, archives, transfer tickets and the cluster's
  sync area are such handlers; a backup is made and restored as a task of the task store, and a
  transfer between nodes asks another node for a backup. Every request leaves a line in the audit
  log, which the file logger buffers, rotates and archives.

  \<^bold>\<open>The theories\<close>, with the code they model (under src/cmd/irix-node):

  \<^item> \<open>Prelude\<close>: replies of handlers, lists, Go maps as finite maps. \<open>GoLib\<close>, \<open>GoText\<close>, \<open>GoPath\<close>: the
    functions of Go's strings, strconv, time and path/filepath packages that the code calls.
    \<open>Regexp\<close>: matching of the regular expressions the code uses. \<open>FileSys\<close>: trees of files and
    the functions of Go's os package on them.
  \<^item> \<open>LogRing\<close> (process.go, \<open>LogBuffer\<close>): a growing array that turns into a ring, refined to
    "the last bytes written"; the contract is the locale \<open>bounded_log\<close>.
  \<^item> \<open>LineLog\<close> (process.go, \<open>lineSplitter\<close>, \<open>logLines\<close>): chunking, the line limit, reconnection.
  \<^item> \<open>Registries\<close> (jobs.go, container.go, download.go): tasks, container jobs and transfer
    tickets, three bounded tables under the locale \<open>bounded_registry\<close>.
  \<^item> \<open>LoginGuard\<close> (accounts.go): the login throttle.
  \<^item> \<open>LoadTuner\<close> (loadtuner.go): judgement of samples and its debouncing.
  \<^item> \<open>Paths\<close> (main.go): paths confined to a directory, symbolic links, admissible working
    directories, splitting of command lines.
  \<^item> \<open>Access\<close> (accounts_handlers.go, perm_catalog.go and every \<open>register...Routes\<close>): token
    extraction, the permission catalogue, the complete route table, the guard of a route.
    \<open>Cors\<close> (cors.go): the decision on foreign origins and its middleware.
  \<^item> \<open>Daemon\<close> (daemon.go, instance.go): instances, saving and loading the registry with a locked
    or open vault, access to instances, the list, detail, create, update and delete handlers.
  \<^item> \<open>Lifecycle\<close> (instance.go, daemon.go, daemon_lifecycle.go): start, stop, kill, exit, automatic
    restart and removal as steps of concurrent requests on one instance, and the start gate.
  \<^item> \<open>ProcRecords\<close> (process_records.go): the records of processes that outlive a crash of the node,
    and what the next start does with them. \<open>ProcSafety\<close>: its properties.
  \<^item> \<open>WebSocket\<close> (websocket.go): reading and writing frames.
  \<^item> \<open>Accounts\<close> (accounts.go, accounts_handlers.go, auth.go): accounts, sessions and switches in
    three layers, authentication, every account handler, the first administrator.
  \<^item> \<open>Vault\<close> (vault.go, vault_handlers.go, internal/vaultcrypto): the vault's state and file, key
    tree, sessions, challenges, gate and handlers. \<open>VaultRuns\<close>: its events and runs, and what an
    invariant has to be closed under (locales \<open>quiet_closed\<close>, \<open>vault_closed\<close>, \<open>vault_invariant\<close>).
    \<open>VaultSafety\<close>: the invariants and properties of runs.
  \<^item> \<open>VaultStore\<close> (vault_store.go): the encrypted store, its objects, index and file operations, loading
    and flushing. \<open>StoreObjects\<close>: objects of any size in blocks. \<open>StoreFaults\<close>, \<open>StoreCrash\<close>: runs of
    operations with failures and crashes, refined to runs on a plain tree. \<open>StoreExamples\<close>: concrete
    runs. \<open>VaultMigrate\<close> (vault_migrate.go): taking an instance's files in and giving them back.
  \<^item> \<open>ContainerGuard\<close> (container_validate.go): the checks of container requests. \<open>Containers\<close>
    (container.go, container_docker.go): docker command lines, their handlers and long jobs.
  \<^item> \<open>Jails\<close>, \<open>JailSessions\<close>, \<open>JailFiles\<close> (container_bastille.go, container_bastille_mount.go,
    container_bastille_files.go): configuration, mounts, releases and templates of jails, run sessions
    and their logs, the files of a jail. \<open>JailSafety\<close>, \<open>SessionSafety\<close>: their properties.
  \<^item> \<open>Files\<close> (files.go): the file manager, plain and encrypted. \<open>FileSafety\<close>: its properties.
    \<open>Trash\<close> (trash.go) with \<open>TrashSafety\<close>. \<open>Backups\<close> (backup.go) with \<open>BackupSafety\<close>.
    \<open>Archives\<close> (the end of container.go) with \<open>ArchiveSafety\<close>. \<open>Transfers\<close> (download.go): uploads and
    downloads by ticket, with their properties.
  \<^item> \<open>Cluster\<close> (cluster.go): the sync area, the coordinator's state, the checks of addresses and the
    transfer from another node. \<open>ClusterSafety\<close>: its properties.
  \<^item> \<open>Config\<close> (config.go, embedded.go, the checks of \<open>runNode\<close> in main.go): the configuration file, its merging
    with the flags, the checks at the start and what of it reaches the vault, with the properties.
  \<^item> \<open>Tunnels\<close> (frp.go): the list of tunnels, the configuration text, the clients' life and the requests.
    \<open>TunnelSafety\<close>: runs of requests, the invariant of the clients, the reading of the text.
  \<^item> \<open>FileLog\<close> (logger.go, instance_logs.go): the file logger, rotation and archive, reading by lines.
    \<open>LogSafety\<close>: its properties. \<open>AuditTrail\<close> (audit.go): capturing, masking and writing the audit
    line. \<open>AuditSafety\<close>: its properties.

  \<^bold>\<open>Correspondence.\<close> Definitions have the names of the code; a Go method on a type with a common
  name carries the type in front (\<open>task_create\<close> is \<open>taskStore.create\<close>). A struct is a record whose
  fields keep their names behind a short prefix. A handler is a function from the caller's
  identity, the decoded request and the state to a reply (status and message, or data) and the
  new state, with the branches in the order of the code; an outer \<open>None\<close> is a panic or a loop that
  does not return, as the theory says. Messages are paraphrased in English.
  Bytes of strings are characters; integers that can overflow wrap explicitly (\<open>wrap64\<close>) or are
  words (\<open>WebSocket\<close>, the addresses of \<open>Cluster\<close>); all others stay far from the bounds of \<open>int64\<close>.

  \<^bold>\<open>What is outside\<close>, and the hypotheses under which it is used.
  \<^item> Results of operating-system calls are arguments (\<open>save_io\<close>, \<open>remove_io\<close>, \<open>os_env\<close>, the resolution of
    links). A tree of \<open>FileSys\<close> has no links, modes or times; links are in the parameter that resolves
    paths, which gives absolute paths (\<open>eval_abs\<close>), clean ones (\<open>eval_clean\<close>) or changes nothing
    (\<open>no_links\<close>). Times of files (\<open>mtime\<close>), the formatted time (\<open>stamp\<close>), what the disk accepts (\<open>disk\<close>) and the
    files that vanish during a walk (\<open>gone\<close>) are arguments, and so is the clock.
  \<^item> SQL, Redis and bcrypt are the parameter \<open>services\<close>, under \<open>services_ok\<close>, which \<open>mem_services\<close>
    satisfies. Ciphers, hashes and certificates are the parameter \<open>crypto\<close>, under \<open>authentic\<close> (what a
    wrap gives back is what was wrapped) or \<open>sealing\<close> (and it is 28 bytes longer), which concrete
    instances satisfy; \<open>key_sized\<close> says that the random source gives the 32 bytes it is asked for.
  \<^item> JSON texts are codecs (\<open>index_codec\<close>, \<open>trash_codec\<close>, \<open>record_codec\<close>), the zip format is \<open>zip_format\<close>; the
    hypotheses \<open>codec_ok\<close>, \<open>trash_codec_ok\<close>, \<open>zip_reads\<close> and \<open>archive_reads\<close> say that reading gives what was
    written, each with a concrete instance in its witness. \<open>fits\<close> is an admissible block size, and content whose
    blocks 32 bits can count.
  \<^item> The tunnel client is a program: whether it starts, ends and can be killed are arguments (\<open>frp_env\<close>,
    \<open>smooth\<close>: every kill succeeds); \<open>tame_tunnel\<close> restricts texts to characters that Go and TOML quote alike.
  \<^item> Docker and bastille are parameters (\<open>docker\<close>, \<open>engine\<close>) that answer command lines. Other nodes,
    their answers, DNS and dialling are \<open>transfer_env\<close> and \<open>transfer_peer\<close>; parsing of URLs for origins is
    \<open>cors_env\<close>.
  \<^item> The remaining named hypotheses describe where things are: \<open>unused_id\<close> (a new identifier is new),
    \<open>jail_at\<close> (a jail's root), \<open>quiet\<close> (the commands of the system leave the
    modelled tree alone), \<open>log_place\<close> (the
    directories of a log), \<open>snapshot_made\<close> (a snapshot that ended well).
  The order in which Go walks a map is a parameter.

  \<^bold>\<open>Termination.\<close> A loop whose end is not evident is a partial function in the option monad, \<open>None\<close>
  standing for a loop that does not return: the doubling and the overwriting loop of the log
  ring, eviction from the throttle, resolution of a path prefix, the check of links in a mount, the
  walk that copies a tree into itself, the search for a free name when restoring. The properties
  about them state that they return, or that they need not. The loops over lines of output are
  functions with termination proofs. Fuel stands for the two bounds that are times in the code:
  \<open>follow\<close> takes as many redirects as fit in the client's thirty minutes, and \<open>poll_snapshot\<close> asks at most
  as often as fits in fifteen minutes, one second apart (902 questions are enough); the properties
  hold for every amount of it.

  \<^bold>\<open>What the lemmas show.\<close>
  \<^item> Safety of access: a handler runs only on an open route or for an identity that may use it;
    an instance of another account is closed; revoked sessions are dead in every layer; no
    request passes the vault's gate without an unlocking with all factors; the vault's list is
    never saved in the clear while it is locked; a ticket opens one file for ten minutes.
  \<^item> Confinement: accepted paths lie below the working directory, and the handlers of files, jails,
    backups, archives, uploads and cluster transfers change the tree below their directory only,
    whatever names a request or an archive carries; mounts reach no sensitive directory; docker
    reads the command line of a request as the request; transfers dial checked addresses only.
  \<^item> Refinements and equivalences: the log ring is the last bytes of the stream, a session's log
    answers as the stream does; any run of store operations, with failures, is the run of those that
    succeeded on a plain tree, and a crash shows the last flush; the last lines of a log are those of
    the files in a row; the check of addresses is membership in ranges.
  \<^item> Invariants: the bounded tables, the catalogue, the watcher of every live process under any
    interleaving of requests, the one master key of the vault in any run, the store's objects, the
    audit log complete over rotations, the clients of tunnels.
  \<^item> Round trips: saving and loading, command lines, frames, files of any size through the store, the
    backup of the store, trash, snapshots, archives, the configuration text of a tunnel.
  \<^item> Audit: one line per request, credentials masked. The keyed lines of jail configurations are the
    locale \<open>keyed_lines\<close>.
  \<^item> Defects the model exposes, each as a theorem about the code as it is: among them two processes
    of one instance, the return of a deleted instance, the job table that fills for good, a TOTP code
    that opens the vault in three windows, a torn record that blocks the start, snapshots that are
    too large to be restored, the token that follows redirects, iterations of the vault that the file
    sets in vain.

  \<^bold>\<open>Not modelled\<close>: operating-system glue (process creation, platform and hardware queries, the
  start-up and shutdown of the server, opening of databases), the WebSocket handshake and the
  goroutines that relay a console, the asynchronous console logger; downloads of server cores and of
  Java, which are sequences of HTTP requests and unpacking; plugins, instance import, metrics and
  statistics, which read files and counters; the stubs of container engines
  on other platforms, which refuse everything. The streaming of docker builds and the parsing of
  docker's sizes and times are left out of \<open>Containers\<close>. Locks are not modelled except where the steps
  of requests interleave (\<open>Lifecycle\<close>).
\<close>

end
